(* ===== verification/Prelude.thy ===== *)
theory Prelude
  imports Main "HOL-Library.AList" "HOL-Library.Char_ord" "HOL-Library.Signed_Division"
begin

text \<open>
  Shared vocabulary of the development: results of code that may throw, JavaScript numbers and
  strings as far as the SDK uses them, insertion-ordered dictionaries, and the two interfaces
  (keyed stores and fallible state machines) that several components share.

  Strings are lists of \<^typ>\<open>char\<close>; a character stands for a UTF-16 code unit below 256, and the
  case mappings are exact on ASCII. The binary serializer, where the encoding of every code unit
  matters, uses 16-bit words instead.
\<close>

section \<open>Results\<close>

named_theorems result_simps \<open>unfolding of code that may throw\<close>

type_synonym ('e, 'a) result = "'e + 'a"

definition bind_result :: "('e, 'a) result \<Rightarrow> ('a \<Rightarrow> ('e, 'b) result) \<Rightarrow> ('e, 'b) result" where
  "bind_result r f = (case r of Inl e \<Rightarrow> Inl e | Inr x \<Rightarrow> f x)"

definition throw_if :: "bool \<Rightarrow> 'e \<Rightarrow> ('e, unit) result" where
  "throw_if c e = (if c then Inl e else Inr ())"

lemma bind_result_simps [simp, result_simps]:
  "bind_result (Inl e) f = Inl e"
  "bind_result (Inr x) f = f x"
  by (simp_all add: bind_result_def)

lemma bind_result_Inr_iff [result_simps]:
  "bind_result r f = Inr y \<longleftrightarrow> (\<exists>x. r = Inr x \<and> f x = Inr y)"
  by (cases r) auto

lemma bind_result_Inl_iff [result_simps]:
  "bind_result r f = Inl e \<longleftrightarrow> r = Inl e \<or> (\<exists>x. r = Inr x \<and> f x = Inl e)"
  by (cases r) auto

lemma throw_if_simps [simp, result_simps]:
  "throw_if True e = Inl e"
  "throw_if False e = Inr ()"
  by (simp_all add: throw_if_def)

lemma throw_if_Inr_iff [result_simps]: "throw_if c e = Inr u \<longleftrightarrow> \<not> c"
  by (cases c) simp_all

lemma throw_if_Inl_iff [result_simps]: "throw_if c e = Inl e' \<longleftrightarrow> c \<and> e' = e"
  by (cases c) auto

definition is_ok :: "('e, 'a) result \<Rightarrow> bool" where
  "is_ok r = (case r of Inl _ \<Rightarrow> False | Inr _ \<Rightarrow> True)"

lemma is_ok_simps [simp, result_simps]: "\<not> is_ok (Inl e)" "is_ok (Inr x)"
  by (simp_all add: is_ok_def)

lemma is_ok_iff: "is_ok r \<longleftrightarrow> (\<exists>x. r = Inr x)"
  by (cases r) auto

section \<open>Numbers\<close>

text \<open>
  A JavaScript number is modelled as an integer where the code has checked it to be one, or where
  it is a count or a time in milliseconds. Where the code still has to check, it is a \<open>jsnum\<close>:
  \<open>Whole n\<close>, or \<open>NonInteger\<close> for fractions, \<open>NaN\<close> and the infinities.
\<close>

datatype jsnum = Whole int | NonInteger

definition is_integer :: "jsnum \<Rightarrow> bool" where
  "is_integer x = (case x of Whole _ \<Rightarrow> True | NonInteger \<Rightarrow> False)"

lemma is_integer_simps [simp]: "is_integer (Whole n)" "\<not> is_integer NonInteger"
  by (simp_all add: is_integer_def)

lemma is_integer_iff: "is_integer x \<longleftrightarrow> (\<exists>n. x = Whole n)"
  by (cases x) simp_all

text \<open>\<open>Number.MAX_SAFE_INTEGER\<close>\<close>

definition max_safe_integer :: int where
  "max_safe_integer = 9007199254740991"

text \<open>
  \<open>bigint\<close> division and remainder truncate towards zero: they are \<open>sdiv\<close> and \<open>smod\<close> of the
  library. On non-negative arguments they agree with \<open>div\<close> and \<open>mod\<close>.
\<close>

lemma sdiv_nonneg: "0 \<le> a \<Longrightarrow> 0 < b \<Longrightarrow> (a::int) sdiv b = a div b"
  by (cases "a = 0") (simp_all add: signed_divide_int_def)

lemma smod_nonneg: "0 \<le> a \<Longrightarrow> 0 < b \<Longrightarrow> (a::int) smod b = a mod b"
  by (cases "a = 0") (simp_all add: signed_modulo_int_def)

lemma sdiv_neg: "a < 0 \<Longrightarrow> 0 < b \<Longrightarrow> (a::int) sdiv b = - ((- a) div b)"
  by (simp add: signed_divide_int_def)

lemma smod_neg: "a < 0 \<Longrightarrow> 0 < b \<Longrightarrow> (a::int) smod b = - ((- a) mod b)"
  by (simp add: signed_modulo_int_def)

lemma sdiv_mult_smod:
  assumes "0 < (b::int)"
  shows "a sdiv b * b + a smod b = a"
proof (cases "a < 0")
  case True
  have "- a div b * b + - a mod b = - a" by (rule div_mult_mod_eq)
  then have "- (- a div b) * b + - (- a mod b) = a" by (simp only: mult_minus_left)
  with True assms show ?thesis by (simp add: sdiv_neg smod_neg)
next
  case False
  with assms show ?thesis by (simp add: sdiv_nonneg smod_nonneg)
qed

lemma smod_eq_0_iff: "0 < b \<Longrightarrow> (a::int) smod b = 0 \<longleftrightarrow> b dvd a"
  by (cases "a < 0") (auto simp: smod_neg smod_nonneg mod_eq_0_iff_dvd)

section \<open>Strings\<close>

definition js_space :: "char \<Rightarrow> bool" where
  "js_space c = (let n = (of_char c :: nat) in (9 \<le> n \<and> n \<le> 13) \<or> n = 32 \<or> n = 160)"

definition js_trim :: "string \<Rightarrow> string" where
  "js_trim s = rev (dropWhile js_space (rev (dropWhile js_space s)))"

text \<open>\<open>!s || s.trim() === ""\<close> of an optional string\<close>

definition blank :: "string \<Rightarrow> bool" where
  "blank s = (js_trim s = [])"

definition truthy :: "string option \<Rightarrow> bool" where
  "truthy s = (case s of None \<Rightarrow> False | Some x \<Rightarrow> x \<noteq> [])"

lemma truthy_simps [simp]: "\<not> truthy None" "truthy (Some x) \<longleftrightarrow> x \<noteq> []"
  by (simp_all add: truthy_def)

lemma blank_Nil [simp]: "blank []"
  by (simp add: blank_def js_trim_def)

lemma blank_iff: "blank s \<longleftrightarrow> list_all js_space s"
proof -
  have "blank s \<longleftrightarrow> (\<forall>c \<in> set (dropWhile js_space s). js_space c)" by (simp add: blank_def js_trim_def dropWhile_eq_Nil_conv)
  also have "\<dots> \<longleftrightarrow> list_all js_space s" by (induction s) auto
  finally show ?thesis .
qed

lemma js_trim_no_space: "\<forall>c \<in> set s. \<not> js_space c \<Longrightarrow> js_trim s = s"
proof -
  assume *: "\<forall>c \<in> set s. \<not> js_space c"
  have 0: "dropWhile js_space t = t" if "\<forall>c \<in> set t. \<not> js_space c" for t :: string
    using that by (cases t) simp_all
  have "dropWhile js_space (rev s) = rev s" using * by (intro 0) simp
  with * show ?thesis by (simp add: js_trim_def 0)
qed

lemma dropWhile_idem_hd: "dropWhile P xs = xs" if "xs = [] \<or> \<not> P (hd xs)"
  using that by (cases xs) simp_all

lemma js_trim_no_space_ends:
  assumes "s = [] \<or> (\<not> js_space (hd s) \<and> \<not> js_space (last s))"
  shows "js_trim s = s"
proof -
  have 1: "dropWhile js_space s = s" using assms by (auto intro: dropWhile_idem_hd)
  have 2: "dropWhile js_space (rev s) = rev s"
    using assms by (auto intro: dropWhile_idem_hd simp: hd_rev)
  show ?thesis by (simp add: js_trim_def 1 2)
qed

lemma set_js_trim: "set (js_trim s) \<subseteq> set s"
  by (auto simp: js_trim_def dest!: set_dropWhileD)

lemma js_trim_hd_last:
  assumes "js_trim s \<noteq> []"
  shows "\<not> js_space (hd (js_trim s)) \<and> \<not> js_space (last (js_trim s))"
proof -
  let ?t = "dropWhile js_space s"
  let ?u = "dropWhile js_space (rev ?t)"
  have u: "?u \<noteq> []" using assms by (simp add: js_trim_def)
  then have l: "\<not> js_space (last (js_trim s))"
    by (simp add: js_trim_def last_rev hd_dropWhile)
  obtain p where p: "rev ?t = p @ ?u" by (metis takeWhile_dropWhile_id)
  then have t: "?t = rev ?u @ rev p" by (metis rev_append rev_rev_ident)
  have "?t \<noteq> []" using u by (cases "?t = []") simp_all
  then have "\<not> js_space (hd ?t)" by (rule hd_dropWhile)
  then have "\<not> js_space (hd (rev ?u))" using t u by (metis hd_append2 rev_is_Nil_conv)
  with l show ?thesis by (simp add: js_trim_def)
qed

lemma js_trim_idem [simp]: "js_trim (js_trim s) = js_trim s"
  by (cases "js_trim s = []") (simp_all add: js_trim_no_space_ends js_trim_hd_last)

definition js_lower_char :: "char \<Rightarrow> char" where
  "js_lower_char c = (let n = (of_char c :: nat) in if 65 \<le> n \<and> n \<le> 90 then char_of (n + 32) else c)"

definition js_upper_char :: "char \<Rightarrow> char" where
  "js_upper_char c = (let n = (of_char c :: nat) in if 97 \<le> n \<and> n \<le> 122 then char_of (n - 32) else c)"

definition js_lower :: "string \<Rightarrow> string" where
  "js_lower s = map js_lower_char s"

definition js_upper :: "string \<Rightarrow> string" where
  "js_upper s = map js_upper_char s"

text \<open>\<open>s.split(sep)\<close> for a one-character separator\<close>

fun js_split :: "char \<Rightarrow> string \<Rightarrow> string list" where
  "js_split sep [] = [[]]"
| "js_split sep (c # cs) =
     (if c = sep then [] # js_split sep cs
      else (case js_split sep cs of [] \<Rightarrow> [[c]] | w # ws \<Rightarrow> (c # w) # ws))"

lemma js_split_nonempty [simp]: "js_split sep s \<noteq> []"
  by (cases s) (auto split: list.splits)

lemma js_split_no_sep: "sep \<notin> set s \<Longrightarrow> js_split sep s = [s]"
  by (induction s) auto

lemma js_split_append: "sep \<notin> set s \<Longrightarrow> js_split sep (s @ sep # t) = s # js_split sep t"
  by (induction s) auto

lemma takeWhile_neq: "x \<notin> set a \<Longrightarrow> takeWhile (\<lambda>c. c \<noteq> x) (a @ x # b) = a"
  by (induction a) auto

lemma dropWhile_neq: "x \<notin> set a \<Longrightarrow> dropWhile (\<lambda>c. c \<noteq> x) (a @ x # b) = x # b"
  by (induction a) auto

text \<open>Does a pattern of code units occur in a string?\<close>

fun is_prefix :: "'a list \<Rightarrow> 'a list \<Rightarrow> bool" where
  "is_prefix [] ys = True"
| "is_prefix (x # xs) [] = False"
| "is_prefix (x # xs) (y # ys) = (x = y \<and> is_prefix xs ys)"

definition ends_with :: "string \<Rightarrow> string \<Rightarrow> bool" where
  "ends_with s e = is_prefix (rev e) (rev s)"

fun occurs_in :: "'a list \<Rightarrow> 'a list \<Rightarrow> bool" where
  "occurs_in p [] = (p = [])"
| "occurs_in p (y # ys) = (is_prefix p (y # ys) \<or> occurs_in p ys)"

lemma is_prefix_iff: "is_prefix p s \<longleftrightarrow> (\<exists>t. s = p @ t)"
  by (induction p s rule: is_prefix.induct) auto

lemma occurs_in_iff: "occurs_in p s \<longleftrightarrow> (\<exists>a b. s = a @ p @ b)"
proof (induction s)
  case Nil
  then show ?case by simp
next
  case (Cons y ys)
  have "(\<exists>a b. y # ys = a @ p @ b) \<longleftrightarrow> (\<exists>b. y # ys = p @ b) \<or> (\<exists>a b. ys = a @ p @ b)"
    by (metis append_Cons append_Nil list.inject neq_Nil_conv)
  with Cons show ?case by (simp add: is_prefix_iff)
qed

section \<open>Insertion-ordered dictionaries\<close>

text \<open>
  A JavaScript \<open>Map\<close>, and an object whose keys are not array indices, iterates in insertion order;
  storing under a present key keeps its place. That is the association list of the library:
  \<open>AList.update\<close> stores, \<open>map_of\<close> looks up, \<open>AList.delete\<close> removes.
\<close>

type_synonym ('k, 'v) dict = "('k \<times> 'v) list"

abbreviation dict_put :: "'k \<Rightarrow> 'v \<Rightarrow> ('k, 'v) dict \<Rightarrow> ('k, 'v) dict" where
  "dict_put \<equiv> AList.update"

abbreviation dict_get :: "('k, 'v) dict \<Rightarrow> 'k \<Rightarrow> 'v option" where
  "dict_get \<equiv> map_of"

definition dict_values :: "('k, 'v) dict \<Rightarrow> 'v list" where
  "dict_values d = map snd d"

definition dict_ok :: "('k, 'v) dict \<Rightarrow> bool" where
  "dict_ok d = distinct (map fst d)"

lemma dict_ok_Nil [simp]: "dict_ok []"
  by (simp add: dict_ok_def)

lemma dict_ok_put [simp]: "dict_ok d \<Longrightarrow> dict_ok (dict_put k v d)"
  by (simp add: dict_ok_def distinct_update)

lemma dict_ok_delete: "dict_ok d \<Longrightarrow> dict_ok (AList.delete k d)"
  by (simp add: dict_ok_def distinct_delete)

lemma length_dict_put: "length (dict_put k v d) = (if dict_get d k = None then Suc (length d) else length d)"
  by (induction d) auto

lemma in_dict_values_iff: "dict_ok d \<Longrightarrow> v \<in> set (dict_values d) \<longleftrightarrow> (\<exists>k. dict_get d k = Some v)"
  by (force simp: dict_ok_def dict_values_def)

text \<open>The interface: what a lookup returns after an insert or a removal.\<close>

locale keyed_store =
  fixes empty :: "'s"
    and put :: "'k \<Rightarrow> 'v \<Rightarrow> 's \<Rightarrow> 's"
    and del :: "'k \<Rightarrow> 's \<Rightarrow> 's"
    and get :: "'s \<Rightarrow> 'k \<Rightarrow> 'v option"
    and ok :: "'s \<Rightarrow> bool"
  assumes ok_empty: "ok empty"
    and ok_put: "ok s \<Longrightarrow> ok (put k v s)"
    and ok_del: "ok s \<Longrightarrow> ok (del k s)"
    and get_empty: "get empty k = None"
    and get_put: "ok s \<Longrightarrow> get (put k v s) = (get s)(k \<mapsto> v)"
    and get_del: "ok s \<Longrightarrow> get (del k s) = (get s)(k := None)"
begin

lemma get_put_same: "ok s \<Longrightarrow> get (put k v s) k = Some v"
  by (simp add: get_put)

lemma get_put_other: "ok s \<Longrightarrow> k' \<noteq> k \<Longrightarrow> get (put k v s) k' = get s k'"
  by (simp add: get_put)

lemma get_del_other: "ok s \<Longrightarrow> k' \<noteq> k \<Longrightarrow> get (del k s) k' = get s k'"
  by (simp add: get_del)

lemma put_put: "ok s \<Longrightarrow> get (put k v (put k w s)) = get (put k v s)"
  by (simp add: get_put ok_put)

lemma all_put:
  "ok s \<Longrightarrow> (\<And>k' v'. get s k' = Some v' \<Longrightarrow> P k' v') \<Longrightarrow> P k v \<Longrightarrow> get (put k v s) k'' = Some u \<Longrightarrow> P k'' u"
  by (cases "k'' = k") (simp_all add: get_put)

end

interpretation dict: keyed_store "[]" dict_put AList.delete dict_get dict_ok
  by unfold_locales (auto simp: dict_ok_delete update_conv' delete_conv')

section \<open>Fallible state machines\<close>

text \<open>
  An object whose methods throw before they write: a failing operation leaves the state as it was
  and the client goes on. A run applies a list of operations.
\<close>

fun run_ops :: "('o \<Rightarrow> 's \<Rightarrow> ('e, 's) result) \<Rightarrow> 'o list \<Rightarrow> 's \<Rightarrow> 's" where
  "run_ops step [] s = s"
| "run_ops step (x # xs) s =
     run_ops step xs (case step x s of Inl _ \<Rightarrow> s | Inr t \<Rightarrow> t)"

lemma run_ops_append: "run_ops step (xs @ ys) s = run_ops step ys (run_ops step xs s)"
  by (induction xs arbitrary: s) simp_all

locale fallible_machine =
  fixes step :: "'o \<Rightarrow> 's \<Rightarrow> ('e, 's) result"
    and inv :: "'s \<Rightarrow> bool"
  assumes step_inv: "inv s \<Longrightarrow> step x s = Inr t \<Longrightarrow> inv t"
begin

lemma run_inv: "inv s \<Longrightarrow> inv (run_ops step xs s)"
  by (induction xs arbitrary: s) (auto split: sum.split dest: step_inv)

end

text \<open>A machine whose state also only moves up in a preorder.\<close>

locale monotone_machine = fallible_machine step inv
  for step :: "'o \<Rightarrow> 's \<Rightarrow> ('e, 's) result" and inv :: "'s \<Rightarrow> bool" +
  fixes below :: "'s \<Rightarrow> 's \<Rightarrow> bool"
  assumes below_refl: "below s s"
    and below_trans: "below s t \<Longrightarrow> below t u \<Longrightarrow> below s u"
    and step_below: "inv s \<Longrightarrow> step x s = Inr t \<Longrightarrow> below s t"
begin

lemma run_below: "inv s \<Longrightarrow> below s (run_ops step xs s)"
proof (induction xs arbitrary: s)
  case Nil
  then show ?case by (simp add: below_refl)
next
  case (Cons x xs)
  show ?case
  proof (cases "step x s")
    case (Inl e)
    with Cons show ?thesis by simp
  next
    case (Inr t)
    have "below s t" and "below t (run_ops step xs t)"
      using Cons Inr step_inv step_below by blast+
    with Inr show ?thesis by (auto intro: below_trans)
  qed
qed

end

end
