(* ===== verification/Digits.thy ===== *)
theory Digits
  imports Prelude
begin

text \<open>
  Numbers as strings, as the SDK's code uses them through the language: \<open>toString(radix)\<close>,
  \<open>BigInt(s)\<close> and \<open>parseInt(s, radix)\<close> on digit strings, \<open>padStart\<close>, \<open>padEnd\<close> and \<open>slice(-n)\<close>.
\<close>

section \<open>Digits\<close>

definition digit_char :: "nat \<Rightarrow> char" where
  "digit_char d = (if d < 10 then char_of (48 + d) else char_of (87 + d))"

definition digit_value :: "char \<Rightarrow> nat" where
  "digit_value c =
     (let n = of_char c :: nat in
      if 48 \<le> n \<and> n \<le> 57 then n - 48
      else if 97 \<le> n \<and> n \<le> 122 then n - 87
      else if 65 \<le> n \<and> n \<le> 90 then n - 55
      else 36)"

definition is_digit :: "char \<Rightarrow> bool" where
  "is_digit c = (digit_value c < 10)"

lemma digit_value_char [simp]: "d < 36 \<Longrightarrow> digit_value (digit_char d) = d"
  by (auto simp: digit_char_def digit_value_def Let_def)

lemma is_digit_digit_char [simp]: "d < 10 \<Longrightarrow> is_digit (digit_char d)"
  by (simp add: is_digit_def)

lemma is_digit_iff: "is_digit c \<longleftrightarrow> 48 \<le> (of_char c :: nat) \<and> (of_char c :: nat) \<le> 57"
  by (auto simp: is_digit_def digit_value_def Let_def)

lemma is_digit_value_lt: "is_digit c \<Longrightarrow> digit_value c < 10"
  by (simp add: is_digit_def)

lemma digit_char_value: "is_digit c \<Longrightarrow> digit_char (digit_value c) = c"
  by (auto simp: digit_char_def digit_value_def is_digit_iff Let_def)

lemma digit_char_0 [simp]: "digit_char 0 = CHR ''0''" "digit_value CHR ''0'' = 0"
  by code_simp+

lemma digit_value_0_iff: "is_digit c \<Longrightarrow> digit_value c = 0 \<longleftrightarrow> c = CHR ''0''"
  by (metis digit_char_value digit_char_0)

lemma is_digit_not_space: "is_digit c \<Longrightarrow> \<not> js_space c"
  by (auto simp: is_digit_iff js_space_def Let_def)

lemma not_digit_chars [simp]:
  "\<not> is_digit CHR ''.''" "\<not> is_digit CHR ''-''" "\<not> is_digit CHR '' ''" "is_digit CHR ''0''"
  by (simp_all add: is_digit_iff)

section \<open>\<open>toString(radix)\<close>\<close>

fun radix_string :: "nat \<Rightarrow> nat \<Rightarrow> string" where
  "radix_string b n =
     (if b < 2 \<or> n < b then [digit_char n] else radix_string b (n div b) @ [digit_char (n mod b)])"

declare radix_string.simps [simp del]

abbreviation dec_string :: "nat \<Rightarrow> string" where
  "dec_string \<equiv> radix_string 10"

definition int_string :: "int \<Rightarrow> string" where
  "int_string k = (if k < 0 then CHR ''-'' # dec_string (nat (- k)) else dec_string (nat k))"

section \<open>Values of digit strings\<close>

text \<open>\<open>BigInt(s)\<close> of a string of decimal digits; \<open>BigInt("")\<close> is 0.\<close>

definition radix_value :: "nat \<Rightarrow> string \<Rightarrow> nat" where
  "radix_value b s = foldl (\<lambda>acc c. acc * b + digit_value c) 0 s"

abbreviation dec_value :: "string \<Rightarrow> nat" where
  "dec_value \<equiv> radix_value 10"

lemma radix_value_Nil [simp]: "radix_value b [] = 0"
  by (simp add: radix_value_def)

lemma foldl_radix:
  "foldl (\<lambda>acc c. acc * b + digit_value c) a s =
     a * b ^ length s + foldl (\<lambda>acc c. acc * b + digit_value c) 0 s"
proof (induction s arbitrary: a)
  case Nil
  then show ?case by simp
next
  case (Cons c s)
  show ?case
    using Cons.IH [of "a * b + digit_value c"] Cons.IH [of "digit_value c"]
    by (simp add: algebra_simps)
qed

lemma radix_value_append: "radix_value b (s @ t) = radix_value b s * b ^ length t + radix_value b t"
  by (simp add: radix_value_def foldl_radix [of b "foldl (\<lambda>acc c. acc * b + digit_value c) 0 s" t])

lemma radix_value_single [simp]: "radix_value b [c] = digit_value c"
  by (simp add: radix_value_def)

lemma radix_value_Cons: "radix_value b (c # s) = digit_value c * b ^ length s + radix_value b s"
  using radix_value_append [of b "[c]" s] by simp

lemma radix_value_string [simp]: "2 \<le> b \<Longrightarrow> b \<le> 36 \<Longrightarrow> radix_value b (radix_string b n) = n"
proof (induction b n rule: radix_string.induct)
  case (1 b n)
  show ?case
  proof (cases "n < b")
    case True
    with 1 show ?thesis by (simp add: radix_string.simps [of b n])
  next
    case False
    with 1 have "radix_value b (radix_string b (n div b)) = n div b" by simp
    moreover have "n mod b < 36" using 1 by (meson le_trans less_le_trans mod_less_divisor zero_less_numeral order.strict_trans2)
    ultimately show ?thesis using False 1
      by (simp add: radix_string.simps [of b n] radix_value_append)
  qed
qed

lemma radix_string_nonempty [simp]: "radix_string b n \<noteq> []"
  by (subst radix_string.simps) simp

lemma dec_string_digits: "\<forall>c \<in> set (dec_string n). is_digit c"
proof (induction "10 :: nat" n rule: radix_string.induct)
  case (1 n)
  show ?case
  proof (cases "n < 10")
    case True
    then show ?thesis by (simp add: radix_string.simps [of 10 n])
  next
    case False
    with 1 show ?thesis by (subst radix_string.simps) auto
  qed
qed

lemma radix_value_lt:
  assumes "\<forall>c \<in> set s. digit_value c < b"
  shows "radix_value b s < b ^ length s"
  using assms
proof (induction s rule: rev_induct)
  case Nil
  then show ?case by simp
next
  case (snoc c s)
  then have "radix_value b s + 1 \<le> b ^ length s" and c: "digit_value c < b" by auto
  then have "(radix_value b s + 1) * b \<le> b ^ length s * b" by (intro mult_le_mono1)
  then have "radix_value b s * b + b \<le> b ^ length s * b" by (simp add: algebra_simps)
  with c show ?case by (simp add: radix_value_append algebra_simps)
qed

lemma dec_value_lt: "\<forall>c \<in> set s. is_digit c \<Longrightarrow> dec_value s < 10 ^ length s"
  by (rule radix_value_lt) (auto dest: is_digit_value_lt)

lemma dec_value_0_iff:
  "\<forall>c \<in> set s. is_digit c \<Longrightarrow> dec_value s = 0 \<longleftrightarrow> (\<forall>c \<in> set s. c = CHR ''0'')"
  by (induction s) (auto simp: radix_value_Cons digit_value_0_iff)

lemma radix_string_length_le:
  assumes "2 \<le> b" "n < b ^ k" "0 < k"
  shows "length (radix_string b n) \<le> k"
  using assms
proof (induction b n arbitrary: k rule: radix_string.induct)
  case (1 b n)
  show ?case
  proof (cases "n < b")
    case True
    with 1 show ?thesis by (simp add: radix_string.simps [of b n])
  next
    case False
    then obtain j where k: "k = Suc j" "0 < j"
      using 1 by (cases k) (auto, metis not_less power_0 mult.right_neutral power_Suc gr0I)
    have "n div b < b ^ j" using 1 k by (simp add: less_mult_imp_div_less mult.commute)
    with 1 False k show ?thesis by (subst radix_string.simps) simp
  qed
qed

section \<open>Padding and slicing\<close>

definition pad_start :: "nat \<Rightarrow> char \<Rightarrow> string \<Rightarrow> string" where
  "pad_start n c s = replicate (n - length s) c @ s"

definition pad_end :: "nat \<Rightarrow> char \<Rightarrow> string \<Rightarrow> string" where
  "pad_end n c s = s @ replicate (n - length s) c"

text \<open>\<open>s.slice(-n)\<close>: the last \<open>n\<close> characters, but \<open>slice(-0)\<close> is the whole string.\<close>

definition slice_last :: "nat \<Rightarrow> string \<Rightarrow> string" where
  "slice_last n s = (if n = 0 then s else drop (length s - n) s)"

definition strip_trailing_zeros :: "string \<Rightarrow> string" where
  "strip_trailing_zeros s = rev (dropWhile (\<lambda>c. c = CHR ''0'') (rev s))"

lemma dec_value_replicate_0 [simp]: "dec_value (replicate n CHR ''0'') = 0"
  by (induction n) (simp_all add: radix_value_Cons digit_value_0_iff)

lemma dec_value_pad_start [simp]: "dec_value (pad_start n CHR ''0'' s) = dec_value s"
  by (simp add: pad_start_def radix_value_append)

lemma dec_value_pad_end: "dec_value (pad_end n CHR ''0'' s) = dec_value s * 10 ^ (n - length s)"
  by (simp add: pad_end_def radix_value_append)

lemma length_pad_start [simp]: "length (pad_start n c s) = max n (length s)"
  by (simp add: pad_start_def)

lemma length_pad_end [simp]: "length (pad_end n c s) = max n (length s)"
  by (simp add: pad_end_def)

lemma strip_trailing_zeros_append:
  obtains k where "s = strip_trailing_zeros s @ replicate k CHR ''0''"
proof -
  let ?z = "\<lambda>c. c = CHR ''0''"
  have "rev s = takeWhile ?z (rev s) @ dropWhile ?z (rev s)" by simp
  then have "s = rev (dropWhile ?z (rev s)) @ rev (takeWhile ?z (rev s))"
    by (metis rev_append rev_rev_ident)
  moreover have "rev (takeWhile ?z (rev s)) = replicate (length (takeWhile ?z (rev s))) CHR ''0''"
    by (intro replicate_eqI) (auto dest: set_takeWhileD)
  ultimately show ?thesis using that by (simp add: strip_trailing_zeros_def)
qed

section \<open>Texts of integers\<close>

text \<open>\<open>BigInt(s)\<close>: blanks around, a sign before decimal digits, or a prefixed literal; the empty text is 0.\<close>

definition digits_in_base :: "nat \<Rightarrow> string \<Rightarrow> bool" where
  "digits_in_base b s = (s \<noteq> [] \<and> list_all (\<lambda>c. digit_value c < b) s)"

definition unsigned_bigint :: "string \<Rightarrow> int option" where
  "unsigned_bigint s = (if digits_in_base 10 s then Some (int (dec_value s)) else None)"

definition radix_literal :: "nat \<Rightarrow> string \<Rightarrow> int option" where
  "radix_literal b s = (if digits_in_base b s then Some (int (radix_value b s)) else None)"

definition js_bigint :: "string \<Rightarrow> int option" where
  "js_bigint text =
     (case js_trim text of
        [] \<Rightarrow> Some 0
      | c # cs \<Rightarrow>
          if c = CHR ''-'' then map_option uminus (unsigned_bigint cs)
          else if c = CHR ''+'' then unsigned_bigint cs
          else (case cs of
              x # ds \<Rightarrow>
                if c = CHR ''0'' \<and> (x = CHR ''x'' \<or> x = CHR ''X'') then radix_literal 16 ds
                else if c = CHR ''0'' \<and> (x = CHR ''o'' \<or> x = CHR ''O'') then radix_literal 8 ds
                else if c = CHR ''0'' \<and> (x = CHR ''b'' \<or> x = CHR ''B'') then radix_literal 2 ds
                else unsigned_bigint (c # cs)
            | [] \<Rightarrow> unsigned_bigint (c # cs)))"

end
