(* ===== verification/Assets.thy ===== *)
theory Assets
  imports Digits
begin

text \<open>
  Asset metadata, the asset registry and the decimals helpers
  (\<open>packages/core/src/assets/types.ts\<close>, \<open>AssetRegistry.ts\<close>, \<open>decimals.ts\<close>).

  The registry keeps a primary map from identifiers to metadata and a secondary index from
  lower-cased symbols to identifiers, both insertion-ordered; its invariant is that the index only
  points at registered assets that carry the symbol. The scale factor is memoised by the code; the
  memoised version is shown to compute the pure one.
\<close>

section \<open>Metadata\<close>

datatype display_format = DisplayDecimal | DisplayInteger

record asset_metadata =
  asset_id :: string
  symbol :: string
  label :: string
  decimals :: jsnum
  display_format :: "display_format option"
  icon_url :: "string option"
  custom_data :: "(string \<times> string) list option"

definition builtin_assets :: "asset_metadata list" where
  "builtin_assets =
    [\<lparr>asset_id = ''native'', symbol = ''XLM'', label = ''Stellar Lumens'', decimals = Whole 7,
      display_format = Some DisplayDecimal, icon_url = None, custom_data = None\<rparr>,
     \<lparr>asset_id = ''USDC'', symbol = ''USDC'', label = ''USD Coin'', decimals = Whole 7,
      display_format = Some DisplayDecimal, icon_url = None, custom_data = None\<rparr>,
     \<lparr>asset_id = ''EUROC'', symbol = ''EUROC'', label = ''Euro Coin'', decimals = Whole 7,
      display_format = Some DisplayDecimal, icon_url = None, custom_data = None\<rparr>]"

section \<open>Registry\<close>

record asset_registry =
  by_id :: "(string, asset_metadata) dict"
  by_symbol :: "(string, string) dict"

definition with_display_default :: "asset_metadata \<Rightarrow> asset_metadata" where
  "with_display_default a =
     a\<lparr>display_format := (case display_format a of None \<Rightarrow> Some DisplayDecimal | Some f \<Rightarrow> Some f)\<rparr>"

definition registry_add :: "asset_metadata \<Rightarrow> asset_registry \<Rightarrow> asset_registry" where
  "registry_add a r =
     (let entry = with_display_default a in
      r\<lparr>by_id := dict_put (asset_id entry) entry (by_id r),
        by_symbol := dict_put (js_lower (symbol entry)) (asset_id entry) (by_symbol r)\<rparr>)"

definition registry_new :: "asset_metadata list \<Rightarrow> asset_registry" where
  "registry_new initial = fold registry_add initial \<lparr>by_id = [], by_symbol = []\<rparr>"

definition registry_register :: "asset_metadata \<Rightarrow> asset_registry \<Rightarrow> asset_metadata \<times> asset_registry" where
  "registry_register input r =
     (let r1 = (case dict_get (by_id r) (asset_id input) of
                  None \<Rightarrow> r
                | Some existing \<Rightarrow>
                    r\<lparr>by_symbol := AList.delete (js_lower (symbol existing)) (by_symbol r)\<rparr>);
          asset = with_display_default input
      in (asset, registry_add asset r1))"

definition registry_register_many :: "asset_metadata list \<Rightarrow> asset_registry \<Rightarrow> asset_registry" where
  "registry_register_many inputs r = fold (\<lambda>a r. snd (registry_register a r)) inputs r"

definition registry_get :: "asset_registry \<Rightarrow> string \<Rightarrow> asset_metadata option" where
  "registry_get r q =
     (case dict_get (by_id r) q of
        Some a \<Rightarrow> Some a
      | None \<Rightarrow>
          (case dict_get (by_symbol r) (js_lower q) of
             Some i \<Rightarrow> dict_get (by_id r) i
           | None \<Rightarrow> None))"

datatype registry_error = NoMetadataFound string

definition registry_get_or_throw :: "asset_registry \<Rightarrow> string \<Rightarrow> (registry_error, asset_metadata) result" where
  "registry_get_or_throw r q =
     (case registry_get r q of None \<Rightarrow> Inl (NoMetadataFound q) | Some a \<Rightarrow> Inr a)"

definition registry_has :: "asset_registry \<Rightarrow> string \<Rightarrow> bool" where
  "registry_has r q = (registry_get r q \<noteq> None)"

definition registry_remove :: "string \<Rightarrow> asset_registry \<Rightarrow> bool \<times> asset_registry" where
  "registry_remove i r =
     (case dict_get (by_id r) i of
        None \<Rightarrow> (False, r)
      | Some existing \<Rightarrow>
          (True, r\<lparr>by_id := AList.delete i (by_id r),
                   by_symbol := AList.delete (js_lower (symbol existing)) (by_symbol r)\<rparr>))"

definition registry_list :: "asset_registry \<Rightarrow> asset_metadata list" where
  "registry_list r = dict_values (by_id r)"

subsection \<open>Invariant\<close>

definition registry_ok :: "asset_registry \<Rightarrow> bool" where
  "registry_ok r \<longleftrightarrow>
     dict_ok (by_id r) \<and> dict_ok (by_symbol r) \<and>
     (\<forall>i a. dict_get (by_id r) i = Some a \<longrightarrow> asset_id a = i) \<and>
     (\<forall>s i. dict_get (by_symbol r) s = Some i \<longrightarrow>
        (\<exists>a. dict_get (by_id r) i = Some a \<and> js_lower (symbol a) = s))"

lemma with_display_default_simps [simp]:
  "asset_id (with_display_default a) = asset_id a"
  "symbol (with_display_default a) = symbol a"
  "decimals (with_display_default a) = decimals a"
  "with_display_default (with_display_default a) = with_display_default a"
  by (simp_all add: with_display_default_def split: option.split)

lemma registry_ok_empty: "registry_ok \<lparr>by_id = [], by_symbol = []\<rparr>"
  by (simp add: registry_ok_def)

lemma registry_okD:
  assumes "registry_ok r"
  shows "dict_ok (by_id r)" "dict_ok (by_symbol r)"
    and "dict_get (by_id r) i = Some a \<Longrightarrow> asset_id a = i"
    and "dict_get (by_symbol r) s = Some i \<Longrightarrow>
      \<exists>a. dict_get (by_id r) i = Some a \<and> js_lower (symbol a) = s"
  using assms by (auto simp: registry_ok_def)

lemma registry_add_ok:
  assumes ok: "registry_ok r"
    and fresh: "\<And>b. dict_get (by_id r) (asset_id a) = Some b \<Longrightarrow>
      \<forall>s. dict_get (by_symbol r) s \<noteq> Some (asset_id a)"
  shows "registry_ok (registry_add a r)"
proof -
  note d = registry_okD [OF ok]
  have "\<exists>b. ((dict_get (by_id r))(asset_id a \<mapsto> with_display_default a)) i = Some b \<and> js_lower (symbol b) = s"
    if "((dict_get (by_symbol r))(js_lower (symbol a) \<mapsto> asset_id a)) s = Some i" for s i
  proof (cases "s = js_lower (symbol a)")
    case True
    with that show ?thesis by simp
  next
    case False
    with that have s: "dict_get (by_symbol r) s = Some i" by simp
    with d(4) obtain b where b: "dict_get (by_id r) i = Some b" "js_lower (symbol b) = s" by blast
    then have "i \<noteq> asset_id a" using fresh s by blast
    with b show ?thesis by simp
  qed
  then show ?thesis using d
    by (simp add: registry_ok_def registry_add_def Let_def dict.get_put dict.ok_put)
qed

lemma registry_remove_symbol_ok:
  assumes ok: "registry_ok r" and i: "dict_get (by_id r) i = Some b"
  shows "registry_ok (r\<lparr>by_symbol := AList.delete (js_lower (symbol b)) (by_symbol r)\<rparr>)"
    and "dict_get (AList.delete (js_lower (symbol b)) (by_symbol r)) s \<noteq> Some i"
proof -
  note d = registry_okD [OF ok]
  show "registry_ok (r\<lparr>by_symbol := AList.delete (js_lower (symbol b)) (by_symbol r)\<rparr>)"
    using ok by (auto simp: registry_ok_def dict.get_del dict.ok_del split: if_splits)
  show "dict_get (AList.delete (js_lower (symbol b)) (by_symbol r)) s \<noteq> Some i"
    using d(4) [of s i] i d(2) by (auto simp: dict.get_del split: if_splits)
qed

lemma registry_register_ok:
  assumes ok: "registry_ok r"
  shows "registry_ok (snd (registry_register a r))"
proof (cases "dict_get (by_id r) (asset_id a)")
  case None
  then show ?thesis using ok
    by (auto simp: registry_register_def Let_def intro!: registry_add_ok)
next
  case (Some b)
  note del = registry_remove_symbol_ok [OF ok Some]
  from Some show ?thesis
    by (auto simp: registry_register_def Let_def del intro!: registry_add_ok)
qed

lemma registry_remove_ok:
  assumes ok: "registry_ok r"
  shows "registry_ok (snd (registry_remove i r))"
proof (cases "dict_get (by_id r) i")
  case None
  with ok show ?thesis by (simp add: registry_remove_def)
next
  case (Some b)
  note d = registry_okD [OF ok]
  have "\<exists>a. ((dict_get (by_id r))(i := None)) j = Some a \<and> js_lower (symbol a) = s"
    if "((dict_get (by_symbol r))(js_lower (symbol b) := None)) s = Some j" for s j
  proof -
    from that have s: "s \<noteq> js_lower (symbol b)" "dict_get (by_symbol r) s = Some j"
      by (auto split: if_splits)
    with d(4) obtain a where a: "dict_get (by_id r) j = Some a" "js_lower (symbol a) = s" by blast
    with s Some have "j \<noteq> i" by auto
    with a show ?thesis by simp
  qed
  with Some d show ?thesis
    by (auto simp: registry_ok_def registry_remove_def dict.get_del dict.ok_del split: if_splits)
qed

text \<open>The registry as a state machine whose operations never throw.\<close>

datatype registry_op = Register asset_metadata | Remove string

definition registry_step :: "registry_op \<Rightarrow> asset_registry \<Rightarrow> (registry_error, asset_registry) result" where
  "registry_step x r =
     Inr (case x of Register a \<Rightarrow> snd (registry_register a r) | Remove i \<Rightarrow> snd (registry_remove i r))"

interpretation registry: fallible_machine registry_step registry_ok
  by unfold_locales
    (auto simp: registry_step_def registry_register_ok registry_remove_ok split: registry_op.splits)

lemma registry_new_builtin_ok: "registry_ok (registry_new builtin_assets)"
proof -
  have "js_lower ''XLM'' = ''xlm''" "js_lower ''USDC'' = ''usdc''" "js_lower ''EUROC'' = ''euroc''"
    by code_simp+
  then show ?thesis
    by (simp add: registry_new_def builtin_assets_def registry_ok_def registry_add_def
        with_display_default_def Let_def dict_ok_def)
qed

subsection \<open>Behaviour\<close>

lemma by_id_after_register:
  "registry_ok r \<Longrightarrow>
   dict_get (by_id (snd (registry_register a r))) = (dict_get (by_id r))(asset_id a \<mapsto> with_display_default a)"
  by (auto simp: registry_register_def registry_add_def Let_def dict.get_put registry_ok_def
      split: option.split)

lemma by_symbol_after_register:
  "registry_ok r \<Longrightarrow>
   dict_get (by_symbol (snd (registry_register a r))) (js_lower (symbol a)) = Some (asset_id a)"
  by (auto simp: registry_register_def registry_add_def Let_def registry_ok_def dict.ok_del
      dict.get_put_same split: option.split)

lemma by_id_after_remove:
  "registry_ok r \<Longrightarrow> dict_get (by_id (snd (registry_remove i r))) = (dict_get (by_id r))(i := None)"
  by (auto simp: registry_remove_def dict.get_del registry_ok_def fun_eq_iff split: option.split)

text \<open>
  after \<open>register\<close>, the asset is found with its display format defaulted, both by its
  identifier and, unless the query is itself an identifier, by any spelling of its symbol; every
  other identifier still resolves as before, and the index stays consistent.
\<close>

theorem register_then_get:
  assumes "registry_ok r"
  shows "registry_get (snd (registry_register a r)) (asset_id a) = Some (with_display_default a) \<and>
    (js_lower q = js_lower (symbol a) \<and> dict_get (by_id r) q = None \<and> q \<noteq> asset_id a \<longrightarrow>
       registry_get (snd (registry_register a r)) q = Some (with_display_default a)) \<and>
    (\<forall>b. i \<noteq> asset_id a \<and> dict_get (by_id r) i = Some b \<longrightarrow>
       registry_get (snd (registry_register a r)) i = Some b) \<and>
    registry_ok (snd (registry_register a r))"
  using assms
  by (auto simp: registry_get_def by_id_after_register by_symbol_after_register registry_register_ok)

theorem register_then_get_witness:
  "let r = registry_new builtin_assets; a = hd builtin_assets in
   registry_ok r \<and> registry_get (snd (registry_register a r)) ''native'' = Some (with_display_default a)"
  using register_then_get [OF registry_new_builtin_ok, of "hd builtin_assets"] registry_new_builtin_ok
  by (simp add: Let_def builtin_assets_def)

text \<open>
  the symbol index holds one identifier per symbol, so when two registered assets share a symbol,
  removing the first one also removes the symbol of the second: it stays registered and listed, but
  \<open>get\<close> no longer finds it by its symbol.
\<close>

theorem remove_hides_shared_symbol:
  assumes ok: "registry_ok r" and ids: "asset_id a \<noteq> asset_id b"
    and sym: "js_lower (symbol a) = js_lower (symbol b)"
    and q: "js_lower q = js_lower (symbol b)" "dict_get (by_id r) q = None" "q \<noteq> asset_id a" "q \<noteq> asset_id b"
  defines "r' \<equiv> snd (registry_remove (asset_id a) (snd (registry_register b (snd (registry_register a r)))))"
  shows "registry_get r' q = None \<and> registry_get r' (asset_id b) = Some (with_display_default b)"
proof -
  let ?r1 = "snd (registry_register a r)" and ?r2 = "snd (registry_register b (snd (registry_register a r)))"
  have ok2: "registry_ok ?r2" and ok1: "registry_ok ?r1"
    using ok by (simp_all add: registry_register_ok)
  have a: "dict_get (by_id ?r2) (asset_id a) = Some (with_display_default a)"
    and b: "dict_get (by_id ?r2) (asset_id b) = Some (with_display_default b)"
    using ok ok1 ids by (simp_all add: by_id_after_register)
  have "dict_get (by_symbol r') (js_lower q) = None"
    using a q(1) sym registry_okD(2) [OF ok2]
    by (simp add: r'_def registry_remove_def dict.get_del)
  moreover have "dict_get (by_id r') = (dict_get (by_id ?r2))(asset_id a := None)"
    using ok2 by (simp add: r'_def by_id_after_remove)
  moreover have "dict_get (by_id ?r2) q = None"
    using ok ok1 q by (simp add: by_id_after_register)
  ultimately show ?thesis using b ids q by (simp add: registry_get_def)
qed

theorem remove_hides_shared_symbol_witness:
  "let r = registry_new builtin_assets;
       a = (hd builtin_assets)\<lparr>asset_id := ''CA'', symbol := ''EURX''\<rparr>;
       b = (hd builtin_assets)\<lparr>asset_id := ''CB'', symbol := ''eurx''\<rparr>;
       r' = snd (registry_remove ''CA'' (snd (registry_register b (snd (registry_register a r)))))
   in registry_get r' ''EURX'' = None \<and> registry_get r' ''CB'' = Some (with_display_default b)"
proof -
  have "js_lower ''EURX'' = js_lower ''eurx''" by code_simp
  moreover have "dict_get (by_id (registry_new builtin_assets)) ''EURX'' = None" by code_simp
  ultimately show ?thesis
    using remove_hides_shared_symbol [OF registry_new_builtin_ok,
        of "(hd builtin_assets)\<lparr>asset_id := ''CA'', symbol := ''EURX''\<rparr>"
           "(hd builtin_assets)\<lparr>asset_id := ''CB'', symbol := ''eurx''\<rparr>" "''EURX''"]
    by (simp add: Let_def)
qed

section \<open>Decimals\<close>

datatype decimals_error = DecimalsTypeError jsnum | DecimalsRangeError int

definition default_asset_decimals :: jsnum where
  "default_asset_decimals = Whole 7"

definition min_supported_decimals :: int where
  "min_supported_decimals = 0"

definition max_supported_decimals :: int where
  "max_supported_decimals = 18"

definition is_valid_decimals :: "jsnum \<Rightarrow> bool" where
  "is_valid_decimals d =
     (case d of NonInteger \<Rightarrow> False
      | Whole n \<Rightarrow> min_supported_decimals \<le> n \<and> n \<le> max_supported_decimals)"

definition assert_valid_decimals :: "jsnum \<Rightarrow> (decimals_error, unit) result" where
  "assert_valid_decimals d =
     (case d of NonInteger \<Rightarrow> Inl (DecimalsTypeError d)
      | Whole n \<Rightarrow> throw_if (n < min_supported_decimals \<or> n > max_supported_decimals) (DecimalsRangeError n))"

definition pow10 :: "int \<Rightarrow> int" where
  "pow10 n = 10 ^ nat n"

definition get_decimal_scale_factor :: "jsnum \<Rightarrow> (decimals_error, int) result" where
  "get_decimal_scale_factor d =
     bind_result (assert_valid_decimals d)
       (\<lambda>_. case d of Whole n \<Rightarrow> Inr (pow10 n) | NonInteger \<Rightarrow> Inl (DecimalsTypeError d))"

text \<open>The memoised version: a cache hit returns the stored factor.\<close>

definition get_decimal_scale_factor_memo ::
  "(int, int) dict \<Rightarrow> jsnum \<Rightarrow> (decimals_error, int \<times> (int, int) dict) result" where
  "get_decimal_scale_factor_memo cache d =
     bind_result (assert_valid_decimals d)
       (\<lambda>_. case d of NonInteger \<Rightarrow> Inl (DecimalsTypeError d)
         | Whole n \<Rightarrow>
             (case dict_get cache n of
                Some f \<Rightarrow> Inr (f, cache)
              | None \<Rightarrow> let f = pow10 n in Inr (f, dict_put n f cache)))"

definition get_minimum_base_unit :: int where
  "get_minimum_base_unit = 1"

definition get_minimum_fractional_string :: "jsnum \<Rightarrow> (decimals_error, string) result" where
  "get_minimum_fractional_string d =
     bind_result (assert_valid_decimals d)
       (\<lambda>_. case d of NonInteger \<Rightarrow> Inl (DecimalsTypeError d)
         | Whole n \<Rightarrow>
             Inr (if n = 0 then ''1'' else ''0.'' @ replicate (nat (n - 1)) CHR ''0'' @ ''1''))"

datatype asset_or_decimals = NoAsset | JustDecimals jsnum | AnAsset asset_metadata

definition resolve_asset_decimals :: "asset_or_decimals \<Rightarrow> (decimals_error, jsnum) result" where
  "resolve_asset_decimals x =
     (case x of
        NoAsset \<Rightarrow> Inr default_asset_decimals
      | JustDecimals d \<Rightarrow> bind_result (assert_valid_decimals d) (\<lambda>_. Inr d)
      | AnAsset a \<Rightarrow> bind_result (assert_valid_decimals (decimals a)) (\<lambda>_. Inr (decimals a)))"

definition format_minimum_asset_amount :: "asset_metadata \<Rightarrow> (decimals_error, string) result" where
  "format_minimum_asset_amount a =
     bind_result (get_minimum_fractional_string (decimals a)) (\<lambda>m. Inr (m @ '' '' @ symbol a))"

definition is_amount_below_minimum :: "int \<Rightarrow> int option \<Rightarrow> bool" where
  "is_amount_below_minimum x custom_min = (x < (case custom_min of None \<Rightarrow> 1 | Some m \<Rightarrow> m))"

lemma assert_valid_decimals_Inr_iff [result_simps]:
  "assert_valid_decimals d = Inr u \<longleftrightarrow> is_valid_decimals d"
  by (cases d) (auto simp: assert_valid_decimals_def is_valid_decimals_def throw_if_def)

lemma assert_valid_decimals_ok: "is_valid_decimals d \<Longrightarrow> assert_valid_decimals d = Inr ()"
  by (simp add: result_simps)

lemma is_valid_decimals_Whole: "is_valid_decimals (Whole n) \<longleftrightarrow> 0 \<le> n \<and> n \<le> 18"
  by (simp add: is_valid_decimals_def min_supported_decimals_def max_supported_decimals_def)

lemma is_valid_decimals_iff: "is_valid_decimals d \<longleftrightarrow> (\<exists>n. d = Whole n \<and> 0 \<le> n \<and> n \<le> 18)"
proof (cases d)
  case (Whole n)
  then show ?thesis by (simp add: is_valid_decimals_Whole)
next
  case NonInteger
  then show ?thesis by (simp add: is_valid_decimals_def)
qed

lemma pow10_pos [simp]: "0 < pow10 n"
  by (simp add: pow10_def)

lemma pow10_add: "0 \<le> m \<Longrightarrow> 0 \<le> n \<Longrightarrow> pow10 (m + n) = pow10 m * pow10 n"
  by (simp add: pow10_def nat_add_distrib power_add)

lemma pow10_ge_10: "0 < n \<Longrightarrow> 10 \<le> pow10 n"
  unfolding pow10_def by (metis nat_0_less_mult_iff power_increasing power_one_right Suc_leI One_nat_def
      zero_less_nat_eq one_le_numeral)

definition cache_ok :: "(int, int) dict \<Rightarrow> bool" where
  "cache_ok c \<longleftrightarrow> dict_ok c \<and> (\<forall>n f. dict_get c n = Some f \<longrightarrow> f = pow10 n)"

lemma memo_refines:
  assumes "cache_ok c"
  shows "map_sum id fst (get_decimal_scale_factor_memo c d) = get_decimal_scale_factor d"
    and "get_decimal_scale_factor_memo c d = Inr (f, c') \<Longrightarrow> cache_ok c'"
  using assms
  by (cases d; cases "assert_valid_decimals d";
      force simp: get_decimal_scale_factor_memo_def get_decimal_scale_factor_def cache_ok_def
        dict.get_put dict.ok_put Let_def split: option.splits if_splits)+

end
