(* ===== verification/AmountParsing.thy ===== *)
theory AmountParsing
  imports Assets
begin

text \<open>
  Parsing of payroll amounts (\<open>packages/core/src/assets/amountParsing.ts\<close>): sanitisation, the numeric
  format, the split at the decimal point, rounding of excess precision with its carry, the bounds.

  Amounts are \<open>bigint\<close>s (\<^typ>\<open>int\<close>); the fraction and the whole part stay strings of digits until the
  end, as in the code. The euro sign of the stripped currency symbols is outside the modelled
  code units.
\<close>

section \<open>Types\<close>

datatype amount_parse_error_code =
  EMPTY_INPUT | INVALID_FORMAT | NEGATIVE_VALUE | ZERO_VALUE | BELOW_MINIMUM | EXCEEDS_MAXIMUM
| EXCESS_PRECISION | OVERFLOW

text \<open>An \<open>AmountParseError\<close> carries its message and code; \<open>10n ** BigInt(d)\<close> raises a plain
  \<open>RangeError\<close> when \<open>d\<close> is negative or no integer.\<close>

datatype amount_error = AmountParseError string amount_parse_error_code | ScaleRangeError

datatype rounding_mode = HALF_UP | TRUNCATE | CEIL | FLOOR

record amount_bounds =
  bound_min :: "int option"
  bound_max :: "int option"

record parse_options =
  opt_bounds :: "amount_bounds option"
  opt_rounding :: "rounding_mode option"
  opt_metadata :: "asset_metadata option"

definition no_options :: parse_options where
  "no_options = \<lparr>opt_bounds = None, opt_rounding = None, opt_metadata = None\<rparr>"

record parsed_amount =
  pa_amount :: int
  pa_decimals :: int
  pa_was_rounded :: bool

section \<open>Sanitising and the numeric format\<close>

fun strip_first_ci :: "string \<Rightarrow> string \<Rightarrow> string" where
  "strip_first_ci p [] = []"
| "strip_first_ci p (c # cs) =
     (if is_prefix (js_upper p) (js_upper (c # cs)) then drop (length p) (c # cs)
      else c # strip_first_ci p cs)"

definition currency_chars :: "char list" where
  "currency_chars = [CHR ''$'', CHR 0xA3, CHR 0xA5, CHR '','']"

definition sanitize_input :: "string \<Rightarrow> string \<Rightarrow> string" where
  "sanitize_input input ticker =
     js_trim (filter (\<lambda>c. c \<notin> set currency_chars) (strip_first_ci ticker input))"

text \<open>The pattern \<open>^-?(\d*\.?\d+|\d+\.?\d*)$\<close>: an optional sign, then digits with at most one point
  and at least one digit.\<close>

definition numeric_body :: "string \<Rightarrow> bool" where
  "numeric_body s =
     (let a = takeWhile is_digit s; r = dropWhile is_digit s in
      case r of [] \<Rightarrow> a \<noteq> []
      | c # b \<Rightarrow> c = CHR ''.'' \<and> list_all is_digit b \<and> (a \<noteq> [] \<or> b \<noteq> []))"

definition numeric_pattern :: "string \<Rightarrow> bool" where
  "numeric_pattern s =
     (case s of [] \<Rightarrow> False | c # cs \<Rightarrow> if c = CHR ''-'' then numeric_body cs else numeric_body s)"

definition split_amount :: "string \<Rightarrow> string \<times> string" where
  "split_amount s =
     (if CHR ''.'' \<in> set s then
        (let w = takeWhile (\<lambda>c. c \<noteq> CHR ''.'') s in
         (if w = [] then ''0'' else w, tl (dropWhile (\<lambda>c. c \<noteq> CHR ''.'') s)))
      else (s, []))"

definition effectively_zero :: "string \<Rightarrow> string \<Rightarrow> bool" where
  "effectively_zero whole frac =
     ((whole = ''0'' \<or> whole = []) \<and> (frac = [] \<or> list_all (\<lambda>c. c = CHR ''0'') frac))"

section \<open>Rounding\<close>

definition apply_rounding :: "nat \<Rightarrow> string \<Rightarrow> nat \<Rightarrow> rounding_mode \<Rightarrow> nat" where
  "apply_rounding excess frac d mode =
     (let n = dec_value (pad_end d CHR ''0'' frac) in
      case mode of
        TRUNCATE \<Rightarrow> n
      | HALF_UP \<Rightarrow> if excess \<ge> 5 then n + 1 else n
      | CEIL \<Rightarrow> if excess > 0 then n + 1 else n
      | FLOOR \<Rightarrow> n)"

text \<open>Step 6: the whole part and the fraction, brought to exactly the asset's precision, and whether
  digits were dropped.\<close>

definition adjust_fraction :: "rounding_mode \<Rightarrow> nat \<Rightarrow> string \<Rightarrow> string \<Rightarrow> string \<times> string \<times> bool" where
  "adjust_fraction mode d whole frac =
     (if length frac > d then
        (let excess = digit_value (frac ! d);
             adjusted = apply_rounding excess (take d frac) d mode
         in if adjusted \<ge> 10 ^ d then
              (dec_string (dec_value (if whole = [] then ''0'' else whole) + 1),
               slice_last d (pad_start d CHR ''0'' (dec_string adjusted)), True)
            else (whole, pad_start d CHR ''0'' (dec_string adjusted), True))
      else (whole, pad_end d CHR ''0'' frac, False))"

section \<open>Messages\<close>

definition quoted :: "string \<Rightarrow> string" where
  "quoted s = CHR 0x22 # s @ [CHR 0x22]"

definition format_debug_amount :: "int \<Rightarrow> nat \<Rightarrow> string \<Rightarrow> string" where
  "format_debug_amount raw d ticker =
     (let scale = 10 ^ d; whole = raw sdiv scale; frac = raw smod scale;
          frac_str = strip_trailing_zeros (pad_start d CHR ''0'' (int_string frac))
      in if frac_str = [] then int_string whole @ '' '' @ ticker
         else int_string whole @ ''.'' @ frac_str @ '' '' @ ticker)"

section \<open>The parser\<close>

text \<open>Step 8: the bounds, in the asset's smallest unit.\<close>

definition check_bounds :: "amount_bounds option \<Rightarrow> int \<Rightarrow> nat \<Rightarrow> string \<Rightarrow> (amount_error, unit) result" where
  "check_bounds bounds amt d ticker =
     (case bounds of None \<Rightarrow> Inr ()
      | Some b \<Rightarrow>
          bind_result
            (case bound_min b of None \<Rightarrow> Inr ()
             | Some m \<Rightarrow> throw_if (amt < m)
                 (AmountParseError (''Amount '' @ format_debug_amount amt d ticker @
                    '' is below the minimum of '' @ format_debug_amount m d ticker) BELOW_MINIMUM))
            (\<lambda>_. case bound_max b of None \<Rightarrow> Inr ()
             | Some m \<Rightarrow> throw_if (amt > m)
                 (AmountParseError (''Amount '' @ format_debug_amount amt d ticker @
                    '' exceeds the maximum of '' @ format_debug_amount m d ticker) EXCEEDS_MAXIMUM)))"

text \<open>Steps 6 to 8, on the digits of a positive number.\<close>

definition scale_and_check ::
  "string \<Rightarrow> asset_metadata \<Rightarrow> amount_bounds option \<Rightarrow> rounding_mode \<Rightarrow> string \<Rightarrow> string
   \<Rightarrow> (amount_error, parsed_amount) result" where
  "scale_and_check input metadata bounds rounding whole frac =
     (case decimals metadata of
        NonInteger \<Rightarrow> Inl ScaleRangeError
      | Whole n \<Rightarrow>
          if n < 0 then Inl ScaleRangeError
          else
            let d = nat n;
                (whole', frac', was_rounded) = adjust_fraction rounding d whole frac;
                whole_big = int (dec_value whole');
                final = whole_big * 10 ^ d + int (dec_value frac')
            in bind_result (throw_if (whole_big > max_safe_integer)
                 (AmountParseError (''Amount exceeds safe integer range for asset '' @ symbol metadata @ '': '' @
                    quoted input) OVERFLOW)) (\<lambda>_.
               bind_result (check_bounds bounds final d (symbol metadata)) (\<lambda>_.
               Inr \<lparr>pa_amount = final, pa_decimals = n, pa_was_rounded = was_rounded\<rparr>)))"

definition parse_payroll_amount ::
  "string \<Rightarrow> asset_metadata \<Rightarrow> parse_options \<Rightarrow> (amount_error, parsed_amount) result" where
  "parse_payroll_amount input metadata options =
     (let rounding = (case opt_rounding options of None \<Rightarrow> HALF_UP | Some m \<Rightarrow> m);
          cleaned = sanitize_input input (symbol metadata)
      in bind_result (throw_if (cleaned = [])
           (AmountParseError (''Amount input is empty after sanitization: '' @ quoted input) EMPTY_INPUT)) (\<lambda>_.
         bind_result (throw_if (\<not> numeric_pattern cleaned)
           (AmountParseError (''Amount input contains non-numeric characters: '' @ quoted input) INVALID_FORMAT)) (\<lambda>_.
         bind_result (throw_if (hd cleaned = CHR ''-'')
           (AmountParseError (''Amount cannot be negative: '' @ quoted input) NEGATIVE_VALUE)) (\<lambda>_.
         let (whole, frac) = split_amount cleaned in
         bind_result (throw_if (effectively_zero whole frac)
           (AmountParseError (''Amount cannot be zero: '' @ quoted input) ZERO_VALUE)) (\<lambda>_.
         scale_and_check input metadata (opt_bounds options) rounding whole frac)))))"

definition check_amount_bounds :: "int \<Rightarrow> amount_bounds \<Rightarrow> amount_error list" where
  "check_amount_bounds amt b =
     (case bound_min b of None \<Rightarrow> []
      | Some m \<Rightarrow> if amt < m then
          [AmountParseError (''Amount '' @ int_string amt @ '' is below minimum '' @ int_string m) BELOW_MINIMUM]
          else []) @
     (case bound_max b of None \<Rightarrow> []
      | Some m \<Rightarrow> if amt > m then
          [AmountParseError (''Amount '' @ int_string amt @ '' exceeds maximum '' @ int_string m) EXCEEDS_MAXIMUM]
          else [])"

definition make_bounds_from_strings ::
  "string \<Rightarrow> string \<Rightarrow> asset_metadata \<Rightarrow> rounding_mode option \<Rightarrow> (amount_error, amount_bounds) result" where
  "make_bounds_from_strings min_str max_str metadata rounding =
     bind_result (parse_payroll_amount min_str metadata (no_options\<lparr>opt_rounding := rounding\<rparr>)) (\<lambda>lo.
     bind_result (parse_payroll_amount max_str metadata (no_options\<lparr>opt_rounding := rounding\<rparr>)) (\<lambda>hi.
     Inr \<lparr>bound_min = Some (pa_amount lo), bound_max = Some (pa_amount hi)\<rparr>))"

section \<open>The value of an adjusted fraction\<close>

definition rounds_up :: "rounding_mode \<Rightarrow> nat \<Rightarrow> bool" where
  "rounds_up mode excess =
     (case mode of HALF_UP \<Rightarrow> 5 \<le> excess | CEIL \<Rightarrow> 0 < excess | TRUNCATE \<Rightarrow> False | FLOOR \<Rightarrow> False)"

text \<open>The amount in units of \<open>10\<^sup>-\<^sup>d\<close> that the digits \<open>w.f\<close> should give.\<close>

definition scaled_value :: "rounding_mode \<Rightarrow> nat \<Rightarrow> string \<Rightarrow> string \<Rightarrow> nat" where
  "scaled_value mode d w f =
     (if length f \<le> d then dec_value (w @ f) * 10 ^ (d - length f)
      else dec_value (w @ take d f) + (if rounds_up mode (digit_value (f ! d)) then 1 else 0))"

lemma apply_rounding_eq:
  "apply_rounding e f d mode = dec_value (pad_end d CHR ''0'' f) + (if rounds_up mode e then 1 else 0)"
  by (simp add: apply_rounding_def rounds_up_def Let_def split: rounding_mode.split)

lemma dec_value_drop:
  assumes "\<forall>c \<in> set s. is_digit c" "d \<le> length s"
  shows "dec_value (drop (length s - d) s) = dec_value s mod 10 ^ d"
proof -
  let ?a = "take (length s - d) s" and ?b = "drop (length s - d) s"
  have "dec_value (?a @ ?b) = dec_value ?a * 10 ^ length ?b + dec_value ?b" by (rule radix_value_append)
  moreover have "length ?b = d" using assms by simp
  moreover have "dec_value ?b < 10 ^ length ?b" using assms by (intro dec_value_lt) (auto dest: in_set_dropD)
  ultimately show ?thesis by simp
qed

lemma dec_value_slice_last:
  assumes "\<forall>c \<in> set s. is_digit c" "0 < d"
  shows "dec_value (slice_last d s) = dec_value s mod 10 ^ d"
proof (cases "d \<le> length s")
  case True
  with assms show ?thesis by (simp add: slice_last_def dec_value_drop)
next
  case False
  then have "(10::nat) ^ length s \<le> 10 ^ d" by simp
  then have "dec_value s < 10 ^ d" using dec_value_lt [OF assms(1)] by linarith
  with False assms show ?thesis by (simp add: slice_last_def)
qed

lemma pad_start_digits:
  "\<forall>c \<in> set s. is_digit c \<Longrightarrow> \<forall>c \<in> set (pad_start n CHR ''0'' s). is_digit c"
  by (auto simp: pad_start_def)

lemma dec_value_slice_dec_string:
  "0 < d \<Longrightarrow> dec_value (slice_last d (pad_start d CHR ''0'' (dec_string n))) = n mod 10 ^ d"
  by (subst dec_value_slice_last [OF pad_start_digits [OF dec_string_digits]]) simp_all

lemma dec_value_zero [simp]: "dec_value ''0'' = 0"
  by simp

lemma adjust_fraction_value:
  assumes "adjust_fraction mode d w f = (w', f', r)" "0 < d \<or> length f \<le> d"
    and f: "\<forall>c \<in> set f. is_digit c"
  shows "dec_value w' * 10 ^ d + dec_value f' = scaled_value mode d w f" "r \<longleftrightarrow> d < length f"
proof -
  let ?up = "if rounds_up mode (digit_value (f ! d)) then 1 else 0 :: nat"
  let ?adj = "apply_rounding (digit_value (f ! d)) (take d f) d mode"
  have tf: "\<forall>c \<in> set (take d f). is_digit c" using f by (auto dest: in_set_takeD)
  have "dec_value w' * 10 ^ d + dec_value f' = scaled_value mode d w f \<and> (r \<longleftrightarrow> d < length f)"
  proof (cases "d < length f")
    case False
    with assms(1) show ?thesis
      by (auto simp: adjust_fraction_def scaled_value_def dec_value_pad_end radix_value_append
          power_add [symmetric] algebra_simps)
  next
    case True
    then have lt: "dec_value (take d f) < 10 ^ d" using dec_value_lt [OF tf] by simp
    have adj: "?adj = dec_value (take d f) + ?up"
      using True by (simp add: apply_rounding_eq dec_value_pad_end)
    show ?thesis
    proof (cases "10 ^ d \<le> ?adj")
      case carry: True
      then have eq: "?adj = 10 ^ d" using adj lt by (simp split: if_splits)
      have d0: "0 < d" using True assms(2) by simp
      have "dec_value f' = ?adj mod 10 ^ d"
        using assms(1) True carry d0
        by (auto simp: adjust_fraction_def Let_def dec_value_slice_dec_string)
      moreover have "dec_value w' = dec_value w + 1"
        using assms(1) True carry by (auto simp: adjust_fraction_def Let_def split: if_splits)
      ultimately show ?thesis using eq adj True assms(1) carry
        by (auto simp: scaled_value_def radix_value_append algebra_simps adjust_fraction_def Let_def)
    next
      case False
      with assms(1) True adj show ?thesis
        by (auto simp: adjust_fraction_def Let_def scaled_value_def radix_value_append)
    qed
  qed
  then show "dec_value w' * 10 ^ d + dec_value f' = scaled_value mode d w f" "r \<longleftrightarrow> d < length f"
    by blast+
qed

section \<open>The format\<close>

lemma numeric_body_iff:
  "numeric_body s \<longleftrightarrow>
     (s \<noteq> [] \<and> list_all is_digit s) \<or>
     (\<exists>a b. s = a @ CHR ''.'' # b \<and> list_all is_digit a \<and> list_all is_digit b \<and> a @ b \<noteq> [])"
    (is "_ \<longleftrightarrow> ?A \<or> ?B")
proof
  assume n: "numeric_body s"
  let ?a = "takeWhile is_digit s" and ?r = "dropWhile is_digit s"
  have a: "list_all is_digit ?a" by (auto simp: list_all_iff dest: set_takeWhileD)
  have s: "s = ?a @ ?r" by simp
  show "?A \<or> ?B"
  proof (cases ?r)
    case Nil
    with n a s show ?thesis by (simp add: numeric_body_def)
  next
    case (Cons c b)
    with n have "c = CHR ''.''" "list_all is_digit b" "?a @ b \<noteq> []" by (auto simp: numeric_body_def Let_def)
    with a s Cons show ?thesis by metis
  qed
next
  assume "?A \<or> ?B"
  then show "numeric_body s"
  proof
    assume ?A
    then have "takeWhile is_digit s = s" "dropWhile is_digit s = []" by (simp_all add: list_all_iff)
    with \<open>?A\<close> show ?thesis unfolding numeric_body_def by (simp only: list.simps Let_def) simp
  next
    assume ?B
    then obtain a b where s: "s = a @ CHR ''.'' # b" and a: "list_all is_digit a"
      and b: "list_all is_digit b" "a @ b \<noteq> []" by blast
    have "takeWhile is_digit s = a" "dropWhile is_digit s = CHR ''.'' # b"
      using a by (simp_all add: s list_all_iff takeWhile_append2 dropWhile_append2)
    with b show ?thesis by (simp add: numeric_body_def)
  qed
qed

lemma split_amount_digits:
  assumes "numeric_body s" "split_amount s = (w, f)"
  shows "\<forall>c \<in> set w. is_digit c" "\<forall>c \<in> set f. is_digit c"
proof -
  have "(\<forall>c \<in> set w. is_digit c) \<and> (\<forall>c \<in> set f. is_digit c)"
    using assms(1) unfolding numeric_body_iff
  proof
    assume *: "s \<noteq> [] \<and> list_all is_digit s"
    then have "CHR ''.'' \<notin> set s" by (auto simp: list_all_iff)
    with * assms(2) show ?thesis by (auto simp: split_amount_def list_all_iff)
  next
    assume "\<exists>a b. s = a @ CHR ''.'' # b \<and> list_all is_digit a \<and> list_all is_digit b \<and> a @ b \<noteq> []"
    then obtain a b where s: "s = a @ CHR ''.'' # b" and a: "list_all is_digit a"
      and b: "list_all is_digit b" by blast
    have "CHR ''.'' \<notin> set a" using a by (auto simp: list_all_iff)
    then have "takeWhile (\<lambda>c. c \<noteq> CHR ''.'') s = a" "dropWhile (\<lambda>c. c \<noteq> CHR ''.'') s = CHR ''.'' # b"
      by (simp_all add: s takeWhile_neq dropWhile_neq)
    with a b assms(2) show ?thesis by (auto simp: split_amount_def s Let_def list_all_iff split: if_splits)
  qed
  then show "\<forall>c \<in> set w. is_digit c" "\<forall>c \<in> set f. is_digit c" by blast+
qed

lemma numeric_pattern_positive:
  "numeric_pattern s \<Longrightarrow> hd s \<noteq> CHR ''-'' \<Longrightarrow> numeric_body s"
  by (cases s) (auto simp: numeric_pattern_def split: if_splits)

section \<open>What the parser returns\<close>

abbreviation mode_of :: "parse_options \<Rightarrow> rounding_mode" where
  "mode_of options \<equiv> (case opt_rounding options of None \<Rightarrow> HALF_UP | Some m \<Rightarrow> m)"

definition within_bounds :: "amount_bounds option \<Rightarrow> int \<Rightarrow> bool" where
  "within_bounds bounds x \<longleftrightarrow>
     (\<forall>b m. bounds = Some b \<longrightarrow> (bound_min b = Some m \<longrightarrow> m \<le> x) \<and> (bound_max b = Some m \<longrightarrow> x \<le> m))"

lemma check_bounds_Inr_iff [result_simps]:
  "check_bounds bounds x d t = Inr u \<longleftrightarrow> within_bounds bounds x"
  by (auto simp: check_bounds_def within_bounds_def throw_if_def split: option.splits)

lemma check_bounds_Inl:
  "check_bounds bounds x d t = Inl e \<Longrightarrow>
     \<exists>msg c. e = AmountParseError msg c \<and> (c = BELOW_MINIMUM \<or> c = EXCEEDS_MAXIMUM)"
  by (auto simp: check_bounds_def result_simps split: option.splits)

text \<open>The steps before scaling succeed exactly on a positive number.\<close>

definition positive_digits :: "string \<Rightarrow> string \<Rightarrow> string \<Rightarrow> bool" where
  "positive_digits cleaned w f \<longleftrightarrow>
     cleaned \<noteq> [] \<and> numeric_body cleaned \<and> split_amount cleaned = (w, f) \<and> \<not> effectively_zero w f"

lemma numeric_body_not_minus: "numeric_body s \<Longrightarrow> s \<noteq> [] \<Longrightarrow> hd s \<noteq> CHR ''-''"
  by (cases s) (auto simp: numeric_body_def Let_def)

lemma positive_digitsD:
  assumes "positive_digits cleaned w f"
  shows "\<forall>c \<in> set w. is_digit c" "\<forall>c \<in> set f. is_digit c"
  using assms split_amount_digits [of cleaned w f] by (auto simp: positive_digits_def)

lemma numeric_pattern_no_minus: "s \<noteq> [] \<Longrightarrow> hd s \<noteq> CHR ''-'' \<Longrightarrow> numeric_pattern s \<longleftrightarrow> numeric_body s"
  by (cases s) (simp_all add: numeric_pattern_def)

lemma parse_payroll_amount_eq:
  assumes pos: "positive_digits (sanitize_input input (symbol m)) w f"
    and n: "decimals m = Whole n" "0 \<le> n"
    and adj: "adjust_fraction (mode_of options) (nat n) w f = (w', f', r)"
    and ovf: "int (dec_value w') \<le> max_safe_integer"
  defines "final \<equiv> int (dec_value w' * 10 ^ nat n + dec_value f')"
  shows "parse_payroll_amount input m options =
    map_sum id (\<lambda>_. \<lparr>pa_amount = final, pa_decimals = n, pa_was_rounded = r\<rparr>)
      (check_bounds (opt_bounds options) final (nat n) (symbol m))"
proof -
  have c: "sanitize_input input (symbol m) \<noteq> []" "numeric_pattern (sanitize_input input (symbol m))"
    "hd (sanitize_input input (symbol m)) \<noteq> CHR ''-''"
    "split_amount (sanitize_input input (symbol m)) = (w, f)" "\<not> effectively_zero w f"
    using pos by (auto simp: positive_digits_def numeric_body_not_minus numeric_pattern_no_minus)
  have fin: "final = int (dec_value w') * 10 ^ nat n + int (dec_value f')" by (simp add: final_def)
  show ?thesis
    using c n adj ovf
    by (simp add: parse_payroll_amount_def scale_and_check_def throw_if_def Let_def fin [symmetric]
        bind_result_def split: sum.split)
qed

lemma parse_payroll_amount_InrD:
  assumes "parse_payroll_amount input m options = Inr p"
  obtains w f n w' f' r where
    "positive_digits (sanitize_input input (symbol m)) w f" "decimals m = Whole n" "0 \<le> n"
    "adjust_fraction (mode_of options) (nat n) w f = (w', f', r)"
    "int (dec_value w') \<le> max_safe_integer"
    "p = \<lparr>pa_amount = int (dec_value w' * 10 ^ nat n + dec_value f'), pa_decimals = n, pa_was_rounded = r\<rparr>"
    "within_bounds (opt_bounds options) (pa_amount p)"
proof -
  let ?c = "sanitize_input input (symbol m)"
  obtain w f where wf: "split_amount ?c = (w, f)" by (cases "split_amount ?c") blast
  from assms wf have c: "?c \<noteq> []" "numeric_pattern ?c" "hd ?c \<noteq> CHR ''-''" "\<not> effectively_zero w f"
    by (auto simp: parse_payroll_amount_def Let_def result_simps)
  then have pos: "positive_digits ?c w f"
    using wf by (simp add: positive_digits_def numeric_pattern_positive)
  from assms c wf obtain n where n: "decimals m = Whole n" "0 \<le> n"
    by (auto simp: parse_payroll_amount_def scale_and_check_def Let_def result_simps
        split: jsnum.splits if_splits)
  obtain w' f' r where adj: "adjust_fraction (mode_of options) (nat n) w f = (w', f', r)"
    by (cases "adjust_fraction (mode_of options) (nat n) w f") blast
  have ovf: "int (dec_value w') \<le> max_safe_integer"
    using assms c wf n adj
    by (auto simp: parse_payroll_amount_def scale_and_check_def Let_def result_simps)
  note eq = parse_payroll_amount_eq [OF pos n adj ovf]
  let ?final = "int (dec_value w' * 10 ^ nat n + dec_value f')"
  have "check_bounds (opt_bounds options) ?final (nat n) (symbol m) = Inr ()"
    using assms eq by (cases "check_bounds (opt_bounds options) ?final (nat n) (symbol m)") simp_all
  moreover from this have "p = \<lparr>pa_amount = ?final, pa_decimals = n, pa_was_rounded = r\<rparr>"
    using assms eq by simp
  ultimately show ?thesis using that [OF pos n adj ovf] by (simp add: result_simps)
qed

text \<open>
  a successful parse of an asset with at least one decimal returns the digits of the sanitised
  input scaled to the asset's precision and rounded at the first excess digit as the mode says,
  reports rounding exactly when digits were dropped, and respects the configured bounds.
\<close>

theorem parse_value:
  assumes parse: "parse_payroll_amount input m options = Inr p"
    and split: "split_amount (sanitize_input input (symbol m)) = (w, f)"
    and n: "decimals m = Whole n" "0 < n"
  shows "pa_amount p = int (scaled_value (mode_of options) (nat n) w f) \<and> pa_decimals p = n \<and>
    (pa_was_rounded p \<longleftrightarrow> nat n < length f) \<and> within_bounds (opt_bounds options) (pa_amount p)"
proof -
  obtain w0 f0 n0 w' f' r where pos: "positive_digits (sanitize_input input (symbol m)) w0 f0"
    and n0: "decimals m = Whole n0"
    and adj: "adjust_fraction (mode_of options) (nat n0) w0 f0 = (w', f', r)"
    and p: "p = \<lparr>pa_amount = int (dec_value w' * 10 ^ nat n0 + dec_value f'), pa_decimals = n0, pa_was_rounded = r\<rparr>"
    and b: "within_bounds (opt_bounds options) (pa_amount p)"
    by (rule parse_payroll_amount_InrD [OF parse])
  have [simp]: "w0 = w" "f0 = f" "n0 = n"
    using pos split n n0 by (simp_all add: positive_digits_def)
  note adj = adj [simplified] and pos = pos [simplified]
  have "0 < nat n \<or> length f \<le> nat n" using n by simp
  note v = adjust_fraction_value [OF adj this positive_digitsD(2) [OF pos]]
  from p v b show ?thesis by (simp only: parsed_amount.simps simp_thms \<open>n0 = n\<close>)
qed

text \<open>
  for an asset without decimals, half-up rounding of a fraction whose first digit is 5 or more
  adds two units instead of one: the carry goes into the whole part and, because \<open>slice(-0)\<close> keeps
  the whole string, into the fraction again. The amount \<open>1.5\<close> becomes 3.
\<close>

theorem zero_decimals_half_up_overpays:
  assumes pos: "positive_digits (sanitize_input input (symbol m)) w f"
    and n: "decimals m = Whole 0" and f: "f \<noteq> []" "5 \<le> digit_value (hd f)"
    and ovf: "int (dec_value w) < max_safe_integer"
    and opts: "mode_of options = HALF_UP" "opt_bounds options = None"
  shows "parse_payroll_amount input m options =
    Inr \<lparr>pa_amount = int (dec_value w) + 2, pa_decimals = 0, pa_was_rounded = True\<rparr>"
proof -
  have "apply_rounding (digit_value (f ! 0)) (take 0 f) 0 HALF_UP = 1"
    using f by (simp add: apply_rounding_def pad_end_def hd_conv_nth)
  moreover have "dec_string 1 = ''1''" by code_simp
  moreover have "digit_value CHR ''1'' = 1" by code_simp
  ultimately have adj: "adjust_fraction (mode_of options) (nat 0) w f = (dec_string (dec_value w + 1), ''1'', True)"
    using f opts by (simp add: adjust_fraction_def slice_last_def pad_start_def)
  have "int (dec_value (dec_string (dec_value w + 1))) \<le> max_safe_integer" using ovf by simp
  from parse_payroll_amount_eq [OF pos n _ adj this] opts \<open>digit_value CHR ''1'' = 1\<close>
  show ?thesis by (simp add: check_bounds_def)
qed

theorem zero_decimals_half_up_overpays_witness:
  "parse_payroll_amount ''1.5'' ((hd builtin_assets)\<lparr>decimals := Whole 0\<rparr>) no_options =
     Inr \<lparr>pa_amount = 3, pa_decimals = 0, pa_was_rounded = True\<rparr>"
proof -
  let ?m = "(hd builtin_assets)\<lparr>decimals := Whole 0\<rparr>"
  have "positive_digits (sanitize_input ''1.5'' (symbol ?m)) ''1'' ''5''" by code_simp
  moreover have "5 \<le> digit_value (hd ''5'')" "int (dec_value ''1'') < max_safe_integer" "dec_value ''1'' = 1"
    by code_simp+
  ultimately show ?thesis
    using zero_decimals_half_up_overpays [of "''1.5''" ?m "''1''" "''5''" no_options]
    by (simp add: no_options_def)
qed

theorem parse_value_witness:
  "\<exists>p. parse_payroll_amount ''1.25'' ((hd builtin_assets)\<lparr>decimals := Whole 1\<rparr>) no_options = Inr p \<and>
     pa_amount p = int (scaled_value HALF_UP 1 ''1'' ''25'')"
proof -
  let ?m = "(hd builtin_assets)\<lparr>decimals := Whole 1\<rparr>"
  have 1: "parse_payroll_amount ''1.25'' ?m no_options =
      Inr \<lparr>pa_amount = 13, pa_decimals = 1, pa_was_rounded = True\<rparr>" by code_simp
  have 2: "split_amount (sanitize_input ''1.25'' (symbol ?m)) = (''1'', ''25'')" by code_simp
  from parse_value [OF 1 2, of 1] 1 show ?thesis by (simp add: no_options_def)
qed

definition error_code :: "(amount_error, 'a) result \<Rightarrow> amount_parse_error_code option" where
  "error_code r = (case r of Inl (AmountParseError _ c) \<Rightarrow> Some c | _ \<Rightarrow> None)"

lemma error_code_simps [simp]:
  "error_code (Inr x) = None" "error_code (Inl ScaleRangeError) = None"
  "error_code (Inl (AmountParseError msg c)) = Some c"
  by (simp_all add: error_code_def)

lemma error_code_bind: "error_code (bind_result r g) = Some c \<longleftrightarrow>
    error_code r = Some c \<or> (\<exists>x. r = Inr x \<and> error_code (g x) = Some c)"
  by (cases r) (auto simp: error_code_def)

lemma error_code_throw_if: "error_code (throw_if b (AmountParseError msg c)) = Some c' \<longleftrightarrow> b \<and> c' = c"
  by (cases b) auto

lemma error_code_check_bounds:
  "error_code (check_bounds b x d t) = Some c \<Longrightarrow> c = BELOW_MINIMUM \<or> c = EXCEEDS_MAXIMUM"
  by (cases "check_bounds b x d t") (auto dest: check_bounds_Inl)

text \<open>The part of the parser after the sign and zero checks raises only the range codes.\<close>

lemma error_code_scale_and_check:
  "error_code (scale_and_check input m bs md w f) = Some c \<Longrightarrow>
     c = OVERFLOW \<or> c = BELOW_MINIMUM \<or> c = EXCEEDS_MAXIMUM"
  by (auto simp: scale_and_check_def Let_def error_code_bind error_code_throw_if
      split: jsnum.splits if_splits prod.splits dest: error_code_check_bounds)

text \<open>
  which error the parser raises is decided in the order of its checks on the sanitised input:
  empty, not a number, negative, zero; the remaining codes come from overflow and bounds, and
  \<open>EXCESS_PRECISION\<close>, although documented, is never raised.
\<close>

theorem parse_error_codes:
  fixes input m options
  defines "c \<equiv> sanitize_input input (symbol m)" and "r \<equiv> parse_payroll_amount input m options"
  shows "(error_code r = Some EMPTY_INPUT \<longleftrightarrow> c = []) \<and>
    (error_code r = Some INVALID_FORMAT \<longleftrightarrow> c \<noteq> [] \<and> \<not> numeric_pattern c) \<and>
    (error_code r = Some NEGATIVE_VALUE \<longleftrightarrow> c \<noteq> [] \<and> numeric_pattern c \<and> hd c = CHR ''-'') \<and>
    (error_code r = Some ZERO_VALUE \<longleftrightarrow>
       c \<noteq> [] \<and> numeric_body c \<and> effectively_zero (fst (split_amount c)) (snd (split_amount c))) \<and>
    error_code r \<noteq> Some EXCESS_PRECISION"
proof -
  obtain w f where wf: "split_amount c = (w, f)" by (cases "split_amount c") blast
  consider (empty) "c = []" | (invalid) "c \<noteq> []" "\<not> numeric_pattern c"
    | (negative) "c \<noteq> []" "numeric_pattern c" "hd c = CHR ''-''"
    | (positive) "c \<noteq> []" "numeric_pattern c" "hd c \<noteq> CHR ''-''" by blast
  then show ?thesis
  proof cases
    case empty
    then show ?thesis by (simp add: r_def parse_payroll_amount_def c_def [symmetric] numeric_body_def)
  next
    case invalid
    then have "\<not> numeric_body c"
      by (metis numeric_body_not_minus numeric_pattern_no_minus)
    with invalid show ?thesis by (simp add: r_def parse_payroll_amount_def c_def [symmetric])
  next
    case negative
    then have "\<not> numeric_body c" by (metis numeric_body_not_minus)
    with negative show ?thesis by (simp add: r_def parse_payroll_amount_def c_def [symmetric])
  next
    case positive
    then have nb: "numeric_body c" by (simp add: numeric_pattern_no_minus)
    show ?thesis
    proof (cases "effectively_zero w f")
      case True
      with positive nb wf show ?thesis by (simp add: r_def parse_payroll_amount_def c_def [symmetric])
    next
      case False
      have "error_code r = None \<or> error_code r = Some OVERFLOW \<or> error_code r = Some BELOW_MINIMUM \<or>
          error_code r = Some EXCEEDS_MAXIMUM"
      proof (cases "error_code r")
        case (Some k)
        with positive wf False have "k = OVERFLOW \<or> k = BELOW_MINIMUM \<or> k = EXCEEDS_MAXIMUM"
          by (intro error_code_scale_and_check)
            (simp add: r_def parse_payroll_amount_def Let_def c_def [symmetric])
        with Some show ?thesis by simp
      qed simp
      with positive nb wf False show ?thesis by auto
    qed
  qed
qed

text \<open>
  the zero check compares the whole part with the one-character string \<open>0\<close>, so two or more zeros
  pass it and the parser returns the amount 0, which it documents as rejected.
\<close>

theorem repeated_zeros_accepted:
  assumes c: "sanitize_input input (symbol m) = replicate k CHR ''0''" "2 \<le> k"
    and n: "decimals m = Whole n" "0 \<le> n" and b: "opt_bounds options = None"
  shows "parse_payroll_amount input m options =
    Inr \<lparr>pa_amount = 0, pa_decimals = n, pa_was_rounded = False\<rparr>"
proof -
  let ?z = "replicate k CHR ''0''"
  have "length ?z \<noteq> length ''0''" using c by simp
  then have ne: "?z \<noteq> ''0''" by (metis (no_types))
  have "split_amount ?z = (?z, [])" by (simp add: split_amount_def)
  moreover have "numeric_body ?z" using c by (simp add: numeric_body_iff list_all_iff)
  moreover have "\<not> effectively_zero ?z []" using c ne by (simp add: effectively_zero_def)
  ultimately have pos: "positive_digits (sanitize_input input (symbol m)) ?z []"
    using c by (simp add: positive_digits_def)
  have adj: "adjust_fraction (mode_of options) (nat n) ?z [] = (?z, pad_end (nat n) CHR ''0'' [], False)"
    by (simp add: adjust_fraction_def)
  have "int (dec_value ?z) \<le> max_safe_integer" by (simp add: max_safe_integer_def)
  from parse_payroll_amount_eq [OF pos n adj this] b show ?thesis
    by (simp add: check_bounds_def dec_value_pad_end)
qed

theorem repeated_zeros_accepted_witness:
  "parse_payroll_amount ''00'' (hd builtin_assets) no_options =
     Inr \<lparr>pa_amount = 0, pa_decimals = 7, pa_was_rounded = False\<rparr>"
proof -
  have "sanitize_input ''00'' (symbol (hd builtin_assets)) = replicate 2 CHR ''0''" by code_simp
  moreover have "decimals (hd builtin_assets) = Whole 7" by (simp add: builtin_assets_def)
  ultimately show ?thesis
    using repeated_zeros_accepted [of "''00''" "hd builtin_assets" 2 7 no_options]
    by (simp add: no_options_def)
qed

end
