(* ===== verification/AmountRounding.thy ===== *)
theory AmountRounding
  imports AmountParsing
begin

text \<open>
  Rounding between decimal precisions (\<open>packages/core/src/assets/amountRounding.ts\<close>). The four ways of
  dropping digits share a contract on non-negative amounts, stated as the locale \<open>rounding_rule\<close> and
  interpreted on the code's \<open>switch\<close>; the error bounds are proved once inside it.
\<close>

section \<open>Model\<close>

record round_amount_options =
  ro_rounding :: "rounding_mode option"
  ro_target_decimals :: "int option"
  ro_source_decimals :: "int option"

definition default_round_options :: round_amount_options where
  "default_round_options = \<lparr>ro_rounding = None, ro_target_decimals = None, ro_source_decimals = None\<rparr>"

record rounded_amount =
  ra_amount :: int
  ra_target_decimals :: int
  ra_was_rounded :: bool
  ra_original_amount :: int
  ra_source_decimals :: int

text \<open>Dropping digits: division by a power of ten with the mode's correction, and whether anything was
  dropped.\<close>

definition scale_down :: "rounding_mode \<Rightarrow> int \<Rightarrow> int \<Rightarrow> int \<times> bool" where
  "scale_down mode amt divisor =
     (let quotient = amt sdiv divisor; remainder = amt smod divisor in
      case mode of
        TRUNCATE \<Rightarrow> (quotient, remainder \<noteq> 0)
      | HALF_UP \<Rightarrow>
          (let half_divisor = divisor sdiv 2
           in (quotient + (if remainder \<ge> half_divisor then 1 else 0), remainder \<noteq> 0))
      | CEIL \<Rightarrow> (quotient + (if remainder > 0 then 1 else 0), remainder \<noteq> 0)
      | FLOOR \<Rightarrow> (quotient, remainder \<noteq> 0))"

definition round_amount ::
  "int \<Rightarrow> jsnum \<Rightarrow> jsnum \<Rightarrow> round_amount_options \<Rightarrow> (decimals_error, rounded_amount) result" where
  "round_amount amt source target options =
     bind_result (assert_valid_decimals source) (\<lambda>_.
     bind_result (assert_valid_decimals target) (\<lambda>_.
     let rounding = (case ro_rounding options of None \<Rightarrow> HALF_UP | Some m \<Rightarrow> m) in
     case (source, target) of
       (Whole sd, Whole td) \<Rightarrow>
         if sd = td then
           Inr \<lparr>ra_amount = amt, ra_target_decimals = td, ra_was_rounded = False,
                ra_original_amount = amt, ra_source_decimals = sd\<rparr>
         else if td > sd then
           bind_result (get_decimal_scale_factor (Whole (td - sd))) (\<lambda>multiplier.
           Inr \<lparr>ra_amount = amt * multiplier, ra_target_decimals = td, ra_was_rounded = False,
                ra_original_amount = amt, ra_source_decimals = sd\<rparr>)
         else
           bind_result (get_decimal_scale_factor (Whole (sd - td))) (\<lambda>divisor.
           let (res, was_rounded) = scale_down rounding amt divisor in
           Inr \<lparr>ra_amount = res, ra_target_decimals = td, ra_was_rounded = was_rounded,
                ra_original_amount = amt, ra_source_decimals = sd\<rparr>)
     | _ \<Rightarrow> Inl (DecimalsTypeError source)))"

definition round_to_asset_precision ::
  "int \<Rightarrow> asset_metadata \<Rightarrow> round_amount_options \<Rightarrow> (decimals_error, rounded_amount) result" where
  "round_to_asset_precision amt asset options = round_amount amt (decimals asset) (decimals asset) options"

definition convert_amount_precision ::
  "int \<Rightarrow> asset_metadata \<Rightarrow> asset_metadata \<Rightarrow> round_amount_options \<Rightarrow> (decimals_error, rounded_amount) result" where
  "convert_amount_precision amt source target options =
     round_amount amt (decimals source) (decimals target) options"

definition round_parsed_amount ::
  "string \<Rightarrow> asset_metadata \<Rightarrow> asset_metadata \<Rightarrow> round_amount_options
   \<Rightarrow> (amount_error + decimals_error, rounded_amount) result" where
  "round_parsed_amount str source target options =
     (case parse_payroll_amount str source (no_options\<lparr>opt_rounding := ro_rounding options\<rparr>) of
        Inl e \<Rightarrow> Inl (Inl e)
      | Inr parsed \<Rightarrow>
          (case convert_amount_precision (pa_amount parsed) source target options of
             Inl e \<Rightarrow> Inl (Inr e) | Inr r \<Rightarrow> Inr r))"

datatype increment_error = IncrementNotPositive

definition round_to_increment :: "int \<Rightarrow> int \<Rightarrow> asset_metadata \<Rightarrow> (increment_error, int \<times> jsnum \<times> bool \<times> int) result" where
  "round_to_increment amt increment asset =
     bind_result (throw_if (increment \<le> 0) IncrementNotPositive) (\<lambda>_.
     let remainder = amt smod increment; rounded = amt - remainder
     in Inr (rounded, decimals asset, remainder \<noteq> 0, amt))"

definition can_represent_exactly :: "int \<Rightarrow> jsnum \<Rightarrow> jsnum \<Rightarrow> (decimals_error, bool) result" where
  "can_represent_exactly amt source target =
     bind_result (assert_valid_decimals source) (\<lambda>_.
     bind_result (assert_valid_decimals target) (\<lambda>_.
     case (source, target) of
       (Whole sd, Whole td) \<Rightarrow>
         if td \<ge> sd then Inr True
         else bind_result (get_decimal_scale_factor (Whole (sd - td))) (\<lambda>divisor. Inr (amt smod divisor = 0))
     | _ \<Rightarrow> Inl (DecimalsTypeError source)))"

definition get_minimum_representable_amount :: "jsnum \<Rightarrow> (decimals_error, int) result" where
  "get_minimum_representable_amount d = bind_result (assert_valid_decimals d) (\<lambda>_. Inr 1)"

definition format_rounded_amount :: "rounded_amount \<Rightarrow> asset_metadata \<Rightarrow> (decimals_error, string) result" where
  "format_rounded_amount r asset =
     bind_result (get_decimal_scale_factor (Whole (ra_target_decimals r))) (\<lambda>scale.
     let whole = ra_amount r sdiv scale; frac = ra_amount r smod scale in
     if frac = 0 then Inr (int_string whole @ '' '' @ symbol asset)
     else
       (let frac_str = strip_trailing_zeros (pad_start (nat (ra_target_decimals r)) CHR ''0'' (int_string frac))
        in Inr (int_string whole @ ''.'' @ frac_str @ '' '' @ symbol asset)))"

section \<open>The contract of a rounding rule\<close>

locale rounding_rule =
  fixes rnd :: "int \<Rightarrow> int \<Rightarrow> int"
  assumes rnd_bounds: "0 \<le> a \<Longrightarrow> 2 \<le> d \<Longrightarrow> a div d \<le> rnd a d \<and> rnd a d \<le> a div d + 1"
    and rnd_exact: "0 \<le> a \<Longrightarrow> 2 \<le> d \<Longrightarrow> d dvd a \<Longrightarrow> rnd a d = a div d"
    and rnd_mono_rem: "0 \<le> a \<Longrightarrow> 2 \<le> d \<Longrightarrow> a \<le> b \<Longrightarrow> a div d = b div d \<Longrightarrow> rnd a d \<le> rnd b d"
begin

lemma rnd_error: assumes "0 \<le> a" "2 \<le> d" shows "\<bar>rnd a d * d - a\<bar> < d"
proof -
  have dm: "a div d * d + a mod d = a" by (rule div_mult_mod_eq)
  have m: "0 \<le> a mod d" "a mod d < d" using assms by simp_all
  show ?thesis
  proof (cases "rnd a d = a div d")
    case True
    then have "rnd a d * d = a div d * d" by simp
    with dm m show ?thesis by linarith
  next
    case False
    with rnd_bounds [OF assms] have "rnd a d = a div d + 1" by simp
    then have eq: "rnd a d * d = a div d * d + d" by (simp add: algebra_simps)
    from False rnd_exact [OF assms] have "a mod d \<noteq> 0" by (auto simp: dvd_eq_mod_eq_0)
    with eq dm m show ?thesis by linarith
  qed
qed

lemma rnd_nonneg: "0 \<le> a \<Longrightarrow> 2 \<le> d \<Longrightarrow> 0 \<le> rnd a d"
  using rnd_bounds [of a d] pos_imp_zdiv_nonneg_iff [of d a] by simp

lemma rnd_mono:
  assumes "0 \<le> a" "2 \<le> d" "a \<le> b"
  shows "rnd a d \<le> rnd b d"
proof (cases "a div d = b div d")
  case True
  with assms show ?thesis by (intro rnd_mono_rem) auto
next
  case False
  with assms have "a div d + 1 \<le> b div d" using zdiv_mono1 [of a b d] by simp
  with rnd_bounds [of a d] rnd_bounds [of b d] assms show ?thesis by simp
qed

lemma rnd_scaled: "0 \<le> q \<Longrightarrow> 2 \<le> d \<Longrightarrow> rnd (q * d) d = q"
  by (subst rnd_exact) simp_all

end

lemma scale_down_nonneg:
  assumes "0 \<le> a" "2 \<le> d"
  shows "fst (scale_down TRUNCATE a d) = a div d" "fst (scale_down FLOOR a d) = a div d"
    "fst (scale_down CEIL a d) = a div d + (if a mod d = 0 then 0 else 1)"
    "fst (scale_down HALF_UP a d) = a div d + (if d div 2 \<le> a mod d then 1 else 0)"
proof -
  have m: "0 \<le> a mod d" using assms by simp
  have s: "a sdiv d = a div d" "a smod d = a mod d" "d sdiv 2 = d div 2"
    using assms by (simp_all add: sdiv_nonneg smod_nonneg)
  show "fst (scale_down TRUNCATE a d) = a div d" "fst (scale_down FLOOR a d) = a div d"
    "fst (scale_down CEIL a d) = a div d + (if a mod d = 0 then 0 else 1)"
    "fst (scale_down HALF_UP a d) = a div d + (if d div 2 \<le> a mod d then 1 else 0)"
    using m by (auto simp: scale_down_def s Let_def)
qed

lemma mod_le_of_same_div: "a \<le> b \<Longrightarrow> a div d = b div d \<Longrightarrow> a mod d \<le> b mod (d::int)"
  by (simp add: minus_div_mult_eq_mod [symmetric])

interpretation truncate: rounding_rule "\<lambda>a d. fst (scale_down TRUNCATE a d)"
  by unfold_locales (auto simp: scale_down_nonneg)

interpretation floor_rule: rounding_rule "\<lambda>a d. fst (scale_down FLOOR a d)"
  by unfold_locales (auto simp: scale_down_nonneg)

interpretation ceil: rounding_rule "\<lambda>a d. fst (scale_down CEIL a d)"
proof unfold_locales
  fix a b d :: int assume "0 \<le> a" "2 \<le> d" "a \<le> b" "a div d = b div d"
  moreover from this have "a mod d \<le> b mod d" "0 \<le> a mod d" by (simp_all add: mod_le_of_same_div)
  then have "a mod d \<noteq> 0 \<Longrightarrow> b mod d \<noteq> 0" by linarith
  ultimately show "fst (scale_down CEIL a d) \<le> fst (scale_down CEIL b d)"
    by (simp add: scale_down_nonneg)
qed (auto simp: scale_down_nonneg)

interpretation half_up: rounding_rule "\<lambda>a d. fst (scale_down HALF_UP a d)"
proof unfold_locales
  fix a b d :: int assume "0 \<le> a" "2 \<le> d" "a \<le> b" "a div d = b div d"
  moreover from this have "a mod d \<le> b mod d" by (simp add: mod_le_of_same_div)
  ultimately show "fst (scale_down HALF_UP a d) \<le> fst (scale_down HALF_UP b d)"
    by (auto simp: scale_down_nonneg)
qed (auto simp: scale_down_nonneg)

lemma scale_down_error: "0 \<le> a \<Longrightarrow> 2 \<le> d \<Longrightarrow> \<bar>fst (scale_down mode a d) * d - a\<bar> < d"
  by (cases mode) (simp_all add: truncate.rnd_error floor_rule.rnd_error ceil.rnd_error half_up.rnd_error)

lemma scale_down_exact_iff: "0 < d \<Longrightarrow> snd (scale_down mode a d) \<longleftrightarrow> \<not> d dvd a"
  by (cases mode) (simp_all add: scale_down_def Let_def smod_eq_0_iff)

lemma nearest_multiple:
  fixes q r d :: int
  assumes "0 \<le> r" "r < d" "even d"
  shows "2 * \<bar>(q + (if d div 2 \<le> r then 1 else 0)) * d - (q * d + r)\<bar> \<le> d"
proof -
  from assms(3) obtain h where d: "d = 2 * h" by (rule evenE)
  show ?thesis
  proof (cases "h \<le> r")
    case True
    then have "(q + (if d div 2 \<le> r then 1 else 0)) * d - (q * d + r) = d - r"
      by (simp add: d algebra_simps)
    with True assms d show ?thesis by simp
  next
    case False
    then have "(q + (if d div 2 \<le> r then 1 else 0)) * d - (q * d + r) = - r"
      by (simp add: d algebra_simps)
    with False assms d show ?thesis by simp
  qed
qed

lemma half_up_nearest:
  assumes "0 \<le> a" "2 \<le> d" "even d"
  shows "2 * \<bar>fst (scale_down HALF_UP a d) * d - a\<bar> \<le> d"
  using nearest_multiple [of "a mod d" d "a div d"] assms by (simp add: scale_down_nonneg)

lemma ceil_covers:
  assumes "0 \<le> a" "2 \<le> d"
  shows "a \<le> fst (scale_down CEIL a d) * d"
proof (cases "a mod d = 0")
  case True
  with assms show ?thesis by (simp add: scale_down_nonneg mod_eq_0_iff_dvd)
next
  case False
  then have "fst (scale_down CEIL a d) * d = a div d * d + d"
    using assms by (simp add: scale_down_nonneg distrib_right)
  moreover have "a div d * d + a mod d = a" by (rule div_mult_mod_eq)
  moreover have "a mod d < d" using assms by simp
  ultimately show ?thesis by linarith
qed

section \<open>Properties\<close>

lemma even_pow10: "0 < k \<Longrightarrow> even (pow10 k)"
  by (simp add: pow10_def)

lemma get_decimal_scale_factor_Whole:
  "0 \<le> n \<Longrightarrow> n \<le> 18 \<Longrightarrow> get_decimal_scale_factor (Whole n) = Inr (pow10 n)"
  by (simp add: get_decimal_scale_factor_def assert_valid_decimals_ok is_valid_decimals_Whole)

abbreviation rounding_of :: "round_amount_options \<Rightarrow> rounding_mode" where
  "rounding_of options \<equiv> (case ro_rounding options of None \<Rightarrow> HALF_UP | Some m \<Rightarrow> m)"

lemma round_amount_down:
  assumes "0 \<le> td" "td < sd" "sd \<le> 18"
  shows "round_amount a (Whole sd) (Whole td) options =
    Inr \<lparr>ra_amount = fst (scale_down (rounding_of options) a (pow10 (sd - td))), ra_target_decimals = td,
      ra_was_rounded = snd (scale_down (rounding_of options) a (pow10 (sd - td))),
      ra_original_amount = a, ra_source_decimals = sd\<rparr>"
  using assms
  by (simp add: round_amount_def assert_valid_decimals_ok is_valid_decimals_Whole
      get_decimal_scale_factor_Whole split: prod.split)

lemma round_amount_up:
  assumes "0 \<le> sd" "sd \<le> td" "td \<le> 18"
  shows "round_amount a (Whole sd) (Whole td) options =
    Inr \<lparr>ra_amount = a * pow10 (td - sd), ra_target_decimals = td, ra_was_rounded = False,
      ra_original_amount = a, ra_source_decimals = sd\<rparr>"
  using assms
  by (simp add: round_amount_def assert_valid_decimals_ok is_valid_decimals_Whole
      get_decimal_scale_factor_Whole pow10_def)

text \<open>
  dropping digits of a non-negative amount always succeeds for valid decimals; the result, scaled
  back, is less than one unit away from the input, half-up is a nearest multiple, truncation and floor
  never exceed the input and ceiling never falls short of it; rounding is reported exactly when a
  dropped digit was not zero.
\<close>

theorem round_amount_error:
  assumes "0 \<le> td" "td < sd" "sd \<le> 18" "0 \<le> a"
  shows "\<exists>r. round_amount a (Whole sd) (Whole td) options = Inr r \<and>
    (let d = pow10 (sd - td); back = ra_amount r * d in
       \<bar>back - a\<bar> < d \<and>
       (rounding_of options = HALF_UP \<longrightarrow> 2 * \<bar>back - a\<bar> \<le> d) \<and>
       (rounding_of options \<in> {TRUNCATE, FLOOR} \<longrightarrow> back \<le> a) \<and>
       (rounding_of options = CEIL \<longrightarrow> a \<le> back) \<and>
       (ra_was_rounded r \<longleftrightarrow> \<not> d dvd a))"
proof -
  let ?d = "pow10 (sd - td)"
  have d: "2 \<le> ?d" "even ?d" using assms pow10_ge_10 [of "sd - td"] even_pow10 [of "sd - td"] by simp_all
  have dm: "a div ?d * ?d + a mod ?d = a" "0 \<le> a mod ?d" "a mod ?d < ?d" by simp_all
  have ceil: "a \<le> fst (scale_down CEIL a ?d) * ?d" by (rule ceil_covers [OF assms(4) d(1)])
  have low: "fst (scale_down TRUNCATE a ?d) * ?d \<le> a" "fst (scale_down FLOOR a ?d) * ?d \<le> a"
    using assms(4) d by (simp_all add: scale_down_nonneg minus_mod_eq_div_mult [symmetric])
  show ?thesis
    using scale_down_error [OF assms(4) d(1), of "rounding_of options"] half_up_nearest [OF assms(4) d] ceil low d
      scale_down_exact_iff [of ?d "rounding_of options" a]
    by (subst round_amount_down [OF assms(1-3)])
      (auto simp: Let_def)
qed

theorem round_amount_error_witness:
  "\<exists>r. round_amount 12345 (Whole 4) (Whole 2) default_round_options = Inr r \<and> ra_amount r = 123 \<and>
     \<bar>ra_amount r * 100 - 12345\<bar> < 100"
proof -
  have 1: "pow10 2 = 100" by code_simp
  have "round_amount 12345 (Whole 4) (Whole 2) default_round_options =
      Inr \<lparr>ra_amount = 123, ra_target_decimals = 2, ra_was_rounded = True, ra_original_amount = 12345,
        ra_source_decimals = 4\<rparr>" by code_simp
  with round_amount_error [of 2 4 12345 default_round_options] 1 show ?thesis by (simp add: Let_def)
qed

text \<open>
  raising the precision of any amount, negative ones included, and then lowering it again with
  any rounding mode gives the amount back, with no rounding reported in either direction.
\<close>

theorem precision_round_trip:
  assumes "0 \<le> sd" "sd \<le> td" "td \<le> 18"
  shows "bind_result (round_amount a (Whole sd) (Whole td) options)
      (\<lambda>r. map_sum id (\<lambda>q. (ra_was_rounded r, ra_amount q, ra_was_rounded q))
        (round_amount (ra_amount r) (Whole td) (Whole sd) options')) = Inr (False, a, False)"
proof (cases "sd = td")
  case True
  with assms show ?thesis by (simp add: round_amount_up pow10_def)
next
  case False
  let ?d = "pow10 (td - sd)"
  have d: "2 \<le> ?d" using False assms pow10_ge_10 [of "td - sd"] by simp
  then have d0: "0 < ?d" by simp
  have m: "(a * ?d) smod ?d = 0" using d0 by (simp add: smod_eq_0_iff)
  from sdiv_mult_smod [OF d0, of "a * ?d"] m d0 have q: "(a * ?d) sdiv ?d = a" by simp
  have "\<not> ?d sdiv 2 \<le> 0" using d by (simp add: sdiv_nonneg)
  then have "scale_down mode (a * ?d) ?d = (a, False)" for mode
    by (cases mode) (simp_all add: scale_down_def q m)
  with False assms show ?thesis by (simp add: round_amount_up round_amount_down)
qed

theorem precision_round_trip_witness:
  "bind_result (round_amount (-5) (Whole 2) (Whole 7) default_round_options)
      (\<lambda>r. map_sum id (\<lambda>q. (ra_was_rounded r, ra_amount q, ra_was_rounded q))
        (round_amount (ra_amount r) (Whole 7) (Whole 2) default_round_options)) = Inr (False, -5, False)"
  by (rule precision_round_trip) simp_all

text \<open>
  \<open>canRepresentExactly\<close> is true exactly when \<open>roundAmount\<close>, under any mode, reports no rounding, and it
  throws on the same decimals.
\<close>

theorem can_represent_exactly_iff:
  "can_represent_exactly a source target =
     map_sum id (\<lambda>r. \<not> ra_was_rounded r) (round_amount a source target options)"
proof (cases "is_valid_decimals source \<and> is_valid_decimals target")
  case True
  then obtain sd td where [simp]: "source = Whole sd" "target = Whole td"
    and b: "0 \<le> sd" "sd \<le> 18" "0 \<le> td" "td \<le> 18" by (auto simp: is_valid_decimals_iff)
  show ?thesis
  proof (cases "sd \<le> td")
    case True
    with b show ?thesis
      by (simp add: can_represent_exactly_def assert_valid_decimals_ok is_valid_decimals_Whole round_amount_up)
  next
    case False
    with b show ?thesis
      by (simp add: can_represent_exactly_def assert_valid_decimals_ok is_valid_decimals_Whole round_amount_down
          get_decimal_scale_factor_Whole scale_down_exact_iff smod_eq_0_iff)
  qed
next
  case False
  then have "(\<exists>e. assert_valid_decimals source = Inl e) \<or>
      (assert_valid_decimals source = Inr () \<and> (\<exists>e. assert_valid_decimals target = Inl e))"
    using assert_valid_decimals_Inr_iff [of source "()"] assert_valid_decimals_Inr_iff [of target "()"]
    by (cases "assert_valid_decimals source"; cases "assert_valid_decimals target") auto
  then show ?thesis by (auto simp: can_represent_exactly_def round_amount_def)
qed

text \<open>
  \<open>HALF_UP\<close> is documented as rounding halves away from zero, but a negative remainder never reaches
  half the divisor: every negative amount is truncated towards zero, whatever the mode, so that at one
  decimal less \<open>-19\<close> becomes \<open>-1\<close> and not \<open>-2\<close>.
\<close>

theorem negative_amounts_truncate:
  assumes "0 \<le> td" "td < sd" "sd \<le> 18" "a < 0"
  shows "round_amount a (Whole sd) (Whole td) options =
    round_amount a (Whole sd) (Whole td) (options\<lparr>ro_rounding := Some TRUNCATE\<rparr>)"
proof -
  let ?d = "pow10 (sd - td)"
  have d: "2 \<le> ?d" using assms pow10_ge_10 [of "sd - td"] by simp
  then have "a smod ?d \<le> 0" using assms by (simp add: smod_neg)
  moreover have "0 < ?d sdiv 2" using d by (simp add: sdiv_nonneg)
  ultimately have "scale_down mode a ?d = scale_down TRUNCATE a ?d" for mode
    by (cases mode) (auto simp: scale_down_def Let_def)
  with assms show ?thesis by (simp add: round_amount_down) metis
qed

theorem negative_amounts_truncate_witness:
  "map_sum id ra_amount (round_amount (-19) (Whole 1) (Whole 0) default_round_options) = Inr (-1)"
proof -
  have "round_amount (-19) (Whole 1) (Whole 0) (default_round_options\<lparr>ro_rounding := Some TRUNCATE\<rparr>) =
    Inr \<lparr>ra_amount = -1, ra_target_decimals = 0, ra_was_rounded = True, ra_original_amount = -19,
      ra_source_decimals = 1\<rparr>" by code_simp
  with negative_amounts_truncate [of 0 1 "-19" default_round_options] show ?thesis by simp
qed

text \<open>The digit the parser rounds at, against the remainder the bigint version rounds at.\<close>

lemma dropped_digits:
  assumes f: "\<forall>c \<in> set f. is_digit c" and d: "d < length f"
  defines "k \<equiv> length f - d"
  shows "dec_value (w @ f) div 10 ^ k = dec_value (w @ take d f)"
    "dec_value (w @ f) mod 10 ^ k = dec_value (drop d f)"
    "5 \<le> digit_value (f ! d) \<longleftrightarrow> 10 ^ k div 2 \<le> dec_value (drop d f)"
    "f ! d = CHR ''0'' \<Longrightarrow> dec_value (drop d f) < 10 ^ k div 2"
proof -
  have s: "dec_value (w @ f) = dec_value (w @ take d f) * 10 ^ k + dec_value (drop d f)"
    using radix_value_append [of 10 "w @ take d f" "drop d f"] by (simp add: k_def)
  have lt: "dec_value (drop d f) < 10 ^ k"
    using dec_value_lt [of "drop d f"] f by (auto simp: k_def dest: in_set_dropD)
  from s lt show "dec_value (w @ f) div 10 ^ k = dec_value (w @ take d f)"
    "dec_value (w @ f) mod 10 ^ k = dec_value (drop d f)" by simp_all
  obtain j where k: "k = Suc j" using d by (cases k) (simp_all add: k_def)
  then have j: "length (drop (Suc d) f) = j" by (simp add: k_def)
  have r: "dec_value (drop (Suc d) f) < 10 ^ j"
    using dec_value_lt [of "drop (Suc d) f"] f j by (auto dest: in_set_dropD)
  have v: "dec_value (drop d f) = digit_value (f ! d) * 10 ^ j + dec_value (drop (Suc d) f)"
    using d j by (simp add: Cons_nth_drop_Suc [symmetric] radix_value_Cons)
  have h: "10 ^ k div 2 = (5 * 10 ^ j :: nat)" by (simp add: k)
  show "5 \<le> digit_value (f ! d) \<longleftrightarrow> 10 ^ k div 2 \<le> dec_value (drop d f)"
  proof
    assume "5 \<le> digit_value (f ! d)"
    then have "5 * 10 ^ j \<le> digit_value (f ! d) * (10 ^ j :: nat)" by (rule mult_le_mono1)
    then show "10 ^ k div 2 \<le> dec_value (drop d f)" unfolding v h by (rule trans_le_add1)
  next
    assume "10 ^ k div 2 \<le> dec_value (drop d f)"
    then have "5 * 10 ^ j < digit_value (f ! d) * 10 ^ j + (10 ^ j :: nat)" using r unfolding v h by linarith
    then have "5 * 10 ^ j < (digit_value (f ! d) + 1) * (10 ^ j :: nat)" by (simp only: distrib_right mult_1)
    then have "5 < digit_value (f ! d) + 1" by (simp only: mult_less_cancel2)
    then show "5 \<le> digit_value (f ! d)" by simp
  qed
  show "dec_value (drop d f) < 10 ^ k div 2" if "f ! d = CHR ''0''"
    using that r by (simp add: v h)
qed

lemma scaled_value_scale_down:
  assumes f: "\<forall>c \<in> set f. is_digit c" and d: "d < length f"
  shows "mode \<noteq> CEIL \<Longrightarrow>
      int (scaled_value mode d w f) = fst (scale_down mode (int (dec_value (w @ f))) (10 ^ (length f - d)))"
    and "f ! d = CHR ''0'' \<Longrightarrow> dec_value (drop d f) \<noteq> 0 \<Longrightarrow>
      int (scaled_value CEIL d w f) + 1 = fst (scale_down CEIL (int (dec_value (w @ f))) (10 ^ (length f - d)))"
proof -
  let ?k = "length f - d" and ?v = "dec_value (w @ f)"
  note dd = dropped_digits [OF f d]
  have "(10::int) ^ 1 \<le> 10 ^ ?k" using d by (intro power_increasing) simp_all
  then have p: "(2::int) \<le> 10 ^ ?k" by simp
  have q: "int ?v div 10 ^ ?k = int (dec_value (w @ take d f))"
    using dd(1) [of w] by (metis of_nat_numeral of_nat_power zdiv_int)
  have m: "int ?v mod 10 ^ ?k = int (dec_value (drop d f))"
    using dd(2) [of w] by (metis of_nat_numeral of_nat_power zmod_int)
  have h: "(10::int) ^ ?k div 2 \<le> int (dec_value (drop d f)) \<longleftrightarrow> 5 \<le> digit_value (f ! d)"
    using dd(3) by (metis of_nat_numeral of_nat_power zdiv_int of_nat_le_iff)
  have n: "0 \<le> int ?v" by simp
  show "int (scaled_value mode d w f) = fst (scale_down mode (int ?v) (10 ^ ?k))" if "mode \<noteq> CEIL"
    using that d by (cases mode) (simp_all add: scale_down_nonneg [OF n p] q m h scaled_value_def rounds_up_def)
  show "int (scaled_value CEIL d w f) + 1 = fst (scale_down CEIL (int ?v) (10 ^ ?k))"
    if "f ! d = CHR ''0''" "dec_value (drop d f) \<noteq> 0"
    using that d by (simp add: scale_down_nonneg [OF n p] q m scaled_value_def rounds_up_def)
qed

abbreviation round_options_of :: "parse_options \<Rightarrow> round_amount_options" where
  "round_options_of options \<equiv> default_round_options\<lparr>ro_rounding := opt_rounding options\<rparr>"

lemma pow10_int_diff: "nat n < l \<Longrightarrow> 0 \<le> n \<Longrightarrow> pow10 (int l - n) = 10 ^ (l - nat n)"
  by (simp add: pow10_def nat_diff_distrib)

lemma parsed_value:
  assumes parse: "parse_payroll_amount input m options = Inr p"
    and split: "split_amount (sanitize_input input (symbol m)) = (w, f)"
    and n: "decimals m = Whole n" "0 < n"
  shows "pa_amount p = int (scaled_value (mode_of options) (nat n) w f)" "\<forall>c \<in> set f. is_digit c"
proof -
  obtain w0 f0 n0 w' f' r where pos: "positive_digits (sanitize_input input (symbol m)) w0 f0"
    and n0: "decimals m = Whole n0"
    and adj: "adjust_fraction (mode_of options) (nat n0) w0 f0 = (w', f', r)"
    and p: "p = \<lparr>pa_amount = int (dec_value w' * 10 ^ nat n0 + dec_value f'), pa_decimals = n0, pa_was_rounded = r\<rparr>"
    by (rule parse_payroll_amount_InrD [OF parse])
  have [simp]: "w0 = w" "f0 = f" "n0 = n"
    using pos split n n0 by (simp_all add: positive_digits_def)
  note adj = adj [simplified] and pos = pos [simplified]
  show f: "\<forall>c \<in> set f. is_digit c" by (rule positive_digitsD(2) [OF pos])
  have "0 < nat n \<or> length f \<le> nat n" using n by simp
  from adjust_fraction_value(1) [OF adj this f] p
  show "pa_amount p = int (scaled_value (mode_of options) (nat n) w f)" by simp
qed

text \<open>
  the string parser and the bigint rounding agree: parsing a number with excess digits gives the
  amount that \<open>roundAmount\<close> computes from the unscaled digits under the same mode, for every mode but
  \<open>CEIL\<close>.
\<close>

theorem parse_agrees_with_round_amount:
  assumes parse: "parse_payroll_amount input m options = Inr p"
    and split: "split_amount (sanitize_input input (symbol m)) = (w, f)"
    and n: "decimals m = Whole n" "0 < n" "n \<le> 18" and len: "length f \<le> 18"
    and mode: "mode_of options \<noteq> CEIL"
  shows "map_sum id ra_amount
      (round_amount (int (dec_value (w @ f))) (Whole (int (length f))) (Whole n) (round_options_of options)) =
    Inr (pa_amount p)"
proof (cases "length f \<le> nat n")
  case True
  then have l: "0 \<le> int (length f)" "int (length f) \<le> n" using n by simp_all
  have "pow10 (n - int (length f)) = 10 ^ (nat n - length f)" using l by (simp add: pow10_def nat_diff_distrib)
  with True parsed_value(1) [OF parse split n(1,2)] show ?thesis
    by (simp add: round_amount_up [OF l n(3)] scaled_value_def)
next
  case False
  then have l: "0 \<le> n" "n < int (length f)" "int (length f) \<le> 18" "nat n < length f" using n len by simp_all
  show ?thesis
    using parsed_value(1) [OF parse split n(1,2)]
      scaled_value_scale_down(1) [OF parsed_value(2) [OF parse split n(1,2)] l(4) mode, of w]
    by (simp add: round_amount_down [OF l(1-3)] pow10_int_diff [OF l(4,1)] default_round_options_def)
qed

theorem parse_agrees_with_round_amount_witness:
  "map_sum id ra_amount (round_amount 125 (Whole 2) (Whole 1) default_round_options) = Inr 13"
proof -
  let ?m = "(hd builtin_assets)\<lparr>decimals := Whole 1\<rparr>"
  have 1: "parse_payroll_amount ''1.25'' ?m no_options =
      Inr \<lparr>pa_amount = 13, pa_decimals = 1, pa_was_rounded = True\<rparr>" by code_simp
  have 2: "split_amount (sanitize_input ''1.25'' (symbol ?m)) = (''1'', ''25'')" by code_simp
  have 3: "dec_value ''125'' = 125" by code_simp
  from parse_agrees_with_round_amount [OF 1 2, of 1] 3 show ?thesis
    by (simp add: no_options_def default_round_options_def)
qed

text \<open>
  under \<open>CEIL\<close> they differ: the parser looks only at the first excess digit, so a number whose first
  excess digit is 0 but which still has a nonzero digit after it is not rounded up, and is one unit below
  what \<open>roundAmount\<close> returns for the same digits.
\<close>

theorem parse_ceil_ignores_later_digits:
  assumes parse: "parse_payroll_amount input m options = Inr p"
    and split: "split_amount (sanitize_input input (symbol m)) = (w, f)"
    and n: "decimals m = Whole n" "0 < n" and len: "nat n < length f" "length f \<le> 18"
    and mode: "mode_of options = CEIL"
    and excess: "f ! nat n = CHR ''0''" "dec_value (drop (nat n) f) \<noteq> 0"
  shows "map_sum id ra_amount
      (round_amount (int (dec_value (w @ f))) (Whole (int (length f))) (Whole n) (round_options_of options)) =
    Inr (pa_amount p + 1)"
proof -
  have l: "0 \<le> n" "n < int (length f)" "int (length f) \<le> 18" using n len by simp_all
  show ?thesis
    using parsed_value(1) [OF parse split n] mode
      scaled_value_scale_down(2) [OF parsed_value(2) [OF parse split n] len(1) excess, of w]
    by (simp add: round_amount_down [OF l] pow10_int_diff [OF len(1) l(1)] default_round_options_def)
qed

theorem parse_ceil_ignores_later_digits_witness:
  "map_sum id pa_amount (parse_payroll_amount ''1.001'' ((hd builtin_assets)\<lparr>decimals := Whole 1\<rparr>)
      (no_options\<lparr>opt_rounding := Some CEIL\<rparr>)) = Inr 10 \<and>
   map_sum id ra_amount (round_amount 1001 (Whole 3) (Whole 1) (default_round_options\<lparr>ro_rounding := Some CEIL\<rparr>)) = Inr 11"
proof -
  let ?m = "(hd builtin_assets)\<lparr>decimals := Whole 1\<rparr>"
  let ?o = "no_options\<lparr>opt_rounding := Some CEIL\<rparr>"
  have 1: "parse_payroll_amount ''1.001'' ?m ?o =
      Inr \<lparr>pa_amount = 10, pa_decimals = 1, pa_was_rounded = True\<rparr>" by code_simp
  have 2: "split_amount (sanitize_input ''1.001'' (symbol ?m)) = (''1'', ''001'')" by code_simp
  have 3: "dec_value ''1001'' = 1001" "dec_value ''1'' = 1" by code_simp+
  have 4: "''001'' ! nat 1 = CHR ''0''" "dec_value (drop (nat 1) ''001'') \<noteq> 0" by code_simp+
  have "map_sum id ra_amount (round_amount (int (dec_value (''1'' @ ''001''))) (Whole (int (length ''001'')))
      (Whole 1) (round_options_of ?o)) = Inr 11"
    using parse_ceil_ignores_later_digits [OF 1 2, of 1] 4 by simp
  with 1 3 show ?thesis by simp
qed

section \<open>The value of a parsed amount\<close>

lemma half_up_div:
  fixes v e :: int
  assumes "even e" "0 < e"
  shows "(2 * v + e) div (2 * e) = v div e + (if e div 2 \<le> v mod e then 1 else 0)"
proof -
  obtain h where h: "e = 2 * h" using assms(1) by blast
  define q r where "q = v div e" and "r = v mod e"
  have v: "v = e * q + r" by (simp add: q_def r_def)
  have r: "0 \<le> r" "r < e" using assms(2) by (simp_all add: r_def)
  have "2 * v + e = (2 * r + e) + q * (2 * e)" by (simp add: v algebra_simps)
  moreover have "2 * e \<noteq> 0" using assms(2) by simp
  ultimately have "(2 * v + e) div (2 * e) = q + (2 * r + e) div (2 * e)" by (simp only: div_mult_self1 not_False_eq_True)
  moreover have "(2 * r + e) div (2 * e) = (if e div 2 \<le> r then 1 else 0)"
  proof (cases "e div 2 \<le> r")
    case True
    then have "(2 * r + e) div (2 * e) = 1 + (2 * r - e) div (2 * e)"
      using assms(2) div_add_self2 [of "2 * e" "2 * r - e"] by (simp add: algebra_simps)
    moreover have "(2 * r - e) div (2 * e) = 0" using True r h by (intro div_pos_pos_trivial) auto
    ultimately show ?thesis using True by simp
  next
    case False
    then show ?thesis using r assms(2) h by (simp add: div_pos_pos_trivial)
  qed
  ultimately show ?thesis by (simp add: q_def r_def)
qed

text \<open>The digits dropped by the scaled value, as one division of the number the digits say\<close>

lemma scaled_value_div:
  assumes f: "\<forall>c \<in> set f. is_digit c" and mode: "mode \<noteq> CEIL"
  shows "int (scaled_value mode d w f) =
    (if mode = HALF_UP then (2 * (int (dec_value (w @ f)) * 10 ^ d) + 10 ^ length f) div (2 * 10 ^ length f)
     else (int (dec_value (w @ f)) * 10 ^ d) div 10 ^ length f)"
proof (cases "length f \<le> d")
  case True
  let ?x = "int (dec_value (w @ f)) * 10 ^ (d - length f)" and ?p = "(10::int) ^ length f"
  have v: "int (dec_value (w @ f)) * 10 ^ d = ?x * ?p" using True by (simp add: power_add [symmetric])
  have "even ?p \<or> ?p = 1" by (cases "length f") simp_all
  then have "(2 * (?x * ?p) + ?p) div (2 * ?p) = ?x"
  proof
    assume "even ?p"
    then obtain h where h: "?p = 2 * h" by blast
    have "0 < ?p" by simp
    then have "0 < h" by (simp only: h)
    then show ?thesis using half_up_div [of "2 * h" "?x * (2 * h)"] unfolding h by simp
  qed auto
  then show ?thesis using True by (simp add: v scaled_value_def)
next
  case False
  let ?v = "int (dec_value (w @ f))" and ?e = "(10::int) ^ (length f - d)"
  have e: "even ?e" "2 \<le> ?e"
  proof -
    show "even ?e" using False by simp
    have "(10::int) ^ 1 \<le> ?e" using False by (intro power_increasing) simp_all
    then show "2 \<le> ?e" by simp
  qed
  have p: "(10::int) ^ length f = 10 ^ d * ?e" using False by (simp add: power_add [symmetric])
  have "(2 * (?v * 10 ^ d) + 10 ^ length f) div (2 * 10 ^ length f) = (10 ^ d * (2 * ?v + ?e)) div (10 ^ d * (2 * ?e))"
    by (simp add: p algebra_simps)
  then have up: "(2 * (?v * 10 ^ d) + 10 ^ length f) div (2 * 10 ^ length f) = (2 * ?v + ?e) div (2 * ?e)" by simp
  have down: "(?v * 10 ^ d) div 10 ^ length f = ?v div ?e" by (simp add: p mult.commute)
  have d: "d < length f" using False by simp
  note scaled = scaled_value_scale_down(1) [OF f d mode, of w]
  note quotient = scale_down_nonneg [OF _ e(2), of ?v, OF of_nat_0_le_iff]
  show ?thesis
  proof (cases "mode = HALF_UP")
    case True
    then show ?thesis unfolding scaled up half_up_div [OF e(1) less_le_trans [OF zero_less_numeral e(2)]]
      by (simp only: quotient refl if_True)
  next
    case other: False
    then have "fst (scale_down mode ?v ?e) = ?v div ?e" using mode quotient by (cases mode) simp_all
    then show ?thesis using other unfolding scaled down by simp
  qed
qed

text \<open>
  C39: A successful parse for an asset with at least one decimal returns the number the sanitised input says, in units of
  the asset's precision: rounded half up under that mode, and down when truncating and flooring. It reports rounding
  exactly if the input has more decimals than the asset, and respects the configured bounds. (\<open>CEIL\<close> is left to
  \<open>parse_ceil_ignores_later_digits\<close>, an asset without decimals to \<open>zero_decimals_half_up_overpays\<close>.)
\<close>

theorem parsed_amount_is_rounded:
  assumes "parse_payroll_amount input m options = Inr p"
    and "split_amount (sanitize_input input (symbol m)) = (w, f)"
    and "decimals m = Whole n" "0 < n" "mode_of options \<noteq> CEIL"
  shows "pa_amount p =
      (if mode_of options = HALF_UP then (2 * (int (dec_value (w @ f)) * 10 ^ nat n) + 10 ^ length f) div (2 * 10 ^ length f)
       else (int (dec_value (w @ f)) * 10 ^ nat n) div 10 ^ length f) \<and>
    pa_decimals p = n \<and> (pa_was_rounded p \<longleftrightarrow> nat n < length f) \<and> within_bounds (opt_bounds options) (pa_amount p)"
  using parse_value [OF assms(1-4)] unfolding scaled_value_div [OF parsed_value(2) [OF assms(1-4)] assms(5), of "nat n" w, symmetric] .

theorem parsed_amount_is_rounded_witness:
  "\<exists>p. parse_payroll_amount ''1.25'' ((hd builtin_assets)\<lparr>decimals := Whole 1\<rparr>) no_options = Inr p \<and> pa_amount p = 13 \<and>
     (2 * (125 * 10 ^ nat 1) + 10 ^ 2) div (2 * 10 ^ 2) = pa_amount p"
proof -
  let ?m = "(hd builtin_assets)\<lparr>decimals := Whole 1\<rparr>"
  have 1: "parse_payroll_amount ''1.25'' ?m no_options =
      Inr \<lparr>pa_amount = 13, pa_decimals = 1, pa_was_rounded = True\<rparr>" by code_simp
  have 2: "split_amount (sanitize_input ''1.25'' (symbol ?m)) = (''1'', ''25'')" by code_simp
  have 3: "int (dec_value (''1'' @ ''25'')) = 125" by code_simp
  show ?thesis using parsed_amount_is_rounded [OF 1 2, of 1] 1 3 by (simp add: no_options_def)
qed

end
