(* ===== verification/Utf8.thy ===== *)
theory Utf8
  imports Prelude "HOL-Library.Word"
begin

text \<open>
  The text codec the binary serializer rests on: JavaScript strings as lists of 16-bit code units,
  \<open>TextEncoder.encode\<close> and \<open>TextDecoder.decode\<close> of the language's standard library in their default
  configuration (UTF-8, lone surrogates and malformed bytes replaced by U+FFFD, a leading U+FEFF
  dropped by the decoder). The decoder is the standard's state machine over bytes. What decoding an
  encoding gives is stated for every string.
\<close>

type_synonym byte = "8 word"
type_synonym unit16 = "16 word"

section \<open>Code units and code points\<close>

definition replacement :: nat where "replacement = 0xFFFD"

definition is_high :: "nat \<Rightarrow> bool" where "is_high c = (0xD800 \<le> c \<and> c < 0xDC00)"
definition is_low :: "nat \<Rightarrow> bool" where "is_low c = (0xDC00 \<le> c \<and> c < 0xE000)"

definition scalar :: "nat \<Rightarrow> bool" where
  "scalar c = (c < 0x110000 \<and> \<not> is_high c \<and> \<not> is_low c)"

text \<open>Conversion to scalar values: surrogate pairs are joined, lone surrogates replaced.\<close>

fun code_points :: "unit16 list \<Rightarrow> nat list" where
  "code_points [] = []"
| "code_points [u] = [if is_high (unat u) \<or> is_low (unat u) then replacement else unat u]"
| "code_points (u # v # us) =
     (if is_high (unat u) then
        if is_low (unat v) then (0x10000 + (unat u - 0xD800) * 0x400 + (unat v - 0xDC00)) # code_points us
        else replacement # code_points (v # us)
      else (if is_low (unat u) then replacement else unat u) # code_points (v # us))"

definition units_of_point :: "nat \<Rightarrow> unit16 list" where
  "units_of_point c =
     (if c < 0x10000 then [word_of_nat c]
      else [word_of_nat (0xD800 + (c - 0x10000) div 0x400), word_of_nat (0xDC00 + (c - 0x10000) mod 0x400)])"

text \<open>No lone surrogates (\<open>isWellFormed\<close> of the language).\<close>

fun well_formed :: "unit16 list \<Rightarrow> bool" where
  "well_formed [] = True"
| "well_formed [u] = (\<not> is_high (unat u) \<and> \<not> is_low (unat u))"
| "well_formed (u # v # us) =
     (if is_high (unat u) then is_low (unat v) \<and> well_formed us
      else \<not> is_low (unat u) \<and> well_formed (v # us))"

section \<open>Encoder\<close>

definition encode_point :: "nat \<Rightarrow> byte list" where
  "encode_point c =
     map word_of_nat
       (if c < 0x80 then [c]
        else if c < 0x800 then [0xC0 + c div 64, 0x80 + c mod 64]
        else if c < 0x10000 then [0xE0 + c div 4096, 0x80 + c div 64 mod 64, 0x80 + c mod 64]
        else [0xF0 + c div 262144, 0x80 + c div 4096 mod 64, 0x80 + c div 64 mod 64, 0x80 + c mod 64])"

definition text_encode :: "unit16 list \<Rightarrow> byte list" where
  "text_encode s = concat (map encode_point (code_points s))"

section \<open>Decoder\<close>

text \<open>The state: continuation bytes still needed, the code point so far, and the range the next byte
  must lie in.\<close>

record utf8_state =
  needed :: nat
  point :: nat
  lower :: nat
  upper :: nat

definition utf8_init :: utf8_state where
  "utf8_init = \<lparr>needed = 0, point = 0, lower = 0x80, upper = 0xBF\<rparr>"

definition utf8_lead :: "nat \<Rightarrow> nat list \<times> utf8_state" where
  "utf8_lead b =
     (if b < 0x80 then ([b], utf8_init)
      else if 0xC2 \<le> b \<and> b \<le> 0xDF then ([], utf8_init\<lparr>needed := 1, point := b mod 32\<rparr>)
      else if 0xE0 \<le> b \<and> b \<le> 0xEF then
        ([], \<lparr>needed = 2, point = b mod 16, lower = (if b = 0xE0 then 0xA0 else 0x80),
              upper = (if b = 0xED then 0x9F else 0xBF)\<rparr>)
      else if 0xF0 \<le> b \<and> b \<le> 0xF4 then
        ([], \<lparr>needed = 3, point = b mod 8, lower = (if b = 0xF0 then 0x90 else 0x80),
              upper = (if b = 0xF4 then 0x8F else 0xBF)\<rparr>)
      else ([replacement], utf8_init))"

definition utf8_step :: "utf8_state \<Rightarrow> nat \<Rightarrow> nat list \<times> utf8_state" where
  "utf8_step s b =
     (if needed s = 0 then utf8_lead b
      else if b < lower s \<or> upper s < b then (let (out, t) = utf8_lead b in (replacement # out, t))
      else let p = point s * 64 + b mod 64 in
        if needed s = 1 then ([p], utf8_init)
        else ([], \<lparr>needed = needed s - 1, point = p, lower = 0x80, upper = 0xBF\<rparr>))"

fun utf8_run :: "utf8_state \<Rightarrow> byte list \<Rightarrow> nat list" where
  "utf8_run s [] = (if needed s = 0 then [] else [replacement])"
| "utf8_run s (b # bs) = (let (out, t) = utf8_step s (unat b) in out @ utf8_run t bs)"

definition drop_bom :: "nat list \<Rightarrow> nat list" where
  "drop_bom cs = (case cs of c # r \<Rightarrow> if c = 0xFEFF then r else cs | [] \<Rightarrow> [])"

definition text_decode :: "byte list \<Rightarrow> unit16 list" where
  "text_decode bs = concat (map units_of_point (drop_bom (utf8_run utf8_init bs)))"

section \<open>Decoding an encoding\<close>

lemma scalar_replacement [simp]: "scalar replacement"
  by (simp add: scalar_def replacement_def is_high_def is_low_def)

lemma unit_bound: "unat (u :: unit16) < 0x10000"
  using unsigned_less [of u] by simp

lemma code_points_scalar: "\<forall>c \<in> set (code_points s). scalar c"
proof (induction s rule: code_points.induct)
  case (2 u)
  then show ?case using unit_bound [of u] by (auto simp: scalar_def [of "unat u"])
next
  case (3 u v us)
  have "scalar (65536 + (unat u - 55296) * 1024 + (unat v - 56320))" if "is_high (unat u)" "is_low (unat v)"
    using that by (auto simp: scalar_def is_high_def is_low_def)
  with 3 show ?case using unit_bound [of u] by (auto simp: scalar_def [of "unat u"])
qed simp

lemma unat_byte: "n < 256 \<Longrightarrow> unat (word_of_nat n :: byte) = n"
  by (simp add: unsigned_of_nat take_bit_nat_eq_self)

lemma add_multiple_mod: "m dvd k \<Longrightarrow> q < m \<Longrightarrow> (k + q) mod m = (q :: nat)"
  by (auto elim!: dvdE)

lemma byte_mods:
  "(128 + q mod 64) mod 64 = (q mod 64 :: nat)"
  "q < 32 \<Longrightarrow> (192 + q) mod 32 = (q :: nat)"
  "q < 16 \<Longrightarrow> (224 + q) mod 16 = (q :: nat)"
  "q < 8 \<Longrightarrow> (240 + q) mod 8 = (q :: nat)"
  by (simp_all add: add_multiple_mod)

lemma utf8_run_bytes:
  "utf8_run s (map word_of_nat [] @ bs) = utf8_run s bs"
  "n < 256 \<Longrightarrow> utf8_run s (map word_of_nat (n # ns) @ bs) =
     fst (utf8_step s n) @ utf8_run (snd (utf8_step s n)) (map word_of_nat ns @ bs)"
  by (simp_all add: unat_byte split: prod.split)

lemma utf8_step_lead: "utf8_step utf8_init b = utf8_lead b"
  by (simp add: utf8_step_def utf8_init_def)

lemma utf8_step_continue:
  assumes "lower s \<le> 0x80 + q mod 64" "0x80 + q mod 64 \<le> upper s" "needed s = Suc k"
  shows "utf8_step s (0x80 + q mod 64) =
    (if k = 0 then ([point s * 64 + q mod 64], utf8_init)
     else ([], \<lparr>needed = k, point = point s * 64 + q mod 64, lower = 0x80, upper = 0xBF\<rparr>))"
  using assms by (simp add: utf8_step_def byte_mods)

lemma utf8_run_point:
  assumes "scalar c"
  shows "utf8_run utf8_init (encode_point c @ bs) = c # utf8_run utf8_init bs"
proof -
  define x y z where "x = c div 64" and "y = c div 4096" and "z = c div 262144"
  have yz: "y = x div 64" "z = y div 64"
    unfolding x_def y_def z_def by (simp_all add: div_mult2_eq [symmetric])
  have c: "c = x * 64 + c mod 64" unfolding x_def by (simp only: div_mult_mod_eq)
  have x: "x = y * 64 + x mod 64" and y: "y = z * 64 + y mod 64" unfolding yz by (simp_all only: div_mult_mod_eq)
  have m: "c mod 64 < 64" "x mod 64 < 64" "y mod 64 < 64" by simp_all
  consider "c < 0x80" | "0x80 \<le> c" "c < 0x800" | "0x800 \<le> c" "c < 0x10000" | "0x10000 \<le> c" "c < 0x110000"
    using assms unfolding scalar_def by linarith
  then show ?thesis
  proof cases
    case 1
    then show ?thesis by (simp add: encode_point_def unat_byte utf8_step_lead utf8_lead_def)
  next
    case 2
    then have "2 \<le> x" "x < 32" using c m by linarith+
    then have "utf8_lead (192 + x) = ([], utf8_init\<lparr>needed := 1, point := x\<rparr>)"
      by (simp add: utf8_lead_def byte_mods)
    moreover have "encode_point c = map word_of_nat [192 + x, 128 + c mod 64]"
      using 2 unfolding encode_point_def x_def by simp
    ultimately show ?thesis using \<open>x < 32\<close> c [symmetric] m
      by (simp add: utf8_run_bytes utf8_step_lead utf8_step_continue del: list.map of_nat_add)
        (simp add: utf8_init_def utf8_step_continue)
  next
    case 3
    have y16: "y < 16" using 3 c x m by linarith
    have lo: "y = 0 \<Longrightarrow> 32 \<le> x mod 64" using 3 c x m by linarith
    have hi: "y = 13 \<Longrightarrow> x mod 64 < 32"
      using assms c x m unfolding scalar_def is_high_def is_low_def by linarith
    have "utf8_lead (224 + y) = ([], \<lparr>needed = 2, point = y, lower = (if y = 0 then 0xA0 else 0x80),
        upper = (if y = 13 then 0x9F else 0xBF)\<rparr>)"
      using y16 by (simp add: utf8_lead_def byte_mods)
    moreover have "encode_point c = map word_of_nat [224 + y, 128 + x mod 64, 128 + c mod 64]"
      using 3 unfolding encode_point_def x_def y_def by simp
    moreover have "utf8_step \<lparr>needed = 2, point = y, lower = (if y = 0 then 0xA0 else 0x80),
        upper = (if y = 13 then 0x9F else 0xBF)\<rparr> (0x80 + x mod 64) =
        ([], \<lparr>needed = 1, point = x, lower = 0x80, upper = 0xBF\<rparr>)"
      using lo hi m x [symmetric] by (subst utf8_step_continue) auto
    ultimately show ?thesis using y16 c [symmetric] m
      by (simp add: utf8_run_bytes utf8_step_lead utf8_step_continue del: list.map of_nat_add)
  next
    case 4
    have z5: "z < 5" using 4 c x y m by linarith
    have lo: "z = 0 \<Longrightarrow> 16 \<le> y mod 64" using 4 c x y m by linarith
    have hi: "z = 4 \<Longrightarrow> y mod 64 < 16" using 4 c x y m by linarith
    have "utf8_lead (240 + z) = ([], \<lparr>needed = 3, point = z, lower = (if z = 0 then 0x90 else 0x80),
        upper = (if z = 4 then 0x8F else 0xBF)\<rparr>)"
      using z5 by (simp add: utf8_lead_def byte_mods)
    moreover have "encode_point c = map word_of_nat [240 + z, 128 + y mod 64, 128 + x mod 64, 128 + c mod 64]"
      using 4 unfolding encode_point_def x_def y_def z_def by simp
    moreover have "utf8_step \<lparr>needed = 3, point = z, lower = (if z = 0 then 0x90 else 0x80),
        upper = (if z = 4 then 0x8F else 0xBF)\<rparr> (0x80 + y mod 64) =
        ([], \<lparr>needed = 2, point = y, lower = 0x80, upper = 0xBF\<rparr>)"
      using lo hi m y [symmetric] by (subst utf8_step_continue) auto
    ultimately show ?thesis using z5 c [symmetric] x [symmetric] m
      by (simp add: utf8_run_bytes utf8_step_lead utf8_step_continue del: list.map of_nat_add)
  qed
qed

lemma utf8_run_points:
  "\<forall>c \<in> set cs. scalar c \<Longrightarrow> utf8_run utf8_init (concat (map encode_point cs)) = cs"
  by (induction cs) (simp_all add: utf8_run_point utf8_init_def [symmetric], simp add: utf8_init_def)

text \<open>Decoding an encoding replaces lone surrogates and drops a leading byte order mark.\<close>

lemma text_decode_encode: "text_decode (text_encode s) = concat (map units_of_point (drop_bom (code_points s)))"
  by (simp add: text_decode_def text_encode_def utf8_run_points code_points_scalar)

lemma units_of_unit: "units_of_point (unat (u :: unit16)) = [u]"
  using unit_bound [of u] by (simp add: units_of_point_def)

lemma units_of_pair:
  assumes "is_high (unat u)" "is_low (unat v)"
  shows "units_of_point (0x10000 + (unat u - 0xD800) * 0x400 + (unat v - 0xDC00)) = [u, v :: unit16]"
proof -
  define a where "a = unat u - 0xD800"
  define b where "b = unat v - 0xDC00"
  have ab: "unat u = 0xD800 + a" "unat v = 0xDC00 + b" "b < 0x400"
    using assms by (auto simp: a_def b_def is_high_def is_low_def)
  have "(a * 0x400 + b) div 0x400 = a" "(a * 0x400 + b) mod 0x400 = b" using ab by simp_all
  then have "units_of_point (0x10000 + a * 0x400 + b) = [word_of_nat (unat u), word_of_nat (unat v)]"
    by (simp add: units_of_point_def ab)
  then show ?thesis by (simp add: a_def b_def)
qed

lemma units_code_points: "well_formed s \<Longrightarrow> concat (map units_of_point (code_points s)) = s"
  by (induction s rule: well_formed.induct) (auto simp: units_of_unit units_of_pair split: if_splits)

definition text_safe :: "unit16 list \<Rightarrow> bool" where
  "text_safe s = (well_formed s \<and> (s = [] \<or> hd s \<noteq> 0xFEFF))"

lemma code_points_eq_Nil [simp]: "code_points s = [] \<longleftrightarrow> s = []"
  by (cases s rule: code_points.cases) auto

lemma hd_code_points:
  assumes "s \<noteq> []"
  shows "hd (code_points s) = 0xFEFF \<longleftrightarrow> hd s = 0xFEFF"
proof -
  have "unat u = 0xFEFF \<longleftrightarrow> u = 0xFEFF" for u :: unit16
    by (simp add: word_unat_eq_iff)
  then show ?thesis
    using assms by (cases s rule: code_points.cases) (auto simp: replacement_def is_high_def is_low_def)
qed

lemma text_round_trip:
  assumes "text_safe s"
  shows "text_decode (text_encode s) = s"
proof -
  have "drop_bom (code_points s) = code_points s"
    using assms hd_code_points [of s] code_points_eq_Nil [of s]
    by (cases "code_points s") (auto simp: drop_bom_def text_safe_def simp del: code_points_eq_Nil)
  with assms show ?thesis by (simp add: text_decode_encode units_code_points text_safe_def)
qed

text \<open>The hypothesis is needed: a string with a leading U+FEFF comes back without it.\<close>

lemma text_bom_lost:
  assumes "well_formed s" "s \<noteq> []" "hd s = 0xFEFF"
  shows "text_decode (text_encode s) = tl s"
proof -
  obtain cs where c: "code_points s = 0xFEFF # cs"
    using assms hd_code_points [of s] by (cases "code_points s") auto
  have "concat (map units_of_point (code_points s)) = s" using assms by (simp add: units_code_points)
  then have "s = 0xFEFF # concat (map units_of_point cs)"
    by (simp add: c units_of_point_def)
  with c show ?thesis by (simp add: text_decode_encode drop_bom_def)
qed

end
