(* ===== verification/BinaryCodec.thy ===== *)
theory BinaryCodec
  imports Utf8
begin

text \<open>
  The byte writer and reader (\<open>packages/core/src/serialization/BinaryWriter.ts\<close>,
  \<open>BinaryReader.ts\<close>). The writer keeps the list of chunks the code keeps; the reader keeps the buffer
  and its cursor. Counts and lengths go through a 32-bit word, so they wrap as \<open>setUint32\<close> does; a
  \<open>float64\<close> is its 64-bit pattern.

  Two interfaces tie them together: \<open>codec\<close>, what reading back a written value returns, and
  \<open>sequential_reader\<close>, what a reader does on a longer or shorter buffer.
\<close>

section \<open>Errors\<close>

datatype serialization_code =
  SERIALIZATION_TRUNCATED | SERIALIZATION_TRAILING_BYTES | SERIALIZATION_VERSION_MISMATCH
| SERIALIZATION_TYPE_MISMATCH | SERIALIZATION_VALIDATION_FAILED

text \<open>A \<open>SerializationError\<close> by its code; a negative bigint raises a plain \<open>RangeError\<close>.\<close>

datatype serialization_error = SerializationError serialization_code | NegativeBigint

text \<open>Lengths that the 32-bit length fields hold.\<close>

definition fits32 :: "nat \<Rightarrow> bool" where
  "fits32 n = (int n < 4294967296)"

lemma fits32_iff [simp]: "fits32 n \<longleftrightarrow> n < 2 ^ 32"
  by (simp add: fits32_def)

section \<open>Writer\<close>

record binary_writer =
  chunks :: "byte list list"

definition new_writer :: binary_writer where
  "new_writer = \<lparr>chunks = []\<rparr>"

definition push_chunk :: "byte list \<Rightarrow> binary_writer \<Rightarrow> binary_writer" where
  "push_chunk c w = w\<lparr>chunks := chunks w @ [c]\<rparr>"

definition write_uint8 :: "nat \<Rightarrow> binary_writer \<Rightarrow> binary_writer" where
  "write_uint8 v w = push_chunk [word_of_nat v] w"

text \<open>Little-endian bytes of a word: its low byte first.\<close>

fun le_bytes :: "nat \<Rightarrow> nat \<Rightarrow> byte list" where
  "le_bytes 0 v = []"
| "le_bytes (Suc k) v = word_of_nat (v mod 256) # le_bytes k (v div 256)"

definition write_uint32 :: "nat \<Rightarrow> binary_writer \<Rightarrow> binary_writer" where
  "write_uint32 v w = push_chunk (le_bytes 4 (unat (word_of_nat v :: 32 word))) w"

definition write_float64 :: "64 word \<Rightarrow> binary_writer \<Rightarrow> binary_writer" where
  "write_float64 v w = push_chunk (le_bytes 8 (unat v)) w"

definition write_bool :: "bool \<Rightarrow> binary_writer \<Rightarrow> binary_writer" where
  "write_bool b w = write_uint8 (if b then 1 else 0) w"

fun magnitude_bytes :: "nat \<Rightarrow> byte list \<Rightarrow> byte list" where
  "magnitude_bytes remaining bytes =
     (if remaining = 0 then bytes
      else magnitude_bytes (remaining div 256) (word_of_nat (remaining mod 256) # bytes))"

declare magnitude_bytes.simps [simp del]

definition write_bigint :: "int \<Rightarrow> binary_writer \<Rightarrow> (serialization_error, binary_writer) result" where
  "write_bigint v w =
     bind_result (throw_if (v < 0) NegativeBigint) (\<lambda>_.
     if v = 0 then Inr (write_uint32 0 w)
     else let bytes = magnitude_bytes (nat v) [] in
       Inr (push_chunk bytes (write_uint32 (length bytes) w)))"

definition write_string :: "unit16 list \<Rightarrow> binary_writer \<Rightarrow> binary_writer" where
  "write_string s w = (let encoded = text_encode s in push_chunk encoded (write_uint32 (length encoded) w))"

definition write_string_array :: "unit16 list list \<Rightarrow> binary_writer \<Rightarrow> binary_writer" where
  "write_string_array vs w = fold write_string vs (write_uint32 (length vs) w)"

text \<open>\<open>toBytes\<close>: a zeroed buffer of the total length, filled chunk by chunk.\<close>

definition set_at :: "nat \<Rightarrow> byte list \<Rightarrow> byte list \<Rightarrow> byte list" where
  "set_at off c out = take off out @ c @ drop (off + length c) out"

definition to_bytes :: "binary_writer \<Rightarrow> byte list" where
  "to_bytes w =
     (let total = foldl (\<lambda>sum c. sum + length c) 0 (chunks w) in
      fst (foldl (\<lambda>(out, off) c. (set_at off c out, off + length c)) (replicate total 0, 0) (chunks w)))"

lemma foldl_total: "foldl (\<lambda>sum c. sum + length c) n cs = n + length (concat cs)"
  by (induction cs arbitrary: n) simp_all

lemma fill_chunks:
  "fst (foldl (\<lambda>(out, off) c. (set_at off c out, off + length c))
       (pre @ replicate (length (concat cs)) 0, length pre) cs) = pre @ concat cs"
proof (induction cs arbitrary: pre)
  case (Cons c cs)
  from Cons [of "pre @ c"] show ?case by (simp add: set_at_def)
qed simp

lemma to_bytes_eq: "to_bytes w = concat (chunks w)"
  using fill_chunks [of "[]" "chunks w"] by (simp add: to_bytes_def foldl_total)

section \<open>Reader\<close>

record binary_reader =
  rd_bytes :: "byte list"
  rd_offset :: nat

type_synonym 'a read = "binary_reader \<Rightarrow> (serialization_error, 'a \<times> binary_reader) result"

definition new_reader :: "byte list \<Rightarrow> binary_reader" where
  "new_reader bs = \<lparr>rd_bytes = bs, rd_offset = 0\<rparr>"

definition read_return :: "'a \<Rightarrow> 'a read" where
  "read_return x r = Inr (x, r)"

definition read_bind :: "'a read \<Rightarrow> ('a \<Rightarrow> 'b read) \<Rightarrow> 'b read" where
  "read_bind m k r = bind_result (m r) (\<lambda>(x, r'). k x r')"

definition read_throw :: "serialization_code \<Rightarrow> 'a read" where
  "read_throw c r = Inl (SerializationError c)"

definition remaining :: "binary_reader \<Rightarrow> nat" where
  "remaining r = length (rd_bytes r) - rd_offset r"

text \<open>\<open>ensure(n)\<close> and the advance of the cursor that follows it in every read: the next \<open>n\<close> bytes.\<close>

definition read_bytes :: "nat \<Rightarrow> byte list read" where
  "read_bytes n r =
     bind_result (throw_if (remaining r < n) (SerializationError SERIALIZATION_TRUNCATED)) (\<lambda>_.
     Inr (take n (drop (rd_offset r) (rd_bytes r)), r\<lparr>rd_offset := rd_offset r + n\<rparr>))"

fun le_value :: "byte list \<Rightarrow> nat" where
  "le_value [] = 0"
| "le_value (b # bs) = unat b + 256 * le_value bs"

definition read_uint8 :: "nat read" where
  "read_uint8 = read_bind (read_bytes 1) (\<lambda>bs. read_return (le_value bs))"

definition read_uint32 :: "nat read" where
  "read_uint32 = read_bind (read_bytes 4) (\<lambda>bs. read_return (le_value bs))"

definition read_float64 :: "64 word read" where
  "read_float64 = read_bind (read_bytes 8) (\<lambda>bs. read_return (word_of_nat (le_value bs)))"

definition read_bool :: "bool read" where
  "read_bool = read_bind read_uint8 (\<lambda>v. read_return (v \<noteq> 0))"

definition be_value :: "byte list \<Rightarrow> nat" where
  "be_value bs = foldl (\<lambda>v b. v * 256 + unat b) 0 bs"

definition read_bigint :: "int read" where
  "read_bigint = read_bind read_uint32 (\<lambda>len.
     if len = 0 then read_return 0
     else read_bind (read_bytes len) (\<lambda>bs. read_return (int (be_value bs))))"

definition read_string :: "unit16 list read" where
  "read_string = read_bind read_uint32 (\<lambda>len.
     read_bind (read_bytes len) (\<lambda>bs. read_return (text_decode bs)))"

fun read_many :: "'a read \<Rightarrow> nat \<Rightarrow> 'a list read" where
  "read_many m 0 = read_return []"
| "read_many m (Suc n) = read_bind m (\<lambda>x. read_bind (read_many m n) (\<lambda>xs. read_return (x # xs)))"

definition read_string_array :: "unit16 list list read" where
  "read_string_array = read_bind read_uint32 (\<lambda>count. read_many read_string count)"

definition assert_exhausted :: "unit read" where
  "assert_exhausted r =
     bind_result (throw_if (remaining r \<noteq> 0) (SerializationError SERIALIZATION_TRAILING_BYTES)) (\<lambda>_. Inr ((), r))"

section \<open>Reading back what was written\<close>

text \<open>A reader standing between what was read and what is left.\<close>

definition at :: "byte list \<Rightarrow> byte list \<Rightarrow> binary_reader" where
  "at pre post = \<lparr>rd_bytes = pre @ post, rd_offset = length pre\<rparr>"

text \<open>The interface of a pair of operations that write and read a value: a write appends the bytes
  \<open>enc x\<close>, and a read in front of them returns \<open>x\<close> and stops after them.\<close>

locale codec =
  fixes wr :: "'a \<Rightarrow> binary_writer \<Rightarrow> binary_writer"
    and rd :: "'a read"
    and enc :: "'a \<Rightarrow> byte list"
    and ok :: "'a \<Rightarrow> bool"
  assumes written: "ok x \<Longrightarrow> to_bytes (wr x w) = to_bytes w @ enc x"
    and read_back: "ok x \<Longrightarrow> rd (at pre (enc x @ post)) = Inr (x, at (pre @ enc x) post)"
begin

lemma written_list: "\<forall>x \<in> set xs. ok x \<Longrightarrow> to_bytes (fold wr xs w) = to_bytes w @ concat (map enc xs)"
  by (induction xs arbitrary: w) (simp_all add: written)

lemma read_back_list:
  "\<forall>x \<in> set xs. ok x \<Longrightarrow>
   read_many rd (length xs) (at pre (concat (map enc xs) @ post)) = Inr (xs, at (pre @ concat (map enc xs)) post)"
  by (induction xs arbitrary: pre) (simp_all add: read_return_def read_bind_def read_back)

lemma read_back_end: "ok x \<Longrightarrow> rd (at pre (enc x)) = Inr (x, at (pre @ enc x) [])"
  using read_back [of x pre "[]"] by simp

end

lemma to_bytes_new [simp]: "to_bytes new_writer = []"
  by (simp add: to_bytes_eq new_writer_def)

lemma to_bytes_push [simp]: "to_bytes (push_chunk c w) = to_bytes w @ c"
  by (simp add: to_bytes_eq push_chunk_def)

lemma read_bytes_at: "length bs = n \<Longrightarrow> read_bytes n (at pre (bs @ post)) = Inr (bs, at (pre @ bs) post)"
  by (auto simp: read_bytes_def at_def remaining_def)

lemma length_le_bytes [simp]: "length (le_bytes k v) = k"
  by (induction k v rule: le_bytes.induct) simp_all

lemma le_value_bytes: "v < 256 ^ k \<Longrightarrow> le_value (le_bytes k v) = v"
  by (induction k v rule: le_bytes.induct) (simp_all add: unat_byte less_mult_imp_div_less mult.commute)

lemma unat_word_of_nat_32: "n < 2 ^ 32 \<Longrightarrow> unat (word_of_nat n :: 32 word) = n"
  by (simp add: unsigned_of_nat take_bit_nat_eq_self)

interpretation uint8: codec write_uint8 read_uint8 "\<lambda>v. [word_of_nat v]" "\<lambda>v. v < 256"
proof
  fix v pre post assume "v < (256 :: nat)"
  then show "read_uint8 (at pre ([word_of_nat v] @ post)) = Inr (v, at (pre @ [word_of_nat v]) post)"
    unfolding read_uint8_def read_bind_def
    by (subst read_bytes_at) (simp_all add: read_return_def unat_byte)
qed (simp add: write_uint8_def)

interpretation uint32: codec write_uint32 read_uint32 "le_bytes 4" "\<lambda>v. v < 2 ^ 32"
proof
  fix v pre post assume v: "v < (2 :: nat) ^ 32"
  then show "read_uint32 (at pre (le_bytes 4 v @ post)) = Inr (v, at (pre @ le_bytes 4 v) post)"
    unfolding read_uint32_def read_bind_def
    by (subst read_bytes_at) (simp_all add: read_return_def le_value_bytes)
qed (simp add: write_uint32_def unat_word_of_nat_32)

interpretation float64: codec write_float64 read_float64 "\<lambda>v. le_bytes 8 (unat v)" "\<lambda>_. True"
proof
  fix v :: "64 word" and pre post
  have "unat v < 256 ^ 8" using unsigned_less [of v] by simp
  then show "read_float64 (at pre (le_bytes 8 (unat v) @ post)) = Inr (v, at (pre @ le_bytes 8 (unat v)) post)"
    unfolding read_float64_def read_bind_def
    by (subst read_bytes_at) (simp_all add: read_return_def le_value_bytes)
qed (simp add: write_float64_def)

interpretation bool: codec write_bool read_bool "\<lambda>b. [if b then 1 else 0]" "\<lambda>_. True"
proof
  fix b pre post
  have "read_uint8 (at pre ([word_of_nat (if b then 1 else 0)] @ post)) =
      Inr (if b then 1 else 0, at (pre @ [word_of_nat (if b then 1 else 0)]) post)"
    by (rule uint8.read_back) simp
  then show "read_bool (at pre ([if b then 1 else 0] @ post)) = Inr (b, at (pre @ [if b then 1 else 0]) post)"
    by (cases b) (simp_all add: read_bool_def read_bind_def read_return_def)
qed (simp add: write_bool_def write_uint8_def)

subsection \<open>Bigints\<close>

lemma be_value_snoc: "be_value (bs @ [b]) = be_value bs * 256 + unat b"
  by (simp add: be_value_def)

lemma be_value_Cons: "be_value (b # bs) = unat b * 256 ^ length bs + be_value bs"
proof (induction bs rule: rev_induct)
  case Nil
  then show ?case by (simp add: be_value_def)
next
  case (snoc c bs)
  then show ?case using be_value_snoc [of "b # bs" c] by (simp add: be_value_snoc algebra_simps)
qed

lemma be_value_magnitude: "be_value (magnitude_bytes n bs) = n * 256 ^ length bs + be_value bs"
proof (induction n bs rule: magnitude_bytes.induct)
  case (1 n bs)
  show ?case
  proof (cases "n = 0")
    case True
    then show ?thesis by (simp add: magnitude_bytes.simps)
  next
    case False
    have "n div 256 * 256 ^ Suc (length bs) + n mod 256 * 256 ^ length bs = (n div 256 * 256 + n mod 256) * 256 ^ length bs"
      by (simp only: distrib_right power_Suc mult.assoc)
    then have "n div 256 * 256 ^ Suc (length bs) + n mod 256 * 256 ^ length bs = n * 256 ^ length bs"
      by (simp only: div_mult_mod_eq)
    with 1 False show ?thesis
      by (subst magnitude_bytes.simps) (simp add: be_value_Cons unat_byte)
  qed
qed

lemma magnitude_nonempty: "0 < n \<Longrightarrow> magnitude_bytes n bs \<noteq> []"
proof -
  have "length bs \<le> length (magnitude_bytes n bs)" for n bs
    by (induction n bs rule: magnitude_bytes.induct) (subst magnitude_bytes.simps, force)
  then show ?thesis if "0 < n"
    using that by (subst magnitude_bytes.simps) (metis gr_implies_not0 le_zero_eq length_0_conv length_Cons nat.distinct(1))
qed

definition bigint_bytes :: "int \<Rightarrow> byte list" where
  "bigint_bytes v = (let bs = magnitude_bytes (nat v) [] in le_bytes 4 (length bs) @ bs)"

definition bigint_ok :: "int \<Rightarrow> bool" where
  "bigint_ok v = (0 \<le> v \<and> fits32 (length (magnitude_bytes (nat v) [])))"

lemma magnitude_0 [simp]: "magnitude_bytes 0 bs = bs"
  by (simp add: magnitude_bytes.simps)

lemma write_bigint_eq:
  "bigint_ok v \<Longrightarrow> \<exists>w'. write_bigint v w = Inr w' \<and> to_bytes w' = to_bytes w @ bigint_bytes v"
  by (auto simp: write_bigint_def bigint_ok_def bigint_bytes_def Let_def uint32.written)

lemma write_bigint_negative: "v < 0 \<Longrightarrow> write_bigint v w = Inl NegativeBigint"
  by (simp add: write_bigint_def)

interpretation bigint: codec "\<lambda>v w. case write_bigint v w of Inr w' \<Rightarrow> w' | Inl _ \<Rightarrow> w" read_bigint bigint_bytes bigint_ok
proof
  fix v w assume "bigint_ok v"
  from write_bigint_eq [OF this, of w]
  show "to_bytes (case write_bigint v w of Inr w' \<Rightarrow> w' | Inl _ \<Rightarrow> w) = to_bytes w @ bigint_bytes v" by auto
next
  fix v pre post assume ok: "bigint_ok v"
  let ?bs = "magnitude_bytes (nat v) []"
  have len: "read_uint32 (at pre (le_bytes 4 (length ?bs) @ ?bs @ post)) =
      Inr (length ?bs, at (pre @ le_bytes 4 (length ?bs)) (?bs @ post))"
    using ok by (intro uint32.read_back) (simp add: bigint_ok_def)
  show "read_bigint (at pre (bigint_bytes v @ post)) = Inr (v, at (pre @ bigint_bytes v) post)"
  proof (cases "v = 0")
    case True
    with len show ?thesis by (simp add: read_bigint_def bigint_bytes_def read_bind_def read_return_def)
  next
    case False
    with ok have "0 < nat v" "int (be_value ?bs) = v" "?bs \<noteq> []"
      using be_value_magnitude [of "nat v" "[]"] magnitude_nonempty [of "nat v" "[]"]
      by (auto simp: bigint_ok_def be_value_def)
    with len show ?thesis
      by (simp add: read_bigint_def bigint_bytes_def Let_def read_bind_def read_return_def read_bytes_at)
  qed
qed

subsection \<open>Strings\<close>

definition string_bytes :: "unit16 list \<Rightarrow> byte list" where
  "string_bytes s = le_bytes 4 (length (text_encode s)) @ text_encode s"

definition string_ok :: "unit16 list \<Rightarrow> bool" where
  "string_ok s = (text_safe s \<and> fits32 (length (text_encode s)))"

lemma read_string_at:
  assumes "length (text_encode s) < 2 ^ 32"
  shows "read_string (at pre (string_bytes s @ post)) = Inr (text_decode (text_encode s), at (pre @ string_bytes s) post)"
  using uint32.read_back [OF assms, of pre "text_encode s @ post"]
  by (simp add: read_string_def string_bytes_def read_bind_def read_return_def read_bytes_at)

interpretation string: codec write_string read_string string_bytes string_ok
proof
  fix s w assume "string_ok s"
  then show "to_bytes (write_string s w) = to_bytes w @ string_bytes s"
    by (simp add: write_string_def string_bytes_def string_ok_def uint32.written Let_def)
next
  fix s pre post assume "string_ok s"
  then show "read_string (at pre (string_bytes s @ post)) = Inr (s, at (pre @ string_bytes s) post)"
    by (simp add: read_string_at string_ok_def text_round_trip)
qed

definition strings_ok :: "unit16 list list \<Rightarrow> bool" where
  "strings_ok ss = (fits32 (length ss) \<and> (\<forall>s \<in> set ss. string_ok s))"

definition strings_bytes :: "unit16 list list \<Rightarrow> byte list" where
  "strings_bytes ss = le_bytes 4 (length ss) @ concat (map string_bytes ss)"

interpretation strings: codec write_string_array read_string_array strings_bytes strings_ok
proof
  fix ss w assume "strings_ok ss"
  then show "to_bytes (write_string_array ss w) = to_bytes w @ strings_bytes ss"
    by (simp add: write_string_array_def strings_bytes_def strings_ok_def string.written_list uint32.written)
next
  fix ss pre post assume ok: "strings_ok ss"
  then have "read_uint32 (at pre (le_bytes 4 (length ss) @ concat (map string_bytes ss) @ post)) =
      Inr (length ss, at (pre @ le_bytes 4 (length ss)) (concat (map string_bytes ss) @ post))"
    by (intro uint32.read_back) (simp add: strings_ok_def)
  with ok show "read_string_array (at pre (strings_bytes ss @ post)) = Inr (ss, at (pre @ strings_bytes ss) post)"
    by (simp add: read_string_array_def strings_bytes_def read_bind_def string.read_back_list strings_ok_def)
qed

lemma assert_exhausted_at [simp]: "assert_exhausted (at pre []) = Inr ((), at pre [])"
  by (simp add: assert_exhausted_def remaining_def at_def)

lemma new_reader_at: "new_reader bs = at [] bs"
  by (simp add: new_reader_def at_def)


section \<open>Readers on shorter and longer buffers\<close>

text \<open>
  The interface of a reader that only looks at the bytes it consumes: after a successful read the cursor
  has moved within the buffer; on a longer buffer the read is the same; on a shorter one that still has
  what it consumed, too; and on one that does not, it reports truncation.
\<close>

locale sequential_reader =
  fixes rd :: "'a read"
  assumes advance: "rd \<lparr>rd_bytes = b, rd_offset = i\<rparr> = Inr (x, r) \<Longrightarrow> i \<le> length b \<Longrightarrow>
      rd_bytes r = b \<and> i \<le> rd_offset r \<and> rd_offset r \<le> length b"
    and extend: "rd \<lparr>rd_bytes = b, rd_offset = i\<rparr> = Inr (x, r) \<Longrightarrow> i \<le> length b \<Longrightarrow>
      rd \<lparr>rd_bytes = b @ c, rd_offset = i\<rparr> = Inr (x, \<lparr>rd_bytes = b @ c, rd_offset = rd_offset r\<rparr>)"
    and cut: "rd \<lparr>rd_bytes = b, rd_offset = i\<rparr> = Inr (x, r) \<Longrightarrow> i \<le> m \<Longrightarrow> m \<le> length b \<Longrightarrow>
      rd \<lparr>rd_bytes = take m b, rd_offset = i\<rparr> =
        (if rd_offset r \<le> m then Inr (x, \<lparr>rd_bytes = take m b, rd_offset = rd_offset r\<rparr>)
         else Inl (SerializationError SERIALIZATION_TRUNCATED))"
begin

lemma whole_cut:
  "rd (new_reader b) = Inr (x, r) \<Longrightarrow> remaining r = 0 \<Longrightarrow> m < length b \<Longrightarrow>
   rd (new_reader (take m b)) = Inl (SerializationError SERIALIZATION_TRUNCATED)"
  using cut [of b 0 x r m] advance [of b 0 x r] by (simp add: new_reader_def remaining_def)

lemma whole_extended:
  "rd (new_reader b) = Inr (x, r) \<Longrightarrow> remaining r = 0 \<Longrightarrow>
   \<exists>r'. rd (new_reader (b @ c)) = Inr (x, r') \<and> remaining r' = length c"
  using extend [of b 0 x r c] advance [of b 0 x r] by (simp add: new_reader_def remaining_def)

end

lemma sequential_return: "sequential_reader (read_return x)"
  by unfold_locales (auto simp: read_return_def)

lemma sequential_throw: "sequential_reader (read_throw c)"
  by unfold_locales (auto simp: read_throw_def)

lemma sequential_bytes: "sequential_reader (read_bytes n)"
  by unfold_locales (auto simp: read_bytes_def remaining_def result_simps min_def drop_take)

lemma read_bind_Inr:
  "read_bind m k r = Inr (y, r') \<longleftrightarrow> (\<exists>x s. m r = Inr (x, s) \<and> k x s = Inr (y, r'))"
  by (auto simp: read_bind_def result_simps)

lemma sequential_bind:
  assumes m: "sequential_reader m" and k: "\<And>x. sequential_reader (k x)"
  shows "sequential_reader (read_bind m k)"
proof
  fix b i y r
  assume bind: "read_bind m k \<lparr>rd_bytes = b, rd_offset = i\<rparr> = Inr (y, r)"
  then obtain x s where ms: "m \<lparr>rd_bytes = b, rd_offset = i\<rparr> = Inr (x, s)" and ks: "k x s = Inr (y, r)"
    by (auto simp: read_bind_Inr)
  note adv = sequential_reader.advance [OF m ms]
  have s: "s = \<lparr>rd_bytes = b, rd_offset = rd_offset s\<rparr>" if "i \<le> length b" using adv [OF that] by simp
  have kss: "k x \<lparr>rd_bytes = b, rd_offset = rd_offset s\<rparr> = Inr (y, r)" if "i \<le> length b"
    using ks s [OF that] by simp
  show "rd_bytes r = b \<and> i \<le> rd_offset r \<and> rd_offset r \<le> length b" if i: "i \<le> length b"
    using sequential_reader.advance [OF k kss [OF i]] adv [OF i] by simp
  show "read_bind m k \<lparr>rd_bytes = b @ c, rd_offset = i\<rparr> = Inr (y, \<lparr>rd_bytes = b @ c, rd_offset = rd_offset r\<rparr>)"
    if i: "i \<le> length b" for c
    using sequential_reader.extend [OF m ms i] sequential_reader.extend [OF k kss [OF i]] adv [OF i]
    by (simp add: read_bind_def)
  show "read_bind m k \<lparr>rd_bytes = take n b, rd_offset = i\<rparr> =
        (if rd_offset r \<le> n then Inr (y, \<lparr>rd_bytes = take n b, rd_offset = rd_offset r\<rparr>)
         else Inl (SerializationError SERIALIZATION_TRUNCATED))" if n: "i \<le> n" "n \<le> length b" for n
  proof -
    have i: "i \<le> length b" using n by simp
    have r: "rd_offset s \<le> rd_offset r" using sequential_reader.advance [OF k kss [OF i]] adv [OF i] by simp
    show ?thesis
    proof (cases "rd_offset s \<le> n")
      case True
      with sequential_reader.cut [OF m ms n] sequential_reader.cut [OF k kss [OF i] _ n(2)]
      show ?thesis by (simp add: read_bind_def)
    next
      case False
      with sequential_reader.cut [OF m ms n] r show ?thesis by (simp add: read_bind_def)
    qed
  qed
qed

lemmas sequential_intros = sequential_return sequential_throw sequential_bytes sequential_bind

lemma sequential_many: "sequential_reader m \<Longrightarrow> sequential_reader (read_many m n)"
  by (induction n) (auto intro!: sequential_intros)

interpretation bytes_reader: sequential_reader "read_bytes n" for n
  by (rule sequential_bytes)

lemma sequential_primitives:
  "sequential_reader read_uint8" "sequential_reader read_uint32" "sequential_reader read_float64"
  "sequential_reader read_bool" "sequential_reader read_bigint" "sequential_reader read_string"
  "sequential_reader read_string_array"
proof -
  show u8: "sequential_reader read_uint8" and u32: "sequential_reader read_uint32"
    and "sequential_reader read_float64"
    by (auto simp: read_uint8_def read_uint32_def read_float64_def intro!: sequential_intros)
  show "sequential_reader read_bool" by (auto simp: read_bool_def intro!: sequential_intros u8)
  show "sequential_reader read_bigint" by (auto simp: read_bigint_def intro!: sequential_intros u32)
  show s: "sequential_reader read_string" by (auto simp: read_string_def intro!: sequential_intros u32)
  show "sequential_reader read_string_array"
    by (auto simp: read_string_array_def intro!: sequential_intros sequential_many u32 s)
qed

text \<open>Decoding a whole buffer: the fields, then the check that nothing is left.\<close>

definition run_reader :: "'a read \<Rightarrow> byte list \<Rightarrow> (serialization_error, 'a) result" where
  "run_reader m bs = map_sum id fst (m (new_reader bs))"

definition whole :: "'a read \<Rightarrow> 'a read" where
  "whole m = read_bind m (\<lambda>x. read_bind assert_exhausted (\<lambda>_. read_return x))"

lemma whole_Inr: "whole m r = Inr (x, r') \<longleftrightarrow> m r = Inr (x, r') \<and> remaining r' = 0"
  by (auto simp: whole_def read_bind_def assert_exhausted_def read_return_def result_simps)

lemma whole_prefix:
  assumes m: "sequential_reader m" and acc: "whole m (new_reader b) = Inr (x, r)" and n: "n < length b"
  shows "whole m (new_reader (take n b)) = Inl (SerializationError SERIALIZATION_TRUNCATED)"
proof -
  from acc have "m (new_reader b) = Inr (x, r)" "remaining r = 0" by (simp_all add: whole_Inr)
  from sequential_reader.whole_cut [OF m this n] show ?thesis by (simp add: whole_def read_bind_def)
qed

lemma whole_extension:
  assumes m: "sequential_reader m" and acc: "whole m (new_reader b) = Inr (x, r)" and c: "c \<noteq> []"
  shows "whole m (new_reader (b @ c)) = Inl (SerializationError SERIALIZATION_TRAILING_BYTES)"
proof -
  from acc have "m (new_reader b) = Inr (x, r)" "remaining r = 0" by (simp_all add: whole_Inr)
  from sequential_reader.whole_extended [OF m this] obtain r' where
    "m (new_reader (b @ c)) = Inr (x, r')" "remaining r' = length c" by blast
  with c show ?thesis by (simp add: whole_def read_bind_def assert_exhausted_def)
qed

end
