(* ===== verification/PayloadSerialization.thy ===== *)
theory PayloadSerialization
  imports BinaryCodec
begin

text \<open>
  The wire formats of proofs, commitments and payroll commands
  (\<open>packages/core/src/serialization/proofSerialization.ts\<close>, \<open>commitmentSerialization.ts\<close>,
  \<open>payrollCommandSerialization.ts\<close>): version byte, type tag, fields in order. The checks of the
  dynamic types (\<open>typeof\<close>, \<open>null\<close>) hold by typing here, the messages of errors are left out.
\<close>

section \<open>Payload types\<close>

type_synonym jstr = "unit16 list"
type_synonym jpair = "jstr \<times> jstr"

record proof_metadata =
  pm_created_at :: jstr
  pm_expires_at :: jstr
  pm_period_start :: jstr
  pm_period_end :: jstr

record snark_proof =
  sp_pi_a :: jpair
  sp_pi_b :: "jpair \<times> jpair"
  sp_pi_c :: jpair
  sp_protocol :: jstr
  sp_curve :: jstr

record proof_payload =
  pp_proof :: snark_proof
  pp_public_signals :: "jstr list"
  pp_metadata :: "proof_metadata option"

record proof_struct =
  ps_pi_a :: jpair
  ps_pi_b :: "jpair \<times> jpair"
  ps_pi_c :: jpair
  ps_public_signals :: "jstr list"

record commitment_entry =
  ce_employer :: jstr
  ce_employee :: jstr
  ce_commitment_hash :: jstr
  ce_cycle_id :: int
  ce_created_at :: "64 word"
  ce_revealed :: bool
  ce_actual_amount :: int

record commit_request =
  cr_employer :: jstr
  cr_employee :: jstr
  cr_commitment_hash :: jstr
  cr_cycle_id :: int

record payroll_request_entry =
  re_recipient :: jstr
  re_amount :: int
  re_asset :: jstr
  re_memo :: "jstr option"
  re_employee_id :: "jstr option"

record submission_context =
  sc_network :: "jstr option"
  sc_contract_id :: "jstr option"
  sc_nonce :: "jstr option"

record payroll_request =
  pr_entries :: "payroll_request_entry list"
  pr_idempotency_keys :: "jstr list"
  pr_context :: submission_context

section \<open>Headers\<close>

definition serialization_format_version :: nat where
  "serialization_format_version = 1"

datatype payload_type_tag =
  PROOF_PAYLOAD | PROOF_STRUCT | COMMITMENT_ENTRY | COMMIT_REQUEST | PAYROLL_COMMAND_ENTRY | PAYROLL_REQUEST

fun tag_value :: "payload_type_tag \<Rightarrow> nat" where
  "tag_value PROOF_PAYLOAD = 1"
| "tag_value PROOF_STRUCT = 2"
| "tag_value COMMITMENT_ENTRY = 3"
| "tag_value COMMIT_REQUEST = 4"
| "tag_value PAYROLL_COMMAND_ENTRY = 5"
| "tag_value PAYROLL_REQUEST = 6"

definition write_header :: "payload_type_tag \<Rightarrow> binary_writer \<Rightarrow> binary_writer" where
  "write_header tag w = write_uint8 (tag_value tag) (write_uint8 serialization_format_version w)"

definition read_header :: "payload_type_tag \<Rightarrow> unit read" where
  "read_header expected = read_bind read_uint8 (\<lambda>version.
     if version \<noteq> serialization_format_version then read_throw SERIALIZATION_VERSION_MISMATCH
     else read_bind read_uint8 (\<lambda>tag.
       if tag \<noteq> tag_value expected then read_throw SERIALIZATION_TYPE_MISMATCH else read_return ()))"

section \<open>Proofs\<close>

definition write_pair :: "jpair \<Rightarrow> binary_writer \<Rightarrow> binary_writer" where
  "write_pair p w = write_string (snd p) (write_string (fst p) w)"

definition read_pair :: "jpair read" where
  "read_pair = read_bind read_string (\<lambda>x. read_bind read_string (\<lambda>y. read_return (x, y)))"

definition write_proof_triple :: "jpair \<Rightarrow> jpair \<times> jpair \<Rightarrow> jpair \<Rightarrow> binary_writer \<Rightarrow> binary_writer" where
  "write_proof_triple a b c w = write_pair c (write_pair (snd b) (write_pair (fst b) (write_pair a w)))"

definition read_proof_triple :: "(jpair \<times> (jpair \<times> jpair) \<times> jpair) read" where
  "read_proof_triple = read_bind read_pair (\<lambda>a. read_bind read_pair (\<lambda>b0. read_bind read_pair (\<lambda>b1.
     read_bind read_pair (\<lambda>c. read_return (a, (b0, b1), c)))))"

definition encode_proof_payload :: "proof_payload \<Rightarrow> byte list" where
  "encode_proof_payload p =
     (let w0 = write_header PROOF_PAYLOAD new_writer;
          w1 = write_proof_triple (sp_pi_a (pp_proof p)) (sp_pi_b (pp_proof p)) (sp_pi_c (pp_proof p)) w0;
          w2 = write_string (sp_protocol (pp_proof p)) w1;
          w3 = write_string (sp_curve (pp_proof p)) w2;
          w4 = write_string_array (pp_public_signals p) w3
      in to_bytes w4)"

definition proof_payload_fields :: "proof_payload read" where
  "proof_payload_fields = read_bind (read_header PROOF_PAYLOAD) (\<lambda>_.
     read_bind read_proof_triple (\<lambda>(a, b, c).
     read_bind read_string (\<lambda>protocol.
     read_bind read_string (\<lambda>curve.
     read_bind read_string_array (\<lambda>signals.
     read_return \<lparr>pp_proof = \<lparr>sp_pi_a = a, sp_pi_b = b, sp_pi_c = c, sp_protocol = protocol, sp_curve = curve\<rparr>,
       pp_public_signals = signals, pp_metadata = None\<rparr>)))))"

definition decode_proof_payload :: "byte list \<Rightarrow> (serialization_error, proof_payload) result" where
  "decode_proof_payload bs = run_reader (whole proof_payload_fields) bs"

definition encode_proof_struct :: "proof_struct \<Rightarrow> byte list" where
  "encode_proof_struct p =
     to_bytes (write_string_array (ps_public_signals p)
       (write_proof_triple (ps_pi_a p) (ps_pi_b p) (ps_pi_c p) (write_header PROOF_STRUCT new_writer)))"

definition proof_struct_fields :: "proof_struct read" where
  "proof_struct_fields = read_bind (read_header PROOF_STRUCT) (\<lambda>_.
     read_bind read_proof_triple (\<lambda>(a, b, c).
     read_bind read_string_array (\<lambda>signals.
     read_return \<lparr>ps_pi_a = a, ps_pi_b = b, ps_pi_c = c, ps_public_signals = signals\<rparr>)))"

definition decode_proof_struct :: "byte list \<Rightarrow> (serialization_error, proof_struct) result" where
  "decode_proof_struct bs = run_reader (whole proof_struct_fields) bs"

section \<open>Commitments\<close>

definition encode_commitment_entry :: "commitment_entry \<Rightarrow> (serialization_error, byte list) result" where
  "encode_commitment_entry e =
     (let w0 = write_header COMMITMENT_ENTRY new_writer;
          w1 = write_string (ce_commitment_hash e) (write_string (ce_employee e) (write_string (ce_employer e) w0))
      in bind_result (write_bigint (ce_cycle_id e) w1) (\<lambda>w2.
         bind_result (write_bigint (ce_actual_amount e)
             (write_bool (ce_revealed e) (write_float64 (ce_created_at e) w2))) (\<lambda>w3.
         Inr (to_bytes w3))))"

definition commitment_entry_fields :: "commitment_entry read" where
  "commitment_entry_fields = read_bind (read_header COMMITMENT_ENTRY) (\<lambda>_.
     read_bind read_string (\<lambda>employer.
     read_bind read_string (\<lambda>employee.
     read_bind read_string (\<lambda>h.
     read_bind read_bigint (\<lambda>cycle.
     read_bind read_float64 (\<lambda>created.
     read_bind read_bool (\<lambda>revealed.
     read_bind read_bigint (\<lambda>amount.
     read_return \<lparr>ce_employer = employer, ce_employee = employee, ce_commitment_hash = h, ce_cycle_id = cycle,
       ce_created_at = created, ce_revealed = revealed, ce_actual_amount = amount\<rparr>))))))))"

definition decode_commitment_entry :: "byte list \<Rightarrow> (serialization_error, commitment_entry) result" where
  "decode_commitment_entry bs = run_reader (whole commitment_entry_fields) bs"

definition encode_commit_request :: "commit_request \<Rightarrow> (serialization_error, byte list) result" where
  "encode_commit_request r =
     bind_result (write_bigint (cr_cycle_id r)
       (write_string (cr_commitment_hash r) (write_string (cr_employee r) (write_string (cr_employer r)
         (write_header COMMIT_REQUEST new_writer))))) (\<lambda>w. Inr (to_bytes w))"

definition commit_request_fields :: "commit_request read" where
  "commit_request_fields = read_bind (read_header COMMIT_REQUEST) (\<lambda>_.
     read_bind read_string (\<lambda>employer.
     read_bind read_string (\<lambda>employee.
     read_bind read_string (\<lambda>h.
     read_bind read_bigint (\<lambda>cycle.
     read_return \<lparr>cr_employer = employer, cr_employee = employee, cr_commitment_hash = h, cr_cycle_id = cycle\<rparr>)))))"

definition decode_commit_request :: "byte list \<Rightarrow> (serialization_error, commit_request) result" where
  "decode_commit_request bs = run_reader (whole commit_request_fields) bs"

section \<open>Payroll commands\<close>

definition unit_space :: "unit16 \<Rightarrow> bool" where
  "unit_space u =
     (let n = unat u in (9 \<le> n \<and> n \<le> 13) \<or> (0x2000 \<le> n \<and> n \<le> 0x200A) \<or>
        n \<in> set [32, 0xA0, 0x1680, 0x2028, 0x2029, 0x202F, 0x205F, 0x3000, 0xFEFF])"

definition unit_trim :: "jstr \<Rightarrow> jstr" where
  "unit_trim s = rev (dropWhile unit_space (rev (dropWhile unit_space s)))"

definition assert_valid_command_entry :: "payroll_request_entry \<Rightarrow> (serialization_error, unit) result" where
  "assert_valid_command_entry e =
     bind_result (throw_if (unit_trim (re_recipient e) = []) (SerializationError SERIALIZATION_VALIDATION_FAILED)) (\<lambda>_.
     bind_result (throw_if (re_amount e \<le> 0) (SerializationError SERIALIZATION_VALIDATION_FAILED)) (\<lambda>_.
     throw_if (unit_trim (re_asset e) = []) (SerializationError SERIALIZATION_VALIDATION_FAILED)))"

definition write_optional_string :: "jstr option \<Rightarrow> binary_writer \<Rightarrow> binary_writer" where
  "write_optional_string v w =
     (case v of None \<Rightarrow> write_bool False w | Some s \<Rightarrow> write_string s (write_bool True w))"

definition read_optional_string :: "jstr option read" where
  "read_optional_string = read_bind read_bool (\<lambda>b.
     if b then read_bind read_string (\<lambda>s. read_return (Some s)) else read_return None)"

definition write_entry_fields ::
  "payroll_request_entry \<Rightarrow> binary_writer \<Rightarrow> (serialization_error, binary_writer) result" where
  "write_entry_fields e w =
     bind_result (write_bigint (re_amount e) (write_string (re_recipient e) w)) (\<lambda>w1.
     let w2 = write_string (re_asset e) w1 in
     case re_memo e of None \<Rightarrow> Inr (write_bool False w2)
     | Some memo \<Rightarrow> Inr (write_string memo (write_bool True w2)))"

definition read_entry_fields :: "payroll_request_entry read" where
  "read_entry_fields =
     read_bind read_string (\<lambda>recipient.
     read_bind read_bigint (\<lambda>amt.
     read_bind read_string (\<lambda>asset.
     read_bind read_bool (\<lambda>has_memo.
     read_bind (if has_memo then read_bind read_string (\<lambda>s. read_return (Some s)) else read_return None) (\<lambda>memo.
     read_return \<lparr>re_recipient = recipient, re_amount = amt, re_asset = asset, re_memo = memo,
       re_employee_id = None\<rparr>)))))"

definition encode_payroll_command_entry :: "payroll_request_entry \<Rightarrow> (serialization_error, byte list) result" where
  "encode_payroll_command_entry e =
     bind_result (assert_valid_command_entry e) (\<lambda>_.
     bind_result (write_entry_fields e (write_header PAYROLL_COMMAND_ENTRY new_writer)) (\<lambda>w. Inr (to_bytes w)))"

definition command_entry_fields :: "payroll_request_entry read" where
  "command_entry_fields = read_bind (read_header PAYROLL_COMMAND_ENTRY) (\<lambda>_. read_entry_fields)"

definition decode_payroll_command_entry :: "byte list \<Rightarrow> (serialization_error, payroll_request_entry) result" where
  "decode_payroll_command_entry bs =
     bind_result (run_reader (whole command_entry_fields) bs) (\<lambda>e.
     bind_result (assert_valid_command_entry e) (\<lambda>_. Inr e))"

fun assert_valid_entries :: "payroll_request_entry list \<Rightarrow> (serialization_error, unit) result" where
  "assert_valid_entries [] = Inr ()"
| "assert_valid_entries (e # es) = bind_result (assert_valid_command_entry e) (\<lambda>_. assert_valid_entries es)"

fun write_entries :: "payroll_request_entry list \<Rightarrow> binary_writer \<Rightarrow> (serialization_error, binary_writer) result" where
  "write_entries [] w = Inr w"
| "write_entries (e # es) w = bind_result (write_entry_fields e w) (\<lambda>w'. write_entries es w')"

definition encode_payroll_request :: "payroll_request \<Rightarrow> (serialization_error, byte list) result" where
  "encode_payroll_request r =
     bind_result (throw_if (pr_entries r = []) (SerializationError SERIALIZATION_VALIDATION_FAILED)) (\<lambda>_.
     bind_result (throw_if (length (pr_idempotency_keys r) \<noteq> length (pr_entries r))
       (SerializationError SERIALIZATION_VALIDATION_FAILED)) (\<lambda>_.
     bind_result (assert_valid_entries (pr_entries r)) (\<lambda>_.
     let w0 = write_uint32 (length (pr_entries r)) (write_header PAYROLL_REQUEST new_writer) in
     bind_result (write_entries (pr_entries r) w0) (\<lambda>w1.
     let w2 = write_optional_string (sc_network (pr_context r)) w1;
         w3 = write_optional_string (sc_contract_id (pr_context r)) w2;
         w4 = write_optional_string (sc_nonce (pr_context r)) w3
     in Inr (to_bytes (write_string_array (pr_idempotency_keys r) w4))))))"

definition payroll_request_fields :: "payroll_request read" where
  "payroll_request_fields = read_bind (read_header PAYROLL_REQUEST) (\<lambda>_.
     read_bind read_uint32 (\<lambda>count.
     if count = 0 then read_throw SERIALIZATION_VALIDATION_FAILED
     else read_bind (read_many read_entry_fields count) (\<lambda>entries.
     read_bind read_optional_string (\<lambda>network.
     read_bind read_optional_string (\<lambda>contract.
     read_bind read_optional_string (\<lambda>nonce.
     read_bind read_string_array (\<lambda>keys.
     read_return \<lparr>pr_entries = entries, pr_idempotency_keys = keys,
       pr_context = \<lparr>sc_network = network, sc_contract_id = contract, sc_nonce = nonce\<rparr>\<rparr>)))))))"

definition decode_payroll_request :: "byte list \<Rightarrow> (serialization_error, payroll_request) result" where
  "decode_payroll_request bs =
     bind_result (run_reader (whole payroll_request_fields) bs) (\<lambda>r.
     bind_result (throw_if (length (pr_idempotency_keys r) \<noteq> length (pr_entries r))
       (SerializationError SERIALIZATION_VALIDATION_FAILED)) (\<lambda>_.
     bind_result (assert_valid_entries (pr_entries r)) (\<lambda>_. Inr r)))"

section \<open>Codecs of the parts\<close>

definition header_bytes :: "payload_type_tag \<Rightarrow> byte list" where
  "header_bytes tag = [1, word_of_nat (tag_value tag)]"

lemma tag_value_lt: "tag_value tag < 256"
  by (cases tag) simp_all

lemma tag_value_inj [simp]: "tag_value s = tag_value t \<longleftrightarrow> s = t"
  by (cases s; cases t) simp_all

lemma read_header_at: "read_header tag (at pre (header_bytes tag @ post)) = Inr ((), at (pre @ header_bytes tag) post)"
  using uint8.read_back [of 1 pre "word_of_nat (tag_value tag) # post"]
    uint8.read_back [OF tag_value_lt, of "pre @ [1]" tag post]
  by (simp add: read_header_def header_bytes_def read_bind_def read_return_def serialization_format_version_def)

lemma to_bytes_header [simp]: "to_bytes (write_header tag w) = to_bytes w @ header_bytes tag"
  by (simp add: write_header_def header_bytes_def uint8.written tag_value_lt serialization_format_version_def)

definition pair_bytes :: "jpair \<Rightarrow> byte list" where
  "pair_bytes p = string_bytes (fst p) @ string_bytes (snd p)"

definition pair_ok :: "jpair \<Rightarrow> bool" where
  "pair_ok p = (string_ok (fst p) \<and> string_ok (snd p))"

interpretation pair: codec write_pair read_pair pair_bytes pair_ok
  by unfold_locales
    (simp_all add: write_pair_def read_pair_def pair_bytes_def pair_ok_def string.written read_bind_def
      string.read_back read_return_def)

definition optional_bytes :: "jstr option \<Rightarrow> byte list" where
  "optional_bytes v = (case v of None \<Rightarrow> [0] | Some s \<Rightarrow> 1 # string_bytes s)"

definition optional_ok :: "jstr option \<Rightarrow> bool" where
  "optional_ok v = (case v of None \<Rightarrow> True | Some s \<Rightarrow> string_ok s)"

lemma read_bool_at:
  "read_bool (at pre (0 # post)) = Inr (False, at (pre @ [0]) post)"
  "read_bool (at pre (1 # post)) = Inr (True, at (pre @ [1]) post)"
  using bool.read_back [where x = False and pre = pre and post = post]
    bool.read_back [where x = True and pre = pre and post = post] by simp_all

interpretation optional: codec write_optional_string read_optional_string optional_bytes optional_ok
proof
  fix v w assume "optional_ok v"
  then show "to_bytes (write_optional_string v w) = to_bytes w @ optional_bytes v"
    by (auto simp: write_optional_string_def optional_bytes_def optional_ok_def bool.written string.written
        split: option.splits)
next
  fix v pre post assume ok: "optional_ok v"
  show "read_optional_string (at pre (optional_bytes v @ post)) = Inr (v, at (pre @ optional_bytes v) post)"
  proof (cases v)
    case None
    then show ?thesis by (simp add: read_optional_string_def optional_bytes_def read_bind_def read_bool_at read_return_def)
  next
    case (Some s)
    with ok string.read_back [of s "pre @ [1]" post] show ?thesis
      by (simp add: read_optional_string_def optional_bytes_def optional_ok_def read_bind_def read_bool_at read_return_def)
  qed
qed

definition entry_bytes :: "payroll_request_entry \<Rightarrow> byte list" where
  "entry_bytes e = string_bytes (re_recipient e) @ bigint_bytes (re_amount e) @ string_bytes (re_asset e) @
     optional_bytes (re_memo e)"

definition entry_ok :: "payroll_request_entry \<Rightarrow> bool" where
  "entry_ok e = (string_ok (re_recipient e) \<and> bigint_ok (re_amount e) \<and> string_ok (re_asset e) \<and>
     optional_ok (re_memo e))"

lemma write_entry_fields_eq:
  assumes "entry_ok e"
  shows "\<exists>w'. write_entry_fields e w = Inr w' \<and> to_bytes w' = to_bytes w @ entry_bytes e"
proof -
  from write_bigint_eq [of "re_amount e" "write_string (re_recipient e) w"] assms
  obtain w1 where "write_bigint (re_amount e) (write_string (re_recipient e) w) = Inr w1"
    "to_bytes w1 = to_bytes w @ string_bytes (re_recipient e) @ bigint_bytes (re_amount e)"
    by (auto simp: entry_ok_def string.written)
  with assms show ?thesis
    by (auto simp: write_entry_fields_def entry_bytes_def entry_ok_def optional_bytes_def optional_ok_def
        Let_def bool.written string.written split: option.split)
qed

text \<open>The employee identifier of an entry is not written.\<close>

abbreviation without_employee_id :: "payroll_request_entry \<Rightarrow> payroll_request_entry" where
  "without_employee_id e \<equiv> e\<lparr>re_employee_id := None\<rparr>"

lemma read_entry_optional:
  "read_bind read_bool (\<lambda>has_memo.
     read_bind (if has_memo then read_bind read_string (\<lambda>s. read_return (Some s)) else read_return None) k) =
   read_bind read_optional_string k"
  by (rule ext) (auto simp: read_bind_def read_optional_string_def bind_result_def split: sum.split)

interpretation entry: codec "\<lambda>e w. case write_entry_fields e w of Inr w' \<Rightarrow> w' | Inl _ \<Rightarrow> w" read_entry_fields
  entry_bytes "\<lambda>e. entry_ok e \<and> re_employee_id e = None"
proof
  fix e w assume "entry_ok e \<and> re_employee_id e = None"
  with write_entry_fields_eq [of e w]
  show "to_bytes (case write_entry_fields e w of Inr w' \<Rightarrow> w' | Inl _ \<Rightarrow> w) = to_bytes w @ entry_bytes e" by auto
next
  fix e pre post assume "entry_ok e \<and> re_employee_id e = None"
  then show "read_entry_fields (at pre (entry_bytes e @ post)) = Inr (e, at (pre @ entry_bytes e) post)"
    unfolding read_entry_fields_def read_entry_optional
    by (simp add: entry_bytes_def entry_ok_def read_bind_def string.read_back bigint.read_back optional.read_back
        read_return_def)
qed

lemma write_entries_eq:
  "\<forall>e \<in> set es. entry_ok e \<Longrightarrow>
   \<exists>w'. write_entries es w = Inr w' \<and> to_bytes w' = to_bytes w @ concat (map entry_bytes es)"
proof (induction es arbitrary: w)
  case (Cons e es)
  from write_entry_fields_eq [of e w] Cons.prems obtain w1 where
    w1: "write_entry_fields e w = Inr w1" "to_bytes w1 = to_bytes w @ entry_bytes e" by auto
  from Cons.IH [of w1] Cons.prems w1 show ?case by auto
qed simp

lemma run_reader_whole:
  "m (at [] bs) = Inr (x, at bs []) \<Longrightarrow> run_reader (whole m) bs = Inr x"
  by (simp add: run_reader_def new_reader_at whole_def read_bind_def read_return_def)

lemmas read_steps = read_bind_def read_return_def read_header_at string.read_back bigint.read_back
  float64.read_back strings.read_back pair.read_back optional.read_back
  strings.read_back_end bigint.read_back_end

section \<open>Round trips\<close>

definition triple_ok :: "jpair \<Rightarrow> jpair \<times> jpair \<Rightarrow> jpair \<Rightarrow> bool" where
  "triple_ok a b c = (pair_ok a \<and> pair_ok (fst b) \<and> pair_ok (snd b) \<and> pair_ok c)"

definition triple_bytes :: "jpair \<Rightarrow> jpair \<times> jpair \<Rightarrow> jpair \<Rightarrow> byte list" where
  "triple_bytes a b c = pair_bytes a @ pair_bytes (fst b) @ pair_bytes (snd b) @ pair_bytes c"

lemma write_proof_triple_bytes:
  "triple_ok a b c \<Longrightarrow> to_bytes (write_proof_triple a b c w) = to_bytes w @ triple_bytes a b c"
  by (simp add: write_proof_triple_def triple_ok_def triple_bytes_def pair.written)

lemma read_proof_triple_at:
  "triple_ok a b c \<Longrightarrow>
   read_proof_triple (at pre (triple_bytes a b c @ post)) = Inr ((a, b, c), at (pre @ triple_bytes a b c) post)"
  by (simp add: read_proof_triple_def triple_ok_def triple_bytes_def read_bind_def read_return_def pair.read_back)

definition proof_payload_ok :: "proof_payload \<Rightarrow> bool" where
  "proof_payload_ok p =
     (triple_ok (sp_pi_a (pp_proof p)) (sp_pi_b (pp_proof p)) (sp_pi_c (pp_proof p)) \<and>
      string_ok (sp_protocol (pp_proof p)) \<and> string_ok (sp_curve (pp_proof p)) \<and> strings_ok (pp_public_signals p))"

definition proof_struct_ok :: "proof_struct \<Rightarrow> bool" where
  "proof_struct_ok p = (triple_ok (ps_pi_a p) (ps_pi_b p) (ps_pi_c p) \<and> strings_ok (ps_public_signals p))"

definition commitment_entry_ok :: "commitment_entry \<Rightarrow> bool" where
  "commitment_entry_ok e =
     (string_ok (ce_employer e) \<and> string_ok (ce_employee e) \<and> string_ok (ce_commitment_hash e) \<and>
      bigint_ok (ce_cycle_id e) \<and> bigint_ok (ce_actual_amount e))"

definition commit_request_ok :: "commit_request \<Rightarrow> bool" where
  "commit_request_ok r =
     (string_ok (cr_employer r) \<and> string_ok (cr_employee r) \<and> string_ok (cr_commitment_hash r) \<and>
      bigint_ok (cr_cycle_id r))"

lemma proof_payload_round_trip:
  "proof_payload_ok p \<Longrightarrow> decode_proof_payload (encode_proof_payload p) = Inr (p\<lparr>pp_metadata := None\<rparr>)"
  unfolding decode_proof_payload_def
  by (rule run_reader_whole)
    (simp add: proof_payload_fields_def encode_proof_payload_def proof_payload_ok_def write_proof_triple_bytes
      string.written strings.written read_steps read_proof_triple_at Let_def)

lemma proof_struct_round_trip:
  "proof_struct_ok p \<Longrightarrow> decode_proof_struct (encode_proof_struct p) = Inr p"
  unfolding decode_proof_struct_def
  by (rule run_reader_whole)
    (simp add: proof_struct_fields_def encode_proof_struct_def proof_struct_ok_def write_proof_triple_bytes
      strings.written read_steps read_proof_triple_at)

definition commitment_entry_bytes :: "commitment_entry \<Rightarrow> byte list" where
  "commitment_entry_bytes e =
     header_bytes COMMITMENT_ENTRY @ string_bytes (ce_employer e) @ string_bytes (ce_employee e) @
     string_bytes (ce_commitment_hash e) @ bigint_bytes (ce_cycle_id e) @ le_bytes 8 (unat (ce_created_at e)) @
     [if ce_revealed e then 1 else 0] @ bigint_bytes (ce_actual_amount e)"

lemma encode_commitment_entry_eq:
  assumes ok: "commitment_entry_ok e"
  shows "encode_commitment_entry e = Inr (commitment_entry_bytes e)"
proof -
  let ?w1 = "write_string (ce_commitment_hash e) (write_string (ce_employee e) (write_string (ce_employer e)
      (write_header COMMITMENT_ENTRY new_writer)))"
  from ok write_bigint_eq [of "ce_cycle_id e" ?w1] obtain w2 where w2: "write_bigint (ce_cycle_id e) ?w1 = Inr w2"
    "to_bytes w2 = to_bytes ?w1 @ bigint_bytes (ce_cycle_id e)" by (auto simp: commitment_entry_ok_def)
  let ?w3 = "write_bool (ce_revealed e) (write_float64 (ce_created_at e) w2)"
  from ok write_bigint_eq [of "ce_actual_amount e" ?w3] obtain w4 where
    w4: "write_bigint (ce_actual_amount e) ?w3 = Inr w4"
    "to_bytes w4 = to_bytes ?w3 @ bigint_bytes (ce_actual_amount e)" by (auto simp: commitment_entry_ok_def)
  from w2 w4 ok show ?thesis
    by (simp add: encode_commitment_entry_def Let_def commitment_entry_ok_def commitment_entry_bytes_def
        string.written bool.written float64.written)
qed

lemma read_bool_byte: "read_bool (at pre ((if b then 1 else 0) # post)) = Inr (b, at (pre @ [if b then 1 else 0]) post)"
  by (cases b) (simp_all add: read_bool_at)

lemma commitment_entry_round_trip:
  "commitment_entry_ok e \<Longrightarrow> bind_result (encode_commitment_entry e) decode_commitment_entry = Inr e"
  unfolding decode_commitment_entry_def
  by (simp only: encode_commitment_entry_eq bind_result_simps, rule run_reader_whole)
    (simp add: commitment_entry_fields_def commitment_entry_ok_def commitment_entry_bytes_def read_steps
      float64.read_back [where post = "c # post" for c post] read_bool_byte)

lemma commit_request_round_trip:
  assumes ok: "commit_request_ok r"
  shows "bind_result (encode_commit_request r) decode_commit_request = Inr r"
proof -
  let ?w1 = "write_string (cr_commitment_hash r) (write_string (cr_employee r) (write_string (cr_employer r)
      (write_header COMMIT_REQUEST new_writer)))"
  from ok write_bigint_eq [of "cr_cycle_id r" ?w1] obtain w2 where w2: "write_bigint (cr_cycle_id r) ?w1 = Inr w2"
    "to_bytes w2 = to_bytes ?w1 @ bigint_bytes (cr_cycle_id r)" by (auto simp: commit_request_ok_def)
  with ok show ?thesis
    unfolding decode_commit_request_def
    by (simp add: encode_commit_request_def)
      (rule run_reader_whole, simp add: commit_request_fields_def commit_request_ok_def string.written read_steps)
qed

section \<open>Cutting and extending\<close>

lemma sequential_prod: "(\<And>a b. sequential_reader (f a b)) \<Longrightarrow> sequential_reader (case p of (a, b) \<Rightarrow> f a b)"
  by (cases p) simp

lemma sequential_if: "sequential_reader m \<Longrightarrow> sequential_reader n \<Longrightarrow> sequential_reader (if b then m else n)"
  by simp

lemmas sequential_parts = sequential_bind sequential_return sequential_throw sequential_prod sequential_if
  sequential_many sequential_primitives

lemma sequential_header: "sequential_reader (read_header tag)"
  unfolding read_header_def by (intro sequential_parts)

lemma sequential_optional: "sequential_reader read_optional_string"
  unfolding read_optional_string_def by (intro sequential_parts)

lemma sequential_entry: "sequential_reader read_entry_fields"
  unfolding read_entry_fields_def by (intro sequential_parts)

lemma sequential_triple: "sequential_reader read_proof_triple"
  unfolding read_proof_triple_def read_pair_def by (intro sequential_parts)

lemma sequential_fields:
  "sequential_reader proof_payload_fields" "sequential_reader proof_struct_fields"
  "sequential_reader commitment_entry_fields" "sequential_reader commit_request_fields"
  "sequential_reader command_entry_fields" "sequential_reader payroll_request_fields"
  unfolding proof_payload_fields_def proof_struct_fields_def commitment_entry_fields_def
    commit_request_fields_def command_entry_fields_def payroll_request_fields_def
  by (intro sequential_parts sequential_header sequential_optional sequential_entry sequential_triple)+

interpretation payroll_request_reader: sequential_reader payroll_request_fields
  by (rule sequential_fields)

definition frames_itself :: "(byte list \<Rightarrow> (serialization_error, 'a) result) \<Rightarrow> bool" where
  "frames_itself dec \<longleftrightarrow> (\<forall>b x. dec b = Inr x \<longrightarrow>
     (\<forall>n < length b. dec (take n b) = Inl (SerializationError SERIALIZATION_TRUNCATED)) \<and>
     (\<forall>c. c \<noteq> [] \<longrightarrow> dec (b @ c) = Inl (SerializationError SERIALIZATION_TRAILING_BYTES)))"

lemma run_reader_frames:
  assumes m: "sequential_reader m"
  shows "frames_itself (run_reader (whole m))"
  unfolding frames_itself_def
proof (intro allI impI)
  fix b x
  assume "run_reader (whole m) b = Inr x"
  then obtain r where r: "whole m (new_reader b) = Inr (x, r)"
    by (cases "whole m (new_reader b)") (auto simp: run_reader_def)
  show "(\<forall>n < length b. run_reader (whole m) (take n b) = Inl (SerializationError SERIALIZATION_TRUNCATED)) \<and>
      (\<forall>c. c \<noteq> [] \<longrightarrow> run_reader (whole m) (b @ c) = Inl (SerializationError SERIALIZATION_TRAILING_BYTES))"
    by (simp add: run_reader_def whole_prefix [OF m r] whole_extension [OF m r])
qed

lemma frames_bind: "frames_itself dec \<Longrightarrow> frames_itself (\<lambda>b. bind_result (dec b) f)"
  unfolding frames_itself_def by (auto simp: result_simps)

section \<open>Properties\<close>

text \<open>
  every decoder frames its own input: of any buffer it accepts, every strict prefix is rejected as
  truncated and every strict extension for its trailing bytes.
\<close>

theorem decoders_frame_themselves:
  "frames_itself decode_proof_payload \<and> frames_itself decode_proof_struct \<and>
   frames_itself decode_commitment_entry \<and> frames_itself decode_commit_request \<and>
   frames_itself decode_payroll_command_entry \<and> frames_itself decode_payroll_request"
proof -
  note f = sequential_fields [THEN run_reader_frames]
  have d: "decode_proof_payload = run_reader (whole proof_payload_fields)"
    "decode_proof_struct = run_reader (whole proof_struct_fields)"
    "decode_commitment_entry = run_reader (whole commitment_entry_fields)"
    "decode_commit_request = run_reader (whole commit_request_fields)"
    by (simp_all add: fun_eq_iff decode_proof_payload_def decode_proof_struct_def decode_commitment_entry_def
        decode_commit_request_def)
  have "frames_itself decode_payroll_command_entry"
    using frames_bind [OF f(5)] by (simp only: decode_payroll_command_entry_def [abs_def])
  moreover have "frames_itself decode_payroll_request"
    using frames_bind [OF f(6)] by (simp only: decode_payroll_request_def [abs_def])
  ultimately show ?thesis by (simp add: d f)
qed

text \<open>
  proof payloads, proof structs, commitment entries and commit requests come back from their encoding
  unchanged, for all texts the text codec preserves and non-negative bigints, except for the proof's
  metadata, which the format does not carry.
\<close>

theorem proofs_and_commitments_round_trip:
  "(proof_payload_ok p \<longrightarrow> decode_proof_payload (encode_proof_payload p) = Inr (p\<lparr>pp_metadata := None\<rparr>)) \<and>
   (proof_struct_ok s \<longrightarrow> decode_proof_struct (encode_proof_struct s) = Inr s) \<and>
   (commitment_entry_ok e \<longrightarrow> bind_result (encode_commitment_entry e) decode_commitment_entry = Inr e) \<and>
   (commit_request_ok r \<longrightarrow> bind_result (encode_commit_request r) decode_commit_request = Inr r)"
  by (simp add: proof_payload_round_trip proof_struct_round_trip commitment_entry_round_trip
      commit_request_round_trip)

definition example_commitment :: commitment_entry where
  "example_commitment = \<lparr>ce_employer = [71], ce_employee = [71, 0xE9], ce_commitment_hash = [0xD83D, 0xDE00],
     ce_cycle_id = 300, ce_created_at = 0x4090000000000000, ce_revealed = True, ce_actual_amount = 0\<rparr>"

theorem proofs_and_commitments_round_trip_witness:
  "bind_result (encode_commitment_entry example_commitment) decode_commitment_entry = Inr example_commitment"
proof -
  have "commitment_entry_ok example_commitment"
    by (simp add: example_commitment_def commitment_entry_ok_def string_ok_def text_safe_def bigint_ok_def magnitude_bytes.simps text_encode_def
      encode_point_def is_high_def is_low_def)
  with proofs_and_commitments_round_trip [where e = example_commitment] show ?thesis by blast
qed

definition payroll_request_ok :: "payroll_request \<Rightarrow> bool" where
  "payroll_request_ok r =
     (pr_entries r \<noteq> [] \<and> fits32 (length (pr_entries r)) \<and>
      length (pr_idempotency_keys r) = length (pr_entries r) \<and>
      (\<forall>e \<in> set (pr_entries r). assert_valid_command_entry e = Inr () \<and> entry_ok e) \<and>
      strings_ok (pr_idempotency_keys r) \<and>
      optional_ok (sc_network (pr_context r)) \<and> optional_ok (sc_contract_id (pr_context r)) \<and>
      optional_ok (sc_nonce (pr_context r)))"

definition payroll_request_bytes :: "payroll_request \<Rightarrow> byte list" where
  "payroll_request_bytes r =
     header_bytes PAYROLL_REQUEST @ le_bytes 4 (length (pr_entries r)) @ concat (map entry_bytes (pr_entries r)) @
     optional_bytes (sc_network (pr_context r)) @ optional_bytes (sc_contract_id (pr_context r)) @
     optional_bytes (sc_nonce (pr_context r)) @ strings_bytes (pr_idempotency_keys r)"

lemma assert_valid_entries_ok:
  "\<forall>e \<in> set es. assert_valid_command_entry e = Inr () \<Longrightarrow> assert_valid_entries es = Inr ()"
  by (induction es) simp_all

lemma encode_payroll_request_eq:
  assumes ok: "payroll_request_ok r"
  shows "encode_payroll_request r = Inr (payroll_request_bytes r)"
proof -
  let ?w0 = "write_uint32 (length (pr_entries r)) (write_header PAYROLL_REQUEST new_writer)"
  from ok write_entries_eq [of "pr_entries r" ?w0] obtain w1 where w1: "write_entries (pr_entries r) ?w0 = Inr w1"
    "to_bytes w1 = to_bytes ?w0 @ concat (map entry_bytes (pr_entries r))" by (auto simp: payroll_request_ok_def)
  from ok have "assert_valid_entries (pr_entries r) = Inr ()"
    by (intro assert_valid_entries_ok) (simp add: payroll_request_ok_def)
  with w1 ok show ?thesis
    by (simp add: encode_payroll_request_def payroll_request_ok_def payroll_request_bytes_def Let_def
        uint32.written optional.written strings.written)
qed

lemma entry_bytes_without_id [simp]: "entry_bytes (without_employee_id e) = entry_bytes e"
  by (simp add: entry_bytes_def)

lemma valid_without_id [simp]: "assert_valid_command_entry (without_employee_id e) = assert_valid_command_entry e"
  by (simp add: assert_valid_command_entry_def)

lemma payroll_request_fields_at:
  assumes ok: "payroll_request_ok r"
  shows "payroll_request_fields (at [] (payroll_request_bytes r)) =
    Inr (r\<lparr>pr_entries := map without_employee_id (pr_entries r)\<rparr>, at (payroll_request_bytes r) [])"
proof -
  let ?es = "map without_employee_id (pr_entries r)"
  have es: "\<forall>e \<in> set ?es. entry_ok e \<and> re_employee_id e = None"
    using ok by (auto simp: payroll_request_ok_def entry_ok_def)
  have bytes: "concat (map entry_bytes ?es) = concat (map entry_bytes (pr_entries r))"
    by (simp add: comp_def)
  have len: "length (pr_entries r) < 2 ^ 32" using ok by (simp add: payroll_request_ok_def)
  note many = entry.read_back_list [OF es, simplified bytes length_map]
  show ?thesis
    using ok
    by (simp add: payroll_request_fields_def payroll_request_bytes_def payroll_request_ok_def read_steps many
        uint32.read_back [OF len])
qed

text \<open>
  C4: a well-formed payroll request survives encoding and decoding entirely, except that the employee
  identifiers of its entries, which the format does not carry, are lost.
\<close>

theorem payroll_request_round_trip:
  assumes "payroll_request_ok r"
  shows "bind_result (encode_payroll_request r) decode_payroll_request =
    Inr (r\<lparr>pr_entries := map without_employee_id (pr_entries r)\<rparr>)"
proof -
  let ?r = "r\<lparr>pr_entries := map without_employee_id (pr_entries r)\<rparr>"
  have "run_reader (whole payroll_request_fields) (payroll_request_bytes r) = Inr ?r"
    by (rule run_reader_whole) (rule payroll_request_fields_at [OF assms])
  moreover have "assert_valid_entries (pr_entries ?r) = Inr ()"
    using assms by (intro assert_valid_entries_ok) (auto simp: payroll_request_ok_def)
  ultimately show ?thesis
    using assms by (simp add: encode_payroll_request_eq decode_payroll_request_def payroll_request_ok_def)
qed

definition example_request :: payroll_request where
  "example_request =
     \<lparr>pr_entries = [\<lparr>re_recipient = [71, 65], re_amount = 1000, re_asset = [88], re_memo = Some [112],
        re_employee_id = Some [101]\<rparr>],
      pr_idempotency_keys = [[107]],
      pr_context = \<lparr>sc_network = Some [116], sc_contract_id = None, sc_nonce = None\<rparr>\<rparr>"

theorem payroll_request_round_trip_witness:
  "map_sum id (\<lambda>r. map re_employee_id (pr_entries r))
     (bind_result (encode_payroll_request example_request) decode_payroll_request) = Inr [None]"
proof -
  have "payroll_request_ok example_request"
    by (simp add: example_request_def payroll_request_ok_def entry_ok_def strings_ok_def optional_ok_def
      assert_valid_command_entry_def unit_trim_def unit_space_def string_ok_def text_safe_def bigint_ok_def magnitude_bytes.simps text_encode_def
      encode_point_def is_high_def is_low_def)
  from payroll_request_round_trip [OF this] show ?thesis by (simp add: example_request_def)
qed

text \<open>
  buffers of one kind are never read as another, nor buffers of another format version: after the
  version byte 1 every tag but the decoder's own is a type mismatch, and any other first byte is a
  version mismatch, whatever follows.
\<close>

theorem headers_are_checked:
  fixes t v :: nat and rest :: "byte list"
  defines "kind \<equiv> \<lambda>t. 1 # word_of_nat t # rest" and "mismatch \<equiv> SerializationError SERIALIZATION_TYPE_MISMATCH"
    and "version \<equiv> word_of_nat v # rest" and "other \<equiv> SerializationError SERIALIZATION_VERSION_MISMATCH"
  assumes "t < 256" "v < 256" "v \<noteq> 1"
  shows "(t \<noteq> 1 \<longrightarrow> decode_proof_payload (kind t) = Inl mismatch) \<and>
    (t \<noteq> 2 \<longrightarrow> decode_proof_struct (kind t) = Inl mismatch) \<and>
    (t \<noteq> 3 \<longrightarrow> decode_commitment_entry (kind t) = Inl mismatch) \<and>
    (t \<noteq> 4 \<longrightarrow> decode_commit_request (kind t) = Inl mismatch) \<and>
    (t \<noteq> 5 \<longrightarrow> decode_payroll_command_entry (kind t) = Inl mismatch) \<and>
    (t \<noteq> 6 \<longrightarrow> decode_payroll_request (kind t) = Inl mismatch) \<and>
    decode_proof_payload version = Inl other \<and> decode_proof_struct version = Inl other \<and>
    decode_commitment_entry version = Inl other \<and> decode_commit_request version = Inl other \<and>
    decode_payroll_command_entry version = Inl other \<and> decode_payroll_request version = Inl other"
proof -
  have t: "read_header tag (at [] (kind t)) = Inl mismatch" if "t \<noteq> tag_value tag" for tag
    using that assms(5) uint8.read_back [of 1 "[]" "word_of_nat t # rest"] uint8.read_back [of t "[1]" rest]
    by (simp add: read_header_def read_bind_def read_throw_def kind_def mismatch_def serialization_format_version_def)
  have v: "read_header tag (at [] version) = Inl other" for tag
    using assms(6,7) uint8.read_back [of v "[]" rest]
    by (simp add: read_header_def read_bind_def read_throw_def version_def other_def serialization_format_version_def)
  have fields: "read_header tag r = Inl e \<Longrightarrow> run_reader (whole (read_bind (read_header tag) k)) bs = Inl e"
    if "r = at [] bs" for tag e r bs and k :: "unit \<Rightarrow> 'b read"
    using that by (simp add: run_reader_def new_reader_at whole_def read_bind_def)
  show ?thesis
    by (simp add: decode_proof_payload_def proof_payload_fields_def decode_proof_struct_def proof_struct_fields_def
        decode_commitment_entry_def commitment_entry_fields_def decode_commit_request_def commit_request_fields_def
        decode_payroll_command_entry_def command_entry_fields_def decode_payroll_request_def
        payroll_request_fields_def run_reader_def new_reader_at whole_def read_bind_def t v)
qed

theorem headers_are_checked_witness:
  "decode_commit_request [1, 3, 0] = Inl (SerializationError SERIALIZATION_TYPE_MISMATCH) \<and>
   decode_payroll_request [2, 0] = Inl (SerializationError SERIALIZATION_VERSION_MISMATCH)"
  using headers_are_checked [of 3 2 "[0]"] by simp

text \<open>
  encoders reject what the contract would reject: a payroll command entry is refused exactly when its
  recipient or asset is blank or its amount is not positive, and a commitment with a negative cycle or
  amount raises a range error.
\<close>

theorem encoders_reject_invalid:
  "(encode_payroll_command_entry e = Inl err \<longleftrightarrow>
      err = SerializationError SERIALIZATION_VALIDATION_FAILED \<and>
      (unit_trim (re_recipient e) = [] \<or> re_amount e \<le> 0 \<or> unit_trim (re_asset e) = [])) \<and>
   (encode_commitment_entry c = Inl err' \<longleftrightarrow>
      err' = NegativeBigint \<and> (ce_cycle_id c < 0 \<or> ce_actual_amount c < 0))"
proof -
  have w: "write_bigint v w = Inl x \<longleftrightarrow> x = NegativeBigint \<and> v < 0" for v w x
    by (auto simp: write_bigint_def result_simps Let_def split: if_splits)
  have n: "0 \<le> v \<Longrightarrow> \<exists>w'. write_bigint v w = Inr w'" for v w
    by (simp add: write_bigint_def Let_def)
  have "write_entry_fields e v \<noteq> Inl x" if "0 < re_amount e" for v x
    using that by (auto simp: write_entry_fields_def result_simps w Let_def split: option.splits)
  then have 1: "encode_payroll_command_entry e = Inl err \<longleftrightarrow>
      err = SerializationError SERIALIZATION_VALIDATION_FAILED \<and>
      (unit_trim (re_recipient e) = [] \<or> re_amount e \<le> 0 \<or> unit_trim (re_asset e) = [])"
    by (auto simp: encode_payroll_command_entry_def assert_valid_command_entry_def result_simps)
  have 2: "encode_commitment_entry c = Inl err' \<longleftrightarrow>
      err' = NegativeBigint \<and> (ce_cycle_id c < 0 \<or> ce_actual_amount c < 0)"
  proof (cases "ce_cycle_id c < 0")
    case True
    then show ?thesis by (auto simp: encode_commitment_entry_def Let_def write_bigint_negative)
  next
    case False
    then obtain w2 where "write_bigint (ce_cycle_id c) (write_string (ce_commitment_hash c)
        (write_string (ce_employee c) (write_string (ce_employer c) (write_header COMMITMENT_ENTRY new_writer)))) = Inr w2"
      using n by fastforce
    with False show ?thesis by (auto simp: encode_commitment_entry_def Let_def result_simps w)
  qed
  from 1 2 show ?thesis by blast
qed

text \<open>
  a well-formed string that begins with U+FEFF does not come back from the format: the decoder takes
  the first code unit for a byte order mark and drops it.
\<close>

theorem leading_bom_is_lost:
  assumes "well_formed s" "s \<noteq> []" "hd s = 0xFEFF" "length (text_encode s) < 2 ^ 32"
  shows "map_sum id fst (read_string (new_reader (to_bytes (write_string s new_writer)))) = Inr (tl s)"
proof -
  have "to_bytes (write_string s new_writer) = string_bytes s"
    using assms(4) by (simp add: write_string_def string_bytes_def uint32.written Let_def)
  with read_string_at [OF assms(4), of "[]" "[]"] show ?thesis
    by (simp add: new_reader_at text_bom_lost assms)
qed

theorem leading_bom_is_lost_witness:
  "map_sum id fst (read_string (new_reader (to_bytes (write_string [0xFEFF, 65] new_writer)))) = Inr [65]"
proof -
  have "well_formed [0xFEFF, 65]" "length (text_encode [0xFEFF, 65]) = 4"
    by (simp_all add: is_high_def is_low_def text_encode_def encode_point_def)
  with leading_bom_is_lost [of "[0xFEFF, 65]"] show ?thesis by simp
qed

end
