(* ===== verification/QuorumSessions.thy ===== *)
theory QuorumSessions
  imports Digits "HOL-Library.Word" "HOL-Library.List_Lexorder"
begin

text \<open>
  Multi-signer payroll sessions (\<open>packages/core/src/sessions/QuorumSessionManager.ts\<close>). The manager is a
  map of sessions and a set of used nonces; each method is a function on that state that may throw
  before it writes. The clock is an argument of each call, the random part of a generated identifier
  too. SHA-256 is the argument \<open>sha\<close>, which gives no digest where the crypto API is unavailable: then the
  code's own 32-bit string hash is used.

  Payload objects are JSON values whose numbers are integers and whose keys are no array indices.
\<close>

section \<open>Payloads and their hash\<close>

datatype json = JNull | JBool bool | JInt int | JStr string | JArr "json list" | JObj "(string \<times> json) list"

datatype op_payload = TextPayload string | ObjectPayload "(string \<times> json) list"

definition json_escape :: "char \<Rightarrow> string" where
  "json_escape c =
     (let n = of_char c :: nat; bs = char_of (92 :: nat) in
      if n = 34 \<or> n = 92 then [bs, c]
      else if n = 8 then [bs, CHR ''b''] else if n = 9 then [bs, CHR ''t'']
      else if n = 10 then [bs, CHR ''n''] else if n = 12 then [bs, CHR ''f'']
      else if n = 13 then [bs, CHR ''r'']
      else if n < 32 then bs # CHR ''u'' # pad_start 4 CHR ''0'' (radix_string 16 n)
      else [c])"

definition json_quote :: "string \<Rightarrow> string" where
  "json_quote s = CHR 0x22 # concat (map json_escape s) @ [CHR 0x22]"

fun join :: "string \<Rightarrow> string list \<Rightarrow> string" where
  "join sep [] = []"
| "join sep [x] = x"
| "join sep (x # y # xs) = x @ sep @ join sep (y # xs)"

text \<open>\<open>JSON.stringify(v, keys)\<close>: with an array of keys, every object, nested ones included, is written
  with exactly the listed keys it has, in the order of the list; without one, with its own keys.\<close>

fun stringify :: "string list option \<Rightarrow> json \<Rightarrow> string" where
  "stringify keys JNull = ''null''"
| "stringify keys (JBool b) = (if b then ''true'' else ''false'')"
| "stringify keys (JInt n) = int_string n"
| "stringify keys (JStr s) = json_quote s"
| "stringify keys (JArr vs) = ''['' @ join '','' (map (stringify keys) vs) @ '']''"
| "stringify keys (JObj kvs) =
     (let strs = map (\<lambda>(k, v). (k, stringify keys v)) kvs;
          fields = (case keys of None \<Rightarrow> strs
                    | Some ks \<Rightarrow> concat (map (\<lambda>k. case map_of strs k of None \<Rightarrow> [] | Some s \<Rightarrow> [(k, s)]) ks))
      in CHR 0x7B # join '','' (map (\<lambda>(k, s). json_quote k @ '':'' @ s) fields) @ [CHR 0x7D])"

definition fallback_hash :: "string \<Rightarrow> string" where
  "fallback_hash s =
     (let h = foldl (\<lambda>h c. push_bit 5 h - h + word_of_nat (of_char c)) (0 :: 32 word) s
      in pad_start 8 CHR ''0'' (radix_string 16 (nat \<bar>sint h\<bar>)))"

definition canonical_payload :: "op_payload \<Rightarrow> string" where
  "canonical_payload p =
     (case p of TextPayload s \<Rightarrow> s
      | ObjectPayload kvs \<Rightarrow> stringify (Some (sort (map fst kvs))) (JObj kvs))"

definition compute_payload_hash :: "(string \<Rightarrow> string option) \<Rightarrow> op_payload \<Rightarrow> string" where
  "compute_payload_hash sha p =
     (case sha (canonical_payload p) of Some digest \<Rightarrow> digest | None \<Rightarrow> fallback_hash (canonical_payload p))"

section \<open>Types\<close>

datatype signer_role = PayrollAdmin | TreasuryOperator | ComplianceReviewer | EmergencyApprover

fun role_string :: "signer_role \<Rightarrow> string" where
  "role_string PayrollAdmin = ''payroll_admin''"
| "role_string TreasuryOperator = ''treasury_operator''"
| "role_string ComplianceReviewer = ''compliance_reviewer''"
| "role_string EmergencyApprover = ''emergency_approver''"

datatype slot_status = SlotPending | SlotSigned | SlotRejected

datatype session_status = StatusPending | StatusReady | StatusExpired | StatusConsumed | StatusRejected

record signature_record =
  sg_signer :: string
  sg_role :: signer_role
  sg_hex :: string
  sg_signed_at :: int
  sg_payload_hash :: string
  sg_nonce :: string

record rejection_record =
  rj_signer :: string
  rj_role :: signer_role
  rj_rejected_at :: int
  rj_reason :: string

record signer_slot =
  sl_address :: "string option"
  sl_role :: signer_role
  sl_weight :: int
  sl_status :: slot_status
  sl_signature :: "signature_record option"
  sl_rejection :: "rejection_record option"

record signer_session =
  ss_id :: string
  ss_payroll_run :: string
  ss_payload :: string
  ss_payload_hash :: string
  ss_required_roles :: "signer_role list"
  ss_threshold :: int
  ss_slots :: "signer_slot list"
  ss_expires_at :: int
  ss_created_at :: int
  ss_consumed :: bool
  ss_consumed_at :: "int option"
  ss_consumed_tx :: "string option"
  ss_signatures :: "(string, signature_record) dict"
  ss_rejections :: "(string, rejection_record) dict"
  ss_metadata :: "(string \<times> json) list option"

record create_params =
  cp_session_id :: "string option"
  cp_payroll_run :: string
  cp_payload :: op_payload
  cp_required_roles :: "signer_role list"
  cp_threshold :: "int option"
  cp_ttl :: "int option"
  cp_expires_at :: "int option"
  cp_assigned :: "(signer_role, string) dict"
  cp_metadata :: "(string \<times> json) list option"

record signature_params =
  sp_signer :: string
  sp_role :: signer_role
  sp_hex :: string
  sp_payload :: "op_payload option"
  sp_nonce :: string
  sp_timestamp :: "int option"

record quorum_manager =
  qm_sessions :: "(string, signer_session) dict"
  qm_used_nonces :: "string list"
  qm_default_ttl :: int
  qm_max_ttl :: int

datatype quorum_error =
  INVALID_SESSION_PARAMS | INVALID_THRESHOLD | INVALID_EXPIRY | DUPLICATE_SESSION_ID | INVALID_SIGNATURE_PARAMS
| ROLE_NOT_REQUIRED | STALE_PAYLOAD_HASH | DUPLICATE_NONCE | DUPLICATE_SIGNATURE | REJECTED_SLOT
| INVALID_REJECTION_PARAMS | SESSION_ALREADY_CONSUMED | SESSION_EXPIRED | THRESHOLD_NOT_MET | SESSION_NOT_FOUND

section \<open>Operations\<close>

definition new_manager :: "int option \<Rightarrow> int option \<Rightarrow> quorum_manager" where
  "new_manager default_ttl max_ttl =
     \<lparr>qm_sessions = [], qm_used_nonces = [],
      qm_default_ttl = (case default_ttl of None \<Rightarrow> 86400000 | Some t \<Rightarrow> t),
      qm_max_ttl = (case max_ttl of None \<Rightarrow> 604800000 | Some t \<Rightarrow> t)\<rparr>"

definition generate_session_id :: "int \<Rightarrow> string \<Rightarrow> string" where
  "generate_session_id now rnd = ''sess_'' @ int_string now @ ''_'' @ rnd"

definition raw_payload :: "op_payload \<Rightarrow> string" where
  "raw_payload p = (case p of TextPayload s \<Rightarrow> s | ObjectPayload kvs \<Rightarrow> stringify None (JObj kvs))"

definition create_session ::
  "(string \<Rightarrow> string option) \<Rightarrow> int \<Rightarrow> string \<Rightarrow> create_params \<Rightarrow> quorum_manager
   \<Rightarrow> (quorum_error, signer_session \<times> quorum_manager) result" where
  "create_session sha now rnd p m =
     bind_result (throw_if (blank (cp_payroll_run p)) INVALID_SESSION_PARAMS) (\<lambda>_.
     bind_result (throw_if (cp_required_roles p = []) INVALID_SESSION_PARAMS) (\<lambda>_.
     let count = int (length (cp_required_roles p));
         threshold = (case cp_threshold p of None \<Rightarrow> count | Some t \<Rightarrow> t) in
     bind_result (throw_if (threshold \<le> 0 \<or> threshold > count) INVALID_THRESHOLD) (\<lambda>_.
     let ttl0 = (case cp_ttl p of None \<Rightarrow> qm_default_ttl m | Some t \<Rightarrow> t);
         ttl = (if ttl0 > qm_max_ttl m then qm_max_ttl m else ttl0);
         expires_at = (case cp_expires_at p of None \<Rightarrow> now + ttl | Some e \<Rightarrow> e) in
     bind_result (throw_if (expires_at \<le> now) INVALID_EXPIRY) (\<lambda>_.
     let session_id = (case cp_session_id p of None \<Rightarrow> generate_session_id now rnd | Some i \<Rightarrow> i) in
     bind_result (throw_if (dict_get (qm_sessions m) session_id \<noteq> None) DUPLICATE_SESSION_ID) (\<lambda>_.
     let session = \<lparr>ss_id = session_id, ss_payroll_run = cp_payroll_run p, ss_payload = raw_payload (cp_payload p),
           ss_payload_hash = compute_payload_hash sha (cp_payload p), ss_required_roles = cp_required_roles p,
           ss_threshold = threshold,
           ss_slots = map (\<lambda>role. \<lparr>sl_address = dict_get (cp_assigned p) role, sl_role = role, sl_weight = 1,
             sl_status = SlotPending, sl_signature = None, sl_rejection = None\<rparr>) (cp_required_roles p),
           ss_expires_at = expires_at, ss_created_at = now, ss_consumed = False, ss_consumed_at = None,
           ss_consumed_tx = None, ss_signatures = [], ss_rejections = [], ss_metadata = cp_metadata p\<rparr>
     in Inr (session, m\<lparr>qm_sessions := dict_put session_id session (qm_sessions m)\<rparr>))))))"

definition get_or_throw_session :: "string \<Rightarrow> quorum_manager \<Rightarrow> (quorum_error, signer_session) result" where
  "get_or_throw_session i m =
     (case dict_get (qm_sessions m) i of None \<Rightarrow> Inl SESSION_NOT_FOUND | Some s \<Rightarrow> Inr s)"

definition assert_session_active :: "int \<Rightarrow> signer_session \<Rightarrow> (quorum_error, unit) result" where
  "assert_session_active now s =
     bind_result (throw_if (ss_consumed s) SESSION_ALREADY_CONSUMED) (\<lambda>_.
     throw_if (now > ss_expires_at s) SESSION_EXPIRED)"

definition slot_key :: "string \<Rightarrow> signer_role \<Rightarrow> string" where
  "slot_key addr role = addr @ '':'' @ role_string role"

text \<open>\<open>slots.find(p)\<close> followed by an update of the slot found\<close>

fun update_first :: "('a \<Rightarrow> bool) \<Rightarrow> ('a \<Rightarrow> 'a) \<Rightarrow> 'a list \<Rightarrow> 'a list" where
  "update_first P f [] = []"
| "update_first P f (x # xs) = (if P x then f x # xs else x # update_first P f xs)"

definition slot_open_to :: "signer_role \<Rightarrow> string \<Rightarrow> signer_slot \<Rightarrow> bool" where
  "slot_open_to role addr s = (sl_role s = role \<and> (\<not> truthy (sl_address s) \<or> sl_address s = Some addr))"

text \<open>The recording of a signature in a session.\<close>

definition record_signature :: "signature_record \<Rightarrow> signer_session \<Rightarrow> signer_session" where
  "record_signature r s =
     s\<lparr>ss_signatures := dict_put (slot_key (sg_signer r) (sg_role r)) r (ss_signatures s),
       ss_slots := update_first (slot_open_to (sg_role r) (sg_signer r))
         (\<lambda>sl. sl\<lparr>sl_address := Some (sg_signer r), sl_status := SlotSigned, sl_signature := Some r\<rparr>) (ss_slots s)\<rparr>"

definition apply_signature ::
  "(string \<Rightarrow> string option) \<Rightarrow> int \<Rightarrow> string \<Rightarrow> signature_params \<Rightarrow> bool \<Rightarrow> quorum_manager
   \<Rightarrow> (quorum_error, signer_session \<times> quorum_manager) result" where
  "apply_signature sha now i p allow_replace m =
     bind_result (get_or_throw_session i m) (\<lambda>s.
     bind_result (assert_session_active now s) (\<lambda>_.
     bind_result (throw_if (blank (sp_signer p)) INVALID_SIGNATURE_PARAMS) (\<lambda>_.
     bind_result (throw_if (blank (sp_hex p)) INVALID_SIGNATURE_PARAMS) (\<lambda>_.
     bind_result (throw_if (blank (sp_nonce p)) INVALID_SIGNATURE_PARAMS) (\<lambda>_.
     bind_result (throw_if (sp_role p \<notin> set (ss_required_roles s)) ROLE_NOT_REQUIRED) (\<lambda>_.
     bind_result (case sp_payload p of None \<Rightarrow> Inr ()
       | Some payload \<Rightarrow> throw_if (compute_payload_hash sha payload \<noteq> ss_payload_hash s) STALE_PAYLOAD_HASH) (\<lambda>_.
     bind_result (throw_if (sp_nonce p \<in> set (qm_used_nonces m)) DUPLICATE_NONCE) (\<lambda>_.
     let key = slot_key (sp_signer p) (sp_role p) in
     bind_result (throw_if (dict_get (ss_signatures s) key \<noteq> None \<and> \<not> allow_replace) DUPLICATE_SIGNATURE) (\<lambda>_.
     bind_result (throw_if (dict_get (ss_rejections s) key \<noteq> None) REJECTED_SLOT) (\<lambda>_.
     let r = \<lparr>sg_signer = sp_signer p, sg_role = sp_role p, sg_hex = sp_hex p,
           sg_signed_at = (case sp_timestamp p of None \<Rightarrow> now | Some t \<Rightarrow> t),
           sg_payload_hash = ss_payload_hash s, sg_nonce = sp_nonce p\<rparr>;
         s' = record_signature r s
     in Inr (s', m\<lparr>qm_sessions := dict_put i s' (qm_sessions m),
                   qm_used_nonces := List.insert (sp_nonce p) (qm_used_nonces m)\<rparr>)))))))))))"

definition add_signature ::
  "(string \<Rightarrow> string option) \<Rightarrow> int \<Rightarrow> string \<Rightarrow> signature_params \<Rightarrow> quorum_manager
   \<Rightarrow> (quorum_error, signer_session \<times> quorum_manager) result" where
  "add_signature sha now i p m = apply_signature sha now i p False m"

definition replace_signature ::
  "(string \<Rightarrow> string option) \<Rightarrow> int \<Rightarrow> string \<Rightarrow> signature_params \<Rightarrow> quorum_manager
   \<Rightarrow> (quorum_error, signer_session \<times> quorum_manager) result" where
  "replace_signature sha now i p m = apply_signature sha now i p True m"

definition reject_session ::
  "int \<Rightarrow> string \<Rightarrow> string \<Rightarrow> signer_role \<Rightarrow> string \<Rightarrow> quorum_manager
   \<Rightarrow> (quorum_error, signer_session \<times> quorum_manager) result" where
  "reject_session now i addr role reason m =
     bind_result (get_or_throw_session i m) (\<lambda>s.
     bind_result (assert_session_active now s) (\<lambda>_.
     bind_result (throw_if (blank addr) INVALID_REJECTION_PARAMS) (\<lambda>_.
     bind_result (throw_if (blank reason) INVALID_REJECTION_PARAMS) (\<lambda>_.
     bind_result (throw_if (role \<notin> set (ss_required_roles s)) ROLE_NOT_REQUIRED) (\<lambda>_.
     let r = \<lparr>rj_signer = addr, rj_role = role, rj_rejected_at = now, rj_reason = reason\<rparr>;
         s' = s\<lparr>ss_rejections := dict_put (slot_key addr role) r (ss_rejections s),
           ss_slots := update_first (slot_open_to role addr)
             (\<lambda>sl. sl\<lparr>sl_address := Some addr, sl_status := SlotRejected, sl_rejection := Some r\<rparr>) (ss_slots s)\<rparr>
     in Inr (s', m\<lparr>qm_sessions := dict_put i s' (qm_sessions m)\<rparr>))))))"

definition get_session :: "string \<Rightarrow> quorum_manager \<Rightarrow> signer_session option" where
  "get_session i m = dict_get (qm_sessions m) i"

definition mark_consumed ::
  "int \<Rightarrow> string \<Rightarrow> string option \<Rightarrow> quorum_manager \<Rightarrow> (quorum_error, signer_session \<times> quorum_manager) result" where
  "mark_consumed now i tx m =
     bind_result (get_or_throw_session i m) (\<lambda>s.
     bind_result (throw_if (ss_consumed s) SESSION_ALREADY_CONSUMED) (\<lambda>_.
     bind_result (throw_if (now > ss_expires_at s) SESSION_EXPIRED) (\<lambda>_.
     let s' = s\<lparr>ss_consumed := True, ss_consumed_at := Some now,
                ss_consumed_tx := (if truthy tx then tx else ss_consumed_tx s)\<rparr>
     in Inr (s', m\<lparr>qm_sessions := dict_put i s' (qm_sessions m)\<rparr>))))"

definition expire_sessions :: "int \<Rightarrow> quorum_manager \<Rightarrow> nat" where
  "expire_sessions now m =
     foldl (\<lambda>n s. if \<not> ss_consumed s \<and> now > ss_expires_at s then n + 1 else n) 0 (dict_values (qm_sessions m))"

section \<open>Summaries and submission\<close>

record signer_state_summary =
  st_address :: "string option"
  st_role :: signer_role
  st_status :: slot_status
  st_signed_at :: "int option"
  st_rejected_at :: "int option"
  st_reason :: "string option"

record session_summary =
  sm_id :: string
  sm_payroll_run :: string
  sm_status :: session_status
  sm_threshold :: int
  sm_signed :: int
  sm_pending :: int
  sm_rejections :: int
  sm_threshold_met :: bool
  sm_expired :: bool
  sm_consumed :: bool
  sm_remaining :: int
  sm_signers :: "signer_state_summary list"
  sm_consumed_tx :: "string option"

definition or_else :: "'a option \<Rightarrow> 'a option \<Rightarrow> 'a option" where
  "or_else x y = (case x of None \<Rightarrow> y | Some v \<Rightarrow> Some v)"

definition slot_summary :: "signer_session \<Rightarrow> signer_slot \<Rightarrow> signer_state_summary" where
  "slot_summary s sl =
     (let key = (case sl_address sl of Some a \<Rightarrow> if a = [] then None else Some (slot_key a (sl_role sl)) | None \<Rightarrow> None);
          sig = (case key of Some k \<Rightarrow> dict_get (ss_signatures s) k
                 | None \<Rightarrow> List.find (\<lambda>x. sg_role x = sl_role sl) (dict_values (ss_signatures s)));
          rej = (case key of Some k \<Rightarrow> dict_get (ss_rejections s) k
                 | None \<Rightarrow> List.find (\<lambda>x. rj_role x = sl_role sl) (dict_values (ss_rejections s)))
      in \<lparr>st_address = or_else (sl_address sl) (or_else (map_option sg_signer sig) (map_option rj_signer rej)),
          st_role = sl_role sl, st_status = sl_status sl, st_signed_at = map_option sg_signed_at sig,
          st_rejected_at = map_option rj_rejected_at rej, st_reason = map_option rj_reason rej\<rparr>)"

definition session_state :: "int \<Rightarrow> signer_session \<Rightarrow> session_status" where
  "session_state now s =
     (let signed = int (length (ss_signatures s)); rejected = int (length (ss_rejections s));
          slots = int (length (ss_required_roles s)) in
      if ss_consumed s then StatusConsumed
      else if now > ss_expires_at s then StatusExpired
      else if rejected > slots - ss_threshold s then StatusRejected
      else if signed \<ge> ss_threshold s then StatusReady
      else StatusPending)"

definition get_summary :: "int \<Rightarrow> string \<Rightarrow> quorum_manager \<Rightarrow> (quorum_error, session_summary) result" where
  "get_summary now i m =
     bind_result (get_or_throw_session i m) (\<lambda>s.
     let signed = int (length (ss_signatures s)); rejected = int (length (ss_rejections s));
         slots = int (length (ss_required_roles s)) in
     Inr \<lparr>sm_id = ss_id s, sm_payroll_run = ss_payroll_run s, sm_status = session_state now s,
       sm_threshold = ss_threshold s, sm_signed = signed, sm_pending = max 0 (slots - signed - rejected),
       sm_rejections = rejected, sm_threshold_met = (signed \<ge> ss_threshold s),
       sm_expired = (now > ss_expires_at s), sm_consumed = ss_consumed s,
       sm_remaining = max 0 (ss_expires_at s - now), sm_signers = map (slot_summary s) (ss_slots s),
       sm_consumed_tx = ss_consumed_tx s\<rparr>)"

record submission_package =
  pk_id :: string
  pk_payroll_run :: string
  pk_payload :: string
  pk_payload_hash :: string
  pk_signatures :: "signature_record list"
  pk_threshold :: int
  pk_count :: int
  pk_submitted_at :: int

definition prepare_submission_package ::
  "int \<Rightarrow> string \<Rightarrow> quorum_manager \<Rightarrow> (quorum_error, submission_package) result" where
  "prepare_submission_package now i m =
     bind_result (get_or_throw_session i m) (\<lambda>s.
     bind_result (throw_if (ss_consumed s) SESSION_ALREADY_CONSUMED) (\<lambda>_.
     bind_result (throw_if (now > ss_expires_at s) SESSION_EXPIRED) (\<lambda>_.
     let sigs = dict_values (ss_signatures s) in
     bind_result (throw_if (int (length sigs) < ss_threshold s) THRESHOLD_NOT_MET) (\<lambda>_.
     Inr \<lparr>pk_id = ss_id s, pk_payroll_run = ss_payroll_run s, pk_payload = ss_payload s,
       pk_payload_hash = ss_payload_hash s, pk_signatures = sigs, pk_threshold = ss_threshold s,
       pk_count = int (length sigs), pk_submitted_at = now\<rparr>))))"

section \<open>The manager as a state machine\<close>

datatype session_op =
  CreateSession int string create_params
| AddSignature int string signature_params
| ReplaceSignature int string signature_params
| RejectSession int string string signer_role string
| MarkConsumed int string "string option"

definition session_step ::
  "(string \<Rightarrow> string option) \<Rightarrow> session_op \<Rightarrow> quorum_manager \<Rightarrow> (quorum_error, quorum_manager) result" where
  "session_step sha x m =
     map_sum id snd
       (case x of
          CreateSession now rnd p \<Rightarrow> create_session sha now rnd p m
        | AddSignature now i p \<Rightarrow> add_signature sha now i p m
        | ReplaceSignature now i p \<Rightarrow> replace_signature sha now i p m
        | RejectSession now i addr role reason \<Rightarrow> reject_session now i addr role reason m
        | MarkConsumed now i tx \<Rightarrow> mark_consumed now i tx m)"

section \<open>Invariant\<close>

definition session_inv :: "string set \<Rightarrow> signer_session \<Rightarrow> bool" where
  "session_inv nonces s \<longleftrightarrow>
     1 \<le> ss_threshold s \<and> ss_threshold s \<le> int (length (ss_required_roles s)) \<and>
     map sl_role (ss_slots s) = ss_required_roles s \<and>
     dict_ok (ss_signatures s) \<and> dict_ok (ss_rejections s) \<and>
     (\<forall>k r. dict_get (ss_signatures s) k = Some r \<longrightarrow>
        k = slot_key (sg_signer r) (sg_role r) \<and> sg_role r \<in> set (ss_required_roles s) \<and>
        sg_payload_hash r = ss_payload_hash s \<and> sg_nonce r \<in> nonces)"

definition manager_inv :: "quorum_manager \<Rightarrow> bool" where
  "manager_inv m \<longleftrightarrow>
     dict_ok (qm_sessions m) \<and>
     (\<forall>i s. dict_get (qm_sessions m) i = Some s \<longrightarrow> ss_id s = i \<and> session_inv (set (qm_used_nonces m)) s) \<and>
     (\<forall>i s k r i' s' k' r'.
        dict_get (qm_sessions m) i = Some s \<and> dict_get (ss_signatures s) k = Some r \<and>
        dict_get (qm_sessions m) i' = Some s' \<and> dict_get (ss_signatures s') k' = Some r' \<and>
        sg_nonce r = sg_nonce r' \<longrightarrow> i = i' \<and> k = k')"

text \<open>What later operations may change in a session: nothing once it is consumed; before, only its
  slots, more signatures and rejections, and the consumption itself.\<close>

definition session_extends :: "signer_session \<Rightarrow> signer_session \<Rightarrow> bool" where
  "session_extends s t \<longleftrightarrow>
     (ss_id t, ss_payroll_run t, ss_payload t, ss_payload_hash t, ss_required_roles t, ss_threshold t,
        ss_expires_at t, ss_created_at t, ss_metadata t) =
     (ss_id s, ss_payroll_run s, ss_payload s, ss_payload_hash s, ss_required_roles s, ss_threshold s,
        ss_expires_at s, ss_created_at s, ss_metadata s) \<and>
     (ss_consumed s \<longrightarrow> t = s) \<and>
     dom (dict_get (ss_signatures s)) \<subseteq> dom (dict_get (ss_signatures t)) \<and>
     dom (dict_get (ss_rejections s)) \<subseteq> dom (dict_get (ss_rejections t))"

definition manager_below :: "quorum_manager \<Rightarrow> quorum_manager \<Rightarrow> bool" where
  "manager_below m n \<longleftrightarrow>
     set (qm_used_nonces m) \<subseteq> set (qm_used_nonces n) \<and>
     (\<forall>i s. dict_get (qm_sessions m) i = Some s \<longrightarrow>
        (\<exists>t. dict_get (qm_sessions n) i = Some t \<and> session_extends s t))"

lemma session_extends_refl: "session_extends s s"
  by (simp add: session_extends_def)

lemma session_extends_trans: "session_extends s t \<Longrightarrow> session_extends t u \<Longrightarrow> session_extends s u"
  unfolding session_extends_def
  by (elim conjE, intro conjI) (simp, blast, (rule subset_trans; assumption)+)

lemma manager_below_refl: "manager_below m m"
  by (simp add: manager_below_def session_extends_refl)

lemma manager_below_trans: "manager_below l m \<Longrightarrow> manager_below m n \<Longrightarrow> manager_below l n"
  unfolding manager_below_def by (meson session_extends_trans subset_trans)

lemma map_role_update_first:
  "(\<And>x. sl_role (f x) = sl_role x) \<Longrightarrow> map sl_role (update_first P f xs) = map sl_role xs"
  by (induction xs) simp_all

text \<open>What a successful operation has checked and written.\<close>

lemma create_session_InrD:
  assumes "create_session sha now rnd p m = Inr (s, m')"
  shows "m' = m\<lparr>qm_sessions := dict_put (ss_id s) s (qm_sessions m)\<rparr>" "dict_get (qm_sessions m) (ss_id s) = None"
    "ss_signatures s = []" "ss_rejections s = []" "\<not> ss_consumed s" "now < ss_expires_at s"
    "map sl_role (ss_slots s) = ss_required_roles s" "1 \<le> ss_threshold s"
    "ss_threshold s \<le> int (length (ss_required_roles s))"
    "ss_payload_hash s = compute_payload_hash sha (cp_payload p)" "ss_payload s = raw_payload (cp_payload p)"
  using assms by (auto simp: create_session_def Let_def result_simps comp_def)

lemma apply_signature_InrD:
  assumes "apply_signature sha now i p rep m = Inr (s', m')"
  obtains s r where "dict_get (qm_sessions m) i = Some s" "\<not> ss_consumed s" "now \<le> ss_expires_at s"
    "s' = record_signature r s" "sg_nonce r = sp_nonce p" "sg_signer r = sp_signer p" "sg_role r = sp_role p"
    "sg_payload_hash r = ss_payload_hash s" "sp_role p \<in> set (ss_required_roles s)"
    "sp_nonce p \<notin> set (qm_used_nonces m)"
    "dict_get (ss_rejections s) (slot_key (sp_signer p) (sp_role p)) = None"
    "rep \<or> dict_get (ss_signatures s) (slot_key (sp_signer p) (sp_role p)) = None"
    "m' = m\<lparr>qm_sessions := dict_put i s' (qm_sessions m), qm_used_nonces := List.insert (sp_nonce p) (qm_used_nonces m)\<rparr>"
  using assms
  by (auto simp: apply_signature_def get_or_throw_session_def assert_session_active_def Let_def result_simps
      split: option.splits)

lemma reject_session_InrD:
  assumes "reject_session now i addr role reason m = Inr (s', m')"
  obtains s r f where "dict_get (qm_sessions m) i = Some s" "\<not> ss_consumed s"
    "s' = s\<lparr>ss_rejections := dict_put (slot_key addr role) r (ss_rejections s),
        ss_slots := update_first (slot_open_to role addr) f (ss_slots s)\<rparr>"
    "\<And>x. sl_role (f x) = sl_role x"
    "m' = m\<lparr>qm_sessions := dict_put i s' (qm_sessions m)\<rparr>"
proof -
  let ?r = "\<lparr>rj_signer = addr, rj_role = role, rj_rejected_at = now, rj_reason = reason\<rparr>"
  let ?f = "\<lambda>sl. sl\<lparr>sl_address := Some addr, sl_status := SlotRejected, sl_rejection := Some ?r\<rparr>"
  show ?thesis
    using assms that [where r = ?r and f = ?f]
    by (auto simp: reject_session_def get_or_throw_session_def assert_session_active_def Let_def result_simps
        split: option.splits)
qed

lemma mark_consumed_InrD:
  assumes "mark_consumed now i tx m = Inr (s', m')"
  obtains s where "dict_get (qm_sessions m) i = Some s" "\<not> ss_consumed s" "now \<le> ss_expires_at s"
    "s' = s\<lparr>ss_consumed := True, ss_consumed_at := Some now,
        ss_consumed_tx := (if truthy tx then tx else ss_consumed_tx s)\<rparr>"
    "m' = m\<lparr>qm_sessions := dict_put i s' (qm_sessions m)\<rparr>"
  using assms
  by (auto simp: mark_consumed_def get_or_throw_session_def Let_def result_simps split: option.splits)

text \<open>Storing an extended session keeps the manager above its old state.\<close>

lemma manager_below_put:
  assumes "\<And>s. dict_get (qm_sessions m) i = Some s \<Longrightarrow> session_extends s t" "set (qm_used_nonces m) \<subseteq> set ns"
  shows "manager_below m (m\<lparr>qm_sessions := dict_put i t (qm_sessions m), qm_used_nonces := ns\<rparr>)"
  using assms by (auto simp: manager_below_def update_conv' session_extends_refl)

lemma manager_below_put':
  "(\<And>s. dict_get (qm_sessions m) i = Some s \<Longrightarrow> session_extends s t) \<Longrightarrow>
   manager_below m (m\<lparr>qm_sessions := dict_put i t (qm_sessions m)\<rparr>)"
  by (auto simp: manager_below_def update_conv' session_extends_refl)

text \<open>Storing a session whose signatures are old ones.\<close>

lemma manager_inv_put:
  assumes inv: "manager_inv m" and id: "ss_id t = i"
    and t: "session_inv (set (qm_used_nonces m)) t"
    and old: "\<And>k r. dict_get (ss_signatures t) k = Some r \<Longrightarrow>
      \<exists>s. dict_get (qm_sessions m) i = Some s \<and> dict_get (ss_signatures s) k = Some r"
  shows "manager_inv (m\<lparr>qm_sessions := dict_put i t (qm_sessions m)\<rparr>)"
proof -
  have uniq: "\<And>i s k r i' s' k' r'. dict_get (qm_sessions m) i = Some s \<Longrightarrow> dict_get (ss_signatures s) k = Some r \<Longrightarrow>
      dict_get (qm_sessions m) i' = Some s' \<Longrightarrow> dict_get (ss_signatures s') k' = Some r' \<Longrightarrow>
      sg_nonce r = sg_nonce r' \<Longrightarrow> i = i' \<and> k = k'"
    using inv unfolding manager_inv_def by blast
  have ids: "\<And>j s. dict_get (qm_sessions m) j = Some s \<Longrightarrow> ss_id s = j \<and> session_inv (set (qm_used_nonces m)) s"
    using inv unfolding manager_inv_def by blast
  let ?n = "m\<lparr>qm_sessions := dict_put i t (qm_sessions m)\<rparr>"
  have get: "dict_get (qm_sessions ?n) = (dict_get (qm_sessions m))(i \<mapsto> t)" by (simp add: update_conv')
  have earlier: "\<exists>s0. dict_get (qm_sessions m) j = Some s0 \<and> dict_get (ss_signatures s0) k = Some r"
    if "dict_get (qm_sessions ?n) j = Some s" "dict_get (ss_signatures s) k = Some r" for j s k r
  proof (cases "j = i")
    case True
    with that get have "s = t" by simp
    with that(2) old True show ?thesis by blast
  next
    case False
    with that get show ?thesis by simp
  qed
  have "dict_ok (qm_sessions ?n)" using inv by (simp add: manager_inv_def)
  moreover have "ss_id s = j \<and> session_inv (set (qm_used_nonces ?n)) s"
    if "dict_get (qm_sessions ?n) j = Some s" for j s
  proof (cases "j = i")
    case True
    with that get have "s = t" by simp
    with True id t show ?thesis by simp
  next
    case False
    with that get have "dict_get (qm_sessions m) j = Some s" by simp
    with ids show ?thesis by simp
  qed
  moreover have "j = j' \<and> k = k'"
    if "dict_get (qm_sessions ?n) j = Some s \<and> dict_get (ss_signatures s) k = Some r \<and>
        dict_get (qm_sessions ?n) j' = Some s' \<and> dict_get (ss_signatures s') k' = Some r' \<and>
        sg_nonce r = sg_nonce r'" for j s k r j' s' k' r'
    using that earlier uniq by meson
  ultimately show ?thesis unfolding manager_inv_def by blast
qed

lemma session_inv_mono: "session_inv N s \<Longrightarrow> N \<subseteq> N' \<Longrightarrow> session_inv N' s"
  unfolding session_inv_def by blast

lemma create_session_inv:
  assumes inv: "manager_inv m" and ok: "create_session sha now rnd p m = Inr (s, m')"
  shows "manager_inv m'"
proof -
  note d = create_session_InrD [OF ok]
  have "session_inv (set (qm_used_nonces m)) s" using d by (simp add: session_inv_def)
  from manager_inv_put [OF inv refl this] d show ?thesis by simp
qed

lemma reject_session_inv:
  assumes inv: "manager_inv m" and ok: "reject_session now i addr role reason m = Inr (s', m')"
  shows "manager_inv m'"
  using ok
proof (rule reject_session_InrD)
  fix s r f
  assume s: "dict_get (qm_sessions m) i = Some s"
    and s': "s' = s\<lparr>ss_rejections := dict_put (slot_key addr role) r (ss_rejections s),
        ss_slots := update_first (slot_open_to role addr) f (ss_slots s)\<rparr>"
    and f: "\<And>x. sl_role (f x) = sl_role x"
    and m': "m' = m\<lparr>qm_sessions := dict_put i s' (qm_sessions m)\<rparr>"
  from inv s have "ss_id s = i" "session_inv (set (qm_used_nonces m)) s" by (auto simp: manager_inv_def)
  then have "ss_id s' = i" "session_inv (set (qm_used_nonces m)) s'"
    by (auto simp: s' session_inv_def map_role_update_first f)
  from manager_inv_put [OF inv this] s show ?thesis by (simp add: m') (simp add: s')
qed

lemma mark_consumed_inv:
  assumes inv: "manager_inv m" and ok: "mark_consumed now i tx m = Inr (s', m')"
  shows "manager_inv m'"
  using ok
proof (rule mark_consumed_InrD)
  fix s
  assume s: "dict_get (qm_sessions m) i = Some s"
    and s': "s' = s\<lparr>ss_consumed := True, ss_consumed_at := Some now,
        ss_consumed_tx := (if truthy tx then tx else ss_consumed_tx s)\<rparr>"
    and m': "m' = m\<lparr>qm_sessions := dict_put i s' (qm_sessions m)\<rparr>"
  from inv s have "ss_id s = i" "session_inv (set (qm_used_nonces m)) s" by (auto simp: manager_inv_def)
  then have "ss_id s' = i" "session_inv (set (qm_used_nonces m)) s'" by (auto simp: s' session_inv_def)
  from manager_inv_put [OF inv this] s show ?thesis by (simp add: m') (simp add: s')
qed

lemma apply_signature_inv:
  assumes inv: "manager_inv m" and ok: "apply_signature sha now i p rep m = Inr (s', m')"
  shows "manager_inv m'"
  using ok
proof (rule apply_signature_InrD)
  fix s r
  assume s: "dict_get (qm_sessions m) i = Some s" and s': "s' = record_signature r s"
    and r: "sg_nonce r = sp_nonce p" "sg_signer r = sp_signer p" "sg_role r = sp_role p"
    "sg_payload_hash r = ss_payload_hash s" "sp_role p \<in> set (ss_required_roles s)"
    and fresh: "sp_nonce p \<notin> set (qm_used_nonces m)"
    and m': "m' = m\<lparr>qm_sessions := dict_put i s' (qm_sessions m), qm_used_nonces := List.insert (sp_nonce p) (qm_used_nonces m)\<rparr>"
  let ?k = "slot_key (sg_signer r) (sg_role r)"
  have get: "dict_get (qm_sessions m') = (dict_get (qm_sessions m))(i \<mapsto> s')" by (simp add: m' update_conv')
  have sigs: "dict_get (ss_signatures s') = (dict_get (ss_signatures s))(?k \<mapsto> r)"
    by (simp add: s' record_signature_def update_conv')
  have nonces: "set (qm_used_nonces m') = Set.insert (sp_nonce p) (set (qm_used_nonces m))" by (simp add: m')
  from inv s have ids: "ss_id s = i" and si: "session_inv (set (qm_used_nonces m)) s" by (auto simp: manager_inv_def)
  have used: "sg_nonce q \<in> set (qm_used_nonces m)"
    if "dict_get (qm_sessions m) j = Some t" "dict_get (ss_signatures t) k = Some q" for j t k q
    using inv that by (auto simp: manager_inv_def session_inv_def)
  have si': "session_inv (set (qm_used_nonces m')) s'"
    using si r sigs unfolding session_inv_def nonces
    by (auto simp: s' record_signature_def map_role_update_first split: if_splits)
  have "dict_ok (qm_sessions m')" using inv by (simp add: m' manager_inv_def)
  moreover have "ss_id t = j \<and> session_inv (set (qm_used_nonces m')) t" if "dict_get (qm_sessions m') j = Some t" for j t
  proof (cases "j = i")
    case True
    with that get have "t = s'" by simp
    moreover have "ss_id s' = i" by (simp add: s' record_signature_def ids)
    ultimately show ?thesis using si' True by simp
  next
    case False
    with that get have "dict_get (qm_sessions m) j = Some t" by simp
    with inv have "ss_id t = j" "session_inv (set (qm_used_nonces m)) t" by (auto simp: manager_inv_def)
    then show ?thesis using nonces session_inv_mono by blast
  qed
  moreover have "j = j' \<and> k = k'"
    if "dict_get (qm_sessions m') j = Some t \<and> dict_get (ss_signatures t) k = Some q \<and>
        dict_get (qm_sessions m') j' = Some t' \<and> dict_get (ss_signatures t') k' = Some q' \<and>
        sg_nonce q = sg_nonce q'" for j t k q j' t' k' q'
  proof -
    have new: "(j = i \<and> k = ?k \<and> q = r) \<or>
        (\<exists>u. dict_get (qm_sessions m) j = Some u \<and> dict_get (ss_signatures u) k = Some q)"
      if "dict_get (qm_sessions m') j = Some t" "dict_get (ss_signatures t) k = Some q" for j t k q
    proof (cases "j = i")
      case True
      with that(1) get have "t = s'" by simp
      with that(2) sigs have "((dict_get (ss_signatures s))(?k \<mapsto> r)) k = Some q" by simp
      with True s show ?thesis by (cases "k = ?k") auto
    next
      case False
      with that get show ?thesis by simp
    qed
    have clash: False if "dict_get (qm_sessions m) j = Some u" "dict_get (ss_signatures u) k = Some q" "sg_nonce q = sg_nonce r"
      for j u k q
      using used [OF that(1,2)] that(3) fresh r(1) by simp
    have uniq: "j = j' \<and> k = k'"
      if "dict_get (qm_sessions m) j = Some u" "dict_get (ss_signatures u) k = Some q"
        "dict_get (qm_sessions m) j' = Some u'" "dict_get (ss_signatures u') k' = Some q'" "sg_nonce q = sg_nonce q'"
      for j u k q j' u' k' q'
      using inv that unfolding manager_inv_def by blast
    from that have n: "sg_nonce q = sg_nonce q'" by blast
    from that have "(j = i \<and> k = ?k \<and> q = r) \<or>
        (\<exists>u. dict_get (qm_sessions m) j = Some u \<and> dict_get (ss_signatures u) k = Some q)"
      by (intro new) auto
    moreover from that have "(j' = i \<and> k' = ?k \<and> q' = r) \<or>
        (\<exists>u. dict_get (qm_sessions m) j' = Some u \<and> dict_get (ss_signatures u) k' = Some q')"
      by (intro new) auto
    ultimately show ?thesis using clash n uniq by metis
  qed
  ultimately show ?thesis unfolding manager_inv_def by blast
qed

lemma session_step_inv: "manager_inv m \<Longrightarrow> session_step sha x m = Inr m' \<Longrightarrow> manager_inv m'"
  by (cases x)
    (auto simp: session_step_def add_signature_def replace_signature_def map_sum_def
      dest: create_session_inv apply_signature_inv reject_session_inv mark_consumed_inv split: sum.splits)

lemma session_step_below: "session_step sha x m = Inr m' \<Longrightarrow> manager_below m m'"
proof -
  have create: "manager_below m m'" if "create_session sha now rnd p m = Inr (s, m')" for now rnd p s m'
    using create_session_InrD(1,2) [OF that] by (auto intro: manager_below_put')
  have apply': "manager_below m m'" if "apply_signature sha now i p rep m = Inr (s', m')" for now i p rep s' m'
    using that
    by (rule apply_signature_InrD)
      (auto intro!: manager_below_put simp: session_extends_def record_signature_def update_conv')
  have reject: "manager_below m m'" if "reject_session now i a ro re m = Inr (s', m')" for now i a ro re s' m'
    using that
    by (rule reject_session_InrD) (auto intro!: manager_below_put' simp: session_extends_def update_conv')
  have mark: "manager_below m m'" if "mark_consumed now i tx m = Inr (s', m')" for now i tx s' m'
    using that by (rule mark_consumed_InrD) (auto intro!: manager_below_put' simp: session_extends_def)
  show "session_step sha x m = Inr m' \<Longrightarrow> manager_below m m'"
    by (cases x)
      (auto simp: session_step_def add_signature_def replace_signature_def map_sum_def
        dest: create apply' reject mark split: sum.splits)
qed

interpretation quorum: monotone_machine "session_step sha" manager_inv manager_below for sha
  by unfold_locales
    (auto simp: manager_below_refl intro: manager_below_trans session_step_inv session_step_below)

lemma new_manager_inv: "manager_inv (new_manager d x)"
  by (simp add: manager_inv_def new_manager_def)

section \<open>Properties\<close>

abbreviation session_run :: "(string \<Rightarrow> string option) \<Rightarrow> int option \<Rightarrow> int option \<Rightarrow> session_op list \<Rightarrow> quorum_manager" where
  "session_run sha d x ops \<equiv> run_ops (session_step sha) ops (new_manager d x)"

lemma session_run_inv: "manager_inv (session_run sha d x ops)"
  by (rule quorum.run_inv [OF new_manager_inv])

lemma get_session_inv:
  "manager_inv m \<Longrightarrow> dict_get (qm_sessions m) i = Some s \<Longrightarrow> ss_id s = i \<and> session_inv (set (qm_used_nonces m)) s"
  unfolding manager_inv_def by blast

lemma distinct_dict_values:
  assumes ok: "dict_ok d"
    and inj: "\<And>k r k' r'. (k, r) \<in> set d \<Longrightarrow> (k', r') \<in> set d \<Longrightarrow> f r = f r' \<Longrightarrow> k = k'"
  shows "distinct (map f (dict_values d))"
proof -
  have "inj_on (f \<circ> snd) (set d)"
  proof (rule inj_onI)
    fix p q assume p: "p \<in> set d" and q: "q \<in> set d" and eq: "(f \<circ> snd) p = (f \<circ> snd) q"
    then have "fst p = fst q" using inj [of "fst p" "snd p" "fst q" "snd q"] by simp
    with p q ok show "p = q" unfolding dict_ok_def by (metis eq_key_imp_eq_value prod.collapse)
  qed
  with ok show ?thesis by (simp add: dict_values_def dict_ok_def distinct_map)
qed

lemma distinct_nonces:
  assumes inv: "manager_inv m" and s: "dict_get (qm_sessions m) i = Some s"
  shows "distinct (map sg_nonce (dict_values (ss_signatures s)))"
    "distinct (map (\<lambda>r. (sg_signer r, sg_role r)) (dict_values (ss_signatures s)))"
proof -
  have si: "session_inv (set (qm_used_nonces m)) s" using get_session_inv [OF inv s] by blast
  then have ok: "dict_ok (ss_signatures s)" by (simp add: session_inv_def)
  have key: "k = slot_key (sg_signer r) (sg_role r)" if "(k, r) \<in> set (ss_signatures s)" for k r
    using that si ok by (simp add: session_inv_def dict_ok_def)
  have uniq: "k = k'" if "(k, r) \<in> set (ss_signatures s)" "(k', r') \<in> set (ss_signatures s)" "sg_nonce r = sg_nonce r'"
    for k r k' r'
    using that inv s ok unfolding manager_inv_def dict_ok_def by (metis map_of_is_SomeI)
  show "distinct (map sg_nonce (dict_values (ss_signatures s)))"
    using uniq by (rule distinct_dict_values [OF ok])
  show "distinct (map (\<lambda>r. (sg_signer r, sg_role r)) (dict_values (ss_signatures s)))"
    by (rule distinct_dict_values [OF ok]) (metis key prod.inject)
qed

text \<open>Every session comes from the creation that made it: nothing later changes its run, payload, hash or roles.\<close>

definition created_with :: "(string \<Rightarrow> string option) \<Rightarrow> create_params \<Rightarrow> signer_session \<Rightarrow> bool" where
  "created_with sha cp s \<longleftrightarrow>
     ss_payroll_run s = cp_payroll_run cp \<and> ss_payload s = raw_payload (cp_payload cp) \<and>
     ss_payload_hash s = compute_payload_hash sha (cp_payload cp) \<and> ss_required_roles s = cp_required_roles cp"

lemma create_session_created:
  "create_session sha now rnd p m = Inr (s, m') \<Longrightarrow> created_with sha p s"
  by (auto simp: create_session_def created_with_def Let_def result_simps)

lemma session_step_creates:
  assumes step: "session_step sha x m = Inr m'" and s: "dict_get (qm_sessions m') i = Some s"
    and fresh: "dict_get (qm_sessions m) i = None"
  shows "\<exists>now rnd cp. x = CreateSession now rnd cp \<and> created_with sha cp s"
proof (cases x)
  case (CreateSession now rnd cp)
  then obtain t where t: "create_session sha now rnd cp m = Inr (t, m')"
    using step by (auto simp: session_step_def map_sum_def split: sum.splits)
  then have "s = t" using s fresh create_session_InrD(1) [OF t] by (auto simp: update_conv' split: if_splits)
  then show ?thesis using create_session_created [OF t] CreateSession by blast
next
  case (AddSignature now j p)
  then obtain t where "apply_signature sha now j p False m = Inr (t, m')"
    using step by (auto simp: session_step_def add_signature_def map_sum_def split: sum.splits)
  then show ?thesis by (rule apply_signature_InrD) (use s fresh in \<open>auto simp: update_conv' split: if_splits\<close>)
next
  case (ReplaceSignature now j p)
  then obtain t where "apply_signature sha now j p True m = Inr (t, m')"
    using step by (auto simp: session_step_def replace_signature_def map_sum_def split: sum.splits)
  then show ?thesis by (rule apply_signature_InrD) (use s fresh in \<open>auto simp: update_conv' split: if_splits\<close>)
next
  case (RejectSession now j addr role reason)
  then obtain t where "reject_session now j addr role reason m = Inr (t, m')"
    using step by (auto simp: session_step_def map_sum_def split: sum.splits)
  then show ?thesis by (rule reject_session_InrD) (use s fresh in \<open>auto simp: update_conv' split: if_splits\<close>)
next
  case (MarkConsumed now j tx)
  then obtain t where "mark_consumed now j tx m = Inr (t, m')"
    using step by (auto simp: session_step_def map_sum_def split: sum.splits)
  then show ?thesis by (rule mark_consumed_InrD) (use s fresh in \<open>auto simp: update_conv' split: if_splits\<close>)
qed

lemma session_run_created:
  "dict_get (qm_sessions (session_run sha d x ops)) i = Some s \<Longrightarrow>
   \<exists>now rnd cp. CreateSession now rnd cp \<in> set ops \<and> created_with sha cp s"
proof (induction ops arbitrary: s rule: rev_induct)
  case Nil
  then show ?case by (simp add: new_manager_def)
next
  case (snoc op ops)
  let ?m = "session_run sha d x ops"
  show ?case
  proof (cases "session_step sha op ?m")
    case (Inl e)
    then show ?thesis using snoc by (fastforce simp: run_ops_append)
  next
    case (Inr m')
    then have s: "dict_get (qm_sessions m') i = Some s" using snoc.prems by (simp add: run_ops_append)
    show ?thesis
    proof (cases "dict_get (qm_sessions ?m) i")
      case None
      then show ?thesis using session_step_creates [OF Inr s] by auto
    next
      case (Some s0)
      then obtain now rnd cp where cp: "CreateSession now rnd cp \<in> set ops" "created_with sha cp s0" using snoc.IH by blast
      have "session_extends s0 s" using session_step_below [OF Inr] Some s unfolding manager_below_def by (metis option.inject)
      then have "created_with sha cp s" using cp(2) by (simp add: created_with_def session_extends_def)
      then show ?thesis using cp(1) by auto
    qed
  qed
qed

text \<open>
  C3: whatever the manager has been through, a submission package is prepared only for a session that is
  neither consumed nor expired, and it carries at least the threshold (itself at least 1) of signatures,
  by distinct signer and role pairs, with distinct nonces, all for a role that was required when the session was
  created. The package is for the payroll run and the payload the session was created with, its hash is the one computed
  from that payload then (over its top level keys), and every signature is over this hash.
\<close>

theorem submission_package_sound:
  assumes "prepare_submission_package now i (session_run sha d x ops) = Inr pk"
  shows "\<exists>s t rnd cp. get_session i (session_run sha d x ops) = Some s \<and> \<not> ss_consumed s \<and> now \<le> ss_expires_at s \<and>
    CreateSession t rnd cp \<in> set ops \<and> pk_payroll_run pk = cp_payroll_run cp \<and>
    pk_payload pk = raw_payload (cp_payload cp) \<and> pk_payload_hash pk = compute_payload_hash sha (cp_payload cp) \<and>
    1 \<le> pk_threshold pk \<and> pk_threshold pk \<le> int (length (pk_signatures pk)) \<and>
    distinct (map (\<lambda>r. (sg_signer r, sg_role r)) (pk_signatures pk)) \<and> distinct (map sg_nonce (pk_signatures pk)) \<and>
    (\<forall>r \<in> set (pk_signatures pk). sg_payload_hash r = pk_payload_hash pk \<and> sg_role r \<in> set (cp_required_roles cp))"
proof -
  let ?m = "session_run sha d x ops"
  from assms obtain s where s: "dict_get (qm_sessions ?m) i = Some s" and f: "\<not> ss_consumed s" "now \<le> ss_expires_at s"
    and pk: "pk_payload pk = ss_payload s" "pk_payload_hash pk = ss_payload_hash s" "pk_payroll_run pk = ss_payroll_run s"
      "pk_signatures pk = dict_values (ss_signatures s)" "pk_threshold pk = ss_threshold s"
    and n: "ss_threshold s \<le> int (length (dict_values (ss_signatures s)))"
    by (auto simp: prepare_submission_package_def get_or_throw_session_def Let_def result_simps split: option.splits)
  obtain t rnd cp where cp: "CreateSession t rnd cp \<in> set ops" "created_with sha cp s"
    using session_run_created [OF s] by blast
  note inv = session_run_inv [of sha ops d x]
  have si: "session_inv (set (qm_used_nonces ?m)) s" using get_session_inv [OF inv s] by blast
  then have "sg_payload_hash r = ss_payload_hash s \<and> sg_role r \<in> set (ss_required_roles s)"
    if "r \<in> set (dict_values (ss_signatures s))" for r
    using that by (auto simp: session_inv_def in_dict_values_iff)
  moreover have "1 \<le> ss_threshold s" using si by (simp add: session_inv_def)
  ultimately show ?thesis using s f pk n cp distinct_nonces [OF inv s] by (auto simp: get_session_def created_with_def)
qed

text \<open>
  consumption is final: once a session is consumed, no sequence of operations changes anything in it,
  and no signature, rejection, second consumption or package can be had for it.
\<close>

theorem consumed_session_is_final:
  fixes sha ops
  assumes inv: "manager_inv m" and s: "get_session i m = Some s" "ss_consumed s"
  defines "m' \<equiv> run_ops (session_step sha) ops m"
  shows "get_session i m' = Some s \<and>
    apply_signature sha now i p rep m' = Inl SESSION_ALREADY_CONSUMED \<and>
    reject_session now i addr role reason m' = Inl SESSION_ALREADY_CONSUMED \<and>
    mark_consumed now i tx m' = Inl SESSION_ALREADY_CONSUMED \<and>
    prepare_submission_package now i m' = Inl SESSION_ALREADY_CONSUMED"
proof -
  have "manager_below m m'" unfolding m'_def by (rule quorum.run_below [OF inv])
  with s have "dict_get (qm_sessions m') i = Some s"
    by (auto simp: manager_below_def session_extends_def get_session_def)
  with s show ?thesis
    by (simp add: get_session_def apply_signature_def reject_session_def mark_consumed_def
        prepare_submission_package_def get_or_throw_session_def assert_session_active_def)
qed

text \<open>
  a nonce authorises one signature only: after a signature with it was accepted, no later operation
  sequence makes the manager accept it again, in any session.
\<close>

theorem nonce_accepted_once:
  assumes inv: "manager_inv m" and ok: "apply_signature sha now i p rep m = Inr (s, m')"
    and same: "sp_nonce q = sp_nonce p"
  shows "\<not> is_ok (apply_signature sha now' j q rep' (run_ops (session_step sha) ops m'))"
proof -
  let ?n = "run_ops (session_step sha) ops m'"
  have "manager_inv m'" using apply_signature_inv [OF inv ok] .
  then have "manager_below m' ?n" by (rule quorum.run_below)
  moreover have "sp_nonce p \<in> set (qm_used_nonces m')"
    using ok by (rule apply_signature_InrD) simp
  ultimately have used: "sp_nonce q \<in> set (qm_used_nonces ?n)" using same by (auto simp: manager_below_def)
  show ?thesis
  proof
    assume "is_ok (apply_signature sha now' j q rep' ?n)"
    then obtain t n' where "apply_signature sha now' j q rep' ?n = Inr (t, n')" by (auto simp: is_ok_iff)
    then show False by (rule apply_signature_InrD) (use used in simp)
  qed
qed

text \<open>
  a rejection is final for its signer and role: no later sequence of operations lets that signer sign
  the session in that role.
\<close>

theorem rejection_blocks_signature:
  assumes inv: "manager_inv m" and ok: "reject_session now i addr role reason m = Inr (s, m')"
    and q: "sp_signer q = addr" "sp_role q = role"
  shows "\<not> is_ok (apply_signature sha now' i q rep (run_ops (session_step sha) ops m'))"
proof -
  let ?n = "run_ops (session_step sha) ops m'"
  have "manager_inv m'" using reject_session_inv [OF inv ok] .
  then have below: "manager_below m' ?n" by (rule quorum.run_below)
  from ok obtain r where "dict_get (qm_sessions m') i = Some s" "dict_get (ss_rejections s) (slot_key addr role) = Some r"
    by (rule reject_session_InrD) (simp add: update_conv')
  with below obtain t where t: "dict_get (qm_sessions ?n) i = Some t"
    "slot_key addr role \<in> dom (dict_get (ss_rejections t))"
    unfolding manager_below_def session_extends_def by blast
  show ?thesis
  proof
    assume "is_ok (apply_signature sha now' i q rep ?n)"
    then obtain u n' where "apply_signature sha now' i q rep ?n = Inr (u, n')" by (auto simp: is_ok_iff)
    then show False by (rule apply_signature_InrD) (use t q in auto)
  qed
qed

lemma update_first_none: "\<forall>x \<in> set xs. \<not> P x \<Longrightarrow> update_first P f xs = xs"
  by (induction xs) simp_all

text \<open>
  an assigned signer is not enforced: where the slots of a role are assigned to others, a signature by
  anyone else in that role is still recorded and counts towards the threshold, while no slot changes.
\<close>

theorem unassigned_signer_counts:
  assumes s: "get_session i m = Some s" "\<not> ss_consumed s" "now \<le> ss_expires_at s"
    and p: "\<not> blank (sp_signer p)" "\<not> blank (sp_hex p)" "\<not> blank (sp_nonce p)" "sp_payload p = None"
      "sp_nonce p \<notin> set (qm_used_nonces m)" "sp_role p \<in> set (ss_required_roles s)"
    and none: "dict_get (ss_signatures s) (slot_key (sp_signer p) (sp_role p)) = None"
      "dict_get (ss_rejections s) (slot_key (sp_signer p) (sp_role p)) = None"
    and assigned: "\<forall>sl \<in> set (ss_slots s). sl_role sl = sp_role p \<longrightarrow>
      truthy (sl_address sl) \<and> sl_address sl \<noteq> Some (sp_signer p)"
  shows "\<exists>s' m'. add_signature sha now i p m = Inr (s', m') \<and> ss_slots s' = ss_slots s \<and>
    length (ss_signatures s') = length (ss_signatures s) + 1"
proof -
  have "\<forall>sl \<in> set (ss_slots s). \<not> slot_open_to (sp_role p) (sp_signer p) sl"
    using assigned by (auto simp: slot_open_to_def)
  with s p none show ?thesis
    by (simp add: add_signature_def apply_signature_def get_session_def get_or_throw_session_def
        assert_session_active_def Let_def record_signature_def update_first_none length_dict_put)
qed

text \<open>
  a session whose rejections have made the quorum impossible is reported as rejected, but if the
  signatures were there before, a package for it is still prepared.
\<close>

theorem rejected_session_still_submits:
  assumes s: "get_session i m = Some s" "\<not> ss_consumed s" "now \<le> ss_expires_at s"
    and r: "int (length (ss_rejections s)) > int (length (ss_required_roles s)) - ss_threshold s"
    and q: "ss_threshold s \<le> int (length (ss_signatures s))"
  shows "map_sum id sm_status (get_summary now i m) = Inr StatusRejected \<and>
    is_ok (prepare_submission_package now i m)"
  using assms
  by (simp add: get_summary_def prepare_submission_package_def get_session_def get_or_throw_session_def
      session_state_def Let_def dict_values_def)

text \<open>
  the payload hash ignores what is nested: with the sorted top-level keys as the replacer array, a
  nested key that is not also a top-level key is not hashed, so payloads that differ there have the same
  hash and a signature over the one passes the check for the other.
\<close>

theorem nested_keys_not_hashed:
  assumes "a \<noteq> k"
  shows "compute_payload_hash sha (ObjectPayload [(k, JObj [(a, v)])]) =
    compute_payload_hash sha (ObjectPayload [(k, JObj [])])"
proof -
  have "canonical_payload (ObjectPayload [(k, JObj [(a, v)])]) = canonical_payload (ObjectPayload [(k, JObj [])])"
    using assms by (simp add: canonical_payload_def Let_def)
  then show ?thesis unfolding compute_payload_hash_def by (simp only:)
qed

section \<open>A worked session\<close>

text \<open>Two roles, the first assigned to \<open>GA\<close>, threshold one; the digest is the identity.\<close>

definition example_params :: create_params where
  "example_params = \<lparr>cp_session_id = Some ''s1'', cp_payroll_run = ''r1'', cp_payload = TextPayload ''pay'',
     cp_required_roles = [PayrollAdmin, TreasuryOperator], cp_threshold = Some 1, cp_ttl = None,
     cp_expires_at = None, cp_assigned = [(PayrollAdmin, ''GA'')], cp_metadata = None\<rparr>"

definition example_signature :: "string \<Rightarrow> string \<Rightarrow> signature_params" where
  "example_signature addr nonce = \<lparr>sp_signer = addr, sp_role = PayrollAdmin, sp_hex = ''ab'', sp_payload = None,
     sp_nonce = nonce, sp_timestamp = None\<rparr>"

definition example_run :: "session_op list \<Rightarrow> quorum_manager" where
  "example_run ops = session_run Some None None (CreateSession 0 [] example_params # ops)"

abbreviation signed_once :: quorum_manager where
  "signed_once \<equiv> example_run [AddSignature 1 ''s1'' (example_signature ''GA'' ''n1'')]"

lemma example_run_inv: "manager_inv (example_run ops)"
  unfolding example_run_def by (rule session_run_inv)

theorem submission_package_sound_witness:
  "\<exists>pk. prepare_submission_package 2 ''s1'' signed_once = Inr pk \<and> 1 \<le> length (pk_signatures pk)"
proof -
  have "is_ok (prepare_submission_package 2 ''s1'' signed_once)" by code_simp
  then obtain pk where "prepare_submission_package 2 ''s1'' signed_once = Inr pk" by (auto simp: is_ok_iff)
  with submission_package_sound [where now = 2 and i = "''s1''" and sha = Some and d = None and x = None and pk = pk] show ?thesis
    unfolding example_run_def by fastforce
qed

theorem consumed_session_is_final_witness:
  "prepare_submission_package 4 ''s1''
     (run_ops (session_step Some) [RejectSession 3 ''s1'' ''GA'' PayrollAdmin ''no'']
       (example_run [MarkConsumed 2 ''s1'' None])) = Inl SESSION_ALREADY_CONSUMED"
proof -
  let ?m = "example_run [MarkConsumed 2 ''s1'' None]"
  have "map_option ss_consumed (get_session ''s1'' ?m) = Some True" by code_simp
  then obtain s where "get_session ''s1'' ?m = Some s" "ss_consumed s" by auto
  from consumed_session_is_final [OF example_run_inv this] show ?thesis by blast
qed

theorem nonce_accepted_once_witness:
  "\<not> is_ok (apply_signature Some 5 ''s1'' (example_signature ''GB'' ''n1'') False signed_once)"
proof -
  have "is_ok (apply_signature Some 1 ''s1'' (example_signature ''GA'' ''n1'') False (example_run []))" by code_simp
  then obtain s m' where ok: "apply_signature Some 1 ''s1'' (example_signature ''GA'' ''n1'') False (example_run []) = Inr (s, m')"
    by (auto simp: is_ok_iff)
  then have "signed_once = m'" by (simp add: example_run_def session_step_def add_signature_def)
  moreover have "sp_nonce (example_signature ''GB'' ''n1'') = sp_nonce (example_signature ''GA'' ''n1'')"
    by (simp add: example_signature_def)
  ultimately show ?thesis using nonce_accepted_once [OF example_run_inv ok, of _ 5 "''s1''" False "[]"] by simp
qed

theorem rejection_blocks_signature_witness:
  "\<not> is_ok (apply_signature Some 5 ''s1'' (example_signature ''GA'' ''n1'') False
     (example_run [RejectSession 2 ''s1'' ''GA'' PayrollAdmin ''no'']))"
proof -
  have "is_ok (reject_session 2 ''s1'' ''GA'' PayrollAdmin ''no'' (example_run []))" by code_simp
  then obtain s m' where ok: "reject_session 2 ''s1'' ''GA'' PayrollAdmin ''no'' (example_run []) = Inr (s, m')"
    by (auto simp: is_ok_iff)
  then have "example_run [RejectSession 2 ''s1'' ''GA'' PayrollAdmin ''no''] = m'"
    by (simp add: example_run_def session_step_def)
  with rejection_blocks_signature [OF example_run_inv ok, of "example_signature ''GA'' ''n1''" Some 5 False "[]"]
  show ?thesis by (simp add: example_signature_def)
qed

text \<open>The session as created.\<close>

lemma example_session:
  "get_session ''s1'' (example_run []) = Some
     \<lparr>ss_id = ''s1'', ss_payroll_run = ''r1'', ss_payload = ''pay'', ss_payload_hash = ''pay'',
      ss_required_roles = [PayrollAdmin, TreasuryOperator], ss_threshold = 1,
      ss_slots = [\<lparr>sl_address = Some ''GA'', sl_role = PayrollAdmin, sl_weight = 1, sl_status = SlotPending,
          sl_signature = None, sl_rejection = None\<rparr>,
        \<lparr>sl_address = None, sl_role = TreasuryOperator, sl_weight = 1, sl_status = SlotPending,
          sl_signature = None, sl_rejection = None\<rparr>],
      ss_expires_at = 86400000, ss_created_at = 0, ss_consumed = False, ss_consumed_at = None,
      ss_consumed_tx = None, ss_signatures = [], ss_rejections = [], ss_metadata = None\<rparr>"
  by code_simp

theorem unassigned_signer_counts_witness:
  "\<exists>s' m'. add_signature Some 1 ''s1'' (example_signature ''GX'' ''n1'') (example_run []) = Inr (s', m') \<and>
     length (ss_signatures s') = 1"
proof -
  let ?p = "example_signature ''GX'' ''n1''"
  have "\<not> blank (sp_signer ?p)" "\<not> blank (sp_hex ?p)" "\<not> blank (sp_nonce ?p)"
    "sp_nonce ?p \<notin> set (qm_used_nonces (example_run []))" by code_simp+
  moreover have "sp_payload ?p = None" "sp_role ?p = PayrollAdmin" "sp_signer ?p = ''GX''"
    by (simp_all add: example_signature_def)
  ultimately show ?thesis
    using unassigned_signer_counts [OF example_session, of 1 ?p Some] by force
qed

theorem rejected_session_still_submits_witness:
  "let m = example_run [AddSignature 1 ''s1'' (example_signature ''GA'' ''n1''),
        RejectSession 2 ''s1'' ''GA'' PayrollAdmin ''no'', RejectSession 2 ''s1'' ''GB'' TreasuryOperator ''no'']
   in map_sum id sm_status (get_summary 3 ''s1'' m) = Inr StatusRejected \<and>
      is_ok (prepare_submission_package 3 ''s1'' m)"
proof -
  let ?m = "example_run [AddSignature 1 ''s1'' (example_signature ''GA'' ''n1''),
        RejectSession 2 ''s1'' ''GA'' PayrollAdmin ''no'', RejectSession 2 ''s1'' ''GB'' TreasuryOperator ''no'']"
  have "map_option (\<lambda>s. (ss_consumed s, ss_expires_at s, length (ss_rejections s), length (ss_required_roles s),
      ss_threshold s, length (ss_signatures s))) (get_session ''s1'' ?m) = Some (False, 86400000, 2, 2, 1, 1)"
    by code_simp
  then obtain s where "get_session ''s1'' ?m = Some s" "\<not> ss_consumed s" "ss_expires_at s = 86400000"
    "length (ss_rejections s) = 2" "length (ss_required_roles s) = 2" "ss_threshold s = 1"
    "length (ss_signatures s) = 1" by auto
  with rejected_session_still_submits [of "''s1''" ?m s 3] show ?thesis by (simp add: Let_def)
qed

theorem nested_keys_not_hashed_witness:
  "compute_payload_hash Some (ObjectPayload [(''to'', JObj [(''amount'', JInt 5)])]) =
   compute_payload_hash Some (ObjectPayload [(''to'', JObj [])])"
  by (rule nested_keys_not_hashed) simp

end
