(* ===== verification/WalletRotation.thy ===== *)
theory WalletRotation
  imports Prelude
begin

text \<open>
  Validation of employee wallet rotations (\<open>packages/core/src/employees/walletRotation.ts\<close>). The address
  check of the Stellar SDK is the argument \<open>strkey\<close>, which gives no answer where the function is missing
  or throws; then the code's own pattern decides.
\<close>

section \<open>Reasons\<close>

datatype rotation_code =
  MISSING_NEW_WALLET | INVALID_NEW_WALLET_FORMAT | NEW_WALLET_SAME_AS_CURRENT | COOLDOWN_ACTIVE
| ACTIVE_BATCH_IN_PROGRESS | UNAUTHORIZED_REQUESTER | MISSING_AUTHORIZATION_CONTEXT
| DUPLICATE_PENDING_ROTATION | EMERGENCY_OVERRIDE_APPLIED

fun reason_description :: "rotation_code \<Rightarrow> string" where
  "reason_description MISSING_NEW_WALLET = ''No new wallet address was provided.''"
| "reason_description INVALID_NEW_WALLET_FORMAT = ''The new wallet address is not a valid Stellar account address.''"
| "reason_description NEW_WALLET_SAME_AS_CURRENT =
     ''The new wallet address is identical to the employee's current wallet.''"
| "reason_description COOLDOWN_ACTIVE = ''A wallet rotation cooldown period is still active for this employee.''"
| "reason_description ACTIVE_BATCH_IN_PROGRESS =
     ''A payroll batch involving this employee is currently in progress.''"
| "reason_description UNAUTHORIZED_REQUESTER =
     ''The requesting account is not authorized to rotate this employee's wallet.''"
| "reason_description MISSING_AUTHORIZATION_CONTEXT =
     ''No authorization context was supplied for this rotation request.''"
| "reason_description DUPLICATE_PENDING_ROTATION = ''A rotation request for this employee is already pending.''"
| "reason_description EMERGENCY_OVERRIDE_APPLIED =
     ''An emergency override bypassed one or more standard rotation checks.''"

fun reason_action :: "rotation_code \<Rightarrow> string" where
  "reason_action MISSING_NEW_WALLET = ''Provide the new wallet address and resubmit.''"
| "reason_action INVALID_NEW_WALLET_FORMAT =
     ''Provide a valid Stellar Ed25519 public key (G...) or contract address (C...).''"
| "reason_action NEW_WALLET_SAME_AS_CURRENT =
     ''Provide a different wallet address, or cancel this request if no change is needed.''"
| "reason_action COOLDOWN_ACTIVE =
     ''Wait until the cooldown period elapses, or request an emergency override with elevated authorization.''"
| "reason_action ACTIVE_BATCH_IN_PROGRESS =
     ''Wait for the in-progress payroll batch to settle before rotating this employee's wallet.''"
| "reason_action UNAUTHORIZED_REQUESTER =
     ''Have an authorized admin or the employee themselves submit this request.''"
| "reason_action MISSING_AUTHORIZATION_CONTEXT =
     ''Supply the requester's role and identity in the authorization context.''"
| "reason_action DUPLICATE_PENDING_ROTATION =
     ''Cancel the existing pending rotation before submitting a new one, or wait for it to resolve.''"
| "reason_action EMERGENCY_OVERRIDE_APPLIED =
     ''Review the override justification and confirm it was authorized by an admin.''"

datatype rotation_severity = SevError | SevWarning

datatype rotation_details = NoDetails | CooldownRemaining int | RoleDetails string "string list"

record rotation_reason =
  rr_code :: rotation_code
  rr_message :: string
  rr_field :: string
  rr_severity :: rotation_severity
  rr_action :: string
  rr_details :: rotation_details

record rotation_authorization =
  ra_role :: string
  ra_address :: "string option"
  ra_allowed_roles :: "string list option"

record rotation_request =
  rq_employee_id :: string
  rq_current_wallet :: "string option"
  rq_new_wallet :: "string option"
  rq_last_rotated_at :: "int option"
  rq_active_batch :: bool
  rq_pending_rotation :: bool
  rq_authorization :: "rotation_authorization option"
  rq_emergency_override :: bool

record rotation_options =
  rp_cooldown :: "int option"
  rp_reference :: int
  rp_allowed_roles :: "string list option"
  rp_require_authorization :: "bool option"

record rotation_result =
  rs_employee_id :: string
  rs_valid :: bool
  rs_reasons :: "rotation_reason list"
  rs_blockers :: "rotation_reason list"
  rs_warnings :: "rotation_reason list"
  rs_evaluated_at :: int

section \<open>Model\<close>

definition default_cooldown_ms :: int where
  "default_cooldown_ms = 30 * 24 * 60 * 60 * 1000"

definition default_allowed_roles :: "string list" where
  "default_allowed_roles = [''admin'', ''employee'']"

definition base32_char :: "char \<Rightarrow> bool" where
  "base32_char c = (let n = of_char c :: nat in (65 \<le> n \<and> n \<le> 90) \<or> (50 \<le> n \<and> n \<le> 55))"

definition stellar_pattern :: "string \<Rightarrow> bool" where
  "stellar_pattern s =
     (case s of [] \<Rightarrow> False
      | c # cs \<Rightarrow> (c = CHR ''G'' \<or> c = CHR ''C'') \<and> length cs = 55 \<and> list_all base32_char cs)"

definition is_valid_stellar_address :: "(string \<Rightarrow> bool option) \<Rightarrow> string \<Rightarrow> bool" where
  "is_valid_stellar_address strkey a = (case strkey a of Some b \<Rightarrow> b | None \<Rightarrow> stellar_pattern a)"

definition rotation_reason_of ::
  "rotation_code \<Rightarrow> rotation_severity \<Rightarrow> string \<Rightarrow> rotation_details \<Rightarrow> rotation_reason" where
  "rotation_reason_of code severity field details =
     \<lparr>rr_code = code, rr_message = reason_description code, rr_field = field, rr_severity = severity,
      rr_action = reason_action code, rr_details = details\<rparr>"

definition wallet_reasons :: "(string \<Rightarrow> bool option) \<Rightarrow> rotation_request \<Rightarrow> rotation_reason list" where
  "wallet_reasons strkey q =
     (let new_wallet = (case rq_new_wallet q of None \<Rightarrow> [] | Some w \<Rightarrow> js_trim w) in
      if new_wallet = [] then [rotation_reason_of MISSING_NEW_WALLET SevError ''newWallet'' NoDetails]
      else if \<not> is_valid_stellar_address strkey new_wallet then
        [rotation_reason_of INVALID_NEW_WALLET_FORMAT SevError ''newWallet'' NoDetails]
      else if truthy (rq_current_wallet q) \<and> js_trim (the (rq_current_wallet q)) = new_wallet then
        [rotation_reason_of NEW_WALLET_SAME_AS_CURRENT SevError ''newWallet'' NoDetails]
      else [])"

definition cooldown_reasons :: "rotation_options \<Rightarrow> rotation_request \<Rightarrow> rotation_reason list" where
  "cooldown_reasons opts q =
     (case rq_last_rotated_at q of None \<Rightarrow> []
      | Some last_at \<Rightarrow>
          let elapsed = rp_reference opts - last_at;
              left = (case rp_cooldown opts of None \<Rightarrow> default_cooldown_ms | Some c \<Rightarrow> c) - elapsed in
          if left > 0 then
            if rq_emergency_override q then
              [rotation_reason_of EMERGENCY_OVERRIDE_APPLIED SevWarning ''emergencyOverride'' (CooldownRemaining left)]
            else [rotation_reason_of COOLDOWN_ACTIVE SevError ''lastRotatedAt'' (CooldownRemaining left)]
          else [])"

definition authorization_reasons :: "rotation_options \<Rightarrow> rotation_request \<Rightarrow> rotation_reason list" where
  "authorization_reasons opts q =
     (let missing = (if rp_require_authorization opts \<noteq> Some False
            then [rotation_reason_of MISSING_AUTHORIZATION_CONTEXT SevError ''authorization'' NoDetails] else []) in
      case rq_authorization q of None \<Rightarrow> missing
      | Some auth \<Rightarrow>
          if ra_role auth = [] then missing
          else
            let allowed = (case ra_allowed_roles auth of Some rs \<Rightarrow> rs
                  | None \<Rightarrow> (case rp_allowed_roles opts of Some rs \<Rightarrow> rs | None \<Rightarrow> default_allowed_roles)) in
            if ra_role auth \<notin> set allowed then
              [rotation_reason_of UNAUTHORIZED_REQUESTER SevError ''authorization.requesterRole''
                 (RoleDetails (ra_role auth) allowed)]
            else [])"

definition validate_wallet_rotation ::
  "(string \<Rightarrow> bool option) \<Rightarrow> rotation_request \<Rightarrow> rotation_options \<Rightarrow> rotation_result" where
  "validate_wallet_rotation strkey q opts =
     (let reasons = wallet_reasons strkey q @ cooldown_reasons opts q @
            (if rq_active_batch q
             then [rotation_reason_of ACTIVE_BATCH_IN_PROGRESS SevError ''hasActiveBatch'' NoDetails] else []) @
            (if rq_pending_rotation q
             then [rotation_reason_of DUPLICATE_PENDING_ROTATION SevError ''hasPendingRotation'' NoDetails] else []) @
            authorization_reasons opts q;
          blockers = filter (\<lambda>r. rr_severity r = SevError) reasons
      in \<lparr>rs_employee_id = rq_employee_id q, rs_valid = (blockers = []), rs_reasons = reasons,
          rs_blockers = blockers, rs_warnings = filter (\<lambda>r. rr_severity r = SevWarning) reasons,
          rs_evaluated_at = rp_reference opts\<rparr>)"

section \<open>Properties\<close>

lemma reason_of_simps [simp]:
  "rr_code (rotation_reason_of c s f d) = c" "rr_severity (rotation_reason_of c s f d) = s"
  by (simp_all add: rotation_reason_of_def)

text \<open>The conditions the documentation lists, one by one.\<close>

definition wallet_acceptable :: "(string \<Rightarrow> bool option) \<Rightarrow> rotation_request \<Rightarrow> bool" where
  "wallet_acceptable strkey q \<longleftrightarrow>
     (\<exists>w. rq_new_wallet q = Some w \<and> js_trim w \<noteq> [] \<and> is_valid_stellar_address strkey (js_trim w) \<and>
        (\<forall>c. rq_current_wallet q = Some c \<longrightarrow> js_trim c \<noteq> js_trim w))"

definition cooled_down :: "rotation_options \<Rightarrow> rotation_request \<Rightarrow> bool" where
  "cooled_down opts q \<longleftrightarrow>
     (\<forall>l. rq_last_rotated_at q = Some l \<longrightarrow>
        l + (case rp_cooldown opts of None \<Rightarrow> default_cooldown_ms | Some c \<Rightarrow> c) \<le> rp_reference opts)"

definition authorized :: "rotation_options \<Rightarrow> rotation_request \<Rightarrow> bool" where
  "authorized opts q \<longleftrightarrow>
     (case rq_authorization q of
        Some auth \<Rightarrow>
          if ra_role auth = [] then rp_require_authorization opts = Some False
          else ra_role auth \<in> set (case ra_allowed_roles auth of Some rs \<Rightarrow> rs
            | None \<Rightarrow> (case rp_allowed_roles opts of Some rs \<Rightarrow> rs | None \<Rightarrow> default_allowed_roles))
      | None \<Rightarrow> rp_require_authorization opts = Some False)"

lemma wallet_reasons_errors:
  "filter (\<lambda>r. rr_severity r = SevError) (wallet_reasons strkey q) = wallet_reasons strkey q"
  by (simp add: wallet_reasons_def Let_def)

lemma wallet_reasons_Nil: "wallet_reasons strkey q = [] \<longleftrightarrow> wallet_acceptable strkey q"
proof (cases "rq_new_wallet q")
  case None
  then show ?thesis by (simp add: wallet_reasons_def wallet_acceptable_def)
next
  case (Some w)
  have "js_trim [] = []" by (simp add: js_trim_def)
  with Some show ?thesis
    by (cases "rq_current_wallet q") (auto simp: wallet_reasons_def wallet_acceptable_def Let_def)
qed

lemma cooldown_reasons_errors:
  "filter (\<lambda>r. rr_severity r = SevError) (cooldown_reasons opts q) = [] \<longleftrightarrow> cooled_down opts q \<or> rq_emergency_override q"
  by (cases "rq_last_rotated_at q") (auto simp: cooldown_reasons_def cooled_down_def Let_def)

lemma authorization_reasons_errors:
  "filter (\<lambda>r. rr_severity r = SevError) (authorization_reasons opts q) = authorization_reasons opts q"
  by (auto simp: authorization_reasons_def Let_def split: option.split)

lemma authorization_reasons_Nil: "authorization_reasons opts q = [] \<longleftrightarrow> authorized opts q"
  by (auto simp: authorization_reasons_def authorized_def Let_def split: option.split)

text \<open>
  a rotation is valid exactly when the new wallet is a valid address different from the current one,
  the cooldown has elapsed or an emergency override is given, no batch and no other rotation is under way,
  and the requester is authorised.
\<close>

theorem rotation_valid_iff:
  "rs_valid (validate_wallet_rotation strkey q opts) \<longleftrightarrow>
     wallet_acceptable strkey q \<and> (cooled_down opts q \<or> rq_emergency_override q) \<and>
     \<not> rq_active_batch q \<and> \<not> rq_pending_rotation q \<and> authorized opts q"
  by (auto simp: validate_wallet_rotation_def Let_def wallet_reasons_errors wallet_reasons_Nil
      cooldown_reasons_errors authorization_reasons_errors authorization_reasons_Nil)

text \<open>
  an emergency override removes the cooldown blocker and nothing else: with it the blockers are those
  without it other than \<open>COOLDOWN_ACTIVE\<close>, and whenever it has bypassed the cooldown a warning says so.
\<close>

theorem override_only_bypasses_cooldown:
  "map rr_code (rs_blockers (validate_wallet_rotation strkey (q\<lparr>rq_emergency_override := True\<rparr>) opts)) =
     filter (\<lambda>c. c \<noteq> COOLDOWN_ACTIVE)
       (map rr_code (rs_blockers (validate_wallet_rotation strkey (q\<lparr>rq_emergency_override := False\<rparr>) opts))) \<and>
   (EMERGENCY_OVERRIDE_APPLIED \<in>
        set (map rr_code (rs_warnings (validate_wallet_rotation strkey (q\<lparr>rq_emergency_override := True\<rparr>) opts))) \<longleftrightarrow>
     \<not> cooled_down opts q)"
proof -
  let ?t = "q\<lparr>rq_emergency_override := True\<rparr>" and ?f = "q\<lparr>rq_emergency_override := False\<rparr>"
  let ?err = "filter (\<lambda>r. rr_severity r = SevError)" and ?warn = "filter (\<lambda>r. rr_severity r = SevWarning)"
  let ?not = "filter (\<lambda>c. c \<noteq> COOLDOWN_ACTIVE)"
  have w: "wallet_reasons strkey ?t = wallet_reasons strkey q" "wallet_reasons strkey ?f = wallet_reasons strkey q"
    by (simp_all add: wallet_reasons_def Let_def cong: if_cong)
  have a: "authorization_reasons opts ?t = authorization_reasons opts q"
    "authorization_reasons opts ?f = authorization_reasons opts q"
    by (simp_all add: authorization_reasons_def Let_def cong: if_cong option.case_cong)
  have wc: "?not (map rr_code (wallet_reasons strkey q)) = map rr_code (wallet_reasons strkey q)"
    "?not (map rr_code (authorization_reasons opts q)) = map rr_code (authorization_reasons opts q)"
    by (auto simp: wallet_reasons_def authorization_reasons_def Let_def split: option.split)
  have ww: "?warn (wallet_reasons strkey q) = []" "?warn (authorization_reasons opts q) = []"
    by (auto simp: wallet_reasons_def authorization_reasons_def Let_def split: option.split)
  have c: "?err (cooldown_reasons opts ?t) = []" "?not (map rr_code (?err (cooldown_reasons opts ?f))) = []"
    "EMERGENCY_OVERRIDE_APPLIED \<in> set (map rr_code (?warn (cooldown_reasons opts ?t))) \<longleftrightarrow> \<not> cooled_down opts q"
    by (cases "rq_last_rotated_at q"; cases "cooled_down opts q";
        simp add: cooldown_reasons_def cooled_down_def Let_def not_le)+
  show ?thesis
    using c by (simp add: validate_wallet_rotation_def Let_def w a wc ww wallet_reasons_errors authorization_reasons_errors)
qed

end
