(* ===== verification/PaginationGuards.thy ===== *)
theory PaginationGuards
  imports Prelude
begin

text \<open>
  Guarded traversal of paginated sources (\<open>packages/core/src/pagination-guardrails.ts\<close>). The source is
  an arbitrary function of the number of the call and of the request, so that it may answer the same
  request differently, fail, or return a malformed page; the abort signal is a function of the moment it
  is looked at. A traversal is what the generator yielded and requested, and how it ended.
\<close>

section \<open>Options\<close>

datatype guard_error =
  MaxPagesNotPositive | MaxPagesTooLarge | MaxRecordsNotPositive
| InvalidPage | InvalidCursor | RepeatedCursor | RecordBudgetExceeded | PageBudgetExceeded | Aborted | FetchFailed

text \<open>A number used as a page size: by its floor, or one of the values without a floor.\<close>

datatype size_number = Floors int | NotANumber | PlusInfinity | MinusInfinity

definition default_max_pages :: int where "default_max_pages = 100"
definition absolute_max_pages :: int where "absolute_max_pages = 10000"
definition default_max_records :: int where "default_max_records = 10000"
definition max_page_size :: int where "max_page_size = 100"
definition min_page_size :: int where "min_page_size = 1"

record guard_options =
  go_max_page_size :: "size_number option"
  go_max_pages :: "jsnum option"
  go_max_records :: "jsnum option"

text \<open>The resolved limits; a page size of \<open>None\<close> is \<open>NaN\<close>.\<close>

record guard_limits =
  gl_page_size :: "int option"
  gl_max_pages :: nat
  gl_max_records :: nat

definition clamp_page_size :: "size_number \<Rightarrow> int option" where
  "clamp_page_size x =
     (case x of
        Floors n \<Rightarrow> Some (max min_page_size (min max_page_size n))
      | NotANumber \<Rightarrow> None
      | PlusInfinity \<Rightarrow> Some max_page_size
      | MinusInfinity \<Rightarrow> Some min_page_size)"

definition resolve_pagination_guardrails :: "guard_options \<Rightarrow> (guard_error, guard_limits) result" where
  "resolve_pagination_guardrails opts =
     (let size = (case go_max_page_size opts of None \<Rightarrow> Some max_page_size | Some x \<Rightarrow> clamp_page_size x);
          pages = (case go_max_pages opts of None \<Rightarrow> Whole default_max_pages | Some x \<Rightarrow> x);
          records = (case go_max_records opts of None \<Rightarrow> Whole default_max_records | Some x \<Rightarrow> x) in
      case pages of NonInteger \<Rightarrow> Inl MaxPagesNotPositive
      | Whole p \<Rightarrow>
          bind_result (throw_if (p < 1) MaxPagesNotPositive) (\<lambda>_.
          bind_result (throw_if (p > absolute_max_pages) MaxPagesTooLarge) (\<lambda>_.
          case records of NonInteger \<Rightarrow> Inl MaxRecordsNotPositive
          | Whole r \<Rightarrow>
              bind_result (throw_if (r < 1) MaxRecordsNotPositive) (\<lambda>_.
              Inr \<lparr>gl_page_size = size, gl_max_pages = nat p, gl_max_records = nat r\<rparr>))))"

section \<open>Pages\<close>

text \<open>What a fetch may return: a rejection, something without an array of items, or items with a next
  cursor that is absent, a string, or of another type.\<close>

datatype raw_cursor = NoCursor | CursorString string | CursorOther

datatype 'a raw_page = Rejected | Malformed | RawPage "'a list" raw_cursor

type_synonym 'a fetcher = "nat \<Rightarrow> string option \<Rightarrow> int option \<Rightarrow> 'a raw_page"

definition assert_guarded_page :: "'a raw_page \<Rightarrow> (guard_error, 'a list \<times> string option) result" where
  "assert_guarded_page p =
     (case p of
        Rejected \<Rightarrow> Inl FetchFailed
      | Malformed \<Rightarrow> Inl InvalidPage
      | RawPage items c \<Rightarrow>
          (case c of
             NoCursor \<Rightarrow> Inr (items, None)
           | CursorString s \<Rightarrow> if s = [] then Inl InvalidCursor else Inr (items, Some s)
           | CursorOther \<Rightarrow> Inl InvalidCursor))"

text \<open>The yields of one page: each item is yielded while the record budget lasts.\<close>

fun yield_items :: "nat \<Rightarrow> nat \<Rightarrow> 'a list \<Rightarrow> 'a list \<times> bool" where
  "yield_items max_records yielded [] = ([], False)"
| "yield_items max_records yielded (x # xs) =
     (if yielded \<ge> max_records then ([], True)
      else let (ys, over) = yield_items max_records (Suc yielded) xs in (x # ys, over))"

section \<open>Traversal\<close>

record 'a traversal =
  tv_yielded :: "'a list"
  tv_requests :: "string option list"
  tv_failure :: "guard_error option"

text \<open>The loop: \<open>left\<close> pages may still be fetched, \<open>n\<close> have been. The signal is looked at before and
  after each fetch.\<close>

fun guarded_loop ::
  "'a fetcher \<Rightarrow> (nat \<Rightarrow> bool) \<Rightarrow> guard_limits \<Rightarrow> nat \<Rightarrow> nat \<Rightarrow> string option \<Rightarrow> string list \<Rightarrow> 'a traversal \<Rightarrow> 'a traversal" where
  "guarded_loop fetch aborted lim 0 n cursor seen tv = tv\<lparr>tv_failure := Some PageBudgetExceeded\<rparr>"
| "guarded_loop fetch aborted lim (Suc left) n cursor seen tv =
     (if aborted (2 * n) then tv\<lparr>tv_failure := Some Aborted\<rparr>
      else
        let page = fetch n cursor (gl_page_size lim); tv1 = tv\<lparr>tv_requests := tv_requests tv @ [cursor]\<rparr> in
        if page = Rejected then tv1\<lparr>tv_failure := Some FetchFailed\<rparr>
        else if aborted (2 * n + 1) then tv1\<lparr>tv_failure := Some Aborted\<rparr>
        else case assert_guarded_page page of
          Inl e \<Rightarrow> tv1\<lparr>tv_failure := Some e\<rparr>
        | Inr (items, next_cursor) \<Rightarrow>
            let (ys, over) = yield_items (gl_max_records lim) (length (tv_yielded tv1)) items;
                tv2 = tv1\<lparr>tv_yielded := tv_yielded tv1 @ ys\<rparr> in
            if over then tv2\<lparr>tv_failure := Some RecordBudgetExceeded\<rparr>
            else case next_cursor of
              None \<Rightarrow> tv2
            | Some c \<Rightarrow>
                if Some c = cursor \<or> c \<in> set seen then tv2\<lparr>tv_failure := Some RepeatedCursor\<rparr>
                else guarded_loop fetch aborted lim left (Suc n) (Some c)
                  (case cursor of None \<Rightarrow> seen | Some d \<Rightarrow> List.insert d seen) tv2)"

definition iterate_guarded_pages :: "'a fetcher \<Rightarrow> (nat \<Rightarrow> bool) \<Rightarrow> guard_options \<Rightarrow> 'a traversal" where
  "iterate_guarded_pages fetch aborted opts =
     (case resolve_pagination_guardrails opts of
        Inl e \<Rightarrow> \<lparr>tv_yielded = [], tv_requests = [], tv_failure = Some e\<rparr>
      | Inr lim \<Rightarrow> guarded_loop fetch aborted lim (gl_max_pages lim) 0 None []
          \<lparr>tv_yielded = [], tv_requests = [], tv_failure = None\<rparr>)"

definition collect_guarded_pages :: "'a fetcher \<Rightarrow> (nat \<Rightarrow> bool) \<Rightarrow> guard_options \<Rightarrow> (guard_error, 'a list) result" where
  "collect_guarded_pages fetch aborted opts =
     (let tv = iterate_guarded_pages fetch aborted opts in
      case tv_failure tv of Some e \<Rightarrow> Inl e | None \<Rightarrow> Inr (tv_yielded tv))"

section \<open>Bounds\<close>

lemma yield_items_bound:
  "n \<le> m \<Longrightarrow> n + length (fst (yield_items m n xs)) \<le> m"
proof (induction xs arbitrary: n)
  case (Cons x xs)
  then show ?case using Cons.IH [of "Suc n"] by (cases "yield_items m (Suc n) xs") auto
qed simp

lemma yield_items_all: "yield_items m n xs = (ys, False) \<Longrightarrow> ys = xs"
proof (induction xs arbitrary: n ys)
  case (Cons x xs)
  then show ?case by (cases "yield_items m (Suc n) xs") (auto split: if_splits)
qed simp

lemma yield_items_fits: "n + length xs \<le> m \<Longrightarrow> yield_items m n xs = (xs, False)"
  by (induction xs arbitrary: n) auto

text \<open>The cursors asked for so far are those seen and the current one, all different.\<close>

lemma guarded_loop_bounds:
  fixes fetch :: "'a fetcher" and aborted :: "nat \<Rightarrow> bool" and left_pages n :: nat
  assumes "set (tv_requests tv) \<subseteq> insert None (Some ` set seen)" "distinct (tv_requests tv)"
    "cursor \<notin> set (tv_requests tv)" "cursor = None \<Longrightarrow> tv_requests tv = []"
    "length (tv_yielded tv) \<le> gl_max_records lim"
    "\<forall>c. cursor = Some c \<longrightarrow> c \<notin> set seen"
  defines "r \<equiv> guarded_loop fetch aborted lim left_pages n cursor seen tv"
  shows "length (tv_yielded r) \<le> gl_max_records lim \<and> distinct (tv_requests r) \<and>
    length (tv_requests r) \<le> length (tv_requests tv) + left_pages"
  using assms(1-6) unfolding r_def
proof (induction left_pages arbitrary: n cursor seen tv)
  case 0
  then show ?case by simp
next
  case (Suc left_pages)
  let ?page = "fetch n cursor (gl_page_size lim)"
  let ?tv1 = "tv\<lparr>tv_requests := tv_requests tv @ [cursor]\<rparr>"
  show ?case
  proof (cases "assert_guarded_page ?page")
    case (Inl e)
    with Suc.prems show ?thesis by (auto simp: Let_def)
  next
    case (Inr p)
    obtain items nxt where p: "p = (items, nxt)" by (cases p) blast
    obtain ys over where y: "yield_items (gl_max_records lim) (length (tv_yielded tv)) items = (ys, over)"
      by (cases "yield_items (gl_max_records lim) (length (tv_yielded tv)) items") blast
    let ?tv2 = "?tv1\<lparr>tv_yielded := tv_yielded tv @ ys\<rparr>"
    have len: "length (tv_yielded tv @ ys) \<le> gl_max_records lim"
      using yield_items_bound [OF Suc.prems(5), of items] y by simp
    show ?thesis
    proof (cases "\<not> over \<and> (\<exists>c. nxt = Some c \<and> Some c \<noteq> cursor \<and> c \<notin> set seen)")
      case True
      then obtain c where c: "\<not> over" "nxt = Some c" "Some c \<noteq> cursor" "c \<notin> set seen" by blast
      let ?seen = "case cursor of None \<Rightarrow> seen | Some d \<Rightarrow> List.insert d seen"
      have "set (tv_requests ?tv2) \<subseteq> insert None (Some ` set ?seen)"
        using Suc.prems(1) by (cases cursor) auto
      moreover have "Some c \<notin> set (tv_requests ?tv2)" using Suc.prems(1) c by auto
      moreover have "c \<notin> set ?seen" using c by (cases cursor) auto
      ultimately have "length (tv_yielded (guarded_loop fetch aborted lim left_pages (Suc n) (Some c) ?seen ?tv2)) \<le> gl_max_records lim \<and>
          distinct (tv_requests (guarded_loop fetch aborted lim left_pages (Suc n) (Some c) ?seen ?tv2)) \<and>
          length (tv_requests (guarded_loop fetch aborted lim left_pages (Suc n) (Some c) ?seen ?tv2)) \<le> length (tv_requests ?tv2) + left_pages"
        using Suc.prems len by (intro Suc.IH) auto
      with Suc.prems Inr p y c show ?thesis by (simp add: Let_def split del: option.split)
    next
      case False
      with Suc.prems Inr p y len show ?thesis by (auto simp: Let_def split: option.splits)
    qed
  qed
qed

section \<open>The abstract source\<close>

text \<open>What a source says from a cursor on: the records of its pages up to the first without a next
  cursor, and the cursors it hands out on the way.\<close>

inductive source_pages ::
  "'a fetcher \<Rightarrow> int option \<Rightarrow> nat \<Rightarrow> string option \<Rightarrow> string list \<Rightarrow> 'a list \<Rightarrow> bool"
  for fetch :: "'a fetcher" and sz :: "int option" where
  last_page: "fetch n cursor sz = RawPage items NoCursor \<Longrightarrow> source_pages fetch sz n cursor [] items"
| more_pages: "fetch n cursor sz = RawPage items (CursorString c) \<Longrightarrow> c \<noteq> [] \<Longrightarrow>
    source_pages fetch sz (Suc n) (Some c) cs rest \<Longrightarrow>
    source_pages fetch sz n cursor (c # cs) (items @ rest)"

lemma resolve_InrD:
  assumes "resolve_pagination_guardrails opts = Inr lim"
  shows "1 \<le> gl_max_pages lim" "int (gl_max_pages lim) \<le> absolute_max_pages" "1 \<le> gl_max_records lim"
    "gl_page_size lim = Some k \<Longrightarrow> 1 \<le> k \<and> k \<le> 100"
  using assms
  by (auto simp: resolve_pagination_guardrails_def Let_def result_simps clamp_page_size_def max_page_size_def
      min_page_size_def absolute_max_pages_def split: jsnum.splits option.splits size_number.splits)

lemma assert_guarded_page_InrD:
  assumes "assert_guarded_page p = Inr (items, c)"
  shows "(c = None \<and> p = RawPage items NoCursor) \<or> (\<exists>s. c = Some s \<and> s \<noteq> [] \<and> p = RawPage items (CursorString s))"
  using assms by (auto simp: assert_guarded_page_def split: raw_page.splits raw_cursor.splits if_splits)

lemma guarded_loop_sound:
  assumes "tv_failure (guarded_loop fetch aborted lim left n cursor seen tv) = None"
  shows "\<exists>cs xs. tv_yielded (guarded_loop fetch aborted lim left n cursor seen tv) = tv_yielded tv @ xs \<and>
    source_pages fetch (gl_page_size lim) n cursor cs xs"
  using assms
proof (induction left arbitrary: n cursor seen tv)
  case (Suc left)
  let ?page = "fetch n cursor (gl_page_size lim)"
  let ?tv1 = "tv\<lparr>tv_requests := tv_requests tv @ [cursor]\<rparr>"
  from Suc.prems obtain items nxt where page: "assert_guarded_page ?page = Inr (items, nxt)"
    and go: "\<not> aborted (2 * n)" "?page \<noteq> Rejected" "\<not> aborted (2 * n + 1)"
    by (auto simp: Let_def split: if_splits sum.splits)
  obtain ys over where y: "yield_items (gl_max_records lim) (length (tv_yielded tv)) items = (ys, over)"
    by (cases "yield_items (gl_max_records lim) (length (tv_yielded tv)) items") blast
  from Suc.prems page go y have over: "\<not> over" by (auto simp: Let_def split: if_splits)
  with y have ys: "ys = items" by (simp add: yield_items_all)
  let ?tv2 = "?tv1\<lparr>tv_yielded := tv_yielded tv @ items\<rparr>"
  show ?case
  proof (cases nxt)
    case None
    with page have "?page = RawPage items NoCursor" by (auto dest: assert_guarded_page_InrD)
    then have "source_pages fetch (gl_page_size lim) n cursor [] items" by (rule last_page)
    with None page go y over ys show ?thesis by (auto simp: Let_def)
  next
    case (Some c)
    with page have p: "?page = RawPage items (CursorString c)" "c \<noteq> []" by (auto dest: assert_guarded_page_InrD)
    let ?seen = "case cursor of None \<Rightarrow> seen | Some d \<Rightarrow> List.insert d seen"
    from Suc.prems Some page go y over ys
    have eq: "guarded_loop fetch aborted lim (Suc left) n cursor seen tv =
        guarded_loop fetch aborted lim left (Suc n) (Some c) ?seen ?tv2"
      by (auto simp: Let_def split: if_splits)
    with Suc.prems Suc.IH [of "Suc n" "Some c" ?seen ?tv2] obtain cs xs where
      "tv_yielded (guarded_loop fetch aborted lim left (Suc n) (Some c) ?seen ?tv2) = tv_yielded ?tv2 @ xs"
      "source_pages fetch (gl_page_size lim) (Suc n) (Some c) cs xs" by auto
    moreover from this(2) p have "source_pages fetch (gl_page_size lim) n cursor (c # cs) (items @ xs)"
      by (intro more_pages)
    ultimately show ?thesis unfolding eq by force
  qed
qed simp

lemma guarded_loop_complete:
  assumes "source_pages fetch (gl_page_size lim) n cursor cs xs"
    and "\<forall>k. \<not> aborted k" "length cs < left" "length (tv_yielded tv) + length xs \<le> gl_max_records lim"
    and "distinct cs" "set cs \<inter> set seen = {}" "\<forall>c. cursor = Some c \<longrightarrow> c \<notin> set cs" "tv_failure tv = None"
  shows "tv_failure (guarded_loop fetch aborted lim left n cursor seen tv) = None \<and>
    tv_yielded (guarded_loop fetch aborted lim left n cursor seen tv) = tv_yielded tv @ xs"
  using assms
proof (induction arbitrary: left seen tv rule: source_pages.induct)
  case (last_page n cursor items)
  then obtain l where "left = Suc l" by (cases left) auto
  with last_page show ?case by (simp add: Let_def assert_guarded_page_def yield_items_fits)
next
  case (more_pages n cursor items c cs rest)
  then obtain l where l: "left = Suc l" "length cs < l" by (cases left) auto
  let ?tv2 = "tv\<lparr>tv_requests := tv_requests tv @ [cursor], tv_yielded := tv_yielded tv @ items\<rparr>"
  let ?seen = "case cursor of None \<Rightarrow> seen | Some d \<Rightarrow> List.insert d seen"
  have "tv_failure (guarded_loop fetch aborted lim l (Suc n) (Some c) ?seen ?tv2) = None \<and>
      tv_yielded (guarded_loop fetch aborted lim l (Suc n) (Some c) ?seen ?tv2) = tv_yielded ?tv2 @ rest"
  proof (rule more_pages.IH)
    show "\<forall>k. \<not> aborted k" by (rule more_pages.prems)
  qed (use more_pages.prems l in \<open>auto split: option.split\<close>)
  moreover have "guarded_loop fetch aborted lim left n cursor seen tv =
      guarded_loop fetch aborted lim l (Suc n) (Some c) ?seen ?tv2"
    using more_pages.hyps more_pages.prems l by (auto simp: Let_def assert_guarded_page_def yield_items_fits)
  ultimately show ?case by simp
qed

section \<open>Properties\<close>

text \<open>
  whatever the source does, a traversal yields at most the record budget, makes at most the page
  budget of requests (never more than 10,000), and never asks for the same cursor twice.
\<close>

theorem traversal_within_budgets:
  fixes fetch :: "'a fetcher" and aborted :: "nat \<Rightarrow> bool"
  assumes lim: "resolve_pagination_guardrails opts = Inr lim"
  defines "tv \<equiv> iterate_guarded_pages fetch aborted opts"
  shows "length (tv_yielded tv) \<le> gl_max_records lim \<and> length (tv_requests tv) \<le> gl_max_pages lim \<and>
    int (gl_max_pages lim) \<le> 10000 \<and> distinct (tv_requests tv)"
  using guarded_loop_bounds [of "\<lparr>tv_yielded = [], tv_requests = [], tv_failure = None\<rparr>" "[]" None lim
      fetch aborted "gl_max_pages lim" 0] lim resolve_InrD(2) [OF lim]
  by (simp add: tv_def iterate_guarded_pages_def absolute_max_pages_def)

theorem traversal_within_budgets_witness:
  "length (tv_requests (iterate_guarded_pages (\<lambda>n _ _. RawPage [n] (CursorString ''c'')) (\<lambda>_. False)
     \<lparr>go_max_page_size = None, go_max_pages = Some (Whole 3), go_max_records = None\<rparr>)) \<le> 3"
proof -
  let ?o = "\<lparr>go_max_page_size = None, go_max_pages = Some (Whole 3), go_max_records = None\<rparr>"
  have "resolve_pagination_guardrails ?o = Inr \<lparr>gl_page_size = Some 100, gl_max_pages = 3, gl_max_records = 10000\<rparr>"
    by (simp add: resolve_pagination_guardrails_def absolute_max_pages_def default_max_records_def max_page_size_def)
  from traversal_within_budgets [OF this] show ?thesis by fastforce
qed

text \<open>
  collecting is exact: a successful collection is precisely the concatenation of the source's pages up
  to the first without a next cursor, and for a source whose pages, cursors and records stay within the
  budgets, with no cursor repeated and no abort, it succeeds.
\<close>

theorem collect_exact:
  assumes lim: "resolve_pagination_guardrails opts = Inr lim"
  shows "(collect_guarded_pages fetch aborted opts = Inr xs \<longrightarrow>
      (\<exists>cs. source_pages fetch (gl_page_size lim) 0 None cs xs)) \<and>
    (source_pages fetch (gl_page_size lim) 0 None cs xs \<and> (\<forall>k. \<not> aborted k) \<and> distinct cs \<and>
        length cs < gl_max_pages lim \<and> length xs \<le> gl_max_records lim \<longrightarrow>
      collect_guarded_pages fetch aborted opts = Inr xs)"
proof -
  let ?tv = "\<lparr>tv_yielded = [], tv_requests = [], tv_failure = None\<rparr>"
  note sound = guarded_loop_sound [of fetch aborted lim "gl_max_pages lim" 0 None "[]" ?tv]
  note complete = guarded_loop_complete [of fetch lim 0 None cs xs aborted "gl_max_pages lim" ?tv "[]"]
  show ?thesis
    using sound complete lim
    by (auto simp: collect_guarded_pages_def iterate_guarded_pages_def Let_def split: option.splits)
qed

theorem collect_exact_witness:
  "collect_guarded_pages (\<lambda>n _ _. if n = 0 then RawPage [1::nat, 2] (CursorString ''c'') else RawPage [3] NoCursor)
     (\<lambda>_. False) \<lparr>go_max_page_size = None, go_max_pages = None, go_max_records = None\<rparr> = Inr [1, 2, 3]"
proof -
  let ?f = "\<lambda>n (_ :: string option) (_ :: int option).
      if n = (0::nat) then RawPage [1::nat, 2] (CursorString ''c'') else RawPage [3] NoCursor"
  let ?lim = "\<lparr>gl_page_size = Some 100, gl_max_pages = 100, gl_max_records = 10000\<rparr>"
  have lim: "resolve_pagination_guardrails \<lparr>go_max_page_size = None, go_max_pages = None, go_max_records = None\<rparr> = Inr ?lim"
    by (simp add: resolve_pagination_guardrails_def absolute_max_pages_def default_max_records_def max_page_size_def
        default_max_pages_def)
  have "source_pages ?f (Some 100) (Suc 0) (Some ''c'') [] [3]" by (rule last_page) simp
  then have "source_pages ?f (Some 100) 0 None (''c'' # []) ([1, 2] @ [3])" by (intro more_pages) simp_all
  with collect_exact [OF lim, of ?f "\<lambda>_. False" "[1, 2, 3]" "[''c'']"] show ?thesis by simp
qed

text \<open>
  the page size is documented as validated and clamped to 1..100, but \<open>NaN\<close> passes through the
  minimum and maximum: it is neither rejected nor clamped, and every request is made with it.
\<close>

theorem nan_page_size_not_clamped:
  assumes "go_max_page_size opts = Some NotANumber" "go_max_pages opts = None" "go_max_records opts = None"
  shows "map_sum id gl_page_size (resolve_pagination_guardrails opts) = Inr None"
  using assms by (simp add: resolve_pagination_guardrails_def clamp_page_size_def default_max_pages_def
      default_max_records_def absolute_max_pages_def)

theorem nan_page_size_not_clamped_witness:
  "map_sum id gl_page_size (resolve_pagination_guardrails
     \<lparr>go_max_page_size = Some NotANumber, go_max_pages = None, go_max_records = None\<rparr>) = Inr None"
  by (rule nan_page_size_not_clamped) simp_all

end
