(* ===== verification/ConfirmationNonce.thy ===== *)
theory ConfirmationNonce
  imports Digits
begin

text \<open>
  Execution confirmation nonces (\<open>packages/core/src/core/executionConfirmationNonce.ts\<close>). The random bytes
  and the clock are arguments. The two callbacks of a validation share a store of used nonces; where the
  code awaits them, other validations may run, so a single validation and a batch, whose members all
  look into the store before any of them writes to it, are modelled separately. Timestamps are exact
  integers, also beyond the range where a double is.
\<close>

section \<open>Types\<close>

datatype nonce_code =
  VALID | EXPIRED | ALREADY_USED | INVALID_FORMAT | INVALID_SIGNATURE | CLOCK_SKEW | OPERATION_MISMATCH | MISSING_NONCE

datatype operation_type =
  PayrollExecution | PaymentSubmission | BatchConfirmation | SettlementFinalization | ComplianceHoldRelease

fun operation_string :: "operation_type \<Rightarrow> string" where
  "operation_string PayrollExecution = ''payroll_execution''"
| "operation_string PaymentSubmission = ''payment_submission''"
| "operation_string BatchConfirmation = ''batch_confirmation''"
| "operation_string SettlementFinalization = ''settlement_finalization''"
| "operation_string ComplianceHoldRelease = ''compliance_hold_release''"

record generation_options =
  go_operation :: operation_type
  go_context :: "string option"
  go_validity :: "int option"

record validation_options =
  vo_operation :: operation_type
  vo_context :: "string option"
  vo_max_skew :: "int option"
  vo_validity :: "int option"
  vo_check_if_used :: bool
  vo_mark_as_used :: bool

record nonce_info =
  ni_nonce :: string
  ni_operation :: operation_type
  ni_context :: "string option"
  ni_generated_at :: int
  ni_expires_at :: int

record nonce_result =
  nr_valid :: bool
  nr_code :: nonce_code
  nr_message :: string
  nr_info :: "nonce_info option"

section \<open>Generation\<close>

definition default_nonce_validity_ms :: int where
  "default_nonce_validity_ms = 60 * 60 * 1000"

definition create_operation_scope :: "operation_type \<Rightarrow> string option \<Rightarrow> string" where
  "create_operation_scope op ctx =
     (case ctx of None \<Rightarrow> operation_string op
      | Some c \<Rightarrow> if c = [] then operation_string op
          else operation_string op @ '':'' @ map (\<lambda>x. if x = CHR ''.'' then CHR ''-'' else x) c)"

definition random_part :: "nat list \<Rightarrow> string" where
  "random_part bytes = concat (map (\<lambda>b. pad_start 2 CHR ''0'' (radix_string 16 b)) bytes)"

definition base36 :: "int \<Rightarrow> string" where
  "base36 n = (if n < 0 then CHR ''-'' # radix_string 36 (nat (- n)) else radix_string 36 (nat n))"

definition generate_execution_nonce :: "int \<Rightarrow> nat list \<Rightarrow> generation_options \<Rightarrow> nonce_info" where
  "generate_execution_nonce now bytes opts =
     (let validity = (case go_validity opts of None \<Rightarrow> default_nonce_validity_ms | Some v \<Rightarrow> v);
          nonce = create_operation_scope (go_operation opts) (go_context opts) @ ''.'' @ base36 now @ ''.'' @
            random_part bytes
      in \<lparr>ni_nonce = nonce, ni_operation = go_operation opts, ni_context = go_context opts,
          ni_generated_at = now, ni_expires_at = now + validity\<rparr>)"

section \<open>Validation\<close>

text \<open>\<open>parseInt(s, 36)\<close>: leading space and a sign are skipped, then the longest prefix of digits counts;
  without one the result is \<open>NaN\<close>.\<close>

definition parse_int36 :: "string \<Rightarrow> int option" where
  "parse_int36 s =
     (let t = dropWhile js_space s;
          neg = (t \<noteq> [] \<and> hd t = CHR ''-'');
          u = (if t \<noteq> [] \<and> (hd t = CHR ''-'' \<or> hd t = CHR ''+'') then tl t else t);
          ds = takeWhile (\<lambda>c. digit_value c < 36) u in
      if ds = [] then None
      else Some (if neg then - int (radix_value 36 ds) else int (radix_value 36 ds)))"

definition hex_char :: "char \<Rightarrow> bool" where
  "hex_char c = (digit_value c < 16)"

definition is_valid_hex_string :: "string \<Rightarrow> nat \<Rightarrow> bool" where
  "is_valid_hex_string s byte_length =
     (if length s \<noteq> byte_length * 2 then False else s \<noteq> [] \<and> list_all hex_char s)"

definition nonce_failure :: "nonce_code \<Rightarrow> string \<Rightarrow> nonce_result" where
  "nonce_failure code msg = \<lparr>nr_valid = False, nr_code = code, nr_message = msg, nr_info = None\<rparr>"

text \<open>Everything before the store is asked: a failure, or the nonce's information.\<close>

definition validate_static :: "int \<Rightarrow> string option \<Rightarrow> validation_options \<Rightarrow> (nonce_result, nonce_info) result" where
  "validate_static now nonce opts =
     (let max_skew = (case vo_max_skew opts of None \<Rightarrow> 60000 | Some s \<Rightarrow> s);
          validity = (case vo_validity opts of None \<Rightarrow> default_nonce_validity_ms | Some v \<Rightarrow> v) in
      if \<not> truthy nonce \<or> blank (the nonce) then
        Inl (nonce_failure MISSING_NONCE ''No nonce provided for operation confirmation'')
      else
        let trimmed = js_trim (the nonce) in
        case js_split CHR ''.'' trimmed of
          [scope, timestamp, rnd] \<Rightarrow>
            if scope \<noteq> create_operation_scope (vo_operation opts) (vo_context opts) then
              Inl (nonce_failure OPERATION_MISMATCH ''Nonce is not scoped to the expected operation'')
            else (case parse_int36 timestamp of
                None \<Rightarrow> Inl (nonce_failure INVALID_FORMAT ''Nonce timestamp is malformed'')
              | Some generated_at \<Rightarrow>
                  if \<bar>now - generated_at\<bar> > max_skew \<and> now > generated_at then
                    Inl (nonce_failure CLOCK_SKEW ''Nonce timestamp is outside acceptable range'')
                  else if now > generated_at + validity then
                    Inl (nonce_failure EXPIRED ''Nonce has expired and is no longer valid'')
                  else if \<not> is_valid_hex_string rnd 32 then
                    Inl (nonce_failure INVALID_SIGNATURE ''Nonce signature validation failed'')
                  else Inr \<lparr>ni_nonce = trimmed, ni_operation = vo_operation opts, ni_context = vo_context opts,
                         ni_generated_at = generated_at, ni_expires_at = generated_at + validity\<rparr>)
        | _ \<Rightarrow> Inl (nonce_failure INVALID_FORMAT ''Nonce format is invalid''))"

definition already_used :: nonce_result where
  "already_used = nonce_failure ALREADY_USED
     ''Nonce has already been used; create a new execution with a fresh nonce''"

definition nonce_success :: "nonce_info \<Rightarrow> nonce_result" where
  "nonce_success i = \<lparr>nr_valid = True, nr_code = VALID, nr_message = ''Nonce is valid and confirmed'', nr_info = Some i\<rparr>"

text \<open>One validation against the store of used nonces.\<close>

definition validate_execution_nonce ::
  "int \<Rightarrow> string option \<Rightarrow> validation_options \<Rightarrow> string list \<Rightarrow> nonce_result \<times> string list" where
  "validate_execution_nonce now nonce opts used =
     (case validate_static now nonce opts of
        Inl r \<Rightarrow> (r, used)
      | Inr i \<Rightarrow>
          if vo_check_if_used opts \<and> ni_nonce i \<in> set used then (already_used, used)
          else (nonce_success i, if vo_mark_as_used opts then ni_nonce i # used else used))"

text \<open>\<open>Promise.all\<close> of several validations: every call runs up to its first \<open>await\<close>, that is, asks the
  store, before any continuation marks its nonce.\<close>

definition validate_execution_nonces_batch ::
  "int \<Rightarrow> string option list \<Rightarrow> validation_options \<Rightarrow> string list \<Rightarrow> nonce_result list \<times> string list" where
  "validate_execution_nonces_batch now nonces opts used =
     (let rs = map (\<lambda>n. fst (validate_execution_nonce now n opts used)) nonces;
          confirmed = map ni_nonce (List.map_filter nr_info rs)
      in (rs, if vo_mark_as_used opts then rev confirmed @ used else used))"

definition are_execution_nonces_valid ::
  "int \<Rightarrow> string option list \<Rightarrow> validation_options \<Rightarrow> string list \<Rightarrow> bool" where
  "are_execution_nonces_valid now nonces opts used =
     list_all nr_valid (fst (validate_execution_nonces_batch now nonces opts used))"

text \<open>The information a nonce carries, without validation; the operation stays a string.\<close>

definition extract_nonce_info :: "string \<Rightarrow> (string \<times> string \<times> string option \<times> int) option" where
  "extract_nonce_info nonce =
     (case js_split CHR ''.'' (js_trim nonce) of
        [scope, timestamp, rnd] \<Rightarrow>
          (case parse_int36 timestamp of None \<Rightarrow> None
           | Some t \<Rightarrow>
               (case js_split CHR '':'' scope of
                  [op] \<Rightarrow> Some (nonce, op, None, t)
                | op # ctx # _ \<Rightarrow>
                    Some (nonce, op, Some (map (\<lambda>x. if x = CHR ''-'' then CHR ''.'' else x) ctx), t)
                | [] \<Rightarrow> None))
      | _ \<Rightarrow> None)"

section \<open>The shape of a generated nonce\<close>

lemma radix_string_chars: "2 \<le> b \<Longrightarrow> b \<le> 36 \<Longrightarrow> \<forall>c \<in> set (radix_string b n). digit_value c < b"
proof (induction b n rule: radix_string.induct)
  case (1 b n)
  show ?case
  proof (cases "n < b")
    case True
    with 1 show ?thesis by (simp add: radix_string.simps [of b n])
  next
    case False
    moreover have "n mod b < b" using 1 by simp
    moreover have "n mod b < 36" by (rule less_le_trans [OF \<open>n mod b < b\<close> 1(3)])
    moreover from this have "digit_value (digit_char (n mod b)) = n mod b" by simp
    ultimately show ?thesis using 1 by (subst radix_string.simps) auto
  qed
qed

lemma digit_value_dot: "digit_value CHR ''.'' = 36" "digit_value CHR ''-'' = 36" "digit_value CHR '':'' = 36"
  "digit_value CHR ''+'' = 36"
  by code_simp+

lemma digit_not_space: "digit_value c < 36 \<Longrightarrow> \<not> js_space c"
  by (auto simp: digit_value_def js_space_def Let_def split: if_splits)

lemma parse_int36_string: "parse_int36 (radix_string 36 n) = Some (int n)"
proof -
  let ?s = "radix_string 36 n"
  have d: "\<forall>c \<in> set ?s. digit_value c < 36" by (rule radix_string_chars) simp_all
  have ne: "?s \<noteq> []" by simp
  then have h: "hd ?s \<in> set ?s" by (rule hd_in_set)
  then have "\<not> js_space (hd ?s)" "hd ?s \<noteq> CHR ''-''" "hd ?s \<noteq> CHR ''+''"
    using d digit_not_space digit_value_dot by (metis less_irrefl)+
  moreover from this(1) have "dropWhile js_space ?s = ?s" by (simp add: dropWhile_idem_hd)
  moreover have "takeWhile (\<lambda>c. digit_value c < 36) ?s = ?s" using d by (simp add: takeWhile_eq_all_conv)
  ultimately show ?thesis by (simp add: parse_int36_def Let_def del: takeWhile_eq_all_conv)
qed

lemma pad2_hex: "b < 256 \<Longrightarrow> length (pad_start 2 CHR ''0'' (radix_string 16 b)) = 2 \<and>
    (\<forall>c \<in> set (pad_start 2 CHR ''0'' (radix_string 16 b)). digit_value c < 16)"
  using radix_string_length_le [of 16 b 2] radix_string_chars [of 16 b] by (auto simp: pad_start_def)

lemma random_part_shape:
  "\<forall>b \<in> set bytes. b < 256 \<Longrightarrow> length (random_part bytes) = 2 * length bytes \<and>
    (\<forall>c \<in> set (random_part bytes). digit_value c < 16)"
  by (induction bytes) (auto simp: random_part_def pad2_hex simp del: length_pad_start)

lemma scope_no_dot: "CHR ''.'' \<notin> set (create_operation_scope op ctx)"
  by (cases op; cases ctx) (auto simp: create_operation_scope_def)

lemma scope_head: "\<exists>c cs. create_operation_scope op ctx = c # cs \<and> \<not> js_space c"
  by (cases op; cases ctx) (auto simp: create_operation_scope_def js_space_def Let_def)

lemma js_trim_ends: "s \<noteq> [] \<Longrightarrow> \<not> js_space (hd s) \<Longrightarrow> \<not> js_space (last s) \<Longrightarrow> js_trim s = s"
  by (rule js_trim_no_space_ends) simp

text \<open>What validation sees of a string composed like a nonce.\<close>

lemma composed_nonce:
  fixes op ctx t r
  assumes t: "0 \<le> t" and r: "r \<noteq> []" "\<forall>c \<in> set r. digit_value c < 16"
  defines "s \<equiv> create_operation_scope op ctx @ ''.'' @ base36 t @ ''.'' @ r"
  shows "js_trim s = s" "js_split CHR ''.'' s = [create_operation_scope op ctx, base36 t, r]"
    "\<not> blank s" "s \<noteq> []"
proof -
  obtain c cs where c: "create_operation_scope op ctx = c # cs" "\<not> js_space c" using scope_head by blast
  have "last s = last r" using r by (simp add: s_def)
  moreover have "digit_value (last r) < 16" using r last_in_set by blast
  then have "\<not> js_space (last r)" by (intro digit_not_space) simp
  ultimately show trim: "js_trim s = s" using c by (intro js_trim_ends) (simp_all add: s_def)
  show "s \<noteq> []" by (simp add: s_def)
  with trim show "\<not> blank s" by (simp add: blank_def)
  have b: "base36 t = radix_string 36 (nat t)" using t by (simp add: base36_def)
  have "CHR ''.'' \<notin> set (base36 t)" using radix_string_chars [of 36 "nat t"] digit_value_dot(1) unfolding b by fastforce
  moreover have "CHR ''.'' \<notin> set r" using r(2) digit_value_dot(1) by fastforce
  ultimately show "js_split CHR ''.'' s = [create_operation_scope op ctx, base36 t, r]"
    unfolding s_def by (simp add: js_split_append scope_no_dot js_split_no_sep)
qed

lemma parse_base36: "0 \<le> t \<Longrightarrow> parse_int36 (base36 t) = Some t"
  by (simp add: base36_def parse_int36_string)

section \<open>Properties\<close>

lemma validate_static_composed:
  assumes t: "0 \<le> t" and r: "r \<noteq> []" "\<forall>c \<in> set r. digit_value c < 16"
    and skew: "0 \<le> (case vo_max_skew opts of None \<Rightarrow> 60000 | Some s \<Rightarrow> s)"
  defines "s \<equiv> create_operation_scope (vo_operation opts) (vo_context opts) @ ''.'' @ base36 t @ ''.'' @ r"
    and "skew \<equiv> (case vo_max_skew opts of None \<Rightarrow> 60000 | Some s \<Rightarrow> s)"
    and "validity \<equiv> (case vo_validity opts of None \<Rightarrow> default_nonce_validity_ms | Some v \<Rightarrow> v)"
  shows "map_sum nr_code ni_nonce (validate_static now (Some s) opts) =
    (if now - t > skew then Inl CLOCK_SKEW else if now - t > validity then Inl EXPIRED
     else if length r \<noteq> 64 then Inl INVALID_SIGNATURE else Inr s)"
proof -
  note c = composed_nonce [OF t r, of "vo_operation opts" "vo_context opts", folded s_def]
  have "\<bar>now - t\<bar> > skew \<and> now > t \<longleftrightarrow> now - t > skew" using skew unfolding skew_def by linarith
  moreover have "is_valid_hex_string r 32 \<longleftrightarrow> length r = 64"
    using r by (simp add: is_valid_hex_string_def hex_char_def list_all_iff)
  ultimately show ?thesis
    using c parse_base36 [OF t] by (simp add: validate_static_def Let_def skew_def [symmetric] validity_def [symmetric] nonce_failure_def)
qed

text \<open>
  no generated nonce is ever valid. Generation makes 16 random bytes, 32 hexadecimal characters, while
  validation asks for 32 bytes, 64 characters: for the same operation and context and in time the result is
  \<open>INVALID_SIGNATURE\<close>, and under no options, at no time, is it valid.
\<close>

theorem generated_nonce_never_valid:
  fixes g :: generation_options
  assumes now: "0 \<le> now" and bytes: "length bytes = 16" "\<forall>b \<in> set bytes. b < 256"
  defines "n \<equiv> ni_nonce (generate_execution_nonce now bytes g)"
  shows "\<not> nr_valid (fst (validate_execution_nonce now' (Some n) opts used)) \<and>
    (vo_operation opts = go_operation g \<and> vo_context opts = go_context g \<and>
       vo_max_skew opts = None \<and> vo_validity opts = None \<and> now' \<le> now + 60000 \<longrightarrow>
     nr_code (fst (validate_execution_nonce now' (Some n) opts used)) = INVALID_SIGNATURE)"
proof -
  let ?r = "random_part bytes"
  have r: "length ?r = 32" "\<forall>c \<in> set ?r. digit_value c < 16" "?r \<noteq> []"
    using random_part_shape [OF bytes(2)] bytes(1) by auto
  have n: "n = create_operation_scope (go_operation g) (go_context g) @ ''.'' @ base36 now @ ''.'' @ ?r"
    by (simp add: n_def generate_execution_nonce_def)
  note c = composed_nonce [OF now r(3,2), of "go_operation g" "go_context g", folded n]
  have "\<not> is_valid_hex_string ?r 32" using r by (simp add: is_valid_hex_string_def)
  with c parse_base36 [OF now] have inv: "\<exists>code msg. validate_static now' (Some n) opts = Inl (nonce_failure code msg)"
    by (simp add: validate_static_def Let_def) blast
  have code: "nr_code (fst (validate_execution_nonce now' (Some n) opts used)) = INVALID_SIGNATURE"
    if o: "vo_operation opts = go_operation g" "vo_context opts = go_context g"
      "vo_max_skew opts = None" "vo_validity opts = None" "now' \<le> now + 60000"
  proof -
    have "map_sum nr_code ni_nonce (validate_static now' (Some n) opts) = Inl INVALID_SIGNATURE"
      using validate_static_composed [OF now r(3,2), of opts now'] o r(1) n
      by (simp add: default_nonce_validity_ms_def)
    then show ?thesis
      by (cases "validate_static now' (Some n) opts") (simp_all add: validate_execution_nonce_def)
  qed
  from inv code show ?thesis by (auto simp: validate_execution_nonce_def nonce_failure_def)
qed

definition example_validation :: validation_options where
  "example_validation = \<lparr>vo_operation = BatchConfirmation, vo_context = Some ''b.1'', vo_max_skew = None,
     vo_validity = None, vo_check_if_used = True, vo_mark_as_used = True\<rparr>"

theorem generated_nonce_never_valid_witness:
  "nr_code (fst (validate_execution_nonce 1700000000000
     (Some (ni_nonce (generate_execution_nonce 1700000000000 (replicate 16 7)
        \<lparr>go_operation = BatchConfirmation, go_context = Some ''b.1'', go_validity = None\<rparr>)))
     example_validation [])) = INVALID_SIGNATURE"
  using generated_nonce_never_valid [of 1700000000000 "replicate 16 7" 1700000000000
      "\<lparr>go_operation = BatchConfirmation, go_context = Some ''b.1'', go_validity = None\<rparr>" example_validation "[]"]
  by (simp add: example_validation_def)

text \<open>
  a nonce with 32 random bytes for the right scope is accepted, before the store is asked, exactly
  while neither the skew tolerance nor the validity has passed since its timestamp: the tolerance, 60
  seconds by default, cuts the validity short, and a timestamp in the future is accepted however far.
\<close>

theorem nonce_time_window:
  assumes "0 \<le> t" "length r = 64" "\<forall>c \<in> set r. digit_value c < 16" "0 \<le> skew"
    and "vo_max_skew opts = Some skew" "vo_validity opts = Some validity"
  shows "is_ok (validate_static now
      (Some (create_operation_scope (vo_operation opts) (vo_context opts) @ ''.'' @ base36 t @ ''.'' @ r)) opts) \<longleftrightarrow>
    now \<le> t + min skew validity"
proof -
  let ?s = "create_operation_scope (vo_operation opts) (vo_context opts) @ ''.'' @ base36 t @ ''.'' @ r"
  have "r \<noteq> []" using assms(2) by auto
  from validate_static_composed [OF assms(1) this assms(3), of opts now] assms
  have "is_ok (map_sum nr_code ni_nonce (validate_static now (Some ?s) opts)) \<longleftrightarrow> now \<le> t + min skew validity"
    by auto
  then show ?thesis by (cases "validate_static now (Some ?s) opts") simp_all
qed

theorem nonce_time_window_witness:
  "is_ok (validate_static 0
     (Some (create_operation_scope BatchConfirmation None @ ''.'' @ base36 999999999 @ ''.'' @ replicate 64 CHR ''a''))
     \<lparr>vo_operation = BatchConfirmation, vo_context = None, vo_max_skew = Some 60000, vo_validity = Some 3600000,
      vo_check_if_used = False, vo_mark_as_used = False\<rparr>)"
proof -
  have "digit_value CHR ''a'' < 16" by code_simp
  then show ?thesis
    using nonce_time_window [of 999999999 "replicate 64 CHR ''a''" 60000
      "\<lparr>vo_operation = BatchConfirmation, vo_context = None, vo_max_skew = Some 60000, vo_validity = Some 3600000,
      vo_check_if_used = False, vo_mark_as_used = False\<rparr>" 3600000 0] by simp
qed

text \<open>Validations one after the other.\<close>

fun validate_sequence ::
  "(int \<times> string option \<times> validation_options) list \<Rightarrow> string list \<Rightarrow> nonce_result list \<times> string list" where
  "validate_sequence [] used = ([], used)"
| "validate_sequence ((now, nonce, opts) # vs) used =
     (let (r, used1) = validate_execution_nonce now nonce opts used; (rs, used2) = validate_sequence vs used1
      in (r # rs, used2))"

definition confirmed_nonces :: "nonce_result list \<Rightarrow> string list" where
  "confirmed_nonces rs = map ni_nonce (List.map_filter nr_info rs)"

lemma confirmed_nonces_simps [simp]:
  "confirmed_nonces [] = []"
  "confirmed_nonces (r # rs) =
     (case nr_info r of None \<Rightarrow> confirmed_nonces rs | Some i \<Rightarrow> ni_nonce i # confirmed_nonces rs)"
  by (simp_all add: confirmed_nonces_def List.map_filter_def split: option.split)

lemma fst_validate_sequence:
  "fst (validate_sequence ((now, nonce, opts) # vs) used) =
     (case validate_execution_nonce now nonce opts used of (r, used1) \<Rightarrow> r # fst (validate_sequence vs used1))"
  by (simp split: prod.split)

text \<open>
  with the callbacks in use, validations that do not overlap confirm a nonce at most once, and never
  one the store had before.
\<close>

theorem sequential_validations_confirm_once:
  assumes "\<forall>(now, nonce, opts) \<in> set vs. vo_check_if_used opts \<and> vo_mark_as_used opts"
  shows "distinct (confirmed_nonces (fst (validate_sequence vs used))) \<and>
    set (confirmed_nonces (fst (validate_sequence vs used))) \<inter> set used = {}"
  using assms
proof (induction vs arbitrary: used)
  case Nil
  then show ?case by simp
next
  case (Cons v vs)
  obtain now nonce opts where v: "v = (now, nonce, opts)" by (cases v) auto
  have o: "vo_check_if_used opts" "vo_mark_as_used opts" using Cons.prems v by auto
  have IH: "distinct (confirmed_nonces (fst (validate_sequence vs us))) \<and>
      set (confirmed_nonces (fst (validate_sequence vs us))) \<inter> set us = {}" for us
    using Cons by simp
  show ?case
  proof (cases "validate_static now nonce opts")
    case (Inl e)
    then have "nr_info e = None"
      by (auto simp: validate_static_def nonce_failure_def Let_def split: if_splits list.splits option.splits)
    with Inl IH [of used] show ?thesis by (simp add: v fst_validate_sequence validate_execution_nonce_def del: validate_sequence.simps)
  next
    case (Inr i)
    with o IH [of used] IH [of "ni_nonce i # used"] show ?thesis
      by (auto simp: v fst_validate_sequence validate_execution_nonce_def already_used_def nonce_failure_def
          nonce_success_def simp del: validate_sequence.simps)
  qed
qed

definition example_nonce :: string where
  "example_nonce = ''batch_confirmation:b-1.0.'' @ replicate 64 CHR ''a''"

lemma example_nonce_static: "validate_static 0 (Some example_nonce) example_validation =
    Inr \<lparr>ni_nonce = example_nonce, ni_operation = BatchConfirmation, ni_context = Some ''b.1'',
      ni_generated_at = 0, ni_expires_at = 3600000\<rparr>"
  by code_simp

theorem sequential_validations_confirm_once_witness:
  "confirmed_nonces (fst (validate_sequence
     [(0, Some example_nonce, example_validation), (0, Some example_nonce, example_validation)] [])) = [example_nonce] \<and>
   distinct (confirmed_nonces (fst (validate_sequence
     [(0, Some example_nonce, example_validation), (0, Some example_nonce, example_validation)] [])))"
  using sequential_validations_confirm_once [of
      "[(0, Some example_nonce, example_validation), (0, Some example_nonce, example_validation)]" "[]"]
    example_nonce_static
  by (simp add: validate_execution_nonce_def nonce_success_def
      already_used_def nonce_failure_def example_validation_def)

text \<open>
  a batch confirms a replayed nonce: its members all ask the store before any of them marks, so the
  same fresh nonce given twice in one batch is valid twice.
\<close>

theorem batch_confirms_replay:
  assumes "validate_static now (Some n) opts = Inr i" "ni_nonce i \<notin> set used"
  shows "are_execution_nonces_valid now [Some n, Some n] opts used"
  using assms
  by (simp add: are_execution_nonces_valid_def validate_execution_nonces_batch_def validate_execution_nonce_def
      nonce_success_def Let_def)

theorem batch_confirms_replay_witness:
  "are_execution_nonces_valid 0 [Some example_nonce, Some example_nonce] example_validation []"
  by (rule batch_confirms_replay [OF example_nonce_static]) simp

end
