(* ===== verification/Systems.thy ===== *)
theory Systems
  imports Main
begin

text \<open>
  Transition systems for the parts of the SDK whose operations interleave: reachable states, runs along a list
  of labels, and the two contracts the components share, an inductive invariant and the simulation of an
  abstract system. A system is a predicate on initial states and a labelled step relation.
\<close>

section \<open>Reachable states and runs\<close>

inductive reachable :: "('s \<Rightarrow> bool) \<Rightarrow> ('s \<Rightarrow> 'l \<Rightarrow> 's \<Rightarrow> bool) \<Rightarrow> 's \<Rightarrow> bool" for start step where
  reachable_start: "start s \<Longrightarrow> reachable start step s"
| reachable_step: "reachable start step s \<Longrightarrow> step s l t \<Longrightarrow> reachable start step t"

inductive runs :: "('s \<Rightarrow> 'l \<Rightarrow> 's \<Rightarrow> bool) \<Rightarrow> 's \<Rightarrow> 'l list \<Rightarrow> 's \<Rightarrow> bool" for step where
  runs_Nil: "runs step s [] s"
| runs_Cons: "step s l t \<Longrightarrow> runs step t ls u \<Longrightarrow> runs step s (l # ls) u"

inductive_cases runs_NilE: "runs step s [] t"
inductive_cases runs_ConsE: "runs step s (l # ls) t"

inductive_simps runs_Nil_iff [simp]: "runs step s [] t"
inductive_simps runs_Cons_iff: "runs step s (l # ls) t"

lemma runs_reachable: "runs step s ls t \<Longrightarrow> reachable start step s \<Longrightarrow> reachable start step t"
  by (induction rule: runs.induct) (auto intro: reachable_step)

lemma runs_append: "runs step s (ls @ ms) u \<longleftrightarrow> (\<exists>t. runs step s ls t \<and> runs step t ms u)"
  by (induction ls arbitrary: s) (auto simp: runs_Cons_iff)

section \<open>Invariants\<close>

locale inductive_invariant =
  fixes start :: "'s \<Rightarrow> bool"
    and step :: "'s \<Rightarrow> 'l \<Rightarrow> 's \<Rightarrow> bool"
    and inv :: "'s \<Rightarrow> bool"
  assumes start_inv: "start s \<Longrightarrow> inv s"
    and step_inv: "inv s \<Longrightarrow> step s l t \<Longrightarrow> inv t"
begin

lemma reachable_inv: "reachable start step s \<Longrightarrow> inv s"
  by (induction rule: reachable.induct) (auto intro: start_inv step_inv)

lemma runs_inv: "runs step s ls t \<Longrightarrow> inv s \<Longrightarrow> inv t"
  by (induction rule: runs.induct) (auto intro: step_inv)

end

section \<open>Simulation\<close>

text \<open>Each concrete step is a step of the abstract system under the abstraction function, or leaves the
  abstract state as it is.\<close>

locale simulation = inductive_invariant start step inv
  for start :: "'s \<Rightarrow> bool" and step :: "'s \<Rightarrow> 'l \<Rightarrow> 's \<Rightarrow> bool" and inv :: "'s \<Rightarrow> bool" +
  fixes abs :: "'s \<Rightarrow> 'a"
    and abs_start :: "'a \<Rightarrow> bool"
    and abs_step :: "'a \<Rightarrow> 'l \<Rightarrow> 'a \<Rightarrow> bool"
  assumes abs_of_start: "start s \<Longrightarrow> abs_start (abs s)"
    and abs_of_step: "inv s \<Longrightarrow> step s l t \<Longrightarrow> abs_step (abs s) l (abs t) \<or> abs t = abs s"
begin

lemma reachable_abs: "reachable start step s \<Longrightarrow> reachable abs_start abs_step (abs s)"
proof (induction rule: reachable.induct)
  case (reachable_start s)
  then show ?case by (intro reachable.reachable_start abs_of_start)
next
  case (reachable_step s l t)
  then have "abs_step (abs s) l (abs t) \<or> abs t = abs s" by (intro abs_of_step reachable_inv)
  with reachable_step.IH show ?case by (metis reachable.reachable_step)
qed

lemma abstract_safety:
  "reachable start step s \<Longrightarrow> (\<And>a. reachable abs_start abs_step a \<Longrightarrow> P a) \<Longrightarrow> P (abs s)"
  by (simp add: reachable_abs)

end

end
