(* ===== verification/Semaphore.thy ===== *)
theory Semaphore
  imports Prelude Systems
begin

text \<open>
  The FIFO semaphore that bounds proof generation (\<open>packages/core/src/core/concurrency.ts\<close>). Its operations run
  to completion between two awaits, so a system of callers interleaves whole operations. A caller is a number;
  a waiter of the code, the closure that resolves a caller's promise, is the caller it resolves.
\<close>

section \<open>The class\<close>

record semaphore =
  sem_max_permits :: nat
  sem_active :: nat
  sem_waiters :: "nat list"

definition new_semaphore :: "jsnum \<Rightarrow> (string, semaphore) result" where
  "new_semaphore permits =
     (case permits of
        NonInteger \<Rightarrow> Inl ''Semaphore permits must be a positive integer''
      | Whole n \<Rightarrow>
          if n < 1 then Inl ''Semaphore permits must be a positive integer''
          else Inr \<lparr>sem_max_permits = nat n, sem_active = 0, sem_waiters = []\<rparr>)"

text \<open>The flag tells whether the promise is resolved at once.\<close>

definition sem_acquire :: "nat \<Rightarrow> semaphore \<Rightarrow> semaphore \<times> bool" where
  "sem_acquire caller s =
     (if sem_active s < sem_max_permits s then (s\<lparr>sem_active := sem_active s + 1\<rparr>, True)
      else (s\<lparr>sem_waiters := sem_waiters s @ [caller]\<rparr>, False))"

text \<open>The waiter whose promise is resolved by a release, if any; natural numbers subtract to 0 at least.\<close>

definition sem_release :: "semaphore \<Rightarrow> semaphore \<times> nat option" where
  "sem_release s =
     (case sem_waiters s of
        w # ws \<Rightarrow> (s\<lparr>sem_waiters := ws\<rparr>, Some w)
      | [] \<Rightarrow> (s\<lparr>sem_active := sem_active s - 1\<rparr>, None))"

definition active_count :: "semaphore \<Rightarrow> nat" where
  "active_count s = sem_active s"

definition waiting_count :: "semaphore \<Rightarrow> nat" where
  "waiting_count s = length (sem_waiters s)"

section \<open>Callers of runExclusive\<close>

text \<open>
  The callers that run between their acquire and their release, in the order they were granted a permit, beside
  the semaphore. \<open>runExclusive\<close> acquires, runs its function and releases exactly once, also when it throws.
\<close>

record callers =
  cl_sem :: semaphore
  cl_running :: "nat list"
  cl_requested :: "nat list"
  cl_granted :: "nat list"

datatype caller_event = Enter nat | Leave nat

definition enter :: "nat \<Rightarrow> callers \<Rightarrow> callers" where
  "enter c s =
     (let (sem, granted) = sem_acquire c (cl_sem s) in
      s\<lparr>cl_sem := sem, cl_requested := cl_requested s @ [c],
        cl_running := cl_running s @ (if granted then [c] else []),
        cl_granted := cl_granted s @ (if granted then [c] else [])\<rparr>)"

definition leave :: "nat \<Rightarrow> callers \<Rightarrow> callers" where
  "leave c s =
     (let (sem, woken) = sem_release (cl_sem s);
          woken_list = (case woken of None \<Rightarrow> [] | Some w \<Rightarrow> [w])
      in s\<lparr>cl_sem := sem, cl_running := remove1 c (cl_running s) @ woken_list,
           cl_granted := cl_granted s @ woken_list\<rparr>)"

inductive callers_step :: "callers \<Rightarrow> caller_event \<Rightarrow> callers \<Rightarrow> bool" where
  entering: "c \<notin> set (cl_requested s) \<Longrightarrow> callers_step s (Enter c) (enter c s)"
| leaving: "c \<in> set (cl_running s) \<Longrightarrow> callers_step s (Leave c) (leave c s)"

inductive_cases EnterE: "callers_step s (Enter c) t"
inductive_cases LeaveE: "callers_step s (Leave c) t"

definition callers_start :: "jsnum \<Rightarrow> callers \<Rightarrow> bool" where
  "callers_start permits s \<longleftrightarrow>
     new_semaphore permits = Inr (cl_sem s) \<and> cl_running s = [] \<and> cl_requested s = [] \<and> cl_granted s = []"

section \<open>The abstract semaphore: a line of callers\<close>

text \<open>
  What the class promises: unfinished callers stand in line in the order of their requests, and the first
  \<open>n\<close> of the line run. A new caller joins at the end; only one of the first \<open>n\<close> may leave.
\<close>

inductive line_step :: "nat \<Rightarrow> nat list \<Rightarrow> caller_event \<Rightarrow> nat list \<Rightarrow> bool" for n where
  joins: "line_step n q (Enter c) (q @ [c])"
| leaves: "c \<in> set (take n q) \<Longrightarrow> line_step n q (Leave c) (remove1 c q)"

definition line_of :: "callers \<Rightarrow> nat list" where
  "line_of s = cl_running s @ sem_waiters (cl_sem s)"

definition callers_inv :: "nat \<Rightarrow> callers \<Rightarrow> bool" where
  "callers_inv n s \<longleftrightarrow>
     sem_max_permits (cl_sem s) = n \<and>
     sem_active (cl_sem s) = length (cl_running s) \<and>
     cl_running s = take n (line_of s) \<and>
     cl_granted s @ sem_waiters (cl_sem s) = cl_requested s \<and>
     set (line_of s) \<subseteq> set (cl_requested s) \<and>
     distinct (cl_requested s) \<and> distinct (line_of s)"

lemma callers_inv_bounds:
  assumes "callers_inv n s"
  shows "length (cl_running s) \<le> n" "sem_waiters (cl_sem s) \<noteq> [] \<Longrightarrow> length (cl_running s) = n"
proof -
  let ?r = "cl_running s" and ?w = "sem_waiters (cl_sem s)"
  have "?r = take n (?r @ ?w)" using assms by (simp add: callers_inv_def line_of_def)
  then have "length ?r = min n (length ?r + length ?w)" by (metis length_append length_take min.commute)
  note len = this
  show "length ?r \<le> n" using len by linarith
  assume "?w \<noteq> []"
  then have "0 < length ?w" by simp
  with len show "length ?r = n" by linarith
qed

lemma running_prefix: "length r \<le> n \<Longrightarrow> (w \<noteq> [] \<longrightarrow> length r = n) \<Longrightarrow> r = take n (r @ w)"
  by (cases w) simp_all

lemma enter_inv:
  assumes "callers_inv n s" "c \<notin> set (cl_requested s)"
  shows "callers_inv n (enter c s)" "line_of (enter c s) = line_of s @ [c]"
proof -
  note b = callers_inv_bounds [OF assms(1)]
  let ?r = "cl_running s" and ?w = "sem_waiters (cl_sem s)"
  have room: "?w = []" if "length ?r < n" using b(2) that by auto
  have fresh: "c \<notin> set (line_of s)" using assms by (auto simp: callers_inv_def)
  show line: "line_of (enter c s) = line_of s @ [c]"
    using assms(1) room by (simp add: enter_def sem_acquire_def callers_inv_def line_of_def)
  have "cl_running (enter c s) = take n (line_of (enter c s))"
  proof (cases "length ?r < n")
    case True
    with room assms(1) show ?thesis
      by (simp add: line enter_def sem_acquire_def callers_inv_def line_of_def)
  next
    case False
    with b(1) have "length ?r = n" by simp
    with assms(1) show ?thesis by (simp add: line enter_def sem_acquire_def callers_inv_def line_of_def)
  qed
  moreover have "cl_granted (enter c s) @ sem_waiters (cl_sem (enter c s)) = cl_requested (enter c s)"
    using assms(1) room by (auto simp: enter_def sem_acquire_def callers_inv_def line_of_def)
  ultimately show "callers_inv n (enter c s)"
    using assms fresh line
    by (auto simp: callers_inv_def enter_def sem_acquire_def)
qed

lemma leave_inv:
  assumes "callers_inv n s" "c \<in> set (cl_running s)"
  shows "callers_inv n (leave c s)" "line_of (leave c s) = remove1 c (line_of s)"
proof -
  note b = callers_inv_bounds [OF assms(1)]
  let ?r = "cl_running s" and ?w = "sem_waiters (cl_sem s)"
  have d: "distinct ?r" "distinct ?w" "set ?r \<inter> set ?w = {}"
    using assms(1) by (simp_all add: callers_inv_def line_of_def)
  have line: "line_of (leave c s) = remove1 c (line_of s)"
    using assms(2) by (cases ?w) (simp_all add: leave_def sem_release_def line_of_def remove1_append Let_def)
  show "line_of (leave c s) = remove1 c (line_of s)" by (rule line)
  have pos: "0 < length ?r" using assms(2) by (cases ?r) simp_all
  have "cl_running (leave c s) = take n (cl_running (leave c s) @ sem_waiters (cl_sem (leave c s)))"
  proof (rule running_prefix)
    show "length (cl_running (leave c s)) \<le> n"
      using b pos assms(2) by (cases ?w) (simp_all add: leave_def sem_release_def length_remove1 Let_def)
    show "sem_waiters (cl_sem (leave c s)) \<noteq> [] \<longrightarrow> length (cl_running (leave c s)) = n"
      using b(2) pos assms(2) by (cases ?w) (simp_all add: leave_def sem_release_def length_remove1 Let_def)
  qed
  moreover have "sem_active (cl_sem (leave c s)) = length (cl_running (leave c s))"
    using assms pos by (cases ?w) (simp_all add: leave_def sem_release_def length_remove1 Let_def callers_inv_def)
  moreover have "cl_granted (leave c s) @ sem_waiters (cl_sem (leave c s)) = cl_requested (leave c s)"
    "cl_requested (leave c s) = cl_requested s" "sem_max_permits (cl_sem (leave c s)) = n"
    using assms(1) by (cases ?w; simp add: leave_def sem_release_def callers_inv_def Let_def)+
  moreover have "set (line_of (leave c s)) \<subseteq> set (cl_requested s)" "distinct (line_of (leave c s))"
    using assms(1) set_remove1_subset [of c "line_of s"] by (auto simp: line callers_inv_def)
  ultimately show "callers_inv n (leave c s)"
    using assms(1) by (simp add: callers_inv_def line_of_def)
qed

lemma start_inv:
  assumes "callers_start (Whole (int n)) s"
  shows "callers_inv n s" "line_of s = []"
proof -
  have "cl_sem s = \<lparr>sem_max_permits = n, sem_active = 0, sem_waiters = []\<rparr>"
    using assms by (auto simp: callers_start_def new_semaphore_def split: if_splits)
  with assms show "callers_inv n s" "line_of s = []" by (simp_all add: callers_start_def callers_inv_def line_of_def)
qed

interpretation callers: simulation "callers_start (Whole (int n))" callers_step "callers_inv n" line_of "\<lambda>q. q = []"
  "line_step n" for n
proof unfold_locales
  fix s l t
  assume inv: "callers_inv n s" and step: "callers_step s l t"
  from step inv show "callers_inv n t" by cases (auto intro: enter_inv(1) leave_inv(1))
  from step have "line_step n (line_of s) l (line_of t)"
  proof cases
    case (entering c)
    with inv show ?thesis by (simp add: enter_inv(2) line_step.joins)
  next
    case (leaving c)
    from inv have "cl_running s = take n (line_of s)" by (simp add: callers_inv_def)
    with leaving inv show ?thesis by (simp add: leave_inv(2) line_step.leaves)
  qed
  then show "line_step n (line_of s) l (line_of t) \<or> line_of t = line_of s" ..
qed (auto dest: start_inv)

section \<open>Properties\<close>

text \<open>
  C8: under every interleaving of callers of \<open>runExclusive\<close> the semaphore behaves as a line: the unfinished
  callers in the order of their requests form a reachable line of the abstract semaphore, and exactly its first
  \<open>n\<close> run.
\<close>

theorem semaphore_refines_line:
  assumes "reachable (callers_start (Whole (int n))) callers_step s"
  shows "reachable (\<lambda>q. q = []) (line_step n) (line_of s) \<and> cl_running s = take n (line_of s)"
  using callers.reachable_abs [OF assms] callers.reachable_inv [OF assms] by (simp add: callers_inv_def)

text \<open>
  C40: at most \<open>n\<close> callers run at a time, no permit is lost (a caller waits only while \<open>n\<close> others run, and
  \<open>activeCount\<close> is the number that run), and permits are granted in the order they were requested.
\<close>

theorem semaphore_is_fair_and_bounded:
  assumes "reachable (callers_start (Whole (int n))) callers_step s"
  shows "length (cl_running s) \<le> n \<and> active_count (cl_sem s) = length (cl_running s) \<and>
    (0 < waiting_count (cl_sem s) \<longrightarrow> length (cl_running s) = n) \<and>
    cl_granted s = take (length (cl_granted s)) (cl_requested s)"
proof -
  from assms have inv: "callers_inv n s" by (rule callers.reachable_inv)
  then have "cl_granted s @ sem_waiters (cl_sem s) = cl_requested s" by (simp add: callers_inv_def)
  then have "cl_granted s = take (length (cl_granted s)) (cl_requested s)" by (metis append_eq_conv_conj)
  with inv callers_inv_bounds [OF inv] show ?thesis
    by (simp add: active_count_def waiting_count_def callers_inv_def)
qed

definition example_callers :: callers where
  "example_callers =
     leave 1 (enter 3 (enter 2 (enter 1
       \<lparr>cl_sem = \<lparr>sem_max_permits = 1, sem_active = 0, sem_waiters = []\<rparr>, cl_running = [], cl_requested = [],
        cl_granted = []\<rparr>)))"

lemma example_callers_reachable: "reachable (callers_start (Whole (int 1))) callers_step example_callers"
proof -
  let ?s0 = "\<lparr>cl_sem = \<lparr>sem_max_permits = 1, sem_active = 0, sem_waiters = []\<rparr>, cl_running = [], cl_requested = [],
        cl_granted = []\<rparr>"
  have "callers_start (Whole (int 1)) ?s0" by (simp add: callers_start_def new_semaphore_def)
  then have 0: "reachable (callers_start (Whole (int 1))) callers_step ?s0" by (rule reachable_start)
  have 1: "callers_step ?s0 (Enter 1) (enter 1 ?s0)" by (rule entering) simp
  have 2: "callers_step (enter 1 ?s0) (Enter 2) (enter 2 (enter 1 ?s0))"
    by (rule entering) (simp add: enter_def sem_acquire_def)
  have 3: "callers_step (enter 2 (enter 1 ?s0)) (Enter 3) (enter 3 (enter 2 (enter 1 ?s0)))"
    by (rule entering) (simp add: enter_def sem_acquire_def)
  have 4: "callers_step (enter 3 (enter 2 (enter 1 ?s0))) (Leave 1) example_callers"
    unfolding example_callers_def by (rule leaving) (simp add: enter_def sem_acquire_def)
  from 0 1 2 3 4 show ?thesis by (meson reachable_step)
qed

theorem semaphore_refines_line_witness:
  "reachable (\<lambda>q. q = []) (line_step 1) (line_of example_callers) \<and> cl_running example_callers = take 1 (line_of example_callers)"
  by (rule semaphore_refines_line [OF example_callers_reachable])

theorem semaphore_is_fair_and_bounded_witness:
  "length (cl_running example_callers) \<le> 1 \<and> cl_running example_callers = [2]"
  using semaphore_is_fair_and_bounded [OF example_callers_reachable]
  by (simp add: example_callers_def enter_def leave_def sem_acquire_def sem_release_def Let_def)

end
