(* ===== verification/EventProcessing.thy ===== *)
theory EventProcessing
  imports Prelude Systems
begin

text \<open>
  Idempotent processing of contract events (\<open>packages/core/src/indexer/IdempotentEventProcessor.ts\<close>) with the
  in-memory replay detector and cursor storage of the same directory. An event is processed in four steps, the
  calls of the two stores, between which other calls of the processor may run; a store other than the in-memory
  ones may reject, so each step is told whether it does. Payloads, reasons and time stamps are left out.
\<close>

section \<open>Positions\<close>

datatype event_position =
  Position (ledger_sequence: int) (transaction_position: int) (operation_position: int) (event_position: int)

definition position_key :: "event_position \<Rightarrow> int list" where
  "position_key p = [ledger_sequence p, transaction_position p, operation_position p, event_position p]"

text \<open>Positions are ordered lexicographically.\<close>

instantiation event_position :: linorder
begin

definition less_event_position :: "event_position \<Rightarrow> event_position \<Rightarrow> bool" where
  "less_event_position p q \<longleftrightarrow>
     ledger_sequence p < ledger_sequence q \<or>
     ledger_sequence p = ledger_sequence q \<and>
       (transaction_position p < transaction_position q \<or>
        transaction_position p = transaction_position q \<and>
          (operation_position p < operation_position q \<or>
           operation_position p = operation_position q \<and> event_position p < event_position q))"

definition less_eq_event_position :: "event_position \<Rightarrow> event_position \<Rightarrow> bool" where
  "less_eq_event_position p q \<longleftrightarrow> p = q \<or> p < q"

instance
  by standard (auto simp: less_eq_event_position_def less_event_position_def intro: event_position.expand)

end

section \<open>Events, cursors and the replay detector\<close>

record event_data =
  ev_id :: string
  ev_batch_root :: string
  ev_position :: event_position

record event_cursor =
  cu_state :: event_position
  cu_last_event_id :: string
  cu_last_batch_root :: string
  cu_corrupted :: bool

text \<open>\<open>records\<close> and \<open>keyIndex\<close> of the detector, and the stored cursor\<close>

record event_stores =
  st_records :: "(string, string \<times> string) dict"
  st_key_index :: "(string, string) dict"
  st_cursor :: "event_cursor option"

definition empty_stores :: event_stores where
  "empty_stores = \<lparr>st_records = [], st_key_index = [], st_cursor = None\<rparr>"

definition composite_key :: "string \<Rightarrow> string \<Rightarrow> string" where
  "composite_key event_id batch_root = event_id @ '':'' @ batch_root"

definition detect_replay :: "string \<Rightarrow> string \<Rightarrow> event_stores \<Rightarrow> bool" where
  "detect_replay event_id batch_root st = (dict_get (st_records st) (composite_key event_id batch_root) \<noteq> None)"

definition record_event :: "string \<Rightarrow> string \<Rightarrow> event_stores \<Rightarrow> event_stores" where
  "record_event event_id batch_root st =
     (let key = composite_key event_id batch_root in
      st\<lparr>st_records := dict_put key (event_id, batch_root) (st_records st),
         st_key_index := dict_put event_id key (st_key_index st)\<rparr>)"

definition save_cursor :: "event_cursor \<Rightarrow> event_stores \<Rightarrow> event_stores" where
  "save_cursor c st = st\<lparr>st_cursor := Some c\<rparr>"

definition clear_detector :: "event_stores \<Rightarrow> event_stores" where
  "clear_detector st = st\<lparr>st_records := [], st_key_index := []\<rparr>"

definition reset_cursor :: "event_stores \<Rightarrow> event_stores" where
  "reset_cursor st = clear_detector (st\<lparr>st_cursor := None\<rparr>)"

definition is_cursor_corrupted :: "event_cursor option \<Rightarrow> event_position \<Rightarrow> bool" where
  "is_cursor_corrupted previous new =
     (case previous of
        None \<Rightarrow> False
      | Some c \<Rightarrow>
          let old = cu_state c in
          if ledger_sequence new < ledger_sequence old then True
          else if ledger_sequence new = ledger_sequence old \<and> transaction_position new < transaction_position old then True
          else if ledger_sequence new = ledger_sequence old \<and> transaction_position new = transaction_position old \<and>
                  operation_position new < operation_position old then True
          else if ledger_sequence new = ledger_sequence old \<and> transaction_position new = transaction_position old \<and>
                  operation_position new = operation_position old \<and> event_position new < event_position old then True
          else False)"

text \<open>The corruption check is the lexicographic order.\<close>

lemma corrupted_iff: "is_cursor_corrupted previous new \<longleftrightarrow> (\<exists>c. previous = Some c \<and> new < cu_state c)"
  by (auto simp: is_cursor_corrupted_def less_event_position_def Let_def split: option.splits)

definition cursor_of :: "event_data \<Rightarrow> bool \<Rightarrow> event_cursor" where
  "cursor_of e corrupted =
     \<lparr>cu_state = ev_position e, cu_last_event_id = ev_id e, cu_last_batch_root = ev_batch_root e, cu_corrupted = corrupted\<rparr>"

section \<open>Processing one event\<close>

record processing_result =
  pr_success :: bool
  pr_replay_detected :: bool
  pr_cursor_advanced :: bool

definition processed_result :: processing_result where
  "processed_result = \<lparr>pr_success = True, pr_replay_detected = False, pr_cursor_advanced = True\<rparr>"

definition duplicate_result :: processing_result where
  "duplicate_result = \<lparr>pr_success = False, pr_replay_detected = True, pr_cursor_advanced = False\<rparr>"

definition error_result :: processing_result where
  "error_result = \<lparr>pr_success = False, pr_replay_detected = False, pr_cursor_advanced = False\<rparr>"

text \<open>A call of \<open>processEvent\<close> is at one of its awaits, or done.\<close>

datatype phase = AtDetect | AtLoad | AtRecord | AtSave | Finished processing_result

definition advance :: "event_data \<Rightarrow> bool \<Rightarrow> event_stores \<times> phase \<Rightarrow> event_stores \<times> phase" where
  "advance e rejects sp =
     (case sp of (st, ph) \<Rightarrow>
      case ph of
        Finished r \<Rightarrow> (st, Finished r)
      | AtDetect \<Rightarrow>
          if rejects then (st, Finished error_result)
          else if detect_replay (ev_id e) (ev_batch_root e) st then (st, Finished duplicate_result)
          else (st, AtLoad)
      | AtLoad \<Rightarrow>
          if rejects \<or> is_cursor_corrupted (st_cursor st) (ev_position e) then (st, Finished error_result)
          else (st, AtRecord)
      | AtRecord \<Rightarrow>
          if rejects then (st, Finished error_result)
          else (record_event (ev_id e) (ev_batch_root e) st, AtSave)
      | AtSave \<Rightarrow>
          if rejects then (st, Finished error_result)
          else (save_cursor (cursor_of e False) st, Finished processed_result))"

text \<open>A call that is not interleaved with another: its four steps, with what rejects at each.\<close>

definition process_event :: "(phase \<Rightarrow> bool) \<Rightarrow> event_data \<Rightarrow> event_stores \<Rightarrow> event_stores \<times> processing_result" where
  "process_event rejects e st =
     (case fold (\<lambda>ph. advance e (rejects ph)) [AtDetect, AtLoad, AtRecord, AtSave] (st, AtDetect) of
        (st', Finished r) \<Rightarrow> (st', r)
      | (st', _) \<Rightarrow> (st', error_result))"

datatype output_status = StatusSuccess | StatusDuplicate | StatusError

record reconciliation_output =
  ro_event_id :: string
  ro_processed :: bool
  ro_status :: output_status
  ro_advanced :: bool

definition output_of :: "event_data \<Rightarrow> processing_result \<Rightarrow> reconciliation_output" where
  "output_of e r =
     \<lparr>ro_event_id = ev_id e, ro_processed = pr_success r,
      ro_status = (if pr_replay_detected r then StatusDuplicate else if pr_success r then StatusSuccess else StatusError),
      ro_advanced = pr_cursor_advanced r\<rparr>"

fun process_event_stream :: "event_data list \<Rightarrow> event_stores \<Rightarrow> event_stores \<times> reconciliation_output list" where
  "process_event_stream [] st = (st, [])"
| "process_event_stream (e # es) st =
     (let (st1, r) = process_event (\<lambda>_. False) e st;
          (st2, rest) = process_event_stream es st1
      in (st2, output_of e r # rest))"

section \<open>The contract\<close>

text \<open>
  What the processor promises: it knows which events it has processed and where the last of them was. An event
  known already is a duplicate, one before the last is an error, any other is processed.
\<close>

record event_log =
  el_seen :: "(string \<times> string) set"
  el_last :: "event_position option"

definition spec_event :: "event_data \<Rightarrow> event_log \<Rightarrow> event_log \<times> output_status" where
  "spec_event e l =
     (if (ev_id e, ev_batch_root e) \<in> el_seen l then (l, StatusDuplicate)
      else if (\<exists>p. el_last l = Some p \<and> ev_position e < p) then (l, StatusError)
      else (\<lparr>el_seen = insert (ev_id e, ev_batch_root e) (el_seen l), el_last = Some (ev_position e)\<rparr>, StatusSuccess))"

fun spec_stream :: "event_data list \<Rightarrow> event_log \<Rightarrow> event_log \<times> output_status list" where
  "spec_stream [] l = (l, [])"
| "spec_stream (e # es) l =
     (let (l1, s) = spec_event e l; (l2, rest) = spec_stream es l1 in (l2, s # rest))"

definition log_of :: "event_stores \<Rightarrow> event_log" where
  "log_of st = \<lparr>el_seen = set (map snd (st_records st)), el_last = map_option cu_state (st_cursor st)\<rparr>"

definition stores_ok :: "event_stores \<Rightarrow> bool" where
  "stores_ok st \<longleftrightarrow>
     dict_ok (st_records st) \<and>
     (\<forall>(k, i, b) \<in> set (st_records st). k = composite_key i b \<and> CHR '':'' \<notin> set i)"


section \<open>Facts about one call\<close>

lemma composite_key_inj:
  assumes "composite_key i b = composite_key j c" "CHR '':'' \<notin> set i" "CHR '':'' \<notin> set j"
  shows "i = j \<and> b = c"
proof -
  have "takeWhile (\<lambda>x. x \<noteq> CHR '':'') (composite_key i b) = i" "takeWhile (\<lambda>x. x \<noteq> CHR '':'') (composite_key j c) = j"
    using assms(2,3) by (simp_all add: composite_key_def takeWhile_neq)
  with assms(1) have "i = j" by simp
  with assms(1) show ?thesis by (simp add: composite_key_def)
qed

lemma process_event_simp:
  "process_event (\<lambda>_. False) e st =
     (if detect_replay (ev_id e) (ev_batch_root e) st then (st, duplicate_result)
      else if is_cursor_corrupted (st_cursor st) (ev_position e) then (st, error_result)
      else (save_cursor (cursor_of e False) (record_event (ev_id e) (ev_batch_root e) st), processed_result))"
  by (simp add: process_event_def advance_def record_event_def Let_def)

lemma detect_replay_iff:
  assumes "stores_ok st" "CHR '':'' \<notin> set i"
  shows "detect_replay i b st \<longleftrightarrow> (i, b) \<in> el_seen (log_of st)"
proof
  assume "detect_replay i b st"
  then obtain j c where get: "dict_get (st_records st) (composite_key i b) = Some (j, c)"
    by (auto simp: detect_replay_def)
  then have mem: "(composite_key i b, j, c) \<in> set (st_records st)" by (rule map_of_SomeD)
  then have "composite_key i b = composite_key j c" "CHR '':'' \<notin> set j"
    using assms(1) by (auto simp: stores_ok_def)
  from composite_key_inj [OF this(1) assms(2) this(2)] mem show "(i, b) \<in> el_seen (log_of st)"
    by (force simp: log_of_def image_iff)
next
  assume "(i, b) \<in> el_seen (log_of st)"
  then obtain k where mem: "(k, i, b) \<in> set (st_records st)" by (auto simp: log_of_def)
  with assms(1) have "k = composite_key i b" by (auto simp: stores_ok_def)
  with mem have "composite_key i b \<in> fst ` set (st_records st)" by force
  then show "detect_replay i b st" by (simp add: detect_replay_def map_of_eq_None_iff)
qed

lemma put_new: "dict_get d k = None \<Longrightarrow> dict_put k v d = d @ [(k, v)]"
  by (induction d) (auto split: if_splits)

lemma entries_after_put: "set (dict_put k v d) \<subseteq> insert (k, v) (set d)"
  by (induction d) auto

lemma record_event_ok:
  assumes "stores_ok st" "CHR '':'' \<notin> set i"
  shows "stores_ok (record_event i b st)"
  using assms entries_after_put [of "composite_key i b" "(i, b)" "st_records st"]
  by (auto simp: stores_ok_def record_event_def Let_def)

lemma stores_ok_save [simp]: "stores_ok (save_cursor c st) = stores_ok st"
  by (simp add: stores_ok_def save_cursor_def)

lemma process_event_refines:
  assumes "stores_ok st" "CHR '':'' \<notin> set (ev_id e)" "process_event (\<lambda>_. False) e st = (st', r)"
  shows "stores_ok st' \<and> spec_event e (log_of st) = (log_of st', ro_status (output_of e r))"
proof -
  note seen = detect_replay_iff [OF assms(1,2), of "ev_batch_root e"]
  have last: "is_cursor_corrupted (st_cursor st) (ev_position e) \<longleftrightarrow>
      (\<exists>p. el_last (log_of st) = Some p \<and> ev_position e < p)"
    by (auto simp: corrupted_iff log_of_def)
  show ?thesis
  proof (cases "detect_replay (ev_id e) (ev_batch_root e) st")
    case True
    with assms(3) have "st' = st" "r = duplicate_result" by (simp_all add: process_event_simp)
    with True assms(1) seen show ?thesis by (simp add: spec_event_def output_of_def duplicate_result_def)
  next
    case new: False
    show ?thesis
    proof (cases "is_cursor_corrupted (st_cursor st) (ev_position e)")
      case True
      with assms(3) new have "st' = st" "r = error_result" by (simp_all add: process_event_simp)
      with True assms(1) seen last new show ?thesis by (simp add: spec_event_def output_of_def error_result_def)
    next
      case False
      let ?st = "save_cursor (cursor_of e False) (record_event (ev_id e) (ev_batch_root e) st)"
      have st': "st' = ?st" "r = processed_result" using assms(3) new False by (simp_all add: process_event_simp)
      have "dict_get (st_records st) (composite_key (ev_id e) (ev_batch_root e)) = None"
        using new by (simp only: detect_replay_def not_not)
      then have "log_of ?st =
          \<lparr>el_seen = insert (ev_id e, ev_batch_root e) (el_seen (log_of st)), el_last = Some (ev_position e)\<rparr>"
        by (simp add: put_new log_of_def save_cursor_def record_event_def cursor_of_def Let_def)
      with new False seen last show ?thesis
        using record_event_ok [OF assms(1,2), of "ev_batch_root e"]
        by (auto simp: st' spec_event_def output_of_def processed_result_def)
    qed
  qed
qed

lemma stream_refines:
  assumes "stores_ok st" "\<forall>e \<in> set es. CHR '':'' \<notin> set (ev_id e)" "process_event_stream es st = (st', outs)"
  shows "stores_ok st' \<and> spec_stream es (log_of st) = (log_of st', map ro_status outs) \<and>
    map ro_event_id outs = map ev_id es \<and> list_all (\<lambda>out. ro_processed out = (ro_status out = StatusSuccess)) outs"
  using assms
proof (induction es arbitrary: st st' outs)
  case (Cons e es)
  obtain st1 r where one: "process_event (\<lambda>_. False) e st = (st1, r)" by fastforce
  obtain st2 rest where more: "process_event_stream es st1 = (st2, rest)" by fastforce
  from Cons.prems one more have out: "st' = st2" "outs = output_of e r # rest" by simp_all
  from process_event_refines [OF Cons.prems(1) _ one] Cons.prems(2)
  have 1: "stores_ok st1" "spec_event e (log_of st) = (log_of st1, ro_status (output_of e r))" by simp_all
  have "r \<in> {processed_result, duplicate_result, error_result}"
    using one by (simp add: process_event_simp split: if_splits)
  then have "ro_processed (output_of e r) = (ro_status (output_of e r) = StatusSuccess)"
    by (auto simp: output_of_def processed_result_def duplicate_result_def error_result_def)
  with Cons.IH [OF 1(1) _ more] Cons.prems(2) 1 out show ?case by (simp add: output_of_def)
qed simp

section \<open>The log accepts events once and in order\<close>

definition accepted :: "event_data list \<Rightarrow> output_status list \<Rightarrow> event_data list" where
  "accepted es sts = map fst (filter (\<lambda>(e, s). s = StatusSuccess) (zip es sts))"

lemma accepted_simps [simp]:
  "accepted [] sts = []"
  "accepted (e # es) (s # sts) = (if s = StatusSuccess then e # accepted es sts else accepted es sts)"
  by (simp_all add: accepted_def)

definition event_key :: "event_data \<Rightarrow> string \<times> string" where
  "event_key e = (ev_id e, ev_batch_root e)"

lemma spec_stream_accepts:
  assumes "spec_stream es l = (l', sts)"
  shows "distinct (map event_key (accepted es sts)) \<and>
    (\<forall>e \<in> set (accepted es sts). event_key e \<notin> el_seen l \<and> (\<forall>p. el_last l = Some p \<longrightarrow> p \<le> ev_position e)) \<and>
    sorted (map ev_position (accepted es sts)) \<and>
    el_seen l' = el_seen l \<union> event_key ` set (accepted es sts)"
  using assms
proof (induction es arbitrary: l l' sts)
  case (Cons e es)
  obtain l1 s where one: "spec_event e l = (l1, s)" by fastforce
  obtain l2 rest where more: "spec_stream es l1 = (l2, rest)" by fastforce
  from Cons.prems one more have out: "l' = l2" "sts = s # rest" by simp_all
  note IH = Cons.IH [OF more]
  show ?case
  proof (cases "s = StatusSuccess")
    case True
    with one have acc: "event_key e \<notin> el_seen l" "\<forall>p. el_last l = Some p \<longrightarrow> p \<le> ev_position e"
      "el_seen l1 = insert (event_key e) (el_seen l)" "el_last l1 = Some (ev_position e)"
      by (auto simp: spec_event_def event_key_def not_less split: if_splits)
    with IH True out show ?thesis by (fastforce dest: order_trans)
  next
    case False
    with one have "l1 = l" by (auto simp: spec_event_def split: if_splits)
    with IH False out show ?thesis by simp
  qed
qed simp

section \<open>Properties\<close>

text \<open>
  C7: processing a stream of events whose identifiers have no colon refines the log: the statuses reported are
  those of the log, the stores represent the log after it, and an event is reported as processed exactly when
  its status is success.
\<close>

theorem stream_refines_log:
  assumes "stores_ok st" "\<forall>e \<in> set es. CHR '':'' \<notin> set (ev_id e)"
  shows "case process_event_stream es st of (st', outs) \<Rightarrow>
    stores_ok st' \<and> spec_stream es (log_of st) = (log_of st', map ro_status outs) \<and>
    map ro_event_id outs = map ev_id es \<and> list_all (\<lambda>out. ro_processed out = (ro_status out = StatusSuccess)) outs"
  using stream_refines [OF assms] by (auto split: prod.split)

text \<open>
  in whatever order, and however often, events are delivered to a fresh processor, those it processes are
  pairwise different and their positions ascend, and every other event is a repetition of a processed one or
  was delivered after a later one.
\<close>

theorem processed_once_in_order:
  assumes "\<forall>e \<in> set es. CHR '':'' \<notin> set (ev_id e)"
    and run: "process_event_stream es empty_stores = (st', outs)"
  shows "distinct (map event_key (accepted es (map ro_status outs))) \<and>
    sorted (map ev_position (accepted es (map ro_status outs))) \<and>
    set (map snd (st_records st')) = event_key ` set (accepted es (map ro_status outs))"
proof -
  have "stores_ok empty_stores" by (simp add: stores_ok_def empty_stores_def)
  from stream_refines [OF this assms] have "spec_stream es (log_of empty_stores) = (log_of st', map ro_status outs)" by simp
  from spec_stream_accepts [OF this] show ?thesis by (simp add: log_of_def empty_stores_def)
qed

text \<open>
  the replay record is written before the cursor: if saving the cursor rejects, the call reports an error and
  the cursor stays, but the retried event is a duplicate and is never processed.
\<close>

theorem failed_save_loses_event:
  assumes "\<not> detect_replay (ev_id e) (ev_batch_root e) st" "\<not> is_cursor_corrupted (st_cursor st) (ev_position e)"
  shows "\<exists>st'. process_event (\<lambda>ph. ph = AtSave) e st = (st', error_result) \<and> st_cursor st' = st_cursor st \<and>
    process_event (\<lambda>_. False) e st' = (st', duplicate_result)"
proof -
  let ?st = "record_event (ev_id e) (ev_batch_root e) st"
  have "process_event (\<lambda>ph. ph = AtSave) e st = (?st, error_result)"
    using assms by (simp add: process_event_def advance_def)
  moreover have "detect_replay (ev_id e) (ev_batch_root e) ?st"
    by (simp add: detect_replay_def record_event_def Let_def update_conv')
  ultimately show ?thesis by (intro exI [of _ ?st]) (simp add: process_event_simp record_event_def Let_def)
qed

definition run_two :: "event_data \<Rightarrow> bool list \<Rightarrow> event_stores \<times> phase \<times> phase \<Rightarrow> event_stores \<times> phase \<times> phase" where
  "run_two e = fold (\<lambda>second (st, p, q).
     if second then (case advance e False (st, q) of (st', q') \<Rightarrow> (st', p, q'))
     else (case advance e False (st, p) of (st', p') \<Rightarrow> (st', p', q)))"

text \<open>
  two calls with the same event that both ask the detector before either records it both process the event.
\<close>

theorem concurrent_calls_process_twice:
  assumes "\<not> detect_replay (ev_id e) (ev_batch_root e) st" "\<not> is_cursor_corrupted (st_cursor st) (ev_position e)"
  shows "\<exists>schedule st'. run_two e schedule (st, AtDetect, AtDetect) =
    (st', Finished processed_result, Finished processed_result)"
  using assms
  by (intro exI [of _ "[False, True, False, True, False, True, False, True]"])
    (simp add: run_two_def advance_def record_event_def save_cursor_def Let_def)

definition example_event :: event_data where
  "example_event = \<lparr>ev_id = ''e1'', ev_batch_root = ''r'', ev_position = Position 5 1 0 0\<rparr>"

definition later_event :: event_data where
  "later_event = \<lparr>ev_id = ''e2'', ev_batch_root = ''r'', ev_position = Position 6 0 0 0\<rparr>"

lemma example_new:
  "\<not> detect_replay (ev_id example_event) (ev_batch_root example_event) empty_stores"
  "\<not> is_cursor_corrupted (st_cursor empty_stores) (ev_position example_event)"
  by (simp_all add: detect_replay_def is_cursor_corrupted_def empty_stores_def)

theorem stream_refines_log_witness:
  "case process_event_stream [example_event, later_event, example_event] empty_stores of (st', outs) \<Rightarrow>
     spec_stream [example_event, later_event, example_event] (log_of empty_stores) = (log_of st', map ro_status outs)"
  using stream_refines_log [of empty_stores "[example_event, later_event, example_event]"]
  by (auto simp: example_event_def later_event_def stores_ok_def empty_stores_def split: prod.splits)

theorem processed_once_in_order_witness:
  "\<exists>st' outs. process_event_stream [example_event, later_event, example_event] empty_stores = (st', outs) \<and>
     distinct (map event_key (accepted [example_event, later_event, example_event] (map ro_status outs)))"
proof -
  obtain st' outs where run: "process_event_stream [example_event, later_event, example_event] empty_stores = (st', outs)"
    by fastforce
  with processed_once_in_order [OF _ run] show ?thesis by (auto simp: example_event_def later_event_def)
qed

theorem failed_save_loses_event_witness:
  "\<exists>st'. process_event (\<lambda>ph. ph = AtSave) example_event empty_stores = (st', error_result) \<and>
     process_event (\<lambda>_. False) example_event st' = (st', duplicate_result)"
  using failed_save_loses_event [OF example_new] by auto

theorem concurrent_calls_process_twice_witness:
  "\<exists>schedule st'. run_two example_event schedule (empty_stores, AtDetect, AtDetect) =
     (st', Finished processed_result, Finished processed_result)"
  by (rule concurrent_calls_process_twice [OF example_new])

end
