(* ===== verification/ContractIndexer.thy ===== *)
theory ContractIndexer
  imports EventProcessing "HOL-Library.Monad_Syntax"
begin

text \<open>
  The contract state indexer (\<open>packages/core/src/indexer/ContractStateIndexer.ts\<close>, \<open>indexer/types.ts\<close>): reading
  the collections of each company page by page under a page budget, checkpoints to resume from, and the
  consistency diagnostics of the result. A reader answers a snapshot, so a page is a function of the cursor and
  the limit; a read that rejects makes the whole call reject, and only runs without rejections are modelled.
  A source whose cursors never end makes a loop without budget run for ever, which is the value \<open>None\<close>.
  Metadata, messages and the fields no code of the indexer reads are left out.
\<close>

section \<open>Indexed records\<close>

record indexed_company =
  ic_id :: string

record indexed_employee =
  ie_id :: string
  ie_company_id :: string

record indexed_payroll_run =
  ir_id :: string
  ir_company_id :: string
  ir_employee_ids :: "string list"
  ir_total_amount :: "int option"

record indexed_commitment =
  cm_id :: string
  cm_company_id :: string
  cm_employee_id :: string
  cm_payroll_run_id :: "string option"
  cm_commitment_hash :: string

record indexed_audit_permission =
  ap_id :: string
  ap_company_id :: string
  ap_expires_at :: "int option"
  ap_revoked_at :: "int option"

text \<open>\<open>ct_occurred_at\<close> is \<open>None\<close> when the time is not finite, \<open>ct_payload_total\<close> when the payload has no bigint
  \<open>payrollRunTotal\<close>.\<close>

record indexed_contract_event =
  ct_id :: string
  ct_type :: string
  ct_company_id :: "string option"
  ct_employee_id :: "string option"
  ct_payroll_run_id :: "string option"
  ct_amount :: "int option"
  ct_occurred_at :: "int option"
  ct_payload_total :: "int option"

record 'a contract_state_page =
  pg_items :: "'a list"
  pg_next_cursor :: "string option"

type_synonym 'a page_reader = "string option \<Rightarrow> int \<Rightarrow> 'a contract_state_page"

record contract_state_reader =
  rd_get_company :: "(string \<Rightarrow> indexed_company option) option"
  rd_list_companies :: "indexed_company page_reader"
  rd_list_employees :: "string \<Rightarrow> indexed_employee page_reader"
  rd_list_payroll_runs :: "string \<Rightarrow> indexed_payroll_run page_reader"
  rd_list_contract_events :: "string \<Rightarrow> indexed_contract_event page_reader"
  rd_list_commitments :: "string \<Rightarrow> indexed_commitment page_reader"
  rd_list_audit_permissions :: "string \<Rightarrow> indexed_audit_permission page_reader"

record company_checkpoint =
  cc_employees_cursor :: "string option"
  cc_payroll_runs_cursor :: "string option"
  cc_events_cursor :: "string option"
  cc_commitments_cursor :: "string option"
  cc_audit_permissions_cursor :: "string option"
  cc_complete :: "bool option"

definition empty_company_checkpoint :: company_checkpoint where
  "empty_company_checkpoint =
     \<lparr>cc_employees_cursor = None, cc_payroll_runs_cursor = None, cc_events_cursor = None, cc_commitments_cursor = None,
      cc_audit_permissions_cursor = None, cc_complete = None\<rparr>"

record indexing_checkpoint =
  ck_company_cursor :: "string option"
  ck_active_company_id :: "string option"
  ck_company_cursors :: "(string, company_checkpoint) dict"
  ck_completed_company_ids :: "string list"
  ck_complete :: bool
  ck_updated_at :: int

datatype diagnostic_severity = DiagWarning | DiagRecoverable | DiagFatal

datatype diagnostic_code =
  MISSING_COMPANY_REFERENCE | MISSING_EMPLOYEE_REFERENCE | ORPHAN_PAYROLL_RUN | MISSING_PAYROLL_RUN_REFERENCE
| MISMATCHED_EVENT_DATA | DUPLICATE_COMMITMENT | STALE_AUDIT_PERMISSION | CORRUPTED_EVENT_DATA
| CHECKPOINT_REQUIRES_COMPANY_LOOKUP

text \<open>The record a diagnostic is about; the company, for the two diagnostics that name no record.\<close>

record indexer_diagnostic =
  dg_severity :: diagnostic_severity
  dg_code :: diagnostic_code
  dg_record_id :: string

definition diag :: "diagnostic_severity \<Rightarrow> diagnostic_code \<Rightarrow> string \<Rightarrow> indexer_diagnostic" where
  "diag severity code record_id = \<lparr>dg_severity = severity, dg_code = code, dg_record_id = record_id\<rparr>"

record domain_view =
  dv_companies :: "indexed_company list"
  dv_employees :: "indexed_employee list"
  dv_payroll_runs :: "indexed_payroll_run list"
  dv_events :: "indexed_contract_event list"
  dv_commitments :: "indexed_commitment list"
  dv_audit_permissions :: "indexed_audit_permission list"

definition empty_domain :: domain_view where
  "empty_domain =
     \<lparr>dv_companies = [], dv_employees = [], dv_payroll_runs = [], dv_events = [], dv_commitments = [],
      dv_audit_permissions = []\<rparr>"

section \<open>Reading pages\<close>

type_synonym read_budget = "int option"

definition budget_exhausted :: "read_budget \<Rightarrow> bool" where
  "budget_exhausted b = (case b of None \<Rightarrow> False | Some n \<Rightarrow> n \<le> 0)"

definition consume_page :: "read_budget \<Rightarrow> read_budget" where
  "consume_page b = map_option (\<lambda>n. n - 1) b"

record 'a read_pages_result =
  rp_items :: "'a list"
  rp_next_cursor :: "string option"

partial_function (option) read_pages ::
  "(string option \<Rightarrow> 'a contract_state_page) \<Rightarrow> read_budget \<Rightarrow> string option \<Rightarrow> 'a list
   \<Rightarrow> ('a read_pages_result \<times> read_budget) option"
where
  "read_pages read_page budget cursor items =
     (if budget_exhausted budget then Some (\<lparr>rp_items = items, rp_next_cursor = cursor\<rparr>, budget)
      else
        (let page = read_page cursor; budget' = consume_page budget; items' = items @ pg_items page in
         case pg_next_cursor page of
           None \<Rightarrow> Some (\<lparr>rp_items = items', rp_next_cursor = None\<rparr>, budget')
         | Some c \<Rightarrow> read_pages read_page budget' (Some c) items'))"

section \<open>Indexing a company\<close>

text \<open>A company's checkpoint lives in \<open>checkpoint.companyCursors\<close> from its creation on; every assignment to one
  of its cursors is an update there.\<close>

record index_state =
  ix_checkpoint :: indexing_checkpoint
  ix_domain :: domain_view
  ix_budget :: read_budget
  ix_diagnostics :: "indexer_diagnostic list"

definition company_checkpoint_of :: "string \<Rightarrow> index_state \<Rightarrow> company_checkpoint" where
  "company_checkpoint_of cid s =
     (case dict_get (ck_company_cursors (ix_checkpoint s)) cid of None \<Rightarrow> empty_company_checkpoint | Some c \<Rightarrow> c)"

definition set_company_checkpoint :: "string \<Rightarrow> company_checkpoint \<Rightarrow> index_state \<Rightarrow> index_state" where
  "set_company_checkpoint cid c s =
     s\<lparr>ix_checkpoint := (ix_checkpoint s)\<lparr>ck_company_cursors := dict_put cid c (ck_company_cursors (ix_checkpoint s))\<rparr>\<rparr>"

definition push_domain :: "(domain_view \<Rightarrow> domain_view) \<Rightarrow> index_state \<Rightarrow> index_state" where
  "push_domain f s = s\<lparr>ix_domain := f (ix_domain s)\<rparr>"

text \<open>One collection of a company: read its pages from the stored cursor, append the items, store the new
  cursor. The flag tells whether the code goes on, which it does when the cursor is not a true value.\<close>

definition index_collection ::
  "(string option \<Rightarrow> 'a contract_state_page) \<Rightarrow> (company_checkpoint \<Rightarrow> string option) \<Rightarrow>
   (string option \<Rightarrow> company_checkpoint \<Rightarrow> company_checkpoint) \<Rightarrow> ('a list \<Rightarrow> domain_view \<Rightarrow> domain_view) \<Rightarrow>
   string \<Rightarrow> index_state \<Rightarrow> (index_state \<times> bool) option" where
  "index_collection read_page get_cursor put_cursor push cid s = do {
     (pages, budget) \<leftarrow> read_pages read_page (ix_budget s) (get_cursor (company_checkpoint_of cid s)) [];
     let s1 = push_domain (push (rp_items pages)) (s\<lparr>ix_budget := budget\<rparr>);
     let s2 = set_company_checkpoint cid (put_cursor (rp_next_cursor pages) (company_checkpoint_of cid s1)) s1;
     Some (s2, \<not> truthy (rp_next_cursor pages)) }"

definition index_employees :: "contract_state_reader \<Rightarrow> int \<Rightarrow> string \<Rightarrow> index_state \<Rightarrow> (index_state \<times> bool) option" where
  "index_employees rd limit cid =
     index_collection (\<lambda>c. rd_list_employees rd cid c limit) cc_employees_cursor
       (\<lambda>c k. k\<lparr>cc_employees_cursor := c\<rparr>) (\<lambda>xs d. d\<lparr>dv_employees := dv_employees d @ xs\<rparr>) cid"

definition index_payroll_runs :: "contract_state_reader \<Rightarrow> int \<Rightarrow> string \<Rightarrow> index_state \<Rightarrow> (index_state \<times> bool) option" where
  "index_payroll_runs rd limit cid =
     index_collection (\<lambda>c. rd_list_payroll_runs rd cid c limit) cc_payroll_runs_cursor
       (\<lambda>c k. k\<lparr>cc_payroll_runs_cursor := c\<rparr>) (\<lambda>xs d. d\<lparr>dv_payroll_runs := dv_payroll_runs d @ xs\<rparr>) cid"

definition index_events :: "contract_state_reader \<Rightarrow> int \<Rightarrow> string \<Rightarrow> index_state \<Rightarrow> (index_state \<times> bool) option" where
  "index_events rd limit cid =
     index_collection (\<lambda>c. rd_list_contract_events rd cid c limit) cc_events_cursor
       (\<lambda>c k. k\<lparr>cc_events_cursor := c\<rparr>) (\<lambda>xs d. d\<lparr>dv_events := dv_events d @ xs\<rparr>) cid"

definition index_commitments :: "contract_state_reader \<Rightarrow> int \<Rightarrow> string \<Rightarrow> index_state \<Rightarrow> (index_state \<times> bool) option" where
  "index_commitments rd limit cid =
     index_collection (\<lambda>c. rd_list_commitments rd cid c limit) cc_commitments_cursor
       (\<lambda>c k. k\<lparr>cc_commitments_cursor := c\<rparr>) (\<lambda>xs d. d\<lparr>dv_commitments := dv_commitments d @ xs\<rparr>) cid"

text \<open>The last collection decides completion by whether the cursor is undefined.\<close>

definition index_audit_permissions :: "contract_state_reader \<Rightarrow> int \<Rightarrow> string \<Rightarrow> index_state \<Rightarrow> (index_state \<times> bool) option" where
  "index_audit_permissions rd limit cid s = do {
     (s1, _) \<leftarrow> index_collection (\<lambda>c. rd_list_audit_permissions rd cid c limit) cc_audit_permissions_cursor
       (\<lambda>c k. k\<lparr>cc_audit_permissions_cursor := c\<rparr>) (\<lambda>xs d. d\<lparr>dv_audit_permissions := dv_audit_permissions d @ xs\<rparr>) cid s;
     let k = company_checkpoint_of cid s1;
     let complete = (cc_audit_permissions_cursor k = None);
     Some (set_company_checkpoint cid (k\<lparr>cc_complete := Some complete\<rparr>) s1, complete) }"

definition and_then ::
  "(index_state \<times> bool) option \<Rightarrow> (index_state \<Rightarrow> (index_state \<times> bool) option) \<Rightarrow> (index_state \<times> bool) option" where
  "and_then r f = (case r of None \<Rightarrow> None | Some (s, go_on) \<Rightarrow> if go_on then f s else Some (s, False))"

definition index_company :: "contract_state_reader \<Rightarrow> int \<Rightarrow> indexed_company \<Rightarrow> index_state \<Rightarrow> (index_state \<times> bool) option" where
  "index_company rd limit company s =
     (let cid = ic_id company; s0 = set_company_checkpoint cid (company_checkpoint_of cid s) s in
      and_then (and_then (and_then (and_then (index_employees rd limit cid s0)
        (index_payroll_runs rd limit cid)) (index_events rd limit cid)) (index_commitments rd limit cid))
        (index_audit_permissions rd limit cid))"

definition mark_company_complete :: "string \<Rightarrow> index_state \<Rightarrow> index_state" where
  "mark_company_complete cid s =
     set_company_checkpoint cid (empty_company_checkpoint\<lparr>cc_complete := Some True\<rparr>)
       (s\<lparr>ix_checkpoint := (ix_checkpoint s)\<lparr>ck_completed_company_ids := ck_completed_company_ids (ix_checkpoint s) @ [cid]\<rparr>\<rparr>)"

definition set_active :: "string option \<Rightarrow> index_state \<Rightarrow> index_state" where
  "set_active a s = s\<lparr>ix_checkpoint := (ix_checkpoint s)\<lparr>ck_active_company_id := a\<rparr>\<rparr>"

definition set_complete :: "bool \<Rightarrow> index_state \<Rightarrow> index_state" where
  "set_complete b s = s\<lparr>ix_checkpoint := (ix_checkpoint s)\<lparr>ck_complete := b\<rparr>\<rparr>"

definition push_diagnostic :: "indexer_diagnostic \<Rightarrow> index_state \<Rightarrow> index_state" where
  "push_diagnostic d s = s\<lparr>ix_diagnostics := ix_diagnostics s @ [d]\<rparr>"

definition resume_active_company ::
  "contract_state_reader \<Rightarrow> int \<Rightarrow> string \<Rightarrow> index_state \<Rightarrow> (index_state \<times> bool) option" where
  "resume_active_company rd limit cid s =
     (case rd_get_company rd of
        None \<Rightarrow> Some (set_complete False (push_diagnostic (diag DiagFatal CHECKPOINT_REQUIRES_COMPANY_LOOKUP cid) s), False)
      | Some get_company \<Rightarrow>
          (case get_company cid of
             None \<Rightarrow> Some (set_complete False (push_diagnostic (diag DiagFatal MISSING_COMPANY_REFERENCE cid) s), False)
           | Some company \<Rightarrow> do {
               (s1, complete) \<leftarrow> index_company rd limit company
                 (push_domain (\<lambda>d. d\<lparr>dv_companies := dv_companies d @ [company]\<rparr>) s);
               Some (if complete then (set_active None (mark_company_complete (ic_id company) s1), True) else (s1, False)) }))"

section \<open>Consistency diagnostics\<close>

definition employee_key :: "string \<Rightarrow> string \<Rightarrow> string" where
  "employee_key company_id employee_id = company_id @ '':'' @ employee_id"

definition payroll_run_key :: "string \<Rightarrow> string \<Rightarrow> string" where
  "payroll_run_key company_id payroll_run_id = company_id @ '':'' @ payroll_run_id"

definition company_ids :: "domain_view \<Rightarrow> string list" where
  "company_ids d = map ic_id (dv_companies d)"

definition employee_keys :: "domain_view \<Rightarrow> string list" where
  "employee_keys d = map (\<lambda>e. employee_key (ie_company_id e) (ie_id e)) (dv_employees d)"

definition payroll_run_keys :: "domain_view \<Rightarrow> string list" where
  "payroll_run_keys d = map (\<lambda>r. payroll_run_key (ir_company_id r) (ir_id r)) (dv_payroll_runs d)"

definition when_diag :: "bool \<Rightarrow> indexer_diagnostic \<Rightarrow> indexer_diagnostic list" where
  "when_diag c d = (if c then [d] else [])"

definition check_employee :: "domain_view \<Rightarrow> indexed_employee \<Rightarrow> indexer_diagnostic list" where
  "check_employee d e =
     when_diag (ie_company_id e \<notin> set (company_ids d)) (diag DiagRecoverable MISSING_COMPANY_REFERENCE (ie_id e))"

definition check_payroll_run :: "domain_view \<Rightarrow> indexed_payroll_run \<Rightarrow> indexer_diagnostic list" where
  "check_payroll_run d r =
     when_diag (ir_company_id r \<notin> set (company_ids d)) (diag DiagRecoverable ORPHAN_PAYROLL_RUN (ir_id r)) @
     concat (map (\<lambda>e. when_diag (employee_key (ir_company_id r) e \<notin> set (employee_keys d))
       (diag DiagWarning MISSING_EMPLOYEE_REFERENCE (ir_id r))) (ir_employee_ids r))"

definition duplicate_key :: "indexed_commitment \<Rightarrow> string" where
  "duplicate_key c =
     cm_company_id c @ '':'' @ cm_employee_id c @ '':'' @
     (case cm_payroll_run_id c of None \<Rightarrow> [] | Some r \<Rightarrow> r) @ '':'' @ cm_commitment_hash c"

definition check_commitment :: "domain_view \<Rightarrow> indexed_commitment \<Rightarrow> indexer_diagnostic list" where
  "check_commitment d c =
     when_diag (cm_company_id c \<notin> set (company_ids d)) (diag DiagRecoverable MISSING_COMPANY_REFERENCE (cm_id c)) @
     when_diag (employee_key (cm_company_id c) (cm_employee_id c) \<notin> set (employee_keys d))
       (diag DiagRecoverable MISSING_EMPLOYEE_REFERENCE (cm_id c)) @
     (case cm_payroll_run_id c of
        None \<Rightarrow> []
      | Some r \<Rightarrow> when_diag (r \<noteq> [] \<and> payroll_run_key (cm_company_id c) r \<notin> set (payroll_run_keys d))
          (diag DiagRecoverable MISSING_PAYROLL_RUN_REFERENCE (cm_id c)))"

text \<open>The first commitment with a duplicate key is kept in the map; the later ones are reported.\<close>

fun check_commitments :: "domain_view \<Rightarrow> indexed_commitment list \<Rightarrow> string list \<Rightarrow> indexer_diagnostic list" where
  "check_commitments d [] seen = []"
| "check_commitments d (c # cs) seen =
     check_commitment d c @ when_diag (duplicate_key c \<in> set seen) (diag DiagWarning DUPLICATE_COMMITMENT (cm_id c)) @
     check_commitments d cs (duplicate_key c # seen)"

definition company_of_event :: "indexed_contract_event \<Rightarrow> string" where
  "company_of_event e = (case ct_company_id e of None \<Rightarrow> [] | Some c \<Rightarrow> c)"

definition validate_event :: "domain_view \<Rightarrow> indexed_contract_event \<Rightarrow> indexer_diagnostic list" where
  "validate_event d e =
     (if ct_id e = [] \<or> ct_type e = [] \<or> ct_occurred_at e = None then [diag DiagFatal CORRUPTED_EVENT_DATA (ct_id e)]
      else
        (let has_company = truthy (ct_company_id e); cid = company_of_event e;
             negative = when_diag (\<exists>a. ct_amount e = Some a \<and> a < 0) (diag DiagFatal CORRUPTED_EVENT_DATA (ct_id e));
             no_company = when_diag (has_company \<and> cid \<notin> set (company_ids d))
               (diag DiagRecoverable MISSING_COMPANY_REFERENCE (ct_id e));
             no_employee = (case ct_employee_id e of None \<Rightarrow> [] | Some x \<Rightarrow>
               when_diag (has_company \<and> x \<noteq> [] \<and> employee_key cid x \<notin> set (employee_keys d))
                 (diag DiagRecoverable MISSING_EMPLOYEE_REFERENCE (ct_id e)));
             no_run = (case ct_payroll_run_id e of None \<Rightarrow> [] | Some r \<Rightarrow>
               when_diag (has_company \<and> r \<noteq> [] \<and> payroll_run_key cid r \<notin> set (payroll_run_keys d))
                 (diag DiagRecoverable MISSING_PAYROLL_RUN_REFERENCE (ct_id e)))
         in if no_run \<noteq> [] then negative @ no_company @ no_employee @ no_run
            else
              negative @ no_company @ no_employee @
              (case find (\<lambda>r. ct_company_id e = Some (ir_company_id r) \<and> ct_payroll_run_id e = Some (ir_id r)) (dv_payroll_runs d) of
                 None \<Rightarrow> []
               | Some run \<Rightarrow>
                   (case ct_employee_id e of None \<Rightarrow> [] | Some x \<Rightarrow>
                      when_diag (x \<noteq> [] \<and> x \<notin> set (ir_employee_ids run)) (diag DiagWarning MISMATCHED_EVENT_DATA (ct_id e))) @
                   (case (ir_total_amount run, ct_amount e) of
                      (Some tot, Some _) \<Rightarrow>
                        when_diag ((case ct_payload_total e of Some p \<Rightarrow> p | None \<Rightarrow> tot) \<noteq> tot)
                          (diag DiagWarning MISMATCHED_EVENT_DATA (ct_id e))
                    | _ \<Rightarrow> []))))"

definition check_permission :: "domain_view \<Rightarrow> int \<Rightarrow> indexed_audit_permission \<Rightarrow> indexer_diagnostic list" where
  "check_permission d indexed_at p =
     when_diag (ap_company_id p \<notin> set (company_ids d)) (diag DiagRecoverable MISSING_COMPANY_REFERENCE (ap_id p)) @
     when_diag ((\<exists>t. ap_expires_at p = Some t \<and> t \<le> indexed_at) \<or> (\<exists>t. ap_revoked_at p = Some t \<and> t \<le> indexed_at))
       (diag DiagWarning STALE_AUDIT_PERMISSION (ap_id p))"

definition consistency_diagnostics :: "domain_view \<Rightarrow> int \<Rightarrow> indexer_diagnostic list" where
  "consistency_diagnostics d indexed_at =
     concat (map (check_employee d) (dv_employees d)) @
     concat (map (check_payroll_run d) (dv_payroll_runs d)) @
     check_commitments d (dv_commitments d) [] @
     concat (map (validate_event d) (dv_events d)) @
     concat (map (check_permission d indexed_at) (dv_audit_permissions d))"

section \<open>The whole index\<close>

record index_options =
  io_page_size :: "int option"
  io_max_pages :: "int option"
  io_indexed_at :: int
  io_checkpoint :: "indexing_checkpoint option"

record index_result =
  xr_domain :: domain_view
  xr_indexed_at :: int
  xr_checkpoint :: indexing_checkpoint
  xr_warnings :: "indexer_diagnostic list"
  xr_recoverable :: "indexer_diagnostic list"
  xr_fatal :: "indexer_diagnostic list"
  xr_all :: "indexer_diagnostic list"

definition create_checkpoint :: "indexing_checkpoint option \<Rightarrow> int \<Rightarrow> indexing_checkpoint" where
  "create_checkpoint input indexed_at =
     (case input of
        None \<Rightarrow> \<lparr>ck_company_cursor = None, ck_active_company_id = None, ck_company_cursors = [],
                 ck_completed_company_ids = [], ck_complete = False, ck_updated_at = indexed_at\<rparr>
      | Some c \<Rightarrow> c\<lparr>ck_complete := False, ck_updated_at := indexed_at\<rparr>)"

definition to_result :: "int \<Rightarrow> index_state \<Rightarrow> index_result" where
  "to_result indexed_at s =
     \<lparr>xr_domain = ix_domain s, xr_indexed_at = indexed_at, xr_checkpoint = ix_checkpoint s,
      xr_warnings = filter (\<lambda>d. dg_severity d = DiagWarning) (ix_diagnostics s),
      xr_recoverable = filter (\<lambda>d. dg_severity d = DiagRecoverable) (ix_diagnostics s),
      xr_fatal = filter (\<lambda>d. dg_severity d = DiagFatal) (ix_diagnostics s), xr_all = ix_diagnostics s\<rparr>"

text \<open>The loop over the companies read; the flag tells whether it came to its end.\<close>

fun index_companies ::
  "contract_state_reader \<Rightarrow> int \<Rightarrow> indexed_company list \<Rightarrow> index_state \<Rightarrow> (index_state \<times> bool) option"
where
  "index_companies rd limit [] s = Some (s, True)"
| "index_companies rd limit (c # cs) s =
     (if budget_exhausted (ix_budget s) then Some (set_complete False (set_active (Some (ic_id c)) s), False)
      else if ic_id c \<in> set (ck_completed_company_ids (ix_checkpoint s)) then index_companies rd limit cs s
      else do {
        (s1, complete) \<leftarrow> index_company rd limit c s;
        if complete then index_companies rd limit cs (mark_company_complete (ic_id c) s1)
        else Some (set_complete False (set_active (Some (ic_id c)) s1), False) })"

definition index_listed_companies ::
  "contract_state_reader \<Rightarrow> int \<Rightarrow> int \<Rightarrow> index_state \<Rightarrow> index_state option" where
  "index_listed_companies rd limit indexed_at s = do {
     (pages, budget) \<leftarrow> read_pages (\<lambda>c. rd_list_companies rd c limit) (ix_budget s) (ck_company_cursor (ix_checkpoint s)) [];
     let s1 = push_domain (\<lambda>d. d\<lparr>dv_companies := dv_companies d @ rp_items pages\<rparr>) (s\<lparr>ix_budget := budget\<rparr>);
     let s2 = s1\<lparr>ix_checkpoint := (ix_checkpoint s1)\<lparr>ck_company_cursor := rp_next_cursor pages\<rparr>\<rparr>;
     (s3, at_end) \<leftarrow> index_companies rd limit (rp_items pages) s2;
     Some (if \<not> at_end then s3
           else
             (let s4 = set_complete (ck_company_cursor (ix_checkpoint s3) = None) (set_active None s3)
              in s4\<lparr>ix_diagnostics := ix_diagnostics s4 @ consistency_diagnostics (ix_domain s4) indexed_at\<rparr>)) }"

definition index_contract_state :: "contract_state_reader \<Rightarrow> index_options \<Rightarrow> index_result option" where
  "index_contract_state rd opts =
     (let limit = (case io_page_size opts of None \<Rightarrow> 100 | Some n \<Rightarrow> n);
          s0 = \<lparr>ix_checkpoint = create_checkpoint (io_checkpoint opts) (io_indexed_at opts), ix_domain = empty_domain,
                ix_budget = io_max_pages opts, ix_diagnostics = []\<rparr>
      in do {
        (s1, go_on) \<leftarrow>
          (case ck_active_company_id (ix_checkpoint s0) of
             None \<Rightarrow> Some (s0, True)
           | Some a \<Rightarrow> if a = [] then Some (s0, True) else resume_active_company rd limit a s0);
        s2 \<leftarrow> (if go_on then index_listed_companies rd limit (io_indexed_at opts) s1 else Some s1);
        Some (to_result (io_indexed_at opts) s2) })"

end
