(* ===== verification/IndexerProperties.thy ===== *)
theory IndexerProperties
  imports ContractIndexer
begin

text \<open>
  What the contract state indexer guarantees: when reading ends, that an index without budget returns everything
  the source has, what its diagnostics mean, and two ways in which a page budget loses data.
\<close>

section \<open>Sources and termination\<close>

text \<open>The cursors of a source lead from \<open>cursor\<close> through \<open>n\<close> pages to its end.\<close>

inductive pages_chain :: "(string option \<Rightarrow> 'a contract_state_page) \<Rightarrow> string option \<Rightarrow> nat \<Rightarrow> 'a list \<Rightarrow> bool"
  for read_page where
  chain_end: "pg_next_cursor (read_page cursor) = None \<Longrightarrow> pages_chain read_page cursor 1 (pg_items (read_page cursor))"
| chain_more: "pg_next_cursor (read_page cursor) = Some c \<Longrightarrow> pages_chain read_page (Some c) n xs \<Longrightarrow>
    pages_chain read_page cursor (Suc n) (pg_items (read_page cursor) @ xs)"

lemma consume_None [simp]: "consume_page None = None" "\<not> budget_exhausted None"
  by (simp_all add: consume_page_def budget_exhausted_def)

lemma budget_exhausted_Some [simp]: "budget_exhausted (Some n) \<longleftrightarrow> n \<le> 0" "consume_page (Some n) = Some (n - 1)"
  by (simp_all add: budget_exhausted_def consume_page_def)

lemma read_pages_unbudgeted:
  assumes "pages_chain read_page cursor n xs"
  shows "read_pages read_page None cursor items = Some (\<lparr>rp_items = items @ xs, rp_next_cursor = None\<rparr>, None)"
  using assms
proof (induction arbitrary: items rule: pages_chain.induct)
  case (chain_end cursor)
  then show ?case by (subst read_pages.simps) (simp add: Let_def)
next
  case (chain_more cursor c n xs)
  then show ?case by (subst read_pages.simps) (simp add: Let_def)
qed

lemma read_pages_budgeted:
  assumes "pages_chain read_page cursor n xs"
  shows "read_pages read_page (Some (int n + int m)) cursor items =
    Some (\<lparr>rp_items = items @ xs, rp_next_cursor = None\<rparr>, Some (int m))"
  using assms
proof (induction arbitrary: items rule: pages_chain.induct)
  case (chain_end cursor)
  then show ?case by (subst read_pages.simps) (simp add: Let_def)
next
  case (chain_more cursor c n xs)
  then show ?case by (subst read_pages.simps) (simp add: Let_def)
qed

lemma read_pages_unbudgeted_chain:
  assumes "read_pages read_page None cursor items = Some y"
  shows "\<exists>n xs. pages_chain read_page cursor n xs \<and> y = (\<lparr>rp_items = items @ xs, rp_next_cursor = None\<rparr>, None)"
proof -
  have "budget = None \<longrightarrow>
      (\<exists>n xs. pages_chain read_page cursor n xs \<and> y = (\<lparr>rp_items = items @ xs, rp_next_cursor = None\<rparr>, None))"
    if "read_pages read_page budget cursor items = Some y" for read_page budget cursor items and y :: "'b read_pages_result \<times> int option"
  proof (rule read_pages.raw_induct [where P = "\<lambda>read_page budget cursor items y. budget = None \<longrightarrow>
      (\<exists>n xs. pages_chain read_page cursor n xs \<and> y = (\<lparr>rp_items = items @ xs, rp_next_cursor = None\<rparr>, None))", OF _ that])
    fix f :: "(string option \<Rightarrow> 'b contract_state_page) \<Rightarrow> read_budget \<Rightarrow> string option \<Rightarrow> 'b list \<Rightarrow> ('b read_pages_result \<times> read_budget) option"
      and read_page budget cursor items y
    assume IH: "\<And>read_page budget cursor items y. f read_page budget cursor items = Some y \<Longrightarrow> budget = None \<longrightarrow>
        (\<exists>n xs. pages_chain read_page cursor n xs \<and> y = (\<lparr>rp_items = items @ xs, rp_next_cursor = None\<rparr>, None))"
      and eq: "(if budget_exhausted budget then Some (\<lparr>rp_items = items, rp_next_cursor = cursor\<rparr>, budget)
         else let page = read_page cursor; budget' = consume_page budget; items' = items @ pg_items page
           in case pg_next_cursor page of None \<Rightarrow> Some (\<lparr>rp_items = items', rp_next_cursor = None\<rparr>, budget')
              | Some c \<Rightarrow> f read_page budget' (Some c) items') = Some y"
    show "budget = None \<longrightarrow>
        (\<exists>n xs. pages_chain read_page cursor n xs \<and> y = (\<lparr>rp_items = items @ xs, rp_next_cursor = None\<rparr>, None))"
    proof
      assume b: "budget = None"
      show "\<exists>n xs. pages_chain read_page cursor n xs \<and> y = (\<lparr>rp_items = items @ xs, rp_next_cursor = None\<rparr>, None)"
      proof (cases "pg_next_cursor (read_page cursor)")
        case None
        with eq b chain_end [of read_page cursor, OF None] show ?thesis by (auto simp: Let_def)
      next
        case (Some c)
        with eq b have "f read_page None (Some c) (items @ pg_items (read_page cursor)) = Some y" by (simp add: Let_def)
        from IH [OF this] obtain n xs where "pages_chain read_page (Some c) n xs"
          "y = (\<lparr>rp_items = (items @ pg_items (read_page cursor)) @ xs, rp_next_cursor = None\<rparr>, None)" by auto
        with chain_more [of read_page cursor c, OF Some this(1)] show ?thesis by auto
      qed
    qed
  qed
  with assms show ?thesis by blast
qed

text \<open>With a budget the pages left are read one at a time, so reading ends whatever the source does.\<close>

lemma read_pages_total:
  "\<exists>r m. read_pages read_page (Some n) cursor items = Some (r, Some m) \<and> m \<le> n"
proof (induction "nat n" arbitrary: n cursor items)
  case 0
  then show ?case by (subst read_pages.simps) simp
next
  case (Suc k)
  show ?case
  proof (cases "pg_next_cursor (read_page cursor)")
    case None
    with Suc(2) show ?thesis by (subst read_pages.simps) (simp add: Let_def)
  next
    case (Some c)
    have "k = nat (n - 1)" "0 < n" using Suc(2) by simp_all
    with Suc(1) [of "n - 1" "Some c" "items @ pg_items (read_page cursor)"] obtain r m where
      "read_pages read_page (Some (n - 1)) (Some c) (items @ pg_items (read_page cursor)) = Some (r, Some m)"
      "m \<le> n - 1" by auto
    with Some \<open>0 < n\<close> show ?thesis by (subst read_pages.simps) (simp add: Let_def)
  qed
qed


section \<open>Indexing a company to its end\<close>

lemma company_checkpoint_simps [simp]:
  "company_checkpoint_of cid (set_company_checkpoint cid k s) = k"
  "company_checkpoint_of cid (push_domain f s) = company_checkpoint_of cid s"
  "set_company_checkpoint cid k (set_company_checkpoint cid k' s) = set_company_checkpoint cid k s"
  "set_company_checkpoint cid k (push_domain f s) = push_domain f (set_company_checkpoint cid k s)"
  "push_domain f (push_domain g s) = push_domain (f \<circ> g) s"
  "ix_budget (set_company_checkpoint cid k s) = ix_budget s"
  "ix_budget (push_domain f s) = ix_budget s"
  "ix_domain (push_domain f s) = f (ix_domain s)"
  "ix_domain (set_company_checkpoint cid k s) = ix_domain s"
  "ix_checkpoint (push_domain f s) = ix_checkpoint s"
  "ix_diagnostics (set_company_checkpoint cid k s) = ix_diagnostics s"
  "ix_diagnostics (push_domain f s) = ix_diagnostics s"
  by (simp_all add: company_checkpoint_of_def set_company_checkpoint_def push_domain_def update_conv')

lemma checkpoint_fields_simps [simp]:
  "ck_completed_company_ids (ix_checkpoint (set_company_checkpoint cid k s)) = ck_completed_company_ids (ix_checkpoint s)"
  "ck_company_cursor (ix_checkpoint (set_company_checkpoint cid k s)) = ck_company_cursor (ix_checkpoint s)"
  "ck_active_company_id (ix_checkpoint (set_company_checkpoint cid k s)) = ck_active_company_id (ix_checkpoint s)"
  "ck_company_cursors (ix_checkpoint (set_company_checkpoint cid k s)) = dict_put cid k (ck_company_cursors (ix_checkpoint s))"
  by (simp_all add: set_company_checkpoint_def)

lemma index_collection_all:
  assumes "pages_chain read_page None n xs" "ix_budget s = None" "get_cursor (company_checkpoint_of cid s) = None"
  shows "index_collection read_page get_cursor put_cursor push cid s =
    Some (push_domain (push xs) (set_company_checkpoint cid (put_cursor None (company_checkpoint_of cid s)) s), True)"
  using assms read_pages_unbudgeted [OF assms(1), of "[]"] by (cases s) (simp add: index_collection_def Let_def)

lemma index_collection_exhausted:
  assumes "ix_budget s = Some 0" "get_cursor (company_checkpoint_of cid s) = None" "put_cursor None (company_checkpoint_of cid s) = company_checkpoint_of cid s"
  shows "index_collection read_page get_cursor put_cursor push cid s =
    Some (push_domain (push []) (set_company_checkpoint cid (company_checkpoint_of cid s) s), True)"
  using assms by (cases s) (simp add: index_collection_def Let_def read_pages.simps)

lemma index_collection_budgeted:
  assumes "pages_chain read_page None n xs" "ix_budget s = Some (int n + int m)" "get_cursor (company_checkpoint_of cid s) = None"
  shows "index_collection read_page get_cursor put_cursor push cid s =
    Some (push_domain (push xs) (set_company_checkpoint cid (put_cursor None (company_checkpoint_of cid s)) (s\<lparr>ix_budget := Some (int m)\<rparr>)), True)"
proof -
  have "company_checkpoint_of cid (s\<lparr>ix_budget := b\<rparr>) = company_checkpoint_of cid s" for b
    by (simp add: company_checkpoint_of_def)
  with assms read_pages_budgeted [OF assms(1), of m "[]"] show ?thesis by (simp add: index_collection_def Let_def)
qed

record company_source =
  src_employees :: "indexed_employee list"
  src_payroll_runs :: "indexed_payroll_run list"
  src_events :: "indexed_contract_event list"
  src_commitments :: "indexed_commitment list"
  src_audit_permissions :: "indexed_audit_permission list"

definition source_of :: "contract_state_reader \<Rightarrow> int \<Rightarrow> string \<Rightarrow> company_source \<Rightarrow> bool" where
  "source_of rd limit cid src \<longleftrightarrow>
     (\<exists>n. pages_chain (\<lambda>c. rd_list_employees rd cid c limit) None n (src_employees src)) \<and>
     (\<exists>n. pages_chain (\<lambda>c. rd_list_payroll_runs rd cid c limit) None n (src_payroll_runs src)) \<and>
     (\<exists>n. pages_chain (\<lambda>c. rd_list_contract_events rd cid c limit) None n (src_events src)) \<and>
     (\<exists>n. pages_chain (\<lambda>c. rd_list_commitments rd cid c limit) None n (src_commitments src)) \<and>
     (\<exists>n. pages_chain (\<lambda>c. rd_list_audit_permissions rd cid c limit) None n (src_audit_permissions src))"

definition add_source :: "company_source \<Rightarrow> domain_view \<Rightarrow> domain_view" where
  "add_source src d =
     d\<lparr>dv_employees := dv_employees d @ src_employees src, dv_payroll_runs := dv_payroll_runs d @ src_payroll_runs src,
       dv_events := dv_events d @ src_events src, dv_commitments := dv_commitments d @ src_commitments src,
       dv_audit_permissions := dv_audit_permissions d @ src_audit_permissions src\<rparr>"

lemma and_then_simps [simp]:
  "and_then (Some (s, True)) f = f s"
  "and_then (Some (s, False)) f = Some (s, False)"
  by (simp_all add: and_then_def)

lemma index_company_all:
  assumes "source_of rd limit (ic_id c) src" "ix_budget s = None" "company_checkpoint_of (ic_id c) s = empty_company_checkpoint"
  shows "index_company rd limit c s =
    Some (push_domain (add_source src) (set_company_checkpoint (ic_id c) (empty_company_checkpoint\<lparr>cc_complete := Some True\<rparr>) s), True)"
proof -
  let ?cid = "ic_id c"
  obtain n1 n2 n3 n4 n5 where chains:
    "pages_chain (\<lambda>c. rd_list_employees rd ?cid c limit) None n1 (src_employees src)"
    "pages_chain (\<lambda>c. rd_list_payroll_runs rd ?cid c limit) None n2 (src_payroll_runs src)"
    "pages_chain (\<lambda>c. rd_list_contract_events rd ?cid c limit) None n3 (src_events src)"
    "pages_chain (\<lambda>c. rd_list_commitments rd ?cid c limit) None n4 (src_commitments src)"
    "pages_chain (\<lambda>c. rd_list_audit_permissions rd ?cid c limit) None n5 (src_audit_permissions src)"
    using assms(1) unfolding source_of_def by blast
  note all = chains [THEN index_collection_all]
  show ?thesis
    by (simp add: index_company_def Let_def index_employees_def index_payroll_runs_def index_events_def
        index_commitments_def index_audit_permissions_def all assms(2,3) empty_company_checkpoint_def)
      (simp add: push_domain_def add_source_def fun_eq_iff comp_def)
qed


lemma index_company_exhausted:
  assumes "pages_chain (\<lambda>c'. rd_list_employees rd (ic_id c) c' limit) None n xs" "ix_budget s = Some (int n)"
    and "company_checkpoint_of (ic_id c) s = empty_company_checkpoint"
  shows "index_company rd limit c s =
    Some (push_domain (\<lambda>d. d\<lparr>dv_employees := dv_employees d @ xs\<rparr>)
      (set_company_checkpoint (ic_id c) (empty_company_checkpoint\<lparr>cc_complete := Some True\<rparr>) (s\<lparr>ix_budget := Some 0\<rparr>)), True)"
proof -
  have cc: "company_checkpoint_of (ic_id c) (s\<lparr>ix_budget := b\<rparr>) = empty_company_checkpoint" for b
    using assms(3) by (simp add: company_checkpoint_of_def)
  have upd: "(set_company_checkpoint (ic_id c) k s)\<lparr>ix_budget := b\<rparr> = set_company_checkpoint (ic_id c) k (s\<lparr>ix_budget := b\<rparr>)" for k b
    by (simp add: set_company_checkpoint_def)
  note first = index_collection_budgeted [OF assms(1), where m = 0, simplified]
  show ?thesis
    by (simp add: index_company_def Let_def index_employees_def index_payroll_runs_def index_events_def
        index_commitments_def index_audit_permissions_def first assms(2,3) cc upd index_collection_exhausted
        empty_company_checkpoint_def)
qed

section \<open>Indexing every company\<close>

lemma mark_complete_simps [simp]:
  "ix_domain (mark_company_complete cid s) = ix_domain s"
  "ix_budget (mark_company_complete cid s) = ix_budget s"
  "ix_diagnostics (mark_company_complete cid s) = ix_diagnostics s"
  "ck_completed_company_ids (ix_checkpoint (mark_company_complete cid s)) = ck_completed_company_ids (ix_checkpoint s) @ [cid]"
  "ck_company_cursor (ix_checkpoint (mark_company_complete cid s)) = ck_company_cursor (ix_checkpoint s)"
  "ck_company_cursors (ix_checkpoint (mark_company_complete cid s)) =
     dict_put cid (empty_company_checkpoint\<lparr>cc_complete := Some True\<rparr>) (ck_company_cursors (ix_checkpoint s))"
  by (simp_all add: mark_company_complete_def)

lemma index_companies_all:
  assumes "\<forall>c \<in> set cs. source_of rd limit (ic_id c) (src (ic_id c))" "ix_budget s = None" "distinct (map ic_id cs)"
    and "\<forall>c \<in> set cs. ic_id c \<notin> set (ck_completed_company_ids (ix_checkpoint s)) \<and>
      dict_get (ck_company_cursors (ix_checkpoint s)) (ic_id c) = None"
  shows "\<exists>s'. index_companies rd limit cs s = Some (s', True) \<and> ix_budget s' = None \<and>
    ix_domain s' = fold (\<lambda>c. add_source (src (ic_id c))) cs (ix_domain s) \<and>
    ck_completed_company_ids (ix_checkpoint s') = ck_completed_company_ids (ix_checkpoint s) @ map ic_id cs \<and>
    ck_company_cursor (ix_checkpoint s') = ck_company_cursor (ix_checkpoint s) \<and>
    ix_diagnostics s' = ix_diagnostics s"
  using assms
proof (induction cs arbitrary: s)
  case (Cons c cs)
  let ?cid = "ic_id c"
  let ?s1 = "push_domain (add_source (src ?cid)) (set_company_checkpoint ?cid (empty_company_checkpoint\<lparr>cc_complete := Some True\<rparr>) s)"
  let ?s2 = "mark_company_complete ?cid ?s1"
  have "company_checkpoint_of ?cid s = empty_company_checkpoint"
    using Cons.prems(4) by (simp add: company_checkpoint_of_def)
  then have step: "index_companies rd limit (c # cs) s = index_companies rd limit cs ?s2"
    using Cons.prems index_company_all [of rd limit c "src ?cid" s] by simp
  have "\<exists>s'. index_companies rd limit cs ?s2 = Some (s', True) \<and> ix_budget s' = None \<and>
      ix_domain s' = fold (\<lambda>c. add_source (src (ic_id c))) cs (ix_domain ?s2) \<and>
      ck_completed_company_ids (ix_checkpoint s') = ck_completed_company_ids (ix_checkpoint ?s2) @ map ic_id cs \<and>
      ck_company_cursor (ix_checkpoint s') = ck_company_cursor (ix_checkpoint ?s2) \<and>
      ix_diagnostics s' = ix_diagnostics ?s2"
    using Cons.prems by (intro Cons.IH) (auto simp: update_conv' rev_image_eqI)
  then show ?case unfolding step by simp
qed simp

lemma fold_add_source:
  "fold (\<lambda>c. add_source (src (ic_id c))) cs d =
     d\<lparr>dv_employees := dv_employees d @ concat (map (\<lambda>c. src_employees (src (ic_id c))) cs),
       dv_payroll_runs := dv_payroll_runs d @ concat (map (\<lambda>c. src_payroll_runs (src (ic_id c))) cs),
       dv_events := dv_events d @ concat (map (\<lambda>c. src_events (src (ic_id c))) cs),
       dv_commitments := dv_commitments d @ concat (map (\<lambda>c. src_commitments (src (ic_id c))) cs),
       dv_audit_permissions := dv_audit_permissions d @ concat (map (\<lambda>c. src_audit_permissions (src (ic_id c))) cs)\<rparr>"
  by (induction cs arbitrary: d) (simp_all add: add_source_def)

definition whole_domain :: "indexed_company list \<Rightarrow> (string \<Rightarrow> company_source) \<Rightarrow> domain_view" where
  "whole_domain cs src =
     \<lparr>dv_companies = cs,
      dv_employees = concat (map (\<lambda>c. src_employees (src (ic_id c))) cs),
      dv_payroll_runs = concat (map (\<lambda>c. src_payroll_runs (src (ic_id c))) cs),
      dv_events = concat (map (\<lambda>c. src_events (src (ic_id c))) cs),
      dv_commitments = concat (map (\<lambda>c. src_commitments (src (ic_id c))) cs),
      dv_audit_permissions = concat (map (\<lambda>c. src_audit_permissions (src (ic_id c))) cs)\<rparr>"

definition full_index :: "int \<Rightarrow> int \<Rightarrow> index_options" where
  "full_index limit at = \<lparr>io_page_size = Some limit, io_max_pages = None, io_indexed_at = at, io_checkpoint = None\<rparr>"

text \<open>
  C10: an index without a page budget ends exactly when the source's cursors do, and then returns everything the
  source has: all companies, and for each of them, in order, all its employees, runs, events, commitments and
  permissions, with every company completed and the diagnostics of exactly that view.
\<close>

theorem full_index_is_complete:
  assumes "pages_chain (\<lambda>c. rd_list_companies rd c limit) None n cs" "distinct (map ic_id cs)"
    and "\<forall>c \<in> set cs. source_of rd limit (ic_id c) (src (ic_id c))"
  shows "\<exists>r. index_contract_state rd (full_index limit at) = Some r \<and>
    xr_domain r = whole_domain cs src \<and>
    ck_completed_company_ids (xr_checkpoint r) = map ic_id cs \<and> ck_complete (xr_checkpoint r) \<and>
    ck_active_company_id (xr_checkpoint r) = None \<and>
    xr_all r = consistency_diagnostics (whole_domain cs src) at"
proof -
  let ?s = "\<lparr>ix_checkpoint = create_checkpoint None at, ix_domain = empty_domain\<lparr>dv_companies := cs\<rparr>, ix_budget = None,
    ix_diagnostics = []\<rparr>"
  have "\<exists>s'. index_companies rd limit cs ?s = Some (s', True) \<and> ix_budget s' = None \<and>
      ix_domain s' = fold (\<lambda>c. add_source (src (ic_id c))) cs (ix_domain ?s) \<and>
      ck_completed_company_ids (ix_checkpoint s') = ck_completed_company_ids (ix_checkpoint ?s) @ map ic_id cs \<and>
      ck_company_cursor (ix_checkpoint s') = ck_company_cursor (ix_checkpoint ?s) \<and>
      ix_diagnostics s' = ix_diagnostics ?s"
    using assms by (intro index_companies_all) (auto simp: create_checkpoint_def)
  then obtain s' where s': "index_companies rd limit cs ?s = Some (s', True)"
      "ix_domain s' = whole_domain cs src" "ck_completed_company_ids (ix_checkpoint s') = map ic_id cs"
      "ck_company_cursor (ix_checkpoint s') = None" "ix_diagnostics s' = []"
    by (auto simp: fold_add_source whole_domain_def empty_domain_def create_checkpoint_def)
  have "index_listed_companies rd limit at
      \<lparr>ix_checkpoint = create_checkpoint None at, ix_domain = empty_domain, ix_budget = None, ix_diagnostics = []\<rparr> =
    Some ((set_complete True (set_active None s'))\<lparr>ix_diagnostics := consistency_diagnostics (whole_domain cs src) at\<rparr>)"
    using s' read_pages_unbudgeted [OF assms(1), of "[]"]
    by (simp add: index_listed_companies_def push_domain_def create_checkpoint_def empty_domain_def Let_def
        set_complete_def set_active_def)
  then show ?thesis
    using s' by (simp add: index_contract_state_def full_index_def create_checkpoint_def to_result_def set_complete_def
        set_active_def Let_def)
qed

text \<open>
  a page budget that runs out exactly after the employees of the only company makes the index report the
  company and the whole index as complete, although no payroll run, event, commitment or permission was read.
\<close>

theorem exhausted_budget_reports_complete:
  assumes "rd_list_companies rd None limit = \<lparr>pg_items = [c], pg_next_cursor = None\<rparr>"
    and "pages_chain (\<lambda>cu. rd_list_employees rd (ic_id c) cu limit) None n xs"
  shows "\<exists>r. index_contract_state rd ((full_index limit at)\<lparr>io_max_pages := Some (int (Suc n))\<rparr>) = Some r \<and>
    ck_complete (xr_checkpoint r) \<and> ck_completed_company_ids (xr_checkpoint r) = [ic_id c] \<and>
    xr_domain r = \<lparr>dv_companies = [c], dv_employees = xs, dv_payroll_runs = [], dv_events = [], dv_commitments = [],
      dv_audit_permissions = []\<rparr>"
proof -
  have "0 < n" using assms(2) by (cases rule: pages_chain.cases) simp_all
  let ?s = "\<lparr>ix_checkpoint = create_checkpoint None at, ix_domain = empty_domain\<lparr>dv_companies := [c]\<rparr>,
    ix_budget = Some (int n), ix_diagnostics = []\<rparr>"
  have "company_checkpoint_of (ic_id c) ?s = empty_company_checkpoint"
    by (simp add: company_checkpoint_of_def create_checkpoint_def)
  note ic = index_company_exhausted [OF assms(2) _ this, simplified]
  have lc: "read_pages (\<lambda>c. rd_list_companies rd c limit) (Some (int (Suc n))) None [] =
      Some (\<lparr>rp_items = [c], rp_next_cursor = None\<rparr>, Some (int n))"
    by (subst read_pages.simps) (simp add: assms(1) Let_def)
  have all: "index_companies rd limit [c] ?s = Some (mark_company_complete (ic_id c)
      (push_domain (\<lambda>d. d\<lparr>dv_employees := dv_employees d @ xs\<rparr>)
        (set_company_checkpoint (ic_id c) (empty_company_checkpoint\<lparr>cc_complete := Some True\<rparr>) (?s\<lparr>ix_budget := Some 0\<rparr>))), True)"
    using \<open>0 < n\<close> ic by (simp add: create_checkpoint_def)
  show ?thesis
    using lc all
    by (simp add: index_contract_state_def full_index_def index_listed_companies_def create_checkpoint_def empty_domain_def
        push_domain_def to_result_def set_complete_def set_active_def Let_def)
qed


section \<open>A budgeted index ends\<close>

definition within_budget :: "int \<Rightarrow> index_state \<Rightarrow> bool" where
  "within_budget n s \<longleftrightarrow> (\<exists>m. ix_budget s = Some m \<and> m \<le> n)"

definition ends_within :: "int \<Rightarrow> (index_state \<times> bool) option \<Rightarrow> bool" where
  "ends_within n r \<longleftrightarrow> (\<exists>s go_on. r = Some (s, go_on) \<and> within_budget n s)"

lemma ends_within_Some [simp]: "ends_within n (Some (s, go_on)) = within_budget n s"
  by (simp add: ends_within_def)

lemma ends_within_bind:
  "ends_within n r \<Longrightarrow> (\<And>s g. within_budget n s \<Longrightarrow> ends_within n (f (s, g))) \<Longrightarrow> ends_within n (r \<bind> f)"
  by (auto simp: ends_within_def)

lemma within_budget_simps [simp]:
  "within_budget n (set_company_checkpoint cid k s) = within_budget n s"
  "within_budget n (push_domain f s) = within_budget n s"
  "within_budget n (mark_company_complete cid s) = within_budget n s"
  "within_budget n (set_active a s) = within_budget n s"
  "within_budget n (set_complete b s) = within_budget n s"
  "within_budget n (push_diagnostic d s) = within_budget n s"
  by (simp_all add: within_budget_def set_active_def set_complete_def push_diagnostic_def)

lemma index_collection_ends:
  assumes "within_budget n s"
  shows "ends_within n (index_collection read_page get_cursor put_cursor push cid s)"
proof -
  obtain b where b: "ix_budget s = Some b" "b \<le> n" using assms by (auto simp: within_budget_def)
  obtain r m where "read_pages read_page (Some b) (get_cursor (company_checkpoint_of cid s)) [] = Some (r, Some m)"
    "m \<le> b"
    using read_pages_total [of read_page b "get_cursor (company_checkpoint_of cid s)" "[]"] by auto
  with b show ?thesis by (simp add: index_collection_def ends_within_def Let_def) (simp add: within_budget_def)
qed

lemma and_then_ends:
  "ends_within n r \<Longrightarrow> (\<And>s. within_budget n s \<Longrightarrow> ends_within n (f s)) \<Longrightarrow> ends_within n (and_then r f)"
  by (auto simp: ends_within_def and_then_def)

lemma index_company_ends:
  assumes "within_budget n s"
  shows "ends_within n (index_company rd limit c s)"
proof -
  have last: "ends_within n (index_audit_permissions rd limit cid t)" if "within_budget n t" for cid t
    using index_collection_ends [OF that, of "\<lambda>c. rd_list_audit_permissions rd cid c limit" cc_audit_permissions_cursor
        "\<lambda>c k. k\<lparr>cc_audit_permissions_cursor := c\<rparr>" "\<lambda>xs d. d\<lparr>dv_audit_permissions := dv_audit_permissions d @ xs\<rparr>" cid]
    by (auto simp: ends_within_def index_audit_permissions_def Let_def)
  show ?thesis
    unfolding index_company_def Let_def
    using assms
    by (intro and_then_ends last)
      (simp_all add: index_collection_ends index_employees_def index_payroll_runs_def index_events_def index_commitments_def)
qed

lemma index_companies_ends:
  "within_budget n s \<Longrightarrow> ends_within n (index_companies rd limit cs s)"
proof (induction cs arbitrary: s)
  case (Cons c cs)
  from index_company_ends [OF Cons.prems, of rd limit c] obtain t go_on where
    "index_company rd limit c s = Some (t, go_on)" "within_budget n t" by (auto simp: ends_within_def)
  with Cons show ?case by (cases go_on) simp_all
qed simp

lemma index_listed_companies_ends:
  assumes "within_budget n s"
  shows "\<exists>t. index_listed_companies rd limit at s = Some t \<and> within_budget n t"
proof -
  obtain b where b: "ix_budget s = Some b" "b \<le> n" using assms by (auto simp: within_budget_def)
  obtain r m where rp: "read_pages (\<lambda>c. rd_list_companies rd c limit) (Some b) (ck_company_cursor (ix_checkpoint s)) [] = Some (r, Some m)"
    "m \<le> b"
    using read_pages_total [of "\<lambda>c. rd_list_companies rd c limit" b "ck_company_cursor (ix_checkpoint s)" "[]"] by auto
  define s1 where "s1 = push_domain (\<lambda>d. d\<lparr>dv_companies := dv_companies d @ rp_items r\<rparr>) (s\<lparr>ix_budget := Some m\<rparr>)"
  define s2 where "s2 = s1\<lparr>ix_checkpoint := (ix_checkpoint s1)\<lparr>ck_company_cursor := rp_next_cursor r\<rparr>\<rparr>"
  have "within_budget n s2" using b rp by (simp add: s2_def s1_def within_budget_def push_domain_def)
  from index_companies_ends [OF this, of rd limit "rp_items r"] obtain t go_on where
    "index_companies rd limit (rp_items r) s2 = Some (t, go_on)" "within_budget n t" by (auto simp: ends_within_def)
  then have "index_listed_companies rd limit at s = Some (if \<not> go_on then t
      else (set_complete (ck_company_cursor (ix_checkpoint t) = None) (set_active None t))
        \<lparr>ix_diagnostics := ix_diagnostics t @ consistency_diagnostics (ix_domain t) at\<rparr>)"
    using rp(1) b(1)
    by (simp add: index_listed_companies_def Let_def s1_def s2_def set_complete_def set_active_def push_domain_def)
  with \<open>within_budget n t\<close> show ?thesis by (simp add: within_budget_def set_complete_def set_active_def)
qed

lemma resume_active_company_ends:
  assumes "within_budget n s"
  shows "ends_within n (resume_active_company rd limit cid s)"
proof -
  have co: "ends_within n (index_company rd limit c (push_domain f s))" for c f
    using assms by (intro index_company_ends) simp
  show ?thesis
  proof (cases "rd_get_company rd")
    case (Some get)
    show ?thesis
    proof (cases "get cid")
      case (Some c)
      have "ends_within n (index_company rd limit c (push_domain (\<lambda>d. d\<lparr>dv_companies := dv_companies d @ [c]\<rparr>) s) \<bind>
          (\<lambda>(s1, complete). Some (if complete then (set_active None (mark_company_complete (ic_id c) s1), True) else (s1, False))))"
        by (intro ends_within_bind co) (auto simp: ends_within_def)
      with Some \<open>rd_get_company rd = Some get\<close> show ?thesis by (simp add: resume_active_company_def)
    qed (use assms Some in \<open>simp add: resume_active_company_def\<close>)
  qed (use assms in \<open>simp add: resume_active_company_def\<close>)
qed

text \<open>
  with a page budget an index ends, from any checkpoint and against any reader, even one whose cursors never
  end; reading pages without a budget ends only if the cursors of the source do, and then gives all its items.
\<close>

theorem budgeted_index_terminates:
  "(\<exists>r. index_contract_state rd (opts\<lparr>io_max_pages := Some n\<rparr>) = Some r) \<and>
   (read_pages read_page None cursor items \<noteq> None \<longleftrightarrow> (\<exists>k xs. pages_chain read_page cursor k xs))"
proof -
  have "\<exists>r. index_contract_state rd (opts\<lparr>io_max_pages := Some n\<rparr>) = Some r"
  proof -
    define limit where "limit = (case io_page_size opts of None \<Rightarrow> 100 | Some n \<Rightarrow> n)"
    define s0 where "s0 = \<lparr>ix_checkpoint = create_checkpoint (io_checkpoint opts) (io_indexed_at opts), ix_domain = empty_domain,
                ix_budget = Some n, ix_diagnostics = []\<rparr>"
    have w: "within_budget n s0" by (simp add: s0_def within_budget_def)
    have "ends_within n (case ck_active_company_id (ix_checkpoint s0) of
             None \<Rightarrow> Some (s0, True)
           | Some a \<Rightarrow> if a = [] then Some (s0, True) else resume_active_company rd limit a s0)"
      using w by (auto simp: ends_within_def [of n "Some _"] resume_active_company_ends split: option.split)
    then obtain s1 go_on where s1: "(case ck_active_company_id (ix_checkpoint s0) of
             None \<Rightarrow> Some (s0, True)
           | Some a \<Rightarrow> if a = [] then Some (s0, True) else resume_active_company rd limit a s0) = Some (s1, go_on)"
      "within_budget n s1" by (auto simp: ends_within_def)
    obtain t where "index_listed_companies rd limit (io_indexed_at opts) s1 = Some t"
      using index_listed_companies_ends [OF s1(2)] by blast
    with s1(1) show ?thesis
      by (cases go_on) (simp_all add: index_contract_state_def Let_def flip: limit_def s0_def)
  qed
  moreover have "read_pages read_page None cursor items \<noteq> None \<longleftrightarrow> (\<exists>k xs. pages_chain read_page cursor k xs)"
    using read_pages_unbudgeted read_pages_unbudgeted_chain by fastforce
  ultimately show ?thesis by blast
qed


section \<open>What the diagnostics mean\<close>

definition has_company :: "domain_view \<Rightarrow> string \<Rightarrow> bool" where
  "has_company d c \<longleftrightarrow> (\<exists>x \<in> set (dv_companies d). ic_id x = c)"

definition has_employee :: "domain_view \<Rightarrow> string \<Rightarrow> string \<Rightarrow> bool" where
  "has_employee d c e \<longleftrightarrow> (\<exists>x \<in> set (dv_employees d). ie_company_id x = c \<and> ie_id x = e)"

definition has_payroll_run :: "domain_view \<Rightarrow> string \<Rightarrow> string \<Rightarrow> bool" where
  "has_payroll_run d c r \<longleftrightarrow> (\<exists>x \<in> set (dv_payroll_runs d). ir_company_id x = c \<and> ir_id x = r)"

definition event_linked :: "domain_view \<Rightarrow> indexed_contract_event \<Rightarrow> bool" where
  "event_linked d e \<longleftrightarrow>
     (ct_id e \<noteq> [] \<and> ct_type e \<noteq> [] \<and> ct_occurred_at e \<noteq> None \<and> truthy (ct_company_id e) \<longrightarrow>
        has_company d (company_of_event e) \<and>
        (\<forall>x. ct_employee_id e = Some x \<and> x \<noteq> [] \<longrightarrow> has_employee d (company_of_event e) x) \<and>
        (\<forall>r. ct_payroll_run_id e = Some r \<and> r \<noteq> [] \<longrightarrow> has_payroll_run d (company_of_event e) r))"

definition linked :: "domain_view \<Rightarrow> bool" where
  "linked d \<longleftrightarrow>
     (\<forall>e \<in> set (dv_employees d). has_company d (ie_company_id e)) \<and>
     (\<forall>r \<in> set (dv_payroll_runs d). has_company d (ir_company_id r)) \<and>
     (\<forall>c \<in> set (dv_commitments d). has_company d (cm_company_id c) \<and> has_employee d (cm_company_id c) (cm_employee_id c) \<and>
        (\<forall>r. cm_payroll_run_id c = Some r \<and> r \<noteq> [] \<longrightarrow> has_payroll_run d (cm_company_id c) r)) \<and>
     (\<forall>e \<in> set (dv_events d). event_linked d e) \<and>
     (\<forall>p \<in> set (dv_audit_permissions d). has_company d (ap_company_id p))"

definition colon_free :: "domain_view \<Rightarrow> bool" where
  "colon_free d \<longleftrightarrow>
     (\<forall>e \<in> set (dv_employees d). CHR '':'' \<notin> set (ie_company_id e)) \<and>
     (\<forall>r \<in> set (dv_payroll_runs d). CHR '':'' \<notin> set (ir_company_id r)) \<and>
     (\<forall>c \<in> set (dv_commitments d). CHR '':'' \<notin> set (cm_company_id c)) \<and>
     (\<forall>e \<in> set (dv_events d). CHR '':'' \<notin> set (company_of_event e))"

definition unrecoverable_only :: "indexer_diagnostic list \<Rightarrow> bool" where
  "unrecoverable_only ds \<longleftrightarrow> (\<forall>g \<in> set ds. dg_severity g \<noteq> DiagRecoverable)"

lemma unrecoverable_simps [simp]:
  "unrecoverable_only []"
  "unrecoverable_only (xs @ ys) \<longleftrightarrow> unrecoverable_only xs \<and> unrecoverable_only ys"
  "unrecoverable_only (concat xss) \<longleftrightarrow> (\<forall>xs \<in> set xss. unrecoverable_only xs)"
  "unrecoverable_only (when_diag c (diag s k r)) \<longleftrightarrow> (c \<longrightarrow> s \<noteq> DiagRecoverable)"
  "unrecoverable_only [diag s k r] \<longleftrightarrow> s \<noteq> DiagRecoverable"
  by (auto simp: unrecoverable_only_def when_diag_def diag_def)

lemma when_diag_Nil [simp]: "when_diag c g = [] \<longleftrightarrow> \<not> c"
  by (simp add: when_diag_def)

lemma key_inj: "CHR '':'' \<notin> set c \<Longrightarrow> CHR '':'' \<notin> set c' \<Longrightarrow> c @ '':'' @ x = c' @ '':'' @ x' \<longleftrightarrow> c = c' \<and> x = x'"
  using composite_key_inj [of c x c' x'] by (auto simp: composite_key_def)

lemma company_ids_iff: "c \<in> set (company_ids d) \<longleftrightarrow> has_company d c"
  by (auto simp: company_ids_def has_company_def)

lemma employee_keys_iff:
  assumes "colon_free d" "CHR '':'' \<notin> set c"
  shows "employee_key c x \<in> set (employee_keys d) \<longleftrightarrow> has_employee d c x"
proof -
  have "employee_key c x = employee_key (ie_company_id e) (ie_id e) \<longleftrightarrow> c = ie_company_id e \<and> x = ie_id e"
    if "e \<in> set (dv_employees d)" for e
    using assms that by (simp add: colon_free_def employee_key_def key_inj del: append.simps)
  then show ?thesis by (auto simp: employee_keys_def has_employee_def image_iff)
qed

lemma payroll_run_keys_iff:
  assumes "colon_free d" "CHR '':'' \<notin> set c"
  shows "payroll_run_key c x \<in> set (payroll_run_keys d) \<longleftrightarrow> has_payroll_run d c x"
proof -
  have "payroll_run_key c x = payroll_run_key (ir_company_id r) (ir_id r) \<longleftrightarrow> c = ir_company_id r \<and> x = ir_id r"
    if "r \<in> set (dv_payroll_runs d)" for r
    using assms that by (simp add: colon_free_def payroll_run_key_def key_inj del: append.simps)
  then show ?thesis by (auto simp: payroll_run_keys_def has_payroll_run_def image_iff)
qed

lemma check_commitments_unrecoverable:
  "unrecoverable_only (check_commitments d cs seen) \<longleftrightarrow> (\<forall>c \<in> set cs. unrecoverable_only (check_commitment d c))"
  by (induction d cs seen rule: check_commitments.induct) auto

lemma check_commitment_unrecoverable:
  assumes "colon_free d" "c \<in> set (dv_commitments d)"
  shows "unrecoverable_only (check_commitment d c) \<longleftrightarrow>
    has_company d (cm_company_id c) \<and> has_employee d (cm_company_id c) (cm_employee_id c) \<and>
    (\<forall>r. cm_payroll_run_id c = Some r \<and> r \<noteq> [] \<longrightarrow> has_payroll_run d (cm_company_id c) r)"
proof -
  have "CHR '':'' \<notin> set (cm_company_id c)" using assms by (simp add: colon_free_def)
  note k = employee_keys_iff [OF assms(1) this] payroll_run_keys_iff [OF assms(1) this]
  show ?thesis by (auto simp: check_commitment_def company_ids_iff k split: option.split)
qed

lemma validate_event_unrecoverable:
  assumes "colon_free d" "e \<in> set (dv_events d)"
  shows "unrecoverable_only (validate_event d e) \<longleftrightarrow> event_linked d e"
proof -
  have "CHR '':'' \<notin> set (company_of_event e)" using assms by (simp add: colon_free_def)
  note k = employee_keys_iff [OF assms(1) this] payroll_run_keys_iff [OF assms(1) this]
  have tail: "unrecoverable_only (case find P xs of None \<Rightarrow> [] | Some run \<Rightarrow>
       (case ct_employee_id e of None \<Rightarrow> [] | Some x \<Rightarrow> when_diag (Q x run) (diag DiagWarning MISMATCHED_EVENT_DATA (ct_id e))) @
       (case (ir_total_amount run, ct_amount e) of (Some tot, Some _) \<Rightarrow>
           when_diag (R tot) (diag DiagWarning MISMATCHED_EVENT_DATA (ct_id e)) | _ \<Rightarrow> []))" for P xs Q R
    by (auto split: option.split)
  show ?thesis
    by (cases "ct_employee_id e"; cases "ct_payroll_run_id e")
      (auto simp: validate_event_def event_linked_def Let_def company_ids_iff k tail)
qed

text \<open>
  with identifiers of companies free of colons, the index reports no recoverable error exactly when the view
  is linked: every employee, run, commitment and permission belongs to an indexed company, every commitment to
  an indexed employee and, if it names one, run of its company, and every well-formed event likewise.
\<close>

theorem no_recoverable_error_iff_linked:
  assumes "colon_free d"
  shows "(\<forall>g \<in> set (consistency_diagnostics d at). dg_severity g \<noteq> DiagRecoverable) \<longleftrightarrow> linked d"
proof -
  have "unrecoverable_only (consistency_diagnostics d at) \<longleftrightarrow> linked d"
    using check_commitment_unrecoverable [OF assms] validate_event_unrecoverable [OF assms]
    by (auto simp: consistency_diagnostics_def linked_def check_commitments_unrecoverable check_employee_def
        check_payroll_run_def check_permission_def company_ids_iff)
  then show ?thesis by (simp add: unrecoverable_only_def)
qed


section \<open>Resuming inside a page of companies\<close>

lemma set_active_simps [simp]:
  "ix_domain (set_active a s) = ix_domain s" "ix_budget (set_active a s) = ix_budget s"
  "ix_diagnostics (set_active a s) = ix_diagnostics s"
  "ck_completed_company_ids (ix_checkpoint (set_active a s)) = ck_completed_company_ids (ix_checkpoint s)"
  "ck_company_cursor (ix_checkpoint (set_active a s)) = ck_company_cursor (ix_checkpoint s)"
  "ck_company_cursors (ix_checkpoint (set_active a s)) = ck_company_cursors (ix_checkpoint s)"
  by (simp_all add: set_active_def)

lemma index_listed_unbudgeted:
  assumes "ix_budget s = None" "pages_chain (\<lambda>cu. rd_list_companies rd cu limit) (ck_company_cursor (ix_checkpoint s)) n cs"
    and "index_companies rd limit cs ((push_domain (\<lambda>d. d\<lparr>dv_companies := dv_companies d @ cs\<rparr>) s)
      \<lparr>ix_checkpoint := (ix_checkpoint s)\<lparr>ck_company_cursor := None\<rparr>\<rparr>) = Some (s', True)"
    and "ck_company_cursor (ix_checkpoint s') = None"
  shows "index_listed_companies rd limit at s =
    Some ((set_complete True (set_active None s'))\<lparr>ix_diagnostics := ix_diagnostics s' @ consistency_diagnostics (ix_domain s') at\<rparr>)"
  using assms read_pages_unbudgeted [OF assms(2), of "[]"]
  by (cases s) (simp add: index_listed_companies_def Let_def set_complete_def set_active_def)

text \<open>
  if the budget ends after the first page of companies, the checkpoint keeps the first company of the page
  and the cursor of the next page. The resumed index reads that company and the later pages and reports the
  index complete; the other companies of the first page are never indexed.
\<close>

theorem resumed_index_skips_companies:
  assumes list1: "rd_list_companies rd None limit = \<lparr>pg_items = a # bs, pg_next_cursor = Some c\<rparr>"
    and list2: "pages_chain (\<lambda>cu. rd_list_companies rd cu limit) (Some c) n cs"
    and get: "rd_get_company rd = Some get" "get (ic_id a) = Some a" and "ic_id a \<noteq> []"
    and src: "\<forall>x \<in> set (a # cs). source_of rd limit (ic_id x) (src (ic_id x))" "distinct (map ic_id (a # cs))"
  shows "\<exists>r1 r2. index_contract_state rd ((full_index limit at)\<lparr>io_max_pages := Some 1\<rparr>) = Some r1 \<and>
    index_contract_state rd ((full_index limit at)\<lparr>io_checkpoint := Some (xr_checkpoint r1)\<rparr>) = Some r2 \<and>
    ck_complete (xr_checkpoint r2) \<and> ck_completed_company_ids (xr_checkpoint r2) = map ic_id (a # cs) \<and>
    dv_employees (xr_domain r1) = [] \<and> xr_domain r2 = whole_domain (a # cs) src"
proof -
  define ck where "ck = (create_checkpoint None at)\<lparr>ck_company_cursor := Some c, ck_active_company_id := Some (ic_id a)\<rparr>"
  have rp1: "read_pages (\<lambda>c. rd_list_companies rd c limit) (Some 1) None [] =
      Some (\<lparr>rp_items = a # bs, rp_next_cursor = Some c\<rparr>, Some 0)"
    by (subst read_pages.simps) (simp add: list1 Let_def read_pages.simps)
  have first: "\<exists>r1. index_contract_state rd ((full_index limit at)\<lparr>io_max_pages := Some 1\<rparr>) = Some r1 \<and>
      xr_checkpoint r1 = ck \<and> dv_employees (xr_domain r1) = []"
    using rp1 by (simp add: index_contract_state_def full_index_def index_listed_companies_def create_checkpoint_def
        empty_domain_def push_domain_def to_result_def set_complete_def set_active_def Let_def ck_def)
  define s0 where "s0 = \<lparr>ix_checkpoint = ck, ix_domain = empty_domain, ix_budget = None, ix_diagnostics = []\<rparr>"
  define s1 where "s1 = push_domain (\<lambda>d. d\<lparr>dv_companies := dv_companies d @ [a]\<rparr>) s0"
  define s2 where "s2 = set_active None (mark_company_complete (ic_id a) (push_domain (add_source (src (ic_id a)))
      (set_company_checkpoint (ic_id a) (empty_company_checkpoint\<lparr>cc_complete := Some True\<rparr>) s1)))"
  have "company_checkpoint_of (ic_id a) s1 = empty_company_checkpoint"
    by (simp add: s1_def s0_def company_checkpoint_of_def ck_def create_checkpoint_def push_domain_def)
  then have "index_company rd limit a s1 = Some (push_domain (add_source (src (ic_id a)))
      (set_company_checkpoint (ic_id a) (empty_company_checkpoint\<lparr>cc_complete := Some True\<rparr>) s1), True)"
    using src(1) by (intro index_company_all) (simp_all add: s1_def s0_def)
  then have resumed: "resume_active_company rd limit (ic_id a) s0 = Some (s2, True)"
    by (simp add: resume_active_company_def get s1_def [symmetric] s2_def)
  define s3 where "s3 = (push_domain (\<lambda>d. d\<lparr>dv_companies := dv_companies d @ cs\<rparr>) s2)
      \<lparr>ix_checkpoint := (ix_checkpoint s2)\<lparr>ck_company_cursor := None\<rparr>\<rparr>"
  have s2: "ix_budget s2 = None" "ck_company_cursor (ix_checkpoint s2) = Some c" "ix_diagnostics s2 = []"
    by (simp_all add: s2_def s1_def s0_def ck_def)
  have s3: "ix_budget s3 = None" "ck_completed_company_ids (ix_checkpoint s3) = [ic_id a]"
    "dict_get (ck_company_cursors (ix_checkpoint s3)) x = (if x = ic_id a then Some (empty_company_checkpoint\<lparr>cc_complete := Some True\<rparr>) else None)"
    "ck_company_cursor (ix_checkpoint s3) = None" "ix_diagnostics s3 = []" for x
    by (simp_all add: s3_def s2_def s1_def s0_def ck_def create_checkpoint_def push_domain_def update_conv')
  have "\<exists>s'. index_companies rd limit cs s3 = Some (s', True) \<and> ix_budget s' = None \<and>
      ix_domain s' = fold (\<lambda>c. add_source (src (ic_id c))) cs (ix_domain s3) \<and>
      ck_completed_company_ids (ix_checkpoint s') = ck_completed_company_ids (ix_checkpoint s3) @ map ic_id cs \<and>
      ck_company_cursor (ix_checkpoint s') = ck_company_cursor (ix_checkpoint s3) \<and>
      ix_diagnostics s' = ix_diagnostics s3"
    using src s3 by (intro index_companies_all) (auto simp: rev_image_eqI)
  then obtain s' where s': "index_companies rd limit cs s3 = Some (s', True)"
      "ix_domain s' = fold (\<lambda>c. add_source (src (ic_id c))) cs (ix_domain s3)"
      "ck_completed_company_ids (ix_checkpoint s') = ic_id a # map ic_id cs" "ck_company_cursor (ix_checkpoint s') = None"
    by (auto simp: s3)
  have dom: "ix_domain s' = whole_domain (a # cs) src"
    by (simp add: s'(2) fold_add_source s3_def s2_def s1_def s0_def empty_domain_def whole_domain_def push_domain_def add_source_def
        set_company_checkpoint_def set_active_def mark_company_complete_def)
  have "index_listed_companies rd limit at s2 =
      Some ((set_complete True (set_active None s'))\<lparr>ix_diagnostics := ix_diagnostics s' @ consistency_diagnostics (ix_domain s') at\<rparr>)"
    using s2 list2 s'(1,4) unfolding s3_def by (intro index_listed_unbudgeted) simp_all
  then have "\<exists>r2. index_contract_state rd ((full_index limit at)\<lparr>io_checkpoint := Some ck\<rparr>) = Some r2 \<and>
      ck_complete (xr_checkpoint r2) \<and> ck_completed_company_ids (xr_checkpoint r2) = map ic_id (a # cs) \<and>
      xr_domain r2 = whole_domain (a # cs) src"
    using resumed assms(5) s'(3) dom
    by (simp add: index_contract_state_def full_index_def Let_def to_result_def set_complete_def set_active_def
        s0_def ck_def create_checkpoint_def)
  with first show ?thesis by metis
qed


section \<open>Examples\<close>

definition one_page :: "'a list \<Rightarrow> 'a contract_state_page" where
  "one_page xs = \<lparr>pg_items = xs, pg_next_cursor = None\<rparr>"

definition example_reader :: contract_state_reader where
  "example_reader =
     \<lparr>rd_get_company = Some (\<lambda>i. Some \<lparr>ic_id = i\<rparr>),
      rd_list_companies = (\<lambda>c _. if c = None then \<lparr>pg_items = [\<lparr>ic_id = ''a''\<rparr>, \<lparr>ic_id = ''b''\<rparr>], pg_next_cursor = Some ''2''\<rparr>
                                 else one_page [\<lparr>ic_id = ''c''\<rparr>]),
      rd_list_employees = (\<lambda>i _ _. one_page [\<lparr>ie_id = ''e'', ie_company_id = i\<rparr>]),
      rd_list_payroll_runs = (\<lambda>i _ _. one_page [\<lparr>ir_id = ''r'', ir_company_id = i, ir_employee_ids = [''e''], ir_total_amount = None\<rparr>]),
      rd_list_contract_events = (\<lambda>_ _ _. one_page []), rd_list_commitments = (\<lambda>_ _ _. one_page []),
      rd_list_audit_permissions = (\<lambda>_ _ _. one_page [])\<rparr>"

definition example_source :: "string \<Rightarrow> company_source" where
  "example_source i =
     \<lparr>src_employees = [\<lparr>ie_id = ''e'', ie_company_id = i\<rparr>],
      src_payroll_runs = [\<lparr>ir_id = ''r'', ir_company_id = i, ir_employee_ids = [''e''], ir_total_amount = None\<rparr>],
      src_events = [], src_commitments = [], src_audit_permissions = []\<rparr>"

lemma one_page_chain: "read_page cursor = one_page xs \<Longrightarrow> pages_chain read_page cursor 1 xs"
  using chain_end [of read_page cursor] by (simp add: one_page_def)

lemma example_source_of: "source_of example_reader limit i (example_source i)"
  unfolding source_of_def by (intro conjI exI [of _ 1] one_page_chain) (simp_all add: example_reader_def example_source_def)

lemma example_companies:
  "pages_chain (\<lambda>c. rd_list_companies example_reader c limit) (Some ''2'') 1 [\<lparr>ic_id = ''c''\<rparr>]"
  "pages_chain (\<lambda>c. rd_list_companies example_reader c limit) None 2 [\<lparr>ic_id = ''a''\<rparr>, \<lparr>ic_id = ''b''\<rparr>, \<lparr>ic_id = ''c''\<rparr>]"
proof -
  show 1: "pages_chain (\<lambda>c. rd_list_companies example_reader c limit) (Some ''2'') 1 [\<lparr>ic_id = ''c''\<rparr>]"
    by (rule one_page_chain) (simp add: example_reader_def)
  have "pg_next_cursor (rd_list_companies example_reader None limit) = Some ''2''" by (simp add: example_reader_def)
  from chain_more [of "\<lambda>c. rd_list_companies example_reader c limit", OF this 1]
  show "pages_chain (\<lambda>c. rd_list_companies example_reader c limit) None 2 [\<lparr>ic_id = ''a''\<rparr>, \<lparr>ic_id = ''b''\<rparr>, \<lparr>ic_id = ''c''\<rparr>]"
    by (simp add: example_reader_def numeral_2_eq_2)
qed

theorem full_index_is_complete_witness:
  "\<exists>r. index_contract_state example_reader (full_index 10 0) = Some r \<and> ck_complete (xr_checkpoint r) \<and>
     ck_completed_company_ids (xr_checkpoint r) = [''a'', ''b'', ''c'']"
  using full_index_is_complete [OF example_companies(2) [of 10], of example_source 0] example_source_of by auto

theorem exhausted_budget_reports_complete_witness:
  "\<exists>r. index_contract_state (example_reader\<lparr>rd_list_companies := \<lambda>_ _. one_page [\<lparr>ic_id = ''a''\<rparr>]\<rparr>)
       ((full_index 10 0)\<lparr>io_max_pages := Some 2\<rparr>) = Some r \<and>
     ck_complete (xr_checkpoint r) \<and> dv_payroll_runs (xr_domain r) = []"
proof -
  let ?rd = "example_reader\<lparr>rd_list_companies := \<lambda>_ _. one_page [\<lparr>ic_id = ''a''\<rparr>]\<rparr>"
  have "rd_list_companies ?rd None 10 = \<lparr>pg_items = [\<lparr>ic_id = ''a''\<rparr>], pg_next_cursor = None\<rparr>" by (simp add: one_page_def)
  moreover have "pages_chain (\<lambda>cu. rd_list_employees ?rd (ic_id \<lparr>ic_id = ''a''\<rparr>) cu 10) None 1
      [\<lparr>ie_id = ''e'', ie_company_id = ''a''\<rparr>]"
    by (rule one_page_chain) (simp add: example_reader_def)
  ultimately show ?thesis
    using exhausted_budget_reports_complete [of ?rd 10 "\<lparr>ic_id = ''a''\<rparr>" 1 "[\<lparr>ie_id = ''e'', ie_company_id = ''a''\<rparr>]" 0]
    by auto
qed

theorem resumed_index_skips_companies_witness:
  "\<exists>r1 r2. index_contract_state example_reader ((full_index 10 0)\<lparr>io_max_pages := Some 1\<rparr>) = Some r1 \<and>
     index_contract_state example_reader ((full_index 10 0)\<lparr>io_checkpoint := Some (xr_checkpoint r1)\<rparr>) = Some r2 \<and>
     ck_complete (xr_checkpoint r2) \<and> ck_completed_company_ids (xr_checkpoint r2) = [''a'', ''c'']"
proof -
  have "rd_list_companies example_reader None 10 =
      \<lparr>pg_items = [\<lparr>ic_id = ''a''\<rparr>, \<lparr>ic_id = ''b''\<rparr>], pg_next_cursor = Some ''2''\<rparr>"
    "rd_get_company example_reader = Some (\<lambda>i. Some \<lparr>ic_id = i\<rparr>)"
    by (simp_all add: example_reader_def)
  from resumed_index_skips_companies [OF this(1) example_companies(1) this(2), of example_source 0]
  show ?thesis by (auto simp: example_source_of)
qed

theorem no_recoverable_error_iff_linked_witness:
  "\<not> (\<forall>g \<in> set (consistency_diagnostics (empty_domain\<lparr>dv_employees := [\<lparr>ie_id = ''e'', ie_company_id = ''a''\<rparr>]\<rparr>) 0).
      dg_severity g \<noteq> DiagRecoverable)"
  using no_recoverable_error_iff_linked [of "empty_domain\<lparr>dv_employees := [\<lparr>ie_id = ''e'', ie_company_id = ''a''\<rparr>]\<rparr>" 0]
  by (simp add: colon_free_def empty_domain_def linked_def has_company_def)

end
