(* ===== verification/UnionFind.thy ===== *)
theory UnionFind
  imports Prelude "HOL-Library.Monad_Syntax"
begin

text \<open>
  The disjoint sets of the import duplicate detector (class \<open>UnionFind\<close> of
  \<open>packages/core/src/import/ImportDuplicateClusterDetector.ts\<close>): an array of parents, \<open>find\<close> with path halving
  and \<open>union\<close> that keeps the lower root. \<open>find\<close> loops for ever on a cyclic array, which is the value \<open>None\<close>;
  the arrays the class builds are not cyclic. After a sequence of unions two indices have one root
  exactly when the pairs joined connect them, and the root is the least index of its set.
\<close>

section \<open>The code\<close>

type_synonym union_find = "nat list"

definition uf_new :: "nat \<Rightarrow> union_find" where
  "uf_new n = [0..<n]"

text \<open>The array after the call and the root.\<close>

partial_function (option) uf_find :: "nat \<Rightarrow> union_find \<Rightarrow> (union_find \<times> nat) option" where
  "uf_find i p =
     (if p ! i \<noteq> i then
        let p1 = p[i := p ! (p ! i)]
        in uf_find (p1 ! i) p1
      else Some (p, i))"

definition uf_union :: "nat \<Rightarrow> nat \<Rightarrow> union_find \<Rightarrow> union_find option" where
  "uf_union a b p =
     do { (p1, root_a) \<leftarrow> uf_find a p;
          (p2, root_b) \<leftarrow> uf_find b p1;
          Some (if root_a = root_b then p2
                else if root_a < root_b then p2[root_b := root_a]
                else p2[root_a := root_b]) }"

section \<open>Roots\<close>

text \<open>The invariant: no parent is above its child.\<close>

definition uf_ok :: "union_find \<Rightarrow> bool" where
  "uf_ok p = (\<forall>i < length p. p ! i \<le> i)"

lemma uf_okD: "uf_ok p \<Longrightarrow> i < length p \<Longrightarrow> p ! i \<le> i"
  by (simp add: uf_ok_def)

fun uf_root :: "union_find \<Rightarrow> nat \<Rightarrow> nat" where
  "uf_root p i = (if i < length p \<and> p ! i < i then uf_root p (p ! i) else i)"

declare uf_root.simps [simp del]

lemma uf_root_fix: "p ! i = i \<Longrightarrow> uf_root p i = i"
  by (simp add: uf_root.simps)

lemma uf_root_parent: "uf_ok p \<Longrightarrow> i < length p \<Longrightarrow> uf_root p (p ! i) = uf_root p i"
  by (metis le_neq_implies_less uf_okD uf_root.simps)

lemma uf_root_le: "uf_root p i \<le> i"
proof (induction p i rule: uf_root.induct)
  case (1 p i)
  then show ?case by (subst uf_root.simps) (auto dest: order_trans less_imp_le)
qed

lemma uf_root_lt: "i < length p \<Longrightarrow> uf_root p i < length p"
  using uf_root_le [of p i] by simp

lemma uf_root_is_fix: "uf_ok p \<Longrightarrow> i < length p \<Longrightarrow> p ! (uf_root p i) = uf_root p i"
proof (induction p i rule: uf_root.induct)
  case (1 p i)
  then show ?case
    by (cases "p ! i < i") (auto simp: uf_root.simps [of p i] dest: uf_okD)
qed

lemma uf_root_idem: "uf_ok p \<Longrightarrow> i < length p \<Longrightarrow> uf_root p (uf_root p i) = uf_root p i"
  by (simp add: uf_root_fix uf_root_is_fix)

lemma uf_ok_update: "uf_ok p \<Longrightarrow> v \<le> i \<Longrightarrow> uf_ok (p[i := v])"
  by (cases "i < length p") (auto simp: uf_ok_def nth_list_update)

text \<open>Moving an element under another one of its set keeps every root.\<close>

lemma uf_root_reparent:
  assumes "uf_ok p" "i < length p" "v < i" "uf_root p v = uf_root p i"
  shows "uf_root (p[i := v]) j = uf_root p j"
proof (induction j rule: less_induct)
  case (less j)
  show ?case
  proof (cases "j = i")
    case True
    have "uf_root (p[i := v]) i = uf_root (p[i := v]) v"
      using assms by (subst uf_root.simps) simp
    also have "\<dots> = uf_root p v" using assms True by (intro less.IH) simp
    finally show ?thesis using True assms by simp
  next
    case False
    then show ?thesis
      using less.IH by (subst (1 2) uf_root.simps) simp
  qed
qed

text \<open>Linking a root under a lower root merges the two sets.\<close>

lemma uf_root_link:
  assumes "uf_ok p" "b < length p" "p ! b = b" "p ! a = a" "a < b"
  shows "uf_root (p[b := a]) j = (if uf_root p j = b then a else uf_root p j)"
proof (induction j rule: less_induct)
  case (less j)
  show ?case
  proof (cases "j = b")
    case True
    have "uf_root (p[b := a]) b = uf_root (p[b := a]) a"
      using assms by (subst uf_root.simps) simp
    also have "\<dots> = a" using assms by (intro uf_root_fix) simp
    finally show ?thesis using True assms by (simp add: uf_root_fix)
  next
    case False
    then show ?thesis
      using less.IH by (subst (1 2 3) uf_root.simps) simp
  qed
qed

section \<open>Termination and effect of the operations\<close>

lemma uf_find_root:
  assumes "uf_ok p" "i < length p"
  shows "\<exists>q. uf_find i p = Some (q, uf_root p i) \<and> uf_ok q \<and> length q = length p \<and> uf_root q = uf_root p"
  using assms
proof (induction i arbitrary: p rule: less_induct)
  case (less i)
  show ?case
  proof (cases "p ! i = i")
    case True
    with less.prems show ?thesis by (subst uf_find.simps) (simp add: uf_root_fix)
  next
    case False
    define g where "g = p ! (p ! i)"
    have lt: "p ! i < i" using False less.prems uf_okD [of p i] by simp
    then have g: "g \<le> p ! i" using less.prems by (simp add: g_def uf_okD)
    have root_g: "uf_root p g = uf_root p i"
      using less.prems lt by (simp add: g_def uf_root_parent)
    let ?p = "p[i := g]"
    have ok: "uf_ok ?p" using less.prems g lt by (intro uf_ok_update) simp_all
    have roots: "uf_root ?p = uf_root p"
      using less.prems g lt root_g by (intro ext uf_root_reparent) simp_all
    have "\<exists>q. uf_find g ?p = Some (q, uf_root ?p g) \<and> uf_ok q \<and> length q = length ?p \<and> uf_root q = uf_root ?p"
      using less.prems ok g lt by (intro less.IH) simp_all
    then show ?thesis
      using False less.prems roots root_g by (subst uf_find.simps) (simp add: g_def [symmetric])
  qed
qed

lemma uf_union_roots:
  assumes "uf_ok p" "a < length p" "b < length p"
  shows "\<exists>q. uf_union a b p = Some q \<and> uf_ok q \<and> length q = length p \<and>
    (\<forall>j. uf_root q j = (if uf_root p j \<in> {uf_root p a, uf_root p b} then min (uf_root p a) (uf_root p b)
                        else uf_root p j))"
proof -
  obtain p1 where 1: "uf_find a p = Some (p1, uf_root p a)" "uf_ok p1" "length p1 = length p" "uf_root p1 = uf_root p"
    using uf_find_root assms by blast
  obtain p2 where 2: "uf_find b p1 = Some (p2, uf_root p b)" "uf_ok p2" "length p2 = length p" "uf_root p2 = uf_root p"
    using uf_find_root [of p1 b] assms 1 by auto
  let ?a = "uf_root p a" and ?b = "uf_root p b"
  have lt: "?a < length p2" "?b < length p2" using assms 2 by (simp_all add: uf_root_lt)
  have fix_a: "p2 ! ?a = ?a" and fix_b: "p2 ! ?b = ?b"
    using uf_root_is_fix [of p2 a] uf_root_is_fix [of p2 b] assms 2 by simp_all
  have "uf_ok (p2[max ?a ?b := min ?a ?b])" using 2 by (intro uf_ok_update) simp_all
  then show ?thesis
    using 1 2 lt fix_a fix_b uf_root_link [of p2 "max ?a ?b" "min ?a ?b"]
    by (auto simp: uf_union_def max_def min_def)
qed

section \<open>Sets joined by a sequence of unions\<close>

definition connected :: "(nat \<times> nat) set \<Rightarrow> nat \<Rightarrow> nat \<Rightarrow> bool" where
  "connected E i j = ((i, j) \<in> (E \<union> E\<inverse>)\<^sup>*)"

lemma connected_refl [simp]: "connected E i i"
  by (simp add: connected_def)

lemma connected_sym: "connected E i j \<Longrightarrow> connected E j i"
  unfolding connected_def by (metis converse_Un converse_converse rtrancl_converseI sup_commute)

lemma connected_trans: "connected E i j \<Longrightarrow> connected E j k \<Longrightarrow> connected E i k"
  by (simp add: connected_def)

lemma connected_edge: "(i, j) \<in> E \<Longrightarrow> connected E i j"
  by (auto simp: connected_def)

lemma connected_mono: "(\<And>i j. (i, j) \<in> E \<Longrightarrow> connected F i j) \<Longrightarrow> connected E i j \<Longrightarrow> connected F i j"
proof -
  assume sub: "\<And>i j. (i, j) \<in> E \<Longrightarrow> connected F i j" and "connected E i j"
  from \<open>connected E i j\<close> show ?thesis
    unfolding connected_def [of E]
  proof (induction rule: rtrancl_induct)
    case (step y z)
    then have "connected F y z" by (auto intro: sub connected_sym)
    with step.IH show ?case by (rule connected_trans)
  qed simp
qed

lemma connected_empty [simp]: "connected {} i j \<longleftrightarrow> i = j"
  by (simp add: connected_def)

lemma connected_insert:
  "connected (Set.insert (a, b) E) i j \<longleftrightarrow>
     connected E i j \<or> connected E i a \<and> connected E b j \<or> connected E i b \<and> connected E a j"
proof
  assume "connected (Set.insert (a, b) E) i j"
  then show "connected E i j \<or> connected E i a \<and> connected E b j \<or> connected E i b \<and> connected E a j"
    unfolding connected_def [of "Set.insert (a, b) E"]
  proof (induction rule: rtrancl_induct)
    case (step y z)
    then have "connected E y z \<or> y = a \<and> z = b \<or> y = b \<and> z = a"
      by (auto intro: connected_edge connected_sym)
    with step.IH show ?case by (metis connected_refl connected_trans)
  qed simp
next
  have mono: "connected E i j \<Longrightarrow> connected (Set.insert (a, b) E) i j" for i j
    by (erule connected_mono [rotated]) (simp add: connected_edge)
  have ab: "connected (Set.insert (a, b) E) a b" by (simp add: connected_edge)
  assume "connected E i j \<or> connected E i a \<and> connected E b j \<or> connected E i b \<and> connected E a j"
  then show "connected (Set.insert (a, b) E) i j"
    using ab mono by (meson connected_trans connected_sym)
qed

text \<open>The array represents the sets joined by the pairs \<open>E\<close>.\<close>

definition uf_represents :: "union_find \<Rightarrow> nat \<Rightarrow> (nat \<times> nat) set \<Rightarrow> bool" where
  "uf_represents p n E =
     (uf_ok p \<and> length p = n \<and> E \<subseteq> {..<n} \<times> {..<n} \<and>
      (\<forall>i < n. \<forall>j < n. uf_root p i = uf_root p j \<longleftrightarrow> connected E i j))"

lemma uf_represents_new: "uf_represents (uf_new n) n {}"
proof -
  have "uf_root [0..<n] i = i" for i
    by (cases "i < n") (simp_all add: uf_root.simps)
  then show ?thesis by (simp add: uf_represents_def uf_ok_def uf_new_def)
qed

lemma uf_represents_union:
  assumes "uf_represents p n E" "a < n" "b < n"
  shows "\<exists>q. uf_union a b p = Some q \<and> uf_represents q n (Set.insert (a, b) E)"
proof -
  note p = assms(1) [unfolded uf_represents_def]
  obtain q where q: "uf_union a b p = Some q" "uf_ok q" "length q = length p"
    "\<And>j. uf_root q j = (if uf_root p j \<in> {uf_root p a, uf_root p b} then min (uf_root p a) (uf_root p b)
                        else uf_root p j)"
    using uf_union_roots p assms by blast
  have "uf_root q i = uf_root q j \<longleftrightarrow> connected (Set.insert (a, b) E) i j" if "i < n" "j < n" for i j
  proof -
    have eq: "uf_root p k = uf_root p l \<longleftrightarrow> connected E k l" if "k < n" "l < n" for k l
      using p that by blast
    have "uf_root q i = uf_root q j \<longleftrightarrow>
        uf_root p i = uf_root p j \<or> uf_root p i = uf_root p a \<and> uf_root p b = uf_root p j \<or>
        uf_root p i = uf_root p b \<and> uf_root p a = uf_root p j"
      by (auto simp: q(4) min_def)
    then show ?thesis using that assms by (simp add: eq connected_insert)
  qed
  with q p assms show ?thesis by (auto simp: uf_represents_def)
qed

text \<open>The root of an index is the least index of its set.\<close>

lemma uf_root_least:
  assumes "uf_represents p n E" "i < n" "j < n" "connected E i j"
  shows "uf_root p i \<le> j"
proof -
  have "uf_root p i = uf_root p j" using assms by (simp add: uf_represents_def)
  then show ?thesis by (simp add: uf_root_le)
qed

lemma uf_root_connected:
  assumes "uf_represents p n E" "i < n"
  shows "connected E i (uf_root p i)"
proof -
  have "uf_root p i < n" "uf_root p (uf_root p i) = uf_root p i"
    using assms by (auto simp: uf_represents_def uf_root_lt uf_root_idem)
  with assms show ?thesis by (metis uf_represents_def)
qed

end
