(* ===== verification/FuzzyNames.thy ===== *)
theory FuzzyNames
  imports Prelude
begin

text \<open>
  Name similarity of the import duplicate detector (\<open>packages/core/src/import/fuzzyMatch.ts\<close>): identifiers are
  trimmed, their inner white space collapsed and lower-cased; the edit distance is computed row by row. The
  row computation is compared with the least number of single-character edits that turn one string into the
  other, and the similarity test with that number and containment.
\<close>

section \<open>The code\<close>

text \<open>\<open>s.replace(/\s+/g, " ")\<close>\<close>

fun collapse_spaces :: "string \<Rightarrow> string" where
  "collapse_spaces [] = []"
| "collapse_spaces (c # cs) =
     (if js_space c then
        (case cs of
           d # _ \<Rightarrow> if js_space d then collapse_spaces cs else CHR '' '' # collapse_spaces cs
         | [] \<Rightarrow> [CHR '' ''])
      else c # collapse_spaces cs)"

text \<open>A field that is absent or not a string is \<open>None\<close>.\<close>

definition normalize_identifier :: "string option \<Rightarrow> string option" where
  "normalize_identifier v =
     (case v of
        None \<Rightarrow> None
      | Some s \<Rightarrow>
          let normalized = js_lower (collapse_spaces (js_trim s))
          in if length normalized > 0 then Some normalized else None)"

text \<open>The inner loop: \<open>previous[j]\<close> and the rest of the previous row, \<open>current[j]\<close> on the left.\<close>

fun lev_cells :: "char \<Rightarrow> string \<Rightarrow> nat list \<Rightarrow> nat \<Rightarrow> nat list" where
  "lev_cells x (y # ys) (diagonal # upper # previous) left =
     (let substitution_cost = (if x = y then 0 else 1);
          cell = min (min (upper + 1) (left + 1)) (diagonal + substitution_cost)
      in cell # lev_cells x ys (upper # previous) cell)"
| "lev_cells x _ _ left = []"

text \<open>The outer loop, from row \<open>i\<close>. The arrays \<open>previous\<close> and \<open>current\<close> change places after each row, which is
  overwritten from its first cell to its last.\<close>

fun lev_rows :: "nat \<Rightarrow> string \<Rightarrow> string \<Rightarrow> nat list \<Rightarrow> nat list" where
  "lev_rows i [] b previous = previous"
| "lev_rows i (x # xs) b previous = lev_rows (i + 1) xs b ((i + 1) # lev_cells x b previous (i + 1))"

definition levenshtein_distance :: "string \<Rightarrow> string \<Rightarrow> nat" where
  "levenshtein_distance a b =
     (if a = b then 0
      else if length a = 0 then length b
      else if length b = 0 then length a
      else lev_rows 0 a b [0..<length b + 1] ! length b)"

definition names_are_similar :: "string option \<Rightarrow> string option \<Rightarrow> int \<Rightarrow> bool" where
  "names_are_similar a b threshold =
     (case (normalize_identifier a, normalize_identifier b) of
        (Some na, Some nb) \<Rightarrow>
          if na = nb then True
          else if \<bar>int (length na) - int (length nb)\<bar> > threshold then occurs_in nb na \<or> occurs_in na nb
          else int (levenshtein_distance na nb) \<le> threshold
      | _ \<Rightarrow> False)"

section \<open>Single edits\<close>

text \<open>One character inserted, deleted or replaced.\<close>

inductive one_edit :: "'a list \<Rightarrow> 'a list \<Rightarrow> bool" where
  one_edit_insertion: "one_edit (u @ v) (u @ y # v)"
| one_edit_deletion: "one_edit (u @ y # v) (u @ v)"
| one_edit_replacement: "one_edit (u @ x # v) (u @ y # v)"

text \<open>The number of edits between two lists, by alignment of their first elements.\<close>

fun edit_dist :: "'a list \<Rightarrow> 'a list \<Rightarrow> nat" where
  "edit_dist [] ys = length ys"
| "edit_dist xs [] = length xs"
| "edit_dist (x # xs) (y # ys) =
     min (min (edit_dist xs (y # ys) + 1) (edit_dist (x # xs) ys + 1)) (edit_dist xs ys + (if x = y then 0 else 1))"

inductive aligns :: "nat \<Rightarrow> 'a list \<Rightarrow> 'a list \<Rightarrow> bool" where
  aligns_Nil: "aligns 0 [] []"
| aligns_insert: "aligns n xs ys \<Longrightarrow> aligns (Suc n) xs (y # ys)"
| aligns_delete: "aligns n xs ys \<Longrightarrow> aligns (Suc n) (x # xs) ys"
| aligns_keep: "aligns n xs ys \<Longrightarrow> aligns n (x # xs) (x # ys)"
| aligns_replace: "aligns n xs ys \<Longrightarrow> aligns (Suc n) (x # xs) (y # ys)"

lemma aligns_refl: "aligns 0 xs xs"
  by (induction xs) (auto intro: aligns.intros)

lemma edit_dist_Nil2 [simp]: "edit_dist xs [] = length xs"
  by (cases xs) simp_all

lemma edit_dist_le_insert: "edit_dist xs (y # ys) \<le> edit_dist xs ys + 1"
  by (cases xs) auto

lemma edit_dist_le_delete: "edit_dist (x # xs) ys \<le> edit_dist xs ys + 1"
  by (cases ys) auto

lemma aligns_edit_dist: "aligns n xs ys \<Longrightarrow> edit_dist xs ys \<le> n"
proof (induction rule: aligns.induct)
  case (aligns_insert n xs ys y)
  then show ?case using edit_dist_le_insert [of xs y ys] by simp
next
  case (aligns_delete n xs ys x)
  then show ?case using edit_dist_le_delete [of x xs ys] by simp
qed auto

lemma edit_dist_aligns: "aligns (edit_dist xs ys) xs ys"
proof (induction xs ys rule: edit_dist.induct)
  case (1 ys)
  show ?case by (induction ys) (auto intro: aligns.intros)
next
  case (2 x xs)
  have "aligns (length zs) zs []" for zs :: "'a list"
    by (induction zs) (auto intro: aligns.intros)
  from this [of "x # xs"] show ?case by simp
next
  case (3 x xs y ys)
  then show ?case by (auto simp: min_def intro: aligns.intros)
qed

text \<open>An edit of the second list costs one more at most.\<close>

inductive_cases one_edit_NilE: "one_edit [] zs"

lemma one_edit_Cons:
  assumes "one_edit (y # ys) zs"
  shows "(\<exists>z. zs = z # y # ys) \<or> zs = ys \<or> (\<exists>z. zs = z # ys) \<or> (\<exists>ws. zs = y # ws \<and> one_edit ys ws)"
  using assms
proof (cases rule: one_edit.cases)
  case (one_edit_insertion u v w)
  then show ?thesis by (cases u) (auto intro: one_edit.intros)
next
  case (one_edit_deletion u w v)
  then show ?thesis by (cases u) (auto intro: one_edit.intros)
next
  case (one_edit_replacement u w v z)
  then show ?thesis by (cases u) (auto intro: one_edit.intros)
qed

lemma one_edit_Nil: "one_edit [] zs \<Longrightarrow> \<exists>z. zs = [z]"
  by (erule one_edit_NilE) auto

lemma one_edit_in_context: "one_edit xs ys \<Longrightarrow> one_edit (z # xs) (z # ys)"
  by (induction rule: one_edit.induct) (metis append_Cons one_edit.intros)+

lemma aligns_after_edit: "aligns n xs ys \<Longrightarrow> one_edit ys zs \<Longrightarrow> \<exists>m \<le> Suc n. aligns m xs zs"
proof (induction arbitrary: zs rule: aligns.induct)
  case aligns_Nil
  then show ?case by (auto dest!: one_edit_Nil intro!: exI [of _ "Suc 0"] aligns.intros)
next
  case (aligns_delete n xs ys x)
  then show ?case by (meson Suc_le_mono aligns.aligns_delete)
next
  case (aligns_insert n xs ys y)
  from one_edit_Cons [OF aligns_insert.prems] show ?case
  proof (elim disjE exE conjE)
    fix ws
    assume "zs = y # ws" "one_edit ys ws"
    then show ?thesis using aligns_insert.IH [of ws] by (meson Suc_le_mono aligns.aligns_insert)
  qed (use aligns_insert.hyps in \<open>auto intro: aligns.intros le_SucI\<close>)
next
  case (aligns_keep n xs ys x)
  from one_edit_Cons [OF aligns_keep.prems] show ?case
  proof (elim disjE exE conjE)
    fix ws
    assume "zs = x # ws" "one_edit ys ws"
    then show ?thesis using aligns_keep.IH [of ws] by (meson aligns.aligns_keep)
  qed (use aligns_keep.hyps in \<open>auto intro: aligns.intros\<close>)
next
  case (aligns_replace n xs ys x y)
  from one_edit_Cons [OF aligns_replace.prems] show ?case
  proof (elim disjE exE conjE)
    fix ws
    assume "zs = y # ws" "one_edit ys ws"
    then show ?thesis using aligns_replace.IH [of ws] by (meson Suc_le_mono aligns.aligns_replace)
  qed (use aligns_replace.hyps in \<open>auto intro: aligns.intros le_SucI\<close>)
qed

lemma aligns_reachable: "aligns n xs ys \<Longrightarrow> (one_edit ^^ n) xs ys"
proof (induction rule: aligns.induct)
  case (aligns_insert n xs ys y)
  then show ?case using one_edit_insertion [of "[]" ys y] by (auto intro: relcomppI)
next
  case (aligns_delete n xs ys x)
  then show ?case using one_edit_deletion [of "[]" x xs] by (intro relpowp_Suc_I2) auto
next
  case (aligns_keep n xs ys x)
  from aligns_keep.IH show ?case
    by (induction n arbitrary: ys) (auto intro: one_edit_in_context)
next
  case (aligns_replace n xs ys x y)
  from aligns_replace.IH have "(one_edit ^^ n) (y # xs) (y # ys)"
    by (induction n arbitrary: ys) (auto intro: one_edit_in_context)
  then show ?case using one_edit_replacement [of "[]" x xs y] by (intro relpowp_Suc_I2) auto
qed simp

lemma reachable_edit_dist: "(one_edit ^^ n) xs ys \<Longrightarrow> edit_dist xs ys \<le> n"
proof (induction n arbitrary: ys)
  case 0
  then show ?case using aligns_edit_dist [OF aligns_refl] by simp
next
  case (Suc n)
  then obtain ws where "(one_edit ^^ n) xs ws" "one_edit ws ys" by auto
  with Suc.IH have "edit_dist xs ws \<le> n" by blast
  moreover have "\<exists>m \<le> Suc (edit_dist xs ws). aligns m xs ys"
    using edit_dist_aligns \<open>one_edit ws ys\<close> by (rule aligns_after_edit)
  ultimately show ?case by (meson Suc_le_mono aligns_edit_dist le_trans)
qed

lemma edit_dist_least: "edit_dist xs ys = (LEAST n. (one_edit ^^ n) xs ys)"
  by (metis (mono_tags, lifting) Least_equality aligns_reachable edit_dist_aligns reachable_edit_dist)

lemma one_edit_rev: "one_edit xs ys \<Longrightarrow> one_edit (rev xs) (rev ys)"
proof (induction rule: one_edit.induct)
  case (one_edit_insertion u v y)
  then show ?case using one_edit.one_edit_insertion [of "rev v" "rev u" y] by simp
next
  case (one_edit_deletion u y v)
  then show ?case using one_edit.one_edit_deletion [of "rev v" y "rev u"] by simp
next
  case (one_edit_replacement u x v y)
  then show ?case using one_edit.one_edit_replacement [of "rev v" x "rev u" y] by simp
qed

lemma reachable_rev: "(one_edit ^^ n) xs ys \<Longrightarrow> (one_edit ^^ n) (rev xs) (rev ys)"
  by (induction n arbitrary: ys) (auto dest: one_edit_rev)

lemma edit_dist_rev: "edit_dist (rev xs) (rev ys) = edit_dist xs ys"
  unfolding edit_dist_least by (metis reachable_rev rev_rev_ident)

section \<open>The rows of the table\<close>

text \<open>The row of the reversed prefix \<open>rp\<close>: its distances to the prefixes of \<open>ys\<close>, reversed and before \<open>q\<close>.\<close>

fun table_row :: "string \<Rightarrow> string \<Rightarrow> string \<Rightarrow> nat list" where
  "table_row rp [] q = [edit_dist rp q]"
| "table_row rp (y # ys) q = edit_dist rp q # table_row rp ys (y # q)"

lemma table_row_hd: "table_row rp ys q = edit_dist rp q # tl (table_row rp ys q)"
  by (cases ys) simp_all

lemma table_row_last: "table_row rp ys q ! length ys = edit_dist rp (rev ys @ q)"
  by (induction ys arbitrary: q) simp_all

lemma table_row_start: "table_row [] ys q = [length q..<length q + length ys + 1]"
proof (induction ys arbitrary: q)
  case (Cons y ys)
  have "[length q..<length q + length (y # ys) + 1] = length q # [Suc (length q)..<length q + length (y # ys) + 1]"
    by (intro upt_conv_Cons) simp
  with Cons show ?case by simp
qed simp

lemma lev_cells_row: "lev_cells x ys (table_row rp ys q) (edit_dist (x # rp) q) = tl (table_row (x # rp) ys q)"
proof (induction ys arbitrary: q)
  case (Cons y ys)
  obtain r where r: "table_row rp ys (y # q) = edit_dist rp (y # q) # r" using table_row_hd by blast
  have "lev_cells x (y # ys) (table_row rp (y # ys) q) (edit_dist (x # rp) q) =
      edit_dist (x # rp) (y # q) # lev_cells x ys (table_row rp ys (y # q)) (edit_dist (x # rp) (y # q))"
    by (simp add: r Let_def)
  also have "\<dots> = table_row (x # rp) ys (y # q)"
    unfolding Cons.IH by (rule table_row_hd [symmetric])
  finally show ?case by simp
qed simp

lemma lev_rows_row: "lev_rows (length rp) xs b (table_row rp b []) = table_row (rev xs @ rp) b []"
proof (induction xs arbitrary: rp)
  case (Cons x xs)
  have "(length rp + 1) # lev_cells x b (table_row rp b []) (length rp + 1) = table_row (x # rp) b []"
    using lev_cells_row [of x b rp "[]"] table_row_hd [of "x # rp" b "[]"] by simp
  with Cons.IH [of "x # rp"] show ?case by simp
qed simp

lemma levenshtein_edit_dist: "levenshtein_distance a b = edit_dist a b"
proof (cases "a = b \<or> a = [] \<or> b = []")
  case True
  then show ?thesis using aligns_edit_dist [OF aligns_refl, of a] by (auto simp: levenshtein_distance_def)
next
  case False
  then have "levenshtein_distance a b = lev_rows (length ([] :: string)) a b (table_row [] b []) ! length b"
    by (simp add: levenshtein_distance_def table_row_start)
  also have "\<dots> = edit_dist (rev a) (rev b)"
    unfolding lev_rows_row by (simp add: table_row_last)
  finally show ?thesis by (simp add: edit_dist_rev)
qed

text \<open>Distances, lengths and containment.\<close>

lemma edit_dist_length: "\<bar>int (length xs) - int (length ys)\<bar> \<le> int (edit_dist xs ys)"
  by (induction xs ys rule: edit_dist.induct) auto

lemma edit_dist_prefix: "edit_dist xs (xs @ ys) \<le> length ys"
proof (induction xs)
  case (Cons x xs)
  have "edit_dist (x # xs) ((x # xs) @ ys) \<le> edit_dist xs (xs @ ys)" by simp
  with Cons show ?case by (rule le_trans [rotated])
qed simp

lemma edit_dist_contained: "edit_dist xs (us @ xs @ ys) \<le> length us + length ys"
proof (induction us)
  case (Cons u us)
  then show ?case using edit_dist_le_insert [of xs u "us @ xs @ ys"] by simp
qed (simp add: edit_dist_prefix)

lemma one_edit_sym: "one_edit xs ys \<Longrightarrow> one_edit ys xs"
  by (induction rule: one_edit.induct) (auto intro: one_edit.intros)

lemma reachable_sym: "(one_edit ^^ n) xs ys \<Longrightarrow> (one_edit ^^ n) ys xs"
proof (induction n arbitrary: ys)
  case (Suc n)
  then obtain ws where "(one_edit ^^ n) xs ws" "one_edit ws ys" by auto
  then have "(one_edit ^^ n) ws xs" "one_edit ys ws" by (auto intro: one_edit_sym Suc.IH)
  then show ?case by (rule relpowp_Suc_I2 [rotated])
qed simp

lemma edit_dist_sym: "edit_dist xs ys = edit_dist ys xs"
  unfolding edit_dist_least by (metis reachable_sym)

lemma contained_within_gap:
  "occurs_in xs ys \<Longrightarrow> int (edit_dist xs ys) \<le> \<bar>int (length xs) - int (length ys)\<bar>"
  unfolding occurs_in_iff
proof (elim exE)
  fix us vs
  assume "ys = us @ xs @ vs"
  then show ?thesis using edit_dist_contained [of xs us vs] by simp
qed

lemma occurs_in_refl [simp]: "occurs_in xs xs"
  by (metis append_Nil append_Nil2 occurs_in_iff)

lemma names_similar_sym: "names_are_similar a b t \<Longrightarrow> names_are_similar b a t"
  by (auto simp: names_are_similar_def levenshtein_edit_dist edit_dist_sym split: option.splits if_splits)

section \<open>Theorems\<close>

text \<open>
  The row-by-row computation of \<open>levenshteinDistance\<close> gives the least number of single-character insertions,
  deletions and replacements that turn the first string into the second.
\<close>
theorem levenshtein_is_edit_distance:
  "levenshtein_distance a b = (LEAST n. (one_edit ^^ n) a b)"
  by (simp add: levenshtein_edit_dist edit_dist_least)

lemma within_threshold: "(\<exists>n. int n \<le> t \<and> (one_edit ^^ n) a b) \<longleftrightarrow> int (levenshtein_distance a b) \<le> t"
  by (metis aligns_reachable edit_dist_aligns levenshtein_edit_dist of_nat_mono order_trans reachable_edit_dist)

text \<open>
  Two names are similar exactly when both normalise to something and one normalised name contains the
  other or can be turned into it by at most \<open>threshold\<close> single-character edits: the shortcut by the difference of the
  lengths never changes the answer, whatever the threshold.
\<close>
theorem names_similar_iff:
  "names_are_similar a b t \<longleftrightarrow>
     (\<exists>na nb. normalize_identifier a = Some na \<and> normalize_identifier b = Some nb \<and>
        (occurs_in na nb \<or> occurs_in nb na \<or> (\<exists>n. int n \<le> t \<and> (one_edit ^^ n) na nb)))"
proof -
  have gap: "int (levenshtein_distance na nb) > t" if "\<bar>int (length na) - int (length nb)\<bar> > t" for na nb
    using that edit_dist_length [of na nb] by (simp add: levenshtein_edit_dist)
  have contained: "int (levenshtein_distance na nb) \<le> t"
    if "\<not> \<bar>int (length na) - int (length nb)\<bar> > t" "occurs_in na nb \<or> occurs_in nb na" for na nb
    using that contained_within_gap [of na nb] contained_within_gap [of nb na]
    by (auto simp: levenshtein_edit_dist edit_dist_sym [of nb])
  show ?thesis
    unfolding within_threshold
    using gap contained by (auto simp: names_are_similar_def split: option.splits if_splits) force+
qed

end
