(* ===== verification/DuplicateClusters.thy ===== *)
theory DuplicateClusters
  imports UnionFind FuzzyNames Digits
begin

text \<open>
  Duplicate detection in an imported batch (\<open>packages/core/src/import/ImportDuplicateClusterDetector.ts\<close> and
  \<open>import/previewRedaction.ts\<close>): evidence between pairs of rows is collected in a fixed order, joins the rows in a
  union-find structure, and the sets of at least the minimal size become clusters with redacted previews.
  The clusters are the connected components of the relation of rows that look alike.
\<close>

section \<open>Records and evidence\<close>

text \<open>A salary is a bigint, a number (given as \<open>String(value)\<close> renders it, \<open>None\<close> when it is not finite) or a text.
  An absent field is \<open>None\<close>.\<close>

datatype salary = SalaryBigint int | SalaryNumber "string option" | SalaryText string

record import_record =
  im_row_number :: "int option"
  im_employee_id :: "string option"
  im_wallet_address :: "string option"
  im_email_hash :: "string option"
  im_external_id :: "string option"
  im_name :: "string option"
  im_department :: "string option"
  im_salary :: "salary option"
  im_asset :: "string option"

datatype confidence = ConfidenceExact | ConfidenceHigh | ConfidenceMedium | ConfidenceLow

text \<open>The reason codes, in alphabetical order of their names.\<close>

datatype reason_code =
  Case_insensitive_employee_id | Case_insensitive_external_id | Case_insensitive_wallet_address
| Exact_email_hash | Exact_employee_id | Exact_external_id | Exact_wallet_address
| Same_name_department_salary_asset | Similar_name_only | Similar_name_same_department
| Similar_name_same_salary_asset

fun reason_rank :: "reason_code \<Rightarrow> nat" where
  "reason_rank Case_insensitive_employee_id = 0"
| "reason_rank Case_insensitive_external_id = 1"
| "reason_rank Case_insensitive_wallet_address = 2"
| "reason_rank Exact_email_hash = 3"
| "reason_rank Exact_employee_id = 4"
| "reason_rank Exact_external_id = 5"
| "reason_rank Exact_wallet_address = 6"
| "reason_rank Same_name_department_salary_asset = 7"
| "reason_rank Similar_name_only = 8"
| "reason_rank Similar_name_same_department = 9"
| "reason_rank Similar_name_same_salary_asset = 10"

datatype match_field = EmployeeId | WalletAddress | EmailHash | ExternalId | NameField

datatype match_kind = MatchExact | MatchNormalized | MatchFuzzy

record evidence =
  ev_left :: nat
  ev_right :: nat
  ev_field :: match_field
  ev_kind :: match_kind
  ev_reason :: reason_code
  ev_confidence :: confidence

definition confidence_rank :: "confidence \<Rightarrow> nat" where
  "confidence_rank c =
     (case c of ConfidenceExact \<Rightarrow> 3 | ConfidenceHigh \<Rightarrow> 2 | ConfidenceMedium \<Rightarrow> 1 | ConfidenceLow \<Rightarrow> 0)"

definition field_value :: "match_field \<Rightarrow> import_record \<Rightarrow> string option" where
  "field_value f r =
     (case f of EmployeeId \<Rightarrow> im_employee_id r | WalletAddress \<Rightarrow> im_wallet_address r
      | EmailHash \<Rightarrow> im_email_hash r | ExternalId \<Rightarrow> im_external_id r | NameField \<Rightarrow> im_name r)"

definition safe_string :: "string option \<Rightarrow> string" where
  "safe_string v = (case v of None \<Rightarrow> [] | Some s \<Rightarrow> js_trim s)"

text \<open>\<open>/^\d+(\.\d+)?$/\<close>\<close>

definition decimal_text :: "string \<Rightarrow> bool" where
  "decimal_text s =
     (case js_split CHR ''.'' s of
        [w] \<Rightarrow> w \<noteq> [] \<and> list_all is_digit w
      | [w, f] \<Rightarrow> w \<noteq> [] \<and> list_all is_digit w \<and> f \<noteq> [] \<and> list_all is_digit f
      | _ \<Rightarrow> False)"

definition normalize_amount :: "salary option \<Rightarrow> string option" where
  "normalize_amount v =
     (case v of
        Some (SalaryBigint n) \<Rightarrow> Some (int_string n)
      | Some (SalaryNumber s) \<Rightarrow> s
      | Some (SalaryText s) \<Rightarrow> if decimal_text (js_trim s) then Some (js_trim s) else None
      | None \<Rightarrow> None)"

section \<open>Groups\<close>

definition push_to_group :: "'k \<Rightarrow> nat \<Rightarrow> ('k, nat list) dict \<Rightarrow> ('k, nat list) dict" where
  "push_to_group k i m =
     (case dict_get m k of Some members \<Rightarrow> dict_put k (members @ [i]) m | None \<Rightarrow> dict_put k [i] m)"

abbreviation push_all :: "('k \<times> nat) list \<Rightarrow> ('k, nat list) dict \<Rightarrow> ('k, nat list) dict" where
  "push_all kis m \<equiv> fold (\<lambda>(k, i). push_to_group k i) kis m"

fun list_min :: "nat list \<Rightarrow> nat" where
  "list_min [] = 0"
| "list_min [x] = x"
| "list_min (x # xs) = min x (list_min xs)"

definition sorted_normalized_groups :: "('k, nat list) dict \<Rightarrow> ('k, nat list) dict" where
  "sorted_normalized_groups m = sort_key (\<lambda>e. list_min (snd e)) m"

section \<open>Evidence on identity fields\<close>

text \<open>The calls of the evidence sink, in order.\<close>

fun adjacent :: "'a list \<Rightarrow> ('a \<times> 'a) list" where
  "adjacent (x # y # zs) = (x, y) # adjacent (y # zs)"
| "adjacent _ = []"

fun all_pairs :: "'a list \<Rightarrow> ('a \<times> 'a) list" where
  "all_pairs [] = []"
| "all_pairs (x # xs) = map (Pair x) xs @ all_pairs xs"

definition raw_value :: "import_record list \<Rightarrow> match_field \<Rightarrow> nat \<Rightarrow> string" where
  "raw_value records f i = safe_string (field_value f (records ! i))"

definition raw_groups :: "import_record list \<Rightarrow> match_field \<Rightarrow> (string, nat list) dict" where
  "raw_groups records f =
     push_all [(raw_value records f i, i). i \<leftarrow> [0..<length records], length (raw_value records f i) \<noteq> 0] []"

definition normalized_groups :: "(string, nat list) dict \<Rightarrow> (string, nat list) dict" where
  "normalized_groups raws =
     push_all (concat (map (\<lambda>(raw, indices).
       case normalize_identifier (Some raw) of
         None \<Rightarrow> [] | Some normalized \<Rightarrow> map (Pair normalized) indices) raws)) []"

definition identity_call :: "match_field \<Rightarrow> match_kind \<Rightarrow> reason_code \<Rightarrow> confidence \<Rightarrow> nat \<times> nat \<Rightarrow> evidence" where
  "identity_call f k r c ij =
     \<lparr>ev_left = fst ij, ev_right = snd ij, ev_field = f, ev_kind = k, ev_reason = r, ev_confidence = c\<rparr>"

definition target_evidence ::
  "import_record list \<Rightarrow> bool \<Rightarrow> match_field \<times> reason_code \<times> reason_code option \<Rightarrow> evidence list" where
  "target_evidence records normalized_as_exact target =
     (case target of (f, exact_reason, normalized_reason) \<Rightarrow>
      let raws = raw_groups records f;
          exact = concat (map (\<lambda>indices.
            map (identity_call f MatchExact exact_reason ConfidenceExact) (adjacent indices)) (dict_values raws))
      in exact @
        (case normalized_reason of
           None \<Rightarrow> []
         | Some reason \<Rightarrow>
             concat (map (\<lambda>(normalized, indices).
               map (identity_call f MatchNormalized reason
                      (if normalized_as_exact then ConfidenceExact else ConfidenceHigh))
                 (filter (\<lambda>(i, j). raw_value records f i \<noteq> raw_value records f j) (all_pairs indices)))
               (sorted_normalized_groups (normalized_groups raws)))))"

definition identity_targets :: "(match_field \<times> reason_code \<times> reason_code option) list" where
  "identity_targets =
     [(EmployeeId, Exact_employee_id, Some Case_insensitive_employee_id),
      (WalletAddress, Exact_wallet_address, Some Case_insensitive_wallet_address),
      (EmailHash, Exact_email_hash, None),
      (ExternalId, Exact_external_id, Some Case_insensitive_external_id)]"

definition collect_identity_evidence :: "import_record list \<Rightarrow> bool \<Rightarrow> evidence list" where
  "collect_identity_evidence records normalized_as_exact =
     concat (map (target_evidence records normalized_as_exact) identity_targets)"

section \<open>Evidence on names\<close>

definition same_identifier :: "string option \<Rightarrow> string option \<Rightarrow> bool" where
  "same_identifier a b = (normalize_identifier a \<noteq> None \<and> normalize_identifier a = normalize_identifier b)"

definition name_call :: "import_record list \<Rightarrow> nat \<times> nat \<Rightarrow> evidence" where
  "name_call records ij =
     (let left = records ! fst ij; right = records ! snd ij;
          same_department = same_identifier (im_department left) (im_department right);
          salary_left = normalize_amount (im_salary left);
          salary_right = normalize_amount (im_salary right);
          same_salary_asset =
            (salary_left \<noteq> None \<and> salary_right \<noteq> None \<and> salary_left = salary_right \<and>
             same_identifier (im_asset left) (im_asset right))
      in if same_department \<and> same_salary_asset
         then identity_call NameField MatchFuzzy Same_name_department_salary_asset ConfidenceHigh ij
         else if same_department
         then identity_call NameField MatchFuzzy Similar_name_same_department ConfidenceMedium ij
         else if same_salary_asset
         then identity_call NameField MatchFuzzy Similar_name_same_salary_asset ConfidenceMedium ij
         else identity_call NameField MatchFuzzy Similar_name_only ConfidenceLow ij)"

definition collect_fuzzy_name_evidence :: "import_record list \<Rightarrow> int \<Rightarrow> evidence list" where
  "collect_fuzzy_name_evidence records threshold =
     map (name_call records)
       (filter (\<lambda>(a, b). names_are_similar (im_name (records ! a)) (im_name (records ! b)) threshold)
         (all_pairs [0..<length records]))"

section \<open>The evidence sink\<close>

text \<open>The pair of indices is the key \<open>${leftIndex}:${rightIndex}\<close>.\<close>

record cluster_state =
  cs_sets :: union_find
  cs_evidence :: "(nat \<times> nat, evidence) dict"

definition evidence_sink :: "evidence \<Rightarrow> cluster_state \<Rightarrow> cluster_state option" where
  "evidence_sink e s =
     do { sets \<leftarrow> uf_union (ev_left e) (ev_right e) (cs_sets s);
          let key = (ev_left e, ev_right e) in
          Some (s\<lparr>cs_sets := sets,
                  cs_evidence := (if dict_get (cs_evidence s) key = None then dict_put key e (cs_evidence s)
                                  else cs_evidence s)\<rparr>) }"

fun run_sink :: "evidence list \<Rightarrow> cluster_state \<Rightarrow> cluster_state option" where
  "run_sink [] s = Some s"
| "run_sink (e # es) s = do { t \<leftarrow> evidence_sink e s; run_sink es t }"

section \<open>Redacted previews\<close>

text \<open>The ellipsis after the prefix of an email hash is the flag \<open>pv_email_cut\<close>. The names of the redacted fields
  are listed in alphabetical order.\<close>

datatype redacted_field = RedactedEmailHash | RedactedEmployeeId | RedactedExternalId | RedactedName
  | RedactedSalary | RedactedWalletAddress

fun redacted_rank :: "redacted_field \<Rightarrow> nat" where
  "redacted_rank RedactedEmailHash = 0"
| "redacted_rank RedactedEmployeeId = 1"
| "redacted_rank RedactedExternalId = 2"
| "redacted_rank RedactedName = 3"
| "redacted_rank RedactedSalary = 4"
| "redacted_rank RedactedWalletAddress = 5"

record preview =
  pv_index :: nat
  pv_row_number :: "int option"
  pv_employee_id :: string
  pv_wallet_address :: string
  pv_email_hash :: string
  pv_email_cut :: bool
  pv_external_id :: string
  pv_name :: string
  pv_department :: string
  pv_asset :: string
  pv_fields_redacted :: "redacted_field list"

definition slice_tail :: "nat \<Rightarrow> string \<Rightarrow> string" where
  "slice_tail n s = (if n = 0 then s else drop (length s - n) s)"

definition mask_head_tail :: "string \<Rightarrow> nat \<Rightarrow> nat \<Rightarrow> string" where
  "mask_head_tail v head tail =
     (if length v \<le> head + tail then replicate (length v) CHR ''*''
      else take head v @ replicate (max (length v - head - tail) 3) CHR ''*'' @ slice_tail tail v)"

definition mask_except_first :: "string \<Rightarrow> string" where
  "mask_except_first v =
     (case v of
        c # d # cs \<Rightarrow> c # replicate (length v - 1) CHR ''*''
      | _ \<Rightarrow> replicate (length v) CHR ''*'')"

definition keep_tail :: "string \<Rightarrow> nat \<Rightarrow> string" where
  "keep_tail v tail = ''***'' @ pad_start tail CHR ''*'' (slice_tail tail v)"

definition has_value :: "salary option \<Rightarrow> bool" where
  "has_value v = (case v of None \<Rightarrow> False | Some (SalaryText s) \<Rightarrow> length s > 0 | Some _ \<Rightarrow> True)"

definition when_field :: "bool \<Rightarrow> redacted_field \<Rightarrow> redacted_field list" where
  "when_field b f = (if b then [f] else [])"

definition build_redacted_preview :: "import_record \<Rightarrow> nat \<Rightarrow> string \<Rightarrow> preview" where
  "build_redacted_preview r index placeholder =
     (let employee_id = safe_string (im_employee_id r);
          wallet = safe_string (im_wallet_address r);
          email_hash = safe_string (im_email_hash r);
          external_id = safe_string (im_external_id r);
          name = safe_string (im_name r);
          masked_id = (\<lambda>s. if length s > 0 then (if length s \<le> 6 then mask_head_tail s 2 2 else keep_tail s 4) else [])
      in \<lparr>pv_index = index, pv_row_number = im_row_number r,
          pv_employee_id = masked_id employee_id,
          pv_wallet_address = (if length wallet > 0 then
             (if length wallet \<ge> 12 then mask_head_tail wallet 6 4 else mask_head_tail wallet 2 2) else []),
          pv_email_hash = (if length email_hash > 0 then
             (if length email_hash > 8 then take 8 email_hash else placeholder) else []),
          pv_email_cut = (length email_hash > 8),
          pv_external_id = masked_id external_id,
          pv_name = (if length name > 0 then mask_except_first name else []),
          pv_department = safe_string (im_department r), pv_asset = safe_string (im_asset r),
          pv_fields_redacted = sort_key redacted_rank
            (when_field (length employee_id > 0) RedactedEmployeeId @
             when_field (length wallet > 0) RedactedWalletAddress @
             when_field (length email_hash > 0) RedactedEmailHash @
             when_field (length external_id > 0) RedactedExternalId @
             when_field (length name > 0) RedactedName @
             when_field (has_value (im_salary r)) RedactedSalary)\<rparr>)"

section \<open>Clusters\<close>

record cluster =
  cl_id :: string
  cl_members :: "nat list"
  cl_confidence :: confidence
  cl_reasons :: "reason_code list"
  cl_evidence :: "evidence list"
  cl_previews :: "preview list"

fun group_roots :: "nat list \<Rightarrow> union_find \<Rightarrow> (nat, nat list) dict \<Rightarrow> (nat, nat list) dict option" where
  "group_roots [] p groups = Some groups"
| "group_roots (i # js) p groups = do { (q, root) \<leftarrow> uf_find i p; group_roots js q (push_to_group root i groups) }"

definition stronger :: "evidence \<Rightarrow> confidence \<Rightarrow> confidence" where
  "stronger e c = (if confidence_rank (ev_confidence e) > confidence_rank c then ev_confidence e else c)"

text \<open>No two pieces of evidence are about the same pair, so \<open>compareEvidence\<close> is decided by the indices.\<close>

definition sort_evidence :: "evidence list \<Rightarrow> evidence list" where
  "sort_evidence es = sort_key ev_left (sort_key ev_right es)"

definition build_cluster ::
  "import_record list \<Rightarrow> (nat \<times> nat, evidence) dict \<Rightarrow> string \<Rightarrow> nat \<times> nat list \<Rightarrow> cluster" where
  "build_cluster records evidence_by_pair placeholder om =
     (let members = snd om;
          found = filter (\<lambda>e. ev_left e \<in> set members \<and> ev_right e \<in> set members) (dict_values evidence_by_pair);
          sorted_evidence = sort_evidence found;
          member_indices = sort members
      in \<lparr>cl_id = ''dup-'' @ pad_start 3 CHR ''0'' (dec_string (fst om + 1)),
          cl_members = member_indices,
          cl_confidence = fold stronger found ConfidenceLow,
          cl_reasons = sort_key reason_rank (remdups (map ev_reason sorted_evidence)),
          cl_evidence = sorted_evidence,
          cl_previews = map (\<lambda>i. build_redacted_preview (records ! i) i placeholder) member_indices\<rparr>)"

definition build_clusters ::
  "import_record list \<Rightarrow> union_find \<Rightarrow> (nat \<times> nat, evidence) dict \<Rightarrow> int \<Rightarrow> string \<Rightarrow> cluster list option" where
  "build_clusters records sets evidence_by_pair min_cluster_size placeholder =
     do { groups \<leftarrow> group_roots [0..<length records] sets [];
          let pending = sort_key list_min (filter (\<lambda>ms. int (length ms) \<ge> min_cluster_size) (dict_values groups)) in
          Some (map (build_cluster records evidence_by_pair placeholder) (enumerate 0 pending)) }"

record cluster_options =
  co_fuzzy_name_threshold :: "int option"
  co_treat_normalized_as_exact :: "bool option"
  co_min_cluster_size :: "int option"
  co_redaction_placeholder :: "string option"

record analysis =
  an_clusters :: "cluster list"
  an_total_records :: nat
  an_duplicate_row_count :: nat
  an_has_duplicates :: bool

definition option_or :: "'a \<Rightarrow> 'a option \<Rightarrow> 'a" where
  "option_or d v = (case v of None \<Rightarrow> d | Some x \<Rightarrow> x)"

lemma option_or_simps [simp]: "option_or d None = d" "option_or d (Some x) = x"
  by (simp_all add: option_or_def)

definition detect_duplicate_clusters :: "import_record list \<Rightarrow> cluster_options \<Rightarrow> analysis option" where
  "detect_duplicate_clusters records opts =
     (let threshold = option_or 2 (co_fuzzy_name_threshold opts);
          normalized_as_exact = option_or False (co_treat_normalized_as_exact opts);
          min_cluster_size = max (option_or 2 (co_min_cluster_size opts)) 2;
          placeholder = option_or ''[redacted]'' (co_redaction_placeholder opts);
          start = \<lparr>cs_sets = uf_new (length records), cs_evidence = []\<rparr>
      in do { s1 \<leftarrow> run_sink (collect_identity_evidence records normalized_as_exact) start;
              s2 \<leftarrow> run_sink (collect_fuzzy_name_evidence records threshold) s1;
              clusters \<leftarrow> build_clusters records (cs_sets s2) (cs_evidence s2) min_cluster_size placeholder;
              Some \<lparr>an_clusters = clusters, an_total_records = length records,
                    an_duplicate_row_count = card (set (concat (map cl_members clusters))),
                    an_has_duplicates = (length clusters > 0)\<rparr> })"

end
