(* ===== verification/ClusterProperties.thy ===== *)
theory ClusterProperties
  imports DuplicateClusters
begin

text \<open>
  The clusters of the import duplicate detector are the connected components, of at least the minimal size, of
  the relation of rows that look alike. The lemmas follow the code: what a group holds, which pairs the evidence
  is about, what the sink leaves in the disjoint sets, and how the groups of the roots are ordered.
\<close>

section \<open>Groups\<close>

lemma push_to_group_get:
  "dict_get (push_to_group k i m) k' =
     (if k' = k then Some (option_or [] (dict_get m k) @ [i]) else dict_get m k')"
  by (auto simp: push_to_group_def option_or_def update_conv' split: option.splits)

lemma push_to_group_ok: "dict_ok m \<Longrightarrow> dict_ok (push_to_group k i m)"
  by (auto simp: push_to_group_def split: option.splits)

lemma push_all_ok: "dict_ok m \<Longrightarrow> dict_ok (push_all kis m)"
  by (induction kis arbitrary: m) (auto simp: push_to_group_ok)

lemma push_all_get:
  "dict_get (push_all kis m) k =
     (let new = map snd (filter (\<lambda>ki. fst ki = k) kis)
      in if new = [] then dict_get m k else Some (option_or [] (dict_get m k) @ new))"
proof (induction kis arbitrary: m)
  case (Cons ki kis)
  obtain k' i where "ki = (k', i)" by force
  then show ?case
    by (auto simp: Cons.IH push_to_group_get option_or_def Let_def)
qed simp

lemma push_all_entry:
  "(k, is) \<in> set (push_all kis []) \<longleftrightarrow> is \<noteq> [] \<and> is = map snd (filter (\<lambda>ki. fst ki = k) kis)"
proof -
  have "(k, is) \<in> set (push_all kis []) \<longleftrightarrow> dict_get (push_all kis []) k = Some is"
    using push_all_ok [of "[]" kis] by (simp add: dict_ok_def)
  then show ?thesis by (auto simp: push_all_get Let_def option_or_def)
qed

lemma push_all_member: "(k, is) \<in> set (push_all kis []) \<Longrightarrow> i \<in> set is \<longleftrightarrow> (k, i) \<in> set kis"
  unfolding push_all_entry by force

lemma push_all_has: "(k, i) \<in> set kis \<Longrightarrow> \<exists>is. (k, is) \<in> set (push_all kis []) \<and> i \<in> set is"
  unfolding push_all_entry
  by (intro exI [of _ "map snd (filter (\<lambda>ki. fst ki = k) kis)"]) (auto simp: filter_empty_conv image_iff intro: bexI [of _ "(k, i)"])

lemma push_all_group:
  "(\<exists>k is. (k, is) \<in> set (push_all kis []) \<and> i \<in> set is \<and> j \<in> set is) \<longleftrightarrow>
     (\<exists>k. (k, i) \<in> set kis \<and> (k, j) \<in> set kis)"
  by (metis push_all_has push_all_member)

lemma adjacent_in: "(i, j) \<in> set (adjacent xs) \<Longrightarrow> i \<in> set xs \<and> j \<in> set xs"
  by (induction xs rule: adjacent.induct) auto

lemma adjacent_connects:
  assumes "set (adjacent xs) \<subseteq> E" "i \<in> set xs" "j \<in> set xs"
  shows "connected E i j"
proof -
  have "connected E (hd xs) i" if "set (adjacent xs) \<subseteq> E" "i \<in> set xs" for i
    using that
  proof (induction xs arbitrary: i rule: adjacent.induct)
    case (1 x y zs)
    then have "connected E x y" by (auto intro: connected_edge)
    moreover have "connected E y i" if "i \<noteq> x" using 1 that by auto
    ultimately show ?case by (cases "i = x") (auto intro: connected_trans)
  qed auto
  with assms show ?thesis by (meson connected_sym connected_trans)
qed

lemma all_pairs_in: "(i, j) \<in> set (all_pairs xs) \<Longrightarrow> i \<in> set xs \<and> j \<in> set xs"
  by (induction xs) auto

lemma all_pairs_either: "i \<in> set xs \<Longrightarrow> j \<in> set xs \<Longrightarrow> i \<noteq> j \<Longrightarrow> (i, j) \<in> set (all_pairs xs) \<or> (j, i) \<in> set (all_pairs xs)"
  by (induction xs) auto

section \<open>Rows that look alike\<close>

definition look_alike :: "int \<Rightarrow> import_record \<Rightarrow> import_record \<Rightarrow> bool" where
  "look_alike threshold a b =
     ((\<exists>f \<in> {EmployeeId, WalletAddress, ExternalId}. same_identifier (field_value f a) (field_value f b)) \<or>
      (safe_string (im_email_hash a) \<noteq> [] \<and> safe_string (im_email_hash a) = safe_string (im_email_hash b)) \<or>
      names_are_similar (im_name a) (im_name b) threshold)"

definition alike_rows :: "int \<Rightarrow> import_record list \<Rightarrow> (nat \<times> nat) set" where
  "alike_rows threshold records =
     {(i, j). i < length records \<and> j < length records \<and> look_alike threshold (records ! i) (records ! j)}"

lemma collapse_spaces_Nil [simp]: "collapse_spaces s = [] \<longleftrightarrow> s = []"
  by (induction s rule: collapse_spaces.induct) (auto split: list.splits)

lemma js_lower_Nil [simp]: "js_lower s = [] \<longleftrightarrow> s = []"
  by (simp add: js_lower_def)

lemma normalize_safe: "normalize_identifier (Some (safe_string v)) = normalize_identifier v"
  by (cases v) (simp_all add: normalize_identifier_def safe_string_def js_trim_no_space)

lemma normalize_None_iff: "normalize_identifier v = None \<longleftrightarrow> safe_string v = []"
  by (cases v) (simp_all add: normalize_identifier_def safe_string_def Let_def)

lemma raw_groups_member:
  "(k, is) \<in> set (raw_groups records f) \<Longrightarrow>
     i \<in> set is \<longleftrightarrow> i < length records \<and> raw_value records f i = k \<and> k \<noteq> []"
  unfolding raw_groups_def by (drule push_all_member [where i = i]) auto

lemma raw_groups_exists:
  assumes "i < length records" "raw_value records f i \<noteq> []"
  shows "\<exists>is. (raw_value records f i, is) \<in> set (raw_groups records f) \<and> i \<in> set is"
  unfolding raw_groups_def using assms by (intro push_all_has) auto

lemma raw_groups_same:
  assumes "i < length records" "j < length records" "raw_value records f i \<noteq> []"
    "raw_value records f j = raw_value records f i"
  shows "\<exists>k is. (k, is) \<in> set (raw_groups records f) \<and> i \<in> set is \<and> j \<in> set is"
proof -
  obtain ms where "(raw_value records f i, ms) \<in> set (raw_groups records f)" "i \<in> set ms"
    using raw_groups_exists assms by blast
  with assms show ?thesis using raw_groups_member by blast
qed

lemma normalized_groups_entry:
  "(\<exists>k is. (k, is) \<in> set (normalized_groups (raw_groups records f)) \<and> i \<in> set is \<and> j \<in> set is) \<longleftrightarrow>
     i < length records \<and> j < length records \<and>
     same_identifier (field_value f (records ! i)) (field_value f (records ! j))"
proof -
  have raw: "normalize_identifier (Some (raw_value records f i)) = normalize_identifier (field_value f (records ! i))" for i
    by (simp add: raw_value_def normalize_safe)
  have mem: "(k, i) \<in> set (concat (map (\<lambda>(raw, indices). case normalize_identifier (Some raw) of
         None \<Rightarrow> [] | Some normalized \<Rightarrow> map (Pair normalized) indices) (raw_groups records f))) \<longleftrightarrow>
      i < length records \<and> normalize_identifier (field_value f (records ! i)) = Some k" for k i
  proof -
    have ne: "raw_value records f i \<noteq> []" if "normalize_identifier (field_value f (records ! i)) = Some k"
      using that normalize_None_iff [of "field_value f (records ! i)"] by (auto simp: raw_value_def)
    have "(k, i) \<in> set (concat (map (\<lambda>(raw, indices). case normalize_identifier (Some raw) of
         None \<Rightarrow> [] | Some normalized \<Rightarrow> map (Pair normalized) indices) (raw_groups records f))) \<longleftrightarrow>
       (\<exists>raw is. (raw, is) \<in> set (raw_groups records f) \<and> normalize_identifier (Some raw) = Some k \<and> i \<in> set is)"
      by (force split: option.splits)
    also have "\<dots> \<longleftrightarrow> i < length records \<and> normalize_identifier (field_value f (records ! i)) = Some k"
      by (metis ne raw raw_groups_exists raw_groups_member)
    finally show ?thesis .
  qed
  show ?thesis
    unfolding normalized_groups_def push_all_group mem same_identifier_def by auto
qed

section \<open>The pairs of the evidence\<close>

abbreviation pair_of :: "evidence \<Rightarrow> nat \<times> nat" where
  "pair_of e \<equiv> (ev_left e, ev_right e)"

lemma pair_of_call [simp]: "ev_left (identity_call f k r c ij) = fst ij" "ev_right (identity_call f k r c ij) = snd ij"
  by (simp_all add: identity_call_def)

lemma pair_of_name_call [simp]: "ev_left (name_call records ij) = fst ij" "ev_right (name_call records ij) = snd ij"
  by (simp_all add: name_call_def Let_def)

lemma identity_pairs:
  "pair_of ` set (collect_identity_evidence records b) =
     (\<Union>f \<in> {EmployeeId, WalletAddress, EmailHash, ExternalId}.
        \<Union>is \<in> snd ` set (raw_groups records f). set (adjacent is)) \<union>
     (\<Union>f \<in> {EmployeeId, WalletAddress, ExternalId}.
        \<Union>is \<in> snd ` set (normalized_groups (raw_groups records f)).
          {(i, j) \<in> set (all_pairs is). raw_value records f i \<noteq> raw_value records f j})"
proof -
  have "pair_of ` set (target_evidence records b (f, r, None)) =
      (\<Union>is \<in> snd ` set (raw_groups records f). set (adjacent is))" for f r
    by (simp add: target_evidence_def dict_values_def Let_def image_UN image_image)
  moreover have "pair_of ` set (target_evidence records b (f, r, Some r')) =
      (\<Union>is \<in> snd ` set (raw_groups records f). set (adjacent is)) \<union>
      (\<Union>is \<in> snd ` set (normalized_groups (raw_groups records f)).
          {(i, j) \<in> set (all_pairs is). raw_value records f i \<noteq> raw_value records f j})" for f r r'
    by (simp add: target_evidence_def sorted_normalized_groups_def dict_values_def Let_def image_Un image_UN
          image_image split_def)
  ultimately show ?thesis
    unfolding collect_identity_evidence_def identity_targets_def
    by (simp add: image_Un Un_ac)
qed

abbreviation all_calls :: "import_record list \<Rightarrow> bool \<Rightarrow> int \<Rightarrow> evidence list" where
  "all_calls records b t \<equiv> collect_identity_evidence records b @ collect_fuzzy_name_evidence records t"

lemma fuzzy_pairs:
  "pair_of ` set (collect_fuzzy_name_evidence records t) =
     {(i, j) \<in> set (all_pairs [0..<length records]). names_are_similar (im_name (records ! i)) (im_name (records ! j)) t}"
  by (auto simp: collect_fuzzy_name_evidence_def image_image)

lemma adjacent_raw_alike:
  assumes "(k, ms) \<in> set (raw_groups records f)" "(i, j) \<in> set (adjacent ms)"
    "f \<in> {EmployeeId, WalletAddress, EmailHash, ExternalId}"
  shows "(i, j) \<in> alike_rows t records"
proof -
  have "i < length records" "j < length records" "raw_value records f i = k" "raw_value records f j = k" "k \<noteq> []"
    using adjacent_in [OF assms(2)] raw_groups_member [OF assms(1)] by auto
  moreover from this have "same_identifier (field_value f (records ! i)) (field_value f (records ! j))"
    unfolding same_identifier_def normalize_None_iff
    by (metis normalize_safe raw_value_def)
  ultimately show ?thesis
    using assms(3) by (auto simp: alike_rows_def look_alike_def raw_value_def field_value_def)
qed

lemma normalized_alike:
  assumes "(k, ms) \<in> set (normalized_groups (raw_groups records f))" "(i, j) \<in> set (all_pairs ms)"
    "f \<in> {EmployeeId, WalletAddress, ExternalId}"
  shows "(i, j) \<in> alike_rows t records"
proof -
  have "i < length records" "j < length records" "same_identifier (field_value f (records ! i)) (field_value f (records ! j))"
    using all_pairs_in [OF assms(2)] assms(1) normalized_groups_entry [of records f i j] by blast+
  with assms(3) show ?thesis by (auto simp: alike_rows_def look_alike_def)
qed

lemma calls_alike: "pair_of ` set (all_calls records b t) \<subseteq> alike_rows t records"
proof -
  have "(i, j) \<in> alike_rows t records"
    if "(i, j) \<in> set (all_pairs [0..<length records])" "names_are_similar (im_name (records ! i)) (im_name (records ! j)) t"
    for i j
    using that all_pairs_in [of i j "[0..<length records]"] by (auto simp: alike_rows_def look_alike_def)
  then show ?thesis
    unfolding set_append image_Un identity_pairs fuzzy_pairs
    using adjacent_raw_alike normalized_alike by fastforce
qed

lemma raw_connected:
  assumes "i < length records" "j < length records" "raw_value records f i \<noteq> []" "raw_value records f j = raw_value records f i"
    "f \<in> {EmployeeId, WalletAddress, EmailHash, ExternalId}"
  shows "connected (pair_of ` set (all_calls records b t)) i j"
proof -
  obtain k ms where "(k, ms) \<in> set (raw_groups records f)" "i \<in> set ms" "j \<in> set ms"
    using raw_groups_same assms by blast
  moreover have "set (adjacent ms) \<subseteq> pair_of ` set (all_calls records b t)" if "(k, ms) \<in> set (raw_groups records f)"
    unfolding set_append image_Un identity_pairs using that assms(5) by force
  ultimately show ?thesis by (intro adjacent_connects)
qed

lemma alike_connected:
  assumes "(i, j) \<in> alike_rows t records"
  shows "connected (pair_of ` set (all_calls records b t)) i j"
proof -
  let ?P = "pair_of ` set (all_calls records b t)"
  have ij: "i < length records" "j < length records" using assms by (auto simp: alike_rows_def)
  have identity: "connected ?P i j"
    if f: "f \<in> {EmployeeId, WalletAddress, ExternalId}" and
      same: "same_identifier (field_value f (records ! i)) (field_value f (records ! j))" for f
  proof (cases "raw_value records f i = raw_value records f j")
    case True
    have "raw_value records f i \<noteq> []"
      using same by (simp add: same_identifier_def normalize_None_iff raw_value_def)
    then show ?thesis using f ij True by (intro raw_connected [of i records j f]) auto
  next
    case False
    obtain k ms where ms: "(k, ms) \<in> set (normalized_groups (raw_groups records f))" "i \<in> set ms" "j \<in> set ms"
      using normalized_groups_entry same ij by blast
    have "(i, j) \<in> set (all_pairs ms) \<or> (j, i) \<in> set (all_pairs ms)"
      using ms False by (intro all_pairs_either) auto
    moreover have "{(x, y) \<in> set (all_pairs ms). raw_value records f x \<noteq> raw_value records f y} \<subseteq> ?P"
      unfolding set_append image_Un identity_pairs
      by (rule subset_trans [OF _ Un_upper1], rule subset_trans [OF _ Un_upper2])
        (use ms(1) f in \<open>auto intro!: bexI [of _ f] bexI [of _ "(k, ms)"]\<close>)
    ultimately have "(i, j) \<in> ?P \<or> (j, i) \<in> ?P" using False by auto
    then show ?thesis by (auto intro: connected_edge connected_sym)
  qed
  have names: "connected ?P i j" if "names_are_similar (im_name (records ! i)) (im_name (records ! j)) t"
  proof (cases "i = j")
    case False
    then have "(i, j) \<in> set (all_pairs [0..<length records]) \<or> (j, i) \<in> set (all_pairs [0..<length records])"
      using ij by (intro all_pairs_either) auto
    then have "(i, j) \<in> ?P \<or> (j, i) \<in> ?P"
      unfolding set_append image_Un fuzzy_pairs using that names_similar_sym [OF that] by blast
    then show ?thesis by (auto intro: connected_edge connected_sym)
  qed simp
  have email: "connected ?P i j"
    if "safe_string (im_email_hash (records ! i)) \<noteq> []"
      "safe_string (im_email_hash (records ! i)) = safe_string (im_email_hash (records ! j))"
    using that ij by (intro raw_connected [of i records j EmailHash]) (auto simp: raw_value_def field_value_def)
  show ?thesis
    using assms identity names email unfolding alike_rows_def look_alike_def by blast
qed

lemma calls_connect: "connected (pair_of ` set (all_calls records b t)) i j \<longleftrightarrow> connected (alike_rows t records) i j"
proof
  assume "connected (pair_of ` set (all_calls records b t)) i j"
  then show "connected (alike_rows t records) i j"
    by (rule connected_mono [rotated]) (use calls_alike [of records b t] in \<open>auto intro: connected_edge\<close>)
next
  assume "connected (alike_rows t records) i j"
  then show "connected (pair_of ` set (all_calls records b t)) i j"
    by (rule connected_mono [rotated]) (rule alike_connected)
qed

section \<open>What the sink leaves\<close>

lemma run_sink_append: "run_sink (es @ fs) s = do { t \<leftarrow> run_sink es s; run_sink fs t }"
proof (induction es arbitrary: s)
  case (Cons e es)
  then show ?case by (cases "evidence_sink e s") simp_all
qed simp

lemma run_sink_represents:
  assumes "uf_represents (cs_sets s) n E" "pair_of ` set es \<subseteq> {..<n} \<times> {..<n}"
  shows "\<exists>t. run_sink es s = Some t \<and> uf_represents (cs_sets t) n (E \<union> pair_of ` set es)"
  using assms
proof (induction es arbitrary: s E)
  case (Cons e es)
  then obtain q where q: "uf_union (ev_left e) (ev_right e) (cs_sets s) = Some q"
    "uf_represents q n (Set.insert (pair_of e) E)"
    using uf_represents_union [of "cs_sets s" n E "ev_left e" "ev_right e"] by auto
  then show ?case
    using Cons.IH [of "s\<lparr>cs_sets := q, cs_evidence := ev\<rparr>" "Set.insert (pair_of e) E" for ev] Cons.prems
    by (auto simp: evidence_sink_def Let_def)
qed simp

section \<open>The groups of the roots\<close>

text \<open>The components of the first \<open>k\<close> rows in the order of their least members.\<close>

definition groups_below :: "(nat \<Rightarrow> nat) \<Rightarrow> nat \<Rightarrow> (nat, nat list) dict" where
  "groups_below root k =
     map (\<lambda>r. (r, filter (\<lambda>i. root i = r) [0..<k])) (filter (\<lambda>r. root r = r) [0..<k])"

lemma update_map_append:
  "k \<notin> set ks \<Longrightarrow> dict_put k v (map (\<lambda>r. (r, f r)) ks) = map (\<lambda>r. (r, f r)) ks @ [(k, v)]"
  by (induction ks) auto

lemma update_map_replace:
  "k \<in> set ks \<Longrightarrow> distinct ks \<Longrightarrow> dict_put k v (map (\<lambda>r. (r, f r)) ks) = map (\<lambda>r. (r, if r = k then v else f r)) ks"
  by (induction ks) auto

lemma map_of_map_pair: "map_of (map (\<lambda>r. (r, f r)) ks) k = (if k \<in> set ks then Some (f k) else None)"
  by (induction ks) auto

lemma push_groups_below:
  assumes below: "\<And>i. root i \<le> i" and idem: "root (root k) = root k"
  shows "push_to_group (root k) k (groups_below root k) = groups_below root (Suc k)"
proof (cases "root k = k")
  case True
  have none: "filter (\<lambda>i. root i = k) [0..<k] = []"
    using below by (auto simp: filter_empty_conv) (metis leD)
  have "groups_below root (Suc k) = groups_below root k @ [(k, [k])]"
    using True none by (auto simp: groups_below_def)
  moreover have "dict_get (groups_below root k) k = None" by (simp add: groups_below_def map_of_map_pair)
  ultimately show ?thesis
    using True by (simp add: push_to_group_def groups_below_def update_map_append)
next
  case False
  then have lt: "root k < k" using below [of k] by simp
  let ?ks = "filter (\<lambda>r. root r = r) [0..<k]"
  have "dict_get (groups_below root k) (root k) = Some (filter (\<lambda>i. root i = root k) [0..<k])"
    using lt idem by (simp add: groups_below_def map_of_map_pair)
  then have "push_to_group (root k) k (groups_below root k) =
      dict_put (root k) (filter (\<lambda>i. root i = root k) [0..<k] @ [k]) (map (\<lambda>r. (r, filter (\<lambda>i. root i = r) [0..<k])) ?ks)"
    by (simp add: push_to_group_def groups_below_def)
  also have "\<dots> = groups_below root (Suc k)"
    using lt idem False by (subst update_map_replace) (auto simp: groups_below_def)
  finally show ?thesis .
qed

lemma group_roots_below:
  assumes "uf_represents p n E" "k \<le> n"
  shows "group_roots [k..<n] p (groups_below (uf_root p) k) = Some (groups_below (uf_root p) n)"
  using assms
proof (induction "n - k" arbitrary: k p)
  case (Suc d)
  then have k: "k < n" by simp
  note ok = Suc.prems(1) [unfolded uf_represents_def]
  obtain q where q: "uf_find k p = Some (q, uf_root p k)" "uf_ok q" "length q = length p" "uf_root q = uf_root p"
    using uf_find_root ok k by blast
  have "uf_represents q n E" using q ok by (simp add: uf_represents_def)
  then have "group_roots [Suc k..<n] q (groups_below (uf_root p) (Suc k)) = Some (groups_below (uf_root p) n)"
    using Suc.hyps(1) [of "Suc k" q] Suc.hyps(2) k q by simp
  moreover have "push_to_group (uf_root p k) k (groups_below (uf_root p) k) = groups_below (uf_root p) (Suc k)"
    using ok k by (intro push_groups_below) (auto simp: uf_root_le uf_root_idem)
  ultimately show ?case using k q(1) by (simp add: upt_conv_Cons)
qed simp

section \<open>The clusters\<close>

text \<open>The connected components of at least a given size, in the order of their least members.\<close>

definition components :: "nat \<Rightarrow> (nat \<times> nat) set \<Rightarrow> int \<Rightarrow> nat list list" where
  "components n E least =
     filter (\<lambda>ms. int (length ms) \<ge> least)
       (map (\<lambda>i. filter (connected E i) [0..<n]) (filter (\<lambda>i. \<forall>j < i. \<not> connected E i j) [0..<n]))"

lemma root_iff_least:
  assumes "uf_represents p n E" "r < n"
  shows "uf_root p r = r \<longleftrightarrow> (\<forall>j < r. \<not> connected E r j)"
proof
  assume "uf_root p r = r"
  then show "\<forall>j < r. \<not> connected E r j"
    using uf_root_least [OF assms(1) assms(2)] assms(2) by (metis leD order.strict_trans)
next
  assume "\<forall>j < r. \<not> connected E r j"
  then show "uf_root p r = r" using uf_root_connected [OF assms] uf_root_le [of p r] by (meson le_neq_implies_less)
qed

lemma groups_are_components:
  assumes "uf_represents p n E"
  shows "filter (\<lambda>ms. int (length ms) \<ge> least) (dict_values (groups_below (uf_root p) n)) = components n E least"
proof -
  have roots: "filter (\<lambda>r. uf_root p r = r) [0..<n] = filter (\<lambda>i. \<forall>j < i. \<not> connected E i j) [0..<n]"
    using root_iff_least [OF assms] by (intro filter_cong) auto
  have "filter (\<lambda>i. uf_root p i = r) [0..<n] = filter (connected E r) [0..<n]" if "uf_root p r = r" "r < n" for r
    using that assms by (intro filter_cong) (auto simp: uf_represents_def, metis+)
  then have groups: "map (\<lambda>r. filter (\<lambda>i. uf_root p i = r) [0..<n]) (filter (\<lambda>r. uf_root p r = r) [0..<n]) =
      map (\<lambda>i. filter (connected E i) [0..<n]) (filter (\<lambda>r. uf_root p r = r) [0..<n])"
    by (intro map_cong) auto
  have "dict_values (groups_below (uf_root p) n) =
      map (\<lambda>r. filter (\<lambda>i. uf_root p i = r) [0..<n]) (filter (\<lambda>r. uf_root p r = r) [0..<n])"
    by (simp add: dict_values_def groups_below_def comp_def)
  then show ?thesis unfolding components_def roots [symmetric] by (simp only: groups)
qed

lemma component_starts:
  assumes "i < n" "\<forall>j < i. \<not> connected E i j"
  shows "filter (connected E i) [0..<n] = i # filter (connected E i) [Suc i..<n]"
proof -
  have "[0..<n] = [0..<i] @ i # [Suc i..<n]"
    using assms(1) upt_add_eq_append [of 0 i "n - i"] by (simp add: upt_conv_Cons)
  moreover have "filter (connected E i) [0..<i] = []" using assms(2) by (auto simp: filter_empty_conv)
  ultimately show ?thesis by simp
qed

lemma list_min_sorted: "sorted xs \<Longrightarrow> xs \<noteq> [] \<Longrightarrow> list_min xs = hd xs"
  by (induction xs rule: list_min.induct) auto

lemma component_shape:
  assumes "ms \<in> set (components n E least)"
  shows "sorted ms" "list_min ms = hd ms" "ms \<noteq> []"
proof -
  obtain i where i: "i < n" "\<forall>j < i. \<not> connected E i j" "ms = filter (connected E i) [0..<n]"
    using assms by (auto simp: components_def)
  then show "ms \<noteq> []" by (simp add: component_starts)
  show "sorted ms" using i by (simp add: sorted_wrt_filter)
  with \<open>ms \<noteq> []\<close> show "list_min ms = hd ms" by (simp add: list_min_sorted)
qed

lemma components_sorted: "sort_key list_min (components n E least) = components n E least"
proof -
  let ?is = "filter (\<lambda>i. \<forall>j < i. \<not> connected E i j) [0..<n]"
  have hds: "map hd (map (\<lambda>i. filter (connected E i) [0..<n]) ?is) = ?is"
    by (rule map_idI [THEN trans [rotated]]) (auto simp: component_starts intro: map_cong)
  have "sorted (map list_min (components n E least))"
  proof -
    have "sorted (map hd (map (\<lambda>i. filter (connected E i) [0..<n]) ?is))"
      unfolding hds by (simp add: sorted_wrt_filter)
    then have "sorted (map hd (components n E least))"
      unfolding components_def sorted_map by (rule sorted_wrt_filter)
    moreover have "map list_min (components n E least) = map hd (components n E least)"
      by (rule map_cong) (auto simp: component_shape)
    ultimately show ?thesis by (simp only:)
  qed
  then show ?thesis by (rule sort_key_id_if_sorted)
qed

lemma build_clusters_eq:
  assumes "uf_represents p (length records) E"
  shows "build_clusters records p ev least placeholder =
    Some (map (build_cluster records ev placeholder) (enumerate 0 (components (length records) E least)))"
proof -
  have "group_roots [0..<length records] p [] = Some (groups_below (uf_root p) (length records))"
    using group_roots_below [OF assms, of 0] by (simp add: groups_below_def)
  then show ?thesis
    by (simp add: build_clusters_def groups_are_components [OF assms] components_sorted)
qed

lemma build_clusters_components:
  assumes "uf_represents p (length records) E"
  shows "\<exists>cs. build_clusters records p ev least placeholder = Some cs \<and>
    map cl_members cs = components (length records) E least"
proof -
  let ?n = "length records"
  have "map (\<lambda>om. sort (snd om)) (enumerate 0 (components ?n E least)) = map sort (components ?n E least)"
    by (metis (no_types, lifting) comp_apply list.map_comp map_cong map_snd_enumerate)
  also have "\<dots> = components ?n E least"
    by (rule map_idI) (simp add: component_shape sorted_sort_id)
  finally show ?thesis
    by (simp add: build_clusters_eq [OF assms] build_cluster_def Let_def comp_def)
qed

text \<open>
  C6: \<open>detectDuplicateClusters\<close> always returns, and its clusters are exactly the connected components of the
  relation of rows that look alike (a common identifier up to case and white space, a common email hash, or
  similar names) that have the minimal size, in the order of their least rows; the counts are those of
  the clusters. Neither the order in which the evidence is collected nor the compression of paths matters.
\<close>
theorem clusters_are_components:
  "\<exists>r. detect_duplicate_clusters records opts = Some r \<and>
     map cl_members (an_clusters r) =
       components (length records) (alike_rows (option_or 2 (co_fuzzy_name_threshold opts)) records)
         (max (option_or 2 (co_min_cluster_size opts)) 2) \<and>
     an_total_records r = length records \<and>
     an_duplicate_row_count r = card (\<Union>c \<in> set (an_clusters r). set (cl_members c)) \<and>
     (an_has_duplicates r \<longleftrightarrow> an_clusters r \<noteq> [])"
proof -
  let ?n = "length records" and ?t = "option_or 2 (co_fuzzy_name_threshold opts)"
    and ?b = "option_or False (co_treat_normalized_as_exact opts)"
  let ?P = "pair_of ` set (all_calls records ?b ?t)"
  have range: "?P \<subseteq> {..<?n} \<times> {..<?n}"
    using calls_alike [of records ?b ?t] by (auto simp: alike_rows_def)
  obtain s where s: "run_sink (all_calls records ?b ?t) \<lparr>cs_sets = uf_new ?n, cs_evidence = []\<rparr> = Some s"
    "uf_represents (cs_sets s) ?n ?P"
    using run_sink_represents [of "\<lparr>cs_sets = uf_new ?n, cs_evidence = []\<rparr>" ?n "{}" "all_calls records ?b ?t"]
      uf_represents_new range by auto
  have "components ?n ?P least = components ?n (alike_rows ?t records) least" for least
    unfolding components_def calls_connect ..
  moreover obtain cs where cs: "build_clusters records (cs_sets s) (cs_evidence s)
      (max (option_or 2 (co_min_cluster_size opts)) 2) (option_or ''[redacted]'' (co_redaction_placeholder opts)) = Some cs"
    "map cl_members cs = components ?n ?P (max (option_or 2 (co_min_cluster_size opts)) 2)"
    using build_clusters_components [OF s(2)] by blast
  moreover obtain s1 where "run_sink (collect_identity_evidence records ?b) \<lparr>cs_sets = uf_new ?n, cs_evidence = []\<rparr> = Some s1"
    "run_sink (collect_fuzzy_name_evidence records ?t) s1 = Some s"
    using s(1) by (auto simp: run_sink_append bind_eq_Some_conv)
  ultimately show ?thesis by (simp add: detect_duplicate_clusters_def Let_def)
qed

section \<open>Evidence of a pair of rows\<close>

lemma run_sink_same_pair:
  assumes "dict_get (cs_evidence s) ij \<noteq> None" "\<forall>e \<in> set es. pair_of e = ij" "run_sink es s = Some t"
  shows "cs_evidence t = cs_evidence s"
  using assms
proof (induction es arbitrary: s)
  case (Cons e es)
  then obtain u where "evidence_sink e s = Some u" "run_sink es u = Some t" by (auto simp: bind_eq_Some_conv)
  moreover from this have "cs_evidence u = cs_evidence s"
    using Cons.prems by (auto simp: evidence_sink_def bind_eq_Some_conv Let_def)
  ultimately show ?case using Cons.IH [of u] Cons.prems by simp
qed simp

lemma two_row_targets:
  "\<forall>e \<in> set (target_evidence [a, b] nb target). pair_of e = (0, 1)"
proof -
  obtain f er nr where target: "target = (f, er, nr)" by (cases target)
  show ?thesis
    by (auto simp: target target_evidence_def raw_groups_def normalized_groups_def sorted_normalized_groups_def
        push_to_group_def dict_values_def upt_rec Let_def identity_call_def split: option.splits if_splits)
qed

lemma two_row_pairs: "\<forall>e \<in> set (all_calls [a, b] nb t). pair_of e = (0, 1)"
  using two_row_targets [of a b nb]
  by (auto simp: collect_identity_evidence_def collect_fuzzy_name_evidence_def upt_rec)

lemma two_row_first_call:
  assumes "same_identifier (im_employee_id a) (im_employee_id b)"
    "safe_string (im_employee_id a) \<noteq> safe_string (im_employee_id b)"
  shows "\<exists>es. all_calls [a, b] False t =
    identity_call EmployeeId MatchNormalized Case_insensitive_employee_id ConfidenceHigh (0, 1) # es"
proof -
  let ?a = "safe_string (im_employee_id a)" and ?b = "safe_string (im_employee_id b)"
  obtain k where k: "normalize_identifier (Some ?a) = Some k" "normalize_identifier (Some ?b) = Some k"
    using assms(1) by (metis normalize_safe option.exhaust same_identifier_def)
  have ne: "?a \<noteq> []" "?b \<noteq> []"
    using assms(1) normalize_None_iff [of "im_employee_id a"] normalize_None_iff [of "im_employee_id b"]
    unfolding same_identifier_def by metis+
  have raws: "raw_groups [a, b] EmployeeId = [(?a, [0]), (?b, [1])]"
    using ne assms(2) by (simp add: raw_groups_def raw_value_def field_value_def upt_rec push_to_group_def)
  have "normalized_groups [(?a, [0]), (?b, [1])] = [(k, [0, 1])]"
    using k by (simp add: normalized_groups_def push_to_group_def)
  then show ?thesis
    using raws assms(2)
    by (simp add: collect_identity_evidence_def identity_targets_def target_evidence_def sorted_normalized_groups_def
        dict_values_def raw_value_def field_value_def)
qed

lemma components_pair: "components 2 {(0, 1)} 2 = [[0, 1]]"
proof -
  have "connected {(0, 1 :: nat)} 0 1" "connected {(0, 1 :: nat)} 1 0"
    by (auto intro: connected_edge connected_sym)
  then show ?thesis by (simp add: components_def upt_rec)
qed

text \<open>
  Only the first evidence of a pair of rows is kept, and it is not the strongest: two rows with exactly the
  same wallet address (or any other common field) whose employee ids differ in case only are reported as one
  cluster of high, not exact, confidence, whose only reason is the employee id.
\<close>
theorem stronger_evidence_lost:
  assumes ids: "same_identifier (im_employee_id a) (im_employee_id b)"
      "safe_string (im_employee_id a) \<noteq> safe_string (im_employee_id b)"
    and defaults: "co_treat_normalized_as_exact opts = None" "co_min_cluster_size opts = None"
  shows "\<exists>r c. detect_duplicate_clusters [a, b] opts = Some r \<and> an_clusters r = [c] \<and> cl_members c = [0, 1] \<and>
    cl_confidence c = ConfidenceHigh \<and> cl_reasons c = [Case_insensitive_employee_id]"
proof -
  let ?t = "option_or 2 (co_fuzzy_name_threshold opts)"
  let ?start = "\<lparr>cs_sets = uf_new 2, cs_evidence = []\<rparr>"
  let ?e = "identity_call EmployeeId MatchNormalized Case_insensitive_employee_id ConfidenceHigh (0, 1)"
  obtain es where es: "all_calls [a, b] False ?t = ?e # es" using two_row_first_call [OF ids] by blast
  then have pairs: "pair_of ` set (?e # es) = {(0, 1)}" "\<forall>e \<in> set es. pair_of e = (0, 1)"
    using two_row_pairs [of a b False ?t] unfolding es by auto
  have "\<exists>s. run_sink (?e # es) ?start = Some s \<and> uf_represents (cs_sets s) 2 ({} \<union> pair_of ` set (?e # es))"
    by (rule run_sink_represents) (use uf_represents_new [of 2] pairs(1) in auto)
  then obtain s where s: "run_sink (?e # es) ?start = Some s" "uf_represents (cs_sets s) 2 {(0, 1)}"
    unfolding pairs(1) Un_empty_left by blast
  then obtain u where u: "evidence_sink ?e ?start = Some u" "run_sink es u = Some s" by (auto simp: bind_eq_Some_conv)
  have "cs_evidence u = [((0, 1), ?e)]" using u(1) by (auto simp: evidence_sink_def bind_eq_Some_conv Let_def)
  then have ev: "cs_evidence s = [((0, 1), ?e)]"
    using run_sink_same_pair [OF _ pairs(2) u(2)] by simp
  obtain s1 where s1: "run_sink (collect_identity_evidence [a, b] False) ?start = Some s1"
    "run_sink (collect_fuzzy_name_evidence [a, b] ?t) s1 = Some s"
    using s(1) unfolding es [symmetric] by (auto simp: run_sink_append bind_eq_Some_conv)
  have "build_clusters [a, b] (cs_sets s) (cs_evidence s) 2 ph =
      Some [build_cluster [a, b] [((0, 1), ?e)] ph (0, [0, 1])]" for ph
    unfolding ev using s(2) components_pair
    by (subst build_clusters_eq [where E = "{(0, 1)}"]) (simp_all add: numeral_2_eq_2)
  with s1 show ?thesis
    using defaults
    by (simp add: detect_duplicate_clusters_def numeral_2_eq_2 Let_def build_cluster_def dict_values_def
        sort_evidence_def stronger_def confidence_rank_def) (simp add: identity_call_def)
qed

definition example_row :: "string \<Rightarrow> import_record" where
  "example_row employee =
     \<lparr>im_row_number = None, im_employee_id = Some employee, im_wallet_address = Some ''GABC'', im_email_hash = None,
      im_external_id = None, im_name = None, im_department = None, im_salary = None, im_asset = None\<rparr>"

definition default_options :: cluster_options where
  "default_options =
     \<lparr>co_fuzzy_name_threshold = None, co_treat_normalized_as_exact = None, co_min_cluster_size = None,
      co_redaction_placeholder = None\<rparr>"

theorem stronger_evidence_lost_witness:
  "\<exists>r c. detect_duplicate_clusters [example_row ''EMP-1'', example_row ''emp-1''] default_options = Some r \<and>
    an_clusters r = [c] \<and> cl_members c = [0, 1] \<and> cl_confidence c = ConfidenceHigh \<and>
    cl_reasons c = [Case_insensitive_employee_id]"
proof (rule stronger_evidence_lost)
  show "same_identifier (im_employee_id (example_row ''EMP-1'')) (im_employee_id (example_row ''emp-1''))"
    by code_simp
  show "safe_string (im_employee_id (example_row ''EMP-1'')) \<noteq> safe_string (im_employee_id (example_row ''emp-1''))"
    by code_simp
qed (simp_all add: default_options_def)

end
