(* ===== verification/SignerCoordination.thy ===== *)
theory SignerCoordination
  imports QuorumSessions
begin

text \<open>
  Multi-signer authorization (\<open>packages/core/src/authorization/MultiSignerCoordinator.ts\<close>): requests with one slot
  per required role, signatures, rejections and revocations, and the three approval policies. The clock and the
  random request identifier are arguments; policy weights are integers. Shown: what an approval says about the
  calls made, that a slot is decided once, and how each policy counts, where refusals count as consent.
\<close>

section \<open>State\<close>

datatype signer_state = StatePending | StateSigned | StateRejected | StateExpired | StateRevoked

datatype policy_type = Unanimous | Threshold | Weighted

record authorization_policy =
  po_type :: policy_type
  po_required_roles :: "signer_role list"
  po_threshold :: "int option"
  po_weights :: "(signer_role, int) dict option"
  po_expiry_ms :: "int option"

record signer_info =
  si_address :: string
  si_role :: signer_role
  si_state :: signer_state
  si_signed_at :: "int option"
  si_rejected_at :: "int option"
  si_rejection_reason :: "string option"

record authorization_request =
  rq_id :: string
  rq_operation_id :: string
  rq_policy :: authorization_policy
  rq_signers :: "signer_info list"
  rq_created_at :: int
  rq_expires_at :: int

record signature_payload =
  sn_operation_id :: string
  sn_policy_id :: string
  sn_signer_role :: signer_role
  sn_timestamp :: int
  sn_nonce :: string

record coordinator =
  cd_requests :: "(string, authorization_request) dict"
  cd_signer_history :: "(string, string list) dict"
  cd_max_expiry_ms :: int

datatype coordinator_error =
  RequestNotFound | RoleNotRequired | RoleAssigned | RequestExpired | SignerNotFound | AlreadyDecided | DuplicateSignature

definition new_coordinator :: "int option \<Rightarrow> coordinator" where
  "new_coordinator max_expiry =
     \<lparr>cd_requests = [], cd_signer_history = [],
      cd_max_expiry_ms = (case max_expiry of None \<Rightarrow> 86400000 | Some m \<Rightarrow> m)\<rparr>"

section \<open>Operations\<close>

definition create_authorization_request ::
  "int \<Rightarrow> string \<Rightarrow> string \<Rightarrow> authorization_policy \<Rightarrow> signer_role list \<Rightarrow> coordinator \<Rightarrow> coordinator" where
  "create_authorization_request now request_id operation policy roles c =
     (let expires_at = now + (case po_expiry_ms policy of None \<Rightarrow> cd_max_expiry_ms c | Some e \<Rightarrow> e);
          signers = map (\<lambda>role. \<lparr>si_address = [], si_role = role, si_state = StatePending, si_signed_at = None,
                                 si_rejected_at = None, si_rejection_reason = None\<rparr>) roles
      in c\<lparr>cd_requests := dict_put request_id
             \<lparr>rq_id = request_id, rq_operation_id = operation, rq_policy = policy, rq_signers = signers,
              rq_created_at = now, rq_expires_at = expires_at\<rparr> (cd_requests c)\<rparr>)"

definition request_or_throw :: "string \<Rightarrow> coordinator \<Rightarrow> (coordinator_error, authorization_request) result" where
  "request_or_throw i c = (case dict_get (cd_requests c) i of None \<Rightarrow> Inl RequestNotFound | Some r \<Rightarrow> Inr r)"

definition is_request_expired :: "int \<Rightarrow> authorization_request \<Rightarrow> bool" where
  "is_request_expired now r = (if rq_expires_at r \<noteq> 0 then now > rq_expires_at r else False)"

text \<open>The object found by \<open>signers.find\<close> is changed in place: \<open>update_first\<close>.\<close>

definition put_signers :: "string \<Rightarrow> authorization_request \<Rightarrow> signer_info list \<Rightarrow> coordinator \<Rightarrow> coordinator" where
  "put_signers i r signers c = c\<lparr>cd_requests := dict_put i (r\<lparr>rq_signers := signers\<rparr>) (cd_requests c)\<rparr>"

definition find_signer :: "(signer_info \<Rightarrow> bool) \<Rightarrow> coordinator_error \<Rightarrow> authorization_request \<Rightarrow> (coordinator_error, signer_info) result" where
  "find_signer p e r = (case find p (rq_signers r) of None \<Rightarrow> Inl e | Some s \<Rightarrow> Inr s)"

definition add_signer :: "string \<Rightarrow> string \<Rightarrow> signer_role \<Rightarrow> coordinator \<Rightarrow> (coordinator_error, coordinator) result" where
  "add_signer i address role c =
     bind_result (request_or_throw i c) (\<lambda>r.
     let p = (\<lambda>s. si_role s = role) in
     bind_result (find_signer p RoleNotRequired r) (\<lambda>s.
     bind_result (throw_if (si_address s \<noteq> [] \<and> si_address s \<noteq> address) RoleAssigned) (\<lambda>_.
     Inr (put_signers i r (update_first p (\<lambda>s. s\<lparr>si_address := address\<rparr>) (rq_signers r)) c))))"

definition history_key :: "string \<Rightarrow> string \<Rightarrow> string" where
  "history_key i address = i @ '':'' @ address"

definition record_signer_signature ::
  "int \<Rightarrow> string \<Rightarrow> signature_payload \<Rightarrow> string \<Rightarrow> coordinator \<Rightarrow> (coordinator_error, coordinator) result" where
  "record_signer_signature now i sig address c =
     bind_result (request_or_throw i c) (\<lambda>r.
     bind_result (throw_if (is_request_expired now r) RequestExpired) (\<lambda>_.
     let p = (\<lambda>s. si_address s = address \<and> si_role s = sn_signer_role sig) in
     bind_result (find_signer p SignerNotFound r) (\<lambda>s.
     bind_result (throw_if (si_state s \<noteq> StatePending) AlreadyDecided) (\<lambda>_.
     let key = history_key i address;
         nonces = (case dict_get (cd_signer_history c) key of None \<Rightarrow> [] | Some ns \<Rightarrow> ns) in
     bind_result (throw_if (sn_nonce sig \<in> set nonces) DuplicateSignature) (\<lambda>_.
     Inr (put_signers i r
       (update_first p (\<lambda>s. s\<lparr>si_state := StateSigned, si_signed_at := Some now\<rparr>) (rq_signers r))
       (c\<lparr>cd_signer_history := dict_put key (List.insert (sn_nonce sig) nonces) (cd_signer_history c)\<rparr>)))))))"

definition record_rejection ::
  "int \<Rightarrow> string \<Rightarrow> string \<Rightarrow> string \<Rightarrow> coordinator \<Rightarrow> (coordinator_error, coordinator) result" where
  "record_rejection now i address reason c =
     bind_result (request_or_throw i c) (\<lambda>r.
     bind_result (throw_if (is_request_expired now r) RequestExpired) (\<lambda>_.
     let p = (\<lambda>s. si_address s = address) in
     bind_result (find_signer p SignerNotFound r) (\<lambda>s.
     bind_result (throw_if (si_state s \<noteq> StatePending) AlreadyDecided) (\<lambda>_.
     Inr (put_signers i r
       (update_first p (\<lambda>s. s\<lparr>si_state := StateRejected, si_rejected_at := Some now, si_rejection_reason := Some reason\<rparr>)
         (rq_signers r)) c)))))"

definition revoke_signature :: "string \<Rightarrow> string \<Rightarrow> coordinator \<Rightarrow> (coordinator_error, coordinator) result" where
  "revoke_signature i address c =
     bind_result (request_or_throw i c) (\<lambda>r.
     let p = (\<lambda>s. si_address s = address) in
     bind_result (find_signer p SignerNotFound r) (\<lambda>_.
     Inr (put_signers i r (update_first p (\<lambda>s. s\<lparr>si_state := StateRevoked\<rparr>) (rq_signers r)) c)))"

section \<open>Status\<close>

definition policy_weight :: "(signer_role, int) dict \<Rightarrow> signer_info \<Rightarrow> int" where
  "policy_weight weights s = (case dict_get weights (si_role s) of None \<Rightarrow> 0 | Some w \<Rightarrow> w)"

text \<open>\<open>totalWeight >= requiredWeight / 2\<close>, without the division\<close>

definition evaluate_policy :: "authorization_request \<Rightarrow> signer_info list \<Rightarrow> bool" where
  "evaluate_policy r signed_signers =
     (let policy = rq_policy r in
      case po_type policy of
        Unanimous \<Rightarrow> length signed_signers = length (filter (\<lambda>s. si_state s \<noteq> StateRejected) (rq_signers r))
      | Threshold \<Rightarrow>
          (case po_threshold policy of
             None \<Rightarrow> False
           | Some t \<Rightarrow> if t = 0 then False else int (length signed_signers) \<ge> t)
      | Weighted \<Rightarrow>
          (case po_weights policy of
             None \<Rightarrow> False
           | Some ws \<Rightarrow>
               let required_weight = sum_list (map (policy_weight ws) (rq_signers r));
                   total_weight = sum_list (map (policy_weight ws) signed_signers)
               in 2 * total_weight \<ge> required_weight))"

definition required_signature_count :: "authorization_request \<Rightarrow> int" where
  "required_signature_count r =
     (case (po_type (rq_policy r), po_threshold (rq_policy r)) of
        (Threshold, Some t) \<Rightarrow> if t \<noteq> 0 then t else int (length (rq_signers r))
      | _ \<Rightarrow> int (length (rq_signers r)))"

record authorization_status =
  as_is_approved :: bool
  as_is_pending :: bool
  as_is_expired :: bool
  as_signed_count :: nat
  as_required_count :: int
  as_rejection_count :: nat
  as_approval_percentage :: int
  as_signers :: "signer_info list"

text \<open>\<open>Math.round\<close> rounds a half up: \<open>floor(x + 1/2)\<close>.\<close>

definition authorization_status_of :: "int \<Rightarrow> authorization_request \<Rightarrow> authorization_status" where
  "authorization_status_of now r =
     (let expired = is_request_expired now r;
          signed_signers = filter (\<lambda>s. si_state s = StateSigned) (rq_signers r);
          rejected = filter (\<lambda>s. si_state s = StateRejected) (rq_signers r);
          approved = evaluate_policy r signed_signers;
          required = required_signature_count r
      in \<lparr>as_is_approved = (approved \<and> \<not> expired), as_is_pending = (\<not> approved \<and> \<not> expired),
          as_is_expired = expired, as_signed_count = length signed_signers, as_required_count = required,
          as_rejection_count = length rejected,
          as_approval_percentage =
            (if required > 0 then (200 * int (length signed_signers) + required) div (2 * required) else 0),
          as_signers = rq_signers r\<rparr>)"

definition get_authorization_status :: "int \<Rightarrow> string \<Rightarrow> coordinator \<Rightarrow> (coordinator_error, authorization_status) result" where
  "get_authorization_status now i c = bind_result (request_or_throw i c) (\<lambda>r. Inr (authorization_status_of now r))"

definition create_payload_for_signing ::
  "(authorization_policy \<Rightarrow> string) \<Rightarrow> int \<Rightarrow> string \<Rightarrow> string \<Rightarrow> signer_role \<Rightarrow> coordinator
   \<Rightarrow> (coordinator_error, signature_payload) result" where
  "create_payload_for_signing stringify_policy now nonce i role c =
     bind_result (request_or_throw i c) (\<lambda>r.
     Inr \<lparr>sn_operation_id = rq_operation_id r, sn_policy_id = stringify_policy (rq_policy r), sn_signer_role = role,
          sn_timestamp = now, sn_nonce = nonce\<rparr>)"

definition all_pending_requests :: "int \<Rightarrow> coordinator \<Rightarrow> authorization_request list" where
  "all_pending_requests now c = filter (\<lambda>r. \<not> is_request_expired now r) (dict_values (cd_requests c))"

section \<open>Runs\<close>

datatype coordinator_op =
  CreateRequest int string string authorization_policy "signer_role list"
| AddSigner string string signer_role
| RecordSignature int string signature_payload string
| RecordRejection int string string string
| RevokeSignature string string

fun coordinator_step :: "coordinator_op \<Rightarrow> coordinator \<Rightarrow> (coordinator_error, coordinator) result" where
  "coordinator_step (CreateRequest now i operation policy roles) c =
     Inr (create_authorization_request now i operation policy roles c)"
| "coordinator_step (AddSigner i address role) c = add_signer i address role c"
| "coordinator_step (RecordSignature now i sig address) c = record_signer_signature now i sig address c"
| "coordinator_step (RecordRejection now i address reason) c = record_rejection now i address reason c"
| "coordinator_step (RevokeSignature i address) c = revoke_signature i address c"

lemma request_or_throw_Inr: "request_or_throw i c = Inr r \<longleftrightarrow> dict_get (cd_requests c) i = Some r"
  by (simp add: request_or_throw_def split: option.splits)

lemma find_signer_Inr: "find_signer p e r = Inr s \<longleftrightarrow> find p (rq_signers r) = Some s"
  by (simp add: find_signer_def split: option.splits)

text \<open>What a successful call other than the creation of a request does: it changes the slot it finds.\<close>

fun op_request :: "coordinator_op \<Rightarrow> string" where
  "op_request (CreateRequest _ i _ _ _) = i"
| "op_request (AddSigner i _ _) = i"
| "op_request (RecordSignature _ i _ _) = i"
| "op_request (RecordRejection _ i _ _) = i"
| "op_request (RevokeSignature i _) = i"

fun op_slot :: "coordinator_op \<Rightarrow> signer_info \<Rightarrow> bool" where
  "op_slot (AddSigner _ _ role) s = (si_role s = role)"
| "op_slot (RecordSignature _ _ sig a) s = (si_address s = a \<and> si_role s = sn_signer_role sig)"
| "op_slot (RecordRejection _ _ a _) s = (si_address s = a)"
| "op_slot (RevokeSignature _ a) s = (si_address s = a)"
| "op_slot _ s = False"

fun op_change :: "coordinator_op \<Rightarrow> signer_info \<Rightarrow> signer_info" where
  "op_change (AddSigner _ a _) s = s\<lparr>si_address := a\<rparr>"
| "op_change (RecordSignature now _ _ _) s = s\<lparr>si_state := StateSigned, si_signed_at := Some now\<rparr>"
| "op_change (RecordRejection now _ _ reason) s =
     s\<lparr>si_state := StateRejected, si_rejected_at := Some now, si_rejection_reason := Some reason\<rparr>"
| "op_change (RevokeSignature _ _) s = s\<lparr>si_state := StateRevoked\<rparr>"
| "op_change _ s = s"

fun op_guard :: "coordinator_op \<Rightarrow> signer_info \<Rightarrow> bool" where
  "op_guard (AddSigner _ a _) s = (si_address s = [] \<or> si_address s = a)"
| "op_guard (RecordSignature _ _ _ _) s = (si_state s = StatePending)"
| "op_guard (RecordRejection _ _ _ _) s = (si_state s = StatePending)"
| "op_guard _ s = True"

lemma op_functions:
  "op_slot (AddSigner i a role) = (\<lambda>s. si_role s = role)"
  "op_slot (RecordSignature now i sig a) = (\<lambda>s. si_address s = a \<and> si_role s = sn_signer_role sig)"
  "op_slot (RecordRejection now i a reason) = (\<lambda>s. si_address s = a)"
  "op_slot (RevokeSignature i a) = (\<lambda>s. si_address s = a)"
  "op_change (AddSigner i a role) = (\<lambda>s. s\<lparr>si_address := a\<rparr>)"
  "op_change (RecordSignature now i sig a) = (\<lambda>s. s\<lparr>si_state := StateSigned, si_signed_at := Some now\<rparr>)"
  "op_change (RecordRejection now i a reason) =
     (\<lambda>s. s\<lparr>si_state := StateRejected, si_rejected_at := Some now, si_rejection_reason := Some reason\<rparr>)"
  "op_change (RevokeSignature i a) = (\<lambda>s. s\<lparr>si_state := StateRevoked\<rparr>)"
  by (simp_all add: fun_eq_iff)

definition creates :: "coordinator_op \<Rightarrow> bool" where
  "creates op = (case op of CreateRequest _ _ _ _ _ \<Rightarrow> True | _ \<Rightarrow> False)"

lemma step_changes_slot:
  assumes "coordinator_step op c = Inr d" "\<not> creates op"
  shows "\<exists>r s. dict_get (cd_requests c) (op_request op) = Some r \<and> find (op_slot op) (rq_signers r) = Some s \<and>
    op_guard op s \<and>
    cd_requests d = dict_put (op_request op) (r\<lparr>rq_signers := update_first (op_slot op) (op_change op) (rq_signers r)\<rparr>)
      (cd_requests c)"
  using assms
  by (cases op)
    (auto simp: creates_def add_signer_def record_signer_signature_def record_rejection_def revoke_signature_def Let_def
      result_simps request_or_throw_Inr find_signer_Inr put_signers_def op_functions)

lemma set_update_first: "s \<in> set (update_first p f xs) \<Longrightarrow> s \<in> set xs \<or> (\<exists>x. find p xs = Some x \<and> s = f x)"
  by (induction xs) (auto split: if_splits)

section \<open>Slots are decided once\<close>

definition slot_after :: "signer_info \<Rightarrow> signer_info \<Rightarrow> bool" where
  "slot_after s t =
     (si_role t = si_role s \<and> (si_state t = si_state s \<or> si_state s = StatePending \<or> si_state t = StateRevoked))"

lemma slot_after_refl: "slot_after s s"
  by (simp add: slot_after_def)

lemma slot_after_trans: "slot_after s t \<Longrightarrow> slot_after t u \<Longrightarrow> slot_after s u"
  by (auto simp: slot_after_def)

lemma update_first_after:
  "find p xs = Some x \<Longrightarrow> slot_after x (f x) \<Longrightarrow> list_all2 slot_after xs (update_first p f xs)"
  by (induction xs) (auto simp: slot_after_refl list_all2_refl split: if_splits)

lemma op_change_after: "op_guard op s \<Longrightarrow> slot_after s (op_change op s)"
  by (cases op) (auto simp: slot_after_def)

text \<open>
  A slot is decided once: whatever calls follow, a slot that has been signed or rejected stays so unless it is
  revoked, a revoked slot stays revoked, and no slot is added, removed or moved to another role.
\<close>
theorem slots_decided_once:
  assumes "dict_get (cd_requests c) i = Some r" "\<forall>op \<in> set ops. creates op \<longrightarrow> op_request op \<noteq> i"
  shows "\<exists>r'. dict_get (cd_requests (run_ops coordinator_step ops c)) i = Some r' \<and>
    rq_policy r' = rq_policy r \<and> list_all2 slot_after (rq_signers r) (rq_signers r')"
  using assms
proof (induction ops arbitrary: c r)
  case Nil
  then show ?case by (auto simp: list_all2_refl slot_after_refl)
next
  case (Cons op ops)
  let ?d = "case coordinator_step op c of Inl _ \<Rightarrow> c | Inr t \<Rightarrow> t"
  have "\<exists>r1. dict_get (cd_requests ?d) i = Some r1 \<and> rq_policy r1 = rq_policy r \<and>
      list_all2 slot_after (rq_signers r) (rq_signers r1)"
  proof (cases "coordinator_step op c")
    case (Inl e)
    then show ?thesis using Cons.prems by (auto simp: list_all2_refl slot_after_refl)
  next
    case (Inr d)
    show ?thesis
    proof (cases "creates op")
      case True
      then have "dict_get (cd_requests d) i = Some r"
        using Inr Cons.prems
        by (auto simp: creates_def create_authorization_request_def update_conv' Let_def split: coordinator_op.splits)
      then show ?thesis using Inr by (auto simp: list_all2_refl slot_after_refl)
    next
      case False
      with Inr show ?thesis
        using step_changes_slot [OF Inr False] Cons.prems(1)
        by (cases "op_request op = i")
          (auto simp: update_conv' list_all2_refl slot_after_refl intro!: update_first_after op_change_after)
    qed
  qed
  then obtain r1 where r1: "dict_get (cd_requests ?d) i = Some r1" "rq_policy r1 = rq_policy r"
    "list_all2 slot_after (rq_signers r) (rq_signers r1)" by blast
  then obtain r' where "dict_get (cd_requests (run_ops coordinator_step ops ?d)) i = Some r'"
    "rq_policy r' = rq_policy r1" "list_all2 slot_after (rq_signers r1) (rq_signers r')"
    using Cons.IH [OF r1(1)] Cons.prems(2) by auto
  with r1 show ?case using list_all2_trans [OF slot_after_trans] by auto
qed

section \<open>Approvals and the calls made\<close>

definition signed_logged :: "coordinator_op list \<Rightarrow> coordinator \<Rightarrow> bool" where
  "signed_logged ops c =
     (\<forall>i r s. dict_get (cd_requests c) i = Some r \<longrightarrow> s \<in> set (rq_signers r) \<longrightarrow> si_state s = StateSigned \<longrightarrow>
        si_address s \<noteq> [] \<and>
        (\<exists>now sig. RecordSignature now i sig (si_address s) \<in> set ops \<and> sn_signer_role sig = si_role s))"

definition named_signers :: "coordinator_op list \<Rightarrow> bool" where
  "named_signers ops = (\<forall>now i sig a. RecordSignature now i sig a \<in> set ops \<longrightarrow> a \<noteq> [])"

lemma signed_logged_mono: "signed_logged ops c \<Longrightarrow> signed_logged (ops @ ops') c"
  unfolding signed_logged_def set_append by blast

lemma find_SomeD: "find p xs = Some x \<Longrightarrow> x \<in> set xs \<and> p x"
  by (induction xs) (auto split: if_splits)

lemma signed_logged_step:
  assumes log: "signed_logged ops c" and step: "coordinator_step op c = Inr d" and named: "named_signers (ops @ [op])"
  shows "signed_logged (ops @ [op]) d"
proof (cases "creates op")
  case True
  with step signed_logged_mono [OF log] show ?thesis
    by (fastforce simp: creates_def create_authorization_request_def signed_logged_def update_conv' Let_def
        split: coordinator_op.splits if_splits)
next
  case False
  obtain r s where step: "dict_get (cd_requests c) (op_request op) = Some r" "find (op_slot op) (rq_signers r) = Some s"
    "op_guard op s"
    "cd_requests d = dict_put (op_request op) (r\<lparr>rq_signers := update_first (op_slot op) (op_change op) (rq_signers r)\<rparr>)
      (cd_requests c)"
    using step_changes_slot [OF assms(2) False] by blast
  have old: "si_address s' \<noteq> [] \<and>
      (\<exists>now sig. RecordSignature now i sig (si_address s') \<in> set (ops @ [op]) \<and> sn_signer_role sig = si_role s')"
    if "dict_get (cd_requests c) i = Some r'" "s' \<in> set (rq_signers r')" "si_state s' = StateSigned" for i r' s'
    using that log unfolding signed_logged_def set_append by blast
  have s: "s \<in> set (rq_signers r)" "op_slot op s" using find_SomeD [OF step(2)] by auto
  have new: "si_address (op_change op s) \<noteq> [] \<and>
      (\<exists>now sig. RecordSignature now (op_request op) sig (si_address (op_change op s)) \<in> set (ops @ [op]) \<and>
        sn_signer_role sig = si_role (op_change op s))" if "si_state (op_change op s) = StateSigned"
  proof (cases op)
    case (AddSigner i a role)
    then show ?thesis using that step(3) old [OF step(1) s(1)] by auto
  next
    case (RecordSignature now i sig a)
    then have "a \<noteq> []" using named unfolding named_signers_def by auto
    with RecordSignature s(2) show ?thesis by auto
  qed (use that False in \<open>auto simp: creates_def\<close>)
  show ?thesis
    unfolding signed_logged_def
  proof (intro allI impI)
    fix i r' s'
    assume get: "dict_get (cd_requests d) i = Some r'" and mem: "s' \<in> set (rq_signers r')" and sg: "si_state s' = StateSigned"
    show "si_address s' \<noteq> [] \<and>
      (\<exists>now sig. RecordSignature now i sig (si_address s') \<in> set (ops @ [op]) \<and> sn_signer_role sig = si_role s')"
    proof (cases "i = op_request op")
      case True
      then have "rq_signers r' = update_first (op_slot op) (op_change op) (rq_signers r)"
        using get step(4) by (auto simp: update_conv')
      with mem have "s' \<in> set (rq_signers r) \<or> s' = op_change op s"
        using set_update_first [of s' "op_slot op" "op_change op" "rq_signers r"] step(2) by auto
      then show ?thesis using old [OF step(1)] new sg True by blast
    next
      case False
      then have "dict_get (cd_requests c) i = Some r'" using get step(4) by (simp add: update_conv')
      then show ?thesis using mem sg by (rule old)
    qed
  qed
qed

lemma signed_logged_run:
  assumes "named_signers ops"
  shows "signed_logged ops (run_ops coordinator_step ops (new_coordinator m))"
  using assms
proof (induction ops rule: rev_induct)
  case Nil
  then show ?case by (simp add: signed_logged_def new_coordinator_def)
next
  case (snoc op ops)
  then have log: "signed_logged ops (run_ops coordinator_step ops (new_coordinator m))"
    by (auto simp: named_signers_def)
  then show ?case
    using signed_logged_step [OF log _ snoc.prems] signed_logged_mono [OF log, of "[op]"]
    by (auto simp: run_ops_append split: sum.split)
qed

text \<open>
  C11: When every call of \<open>recordSignature\<close> names its signer, a request approved under a threshold has not expired
  and has at least that many signed slots, and for each of them the history has a signature by the slot's own
  address in the slot's own role.
\<close>
theorem threshold_approval_is_signed:
  assumes "get_authorization_status now i (run_ops coordinator_step ops (new_coordinator m)) = Inr st"
    and "as_is_approved st"
    and "dict_get (cd_requests (run_ops coordinator_step ops (new_coordinator m))) i = Some r"
    and "po_type (rq_policy r) = Threshold" "po_threshold (rq_policy r) = Some t"
    and "named_signers ops"
  shows "\<not> is_request_expired now r \<and> t \<le> int (length (filter (\<lambda>s. si_state s = StateSigned) (rq_signers r))) \<and>
    (\<forall>s \<in> set (rq_signers r). si_state s = StateSigned \<longrightarrow>
       (\<exists>now sig. RecordSignature now i sig (si_address s) \<in> set ops \<and> sn_signer_role sig = si_role s))"
proof -
  have "st = authorization_status_of now r"
    using assms(1,3) by (simp add: get_authorization_status_def request_or_throw_def)
  then have "\<not> is_request_expired now r" "evaluate_policy r (filter (\<lambda>s. si_state s = StateSigned) (rq_signers r))"
    using assms(2) by (simp_all add: authorization_status_of_def Let_def)
  moreover from this have "t \<le> int (length (filter (\<lambda>s. si_state s = StateSigned) (rq_signers r)))"
    using assms(4,5) by (simp add: evaluate_policy_def Let_def split: if_splits)
  ultimately show ?thesis
    using signed_logged_run [OF assms(6), of m] assms(3) unfolding signed_logged_def by blast
qed

section \<open>Counting\<close>

lemma filter_lengths_le: "(\<And>x. p x \<Longrightarrow> q x) \<Longrightarrow> length (filter p xs) \<le> length (filter q xs)"
  by (induction xs) (auto simp: le_SucI)

lemma filter_lengths_eq:
  "(\<And>x. p x \<Longrightarrow> q x) \<Longrightarrow> length (filter p xs) = length (filter q xs) \<longleftrightarrow> (\<forall>x \<in> set xs. q x \<longrightarrow> p x)"
proof (induction xs)
  case (Cons x xs)
  have "length (filter p xs) \<le> length (filter q xs)" by (rule filter_lengths_le) (rule Cons.prems)
  with Cons show ?case by auto
qed simp

text \<open>
  A refusal counts as consent under the unanimous policy: an unexpired request is approved exactly when every
  slot has been signed or rejected, so a request that every signer rejected is approved with no signature. Under
  the weighted policy half of the weight suffices, and without weights no signature is needed either.
\<close>
theorem rejections_count_as_consent:
  "(po_type (rq_policy r) = Unanimous \<longrightarrow>
     as_is_approved (authorization_status_of now r) =
       (\<not> is_request_expired now r \<and> (\<forall>s \<in> set (rq_signers r). si_state s \<in> {StateSigned, StateRejected}))) \<and>
   (po_type (rq_policy r) = Weighted \<and> po_weights (rq_policy r) = Some [] \<longrightarrow>
     as_is_approved (authorization_status_of now r) = (\<not> is_request_expired now r))"
proof -
  let ?signed = "\<lambda>s. si_state s = StateSigned" and ?not_rejected = "\<lambda>s. si_state s \<noteq> StateRejected"
  have "length (filter ?signed (rq_signers r)) = length (filter ?not_rejected (rq_signers r)) \<longleftrightarrow>
      (\<forall>s \<in> set (rq_signers r). ?not_rejected s \<longrightarrow> ?signed s)"
    by (rule filter_lengths_eq) simp
  moreover have "sum_list (map (policy_weight []) xs) = 0" for xs by (induction xs) (simp_all add: policy_weight_def)
  ultimately show ?thesis by (auto simp: authorization_status_of_def evaluate_policy_def Let_def)
qed

text \<open>
  A slot that no address has been assigned to can be signed in the name of the empty address, and the address
  assigned to it afterwards counts as having signed: a unanimous request of one role is approved although the signer it
  names never made a call.
\<close>
theorem unassigned_slot_signed_for_later_signer:
  assumes "po_type policy = Unanimous" "expires = now + (case po_expiry_ms policy of None \<Rightarrow> 86400000 | Some e \<Rightarrow> e)"
    and "sn_signer_role sig = role" "now' \<le> expires" "later \<le> expires" "address \<noteq> []"
  shows "\<exists>st s. get_authorization_status later i (run_ops coordinator_step
      [CreateRequest now i operation policy [role], RecordSignature now' i sig [], AddSigner i address role]
      (new_coordinator None)) = Inr st \<and>
    as_is_approved st \<and> as_signers st = [s] \<and> si_address s = address \<and> si_state s = StateSigned"
  using assms
  by (auto simp: create_authorization_request_def record_signer_signature_def add_signer_def new_coordinator_def
      request_or_throw_def is_request_expired_def find_signer_def throw_if_def put_signers_def update_conv'
      get_authorization_status_def authorization_status_of_def evaluate_policy_def Let_def cong: option.case_cong)

section \<open>Witnesses\<close>

definition example_policy :: "policy_type \<Rightarrow> int option \<Rightarrow> authorization_policy" where
  "example_policy ty t =
     \<lparr>po_type = ty, po_required_roles = [PayrollAdmin, TreasuryOperator], po_threshold = t, po_weights = None,
      po_expiry_ms = Some 100\<rparr>"

definition example_signature :: "signer_role \<Rightarrow> string \<Rightarrow> signature_payload" where
  "example_signature role nonce =
     \<lparr>sn_operation_id = ''op'', sn_policy_id = [], sn_signer_role = role, sn_timestamp = 0, sn_nonce = nonce\<rparr>"

definition example_ops :: "coordinator_op list" where
  "example_ops =
     [CreateRequest 0 ''r'' ''op'' (example_policy Threshold (Some 1)) [PayrollAdmin, TreasuryOperator],
      AddSigner ''r'' ''GA'' PayrollAdmin, RecordSignature 10 ''r'' (example_signature PayrollAdmin ''n'') ''GA'']"

lemmas example_run =
  example_ops_def example_policy_def example_signature_def create_authorization_request_def
  record_signer_signature_def add_signer_def new_coordinator_def request_or_throw_def is_request_expired_def
  find_signer_def throw_if_def put_signers_def get_authorization_status_def authorization_status_of_def
  evaluate_policy_def Let_def

lemma example_status:
  "\<exists>st r. get_authorization_status 20 ''r'' (run_ops coordinator_step example_ops (new_coordinator None)) = Inr st \<and>
    as_is_approved st \<and> dict_get (cd_requests (run_ops coordinator_step example_ops (new_coordinator None))) ''r'' = Some r \<and>
    po_type (rq_policy r) = Threshold \<and> po_threshold (rq_policy r) = Some 1 \<and> length (rq_signers r) = 2"
  by (simp add: example_run)

theorem threshold_approval_is_signed_witness:
  "\<exists>r. length (rq_signers r) = 2 \<and> \<not> is_request_expired 20 r \<and>
    1 \<le> int (length (filter (\<lambda>s. si_state s = StateSigned) (rq_signers r)))"
proof -
  obtain st r where r: "length (rq_signers r) = 2"
    "get_authorization_status 20 ''r'' (run_ops coordinator_step example_ops (new_coordinator None)) = Inr st"
    "as_is_approved st" "dict_get (cd_requests (run_ops coordinator_step example_ops (new_coordinator None))) ''r'' = Some r"
    "po_type (rq_policy r) = Threshold" "po_threshold (rq_policy r) = Some 1"
    using example_status by blast
  have "named_signers example_ops" by (simp add: named_signers_def example_ops_def)
  then show ?thesis using threshold_approval_is_signed [OF r(2-6)] r(1) by blast
qed

theorem slots_decided_once_witness:
  "\<exists>r r'. dict_get (cd_requests (run_ops coordinator_step example_ops (new_coordinator None))) ''r'' = Some r \<and>
    dict_get (cd_requests (run_ops coordinator_step [RecordRejection 30 ''r'' ''GA'' ''no'', RevokeSignature ''r'' ''GA'']
      (run_ops coordinator_step example_ops (new_coordinator None)))) ''r'' = Some r' \<and>
    list_all2 slot_after (rq_signers r) (rq_signers r')"
proof -
  obtain r where r: "dict_get (cd_requests (run_ops coordinator_step example_ops (new_coordinator None))) ''r'' = Some r"
    using example_status by blast
  moreover have "\<forall>op \<in> set [RecordRejection 30 ''r'' ''GA'' ''no'', RevokeSignature ''r'' ''GA'']. creates op \<longrightarrow> op_request op \<noteq> ''r''"
    by (simp add: creates_def)
  ultimately show ?thesis using slots_decided_once [OF r] by blast
qed

theorem rejections_count_as_consent_witness:
  "\<exists>r. length (rq_signers r) = 1 \<and> si_state (hd (rq_signers r)) = StateRejected \<and>
    as_is_approved (authorization_status_of 20 r)"
proof -
  define r where "r = \<lparr>rq_id = ''r'', rq_operation_id = ''op'', rq_policy = example_policy Unanimous None,
    rq_signers = [\<lparr>si_address = ''GA'', si_role = PayrollAdmin, si_state = StateRejected, si_signed_at = None,
      si_rejected_at = Some 10, si_rejection_reason = Some ''no''\<rparr>], rq_created_at = 0, rq_expires_at = 100\<rparr>"
  have "as_is_approved (authorization_status_of 20 r)"
    using rejections_count_as_consent [of r 20] by (simp add: r_def example_policy_def is_request_expired_def)
  then show ?thesis by (intro exI [of _ r]) (simp add: r_def)
qed

theorem unassigned_slot_signed_for_later_signer_witness:
  "\<exists>st s. get_authorization_status 20 ''r'' (run_ops coordinator_step
      [CreateRequest 0 ''r'' ''op'' (example_policy Unanimous None) [PayrollAdmin],
       RecordSignature 10 ''r'' (example_signature PayrollAdmin ''n'') [], AddSigner ''r'' ''GA'' PayrollAdmin]
      (new_coordinator None)) = Inr st \<and>
    as_is_approved st \<and> as_signers st = [s] \<and> si_address s = ''GA'' \<and> si_state s = StateSigned"
  by (rule unassigned_slot_signed_for_later_signer [where expires = 100])
    (simp_all add: example_policy_def example_signature_def)

end
