(* ===== verification/RoleDelegation.thy ===== *)
theory RoleDelegation
  imports SignerCoordination Systems
begin

text \<open>
  Handing over authority: the transfer of a privileged role in three phases
  (\<open>packages/core/src/authorization/roleTransfer.ts\<close>), the assignment of a delegated approver
  (\<open>authorization/delegatedApprover.ts\<close>) and the listing of role members (\<open>authorization/roles.ts\<close>). The clock and the
  random part of identifiers are arguments; times are whole milliseconds, or \<open>NaN\<close> where the code lets it pass.
\<close>

section \<open>Addresses\<close>

definition upper_letter :: "char \<Rightarrow> bool" where
  "upper_letter c = (let n = of_char c :: nat in 65 \<le> n \<and> n \<le> 90)"

text \<open>\<open>/^[GC][A-Z2-7]{55}$/\<close> and \<open>/^[GC][0-9A-Z]{55}$/\<close>\<close>

definition address_shape :: "(char \<Rightarrow> bool) \<Rightarrow> string \<Rightarrow> bool" where
  "address_shape p s =
     (case s of [] \<Rightarrow> False | c # cs \<Rightarrow> (c = CHR ''G'' \<or> c = CHR ''C'') \<and> length cs = 55 \<and> list_all p cs)"

definition is_valid_address :: "string \<Rightarrow> bool" where
  "is_valid_address = address_shape (\<lambda>c. upper_letter c \<or> (let n = of_char c :: nat in 50 \<le> n \<and> n \<le> 55))"

definition is_valid_stellar_address :: "string \<Rightarrow> bool" where
  "is_valid_stellar_address s = address_shape (\<lambda>c. is_digit c \<or> upper_letter c) (js_trim s)"

definition role_of_string :: "string \<Rightarrow> signer_role option" where
  "role_of_string s = find (\<lambda>r. role_string r = s) [PayrollAdmin, TreasuryOperator, ComplianceReviewer, EmergencyApprover]"

section \<open>Role transfers\<close>

datatype js_time = At int | NotANumber

definition time_reached :: "int \<Rightarrow> js_time \<Rightarrow> bool" where
  "time_reached now t = (case t of At e \<Rightarrow> now \<ge> e | NotANumber \<Rightarrow> False)"

definition add_window :: "int \<Rightarrow> js_time \<Rightarrow> js_time" where
  "add_window now w = (case w of At m \<Rightarrow> At (now + m) | NotANumber \<Rightarrow> NotANumber)"

definition default_acceptance_window_ms :: int where
  "default_acceptance_window_ms = 48 * 60 * 60 * 1000"

definition min_acceptance_window_ms :: int where
  "min_acceptance_window_ms = 5 * 60 * 1000"

definition max_acceptance_window_ms :: int where
  "max_acceptance_window_ms = 30 * 24 * 60 * 60 * 1000"

datatype transfer_status = TransferPending | TransferAccepted | TransferFinalized | TransferCancelled | TransferExpired

record role_transfer =
  rt_id :: string
  rt_role :: signer_role
  rt_from :: string
  rt_to :: string
  rt_status :: transfer_status
  rt_proposed_at :: int
  rt_expires_at :: js_time
  rt_accepted_at :: "int option"
  rt_finalized_at :: "int option"
  rt_cancelled_at :: "int option"
  rt_reason :: "string option"

record transfer_input =
  ti_role :: string
  ti_from :: string
  ti_to :: string
  ti_window :: "js_time option"
  ti_reason :: "string option"

datatype transfer_error =
  Invalid_role | Same_address | Invalid_window | Not_pending | Not_accepted | Already_finalized | Transfer_expired
| Not_current_holder | Not_nominee | Invalid_address

text \<open>The identifier and the next value of the module's counter.\<close>

definition generate_id :: "int \<Rightarrow> nat \<Rightarrow> string \<times> nat" where
  "generate_id now counter =
     (let next_counter = (counter + 1) mod 100000
      in (''rtx-'' @ radix_string 36 (nat now) @ ''-'' @ pad_start 5 CHR ''0'' (radix_string 36 next_counter), next_counter))"

definition window_out_of_range :: "js_time \<Rightarrow> bool" where
  "window_out_of_range w =
     (case w of At m \<Rightarrow> m < min_acceptance_window_ms \<or> m > max_acceptance_window_ms | NotANumber \<Rightarrow> False)"

definition propose_role_transfer ::
  "transfer_input \<Rightarrow> int \<Rightarrow> nat \<Rightarrow> (transfer_error, role_transfer \<times> nat) result" where
  "propose_role_transfer input now counter =
     (case role_of_string (ti_role input) of
        None \<Rightarrow> Inl Invalid_role
      | Some role \<Rightarrow>
          bind_result (throw_if (\<not> is_valid_address (ti_from input)) Invalid_address) (\<lambda>_.
          bind_result (throw_if (\<not> is_valid_address (ti_to input)) Invalid_address) (\<lambda>_.
          bind_result (throw_if (ti_from input = ti_to input) Same_address) (\<lambda>_.
          let window = (case ti_window input of None \<Rightarrow> At default_acceptance_window_ms | Some w \<Rightarrow> w) in
          bind_result (throw_if (window_out_of_range window) Invalid_window) (\<lambda>_.
          let (i, next_counter) = generate_id now counter in
          Inr (\<lparr>rt_id = i, rt_role = role, rt_from = ti_from input, rt_to = ti_to input, rt_status = TransferPending,
                rt_proposed_at = now, rt_expires_at = add_window now window, rt_accepted_at = None,
                rt_finalized_at = None, rt_cancelled_at = None, rt_reason = ti_reason input\<rparr>, next_counter))))))"

definition accept_role_transfer :: "role_transfer \<Rightarrow> string \<Rightarrow> int \<Rightarrow> (transfer_error, role_transfer) result" where
  "accept_role_transfer r acceptor now =
     bind_result (throw_if (rt_status r = TransferExpired \<or> time_reached now (rt_expires_at r)) Transfer_expired) (\<lambda>_.
     bind_result (throw_if (rt_status r \<noteq> TransferPending) Not_pending) (\<lambda>_.
     bind_result (throw_if (acceptor \<noteq> rt_to r) Not_nominee) (\<lambda>_.
     Inr (r\<lparr>rt_status := TransferAccepted, rt_accepted_at := Some now\<rparr>))))"

definition finalize_role_transfer :: "role_transfer \<Rightarrow> string \<Rightarrow> int \<Rightarrow> (transfer_error, role_transfer) result" where
  "finalize_role_transfer r finalizer now =
     bind_result (throw_if (rt_status r = TransferFinalized) Already_finalized) (\<lambda>_.
     bind_result (throw_if (rt_status r \<noteq> TransferAccepted) Not_accepted) (\<lambda>_.
     bind_result (throw_if (finalizer \<noteq> rt_from r) Not_current_holder) (\<lambda>_.
     Inr (r\<lparr>rt_status := TransferFinalized, rt_finalized_at := Some now\<rparr>))))"

definition cancel_role_transfer :: "role_transfer \<Rightarrow> string \<Rightarrow> int \<Rightarrow> (transfer_error, role_transfer) result" where
  "cancel_role_transfer r canceller now =
     bind_result (throw_if (rt_status r = TransferFinalized) Already_finalized) (\<lambda>_.
     bind_result (throw_if (rt_status r = TransferCancelled) Not_pending) (\<lambda>_.
     bind_result (throw_if (canceller \<noteq> rt_from r) Not_current_holder) (\<lambda>_.
     Inr (r\<lparr>rt_status := TransferCancelled, rt_cancelled_at := Some now\<rparr>))))"

definition resolve_transfer_status :: "role_transfer \<Rightarrow> int \<Rightarrow> transfer_status" where
  "resolve_transfer_status r now =
     (if rt_status r = TransferPending \<and> time_reached now (rt_expires_at r) then TransferExpired else rt_status r)"

text \<open>A record under the successful calls made on it.\<close>

datatype transfer_call = Accept string int | Finalize string int | Cancel string int

inductive transfer_step :: "role_transfer \<Rightarrow> transfer_call \<Rightarrow> role_transfer \<Rightarrow> bool" where
  step_accept: "accept_role_transfer r a now = Inr t \<Longrightarrow> transfer_step r (Accept a now) t"
| step_finalize: "finalize_role_transfer r a now = Inr t \<Longrightarrow> transfer_step r (Finalize a now) t"
| step_cancel: "cancel_role_transfer r a now = Inr t \<Longrightarrow> transfer_step r (Cancel a now) t"

inductive_simps transfer_step_simps:
  "transfer_step r (Accept a now) t" "transfer_step r (Finalize a now) t" "transfer_step r (Cancel a now) t"

lemma accept_iff:
  "accept_role_transfer r a now = Inr t \<longleftrightarrow>
     rt_status r = TransferPending \<and> \<not> time_reached now (rt_expires_at r) \<and> a = rt_to r \<and>
     t = r\<lparr>rt_status := TransferAccepted, rt_accepted_at := Some now\<rparr>"
  by (auto simp: accept_role_transfer_def result_simps)

lemma finalize_iff:
  "finalize_role_transfer r a now = Inr t \<longleftrightarrow>
     rt_status r = TransferAccepted \<and> a = rt_from r \<and>
     t = r\<lparr>rt_status := TransferFinalized, rt_finalized_at := Some now\<rparr>"
  by (auto simp: finalize_role_transfer_def result_simps)

lemma cancel_iff:
  "cancel_role_transfer r a now = Inr t \<longleftrightarrow>
     rt_status r \<noteq> TransferFinalized \<and> rt_status r \<noteq> TransferCancelled \<and> a = rt_from r \<and>
     t = r\<lparr>rt_status := TransferCancelled, rt_cancelled_at := Some now\<rparr>"
  by (auto simp: cancel_role_transfer_def result_simps)

lemmas transfer_calls = accept_iff finalize_iff cancel_iff

lemma no_step_when_done:
  "rt_status r = TransferFinalized \<or> rt_status r = TransferCancelled \<Longrightarrow> \<not> transfer_step r l t"
  by (cases l) (auto simp: transfer_step_simps transfer_calls)

lemma runs_when_done:
  "rt_status r = TransferFinalized \<or> rt_status r = TransferCancelled \<Longrightarrow>
     runs transfer_step r ls t \<longleftrightarrow> ls = [] \<and> t = r"
  by (cases ls) (auto simp: runs_Cons_iff no_step_when_done)

lemma runs_when_accepted:
  assumes "rt_status r = TransferAccepted"
  shows "runs transfer_step r ls t \<longleftrightarrow>
    ls = [] \<and> t = r \<or>
    (\<exists>f. ls = [Finalize (rt_from r) f] \<and> t = r\<lparr>rt_status := TransferFinalized, rt_finalized_at := Some f\<rparr>) \<or>
    (\<exists>c. ls = [Cancel (rt_from r) c] \<and> t = r\<lparr>rt_status := TransferCancelled, rt_cancelled_at := Some c\<rparr>)"
proof (cases ls)
  case (Cons l ks)
  then show ?thesis
    using assms by (cases l) (auto simp: runs_Cons_iff transfer_step_simps transfer_calls runs_when_done)
qed auto

definition accepted_at :: "int \<Rightarrow> role_transfer \<Rightarrow> role_transfer" where
  "accepted_at a r = r\<lparr>rt_status := TransferAccepted, rt_accepted_at := Some a\<rparr>"

definition finalized_at :: "int \<Rightarrow> role_transfer \<Rightarrow> role_transfer" where
  "finalized_at f r = r\<lparr>rt_status := TransferFinalized, rt_finalized_at := Some f\<rparr>"

definition cancelled_at :: "int \<Rightarrow> role_transfer \<Rightarrow> role_transfer" where
  "cancelled_at c r = r\<lparr>rt_status := TransferCancelled, rt_cancelled_at := Some c\<rparr>"

lemma propose_InrD:
  assumes "propose_role_transfer input now counter = Inr (p, counter')"
  shows "rt_status p = TransferPending" "rt_from p = ti_from input" "rt_to p = ti_to input" "ti_from input \<noteq> ti_to input"
    "is_valid_address (ti_from input)" "is_valid_address (ti_to input)"
    "rt_expires_at p = add_window now (case ti_window input of None \<Rightarrow> At default_acceptance_window_ms | Some w \<Rightarrow> w)"
    "\<not> window_out_of_range (case ti_window input of None \<Rightarrow> At default_acceptance_window_ms | Some w \<Rightarrow> w)"
  using assms
  by (auto simp: propose_role_transfer_def generate_id_def Let_def result_simps split: option.splits)

text \<open>
  C19: The successful calls on a proposed transfer form one of five histories: none; the holder's cancellation;
  the nominee's acceptance before the window ends; that followed by the holder's finalization; or that
  followed by the holder's cancellation. A role is handed over only after both parties, who differ, agreed in that
  order, and nothing follows a finalization or a cancellation.
\<close>
theorem transfer_histories:
  assumes "propose_role_transfer input now counter = Inr (p, counter')"
  shows "ti_from input \<noteq> ti_to input \<and>
    (runs transfer_step p ls t \<longleftrightarrow>
       ls = [] \<and> t = p \<or>
       (\<exists>c. ls = [Cancel (ti_from input) c] \<and> t = cancelled_at c p) \<or>
       (\<exists>a. \<not> time_reached a (rt_expires_at p) \<and>
          (ls = [Accept (ti_to input) a] \<and> t = accepted_at a p \<or>
           (\<exists>f. ls = [Accept (ti_to input) a, Finalize (ti_from input) f] \<and> t = finalized_at f (accepted_at a p)) \<or>
           (\<exists>c. ls = [Accept (ti_to input) a, Cancel (ti_from input) c] \<and> t = cancelled_at c (accepted_at a p)))))"
proof (cases ls)
  case Nil
  then show ?thesis using propose_InrD(4) [OF assms] by auto
next
  case (Cons l ks)
  then show ?thesis
    using propose_InrD(1-4) [OF assms]
    by (cases l) (auto simp: runs_Cons_iff transfer_step_simps transfer_calls runs_when_done runs_when_accepted
        accepted_at_def finalized_at_def cancelled_at_def)
qed

text \<open>
  An acceptance window that is not a number passes the range check and gives a proposal that never expires:
  the nominee can accept it at any time, while every numeric window ends within thirty days.
\<close>
theorem nan_window_never_expires:
  assumes "propose_role_transfer input now counter = Inr (p, counter')"
  shows "(ti_window input = Some NotANumber \<longrightarrow>
      (\<forall>later. resolve_transfer_status p later = TransferPending \<and> is_ok (accept_role_transfer p (ti_to input) later))) \<and>
    (ti_window input \<noteq> Some NotANumber \<longrightarrow>
      (\<exists>e. rt_expires_at p = At e \<and> now + min_acceptance_window_ms \<le> e \<and> e \<le> now + max_acceptance_window_ms))"
proof -
  note p = propose_InrD [OF assms]
  have numeric: "\<exists>m. (case ti_window input of None \<Rightarrow> At default_acceptance_window_ms | Some w \<Rightarrow> w) = At m"
    if "ti_window input \<noteq> Some NotANumber"
    using that by (cases "ti_window input") (auto, metis js_time.exhaust)
  show ?thesis
  proof (intro conjI impI allI)
    fix later
    assume "ti_window input = Some NotANumber"
    then have "\<not> time_reached later (rt_expires_at p)" using p(7) by (simp add: add_window_def time_reached_def)
    then show "resolve_transfer_status p later = TransferPending" "is_ok (accept_role_transfer p (ti_to input) later)"
      using p(1,3) by (auto simp: resolve_transfer_status_def is_ok_iff accept_iff)
  next
    assume "ti_window input \<noteq> Some NotANumber"
    then show "\<exists>e. rt_expires_at p = At e \<and> now + min_acceptance_window_ms \<le> e \<and> e \<le> now + max_acceptance_window_ms"
      using numeric p(7,8) by (auto simp: add_window_def window_out_of_range_def)
  qed
qed

section \<open>Delegated approvers\<close>

text \<open>A time is \<open>None\<close> when it is not a finite number.\<close>

record delegation_request =
  dr_assignment_id :: "string option"
  dr_original :: string
  dr_delegated :: string
  dr_workflow_id :: string
  dr_from :: "int option"
  dr_until :: "int option"
  dr_original_role :: "signer_role option"

record delegation =
  de_assignment_id :: string
  de_original :: string
  de_delegated :: string
  de_workflow_id :: string
  de_from :: int
  de_until :: int
  de_original_role :: "signer_role option"

datatype delegation_error =
  MISSING_FIELD | INVALID_ORIGINAL_APPROVER | INVALID_DELEGATED_APPROVER | INVALID_WORKFLOW_ID | INVALID_DATE_RANGE
| EFFECTIVE_FROM_TOO_OLD | EFFECTIVE_UNTIL_TOO_FAR | SAME_APPROVER_ADDRESSES | DURATION_EXCEEDS_MAXIMUM
| ORIGINAL_ROLE_CANNOT_DELEGATE

definition max_delegation_duration_ms :: int where
  "max_delegation_duration_ms = 30 * 24 * 60 * 60 * 1000"

definition max_effective_from_past_ms :: int where
  "max_effective_from_past_ms = 24 * 60 * 60 * 1000"

definition max_effective_until_future_ms :: int where
  "max_effective_until_future_ms = 90 * 24 * 60 * 60 * 1000"

definition delegation_authorized_roles :: "signer_role list" where
  "delegation_authorized_roles = [PayrollAdmin, TreasuryOperator, ComplianceReviewer]"

text \<open>The two times, once they are known to be finite.\<close>

definition finite_times :: "delegation_request \<Rightarrow> (delegation_error, int \<times> int) result" where
  "finite_times q =
     (case dr_from q of None \<Rightarrow> Inl MISSING_FIELD
      | Some f \<Rightarrow> (case dr_until q of None \<Rightarrow> Inl MISSING_FIELD | Some u \<Rightarrow> Inr (f, u)))"

definition assert_valid_delegation :: "int \<Rightarrow> delegation_request \<Rightarrow> (delegation_error, int \<times> int) result" where
  "assert_valid_delegation now q =
     bind_result (throw_if (dr_original q = []) MISSING_FIELD) (\<lambda>_.
     bind_result (throw_if (dr_delegated q = []) MISSING_FIELD) (\<lambda>_.
     bind_result (throw_if (dr_workflow_id q = []) MISSING_FIELD) (\<lambda>_.
     bind_result (finite_times q) (\<lambda>(f, u).
     bind_result (throw_if (\<not> is_valid_stellar_address (dr_original q)) INVALID_ORIGINAL_APPROVER) (\<lambda>_.
     bind_result (throw_if (\<not> is_valid_stellar_address (dr_delegated q)) INVALID_DELEGATED_APPROVER) (\<lambda>_.
     bind_result (throw_if (js_trim (dr_original q) = js_trim (dr_delegated q)) SAME_APPROVER_ADDRESSES) (\<lambda>_.
     bind_result (throw_if (js_trim (dr_workflow_id q) = []) INVALID_WORKFLOW_ID) (\<lambda>_.
     bind_result (throw_if (f \<ge> u) INVALID_DATE_RANGE) (\<lambda>_.
     bind_result (throw_if (now - f > max_effective_from_past_ms) EFFECTIVE_FROM_TOO_OLD) (\<lambda>_.
     bind_result (throw_if (u - now > max_effective_until_future_ms) EFFECTIVE_UNTIL_TOO_FAR) (\<lambda>_.
     bind_result (throw_if (u - f > max_delegation_duration_ms) DURATION_EXCEEDS_MAXIMUM) (\<lambda>_.
     bind_result (throw_if (\<exists>r. dr_original_role q = Some r \<and> r \<notin> set delegation_authorized_roles)
       ORIGINAL_ROLE_CANNOT_DELEGATE) (\<lambda>_.
     Inr (f, u))))))))))))))"

definition build_delegation :: "int \<Rightarrow> string \<Rightarrow> delegation_request \<Rightarrow> (delegation_error, delegation) result" where
  "build_delegation now generated q =
     bind_result (assert_valid_delegation now q) (\<lambda>(f, u).
     let given = (case dr_assignment_id q of None \<Rightarrow> [] | Some i \<Rightarrow> js_trim i) in
     Inr \<lparr>de_assignment_id = (if given \<noteq> [] then given else generated),
          de_original = js_trim (dr_original q), de_delegated = js_trim (dr_delegated q),
          de_workflow_id = js_trim (dr_workflow_id q), de_from = f, de_until = u,
          de_original_role = dr_original_role q\<rparr>)"

definition is_delegation_active :: "delegation \<Rightarrow> int \<Rightarrow> bool" where
  "is_delegation_active d now = (de_from d \<le> now \<and> de_until d > now)"

datatype delegation_expiry = DelegationActive | DelegationExpiringSoon | DelegationExpired | DelegationNotYetActive

definition delegation_expiry_state :: "delegation \<Rightarrow> int \<Rightarrow> int \<Rightarrow> delegation_expiry" where
  "delegation_expiry_state d now soon =
     (if now < de_from d then DelegationNotYetActive
      else if now \<ge> de_until d then DelegationExpired
      else let remaining = de_until d - now in
        if remaining \<le> soon then DelegationExpiringSoon else DelegationActive)"

definition format_duration_ms :: "int \<Rightarrow> string" where
  "format_duration_ms t =
     (let ms = (if t < 0 then 0 else t); seconds = ms div 1000; minutes = seconds div 60; hours = minutes div 60;
          days = hours div 24
      in if days > 0 then int_string days @ ''d '' @ int_string (hours mod 24) @ ''h''
         else if hours > 0 then int_string hours @ ''h '' @ int_string (minutes mod 60) @ ''m''
         else if minutes > 0 then int_string minutes @ ''m '' @ int_string (seconds mod 60) @ ''s''
         else int_string seconds @ ''s'')"

lemma build_delegation_iff:
  "build_delegation now generated q = Inr d \<longleftrightarrow>
     (\<exists>f u. dr_from q = Some f \<and> dr_until q = Some u \<and>
        is_valid_stellar_address (dr_original q) \<and> is_valid_stellar_address (dr_delegated q) \<and>
        js_trim (dr_original q) \<noteq> js_trim (dr_delegated q) \<and> js_trim (dr_workflow_id q) \<noteq> [] \<and>
        f < u \<and> now - max_effective_from_past_ms \<le> f \<and> u \<le> now + max_effective_until_future_ms \<and>
        u \<le> f + max_delegation_duration_ms \<and> dr_original_role q \<noteq> Some EmergencyApprover \<and>
        d = \<lparr>de_assignment_id =
               (let given = (case dr_assignment_id q of None \<Rightarrow> [] | Some i \<Rightarrow> js_trim i)
                in if given \<noteq> [] then given else generated),
             de_original = js_trim (dr_original q), de_delegated = js_trim (dr_delegated q),
             de_workflow_id = js_trim (dr_workflow_id q), de_from = f, de_until = u,
             de_original_role = dr_original_role q\<rparr>)"
proof -
  have shapes: "is_valid_stellar_address [] = False" "js_trim [] = []"
    by (simp_all add: is_valid_stellar_address_def address_shape_def js_trim_def)
  have role: "(\<exists>r. dr_original_role q = Some r \<and> r \<notin> set delegation_authorized_roles) \<longleftrightarrow>
      dr_original_role q = Some EmergencyApprover"
    by (auto simp: delegation_authorized_roles_def) (metis signer_role.exhaust)
  show ?thesis
    unfolding build_delegation_def assert_valid_delegation_def finite_times_def role
    by (cases "dr_from q"; cases "dr_until q") (auto simp: result_simps shapes Let_def)
qed

text \<open>
  A delegation is built only between two different well-formed addresses, for a named workflow, for at most
  thirty days and never by an emergency approver; it is active exactly in its half-open interval, which is when
  its expiry state is active or expiring soon.
\<close>
theorem delegation_sound:
  assumes "build_delegation now generated q = Inr d"
  shows "is_valid_stellar_address (de_original d) \<and> is_valid_stellar_address (de_delegated d) \<and>
    de_original d \<noteq> de_delegated d \<and> de_workflow_id d \<noteq> [] \<and> de_original_role d \<noteq> Some EmergencyApprover \<and>
    de_from d < de_until d \<and> de_until d - de_from d \<le> max_delegation_duration_ms \<and>
    (is_delegation_active d t \<longleftrightarrow> t \<in> {de_from d..<de_until d}) \<and>
    (is_delegation_active d t \<longleftrightarrow> delegation_expiry_state d t soon \<in> {DelegationActive, DelegationExpiringSoon})"
proof -
  have trim: "is_valid_stellar_address (js_trim s) = is_valid_stellar_address s" for s
    by (simp add: is_valid_stellar_address_def)
  have "is_valid_stellar_address (de_original d)" "is_valid_stellar_address (de_delegated d)"
    "de_original d \<noteq> de_delegated d" "de_workflow_id d \<noteq> []" "de_original_role d \<noteq> Some EmergencyApprover"
    "de_from d < de_until d" "de_until d - de_from d \<le> max_delegation_duration_ms"
    using assms unfolding build_delegation_iff by (elim exE conjE, simp add: trim)+
  then show ?thesis by (simp add: is_delegation_active_def delegation_expiry_state_def Let_def)
qed

text \<open>
  That a delegation has not ended already is not checked: a request accepted once is accepted up to a day after
  its start, also when its end has passed and the assignment it gives will never be active.
\<close>
theorem ended_delegation_accepted:
  assumes "build_delegation now generated q = Inr d" "now \<le> later" "later \<le> de_from d + max_effective_from_past_ms"
  shows "build_delegation later generated q = Inr d \<and>
    (de_until d \<le> later \<longrightarrow> (\<forall>t \<ge> later. \<not> is_delegation_active d t))"
  using assms unfolding build_delegation_iff by (auto simp: is_delegation_active_def)

section \<open>Members of the roles\<close>

text \<open>The groups in the order of \<open>SIGNER_ROLE_GROUPS\<close>; the raw entries are what the caller's read returned.\<close>

definition signer_role_groups :: "signer_role list" where
  "signer_role_groups = [PayrollAdmin, TreasuryOperator, ComplianceReviewer, EmergencyApprover]"

record role_assignment =
  ra_role :: string
  ra_address :: string
  ra_assigned_at :: "int option"

definition list_admin_roles :: "role_assignment list option \<Rightarrow> (signer_role, (string \<times> int option) list) dict \<times> nat" where
  "list_admin_roles raw =
     fold (\<lambda>entry (roles, total_members).
        case role_of_string (ra_role entry) of
          None \<Rightarrow> (roles, total_members)
        | Some role \<Rightarrow>
            (dict_put role ((case dict_get roles role of None \<Rightarrow> [] | Some ms \<Rightarrow> ms) @ [(ra_address entry, ra_assigned_at entry)]) roles,
             total_members + 1))
       (case raw of None \<Rightarrow> [] | Some entries \<Rightarrow> entries)
       (map (\<lambda>r. (r, [])) signer_role_groups, 0)"

lemma list_admin_roles_groups:
  "map fst (fst (list_admin_roles raw)) = signer_role_groups \<and>
   (\<forall>role. dict_get (fst (list_admin_roles raw)) role =
      Some (map (\<lambda>e. (ra_address e, ra_assigned_at e))
        (filter (\<lambda>e. role_of_string (ra_role e) = Some role) (case raw of None \<Rightarrow> [] | Some entries \<Rightarrow> entries)))) \<and>
   snd (list_admin_roles raw) =
     length (filter (\<lambda>e. role_of_string (ra_role e) \<noteq> None) (case raw of None \<Rightarrow> [] | Some entries \<Rightarrow> entries))"
proof -
  let ?step = "\<lambda>entry (roles, total_members).
        case role_of_string (ra_role entry) of
          None \<Rightarrow> (roles, total_members)
        | Some role \<Rightarrow>
            (dict_put role ((case dict_get roles role of None \<Rightarrow> [] | Some ms \<Rightarrow> ms) @ [(ra_address entry, ra_assigned_at entry)]) roles,
             total_members + 1)"
  have keys: "map fst (dict_put k v m) = map fst m" if "k \<in> set (map fst m)" for k v and m :: "(signer_role, (string \<times> int option) list) dict"
    using that by (induction m) auto
  have every: "role \<in> set signer_role_groups" for role
    by (cases role) (simp_all add: signer_role_groups_def)
  have run: "map fst (fst (fold ?step es (m, n))) = signer_role_groups \<and>
      (\<forall>role. dict_get (fst (fold ?step es (m, n))) role =
        Some (the (dict_get m role) @ map (\<lambda>e. (ra_address e, ra_assigned_at e))
          (filter (\<lambda>e. role_of_string (ra_role e) = Some role) es))) \<and>
      snd (fold ?step es (m, n)) = n + length (filter (\<lambda>e. role_of_string (ra_role e) \<noteq> None) es)"
    if "map fst m = signer_role_groups" for es m n
    using that
  proof (induction es arbitrary: m n)
    case Nil
    have "\<exists>v. dict_get m role = Some v" for role
      using every [of role] Nil by (metis map_of_eq_None_iff not_None_eq set_map)
    then show ?case using Nil by auto
  next
    case (Cons e es)
    show ?case
    proof (cases "role_of_string (ra_role e)")
      case None
      then show ?thesis using Cons by simp
    next
      case (Some role)
      then have role: "role \<in> set (map fst m)" using every Cons.prems by simp
      then obtain v where v: "dict_get m role = Some v" by (metis map_of_eq_None_iff not_None_eq set_map)
      show ?thesis
        using Cons.IH [of "dict_put role (v @ [(ra_address e, ra_assigned_at e)]) m" "n + 1"] Cons.prems keys [OF role] Some v
        by (auto simp: update_conv')
    qed
  qed
  have map_of_map_pair_const: "dict_get (map (\<lambda>r. (r, [])) ks) role = (if role \<in> set ks then Some [] else None)"
    for ks :: "signer_role list" and role
    by (induction ks) auto
  have "map fst (map (\<lambda>r. (r, [])) signer_role_groups :: (signer_role, (string \<times> int option) list) dict) = signer_role_groups"
    by (simp add: comp_def)
  from run [OF this, of "case raw of None \<Rightarrow> [] | Some entries \<Rightarrow> entries" 0] every show ?thesis
    unfolding list_admin_roles_def by (simp add: map_of_map_pair_const)
qed

section \<open>Witnesses\<close>

definition example_address :: "char \<Rightarrow> string" where
  "example_address c = CHR ''G'' # replicate 55 c"

definition example_input :: "js_time option \<Rightarrow> transfer_input" where
  "example_input w =
     \<lparr>ti_role = ''payroll_admin'', ti_from = example_address CHR ''A'', ti_to = example_address CHR ''B'',
      ti_window = w, ti_reason = None\<rparr>"

lemma example_proposal: "\<exists>p. propose_role_transfer (example_input w) 0 0 = Inr (p, 1)" if "w \<in> {None, Some NotANumber}"
proof -
  have "is_valid_address (example_address CHR ''A'')" "is_valid_address (example_address CHR ''B'')"
    "example_address CHR ''A'' \<noteq> example_address CHR ''B''" "role_of_string ''payroll_admin'' = Some PayrollAdmin"
    by code_simp+
  then show ?thesis
    using that
    by (auto simp: propose_role_transfer_def example_input_def generate_id_def window_out_of_range_def Let_def
        default_acceptance_window_ms_def min_acceptance_window_ms_def max_acceptance_window_ms_def)
qed

theorem transfer_histories_witness:
  "\<exists>p. runs transfer_step p
     [Accept (ti_to (example_input None)) 1000, Finalize (ti_from (example_input None)) 2000] (finalized_at 2000 (accepted_at 1000 p))"
proof -
  obtain p where p: "propose_role_transfer (example_input None) 0 0 = Inr (p, 1)" using example_proposal by blast
  then have "\<not> time_reached 1000 (rt_expires_at p)"
    using propose_InrD(7) [OF p]
    by (simp add: example_input_def add_window_def time_reached_def default_acceptance_window_ms_def)
  with transfer_histories [OF p, of "[Accept (ti_to (example_input None)) 1000, Finalize (ti_from (example_input None)) 2000]"
      "finalized_at 2000 (accepted_at 1000 p)"]
  show ?thesis by blast
qed

theorem nan_window_never_expires_witness:
  "\<exists>p. resolve_transfer_status p (10 ^ 15) = TransferPending \<and>
    propose_role_transfer (example_input (Some NotANumber)) 0 0 = Inr (p, 1)"
proof -
  obtain p where p: "propose_role_transfer (example_input (Some NotANumber)) 0 0 = Inr (p, 1)"
    using example_proposal by blast
  from nan_window_never_expires [OF p] p show ?thesis by (auto simp: example_input_def)
qed

definition example_delegation_request :: delegation_request where
  "example_delegation_request =
     \<lparr>dr_assignment_id = None, dr_original = example_address CHR ''A'', dr_delegated = example_address CHR ''B'',
      dr_workflow_id = ''run-1'', dr_from = Some 0, dr_until = Some 1000, dr_original_role = Some PayrollAdmin\<rparr>"

lemma example_delegation:
  "\<exists>d. build_delegation 0 ''id'' example_delegation_request = Inr d \<and> de_from d = 0 \<and> de_until d = 1000"
proof -
  have "is_valid_stellar_address (example_address CHR ''A'')" "is_valid_stellar_address (example_address CHR ''B'')"
    "js_trim (example_address CHR ''A'') \<noteq> js_trim (example_address CHR ''B'')" "js_trim ''run-1'' \<noteq> []"
    by code_simp+
  then show ?thesis
    unfolding build_delegation_iff
    by (simp add: example_delegation_request_def max_effective_from_past_ms_def max_effective_until_future_ms_def
        max_delegation_duration_ms_def)
qed

theorem delegation_sound_witness:
  "\<exists>d. build_delegation 0 ''id'' example_delegation_request = Inr d \<and> is_delegation_active d 999 \<and> \<not> is_delegation_active d 1000"
proof -
  obtain d where d: "build_delegation 0 ''id'' example_delegation_request = Inr d" "de_from d = 0" "de_until d = 1000"
    using example_delegation by blast
  then show ?thesis using delegation_sound [OF d(1), of 999] delegation_sound [OF d(1), of 1000] by auto
qed

theorem ended_delegation_accepted_witness:
  "\<exists>d. build_delegation 2000 ''id'' example_delegation_request = Inr d \<and> (\<forall>t \<ge> 2000. \<not> is_delegation_active d t)"
proof -
  obtain d where d: "build_delegation 0 ''id'' example_delegation_request = Inr d" "de_from d = 0" "de_until d = 1000"
    using example_delegation by blast
  then show ?thesis
    using ended_delegation_accepted [OF d(1), of 2000] by (auto simp: max_effective_from_past_ms_def)
qed

end
