(* ===== verification/Preflight.thy ===== *)
theory Preflight
  imports QuorumSessions "HOL-Library.Product_Lexorder"
begin

text \<open>
  Checks before a payroll run: the readiness to generate a proof
  (\<open>packages/core/src/proof-readiness/checker.ts\<close>) and the execution planner (\<open>planner/PayrollExecutionPlanner.ts\<close>,
  \<open>planner/versionCompare.ts\<close>). Of a check the identifier, the status and the problems found are kept, not the
  texts composed of them. The file system, \<open>fs.statSync\<close> and the URL parser are parameters; the settlement threshold is a
  fraction of integers.
\<close>

section \<open>Versions\<close>

definition parse_version :: "string \<Rightarrow> nat \<times> nat \<times> nat" where
  "parse_version version =
     (let core = takeWhile (\<lambda>c. c \<noteq> CHR ''-'' \<and> c \<noteq> CHR ''+'') version;
          parts = map (\<lambda>part. dec_value (takeWhile is_digit (dropWhile js_space part))) (js_split CHR ''.'' core);
          at = (\<lambda>i. if i < length parts then parts ! i else 0)
      in (at 0, at 1, at 2))"

definition compare_versions :: "string \<Rightarrow> string \<Rightarrow> int" where
  "compare_versions a b =
     (case (parse_version a, parse_version b) of
        ((a_major, a_minor, a_patch), (b_major, b_minor, b_patch)) \<Rightarrow>
          if a_major \<noteq> b_major then (if a_major > b_major then 1 else -1)
          else if a_minor \<noteq> b_minor then (if a_minor > b_minor then 1 else -1)
          else if a_patch \<noteq> b_patch then (if a_patch > b_patch then 1 else -1)
          else 0)"

definition is_version_in_range :: "string \<Rightarrow> string \<Rightarrow> string \<Rightarrow> bool" where
  "is_version_in_range version min_version max_version =
     (compare_versions version min_version \<ge> 0 \<and> compare_versions version max_version \<le> 0)"

lemma compare_versions_order:
  "compare_versions a b \<ge> 0 \<longleftrightarrow> parse_version b \<le> parse_version a"
  "compare_versions a b \<le> 0 \<longleftrightarrow> parse_version a \<le> parse_version b"
  "compare_versions a b < 0 \<longleftrightarrow> parse_version a < parse_version b"
  by (auto simp: compare_versions_def split: prod.splits)

section \<open>Readiness of the proof generator\<close>

datatype artifact_source = LocalSource string | RemoteSource string

record proof_config =
  pc_wasm_url :: string
  pc_zkey_url :: string
  pc_wasm_source :: "artifact_source option"
  pc_zkey_source :: "artifact_source option"
  pc_expected_wasm_hash :: "string option"
  pc_expected_zkey_hash :: "string option"
  pc_artifact_cache_ttl :: "int option"
  pc_max_concurrency :: "jsnum option"

datatype artifact_kind = Wasm | Zkey

fun kind_name :: "artifact_kind \<Rightarrow> string" where
  "kind_name Wasm = ''wasm''"
| "kind_name Zkey = ''zkey''"

definition resolve_artifact_location :: "proof_config \<Rightarrow> artifact_kind \<Rightarrow> string" where
  "resolve_artifact_location config kind =
     (let source = (case kind of Wasm \<Rightarrow> pc_wasm_source config | Zkey \<Rightarrow> pc_zkey_source config)
      in case source of
           Some (LocalSource path) \<Rightarrow> path
         | Some (RemoteSource url) \<Rightarrow> url
         | None \<Rightarrow> (case kind of Wasm \<Rightarrow> pc_wasm_url config | Zkey \<Rightarrow> pc_zkey_url config))"

definition is_remote :: "string \<Rightarrow> bool" where
  "is_remote location = (is_prefix ''http://'' (js_lower location) \<or> is_prefix ''https://'' (js_lower location))"

text \<open>The environment: \<open>new URL\<close> succeeds, the path name of a \<open>file:\<close> URL, and what a path leads to; no file system off Node.\<close>

datatype file_stat = RegularFile nat | NotAFile | NoAccess | NotFound

record proof_environment =
  pe_url_ok :: "string \<Rightarrow> bool"
  pe_url_pathname :: "string \<Rightarrow> string option"
  pe_stat :: "(string \<Rightarrow> file_stat) option"

datatype artifact_problem =
  NotConfigured artifact_kind | UrlMalformed artifact_kind | FileUrlMalformed artifact_kind | WrongExtension artifact_kind
| PathNotFile artifact_kind | FileEmpty artifact_kind | FileNotReadable artifact_kind | FileNotFound artifact_kind

definition local_problems :: "proof_environment \<Rightarrow> bool \<Rightarrow> artifact_kind \<Rightarrow> string \<Rightarrow> artifact_problem list" where
  "local_problems env check_files kind path =
     (if ends_with (js_lower path) (CHR ''.'' # kind_name kind) then [] else [WrongExtension kind]) @
     (if \<not> check_files then []
      else case pe_stat env of
        None \<Rightarrow> []
      | Some stat \<Rightarrow>
          (case stat path of
             RegularFile n \<Rightarrow> if n = 0 then [FileEmpty kind] else []
           | NotAFile \<Rightarrow> [PathNotFile kind]
           | NoAccess \<Rightarrow> [FileNotReadable kind]
           | NotFound \<Rightarrow> [FileNotFound kind]))"

definition artifact_problems :: "proof_environment \<Rightarrow> proof_config \<Rightarrow> bool \<Rightarrow> artifact_kind \<Rightarrow> artifact_problem list" where
  "artifact_problems env config check_files kind =
     (let location = resolve_artifact_location config kind in
      if js_trim location = [] then [NotConfigured kind]
      else if is_remote location then (if pe_url_ok env location then [] else [UrlMalformed kind])
      else if is_prefix ''file://'' location then
        (case pe_url_pathname env location of
           None \<Rightarrow> [FileUrlMalformed kind]
         | Some path \<Rightarrow> local_problems env check_files kind path)
      else local_problems env check_files kind location)"

definition check_artifact_availability :: "proof_environment \<Rightarrow> proof_config \<Rightarrow> bool \<Rightarrow> bool" where
  "check_artifact_availability env config check_files =
     (concat (map (artifact_problems env config check_files) [Wasm, Zkey]) = [])"

text \<open>\<open>TOther\<close> is a function or a symbol, of no type a field can be expected to have.\<close>

datatype value_type = TString | TNumber | TBigint | TBoolean | TObject | TArray | TNull | TUndefined | TOther

text \<open>A witness is what was given for it: nothing, something that is no plain object, or the types of its own fields.\<close>

datatype witness = NoWitness | NotAnObject | WitnessObject "(string \<times> value_type) list"

record required_field =
  rf_name :: string
  rf_type :: "value_type option"

definition missing_fields :: "(string \<times> value_type) list \<Rightarrow> required_field list \<Rightarrow> string list" where
  "missing_fields input required =
     map rf_name (filter (\<lambda>f. dict_get input (rf_name f) \<in> {None, Some TNull, Some TUndefined}) required)"

definition mistyped_fields :: "(string \<times> value_type) list \<Rightarrow> required_field list \<Rightarrow> string list" where
  "mistyped_fields input required =
     map rf_name (filter (\<lambda>f. dict_get input (rf_name f) \<notin> {None, Some TNull, Some TUndefined} \<and>
       rf_type f \<noteq> None \<and> dict_get input (rf_name f) \<noteq> rf_type f) required)"

definition check_input_shape :: "witness \<Rightarrow> required_field list option \<Rightarrow> bool" where
  "check_input_shape input required_fields =
     (case input of
        NoWitness \<Rightarrow> False
      | NotAnObject \<Rightarrow> False
      | WitnessObject fs \<Rightarrow>
          let required = (case required_fields of None \<Rightarrow> [] | Some rs \<Rightarrow> rs)
          in missing_fields fs required = [] \<and> mistyped_fields fs required = [])"

text \<open>\<open>/^[0-9a-f]{64}$/i\<close>\<close>

definition is_sha256_hex :: "string \<Rightarrow> bool" where
  "is_sha256_hex s = (length s = 64 \<and> list_all (\<lambda>c. digit_value c < 16) s)"

datatype environment_problem = NoArtifacts | BadConcurrency | BadCacheTtl | BadWasmHash | BadZkeyHash

definition environment_problems :: "proof_config \<Rightarrow> environment_problem list" where
  "environment_problems config =
     (if resolve_artifact_location config Wasm = [] \<and> resolve_artifact_location config Zkey = [] then [NoArtifacts] else []) @
     (case pc_max_concurrency config of
        None \<Rightarrow> [] | Some NonInteger \<Rightarrow> [BadConcurrency] | Some (Whole n) \<Rightarrow> if n < 1 then [BadConcurrency] else []) @
     (case pc_artifact_cache_ttl config of None \<Rightarrow> [] | Some t \<Rightarrow> if t < 0 then [BadCacheTtl] else []) @
     (case pc_expected_wasm_hash config of None \<Rightarrow> [] | Some h \<Rightarrow> if is_sha256_hex h then [] else [BadWasmHash]) @
     (case pc_expected_zkey_hash config of None \<Rightarrow> [] | Some h \<Rightarrow> if is_sha256_hex h then [] else [BadZkeyHash])"

definition check_environment_settings :: "proof_config \<Rightarrow> bool" where
  "check_environment_settings config = (environment_problems config = [])"

definition supported_proof_modes :: "string list" where
  "supported_proof_modes = [''groth16'']"

definition check_proof_mode :: "string option \<Rightarrow> string list \<Rightarrow> bool" where
  "check_proof_mode mode supported = ((case mode of None \<Rightarrow> supported ! 0 | Some m \<Rightarrow> m) \<in> set supported)"

record proof_subject =
  ps_config :: proof_config
  ps_input :: witness
  ps_mode :: "string option"

record readiness_options =
  ro_required_input_fields :: "required_field list option"
  ro_supported_modes :: "string list option"
  ro_check_artifact_files :: "bool option"

datatype readiness_check_id = Artifact_availability | Input_shape | Environment_settings | Proof_mode

record readiness_result =
  rr_ready :: bool
  rr_checks :: "(readiness_check_id \<times> bool) list"
  rr_failures :: "readiness_check_id list"

definition check_proof_readiness :: "proof_environment \<Rightarrow> proof_subject \<Rightarrow> readiness_options \<Rightarrow> readiness_result" where
  "check_proof_readiness env subject options =
     (let modes = (case ro_supported_modes options of
            None \<Rightarrow> supported_proof_modes
          | Some ms \<Rightarrow> if length ms > 0 then ms else supported_proof_modes);
          check_files = (case ro_check_artifact_files options of None \<Rightarrow> True | Some b \<Rightarrow> b);
          checks =
            [(Artifact_availability, check_artifact_availability env (ps_config subject) check_files),
             (Input_shape, check_input_shape (ps_input subject) (ro_required_input_fields options)),
             (Environment_settings, check_environment_settings (ps_config subject)),
             (Proof_mode, check_proof_mode (ps_mode subject) modes)];
          failures = map fst (filter (\<lambda>c. \<not> snd c) checks)
      in \<lparr>rr_ready = (length failures = 0), rr_checks = checks, rr_failures = failures\<rparr>)"

section \<open>The plan\<close>

datatype plan_status = PlanPass | PlanWarn | PlanFail

datatype plan_check_id =
  Contract_version_supported | Contract_features_available | Treasury_sufficient | Proof_provider_ready
| Settlement_window_status | Batch_commitment_consistency | Authorization_signatures

record plan_check =
  pl_id :: plan_check_id
  pl_status :: plan_status

definition check_item :: "plan_check_id \<Rightarrow> plan_status \<Rightarrow> plan_check" where
  "check_item i s = \<lparr>pl_id = i, pl_status = s\<rparr>"

record contract_input =
  ci_current_version :: string
  ci_min_version :: string
  ci_max_version :: string
  ci_recommended_version :: "string option"
  ci_available_features :: "string list option"
  ci_required_features :: "string list option"

definition build_contract_checks :: "contract_input option \<Rightarrow> plan_check list" where
  "build_contract_checks contract =
     (case contract of
        None \<Rightarrow> [check_item Contract_version_supported PlanWarn]
      | Some c \<Rightarrow>
          let in_range = is_version_in_range (ci_current_version c) (ci_min_version c) (ci_max_version c);
              version_check =
                (if \<not> in_range then PlanFail
                 else if truthy (ci_recommended_version c) \<and> Some (ci_current_version c) \<noteq> ci_recommended_version c then
                   (if compare_versions (ci_current_version c) (the (ci_recommended_version c)) < 0 then PlanWarn else PlanPass)
                 else PlanPass);
              feature_checks =
                (case ci_required_features c of
                   None \<Rightarrow> []
                 | Some required \<Rightarrow>
                     if length required > 0 then
                       let available = (case ci_available_features c of None \<Rightarrow> [] | Some fs \<Rightarrow> fs);
                           missing = filter (\<lambda>f. f \<notin> set available) required
                       in [check_item Contract_features_available (if length missing = 0 then PlanPass else PlanFail)]
                     else [])
          in check_item Contract_version_supported version_check # feature_checks)"

record treasury_input =
  tr_balance :: int
  tr_asset :: string
  tr_required_amount :: int
  tr_required_asset :: string
  tr_min_reserve :: "int option"

definition build_treasury_check :: "treasury_input option \<Rightarrow> plan_check" where
  "build_treasury_check treasury =
     check_item Treasury_sufficient
       (case treasury of
          None \<Rightarrow> PlanWarn
        | Some t \<Rightarrow>
            if tr_asset t \<noteq> tr_required_asset t then PlanFail
            else if tr_balance t < tr_required_amount t then PlanFail
            else
              let remaining = tr_balance t - tr_required_amount t
              in case tr_min_reserve t of
                   Some reserve \<Rightarrow> if remaining < reserve then PlanWarn else PlanPass
                 | None \<Rightarrow> PlanPass)"

record proof_input =
  pi_subject :: "proof_subject option"
  pi_options :: "readiness_options option"

definition default_readiness_options :: readiness_options where
  "default_readiness_options =
     \<lparr>ro_required_input_fields = None, ro_supported_modes = None, ro_check_artifact_files = None\<rparr>"

definition build_proof_check :: "proof_environment \<Rightarrow> proof_input option \<Rightarrow> plan_check" where
  "build_proof_check env proof =
     check_item Proof_provider_ready
       (case proof of
          None \<Rightarrow> PlanFail
        | Some p \<Rightarrow>
            (case pi_subject p of
               None \<Rightarrow> PlanFail
             | Some subject \<Rightarrow>
                 let options = (case pi_options p of None \<Rightarrow> default_readiness_options | Some o1 \<Rightarrow> o1)
                 in if rr_ready (check_proof_readiness env subject options) then PlanPass else PlanFail))"

text \<open>The threshold is \<open>fst / snd\<close> with a positive denominator; its default is a tenth.\<close>

record settlement_input =
  sw_opens_at :: int
  sw_closes_at :: int
  sw_now :: "int option"
  sw_closing_soon_threshold :: "(int \<times> int) option"

definition build_settlement_window_check :: "int \<Rightarrow> settlement_input option \<Rightarrow> plan_check" where
  "build_settlement_window_check clock window =
     check_item Settlement_window_status
       (case window of
          None \<Rightarrow> PlanWarn
        | Some w \<Rightarrow>
            let now = (case sw_now w of None \<Rightarrow> clock | Some t \<Rightarrow> t) in
            if now < sw_opens_at w then PlanFail
            else if now > sw_closes_at w then PlanFail
            else
              let total_duration = sw_closes_at w - sw_opens_at w;
                  remaining = sw_closes_at w - now;
                  threshold = (case sw_closing_soon_threshold w of None \<Rightarrow> (1, 10) | Some t \<Rightarrow> t)
              in if total_duration > 0 \<and> remaining * snd threshold < fst threshold * total_duration
                 then PlanWarn else PlanPass)"

record commitment_entry =
  ce_employee_id :: string
  ce_commitment_hash :: string

record batch_input =
  bi_commitments :: "commitment_entry list"
  bi_expected_employee_count :: "int option"

text \<open>The four sets of the loop: seen and duplicate employees, seen and duplicate hashes.\<close>

definition note_commitment ::
  "commitment_entry \<Rightarrow> string list \<times> string list \<times> string list \<times> string list \<Rightarrow> string list \<times> string list \<times> string list \<times> string list" where
  "note_commitment e sets =
     (case sets of (seen_employees, duplicate_employees, seen_hashes, duplicate_hashes) \<Rightarrow>
        (List.insert (ce_employee_id e) seen_employees,
         (if ce_employee_id e \<in> set seen_employees then List.insert (ce_employee_id e) duplicate_employees
          else duplicate_employees),
         List.insert (ce_commitment_hash e) seen_hashes,
         (if ce_commitment_hash e \<in> set seen_hashes then List.insert (ce_commitment_hash e) duplicate_hashes
          else duplicate_hashes)))"

datatype batch_problem = DuplicateEmployees | DuplicateHashes | CountMismatch

definition batch_problems :: "batch_input \<Rightarrow> int \<Rightarrow> batch_problem list" where
  "batch_problems b employee_count =
     (case fold note_commitment (bi_commitments b) ([], [], [], []) of
        (_, duplicate_employees, _, duplicate_hashes) \<Rightarrow>
          let expected_count = (case bi_expected_employee_count b of None \<Rightarrow> employee_count | Some n \<Rightarrow> n)
          in (if length duplicate_employees > 0 then [DuplicateEmployees] else []) @
             (if length duplicate_hashes > 0 then [DuplicateHashes] else []) @
             (if expected_count > 0 \<and> int (length (bi_commitments b)) \<noteq> expected_count then [CountMismatch] else []))"

definition build_batch_check :: "batch_input option \<Rightarrow> int \<Rightarrow> plan_check" where
  "build_batch_check batch employee_count =
     check_item Batch_commitment_consistency
       (case batch of
          None \<Rightarrow> PlanWarn
        | Some b \<Rightarrow> if length (batch_problems b employee_count) = 0 then PlanPass else PlanFail)"

record authorization_input =
  ai_required_roles :: "signer_role list"
  ai_signed_roles :: "(signer_role \<times> string option) list"

record required_signature =
  rs_role :: signer_role
  rs_satisfied :: bool
  rs_address :: "string option"

text \<open>\<open>new Map\<close> of pairs: the last address of a role wins.\<close>

definition build_authorization_checks :: "authorization_input option \<Rightarrow> plan_check \<times> required_signature list" where
  "build_authorization_checks authorization =
     (case authorization of
        None \<Rightarrow> (check_item Authorization_signatures PlanWarn, [])
      | Some a \<Rightarrow>
          let signed_by_role = fold (\<lambda>(role, address). dict_put role address) (ai_signed_roles a) [];
              required = map (\<lambda>role. \<lparr>rs_role = role, rs_satisfied = (dict_get signed_by_role role \<noteq> None),
                rs_address = (case dict_get signed_by_role role of None \<Rightarrow> None | Some x \<Rightarrow> x)\<rparr>) (ai_required_roles a);
              unsatisfied = filter (\<lambda>s. \<not> rs_satisfied s) required
          in (check_item Authorization_signatures (if length unsatisfied = 0 then PlanPass else PlanFail), required))"

datatype execution_step_id = Submit_batch_commitments | Submit_proof | Execute_settlement

text \<open>\<open>Math.ceil(n / m)\<close>; a quotient by zero is infinite, which is \<open>None\<close>.\<close>

definition ceil_quotient :: "int \<Rightarrow> int \<Rightarrow> int option" where
  "ceil_quotient n m = (if m = 0 then None else Some (- ((- n) div m)))"

definition estimate_transaction_steps :: "int \<Rightarrow> int \<Rightarrow> (execution_step_id \<times> int option) list" where
  "estimate_transaction_steps employee_count max_entries =
     (if employee_count \<le> 0 then []
      else
        let batch_transaction_count = ceil_quotient employee_count max_entries
        in [(Submit_batch_commitments, batch_transaction_count), (Submit_proof, Some 1),
            (Execute_settlement, batch_transaction_count)])"

record plan_input =
  pn_employee_count :: int
  pn_contract :: "contract_input option"
  pn_treasury :: "treasury_input option"
  pn_proof :: "proof_input option"
  pn_settlement_window :: "settlement_input option"
  pn_batch :: "batch_input option"
  pn_authorization :: "authorization_input option"

record execution_plan =
  ep_generated_at :: int
  ep_ready :: bool
  ep_checks :: "plan_check list"
  ep_blockers :: "plan_check list"
  ep_warnings :: "plan_check list"
  ep_required_signatures :: "required_signature list"
  ep_steps :: "(execution_step_id \<times> int option) list"

definition plan_payroll_execution :: "proof_environment \<Rightarrow> int \<Rightarrow> plan_input \<Rightarrow> int option \<Rightarrow> execution_plan" where
  "plan_payroll_execution env now input max_entries_per_transaction =
     (let max_entries = (case max_entries_per_transaction of None \<Rightarrow> 50 | Some m \<Rightarrow> m);
          (authorization_check, required_signatures) = build_authorization_checks (pn_authorization input);
          checks = build_contract_checks (pn_contract input) @
            [build_treasury_check (pn_treasury input),
             build_proof_check env (pn_proof input),
             build_settlement_window_check now (pn_settlement_window input),
             build_batch_check (pn_batch input) (pn_employee_count input),
             authorization_check];
          blockers = filter (\<lambda>c. pl_status c = PlanFail) checks;
          warnings = filter (\<lambda>c. pl_status c = PlanWarn) checks
      in \<lparr>ep_generated_at = now, ep_ready = (length blockers = 0), ep_checks = checks, ep_blockers = blockers,
          ep_warnings = warnings, ep_required_signatures = required_signatures,
          ep_steps = estimate_transaction_steps (pn_employee_count input) max_entries\<rparr>)"

section \<open>When a plan is ready\<close>

lemma contract_ready:
  "(\<forall>c \<in> set (build_contract_checks contract). pl_status c \<noteq> PlanFail) \<longleftrightarrow>
     (\<forall>c. contract = Some c \<longrightarrow>
        parse_version (ci_min_version c) \<le> parse_version (ci_current_version c) \<and>
        parse_version (ci_current_version c) \<le> parse_version (ci_max_version c) \<and>
        (\<forall>required. ci_required_features c = Some required \<longrightarrow>
           set required \<subseteq> (case ci_available_features c of None \<Rightarrow> {} | Some fs \<Rightarrow> set fs)))"
proof (cases contract)
  case (Some c)
  have features: "filter (\<lambda>f. f \<notin> set available) required = [] \<longleftrightarrow> set required \<subseteq> set available"
    for available required :: "string list" by (auto simp: filter_empty_conv)
  let ?in = "is_version_in_range (ci_current_version c) (ci_min_version c) (ci_max_version c)"
  have "(\<forall>c' \<in> set (build_contract_checks contract). pl_status c' \<noteq> PlanFail) \<longleftrightarrow>
      ?in \<and> (case ci_required_features c of None \<Rightarrow> True
             | Some required \<Rightarrow> filter (\<lambda>f. f \<notin> set (case ci_available_features c of None \<Rightarrow> [] | Some fs \<Rightarrow> fs)) required = [])"
    by (cases "ci_required_features c")
      (auto simp: Some build_contract_checks_def check_item_def Let_def)
  then show ?thesis
    unfolding features by (cases "ci_required_features c"; cases "ci_available_features c")
      (auto simp: Some is_version_in_range_def compare_versions_order)
qed (simp add: build_contract_checks_def check_item_def)

lemma treasury_ready:
  "pl_status (build_treasury_check treasury) \<noteq> PlanFail \<longleftrightarrow>
     (\<forall>t. treasury = Some t \<longrightarrow> tr_asset t = tr_required_asset t \<and> tr_required_amount t \<le> tr_balance t)"
  by (auto simp: build_treasury_check_def check_item_def Let_def split: option.splits)

lemma proof_ready:
  "pl_status (build_proof_check env proof) \<noteq> PlanFail \<longleftrightarrow>
     (\<exists>p subject. proof = Some p \<and> pi_subject p = Some subject \<and>
        rr_ready (check_proof_readiness env subject
          (case pi_options p of None \<Rightarrow> default_readiness_options | Some o1 \<Rightarrow> o1)))"
  by (auto simp: build_proof_check_def check_item_def Let_def split: option.splits)

lemma settlement_ready:
  "pl_status (build_settlement_window_check clock window) \<noteq> PlanFail \<longleftrightarrow>
     (\<forall>w. window = Some w \<longrightarrow>
        (case sw_now w of None \<Rightarrow> clock | Some t \<Rightarrow> t) \<in> {sw_opens_at w..sw_closes_at w})"
  by (auto simp: build_settlement_window_check_def check_item_def Let_def split: option.splits if_splits)

lemma note_commitments:
  assumes "fold note_commitment es (seen_e, dup_e, seen_h, dup_h) = (se, de, sh, dh)"
  shows "(de = [] \<longleftrightarrow> dup_e = [] \<and> distinct (map ce_employee_id es) \<and> set seen_e \<inter> ce_employee_id ` set es = {}) \<and>
    (dh = [] \<longleftrightarrow> dup_h = [] \<and> distinct (map ce_commitment_hash es) \<and> set seen_h \<inter> ce_commitment_hash ` set es = {})"
  using assms
proof (induction es arbitrary: seen_e dup_e seen_h dup_h)
  case (Cons e es)
  have nonempty: "List.insert x xs \<noteq> []" for x :: string and xs
    by (cases xs) (simp_all add: List.insert_def)
  obtain se' de' sh' dh' where step: "note_commitment e (seen_e, dup_e, seen_h, dup_h) = (se', de', sh', dh')"
    by (metis prod_cases4)
  then have "fold note_commitment es (se', de', sh', dh') = (se, de, sh, dh)" using Cons.prems by simp
  note IH = Cons.IH [OF this]
  have vals: "se' = List.insert (ce_employee_id e) seen_e" "sh' = List.insert (ce_commitment_hash e) seen_h"
    "de' = (if ce_employee_id e \<in> set seen_e then List.insert (ce_employee_id e) dup_e else dup_e)"
    "dh' = (if ce_commitment_hash e \<in> set seen_h then List.insert (ce_commitment_hash e) dup_h else dup_h)"
    using step by (simp_all add: note_commitment_def)
  show ?case
  proof
    show "de = [] \<longleftrightarrow> dup_e = [] \<and> distinct (map ce_employee_id (e # es)) \<and>
        set seen_e \<inter> ce_employee_id ` set (e # es) = {}"
      using IH by (cases "ce_employee_id e \<in> set seen_e") (auto simp: vals nonempty)
    show "dh = [] \<longleftrightarrow> dup_h = [] \<and> distinct (map ce_commitment_hash (e # es)) \<and>
        set seen_h \<inter> ce_commitment_hash ` set (e # es) = {}"
      using IH by (cases "ce_commitment_hash e \<in> set seen_h") (auto simp: vals nonempty)
  qed
qed simp

lemma batch_ready:
  "pl_status (build_batch_check batch employee_count) \<noteq> PlanFail \<longleftrightarrow>
     (\<forall>b. batch = Some b \<longrightarrow>
        distinct (map ce_employee_id (bi_commitments b)) \<and> distinct (map ce_commitment_hash (bi_commitments b)) \<and>
        (let expected = (case bi_expected_employee_count b of None \<Rightarrow> employee_count | Some n \<Rightarrow> n)
         in expected \<le> 0 \<or> int (length (bi_commitments b)) = expected))"
proof (cases batch)
  case (Some b)
  obtain se de sh dh where sets: "fold note_commitment (bi_commitments b) ([], [], [], []) = (se, de, sh, dh)"
    by (metis prod_cases4)
  from note_commitments [OF this] show ?thesis
    by (auto simp: Some build_batch_check_def check_item_def batch_problems_def sets Let_def)
qed (simp add: build_batch_check_def check_item_def)

lemma signed_by_role:
  "dict_get (fold (\<lambda>(role, address). dict_put role address) signers d) role \<noteq> None \<longleftrightarrow>
     role \<in> fst ` set signers \<or> dict_get d role \<noteq> None"
proof (induction signers arbitrary: d)
  case (Cons s signers)
  then show ?case by (cases s) (auto simp: update_conv')
qed simp

lemma authorization_ready:
  "pl_status (fst (build_authorization_checks authorization)) \<noteq> PlanFail \<longleftrightarrow>
     (\<forall>a. authorization = Some a \<longrightarrow> set (ai_required_roles a) \<subseteq> fst ` set (ai_signed_roles a))"
proof (cases authorization)
  case (Some a)
  let ?d = "fold (\<lambda>(role, address). dict_put role address) (ai_signed_roles a) []"
  have "dict_get ?d role \<noteq> None \<longleftrightarrow> role \<in> fst ` set (ai_signed_roles a)" for role
    using signed_by_role [of "ai_signed_roles a" "[]" role] by simp
  then have "(\<forall>role \<in> set (ai_required_roles a). dict_get ?d role \<noteq> None) \<longleftrightarrow>
      set (ai_required_roles a) \<subseteq> fst ` set (ai_signed_roles a)" by blast
  then show ?thesis
    by (simp add: Some build_authorization_checks_def check_item_def Let_def filter_empty_conv)
qed (simp add: build_authorization_checks_def check_item_def)

text \<open>
  A plan is ready exactly when every section given is in order - the contract version within its range and with
  the required features, the treasury in the right asset and sufficient, the settlement window open, the
  commitments unique per employee and hash and as many as expected, every required role signed - and a proof
  subject is given that is ready; so leaving out the proof, unlike any other section, blocks the plan.
\<close>
theorem plan_ready_iff:
  "ep_ready (plan_payroll_execution env now input m) \<longleftrightarrow>
     (\<forall>c. pn_contract input = Some c \<longrightarrow>
        parse_version (ci_min_version c) \<le> parse_version (ci_current_version c) \<and>
        parse_version (ci_current_version c) \<le> parse_version (ci_max_version c) \<and>
        (\<forall>required. ci_required_features c = Some required \<longrightarrow>
           set required \<subseteq> (case ci_available_features c of None \<Rightarrow> {} | Some fs \<Rightarrow> set fs))) \<and>
     (\<forall>t. pn_treasury input = Some t \<longrightarrow> tr_asset t = tr_required_asset t \<and> tr_required_amount t \<le> tr_balance t) \<and>
     (\<exists>p subject. pn_proof input = Some p \<and> pi_subject p = Some subject \<and>
        rr_ready (check_proof_readiness env subject
          (case pi_options p of None \<Rightarrow> default_readiness_options | Some o1 \<Rightarrow> o1))) \<and>
     (\<forall>w. pn_settlement_window input = Some w \<longrightarrow>
        (case sw_now w of None \<Rightarrow> now | Some t \<Rightarrow> t) \<in> {sw_opens_at w..sw_closes_at w}) \<and>
     (\<forall>b. pn_batch input = Some b \<longrightarrow>
        distinct (map ce_employee_id (bi_commitments b)) \<and> distinct (map ce_commitment_hash (bi_commitments b)) \<and>
        (let expected = (case bi_expected_employee_count b of None \<Rightarrow> pn_employee_count input | Some n \<Rightarrow> n)
         in expected \<le> 0 \<or> int (length (bi_commitments b)) = expected)) \<and>
     (\<forall>a. pn_authorization input = Some a \<longrightarrow> set (ai_required_roles a) \<subseteq> fst ` set (ai_signed_roles a))"
proof -
  have "ep_ready (plan_payroll_execution env now input m) \<longleftrightarrow>
      (\<forall>c \<in> set (build_contract_checks (pn_contract input)). pl_status c \<noteq> PlanFail) \<and>
      pl_status (build_treasury_check (pn_treasury input)) \<noteq> PlanFail \<and>
      pl_status (build_proof_check env (pn_proof input)) \<noteq> PlanFail \<and>
      pl_status (build_settlement_window_check now (pn_settlement_window input)) \<noteq> PlanFail \<and>
      pl_status (build_batch_check (pn_batch input) (pn_employee_count input)) \<noteq> PlanFail \<and>
      pl_status (fst (build_authorization_checks (pn_authorization input))) \<noteq> PlanFail"
    by (simp add: plan_payroll_execution_def Let_def split_def filter_empty_conv conj_ac)
  then show ?thesis
    unfolding contract_ready treasury_ready proof_ready settlement_ready batch_ready authorization_ready .
qed

text \<open>
  The estimated number of transactions for the commitments and for the settlement is the least that holds all
  employees, with a positive limit of entries per transaction; a run without employees has no steps.
\<close>
theorem transaction_steps_cover:
  "estimate_transaction_steps n m =
     (if n \<le> 0 then [] else [(Submit_batch_commitments, ceil_quotient n m), (Submit_proof, Some 1),
        (Execute_settlement, ceil_quotient n m)]) \<and>
   (0 < m \<longrightarrow> (\<exists>k. ceil_quotient n m = Some k \<and> n \<le> k * m \<and> (\<forall>j. n \<le> j * m \<longrightarrow> k \<le> j)))"
proof -
  have "n \<le> - (- n div m) * m \<and> (\<forall>j. n \<le> j * m \<longrightarrow> - (- n div m) \<le> j)" if m: "0 < m"
  proof (intro conjI allI impI)
    have "- n div m * m \<le> - n" using m by (simp add: div_times_less_eq_dividend minus_mod_eq_div_mult [symmetric])
    then show "n \<le> - (- n div m) * m" by simp
    fix j
    assume "n \<le> j * m"
    then have "- j * m \<le> - n" by simp
    then have "- j \<le> - n div m" using m by (metis nonzero_mult_div_cancel_right zdiv_mono1 less_irrefl)
    then show "- (- n div m) \<le> j" by simp
  qed
  then show ?thesis by (simp add: estimate_transaction_steps_def ceil_quotient_def Let_def)
qed

section \<open>Witnesses\<close>

definition example_environment :: proof_environment where
  "example_environment = \<lparr>pe_url_ok = (\<lambda>_. True), pe_url_pathname = Some, pe_stat = None\<rparr>"

definition example_subject :: proof_subject where
  "example_subject =
     \<lparr>ps_config = \<lparr>pc_wasm_url = ''https://x/c.wasm'', pc_zkey_url = ''https://x/c.zkey'', pc_wasm_source = None,
        pc_zkey_source = None, pc_expected_wasm_hash = None, pc_expected_zkey_hash = None,
        pc_artifact_cache_ttl = None, pc_max_concurrency = Some (Whole 2)\<rparr>,
      ps_input = WitnessObject [(''amount'', TBigint)], ps_mode = None\<rparr>"

definition example_plan :: plan_input where
  "example_plan =
     \<lparr>pn_employee_count = 2,
      pn_contract = Some \<lparr>ci_current_version = ''1.4.0'', ci_min_version = ''1.0.0'', ci_max_version = ''1.9.9'',
        ci_recommended_version = None, ci_available_features = None, ci_required_features = None\<rparr>,
      pn_treasury = Some \<lparr>tr_balance = 10, tr_asset = ''XLM'', tr_required_amount = 7, tr_required_asset = ''XLM'',
        tr_min_reserve = Some 5\<rparr>,
      pn_proof = Some \<lparr>pi_subject = Some example_subject, pi_options = None\<rparr>,
      pn_settlement_window = None,
      pn_batch = Some \<lparr>bi_commitments = [\<lparr>ce_employee_id = ''a'', ce_commitment_hash = ''1''\<rparr>,
        \<lparr>ce_employee_id = ''b'', ce_commitment_hash = ''2''\<rparr>], bi_expected_employee_count = None\<rparr>,
      pn_authorization = Some \<lparr>ai_required_roles = [PayrollAdmin], ai_signed_roles = [(PayrollAdmin, None)]\<rparr>\<rparr>"

theorem plan_ready_iff_witness: "ep_ready (plan_payroll_execution example_environment 0 example_plan None)"
proof -
  have versions: "parse_version ''1.0.0'' \<le> parse_version ''1.4.0''" "parse_version ''1.4.0'' \<le> parse_version ''1.9.9''"
    by code_simp+
  have "rr_ready (check_proof_readiness example_environment example_subject default_readiness_options)"
    by code_simp
  with versions show ?thesis
    unfolding plan_ready_iff by (simp add: example_plan_def)
qed

theorem transaction_steps_cover_witness:
  "\<exists>k. ceil_quotient 120 50 = Some k \<and> 120 \<le> k * 50 \<and> (\<forall>j. 120 \<le> j * 50 \<longrightarrow> k \<le> j)"
  using transaction_steps_cover [of 120 50] by simp

end
