(* ===== verification/Caching.thy ===== *)
theory Caching
  imports Prelude
begin

text \<open>
  The in-memory cache (\<open>packages/core/src/cache/MemoryCacheProvider.ts\<close>, \<open>cache/freshness.ts\<close>) and the privacy budget
  (\<open>privacy/PrivacyBudgetTracker.ts\<close>). The clock is an argument of each call. The cache is compared with a log of
  writes that never drops anything; the budget with the fields used since the last reset.
\<close>

section \<open>The cache\<close>

record 'v cache_entry =
  ca_value :: 'v
  ca_stored_at :: int
  ca_expires_at :: "int option"
  ca_revision :: "string option"

type_synonym 'v cache = "(string, 'v cache_entry) dict"

record 'v cache_read =
  cr_value :: 'v
  cr_stored_at :: int
  cr_expires_at :: "int option"
  cr_age_ms :: int
  cr_stale :: bool
  cr_revision :: "string option"

definition create_cache_read_result ::
  "'v \<Rightarrow> int \<Rightarrow> int option \<Rightarrow> string option \<Rightarrow> int \<Rightarrow> 'v cache_read" where
  "create_cache_read_result v stored_at expires_at revision now =
     \<lparr>cr_value = v, cr_stored_at = stored_at, cr_expires_at = expires_at, cr_age_ms = max 0 (now - stored_at),
      cr_stale = (case expires_at of None \<Rightarrow> False | Some e \<Rightarrow> now \<ge> e), cr_revision = revision\<rparr>"

definition past_expiry :: "int \<Rightarrow> 'v cache_entry \<Rightarrow> bool" where
  "past_expiry now e = (case ca_expires_at e of None \<Rightarrow> False | Some t \<Rightarrow> now > t)"

definition at_expiry :: "int \<Rightarrow> 'v cache_entry \<Rightarrow> bool" where
  "at_expiry now e = (case ca_expires_at e of None \<Rightarrow> False | Some t \<Rightarrow> now \<ge> t)"

definition cache_get :: "int \<Rightarrow> string \<Rightarrow> 'v cache \<Rightarrow> 'v cache \<times> 'v option" where
  "cache_get now key m =
     (case dict_get m key of
        None \<Rightarrow> (m, None)
      | Some e \<Rightarrow> if past_expiry now e then (AList.delete key m, None) else (m, Some (ca_value e)))"

definition cache_get_with_metadata :: "int \<Rightarrow> string \<Rightarrow> 'v cache \<Rightarrow> 'v cache \<times> 'v cache_read option" where
  "cache_get_with_metadata now key m =
     (case dict_get m key of
        None \<Rightarrow> (m, None)
      | Some e \<Rightarrow>
          if at_expiry now e then (AList.delete key m, None)
          else (m, Some (create_cache_read_result (ca_value e) (ca_stored_at e) (ca_expires_at e) (ca_revision e) now)))"

definition cache_set_with_metadata :: "int \<Rightarrow> string \<Rightarrow> 'v \<Rightarrow> int option \<Rightarrow> string option \<Rightarrow> 'v cache \<Rightarrow> 'v cache" where
  "cache_set_with_metadata now key v ttl_seconds revision m =
     dict_put key
       \<lparr>ca_value = v, ca_stored_at = now,
        ca_expires_at = (case ttl_seconds of None \<Rightarrow> None | Some ttl \<Rightarrow> if ttl \<noteq> 0 then Some (now + ttl * 1000) else None),
        ca_revision = revision\<rparr> m"

definition cache_set :: "int \<Rightarrow> string \<Rightarrow> 'v \<Rightarrow> int option \<Rightarrow> 'v cache \<Rightarrow> 'v cache" where
  "cache_set now key v ttl_seconds = cache_set_with_metadata now key v ttl_seconds None"

definition cache_has :: "int \<Rightarrow> string \<Rightarrow> 'v cache \<Rightarrow> 'v cache \<times> bool" where
  "cache_has now key m = (case cache_get now key m of (m', r) \<Rightarrow> (m', r \<noteq> None))"

section \<open>Refinement of a log of writes\<close>

datatype 'v cache_op =
  CacheGet int string
| CacheHas int string
| CacheMeta int string
| CacheSet int string 'v "int option" "string option"

datatype 'v cache_answer = GotValue "'v option" | GotBool bool | GotRead "'v cache_read option" | GotNothing

fun cache_step :: "'v cache_op \<Rightarrow> 'v cache \<Rightarrow> 'v cache \<times> 'v cache_answer" where
  "cache_step (CacheGet now k) m = (case cache_get now k m of (m', r) \<Rightarrow> (m', GotValue r))"
| "cache_step (CacheHas now k) m = (case cache_has now k m of (m', r) \<Rightarrow> (m', GotBool r))"
| "cache_step (CacheMeta now k) m = (case cache_get_with_metadata now k m of (m', r) \<Rightarrow> (m', GotRead r))"
| "cache_step (CacheSet now k v ttl revn) m = (cache_set_with_metadata now k v ttl revn m, GotNothing)"

fun cache_run :: "'v cache_op list \<Rightarrow> 'v cache \<Rightarrow> 'v cache_answer list" where
  "cache_run [] m = []"
| "cache_run (x # xs) m = (case cache_step x m of (m', a) \<Rightarrow> a # cache_run xs m')"

text \<open>The log: the last write of each key, never deleted; a read looks at its expiry only.\<close>

type_synonym 'v write_log = "string \<Rightarrow> 'v cache_entry option"

definition logged :: "(int \<Rightarrow> 'v cache_entry \<Rightarrow> bool) \<Rightarrow> int \<Rightarrow> string \<Rightarrow> 'v write_log \<Rightarrow> 'v cache_entry option" where
  "logged expired now k m = (case m k of None \<Rightarrow> None | Some e \<Rightarrow> if expired now e then None else Some e)"

fun log_step :: "'v cache_op \<Rightarrow> 'v write_log \<Rightarrow> 'v write_log \<times> 'v cache_answer" where
  "log_step (CacheGet now k) m = (m, GotValue (map_option ca_value (logged past_expiry now k m)))"
| "log_step (CacheHas now k) m = (m, GotBool (logged past_expiry now k m \<noteq> None))"
| "log_step (CacheMeta now k) m =
     (m, GotRead (map_option (\<lambda>e. create_cache_read_result (ca_value e) (ca_stored_at e) (ca_expires_at e) (ca_revision e) now)
       (logged at_expiry now k m)))"
| "log_step (CacheSet now k v ttl revn) m =
     (m(k \<mapsto> \<lparr>ca_value = v, ca_stored_at = now,
         ca_expires_at = (case ttl of None \<Rightarrow> None | Some t \<Rightarrow> if t \<noteq> 0 then Some (now + t * 1000) else None),
         ca_revision = revn\<rparr>), GotNothing)"

fun log_run :: "'v cache_op list \<Rightarrow> 'v write_log \<Rightarrow> 'v cache_answer list" where
  "log_run [] m = []"
| "log_run (x # xs) m = (case log_step x m of (m', a) \<Rightarrow> a # log_run xs m')"

fun op_time :: "'v cache_op \<Rightarrow> int" where
  "op_time (CacheGet now _) = now"
| "op_time (CacheHas now _) = now"
| "op_time (CacheMeta now _) = now"
| "op_time (CacheSet now _ _ _ _) = now"

text \<open>After a metadata read time has moved on when the next call is made.\<close>

fun clock_ok :: "int \<Rightarrow> 'v cache_op list \<Rightarrow> bool" where
  "clock_ok t [] = True"
| "clock_ok t (x # xs) =
     (t \<le> op_time x \<and> clock_ok (case x of CacheMeta now _ \<Rightarrow> now + 1 | _ \<Rightarrow> op_time x) xs)"

text \<open>What the cache has lost had expired before \<open>t\<close>.\<close>

definition cache_abs :: "int \<Rightarrow> 'v cache \<Rightarrow> 'v write_log \<Rightarrow> bool" where
  "cache_abs t m log =
     (dict_ok m \<and> (\<forall>k. dict_get m k = log k \<or>
        (dict_get m k = None \<and> (\<exists>e. log k = Some e \<and> past_expiry t e))))"

lemma past_expiry_mono: "past_expiry t e \<Longrightarrow> t \<le> u \<Longrightarrow> past_expiry u e"
  by (auto simp: past_expiry_def split: option.splits)

lemma past_at: "past_expiry t e \<Longrightarrow> at_expiry t e" "at_expiry t e \<Longrightarrow> past_expiry (t + 1) e"
  by (auto simp: past_expiry_def at_expiry_def split: option.splits)

lemma cache_abs_mono: "cache_abs t m log \<Longrightarrow> t \<le> u \<Longrightarrow> cache_abs u m log"
  unfolding cache_abs_def by (blast intro: past_expiry_mono)

lemma cache_abs_delete:
  assumes "cache_abs t m log" "dict_get m k = Some e" "past_expiry t e"
  shows "cache_abs t (AList.delete k m) log"
proof -
  have "log k = Some e" using assms(1,2) by (auto simp: cache_abs_def) (metis option.distinct(1))
  with assms show ?thesis by (auto simp: cache_abs_def dict_ok_delete delete_conv')
qed

lemma cache_abs_lookup:
  assumes "cache_abs t m log"
  shows "dict_get m k = None \<longleftrightarrow> log k = None \<or> (\<exists>e. log k = Some e \<and> past_expiry t e \<and> dict_get m k = None)"
    and "dict_get m k = Some e \<Longrightarrow> log k = Some e"
  using assms by (auto simp: cache_abs_def) (metis option.distinct(1))+

lemma cache_step_refines:
  assumes abs: "cache_abs t m log" and time: "t \<le> op_time x"
  shows "snd (cache_step x m) = snd (log_step x log) \<and>
    cache_abs (case x of CacheMeta now _ \<Rightarrow> now + 1 | _ \<Rightarrow> op_time x) (fst (cache_step x m)) (fst (log_step x log))"
proof (cases x)
  case (CacheGet now k)
  with time abs have abs': "cache_abs now m log" by (auto intro: cache_abs_mono)
  show ?thesis
  proof (cases "dict_get m k")
    case None
    then show ?thesis using CacheGet abs' cache_abs_lookup(1) [OF abs', of k]
      by (auto simp: cache_get_def logged_def)
  next
    case (Some e)
    then show ?thesis using CacheGet abs' cache_abs_lookup(2) [OF abs' Some]
      by (auto simp: cache_get_def logged_def intro: cache_abs_delete)
  qed
next
  case (CacheHas now k)
  with time abs have abs': "cache_abs now m log" by (auto intro: cache_abs_mono)
  show ?thesis
  proof (cases "dict_get m k")
    case None
    then show ?thesis using CacheHas abs' cache_abs_lookup(1) [OF abs', of k]
      by (auto simp: cache_has_def cache_get_def logged_def)
  next
    case (Some e)
    then show ?thesis using CacheHas abs' cache_abs_lookup(2) [OF abs' Some]
      by (auto simp: cache_has_def cache_get_def logged_def intro: cache_abs_delete)
  qed
next
  case (CacheMeta now k)
  with time abs have abs': "cache_abs now m log" by (auto intro: cache_abs_mono)
  then have later: "cache_abs (now + 1) m log" by (rule cache_abs_mono) simp
  show ?thesis
  proof (cases "dict_get m k")
    case None
    then show ?thesis using CacheMeta later cache_abs_lookup(1) [OF abs', of k]
      by (auto simp: cache_get_with_metadata_def logged_def dest: past_at)
  next
    case (Some e)
    then show ?thesis using CacheMeta later cache_abs_lookup(2) [OF abs' Some]
      by (auto simp: cache_get_with_metadata_def logged_def intro: cache_abs_delete dest: past_at)
  qed
next
  case (CacheSet now k v ttl revn)
  with time abs have "cache_abs now m log" by (auto intro: cache_abs_mono)
  with CacheSet show ?thesis
    by (auto simp: cache_set_with_metadata_def cache_abs_def update_conv')
qed

text \<open>
  The cache refines the log of writes: while the clock does not run backwards and moves on after each metadata
  read, every read answers as if nothing were ever deleted and only the expiry of the last write counted, so the
  lazy eviction is invisible.
\<close>
theorem cache_refines_log:
  assumes "clock_ok t xs"
  shows "cache_run xs [] = log_run xs (\<lambda>_. None)"
proof -
  have "cache_run xs m = log_run xs log" if "cache_abs t m log" "clock_ok t xs" for m log
    using that
  proof (induction xs arbitrary: t m log)
    case (Cons x xs)
    let ?u = "case x of CacheMeta now _ \<Rightarrow> now + 1 | _ \<Rightarrow> op_time x"
    have step: "snd (cache_step x m) = snd (log_step x log)"
      "cache_abs ?u (fst (cache_step x m)) (fst (log_step x log))"
      using cache_step_refines [OF Cons.prems(1), of x] Cons.prems(2) by auto
    have "cache_run xs (fst (cache_step x m)) = log_run xs (fst (log_step x log))"
      using step(2) Cons.prems(2) by (intro Cons.IH) auto
    with step(1) show ?case by (simp add: split_def)
  qed simp
  moreover have "cache_abs t [] (\<lambda>_. None)" by (simp add: cache_abs_def)
  ultimately show ?thesis using assms by blast
qed

text \<open>
  A read with metadata evicts what a plain read would still return: at the very instant of expiry, and, since
  its time can be chosen by the caller, at any moment before it; the entry is then gone for every later read.
\<close>
theorem metadata_read_evicts:
  assumes "0 < ttl" "now \<le> read" "read \<le> now + ttl * 1000" "now + ttl * 1000 \<le> chosen"
  shows "cache_run [CacheSet now k v (Some ttl) revn, CacheGet read k] [] = [GotNothing, GotValue (Some v)] \<and>
    cache_run [CacheSet now k v (Some ttl) revn, CacheMeta chosen k, CacheGet read k] [] =
      [GotNothing, GotRead None, GotValue None]"
  using assms
  by (simp add: cache_set_with_metadata_def cache_get_def cache_get_with_metadata_def past_expiry_def at_expiry_def)

section \<open>The privacy budget\<close>

datatype disclosure_level = DisclosureLow | DisclosureMedium | DisclosureHigh

record budget_tracker =
  bt_max_allowed :: disclosure_level
  bt_fields_used :: "string list"
  bt_exceeded :: bool

definition high_sensitivity_fields :: "string list" where
  "high_sensitivity_fields =
     [''recipient'', ''amount'', ''salary'', ''walletAddress'', ''privateKey'', ''employeeId'', ''ssn'']"

definition medium_sensitivity_fields :: "string list" where
  "medium_sensitivity_fields = [''department'', ''jobTitle'', ''manager'', ''notes'']"

definition new_tracker :: "disclosure_level \<Rightarrow> budget_tracker" where
  "new_tracker level = \<lparr>bt_max_allowed = level, bt_fields_used = [], bt_exceeded = False\<rparr>"

text \<open>A JavaScript \<open>Set\<close> keeps the order of insertion.\<close>

definition set_add :: "'a \<Rightarrow> 'a list \<Rightarrow> 'a list" where
  "set_add x xs = (if x \<in> set xs then xs else xs @ [x])"

definition check_budget :: "budget_tracker \<Rightarrow> budget_tracker" where
  "check_budget b =
     (let any_high = list_ex (\<lambda>f. f \<in> set high_sensitivity_fields) (bt_fields_used b);
          any_medium = list_ex (\<lambda>f. f \<in> set medium_sensitivity_fields) (bt_fields_used b)
      in case bt_max_allowed b of
           DisclosureLow \<Rightarrow> if any_high \<or> any_medium then b\<lparr>bt_exceeded := True\<rparr> else b
         | DisclosureMedium \<Rightarrow> if any_high then b\<lparr>bt_exceeded := True\<rparr> else b
         | DisclosureHigh \<Rightarrow> b)"

definition record_field_access :: "string \<Rightarrow> budget_tracker \<Rightarrow> budget_tracker" where
  "record_field_access f b = check_budget (b\<lparr>bt_fields_used := set_add f (bt_fields_used b)\<rparr>)"

definition record_multiple_fields :: "string list \<Rightarrow> budget_tracker \<Rightarrow> budget_tracker" where
  "record_multiple_fields fs b = check_budget (b\<lparr>bt_fields_used := fold set_add fs (bt_fields_used b)\<rparr>)"

definition is_within_budget :: "budget_tracker \<Rightarrow> bool" where
  "is_within_budget b = (\<not> bt_exceeded b)"

definition fields_within_budget :: "budget_tracker \<Rightarrow> string list" where
  "fields_within_budget b =
     (if is_within_budget b then bt_fields_used b
      else case bt_max_allowed b of
        DisclosureLow \<Rightarrow> filter (\<lambda>f. f \<notin> set high_sensitivity_fields \<and> f \<notin> set medium_sensitivity_fields) (bt_fields_used b)
      | DisclosureMedium \<Rightarrow> filter (\<lambda>f. f \<notin> set high_sensitivity_fields) (bt_fields_used b)
      | DisclosureHigh \<Rightarrow> bt_fields_used b)"

definition remaining_budget :: "budget_tracker \<Rightarrow> string list" where
  "remaining_budget b =
     filter (\<lambda>f. f \<notin> set (bt_fields_used b)) (high_sensitivity_fields @ medium_sensitivity_fields)"

definition reset_tracker :: "budget_tracker \<Rightarrow> budget_tracker" where
  "reset_tracker b = b\<lparr>bt_fields_used := [], bt_exceeded := False\<rparr>"

datatype budget_op = RecordField string | RecordFields "string list" | ResetBudget

fun budget_step :: "budget_op \<Rightarrow> budget_tracker \<Rightarrow> budget_tracker" where
  "budget_step (RecordField f) b = record_field_access f b"
| "budget_step (RecordFields fs) b = record_multiple_fields fs b"
| "budget_step ResetBudget b = reset_tracker b"

fun fields_since_reset :: "budget_op list \<Rightarrow> string set \<Rightarrow> string set" where
  "fields_since_reset [] used = used"
| "fields_since_reset (RecordField f # ops) used = fields_since_reset ops (Set.insert f used)"
| "fields_since_reset (RecordFields fs # ops) used = fields_since_reset ops (set fs \<union> used)"
| "fields_since_reset (ResetBudget # ops) used = fields_since_reset ops {}"

definition forbidden_fields :: "disclosure_level \<Rightarrow> string set" where
  "forbidden_fields level =
     (case level of
        DisclosureLow \<Rightarrow> set high_sensitivity_fields \<union> set medium_sensitivity_fields
      | DisclosureMedium \<Rightarrow> set high_sensitivity_fields
      | DisclosureHigh \<Rightarrow> {})"

definition tracker_ok :: "disclosure_level \<Rightarrow> string set \<Rightarrow> budget_tracker \<Rightarrow> bool" where
  "tracker_ok level used b =
     (bt_max_allowed b = level \<and> set (bt_fields_used b) = used \<and>
      (bt_exceeded b \<longleftrightarrow> used \<inter> forbidden_fields level \<noteq> {}))"

lemma set_set_add [simp]: "set (set_add x xs) = Set.insert x (set xs)"
  by (auto simp: set_add_def)

lemma set_fold_set_add [simp]: "set (fold set_add fs xs) = set fs \<union> set xs"
  by (induction fs arbitrary: xs) auto

lemma check_budget_ok:
  assumes "bt_max_allowed b = level" "set (bt_fields_used b) = used" "bt_exceeded b \<Longrightarrow> used \<inter> forbidden_fields level \<noteq> {}"
  shows "tracker_ok level used (check_budget b)"
  using assms
  by (cases level) (auto simp: tracker_ok_def check_budget_def forbidden_fields_def Let_def list_ex_iff)

lemma budget_run_ok:
  "tracker_ok level used b \<Longrightarrow> tracker_ok level (fields_since_reset ops used) (fold budget_step ops b)"
proof (induction ops arbitrary: used b)
  case (Cons op ops)
  then show ?case
  proof (cases op)
    case (RecordField f)
    have "tracker_ok level (Set.insert f used) (record_field_access f b)"
      unfolding record_field_access_def using Cons.prems
      by (intro check_budget_ok) (auto simp: tracker_ok_def)
    with RecordField show ?thesis using Cons.IH by simp
  next
    case (RecordFields fs)
    have "tracker_ok level (set fs \<union> used) (record_multiple_fields fs b)"
      unfolding record_multiple_fields_def using Cons.prems
      by (intro check_budget_ok) (auto simp: tracker_ok_def)
    with RecordFields show ?thesis using Cons.IH by simp
  next
    case ResetBudget
    have "tracker_ok level {} (reset_tracker b)"
      using Cons.prems by (simp add: tracker_ok_def reset_tracker_def)
    with ResetBudget show ?thesis using Cons.IH by simp
  qed
qed simp

text \<open>
  However the accesses are grouped and ordered, the budget is exceeded exactly when a field above the allowed
  disclosure was used since the last reset, and the fields reported as within the budget are exactly the used ones
  that are allowed.
\<close>
theorem budget_tracks_disclosure:
  "is_within_budget (fold budget_step ops (new_tracker level)) =
     (fields_since_reset ops {} \<inter> forbidden_fields level = {}) \<and>
   set (fields_within_budget (fold budget_step ops (new_tracker level))) =
     fields_since_reset ops {} - forbidden_fields level"
proof -
  let ?b = "fold budget_step ops (new_tracker level)"
  have "tracker_ok level {} (new_tracker level)" by (simp add: tracker_ok_def new_tracker_def)
  then have ok: "tracker_ok level (fields_since_reset ops {}) ?b" by (rule budget_run_ok)
  then have "set (fields_within_budget ?b) = fields_since_reset ops {} - forbidden_fields level"
    by (cases level) (auto simp: tracker_ok_def fields_within_budget_def is_within_budget_def forbidden_fields_def)
  with ok show ?thesis by (simp add: tracker_ok_def is_within_budget_def)
qed

section \<open>Witnesses\<close>

theorem cache_refines_log_witness:
  "cache_run [CacheSet 0 ''k'' True (Some 1) None, CacheMeta 1000 ''k'', CacheGet 1001 ''k''] [] =
    log_run [CacheSet 0 ''k'' True (Some 1) None, CacheMeta 1000 ''k'', CacheGet 1001 ''k''] (\<lambda>_. None)"
  by (rule cache_refines_log [of 0]) simp

theorem metadata_read_evicts_witness:
  "cache_run [CacheSet 0 ''k'' True (Some 60) None, CacheMeta 60000 ''k'', CacheGet 10 ''k''] [] =
     [GotNothing, GotRead None, GotValue None]"
  using metadata_read_evicts [of 60 0 10 60000 "''k''" True None] by simp

end
