(* ===== verification/Reconciliation.thy ===== *)
theory Reconciliation
  imports Prelude
begin

text \<open>
  Reconciliation of a payroll run (\<open>packages/core/src/reconciliation\<close>): the diff of the outcomes the client recorded
  against what the chain shows (\<open>ReconciliationDiffGenerator.ts\<close>), its classification (\<open>statusClassifier.ts\<close>), the
  snapshot metrics (\<open>SnapshotBuilder.ts\<close>) and the liability report with its period-close blockers
  (\<open>reportBuilder.ts\<close>). Texts made for people are left out; the clock is an argument.
\<close>

section \<open>The diff\<close>

datatype payment_status = PaySuccess | PayFailure | PayPending

record payment_outcome =
  po_recipient :: string
  po_amount :: int
  po_asset :: string
  po_status :: payment_status
  po_tx_hash :: "string option"

datatype chain_status = Confirmed | ChainFailed | NotFound

record observed_payment =
  ob_recipient :: string
  ob_amount :: "int option"
  ob_asset :: "string option"
  ob_tx_hash :: "string option"
  ob_status :: chain_status
  ob_at :: int

datatype diff_category = Match | Missing | Failed_mismatch | Amount_mismatch | Still_pending | Unexpected

record diff_entry =
  de_recipient :: string
  de_category :: diff_category
  de_expected :: "payment_outcome option"
  de_observed :: "observed_payment option"

record diff_result =
  rd_entries :: "diff_entry list"
  rd_counts :: "diff_category \<Rightarrow> nat"
  rd_fully_reconciled :: bool
  rd_generated_at :: int

definition match_key :: "string \<Rightarrow> string \<Rightarrow> string" where
  "match_key recipient asset = recipient @ '':'' @ asset"

definition diff_entry_of ::
  "string \<Rightarrow> diff_category \<Rightarrow> payment_outcome option \<Rightarrow> observed_payment option \<Rightarrow> diff_entry" where
  "diff_entry_of r c e ob = \<lparr>de_recipient = r, de_category = c, de_expected = e, de_observed = ob\<rparr>"

definition diff_category_of :: "payment_outcome \<Rightarrow> observed_payment option \<Rightarrow> diff_category" where
  "diff_category_of p observed =
     (if po_status p = PayPending then Still_pending
      else case observed of
        None \<Rightarrow> Missing
      | Some ob \<Rightarrow>
          if ob_status ob = NotFound then Missing
          else let expected_succeeded = (po_status p = PaySuccess); observed_succeeded = (ob_status ob = Confirmed)
            in if expected_succeeded \<noteq> observed_succeeded then Failed_mismatch
               else if observed_succeeded \<and> ob_amount ob \<noteq> None \<and> ob_amount ob \<noteq> Some (po_amount p)
                 then Amount_mismatch
               else Match)"

definition diff_one :: "payment_outcome \<Rightarrow> observed_payment option \<Rightarrow> diff_entry" where
  "diff_one p observed = diff_entry_of (po_recipient p) (diff_category_of p observed) (Some p) observed"

text \<open>The key of an observation; one without an asset has none.\<close>

definition observed_key :: "observed_payment \<Rightarrow> string option" where
  "observed_key ob = map_option (match_key (ob_recipient ob)) (ob_asset ob)"

definition outcome_key :: "payment_outcome \<Rightarrow> string" where
  "outcome_key p = match_key (po_recipient p) (po_asset p)"

definition note_observed :: "observed_payment \<Rightarrow> (string, observed_payment) dict \<Rightarrow> (string, observed_payment) dict" where
  "note_observed ob m =
     (case observed_key ob of
        None \<Rightarrow> m
      | Some k \<Rightarrow>
          (case dict_get m k of
             None \<Rightarrow> dict_put k ob m
           | Some existing \<Rightarrow> if ob_at existing < ob_at ob then dict_put k ob m else m))"

definition observed_by_key :: "observed_payment list \<Rightarrow> (string, observed_payment) dict" where
  "observed_by_key observed = fold note_observed observed []"

definition matched_keys :: "(string, observed_payment) dict \<Rightarrow> payment_outcome list \<Rightarrow> string list" where
  "matched_keys m ps = filter (\<lambda>k. dict_get m k \<noteq> None) (map outcome_key ps)"

definition is_unexpected :: "string list \<Rightarrow> observed_payment \<Rightarrow> bool" where
  "is_unexpected matched ob =
     ((case observed_key ob of None \<Rightarrow> True | Some k \<Rightarrow> k \<notin> set matched) \<and> ob_status ob \<noteq> NotFound)"

definition unexpected_entry :: "observed_payment \<Rightarrow> diff_entry" where
  "unexpected_entry ob = diff_entry_of (ob_recipient ob) Unexpected None (Some ob)"

definition count_entry :: "diff_entry \<Rightarrow> (diff_category \<Rightarrow> nat) \<Rightarrow> diff_category \<Rightarrow> nat" where
  "count_entry e c = c(de_category e := c (de_category e) + 1)"

definition generate_diff :: "int \<Rightarrow> payment_outcome list \<Rightarrow> observed_payment list \<Rightarrow> diff_result" where
  "generate_diff now ps observed =
     (let m = observed_by_key observed;
          expected_entries = map (\<lambda>p. diff_one p (dict_get m (outcome_key p))) ps;
          matched = matched_keys m ps;
          entries = expected_entries @ map unexpected_entry (filter (is_unexpected matched) observed)
      in \<lparr>rd_entries = entries,
          rd_counts = fold count_entry entries (\<lambda>_. 0),
          rd_fully_reconciled = list_all (\<lambda>e. de_category e = Match \<or> de_category e = Still_pending) entries,
          rd_generated_at = now\<rparr>)"

subsection \<open>What the diff says of the payments\<close>

text \<open>The most recent observation of a key, the first of those made at the same time.\<close>

definition latest_observation :: "observed_payment list \<Rightarrow> string \<Rightarrow> observed_payment \<Rightarrow> bool" where
  "latest_observation observed k ob \<longleftrightarrow>
     (\<exists>xs ys. observed = xs @ ob # ys \<and> observed_key ob = Some k \<and>
        (\<forall>x \<in> set xs. observed_key x = Some k \<longrightarrow> ob_at x < ob_at ob) \<and>
        (\<forall>y \<in> set ys. observed_key y = Some k \<longrightarrow> ob_at y \<le> ob_at ob))"

definition agrees :: "payment_outcome \<Rightarrow> observed_payment \<Rightarrow> bool" where
  "agrees p ob \<longleftrightarrow>
     (po_status p = PayFailure \<and> ob_status ob = ChainFailed) \<or>
     (po_status p = PaySuccess \<and> ob_status ob = Confirmed \<and> (ob_amount ob = None \<or> ob_amount ob = Some (po_amount p)))"

lemma observed_by_key_snoc: "observed_by_key (xs @ [x]) = note_observed x (observed_by_key xs)"
  by (simp add: observed_by_key_def)

lemma get_note_observed:
  "dict_get (note_observed ob m) k =
     (if observed_key ob = Some k \<and> (case dict_get m k of None \<Rightarrow> True | Some e \<Rightarrow> ob_at e < ob_at ob)
      then Some ob else dict_get m k)"
  by (auto simp: note_observed_def update_conv' split: option.splits)


lemma latest_unique:
  assumes "latest_observation xs k a" "latest_observation xs k b"
  shows "a = b"
proof -
  obtain p q where a: "xs = p @ a # q" "observed_key a = Some k"
    "\<forall>x \<in> set p. observed_key x = Some k \<longrightarrow> ob_at x < ob_at a"
    "\<forall>x \<in> set q. observed_key x = Some k \<longrightarrow> ob_at x \<le> ob_at a"
    using assms(1) unfolding latest_observation_def by blast
  obtain p' q' where b: "xs = p' @ b # q'" "observed_key b = Some k"
    "\<forall>x \<in> set p'. observed_key x = Some k \<longrightarrow> ob_at x < ob_at b"
    "\<forall>x \<in> set q'. observed_key x = Some k \<longrightarrow> ob_at x \<le> ob_at b"
    using assms(2) unfolding latest_observation_def by blast
  have "p @ a # q = p' @ b # q'" using a(1) b(1) by simp
  then consider "p = p' \<and> a = b" | "a \<in> set p' \<and> b \<in> set q" | "b \<in> set p \<and> a \<in> set q'"
    by (auto simp: append_eq_append_conv2 append_eq_Cons_conv Cons_eq_append_conv)
  then show ?thesis
  proof cases
    case 2
    then have "ob_at a < ob_at b" "ob_at b \<le> ob_at a" using a b by blast+
    then show ?thesis by simp
  next
    case 3
    then have "ob_at b < ob_at a" "ob_at a \<le> ob_at b" using a b by blast+
    then show ?thesis by simp
  qed simp
qed

lemma observed_by_key_None: "dict_get (observed_by_key xs) k = None \<longleftrightarrow> (\<forall>x \<in> set xs. observed_key x \<noteq> Some k)"
proof (induction xs rule: rev_induct)
  case Nil
  then show ?case by (simp add: observed_by_key_def)
next
  case (snoc x xs)
  then show ?case by (auto simp: observed_by_key_snoc get_note_observed split: option.splits)
qed

lemma latest_snoc_old:
  assumes "latest_observation xs k ob" "observed_key x = Some k \<Longrightarrow> ob_at x \<le> ob_at ob"
  shows "latest_observation (xs @ [x]) k ob"
proof -
  obtain p q where "xs = p @ ob # q" "observed_key ob = Some k"
    "\<forall>y \<in> set p. observed_key y = Some k \<longrightarrow> ob_at y < ob_at ob"
    "\<forall>y \<in> set q. observed_key y = Some k \<longrightarrow> ob_at y \<le> ob_at ob"
    using assms(1) unfolding latest_observation_def by blast
  with assms(2) show ?thesis
    unfolding latest_observation_def by (intro exI [of _ p] exI [of _ "q @ [x]"]) auto
qed

lemma latest_dominates:
  assumes "latest_observation xs k ob" "y \<in> set xs" "observed_key y = Some k"
  shows "ob_at y \<le> ob_at ob"
proof -
  obtain p q where a: "xs = p @ ob # q"
    "\<forall>x \<in> set p. observed_key x = Some k \<longrightarrow> ob_at x < ob_at ob"
    "\<forall>x \<in> set q. observed_key x = Some k \<longrightarrow> ob_at x \<le> ob_at ob"
    using assms(1) unfolding latest_observation_def by blast
  then consider "y \<in> set p" | "y = ob" | "y \<in> set q" using assms(2) by auto
  then show ?thesis using a(2,3) assms(3) by cases fastforce+
qed

lemma observed_by_key_latest: "dict_get (observed_by_key xs) k = Some ob \<Longrightarrow> latest_observation xs k ob"
proof (induction xs arbitrary: ob rule: rev_induct)
  case Nil
  then show ?case by (simp add: observed_by_key_def)
next
  case (snoc x xs)
  show ?case
  proof (cases "observed_key x = Some k \<and> (case dict_get (observed_by_key xs) k of None \<Rightarrow> True | Some e \<Rightarrow> ob_at e < ob_at x)")
    case True
    then have ob: "ob = x" using snoc.prems by (simp add: observed_by_key_snoc get_note_observed)
    have "ob_at y < ob_at x" if y: "y \<in> set xs" "observed_key y = Some k" for y
    proof -
      obtain e where e: "dict_get (observed_by_key xs) k = Some e"
        using y observed_by_key_None [of xs k] by fastforce
      then have "ob_at y \<le> ob_at e" using snoc.IH y by (blast intro: latest_dominates)
      with True e show ?thesis by simp
    qed
    with ob True show ?thesis
      unfolding latest_observation_def by (intro exI [of _ xs] exI [of _ "[]"]) auto
  next
    case False
    then have old: "dict_get (observed_by_key xs) k = Some ob"
      using snoc.prems by (auto simp: observed_by_key_snoc get_note_observed split: if_splits)
    with False have "observed_key x = Some k \<Longrightarrow> ob_at x \<le> ob_at ob" by auto
    with snoc.IH [OF old] show ?thesis by (rule latest_snoc_old)
  qed
qed

lemma observed_by_key_iff: "dict_get (observed_by_key xs) k = Some ob \<longleftrightarrow> latest_observation xs k ob"
proof
  assume latest: "latest_observation xs k ob"
  then have "dict_get (observed_by_key xs) k \<noteq> None"
    by (auto simp: observed_by_key_None latest_observation_def)
  then obtain ob' where ob': "dict_get (observed_by_key xs) k = Some ob'" by blast
  then show "dict_get (observed_by_key xs) k = Some ob"
    using latest latest_unique observed_by_key_latest by blast
qed (rule observed_by_key_latest)

lemma diff_category_good:
  "diff_category_of p ob = Match \<or> diff_category_of p ob = Still_pending \<longleftrightarrow>
     po_status p = PayPending \<or> (\<exists>o'. ob = Some o' \<and> agrees p o')"
  by (cases "po_status p"; cases ob; cases "ob_status (the ob)")
    (auto simp: diff_category_of_def agrees_def Let_def)

lemma diff_category_never_unexpected [simp]: "diff_category_of p ob \<noteq> Unexpected"
  by (auto simp: diff_category_of_def Let_def split: option.splits)

lemma diff_simps [simp]:
  "de_category (diff_one p ob) = diff_category_of p ob"
  "de_category (unexpected_entry x) = Unexpected"
  by (simp_all add: diff_one_def unexpected_entry_def diff_entry_of_def)

lemma matched_keys_iff:
  "k \<in> set (matched_keys (observed_by_key obs) ps) \<longleftrightarrow>
     (\<exists>p \<in> set ps. outcome_key p = k) \<and> (\<exists>ob \<in> set obs. observed_key ob = Some k)"
  by (auto simp: matched_keys_def observed_by_key_None)

definition claimed :: "payment_outcome list \<Rightarrow> observed_payment \<Rightarrow> bool" where
  "claimed ps ob \<longleftrightarrow> (\<exists>p \<in> set ps. observed_key ob = Some (outcome_key p))"

lemma is_unexpected_iff:
  "ob \<in> set obs \<Longrightarrow> is_unexpected (matched_keys (observed_by_key obs) ps) ob \<longleftrightarrow>
     \<not> claimed ps ob \<and> ob_status ob \<noteq> NotFound"
  by (auto simp: is_unexpected_def matched_keys_iff claimed_def split: option.splits)

lemma unexpected_obs:
  "filter (is_unexpected (matched_keys (observed_by_key obs) ps)) obs =
     filter (\<lambda>ob. \<not> claimed ps ob \<and> ob_status ob \<noteq> NotFound) obs"
  by (rule filter_cong) (simp_all add: is_unexpected_iff)

lemma diff_entries:
  "rd_entries (generate_diff now ps obs) =
     map (\<lambda>p. diff_one p (dict_get (observed_by_key obs) (outcome_key p))) ps @
     map unexpected_entry (filter (\<lambda>ob. \<not> claimed ps ob \<and> ob_status ob \<noteq> NotFound) obs)"
  by (simp add: generate_diff_def Let_def unexpected_obs)

lemma diff_counts:
  "rd_counts (generate_diff now ps obs) c =
     length (filter (\<lambda>e. de_category e = c) (rd_entries (generate_diff now ps obs)))"
proof -
  have "fold count_entry es f c = f c + length (filter (\<lambda>e. de_category e = c) es)" for es f
    by (induction es arbitrary: f) (auto simp: count_entry_def)
  then show ?thesis by (simp add: generate_diff_def Let_def)
qed

lemma diff_fully: "rd_fully_reconciled (generate_diff now ps obs) =
    list_all (\<lambda>e. de_category e = Match \<or> de_category e = Still_pending) (rd_entries (generate_diff now ps obs))"
  by (simp add: generate_diff_def Let_def)

lemma diff_eqI:
  assumes "rd_entries (generate_diff now ps obs) = rd_entries (generate_diff now ps' obs')"
  shows "generate_diff now ps obs = generate_diff now ps' obs'"
proof (rule diff_result.equality)
  show "rd_counts (generate_diff now ps obs) = rd_counts (generate_diff now ps' obs')"
    using assms by (simp add: fun_eq_iff diff_counts)
  show "rd_fully_reconciled (generate_diff now ps obs) = rd_fully_reconciled (generate_diff now ps' obs')"
    using assms by (simp add: diff_fully)
  show "rd_generated_at (generate_diff now ps obs) = rd_generated_at (generate_diff now ps' obs')"
    by (simp add: generate_diff_def Let_def)
qed (simp_all add: assms)

text \<open>
  A run is reported fully reconciled exactly when every outcome that is not pending agrees with the most recent
  observation of its recipient and asset, and every observation of something that happened on the chain has the
  recipient and asset of some outcome.
\<close>
theorem fully_reconciled_iff:
  "rd_fully_reconciled (generate_diff now ps obs) \<longleftrightarrow>
     (\<forall>p \<in> set ps. po_status p = PayPending \<or>
        (\<exists>ob. latest_observation obs (outcome_key p) ob \<and> agrees p ob)) \<and>
     (\<forall>ob \<in> set obs. ob_status ob = NotFound \<or> claimed ps ob)"
  by (auto simp: diff_fully diff_entries list_all_iff ball_Un diff_category_good observed_by_key_iff)

lemma get_observed_snoc_old:
  assumes "observed_key ob = Some k" "x \<in> set obs" "observed_key x = Some k" "ob_at ob \<le> ob_at x"
  shows "dict_get (observed_by_key (obs @ [ob])) k' = dict_get (observed_by_key obs) k'"
proof -
  obtain e where e: "dict_get (observed_by_key obs) k = Some e"
    using assms(2,3) observed_by_key_None [of obs k] by fastforce
  then have "ob_at x \<le> ob_at e" using assms(2,3) by (blast intro: latest_dominates observed_by_key_latest)
  with e assms(1,4) show ?thesis by (auto simp: observed_by_key_snoc get_note_observed)
qed

text \<open>
  C16: a second payment to the same recipient in the same asset leaves no trace: once a recorded outcome claims a
  recipient and asset, every further observation of them that is no more recent than one already present leaves the
  whole diff unchanged, whatever amount it moved and whatever its transaction. So a run that is fully reconciled stays so
  when somebody is paid twice, although every observation without an expected outcome is promised to be reported as
  unexpected.
\<close>

theorem double_payment_unseen:
  assumes "claimed ps ob" "x \<in> set obs" "observed_key x = observed_key ob" "ob_at ob \<le> ob_at x"
  shows "generate_diff now ps (obs @ [ob]) = generate_diff now ps obs"
proof -
  obtain k where k: "observed_key ob = Some k" using assms(1) by (auto simp: claimed_def)
  have get: "dict_get (observed_by_key (obs @ [ob])) k' = dict_get (observed_by_key obs) k'" for k'
    using get_observed_snoc_old [OF k assms(2)] assms(3,4) k by simp
  have "rd_entries (generate_diff now ps (obs @ [ob])) = rd_entries (generate_diff now ps obs)"
    by (simp add: diff_entries get assms(1))
  then show ?thesis by (rule diff_eqI)
qed

section \<open>The classification\<close>

datatype review_outcome = Accepted_discrepancy | Pending_settlement | Escalated

record manual_review =
  mr_reviewed_by :: string
  mr_reviewed_at :: int
  mr_notes :: string
  mr_resolved_outcome :: "review_outcome option"

datatype reconciliation_status = Matched | Partial | Mismatched | Pending | Failed | Manually_reviewed

text \<open>The three shapes of input: nothing, a list of entries, or an object that may carry entries, counts and a review.\<close>

record reconciliation_payload =
  rp_entries :: "diff_entry list option"
  rp_counts :: "(diff_category \<Rightarrow> int option) option"
  rp_manual_review :: "manual_review option"

datatype reconciliation_input = NoInput | EntryList "diff_entry list" | Payload reconciliation_payload

record breakdown =
  bd_total :: int
  bd_matched :: int
  bd_pending :: int
  bd_mismatched :: int
  bd_failed :: int
  bd_unexpected :: int

datatype badge_color = BadgeSuccess | BadgeWarning | BadgeDanger | BadgeInfo | BadgeNeutral

record classification =
  cl_status :: reconciliation_status
  cl_breakdown :: breakdown
  cl_requires_action :: bool
  cl_badge :: badge_color
  cl_manual_review :: "manual_review option"
  cl_classified_at :: int

fun status_badge :: "reconciliation_status \<Rightarrow> badge_color" where
  "status_badge Matched = BadgeSuccess"
| "status_badge Partial = BadgeWarning"
| "status_badge Mismatched = BadgeDanger"
| "status_badge Pending = BadgeInfo"
| "status_badge Failed = BadgeDanger"
| "status_badge Manually_reviewed = BadgeNeutral"

definition empty_breakdown :: breakdown where
  "empty_breakdown =
     \<lparr>bd_total = 0, bd_matched = 0, bd_pending = 0, bd_mismatched = 0, bd_failed = 0, bd_unexpected = 0\<rparr>"

fun tally_category :: "diff_category \<Rightarrow> breakdown \<Rightarrow> breakdown" where
  "tally_category Match b = b\<lparr>bd_matched := bd_matched b + 1\<rparr>"
| "tally_category Still_pending b = b\<lparr>bd_pending := bd_pending b + 1\<rparr>"
| "tally_category Failed_mismatch b = b\<lparr>bd_failed := bd_failed b + 1\<rparr>"
| "tally_category Amount_mismatch b = b\<lparr>bd_mismatched := bd_mismatched b + 1\<rparr>"
| "tally_category Missing b = b\<lparr>bd_mismatched := bd_mismatched b + 1\<rparr>"
| "tally_category Unexpected b = b\<lparr>bd_unexpected := bd_unexpected b + 1\<rparr>"

definition tally_entries :: "diff_entry list \<Rightarrow> breakdown" where
  "tally_entries es =
     fold (\<lambda>e. tally_category (de_category e)) es (empty_breakdown\<lparr>bd_total := int (length es)\<rparr>)"

definition count_or_zero :: "int option \<Rightarrow> int" where
  "count_or_zero c = (case c of None \<Rightarrow> 0 | Some n \<Rightarrow> n)"

definition breakdown_of_counts :: "(diff_category \<Rightarrow> int option) \<Rightarrow> breakdown" where
  "breakdown_of_counts c =
     (let matched = count_or_zero (c Match); pending = count_or_zero (c Still_pending);
          failed = count_or_zero (c Failed_mismatch);
          mismatched = count_or_zero (c Amount_mismatch) + count_or_zero (c Missing);
          unexpected = count_or_zero (c Unexpected)
      in \<lparr>bd_total = matched + pending + failed + mismatched + unexpected, bd_matched = matched, bd_pending = pending,
          bd_mismatched = mismatched, bd_failed = failed, bd_unexpected = unexpected\<rparr>)"

definition extract_breakdown :: "reconciliation_input \<Rightarrow> breakdown" where
  "extract_breakdown inp =
     (case inp of
        NoInput \<Rightarrow> empty_breakdown
      | EntryList es \<Rightarrow> tally_entries es
      | Payload p \<Rightarrow>
          (case rp_entries p of
             Some es \<Rightarrow> tally_entries es
           | None \<Rightarrow> (case rp_counts p of Some c \<Rightarrow> breakdown_of_counts c | None \<Rightarrow> empty_breakdown)))"

definition classified ::
  "int \<Rightarrow> reconciliation_status \<Rightarrow> breakdown \<Rightarrow> bool \<Rightarrow> manual_review option \<Rightarrow> classification" where
  "classified now s b action r =
     \<lparr>cl_status = s, cl_breakdown = b, cl_requires_action = action, cl_badge = status_badge s,
      cl_manual_review = r, cl_classified_at = now\<rparr>"

definition payload_review :: "reconciliation_input \<Rightarrow> manual_review option" where
  "payload_review inp = (case inp of Payload p \<Rightarrow> rp_manual_review p | _ \<Rightarrow> None)"

definition status_of_breakdown :: "int \<Rightarrow> breakdown \<Rightarrow> classification" where
  "status_of_breakdown now b =
     (if bd_total b = 0 then classified now Pending b False None
      else if bd_failed b > 0 then classified now Failed b True None
      else if bd_mismatched b > 0 \<or> bd_unexpected b > 0 then classified now Mismatched b True None
      else if bd_pending b = bd_total b then classified now Pending b False None
      else if bd_pending b > 0 \<and> bd_matched b > 0 then classified now Partial b False None
      else if bd_matched b = bd_total b then classified now Matched b False None
      else classified now Partial b False None)"

definition classify_reconciliation ::
  "int \<Rightarrow> reconciliation_input \<Rightarrow> manual_review option \<Rightarrow> classification" where
  "classify_reconciliation now inp option_review =
     (let review = (case option_review of Some r \<Rightarrow> Some r | None \<Rightarrow> payload_review inp)
      in case review of
           Some r \<Rightarrow>
             if mr_reviewed_by r \<noteq> [] then classified now Manually_reviewed (extract_breakdown inp) False (Some r)
             else (if inp = NoInput then classified now Pending empty_breakdown False None
                   else status_of_breakdown now (extract_breakdown inp))
         | None \<Rightarrow> (if inp = NoInput then classified now Pending empty_breakdown False None
                   else status_of_breakdown now (extract_breakdown inp)))"

datatype review_error = ReviewIncomplete

definition apply_manual_review ::
  "int \<Rightarrow> classification \<Rightarrow> string \<Rightarrow> string \<Rightarrow> review_outcome option \<Rightarrow> (review_error, classification) result" where
  "apply_manual_review now c by notes outcome =
     bind_result (throw_if (by = [] \<or> notes = []) ReviewIncomplete) (\<lambda>_.
       Inr (c\<lparr>cl_status := Manually_reviewed, cl_requires_action := (outcome = Some Escalated),
              cl_badge := status_badge Manually_reviewed,
              cl_manual_review := Some \<lparr>mr_reviewed_by = by, mr_reviewed_at = now, mr_notes = notes,
                mr_resolved_outcome = Some (case outcome of None \<Rightarrow> Accepted_discrepancy | Some r \<Rightarrow> r)\<rparr>,
              cl_classified_at := now\<rparr>))"

definition is_action_required :: "reconciliation_status \<Rightarrow> bool" where
  "is_action_required s = (s = Mismatched \<or> s = Failed)"

text \<open>A diff handed to the classifier, with its entries or with its counts only.\<close>

definition diff_payload :: "diff_result \<Rightarrow> reconciliation_input" where
  "diff_payload d =
     Payload \<lparr>rp_entries = Some (rd_entries d), rp_counts = Some (\<lambda>c. Some (int (rd_counts d c))), rp_manual_review = None\<rparr>"

definition counts_payload :: "diff_result \<Rightarrow> reconciliation_input" where
  "counts_payload d =
     Payload \<lparr>rp_entries = None, rp_counts = Some (\<lambda>c. Some (int (rd_counts d c))), rp_manual_review = None\<rparr>"

definition count_of :: "diff_category \<Rightarrow> diff_entry list \<Rightarrow> int" where
  "count_of c es = int (length (filter (\<lambda>e. de_category e = c) es))"

lemma count_of_simps [simp]:
  "count_of c [] = 0"
  "count_of c (e # es) = (if de_category e = c then 1 else 0) + count_of c es"
  by (simp_all add: count_of_def)

lemma count_of_nonneg [simp]: "0 \<le> count_of c es"
  by (simp add: count_of_def)

lemma count_of_pos: "0 < count_of c es \<longleftrightarrow> list_ex (\<lambda>e. de_category e = c) es"
  by (auto simp: count_of_def filter_empty_conv list_ex_iff)

lemma tally_fold:
  "fold (\<lambda>e. tally_category (de_category e)) es b =
     b\<lparr>bd_matched := bd_matched b + count_of Match es, bd_pending := bd_pending b + count_of Still_pending es,
       bd_failed := bd_failed b + count_of Failed_mismatch es,
       bd_mismatched := bd_mismatched b + (count_of Amount_mismatch es + count_of Missing es),
       bd_unexpected := bd_unexpected b + count_of Unexpected es\<rparr>"
proof (induction es arbitrary: b)
  case (Cons e es)
  then show ?case by (cases "de_category e") simp_all
qed simp

lemma count_total:
  "int (length es) = count_of Match es + count_of Still_pending es + count_of Failed_mismatch es +
     (count_of Amount_mismatch es + count_of Missing es) + count_of Unexpected es"
proof (induction es)
  case (Cons e es)
  then show ?case by (cases "de_category e") simp_all
qed simp

lemma tally_entries_counts:
  "tally_entries es = breakdown_of_counts (\<lambda>c. Some (count_of c es))"
  by (simp add: tally_entries_def tally_fold breakdown_of_counts_def count_or_zero_def empty_breakdown_def Let_def
      count_total)

lemma breakdown_diff:
  "extract_breakdown (diff_payload (generate_diff now ps obs)) = tally_entries (rd_entries (generate_diff now ps obs))"
  "extract_breakdown (counts_payload (generate_diff now ps obs)) = tally_entries (rd_entries (generate_diff now ps obs))"
  by (simp_all add: extract_breakdown_def diff_payload_def counts_payload_def tally_entries_counts diff_counts count_of_def)

lemma count_full: "count_of c es = int (length es) \<longleftrightarrow> list_all (\<lambda>e. de_category e = c) es"
proof (induction es)
  case (Cons e es)
  have "count_of c es \<le> int (length es)" by (simp add: count_of_def)
  with Cons show ?case by auto
qed simp

lemma tally_fields:
  "bd_total (tally_entries es) = int (length es)"
  "bd_matched (tally_entries es) = count_of Match es"
  "bd_pending (tally_entries es) = count_of Still_pending es"
  "bd_failed (tally_entries es) = count_of Failed_mismatch es"
  "bd_mismatched (tally_entries es) > 0 \<longleftrightarrow>
     list_ex (\<lambda>e. de_category e = Amount_mismatch) es \<or> list_ex (\<lambda>e. de_category e = Missing) es"
  "bd_unexpected (tally_entries es) = count_of Unexpected es"
proof -
  have "0 < count_of Amount_mismatch es + count_of Missing es \<longleftrightarrow>
      0 < count_of Amount_mismatch es \<or> 0 < count_of Missing es"
    using count_of_nonneg [of Amount_mismatch es] count_of_nonneg [of Missing es] by arith
  then show "bd_mismatched (tally_entries es) > 0 \<longleftrightarrow>
     list_ex (\<lambda>e. de_category e = Amount_mismatch) es \<or> list_ex (\<lambda>e. de_category e = Missing) es"
    by (simp add: tally_entries_counts breakdown_of_counts_def count_or_zero_def Let_def count_of_pos)
qed (simp_all add: tally_entries_counts breakdown_of_counts_def count_or_zero_def Let_def count_total)

text \<open>The status a list of entries deserves, and whether somebody has to act.\<close>

definition has_category :: "diff_category \<Rightarrow> diff_entry list \<Rightarrow> bool" where
  "has_category c es = list_ex (\<lambda>e. de_category e = c) es"

definition deserved_status :: "diff_entry list \<Rightarrow> reconciliation_status" where
  "deserved_status es =
     (if es = [] then Pending
      else if has_category Failed_mismatch es then Failed
      else if has_category Amount_mismatch es \<or> has_category Missing es \<or> has_category Unexpected es then Mismatched
      else if \<not> has_category Match es then Pending
      else if has_category Still_pending es then Partial
      else Matched)"

lemma good_entries:
  "list_all (\<lambda>e. de_category e = Match \<or> de_category e = Still_pending) es \<longleftrightarrow>
     \<not> has_category Failed_mismatch es \<and> \<not> has_category Amount_mismatch es \<and> \<not> has_category Missing es \<and>
     \<not> has_category Unexpected es"
proof (induction es)
  case (Cons e es)
  then show ?case by (cases "de_category e") (auto simp: has_category_def)
qed (simp add: has_category_def)

lemma status_of_tally:
  "status_of_breakdown now (tally_entries es) =
     classified now (deserved_status es) (tally_entries es)
       (\<not> list_all (\<lambda>e. de_category e = Match \<or> de_category e = Still_pending) es) None"
proof -
  let ?has = "\<lambda>c. has_category c es"
  note good = good_entries [of es]
  show ?thesis
  proof (cases "es \<noteq> [] \<and> list_all (\<lambda>e. de_category e = Match \<or> de_category e = Still_pending) es")
    case True
    have zero: "count_of c es = 0" if "\<not> ?has c" for c
      using that count_of_pos [of c es] count_of_nonneg [of c es] by (simp add: has_category_def)
    have n: "int (length es) = count_of Match es + count_of Still_pending es" "es \<noteq> []"
      using True good zero count_total [of es] by simp_all
    have pos: "0 < count_of c es \<longleftrightarrow> ?has c" for c by (simp add: count_of_pos has_category_def)
    have total: "bd_total (tally_entries es) \<noteq> 0" using n(2) by (simp add: tally_fields)
    have m: "\<not> bd_failed (tally_entries es) > 0"
      "\<not> bd_mismatched (tally_entries es) > 0" "\<not> bd_unexpected (tally_entries es) > 0"
      using True good by (simp_all add: tally_fields pos) (simp_all add: has_category_def)
    have d: "deserved_status es = (if \<not> ?has Match then Pending else if ?has Still_pending then Partial else Matched)"
      using True good by (simp add: deserved_status_def)
    consider "\<not> ?has Match" | "?has Match" "?has Still_pending" | "?has Match" "\<not> ?has Still_pending" by blast
    then show ?thesis
    proof cases
      case 1
      then have "bd_pending (tally_entries es) = bd_total (tally_entries es)"
        using n zero [of Match] by (simp add: tally_fields)
      with total m d 1 True show ?thesis by (simp add: status_of_breakdown_def)
    next
      case 2
      then have "0 < count_of Match es" "0 < count_of Still_pending es" by (simp_all add: pos)
      then have "bd_pending (tally_entries es) \<noteq> bd_total (tally_entries es)"
        "bd_pending (tally_entries es) > 0" "bd_matched (tally_entries es) > 0"
        using n by (simp_all add: tally_fields)
      with total m d 2 True show ?thesis by (simp add: status_of_breakdown_def)
    next
      case 3
      then have "0 < count_of Match es" by (simp add: pos)
      with 3 have "bd_pending (tally_entries es) \<noteq> bd_total (tally_entries es)"
        "\<not> bd_pending (tally_entries es) > 0" "bd_matched (tally_entries es) = bd_total (tally_entries es)"
        using n zero [of Still_pending] by (simp_all add: tally_fields)
      with total m d 3 True show ?thesis by (simp add: status_of_breakdown_def)
    qed
  next
    case False
    show ?thesis
    proof (cases "es = []")
      case True
      then show ?thesis by (simp add: status_of_breakdown_def tally_fields deserved_status_def)
    next
      case nonempty: False
      with False have bad: "?has Failed_mismatch \<or> ?has Amount_mismatch \<or> ?has Missing \<or> ?has Unexpected"
        "\<not> list_all (\<lambda>e. de_category e = Match \<or> de_category e = Still_pending) es"
        using good by auto
      show ?thesis
      proof (cases "?has Failed_mismatch")
        case True
        then show ?thesis using nonempty bad
          by (simp add: status_of_breakdown_def deserved_status_def tally_fields has_category_def count_of_pos)
      next
        case no_failure: False
        with bad have "bd_mismatched (tally_entries es) > 0 \<or> bd_unexpected (tally_entries es) > 0"
          by (simp add: tally_fields has_category_def count_of_pos)
        moreover have "\<not> bd_failed (tally_entries es) > 0" "bd_total (tally_entries es) \<noteq> 0"
          using no_failure nonempty by (simp_all add: tally_fields has_category_def count_of_pos)
        moreover have "deserved_status es = Mismatched"
          using nonempty no_failure bad(1) by (simp add: deserved_status_def)
        ultimately show ?thesis using bad(2) by (simp add: status_of_breakdown_def)
      qed
    qed
  qed
qed

lemma deserved_action:
  "is_action_required (deserved_status es) \<longleftrightarrow>
     \<not> list_all (\<lambda>e. de_category e = Match \<or> de_category e = Still_pending) es"
proof -
  have "list_all (\<lambda>e. de_category e = Match \<or> de_category e = Still_pending) es \<longleftrightarrow>
      \<not> has_category Failed_mismatch es \<and> \<not> has_category Amount_mismatch es \<and> \<not> has_category Missing es \<and>
      \<not> has_category Unexpected es"
    by (rule good_entries)
  then show ?thesis by (auto simp: is_action_required_def deserved_status_def has_category_def)
qed

text \<open>
  C17: A diff handed to the classifier, be it with its entries or with its counts alone, gets the status its entries
  deserve: failed, then mismatched, take precedence, matched needs every entry to match; and somebody is asked to act
  exactly when the diff is not fully reconciled, which is when the status is failed or mismatched.
\<close>
theorem diff_classification:
  assumes "inp = diff_payload (generate_diff t ps obs) \<or> inp = counts_payload (generate_diff t ps obs)"
  shows "cl_status (classify_reconciliation now inp None) = deserved_status (rd_entries (generate_diff t ps obs)) \<and>
    cl_requires_action (classify_reconciliation now inp None) =
      (\<not> rd_fully_reconciled (generate_diff t ps obs)) \<and>
    cl_requires_action (classify_reconciliation now inp None) =
      is_action_required (cl_status (classify_reconciliation now inp None))"
proof -
  let ?es = "rd_entries (generate_diff t ps obs)"
  have "classify_reconciliation now inp None = status_of_breakdown now (tally_entries ?es)"
    using assms breakdown_diff [of t ps obs]
    by (auto simp: classify_reconciliation_def payload_review_def diff_payload_def counts_payload_def)
  then have c: "classify_reconciliation now inp None =
      classified now (deserved_status ?es) (tally_entries ?es) (\<not> rd_fully_reconciled (generate_diff t ps obs)) None"
    by (simp add: status_of_tally diff_fully)
  have "is_action_required (deserved_status ?es) \<longleftrightarrow> \<not> rd_fully_reconciled (generate_diff t ps obs)"
    using deserved_action [of ?es] by (simp add: diff_fully)
  with c show ?thesis by (simp add: classified_def)
qed

text \<open>
  What a manual review decides depends on how it is recorded: an escalated review applied to a classification
  asks for action, the same review handed to the classifier, now or at the next classification, never does.
\<close>
theorem escalation_lost:
  assumes "by \<noteq> []" "notes \<noteq> []"
    and "r = \<lparr>mr_reviewed_by = by, mr_reviewed_at = now, mr_notes = notes, mr_resolved_outcome = Some Escalated\<rparr>"
  shows "(\<exists>c'. apply_manual_review now c by notes (Some Escalated) = Inr c' \<and>
      cl_requires_action c' \<and> cl_manual_review c' = Some r) \<and>
    \<not> cl_requires_action (classify_reconciliation later inp (Some r))"
  using assms by (simp add: apply_manual_review_def classify_reconciliation_def classified_def)

section \<open>Snapshots\<close>

record summary_metrics =
  sm_match_percentage :: int
  sm_discrepancy_count :: int
  sm_amount_mismatch_count :: nat
  sm_missing_payments_count :: nat
  sm_unexpected_payments_count :: nat
  sm_still_pending_count :: nat

record observed_metrics =
  om_confirmed :: nat
  om_failed :: nat
  om_not_found :: nat
  om_total :: int

record reconciliation_snapshot =
  rs_snapshot_id :: string
  rs_created_at :: int
  rs_total_expected :: int
  rs_payment_count :: nat
  rs_observed :: observed_metrics
  rs_observed_at :: int
  rs_diff :: diff_result
  rs_metrics :: summary_metrics

record snapshot_comparison =
  sc_snapshot1_id :: string
  sc_snapshot2_id :: string
  sc_time_difference :: int
  sc_match_percentage_change :: int
  sc_discrepancy_count_change :: int
  sc_amount_mismatch_change :: int
  sc_missing_payments_change :: int
  sc_is_improving :: bool
  sc_is_regressing :: bool
  sc_fully_reconciled :: bool

text \<open>
  \<open>percent m n\<close> stands for \<open>Math.round((m / n) * 100)\<close> in double arithmetic; nothing proved depends on its value.
\<close>

definition calculate_summary_metrics :: "(nat \<Rightarrow> nat \<Rightarrow> int) \<Rightarrow> diff_result \<Rightarrow> summary_metrics" where
  "calculate_summary_metrics percent d =
     (let n = length (rd_entries d); m = rd_counts d Match
      in \<lparr>sm_match_percentage = (if n > 0 then percent m n else 100),
          sm_discrepancy_count = int n - int m - int (rd_counts d Still_pending),
          sm_amount_mismatch_count = rd_counts d Amount_mismatch,
          sm_missing_payments_count = rd_counts d Missing,
          sm_unexpected_payments_count = rd_counts d Unexpected,
          sm_still_pending_count = rd_counts d Still_pending\<rparr>)"

definition observe_payment :: "observed_payment \<Rightarrow> observed_metrics \<Rightarrow> observed_metrics" where
  "observe_payment ob m =
     (let m' = (case ob_status ob of
                  Confirmed \<Rightarrow> m\<lparr>om_confirmed := om_confirmed m + 1\<rparr>
                | ChainFailed \<Rightarrow> m\<lparr>om_failed := om_failed m + 1\<rparr>
                | NotFound \<Rightarrow> m\<lparr>om_not_found := om_not_found m + 1\<rparr>)
      in case ob_amount ob of None \<Rightarrow> m' | Some a \<Rightarrow> m'\<lparr>om_total := om_total m' + a\<rparr>)"

definition calculate_observed_metrics :: "observed_payment list \<Rightarrow> observed_metrics" where
  "calculate_observed_metrics obs =
     fold observe_payment obs \<lparr>om_confirmed = 0, om_failed = 0, om_not_found = 0, om_total = 0\<rparr>"

definition extract_expected_payments :: "payment_outcome list \<Rightarrow> payment_outcome list" where
  "extract_expected_payments ps =
     map (\<lambda>p. p\<lparr>po_asset := (if po_asset p = [] then ''native'' else po_asset p)\<rparr>) ps"

definition build_snapshot ::
  "(nat \<Rightarrow> nat \<Rightarrow> int) \<Rightarrow> int \<Rightarrow> string \<Rightarrow> payment_outcome list \<Rightarrow> observed_payment list \<Rightarrow> reconciliation_snapshot" where
  "build_snapshot percent now snapshot_id ps obs =
     (let expected = extract_expected_payments ps; d = generate_diff now ps obs
      in \<lparr>rs_snapshot_id = snapshot_id, rs_created_at = now,
          rs_total_expected = foldl (\<lambda>sum p. sum + po_amount p) 0 expected,
          rs_payment_count = length expected, rs_observed = calculate_observed_metrics obs,
          rs_observed_at = (if obs = [] then now else Max (set (map ob_at obs))),
          rs_diff = d, rs_metrics = calculate_summary_metrics percent d\<rparr>)"

definition compare_snapshots :: "reconciliation_snapshot \<Rightarrow> reconciliation_snapshot \<Rightarrow> snapshot_comparison" where
  "compare_snapshots s1 s2 =
     (let m1 = rs_metrics s1; m2 = rs_metrics s2;
          change = sm_discrepancy_count m2 - sm_discrepancy_count m1
      in \<lparr>sc_snapshot1_id = rs_snapshot_id s1, sc_snapshot2_id = rs_snapshot_id s2,
          sc_time_difference = rs_created_at s2 - rs_created_at s1,
          sc_match_percentage_change = sm_match_percentage m2 - sm_match_percentage m1,
          sc_discrepancy_count_change = change,
          sc_amount_mismatch_change = int (sm_amount_mismatch_count m2) - int (sm_amount_mismatch_count m1),
          sc_missing_payments_change = int (sm_missing_payments_count m2) - int (sm_missing_payments_count m1),
          sc_is_improving = change < 0, sc_is_regressing = change > 0,
          sc_fully_reconciled = rd_fully_reconciled (rs_diff s2)\<rparr>)"

text \<open>The discrepancies of a snapshot are its entries that are neither matched nor pending.\<close>

lemma discrepancy_count:
  "sm_discrepancy_count (rs_metrics (build_snapshot percent now i ps obs)) =
     int (length (filter (\<lambda>e. de_category e \<noteq> Match \<and> de_category e \<noteq> Still_pending)
       (rd_entries (generate_diff now ps obs))))"
proof -
  have "int (length es) - int (length (filter (\<lambda>e. de_category e = Match) es)) -
      int (length (filter (\<lambda>e. de_category e = Still_pending) es)) =
    int (length (filter (\<lambda>e. de_category e \<noteq> Match \<and> de_category e \<noteq> Still_pending) es))" for es
    by (induction es) auto
  then show ?thesis by (simp add: build_snapshot_def calculate_summary_metrics_def Let_def diff_counts)
qed

text \<open>
  A comparison of two snapshots that reports a fully reconciled run never reports a regression, and reports an
  improvement exactly when the first snapshot was not fully reconciled.
\<close>
lemma reconciled_comparison:
  assumes "s1 = build_snapshot percent t i ps obs" "s2 = build_snapshot percent u j ps' obs'"
    and "sc_fully_reconciled (compare_snapshots s1 s2)"
  shows "\<not> sc_is_regressing (compare_snapshots s1 s2) \<and>
    (sc_is_improving (compare_snapshots s1 s2) \<longleftrightarrow> \<not> rd_fully_reconciled (rs_diff s1))"
proof -
  have zero: "sm_discrepancy_count (rs_metrics (build_snapshot percent now i ps obs)) = 0 \<longleftrightarrow>
      rd_fully_reconciled (rs_diff (build_snapshot percent now i ps obs))" for now i ps obs
    unfolding discrepancy_count
    by (auto simp: build_snapshot_def Let_def diff_fully list_all_iff filter_empty_conv)
  have "sm_discrepancy_count (rs_metrics s2) = 0"
    using assms(2,3) zero by (simp add: compare_snapshots_def Let_def)
  moreover have "0 \<le> sm_discrepancy_count (rs_metrics s1)" using assms(1) by (simp add: discrepancy_count)
  ultimately show ?thesis using zero [of t i ps obs] assms(1) by (auto simp: compare_snapshots_def Let_def)
qed

section \<open>The liability report\<close>

datatype payroll_status = Draft | Locked | Settled | Cancelled

datatype readiness_blocker =
  Unreserved_liabilities | Pending_settlement_blocker | Active_refunds | Disputed_hold | Unclosed_period | Missing_reservations

type_synonym liability = "string \<times> int"

record employer_liability_summary =
  el_employer :: string
  el_total_reserved :: int
  el_total_settled :: int
  el_total_refunded :: int
  el_total_unresolved_holds :: int
  el_total_disputed :: int
  el_recipient_count :: nat
  el_blockers :: "readiness_blocker list"

record asset_liability_breakdown =
  ab_asset :: string
  ab_reserved :: int
  ab_settled :: int
  ab_refunded :: int
  ab_unresolved_holds :: int
  ab_disputed :: int

record liability_report =
  lr_employer_summaries :: "employer_liability_summary list"
  lr_asset_breakdowns :: "asset_liability_breakdown list"
  lr_is_closeable :: bool
  lr_blockers :: "readiness_blocker list"

definition total_amount :: "liability list \<Rightarrow> int" where
  "total_amount xs = foldl (\<lambda>sum r. sum + snd r) 0 xs"

definition reserved_outcomes :: "liability list \<Rightarrow> payment_outcome list" where
  "reserved_outcomes rs =
     map (\<lambda>r. \<lparr>po_recipient = fst r, po_amount = snd r, po_asset = ''native'', po_status = PaySuccess, po_tx_hash = None\<rparr>) rs"

definition calculate_employer_summary ::
  "string \<Rightarrow> liability list \<Rightarrow> liability list \<Rightarrow> liability list \<Rightarrow> liability list \<Rightarrow> liability list \<Rightarrow> employer_liability_summary" where
  "calculate_employer_summary employer reservations settled refunded holds disputes =
     (let recipients = remdups (map fst (reservations @ settled @ refunded @ holds @ disputes));
          blocked = remdups (map fst (filter (\<lambda>h. snd h > 0) holds @ filter (\<lambda>d. snd d > 0) disputes))
      in \<lparr>el_employer = employer, el_total_reserved = total_amount reservations, el_total_settled = total_amount settled,
          el_total_refunded = total_amount refunded, el_total_unresolved_holds = total_amount holds,
          el_total_disputed = total_amount disputes, el_recipient_count = length recipients,
          el_blockers = (if length blocked > 0 then [Disputed_hold] else []) @
            (if total_amount holds > 0 then [Unreserved_liabilities] else [])\<rparr>)"

definition calculate_asset_breakdowns ::
  "liability list \<Rightarrow> liability list \<Rightarrow> liability list \<Rightarrow> liability list \<Rightarrow> liability list \<Rightarrow> asset_liability_breakdown list" where
  "calculate_asset_breakdowns reservations settled refunded holds disputes =
     [\<lparr>ab_asset = ''native'', ab_reserved = total_amount reservations, ab_settled = total_amount settled,
       ab_refunded = total_amount refunded, ab_unresolved_holds = total_amount holds, ab_disputed = total_amount disputes\<rparr>]"

definition calculate_readiness_blockers ::
  "payroll_status \<Rightarrow> int \<Rightarrow> int \<Rightarrow> int \<Rightarrow> int \<Rightarrow> int \<Rightarrow> diff_result \<Rightarrow> readiness_blocker list" where
  "calculate_readiness_blockers status reserved settled refunded holds disputed d =
     (if status = Draft \<or> status = Locked then
        (if holds > 0 then [Unreserved_liabilities] else []) @
        (if disputed > 0 then [Disputed_hold] else []) @
        (if reserved > settled \<and> settled > 0 then [Pending_settlement_blocker] else [])
      else []) @
     (if rd_counts d Unexpected > 0 \<or> rd_counts d Missing > 0 then [Unclosed_period] else []) @
     (if status = Draft \<and> reserved > 0 then [Missing_reservations] else [])"

definition build_report ::
  "int \<Rightarrow> string \<Rightarrow> payroll_status \<Rightarrow> liability list \<Rightarrow> liability list \<Rightarrow> liability list \<Rightarrow> liability list \<Rightarrow> liability list \<Rightarrow>
   observed_payment list \<Rightarrow> liability_report" where
  "build_report now employer status reservations settled refunded holds disputes obs =
     (let d = generate_diff now (reserved_outcomes reservations) obs;
          blockers = calculate_readiness_blockers status (total_amount reservations) (total_amount settled)
            (total_amount refunded) (total_amount holds) (total_amount disputes) d
      in \<lparr>lr_employer_summaries = [calculate_employer_summary employer reservations settled refunded holds disputes],
          lr_asset_breakdowns = calculate_asset_breakdowns reservations settled refunded holds disputes,
          lr_is_closeable = (length blockers = 0), lr_blockers = blockers\<rparr>)"

lemma missing_iff:
  "po_status p = PaySuccess \<Longrightarrow> diff_category_of p ob = Missing \<longleftrightarrow> (\<forall>o'. ob = Some o' \<longrightarrow> ob_status o' = NotFound)"
  by (auto simp: diff_category_of_def Let_def split: option.splits)

text \<open>Every reserved payment has a trace on the chain, and nothing else does.\<close>

definition chain_accounts_for :: "observed_payment list \<Rightarrow> liability list \<Rightarrow> bool" where
  "chain_accounts_for obs rs \<longleftrightarrow>
     (\<forall>r \<in> set rs. \<exists>ob. latest_observation obs (match_key (fst r) ''native'') ob \<and> ob_status ob \<noteq> NotFound) \<and>
     (\<forall>ob \<in> set obs. ob_status ob = NotFound \<or> (\<exists>r \<in> set rs. observed_key ob = Some (match_key (fst r) ''native'')))"

lemma count_unexpected:
  "rd_counts (generate_diff now ps obs) Unexpected > 0 \<longleftrightarrow>
     (\<exists>ob \<in> set obs. \<not> claimed ps ob \<and> ob_status ob \<noteq> NotFound)"
  unfolding diff_counts length_greater_0_conv filter_empty_conv diff_entries by (simp add: ball_Un) blast

lemma count_missing:
  "rd_counts (generate_diff now ps obs) Missing > 0 \<longleftrightarrow>
     (\<exists>p \<in> set ps. diff_category_of p (dict_get (observed_by_key obs) (outcome_key p)) = Missing)"
  unfolding diff_counts length_greater_0_conv filter_empty_conv diff_entries by (simp add: ball_Un)

lemma period_blocker_iff:
  "rd_counts (generate_diff now (reserved_outcomes rs) obs) Unexpected > 0 \<or>
   rd_counts (generate_diff now (reserved_outcomes rs) obs) Missing > 0 \<longleftrightarrow> \<not> chain_accounts_for obs rs"
proof -
  have claimed: "claimed (reserved_outcomes rs) ob \<longleftrightarrow> (\<exists>r \<in> set rs. observed_key ob = Some (match_key (fst r) ''native''))"
    for ob by (auto simp: claimed_def reserved_outcomes_def outcome_key_def)
  have missing: "(\<exists>p \<in> set (reserved_outcomes rs). diff_category_of p (dict_get (observed_by_key obs) (outcome_key p)) = Missing) \<longleftrightarrow>
      (\<exists>r \<in> set rs. \<forall>ob. latest_observation obs (match_key (fst r) ''native'') ob \<longrightarrow> ob_status ob = NotFound)"
    by (auto simp: reserved_outcomes_def outcome_key_def missing_iff observed_by_key_iff)
  show ?thesis
    unfolding chain_accounts_for_def count_unexpected count_missing missing claimed by blast
qed

text \<open>
  When a period may be closed. In draft and locked, positive holds, positive disputes and a partial settlement
  block it, in draft also any reservation; beyond that only the trace of the payments on the chain counts. So a
  settled or cancelled period is closeable whatever is held, disputed or refunded, and in every status a payment that
  failed on the chain or moved a different amount blocks nothing.
\<close>
theorem period_closeable_iff:
  "lr_is_closeable (build_report now employer status reservations settled refunded holds disputes obs) \<longleftrightarrow>
     (status \<in> {Draft, Locked} \<longrightarrow> total_amount holds \<le> 0 \<and> total_amount disputes \<le> 0 \<and>
        (total_amount reservations \<le> total_amount settled \<or> total_amount settled \<le> 0)) \<and>
     (status = Draft \<longrightarrow> total_amount reservations \<le> 0) \<and>
     chain_accounts_for obs reservations"
  using period_blocker_iff [of now reservations obs]
  by (auto simp: build_report_def calculate_readiness_blockers_def Let_def)

section \<open>Witnesses\<close>

definition example_outcome :: payment_outcome where
  "example_outcome =
     \<lparr>po_recipient = ''GA'', po_amount = 100, po_asset = ''native'', po_status = PaySuccess, po_tx_hash = None\<rparr>"

definition example_observed :: "int \<Rightarrow> observed_payment" where
  "example_observed t =
     \<lparr>ob_recipient = ''GA'', ob_amount = Some 100, ob_asset = Some ''native'', ob_tx_hash = None,
      ob_status = Confirmed, ob_at = t\<rparr>"

theorem fully_reconciled_iff_witness:
  "\<not> rd_fully_reconciled (generate_diff 0 [] [example_observed 5])"
  using fully_reconciled_iff [of 0 "[]" "[example_observed 5]"] by (simp add: example_observed_def claimed_def)

theorem double_payment_unseen_witness:
  "generate_diff 0 [example_outcome] ([example_observed 5] @ [(example_observed 4)\<lparr>ob_amount := Some 999\<rparr>]) =
     generate_diff 0 [example_outcome] [example_observed 5]"
  by (rule double_payment_unseen [where x = "example_observed 5"])
    (simp_all add: claimed_def example_observed_def example_outcome_def observed_key_def outcome_key_def)

theorem diff_classification_witness:
  "cl_requires_action (classify_reconciliation 9 (counts_payload (generate_diff 0 [example_outcome] [])) None)"
  using diff_classification [of "counts_payload (generate_diff 0 [example_outcome] [])" 0 "[example_outcome]" "[]" 9]
  by (simp add: diff_fully diff_entries observed_by_key_def diff_category_of_def example_outcome_def)

theorem escalation_lost_witness:
  "\<not> cl_requires_action (classify_reconciliation 9 NoInput
     (Some \<lparr>mr_reviewed_by = ''GB'', mr_reviewed_at = 7, mr_notes = ''see ticket'', mr_resolved_outcome = Some Escalated\<rparr>))"
  using escalation_lost [of "''GB''" "''see ticket''" _ 7 _ 9 NoInput] by simp

theorem period_closeable_iff_witness:
  "lr_is_closeable (build_report 0 ''GE'' Settled [] [] [] [(''GA'', 50)] [(''GA'', 70)] [])"
  using period_closeable_iff [of 0 "''GE''" Settled "[]" "[]" "[]" "[(''GA'', 50)]" "[(''GA'', 70)]" "[]"]
  by (simp add: chain_accounts_for_def)

end
