(* ===== verification/TreasuryReservations.thy ===== *)
theory TreasuryReservations
  imports Prelude Complex_Main
begin

text \<open>
  Funding of a payroll: the reservation helpers (\<open>packages/core/src/reservations/helpers.ts\<close>), the reconciliation of
  reservations with the contract (\<open>reconciliation/ReservationReconciliationHelper.ts\<close>) and the treasury readiness
  check (\<open>treasury/readiness.ts\<close>). Texts made for people are left out, the clock is an argument.
\<close>

section \<open>Reservations\<close>

datatype reservation_status = Reserved | Released | Finalized | Expired | Cancelled

datatype reservation_event_type =
  EvReserved | EvReleased | EvFinalized | EvExpired | EvCancelled | EvDuplicateReleaseAttempt

record funding_reservation =
  fr_id :: string
  fr_employer :: string
  fr_reserved_amount :: int
  fr_asset :: string
  fr_status :: reservation_status
  fr_created_at :: int
  fr_expires_at :: int
  fr_concluded_at :: "int option"
  fr_used_amount :: "int option"
  fr_released_amount :: "int option"
  fr_creation_tx_hash :: "string option"
  fr_conclusion_tx_hash :: "string option"
  fr_memo :: "string option"

record reservation_event =
  re_event_id :: string
  re_reservation_id :: string
  re_event_type :: reservation_event_type
  re_employer :: string
  re_amount :: int
  re_asset :: string
  re_timestamp :: int
  re_tx_hash :: string
  re_reason :: "string option"
  re_conflicting_event_id :: "string option"

fun status_name :: "reservation_status \<Rightarrow> string" where
  "status_name Reserved = ''reserved''"
| "status_name Released = ''released''"
| "status_name Finalized = ''finalized''"
| "status_name Expired = ''expired''"
| "status_name Cancelled = ''cancelled''"

datatype reservation_error =
  WrongStatus "reservation_status list" reservation_status
| EmployerRequired
| AmountNotPositive
| AssetRequired
| ExpirationNotInFuture
| ReleaseTooLarge int int
| UseTooLarge int int

record reserve_request =
  rq_employer :: string
  rq_amount :: int
  rq_asset :: string
  rq_expiration_unix_seconds :: int
  rq_memo :: "string option"
  rq_correlation_id :: "string option"

record release_request =
  rl_reservation_id :: string
  rl_amount :: int
  rl_reason :: "string option"

record execution_counts =
  ec_total_payments :: int
  ec_successful_payments :: int
  ec_failed_payments :: int

record finalize_request =
  fq_reservation_id :: string
  fq_used_amount :: int
  fq_execution_summary :: "execution_counts option"

definition assert_reservation_status ::
  "funding_reservation \<Rightarrow> reservation_status list \<Rightarrow> (reservation_error, unit) result" where
  "assert_reservation_status r expected = throw_if (fr_status r \<notin> set expected) (WrongStatus expected (fr_status r))"

definition is_reservation_expired :: "funding_reservation \<Rightarrow> int \<Rightarrow> bool" where
  "is_reservation_expired r now = (now > fr_expires_at r)"

definition reservation_time_remaining :: "funding_reservation \<Rightarrow> int \<Rightarrow> int" where
  "reservation_time_remaining r now = fr_expires_at r - now"

definition is_reservation_terminal :: "funding_reservation \<Rightarrow> bool" where
  "is_reservation_terminal r =
     (fr_status r = Finalized \<or> fr_status r = Released \<or> fr_status r = Expired \<or> fr_status r = Cancelled)"

definition create_reserve_request ::
  "string \<Rightarrow> int \<Rightarrow> string \<Rightarrow> int \<Rightarrow> string option \<Rightarrow> string option \<Rightarrow> (reservation_error, reserve_request) result" where
  "create_reserve_request employer amount asset expiration memo correlation_id =
     bind_result (throw_if (employer = []) EmployerRequired) (\<lambda>_.
     bind_result (throw_if (amount \<le> 0) AmountNotPositive) (\<lambda>_.
     bind_result (throw_if (asset = []) AssetRequired) (\<lambda>_.
     bind_result (throw_if (expiration \<le> 0) ExpirationNotInFuture) (\<lambda>_.
       Inr \<lparr>rq_employer = employer, rq_amount = amount, rq_asset = asset, rq_expiration_unix_seconds = expiration,
            rq_memo = memo, rq_correlation_id = correlation_id\<rparr>))))"

definition create_full_release_request :: "funding_reservation \<Rightarrow> string option \<Rightarrow> release_request" where
  "create_full_release_request r reason =
     \<lparr>rl_reservation_id = fr_id r, rl_amount = fr_reserved_amount r, rl_reason = reason\<rparr>"

definition create_partial_release_request ::
  "funding_reservation \<Rightarrow> int \<Rightarrow> string option \<Rightarrow> (reservation_error, release_request) result" where
  "create_partial_release_request r amount reason =
     bind_result (throw_if (amount > fr_reserved_amount r) (ReleaseTooLarge amount (fr_reserved_amount r))) (\<lambda>_.
       Inr \<lparr>rl_reservation_id = fr_id r, rl_amount = amount, rl_reason = reason\<rparr>)"

definition create_finalize_request ::
  "funding_reservation \<Rightarrow> int \<Rightarrow> execution_counts option \<Rightarrow> (reservation_error, finalize_request) result" where
  "create_finalize_request r used summary =
     bind_result (throw_if (used > fr_reserved_amount r) (UseTooLarge used (fr_reserved_amount r))) (\<lambda>_.
       Inr \<lparr>fq_reservation_id = fr_id r, fq_used_amount = used, fq_execution_summary = summary\<rparr>)"

text \<open>\<open>if (reservation.releasedAmount)\<close>: present and not \<open>0n\<close>\<close>

definition calculate_reservation_remaining :: "funding_reservation \<Rightarrow> int" where
  "calculate_reservation_remaining r =
     (if fr_status r = Released \<or> fr_status r = Finalized then
        (case fr_released_amount r of
           Some a \<Rightarrow> if a \<noteq> 0 then a
             else (case fr_used_amount r of Some u \<Rightarrow> if u \<noteq> 0 then fr_reserved_amount r - u else 0 | None \<Rightarrow> 0)
         | None \<Rightarrow> (case fr_used_amount r of Some u \<Rightarrow> if u \<noteq> 0 then fr_reserved_amount r - u else 0 | None \<Rightarrow> 0))
      else fr_reserved_amount r)"

subsection \<open>The timeline of a reservation\<close>

fun lifecycle_status :: "reservation_event_type \<Rightarrow> reservation_event_type option" where
  "lifecycle_status EvDuplicateReleaseAttempt = None"
| "lifecycle_status t = Some t"

record timeline_entry =
  tl_event_id :: string
  tl_event_type :: reservation_event_type
  tl_timestamp :: int
  tl_amount :: int
  tl_transition :: "(reservation_event_type \<times> reservation_event_type) option"

definition timeline_entry_of :: "reservation_event_type option \<Rightarrow> reservation_event \<Rightarrow> timeline_entry" where
  "timeline_entry_of previous e =
     \<lparr>tl_event_id = re_event_id e, tl_event_type = re_event_type e, tl_timestamp = re_timestamp e,
      tl_amount = re_amount e,
      tl_transition = (case previous of None \<Rightarrow> None
        | Some s \<Rightarrow> if re_event_type e \<noteq> s then Some (s, re_event_type e) else None)\<rparr>"

definition next_status :: "reservation_event_type option \<Rightarrow> reservation_event \<Rightarrow> reservation_event_type option" where
  "next_status previous e = (case lifecycle_status (re_event_type e) of None \<Rightarrow> previous | Some s \<Rightarrow> Some s)"

fun timeline_from :: "reservation_event_type option \<Rightarrow> reservation_event list \<Rightarrow> timeline_entry list" where
  "timeline_from previous [] = []"
| "timeline_from previous (e # es) = timeline_entry_of previous e # timeline_from (next_status previous e) es"

definition build_reservation_timeline :: "reservation_event list \<Rightarrow> timeline_entry list" where
  "build_reservation_timeline events = timeline_from None (sort_key re_timestamp events)"

subsection \<open>Issues of an event history\<close>

datatype issue_kind = MultipleReleases | ConflictingTerminals | EventsAfterTerminal

datatype issue_severity = IssueWarning | IssueError

record reservation_issue =
  ri_issue :: issue_kind
  ri_severity :: issue_severity
  ri_event_ids :: "string list"

definition event_counts :: "reservation_event list \<Rightarrow> reservation_event_type \<Rightarrow> nat" where
  "event_counts events = fold (\<lambda>e c. c(re_event_type e := c (re_event_type e) + 1)) events (\<lambda>_. 0)"

definition ids_of :: "(reservation_event_type \<Rightarrow> bool) \<Rightarrow> reservation_event list \<Rightarrow> string list" where
  "ids_of P events = map re_event_id (filter (\<lambda>e. P (re_event_type e)) events)"

definition is_terminal_type :: "reservation_event_type \<Rightarrow> bool" where
  "is_terminal_type t = (t \<in> {EvFinalized, EvReleased, EvExpired, EvCancelled})"

definition after_terminal_step :: "reservation_event \<Rightarrow> bool \<times> string list \<Rightarrow> bool \<times> string list" where
  "after_terminal_step e st =
     (case st of (found, ids) \<Rightarrow>
        if is_terminal_type (re_event_type e) then (True, ids)
        else if found \<and> re_event_type e \<noteq> EvFinalized then (found, ids @ [re_event_id e])
        else (found, ids))"

definition events_after_terminal :: "reservation_event list \<Rightarrow> string list" where
  "events_after_terminal events = snd (fold after_terminal_step events (False, []))"

definition detect_reservation_issues :: "reservation_event list \<Rightarrow> reservation_issue list" where
  "detect_reservation_issues events =
     (let counts = event_counts events; late = events_after_terminal events
      in (if counts EvReleased > 1
          then [\<lparr>ri_issue = MultipleReleases, ri_severity = IssueWarning, ri_event_ids = ids_of (\<lambda>t. t = EvReleased) events\<rparr>]
          else []) @
         (if counts EvFinalized + counts EvReleased > 1
          then [\<lparr>ri_issue = ConflictingTerminals, ri_severity = IssueError,
                 ri_event_ids = ids_of (\<lambda>t. t = EvFinalized \<or> t = EvReleased) events\<rparr>]
          else []) @
         (if length late > 0
          then [\<lparr>ri_issue = EventsAfterTerminal, ri_severity = IssueError, ri_event_ids = late\<rparr>]
          else []))"

datatype release_classification = DuplicateReleaseAttempt | HarmlessRetry | ReleaseHistoryError

definition classify_duplicate_release ::
  "reservation_event \<Rightarrow> reservation_event list \<Rightarrow> release_classification \<times> string" where
  "classify_duplicate_release e all_events =
     (case re_conflicting_event_id e of
        None \<Rightarrow> (HarmlessRetry, [])
      | Some cid \<Rightarrow>
          if cid = [] then (HarmlessRetry, [])
          else (case find (\<lambda>x. re_event_id x = cid) all_events of
                  None \<Rightarrow> (ReleaseHistoryError, cid)
                | Some original \<Rightarrow>
                    if re_amount original = re_amount e \<and> re_employer original = re_employer e
                    then (DuplicateReleaseAttempt, cid) else (HarmlessRetry, cid)))"

lemma event_counts_iff: "event_counts events t = length (filter (\<lambda>e. re_event_type e = t) events)"
proof -
  have "fold (\<lambda>e c. c(re_event_type e := c (re_event_type e) + 1)) events f t =
      f t + length (filter (\<lambda>e. re_event_type e = t) events)" for f
    by (induction events arbitrary: f) auto
  then show ?thesis by (simp add: event_counts_def)
qed

text \<open>
  The transition shown for an event of the timeline names the last lifecycle status before it, when it differs.
\<close>

definition status_before :: "reservation_event_type option \<Rightarrow> reservation_event list \<Rightarrow> reservation_event_type option" where
  "status_before previous es =
     (case filter (\<lambda>e. re_event_type e \<noteq> EvDuplicateReleaseAttempt) es of
        [] \<Rightarrow> previous
      | f # fs \<Rightarrow> Some (re_event_type (last (f # fs))))"

lemma next_status_iff:
  "next_status previous e =
     (if re_event_type e = EvDuplicateReleaseAttempt then previous else Some (re_event_type e))"
  by (cases "re_event_type e") (simp_all add: next_status_def)

lemma status_before_Cons: "status_before previous (e # es) = status_before (next_status previous e) es"
  by (auto simp: status_before_def next_status_iff split: list.splits)

lemma timeline_from_nth:
  "timeline_from previous es = map (\<lambda>i. timeline_entry_of (status_before previous (take i es)) (es ! i)) [0..<length es]"
proof (induction es arbitrary: previous)
  case (Cons e es)
  have "timeline_from previous (e # es) = timeline_entry_of previous e #
      map (\<lambda>i. timeline_entry_of (status_before (next_status previous e) (take i es)) (es ! i)) [0..<length es]"
    using Cons by simp
  also have "\<dots> = map (\<lambda>i. timeline_entry_of (status_before previous (take i (e # es))) ((e # es) ! i)) [0..<length (e # es)]"
    by (simp add: upt_conv_Cons map_Suc_upt [symmetric] status_before_Cons o_def del: upt_Suc)
      (simp add: status_before_def)
  finally show ?case .
qed simp

lemma timeline_is_sorted: "sorted (map tl_timestamp (build_reservation_timeline events))"
proof -
  have "map tl_timestamp (timeline_from previous es) = map re_timestamp es" for previous es
    by (induction es arbitrary: previous) (simp_all add: timeline_entry_of_def)
  then show ?thesis by (simp add: build_reservation_timeline_def)
qed

text \<open>
  An event after a terminal one is reported only when it is itself not terminal: a second terminal event never is,
  and a rejected second release, which the contract records to show that it refused it, always is.
\<close>

lemma after_terminal_found:
  "after_terminal_step e (True, ids) =
     (True, ids @ (if is_terminal_type (re_event_type e) then [] else [re_event_id e]))"
  by (auto simp: after_terminal_step_def is_terminal_type_def)

lemma terminal_then_late:
  "fold after_terminal_step es (True, ids) = (True, ids @ ids_of (\<lambda>t. \<not> is_terminal_type t) es)"
  by (induction es arbitrary: ids) (simp_all add: after_terminal_found ids_of_def)

lemma events_after_terminal_split:
  assumes "\<forall>e \<in> set xs. \<not> is_terminal_type (re_event_type e)" "is_terminal_type (re_event_type t)"
  shows "events_after_terminal (xs @ t # ys) = ids_of (\<lambda>t. \<not> is_terminal_type t) ys"
proof -
  have "fold after_terminal_step xs (False, []) = (False, [])"
    using assms(1) by (induction xs) (simp_all add: after_terminal_step_def)
  moreover have "after_terminal_step t (False, []) = (True, [])" using assms(2) by (simp add: after_terminal_step_def)
  ultimately show ?thesis by (simp add: events_after_terminal_def terminal_then_late)
qed

section \<open>Reconciliation of reservations\<close>

datatype reservation_category =
  Agreed | Status_mismatch | Amount_mismatch | Missing_on_chain | Unexpected_on_chain | Duplicate_release |
  Orphaned_events | Expired_not_marked

record expected_reservation =
  xr_id :: string
  xr_status :: string
  xr_amount :: int
  xr_expires_at :: int
  xr_last_known_tx_hash :: "string option"

record observed_reservation =
  or_reservation :: "funding_reservation option"
  or_events :: "reservation_event list"
  or_observed_at :: int

record observed_view =
  ov_status :: reservation_status
  ov_amount :: int
  ov_expires_at :: int
  ov_last_event_tx_hash :: "string option"
  ov_event_count :: nat

record reservation_entry =
  rv_id :: string
  rv_category :: reservation_category
  rv_expected :: "expected_reservation option"
  rv_observed :: "observed_view option"
  rv_related_event_ids :: "string list option"

record reservation_reconciliation =
  rc_entries :: "reservation_entry list"
  rc_counts :: "reservation_category \<Rightarrow> nat"
  rc_fully_reconciled :: bool
  rc_at :: int

definition view_of :: "funding_reservation \<Rightarrow> reservation_event list \<Rightarrow> observed_view" where
  "view_of r events =
     \<lparr>ov_status = fr_status r, ov_amount = fr_reserved_amount r, ov_expires_at = fr_expires_at r,
      ov_last_event_tx_hash = (if events = [] then None else Some (re_tx_hash (last events))),
      ov_event_count = length events\<rparr>"

definition reservation_entry_of ::
  "string \<Rightarrow> reservation_category \<Rightarrow> expected_reservation option \<Rightarrow> observed_view option \<Rightarrow> string list option \<Rightarrow> reservation_entry" where
  "reservation_entry_of i c x v ids =
     \<lparr>rv_id = i, rv_category = c, rv_expected = x, rv_observed = v, rv_related_event_ids = ids\<rparr>"

definition same_release :: "reservation_event \<Rightarrow> reservation_event \<Rightarrow> bool" where
  "same_release a b = (re_amount a = re_amount b \<and> re_employer a = re_employer b)"

fun release_pairs :: "reservation_event list \<Rightarrow> (reservation_event \<times> reservation_event) list" where
  "release_pairs [] = []"
| "release_pairs (a # es) = map (\<lambda>b. (a, b)) (filter (same_release a) es) @ release_pairs es"

definition detect_duplicate_releases :: "reservation_event list \<Rightarrow> (reservation_event \<times> reservation_event) list" where
  "detect_duplicate_releases events = release_pairs (filter (\<lambda>e. re_event_type e = EvReleased) events)"

definition is_expired_not_marked :: "int \<Rightarrow> funding_reservation \<Rightarrow> bool" where
  "is_expired_not_marked now r = (fr_status r = Reserved \<and> now > fr_expires_at r)"

definition detect_orphaned_events ::
  "reservation_event list \<Rightarrow> (string, funding_reservation) dict \<Rightarrow> reservation_event list" where
  "detect_orphaned_events events rs = filter (\<lambda>e. dict_get rs (re_reservation_id e) = None) events"

definition compare_reservation_states ::
  "int \<Rightarrow> expected_reservation \<Rightarrow> funding_reservation \<Rightarrow> reservation_event list \<Rightarrow> reservation_entry" where
  "compare_reservation_states now x r events =
     (let pairs = detect_duplicate_releases events; ids = Some (map re_event_id events);
          result = (\<lambda>c rel. reservation_entry_of (xr_id x) c (Some x) (Some (view_of r events)) rel)
      in if length pairs > 0
         then result Duplicate_release (Some (concat (map (\<lambda>(a, b). [re_event_id a, re_event_id b]) pairs)))
         else if is_expired_not_marked now r then result Expired_not_marked ids
         else if xr_status x \<noteq> status_name (fr_status r) then result Status_mismatch ids
         else if xr_amount x \<noteq> fr_reserved_amount r then result Amount_mismatch ids
         else result Agreed ids)"

definition reservation_id_of :: "expected_reservation option \<Rightarrow> observed_reservation \<Rightarrow> string option" where
  "reservation_id_of x ob =
     (case x of
        Some e \<Rightarrow> if xr_id e \<noteq> [] then Some (xr_id e) else map_option fr_id (or_reservation ob)
      | None \<Rightarrow> map_option fr_id (or_reservation ob))"

definition reconcile_single_reservation ::
  "int \<Rightarrow> expected_reservation option \<Rightarrow> observed_reservation \<Rightarrow> reservation_entry" where
  "reconcile_single_reservation now x ob =
     (let rid = reservation_id_of x ob; ids = Some (map re_event_id (or_events ob))
      in if \<not> truthy rid
         then reservation_entry_of ''unknown'' Unexpected_on_chain None
           (map_option (\<lambda>r. view_of r (or_events ob)) (or_reservation ob)) None
         else case (x, or_reservation ob) of
             (Some e, None) \<Rightarrow> reservation_entry_of (the rid) Missing_on_chain (Some e) None ids
           | (None, Some r) \<Rightarrow>
               reservation_entry_of (the rid) Unexpected_on_chain None (Some (view_of r (or_events ob))) ids
           | (Some e, Some r) \<Rightarrow> compare_reservation_states now e r (or_events ob)
           | (None, None) \<Rightarrow> reservation_entry_of (the rid) Unexpected_on_chain None None None)"

definition all_reservation_ids ::
  "(string, expected_reservation) dict \<Rightarrow> (string, observed_reservation) dict \<Rightarrow> string list" where
  "all_reservation_ids xs obs = map fst xs @ filter (\<lambda>k. k \<notin> set (map fst xs)) (map fst obs)"

definition reconcile_multiple_reservations ::
  "int \<Rightarrow> (string, expected_reservation) dict \<Rightarrow> (string, observed_reservation) dict \<Rightarrow> reservation_reconciliation" where
  "reconcile_multiple_reservations now xs obs =
     (let entries = map (\<lambda>k. reconcile_single_reservation now (dict_get xs k)
                (case dict_get obs k of Some ob \<Rightarrow> ob
                 | None \<Rightarrow> \<lparr>or_reservation = None, or_events = [], or_observed_at = now\<rparr>)) (all_reservation_ids xs obs)
      in \<lparr>rc_entries = entries,
          rc_counts = fold (\<lambda>e c. c(rv_category e := c (rv_category e) + 1)) entries (\<lambda>_. 0),
          rc_fully_reconciled = list_all (\<lambda>e. rv_category e = Agreed) entries, rc_at = now\<rparr>)"

lemma release_pairs_empty:
  "release_pairs es = [] \<longleftrightarrow> distinct (map (\<lambda>e. (re_amount e, re_employer e)) es)"
  by (induction es) (auto simp: filter_empty_conv same_release_def image_iff)

definition reservation_agrees :: "int \<Rightarrow> expected_reservation \<Rightarrow> observed_reservation \<Rightarrow> bool" where
  "reservation_agrees now x ob \<longleftrightarrow>
     (\<exists>r. or_reservation ob = Some r \<and> (xr_id x \<noteq> [] \<or> fr_id r \<noteq> []) \<and>
        xr_status x = status_name (fr_status r) \<and> xr_amount x = fr_reserved_amount r \<and>
        \<not> (fr_status r = Reserved \<and> now > fr_expires_at r) \<and>
        distinct (map (\<lambda>e. (re_amount e, re_employer e)) (filter (\<lambda>e. re_event_type e = EvReleased) (or_events ob))))"

lemma single_agreed_iff:
  "rv_category (reconcile_single_reservation now x ob) = Agreed \<longleftrightarrow>
     (\<exists>e. x = Some e \<and> reservation_agrees now e ob)"
proof (cases x; cases "or_reservation ob")
  fix e r assume "x = Some e" "or_reservation ob = Some r"
  then show ?thesis
    by (simp add: reconcile_single_reservation_def reservation_entry_of_def reservation_id_of_def
        compare_reservation_states_def Let_def reservation_agrees_def detect_duplicate_releases_def release_pairs_empty
        is_expired_not_marked_def)
qed (simp_all add: reconcile_single_reservation_def reservation_entry_of_def reservation_id_of_def
    reservation_agrees_def Let_def)

text \<open>
  The reservations are fully reconciled exactly when the client and the chain know the same ones and, for each,
  the status and the reserved amount are the same, none has passed its expiry while still reserved, and no two
  releases of the same amount to the same employer were recorded. The asset, the employer and the expiry that the
  client expects play no part.
\<close>
theorem reservations_reconciled_iff:
  "rc_fully_reconciled (reconcile_multiple_reservations now xs obs) \<longleftrightarrow>
     (\<forall>k. dict_get xs k \<noteq> None \<or> dict_get obs k \<noteq> None \<longrightarrow>
        (\<exists>x ob. dict_get xs k = Some x \<and> dict_get obs k = Some ob \<and> reservation_agrees now x ob))"
proof -
  have keys: "k \<in> set (all_reservation_ids xs obs) \<longleftrightarrow> dict_get xs k \<noteq> None \<or> dict_get obs k \<noteq> None" for k
    by (auto simp: all_reservation_ids_def map_of_eq_None_iff)
  have absent: "\<not> reservation_agrees now e \<lparr>or_reservation = None, or_events = [], or_observed_at = now\<rparr>" for e
    by (simp add: reservation_agrees_def)
  have "rc_fully_reconciled (reconcile_multiple_reservations now xs obs) \<longleftrightarrow>
      (\<forall>k \<in> set (all_reservation_ids xs obs).
        \<exists>x ob. dict_get xs k = Some x \<and> dict_get obs k = Some ob \<and> reservation_agrees now x ob)"
    unfolding reconcile_multiple_reservations_def Let_def
    by (simp add: list_all_iff single_agreed_iff, rule ball_cong, rule refl)
      (auto simp: absent split: option.splits)
  then show ?thesis unfolding Ball_def keys .
qed

section \<open>Treasury readiness\<close>

datatype balance_status = Sufficient | Low | Insufficient | Zero | UnknownBalance

datatype reserve_status =
  ReserveReady | PartiallyReserved | Unreserved | OverReserved | ReserveLocked | ReserveExpired

datatype support_status = Supported | Unsupported | Suspended | InsufficientLiquidity

datatype readiness_level = LevelReady | LevelWarning | LevelBlocked

text \<open>The blockers and warnings, without their texts.\<close>

datatype treasury_note =
  AssetSuspended string
| AssetNotAllowlisted string
| BalanceShort string int
| BalanceLow string
| ReservationLocked string
| ReservationExpired string
| PreReservationRequired string reserve_status
| ReservationPending string reserve_status

record treasury_obligation =
  ob_asset :: string
  ob_required_amount :: int
  ob_allowlisted :: "bool option"
  ob_suspended :: bool

record treasury_balance =
  tb_asset :: string
  tb_available_balance :: int
  tb_reserved_amount :: "int option"
  tb_is_locked :: "bool option"
  tb_is_expired :: "bool option"

record asset_state =
  as_available_balance :: int
  as_reserved_amount :: int
  as_is_locked :: bool
  as_is_expired :: bool

record readiness_input =
  rin_obligations :: "treasury_obligation list"
  rin_treasury_balances :: "treasury_balance list"
  rin_default_buffer_percent :: "rat option"

record readiness_options =
  rop_strict :: bool
  rop_require_pre_reservation :: bool

record asset_readiness_check =
  ac_asset :: string
  ac_required_amount :: int
  ac_available_balance :: int
  ac_reserved_amount :: int
  ac_balance_status :: balance_status
  ac_reserve_status :: reserve_status
  ac_support_status :: support_status
  ac_shortfall_amount :: "int option"
  ac_warnings :: "treasury_note list"
  ac_blockers :: "treasury_note list"

record treasury_readiness =
  tr_is_ready :: bool
  tr_readiness_level :: readiness_level
  tr_overall_balance_status :: balance_status
  tr_overall_reserve_status :: reserve_status
  tr_assets :: "asset_readiness_check list"
  tr_blockers :: "treasury_note list"
  tr_warnings :: "treasury_note list"

definition derive_balance_status :: "int \<Rightarrow> int \<Rightarrow> rat \<Rightarrow> balance_status \<times> int" where
  "derive_balance_status available required buffer =
     (if available \<le> 0 \<and> required > 0 then (Zero, required)
      else if available < required then (Insufficient, required - available)
      else if buffer > 0 \<and> available < (required * (100 + \<lfloor>buffer\<rfloor>)) sdiv 100 then (Low, 0)
      else (Sufficient, 0))"

definition derive_reserve_status :: "int \<Rightarrow> int \<Rightarrow> reserve_status" where
  "derive_reserve_status reserved required =
     (if reserved = 0 then Unreserved
      else if reserved = required then ReserveReady
      else if reserved > required then OverReserved
      else PartiallyReserved)"

definition state_of_balance :: "treasury_balance \<Rightarrow> asset_state" where
  "state_of_balance b =
     \<lparr>as_available_balance = tb_available_balance b,
      as_reserved_amount = (case tb_reserved_amount b of None \<Rightarrow> 0 | Some r \<Rightarrow> r),
      as_is_locked = (tb_is_locked b = Some True), as_is_expired = (tb_is_expired b = Some True)\<rparr>"

definition balance_map :: "treasury_balance list \<Rightarrow> (string, asset_state) dict" where
  "balance_map bs = fold (\<lambda>b. dict_put (tb_asset b) (state_of_balance b)) bs []"

definition no_asset_state :: asset_state where
  "no_asset_state = \<lparr>as_available_balance = 0, as_reserved_amount = 0, as_is_locked = False, as_is_expired = False\<rparr>"

definition state_of_asset :: "treasury_balance list \<Rightarrow> string \<Rightarrow> asset_state" where
  "state_of_asset bs a = (case dict_get (balance_map bs) a of None \<Rightarrow> no_asset_state | Some s \<Rightarrow> s)"

definition support_check :: "treasury_obligation \<Rightarrow> support_status \<times> treasury_note list" where
  "support_check ob =
     (if ob_suspended ob then (Suspended, [AssetSuspended (ob_asset ob)])
      else if ob_allowlisted ob = Some False then (Unsupported, [AssetNotAllowlisted (ob_asset ob)])
      else (Supported, []))"

text \<open>Blockers and warnings of the balance\<close>

definition balance_notes :: "string \<Rightarrow> balance_status \<Rightarrow> int \<Rightarrow> treasury_note list \<times> treasury_note list" where
  "balance_notes a status shortfall =
     (if status = Insufficient \<or> status = Zero then ([BalanceShort a shortfall], [])
      else if status = Low then ([], [BalanceLow a])
      else ([], []))"

definition reserve_check ::
  "readiness_options \<Rightarrow> treasury_obligation \<Rightarrow> asset_state \<Rightarrow> reserve_status \<times> treasury_note list \<times> treasury_note list" where
  "reserve_check options ob st =
     (let a = ob_asset ob in
      if as_is_locked st then (ReserveLocked, [ReservationLocked a], [])
      else if as_is_expired st then (ReserveExpired, [ReservationExpired a], [])
      else let status = derive_reserve_status (as_reserved_amount st) (ob_required_amount ob) in
        if rop_require_pre_reservation options \<and> status \<noteq> ReserveReady \<and> status \<noteq> OverReserved
        then (status, [PreReservationRequired a status], [])
        else if status = Unreserved \<or> status = PartiallyReserved then (status, [], [ReservationPending a status])
        else (status, [], []))"

definition check_obligation ::
  "readiness_options \<Rightarrow> rat \<Rightarrow> treasury_balance list \<Rightarrow> treasury_obligation \<Rightarrow> asset_readiness_check" where
  "check_obligation options buffer bs ob =
     (let st = state_of_asset bs (ob_asset ob);
          support = support_check ob;
          balance = derive_balance_status (as_available_balance st) (ob_required_amount ob) buffer;
          notes = balance_notes (ob_asset ob) (fst balance) (snd balance);
          reserve = reserve_check options ob st
      in \<lparr>ac_asset = ob_asset ob, ac_required_amount = ob_required_amount ob,
          ac_available_balance = as_available_balance st, ac_reserved_amount = as_reserved_amount st,
          ac_balance_status = fst balance, ac_reserve_status = fst reserve, ac_support_status = fst support,
          ac_shortfall_amount = (if snd balance > 0 then Some (snd balance) else None),
          ac_warnings = snd notes @ snd (snd reserve),
          ac_blockers = snd support @ fst notes @ fst (snd reserve)\<rparr>)"

definition aggregate_balance_status :: "asset_readiness_check list \<Rightarrow> balance_status" where
  "aggregate_balance_status cs =
     (if length cs = 0 then UnknownBalance
      else if list_ex (\<lambda>c. ac_balance_status c = Insufficient) cs then Insufficient
      else if list_ex (\<lambda>c. ac_balance_status c = Zero) cs then Zero
      else if list_ex (\<lambda>c. ac_balance_status c = Low) cs then Low
      else if list_all (\<lambda>c. ac_balance_status c = Sufficient) cs then Sufficient
      else UnknownBalance)"

definition aggregate_reserve_status :: "asset_readiness_check list \<Rightarrow> reserve_status" where
  "aggregate_reserve_status cs =
     (if length cs = 0 then Unreserved
      else if list_ex (\<lambda>c. ac_reserve_status c = ReserveLocked) cs then ReserveLocked
      else if list_ex (\<lambda>c. ac_reserve_status c = ReserveExpired) cs then ReserveExpired
      else if list_all (\<lambda>c. ac_reserve_status c = ReserveReady \<or> ac_reserve_status c = OverReserved) cs then ReserveReady
      else if list_ex (\<lambda>c. ac_reserve_status c = PartiallyReserved) cs then PartiallyReserved
      else Unreserved)"

definition evaluate_treasury_readiness :: "readiness_input \<Rightarrow> readiness_options \<Rightarrow> treasury_readiness" where
  "evaluate_treasury_readiness inp options =
     (let buffer = (case rin_default_buffer_percent inp of None \<Rightarrow> 0 | Some b \<Rightarrow> b);
          checks = map (check_obligation options buffer (rin_treasury_balances inp)) (rin_obligations inp);
          blockers = concat (map ac_blockers checks);
          warnings = concat (map ac_warnings checks);
          level = (if length blockers > 0 \<or> (rop_strict options \<and> length warnings > 0) then LevelBlocked
            else if length warnings > 0 then LevelWarning else LevelReady)
      in \<lparr>tr_is_ready = (level \<noteq> LevelBlocked), tr_readiness_level = level,
          tr_overall_balance_status = aggregate_balance_status checks,
          tr_overall_reserve_status = aggregate_reserve_status checks, tr_assets = checks,
          tr_blockers = blockers, tr_warnings = warnings\<rparr>)"

definition is_ready_for_execution :: "treasury_readiness \<Rightarrow> bool" where
  "is_ready_for_execution r = (tr_is_ready r \<and> length (tr_blockers r) = 0)"

lemma derive_balance_statuses:
  "fst (derive_balance_status a r b) \<noteq> Insufficient \<and> fst (derive_balance_status a r b) \<noteq> Zero \<longleftrightarrow>
     r \<le> a \<and> (0 < r \<longrightarrow> 0 < a)"
  "fst (derive_balance_status a r b) = Sufficient \<longleftrightarrow>
     r \<le> a \<and> (0 < r \<longrightarrow> 0 < a) \<and> (0 < b \<longrightarrow> (r * (100 + \<lfloor>b\<rfloor>)) sdiv 100 \<le> a)"
  by (auto simp: derive_balance_status_def)

text \<open>What one obligation asks of the state of its asset\<close>

definition covered :: "readiness_options \<Rightarrow> rat \<Rightarrow> asset_state \<Rightarrow> treasury_obligation \<Rightarrow> bool" where
  "covered options buffer st ob \<longleftrightarrow>
     \<not> ob_suspended ob \<and> ob_allowlisted ob \<noteq> Some False \<and> \<not> as_is_locked st \<and> \<not> as_is_expired st \<and>
     ob_required_amount ob \<le> as_available_balance st \<and>
     (rop_require_pre_reservation options \<or> rop_strict options \<longrightarrow>
        as_reserved_amount st \<noteq> 0 \<and> ob_required_amount ob \<le> as_reserved_amount st) \<and>
     (rop_strict options \<and> 0 < buffer \<longrightarrow>
        (ob_required_amount ob * (100 + \<lfloor>buffer\<rfloor>)) sdiv 100 \<le> as_available_balance st)"

lemma reserve_notes:
  "(fst (snd (reserve_check options ob st)) = [] \<and> (rop_strict options \<longrightarrow> snd (snd (reserve_check options ob st)) = [])) \<longleftrightarrow>
     \<not> as_is_locked st \<and> \<not> as_is_expired st \<and>
     (rop_require_pre_reservation options \<or> rop_strict options \<longrightarrow>
        as_reserved_amount st \<noteq> 0 \<and> ob_required_amount ob \<le> as_reserved_amount st)"
  by (auto simp: reserve_check_def Let_def derive_reserve_status_def)

lemma balance_notes_empty:
  "(fst (balance_notes a (fst (derive_balance_status v r b)) s) = [] \<and>
     (strict \<longrightarrow> snd (balance_notes a (fst (derive_balance_status v r b)) s) = [])) \<longleftrightarrow>
     r \<le> v \<and> (strict \<and> 0 < b \<longrightarrow> (r * (100 + \<lfloor>b\<rfloor>)) sdiv 100 \<le> v)"
  by (auto simp: balance_notes_def derive_balance_status_def)

lemma check_covered:
  "(ac_blockers (check_obligation options b bs ob) = [] \<and>
     (rop_strict options \<longrightarrow> ac_warnings (check_obligation options b bs ob) = [])) \<longleftrightarrow>
     covered options b (state_of_asset bs (ob_asset ob)) ob"
  using reserve_notes [of options ob "state_of_asset bs (ob_asset ob)"]
    balance_notes_empty [of "ob_asset ob" "as_available_balance (state_of_asset bs (ob_asset ob))" "ob_required_amount ob" b
      _ "rop_strict options"]
  by (auto simp: check_obligation_def Let_def covered_def support_check_def)

lemma ready_iff_covered:
  "is_ready_for_execution (evaluate_treasury_readiness inp options) \<longleftrightarrow>
     (\<forall>ob \<in> set (rin_obligations inp).
        covered options (case rin_default_buffer_percent inp of None \<Rightarrow> 0 | Some b \<Rightarrow> b)
          (state_of_asset (rin_treasury_balances inp) (ob_asset ob)) ob)"
  unfolding check_covered [symmetric] is_ready_for_execution_def evaluate_treasury_readiness_def Let_def
  by auto

text \<open>
  The treasury is ready for execution exactly when every obligation, taken by itself, is covered by the balance
  of its asset as last given: allowlisted, not suspended, not locked or expired, the amount available and, where
  pre-reservation is required or the check is strict, reserved, and in strict mode with the safety buffer.
\<close>
theorem treasury_ready_iff:
  "is_ready_for_execution (evaluate_treasury_readiness inp options) \<longleftrightarrow>
     (\<forall>ob \<in> set (rin_obligations inp).
        covered options (case rin_default_buffer_percent inp of None \<Rightarrow> 0 | Some b \<Rightarrow> b)
          (state_of_asset (rin_treasury_balances inp) (ob_asset ob)) ob)"
  by (rule ready_iff_covered)

text \<open>
  The obligations of one asset are never added up: if the treasury is ready for one obligation it is ready for
  any number of the same, though together they may exceed everything it holds.
\<close>
theorem obligations_overcommit:
  assumes "is_ready_for_execution (evaluate_treasury_readiness (inp\<lparr>rin_obligations := [ob]\<rparr>) options)"
  shows "is_ready_for_execution (evaluate_treasury_readiness (inp\<lparr>rin_obligations := replicate n ob\<rparr>) options)"
  using assms by (simp add: ready_iff_covered)

section \<open>Witnesses\<close>

definition example_reservation :: funding_reservation where
  "example_reservation =
     \<lparr>fr_id = ''r1'', fr_employer = ''GE'', fr_reserved_amount = 100, fr_asset = ''native'', fr_status = Reserved,
      fr_created_at = 0, fr_expires_at = 50, fr_concluded_at = None, fr_used_amount = None, fr_released_amount = None,
      fr_creation_tx_hash = None, fr_conclusion_tx_hash = None, fr_memo = None\<rparr>"

definition example_expected :: expected_reservation where
  "example_expected =
     \<lparr>xr_id = ''r1'', xr_status = ''reserved'', xr_amount = 100, xr_expires_at = 50, xr_last_known_tx_hash = None\<rparr>"

theorem reservations_reconciled_iff_witness:
  "rc_fully_reconciled (reconcile_multiple_reservations 10 [(''r1'', example_expected)]
     [(''r1'', \<lparr>or_reservation = Some (example_reservation\<lparr>fr_asset := ''other''\<rparr>), or_events = [], or_observed_at = 10\<rparr>)])"
  by (simp add: reservations_reconciled_iff reservation_agrees_def example_expected_def example_reservation_def)

definition example_input :: readiness_input where
  "example_input =
     \<lparr>rin_obligations = [],
      rin_treasury_balances = [\<lparr>tb_asset = ''native'', tb_available_balance = 100, tb_reserved_amount = Some 100,
        tb_is_locked = None, tb_is_expired = None\<rparr>],
      rin_default_buffer_percent = None\<rparr>"

definition example_obligation :: treasury_obligation where
  "example_obligation =
     \<lparr>ob_asset = ''native'', ob_required_amount = 100, ob_allowlisted = Some True, ob_suspended = False\<rparr>"

definition example_options :: readiness_options where
  "example_options = \<lparr>rop_strict = True, rop_require_pre_reservation = True\<rparr>"

lemma example_covered: "covered example_options 0 (state_of_asset (rin_treasury_balances example_input) ''native'') example_obligation"
  by (simp add: covered_def example_options_def example_obligation_def example_input_def state_of_asset_def
      balance_map_def state_of_balance_def)

theorem treasury_ready_iff_witness:
  "is_ready_for_execution (evaluate_treasury_readiness (example_input\<lparr>rin_obligations := [example_obligation]\<rparr>) example_options)"
  using example_covered
  by (simp add: treasury_ready_iff example_input_def example_obligation_def)

theorem obligations_overcommit_witness:
  "is_ready_for_execution (evaluate_treasury_readiness
     (example_input\<lparr>rin_obligations := replicate 3 example_obligation\<rparr>) example_options)"
proof (rule obligations_overcommit)
  show "is_ready_for_execution (evaluate_treasury_readiness
      (example_input\<lparr>rin_obligations := [example_obligation]\<rparr>) example_options)"
    using example_covered by (simp add: ready_iff_covered example_input_def example_obligation_def)
qed

end
