(* ===== verification/Eligibility.thy ===== *)
theory Eligibility
  imports Prelude
begin

text \<open>
  Eligibility of employees for a payroll (\<open>packages/core/src/eligibility/rules.ts\<close> and
  \<open>eligibility/EmployeeEligibilityEvaluator.ts\<close>): the rules, their evaluation for one record and for a batch,
  synchronously and with the registry contract and custom rules that may be asynchronous. Parameters are the address
  check of the Stellar library, the reading of date texts (left to the implementation by the language), the registry
  contract and the custom rules. Texts and remedies are left out.
\<close>

section \<open>Records, options and reasons\<close>

datatype date_value = DateNumber "int option" | DateObject "int option" | DateText string

record eligibility_record =
  el_employee_id :: string
  el_recipient :: string
  el_salary :: "int option"
  el_amount :: "int option"
  el_asset :: "string option"
  el_token :: "string option"
  el_status :: "string option"
  el_effective_date :: "date_value option"
  el_expiry_date :: "date_value option"
  el_is_blocked :: "bool option"
  el_is_locked :: "bool option"
  el_compliance_status :: "string option"

datatype reason_code =
  MissingEmployeeId
| MissingRecipientAddress
| InvalidRecipientAddress
| ZeroOrNegativeSalary
| SalaryBelowMinLimit
| SalaryExceedsMaxLimit
| MissingAssetIdentifier
| UnsupportedAsset
| InactiveEmployeeStatus
| EmployeeSuspended
| EmployeeTerminated
| EffectiveDateFuture
| EffectiveDateExpired
| ComplianceBlocked
| PayrollLocked
| SanctionListed
| DuplicateEmployeeId
| DuplicateRecipientAddress
| RegistryRecordNotFound
| RegistryRecordDeactivated
| RegistrySalaryMismatch
| RegistryTokenMismatch
| CustomIneligibilityRule
| OtherCode string

datatype severity = SevError | SevWarning

record eligibility_reason =
  er_code :: reason_code
  er_field :: "string option"
  er_severity :: "severity option"

record registry_entry =
  rg_active :: bool
  rg_salary :: int
  rg_token :: string

datatype registry_answer = RegistryThrows | RegistryReturns "registry_entry option"

record registry_config =
  gc_get_registry :: "string \<Rightarrow> registry_answer"
  gc_verify_salary_match :: bool
  gc_verify_token_match :: bool

record eligibility_options =
  eo_allowed_assets :: "string list option"
  eo_min_salary :: "int option"
  eo_max_salary :: "int option"
  eo_require_valid_stellar :: "bool option"
  eo_allowed_statuses :: "string list option"
  eo_strict_compliance :: "bool option"
  eo_check_duplicates :: "bool option"
  eo_on_chain_registry :: "registry_config option"

record rule_context =
  rx_reference_timestamp :: int
  rx_options :: eligibility_options
  rx_batch_records :: "eligibility_record list option"
  rx_index :: "nat option"

text \<open>What a custom rule may do: answer, throw, or return a promise that settles.\<close>

datatype rule_outcome =
  RuleReasons "eligibility_reason list"
| RuleThrows
| RulePromise "(unit, eligibility_reason list) result"

type_synonym custom_rule = "eligibility_record \<Rightarrow> rule_context \<Rightarrow> rule_outcome"

datatype eligibility_status = Eligible | Ineligible | Conditional

record eligibility_result =
  es_employee_id :: string
  es_recipient :: string
  es_is_eligible :: bool
  es_status :: eligibility_status
  es_reasons :: "eligibility_reason list"
  es_primary_reason_code :: "reason_code option"
  es_evaluated_at :: int

definition error_reason :: "reason_code \<Rightarrow> string \<Rightarrow> eligibility_reason" where
  "error_reason c f = \<lparr>er_code = c, er_field = Some f, er_severity = Some SevError\<rparr>"

section \<open>The rules\<close>

definition validate_recipient_rule ::
  "(string \<Rightarrow> bool) \<Rightarrow> eligibility_record \<Rightarrow> rule_context \<Rightarrow> eligibility_reason list" where
  "validate_recipient_rule valid_address r cx =
     (if blank (el_recipient r) then [error_reason MissingRecipientAddress ''recipient'']
      else if eo_require_valid_stellar (rx_options cx) \<noteq> Some False \<and> \<not> valid_address (js_trim (el_recipient r))
        then [error_reason InvalidRecipientAddress ''recipient'']
      else [])"

definition validate_employee_id_rule :: "eligibility_record \<Rightarrow> eligibility_reason list" where
  "validate_employee_id_rule r =
     (if blank (el_employee_id r) then [error_reason MissingEmployeeId ''employeeId''] else [])"

definition raw_amount :: "eligibility_record \<Rightarrow> int option" where
  "raw_amount r = (case el_salary r of Some s \<Rightarrow> Some s | None \<Rightarrow> el_amount r)"

definition validate_salary_rule :: "eligibility_record \<Rightarrow> rule_context \<Rightarrow> eligibility_reason list" where
  "validate_salary_rule r cx =
     (case raw_amount r of
        None \<Rightarrow> [error_reason ZeroOrNegativeSalary ''salary'']
      | Some a \<Rightarrow>
          if a \<le> 0 then [error_reason ZeroOrNegativeSalary ''salary'']
          else (case eo_min_salary (rx_options cx) of
                  Some m \<Rightarrow> if a < m then [error_reason SalaryBelowMinLimit ''salary''] else []
                | None \<Rightarrow> []) @
               (case eo_max_salary (rx_options cx) of
                  Some m \<Rightarrow> if a > m then [error_reason SalaryExceedsMaxLimit ''salary''] else []
                | None \<Rightarrow> []))"

definition asset_of :: "eligibility_record \<Rightarrow> string option" where
  "asset_of r = (case el_asset r of Some a \<Rightarrow> Some a | None \<Rightarrow> el_token r)"

definition validate_asset_rule :: "eligibility_record \<Rightarrow> rule_context \<Rightarrow> eligibility_reason list" where
  "validate_asset_rule r cx =
     (case asset_of r of
        None \<Rightarrow> [error_reason MissingAssetIdentifier ''asset'']
      | Some a \<Rightarrow>
          if blank a then [error_reason MissingAssetIdentifier ''asset'']
          else (case eo_allowed_assets (rx_options cx) of
                  Some allowed \<Rightarrow>
                    if length allowed > 0 \<and> js_trim a \<notin> set allowed then [error_reason UnsupportedAsset ''asset''] else []
                | None \<Rightarrow> []))"

definition normalized_status :: "string \<Rightarrow> string" where
  "normalized_status s = js_trim (js_lower s)"

definition raw_status :: "eligibility_record \<Rightarrow> string" where
  "raw_status r = normalized_status (case el_status r of None \<Rightarrow> ''active'' | Some s \<Rightarrow> s)"

definition validate_status_rule :: "eligibility_record \<Rightarrow> rule_context \<Rightarrow> eligibility_reason list" where
  "validate_status_rule r cx =
     (let s = raw_status r in
      if s = ''inactive'' then [error_reason InactiveEmployeeStatus ''status'']
      else if s = ''suspended'' then [error_reason EmployeeSuspended ''status'']
      else if s = ''terminated'' \<or> s = ''offboarded'' then [error_reason EmployeeTerminated ''status'']
      else (case eo_allowed_statuses (rx_options cx) of
              Some allowed \<Rightarrow>
                if length allowed > 0 \<and> s \<notin> set (map normalized_status allowed)
                then [error_reason InactiveEmployeeStatus ''status''] else []
            | None \<Rightarrow> []))"

text \<open>A date that cannot be read is no date; a number or a date object may be \<open>NaN\<close>, here \<^const>\<open>None\<close>.\<close>

definition parse_date_to_timestamp :: "(string \<Rightarrow> int option) \<Rightarrow> date_value option \<Rightarrow> int option" where
  "parse_date_to_timestamp date_parse v =
     (case v of
        None \<Rightarrow> None
      | Some (DateNumber n) \<Rightarrow> n
      | Some (DateObject n) \<Rightarrow> n
      | Some (DateText s) \<Rightarrow> date_parse s)"

definition validate_lifecycle_dates_rule ::
  "(string \<Rightarrow> int option) \<Rightarrow> eligibility_record \<Rightarrow> rule_context \<Rightarrow> eligibility_reason list" where
  "validate_lifecycle_dates_rule date_parse r cx =
     (case parse_date_to_timestamp date_parse (el_effective_date r) of
        Some t \<Rightarrow> if t > rx_reference_timestamp cx then [error_reason EffectiveDateFuture ''effectiveDate''] else []
      | None \<Rightarrow> []) @
     (case parse_date_to_timestamp date_parse (el_expiry_date r) of
        Some t \<Rightarrow> if t < rx_reference_timestamp cx then [error_reason EffectiveDateExpired ''expiryDate''] else []
      | None \<Rightarrow> [])"

definition validate_compliance_rule :: "eligibility_record \<Rightarrow> rule_context \<Rightarrow> eligibility_reason list" where
  "validate_compliance_rule r cx =
     (if el_is_blocked r = Some True then [error_reason ComplianceBlocked ''isBlocked''] else []) @
     (if el_is_locked r = Some True then [error_reason PayrollLocked ''isLocked''] else []) @
     (case el_compliance_status r of
        None \<Rightarrow> []
      | Some raw \<Rightarrow>
          if raw = [] then []
          else let s = normalized_status raw in
            if s = ''sanctioned'' then [error_reason SanctionListed ''complianceStatus'']
            else if s = ''failed'' \<or> s = ''blocked'' then [error_reason ComplianceBlocked ''complianceStatus'']
            else if s = ''pending'' \<and> eo_strict_compliance (rx_options cx) \<noteq> Some False
              then [error_reason ComplianceBlocked ''complianceStatus'']
            else [])"

definition same_trimmed :: "string \<Rightarrow> string \<Rightarrow> bool" where
  "same_trimmed a b = (a \<noteq> [] \<and> b \<noteq> [] \<and> js_trim a \<noteq> [] \<and> js_trim a = js_trim b)"

definition validate_batch_duplicates_rule :: "eligibility_record \<Rightarrow> rule_context \<Rightarrow> eligibility_reason list" where
  "validate_batch_duplicates_rule r cx =
     (if eo_check_duplicates (rx_options cx) = Some False then []
      else case (rx_batch_records cx, rx_index cx) of
          (Some batch, Some i) \<Rightarrow>
            (if list_ex (\<lambda>prior. same_trimmed (el_employee_id r) (el_employee_id prior)) (take i batch)
             then [error_reason DuplicateEmployeeId ''employeeId''] else []) @
            (if list_ex (\<lambda>prior. same_trimmed (el_recipient r) (el_recipient prior)) (take i batch)
             then [error_reason DuplicateRecipientAddress ''recipient''] else [])
        | _ \<Rightarrow> [])"

definition validate_on_chain_registry_rule :: "eligibility_record \<Rightarrow> rule_context \<Rightarrow> eligibility_reason list" where
  "validate_on_chain_registry_rule r cx =
     (case eo_on_chain_registry (rx_options cx) of
        None \<Rightarrow> []
      | Some cfg \<Rightarrow>
          if el_recipient r = [] then []
          else case gc_get_registry cfg (el_recipient r) of
              RegistryThrows \<Rightarrow> [error_reason RegistryRecordNotFound ''registry'']
            | RegistryReturns None \<Rightarrow> [error_reason RegistryRecordNotFound ''registry'']
            | RegistryReturns (Some entry) \<Rightarrow>
                (if \<not> rg_active entry then [error_reason RegistryRecordDeactivated ''registry.active''] else []) @
                (if gc_verify_salary_match cfg \<and> raw_amount r \<noteq> None \<and> raw_amount r \<noteq> Some (rg_salary entry)
                 then [error_reason RegistrySalaryMismatch ''salary''] else []) @
                (if gc_verify_token_match cfg \<and> asset_of r \<noteq> None \<and> asset_of r \<noteq> Some (rg_token entry)
                 then [error_reason RegistryTokenMismatch ''asset''] else []))"

section \<open>The evaluator\<close>

record evaluator =
  ev_valid_address :: "string \<Rightarrow> bool"
  ev_date_parse :: "string \<Rightarrow> int option"
  ev_custom_rules :: "custom_rule list"

definition add_rule :: "custom_rule \<Rightarrow> evaluator \<Rightarrow> evaluator" where
  "add_rule rule v = v\<lparr>ev_custom_rules := ev_custom_rules v @ [rule]\<rparr>"

text \<open>A custom rule run synchronously: a promise is ignored, an exception becomes a reason.\<close>

definition run_rule_sync :: "rule_outcome \<Rightarrow> eligibility_reason list" where
  "run_rule_sync out =
     (case out of
        RuleReasons rs \<Rightarrow> rs
      | RuleThrows \<Rightarrow> [\<lparr>er_code = CustomIneligibilityRule, er_field = None, er_severity = Some SevError\<rparr>]
      | RulePromise _ \<Rightarrow> [])"

text \<open>A custom rule awaited: an exception or a rejected promise rejects the evaluation.\<close>

definition run_rule_async :: "rule_outcome \<Rightarrow> (unit, eligibility_reason list) result" where
  "run_rule_async out =
     (case out of RuleReasons rs \<Rightarrow> Inr rs | RuleThrows \<Rightarrow> Inl () | RulePromise p \<Rightarrow> p)"

fun run_rules_async :: "rule_outcome list \<Rightarrow> (unit, eligibility_reason list) result" where
  "run_rules_async [] = Inr []"
| "run_rules_async (x # xs) =
     bind_result (run_rule_async x) (\<lambda>rs. bind_result (run_rules_async xs) (\<lambda>rest. Inr (rs @ rest)))"

definition built_in_rules :: "evaluator \<Rightarrow> eligibility_record \<Rightarrow> rule_context \<Rightarrow> eligibility_reason list" where
  "built_in_rules v r cx =
     validate_employee_id_rule r @ validate_recipient_rule (ev_valid_address v) r cx @ validate_salary_rule r cx @
     validate_asset_rule r cx @ validate_status_rule r cx @ validate_lifecycle_dates_rule (ev_date_parse v) r cx @
     validate_compliance_rule r cx"

definition evaluate_sync_rules :: "evaluator \<Rightarrow> eligibility_record \<Rightarrow> rule_context \<Rightarrow> eligibility_reason list" where
  "evaluate_sync_rules v r cx =
     built_in_rules v r cx @ concat (map (\<lambda>rule. run_rule_sync (rule r cx)) (ev_custom_rules v))"

definition error_reasons :: "eligibility_reason list \<Rightarrow> eligibility_reason list" where
  "error_reasons rs = filter (\<lambda>r. er_severity r \<noteq> Some SevWarning) rs"

definition build_result :: "eligibility_record \<Rightarrow> eligibility_reason list \<Rightarrow> int \<Rightarrow> eligibility_result" where
  "build_result r reasons now =
     (let errors = error_reasons reasons; eligible = (length errors = 0)
      in \<lparr>es_employee_id = el_employee_id r, es_recipient = el_recipient r, es_is_eligible = eligible,
          es_status = (if eligible then Eligible
            else if list_ex (\<lambda>x. er_severity x = Some SevWarning) reasons \<and> length errors = 0 then Conditional
            else Ineligible),
          es_reasons = reasons, es_primary_reason_code = (case errors of [] \<Rightarrow> None | e # _ \<Rightarrow> Some (er_code e)),
          es_evaluated_at = now\<rparr>)"

definition single_context :: "int \<Rightarrow> eligibility_options \<Rightarrow> rule_context" where
  "single_context now opts =
     \<lparr>rx_reference_timestamp = now, rx_options = opts, rx_batch_records = None, rx_index = None\<rparr>"

definition batch_context :: "int \<Rightarrow> eligibility_options \<Rightarrow> eligibility_record list \<Rightarrow> nat \<Rightarrow> rule_context" where
  "batch_context now opts records i =
     \<lparr>rx_reference_timestamp = now, rx_options = opts, rx_batch_records = Some records, rx_index = Some i\<rparr>"

definition evaluate_record :: "evaluator \<Rightarrow> int \<Rightarrow> eligibility_options \<Rightarrow> eligibility_record \<Rightarrow> eligibility_result" where
  "evaluate_record v now opts r = build_result r (evaluate_sync_rules v r (single_context now opts)) now"

definition async_reasons ::
  "evaluator \<Rightarrow> eligibility_record \<Rightarrow> rule_context \<Rightarrow> eligibility_reason list \<Rightarrow> (unit, eligibility_reason list) result" where
  "async_reasons v r cx sync =
     bind_result (run_rules_async (map (\<lambda>rule. rule r cx) (ev_custom_rules v))) (\<lambda>custom.
       Inr (sync @ (if eo_on_chain_registry (rx_options cx) = None then [] else validate_on_chain_registry_rule r cx) @ custom))"

definition evaluate_record_async ::
  "evaluator \<Rightarrow> int \<Rightarrow> eligibility_options \<Rightarrow> eligibility_record \<Rightarrow> (unit, eligibility_result) result" where
  "evaluate_record_async v now opts r =
     bind_result (async_reasons v r (single_context now opts) (evaluate_sync_rules v r (single_context now opts)))
       (\<lambda>reasons. Inr (build_result r reasons now))"

subsection \<open>Batches\<close>

record batch_eligibility =
  be_total_records :: nat
  be_eligible_count :: nat
  be_ineligible_count :: nat
  be_eligible_records :: "eligibility_record list"
  be_ineligible_records :: "(eligibility_record \<times> eligibility_result) list"
  be_results :: "eligibility_result list"
  be_reason_code_summary :: "reason_code \<Rightarrow> nat"
  be_evaluated_at :: int

definition summarize_reasons :: "eligibility_result list \<Rightarrow> reason_code \<Rightarrow> nat" where
  "summarize_reasons results =
     fold (\<lambda>r c. c(er_code r := c (er_code r) + 1)) (concat (map es_reasons results)) (\<lambda>_. 0)"

definition batch_of_results :: "eligibility_record list \<Rightarrow> eligibility_result list \<Rightarrow> int \<Rightarrow> batch_eligibility" where
  "batch_of_results records results now =
     (let eligible = map fst (filter (\<lambda>(r, e). es_is_eligible e) (zip records results));
          ineligible = filter (\<lambda>(r, e). \<not> es_is_eligible e) (zip records results)
      in \<lparr>be_total_records = length records, be_eligible_count = length eligible,
          be_ineligible_count = length ineligible, be_eligible_records = eligible,
          be_ineligible_records = ineligible, be_results = results,
          be_reason_code_summary = summarize_reasons results, be_evaluated_at = now\<rparr>)"

definition evaluate_at ::
  "evaluator \<Rightarrow> int \<Rightarrow> eligibility_options \<Rightarrow> eligibility_record list \<Rightarrow> nat \<Rightarrow> eligibility_result" where
  "evaluate_at v now opts records i =
     (let cx = batch_context now opts records i; r = records ! i
      in build_result r (evaluate_sync_rules v r cx @ validate_batch_duplicates_rule r cx) now)"

definition evaluate_batch ::
  "evaluator \<Rightarrow> int \<Rightarrow> eligibility_options \<Rightarrow> eligibility_record list \<Rightarrow> batch_eligibility" where
  "evaluate_batch v now opts records =
     batch_of_results records (map (evaluate_at v now opts records) [0..<length records]) now"

definition evaluate_at_async ::
  "evaluator \<Rightarrow> int \<Rightarrow> eligibility_options \<Rightarrow> eligibility_record list \<Rightarrow> nat \<Rightarrow> (unit, eligibility_result) result" where
  "evaluate_at_async v now opts records i =
     (let cx = batch_context now opts records i; r = records ! i
      in bind_result (async_reasons v r cx (evaluate_sync_rules v r cx @ validate_batch_duplicates_rule r cx))
           (\<lambda>reasons. Inr (build_result r reasons now)))"

fun results_async :: "('i \<Rightarrow> (unit, 'r) result) \<Rightarrow> 'i list \<Rightarrow> (unit, 'r list) result" where
  "results_async f [] = Inr []"
| "results_async f (i # is') = bind_result (f i) (\<lambda>r. bind_result (results_async f is') (\<lambda>rs. Inr (r # rs)))"

definition evaluate_batch_async ::
  "evaluator \<Rightarrow> int \<Rightarrow> eligibility_options \<Rightarrow> eligibility_record list \<Rightarrow> (unit, batch_eligibility) result" where
  "evaluate_batch_async v now opts records =
     bind_result (results_async (evaluate_at_async v now opts records) [0..<length records])
       (\<lambda>results. Inr (batch_of_results records results now))"

definition filter_eligible ::
  "evaluator \<Rightarrow> int \<Rightarrow> eligibility_options \<Rightarrow> eligibility_record list \<Rightarrow> eligibility_record list" where
  "filter_eligible v now opts records = be_eligible_records (evaluate_batch v now opts records)"

datatype eligibility_error = IneligibleEmployee eligibility_result | BatchIneligible batch_eligibility

definition assert_eligible ::
  "evaluator \<Rightarrow> int \<Rightarrow> eligibility_options \<Rightarrow> eligibility_record \<Rightarrow> (eligibility_error, eligibility_result) result" where
  "assert_eligible v now opts r =
     (let e = evaluate_record v now opts r in
      bind_result (throw_if (\<not> es_is_eligible e) (IneligibleEmployee e)) (\<lambda>_. Inr e))"

definition assert_batch_eligible ::
  "evaluator \<Rightarrow> int \<Rightarrow> eligibility_options \<Rightarrow> eligibility_record list \<Rightarrow> (eligibility_error, batch_eligibility) result" where
  "assert_batch_eligible v now opts records =
     (let b = evaluate_batch v now opts records in
      bind_result (throw_if (be_ineligible_count b > 0) (BatchIneligible b)) (\<lambda>_. Inr b))"

section \<open>Who is eligible\<close>

definition amount_acceptable :: "eligibility_options \<Rightarrow> eligibility_record \<Rightarrow> bool" where
  "amount_acceptable opts r \<longleftrightarrow>
     (\<exists>a. raw_amount r = Some a \<and> 0 < a \<and> (\<forall>m. eo_min_salary opts = Some m \<longrightarrow> m \<le> a) \<and>
        (\<forall>m. eo_max_salary opts = Some m \<longrightarrow> a \<le> m))"

definition asset_acceptable :: "eligibility_options \<Rightarrow> eligibility_record \<Rightarrow> bool" where
  "asset_acceptable opts r \<longleftrightarrow>
     (\<exists>a. asset_of r = Some a \<and> \<not> blank a \<and>
        (\<forall>allowed. eo_allowed_assets opts = Some allowed \<and> allowed \<noteq> [] \<longrightarrow> js_trim a \<in> set allowed))"

definition status_acceptable :: "eligibility_options \<Rightarrow> eligibility_record \<Rightarrow> bool" where
  "status_acceptable opts r \<longleftrightarrow>
     raw_status r \<notin> {''inactive'', ''suspended'', ''terminated'', ''offboarded''} \<and>
     (\<forall>allowed. eo_allowed_statuses opts = Some allowed \<and> allowed \<noteq> [] \<longrightarrow>
        raw_status r \<in> set (map normalized_status allowed))"

definition dates_acceptable :: "evaluator \<Rightarrow> int \<Rightarrow> eligibility_record \<Rightarrow> bool" where
  "dates_acceptable v now r \<longleftrightarrow>
     (\<forall>t. parse_date_to_timestamp (ev_date_parse v) (el_effective_date r) = Some t \<longrightarrow> t \<le> now) \<and>
     (\<forall>t. parse_date_to_timestamp (ev_date_parse v) (el_expiry_date r) = Some t \<longrightarrow> now \<le> t)"

definition compliance_acceptable :: "eligibility_options \<Rightarrow> eligibility_record \<Rightarrow> bool" where
  "compliance_acceptable opts r \<longleftrightarrow>
     el_is_blocked r \<noteq> Some True \<and> el_is_locked r \<noteq> Some True \<and>
     (\<forall>c. el_compliance_status r = Some c \<longrightarrow>
        normalized_status c \<notin> {''sanctioned'', ''failed'', ''blocked''} \<and>
        (normalized_status c = ''pending'' \<longrightarrow> eo_strict_compliance opts = Some False))"

definition fit_for_payroll :: "evaluator \<Rightarrow> int \<Rightarrow> eligibility_options \<Rightarrow> eligibility_record \<Rightarrow> bool" where
  "fit_for_payroll v now opts r \<longleftrightarrow>
     \<not> blank (el_employee_id r) \<and> \<not> blank (el_recipient r) \<and>
     (eo_require_valid_stellar opts \<noteq> Some False \<longrightarrow> ev_valid_address v (js_trim (el_recipient r))) \<and>
     amount_acceptable opts r \<and> asset_acceptable opts r \<and> status_acceptable opts r \<and>
     dates_acceptable v now r \<and> compliance_acceptable opts r"

lemma normalized_nonempty: "normalized_status [] = []"
  by (simp add: normalized_status_def js_lower_def js_trim_def)

lemma salary_rule_empty: "validate_salary_rule r cx = [] \<longleftrightarrow> amount_acceptable (rx_options cx) r"
  by (auto simp: validate_salary_rule_def amount_acceptable_def split: option.splits)

lemma asset_rule_empty: "validate_asset_rule r cx = [] \<longleftrightarrow> asset_acceptable (rx_options cx) r"
  by (auto simp: validate_asset_rule_def asset_acceptable_def split: option.splits)

lemma status_rule_empty: "validate_status_rule r cx = [] \<longleftrightarrow> status_acceptable (rx_options cx) r"
  by (auto simp: validate_status_rule_def status_acceptable_def Let_def split: option.splits)

lemma dates_rule_empty:
  "validate_lifecycle_dates_rule (ev_date_parse v) r cx = [] \<longleftrightarrow> dates_acceptable v (rx_reference_timestamp cx) r"
  by (auto simp: validate_lifecycle_dates_rule_def dates_acceptable_def split: option.splits)

lemma compliance_rule_empty: "validate_compliance_rule r cx = [] \<longleftrightarrow> compliance_acceptable (rx_options cx) r"
  by (auto simp: validate_compliance_rule_def compliance_acceptable_def Let_def normalized_nonempty split: option.splits)

lemma built_in_empty:
  "built_in_rules v r cx = [] \<longleftrightarrow> fit_for_payroll v (rx_reference_timestamp cx) (rx_options cx) r"
  unfolding built_in_rules_def append_is_Nil_conv salary_rule_empty asset_rule_empty status_rule_empty dates_rule_empty
    compliance_rule_empty fit_for_payroll_def
  by (auto simp: validate_employee_id_rule_def validate_recipient_rule_def)

definition only_errors :: "eligibility_reason list \<Rightarrow> bool" where
  "only_errors rs \<longleftrightarrow> (\<forall>r \<in> set rs. er_severity r = Some SevError)"

lemma only_errors_simps [simp]:
  "only_errors []" "only_errors (xs @ ys) \<longleftrightarrow> only_errors xs \<and> only_errors ys"
  "only_errors [error_reason c f]"
  by (auto simp: only_errors_def error_reason_def)

lemma error_reasons_simps [simp]:
  "error_reasons [] = []" "error_reasons (xs @ ys) = error_reasons xs @ error_reasons ys"
  "only_errors xs \<Longrightarrow> error_reasons xs = xs"
  by (auto simp: error_reasons_def only_errors_def filter_id_conv)

lemma rules_only_errors:
  "only_errors (validate_employee_id_rule r)"
  "only_errors (validate_recipient_rule valid_address r cx)"
  "only_errors (validate_salary_rule r cx)"
  "only_errors (validate_asset_rule r cx)"
  "only_errors (validate_status_rule r cx)"
  "only_errors (validate_lifecycle_dates_rule date_parse r cx)"
  "only_errors (validate_compliance_rule r cx)"
  by (auto simp: validate_employee_id_rule_def validate_recipient_rule_def validate_salary_rule_def
      validate_asset_rule_def validate_lifecycle_dates_rule_def split: option.splits)
    (simp_all add: validate_status_rule_def validate_compliance_rule_def Let_def split: option.split)

lemma built_in_only_errors: "only_errors (built_in_rules v r cx)"
  by (simp add: built_in_rules_def rules_only_errors)

lemma duplicates_only_errors: "only_errors (validate_batch_duplicates_rule r cx)"
  by (auto simp: validate_batch_duplicates_rule_def split: option.splits)

text \<open>No custom rule run synchronously has an objection.\<close>

definition custom_approves :: "evaluator \<Rightarrow> eligibility_record \<Rightarrow> rule_context \<Rightarrow> bool" where
  "custom_approves v r cx \<longleftrightarrow> (\<forall>rule \<in> set (ev_custom_rules v). error_reasons (run_rule_sync (rule r cx)) = [])"

lemma error_reasons_concat: "error_reasons (concat xss) = [] \<longleftrightarrow> (\<forall>xs \<in> set xss. error_reasons xs = [])"
  by (induction xss) simp_all

lemma sync_rules_empty:
  "error_reasons (evaluate_sync_rules v r cx) = [] \<longleftrightarrow>
     fit_for_payroll v (rx_reference_timestamp cx) (rx_options cx) r \<and> custom_approves v r cx"
  unfolding evaluate_sync_rules_def error_reasons_simps(2) append_is_Nil_conv
  by (simp add: built_in_only_errors built_in_empty error_reasons_concat custom_approves_def)

lemma build_result_eligible: "es_is_eligible (build_result r rs now) \<longleftrightarrow> error_reasons rs = []"
  by (simp add: build_result_def Let_def)

definition repeats_earlier :: "(eligibility_record \<Rightarrow> string) \<Rightarrow> eligibility_record list \<Rightarrow> nat \<Rightarrow> bool" where
  "repeats_earlier f records i \<longleftrightarrow>
     \<not> blank (f (records ! i)) \<and> (\<exists>j < i. js_trim (f (records ! j)) = js_trim (f (records ! i)))"

lemma same_trimmed_iff: "same_trimmed a b \<longleftrightarrow> \<not> blank a \<and> js_trim b = js_trim a"
proof -
  have "js_trim [] = []" by (simp add: js_trim_def)
  then show ?thesis by (auto simp: same_trimmed_def blank_def)
qed

lemma duplicates_empty:
  assumes "i < length records"
  shows "validate_batch_duplicates_rule (records ! i) (batch_context now opts records i) = [] \<longleftrightarrow>
    eo_check_duplicates opts = Some False \<or>
    (\<not> repeats_earlier el_employee_id records i \<and> \<not> repeats_earlier el_recipient records i)"
proof -
  have "list_ex (\<lambda>prior. same_trimmed (f (records ! i)) (f prior)) (take i records) \<longleftrightarrow> repeats_earlier f records i" for f
    using assms by (fastforce simp: list_ex_iff same_trimmed_iff repeats_earlier_def in_set_conv_nth)
  then show ?thesis by (simp add: validate_batch_duplicates_rule_def batch_context_def)
qed

lemma batch_context_sel [simp]:
  "rx_reference_timestamp (batch_context now opts records i) = now" "rx_options (batch_context now opts records i) = opts"
  by (simp_all add: batch_context_def)

lemma evaluate_at_eligible:
  assumes "i < length records"
  shows "es_is_eligible (evaluate_at v now opts records i) \<longleftrightarrow>
    fit_for_payroll v now opts (records ! i) \<and> custom_approves v (records ! i) (batch_context now opts records i) \<and>
    (eo_check_duplicates opts = Some False \<or>
      (\<not> repeats_earlier el_employee_id records i \<and> \<not> repeats_earlier el_recipient records i))"
  unfolding evaluate_at_def Let_def build_result_eligible error_reasons_simps(2) append_is_Nil_conv sync_rules_empty
  using duplicates_empty [OF assms, of now opts] by (simp add: duplicates_only_errors)

definition eligible_indices :: "evaluator \<Rightarrow> int \<Rightarrow> eligibility_options \<Rightarrow> eligibility_record list \<Rightarrow> nat list" where
  "eligible_indices v now opts records =
     filter (\<lambda>i. es_is_eligible (evaluate_at v now opts records i)) [0..<length records]"

lemma filter_eligible_indices: "filter_eligible v now opts records = map ((!) records) (eligible_indices v now opts records)"
proof -
  have "zip records (map (evaluate_at v now opts records) [0..<length records]) =
      map (\<lambda>i. (records ! i, evaluate_at v now opts records i)) [0..<length records]"
    by (rule nth_equalityI) simp_all
  then show ?thesis
    unfolding filter_eligible_def evaluate_batch_def batch_of_results_def Let_def eligible_indices_def
    by (simp only: batch_eligibility.select_convs) (simp add: filter_map o_def split_def)
qed

text \<open>
  A batch keeps, in their order, exactly the records that satisfy every requirement, to which no custom rule objects and,
  unless the check is switched off, that repeat neither the employee nor the recipient of an earlier record. Without
  a list of allowed statuses, every status but the forbidden ones satisfies its requirement.
\<close>

lemma filter_eligible_eq:
  "filter_eligible v now opts records =
     map ((!) records) (filter (\<lambda>i. fit_for_payroll v now opts (records ! i) \<and>
         custom_approves v (records ! i) (batch_context now opts records i) \<and>
         (eo_check_duplicates opts = Some False \<or>
           (\<not> repeats_earlier el_employee_id records i \<and> \<not> repeats_earlier el_recipient records i)))
       [0..<length records])"
  unfolding filter_eligible_indices eligible_indices_def
  by (rule arg_cong [where f = "map _"], rule filter_cong) (simp_all add: evaluate_at_eligible)

text \<open>
  C29: With a list of allowed statuses, a batch keeps, in their order, exactly the records with one of these statuses that
  satisfy every other requirement, to which no custom rule of the evaluator objects and, unless the check is switched
  off, that repeat neither the employee nor the recipient of an earlier record, eligible or not. A date that cannot be
  read counts as none.
\<close>

theorem filter_eligible_iff:
  assumes "eo_allowed_statuses opts = Some allowed" "allowed \<noteq> []"
  shows "filter_eligible v now opts records =
     map ((!) records) (filter (\<lambda>i. raw_status (records ! i) \<in> set (map normalized_status allowed) \<and>
         fit_for_payroll v now opts (records ! i) \<and>
         custom_approves v (records ! i) (batch_context now opts records i) \<and>
         (eo_check_duplicates opts = Some False \<or>
           (\<not> repeats_earlier el_employee_id records i \<and> \<not> repeats_earlier el_recipient records i)))
       [0..<length records])"
proof -
  have "fit_for_payroll v now opts r \<Longrightarrow> raw_status r \<in> set (map normalized_status allowed)" for r
    using assms by (simp add: fit_for_payroll_def status_acceptable_def)
  then show ?thesis unfolding filter_eligible_eq by (intro arg_cong [where f = "map _"] filter_cong) blast+
qed

lemma distinct_map_nth_filter:
  assumes "\<And>i j. i < j \<Longrightarrow> j < n \<Longrightarrow> P i \<Longrightarrow> P j \<Longrightarrow> f i \<noteq> f j"
  shows "distinct (map f (filter P [0..<n]))"
proof -
  have "inj_on f (set (filter P [0..<n]))"
  proof (rule inj_onI)
    fix i j assume "i \<in> set (filter P [0..<n])" "j \<in> set (filter P [0..<n])" "f i = f j"
    then show "i = j" using assms [of i j] assms [of j i] by (cases i j rule: linorder_cases) auto
  qed
  then show ?thesis by (simp add: distinct_map)
qed

text \<open>
  With the duplicate check on, no two eligible records of a batch pay the same employee or the same recipient,
  surrounding blanks aside.
\<close>
theorem eligible_payees_distinct:
  assumes "eo_check_duplicates opts \<noteq> Some False"
  shows "distinct (map (\<lambda>r. js_trim (el_employee_id r)) (filter_eligible v now opts records)) \<and>
    distinct (map (\<lambda>r. js_trim (el_recipient r)) (filter_eligible v now opts records))"
proof -
  have "distinct (map (\<lambda>i. js_trim (f (records ! i))) (eligible_indices v now opts records))"
    if "f = el_employee_id \<or> f = el_recipient" for f
    unfolding eligible_indices_def
  proof (rule distinct_map_nth_filter)
    fix i j
    assume ij: "i < j" "j < length records" "es_is_eligible (evaluate_at v now opts records j)"
    then have "\<not> repeats_earlier f records j" "\<not> blank (f (records ! j))"
      using assms that by (auto simp: evaluate_at_eligible fit_for_payroll_def)
    with ij(1) show "js_trim (f (records ! i)) \<noteq> js_trim (f (records ! j))"
      by (auto simp: repeats_earlier_def)
  qed
  then show ?thesis by (simp add: filter_eligible_indices o_def)
qed

text \<open>
  Asking asynchronously consults the custom rules twice: with rules that answer directly and no registry, the
  decision and its first cause are those of the synchronous evaluation, but every reason a custom rule gives appears
  a second time at the end.
\<close>
theorem custom_reasons_doubled:
  assumes "eo_on_chain_registry opts = None"
    and "\<And>rule cx. rule \<in> set (ev_custom_rules v) \<Longrightarrow> rule r cx = RuleReasons (given rule)"
  shows "\<exists>e. evaluate_record_async v now opts r = Inr e \<and>
    es_is_eligible e = es_is_eligible (evaluate_record v now opts r) \<and>
    es_primary_reason_code e = es_primary_reason_code (evaluate_record v now opts r) \<and>
    es_reasons e = es_reasons (evaluate_record v now opts r) @ concat (map given (ev_custom_rules v))"
proof -
  let ?cx = "single_context now opts"
  let ?sync = "evaluate_sync_rules v r ?cx" and ?custom = "concat (map given (ev_custom_rules v))"
  have run: "run_rules_async (map (\<lambda>rule. rule r ?cx) rules) = Inr (concat (map given rules))"
    if "set rules \<subseteq> set (ev_custom_rules v)" for rules
    using that
  proof (induction rules)
    case (Cons a rules)
    then have "a r ?cx = RuleReasons (given a)" using assms(2) by simp
    with Cons show ?case by (simp add: run_rule_async_def)
  qed simp
  have custom: "?sync = built_in_rules v r ?cx @ ?custom"
  proof -
    have "map (\<lambda>rule. run_rule_sync (rule r ?cx)) (ev_custom_rules v) = map given (ev_custom_rules v)"
      by (rule map_cong) (simp_all add: assms(2) run_rule_sync_def)
    then show ?thesis by (simp only: evaluate_sync_rules_def)
  qed
  have "evaluate_record_async v now opts r = Inr (build_result r (?sync @ ?custom) now)"
    using run [OF order.refl] assms(1)
    by (simp add: evaluate_record_async_def async_reasons_def single_context_def)
  moreover have "error_reasons (?sync @ ?custom) = [] \<longleftrightarrow> error_reasons ?sync = []"
    by (auto simp: custom)
  moreover have "(case error_reasons (?sync @ ?custom) of [] \<Rightarrow> None | e # _ \<Rightarrow> Some (er_code e)) =
      (case error_reasons ?sync of [] \<Rightarrow> None | e # _ \<Rightarrow> Some (er_code e))"
    by (cases "error_reasons (built_in_rules v r ?cx)"; cases "error_reasons ?custom") (simp_all add: custom)
  ultimately show ?thesis by (simp add: evaluate_record_def build_result_def Let_def)
qed

text \<open>The status \<open>conditional\<close> is never given: warnings alone leave the record eligible.\<close>

lemma never_conditional: "es_status (build_result r rs now) \<noteq> Conditional"
  by (simp add: build_result_def Let_def)

section \<open>Witnesses\<close>

definition example_evaluator :: evaluator where
  "example_evaluator =
     \<lparr>ev_valid_address = (\<lambda>a. length a > 0), ev_date_parse = (\<lambda>_. None),
      ev_custom_rules = [\<lambda>_ _. RuleReasons [error_reason (OtherCode ''HOLD'') ''hold'']]\<rparr>"

definition example_options :: eligibility_options where
  "example_options =
     \<lparr>eo_allowed_assets = None, eo_min_salary = None, eo_max_salary = None, eo_require_valid_stellar = None,
      eo_allowed_statuses = None, eo_strict_compliance = None, eo_check_duplicates = None, eo_on_chain_registry = None\<rparr>"

definition example_record :: eligibility_record where
  "example_record =
     \<lparr>el_employee_id = ''e1'', el_recipient = ''GA'', el_salary = Some 10, el_amount = None, el_asset = Some ''native'',
      el_token = None, el_status = Some ''pendng'', el_effective_date = None, el_expiry_date = None,
      el_is_blocked = None, el_is_locked = None, el_compliance_status = None\<rparr>"

text \<open>An unknown status is fit: \<open>allowedStatuses\<close> has no default.\<close>

lemma example_fit: "fit_for_payroll (example_evaluator\<lparr>ev_custom_rules := []\<rparr>) 0 example_options example_record"
  by (simp add: fit_for_payroll_def example_evaluator_def example_options_def example_record_def blank_def js_trim_def
      js_space_def amount_acceptable_def raw_amount_def asset_acceptable_def asset_of_def status_acceptable_def
      raw_status_def normalized_status_def js_lower_def js_lower_char_def dates_acceptable_def
      parse_date_to_timestamp_def compliance_acceptable_def Let_def)

definition status_options :: eligibility_options where
  "status_options = example_options\<lparr>eo_allowed_statuses := Some [''active'', ''Contractor_Approved '']\<rparr>"

definition contractor_record :: eligibility_record where
  "contractor_record =
     example_record\<lparr>el_employee_id := ''e2'', el_recipient := ''GB'', el_status := Some ''contractor_approved''\<rparr>"

theorem filter_eligible_iff_witness:
  "filter_eligible (example_evaluator\<lparr>ev_custom_rules := []\<rparr>) 0 status_options [example_record, contractor_record] =
     [contractor_record]"
  (is "filter_eligible ?v 0 _ ?rs = _")
proof -
  have "raw_status example_record \<notin> set (map normalized_status [''active'', ''Contractor_Approved ''])"
    "raw_status contractor_record \<in> set (map normalized_status [''active'', ''Contractor_Approved ''])"
    by code_simp+
  moreover have "fit_for_payroll ?v 0 status_options contractor_record"
    by (simp add: fit_for_payroll_def example_evaluator_def status_options_def example_options_def contractor_record_def
        example_record_def blank_def js_trim_def js_space_def amount_acceptable_def raw_amount_def asset_acceptable_def
        asset_of_def status_acceptable_def raw_status_def normalized_status_def js_lower_def js_lower_char_def
        dates_acceptable_def parse_date_to_timestamp_def compliance_acceptable_def Let_def) code_simp
  moreover have "js_trim (el_employee_id example_record) \<noteq> js_trim (el_employee_id contractor_record)"
    "js_trim (el_recipient example_record) \<noteq> js_trim (el_recipient contractor_record)"
    by code_simp+
  moreover have "[0..<length ?rs] = [0, 1]" by simp
  moreover have "eo_allowed_statuses status_options = Some [''active'', ''Contractor_Approved '']" by (simp add: status_options_def)
  ultimately show ?thesis
    using filter_eligible_iff [of status_options "[''active'', ''Contractor_Approved '']" ?v 0 ?rs]
    by (simp add: custom_approves_def repeats_earlier_def example_evaluator_def)
qed

theorem eligible_payees_distinct_witness:
  "distinct (map (\<lambda>r. js_trim (el_recipient r))
     (filter_eligible (example_evaluator\<lparr>ev_custom_rules := []\<rparr>) 0 example_options [example_record, example_record]))"
  using eligible_payees_distinct [of example_options] by (simp add: example_options_def)

theorem custom_reasons_doubled_witness:
  "\<exists>e. evaluate_record_async example_evaluator 0 example_options example_record = Inr e \<and>
    es_reasons e = es_reasons (evaluate_record example_evaluator 0 example_options example_record) @
      [error_reason (OtherCode ''HOLD'') ''hold'']"
  using custom_reasons_doubled [of example_options example_evaluator example_record
      "\<lambda>_. [error_reason (OtherCode ''HOLD'') ''hold'']" 0]
  by (auto simp: example_options_def example_evaluator_def)

end
