(* ===== verification/Policy.thy ===== *)
theory Policy
  imports Digits Complex_Main
begin

text \<open>
  Canonical asset identifiers (\<open>packages/core/src/assets/assetIdentity.ts\<close>) and the policy compiler
  (\<open>policy/compiler.ts\<close>). The address checks of the Stellar library are parameters. Labels for people and the
  context of errors are left out. A number is a finite rational or not finite.
\<close>

section \<open>Asset identities\<close>

datatype asset_identity_error =
  EmptyInput | InvalidCode | InvalidCodeCharacters | MissingIssuer | InvalidIssuer | AmbiguousSeparator

datatype asset_kind = NativeAsset | IssuedAsset | ContractAsset

record canonical_asset =
  ca_kind :: asset_kind
  ca_id :: string
  ca_code :: "string option"
  ca_issuer :: "string option"

text \<open>The address checks: \<open>StrKey.isValidEd25519PublicKey\<close> and \<open>StrKey.isValidContract\<close>.\<close>

record address_checks =
  ad_valid_issuer :: "string \<Rightarrow> bool"
  ad_valid_contract :: "string \<Rightarrow> bool"

definition native_aliases :: "string list" where
  "native_aliases = [''native'', ''xlm'']"

definition is_alphanumeric :: "char \<Rightarrow> bool" where
  "is_alphanumeric c =
     (let n = (of_char c :: nat) in (48 \<le> n \<and> n \<le> 57) \<or> (65 \<le> n \<and> n \<le> 90) \<or> (97 \<le> n \<and> n \<le> 122))"

definition is_lower_letter :: "char \<Rightarrow> bool" where
  "is_lower_letter c = (let n = (of_char c :: nat) in 97 \<le> n \<and> n \<le> 122)"

text \<open>\<open>/^[A-Za-z0-9]{1,12}$/\<close>\<close>

definition asset_code_pattern :: "string \<Rightarrow> bool" where
  "asset_code_pattern s = (1 \<le> length s \<and> length s \<le> 12 \<and> list_all is_alphanumeric s)"

definition normalize_asset_identity ::
  "address_checks \<Rightarrow> bool \<Rightarrow> string \<Rightarrow> (asset_identity_error, canonical_asset) result" where
  "normalize_asset_identity ad coerce_code_case inp =
     (if blank inp then Inl EmptyInput
      else let trimmed = js_trim inp in
        if js_lower trimmed \<in> set native_aliases
        then Inr \<lparr>ca_kind = NativeAsset, ca_id = ''native'', ca_code = Some ''XLM'', ca_issuer = None\<rparr>
        else (case js_split CHR '':'' trimmed of
            [whole] \<Rightarrow>
              if ad_valid_contract ad trimmed
              then Inr \<lparr>ca_kind = ContractAsset, ca_id = trimmed, ca_code = None, ca_issuer = None\<rparr>
              else Inl MissingIssuer
          | [raw_code, issuer] \<Rightarrow>
              if blank raw_code then Inl InvalidCode
              else if \<not> asset_code_pattern raw_code then Inl InvalidCodeCharacters
              else if list_ex is_lower_letter raw_code \<and> \<not> coerce_code_case then Inl InvalidCodeCharacters
              else if blank issuer then Inl MissingIssuer
              else if \<not> ad_valid_issuer ad issuer then Inl InvalidIssuer
              else Inr \<lparr>ca_kind = IssuedAsset, ca_id = js_upper raw_code @ '':'' @ issuer,
                        ca_code = Some (js_upper raw_code), ca_issuer = Some issuer\<rparr>
          | _ \<Rightarrow> Inl AmbiguousSeparator))"

definition asset_identities_equal :: "address_checks \<Rightarrow> string \<Rightarrow> string \<Rightarrow> bool" where
  "asset_identities_equal ad a b =
     (case (normalize_asset_identity ad True a, normalize_asset_identity ad True b) of
        (Inr x, Inr y) \<Rightarrow> ca_id x = ca_id y
      | _ \<Rightarrow> False)"

subsection \<open>Canonical identifiers are canonical\<close>

text \<open>
  What the checks promise: an address is 56 characters, upper-case letters and digits.
\<close>

definition strkey_text :: "(string \<Rightarrow> bool) \<Rightarrow> bool" where
  "strkey_text valid \<longleftrightarrow>
     (\<forall>s. valid s \<longrightarrow> length s = 56 \<and> (\<forall>c \<in> set s. is_alphanumeric c \<and> \<not> is_lower_letter c))"

lemma alphanumeric_plain: "is_alphanumeric c \<Longrightarrow> \<not> js_space c \<and> c \<noteq> CHR '':''"
  by (auto simp: is_alphanumeric_def js_space_def Let_def)

lemma upper_char_alphanumeric: "is_alphanumeric c \<Longrightarrow> is_alphanumeric (js_upper_char c) \<and> \<not> is_lower_letter (js_upper_char c)"
  by (auto simp: is_alphanumeric_def is_lower_letter_def js_upper_char_def Let_def)

lemma upper_char_idem: "is_alphanumeric c \<Longrightarrow> js_upper_char (js_upper_char c) = js_upper_char c"
  using upper_char_alphanumeric [of c] by (auto simp: js_upper_char_def is_lower_letter_def Let_def)

lemma code_upper:
  assumes "asset_code_pattern s"
  shows "asset_code_pattern (js_upper s)" "\<not> list_ex is_lower_letter (js_upper s)" "js_upper (js_upper s) = js_upper s"
    "js_trim (js_upper s) = js_upper s" "CHR '':'' \<notin> set (js_upper s)" "js_upper s \<noteq> []"
proof -
  have all: "\<And>c. c \<in> set s \<Longrightarrow> is_alphanumeric c" and len: "1 \<le> length s" "length s \<le> 12"
    using assms by (auto simp: asset_code_pattern_def list_all_iff)
  have up: "\<And>c. c \<in> set (js_upper s) \<Longrightarrow> is_alphanumeric c \<and> \<not> is_lower_letter c"
    using all upper_char_alphanumeric by (auto simp: js_upper_def)
  show "asset_code_pattern (js_upper s)"
    using up len by (simp add: asset_code_pattern_def list_all_iff js_upper_def)
  show "\<not> list_ex is_lower_letter (js_upper s)" using up by (auto simp: list_ex_iff)
  show "js_upper (js_upper s) = js_upper s" using all upper_char_idem by (simp add: js_upper_def)
  show "js_trim (js_upper s) = js_upper s" using up alphanumeric_plain by (intro js_trim_no_space) blast
  show "CHR '':'' \<notin> set (js_upper s)" using up alphanumeric_plain by blast
  show "js_upper s \<noteq> []" using len by (cases s) (simp_all add: js_upper_def)
qed

lemma strkey_plain:
  assumes "strkey_text valid" "valid s"
  shows "js_trim s = s" "CHR '':'' \<notin> set s" "s \<noteq> []" "length s = 56"
proof -
  have "\<And>c. c \<in> set s \<Longrightarrow> is_alphanumeric c" and len: "length s = 56"
    using assms by (auto simp: strkey_text_def)
  then show "js_trim s = s" "CHR '':'' \<notin> set s" using alphanumeric_plain by (auto intro!: js_trim_no_space)
  show "s \<noteq> []" "length s = 56" using len by auto
qed

lemma length_js_lower [simp]: "length (js_lower s) = length s"
  by (simp add: js_lower_def)

lemma not_native_long: "12 < length s \<Longrightarrow> js_lower s \<notin> set native_aliases"
proof
  assume len: "12 < length s" and "js_lower s \<in> set native_aliases"
  then have "length (js_lower s) \<le> 6" by (auto simp: native_aliases_def simp del: length_js_lower)
  with len show False by simp
qed

lemma trim_issued:
  assumes "asset_code_pattern code" "strkey_text valid" "valid issuer"
  shows "js_trim (js_upper code @ '':'' @ issuer) = js_upper code @ '':'' @ issuer"
proof (rule js_trim_no_space)
  have "is_alphanumeric c" if "c \<in> set (js_upper code)" for c
    using code_upper(1) [OF assms(1)] that by (auto simp: asset_code_pattern_def list_all_iff)
  moreover have "is_alphanumeric c" if "c \<in> set issuer" for c
    using assms(2,3) that by (auto simp: strkey_text_def)
  ultimately show "\<forall>c \<in> set (js_upper code @ '':'' @ issuer). \<not> js_space c"
    using alphanumeric_plain by (auto simp: js_space_def Let_def)
qed

text \<open>
  A canonical identifier is its own canonical form: whatever spelling an asset was given in, normalizing the
  resulting identifier again, with or without correction of the case, gives the same asset.
\<close>
theorem canonical_id_stable:
  assumes "strkey_text (ad_valid_issuer ad)" "strkey_text (ad_valid_contract ad)"
    and "normalize_asset_identity ad coerce inp = Inr a"
  shows "normalize_asset_identity ad coerce' (ca_id a) = Inr a"
proof -
  let ?t = "js_trim inp"
  consider (native) "a = \<lparr>ca_kind = NativeAsset, ca_id = ''native'', ca_code = Some ''XLM'', ca_issuer = None\<rparr>"
    | (contract) "ad_valid_contract ad ?t" "a = \<lparr>ca_kind = ContractAsset, ca_id = ?t, ca_code = None, ca_issuer = None\<rparr>"
    | (issued) code issuer where "asset_code_pattern code" "ad_valid_issuer ad issuer"
        "a = \<lparr>ca_kind = IssuedAsset, ca_id = js_upper code @ '':'' @ issuer, ca_code = Some (js_upper code), ca_issuer = Some issuer\<rparr>"
    using assms(3) by (auto simp: normalize_asset_identity_def Let_def split: if_splits list.splits)
  then show ?thesis
  proof cases
    case native
    then show ?thesis
      by (simp add: normalize_asset_identity_def blank_def js_trim_def js_space_def Let_def js_lower_def js_lower_char_def
          native_aliases_def)
  next
    case contract
    note plain = strkey_plain [OF assms(2) contract(1)]
    then have "js_lower ?t \<notin> set native_aliases" by (intro not_native_long) simp
    with contract plain show ?thesis
      by (simp add: normalize_asset_identity_def blank_def Let_def js_split_no_sep)
  next
    case issued
    note code = code_upper [OF issued(1)] and plain = strkey_plain [OF assms(1) issued(2)]
    have trim: "js_trim (ca_id a) = ca_id a" using trim_issued [OF issued(1) assms(1) issued(2)] issued(3) by simp
    have "12 < length (ca_id a)" using issued(3) plain(4) by simp
    then have "js_lower (ca_id a) \<notin> set native_aliases" by (rule not_native_long)
    moreover have "js_split CHR '':'' (ca_id a) = [js_upper code, issuer]"
      using issued(3) code(5) plain(2) by (simp add: js_split_append js_split_no_sep)
    moreover have "ca_id a \<noteq> []" using issued(3) by simp
    ultimately show ?thesis
      using issued code plain trim by (simp add: normalize_asset_identity_def blank_def Let_def)
  qed
qed

section \<open>The policy compiler\<close>

text \<open>
  The inputs are checked at run time: a \<open>bigint\<close> field that holds something else is \<^const>\<open>None\<close>, as is a missing
  section.
\<close>

datatype js_number = Finite rat | NotFinite

definition number_is_integer :: "js_number \<Rightarrow> bool" where
  "number_is_integer x = (case x of Finite q \<Rightarrow> snd (quotient_of q) = 1 | NotFinite \<Rightarrow> False)"

record settlement_window =
  sw_min_delay_seconds :: js_number
  sw_max_open_seconds :: js_number

record capacity_limits =
  cl_max_batch_size :: js_number
  cl_max_total_payout :: "int option"
  cl_max_per_recipient_payout :: "int option"

record reserve_requirements =
  rr_min_reserve_balance :: "int option"
  rr_strict :: "bool option"

datatype viewer_roles = NoRoles | Roles "string list" | NotStrings

record audit_settings =
  au_audit_required :: "bool option"
  au_retention_days :: js_number
  au_allowed_viewer_roles :: viewer_roles

record policy_input =
  pi_policy_id :: string
  pi_asset :: string
  pi_settlement_window :: "settlement_window option"
  pi_capacity_limits :: "capacity_limits option"
  pi_reserve_requirements :: "reserve_requirements option"
  pi_audit_settings :: "audit_settings option"

datatype policy_error_code =
  MissingField | InvalidSettlementWindow | InvalidCapacityLimit | InvalidReserve | InvalidAuditSettings |
  InvalidAsset asset_identity_error

record policy_error =
  pe_code :: policy_error_code
  pe_field :: string

record compiled_policy =
  cp_policy_id :: string
  cp_asset_id :: string
  cp_min_delay_seconds :: rat
  cp_max_open_seconds :: rat
  cp_max_batch_size :: rat
  cp_max_total_payout :: string
  cp_max_per_recipient_payout :: string
  cp_min_reserve_balance :: string
  cp_strict :: bool
  cp_audit_required :: bool
  cp_retention_days :: rat
  cp_allowed_viewer_roles :: "string list"

definition policy_err :: "policy_error_code \<Rightarrow> string \<Rightarrow> policy_error" where
  "policy_err c f = \<lparr>pe_code = c, pe_field = f\<rparr>"

definition err_if :: "bool \<Rightarrow> policy_error_code \<Rightarrow> string \<Rightarrow> policy_error list" where
  "err_if b c f = (if b then [policy_err c f] else [])"

definition at_least :: "js_number \<Rightarrow> rat \<Rightarrow> bool" where
  "at_least x b = (case x of Finite q \<Rightarrow> b \<le> q | NotFinite \<Rightarrow> False)"

definition greater_than :: "js_number \<Rightarrow> rat \<Rightarrow> bool" where
  "greater_than x b = (case x of Finite q \<Rightarrow> b < q | NotFinite \<Rightarrow> False)"

definition validate_settlement_window :: "settlement_window option \<Rightarrow> policy_error list" where
  "validate_settlement_window inp =
     (case inp of
        None \<Rightarrow> [policy_err MissingField ''settlementWindow'']
      | Some w \<Rightarrow>
          err_if (\<not> at_least (sw_min_delay_seconds w) 0) InvalidSettlementWindow ''settlementWindow.minDelaySeconds'' @
          err_if (\<not> greater_than (sw_max_open_seconds w) 0) InvalidSettlementWindow ''settlementWindow.maxOpenSeconds'' @
          (case (sw_min_delay_seconds w, sw_max_open_seconds w) of
             (Finite a, Finite b) \<Rightarrow> err_if (a \<ge> 0 \<and> b > 0 \<and> a \<ge> b) InvalidSettlementWindow ''settlementWindow''
           | _ \<Rightarrow> []))"

definition validate_capacity_limits :: "capacity_limits option \<Rightarrow> policy_error list" where
  "validate_capacity_limits inp =
     (case inp of
        None \<Rightarrow> [policy_err MissingField ''capacityLimits'']
      | Some c \<Rightarrow>
          err_if (\<not> number_is_integer (cl_max_batch_size c) \<or> \<not> greater_than (cl_max_batch_size c) 0)
            InvalidCapacityLimit ''capacityLimits.maxBatchSize'' @
          err_if (case cl_max_total_payout c of None \<Rightarrow> True | Some n \<Rightarrow> n \<le> 0)
            InvalidCapacityLimit ''capacityLimits.maxTotalPayout'' @
          err_if (case cl_max_per_recipient_payout c of None \<Rightarrow> True | Some n \<Rightarrow> n \<le> 0)
            InvalidCapacityLimit ''capacityLimits.maxPerRecipientPayout'' @
          (case (cl_max_total_payout c, cl_max_per_recipient_payout c) of
             (Some t, Some p) \<Rightarrow>
               err_if (t > 0 \<and> p > 0 \<and> p > t) InvalidCapacityLimit ''capacityLimits.maxPerRecipientPayout''
           | _ \<Rightarrow> []))"

definition validate_reserve_requirements :: "reserve_requirements option \<Rightarrow> policy_error list" where
  "validate_reserve_requirements inp =
     (case inp of
        None \<Rightarrow> [policy_err MissingField ''reserveRequirements'']
      | Some r \<Rightarrow>
          err_if (case rr_min_reserve_balance r of None \<Rightarrow> True | Some n \<Rightarrow> n < 0)
            InvalidReserve ''reserveRequirements.minReserveBalance'')"

definition validate_audit_settings :: "audit_settings option \<Rightarrow> policy_error list" where
  "validate_audit_settings inp =
     (case inp of
        None \<Rightarrow> [policy_err MissingField ''auditSettings'']
      | Some a \<Rightarrow>
          err_if (au_audit_required a = None) InvalidAuditSettings ''auditSettings.auditRequired'' @
          err_if (\<not> number_is_integer (au_retention_days a) \<or> \<not> at_least (au_retention_days a) 0)
            InvalidAuditSettings ''auditSettings.retentionDays'' @
          err_if (au_audit_required a = Some True \<and> number_is_integer (au_retention_days a) \<and>
              \<not> at_least (au_retention_days a) 1)
            InvalidAuditSettings ''auditSettings.retentionDays'' @
          err_if (au_allowed_viewer_roles a = NotStrings) InvalidAuditSettings ''auditSettings.allowedViewerRoles'')"

definition validate_reserve_within_capacity ::
  "reserve_requirements option \<Rightarrow> capacity_limits option \<Rightarrow> policy_error list" where
  "validate_reserve_within_capacity reserve capacity =
     (case (reserve, capacity) of
        (Some r, Some c) \<Rightarrow>
          (case (rr_min_reserve_balance r, cl_max_total_payout c) of
             (Some m, Some t) \<Rightarrow> err_if (m > 0 \<and> t > 0 \<and> m > t) InvalidReserve ''reserveRequirements.minReserveBalance''
           | _ \<Rightarrow> [])
      | _ \<Rightarrow> [])"

definition validate_policy_id :: "string \<Rightarrow> policy_error list" where
  "validate_policy_id i = err_if (blank i) MissingField ''policyId''"

definition validate_policy_asset :: "address_checks \<Rightarrow> string \<Rightarrow> policy_error list" where
  "validate_policy_asset ad a =
     (case normalize_asset_identity ad True a of Inl e \<Rightarrow> [policy_err (InvalidAsset e) ''asset''] | Inr _ \<Rightarrow> [])"

definition policy_errors :: "address_checks \<Rightarrow> policy_input \<Rightarrow> policy_error list" where
  "policy_errors ad inp =
     validate_policy_id (pi_policy_id inp) @ validate_policy_asset ad (pi_asset inp) @
     validate_settlement_window (pi_settlement_window inp) @ validate_capacity_limits (pi_capacity_limits inp) @
     validate_reserve_requirements (pi_reserve_requirements inp) @ validate_audit_settings (pi_audit_settings inp) @
     validate_reserve_within_capacity (pi_reserve_requirements inp) (pi_capacity_limits inp)"

fun number_value :: "js_number \<Rightarrow> rat" where
  "number_value (Finite q) = q"
| "number_value NotFinite = 0"

definition compile_payroll_policy ::
  "address_checks \<Rightarrow> policy_input \<Rightarrow> (policy_error list, compiled_policy) result" where
  "compile_payroll_policy ad inp =
     (let errors = policy_errors ad inp in
      if length errors > 0 then Inl errors
      else case (normalize_asset_identity ad True (pi_asset inp), pi_settlement_window inp, pi_capacity_limits inp,
          pi_reserve_requirements inp, pi_audit_settings inp) of
          (Inr asset, Some w, Some c, Some r, Some a) \<Rightarrow>
            Inr \<lparr>cp_policy_id = js_trim (pi_policy_id inp), cp_asset_id = ca_id asset,
              cp_min_delay_seconds = number_value (sw_min_delay_seconds w),
              cp_max_open_seconds = number_value (sw_max_open_seconds w),
              cp_max_batch_size = number_value (cl_max_batch_size c),
              cp_max_total_payout = int_string (the (cl_max_total_payout c)),
              cp_max_per_recipient_payout = int_string (the (cl_max_per_recipient_payout c)),
              cp_min_reserve_balance = int_string (the (rr_min_reserve_balance r)),
              cp_strict = (rr_strict r \<noteq> Some False), cp_audit_required = the (au_audit_required a),
              cp_retention_days = number_value (au_retention_days a),
              cp_allowed_viewer_roles = (case au_allowed_viewer_roles a of Roles rs \<Rightarrow> rs | _ \<Rightarrow> [])\<rparr>
        | _ \<Rightarrow> Inl [])"

definition compile_payroll_policy_or_throw ::
  "address_checks \<Rightarrow> policy_input \<Rightarrow> (policy_error \<times> policy_error list, compiled_policy) result" where
  "compile_payroll_policy_or_throw ad inp =
     (case compile_payroll_policy ad inp of Inl errors \<Rightarrow> Inl (hd errors, errors) | Inr p \<Rightarrow> Inr p)"

subsection \<open>What a compiled policy guarantees\<close>

text \<open>\<open>BigInt(s)\<close> of a string that \<open>toString\<close> of a \<open>bigint\<close> made\<close>

definition bigint_of_string :: "string \<Rightarrow> int" where
  "bigint_of_string s = (case s of c # cs \<Rightarrow> if c = CHR ''-'' then - int (dec_value cs) else int (dec_value s) | [] \<Rightarrow> 0)"

lemma bigint_of_int_string [simp]: "bigint_of_string (int_string n) = n"
proof (cases "n < 0")
  case True
  then show ?thesis by (simp add: bigint_of_string_def int_string_def)
next
  case False
  have "dec_string k \<noteq> []" "is_digit (hd (dec_string k))" for k
    using dec_string_digits [of k] by (auto intro: hd_in_set)
  then obtain c cs where c: "dec_string (nat n) = c # cs" "is_digit c"
    by (metis list.collapse)
  then have "c \<noteq> CHR ''-''" by auto
  moreover have "int (dec_value (c # cs)) = n" using False c(1) radix_value_string [of 10 "nat n"] by simp
  ultimately show ?thesis using False c(1) by (simp add: bigint_of_string_def int_string_def)
qed

definition policy_wf :: "compiled_policy \<Rightarrow> bool" where
  "policy_wf p \<longleftrightarrow>
     cp_policy_id p \<noteq> [] \<and>
     0 \<le> cp_min_delay_seconds p \<and> cp_min_delay_seconds p < cp_max_open_seconds p \<and>
     cp_max_batch_size p \<in> \<int> \<and> 0 < cp_max_batch_size p \<and>
     0 < bigint_of_string (cp_max_per_recipient_payout p) \<and>
     bigint_of_string (cp_max_per_recipient_payout p) \<le> bigint_of_string (cp_max_total_payout p) \<and>
     0 \<le> bigint_of_string (cp_min_reserve_balance p) \<and>
     bigint_of_string (cp_min_reserve_balance p) \<le> bigint_of_string (cp_max_total_payout p) \<and>
     cp_retention_days p \<in> \<int> \<and> 0 \<le> cp_retention_days p \<and> (cp_audit_required p \<longrightarrow> 1 \<le> cp_retention_days p)"

lemma integer_number: "number_is_integer (Finite q) \<longleftrightarrow> q \<in> \<int>"
proof
  assume "number_is_integer (Finite q)"
  then obtain n where "quotient_of q = (n, 1)" by (cases "quotient_of q") (simp add: number_is_integer_def)
  then have "q = of_int n" using quotient_of_div [of q] by simp
  then show "q \<in> \<int>" by simp
next
  assume "q \<in> \<int>"
  then obtain n where "q = of_int n" by (elim Ints_cases)
  then show "number_is_integer (Finite q)" by (simp add: number_is_integer_def)
qed

lemma err_if_empty [simp]: "err_if b c f = [] \<longleftrightarrow> \<not> b"
  by (simp add: err_if_def)

lemma settlement_valid:
  "validate_settlement_window w = [] \<longleftrightarrow>
     (\<exists>a b. w = Some \<lparr>sw_min_delay_seconds = Finite a, sw_max_open_seconds = Finite b\<rparr> \<and> 0 \<le> a \<and> a < b)"
proof (cases w)
  case (Some v)
  then show ?thesis
    by (cases v; cases "sw_min_delay_seconds v"; cases "sw_max_open_seconds v")
      (auto simp: validate_settlement_window_def at_least_def greater_than_def)
qed (simp add: validate_settlement_window_def)

lemma capacity_valid:
  "validate_capacity_limits c = [] \<longleftrightarrow>
     (\<exists>b t p. c = Some \<lparr>cl_max_batch_size = Finite b, cl_max_total_payout = Some t, cl_max_per_recipient_payout = Some p\<rparr> \<and>
        b \<in> \<int> \<and> 0 < b \<and> 0 < p \<and> p \<le> t)"
proof (cases c)
  case (Some v)
  then show ?thesis
    by (cases v; cases "cl_max_batch_size v"; cases "cl_max_total_payout v"; cases "cl_max_per_recipient_payout v")
      (auto simp: validate_capacity_limits_def greater_than_def integer_number [symmetric])
qed (simp add: validate_capacity_limits_def)

lemma reserve_valid:
  "validate_reserve_requirements r = [] \<longleftrightarrow>
     (\<exists>m s. r = Some \<lparr>rr_min_reserve_balance = Some m, rr_strict = s\<rparr> \<and> 0 \<le> m)"
proof (cases r)
  case (Some v)
  then show ?thesis
    by (cases v; cases "rr_min_reserve_balance v") (auto simp: validate_reserve_requirements_def)
qed (simp add: validate_reserve_requirements_def)

lemma audit_valid:
  "validate_audit_settings a = [] \<longleftrightarrow>
     (\<exists>q d rs. a = Some \<lparr>au_audit_required = Some q, au_retention_days = Finite d, au_allowed_viewer_roles = rs\<rparr> \<and>
        d \<in> \<int> \<and> 0 \<le> d \<and> (q \<longrightarrow> 1 \<le> d) \<and> rs \<noteq> NotStrings)"
proof (cases a)
  case (Some v)
  then show ?thesis
    by (cases v; cases "au_audit_required v"; cases "au_retention_days v")
      (auto simp: validate_audit_settings_def at_least_def integer_number [symmetric] number_is_integer_def)
qed (simp add: validate_audit_settings_def)

lemma no_policy_errors:
  assumes "policy_errors ad inp = []"
  obtains a mn mx b t q m s r d rs where
    "\<not> blank (pi_policy_id inp)" "normalize_asset_identity ad True (pi_asset inp) = Inr a"
    "pi_settlement_window inp = Some \<lparr>sw_min_delay_seconds = Finite mn, sw_max_open_seconds = Finite mx\<rparr>" "0 \<le> mn" "mn < mx"
    "pi_capacity_limits inp = Some \<lparr>cl_max_batch_size = Finite b, cl_max_total_payout = Some t, cl_max_per_recipient_payout = Some q\<rparr>"
    "b \<in> \<int>" "0 < b" "0 < q" "q \<le> t"
    "pi_reserve_requirements inp = Some \<lparr>rr_min_reserve_balance = Some m, rr_strict = s\<rparr>" "0 \<le> m" "m \<le> t"
    "pi_audit_settings inp = Some \<lparr>au_audit_required = Some r, au_retention_days = Finite d, au_allowed_viewer_roles = rs\<rparr>"
    "d \<in> \<int>" "0 \<le> d" "r \<longrightarrow> 1 \<le> d" "rs \<noteq> NotStrings"
proof -
  have e: "validate_policy_id (pi_policy_id inp) = []" "validate_policy_asset ad (pi_asset inp) = []"
    "validate_settlement_window (pi_settlement_window inp) = []" "validate_capacity_limits (pi_capacity_limits inp) = []"
    "validate_reserve_requirements (pi_reserve_requirements inp) = []" "validate_audit_settings (pi_audit_settings inp) = []"
    "validate_reserve_within_capacity (pi_reserve_requirements inp) (pi_capacity_limits inp) = []"
    using assms by (simp_all add: policy_errors_def)
  have i: "\<not> blank (pi_policy_id inp)" using e(1) by (simp add: validate_policy_id_def)
  obtain a where a: "normalize_asset_identity ad True (pi_asset inp) = Inr a"
    using e(2) by (auto simp: validate_policy_asset_def split: sum.splits)
  obtain mn mx where w: "pi_settlement_window inp = Some \<lparr>sw_min_delay_seconds = Finite mn, sw_max_open_seconds = Finite mx\<rparr>"
    "0 \<le> mn" "mn < mx" using e(3) by (auto simp: settlement_valid)
  obtain b t q where c: "pi_capacity_limits inp = Some \<lparr>cl_max_batch_size = Finite b, cl_max_total_payout = Some t, cl_max_per_recipient_payout = Some q\<rparr>"
    "b \<in> \<int>" "0 < b" "0 < q" "q \<le> t" using e(4) by (auto simp: capacity_valid)
  obtain m s where r: "pi_reserve_requirements inp = Some \<lparr>rr_min_reserve_balance = Some m, rr_strict = s\<rparr>" "0 \<le> m"
    using e(5) by (auto simp: reserve_valid)
  obtain ar d rs where u: "pi_audit_settings inp = Some \<lparr>au_audit_required = Some ar, au_retention_days = Finite d, au_allowed_viewer_roles = rs\<rparr>"
    "d \<in> \<int>" "0 \<le> d" "ar \<longrightarrow> 1 \<le> d" "rs \<noteq> NotStrings" using e(6) by (auto simp: audit_valid)
  have "m \<le> t" using e(7) c(4,5) r by (auto simp: validate_reserve_within_capacity_def c(1))
  with i a w c r u show thesis by (rule_tac that)
qed

text \<open>
  C22: The policy compiler either reports every problem of the input, at least one, or produces a policy that is
  coherent: an open settlement window, positive limits with the payout per recipient and the reserve within the total
  payout, and a day of retention where audit is required; the amounts read back as the ones given and the asset is
  the canonical one.
\<close>
theorem compiled_policy_coherent:
  "case compile_payroll_policy ad inp of
     Inl errors \<Rightarrow> errors = policy_errors ad inp \<and> errors \<noteq> []
   | Inr p \<Rightarrow> policy_wf p \<and>
       (\<exists>a c r. normalize_asset_identity ad True (pi_asset inp) = Inr a \<and> cp_asset_id p = ca_id a \<and>
          pi_capacity_limits inp = Some c \<and> pi_reserve_requirements inp = Some r \<and>
          cl_max_total_payout c = Some (bigint_of_string (cp_max_total_payout p)) \<and>
          cl_max_per_recipient_payout c = Some (bigint_of_string (cp_max_per_recipient_payout p)) \<and>
          rr_min_reserve_balance r = Some (bigint_of_string (cp_min_reserve_balance p)))"
proof (cases "policy_errors ad inp = []")
  case False
  then show ?thesis by (simp add: compile_payroll_policy_def)
next
  case True
  show ?thesis
    using True by (rule no_policy_errors)
      (simp add: compile_payroll_policy_def True policy_wf_def blank_def)
qed

section \<open>Witnesses\<close>

definition example_checks :: address_checks where
  "example_checks =
     \<lparr>ad_valid_issuer = (\<lambda>s. s = replicate 56 (CHR ''G'')), ad_valid_contract = (\<lambda>s. s = replicate 56 (CHR ''C''))\<rparr>"

lemma example_strkey:
  "strkey_text (ad_valid_issuer example_checks)" "strkey_text (ad_valid_contract example_checks)"
  by (simp_all add: strkey_text_def example_checks_def is_alphanumeric_def is_lower_letter_def)

lemma example_usdc:
  "normalize_asset_identity example_checks True ('' usdc:'' @ replicate 56 (CHR ''G'')) =
     Inr \<lparr>ca_kind = IssuedAsset, ca_id = ''USDC:'' @ replicate 56 (CHR ''G''), ca_code = Some ''USDC'',
       ca_issuer = Some (replicate 56 (CHR ''G''))\<rparr>"
  by code_simp

theorem canonical_id_stable_witness:
  "normalize_asset_identity example_checks False (''USDC:'' @ replicate 56 (CHR ''G'')) =
     Inr \<lparr>ca_kind = IssuedAsset, ca_id = ''USDC:'' @ replicate 56 (CHR ''G''), ca_code = Some ''USDC'',
       ca_issuer = Some (replicate 56 (CHR ''G''))\<rparr>"
  using canonical_id_stable [OF example_strkey example_usdc, of False] by simp

end
