(* ===== verification/DraftApprovals.thy ===== *)
theory DraftApprovals
  imports Policy "HOL-Library.List_Lexorder"
begin

text \<open>
  Payroll drafts under approval: the diff of two drafts (\<open>packages/core/src/batches/diff.ts\<close>) and whether given
  approvals still hold (\<open>signing/invalidationAnalyzer.ts\<close>). Parameters are the hash, the decimal text of a number
  and the collation of the locale.
\<close>

section \<open>Drafts\<close>

record draft_approval =
  da_approver_id :: string
  da_approved_at :: string
  da_signature :: "string option"

record draft_recipient =
  dr_recipient_id :: string
  dr_amount :: string
  dr_asset :: "string option"

record payroll_draft =
  pd_draft_id :: string
  pd_total_amount :: string
  pd_asset :: string
  pd_schedule_timestamp :: string
  pd_recipients :: "draft_recipient list"
  pd_policy :: compiled_policy
  pd_approvals :: "draft_approval list"

section \<open>Stable JSON texts\<close>

datatype json =
  JUndefined
| JBool bool
| JNumber rat
| JString string
| JArray "json list"
| JObject "(string \<times> json) list"

text \<open>\<open>JSON.stringify\<close> of a string of characters below 256\<close>

definition json_escape :: "char \<Rightarrow> string" where
  "json_escape c =
     (let n = (of_char c :: nat); b = CHR 92
      in if n = 34 \<or> n = 92 then [b, c]
         else if n = 8 then [b, CHR ''b''] else if n = 9 then [b, CHR ''t''] else if n = 10 then [b, CHR ''n'']
         else if n = 12 then [b, CHR ''f''] else if n = 13 then [b, CHR ''r'']
         else if n < 32 then [b, CHR ''u'', CHR ''0'', CHR ''0'', digit_char (n div 16), digit_char (n mod 16)]
         else [c])"

definition json_quote :: "string \<Rightarrow> string" where
  "json_quote s = [CHR 34] @ concat (map json_escape s) @ [CHR 34]"

fun join_with :: "string \<Rightarrow> string list \<Rightarrow> string" where
  "join_with sep [] = []"
| "join_with sep [s] = s"
| "join_with sep (s # t # ts) = s @ sep @ join_with sep (t # ts)"

fun stable_stringify :: "(rat \<Rightarrow> string) \<Rightarrow> json \<Rightarrow> string" where
  "stable_stringify number_text JUndefined = ''null''"
| "stable_stringify number_text (JBool b) = (if b then ''true'' else ''false'')"
| "stable_stringify number_text (JNumber q) = number_text q"
| "stable_stringify number_text (JString s) = json_quote s"
| "stable_stringify number_text (JArray xs) = ''['' @ join_with '','' (map (stable_stringify number_text) xs) @ '']''"
| "stable_stringify number_text (JObject kvs) =
     (let texts = map (\<lambda>(k, v). (k, v \<noteq> JUndefined, stable_stringify number_text v)) kvs;
          present = sort_key fst (filter (\<lambda>(k, present, t). present) texts)
      in ''{'' @ join_with '','' (map (\<lambda>(k, present, t). json_quote k @ '':'' @ t) present) @ ''}'')"

definition policy_json :: "compiled_policy \<Rightarrow> json" where
  "policy_json p = JObject
     [(''policyId'', JString (cp_policy_id p)),
      (''assetId'', JString (cp_asset_id p)),
      (''settlement'', JObject [(''minDelaySeconds'', JNumber (cp_min_delay_seconds p)),
         (''maxOpenSeconds'', JNumber (cp_max_open_seconds p))]),
      (''capacity'', JObject [(''maxBatchSize'', JNumber (cp_max_batch_size p)),
         (''maxTotalPayout'', JString (cp_max_total_payout p)),
         (''maxPerRecipientPayout'', JString (cp_max_per_recipient_payout p))]),
      (''reserve'', JObject [(''minReserveBalance'', JString (cp_min_reserve_balance p)), (''strict'', JBool (cp_strict p))]),
      (''audit'', JObject [(''auditRequired'', JBool (cp_audit_required p)),
         (''retentionDays'', JNumber (cp_retention_days p)),
         (''allowedViewerRoles'', JArray (map JString (cp_allowed_viewer_roles p)))]),
      (''schemaVersion'', JNumber 1)]"

definition approval_json :: "draft_approval \<Rightarrow> json" where
  "approval_json a = JObject
     [(''approverId'', JString (da_approver_id a)), (''approvedAt'', JString (da_approved_at a)),
      (''signature'', case da_signature a of None \<Rightarrow> JUndefined | Some s \<Rightarrow> JString s)]"

definition policy_text :: "(rat \<Rightarrow> string) \<Rightarrow> payroll_draft \<Rightarrow> string" where
  "policy_text number_text d = stable_stringify number_text (policy_json (pd_policy d))"

definition approvals_text :: "(rat \<Rightarrow> string) \<Rightarrow> payroll_draft \<Rightarrow> string" where
  "approvals_text number_text d = stable_stringify number_text (JArray (map approval_json (pd_approvals d)))"

section \<open>The diff of two drafts\<close>

definition amounts_equal :: "string \<Rightarrow> string \<Rightarrow> bool" where
  "amounts_equal a b =
     (a = b \<or> (case (js_bigint a, js_bigint b) of (Some m, Some n) \<Rightarrow> m = n | _ \<Rightarrow> False))"

definition index_recipients :: "draft_recipient list \<Rightarrow> (string, draft_recipient) dict" where
  "index_recipients rs =
     fold (\<lambda>r m. if dict_get m (dr_recipient_id r) = None then dict_put (dr_recipient_id r) r m else m) rs []"

datatype change_kind = Added | Removed | Edited

record recipient_diff =
  rf_kind :: change_kind
  rf_recipient_id :: string
  rf_previous_amount :: "string option"
  rf_current_amount :: "string option"
  rf_amount_changed :: bool
  rf_asset_changed :: bool
  rf_previous_asset :: "string option"
  rf_current_asset :: "string option"
  rf_previous_commitment :: "string option"
  rf_current_commitment :: "string option"

record field_change =
  fc_field :: string
  fc_previous :: "string option"
  fc_current :: "string option"

record metadata_commitment =
  mc_previous :: string
  mc_current :: string
  mc_changed :: bool

record batch_diff =
  bf_has_differences :: bool
  bf_changed_fields :: "string list"
  bf_recipients :: "recipient_diff list"
  bf_added_ids :: "string list"
  bf_removed_ids :: "string list"
  bf_edited_ids :: "string list"
  bf_asset_changes :: "field_change list"
  bf_metadata_changes :: "field_change list"
  bf_metadata_commitment :: metadata_commitment
  bf_redacted :: bool

record diff_env =
  dx_sha256 :: "string \<Rightarrow> string"
  dx_number_text :: "rat \<Rightarrow> string"
  dx_locale_compare :: "string \<Rightarrow> string \<Rightarrow> int"

definition reveal_value :: "string \<Rightarrow> bool \<Rightarrow> string" where
  "reveal_value v reveal = (if reveal then v else ''[REDACTED]'')"

definition recipient_commitment :: "diff_env \<Rightarrow> draft_recipient \<Rightarrow> string" where
  "recipient_commitment env r =
     ''recipient:'' @ dx_sha256 env (join_with ''|''
       [''zkpayroll-recipient-v1'', dr_amount r, case dr_asset r of None \<Rightarrow> [] | Some a \<Rightarrow> a])"

definition draft_metadata_commitment :: "diff_env \<Rightarrow> payroll_draft \<Rightarrow> string" where
  "draft_metadata_commitment env d =
     ''draftmeta:'' @ dx_sha256 env (join_with ''|''
       [''zkpayroll-draft-metadata-v1'', pd_draft_id d, pd_total_amount d, pd_asset d, pd_schedule_timestamp d,
        policy_text (dx_number_text env) d, approvals_text (dx_number_text env) d])"

text \<open>The change of one recipient of the modified draft\<close>

definition recipient_change ::
  "diff_env \<Rightarrow> bool \<Rightarrow> (string, draft_recipient) dict \<Rightarrow> string \<Rightarrow> draft_recipient \<Rightarrow> recipient_diff option" where
  "recipient_change env reveal original rid current =
     (case dict_get original rid of
        None \<Rightarrow> Some \<lparr>rf_kind = Added, rf_recipient_id = rid, rf_previous_amount = None,
          rf_current_amount = Some (reveal_value (dr_amount current) reveal), rf_amount_changed = False,
          rf_asset_changed = False, rf_previous_asset = None, rf_current_asset = dr_asset current,
          rf_previous_commitment = None, rf_current_commitment = Some (recipient_commitment env current)\<rparr>
      | Some previous \<Rightarrow>
          let amount_changed = \<not> amounts_equal (dr_amount previous) (dr_amount current);
              asset_changed = (dr_asset previous \<noteq> dr_asset current)
          in if amount_changed \<or> asset_changed
             then Some \<lparr>rf_kind = Edited, rf_recipient_id = rid,
               rf_previous_amount = Some (reveal_value (dr_amount previous) reveal),
               rf_current_amount = Some (reveal_value (dr_amount current) reveal),
               rf_amount_changed = amount_changed, rf_asset_changed = asset_changed,
               rf_previous_asset = dr_asset previous, rf_current_asset = dr_asset current,
               rf_previous_commitment = Some (recipient_commitment env previous),
               rf_current_commitment = Some (recipient_commitment env current)\<rparr>
             else None)"

definition removed_change :: "diff_env \<Rightarrow> bool \<Rightarrow> string \<Rightarrow> draft_recipient \<Rightarrow> recipient_diff" where
  "removed_change env reveal rid previous =
     \<lparr>rf_kind = Removed, rf_recipient_id = rid, rf_previous_amount = Some (reveal_value (dr_amount previous) reveal),
      rf_current_amount = None, rf_amount_changed = False, rf_asset_changed = False,
      rf_previous_asset = dr_asset previous, rf_current_asset = None,
      rf_previous_commitment = Some (recipient_commitment env previous), rf_current_commitment = None\<rparr>"

definition present_changes ::
  "diff_env \<Rightarrow> bool \<Rightarrow> (string, draft_recipient) dict \<Rightarrow> (string, draft_recipient) dict \<Rightarrow> recipient_diff list" where
  "present_changes env reveal original modified =
     concat (map (\<lambda>(rid, current). case recipient_change env reveal original rid current of None \<Rightarrow> [] | Some c \<Rightarrow> [c]) modified)"

definition removed_changes ::
  "diff_env \<Rightarrow> bool \<Rightarrow> (string, draft_recipient) dict \<Rightarrow> (string, draft_recipient) dict \<Rightarrow> recipient_diff list" where
  "removed_changes env reveal original modified =
     map (\<lambda>(rid, previous). removed_change env reveal rid previous)
       (filter (\<lambda>(rid, previous). dict_get modified rid = None) original)"

text \<open>\<open>sort\<close> with a comparator is stable.\<close>

fun insert_by :: "('a \<Rightarrow> 'a \<Rightarrow> int) \<Rightarrow> 'a \<Rightarrow> 'a list \<Rightarrow> 'a list" where
  "insert_by cmp x [] = [x]"
| "insert_by cmp x (y # ys) = (if cmp x y \<le> 0 then x # y # ys else y # insert_by cmp x ys)"

definition sort_by :: "('a \<Rightarrow> 'a \<Rightarrow> int) \<Rightarrow> 'a list \<Rightarrow> 'a list" where
  "sort_by cmp xs = foldr (insert_by cmp) xs []"

fun kind_order :: "change_kind \<Rightarrow> int" where
  "kind_order Added = 0"
| "kind_order Removed = 1"
| "kind_order Edited = 2"

definition compare_changes :: "diff_env \<Rightarrow> recipient_diff \<Rightarrow> recipient_diff \<Rightarrow> int" where
  "compare_changes env a b =
     (let c = dx_locale_compare env (rf_recipient_id a) (rf_recipient_id b)
      in if c \<noteq> 0 then c else kind_order (rf_kind a) - kind_order (rf_kind b))"

definition compare_fields :: "diff_env \<Rightarrow> field_change \<Rightarrow> field_change \<Rightarrow> int" where
  "compare_fields env a b = dx_locale_compare env (fc_field a) (fc_field b)"

definition ids_of_kind :: "change_kind \<Rightarrow> recipient_diff list \<Rightarrow> string list" where
  "ids_of_kind k cs = map rf_recipient_id (filter (\<lambda>c. rf_kind c = k) cs)"

definition change_if :: "bool \<Rightarrow> string \<Rightarrow> string option \<Rightarrow> string option \<Rightarrow> field_change list" where
  "change_if b f p c = (if b then [\<lparr>fc_field = f, fc_previous = p, fc_current = c\<rparr>] else [])"

text \<open>The names of the changed fields, in their fixed order, those of the roster sorted after them\<close>

definition draft_field_changes :: "diff_env \<Rightarrow> payroll_draft \<Rightarrow> payroll_draft \<Rightarrow> string list" where
  "draft_field_changes env d e =
     (if pd_draft_id d \<noteq> pd_draft_id e then [''draftId''] else []) @
     (if pd_total_amount d \<noteq> pd_total_amount e then [''totalAmount''] else []) @
     (if pd_asset d \<noteq> pd_asset e then [''asset''] else []) @
     (if pd_schedule_timestamp d \<noteq> pd_schedule_timestamp e then [''scheduleTimestamp''] else []) @
     (if policy_text (dx_number_text env) d \<noteq> policy_text (dx_number_text env) e then [''policy''] else []) @
     (if approvals_text (dx_number_text env) d \<noteq> approvals_text (dx_number_text env) e then [''approvals''] else [])"

definition roster_field_changes :: "recipient_diff list \<Rightarrow> string list" where
  "roster_field_changes cs =
     (if ids_of_kind Added cs \<noteq> [] then [''recipients.added''] else []) @
     (if list_ex (\<lambda>c. rf_kind c = Edited \<and> rf_asset_changed c) cs then [''recipients.assets''] else []) @
     (if list_ex (\<lambda>c. rf_kind c = Edited \<and> rf_amount_changed c) cs then [''recipients.edited''] else []) @
     (if ids_of_kind Removed cs \<noteq> [] then [''recipients.removed''] else [])"

definition diff_payroll_batches :: "diff_env \<Rightarrow> payroll_draft \<Rightarrow> payroll_draft \<Rightarrow> bool \<Rightarrow> batch_diff" where
  "diff_payroll_batches env d e reveal =
     (let original = index_recipients (pd_recipients d); modified = index_recipients (pd_recipients e);
          cs = present_changes env reveal original modified @ removed_changes env reveal original modified;
          asset_changes = concat (map (\<lambda>c. change_if (rf_kind c = Edited \<and> rf_asset_changed c)
              (''recipients['' @ rf_recipient_id c @ ''].asset'') (rf_previous_asset c) (rf_current_asset c)) cs) @
            change_if (pd_asset d \<noteq> pd_asset e) ''asset'' (Some (pd_asset d)) (Some (pd_asset e));
          fields = draft_field_changes env d e @ roster_field_changes cs;
          metadata_changes =
            change_if (''draftId'' \<in> set fields) ''draftId'' (Some (pd_draft_id d)) (Some (pd_draft_id e)) @
            change_if (''totalAmount'' \<in> set fields) ''totalAmount''
              (Some (reveal_value (pd_total_amount d) reveal)) (Some (reveal_value (pd_total_amount e) reveal)) @
            change_if (''scheduleTimestamp'' \<in> set fields) ''scheduleTimestamp''
              (Some (pd_schedule_timestamp d)) (Some (pd_schedule_timestamp e)) @
            change_if (''policy'' \<in> set fields) ''policy'' None None @
            change_if (''approvals'' \<in> set fields) ''approvals'' None None;
          previous = draft_metadata_commitment env d; current = draft_metadata_commitment env e
      in \<lparr>bf_has_differences = (length fields > 0), bf_changed_fields = fields,
          bf_recipients = sort_by (compare_changes env) cs,
          bf_added_ids = sort (ids_of_kind Added cs), bf_removed_ids = sort (ids_of_kind Removed cs),
          bf_edited_ids = sort (ids_of_kind Edited cs),
          bf_asset_changes = sort_by (compare_fields env) asset_changes,
          bf_metadata_changes = sort_by (compare_fields env) metadata_changes,
          bf_metadata_commitment = \<lparr>mc_previous = previous, mc_current = current, mc_changed = (previous \<noteq> current)\<rparr>,
          bf_redacted = (\<not> reveal)\<rparr>)"

section \<open>Do the approvals still hold?\<close>

datatype invalidation_reason =
  TotalAmountChanged string string | AssetChanged string string | ScheduleModified | RosterModified | PolicyUpdated

record invalidation_analysis =
  ia_requires_reapproval :: bool
  ia_invalidated_approvals_count :: nat
  ia_reasons :: "invalidation_reason list"
  ia_changed_fields :: "string list"

definition analyze_approval_invalidation ::
  "diff_env \<Rightarrow> payroll_draft \<Rightarrow> payroll_draft \<Rightarrow> invalidation_analysis" where
  "analyze_approval_invalidation env d e =
     (let diff = diff_payroll_batches env d e False; fields = bf_changed_fields diff;
          requires = (bf_has_differences diff \<and> length (pd_approvals d) > 0)
      in \<lparr>ia_requires_reapproval = requires,
          ia_invalidated_approvals_count = (if requires then length (pd_approvals d) else 0),
          ia_reasons =
            (if ''totalAmount'' \<in> set fields then [TotalAmountChanged (pd_total_amount d) (pd_total_amount e)] else []) @
            (if ''asset'' \<in> set fields then [AssetChanged (pd_asset d) (pd_asset e)] else []) @
            (if ''scheduleTimestamp'' \<in> set fields then [ScheduleModified] else []) @
            (if list_ex (\<lambda>f. is_prefix ''recipient'' f) fields then [RosterModified] else []) @
            (if ''policy'' \<in> set fields then [PolicyUpdated] else []),
          ia_changed_fields = fields\<rparr>)"

subsection \<open>When approvals survive\<close>

definition first_line :: "payroll_draft \<Rightarrow> string \<Rightarrow> draft_recipient option" where
  "first_line d rid = find (\<lambda>r. dr_recipient_id r = rid) (pd_recipients d)"

definition same_line :: "draft_recipient option \<Rightarrow> draft_recipient option \<Rightarrow> bool" where
  "same_line a b \<longleftrightarrow>
     (a = None \<and> b = None) \<or>
     (\<exists>x y. a = Some x \<and> b = Some y \<and> amounts_equal (dr_amount x) (dr_amount y) \<and> dr_asset x = dr_asset y)"

definition same_terms :: "diff_env \<Rightarrow> payroll_draft \<Rightarrow> payroll_draft \<Rightarrow> bool" where
  "same_terms env d e \<longleftrightarrow>
     pd_draft_id d = pd_draft_id e \<and> pd_total_amount d = pd_total_amount e \<and> pd_asset d = pd_asset e \<and>
     pd_schedule_timestamp d = pd_schedule_timestamp e \<and>
     policy_text (dx_number_text env) d = policy_text (dx_number_text env) e \<and>
     approvals_text (dx_number_text env) d = approvals_text (dx_number_text env) e"

lemma index_recipients_snoc:
  "index_recipients (rs @ [r]) =
     (let m = index_recipients rs
      in if dict_get m (dr_recipient_id r) = None then dict_put (dr_recipient_id r) r m else m)"
  by (simp add: index_recipients_def Let_def)

lemma index_ok: "dict_ok (index_recipients rs)"
  by (induction rs rule: rev_induct) (simp_all add: index_recipients_snoc Let_def, simp add: index_recipients_def)

lemma find_append: "find P (xs @ ys) = (case find P xs of None \<Rightarrow> find P ys | Some x \<Rightarrow> Some x)"
  by (induction xs) auto

lemma index_get: "dict_get (index_recipients rs) k = find (\<lambda>r. dr_recipient_id r = k) rs"
proof (induction rs rule: rev_induct)
  case Nil
  then show ?case by (simp add: index_recipients_def)
next
  case (snoc r rs)
  then show ?case
    by (auto simp: index_recipients_snoc Let_def update_conv' find_append split: option.splits)
qed

lemma index_iff: "(k, r) \<in> set (index_recipients rs) \<longleftrightarrow> find (\<lambda>r. dr_recipient_id r = k) rs = Some r"
  using index_ok [of rs] by (simp add: index_get [symmetric] dict_ok_def)

lemma recipient_change_none:
  "recipient_change env reveal m rid c = None \<longleftrightarrow> same_line (dict_get m rid) (Some c)"
  by (auto simp: recipient_change_def same_line_def Let_def split: option.splits)

definition roster_changes :: "diff_env \<Rightarrow> bool \<Rightarrow> payroll_draft \<Rightarrow> payroll_draft \<Rightarrow> recipient_diff list" where
  "roster_changes env reveal d e =
     (let original = index_recipients (pd_recipients d); modified = index_recipients (pd_recipients e)
      in present_changes env reveal original modified @ removed_changes env reveal original modified)"

lemma roster_unchanged: "roster_changes env reveal d e = [] \<longleftrightarrow> (\<forall>rid. same_line (first_line d rid) (first_line e rid))"
proof -
  have "present_changes env reveal m n = [] \<longleftrightarrow>
      (\<forall>rid r. (rid, r) \<in> set n \<longrightarrow> recipient_change env reveal m rid r = None)" for m n
    by (auto simp: present_changes_def split: option.splits)
  then have present: "present_changes env reveal (index_recipients (pd_recipients d)) (index_recipients (pd_recipients e)) = [] \<longleftrightarrow>
      (\<forall>rid r. first_line e rid = Some r \<longrightarrow> same_line (first_line d rid) (Some r))"
    by (simp only: recipient_change_none index_get index_iff first_line_def)
  have "removed_changes env reveal m n = [] \<longleftrightarrow> (\<forall>rid r. (rid, r) \<in> set m \<longrightarrow> dict_get n rid \<noteq> None)" for m n
    by (auto simp: removed_changes_def filter_empty_conv)
  then have removed: "removed_changes env reveal (index_recipients (pd_recipients d)) (index_recipients (pd_recipients e)) = [] \<longleftrightarrow>
      (\<forall>rid r. first_line d rid = Some r \<longrightarrow> first_line e rid \<noteq> None)"
    by (simp only: index_get index_iff first_line_def)
  have "(\<forall>rid. same_line (first_line d rid) (first_line e rid)) \<longleftrightarrow>
      (\<forall>rid r. first_line e rid = Some r \<longrightarrow> same_line (first_line d rid) (Some r)) \<and>
      (\<forall>rid r. first_line d rid = Some r \<longrightarrow> first_line e rid \<noteq> None)" (is "?S \<longleftrightarrow> ?A \<and> ?B")
  proof
    assume all: ?S
    show "?A \<and> ?B"
    proof (intro conjI allI impI)
      fix rid r
      assume "first_line e rid = Some r"
      with all [rule_format, of rid] show "same_line (first_line d rid) (Some r)" by simp
    next
      fix rid r
      assume "first_line d rid = Some r"
      with all [rule_format, of rid] show "first_line e rid \<noteq> None" by (auto simp: same_line_def)
    qed
  next
    assume both: "?A \<and> ?B"
    show ?S
    proof
      fix rid
      show "same_line (first_line d rid) (first_line e rid)"
      proof (cases "first_line e rid")
        case None
        with both have "first_line d rid = None" by (cases "first_line d rid") auto
        with None show ?thesis by (simp add: same_line_def)
      next
        case (Some r)
        with both show ?thesis by simp
      qed
    qed
  qed
  then show ?thesis by (simp add: roster_changes_def Let_def present removed)
qed

lemma edited_change:
  "recipient_change env reveal m rid r = Some c \<Longrightarrow> rf_kind c = Edited \<Longrightarrow> rf_asset_changed c \<or> rf_amount_changed c"
  by (auto simp: recipient_change_def Let_def split: option.splits if_splits)

lemma change_kinds:
  assumes "c \<in> set (roster_changes env reveal d e)" "rf_kind c = Edited"
  shows "rf_asset_changed c \<or> rf_amount_changed c"
proof -
  have "rf_kind x = Removed" if "x \<in> set (removed_changes env reveal m n)" for x m n
    using that by (auto simp: removed_changes_def removed_change_def)
  moreover have "\<exists>rid r. recipient_change env reveal m rid r = Some x" if "x \<in> set (present_changes env reveal m n)" for x m n
    using that by (auto simp: present_changes_def split: option.splits) metis+
  ultimately show ?thesis
    using assms edited_change unfolding roster_changes_def Let_def set_append by fastforce
qed

lemma roster_fields_empty:
  "roster_field_changes (roster_changes env reveal d e) = [] \<longleftrightarrow> roster_changes env reveal d e = []"
proof
  assume none: "roster_field_changes (roster_changes env reveal d e) = []"
  show "roster_changes env reveal d e = []"
  proof (rule ccontr)
    assume "roster_changes env reveal d e \<noteq> []"
    then obtain c where c: "c \<in> set (roster_changes env reveal d e)" by (meson last_in_set)
    then show False using none change_kinds [OF c]
      by (cases "rf_kind c") (auto simp: roster_field_changes_def ids_of_kind_def list_ex_iff filter_empty_conv split: if_splits)
  qed
qed (simp add: roster_field_changes_def ids_of_kind_def)

lemma changed_fields:
  "bf_changed_fields (diff_payroll_batches env d e reveal) =
     draft_field_changes env d e @ roster_field_changes (roster_changes env reveal d e)"
  "bf_has_differences (diff_payroll_batches env d e reveal) \<longleftrightarrow>
     draft_field_changes env d e \<noteq> [] \<or> roster_field_changes (roster_changes env reveal d e) \<noteq> []"
  by (simp_all add: diff_payroll_batches_def roster_changes_def Let_def)

lemma draft_fields_empty: "draft_field_changes env d e = [] \<longleftrightarrow> same_terms env d e"
  by (auto simp: draft_field_changes_def same_terms_def)

text \<open>
  C14: The approvals of a draft survive an edit exactly when there were none or nothing of the terms changed, the
  approvals themselves included, and every recipient's first line pays the same amount, read as a number, in the same
  asset; further lines of a recipient play no part.
\<close>
theorem approvals_survive_iff:
  "\<not> ia_requires_reapproval (analyze_approval_invalidation env d e) \<longleftrightarrow>
     pd_approvals d = [] \<or> (same_terms env d e \<and> (\<forall>rid. same_line (first_line d rid) (first_line e rid)))"
  by (auto simp: analyze_approval_invalidation_def Let_def changed_fields draft_fields_empty roster_fields_empty
      roster_unchanged)

text \<open>
  An additional line for a recipient who is already on the draft, whatever it pays, is invisible to the reviewers
  and keeps every approval.
\<close>
theorem added_line_unseen:
  assumes "dr_recipient_id r \<in> dr_recipient_id ` set (pd_recipients d)"
  shows "ia_changed_fields (analyze_approval_invalidation env d (d\<lparr>pd_recipients := pd_recipients d @ [r]\<rparr>)) = [] \<and>
    \<not> ia_requires_reapproval (analyze_approval_invalidation env d (d\<lparr>pd_recipients := pd_recipients d @ [r]\<rparr>))"
proof -
  let ?e = "d\<lparr>pd_recipients := pd_recipients d @ [r]\<rparr>"
  have "index_recipients (pd_recipients ?e) = index_recipients (pd_recipients d)"
  proof -
    have "find (\<lambda>x. dr_recipient_id x = dr_recipient_id r) (pd_recipients d) \<noteq> None"
      using assms by (auto simp: find_None_iff)
    then obtain x where "dict_get (index_recipients (pd_recipients d)) (dr_recipient_id r) = Some x"
      unfolding index_get by blast
    then show ?thesis by (simp add: index_recipients_snoc Let_def)
  qed
  then have "roster_changes env reveal d ?e = roster_changes env reveal d d" for reveal
    by (simp only: roster_changes_def)
  moreover have "same_line x x" for x by (cases x) (simp_all add: same_line_def amounts_equal_def)
  then have "roster_changes env reveal d d = []" for reveal by (simp add: roster_unchanged)
  moreover have "draft_field_changes env d ?e = []"
    by (simp add: draft_fields_empty same_terms_def policy_text_def approvals_text_def)
  moreover have "roster_field_changes [] = []" by (simp add: roster_field_changes_def ids_of_kind_def)
  ultimately show ?thesis
    by (simp only: analyze_approval_invalidation_def Let_def changed_fields invalidation_analysis.select_convs) simp
qed

lemma join_longer: "xs \<noteq> [] \<Longrightarrow> length (join_with '','' xs) < length (join_with '','' (xs @ [x]))"
proof (induction xs)
  case (Cons a xs)
  then show ?case by (cases xs) simp_all
qed simp

text \<open>
  A draft cannot collect a second signature: adding one more approval to an approved draft counts as an edit that
  invalidates the approvals given before, without any reason being named.
\<close>
theorem second_signature_invalidates:
  assumes "pd_approvals d \<noteq> []"
  shows "ia_requires_reapproval (analyze_approval_invalidation env d (d\<lparr>pd_approvals := pd_approvals d @ [a]\<rparr>)) \<and>
    ia_invalidated_approvals_count (analyze_approval_invalidation env d (d\<lparr>pd_approvals := pd_approvals d @ [a]\<rparr>)) =
      length (pd_approvals d) \<and>
    ia_reasons (analyze_approval_invalidation env d (d\<lparr>pd_approvals := pd_approvals d @ [a]\<rparr>)) = []"
proof -
  let ?e = "d\<lparr>pd_approvals := pd_approvals d @ [a]\<rparr>"
  have "length (approvals_text n d) < length (approvals_text n ?e)" for n
    using join_longer [of "map (stable_stringify n) (map approval_json (pd_approvals d))"] assms
    by (simp add: approvals_text_def)
  then have "approvals_text n d \<noteq> approvals_text n ?e" for n by (metis less_irrefl)
  then have fields: "draft_field_changes env d ?e = [''approvals'']"
    by (simp add: draft_field_changes_def policy_text_def)
  have "same_line x x" for x by (cases x) (simp_all add: same_line_def amounts_equal_def)
  then have "roster_changes env reveal d ?e = []" for reveal by (simp add: roster_unchanged first_line_def)
  then have roster: "roster_field_changes (roster_changes env reveal d ?e) = []" for reveal
    by (simp add: roster_field_changes_def ids_of_kind_def)
  show ?thesis
    unfolding analyze_approval_invalidation_def Let_def changed_fields fields roster
    using assms by simp
qed

text \<open>
  The commitment over the metadata does not bind the fields: it joins them with a character they may contain, so
  moving a part of one field into the next keeps the commitment while the diff reports the change.
\<close>

lemma metadata_commitment_ambiguous:
  "draft_metadata_commitment env (d\<lparr>pd_draft_id := x @ ''|'' @ y, pd_total_amount := z\<rparr>) =
     draft_metadata_commitment env (d\<lparr>pd_draft_id := x, pd_total_amount := y @ ''|'' @ z\<rparr>)"
  by (simp add: draft_metadata_commitment_def policy_text_def approvals_text_def)

section \<open>Witnesses\<close>

definition example_env :: diff_env where
  "example_env = \<lparr>dx_sha256 = (\<lambda>s. s), dx_number_text = (\<lambda>_. ''1''), dx_locale_compare = (\<lambda>_ _. 0)\<rparr>"

definition example_policy :: compiled_policy where
  "example_policy =
     \<lparr>cp_policy_id = ''p'', cp_asset_id = ''native'', cp_min_delay_seconds = 0, cp_max_open_seconds = 1,
      cp_max_batch_size = 1, cp_max_total_payout = ''9'', cp_max_per_recipient_payout = ''9'',
      cp_min_reserve_balance = ''0'', cp_strict = True, cp_audit_required = False, cp_retention_days = 0,
      cp_allowed_viewer_roles = []\<rparr>"

definition example_draft :: payroll_draft where
  "example_draft =
     \<lparr>pd_draft_id = ''d'', pd_total_amount = ''5'', pd_asset = ''native'', pd_schedule_timestamp = ''0'',
      pd_recipients = [\<lparr>dr_recipient_id = ''GA'', dr_amount = ''5'', dr_asset = None\<rparr>],
      pd_policy = example_policy,
      pd_approvals = [\<lparr>da_approver_id = ''GB'', da_approved_at = ''0'', da_signature = None\<rparr>]\<rparr>"

theorem approvals_survive_iff_witness:
  "ia_requires_reapproval (analyze_approval_invalidation example_env example_draft (example_draft\<lparr>pd_recipients := []\<rparr>))"
proof -
  have "\<not> same_line (first_line example_draft ''GA'') (first_line (example_draft\<lparr>pd_recipients := []\<rparr>) ''GA'')"
    by (simp add: example_draft_def first_line_def same_line_def)
  moreover have "pd_approvals example_draft \<noteq> []" by (simp add: example_draft_def)
  ultimately show ?thesis
    using approvals_survive_iff [of example_env example_draft "example_draft\<lparr>pd_recipients := []\<rparr>"] by blast
qed

theorem added_line_unseen_witness:
  "\<not> ia_requires_reapproval (analyze_approval_invalidation example_env example_draft
     (example_draft\<lparr>pd_recipients := pd_recipients example_draft @
       [\<lparr>dr_recipient_id = ''GA'', dr_amount = ''1000000'', dr_asset = None\<rparr>]\<rparr>))"
  using added_line_unseen [of "\<lparr>dr_recipient_id = ''GA'', dr_amount = ''1000000'', dr_asset = None\<rparr>" example_draft example_env]
  by (simp add: example_draft_def)

theorem second_signature_invalidates_witness:
  "ia_requires_reapproval (analyze_approval_invalidation example_env example_draft
     (example_draft\<lparr>pd_approvals := pd_approvals example_draft @
       [\<lparr>da_approver_id = ''GC'', da_approved_at = ''1'', da_signature = None\<rparr>]\<rparr>))"
  using second_signature_invalidates [of example_draft example_env] by (simp add: example_draft_def)

end
