(* ===== verification/Polling.thy ===== *)
theory Polling
  imports Prelude
begin

text \<open>
  Waiting for a transaction or a payroll run (\<open>packages/core/src/polling.ts\<close>, \<open>payroll/runStatus.ts\<close>). A loop runs
  against an environment: what a check answers and how long it takes, how much longer than asked a sleep lasts, and
  when the abort signal fires. Times are whole milliseconds. The loops are partial functions; that they return is
  proved.
\<close>

section \<open>The environment\<close>

datatype 'v poll_answer = StatusThrows | Status 'v

datatype predicate_answer = IsDone | NotDone | PredicateThrows

record 'v poll_env =
  pv_answer :: "nat \<Rightarrow> int \<Rightarrow> 'v poll_answer"
  pv_latency :: "nat \<Rightarrow> nat"
  pv_oversleep :: "nat \<Rightarrow> nat"
  pv_aborted_at :: "int option"

definition aborted :: "'v poll_env \<Rightarrow> int \<Rightarrow> bool" where
  "aborted env t = (case pv_aborted_at env of None \<Rightarrow> False | Some a \<Rightarrow> a \<le> t)"

text \<open>The time a sleep ends, or \<^const>\<open>None\<close> when the signal cuts it short.\<close>

definition sleep :: "'v poll_env \<Rightarrow> nat \<Rightarrow> int \<Rightarrow> int \<Rightarrow> int option" where
  "sleep env k now ms =
     (if aborted env now then None
      else let wake = now + max 0 ms + int (pv_oversleep env k)
        in if aborted env (wake - 1) then None else Some wake)"

section \<open>Polling for the completion of a payroll\<close>

datatype 'v poll_outcome =
  PollComplete 'v int
| PollTimedOut
| PollCancelled
| PollStatusError
| PollPredicateError
| PollRangeError

text \<open>An outcome with the number of checks made\<close>

type_synonym 'v poll_run = "nat \<times> 'v poll_outcome"

partial_function (option) poll_loop ::
  "'v poll_env \<Rightarrow> ('v \<Rightarrow> predicate_answer) \<Rightarrow> int \<Rightarrow> int \<Rightarrow> int \<Rightarrow> int \<Rightarrow> nat \<Rightarrow> 'v poll_run option" where
  "poll_loop env is_complete timeout interval start now attempts =
     (if aborted env now then Some (attempts, PollCancelled)
      else let t = now + int (pv_latency env attempts) in
        case pv_answer env attempts t of
          StatusThrows \<Rightarrow> Some (attempts, if aborted env t then PollCancelled else PollStatusError)
        | Status v \<Rightarrow>
            (case is_complete v of
               PredicateThrows \<Rightarrow> Some (attempts + 1, if aborted env t then PollCancelled else PollPredicateError)
             | IsDone \<Rightarrow> Some (attempts + 1, PollComplete v (t - start))
             | NotDone \<Rightarrow>
                 if t - start \<ge> timeout then Some (attempts + 1, PollTimedOut)
                 else (case sleep env attempts t (min interval (max 0 (timeout - (t - start)))) of
                     None \<Rightarrow> Some (attempts + 1, PollCancelled)
                   | Some wake \<Rightarrow>
                       if wake - start \<ge> timeout then Some (attempts + 1, PollTimedOut)
                       else poll_loop env is_complete timeout interval start wake (attempts + 1))))"

text \<open>A limit is a whole number of milliseconds, or \<^const>\<open>NonInteger\<close> when it is not finite.\<close>

definition bounded_poll_options :: "jsnum \<Rightarrow> jsnum \<Rightarrow> bool" where
  "bounded_poll_options timeout interval =
     (case (timeout, interval) of (Whole t, Whole i) \<Rightarrow> t > 0 \<and> i > 0 | _ \<Rightarrow> False)"

definition poll_payroll_completion ::
  "'v poll_env \<Rightarrow> ('v \<Rightarrow> predicate_answer) \<Rightarrow> jsnum option \<Rightarrow> jsnum option \<Rightarrow> int \<Rightarrow> 'v poll_run option" where
  "poll_payroll_completion env is_complete timeout_ms interval_ms now =
     (let timeout = (case timeout_ms of None \<Rightarrow> Whole 60000 | Some t \<Rightarrow> t);
          interval = (case interval_ms of None \<Rightarrow> Whole 2000 | Some i \<Rightarrow> i)
      in if \<not> bounded_poll_options timeout interval then Some (0, PollRangeError)
         else case (timeout, interval) of
             (Whole t, Whole i) \<Rightarrow> poll_loop env is_complete t i now now 0
           | _ \<Rightarrow> Some (0, PollRangeError))"

text \<open>The statuses of a run, as a text or in the field of an answer\<close>

datatype run_status = RunDraft | RunScheduled | RunExecuted | RunCancelled | RunFailed

fun run_status_name :: "run_status \<Rightarrow> string" where
  "run_status_name RunDraft = ''draft''"
| "run_status_name RunScheduled = ''scheduled''"
| "run_status_name RunExecuted = ''executed''"
| "run_status_name RunCancelled = ''cancelled''"
| "run_status_name RunFailed = ''failed''"

definition terminal_values :: "string list" where
  "terminal_values = map run_status_name [RunExecuted, RunCancelled, RunFailed]"

datatype parse_code = MissingStatus | UnknownStatus

definition parse_payroll_run_status :: "string \<Rightarrow> (parse_code, run_status) result" where
  "parse_payroll_run_status s =
     (if blank s then Inl MissingStatus
      else case find (\<lambda>r. run_status_name r = js_lower (js_trim s)) [RunDraft, RunScheduled, RunExecuted, RunCancelled, RunFailed] of
          None \<Rightarrow> Inl UnknownStatus
        | Some r \<Rightarrow> Inr r)"

datatype run_answer = RunText string | RunObject "string option"

definition run_is_complete :: "run_answer \<Rightarrow> predicate_answer" where
  "run_is_complete a =
     (case (case a of RunText s \<Rightarrow> Some s | RunObject s \<Rightarrow> s) of
        None \<Rightarrow> NotDone
      | Some raw \<Rightarrow> if js_lower (js_trim raw) \<in> set terminal_values then IsDone else NotDone)"

definition wait_for_payroll_run_completion ::
  "run_answer poll_env \<Rightarrow> jsnum option \<Rightarrow> jsnum option \<Rightarrow> int \<Rightarrow> run_answer poll_run option" where
  "wait_for_payroll_run_completion env = poll_payroll_completion env run_is_complete"

section \<open>Polling for a transaction\<close>

datatype tx_status = TxSuccess | TxFailed | TxNotFound

datatype tx_outcome = TxFinal tx_status | TxTimedOut | TxCancelled | TxRpcError

partial_function (option) transaction_loop ::
  "tx_status poll_env \<Rightarrow> int \<Rightarrow> int \<Rightarrow> int \<Rightarrow> int \<Rightarrow> nat \<Rightarrow> (nat \<times> tx_outcome) option" where
  "transaction_loop env timeout interval start now attempts =
     (if \<not> now - start < timeout then Some (attempts, TxTimedOut)
      else if aborted env now then Some (attempts, TxCancelled)
      else let t = now + int (pv_latency env attempts) in
        case pv_answer env attempts t of
          StatusThrows \<Rightarrow> Some (attempts + 1, TxRpcError)
        | Status s \<Rightarrow>
            if s = TxSuccess \<or> s = TxFailed then Some (attempts + 1, TxFinal s)
            else (case sleep env attempts t interval of
                None \<Rightarrow> Some (attempts + 1, TxCancelled)
              | Some wake \<Rightarrow> transaction_loop env timeout interval start wake (attempts + 1)))"

definition poll_transaction ::
  "tx_status poll_env \<Rightarrow> int option \<Rightarrow> int option \<Rightarrow> int \<Rightarrow> (nat \<times> tx_outcome) option" where
  "poll_transaction env timeout_ms interval_ms now =
     transaction_loop env (case timeout_ms of None \<Rightarrow> 30000 | Some t \<Rightarrow> t)
       (case interval_ms of None \<Rightarrow> 2000 | Some i \<Rightarrow> i) now now 0"

section \<open>The loops return\<close>

lemma sleep_wake: "sleep env k now ms = Some wake \<Longrightarrow> now + max 0 ms \<le> wake"
  by (auto simp: sleep_def Let_def split: if_splits)

text \<open>Checks left when \<open>d\<close> of the time has passed\<close>

definition checks_within :: "int \<Rightarrow> int \<Rightarrow> int" where
  "checks_within timeout interval = (timeout + interval - 1) div interval"

lemma checks_within_less:
  assumes "0 < interval" "0 \<le> k" "k * interval < timeout"
  shows "k < checks_within timeout interval"
proof -
  have "(k + 1) * interval \<le> timeout + interval - 1" using assms(3) by (simp add: algebra_simps)
  then have "(k + 1) * interval div interval \<le> (timeout + interval - 1) div interval"
    by (rule zdiv_mono1) (rule assms(1))
  with assms(1) show ?thesis by (simp add: checks_within_def)
qed

lemma poll_loop_returns:
  assumes "0 < interval" "int attempts * interval \<le> now - start" "now - start < timeout"
  shows "\<exists>n r. poll_loop env ic timeout interval start now attempts = Some (n, r) \<and>
    int n \<le> checks_within timeout interval"
  using assms(2,3)
proof (induction "nat (timeout - (now - start))" arbitrary: now attempts rule: less_induct)
  case less
  let ?t = "now + int (pv_latency env attempts)"
  have k: "int attempts < checks_within timeout interval"
    using checks_within_less [of interval "int attempts" timeout] less.prems assms(1) by simp
  show ?case
  proof (cases "\<exists>v wake. \<not> aborted env now \<and> pv_answer env attempts ?t = Status v \<and> ic v = NotDone \<and> ?t - start < timeout \<and>
      sleep env attempts ?t (min interval (max 0 (timeout - (?t - start)))) = Some wake \<and> wake - start < timeout")
    case True
    then obtain v wake where step: "\<not> aborted env now" "pv_answer env attempts ?t = Status v" "ic v = NotDone"
      "?t - start < timeout" "sleep env attempts ?t (min interval (max 0 (timeout - (?t - start)))) = Some wake"
      "wake - start < timeout" by blast
    have "?t + min interval (max 0 (timeout - (?t - start))) \<le> wake"
      using sleep_wake [OF step(5)] by simp
    with step(4,6) have w: "now + interval \<le> wake" by (auto simp: min_def split: if_splits)
    have "nat (timeout - (wake - start)) < nat (timeout - (now - start))" using w assms(1) step(6) by simp
    moreover have "int (attempts + 1) * interval \<le> wake - start"
      using w less.prems(1) by (simp add: algebra_simps)
    ultimately have "\<exists>n r. poll_loop env ic timeout interval start wake (attempts + 1) = Some (n, r) \<and>
        int n \<le> checks_within timeout interval" using step(6) by (rule less.hyps)
    moreover have "poll_loop env ic timeout interval start now attempts =
        poll_loop env ic timeout interval start wake (attempts + 1)"
      using step by (subst poll_loop.simps) (simp add: Let_def)
    ultimately show ?thesis by simp
  next
    case False
    then show ?thesis using k
      by (subst poll_loop.simps) (auto simp: Let_def not_le split: poll_answer.splits predicate_answer.splits option.splits)
  qed
qed

text \<open>
  C36: Polling for completion always returns: bad limits are refused, and with good ones it makes at most one check
  per interval started within the timeout, however long checks take and sleeps last beyond what was asked.
\<close>
theorem polling_terminates:
  "\<exists>n r. poll_payroll_completion env ic timeout_ms interval_ms now = Some (n, r) \<and>
     (r = PollRangeError \<or>
      (\<exists>t i. (case timeout_ms of None \<Rightarrow> Whole 60000 | Some x \<Rightarrow> x) = Whole t \<and>
         (case interval_ms of None \<Rightarrow> Whole 2000 | Some x \<Rightarrow> x) = Whole i \<and> 0 < t \<and> 0 < i \<and>
         int n \<le> (t + i - 1) div i))"
proof -
  let ?t = "case timeout_ms of None \<Rightarrow> Whole 60000 | Some x \<Rightarrow> x"
  let ?i = "case interval_ms of None \<Rightarrow> Whole 2000 | Some x \<Rightarrow> x"
  show ?thesis
  proof (cases "bounded_poll_options ?t ?i")
    case False
    then show ?thesis by (simp add: poll_payroll_completion_def Let_def)
  next
    case True
    then obtain t i where ti: "?t = Whole t" "?i = Whole i" "0 < t" "0 < i"
      by (cases ?t; cases ?i) (simp_all add: bounded_poll_options_def)
    have "\<exists>n r. poll_loop env ic t i now now 0 = Some (n, r) \<and> int n \<le> checks_within t i"
      by (rule poll_loop_returns) (simp_all add: ti)
    then show ?thesis using True ti
      unfolding poll_payroll_completion_def Let_def checks_within_def by (simp only: if_False not_True_eq_False jsnum.case prod.case) auto
  qed
qed

lemma transaction_loop_returns:
  assumes "0 < interval" "int attempts * interval \<le> now - start" "0 < timeout"
  shows "\<exists>n r. transaction_loop env timeout interval start now attempts = Some (n, r) \<and>
    (int n \<le> checks_within timeout interval \<or> n = attempts)"
  using assms(2)
proof (induction "nat (timeout - (now - start))" arbitrary: now attempts rule: less_induct)
  case less
  let ?t = "now + int (pv_latency env attempts)"
  show ?case
  proof (cases "now - start < timeout")
    case False
    then show ?thesis by (subst transaction_loop.simps) simp
  next
    case True
    then have k: "int attempts < checks_within timeout interval"
      using checks_within_less [of interval "int attempts" timeout] less.prems assms(1) by simp
    show ?thesis
    proof (cases "\<exists>wake. \<not> aborted env now \<and> pv_answer env attempts ?t = Status TxNotFound \<and>
        sleep env attempts ?t interval = Some wake")
      case step: True
      then obtain wake where w: "\<not> aborted env now" "pv_answer env attempts ?t = Status TxNotFound"
        "sleep env attempts ?t interval = Some wake" by blast
      then have "now + interval \<le> wake" using sleep_wake [OF w(3)] by simp
      then have "nat (timeout - (wake - start)) < nat (timeout - (now - start))"
        "int (attempts + 1) * interval \<le> wake - start"
        using assms(1) True less.prems by (simp_all add: algebra_simps)
      then have "\<exists>n r. transaction_loop env timeout interval start wake (attempts + 1) = Some (n, r) \<and>
          (int n \<le> checks_within timeout interval \<or> n = attempts + 1)" by (rule less.hyps)
      moreover have "transaction_loop env timeout interval start now attempts =
          transaction_loop env timeout interval start wake (attempts + 1)"
        using w True by (subst transaction_loop.simps) (simp add: Let_def)
      ultimately show ?thesis using k by auto
    next
      case False
      then show ?thesis using k True
        by (subst transaction_loop.simps, auto simp: Let_def split: poll_answer.splits option.splits)
          (metis tx_status.exhaust)+
    qed
  qed
qed

text \<open>
  Polling for a transaction with a positive interval always returns too, after at most one look-up per interval
  started within the timeout; the interval is not checked, so this is all the caller may rely on.
\<close>
theorem transaction_polling_terminates:
  assumes "0 < (case interval_ms of None \<Rightarrow> 2000 | Some i \<Rightarrow> i)" "0 < (case timeout_ms of None \<Rightarrow> 30000 | Some t \<Rightarrow> t)"
  shows "\<exists>n r. poll_transaction env timeout_ms interval_ms now = Some (n, r) \<and>
    int n \<le> ((case timeout_ms of None \<Rightarrow> 30000 | Some t \<Rightarrow> t) + (case interval_ms of None \<Rightarrow> 2000 | Some i \<Rightarrow> i) - 1)
      div (case interval_ms of None \<Rightarrow> 2000 | Some i \<Rightarrow> i)"
proof -
  let ?t = "case timeout_ms of None \<Rightarrow> 30000 | Some t \<Rightarrow> t" and ?i = "case interval_ms of None \<Rightarrow> 2000 | Some i \<Rightarrow> i"
  have "\<exists>n r. transaction_loop env ?t ?i now now 0 = Some (n, r) \<and> (int n \<le> checks_within ?t ?i \<or> n = 0)"
    by (rule transaction_loop_returns) (simp_all add: assms)
  moreover have "0 \<le> checks_within ?t ?i" using checks_within_less [OF assms(1), of 0 ?t] assms(2) by simp
  ultimately show ?thesis unfolding poll_transaction_def checks_within_def by fastforce
qed

section \<open>What the last check sees\<close>

text \<open>An environment that answers at once, sleeps exactly as long as asked and is never aborted\<close>

definition prompt :: "'v poll_env \<Rightarrow> bool" where
  "prompt env \<longleftrightarrow> (\<forall>k. pv_latency env k = 0 \<and> pv_oversleep env k = 0) \<and> pv_aborted_at env = None"

lemma prompt_simps:
  assumes "prompt env"
  shows "\<not> aborted env t" "pv_latency env k = 0" "sleep env k now ms = Some (now + max 0 ms)"
  using assms by (simp_all add: prompt_def aborted_def sleep_def)

lemma zle_div_iff:
  assumes i: "0 < (i::int)"
  shows "k * i \<le> m \<longleftrightarrow> k \<le> m div i"
proof
  assume "k * i \<le> m"
  then have "k * i div i \<le> m div i" using i by (intro zdiv_mono1)
  with i show "k \<le> m div i" by simp
next
  assume "k \<le> m div i"
  with i have "k * i \<le> m div i * i" by (simp add: mult_right_mono)
  also have "\<dots> \<le> m" using div_mult_mod_eq [of m i] pos_mod_sign [OF i, of m] by linarith
  finally show "k * i \<le> m" .
qed

lemma last_check_within:
  assumes "0 < (i::int)" "0 < t"
  shows "k * i < t \<longleftrightarrow> k \<le> (t - 1) div i"
proof -
  have "k * i < t \<longleftrightarrow> k * i \<le> t - 1" by simp
  also have "\<dots> \<longleftrightarrow> k \<le> (t - 1) div i" using assms(1) by (rule zle_div_iff)
  finally show ?thesis .
qed

lemma prompt_loop:
  assumes env: "prompt env" "\<forall>k u. pv_answer env k u = Status (f u)" "\<forall>u. ic (f u) = (if u < T then NotDone else IsDone)"
    and pos: "0 < i" "0 < t" and k: "int k * i < t"
  shows "\<exists>n r. poll_loop env ic t i start (start + int k * i) k = Some (n, r) \<and>
    (if T \<le> start + (t - 1) div i * i then \<exists>v e. r = PollComplete v e \<and> T \<le> start + e \<and> ic v = IsDone
     else r = PollTimedOut)"
  using k
proof (induction "nat (t - int k * i)" arbitrary: k rule: less_induct)
  case less
  let ?now = "start + int k * i"
  have last: "?now \<le> start + (t - 1) div i * i"
    using less.prems last_check_within [OF pos, of "int k"] pos(1) by (simp add: mult_right_mono)
  show ?case
  proof (cases "?now < T")
    case False
    then have "poll_loop env ic t i start ?now k = Some (k + 1, PollComplete (f ?now) (?now - start))"
      using env by (subst poll_loop.simps) (simp add: prompt_simps)
    with False last env(3) show ?thesis by auto
  next
    case early: True
    let ?wake = "?now + min i (t - int k * i)"
    have step: "poll_loop env ic t i start ?now k =
        (if ?wake - start \<ge> t then Some (k + 1, PollTimedOut) else poll_loop env ic t i start ?wake (k + 1))"
      using env less.prems pos early
      by (subst poll_loop.simps) (auto simp: prompt_simps Let_def)
    show ?thesis
    proof (cases "int (k + 1) * i < t")
      case True
      then have wake: "?wake = start + int (k + 1) * i" by (simp add: algebra_simps)
      then have "poll_loop env ic t i start ?now k = poll_loop env ic t i start (start + int (k + 1) * i) (k + 1)"
        using step True unfolding wake by simp
      moreover have "nat (t - int (k + 1) * i) < nat (t - int k * i)" using True pos(1) by (simp add: algebra_simps)
      ultimately show ?thesis using less.hyps [of "k + 1"] True by simp
    next
      case False
      then have "?wake - start \<ge> t" by (simp add: algebra_simps min_def)
      with step have "poll_loop env ic t i start ?now k = Some (k + 1, PollTimedOut)" by simp
      moreover have "(t - 1) div i = int k"
        using less.prems False last_check_within [OF pos, of "int k"] last_check_within [OF pos, of "int (k + 1)"] by simp
      ultimately show ?thesis using early by simp
    qed
  qed
qed

text \<open>
  With prompt answers and exact sleeps a payroll that completes at time \<open>T\<close> is seen exactly when \<open>T\<close> is no later
  than the last multiple of the interval that lies within the timeout: the shortened last sleep is never followed by
  a check, so what completes during it is reported as timed out.
\<close>
theorem completion_seen_iff:
  assumes "prompt env" "\<forall>k u. pv_answer env k u = Status (f u)"
    and "\<forall>u. ic (f u) = (if u < T then NotDone else IsDone)" "0 < i" "0 < t"
  shows "\<exists>n r. poll_payroll_completion env ic (Some (Whole t)) (Some (Whole i)) now = Some (n, r) \<and>
    (if T \<le> now + (t - 1) div i * i then \<exists>v e. r = PollComplete v e \<and> T \<le> now + e \<and> ic v = IsDone
     else r = PollTimedOut)"
  using prompt_loop [OF assms(1-3) assms(4,5), of 0 now] assms(4,5)
  by (simp add: poll_payroll_completion_def bounded_poll_options_def)

section \<open>Witnesses\<close>

definition example_env :: "bool poll_env" where
  "example_env =
     \<lparr>pv_answer = (\<lambda>_ u. Status (7 \<le> u)), pv_latency = (\<lambda>_. 0), pv_oversleep = (\<lambda>_. 0), pv_aborted_at = None\<rparr>"

definition example_predicate :: "bool \<Rightarrow> predicate_answer" where
  "example_predicate b = (if b then IsDone else NotDone)"

theorem polling_terminates_witness:
  "\<exists>n r. poll_payroll_completion example_env example_predicate (Some (Whole 8)) (Some (Whole 3)) 0 = Some (n, r) \<and>
    (r = PollRangeError \<or> int n \<le> 3)"
  using polling_terminates [of example_env example_predicate "Some (Whole 8)" "Some (Whole 3)" 0] by auto

definition example_tx_env :: "tx_status poll_env" where
  "example_tx_env =
     \<lparr>pv_answer = (\<lambda>_ _. Status TxNotFound), pv_latency = (\<lambda>_. 1), pv_oversleep = (\<lambda>_. 1), pv_aborted_at = None\<rparr>"

theorem transaction_polling_terminates_witness:
  "\<exists>n r. poll_transaction example_tx_env (Some 10) (Some 4) 0 = Some (n, r) \<and> int n \<le> 3"
  using transaction_polling_terminates [of "Some 4" "Some 10" example_tx_env 0] by simp

text \<open>Completed after 7 of the 8 milliseconds, with checks at 0, 3 and 6: reported as timed out.\<close>

theorem completion_seen_iff_witness:
  "\<exists>n. poll_payroll_completion example_env example_predicate (Some (Whole 8)) (Some (Whole 3)) 0 = Some (n, PollTimedOut)"
  using completion_seen_iff [of example_env "\<lambda>u. 7 \<le> u" example_predicate 7 3 8 0]
  by (auto simp: example_env_def example_predicate_def prompt_def)

end
