(* ===== verification/ProofArtifacts.thy ===== *)
theory ProofArtifacts
  imports Prelude
begin

text \<open>
  Loading the artifacts of the proof circuit (\<open>packages/core/src/artifacts/ProofArtifactLifecycleManager.ts\<close>): the
  checks of the manifest and of the versions, the cache with its expiry and stale fallback, and the verification of
  every artifact. Parameters are the hash, the content loader and the failures of a cache that is not in memory. A
  byte is of any type; the clock counts seconds.
\<close>

section \<open>Manifests, cache and errors\<close>

datatype artifact_kind = Wasm | Zkey | VerificationKey

fun kind_name :: "artifact_kind \<Rightarrow> string" where
  "kind_name Wasm = ''wasm''"
| "kind_name Zkey = ''zkey''"
| "kind_name VerificationKey = ''verificationKey''"

datatype artifact_source = RemoteSource string | LocalSource string

record artifact_descriptor =
  ad_kind :: artifact_kind
  ad_source :: artifact_source
  ad_sha256 :: string
  ad_size_bytes :: "int option"

record artifact_versions =
  av_sdk_version :: string
  av_circuit_version :: string
  av_contract_verifier_version :: string
  av_verification_key_version :: string

datatype cache_mode = CacheDisabled | CacheMemory | CachePersistent

record cache_policy =
  cp_mode :: cache_mode
  cp_ttl_seconds :: "int option"
  cp_allow_stale_fallback :: bool

record artifact_manifest =
  am_schema_version :: string
  am_manifest_version :: string
  am_circuit_id :: string
  am_artifacts :: "artifact_descriptor list"
  am_compatibility :: artifact_versions
  am_cache_policy :: "cache_policy option"

record 'b loaded_artifact =
  la_descriptor :: artifact_descriptor
  la_bytes :: "'b list"
  la_loaded_from_cache :: bool
  la_stale :: bool

record 'b artifact_cache_entry =
  ce_descriptor :: artifact_descriptor
  ce_bytes :: "'b list"
  ce_cached_at :: int

datatype artifact_error =
  InvalidManifest
| MissingArtifact artifact_kind
| HashMismatch artifact_kind
| IncompatibleVersion string
| NetworkFetchFailed artifact_kind
| CacheFailed

record 'b artifact_env =
  ae_sha256 :: "'b list \<Rightarrow> string"
  ae_load :: "artifact_descriptor \<Rightarrow> (artifact_error, 'b list) result"
  ae_has_cache :: bool
  ae_get_fails :: "string \<Rightarrow> bool"
  ae_set_fails :: "string \<Rightarrow> bool"
  ae_now :: int

type_synonym 'b artifact_cache = "(string, 'b artifact_cache_entry) dict"

text \<open>The loader used when none is given, over what \<open>fetch\<close> does with a URL\<close>

datatype 'b fetch_answer = FetchThrows | FetchStatus int "'b list"

definition fetch_artifact_content ::
  "(string \<Rightarrow> 'b fetch_answer) \<Rightarrow> artifact_descriptor \<Rightarrow> (artifact_error, 'b list) result" where
  "fetch_artifact_content fetch d =
     (case ad_source d of
        LocalSource path \<Rightarrow> Inl (MissingArtifact (ad_kind d))
      | RemoteSource url \<Rightarrow>
          (case fetch url of
             FetchThrows \<Rightarrow> Inl (NetworkFetchFailed (ad_kind d))
           | FetchStatus status body \<Rightarrow>
               if 200 \<le> status \<and> status \<le> 299 then Inr body else Inl (NetworkFetchFailed (ad_kind d))))"

section \<open>Checks\<close>

text \<open>\<open>/^[a-f0-9]{64}$/i\<close>\<close>

definition is_sha256_text :: "string \<Rightarrow> bool" where
  "is_sha256_text s =
     (length s = 64 \<and> list_all (\<lambda>c. let n = (of_char c :: nat) in
        (48 \<le> n \<and> n \<le> 57) \<or> (97 \<le> n \<and> n \<le> 102) \<or> (65 \<le> n \<and> n \<le> 70)) s)"

definition required_kinds :: "artifact_kind list" where
  "required_kinds = [Wasm, Zkey, VerificationKey]"

definition validate_manifest :: "artifact_manifest \<Rightarrow> (artifact_error, unit) result" where
  "validate_manifest m =
     (if am_schema_version m \<noteq> ''1.0'' \<or> am_manifest_version m = [] \<or> am_circuit_id m = [] then Inl InvalidManifest
      else case find (\<lambda>k. k \<notin> set (map ad_kind (am_artifacts m))) required_kinds of
          Some k \<Rightarrow> Inl (MissingArtifact k)
        | None \<Rightarrow> if list_all (\<lambda>d. is_sha256_text (ad_sha256 d)) (am_artifacts m) then Inr () else Inl InvalidManifest)"

definition version_checks :: "(string \<times> (artifact_versions \<Rightarrow> string)) list" where
  "version_checks =
     [(''sdkVersion'', av_sdk_version), (''circuitVersion'', av_circuit_version),
      (''contractVerifierVersion'', av_contract_verifier_version), (''verificationKeyVersion'', av_verification_key_version)]"

definition validate_compatibility :: "artifact_manifest \<Rightarrow> artifact_versions \<Rightarrow> (artifact_error, unit) result" where
  "validate_compatibility m runtime =
     (case find (\<lambda>(k, f). f (am_compatibility m) \<noteq> f runtime) version_checks of
        Some (k, f) \<Rightarrow> Inl (IncompatibleVersion k)
      | None \<Rightarrow> Inr ())"

definition verify_hash :: "'b artifact_env \<Rightarrow> 'b list \<Rightarrow> artifact_descriptor \<Rightarrow> (artifact_error, unit) result" where
  "verify_hash env bytes d =
     bind_result (throw_if (ae_sha256 env bytes \<noteq> js_lower (ad_sha256 d)) (HashMismatch (ad_kind d))) (\<lambda>_.
       throw_if (case ad_size_bytes d of None \<Rightarrow> False | Some n \<Rightarrow> n \<noteq> int (length bytes)) (HashMismatch (ad_kind d)))"

definition is_expired :: "'b artifact_env \<Rightarrow> 'b artifact_cache_entry \<Rightarrow> int option \<Rightarrow> bool" where
  "is_expired env e ttl = (case ttl of None \<Rightarrow> False | Some t \<Rightarrow> ce_cached_at e + t \<le> ae_now env)"

definition artifact_cache_key :: "artifact_manifest \<Rightarrow> artifact_descriptor \<Rightarrow> string" where
  "artifact_cache_key m d =
     ''proof-artifact:'' @ am_circuit_id m @ '':'' @ am_manifest_version m @ '':'' @ kind_name (ad_kind d) @ '':'' @ ad_sha256 d"

lemma other_loader [simp]:
  "is_expired (env\<lparr>ae_load := loader\<rparr>) e ttl = is_expired env e ttl"
  "verify_hash (env\<lparr>ae_load := loader\<rparr>) bytes d = verify_hash env bytes d"
  by (cases ttl; simp add: is_expired_def verify_hash_def)+

section \<open>Loading\<close>

definition effective_policy :: "artifact_manifest \<Rightarrow> cache_policy" where
  "effective_policy m =
     (case am_cache_policy m of
        None \<Rightarrow> \<lparr>cp_mode = CacheDisabled, cp_ttl_seconds = None, cp_allow_stale_fallback = False\<rparr>
      | Some p \<Rightarrow> p)"

text \<open>The result of one artifact and what it writes to the cache\<close>

type_synonym 'b load_run = "(artifact_error, 'b loaded_artifact) result \<times> (string \<times> 'b artifact_cache_entry) option"

definition fetch_and_store :: "'b artifact_env \<Rightarrow> artifact_manifest \<Rightarrow> artifact_descriptor \<Rightarrow> 'b load_run" where
  "fetch_and_store env m d =
     (let key = artifact_cache_key m d in
      case ae_load env d of
        Inl e \<Rightarrow> (Inl e, None)
      | Inr bytes \<Rightarrow>
          (case verify_hash env bytes d of
             Inl e \<Rightarrow> (Inl e, None)
           | Inr _ \<Rightarrow>
               let loaded = \<lparr>la_descriptor = d, la_bytes = bytes, la_loaded_from_cache = False, la_stale = False\<rparr>
               in if cp_mode (effective_policy m) = CacheDisabled \<or> \<not> ae_has_cache env then (Inr loaded, None)
                  else if ae_set_fails env key then (Inl CacheFailed, None)
                  else (Inr loaded, Some (key, \<lparr>ce_descriptor = d, ce_bytes = bytes, ce_cached_at = ae_now env\<rparr>))))"

definition from_cache :: "'b artifact_env \<Rightarrow> artifact_descriptor \<Rightarrow> 'b artifact_cache_entry \<Rightarrow> bool \<Rightarrow> (artifact_error, 'b loaded_artifact) result" where
  "from_cache env d e stale =
     bind_result (verify_hash env (ce_bytes e) d) (\<lambda>_.
       Inr \<lparr>la_descriptor = d, la_bytes = ce_bytes e, la_loaded_from_cache = True, la_stale = stale\<rparr>)"

definition load_artifact ::
  "'b artifact_env \<Rightarrow> 'b artifact_cache \<Rightarrow> artifact_manifest \<Rightarrow> artifact_descriptor \<Rightarrow> 'b load_run" where
  "load_artifact env cache m d =
     (let key = artifact_cache_key m d; policy = effective_policy m;
          cached = (if ae_has_cache env then dict_get cache key else None)
      in if ae_has_cache env \<and> ae_get_fails env key then (Inl CacheFailed, None)
         else case cached of
             Some e \<Rightarrow>
               if \<not> is_expired env e (cp_ttl_seconds policy) then (from_cache env d e False, None)
               else (case fetch_and_store env m d of
                   (Inl err, w) \<Rightarrow>
                     if cp_allow_stale_fallback policy then (from_cache env d e True, w) else (Inl err, w)
                 | (Inr l, w) \<Rightarrow> (Inr l, w))
           | None \<Rightarrow> fetch_and_store env m d)"

record 'b loaded_set =
  ls_manifest :: artifact_manifest
  ls_artifacts :: "(artifact_kind, 'b loaded_artifact) dict"

text \<open>
  All artifacts are loaded at once: every look-up precedes every write. The first failure in the order of the manifest
  stands for the one that rejects first; the writes of the others happen all the same.
\<close>

fun first_error :: "(artifact_error, 'b loaded_artifact) result list \<Rightarrow> (artifact_error, 'b loaded_artifact list) result" where
  "first_error [] = Inr []"
| "first_error (Inl e # rs) = Inl e"
| "first_error (Inr l # rs) = bind_result (first_error rs) (\<lambda>ls. Inr (l # ls))"

definition by_kind :: "'b loaded_artifact list \<Rightarrow> (artifact_kind, 'b loaded_artifact) dict" where
  "by_kind ls = fold (\<lambda>l. dict_put (ad_kind (la_descriptor l)) l) ls []"

definition store_writes :: "(string \<times> 'b artifact_cache_entry) option list \<Rightarrow> 'b artifact_cache \<Rightarrow> 'b artifact_cache" where
  "store_writes ws cache = fold (\<lambda>w c. case w of None \<Rightarrow> c | Some (k, e) \<Rightarrow> dict_put k e c) ws cache"

definition load_artifacts ::
  "'b artifact_env \<Rightarrow> 'b artifact_cache \<Rightarrow> artifact_manifest \<Rightarrow> artifact_versions \<Rightarrow>
   (artifact_error, 'b loaded_set) result \<times> 'b artifact_cache" where
  "load_artifacts env cache m runtime =
     (case bind_result (validate_manifest m) (\<lambda>_. validate_compatibility m runtime) of
        Inl e \<Rightarrow> (Inl e, cache)
      | Inr _ \<Rightarrow>
          let runs = map (load_artifact env cache m) (am_artifacts m)
          in (bind_result (first_error (map fst runs)) (\<lambda>ls. Inr \<lparr>ls_manifest = m, ls_artifacts = by_kind ls\<rparr>),
              store_writes (map snd runs) cache))"

section \<open>What is loaded is verified\<close>

definition verified :: "'b artifact_env \<Rightarrow> artifact_manifest \<Rightarrow> 'b loaded_artifact \<Rightarrow> bool" where
  "verified env m l \<longleftrightarrow>
     la_descriptor l \<in> set (am_artifacts m) \<and>
     ae_sha256 env (la_bytes l) = js_lower (ad_sha256 (la_descriptor l)) \<and>
     (\<forall>n. ad_size_bytes (la_descriptor l) = Some n \<longrightarrow> n = int (length (la_bytes l))) \<and>
     (la_stale l \<longrightarrow> la_loaded_from_cache l \<and> cp_allow_stale_fallback (effective_policy m) \<and>
        (\<exists>ttl. cp_ttl_seconds (effective_policy m) = Some ttl))"

lemma verify_hash_ok:
  "verify_hash env bytes d = Inr () \<longleftrightarrow>
     ae_sha256 env bytes = js_lower (ad_sha256 d) \<and> (\<forall>n. ad_size_bytes d = Some n \<longrightarrow> n = int (length bytes))"
  by (auto simp: verify_hash_def result_simps split: option.splits)

lemma from_cache_ok:
  "from_cache env d e stale = Inr l \<longleftrightarrow>
     verify_hash env (ce_bytes e) d = Inr () \<and>
     l = \<lparr>la_descriptor = d, la_bytes = ce_bytes e, la_loaded_from_cache = True, la_stale = stale\<rparr>"
  by (auto simp: from_cache_def result_simps)

lemma fetch_and_store_ok:
  assumes "fst (fetch_and_store env m d) = Inr l"
  shows "verify_hash env (la_bytes l) d = Inr () \<and> la_descriptor l = d \<and> \<not> la_stale l"
  using assms by (auto simp: fetch_and_store_def Let_def split: sum.splits if_splits)

lemma load_artifact_verified:
  assumes "fst (load_artifact env cache m d) = Inr l" "d \<in> set (am_artifacts m)"
  shows "verified env m l \<and> la_descriptor l = d"
proof -
  have fetched: "verified env m l \<and> la_descriptor l = d" if "fst (fetch_and_store env m d) = Inr l"
    using fetch_and_store_ok [OF that] assms(2) by (auto simp: verified_def verify_hash_ok)
  have stored: "verified env m l \<and> la_descriptor l = d"
    if "from_cache env d e stale = Inr l"
      "stale \<Longrightarrow> cp_allow_stale_fallback (effective_policy m) \<and> is_expired env e (cp_ttl_seconds (effective_policy m))" for e stale
    using that assms(2) by (auto simp: from_cache_ok verify_hash_ok verified_def is_expired_def split: option.splits)
  let ?key = "artifact_cache_key m d" and ?policy = "effective_policy m"
  consider (fails) "ae_has_cache env" "ae_get_fails env ?key"
    | (miss) "\<not> (ae_has_cache env \<and> ae_get_fails env ?key)" "(if ae_has_cache env then dict_get cache ?key else None) = None"
    | (hit) e where "\<not> (ae_has_cache env \<and> ae_get_fails env ?key)" "(if ae_has_cache env then dict_get cache ?key else None) = Some e"
    by blast
  then show ?thesis
  proof cases
    case fails
    then show ?thesis using assms(1) by (simp add: load_artifact_def Let_def)
  next
    case miss
    then have "load_artifact env cache m d = fetch_and_store env m d"
      unfolding load_artifact_def Let_def by (simp only: if_False option.case)
    then show ?thesis using assms(1) fetched by simp
  next
    case (hit e)
    have run: "load_artifact env cache m d =
      (if \<not> is_expired env e (cp_ttl_seconds ?policy) then (from_cache env d e False, None)
       else (case fetch_and_store env m d of
           (Inl err, w) \<Rightarrow> if cp_allow_stale_fallback ?policy then (from_cache env d e True, w) else (Inl err, w)
         | (Inr l, w) \<Rightarrow> (Inr l, w)))"
      unfolding load_artifact_def Let_def using hit by (simp only: if_False option.case)
    obtain r w where fetch: "fetch_and_store env m d = (r, w)" by fastforce
    show ?thesis
    proof (cases "is_expired env e (cp_ttl_seconds ?policy)")
      case False
      then show ?thesis using stored [of e False] assms(1) run by simp
    next
      case True
      show ?thesis
      proof (cases r)
        case (Inr x)
        then have "load_artifact env cache m d = (r, w)" using run True fetch by simp
        then show ?thesis using fetched assms(1) fetch by simp
      next
        case (Inl err)
        then have split: "load_artifact env cache m d =
          (if cp_allow_stale_fallback ?policy then (from_cache env d e True, w) else (Inl err, w))"
          using run True fetch by simp
        then have "cp_allow_stale_fallback ?policy" using assms(1) by (auto split: if_splits)
        then show ?thesis using stored [of e True] True assms(1) split by simp
      qed
    qed
  qed
qed

lemma first_error_ok: "first_error rs = Inr ls \<longleftrightarrow> rs = map Inr ls"
  by (induction rs arbitrary: ls rule: first_error.induct) (auto simp: result_simps)

lemma by_kind_get:
  "dict_get (by_kind ls) k = Some l \<Longrightarrow> l \<in> set ls \<and> ad_kind (la_descriptor l) = k"
  "l \<in> set ls \<Longrightarrow> \<exists>l'. dict_get (by_kind ls) (ad_kind (la_descriptor l)) = Some l'"
  by (induction ls rule: rev_induct) (auto simp: by_kind_def update_conv' split: if_splits)

lemma manifest_kinds: "validate_manifest m = Inr () \<Longrightarrow> k \<in> ad_kind ` set (am_artifacts m)"
  by (cases k) (auto simp: validate_manifest_def required_kinds_def split: if_splits option.splits)

lemma compatible: "validate_compatibility m runtime = Inr () \<longleftrightarrow> am_compatibility m = runtime"
  by (auto simp: validate_compatibility_def version_checks_def split: if_splits)

text \<open>
  C33: What is handed to the prover is complete and verified: when loading succeeds the versions are those of the
  runtime, there is an artifact of each kind, and each has the hash and the size of its entry in the manifest and is
  stale only where the manifest allows it.
\<close>
theorem loaded_artifacts_verified:
  assumes "fst (load_artifacts env cache m runtime) = Inr s"
  shows "am_compatibility m = runtime \<and>
    (\<exists>l. dict_get (ls_artifacts s) k = Some l \<and> ad_kind (la_descriptor l) = k \<and> verified env m l)"
proof -
  let ?runs = "map (load_artifact env cache m) (am_artifacts m)"
  have ok: "validate_manifest m = Inr ()" "validate_compatibility m runtime = Inr ()"
    using assms by (auto simp: load_artifacts_def result_simps split: sum.splits)
  then obtain ls where ls: "first_error (map fst ?runs) = Inr ls" "s = \<lparr>ls_manifest = m, ls_artifacts = by_kind ls\<rparr>"
    using assms by (auto simp: load_artifacts_def Let_def result_simps)
  then have runs: "map (fst \<circ> load_artifact env cache m) (am_artifacts m) = map Inr ls"
    by (simp add: first_error_ok)
  have verified: "verified env m l" if "l \<in> set ls" for l
  proof -
    have "Inr l \<in> set (map (fst \<circ> load_artifact env cache m) (am_artifacts m))" using that runs by simp
    then obtain d where "d \<in> set (am_artifacts m)" "fst (load_artifact env cache m d) = Inr l" by auto
    then show ?thesis using load_artifact_verified by blast
  qed
  obtain d where d: "d \<in> set (am_artifacts m)" "ad_kind d = k" using manifest_kinds [OF ok(1), of k] by auto
  then have "fst (load_artifact env cache m d) \<in> set (map Inr ls)" using runs [symmetric] by simp
  then obtain l where l: "fst (load_artifact env cache m d) = Inr l" "l \<in> set ls" by auto
  then have "ad_kind (la_descriptor l) = k" using load_artifact_verified d by metis
  then obtain l' where l': "dict_get (by_kind ls) k = Some l'" using by_kind_get(2) [OF l(2)] by auto
  then show ?thesis using by_kind_get(1) [OF l'] verified ok(2) ls(2) by (auto simp: compatible)
qed

lemma store_writes_other:
  "\<forall>w \<in> set ws. case w of None \<Rightarrow> True | Some (k', e) \<Rightarrow> k' \<noteq> k \<Longrightarrow> dict_get (store_writes ws cache) k = dict_get cache k"
  by (induction ws arbitrary: cache) (auto simp: store_writes_def update_conv' split: option.splits prod.splits)

text \<open>
  A cache entry that went bad is never repaired: as long as it has not expired, loading the artifact fails whatever
  the loader would deliver, and nothing is written over it; without a time to live that is for ever.
\<close>
theorem corrupt_entry_sticks:
  assumes "ae_has_cache env" "\<not> ae_get_fails env (artifact_cache_key m d)"
    and "dict_get cache (artifact_cache_key m d) = Some e"
    and "\<not> is_expired env e (cp_ttl_seconds (effective_policy m))"
    and "ae_sha256 env (ce_bytes e) \<noteq> js_lower (ad_sha256 d)"
  shows "load_artifact (env\<lparr>ae_load := loader\<rparr>) cache m d = (Inl (HashMismatch (ad_kind d)), None)"
proof -
  have "verify_hash env (ce_bytes e) d = Inl (HashMismatch (ad_kind d))"
    using assms(5) by (simp add: verify_hash_def result_simps)
  then show ?thesis using assms(1-4) by (simp add: load_artifact_def Let_def from_cache_def result_simps)
qed

section \<open>Witnesses\<close>

definition example_hash :: string where
  "example_hash = replicate 64 (CHR ''a'')"

definition example_env :: "nat artifact_env" where
  "example_env =
     \<lparr>ae_sha256 = (\<lambda>bs. if bs = [1] then replicate 64 (CHR ''a'') else []), ae_load = (\<lambda>d. Inr [1]), ae_has_cache = True,
      ae_get_fails = (\<lambda>_. False), ae_set_fails = (\<lambda>_. False), ae_now = 0\<rparr>"

definition example_descriptor :: "artifact_kind \<Rightarrow> artifact_descriptor" where
  "example_descriptor k =
     \<lparr>ad_kind = k, ad_source = RemoteSource ''u'', ad_sha256 = replicate 64 (CHR ''a''), ad_size_bytes = Some 1\<rparr>"

definition example_versions :: artifact_versions where
  "example_versions =
     \<lparr>av_sdk_version = ''1'', av_circuit_version = ''1'', av_contract_verifier_version = ''1'',
      av_verification_key_version = ''1''\<rparr>"

definition example_manifest :: artifact_manifest where
  "example_manifest =
     \<lparr>am_schema_version = ''1.0'', am_manifest_version = ''1'', am_circuit_id = ''c'',
      am_artifacts = map example_descriptor [Wasm, Zkey, VerificationKey], am_compatibility = example_versions,
      am_cache_policy = None\<rparr>"

lemma example_loads:
  "fst (load_artifacts example_env [] example_manifest example_versions) =
     Inr \<lparr>ls_manifest = example_manifest,
       ls_artifacts = map (\<lambda>k. (k, \<lparr>la_descriptor = example_descriptor k, la_bytes = [1], la_loaded_from_cache = False,
         la_stale = False\<rparr>)) [Wasm, Zkey, VerificationKey]\<rparr>"
  by code_simp

theorem loaded_artifacts_verified_witness:
  "\<exists>l. dict_get (map (\<lambda>k. (k, \<lparr>la_descriptor = example_descriptor k, la_bytes = [1], la_loaded_from_cache = False,
         la_stale = False\<rparr>)) [Wasm, Zkey, VerificationKey]) Zkey = Some l \<and> verified example_env example_manifest l"
  using loaded_artifacts_verified [OF example_loads, of Zkey] by auto

theorem corrupt_entry_sticks_witness:
  "load_artifact (example_env\<lparr>ae_load := \<lambda>d. Inr [1]\<rparr>)
     [(artifact_cache_key example_manifest (example_descriptor Wasm),
       \<lparr>ce_descriptor = example_descriptor Wasm, ce_bytes = [2], ce_cached_at = 0\<rparr>)]
     example_manifest (example_descriptor Wasm) = (Inl (HashMismatch Wasm), None)"
proof -
  have "ad_kind (example_descriptor Wasm) = Wasm" by (simp add: example_descriptor_def)
  then show ?thesis
    using corrupt_entry_sticks [of example_env example_manifest "example_descriptor Wasm"
        "[(artifact_cache_key example_manifest (example_descriptor Wasm),
       \<lparr>ce_descriptor = example_descriptor Wasm, ce_bytes = [2], ce_cached_at = 0\<rparr>)]"
        "\<lparr>ce_descriptor = example_descriptor Wasm, ce_bytes = [2], ce_cached_at = 0\<rparr>" "\<lambda>d. Inr [1]"]
    by (simp add: example_env_def example_manifest_def effective_policy_def is_expired_def example_descriptor_def
        js_lower_def js_lower_char_def)
qed

end
