(* ===== verification/BatchPages.thy ===== *)
theory BatchPages
  imports Prelude
begin

text \<open>
  Division of a collection into batches (\<open>packages/core/src/batch/paginate.ts\<close>). A page size or batch index is
  a JavaScript number that the code still has to check, so it is a \<open>jsnum\<close>; an absent page size is \<open>None\<close>.
  \<open>Math.ceil(total / size)\<close> is exact integer division rounded up: the quotient of an array length and an
  integer is never within rounding distance of another integer.
\<close>

section \<open>Pages\<close>

record 'a batch_page =
  bp_items :: "'a list"
  bp_index :: int
  bp_offset :: int
  bp_count :: int
  bp_total_items :: int
  bp_total_pages :: int
  bp_has_next :: bool

datatype page_error = InvalidPageSize | InvalidBatchIndex

definition assert_valid_page_size :: "jsnum option \<Rightarrow> (page_error, unit) result" where
  "assert_valid_page_size page_size =
     (case page_size of
        None \<Rightarrow> Inr ()
      | Some NonInteger \<Rightarrow> Inl InvalidPageSize
      | Some (Whole n) \<Rightarrow> if n \<le> 0 then Inl InvalidPageSize else Inr ())"

definition assert_valid_batch_index :: "jsnum \<Rightarrow> (page_error, unit) result" where
  "assert_valid_batch_index batch_index =
     (case batch_index of
        NonInteger \<Rightarrow> Inl InvalidBatchIndex
      | Whole n \<Rightarrow> if n \<ge> 0 then Inr () else Inl InvalidBatchIndex)"

definition ceil_div :: "int \<Rightarrow> int \<Rightarrow> int" where
  "ceil_div a b = (a + b - 1) div b"

text \<open>\<open>items.slice(from, to)\<close> for offsets that are not negative\<close>

definition slice_items :: "int \<Rightarrow> int \<Rightarrow> 'a list \<Rightarrow> 'a list" where
  "slice_items lo hi xs = take (nat hi - nat lo) (drop (nat lo) xs)"

text \<open>The number a checked page size or index is.\<close>

definition number_or :: "int \<Rightarrow> jsnum option \<Rightarrow> int" where
  "number_or d x = (case x of Some (Whole n) \<Rightarrow> n | _ \<Rightarrow> d)"

definition total_pages :: "int \<Rightarrow> int \<Rightarrow> int" where
  "total_pages tot sz = (if tot = 0 then 1 else ceil_div tot sz)"

definition get_batch_page :: "'a list \<Rightarrow> jsnum option \<Rightarrow> jsnum \<Rightarrow> (page_error, 'a batch_page) result" where
  "get_batch_page items page_size batch_index =
     bind_result (assert_valid_page_size page_size) (\<lambda>_.
     bind_result (assert_valid_batch_index batch_index) (\<lambda>_.
       let total_items = int (length items);
           effective = number_or total_items page_size;
           pages = total_pages total_items effective;
           index = number_or 0 (Some batch_index);
           offset = index * effective;
           clamped = min offset total_items;
           page_items = slice_items clamped (clamped + effective) items
       in Inr \<lparr>bp_items = page_items, bp_index = index, bp_offset = clamped, bp_count = int (length page_items),
               bp_total_items = total_items, bp_total_pages = pages, bp_has_next = (index + 1 < pages)\<rparr>))"

definition page_at :: "'a list \<Rightarrow> int \<Rightarrow> int \<Rightarrow> int \<Rightarrow> 'a batch_page" where
  "page_at items effective pages index =
     (let offset = index * effective;
          page_items = slice_items offset (offset + effective) items
      in \<lparr>bp_items = page_items, bp_index = index, bp_offset = offset, bp_count = int (length page_items),
          bp_total_items = int (length items), bp_total_pages = pages, bp_has_next = (index + 1 < pages)\<rparr>)"

definition iterate_batches :: "'a list \<Rightarrow> jsnum option \<Rightarrow> (page_error, 'a batch_page list) result" where
  "iterate_batches items page_size =
     bind_result (assert_valid_page_size page_size) (\<lambda>_.
       let total_items = int (length items);
           effective = number_or (if total_items > 0 then total_items else 1) page_size;
           pages = total_pages total_items effective
       in Inr (map (page_at items effective pages) [0..pages - 1]))"

section \<open>Arithmetic of pages\<close>

lemma ceil_div_bounds:
  assumes "0 < b"
  shows "a \<le> ceil_div a b * b" "(ceil_div a b - 1) * b < a"
proof -
  let ?q = "(a + b - 1) div b" and ?r = "(a + b - 1) mod b"
  have e: "?q * b + ?r = a + b - 1" by (rule div_mult_mod_eq)
  have "0 \<le> ?r" "?r < b" using assms by simp_all
  with e have "a \<le> ?q * b" "?q * b - b < a" by linarith+
  then show "a \<le> ceil_div a b * b" "(ceil_div a b - 1) * b < a"
    by (simp_all only: ceil_div_def left_diff_distrib mult_1)
qed

lemma ceil_div_pos: "0 < b \<Longrightarrow> 0 < a \<Longrightarrow> 0 < ceil_div a b"
  by (simp add: ceil_div_def pos_imp_zdiv_pos_iff)

lemma total_pages_pos: "0 < sz \<Longrightarrow> 0 \<le> tot \<Longrightarrow> 0 < total_pages tot sz"
  by (simp add: total_pages_def ceil_div_pos)

lemma total_pages_cover: "0 < sz \<Longrightarrow> 0 \<le> tot \<Longrightarrow> tot \<le> total_pages tot sz * sz"
  by (simp add: total_pages_def ceil_div_bounds)

lemma page_starts_inside:
  assumes "0 < sz" "i < total_pages tot sz" "0 < tot"
  shows "i * sz < tot"
proof -
  have "i \<le> ceil_div tot sz - 1" using assms by (simp add: total_pages_def)
  then have "i * sz \<le> (ceil_div tot sz - 1) * sz" using assms(1) by (simp add: mult_right_mono)
  with ceil_div_bounds(2) [OF assms(1), of tot] show ?thesis by linarith
qed

lemma valid_page_size_iff: "assert_valid_page_size ps = Inr u \<longleftrightarrow> (\<forall>x. ps = Some x \<longrightarrow> (\<exists>n > 0. x = Whole n))"
  by (cases ps) (auto simp: assert_valid_page_size_def not_le split: jsnum.splits)

lemma concat_slices:
  "concat (map (\<lambda>i. take n (drop (i * n) xs)) [0..<k]) = take (k * n) xs"
proof (induction k)
  case (Suc k)
  have "take (Suc k * n) xs = take (k * n) xs @ take n (drop (k * n) xs)"
    by (simp only: mult_Suc add.commute [of n] take_add)
  with Suc show ?case by (simp del: mult_Suc)
qed simp

lemma page_items: "0 \<le> i \<Longrightarrow> 0 < s \<Longrightarrow> bp_items (page_at xs s p i) = take (nat s) (drop (nat i * nat s) xs)"
  by (simp add: page_at_def slice_items_def Let_def nat_mult_distrib nat_add_distrib)

lemma upto_nat: "[0..int k - 1] = map int [0..<k]"
proof (induction k)
  case (Suc k)
  then show ?case by (simp add: upto_rec2)
qed simp

lemma iterate_batches_pages:
  assumes "iterate_batches xs ps = Inr bs"
  obtains s p where "0 < s" "p = total_pages (int (length xs)) s" "bs = map (page_at xs s p) [0..p - 1]"
    "\<forall>n. ps = Some (Whole n) \<longrightarrow> s = n" "ps = None \<longrightarrow> s = max 1 (int (length xs))"
proof -
  let ?s = "number_or (if int (length xs) > 0 then int (length xs) else 1) ps"
  obtain u where v: "assert_valid_page_size ps = Inr u"
    using assms by (auto simp: iterate_batches_def bind_result_Inr_iff)
  have s: "0 < ?s" using v by (cases ps) (auto simp: number_or_def valid_page_size_iff)
  have bs: "bs = map (page_at xs ?s (total_pages (int (length xs)) ?s)) [0..total_pages (int (length xs)) ?s - 1]"
    using assms v by (simp add: iterate_batches_def Let_def)
  show ?thesis
  proof (rule that [of ?s, OF s refl bs])
    show "\<forall>n. ps = Some (Whole n) \<longrightarrow> ?s = n" by (simp add: number_or_def)
    have "max 1 (int (length xs)) = int (length xs)" if "xs \<noteq> []" using that by (cases xs) simp_all
    then show "ps = None \<longrightarrow> ?s = max 1 (int (length xs))" by (simp add: number_or_def)
  qed
qed

lemma pages_concat:
  assumes "0 < s" "p = total_pages (int (length xs)) s"
  shows "concat (map (bp_items \<circ> page_at xs s p) [0..p - 1]) = xs"
proof -
  define k where "k = nat p"
  have p: "p = int k" using total_pages_pos [OF assms(1), of "int (length xs)"] assms(2) by (simp add: k_def)
  have "map (bp_items \<circ> page_at xs s p) [0..p - 1] = map (\<lambda>i. take (nat s) (drop (i * nat s) xs)) [0..<k]"
    using assms(1) by (simp add: p upto_nat page_items)
  then have "concat (map (bp_items \<circ> page_at xs s p) [0..p - 1]) = take (k * nat s) xs"
    by (simp only: concat_slices)
  moreover have "length xs \<le> k * nat s"
  proof -
    have "int (length xs) \<le> int k * s" using total_pages_cover [OF assms(1), of "int (length xs)"] assms(2) p by simp
    also have "\<dots> = int (k * nat s)" using assms(1) by simp
    finally show ?thesis by (simp only: of_nat_le_iff)
  qed
  ultimately show ?thesis by simp
qed

lemma page_full:
  assumes "0 < s" "0 \<le> i" "i + 1 < total_pages (int (length xs)) s"
  shows "bp_count (page_at xs s p i) = s"
proof -
  have "0 < length xs" using assms by (cases xs) (simp_all add: total_pages_def)
  then have "(i + 1) * s < int (length xs)" using page_starts_inside [OF assms(1,3)] by simp
  then have "nat i * nat s + nat s \<le> length xs"
    using assms(1,2) by (simp add: left_diff_distrib distrib_right nat_mult_distrib [symmetric] flip: nat_add_distrib)
  then show ?thesis
    using assms(1,2) page_items [OF assms(2,1), of xs p] by (simp add: page_at_def Let_def)
qed

lemma get_batch_page_at:
  assumes "0 < s" "0 \<le> i" "i < p" "p = total_pages (int (length xs)) s" "assert_valid_page_size ps = Inr u"
    and "\<forall>n. ps = Some (Whole n) \<longrightarrow> s = n" "ps = None \<longrightarrow> s = max 1 (int (length xs))"
  shows "get_batch_page xs ps (Whole i) = Inr (page_at xs s p i)"
proof (cases "xs = []")
  case True
  then have "p = 1" using assms by (simp add: total_pages_def)
  then have "i = 0" using assms by simp
  with True assms \<open>p = 1\<close> show ?thesis
    by (simp add: get_batch_page_def page_at_def Let_def assert_valid_batch_index_def number_or_def slice_items_def
        total_pages_def)
next
  case False
  then have "max 1 (int (length xs)) = int (length xs)" by (cases xs) simp_all
  then have e: "number_or (int (length xs)) ps = s"
    using assms(5-7) by (cases ps) (auto simp: number_or_def valid_page_size_iff)
  have "i * s < int (length xs)" using page_starts_inside [of s i "int (length xs)"] assms False by simp
  then have "min (i * s) (int (length xs)) = i * s" by simp
  with e assms show ?thesis
    by (simp add: get_batch_page_def page_at_def Let_def assert_valid_batch_index_def number_or_def)
qed

section \<open>Properties\<close>

definition page_well_placed :: "'a list \<Rightarrow> jsnum option \<Rightarrow> 'a batch_page list \<Rightarrow> nat \<Rightarrow> bool" where
  "page_well_placed xs ps bs k \<longleftrightarrow>
     get_batch_page xs ps (Whole (int k)) = Inr (bs ! k) \<and>
     bp_index (bs ! k) = int k \<and> bp_has_next (bs ! k) = (Suc k < length bs) \<and>
     bp_count (bs ! k) = int (length (bp_items (bs ! k))) \<and>
     (xs \<noteq> [] \<longrightarrow> bp_items (bs ! k) \<noteq> []) \<and>
     (\<forall>n. ps = Some (Whole n) \<longrightarrow> bp_count (bs ! k) \<le> n \<and> (Suc k < length bs \<longrightarrow> bp_count (bs ! k) = n))"

text \<open>
  the batches of a collection put together are the collection, every record once and in order. Each batch
  carries its index and its length, is the page that \<open>getBatchPage\<close> returns for its index, is not empty unless
  the collection is, and only the last one may be shorter than the page size. A page size that is not a
  positive integer is refused.
\<close>

theorem batches_partition_items:
  assumes "ps = None \<or> (\<exists>n > 0. ps = Some (Whole n))"
  shows "\<exists>bs. iterate_batches xs ps = Inr bs \<and> concat (map bp_items bs) = xs \<and>
    (\<forall>k < length bs. page_well_placed xs ps bs k)"
proof -
  have v: "assert_valid_page_size ps = Inr ()" using assms by (auto simp: valid_page_size_iff)
  then obtain bs where bs: "iterate_batches xs ps = Inr bs" by (simp add: iterate_batches_def Let_def)
  then obtain s p where s: "0 < s" and p: "p = total_pages (int (length xs)) s"
    and map: "bs = map (page_at xs s p) [0..p - 1]"
    and n: "\<forall>n. ps = Some (Whole n) \<longrightarrow> s = n" "ps = None \<longrightarrow> s = max 1 (int (length xs))"
    by (rule iterate_batches_pages)
  have "concat (map bp_items bs) = xs" using pages_concat [OF s p] by (simp add: map)
  moreover have "page_well_placed xs ps bs k" if "k < length bs" for k
  proof -
    have len: "length bs = nat p" by (simp add: map)
    with that have k: "int k < p" by linarith
    have nth: "bs ! k = page_at xs s p (int k)" using that by (simp add: map)
    have i: "bp_items (bs ! k) = take (nat s) (drop (k * nat s) xs)" using page_items [of "int k" s xs p] s nth by simp
    have c: "bp_count (bs ! k) = int (length (bp_items (bs ! k)))" by (simp add: nth page_at_def Let_def)
    have "bp_items (bs ! k) \<noteq> []" if "xs \<noteq> []"
    proof -
      have "int k * s < int (length xs)" using page_starts_inside [of s "int k" "int (length xs)"] s k p that by simp
      then have "int (k * nat s) < int (length xs)" using s by simp
      then have "k * nat s < length xs" by (simp only: of_nat_less_iff)
      with s show ?thesis by (simp add: i)
    qed
    moreover have "bp_count (bs ! k) \<le> s" using s by (simp add: c i)
    moreover have "bp_count (bs ! k) = s" if "Suc k < length bs"
      using page_full [OF s, of "int k" xs p] that len p nth by simp
    moreover have "get_batch_page xs ps (Whole (int k)) = Inr (bs ! k)"
      using get_batch_page_at [OF s _ k p v n] nth by simp
    moreover have "bp_index (bs ! k) = int k" "bp_has_next (bs ! k) = (Suc k < length bs)"
      using len k by (auto simp: nth page_at_def Let_def)
    ultimately show ?thesis using n(1) c by (auto simp: page_well_placed_def)
  qed
  ultimately show ?thesis using bs by blast
qed

theorem batches_partition_items_witness:
  "\<exists>bs. iterate_batches [1, 2, 3 :: nat] (Some (Whole 2)) = Inr bs \<and> concat (map bp_items bs) = [1, 2, 3]"
  using batches_partition_items [of "Some (Whole 2)" "[1, 2, 3 :: nat]"] by auto

end
