(* ===== verification/ResumeToken.thy ===== *)
theory ResumeToken
  imports BatchPages Digits "HOL-Library.List_Lexorder" "HOL-Library.Multiset"
begin

text \<open>
  Resume tokens of interrupted batch submissions (\<open>packages/core/src/payroll/batchResumeToken.ts\<close>) and the
  commitment to a collection of entries they carry (\<open>fingerprint/batchFingerprint.ts\<close>). The hash, the
  base64url coding and the JSON reader of the runtime are the fields of a \<open>token_lib\<close>; what the token code
  relies on is \<open>lib_reads\<close>: the coding is inverted and free of dots, a digest is hexadecimal, and
  \<open>JSON.parse\<close> reads back what \<open>JSON.stringify\<close> wrote. The numbers of a checkpoint are integers.
\<close>

section \<open>Payments and their commitment\<close>

record payment_params =
  pp_recipient :: string
  pp_amount :: int
  pp_asset :: string
  pp_idempotency_key :: "string option"

definition commitment_line :: "string \<Rightarrow> int \<Rightarrow> string" where
  "commitment_line recipient amount = js_upper (js_trim recipient) @ '':'' @ int_string amount"

fun join_bars :: "string list \<Rightarrow> string" where
  "join_bars [] = []"
| "join_bars [x] = x"
| "join_bars (x # y # zs) = x @ ''|'' @ join_bars (y # zs)"

text \<open>\<open>normalized.sort()\<close> orders strings by their code units, the lexicographic order of the library.\<close>

definition compute_entries_commitment :: "(string \<Rightarrow> string) \<Rightarrow> (string \<times> int) list \<Rightarrow> string" where
  "compute_entries_commitment sha256 entries =
     (if entries = [] then sha256 ''empty_batch''
      else sha256 (join_bars (sort (map (\<lambda>(r, a). commitment_line r a) entries))))"

definition to_commitment_input :: "payment_params list \<Rightarrow> (string \<times> int) list" where
  "to_commitment_input entries = map (\<lambda>e. (pp_recipient e, pp_amount e)) entries"

section \<open>Checkpoints and tokens\<close>

record resume_checkpoint =
  rc_next_batch_index :: int
  rc_items_processed :: int
  rc_total_items :: int
  rc_total_batches :: int
  rc_batch_size :: int
  rc_entries_commitment :: string
  rc_created_at :: int

datatype json_field = JNum int | JText string | JOther

text \<open>The fields of a JSON object in their order; a text that is no object reads as \<open>None\<close>.\<close>

record token_lib =
  tl_sha256 :: "string \<Rightarrow> string"
  tl_to_base64url :: "string \<Rightarrow> string"
  tl_from_base64url :: "string \<Rightarrow> string"
  tl_json_parse :: "string \<Rightarrow> (string, json_field) dict option"

datatype resume_error = ResumeMalformed | EntriesMismatch | BatchSizeMismatch | ResumeOutOfRange | ResumePageSize

definition checkpoint_fields :: "resume_checkpoint \<Rightarrow> (string, json_field) dict" where
  "checkpoint_fields cp =
     [(''version'', JNum 1), (''nextBatchIndex'', JNum (rc_next_batch_index cp)),
      (''itemsProcessed'', JNum (rc_items_processed cp)), (''totalItems'', JNum (rc_total_items cp)),
      (''totalBatches'', JNum (rc_total_batches cp)), (''batchSize'', JNum (rc_batch_size cp)),
      (''entriesCommitment'', JText (rc_entries_commitment cp)), (''createdAt'', JNum (rc_created_at cp))]"

text \<open>\<open>JSON.stringify\<close> of numbers and of strings that need no escapes\<close>

definition json_field_text :: "json_field \<Rightarrow> string" where
  "json_field_text f =
     (case f of JNum n \<Rightarrow> int_string n | JText s \<Rightarrow> [CHR 0x22] @ s @ [CHR 0x22] | JOther \<Rightarrow> ''null'')"

fun json_members :: "(string, json_field) dict \<Rightarrow> string" where
  "json_members [] = []"
| "json_members [(k, f)] = [CHR 0x22] @ k @ [CHR 0x22] @ '':'' @ json_field_text f"
| "json_members ((k, f) # m # ms) = [CHR 0x22] @ k @ [CHR 0x22] @ '':'' @ json_field_text f @ '','' @ json_members (m # ms)"

definition stringify_checkpoint :: "resume_checkpoint \<Rightarrow> string" where
  "stringify_checkpoint cp = ''{'' @ json_members (checkpoint_fields cp) @ ''}''"

definition checksum_payload :: "token_lib \<Rightarrow> string \<Rightarrow> string" where
  "checksum_payload lib payload = take 16 (tl_sha256 lib payload)"

definition create_batch_resume_token ::
  "token_lib \<Rightarrow> int \<Rightarrow> payment_params list \<Rightarrow> int \<Rightarrow> int \<Rightarrow> int \<Rightarrow> int \<Rightarrow> string" where
  "create_batch_resume_token lib now entries next_batch items_processed total_batches batch_size =
     (let cp = \<lparr>rc_next_batch_index = next_batch, rc_items_processed = items_processed,
                rc_total_items = int (length entries), rc_total_batches = total_batches, rc_batch_size = batch_size,
                rc_entries_commitment = compute_entries_commitment (tl_sha256 lib) (to_commitment_input entries),
                rc_created_at = now\<rparr>;
          payload = stringify_checkpoint cp
      in ''zkbr1.'' @ tl_to_base64url lib payload @ ''.'' @ checksum_payload lib payload)"

definition num_field :: "(string, json_field) dict \<Rightarrow> string \<Rightarrow> int option" where
  "num_field d k = (case dict_get d k of Some (JNum n) \<Rightarrow> Some n | _ \<Rightarrow> None)"

definition text_field :: "(string, json_field) dict \<Rightarrow> string \<Rightarrow> string option" where
  "text_field d k = (case dict_get d k of Some (JText s) \<Rightarrow> Some s | _ \<Rightarrow> None)"

definition checkpoint_of_fields :: "(string, json_field) dict \<Rightarrow> resume_checkpoint option" where
  "checkpoint_of_fields d =
     (if num_field d ''version'' \<noteq> Some 1 then None
      else case (num_field d ''nextBatchIndex'', num_field d ''itemsProcessed'', num_field d ''totalItems'',
                 num_field d ''totalBatches'', num_field d ''batchSize'', text_field d ''entriesCommitment'',
                 num_field d ''createdAt'') of
        (Some n, Some i, Some t, Some b, Some s, Some c, Some at) \<Rightarrow>
          Some \<lparr>rc_next_batch_index = n, rc_items_processed = i, rc_total_items = t, rc_total_batches = b,
                rc_batch_size = s, rc_entries_commitment = c, rc_created_at = at\<rparr>
      | _ \<Rightarrow> None)"

definition decode_batch_resume_token :: "token_lib \<Rightarrow> string \<Rightarrow> (resume_error, resume_checkpoint) result" where
  "decode_batch_resume_token lib token =
     (if blank token then Inl ResumeMalformed
      else case js_split CHR ''.'' (js_trim token) of
        [tag, encoded, checksum] \<Rightarrow>
          if tag \<noteq> ''zkbr1'' then Inl ResumeMalformed
          else
            (let payload = tl_from_base64url lib encoded in
             if checksum_payload lib payload \<noteq> checksum then Inl ResumeMalformed
             else case tl_json_parse lib payload of
               None \<Rightarrow> Inl ResumeMalformed
             | Some flds \<Rightarrow>
                 (case checkpoint_of_fields flds of None \<Rightarrow> Inl ResumeMalformed | Some cp \<Rightarrow> Inr cp))
      | _ \<Rightarrow> Inl ResumeMalformed)"

record resume_start_point =
  rs_start_batch_index :: int
  rs_items_already_processed :: int
  rs_checkpoint :: resume_checkpoint

definition page_or_resume :: "(page_error, 'a) result \<Rightarrow> (resume_error, 'a) result" where
  "page_or_resume r = (case r of Inl _ \<Rightarrow> Inl ResumePageSize | Inr x \<Rightarrow> Inr x)"

definition resolve_resume_start ::
  "token_lib \<Rightarrow> payment_params list \<Rightarrow> jsnum option \<Rightarrow> string \<Rightarrow> (resume_error, resume_start_point) result" where
  "resolve_resume_start lib entries batch_size token =
     bind_result (page_or_resume (assert_valid_page_size batch_size)) (\<lambda>_.
     bind_result (decode_batch_resume_token lib token) (\<lambda>cp.
     bind_result (throw_if (compute_entries_commitment (tl_sha256 lib) (to_commitment_input entries)
         \<noteq> rc_entries_commitment cp) EntriesMismatch) (\<lambda>_.
     bind_result (throw_if (number_or (int (length entries)) batch_size \<noteq> rc_batch_size cp) BatchSizeMismatch) (\<lambda>_.
     bind_result (page_or_resume (iterate_batches entries batch_size)) (\<lambda>batches.
     bind_result (throw_if (rc_next_batch_index cp < 0 \<or> rc_next_batch_index cp > int (length batches))
         ResumeOutOfRange) (\<lambda>_.
     Inr \<lparr>rs_start_batch_index = rc_next_batch_index cp, rs_items_already_processed = rc_items_processed cp,
          rs_checkpoint = cp\<rparr>))))))"

section \<open>Facts about commitments and tokens\<close>

lemma commitment_reordered:
  assumes "mset es = mset fs"
  shows "compute_entries_commitment sha256 es = compute_entries_commitment sha256 fs"
proof -
  let ?f = "\<lambda>(r, a). commitment_line r a"
  have "mset (map ?f es) = mset (map ?f fs)" using assms by simp
  then have "sort (map ?f es) = sort (map ?f fs)" by (metis properties_for_sort mset_sort sorted_sort)
  moreover have "es = [] \<longleftrightarrow> fs = []" using assms by (metis mset_zero_iff)
  ultimately show ?thesis by (simp add: compute_entries_commitment_def)
qed

definition hex_digest :: "string \<Rightarrow> bool" where
  "hex_digest d \<longleftrightarrow> length d = 64 \<and> list_all (\<lambda>c. c \<in> set ''0123456789abcdef'') d"

definition lib_reads :: "token_lib \<Rightarrow> resume_checkpoint \<Rightarrow> bool" where
  "lib_reads lib cp \<longleftrightarrow>
     (let payload = stringify_checkpoint cp in
      tl_from_base64url lib (tl_to_base64url lib payload) = payload \<and>
      CHR ''.'' \<notin> set (tl_to_base64url lib payload) \<and>
      tl_json_parse lib payload = Some (checkpoint_fields cp) \<and>
      hex_digest (tl_sha256 lib payload))"

lemma checkpoint_of_checkpoint_fields [simp]: "checkpoint_of_fields (checkpoint_fields cp) = Some cp"
  by (simp add: checkpoint_of_fields_def checkpoint_fields_def num_field_def text_field_def)

lemma hex_checksum:
  assumes "hex_digest d"
  shows "take 16 d \<noteq> []" "CHR ''.'' \<notin> set (take 16 d)" "\<forall>c \<in> set (take 16 d). \<not> js_space c"
proof -
  have s: "c \<in> set ''0123456789abcdef''" if "c \<in> set (take 16 d)" for c
    using that assms in_set_takeD [of c 16 d] by (auto simp: hex_digest_def list_all_iff)
  show "take 16 d \<noteq> []" using assms by (auto simp: hex_digest_def)
  show "CHR ''.'' \<notin> set (take 16 d)" using s by fastforce
  have "\<forall>c \<in> set ''0123456789abcdef''. \<not> js_space c" by (simp add: js_space_def)
  with s show "\<forall>c \<in> set (take 16 d). \<not> js_space c" by blast
qed

lemma decode_built_token:
  assumes "lib_reads lib cp" "payload = stringify_checkpoint cp"
  shows "decode_batch_resume_token lib
    (''zkbr1.'' @ tl_to_base64url lib payload @ ''.'' @ checksum_payload lib payload) = Inr cp"
proof -
  let ?c = "checksum_payload lib payload" and ?e = "tl_to_base64url lib payload"
  let ?t = "''zkbr1.'' @ ?e @ ''.'' @ ?c"
  have r: "tl_from_base64url lib ?e = payload" "CHR ''.'' \<notin> set ?e"
      "tl_json_parse lib payload = Some (checkpoint_fields cp)" "hex_digest (tl_sha256 lib payload)"
    using assms by (simp_all add: lib_reads_def Let_def)
  note c = hex_checksum [OF r(4), folded checksum_payload_def]
  have "last ?t = last ?c" using c(1) by simp
  then have "\<not> js_space (last ?t)" using c(1,3) by simp
  then have trim: "js_trim ?t = ?t" by (intro js_trim_no_space_ends) (simp add: js_space_def)
  have "js_split CHR ''.'' ?t = ''zkbr1'' # js_split CHR ''.'' (?e @ CHR ''.'' # ?c)"
    using js_split_append [of "CHR ''.''" "''zkbr1''" "?e @ CHR ''.'' # ?c"] by simp
  also have "\<dots> = [''zkbr1'', ?e, ?c]" using r(2) c(2) by (simp add: js_split_append js_split_no_sep)
  finally have "js_split CHR ''.'' ?t = [''zkbr1'', ?e, ?c]" .
  with trim r show ?thesis by (simp add: decode_batch_resume_token_def blank_def Let_def)
qed

section \<open>Properties\<close>

definition built_checkpoint ::
  "token_lib \<Rightarrow> int \<Rightarrow> payment_params list \<Rightarrow> int \<Rightarrow> int \<Rightarrow> int \<Rightarrow> int \<Rightarrow> resume_checkpoint" where
  "built_checkpoint lib now es next_batch items_processed batches batch_size =
     \<lparr>rc_next_batch_index = next_batch, rc_items_processed = items_processed, rc_total_items = int (length es),
      rc_total_batches = batches, rc_batch_size = batch_size,
      rc_entries_commitment = compute_entries_commitment (tl_sha256 lib) (to_commitment_input es),
      rc_created_at = now\<rparr>"

lemma decode_created_token:
  "lib_reads lib (built_checkpoint lib now es k i b s) \<Longrightarrow>
   decode_batch_resume_token lib (create_batch_resume_token lib now es k i b s) = Inr (built_checkpoint lib now es k i b s)"
  using decode_built_token [of lib "built_checkpoint lib now es k i b s" "stringify_checkpoint (built_checkpoint lib now es k i b s)"]
  by (simp add: create_batch_resume_token_def built_checkpoint_def Let_def)

lemma number_of_batches:
  assumes "0 < n"
  shows "\<exists>bs. iterate_batches xs (Some (Whole n)) = Inr bs \<and> int (length bs) = total_pages (int (length xs)) n"
  using assms total_pages_pos [of n "int (length xs)"]
  by (simp add: iterate_batches_def assert_valid_page_size_def number_or_def Let_def)

lemma token_accepted:
  assumes "lib_reads lib (built_checkpoint lib now es k i b n)" "0 < n"
    and "mset (to_commitment_input fs) = mset (to_commitment_input es)"
    and "0 \<le> k" "k \<le> total_pages (int (length es)) n"
  shows "\<exists>r. resolve_resume_start lib fs (Some (Whole n)) (create_batch_resume_token lib now es k i b n) = Inr r \<and>
    rs_start_batch_index r = k \<and> rs_items_already_processed r = i"
proof -
  obtain bs where bs: "iterate_batches fs (Some (Whole n)) = Inr bs" "int (length bs) = total_pages (int (length fs)) n"
    using number_of_batches [OF assms(2)] by blast
  have v: "assert_valid_page_size (Some (Whole n)) = Inr ()" using assms(2) by (simp add: valid_page_size_iff)
  have "length (to_commitment_input fs) = length (to_commitment_input es)" using assms(3) by (metis size_mset)
  then have "length fs = length es" by (simp add: to_commitment_input_def)
  then show ?thesis
    using bs v decode_created_token [OF assms(1)] commitment_reordered [OF assms(3)] assms(4,5)
    by (simp add: resolve_resume_start_def page_or_resume_def number_or_def built_checkpoint_def)
qed

lemma token_accepts_own_entries:
  assumes "lib_reads lib (built_checkpoint lib now es k i b n)" "0 < n" "0 \<le> k" "k \<le> total_pages (int (length es)) n"
  shows "\<exists>r. resolve_resume_start lib es (Some (Whole n)) (create_batch_resume_token lib now es k i b n) = Inr r \<and>
    rs_start_batch_index r = k \<and> rs_items_already_processed r = i"
  by (rule token_accepted [OF assms(1,2) refl assms(3,4)])

text \<open>
  presenting a token for a collection \<open>fs\<close> and a batch size is decided by the commitments, then by the
  batch sizes, then by the range of the batch index; if all agree, it gives back the batch index and the item
  count the token was made with.
\<close>

theorem token_resolution:
  assumes "lib_reads lib (built_checkpoint lib now es k i b s)" "0 < n"
  shows "map_sum id (\<lambda>r. (rs_start_batch_index r, rs_items_already_processed r))
      (resolve_resume_start lib fs (Some (Whole n)) (create_batch_resume_token lib now es k i b s)) =
    (if compute_entries_commitment (tl_sha256 lib) (to_commitment_input fs)
         \<noteq> compute_entries_commitment (tl_sha256 lib) (to_commitment_input es) then Inl EntriesMismatch
     else if n \<noteq> s then Inl BatchSizeMismatch
     else if k < 0 \<or> k > total_pages (int (length fs)) n then Inl ResumeOutOfRange
     else Inr (k, i))"
proof -
  obtain bs where bs: "iterate_batches fs (Some (Whole n)) = Inr bs" "int (length bs) = total_pages (int (length fs)) n"
    using number_of_batches [OF assms(2)] by blast
  have v: "assert_valid_page_size (Some (Whole n)) = Inr ()" using assms(2) by (simp add: valid_page_size_iff)
  show ?thesis
    using bs v decode_created_token [OF assms(1)]
    by (simp add: resolve_resume_start_def page_or_resume_def number_or_def built_checkpoint_def)
qed

text \<open>
  a token is accepted for any reordering of the entries it was made for, and for entries that differ in
  their asset or idempotency key only: the commitment is taken over the sorted recipients and amounts.
\<close>

theorem token_accepts_reordered_entries:
  assumes "lib_reads lib (built_checkpoint lib now es k i b n)" "0 < n"
    and "mset (to_commitment_input fs) = mset (to_commitment_input es)"
    and "0 \<le> k" "k \<le> total_pages (int (length es)) n"
  shows "\<exists>r. resolve_resume_start lib fs (Some (Whole n)) (create_batch_resume_token lib now es k i b n) = Inr r \<and>
    rs_start_batch_index r = k \<and> rs_items_already_processed r = i"
  by (rule token_accepted [OF assms])

definition example_entries :: "payment_params list" where
  "example_entries =
     [\<lparr>pp_recipient = ''GA'', pp_amount = 5, pp_asset = ''native'', pp_idempotency_key = None\<rparr>,
      \<lparr>pp_recipient = ''GB'', pp_amount = 7, pp_asset = ''native'', pp_idempotency_key = None\<rparr>]"

definition example_sha :: "string \<Rightarrow> string" where
  "example_sha s = replicate 63 CHR ''0'' @ [if hd s = CHR ''{'' then CHR ''1'' else CHR ''2'']"

definition example_checkpoint :: resume_checkpoint where
  "example_checkpoint =
     \<lparr>rc_next_batch_index = 1, rc_items_processed = 1, rc_total_items = 2, rc_total_batches = 2, rc_batch_size = 1,
      rc_entries_commitment = example_sha ''G'', rc_created_at = 3\<rparr>"

definition example_lib :: token_lib where
  "example_lib =
     \<lparr>tl_sha256 = example_sha, tl_to_base64url = id, tl_from_base64url = id,
      tl_json_parse = (\<lambda>s. if s = stringify_checkpoint example_checkpoint then Some (checkpoint_fields example_checkpoint)
                           else None)\<rparr>"

lemma example_commitment:
  "compute_entries_commitment example_sha (to_commitment_input example_entries) = example_sha ''G''"
  by code_simp

lemma example_built: "built_checkpoint example_lib 3 example_entries 1 1 2 1 = example_checkpoint"
  using example_commitment
  by (simp add: built_checkpoint_def example_checkpoint_def example_lib_def example_entries_def)

lemma example_lib_reads: "lib_reads example_lib example_checkpoint"
proof -
  have "CHR ''.'' \<notin> set (stringify_checkpoint example_checkpoint)" by code_simp
  moreover have "hex_digest (example_sha (stringify_checkpoint example_checkpoint))" by code_simp
  ultimately show ?thesis by (simp add: lib_reads_def example_lib_def Let_def)
qed

theorem token_resolution_witness:
  "map_sum id (\<lambda>r. (rs_start_batch_index r, rs_items_already_processed r))
     (resolve_resume_start example_lib example_entries (Some (Whole 1))
       (create_batch_resume_token example_lib 3 example_entries 1 1 2 1)) = Inr (1, 1)"
proof -
  have "lib_reads example_lib (built_checkpoint example_lib 3 example_entries 1 1 2 1)"
    by (simp only: example_built example_lib_reads)
  from token_resolution [OF this, of 1 example_entries] show ?thesis
    by (simp add: total_pages_def ceil_div_def example_entries_def)
qed

theorem token_accepts_reordered_entries_witness:
  "\<exists>r. resolve_resume_start example_lib (rev example_entries) (Some (Whole 1))
       (create_batch_resume_token example_lib 3 example_entries 1 1 2 1) = Inr r \<and> rs_start_batch_index r = 1"
proof -
  have "lib_reads example_lib (built_checkpoint example_lib 3 example_entries 1 1 2 1)"
    by (simp only: example_built example_lib_reads)
  moreover have "mset (to_commitment_input (rev example_entries)) = mset (to_commitment_input example_entries)"
    by (simp add: to_commitment_input_def flip: rev_map)
  moreover have "(1::int) \<le> total_pages (int (length example_entries)) 1"
    by (simp add: total_pages_def ceil_div_def example_entries_def)
  ultimately show ?thesis
    using token_accepts_reordered_entries [of example_lib 3 example_entries 1 1 2 1 "rev example_entries"] by auto
qed

end
