(* ===== verification/Retry.thy ===== *)
theory Retry
  imports Prelude
begin

text \<open>
  Error classification and retry loops (\<open>packages/core/src/core/retry.ts\<close>, \<open>retry-budget.ts\<close>). A loop runs
  against an environment: what each attempt gives, what the clock, the abort signal, the sleeper and the
  random source answer at each of its questions. Its result is a trace: how often the operation was
  called, the delays slept and how it ended. Delays and backoff factors are integers; the reasons of
  decisions and the messages of errors are left out.
\<close>

section \<open>Classification\<close>

datatype contract_error_code =
  SIMULATION_FAILED | TRANSACTION_SUBMISSION_FAILED | TRANSACTION_TIMEOUT | RPC_TIMEOUT | INSUFFICIENT_FEE
| CONTRACT_REVERT | INVALID_RESPONSE | UNKNOWN_RPC_ERROR

text \<open>What may be thrown, by the first class of the code's tests it is an instance of.\<close>

datatype thrown =
  NetworkErr "int option"
| ContractErr contract_error_code
| ProofErr
| ValidationErr
| BatchValidationErr
| SdkErr string
| GenericErr string string \<comment> \<open>name and message\<close>
| NonError

datatype retry_category = RETRYABLE | NON_RETRYABLE | UNKNOWN

record retry_decision =
  rd_category :: retry_category
  rd_retryable :: bool

definition decision :: "retry_category \<Rightarrow> retry_decision" where
  "decision c = \<lparr>rd_category = c, rd_retryable = (c = RETRYABLE)\<rparr>"

definition classify_network_error :: "int option \<Rightarrow> retry_decision" where
  "classify_network_error status =
     (case status of
        None \<Rightarrow> decision RETRYABLE
      | Some code \<Rightarrow>
          if code \<ge> 500 then decision RETRYABLE
          else if code = 429 then decision RETRYABLE
          else if code \<ge> 400 then decision NON_RETRYABLE
          else decision UNKNOWN)"

definition classify_contract_error :: "contract_error_code \<Rightarrow> retry_decision" where
  "classify_contract_error code =
     (case code of
        SIMULATION_FAILED \<Rightarrow> decision RETRYABLE
      | TRANSACTION_SUBMISSION_FAILED \<Rightarrow> decision RETRYABLE
      | TRANSACTION_TIMEOUT \<Rightarrow> decision RETRYABLE
      | INSUFFICIENT_FEE \<Rightarrow> decision NON_RETRYABLE
      | CONTRACT_REVERT \<Rightarrow> decision NON_RETRYABLE
      | _ \<Rightarrow> decision UNKNOWN)"

text \<open>The patterns of transient network failures, searched without regard to case: a word, or two words
  with any space between.\<close>

fun spaced_in :: "string \<Rightarrow> string \<Rightarrow> string \<Rightarrow> bool" where
  "spaced_in p q [] = (p = [] \<and> q = [])"
| "spaced_in p q (c # cs) =
     ((is_prefix p (c # cs) \<and> is_prefix q (dropWhile js_space (drop (length p) (c # cs)))) \<or> spaced_in p q cs)"

definition network_words :: "string list" where
  "network_words = [''econnrefused'', ''econnreset'', ''etimedout'', ''enotfound'', ''eai_again'', ''network'',
     ''timeout'', ''connection'', ''socket'']"

definition matches_network_pattern :: "string \<Rightarrow> bool" where
  "matches_network_pattern msg =
     (let m = js_lower msg in
      list_ex (\<lambda>w. occurs_in w m) network_words \<or> spaced_in ''timed'' ''out'' m \<or> spaced_in ''request'' ''failed'' m)"

definition classify_generic_error :: "string \<Rightarrow> string \<Rightarrow> retry_decision" where
  "classify_generic_error name msg =
     (if matches_network_pattern msg then decision RETRYABLE
      else if name = ''AbortError'' \<or> name = ''TimeoutError'' then decision RETRYABLE
      else decision UNKNOWN)"

definition classify_error :: "thrown \<Rightarrow> retry_decision" where
  "classify_error e =
     (case e of
        NetworkErr status \<Rightarrow> classify_network_error status
      | ContractErr code \<Rightarrow> classify_contract_error code
      | ProofErr \<Rightarrow> decision NON_RETRYABLE
      | ValidationErr \<Rightarrow> decision NON_RETRYABLE
      | BatchValidationErr \<Rightarrow> decision NON_RETRYABLE
      | SdkErr _ \<Rightarrow> decision UNKNOWN
      | GenericErr name msg \<Rightarrow> classify_generic_error name msg
      | NonError \<Rightarrow> decision UNKNOWN)"

abbreviation permanent :: "thrown \<Rightarrow> bool" where
  "permanent e \<equiv> rd_category (classify_error e) = NON_RETRYABLE"

section \<open>Budgets\<close>

datatype retry_operation_type = OpRead | OpWrite | OpPoll

record retry_budget =
  rb_max_attempts :: int
  rb_initial_delay :: int
  rb_backoff_factor :: int
  rb_max_delay :: int
  rb_jitter :: int
  rb_timeout :: "int option"
  rb_idempotency_required :: bool

record budget_overrides =
  bo_max_attempts :: "int option"
  bo_initial_delay :: "int option"
  bo_backoff_factor :: "int option"
  bo_max_delay :: "int option"
  bo_jitter :: "int option"
  bo_timeout :: "int option"
  bo_idempotency_required :: "bool option"

definition default_retry_budget :: "retry_operation_type \<Rightarrow> retry_budget" where
  "default_retry_budget op =
     \<lparr>rb_max_attempts = (if op = OpWrite then 1 else 3), rb_initial_delay = 100, rb_backoff_factor = 2,
      rb_max_delay = 1600, rb_jitter = 0, rb_timeout = None, rb_idempotency_required = (op = OpWrite)\<rparr>"

definition pick :: "'a option \<Rightarrow> 'a \<Rightarrow> 'a" where
  "pick x d = (case x of None \<Rightarrow> d | Some v \<Rightarrow> v)"

definition override_budget :: "budget_overrides \<Rightarrow> retry_budget \<Rightarrow> retry_budget" where
  "override_budget ov b =
     \<lparr>rb_max_attempts = pick (bo_max_attempts ov) (rb_max_attempts b),
      rb_initial_delay = pick (bo_initial_delay ov) (rb_initial_delay b),
      rb_backoff_factor = pick (bo_backoff_factor ov) (rb_backoff_factor b),
      rb_max_delay = pick (bo_max_delay ov) (rb_max_delay b),
      rb_jitter = pick (bo_jitter ov) (rb_jitter b),
      rb_timeout = (case bo_timeout ov of None \<Rightarrow> rb_timeout b | Some t \<Rightarrow> Some t),
      rb_idempotency_required = pick (bo_idempotency_required ov) (rb_idempotency_required b)\<rparr>"

definition resolve_retry_budget ::
  "retry_operation_type \<Rightarrow> (retry_operation_type \<Rightarrow> budget_overrides option) \<Rightarrow> budget_overrides option \<Rightarrow> retry_budget" where
  "resolve_retry_budget op budgets overrides =
     (let b1 = (case budgets op of None \<Rightarrow> default_retry_budget op | Some x \<Rightarrow> override_budget x (default_retry_budget op))
      in case overrides of None \<Rightarrow> b1 | Some x \<Rightarrow> override_budget x b1)"

text \<open>\<open>random n\<close> stands for \<open>Math.floor(random() * n)\<close>.\<close>

definition compute_backoff_delay :: "int \<Rightarrow> retry_budget \<Rightarrow> (int \<Rightarrow> int) \<Rightarrow> int" where
  "compute_backoff_delay attempt b random =
     (let index = max 1 attempt;
          exponential = rb_initial_delay b * rb_backoff_factor b ^ nat (index - 1);
          capped = min exponential (rb_max_delay b);
          jitter = (if rb_jitter b > 0 then random (rb_jitter b + 1) else 0)
      in capped + jitter)"

section \<open>The loop under a budget\<close>

datatype 'a attempt_outcome = Returned 'a | Threw thrown | TimedOut

text \<open>The questions are numbered by the attempt they belong to: the abort signal is asked before an
  attempt, after a failed one and after an interrupted sleep, the clock before an attempt and before the
  backoff; \<open>TimedOut\<close> is possible only where a per-attempt timeout is set.\<close>

record 'a retry_env =
  en_attempt :: "nat \<Rightarrow> 'a attempt_outcome"
  en_aborted_first :: bool
  en_aborted_before :: "nat \<Rightarrow> bool"
  en_aborted_after :: "nat \<Rightarrow> bool"
  en_aborted_sleeping :: "nat \<Rightarrow> bool"
  en_started_at :: int
  en_now_before :: "nat \<Rightarrow> int"
  en_now_backoff :: "nat \<Rightarrow> int"
  en_sleep_fails :: "nat \<Rightarrow> thrown option"
  en_random :: "nat \<Rightarrow> int \<Rightarrow> int"

datatype 'a retry_outcome =
  Success 'a
| Rethrown thrown
| Exhausted nat bool bool \<comment> \<open>attempts made, retry refused, deadline exceeded\<close>
| Cancelled

record 'a retry_trace =
  rt_calls :: nat
  rt_delays :: "int list"
  rt_outcome :: "'a retry_outcome"

definition past_deadline :: "int option \<Rightarrow> int \<Rightarrow> bool" where
  "past_deadline timeout elapsed = (case timeout of None \<Rightarrow> False | Some t \<Rightarrow> elapsed \<ge> t)"

text \<open>\<open>left\<close> attempts remain, the next one has number \<open>n\<close>.\<close>

fun budget_loop ::
  "retry_budget \<Rightarrow> bool \<Rightarrow> 'a retry_env \<Rightarrow> nat \<Rightarrow> nat \<Rightarrow> nat \<Rightarrow> int list \<Rightarrow> 'a retry_trace" where
  "budget_loop b refused env 0 n calls delays =
     \<lparr>rt_calls = calls, rt_delays = delays, rt_outcome = Exhausted (n - 1) refused False\<rparr>"
| "budget_loop b refused env (Suc left) n calls delays =
     (if en_aborted_before env n then \<lparr>rt_calls = calls, rt_delays = delays, rt_outcome = Cancelled\<rparr>
      else if past_deadline (rb_timeout b) (en_now_before env n - en_started_at env) then
        \<lparr>rt_calls = calls, rt_delays = delays, rt_outcome = Exhausted (n - 1) refused True\<rparr>
      else
        (let failed = (\<lambda>_ :: unit.
           if left = 0 then
             \<lparr>rt_calls = Suc calls, rt_delays = delays, rt_outcome = Exhausted n refused False\<rparr>
           else
             (let delay = compute_backoff_delay (int n) b (en_random env n) in
              if past_deadline (rb_timeout b) (en_now_backoff env n - en_started_at env + delay) then
                \<lparr>rt_calls = Suc calls, rt_delays = delays, rt_outcome = Exhausted n refused True\<rparr>
              else case en_sleep_fails env n of
                Some e \<Rightarrow> \<lparr>rt_calls = Suc calls, rt_delays = delays @ [delay],
                   rt_outcome = (if en_aborted_sleeping env n then Cancelled else Rethrown e)\<rparr>
              | None \<Rightarrow> budget_loop b refused env left (Suc n) (Suc calls) (delays @ [delay])))
         in case en_attempt env n of
              Returned v \<Rightarrow> \<lparr>rt_calls = Suc calls, rt_delays = delays, rt_outcome = Success v\<rparr>
            | TimedOut \<Rightarrow> failed ()
            | Threw e \<Rightarrow>
                if en_aborted_after env n then \<lparr>rt_calls = Suc calls, rt_delays = delays, rt_outcome = Cancelled\<rparr>
                else if left \<noteq> 0 \<and> permanent e then
                  \<lparr>rt_calls = Suc calls, rt_delays = delays, rt_outcome = Rethrown e\<rparr>
                else failed ()))"

definition with_retry_budget :: "retry_budget \<Rightarrow> string option \<Rightarrow> 'a retry_env \<Rightarrow> 'a retry_trace" where
  "with_retry_budget b key env =
     (let has_key = truthy (map_option js_trim key);
          refused = (rb_idempotency_required b \<and> \<not> has_key);
          max_attempts = (if refused then 1 else max 1 (rb_max_attempts b)) in
      if en_aborted_first env then \<lparr>rt_calls = 0, rt_delays = [], rt_outcome = Cancelled\<rparr>
      else budget_loop b refused env (nat max_attempts) 1 0 [])"

section \<open>The plain loop\<close>

record retry_options =
  ro_attempts :: "int option"
  ro_delay :: "int option"
  ro_factor :: "int option"
  ro_timeout :: "int option"

datatype 'a plain_outcome = PlainSuccess 'a | PlainThrown thrown | ThrewUndefined | RetryTimeout

text \<open>The plain loop throws the last error, which is undefined before the first; an attempt gives a value or
  an error.\<close>

fun retry_loop ::
  "int option \<Rightarrow> int \<Rightarrow> (nat \<Rightarrow> thrown + 'a) \<Rightarrow> (nat \<Rightarrow> int) \<Rightarrow> (nat \<Rightarrow> int) \<Rightarrow> nat \<Rightarrow> nat \<Rightarrow> int \<Rightarrow> thrown option \<Rightarrow> nat
   \<Rightarrow> 'a plain_outcome \<times> nat" where
  "retry_loop timeout factor attempt elapsed_before elapsed_backoff 0 n delay last_error calls =
     ((case last_error of None \<Rightarrow> ThrewUndefined | Some e \<Rightarrow> PlainThrown e), calls)"
| "retry_loop timeout factor attempt elapsed_before elapsed_backoff (Suc left) n delay last_error calls =
     (if past_deadline timeout (elapsed_before n) then
        ((case last_error of None \<Rightarrow> RetryTimeout | Some e \<Rightarrow> PlainThrown e), calls)
      else case attempt n of
        Inr v \<Rightarrow> (PlainSuccess v, Suc calls)
      | Inl e \<Rightarrow>
          if left = 0 then (PlainThrown e, Suc calls)
          else if permanent e then (PlainThrown e, Suc calls)
          else if past_deadline timeout (elapsed_backoff n + delay) then (PlainThrown e, Suc calls)
          else retry_loop timeout factor attempt elapsed_before elapsed_backoff left (Suc n) (delay * factor)
                 (Some e) (Suc calls))"

definition with_retry ::
  "(nat \<Rightarrow> thrown + 'a) \<Rightarrow> (nat \<Rightarrow> int) \<Rightarrow> (nat \<Rightarrow> int) \<Rightarrow> retry_options \<Rightarrow> 'a plain_outcome \<times> nat" where
  "with_retry attempt elapsed_before elapsed_backoff opts =
     retry_loop (ro_timeout opts) (pick (ro_factor opts) 2) attempt elapsed_before elapsed_backoff
       (nat (pick (ro_attempts opts) 3)) 1 (pick (ro_delay opts) 100) None 0"

section \<open>Properties\<close>

lemma budget_loop_calls:
  "calls \<le> rt_calls (budget_loop b refused env left n calls delays) \<and>
   rt_calls (budget_loop b refused env left n calls delays) \<le> calls + left"
proof (induction left arbitrary: n calls delays)
  case (Suc left)
  note IH = Suc.IH [where n = "Suc n" and calls = "Suc calls"
      and delays = "delays @ [compute_backoff_delay (int n) b (en_random env n)]"]
  then show ?case
    by (auto simp: Let_def split: attempt_outcome.split option.split)
qed simp

lemma backoff_bounded:
  assumes "\<And>k. 0 < k \<Longrightarrow> 0 \<le> random k \<and> random k < k"
  shows "compute_backoff_delay n b random \<le> rb_max_delay b + max 0 (rb_jitter b)"
  using assms [of "rb_jitter b + 1"] by (auto simp: compute_backoff_delay_def Let_def)

lemma budget_loop_delays:
  assumes r: "\<And>n k. 0 < k \<Longrightarrow> 0 \<le> en_random env n k \<and> en_random env n k < k"
    and "\<forall>d \<in> set delays. d \<le> rb_max_delay b + max 0 (rb_jitter b)"
  shows "\<forall>d \<in> set (rt_delays (budget_loop b refused env left n calls delays)). d \<le> rb_max_delay b + max 0 (rb_jitter b)"
  using assms(2)
proof (induction left arbitrary: n calls delays)
  case (Suc left)
  let ?d = "compute_backoff_delay (int n) b (en_random env n)"
  have "?d \<le> rb_max_delay b + max 0 (rb_jitter b)" using r by (rule backoff_bounded)
  with Suc.prems have all: "\<forall>d \<in> set (delays @ [?d]). d \<le> rb_max_delay b + max 0 (rb_jitter b)" by simp
  note IH = Suc.IH [OF all, where n = "Suc n" and calls = "Suc calls"]
  with all Suc.prems show ?case
    by (simp add: Let_def split: attempt_outcome.split option.split)
qed simp

text \<open>
  C34: under a budget the operation is called at most the budgeted number of times and never more than once
  when idempotency is required and no key is given, and no delay exceeds the cap by more than the jitter.
\<close>

theorem budget_bounds_calls_and_delays:
  assumes "\<And>n k. 0 < k \<Longrightarrow> 0 \<le> en_random env n k \<and> en_random env n k < k"
  shows "int (rt_calls (with_retry_budget b key env)) \<le> max 1 (rb_max_attempts b) \<and>
    (rb_idempotency_required b \<and> \<not> truthy (map_option js_trim key) \<longrightarrow> rt_calls (with_retry_budget b key env) \<le> 1) \<and>
    (\<forall>d \<in> set (rt_delays (with_retry_budget b key env)). d \<le> rb_max_delay b + max 0 (rb_jitter b))"
proof -
  note calls = budget_loop_calls [of 0 b _ env _ 1 "[]"]
  note delays = budget_loop_delays [of env "[]" b, OF assms, simplified]
  show ?thesis
    using calls [of True 1] calls [of False "nat (max 1 (rb_max_attempts b))"] delays
    by (auto simp: with_retry_budget_def Let_def)
qed

definition retried :: "'a attempt_outcome \<Rightarrow> bool" where
  "retried r = (case r of Returned _ \<Rightarrow> False | Threw e \<Rightarrow> \<not> permanent e | TimedOut \<Rightarrow> True)"

definition run_explained :: "'a retry_env \<Rightarrow> bool \<Rightarrow> 'a retry_trace \<Rightarrow> bool" where
  "run_explained env refused tr \<longleftrightarrow>
     (\<forall>i. 1 \<le> i \<and> i < rt_calls tr \<longrightarrow> retried (en_attempt env i)) \<and>
     (case rt_outcome tr of
        Success v \<Rightarrow> en_attempt env (rt_calls tr) = Returned v
      | Rethrown e \<Rightarrow> (permanent e \<and> en_attempt env (rt_calls tr) = Threw e) \<or> en_sleep_fails env (rt_calls tr) = Some e
      | Exhausted k r _ \<Rightarrow> k = rt_calls tr \<and> r = refused
      | Cancelled \<Rightarrow> True)"

lemma run_explained_record [simp]:
  "run_explained env refused \<lparr>rt_calls = c, rt_delays = ds, rt_outcome = x\<rparr> \<longleftrightarrow>
     (\<forall>i. 1 \<le> i \<and> i < c \<longrightarrow> retried (en_attempt env i)) \<and>
     (case x of
        Success v \<Rightarrow> en_attempt env c = Returned v
      | Rethrown e \<Rightarrow> (permanent e \<and> en_attempt env c = Threw e) \<or> en_sleep_fails env c = Some e
      | Exhausted k r _ \<Rightarrow> k = c \<and> r = refused
      | Cancelled \<Rightarrow> True)"
  by (cases x) (simp_all add: run_explained_def)

lemma budget_loop_explained:
  assumes "n = Suc calls" "\<forall>i. 1 \<le> i \<and> i \<le> calls \<longrightarrow> retried (en_attempt env i)"
  shows "run_explained env refused (budget_loop b refused env left n calls delays)"
  using assms
proof (induction left arbitrary: n calls delays)
  case 0
  then show ?case by (simp add: run_explained_def)
next
  case (Suc left)
  let ?d = "compute_backoff_delay (int n) b (en_random env n)"
  have next_ok: "run_explained env refused (budget_loop b refused env left (Suc n) (Suc calls) (delays @ [?d]))"
    if "retried (en_attempt env n)"
  proof (rule Suc.IH)
    show "\<forall>i. 1 \<le> i \<and> i \<le> Suc calls \<longrightarrow> retried (en_attempt env i)"
      using Suc.prems that by (auto simp: le_Suc_eq)
  qed (use Suc.prems in simp)
  have before: "\<forall>i. 1 \<le> i \<and> i < Suc calls \<longrightarrow> retried (en_attempt env i)" using Suc.prems by auto
  have before': "\<forall>i. 1 \<le> i \<and> i < calls \<longrightarrow> retried (en_attempt env i)" using Suc.prems by auto
  have n: "n = Suc calls" by (rule Suc.prems)
  show ?case
  proof (cases "en_attempt env n")
    case (Returned v)
    with before before' n show ?thesis by (simp add: Let_def)
  next
    case (Threw e)
    show ?thesis
    proof (cases "permanent e")
      case True
      with Threw before before' n show ?thesis by (cases "left = 0") (simp_all add: Let_def)
    next
      case False
      with Threw have "retried (en_attempt env n)" by (simp add: retried_def)
      from Threw False before before' n next_ok [OF this] show ?thesis by (simp add: Let_def split: option.split)
    qed
  next
    case TimedOut
    then have "retried (en_attempt env n)" by (simp add: retried_def)
    from TimedOut before before' n next_ok [OF this] show ?thesis by (simp add: Let_def split: option.split)
  qed
qed

text \<open>
  the end of a run under a budget says what happened: a success is the value of the last call, every
  earlier call having failed with an error that is not permanent, or timed out; a permanent error before
  the last attempt is rethrown at once; exhaustion reports the number of calls made.
\<close>


theorem run_is_explained:
  "run_explained env (rb_idempotency_required b \<and> \<not> truthy (map_option js_trim key)) (with_retry_budget b key env)"
proof -
  have "run_explained env r (budget_loop b r env l 1 0 [])" for r l
    by (rule budget_loop_explained) simp_all
  then show ?thesis by (simp add: with_retry_budget_def Let_def)
qed

lemma budget_loop_succeeds:
  assumes calm: "\<forall>i. \<not> en_aborted_before env i \<and> \<not> en_aborted_after env i \<and> en_sleep_fails env i = None"
    and "rb_timeout b = None" and k: "en_attempt env k = Returned v"
    and "n = Suc calls" "n \<le> k" "k < n + left" "\<forall>i. n \<le> i \<and> i < k \<longrightarrow> retried (en_attempt env i)"
  shows "rt_outcome (budget_loop b refused env left n calls delays) = Success v \<and>
    rt_calls (budget_loop b refused env left n calls delays) = k"
  using assms(4-7)
proof (induction left arbitrary: n calls delays)
  case (Suc left)
  let ?d = "compute_backoff_delay (int n) b (en_random env n)"
  show ?case
  proof (cases "n = k")
    case True
    with Suc.prems calm k assms(2) show ?thesis by (simp add: past_deadline_def Let_def)
  next
    case False
    then have lt: "n < k" using Suc.prems by simp
    with Suc.prems have r: "retried (en_attempt env n)" and l: "left \<noteq> 0" by auto
    have "budget_loop b refused env (Suc left) n calls delays =
        budget_loop b refused env left (Suc n) (Suc calls) (delays @ [?d])"
      using r l calm assms(2)
      by (cases "en_attempt env n") (simp_all add: retried_def past_deadline_def Let_def)
    moreover have "rt_outcome (budget_loop b refused env left (Suc n) (Suc calls) (delays @ [?d])) = Success v \<and>
        rt_calls (budget_loop b refused env left (Suc n) (Suc calls) (delays @ [?d])) = k"
      using Suc.prems lt by (intro Suc.IH) auto
    ultimately show ?thesis by simp
  qed
qed simp

text \<open>
  retrying works: with no abort, no deadline and a sleeper that does not fail, if the operation fails
  with retryable outcomes before its \<open>k\<close>-th call, \<open>k\<close> within the budget, and then returns, the run
  succeeds with that value after exactly \<open>k\<close> calls.
\<close>

theorem retrying_succeeds:
  assumes "\<forall>i. \<not> en_aborted_before env i \<and> \<not> en_aborted_after env i \<and> en_sleep_fails env i = None"
    and "\<not> en_aborted_first env" "rb_timeout b = None"
    and "rb_idempotency_required b \<longrightarrow> truthy (map_option js_trim key)"
    and "1 \<le> k" "int k \<le> max 1 (rb_max_attempts b)"
    and "\<forall>i. 1 \<le> i \<and> i < k \<longrightarrow> retried (en_attempt env i)" "en_attempt env k = Returned v"
  shows "rt_outcome (with_retry_budget b key env) = Success v \<and> rt_calls (with_retry_budget b key env) = k"
  using assms budget_loop_succeeds [of env b k v 1 0 "nat (max 1 (rb_max_attempts b))" False "[]"]
  by (auto simp: with_retry_budget_def Let_def)

definition example_env :: "nat retry_env" where
  "example_env = \<lparr>en_attempt = (\<lambda>i. if i < 3 then Threw (NetworkErr (Some 503)) else Returned 7),
     en_aborted_first = False, en_aborted_before = (\<lambda>_. False), en_aborted_after = (\<lambda>_. False),
     en_aborted_sleeping = (\<lambda>_. False), en_started_at = 0, en_now_before = (\<lambda>_. 0), en_now_backoff = (\<lambda>_. 0),
     en_sleep_fails = (\<lambda>_. None), en_random = (\<lambda>_ _. 0)\<rparr>"

theorem budget_bounds_calls_and_delays_witness:
  "rt_calls (with_retry_budget (default_retry_budget OpWrite) (Some '' '') example_env) \<le> 1"
proof -
  have "\<not> truthy (map_option js_trim (Some '' ''))" by code_simp
  with budget_bounds_calls_and_delays [of example_env "default_retry_budget OpWrite" "Some '' ''"]
  show ?thesis by (simp add: example_env_def default_retry_budget_def)
qed

theorem retrying_succeeds_witness:
  "rt_outcome (with_retry_budget (default_retry_budget OpRead) None example_env) = Success 7"
  using retrying_succeeds [of example_env "default_retry_budget OpRead" None 3 7]
  by (simp add: example_env_def default_retry_budget_def retried_def classify_error_def classify_network_error_def
      decision_def)

lemma retry_loop_calls:
  "calls \<le> snd (retry_loop timeout f attempt eb ef left n d last_error calls) \<and>
   snd (retry_loop timeout f attempt eb ef left n d last_error calls) \<le> calls + left"
proof (induction left arbitrary: n d last_error calls)
  case (Suc left)
  show ?case
  proof (cases "attempt n")
    case (Inl e)
    with Suc.IH [where n = "Suc n" and d = "d * f" and last_error = "Some e" and calls = "Suc calls"]
    show ?thesis by auto
  qed auto
qed simp

text \<open>
  the plain loop calls the operation at most \<open>attempts\<close> times, never again after a permanent error,
  and with no attempts at all it throws an undefined value without calling it.
\<close>


theorem plain_retry_bounds:
  "int (snd (with_retry attempt eb ef opts)) \<le> max 0 (pick (ro_attempts opts) 3) \<and>
   (pick (ro_attempts opts) 3 \<le> 0 \<longrightarrow> with_retry attempt eb ef opts = (ThrewUndefined, 0)) \<and>
   (\<forall>e. attempt 1 = Inl e \<and> permanent e \<longrightarrow> snd (with_retry attempt eb ef opts) \<le> 1)"
proof -
  let ?n = "nat (pick (ro_attempts opts) 3)"
  note calls = retry_loop_calls [of 0 "ro_timeout opts" "pick (ro_factor opts) 2" attempt eb ef ?n 1
      "pick (ro_delay opts) 100" None]
  have "snd (with_retry attempt eb ef opts) \<le> 1" if "attempt 1 = Inl e" "permanent e" for e
    using that by (cases ?n) (simp_all add: with_retry_def)
  then show ?thesis using calls by (auto simp: with_retry_def)
qed

theorem plain_retry_bounds_witness:
  "with_retry (\<lambda>_. Inr (1::nat)) (\<lambda>_. 0) (\<lambda>_. 0)
     \<lparr>ro_attempts = Some 0, ro_delay = None, ro_factor = None, ro_timeout = None\<rparr> = (ThrewUndefined, 0)"
  using plain_retry_bounds [of "\<lambda>_. Inr (1::nat)" "\<lambda>_. 0" "\<lambda>_. 0"
      "\<lparr>ro_attempts = Some 0, ro_delay = None, ro_factor = None, ro_timeout = None\<rparr>"]
  by (simp add: pick_def)

end
