(* ===== verification/PaymentGate.thy ===== *)
theory PaymentGate
  imports ResumeToken Retry
begin

text \<open>
  What a payment has to pass before it is proved and submitted: the built-in check of the destination
  (\<open>packages/core/src/employees/payoutDestination.ts\<close>), the gate with the registered hook
  (\<open>settlement/destination.ts\<close>), the checks of the parameters (\<open>core/validation.ts\<close>), the sanitizer of proof inputs
  (\<open>crypto/proofInputSanitizer.ts\<close>) and the builder of batch payloads (\<open>batch/BatchPayloadBuilder.ts\<close>). The checks of
  Stellar keys are parameters; recipients and assets are strings, as their types say.
\<close>

section \<open>Destinations\<close>

record strkeys =
  sk_account :: "string \<Rightarrow> bool"
  sk_muxed :: "string \<Rightarrow> bool"

datatype destination_kind = AccountKind | MuxedKind | LegacyKind | HookKind string

datatype destination_code =
  DestinationRequired | DestinationWhitespace | DestinationUnsupported | DestinationUnavailable | HookCode string

record destination_failure =
  df_code :: destination_code
  df_message :: string

definition validate_payout_destination :: "strkeys \<Rightarrow> string \<Rightarrow> (destination_failure, string \<times> destination_kind) result" where
  "validate_payout_destination keys value =
     (if value = [] then Inl \<lparr>df_code = DestinationRequired, df_message = ''Payout destination is required.''\<rparr>
      else if js_trim value \<noteq> value \<or> js_trim value = [] then
        Inl \<lparr>df_code = DestinationWhitespace, df_message = ''Payout destination must not contain surrounding whitespace.''\<rparr>
      else if sk_account keys (js_trim value) then Inr (js_trim value, AccountKind)
      else if sk_muxed keys (js_trim value) then Inr (js_trim value, MuxedKind)
      else Inl \<lparr>df_code = DestinationUnsupported,
        df_message = ''Payout destination must be a valid Stellar account or muxed account.''\<rparr>)"

text \<open>\<open>/^G[A-Z0-9.]+$/\<close>\<close>

definition legacy_reference :: "string \<Rightarrow> bool" where
  "legacy_reference s =
     (case s of
        c # d # cs \<Rightarrow> c = CHR ''G'' \<and> list_all (\<lambda>e. let n = (of_char e :: nat) in
          (65 \<le> n \<and> n \<le> 90) \<or> (48 \<le> n \<and> n \<le> 57) \<or> e = CHR ''.'') (d # cs)
      | _ \<Rightarrow> False)"

text \<open>What a registered hook answers, or that it throws\<close>

datatype hook_answer = HookOk "string option" | HookRejects string string "bool option" | HookThrows

datatype destination_state = Validated | Rejected | Unavailable

record workflow_failure = destination_failure +
  wf_state :: destination_state
  wf_retryable :: "bool option"

definition validate_payment_destination ::
  "strkeys \<Rightarrow> (string \<Rightarrow> hook_answer) option \<Rightarrow> string \<Rightarrow> (workflow_failure, string \<times> destination_kind) result" where
  "validate_payment_destination keys hook value =
     (let built_in = validate_payout_destination keys value;
          passed = (case built_in of Inr dk \<Rightarrow> Inr dk
            | Inl f \<Rightarrow> if legacy_reference value then Inr (value, LegacyKind)
                else Inl \<lparr>df_code = df_code f, df_message = df_message f, wf_state = Rejected, wf_retryable = None\<rparr>)
      in bind_result passed (\<lambda>(destination, kind).
        case hook of
          None \<Rightarrow> Inr (destination, kind)
        | Some h \<Rightarrow>
            (case h destination of
               HookThrows \<Rightarrow> Inl \<lparr>df_code = DestinationUnavailable,
                 df_message = ''Destination validation could not complete because the extension validator is unavailable. '' @
                   ''The payment was not submitted; resolve the validator and retry.'',
                 wf_state = Unavailable, wf_retryable = None\<rparr>
             | HookRejects code msg retryable \<Rightarrow>
                 Inl \<lparr>df_code = HookCode code, df_message = msg, wf_state = Rejected, wf_retryable = retryable\<rparr>
             | HookOk k \<Rightarrow> Inr (destination, (case k of None \<Rightarrow> kind | Some x \<Rightarrow> HookKind x)))))"

section \<open>Parameters of one payment\<close>

datatype payment_field = RecipientField | AmountField | AssetField

definition validate_payment_params :: "strkeys \<Rightarrow> payment_params \<Rightarrow> (payment_field \<times> string) list" where
  "validate_payment_params keys p =
     (case validate_payout_destination keys (pp_recipient p) of
        Inr _ \<Rightarrow> []
      | Inl f \<Rightarrow> if legacy_reference (pp_recipient p) then []
          else [(RecipientField, if df_code f = DestinationRequired then ''Recipient address is required'' else df_message f)]) @
     (if pp_amount p \<le> 0 then [(AmountField, ''Amount must be a positive value'')] else []) @
     (if pp_asset p = [] \<or> blank (pp_asset p) then [(AssetField, ''Asset identifier is required'')] else [])"

section \<open>Proof inputs\<close>

datatype witness_value = WString string | WBigint int | WNumber jsnum | WNull | WUndefined | WOther

type_synonym witness = "(string, witness_value) dict"

datatype proof_input_code = InvalidWitness | InvalidRecipient | InvalidAmount | InvalidAsset | ForbiddenField | MissingField

record sanitize_error =
  se_field :: string
  se_code :: proof_input_code

definition forbidden_witness_fields :: "string list" where
  "forbidden_witness_fields = [''privateKey'', ''secretKey'', ''secret'', ''password'', ''mnemonic'', ''seed'', ''apiKey'', ''api_key'',
     ''accessToken'', ''access_token'', ''refreshToken'', ''refresh_token'', ''signingKey'', ''adminKey'']"

definition normalize_amount :: "witness_value \<Rightarrow> string option" where
  "normalize_amount v =
     (case v of
        WString s \<Rightarrow> if js_trim s \<noteq> [] \<and> list_all is_digit (js_trim s) then Some (js_trim s) else None
      | WBigint n \<Rightarrow> if n < 0 then None else Some (int_string n)
      | WNumber (Whole n) \<Rightarrow> if n < 0 \<or> n > max_safe_integer then None else Some (int_string n)
      | _ \<Rightarrow> None)"

text \<open>\<open>raw !== undefined && raw !== null\<close>\<close>

definition present_field :: "witness \<Rightarrow> string \<Rightarrow> witness_value option" where
  "present_field w k =
     (case dict_get w k of None \<Rightarrow> None | Some WNull \<Rightarrow> None | Some WUndefined \<Rightarrow> None | Some v \<Rightarrow> Some v)"

definition text_errors :: "witness \<Rightarrow> string \<Rightarrow> proof_input_code \<Rightarrow> sanitize_error list" where
  "text_errors w k code =
     (case present_field w k of
        None \<Rightarrow> []
      | Some (WString s) \<Rightarrow> if blank s then [\<lparr>se_field = k, se_code = code\<rparr>] else []
      | Some _ \<Rightarrow> [\<lparr>se_field = k, se_code = code\<rparr>])"

definition amount_errors :: "witness \<Rightarrow> sanitize_error list" where
  "amount_errors w =
     (case present_field w ''amount'' of
        None \<Rightarrow> []
      | Some v \<Rightarrow> if normalize_amount v = None then [\<lparr>se_field = ''amount'', se_code = InvalidAmount\<rparr>] else [])"

definition forbidden_errors :: "witness \<Rightarrow> sanitize_error list" where
  "forbidden_errors w =
     map (\<lambda>k. \<lparr>se_field = k, se_code = ForbiddenField\<rparr>) (filter (\<lambda>k. k \<in> set forbidden_witness_fields) (map fst w))"

definition kept_text :: "witness \<Rightarrow> string \<Rightarrow> witness" where
  "kept_text w k = (case present_field w k of Some (WString s) \<Rightarrow> [(k, WString (js_trim s))] | _ \<Rightarrow> [])"

definition kept_amount :: "witness \<Rightarrow> witness" where
  "kept_amount w =
     (case present_field w ''amount'' of
        None \<Rightarrow> []
      | Some v \<Rightarrow> (case normalize_amount v of None \<Rightarrow> [] | Some s \<Rightarrow> [(''amount'', WString s)]))"

definition carried_fields :: "witness \<Rightarrow> witness" where
  "carried_fields w =
     filter (\<lambda>(k, v). k \<noteq> ''recipient'' \<and> k \<noteq> ''amount'' \<and> k \<noteq> ''asset'' \<and> k \<notin> set forbidden_witness_fields) w"

text \<open>\<open>None\<close> stands for a witness that is no object\<close>

definition sanitize_proof_input :: "witness option \<Rightarrow> (sanitize_error list, witness) result" where
  "sanitize_proof_input candidate =
     (case candidate of
        None \<Rightarrow> Inl [\<lparr>se_field = ''witness'', se_code = InvalidWitness\<rparr>]
      | Some w \<Rightarrow>
          let errors = forbidden_errors w @ text_errors w ''recipient'' InvalidRecipient @ amount_errors w @
                text_errors w ''asset'' InvalidAsset
          in if errors \<noteq> [] then Inl errors
             else Inr (kept_text w ''recipient'' @ kept_amount w @ kept_text w ''asset'' @ carried_fields w))"

definition payroll_required_fields :: "string list" where
  "payroll_required_fields = [''recipient'', ''amount'', ''asset'']"

definition missing_field :: "witness \<Rightarrow> string \<Rightarrow> bool" where
  "missing_field w k =
     (case present_field w k of None \<Rightarrow> True | Some (WString s) \<Rightarrow> blank s | Some _ \<Rightarrow> False)"

definition note_missing :: "witness \<Rightarrow> string \<Rightarrow> sanitize_error list \<Rightarrow> sanitize_error list" where
  "note_missing w k errors =
     (if missing_field w k \<and> \<not> list_ex (\<lambda>e. se_field e = k) errors
      then errors @ [\<lparr>se_field = k, se_code = MissingField\<rparr>] else errors)"

definition assert_valid_payroll_witness :: "witness \<Rightarrow> (sanitize_error, witness) result" where
  "assert_valid_payroll_witness w =
     (let result = sanitize_proof_input (Some w);
          errors = fold (note_missing w) payroll_required_fields (case result of Inl es \<Rightarrow> es | Inr _ \<Rightarrow> [])
      in case errors of
           e # es \<Rightarrow> Inl e
         | [] \<Rightarrow> (case result of Inl es \<Rightarrow> Inl \<lparr>se_field = [], se_code = InvalidWitness\<rparr> | Inr s \<Rightarrow> Inr s))"

section \<open>Batch payloads\<close>

datatype batch_error_code = EmptyBatch | BatchRecipient | BatchAmount | DuplicateRecipient | MissingAsset

record batch_validation_error =
  be_code :: batch_error_code
  be_at :: "nat option"

text \<open>The check of entry \<open>i\<close>; \<open>seen\<close> maps the recipients before it to where they first occur\<close>

definition recipient_errors :: "(string, nat) dict \<Rightarrow> nat \<Rightarrow> payment_params \<Rightarrow> batch_validation_error list" where
  "recipient_errors seen i p =
     (if pp_recipient p = [] \<or> blank (pp_recipient p) then [\<lparr>be_code = BatchRecipient, be_at = Some i\<rparr>]
      else if dict_get seen (pp_recipient p) \<noteq> None then [\<lparr>be_code = DuplicateRecipient, be_at = Some i\<rparr>] else [])"

definition see_recipient :: "nat \<Rightarrow> payment_params \<Rightarrow> (string, nat) dict \<Rightarrow> (string, nat) dict" where
  "see_recipient i p seen =
     (if pp_recipient p = [] \<or> blank (pp_recipient p) \<or> dict_get seen (pp_recipient p) \<noteq> None then seen
      else dict_put (pp_recipient p) i seen)"

definition entry_errors :: "nat \<Rightarrow> payment_params \<Rightarrow> batch_validation_error list" where
  "entry_errors i p =
     (if pp_amount p \<le> 0 then [\<lparr>be_code = BatchAmount, be_at = Some i\<rparr>] else []) @
     (if pp_asset p = [] \<or> blank (pp_asset p) then [\<lparr>be_code = MissingAsset, be_at = Some i\<rparr>] else [])"

fun batch_errors :: "(string, nat) dict \<Rightarrow> nat \<Rightarrow> payment_params list \<Rightarrow> batch_validation_error list" where
  "batch_errors seen i [] = []"
| "batch_errors seen i (p # ps) =
     recipient_errors seen i p @ entry_errors i p @ batch_errors (see_recipient i p seen) (Suc i) ps"

definition validate_batch_payload :: "payment_params list \<Rightarrow> batch_validation_error list" where
  "validate_batch_payload entries =
     (if entries = [] then [\<lparr>be_code = EmptyBatch, be_at = None\<rparr>] else batch_errors [] 0 entries)"

record batch_payload =
  bl_entries :: "payment_params list"
  bl_total_amount :: int

definition assert_valid_batch_payload :: "payment_params list \<Rightarrow> (batch_validation_error list, batch_payload) result" where
  "assert_valid_batch_payload entries =
     (let errors = validate_batch_payload entries in
      if errors \<noteq> [] then Inl errors
      else Inr \<lparr>bl_entries = entries, bl_total_amount = sum_list (map pp_amount entries)\<rparr>)"

section \<open>What the checks establish\<close>

lemma validate_payment_params_Nil:
  "validate_payment_params keys p = [] \<longleftrightarrow>
     ((\<exists>dk. validate_payout_destination keys (pp_recipient p) = Inr dk) \<or> legacy_reference (pp_recipient p)) \<and>
     0 < pp_amount p \<and> \<not> blank (pp_asset p)"
  by (auto simp: validate_payment_params_def split: sum.splits)

lemma validate_payment_destination_Inr:
  "validate_payment_destination keys hook s = Inr (d, k) \<Longrightarrow>
     d = s \<and> ((\<exists>dk. validate_payout_destination keys s = Inr dk) \<or> legacy_reference s) \<and>
     (\<forall>h. hook = Some h \<longrightarrow> (\<exists>x. h s = HookOk x))"
  by (auto simp: validate_payment_destination_def validate_payout_destination_def Let_def result_simps
      split: sum.splits if_splits option.splits hook_answer.splits)

lemma batch_errors_Nil:
  "batch_errors seen i ps = [] \<longleftrightarrow>
     distinct (map pp_recipient ps) \<and>
     (\<forall>p \<in> set ps. \<not> blank (pp_recipient p) \<and> 0 < pp_amount p \<and> \<not> blank (pp_asset p) \<and> dict_get seen (pp_recipient p) = None)"
proof (induction ps arbitrary: seen i)
  case (Cons p ps)
  have "dict_get (see_recipient i p seen) r = None \<longleftrightarrow> dict_get seen r = None \<and> r \<noteq> pp_recipient p"
    if "\<not> blank (pp_recipient p)" "dict_get seen (pp_recipient p) = None" for r
    using that by (auto simp: see_recipient_def update_conv')
  moreover have "recipient_errors seen i p = [] \<longleftrightarrow> \<not> blank (pp_recipient p) \<and> dict_get seen (pp_recipient p) = None"
    by (auto simp: recipient_errors_def)
  moreover have "entry_errors i p = [] \<longleftrightarrow> 0 < pp_amount p \<and> \<not> blank (pp_asset p)"
    by (auto simp: entry_errors_def)
  ultimately show ?case using Cons.IH [of "see_recipient i p seen" "Suc i"] by (auto simp: image_iff)
qed simp

lemma valid_batch_iff:
  "assert_valid_batch_payload ps = Inr b \<longleftrightarrow>
     ps \<noteq> [] \<and> distinct (map pp_recipient ps) \<and>
     (\<forall>p \<in> set ps. \<not> blank (pp_recipient p) \<and> 0 < pp_amount p \<and> \<not> blank (pp_asset p)) \<and>
     b = \<lparr>bl_entries = ps, bl_total_amount = sum_list (map pp_amount ps)\<rparr>"
  by (auto simp: assert_valid_batch_payload_def validate_batch_payload_def Let_def batch_errors_Nil)

end
