(* ===== verification/Idempotency.thy ===== *)
theory Idempotency
  imports Digits
begin

text \<open>
  The in-memory idempotency registry and the idempotency keys (\<open>packages/core/src/core/idempotency.ts\<close>).
  A call of \<open>execute\<close> runs up to its \<open>await\<close> when it is made and the rest when its promise settles; the two
  halves are separate steps, so that steps of other calls may come in between. Promises are numbered.
\<close>

section \<open>Keys\<close>

definition normalize_idempotency_key :: "string \<Rightarrow> string" where
  "normalize_idempotency_key key = js_trim key"

definition create_payment_idempotency_key :: "string \<Rightarrow> int \<Rightarrow> string \<Rightarrow> string" where
  "create_payment_idempotency_key recipient amt asset =
     ''pay:'' @ js_lower (js_trim recipient) @ '':'' @ int_string amt @ '':'' @ js_lower (js_trim asset)"

record payroll_key_input =
  pk_company :: string
  pk_period :: string
  pk_commitment :: string
  pk_asset :: string
  pk_treasury :: string

definition create_payroll_idempotency_key :: "payroll_key_input \<Rightarrow> string" where
  "create_payroll_idempotency_key x =
     ''payroll:'' @ js_trim (pk_company x) @ '':'' @ js_trim (pk_period x) @ '':'' @
     js_lower (js_trim (pk_commitment x)) @ '':'' @ js_lower (js_trim (pk_asset x)) @ '':'' @ js_trim (pk_treasury x)"

section \<open>Registry\<close>

record idempotency_entry =
  ie_promise :: nat
  ie_expires_at :: "int option"

text \<open>A call that waits for its promise: the promise, the key and the options it resolved.\<close>

record waiting_call =
  wc_promise :: nat
  wc_key :: string
  wc_ttl :: int
  wc_cache_errors :: bool

record idempotency_registry =
  ir_entries :: "(string, idempotency_entry) dict"
  ir_waiting :: "waiting_call list"
  ir_next :: nat
  ir_default_ttl :: int

definition new_registry :: "int option \<Rightarrow> idempotency_registry" where
  "new_registry ttl = \<lparr>ir_entries = [], ir_waiting = [], ir_next = 0,
     ir_default_ttl = (case ttl of None \<Rightarrow> 5 * 60 * 1000 | Some t \<Rightarrow> t)\<rparr>"

definition prune_expired :: "int \<Rightarrow> (string, idempotency_entry) dict \<Rightarrow> (string, idempotency_entry) dict" where
  "prune_expired now es =
     filter (\<lambda>(k, e). \<not> (case ie_expires_at e of None \<Rightarrow> False | Some t \<Rightarrow> t \<le> now)) es"

datatype idempotency_error = EmptyKey

text \<open>The first half: the promise returned, and whether the operation was called for it.\<close>

definition execute_start ::
  "int \<Rightarrow> string \<Rightarrow> int option \<Rightarrow> bool option \<Rightarrow> idempotency_registry
   \<Rightarrow> (idempotency_error, (nat \<times> bool) \<times> idempotency_registry) result" where
  "execute_start now key ttl_ms cache_errors r =
     (let k = normalize_idempotency_key key in
      bind_result (throw_if (k = []) EmptyKey) (\<lambda>_.
      let es = prune_expired now (ir_entries r) in
      case dict_get es k of
        Some e \<Rightarrow> Inr ((ie_promise e, False), r\<lparr>ir_entries := es\<rparr>)
      | None \<Rightarrow>
          let ttl = max 0 (case ttl_ms of None \<Rightarrow> ir_default_ttl r | Some t \<Rightarrow> t); p = ir_next r in
          Inr ((p, True),
            r\<lparr>ir_entries := dict_put k \<lparr>ie_promise = p, ie_expires_at = (if ttl > 0 then Some (now + ttl) else None)\<rparr> es,
              ir_waiting := ir_waiting r @ [\<lparr>wc_promise = p, wc_key = k, wc_ttl = ttl,
                wc_cache_errors = (case cache_errors of None \<Rightarrow> False | Some b \<Rightarrow> b)\<rparr>],
              ir_next := Suc p\<rparr>)))"

text \<open>The second half: the promise \<open>p\<close> settles, and the call that made it cleans up under its key.\<close>

definition execute_settle :: "nat \<Rightarrow> bool \<Rightarrow> idempotency_registry \<Rightarrow> idempotency_registry" where
  "execute_settle p fulfilled r =
     (case List.find (\<lambda>w. wc_promise w = p) (ir_waiting r) of
        None \<Rightarrow> r
      | Some w \<Rightarrow>
          r\<lparr>ir_waiting := filter (\<lambda>w. wc_promise w \<noteq> p) (ir_waiting r),
            ir_entries := (if (\<not> fulfilled \<and> \<not> wc_cache_errors w) \<or> wc_ttl w = 0
              then AList.delete (wc_key w) (ir_entries r) else ir_entries r)\<rparr>)"

definition registry_clear :: "idempotency_registry \<Rightarrow> idempotency_registry" where
  "registry_clear r = r\<lparr>ir_entries := []\<rparr>"

datatype registry_event = Start int string "int option" "bool option" | Settle nat bool

definition registry_event_step ::
  "registry_event \<Rightarrow> idempotency_registry \<Rightarrow> (idempotency_error, idempotency_registry) result" where
  "registry_event_step x r =
     (case x of
        Start now key ttl ce \<Rightarrow> map_sum id snd (execute_start now key ttl ce r)
      | Settle p ok \<Rightarrow> Inr (execute_settle p ok r))"

section \<open>Invariant without replay\<close>

text \<open>With time-to-live 0 the entries are exactly the calls in flight.\<close>

definition in_flight_inv :: "idempotency_registry \<Rightarrow> bool" where
  "in_flight_inv r \<longleftrightarrow>
     ir_default_ttl r = 0 \<and> dict_ok (ir_entries r) \<and>
     distinct (map wc_key (ir_waiting r)) \<and> distinct (map wc_promise (ir_waiting r)) \<and>
     (\<forall>w \<in> set (ir_waiting r). wc_ttl w = 0 \<and> wc_promise w < ir_next r) \<and>
     (\<forall>k e. dict_get (ir_entries r) k = Some e \<longleftrightarrow>
        ie_expires_at e = None \<and> (\<exists>w \<in> set (ir_waiting r). wc_key w = k \<and> wc_promise w = ie_promise e))"

definition no_replay :: "registry_event \<Rightarrow> bool" where
  "no_replay x = (case x of Start _ _ ttl _ \<Rightarrow> ttl = None \<or> ttl = Some 0 | Settle _ _ \<Rightarrow> True)"

lemma prune_expired_none:
  "dict_ok es \<Longrightarrow> (\<And>k e. dict_get es k = Some e \<Longrightarrow> ie_expires_at e = None) \<Longrightarrow> prune_expired now es = es"
  by (auto simp: prune_expired_def dict_ok_def filter_id_conv)

lemma execute_start_inv:
  assumes inv: "in_flight_inv r" and ttl: "ttl = None \<or> ttl = Some 0"
    and ok: "execute_start now key ttl ce r = Inr ((p, called), r')"
  shows "in_flight_inv r'"
proof -
  let ?k = "normalize_idempotency_key key"
  have pr: "prune_expired now (ir_entries r) = ir_entries r"
    using inv by (intro prune_expired_none) (auto simp: in_flight_inv_def)
  show ?thesis
  proof (cases "dict_get (ir_entries r) ?k")
    case (Some e)
    with ok pr have "r' = r" by (auto simp: execute_start_def Let_def result_simps)
    with inv show ?thesis by simp
  next
    case None
    have fresh: "?k \<notin> set (map wc_key (ir_waiting r))"
    proof
      assume "?k \<in> set (map wc_key (ir_waiting r))"
      then obtain w where "w \<in> set (ir_waiting r)" "wc_key w = ?k" by auto
      then have "dict_get (ir_entries r) ?k = Some \<lparr>ie_promise = wc_promise w, ie_expires_at = None\<rparr>"
        using inv unfolding in_flight_inv_def by (metis idempotency_entry.select_convs)
      with None show False by simp
    qed
    have "max 0 (case ttl of None \<Rightarrow> ir_default_ttl r | Some t \<Rightarrow> t) = 0" using ttl inv by (auto simp: in_flight_inv_def)
    with ok pr None have r': "r' = r\<lparr>ir_entries := dict_put ?k \<lparr>ie_promise = ir_next r, ie_expires_at = None\<rparr> (ir_entries r),
        ir_waiting := ir_waiting r @ [\<lparr>wc_promise = ir_next r, wc_key = ?k, wc_ttl = 0,
          wc_cache_errors = (case ce of None \<Rightarrow> False | Some b \<Rightarrow> b)\<rparr>], ir_next := Suc (ir_next r)\<rparr>"
      by (auto simp: execute_start_def Let_def result_simps)
    have "dict_get (ir_entries r') k = Some e \<longleftrightarrow>
        ie_expires_at e = None \<and> (\<exists>w \<in> set (ir_waiting r'). wc_key w = k \<and> wc_promise w = ie_promise e)" for k e
    proof (cases "k = ?k")
      case True
      from fresh have "\<forall>w \<in> set (ir_waiting r). wc_key w \<noteq> ?k" by (metis image_eqI set_map)
      with True show ?thesis by (cases e) (auto simp: r' update_conv')
    next
      case False
      with inv show ?thesis by (auto simp: r' update_conv' in_flight_inv_def)
    qed
    with inv fresh show ?thesis by (auto simp: in_flight_inv_def r' less_Suc_eq)
  qed
qed

lemma execute_settle_inv:
  assumes inv: "in_flight_inv r"
  shows "in_flight_inv (execute_settle p ok r)"
proof (cases "List.find (\<lambda>w. wc_promise w = p) (ir_waiting r)")
  case None
  with inv show ?thesis by (simp add: execute_settle_def)
next
  case (Some w)
  then have w: "w \<in> set (ir_waiting r)" "wc_promise w = p" by (auto simp: find_Some_iff)
  then have ttl: "wc_ttl w = 0" using inv by (auto simp: in_flight_inv_def)
  let ?r = "execute_settle p ok r"
  have r: "?r = r\<lparr>ir_waiting := filter (\<lambda>w. wc_promise w \<noteq> p) (ir_waiting r),
      ir_entries := AList.delete (wc_key w) (ir_entries r)\<rparr>"
    using Some ttl by (simp add: execute_settle_def)
  have only: "v = w" if "v \<in> set (ir_waiting r)" "wc_key v = wc_key w \<or> wc_promise v = wc_promise w" for v
    using that w(1) inv by (auto simp: in_flight_inv_def distinct_map inj_on_def)
  have "dict_get (ir_entries ?r) k = Some e \<longleftrightarrow>
      ie_expires_at e = None \<and> (\<exists>v \<in> set (ir_waiting ?r). wc_key v = k \<and> wc_promise v = ie_promise e)" for k e
  proof (cases "k = wc_key w")
    case True
    then show ?thesis using only w by (auto simp: r delete_conv')
  next
    case False
    then show ?thesis using inv only w by (auto simp: r delete_conv' in_flight_inv_def)
  qed
  moreover have "distinct (map wc_key (ir_waiting ?r))" "distinct (map wc_promise (ir_waiting ?r))"
    using inv by (auto simp: r in_flight_inv_def distinct_map_filter)
  ultimately show ?thesis using inv by (auto simp: in_flight_inv_def r dict_ok_delete)
qed

text \<open>The machine of the events that ask for no replay.\<close>

definition no_replay_step :: "registry_event \<Rightarrow> idempotency_registry \<Rightarrow> (idempotency_error, idempotency_registry) result" where
  "no_replay_step x r = (if no_replay x then registry_event_step x r else Inr r)"

interpretation in_flight: fallible_machine no_replay_step in_flight_inv
proof
  fix s x t assume inv: "in_flight_inv s" and step: "no_replay_step x s = Inr t"
  show "in_flight_inv t"
  proof (cases x)
    case (Start now key ttl ce)
    show ?thesis
    proof (cases "no_replay x")
      case True
      with Start have "ttl = None \<or> ttl = Some 0" by (simp add: no_replay_def)
      moreover from Start True step obtain p c where "execute_start now key ttl ce s = Inr ((p, c), t)"
        by (cases "execute_start now key ttl ce s") (auto simp: no_replay_step_def registry_event_step_def)
      ultimately show ?thesis by (rule execute_start_inv [OF inv])
    next
      case False
      with step inv show ?thesis by (simp add: no_replay_step_def)
    qed
  next
    case (Settle p ok)
    with step inv show ?thesis
      by (auto simp: no_replay_step_def registry_event_step_def no_replay_def intro: execute_settle_inv)
  qed
qed

lemma no_replay_run:
  "list_all no_replay xs \<Longrightarrow> run_ops registry_event_step xs r = run_ops no_replay_step xs r"
  by (induction xs arbitrary: r) (simp_all add: no_replay_step_def)

section \<open>Properties\<close>

text \<open>
  C38: when no results are kept for replay, as the retry budgets use the registry, the operation is never in
  flight twice for one key, however the calls and their settlements interleave. The registry is not cleared meanwhile.
\<close>

theorem one_call_in_flight_per_key:
  assumes "list_all no_replay xs"
  shows "distinct (map wc_key (ir_waiting (run_ops registry_event_step xs (new_registry (Some 0)))))"
proof -
  have "in_flight_inv (new_registry (Some 0))" by (simp add: in_flight_inv_def new_registry_def)
  then have "in_flight_inv (run_ops no_replay_step xs (new_registry (Some 0)))" by (rule in_flight.run_inv)
  then show ?thesis using no_replay_run [OF assms] by (simp add: in_flight_inv_def)
qed

theorem one_call_in_flight_per_key_witness:
  "distinct (map wc_key (ir_waiting (run_ops registry_event_step
     [Start 0 ''k'' None None, Start 1 '' k '' (Some 0) None, Start 2 ''j'' None None, Settle 0 False, Start 3 ''k'' None None]
     (new_registry (Some 0)))))"
  by (rule one_call_in_flight_per_key) (simp add: no_replay_def)

text \<open>
  with a time-to-live, the expiry of an entry runs from the start of its call, so that a call still in
  flight when it passes is forgotten: the same key calls the operation a second time beside the first.
\<close>

theorem slow_call_is_duplicated:
  assumes "normalize_idempotency_key key \<noteq> []" "0 < ttl" "now + ttl \<le> now'"
  shows "map wc_key (ir_waiting (run_ops registry_event_step
      [Start now key (Some ttl) None, Start now' key (Some ttl) None] (new_registry d))) =
    [normalize_idempotency_key key, normalize_idempotency_key key]"
  using assms
  by (simp add: registry_event_step_def execute_start_def new_registry_def prune_expired_def Let_def)

theorem slow_call_is_duplicated_witness:
  "map wc_key (ir_waiting (run_ops registry_event_step
      [Start 0 ''pay'' (Some 300000) None, Start 300000 ''pay'' (Some 300000) None] (new_registry None))) = [''pay'', ''pay'']"
proof -
  have "normalize_idempotency_key ''pay'' = ''pay''" by code_simp
  with slow_call_is_duplicated [of "''pay''" 300000 0 300000 None] show ?thesis by simp
qed

lemma append_sep_eq:
  assumes "c \<notin> set x" "c \<notin> set x'"
  shows "x @ c # y = x' @ c # y' \<longleftrightarrow> x = x' \<and> y = y'"
  using assms
proof (induction x arbitrary: x')
  case Nil
  then show ?case by (cases x') auto
next
  case (Cons a x)
  then show ?case by (cases x') auto
qed

lemma no_char_trim: "c \<notin> set s \<Longrightarrow> c \<notin> set (js_trim s)"
  using set_js_trim [of s] by blast

lemma no_colon_lower: "CHR '':'' \<notin> set s \<Longrightarrow> CHR '':'' \<notin> set (js_lower s)"
proof -
  have "js_lower_char c = CHR '':'' \<Longrightarrow> c = CHR '':''" for c
  proof (cases "65 \<le> (of_char c :: nat) \<and> (of_char c :: nat) \<le> 90")
    case True
    assume "js_lower_char c = CHR '':''"
    with True have "of_char (char_of ((of_char c :: nat) + 32)) = (of_char CHR '':'' :: nat)"
      by (simp add: js_lower_char_def)
    with True show ?thesis by simp
  qed (simp add: js_lower_char_def Let_def)
  then show "CHR '':'' \<notin> set s \<Longrightarrow> CHR '':'' \<notin> set (js_lower s)" by (auto simp: js_lower_def) metis
qed

definition colon_free :: "payroll_key_input \<Rightarrow> bool" where
  "colon_free x \<longleftrightarrow> (\<forall>s \<in> {pk_company x, pk_period x, pk_commitment x, pk_asset x, pk_treasury x}. CHR '':'' \<notin> set s)"

text \<open>
  payroll keys separate requests whose parts contain no colon: the keys are equal exactly when company,
  period and treasury are equal up to surrounding space and commitment and asset also up to case. Without
  that condition they do not: a colon at the end of the company and one at the start of the period are
  not told apart.
\<close>

theorem payroll_keys_separate:
  "(colon_free x \<and> colon_free y \<longrightarrow>
     (create_payroll_idempotency_key x = create_payroll_idempotency_key y \<longleftrightarrow>
        js_trim (pk_company x) = js_trim (pk_company y) \<and> js_trim (pk_period x) = js_trim (pk_period y) \<and>
        js_lower (js_trim (pk_commitment x)) = js_lower (js_trim (pk_commitment y)) \<and>
        js_lower (js_trim (pk_asset x)) = js_lower (js_trim (pk_asset y)) \<and>
        js_trim (pk_treasury x) = js_trim (pk_treasury y))) \<and>
   ((\<forall>c \<in> set (a @ b @ p). \<not> js_space c) \<longrightarrow>
     create_payroll_idempotency_key (z\<lparr>pk_company := a @ '':'' @ b, pk_period := p\<rparr>) =
     create_payroll_idempotency_key (z\<lparr>pk_company := a, pk_period := b @ '':'' @ p\<rparr>))"
proof -
  have 1: "create_payroll_idempotency_key x = create_payroll_idempotency_key y \<longleftrightarrow>
        js_trim (pk_company x) = js_trim (pk_company y) \<and> js_trim (pk_period x) = js_trim (pk_period y) \<and>
        js_lower (js_trim (pk_commitment x)) = js_lower (js_trim (pk_commitment y)) \<and>
        js_lower (js_trim (pk_asset x)) = js_lower (js_trim (pk_asset y)) \<and>
        js_trim (pk_treasury x) = js_trim (pk_treasury y)" if "colon_free x" "colon_free y"
    using that
    by (simp add: create_payroll_idempotency_key_def append_sep_eq no_char_trim no_colon_lower colon_free_def)
  have 2: "create_payroll_idempotency_key (z\<lparr>pk_company := a @ '':'' @ b, pk_period := p\<rparr>) =
     create_payroll_idempotency_key (z\<lparr>pk_company := a, pk_period := b @ '':'' @ p\<rparr>)"
    if "\<forall>c \<in> set (a @ b @ p). \<not> js_space c"
  proof -
    have "\<not> js_space CHR '':''" by code_simp
    then have "js_trim (a @ '':'' @ b) = a @ '':'' @ b" "js_trim (b @ '':'' @ p) = b @ '':'' @ p"
      "js_trim a = a" "js_trim p = p"
      using that by (auto intro!: js_trim_no_space)
    then show ?thesis by (simp add: create_payroll_idempotency_key_def)
  qed
  from 1 2 show ?thesis by blast
qed

theorem payroll_keys_separate_witness:
  "create_payroll_idempotency_key \<lparr>pk_company = ''a:b'', pk_period = ''c'', pk_commitment = ''d'', pk_asset = ''e'', pk_treasury = ''f''\<rparr> =
   create_payroll_idempotency_key \<lparr>pk_company = ''a'', pk_period = ''b:c'', pk_commitment = ''d'', pk_asset = ''e'', pk_treasury = ''f''\<rparr>"
proof -
  let ?z = "\<lparr>pk_company = [], pk_period = [], pk_commitment = ''d'', pk_asset = ''e'', pk_treasury = ''f''\<rparr>"
  have "\<forall>c \<in> set (''a'' @ ''b'' @ ''c''). \<not> js_space c" by code_simp
  with payroll_keys_separate [of ?z ?z "''a''" "''b''" "''c''" ?z] show ?thesis by simp
qed

end
