(* ===== verification/BatchSubmission.thy ===== *)
theory BatchSubmission
  imports ResumeToken Retry
begin

text \<open>
  Sequential submission of a payroll in batches (\<open>packages/core/src/payroll/safeBatchSubmitter.ts\<close>). A run goes
  against an environment: what each attempt at each batch gives, what the abort signal and the sleeper answer,
  the clock, and the runtime functions of the resume tokens. Its result is the trace of what it did, in order,
  and either the result object or the error it throws. Callbacks are taken not to throw; messages, guidance
  texts, percentages and time stamps of progress events are left out.
\<close>

section \<open>Options, environment and results\<close>

record batch_options =
  bo_batch_size :: "jsnum option"
  bo_max_retries :: "int option"
  bo_initial_delay_ms :: "int option"
  bo_max_delay_ms :: "int option"
  bo_delay_factor :: "int option"
  bo_stop_on_first_failure :: "bool option"
  bo_resume_token :: "string option"

text \<open>What a batch handler throws: its class, its message, and whether its class can be built from a
  message alone, as the redaction of errors does.\<close>

record batch_failure =
  bf_error :: thrown
  bf_message :: string
  bf_rebuildable :: bool

text \<open>The signal is asked before a batch, before an attempt and after a failed attempt.\<close>

record 'r batch_env =
  be_submit :: "payment_params list \<Rightarrow> int \<Rightarrow> nat \<Rightarrow> batch_failure + 'r list"
  be_aborted_batch :: "int \<Rightarrow> bool"
  be_aborted_attempt :: "int \<Rightarrow> nat \<Rightarrow> bool"
  be_aborted_failed :: "int \<Rightarrow> nat \<Rightarrow> bool"
  be_sleep_ok :: "int \<Rightarrow> nat \<Rightarrow> bool"
  be_now :: "int \<Rightarrow> int"
  be_lib :: token_lib

datatype progress_stage =
  StValidating | StBatchStarting | StBatchSubmitting | StBatchRetrying | StBatchCompleted | StCompleted | StFailed

text \<open>What a run does, in order: progress events (stage, batch index, items processed), calls of the handler,
  sleeps, and the other callbacks.\<close>

datatype 'r batch_action =
  Progress progress_stage int int
| Called int "payment_params list"
| Slept int
| BatchError int bool
| BatchSucceeded int "payment_params list" "'r list"
| Checkpointed string

record batch_error_detail =
  ed_code :: string
  ed_failed_batch_index :: int
  ed_batches_succeeded :: int
  ed_items_succeeded :: int
  ed_resume_token :: "string option"

record 'r batch_result =
  br_success :: bool
  br_batches_processed :: int
  br_total_batches :: int
  br_items_processed :: int
  br_total_items :: int
  br_results :: "'r list"
  br_failed_batch_index :: "int option"
  br_error :: "batch_error_detail option"

datatype submit_error = SubmitPageSize | SubmitResume resume_error | SubmitRedaction

section \<open>Attempts at one batch\<close>

text \<open>\<open>signature.*fail\<close>: the two words in this order on one line\<close>

fun ordered_in_line :: "string \<Rightarrow> string \<Rightarrow> string \<Rightarrow> bool" where
  "ordered_in_line p q [] = False"
| "ordered_in_line p q (c # cs) =
     ((is_prefix p (c # cs) \<and> occurs_in q (takeWhile (\<lambda>d. d \<noteq> CHR 0x0A \<and> d \<noteq> CHR 0x0D) (drop (length p) (c # cs))))
      \<or> ordered_in_line p q cs)"

definition blocking_message :: "string \<Rightarrow> bool" where
  "blocking_message msg =
     (let m = js_lower msg in
      list_ex (\<lambda>w. occurs_in w m) [''validation'', ''invalid'', ''unauthorized'', ''forbidden'', ''schema''] \<or>
      ordered_in_line ''signature'' ''fail'' m)"

text \<open>\<open>err instanceof Error ? err : new Error(String(err))\<close>\<close>

definition raw_error :: "batch_failure \<Rightarrow> batch_failure" where
  "raw_error f =
     (case bf_error f of
        NonError \<Rightarrow> \<lparr>bf_error = GenericErr ''Error'' (bf_message f), bf_message = bf_message f, bf_rebuildable = True\<rparr>
      | _ \<Rightarrow> f)"

definition is_non_retryable :: "batch_failure \<Rightarrow> bool" where
  "is_non_retryable f \<longleftrightarrow> permanent (bf_error f) \<or> blocking_message (bf_message f)"

definition batch_delay :: "batch_options \<Rightarrow> nat \<Rightarrow> int" where
  "batch_delay opts attempt =
     min (pick (bo_initial_delay_ms opts) 100 * pick (bo_delay_factor opts) 2 ^ (attempt - 1))
         (pick (bo_max_delay_ms opts) 2000)"

datatype 'r attempts_end = BatchDone "'r list" | BatchFailed | RedactionThrew

text \<open>\<open>left\<close> attempts remain, the next one has number \<open>attempt\<close>.\<close>

fun attempt_batch ::
  "batch_options \<Rightarrow> 'r batch_env \<Rightarrow> payment_params batch_page \<Rightarrow> int \<Rightarrow> nat \<Rightarrow> nat \<Rightarrow> 'r batch_action list \<times> 'r attempts_end"
where
  "attempt_batch opts env b items_processed 0 attempt = ([], BatchFailed)"
| "attempt_batch opts env b items_processed (Suc left) attempt =
     (if be_aborted_attempt env (bp_index b) attempt then ([], BatchFailed)
      else
        let called = [Progress StBatchSubmitting (bp_index b) items_processed, Called (bp_index b) (bp_items b)] in
        case be_submit env (bp_items b) (bp_index b) attempt of
          Inr rs \<Rightarrow> (called, BatchDone rs)
        | Inl f \<Rightarrow>
            if \<not> bf_rebuildable (raw_error f) then (called, RedactionThrew)
            else
              let will_retry = (\<not> is_non_retryable (raw_error f) \<and> left \<noteq> 0 \<and> \<not> be_aborted_failed env (bp_index b) attempt);
                  failed = called @ [BatchError (bp_index b) will_retry]
              in if \<not> will_retry then (failed, BatchFailed)
                 else
                   let slept = failed @ [Progress StBatchRetrying (bp_index b) items_processed, Slept (batch_delay opts attempt)]
                   in if \<not> be_sleep_ok env (bp_index b) attempt then (slept, BatchFailed)
                      else
                        let rest = attempt_batch opts env b items_processed left (Suc attempt)
                        in (slept @ fst rest, snd rest))"

definition max_batch_attempts :: "batch_options \<Rightarrow> nat" where
  "max_batch_attempts opts = nat (max 1 (pick (bo_max_retries opts) 3 + 1))"

section \<open>The loop over the batches\<close>

definition run_token ::
  "'r batch_env \<Rightarrow> payment_params list \<Rightarrow> int \<Rightarrow> int \<Rightarrow> int \<Rightarrow> int \<Rightarrow> string" where
  "run_token env entries total_batches batch_size items_processed next_batch =
     create_batch_resume_token (be_lib env) (be_now env next_batch) entries next_batch items_processed total_batches batch_size"

definition failure_detail ::
  "string \<Rightarrow> 'r batch_env \<Rightarrow> payment_params list \<Rightarrow> int \<Rightarrow> int \<Rightarrow> int \<Rightarrow> int \<Rightarrow> int \<Rightarrow> batch_error_detail" where
  "failure_detail code env entries total_batches batch_size items_processed batches_succeeded failed =
     \<lparr>ed_code = code, ed_failed_batch_index = failed, ed_batches_succeeded = batches_succeeded,
      ed_items_succeeded = items_processed,
      ed_resume_token = (if batches_succeeded > 0
         then Some (run_token env entries total_batches batch_size items_processed failed) else None)\<rparr>"

definition failed_result ::
  "batch_error_detail \<Rightarrow> payment_params list \<Rightarrow> int \<Rightarrow> 'r list \<Rightarrow> 'r batch_result" where
  "failed_result d entries total_batches results =
     \<lparr>br_success = False, br_batches_processed = ed_batches_succeeded d, br_total_batches = total_batches,
      br_items_processed = ed_items_succeeded d, br_total_items = int (length entries), br_results = results,
      br_failed_batch_index = Some (ed_failed_batch_index d), br_error = Some d\<rparr>"

fun batch_loop ::
  "batch_options \<Rightarrow> 'r batch_env \<Rightarrow> payment_params list \<Rightarrow> int \<Rightarrow> int \<Rightarrow> payment_params batch_page list \<Rightarrow>
   int \<Rightarrow> int \<Rightarrow> 'r list \<Rightarrow> 'r batch_action list \<times> (submit_error, 'r batch_result) result"
where
  "batch_loop opts env entries total_batches batch_size [] items_processed succeeded results =
     ([Progress StCompleted (total_batches - 1) items_processed],
      Inr \<lparr>br_success = True, br_batches_processed = succeeded, br_total_batches = total_batches,
           br_items_processed = items_processed, br_total_items = int (length entries), br_results = results,
           br_failed_batch_index = None, br_error = None\<rparr>)"
| "batch_loop opts env entries total_batches batch_size (b # bs) items_processed succeeded results =
     (if be_aborted_batch env (bp_index b) then
        ([Progress StFailed (bp_index b) items_processed],
         Inr (failed_result (failure_detail ''BATCH_SUBMISSION_CANCELLED'' env entries total_batches batch_size
                items_processed succeeded (bp_index b)) entries total_batches results))
      else
        let (tr, e) = attempt_batch opts env b items_processed (max_batch_attempts opts) 1;
            started = Progress StBatchStarting (bp_index b) items_processed # tr
        in case e of
             RedactionThrew \<Rightarrow> (started, Inl SubmitRedaction)
           | BatchDone rs \<Rightarrow>
               let items = items_processed + bp_count b;
                   done_tr = started @ [BatchSucceeded (bp_index b) (bp_items b) rs,
                     Progress StBatchCompleted (bp_index b) items,
                     Checkpointed (run_token env entries total_batches batch_size items (bp_index b + 1))];
                   rest = batch_loop opts env entries total_batches batch_size bs items (succeeded + 1) (results @ rs)
               in (done_tr @ fst rest, snd rest)
           | BatchFailed \<Rightarrow>
               let detail = failure_detail ''BATCH_SUBMISSION_FAILED'' env entries total_batches batch_size
                     items_processed succeeded (bp_index b);
                   failed_tr = started @ [Progress StFailed (bp_index b) items_processed]
               in if pick (bo_stop_on_first_failure opts) True
                  then (failed_tr, Inr (failed_result detail entries total_batches results))
                  else
                    let rest = batch_loop opts env entries total_batches batch_size bs items_processed succeeded results
                    in (failed_tr @ fst rest, snd rest))"

definition resume_point ::
  "batch_options \<Rightarrow> 'r batch_env \<Rightarrow> payment_params list \<Rightarrow> jsnum \<Rightarrow> (submit_error, int \<times> int) result" where
  "resume_point opts env entries batch_size =
     (case bo_resume_token opts of
        None \<Rightarrow> Inr (0, 0)
      | Some token \<Rightarrow>
          if token = [] then Inr (0, 0)
          else case resolve_resume_start (be_lib env) entries (Some batch_size) token of
            Inl e \<Rightarrow> Inl (SubmitResume e)
          | Inr r \<Rightarrow> Inr (rs_start_batch_index r, rs_items_already_processed r))"

definition submit_sequential_payroll_batches ::
  "batch_options \<Rightarrow> 'r batch_env \<Rightarrow> payment_params list \<Rightarrow> 'r batch_action list \<times> (submit_error, 'r batch_result) result"
where
  "submit_sequential_payroll_batches opts env entries =
     (let batch_size = pick (bo_batch_size opts) (Whole 50); total_items = int (length entries) in
      case iterate_batches entries (Some batch_size) of
        Inl _ \<Rightarrow> ([], Inl SubmitPageSize)
      | Inr batches \<Rightarrow>
          if entries = [] then
            ([Progress StCompleted 0 0],
             Inr \<lparr>br_success = True, br_batches_processed = 0, br_total_batches = 0, br_items_processed = 0,
                  br_total_items = 0, br_results = [], br_failed_batch_index = None, br_error = None\<rparr>)
          else case resume_point opts env entries batch_size of
            Inl e \<Rightarrow> ([], Inl e)
          | Inr (start, initial_items) \<Rightarrow>
              let total_batches = int (length batches);
                  validating = Progress StValidating start initial_items
              in if start \<ge> total_batches then
                   ([validating, Progress StCompleted (total_batches - 1) initial_items],
                    Inr \<lparr>br_success = True, br_batches_processed = total_batches, br_total_batches = total_batches,
                         br_items_processed = initial_items, br_total_items = total_items, br_results = [],
                         br_failed_batch_index = None, br_error = None\<rparr>)
                 else
                   let run = batch_loop opts env entries total_batches (number_or 0 (Some batch_size))
                         (drop (nat start) batches) initial_items start []
                   in (validating # fst run, snd run))"

section \<open>What a run confirms\<close>

definition confirmed :: "'r batch_action list \<Rightarrow> (int \<times> payment_params list \<times> 'r list) list" where
  "confirmed tr = List.map_filter (\<lambda>a. case a of BatchSucceeded i xs rs \<Rightarrow> Some (i, xs, rs) | _ \<Rightarrow> None) tr"

definition confirmed_items :: "'r batch_action list \<Rightarrow> payment_params list" where
  "confirmed_items tr = concat (map (\<lambda>(i, xs, rs). xs) (confirmed tr))"

definition confirmed_results :: "'r batch_action list \<Rightarrow> 'r list" where
  "confirmed_results tr = concat (map (\<lambda>(i, xs, rs). rs) (confirmed tr))"

lemma confirmed_simps [simp]:
  "confirmed [] = []"
  "confirmed (BatchSucceeded i xs rs # tr) = (i, xs, rs) # confirmed tr"
  "confirmed (Progress st i n # tr) = confirmed tr"
  "confirmed (Called i xs # tr) = confirmed tr"
  "confirmed (Slept d # tr) = confirmed tr"
  "confirmed (BatchError i w # tr) = confirmed tr"
  "confirmed (Checkpointed t # tr) = confirmed tr"
  "confirmed (tr @ us) = confirmed tr @ confirmed us"
  by (simp_all add: confirmed_def map_filter_def)

lemma attempt_batch_confirms_nothing [simp]: "confirmed (fst (attempt_batch opts env b items left n)) = []"
proof (induction left arbitrary: n)
  case (Suc left)
  then show ?case
    by (cases "be_submit env (bp_items b) (bp_index b) n") (simp_all add: Let_def)
qed simp

definition loop_result_ok ::
  "'r batch_env \<Rightarrow> payment_params list \<Rightarrow> int \<Rightarrow> int \<Rightarrow> payment_params batch_page list \<Rightarrow> int \<Rightarrow> int \<Rightarrow> nat \<Rightarrow>
   'r list \<Rightarrow> 'r batch_result \<Rightarrow> bool" where
  "loop_result_ok env es tot sz bs items succeeded k results r \<longleftrightarrow>
     br_results r = results \<and>
     br_items_processed r = items + sum_list (map bp_count (take k bs)) \<and>
     br_batches_processed r = succeeded + int k \<and> br_total_batches r = tot \<and>
     br_success r = (k = length bs) \<and>
     (k = length bs \<longrightarrow> br_error r = None) \<and>
     (k < length bs \<longrightarrow>
        br_failed_batch_index r = Some (bp_index (bs ! k)) \<and>
        (\<exists>d. br_error r = Some d \<and> ed_failed_batch_index d = bp_index (bs ! k) \<and>
           ed_items_succeeded d = br_items_processed r \<and>
           ed_resume_token d = (if succeeded + int k > 0
             then Some (run_token env es tot sz (br_items_processed r) (bp_index (bs ! k))) else None)))"

definition loop_ok ::
  "'r batch_env \<Rightarrow> payment_params list \<Rightarrow> int \<Rightarrow> int \<Rightarrow> payment_params batch_page list \<Rightarrow> int \<Rightarrow> int \<Rightarrow> 'r list \<Rightarrow>
   'r batch_action list \<times> (submit_error, 'r batch_result) result \<Rightarrow> nat \<Rightarrow> bool" where
  "loop_ok env es tot sz bs items succeeded results run k \<longleftrightarrow>
     k \<le> length bs \<and>
     map (\<lambda>(i, xs, rs). (i, xs)) (confirmed (fst run)) = map (\<lambda>b. (bp_index b, bp_items b)) (take k bs) \<and>
     (case snd run of
        Inl e \<Rightarrow> e = SubmitRedaction \<and> k < length bs
      | Inr r \<Rightarrow> loop_result_ok env es tot sz bs items succeeded k (results @ confirmed_results (fst run)) r)"

lemma loop_ok_step:
  assumes "loop_ok env es tot sz bs (items + bp_count b) (succeeded + 1) (results @ rs) rest k"
    and "confirmed tr = [(bp_index b, bp_items b, rs)]"
  shows "loop_ok env es tot sz (b # bs) items succeeded results (tr @ fst rest, snd rest) (Suc k)"
  using assms
  by (cases "snd rest") (auto simp: loop_ok_def loop_result_ok_def confirmed_results_def algebra_simps)

lemma batch_loop_ok:
  assumes "pick (bo_stop_on_first_failure opts) True"
  shows "\<exists>k. loop_ok env es tot sz bs items succeeded results
    (batch_loop opts env es tot sz bs items succeeded results) k"
proof (induction bs arbitrary: items succeeded results)
  case Nil
  show ?case by (rule exI [of _ 0]) (simp add: loop_ok_def loop_result_ok_def confirmed_results_def)
next
  case (Cons b bs)
  show ?case
  proof (cases "be_aborted_batch env (bp_index b)")
    case True
    then show ?thesis
      by (intro exI [of _ 0])
        (simp add: loop_ok_def loop_result_ok_def confirmed_results_def failed_result_def failure_detail_def)
  next
    case live: False
    obtain tr e where a: "attempt_batch opts env b items (max_batch_attempts opts) 1 = (tr, e)" by fastforce
    then have tr: "confirmed tr = []" by (metis attempt_batch_confirms_nothing fst_conv)
    show ?thesis
    proof (cases e)
      case (BatchDone rs)
      from Cons.IH obtain k where k: "loop_ok env es tot sz bs (items + bp_count b) (succeeded + 1) (results @ rs)
          (batch_loop opts env es tot sz bs (items + bp_count b) (succeeded + 1) (results @ rs)) k" by blast
      let ?items = "items + bp_count b"
      from loop_ok_step [OF k, of "Progress StBatchStarting (bp_index b) items # tr @ [BatchSucceeded (bp_index b) (bp_items b) rs,
          Progress StBatchCompleted (bp_index b) ?items,
          Checkpointed (run_token env es tot sz ?items (bp_index b + 1))]"] live a tr BatchDone
      show ?thesis by (intro exI [of _ "Suc k"]) (simp add: Let_def)
    next
      case BatchFailed
      with live a tr assms show ?thesis
        by (intro exI [of _ 0])
          (simp add: loop_ok_def loop_result_ok_def confirmed_results_def failed_result_def failure_detail_def)
    next
      case RedactionThrew
      with live a tr show ?thesis
        by (intro exI [of _ 0]) (simp add: loop_ok_def)
    qed
  qed
qed


lemma concat_slices_from:
  "concat (map (\<lambda>i. take n (drop (i * n) xs)) [c..<c + k]) = take (k * n) (drop (c * n) xs)"
proof (induction k)
  case (Suc k)
  have "take (Suc k * n) (drop (c * n) xs) = take (k * n) (drop (c * n) xs) @ take n (drop (k * n) (drop (c * n) xs))"
    by (simp only: mult_Suc add.commute [of n] take_add)
  with Suc show ?case by (simp add: add.commute distrib_right del: mult_Suc)
qed simp

definition batch_number :: "'a list \<Rightarrow> nat \<Rightarrow> nat" where
  "batch_number es n = nat (total_pages (int (length es)) (int n))"

definition run_from ::
  "'r batch_env \<Rightarrow> payment_params list \<Rightarrow> nat \<Rightarrow> nat \<Rightarrow> int \<Rightarrow>
   'r batch_action list \<times> (submit_error, 'r batch_result) result \<Rightarrow> nat \<Rightarrow> bool" where
  "run_from env es n c items run k \<longleftrightarrow>
     c \<le> k \<and> k \<le> batch_number es n \<and>
     map fst (confirmed (fst run)) = map int [c..<k] \<and>
     confirmed_items (fst run) = take ((k - c) * n) (drop (c * n) es) \<and>
     (case snd run of
        Inl e \<Rightarrow> e = SubmitRedaction \<and> k < batch_number es n
      | Inr r \<Rightarrow>
          br_results r = confirmed_results (fst run) \<and>
          br_items_processed r = items + int (length (confirmed_items (fst run))) \<and>
          br_batches_processed r = int k \<and> br_total_batches r = int (batch_number es n) \<and>
          br_success r = (k = batch_number es n) \<and>
          (k = batch_number es n \<longrightarrow> br_error r = None) \<and>
          (k < batch_number es n \<longrightarrow>
             br_failed_batch_index r = Some (int k) \<and>
             (\<exists>d. br_error r = Some d \<and> ed_failed_batch_index d = int k \<and> ed_items_succeeded d = br_items_processed r \<and>
                ed_resume_token d = (if 0 < k
                  then Some (run_token env es (int (batch_number es n)) (int n) (br_items_processed r) (int k)) else None))))"

lemma batch_number_covers:
  assumes "0 < n" "k \<le> batch_number es n" "es \<noteq> []"
  shows "length es \<le> k * n \<longleftrightarrow> k = batch_number es n"
proof -
  have p: "total_pages (int (length es)) (int n) = int (batch_number es n)"
    using total_pages_pos [of "int n" "int (length es)"] assms(1) by (simp add: batch_number_def)
  have "int (length es) \<le> int (batch_number es n) * int n"
    using total_pages_cover [of "int n" "int (length es)"] assms(1) p by simp
  then have "length es \<le> batch_number es n * n" by (simp only: of_nat_mult [symmetric] of_nat_le_iff)
  moreover have "k * n < length es" if "k < batch_number es n"
  proof -
    have "int k * int n < int (length es)"
      using page_starts_inside [of "int n" "int k" "int (length es)"] assms that p by simp
    then show ?thesis by (simp only: of_nat_mult [symmetric] of_nat_less_iff)
  qed
  ultimately show ?thesis using assms(2) by (cases "k = batch_number es n") auto
qed

lemma pages_from:
  assumes "c + k \<le> m"
  shows "take k (drop c (map (page_at es n p) [0..int m - 1])) = map (\<lambda>i. page_at es n p (int i)) [c..<c + k]"
  using assms by (simp add: upto_nat drop_map take_map)

lemma pages_from_items:
  "concat (map (\<lambda>i. bp_items (page_at es (int n) p (int i))) [c..<c + k]) = take (k * n) (drop (c * n) es)"
proof (cases "n = 0")
  case True
  then show ?thesis by (simp add: page_at_def slice_items_def Let_def)
next
  case False
  then have "bp_items (page_at es (int n) p (int i)) = take n (drop (i * n) es)" for i
    by (subst page_items) simp_all
  then show ?thesis by (simp add: concat_slices_from)
qed

lemma pages_from_count:
  "sum_list (map (\<lambda>i. bp_count (page_at es n p (int i))) is) = int (length (concat (map (\<lambda>i. bp_items (page_at es n p (int i))) is)))"
  by (induction "is") (simp_all add: page_at_def Let_def)


lemma submit_unfold:
  assumes "pick (bo_batch_size opts) (Whole 50) = Whole (int n)" "0 < n" "es \<noteq> []"
    and "resume_point opts env es (Whole (int n)) = Inr (int c, items)"
  defines "m \<equiv> batch_number es n"
  shows "submit_sequential_payroll_batches opts env es =
    (if m \<le> c then
       ([Progress StValidating (int c) items, Progress StCompleted (int m - 1) items],
        Inr \<lparr>br_success = True, br_batches_processed = int m, br_total_batches = int m, br_items_processed = items,
             br_total_items = int (length es), br_results = [], br_failed_batch_index = None, br_error = None\<rparr>)
     else
       let run = batch_loop opts env es (int m) (int n) (drop c (map (page_at es (int n) (int m)) [0..int m - 1])) items
             (int c) []
       in (Progress StValidating (int c) items # fst run, snd run))"
proof -
  have m: "total_pages (int (length es)) (int n) = int m"
    using total_pages_pos [of "int n" "int (length es)"] assms(2) by (simp add: m_def batch_number_def)
  have "iterate_batches es (Some (Whole (int n))) = Inr (map (page_at es (int n) (int m)) [0..int m - 1])"
    using assms(2) by (simp add: iterate_batches_def assert_valid_page_size_def number_or_def Let_def m)
  with assms show ?thesis
    by (simp add: submit_sequential_payroll_batches_def Let_def number_or_def)
qed

lemma submit_runs_from:
  assumes "pick (bo_batch_size opts) (Whole 50) = Whole (int n)" "0 < n" "es \<noteq> []"
    and "resume_point opts env es (Whole (int n)) = Inr (int c, items)" "c \<le> batch_number es n"
    and stop: "pick (bo_stop_on_first_failure opts) True"
  shows "\<exists>k. run_from env es n c items (submit_sequential_payroll_batches opts env es) k"
proof (cases "c = batch_number es n")
  case True
  have "take ((c - c) * n) (drop (c * n) es) = []" by simp
  with True show ?thesis
    by (intro exI [of _ c])
      (simp add: submit_unfold [OF assms(1-4)] run_from_def confirmed_items_def confirmed_results_def)
next
  case False
  define m where "m = batch_number es n"
  define bs where "bs = drop c (map (page_at es (int n) (int m)) [0..int m - 1])"
  define run where "run = batch_loop opts env es (int m) (int n) bs items (int c) []"
  have less: "c < m" using False assms(5) by (simp add: m_def)
  have sub: "submit_sequential_payroll_batches opts env es = (Progress StValidating (int c) items # fst run, snd run)"
    using less by (simp add: submit_unfold [OF assms(1-4)] m_def run_def bs_def Let_def)
  obtain k where k: "loop_ok env es (int m) (int n) bs items (int c) [] run k"
    using batch_loop_ok [OF stop] unfolding run_def by blast
  have len: "length bs = m - c" using less by (simp add: bs_def)
  have "k \<le> length bs" using k by (simp add: loop_ok_def)
  then have km: "c + k \<le> m" using len less by simp
  have tk: "take k bs = map (\<lambda>i. page_at es (int n) (int m) (int i)) [c..<c + k]"
    using pages_from [OF km] by (simp add: bs_def)
  have conf: "map (\<lambda>(i, xs, rs). (i, xs)) (confirmed (fst run)) = map (\<lambda>b. (bp_index b, bp_items b)) (take k bs)"
    using k by (simp add: loop_ok_def)
  have idx: "map fst (confirmed (fst run)) = map int [c..<c + k]"
    using arg_cong [OF conf, of "map fst"] by (simp add: tk page_at_def Let_def case_prod_beta comp_def)
  have "map (\<lambda>(i, xs, rs). xs) (confirmed (fst run)) = map bp_items (take k bs)"
    using arg_cong [OF conf, of "map snd"] by (simp add: split_def comp_def)
  then have its: "confirmed_items (fst run) = take (k * n) (drop (c * n) es)"
    using pages_from_items [of es n "int m" c k] by (simp add: confirmed_items_def tk comp_def)
  have cnt: "sum_list (map bp_count (take k bs)) = int (length (take (k * n) (drop (c * n) es)))"
    using pages_from_count [of es "int n" "int m" "[c..<c + k]"] pages_from_items [of es n "int m" c k]
    by (simp only: tk map_map comp_def)
  have nth: "bp_index (bs ! k) = int (c + k)" if "k < length bs"
    using that len by (simp add: bs_def page_at_def Let_def)
  have "run_from env es n c items (submit_sequential_payroll_batches opts env es) (c + k)"
  proof (cases "snd run")
    case (Inl e)
    with k len have "e = SubmitRedaction" "c + k < m" by (auto simp: loop_ok_def)
    with Inl km idx its show ?thesis
      by (simp add: run_from_def sub m_def confirmed_items_def)
  next
    case (Inr r)
    with k have "loop_result_ok env es (int m) (int n) bs items (int c) k (confirmed_results (fst run)) r"
      by (simp add: loop_ok_def)
    with Inr km idx its len nth cnt show ?thesis
      by (auto simp: run_from_def sub loop_result_ok_def m_def [symmetric] confirmed_items_def confirmed_results_def)
  qed
  then show ?thesis by blast
qed


text \<open>
  C18: a run that is given no resume token, stops at the first failure and returns a result confirms the batches
  \<open>0, \<dots>, k - 1\<close>, in order and once each, and nothing else: its confirmed items are a prefix of the entries,
  its results are those the handler returned for them, the counts it reports are theirs, and it reports success
  exactly when nothing is left. Otherwise it names batch \<open>k\<close> as the failed one.
\<close>

theorem run_confirms_a_prefix:
  assumes "pick (bo_batch_size opts) (Whole 50) = Whole (int n)" "0 < n" "es \<noteq> []"
    and "bo_resume_token opts = None" "pick (bo_stop_on_first_failure opts) True"
    and run: "submit_sequential_payroll_batches opts env es = (tr, Inr r)"
  shows "\<exists>k. map fst (confirmed tr) = map int [0..<k] \<and> confirmed_items tr = take (k * n) es \<and>
    br_results r = confirmed_results tr \<and> br_items_processed r = int (length (confirmed_items tr)) \<and>
    br_batches_processed r = int k \<and>
    (br_success r \<longleftrightarrow> confirmed_items tr = es) \<and>
    (\<not> br_success r \<longrightarrow> br_failed_batch_index r = Some (int k))"
proof -
  have "resume_point opts env es (Whole (int n)) = Inr (int 0, 0)" using assms by (simp add: resume_point_def)
  from submit_runs_from [OF assms(1-3) this _ assms(5)] run
  obtain k where k: "run_from env es n 0 0 (tr, Inr r) k" by auto
  have "k * n \<ge> length es \<longleftrightarrow> k = batch_number es n"
    using k batch_number_covers [OF assms(2), of k es] assms(3) by (auto simp: run_from_def)
  then have "(k = batch_number es n) = (take (k * n) es = es)" by (simp add: take_all_iff)
  with k have s: "br_success r \<longleftrightarrow> confirmed_items tr = es" by (simp add: run_from_def)
  have "br_failed_batch_index r = Some (int k)" if "\<not> br_success r" using k that by (simp add: run_from_def)
  with k s show ?thesis by (intro exI [of _ k]) (simp add: run_from_def)
qed





section \<open>Attempts and delays\<close>

definition called_times :: "int \<Rightarrow> 'r batch_action list \<Rightarrow> nat" where
  "called_times i tr = length (filter (\<lambda>a. case a of Called j _ \<Rightarrow> j = i | _ \<Rightarrow> False) tr)"

lemma called_times_simps [simp]:
  "called_times i [] = 0"
  "called_times i (Called j xs # tr) = (if j = i then Suc (called_times i tr) else called_times i tr)"
  "called_times i (Progress st j n # tr) = called_times i tr"
  "called_times i (Slept d # tr) = called_times i tr"
  "called_times i (BatchError j w # tr) = called_times i tr"
  "called_times i (BatchSucceeded j xs rs # tr) = called_times i tr"
  "called_times i (Checkpointed t # tr) = called_times i tr"
  "called_times i (tr @ us) = called_times i tr + called_times i us"
  by (simp_all add: called_times_def)

lemma attempt_batch_calls:
  "called_times i (fst (attempt_batch opts env b items left n)) \<le> (if i = bp_index b then left else 0)"
proof (induction left arbitrary: n)
  case (Suc left)
  from Suc [of "Suc n"] show ?case
    by (cases "be_submit env (bp_items b) (bp_index b) n") (auto simp: Let_def)
qed simp

lemma attempt_batch_one_call:
  assumes "be_submit env (bp_items b) (bp_index b) n = Inl f" "is_non_retryable (raw_error f)"
  shows "called_times i (fst (attempt_batch opts env b items left n)) \<le> 1"
  using assms by (cases left) (simp_all add: Let_def)

lemma attempt_batch_delays:
  "\<forall>d. Slept d \<in> set (fst (attempt_batch opts env b items left n)) \<longrightarrow> d \<le> pick (bo_max_delay_ms opts) 2000"
proof (induction left arbitrary: n)
  case (Suc left)
  from Suc [of "Suc n"] show ?case
    by (cases "be_submit env (bp_items b) (bp_index b) n") (auto simp: Let_def batch_delay_def)
qed simp

lemma batch_loop_calls:
  assumes "distinct (map bp_index bs)"
    and "\<And>b it. b \<in> set bs \<Longrightarrow> bp_index b = i \<Longrightarrow>
      called_times i (fst (attempt_batch opts env b it (max_batch_attempts opts) 1)) \<le> m"
  shows "called_times i (fst (batch_loop opts env es tot sz bs items succeeded results)) \<le>
    (if i \<in> bp_index ` set bs then m else 0)"
  using assms
proof (induction bs arbitrary: items succeeded results)
  case (Cons b bs)
  obtain tr e where a: "attempt_batch opts env b items (max_batch_attempts opts) 1 = (tr, e)" by fastforce
  have head: "called_times i tr \<le> (if i = bp_index b then m else 0)"
    using a Cons.prems(2) [of b items] attempt_batch_calls [of i opts env b items "max_batch_attempts opts" 1] by auto
  have tail: "called_times i (fst (batch_loop opts env es tot sz bs it sc rs)) \<le> (if i \<in> bp_index ` set bs then m else 0)"
    for it sc rs
    using Cons.prems by (intro Cons.IH) auto
  have "i = bp_index b \<Longrightarrow> i \<notin> bp_index ` set bs" using Cons.prems(1) by auto
  then have both: "called_times i tr + called_times i (fst (batch_loop opts env es tot sz bs it sc rs)) \<le>
      (if i \<in> bp_index ` set (b # bs) then m else 0)" for it sc rs
    using head tail [of it sc rs] by (cases "i = bp_index b") auto
  have alone: "called_times i tr \<le> (if i \<in> bp_index ` set (b # bs) then m else 0)"
    using head by (cases "i = bp_index b") auto
  show ?case
  proof (cases "be_aborted_batch env (bp_index b)")
    case False
    with a both alone show ?thesis
      by (cases e; cases "pick (bo_stop_on_first_failure opts) True") (simp_all add: Let_def split del: if_split)
  qed simp
qed simp

lemma batch_loop_delays:
  "\<forall>d. Slept d \<in> set (fst (batch_loop opts env es tot sz bs items succeeded results)) \<longrightarrow>
     d \<le> pick (bo_max_delay_ms opts) 2000"
proof (induction bs arbitrary: items succeeded results)
  case (Cons b bs)
  obtain tr e where a: "attempt_batch opts env b items (max_batch_attempts opts) 1 = (tr, e)" by fastforce
  have "\<forall>d. Slept d \<in> set tr \<longrightarrow> d \<le> pick (bo_max_delay_ms opts) 2000"
    using attempt_batch_delays [of opts env b items "max_batch_attempts opts" 1] a by simp
  with Cons.IH a show ?case by (cases e) (auto simp: Let_def)
qed simp

lemma iterate_batches_distinct:
  assumes "iterate_batches es ps = Inr bs"
  shows "distinct (map bp_index bs)"
proof -
  obtain s p where "bs = map (page_at es s p) [0..p - 1]" using iterate_batches_pages [OF assms] by metis
  then show ?thesis by (simp add: comp_def page_at_def Let_def)
qed

lemma submit_trace:
  assumes "submit_sequential_payroll_batches opts env es = (tr, out)"
  obtains "\<forall>i. called_times i tr = 0" "\<forall>d. Slept d \<notin> set tr"
  | start batches tot sz it where "distinct (map bp_index batches)"
      "tr = Progress StValidating start it # fst (batch_loop opts env es tot sz (drop (nat start) batches) it start [])"
proof (cases "iterate_batches es (Some (pick (bo_batch_size opts) (Whole 50)))")
  case (Inl e)
  with assms that(1) show ?thesis by (simp add: submit_sequential_payroll_batches_def)
next
  case batches: (Inr bs)
  show ?thesis
  proof (cases "es = []")
    case True
    with assms batches show ?thesis by (intro that(1)) (auto simp: submit_sequential_payroll_batches_def)
  next
    case False
    show ?thesis
    proof (cases "resume_point opts env es (pick (bo_batch_size opts) (Whole 50))")
      case (Inl e)
      with assms batches False show ?thesis
        by (intro that(1)) (auto simp: submit_sequential_payroll_batches_def Let_def)
    next
      case (Inr p)
      obtain start it where p: "p = (start, it)" by fastforce
      show ?thesis
      proof (cases "start \<ge> int (length bs)")
        case True
        with assms batches False Inr p show ?thesis
          by (intro that(1)) (auto simp: submit_sequential_payroll_batches_def Let_def)
      next
        case less: False
        from iterate_batches_distinct [OF batches] have "distinct (map bp_index bs)" .
        then show ?thesis
          by (rule that(2)) (use assms batches False Inr p less in \<open>auto simp: submit_sequential_payroll_batches_def Let_def\<close>)
      qed
    qed
  qed
qed

text \<open>
  whatever fails, a batch is handed to the handler at most \<open>max(1, maxRetries + 1)\<close> times, and only once
  if its first failure is permanent or has a blocking message; no sleep exceeds the largest delay.
\<close>

theorem attempts_are_bounded:
  assumes "submit_sequential_payroll_batches opts env es = (tr, out)"
  shows "int (called_times i tr) \<le> max 1 (pick (bo_max_retries opts) 3 + 1) \<and>
    ((\<forall>xs. \<exists>f. be_submit env xs i 1 = Inl f \<and> is_non_retryable (raw_error f)) \<longrightarrow> called_times i tr \<le> 1) \<and>
    (\<forall>d. Slept d \<in> set tr \<longrightarrow> d \<le> pick (bo_max_delay_ms opts) 2000)"
  using assms
proof (cases rule: submit_trace)
  case 1
  then show ?thesis by simp
next
  case (2 start batches tot sz it)
  let ?bs = "drop (nat start) batches"
  let ?loop = "fst (batch_loop opts env es tot sz ?bs it start [])"
  have dist: "distinct (map bp_index ?bs)" using 2(1) by (simp add: drop_map [symmetric])
  have "called_times i ?loop \<le> (if i \<in> bp_index ` set ?bs then max_batch_attempts opts else 0)"
    by (intro batch_loop_calls dist order_trans [OF attempt_batch_calls]) simp
  then have "called_times i ?loop \<le> max_batch_attempts opts" by (simp split: if_splits)
  moreover have "called_times i ?loop \<le> 1"
    if once: "\<forall>xs. \<exists>f. be_submit env xs i 1 = Inl f \<and> is_non_retryable (raw_error f)"
  proof -
    have "called_times i ?loop \<le> (if i \<in> bp_index ` set ?bs then 1 else 0)"
    proof (intro batch_loop_calls dist)
      fix b :: "payment_params batch_page" and it'
      assume "bp_index b = i"
      with once obtain f where "be_submit env (bp_items b) (bp_index b) 1 = Inl f" "is_non_retryable (raw_error f)" by blast
      then show "called_times i (fst (attempt_batch opts env b it' (max_batch_attempts opts) 1)) \<le> 1"
        by (rule attempt_batch_one_call)
    qed
    then show ?thesis by (simp split: if_splits)
  qed
  moreover have "d \<le> pick (bo_max_delay_ms opts) 2000" if "Slept d \<in> set tr" for d
    using that 2(2) batch_loop_delays [of opts env es tot sz ?bs it start "[]"] by auto
  ultimately show ?thesis by (auto simp: 2(2) max_batch_attempts_def)
qed

section \<open>Not stopping at failures\<close>

lemma attempt_batch_no_throw:
  assumes "\<And>xs j a f. be_submit env xs j a = Inl f \<Longrightarrow> bf_rebuildable (raw_error f)"
  shows "snd (attempt_batch opts env b items left n) \<noteq> RedactionThrew"
proof (induction left arbitrary: n)
  case (Suc left)
  from Suc [of "Suc n"] assms [of "bp_items b" "bp_index b" n] show ?case
    by (cases "be_submit env (bp_items b) (bp_index b) n") (auto simp: Let_def)
qed simp

lemma batch_loop_not_stopping:
  assumes "bo_stop_on_first_failure opts = Some False" "\<And>j. \<not> be_aborted_batch env j"
    and "\<And>xs j a f. be_submit env xs j a = Inl f \<Longrightarrow> bf_rebuildable (raw_error f)"
  shows "\<exists>r. snd (batch_loop opts env es tot sz bs items succeeded results) = Inr r \<and> br_success r \<and> br_error r = None \<and>
    br_results r = results @ confirmed_results (fst (batch_loop opts env es tot sz bs items succeeded results)) \<and>
    br_batches_processed r = succeeded + int (length (confirmed (fst (batch_loop opts env es tot sz bs items succeeded results))))"
proof (induction bs arbitrary: items succeeded results)
  case Nil
  then show ?case by (simp add: confirmed_results_def)
next
  case (Cons b bs)
  obtain tr e where a: "attempt_batch opts env b items (max_batch_attempts opts) 1 = (tr, e)" by fastforce
  have tr: "confirmed tr = []" using a by (metis attempt_batch_confirms_nothing fst_conv)
  have e: "e \<noteq> RedactionThrew"
  proof -
    have "snd (attempt_batch opts env b items (max_batch_attempts opts) 1) \<noteq> RedactionThrew"
      by (rule attempt_batch_no_throw) (rule assms(3))
    with a show ?thesis by simp
  qed
  show ?case
  proof (cases e)
    case (BatchDone rs)
    from Cons.IH [of "items + bp_count b" "succeeded + 1" "results @ rs"] a tr assms(2) BatchDone
    show ?thesis by (auto simp: Let_def confirmed_results_def)
  next
    case BatchFailed
    from Cons.IH [of items succeeded results] a tr assms(1,2) BatchFailed
    show ?thesis by (auto simp: Let_def confirmed_results_def pick_def)
  qed (use e in simp)
qed


text \<open>
  with \<open>stopOnFirstFailure\<close> off, a run that is not cancelled reports success without an error whatever the
  handler did, although only the batches it confirmed are in its results and counts.
\<close>

theorem skipped_failures_report_success:
  assumes "pick (bo_batch_size opts) (Whole 50) = Whole (int n)" "0 < n" "es \<noteq> []"
    and "bo_resume_token opts = None" "bo_stop_on_first_failure opts = Some False"
    and "\<And>j. \<not> be_aborted_batch env j"
    and "\<And>xs j a f. be_submit env xs j a = Inl f \<Longrightarrow> bf_rebuildable (raw_error f)"
  shows "\<exists>tr r. submit_sequential_payroll_batches opts env es = (tr, Inr r) \<and> br_success r \<and> br_error r = None \<and>
    br_results r = confirmed_results tr \<and> br_batches_processed r = int (length (confirmed tr))"
proof -
  have rp: "resume_point opts env es (Whole (int n)) = Inr (int 0, 0)" using assms by (simp add: resume_point_def)
  have "0 < batch_number es n"
    using total_pages_pos [of "int n" "int (length es)"] assms(2) by (simp add: batch_number_def)
  moreover define bs where "bs = drop 0 (map (page_at es (int n) (int (batch_number es n))) [0..int (batch_number es n) - 1])"
  moreover define run where "run = batch_loop opts env es (int (batch_number es n)) (int n) bs 0 (int 0) []"
  ultimately have sub: "submit_sequential_payroll_batches opts env es = (Progress StValidating (int 0) 0 # fst run, snd run)"
    using submit_unfold [OF assms(1-3) rp] by (simp add: Let_def)
  obtain r where "snd run = Inr r" "br_success r" "br_error r = None"
      "br_results r = confirmed_results (fst run)" "br_batches_processed r = int (length (confirmed (fst run)))"
    using batch_loop_not_stopping [OF assms(5-7)] unfolding run_def by fastforce
  then show ?thesis using sub by (intro exI [of _ "fst (submit_sequential_payroll_batches opts env es)"] exI [of _ r])
      (simp add: confirmed_results_def)
qed


section \<open>Example runs\<close>

definition example_options :: batch_options where
  "example_options =
     \<lparr>bo_batch_size = Some (Whole 1), bo_max_retries = Some 1, bo_initial_delay_ms = None, bo_max_delay_ms = None,
      bo_delay_factor = None, bo_stop_on_first_failure = None, bo_resume_token = None\<rparr>"

definition example_env :: "(int \<Rightarrow> batch_failure + nat list) \<Rightarrow> nat batch_env" where
  "example_env handler =
     \<lparr>be_submit = (\<lambda>_ i _. handler i), be_aborted_batch = (\<lambda>_. False), be_aborted_attempt = (\<lambda>_ _. False),
      be_aborted_failed = (\<lambda>_ _. False), be_sleep_ok = (\<lambda>_ _. True), be_now = (\<lambda>_. 3), be_lib = example_lib\<rparr>"

definition rejects_second :: "int \<Rightarrow> batch_failure + nat list" where
  "rejects_second i = (if i = 1 then Inl \<lparr>bf_error = ValidationErr, bf_message = ''no'', bf_rebuildable = True\<rparr> else Inr [7])"

definition example_token :: string where
  "example_token = create_batch_resume_token example_lib 3 example_entries 1 1 2 1"

lemma example_first_run:
  "case snd (submit_sequential_payroll_batches example_options (example_env rejects_second) example_entries) of
     Inl _ \<Rightarrow> False
   | Inr r \<Rightarrow> br_total_batches r = 2 \<and>
       (case br_error r of None \<Rightarrow> False
        | Some d \<Rightarrow> ed_failed_batch_index d = 1 \<and> ed_items_succeeded d = 1 \<and> ed_resume_token d = Some example_token)"
  by code_simp



lemma example_first_run_ends:
  obtains tr r d where
    "submit_sequential_payroll_batches example_options (example_env rejects_second) example_entries = (tr, Inr r)"
    "br_total_batches r = 2" "br_error r = Some d" "ed_failed_batch_index d = 1" "ed_items_succeeded d = 1"
    "ed_resume_token d = Some example_token"
  using example_first_run
  by (cases "submit_sequential_payroll_batches example_options (example_env rejects_second) example_entries")
    (auto split: sum.splits option.splits)


theorem run_confirms_a_prefix_witness:
  "\<exists>tr r. submit_sequential_payroll_batches example_options (example_env rejects_second) example_entries = (tr, Inr r) \<and>
     (br_success r \<longleftrightarrow> confirmed_items tr = example_entries)"
proof -
  obtain tr r where run: "submit_sequential_payroll_batches example_options (example_env rejects_second) example_entries = (tr, Inr r)"
    by (rule example_first_run_ends)
  with run_confirms_a_prefix [of example_options 1 example_entries "example_env rejects_second" tr r] show ?thesis
    by (auto simp: example_options_def pick_def example_entries_def)
qed


theorem attempts_are_bounded_witness:
  "\<exists>tr out. submit_sequential_payroll_batches example_options (example_env rejects_second) example_entries = (tr, out) \<and>
     int (called_times 1 tr) \<le> 2 \<and> called_times 1 tr \<le> 1"
proof -
  obtain tr r where run: "submit_sequential_payroll_batches example_options (example_env rejects_second) example_entries = (tr, Inr r)"
    by (rule example_first_run_ends)
  have "\<forall>xs. \<exists>f. be_submit (example_env rejects_second) xs 1 1 = Inl f \<and> is_non_retryable (raw_error f)"
    by (simp add: example_env_def rejects_second_def is_non_retryable_def raw_error_def classify_error_def decision_def)
  with attempts_are_bounded [OF run, of 1] run show ?thesis
    by (auto simp: example_options_def pick_def)
qed

theorem skipped_failures_report_success_witness:
  "\<exists>tr r. submit_sequential_payroll_batches (example_options\<lparr>bo_stop_on_first_failure := Some False\<rparr>)
     (example_env rejects_second) example_entries = (tr, Inr r) \<and> br_success r"
proof -
  let ?o = "example_options\<lparr>bo_stop_on_first_failure := Some False\<rparr>"
  have "pick (bo_batch_size ?o) (Whole 50) = Whole (int 1)" "bo_resume_token ?o = None"
    "bo_stop_on_first_failure ?o = Some False"
    by (simp_all add: example_options_def pick_def)
  moreover have "\<And>j. \<not> be_aborted_batch (example_env rejects_second) j" by (simp add: example_env_def)
  moreover have "\<And>xs j a f. be_submit (example_env rejects_second) xs j a = Inl f \<Longrightarrow> bf_rebuildable (raw_error f)"
    by (auto simp: example_env_def rejects_second_def raw_error_def split: if_splits)
  moreover have "example_entries \<noteq> []" by (simp add: example_entries_def)
  ultimately show ?thesis using skipped_failures_report_success [of ?o 1 example_entries "example_env rejects_second"]
    by fastforce
qed

end
