(* ===== verification/PayrollService.thy ===== *)
theory PayrollService
  imports PaymentGate Idempotency BatchSubmission
begin

text \<open>
  The payment service (\<open>packages/core/src/payroll.ts\<close>): one payment behind its idempotency key, and batches of payments
  alone or through the sequential submitter of \<open>BatchSubmission\<close>. Calls come one after the other, each awaited, as both
  batch methods make them. The state is the registry, the settled promises and what was sent to the contract; the
  prover, the contract with the network behind it, and the clock at each payment are the fields of an environment.
  Progress events and logging are left out.
\<close>

section \<open>Environment and state\<close>

record service_proof =
  po_proof :: string
  po_public_signals :: "string list"

datatype prover_answer = ProofMade service_proof | ProverPayrollError batch_failure | ProverError string

text \<open>
  A call of \<open>private_pay\<close> may also throw after the network has taken the payment, as a poll that times out does. The failure is
  the one that leaves the handler of the call, which redacts the message for the log before it throws the error again: the
  error itself, or what its constructor throws when it is given the redacted message.
\<close>

datatype chain_answer = Applied string | Refused batch_failure | LostAnswer batch_failure

record service_env =
  sv_keys :: strkeys
  sv_hook :: "(string \<Rightarrow> hook_answer) option"
  sv_prove :: "nat \<Rightarrow> witness \<Rightarrow> prover_answer"
  sv_chain :: "nat \<Rightarrow> chain_answer"
  sv_now :: "nat \<Rightarrow> int"

record payment_result =
  pr_tx_hash :: string
  pr_public_signals :: "string list"

record chain_call =
  cc_payment :: payment_params
  cc_proof :: service_proof
  cc_applied :: bool

type_synonym payment_outcome = "(batch_failure, payment_result) result"

record service_world =
  sw_registry :: idempotency_registry
  sw_settled :: "(nat, payment_outcome) dict"
  sw_count :: nat
  sw_calls :: "chain_call list"

definition new_service :: service_world where
  "new_service = \<lparr>sw_registry = new_registry None, sw_settled = [], sw_count = 0, sw_calls = []\<rparr>"

definition set_destination_validation_hook :: "(string \<Rightarrow> hook_answer) option \<Rightarrow> service_env \<Rightarrow> service_env" where
  "set_destination_validation_hook hook env = env\<lparr>sv_hook := hook\<rparr>"

definition reset_destination_validation_hook :: "service_env \<Rightarrow> service_env" where
  "reset_destination_validation_hook env = env\<lparr>sv_hook := None\<rparr>"

section \<open>One payment\<close>

definition payroll_error :: "string \<Rightarrow> string \<Rightarrow> batch_failure" where
  "payroll_error code msg = \<lparr>bf_error = SdkErr code, bf_message = msg, bf_rebuildable = True\<rparr>"

fun field_error_code :: "payment_field \<Rightarrow> string" where
  "field_error_code RecipientField = ''2002''"
| "field_error_code AmountField = ''2003''"
| "field_error_code AssetField = ''2004''"

definition check_payment_params :: "service_env \<Rightarrow> payment_params \<Rightarrow> (batch_failure, unit) result" where
  "check_payment_params env p =
     (case validate_payment_params (sv_keys env) p of
        [] \<Rightarrow> Inr ()
      | (field, msg) # _ \<Rightarrow> Inl (payroll_error (field_error_code field) msg))"

definition check_destination :: "service_env \<Rightarrow> payment_params \<Rightarrow> (batch_failure, unit) result" where
  "check_destination env p =
     (case validate_payment_destination (sv_keys env) (sv_hook env) (pp_recipient p) of
        Inl f \<Rightarrow> Inl (payroll_error ''2002'' (df_message f))
      | Inr _ \<Rightarrow> Inr ())"

definition raw_witness :: "payment_params \<Rightarrow> witness" where
  "raw_witness p =
     [(''recipient'', WString (pp_recipient p)), (''amount'', WString (int_string (pp_amount p))), (''asset'', WString (pp_asset p))]"

text \<open>The sanitizer cannot fail after the checks of the parameters (lemma \<open>payroll_witness_ok\<close>); its message is left out.\<close>

definition generate_payment_proof :: "service_env \<Rightarrow> nat \<Rightarrow> payment_params \<Rightarrow> (batch_failure, service_proof) result" where
  "generate_payment_proof env n p =
     (case assert_valid_payroll_witness (raw_witness p) of
        Inl e \<Rightarrow> Inl \<lparr>bf_error = ProofErr, bf_message = [], bf_rebuildable = True\<rparr>
      | Inr witness \<Rightarrow>
          (case sv_prove env n witness of
             ProofMade pf \<Rightarrow> Inr pf
           | ProverPayrollError f \<Rightarrow> Inl f
           | ProverError msg \<Rightarrow> Inl (payroll_error ''2001'' (''Proof generation failed: '' @ msg))))"

definition process_payment_internal ::
  "service_env \<Rightarrow> nat \<Rightarrow> payment_params \<Rightarrow> service_world \<Rightarrow> payment_outcome \<times> service_world" where
  "process_payment_internal env n p w =
     (case bind_result (check_payment_params env p) (\<lambda>_. bind_result (check_destination env p) (\<lambda>_.
             generate_payment_proof env n p)) of
        Inl f \<Rightarrow> (Inl f, w)
      | Inr pf \<Rightarrow>
          let called = (\<lambda>applied. w\<lparr>sw_calls := sw_calls w @ [\<lparr>cc_payment = p, cc_proof = pf, cc_applied = applied\<rparr>]\<rparr>) in
          (case sv_chain env n of
             Applied hash \<Rightarrow> (Inr \<lparr>pr_tx_hash = hash, pr_public_signals = po_public_signals pf\<rparr>, called True)
           | Refused f \<Rightarrow> (Inl f, called False)
           | LostAnswer f \<Rightarrow> (Inl f, called True)))"

text \<open>
  \<open>execute\<close> of the registry around the payment. Its promise has settled before the next call; a promise found under the
  key is one of an earlier call.
\<close>

definition process_payment :: "service_env \<Rightarrow> payment_params \<Rightarrow> service_world \<Rightarrow> payment_outcome \<times> service_world" where
  "process_payment env p w =
     (let n = sw_count w; w1 = w\<lparr>sw_count := Suc n\<rparr>; key = map_option js_trim (pp_idempotency_key p) in
      if \<not> truthy key then process_payment_internal env n p w1
      else case execute_start (sv_now env n) (the key) None None (sw_registry w) of
          Inl EmptyKey \<Rightarrow> (Inl \<lparr>bf_error = GenericErr ''Error'' ''Idempotency key must not be empty'', bf_message = ''Idempotency key must not be empty'', bf_rebuildable = True\<rparr>, w1)
        | Inr ((promise, False), r) \<Rightarrow> (the (dict_get (sw_settled w) promise), w1\<lparr>sw_registry := r\<rparr>)
        | Inr ((promise, True), r) \<Rightarrow>
            let (outcome, w2) = process_payment_internal env n p (w1\<lparr>sw_registry := r\<rparr>)
            in (outcome, w2\<lparr>sw_registry := execute_settle promise (is_ok outcome) (sw_registry w2),
                  sw_settled := dict_put promise outcome (sw_settled w2)\<rparr>))"

section \<open>Batches\<close>

text \<open>The payments of a list one after the other, up to the first that fails\<close>

fun pay_all ::
  "service_env \<Rightarrow> payment_params list \<Rightarrow> service_world \<Rightarrow> (batch_failure, payment_result list) result \<times> service_world" where
  "pay_all env [] w = (Inr [], w)"
| "pay_all env (p # ps) w =
     (case process_payment env p w of
        (Inl f, w1) \<Rightarrow> (Inl f, w1)
      | (Inr r, w1) \<Rightarrow> (let (rest, w2) = pay_all env ps w1 in (bind_result rest (\<lambda>rs. Inr (r # rs)), w2)))"

datatype service_error =
  ServiceBatch "batch_validation_error list" | ServicePageSize | ServicePayment batch_failure | ServiceSubmit submit_error

definition process_batch_payments ::
  "service_env \<Rightarrow> payment_params list \<Rightarrow> jsnum option \<Rightarrow> service_world \<Rightarrow>
   (service_error, payment_result list) result \<times> service_world" where
  "process_batch_payments env entries batch_size w =
     (case assert_valid_batch_payload entries of
        Inl es \<Rightarrow> (Inl (ServiceBatch es), w)
      | Inr payload \<Rightarrow>
          (case iterate_batches (bl_entries payload) batch_size of
             Inl e \<Rightarrow> (Inl ServicePageSize, w)
           | Inr batches \<Rightarrow>
               (case pay_all env (concat (map bp_items batches)) w of
                  (Inl f, w1) \<Rightarrow> (Inl (ServicePayment f), w1)
                | (Inr rs, w1) \<Rightarrow> (Inr rs, w1))))"

text \<open>
  The handler given to the submitter pays the items of its batch. The submitter takes the answers of the handler from
  its environment, so the service computes them: attempt \<open>a\<close> at a batch starts in the state that \<open>a - 1\<close> attempts have
  left, and a batch in the state that the attempts made at the batches before it have left.
\<close>

definition after_attempts :: "service_env \<Rightarrow> payment_params list \<Rightarrow> nat \<Rightarrow> service_world \<Rightarrow> service_world" where
  "after_attempts env items k = (\<lambda>w. snd (pay_all env items w)) ^^ k"

definition attempt_answer :: "service_env \<Rightarrow> payment_params list \<Rightarrow> nat \<Rightarrow> service_world \<Rightarrow> batch_failure + payment_result list" where
  "attempt_answer env items attempt w = fst (pay_all env items (after_attempts env items (attempt - 1) w))"

text \<open>The state a trace of the submitter leaves\<close>

definition action_effect :: "service_env \<Rightarrow> payment_result batch_action \<Rightarrow> service_world \<Rightarrow> service_world" where
  "action_effect env a w = (case a of Called i items \<Rightarrow> snd (pay_all env items w) | _ \<Rightarrow> w)"

definition trace_effect :: "service_env \<Rightarrow> payment_result batch_action list \<Rightarrow> service_world \<Rightarrow> service_world" where
  "trace_effect env tr w = fold (action_effect env) tr w"

definition one_batch_env :: "service_env \<Rightarrow> payment_result batch_env \<Rightarrow> service_world \<Rightarrow> payment_result batch_env" where
  "one_batch_env env base w = base\<lparr>be_submit := \<lambda>items i attempt. attempt_answer env items attempt w\<rparr>"

fun batch_worlds ::
  "service_env \<Rightarrow> batch_options \<Rightarrow> payment_result batch_env \<Rightarrow> payment_params batch_page list \<Rightarrow> service_world \<Rightarrow>
   (int, service_world) dict" where
  "batch_worlds env opts base [] w = []"
| "batch_worlds env opts base (b # bs) w =
     (bp_index b, w) # batch_worlds env opts base bs
       (trace_effect env (fst (attempt_batch opts (one_batch_env env base w) b 0 (max_batch_attempts opts) 1)) w)"

definition pending_batches ::
  "batch_options \<Rightarrow> payment_result batch_env \<Rightarrow> payment_params list \<Rightarrow> payment_params batch_page list" where
  "pending_batches opts base entries =
     (let batch_size = pick (bo_batch_size opts) (Whole 50) in
      case (iterate_batches entries (Some batch_size), resume_point opts base entries batch_size) of
        (Inr batches, Inr (start, items)) \<Rightarrow> drop (nat start) batches
      | _ \<Rightarrow> [])"

definition service_batch_env ::
  "service_env \<Rightarrow> payment_result batch_env \<Rightarrow> (int, service_world) dict \<Rightarrow> payment_result batch_env" where
  "service_batch_env env base worlds =
     base\<lparr>be_submit := \<lambda>items i attempt. attempt_answer env items attempt (the (dict_get worlds i))\<rparr>"

definition submit_batch_payments_safely ::
  "service_env \<Rightarrow> payment_params list \<Rightarrow> batch_options \<Rightarrow> payment_result batch_env \<Rightarrow> service_world \<Rightarrow>
   payment_result batch_action list \<times> (service_error, payment_result batch_result) result \<times> service_world" where
  "submit_batch_payments_safely env entries opts base w =
     (case assert_valid_batch_payload entries of
        Inl es \<Rightarrow> ([], Inl (ServiceBatch es), w)
      | Inr payload \<Rightarrow>
          let batch_env = service_batch_env env base
                (batch_worlds env opts base (pending_batches opts base (bl_entries payload)) w);
              (tr, res) = submit_sequential_payroll_batches opts batch_env (bl_entries payload)
          in (tr, map_sum ServiceSubmit id res, trace_effect env tr w))"

section \<open>Every call of the contract has passed the gate\<close>

lemma payroll_witness_ok:
  assumes "validate_payment_params keys p = []" "\<not> blank (pp_recipient p)"
  shows "assert_valid_payroll_witness (raw_witness p) =
    Inr [(''recipient'', WString (js_trim (pp_recipient p))), (''amount'', WString (int_string (pp_amount p))),
         (''asset'', WString (js_trim (pp_asset p)))]"
proof -
  have a: "0 < pp_amount p" "js_trim (pp_asset p) \<noteq> []" "js_trim (pp_recipient p) \<noteq> []"
    using assms by (simp_all add: validate_payment_params_Nil blank_def)
  then have s: "int_string (pp_amount p) = dec_string (nat (pp_amount p))" by (simp add: int_string_def)
  have d: "\<forall>c \<in> set (int_string (pp_amount p)). is_digit c" "int_string (pp_amount p) \<noteq> []"
    using dec_string_digits radix_string_nonempty by (auto simp: s)
  then have t: "js_trim (int_string (pp_amount p)) = int_string (pp_amount p)"
    by (intro js_trim_no_space) (auto dest: is_digit_not_space)
  have "normalize_amount (WString (int_string (pp_amount p))) = Some (int_string (pp_amount p))"
    using d by (simp add: normalize_amount_def t list_all_iff)
  then have "sanitize_proof_input (Some (raw_witness p)) =
    Inr [(''recipient'', WString (js_trim (pp_recipient p))), (''amount'', WString (int_string (pp_amount p))),
         (''asset'', WString (js_trim (pp_asset p)))]"
    using a by (simp add: sanitize_proof_input_def raw_witness_def forbidden_errors_def forbidden_witness_fields_def
        text_errors_def amount_errors_def present_field_def kept_text_def kept_amount_def carried_fields_def blank_def)
  moreover have "\<not> missing_field (raw_witness p) k" if "k \<in> set payroll_required_fields" for k
    using that a d(2) t
    by (auto simp: missing_field_def raw_witness_def present_field_def payroll_required_fields_def blank_def)
  ultimately show ?thesis
    by (simp add: assert_valid_payroll_witness_def payroll_required_fields_def note_missing_def)
qed

definition payroll_witness :: "payment_params \<Rightarrow> witness" where
  "payroll_witness p =
     [(''recipient'', WString (js_trim (pp_recipient p))), (''amount'', WString (int_string (pp_amount p))),
      (''asset'', WString (js_trim (pp_asset p)))]"

definition gated :: "service_env \<Rightarrow> chain_call \<Rightarrow> bool" where
  "gated env c \<longleftrightarrow>
     (let p = cc_payment c; r = pp_recipient p in
      ((\<exists>dk. validate_payout_destination (sv_keys env) r = Inr dk) \<or> legacy_reference r) \<and>
      (\<forall>h. sv_hook env = Some h \<longrightarrow> (\<exists>k. h r = HookOk k)) \<and>
      0 < pp_amount p \<and> \<not> blank (pp_asset p) \<and>
      (\<exists>n. sv_prove env n (payroll_witness p) = ProofMade (cc_proof c)))"

definition calls_gated :: "service_env \<Rightarrow> service_world \<Rightarrow> bool" where
  "calls_gated env w \<longleftrightarrow> list_all (gated env) (sw_calls w)"

lemma recipient_not_blank:
  assumes "(\<exists>dk. validate_payout_destination keys s = Inr dk) \<or> legacy_reference s"
  shows "\<not> blank s"
proof (cases "\<exists>dk. validate_payout_destination keys s = Inr dk")
  case True
  then show ?thesis by (auto simp: validate_payout_destination_def blank_def split: if_splits)
next
  case False
  then have l: "legacy_reference s" using assms by simp
  then obtain d cs where s: "s = CHR ''G'' # d # cs" by (auto simp: legacy_reference_def split: list.splits)
  have "js_trim s \<noteq> []"
  proof
    assume "js_trim s = []"
    then have "\<forall>c \<in> set (dropWhile js_space s). js_space c" by (simp add: js_trim_def dropWhile_eq_Nil_conv)
    moreover have "\<not> js_space (CHR ''G'')" by (simp add: js_space_def)
    ultimately show False by (simp add: s)
  qed
  then show ?thesis by (simp add: blank_def)
qed

lemma internal_calls:
  assumes "process_payment_internal env n p w = (res, w')"
  shows "w' = w \<or> (\<exists>c. gated env c \<and> cc_payment c = p \<and> (cc_applied c \<longleftrightarrow> (\<forall>f. sv_chain env n \<noteq> Refused f)) \<and>
    w' = w\<lparr>sw_calls := sw_calls w @ [c]\<rparr>)"
proof (cases "bind_result (check_payment_params env p) (\<lambda>_. bind_result (check_destination env p) (\<lambda>_.
      generate_payment_proof env n p))")
  case (Inl f)
  then show ?thesis using assms by (simp add: process_payment_internal_def)
next
  case (Inr pf)
  then have ok: "check_payment_params env p = Inr ()" "check_destination env p = Inr ()" "generate_payment_proof env n p = Inr pf"
    by (auto simp: result_simps)
  have params: "validate_payment_params (sv_keys env) p = []"
    using ok(1) by (auto simp: check_payment_params_def split: list.splits)
  obtain dk where dk: "validate_payment_destination (sv_keys env) (sv_hook env) (pp_recipient p) = Inr dk"
    using ok(2) by (auto simp: check_destination_def split: sum.splits)
  obtain d k where "dk = (d, k)" by fastforce
  then have dest: "(\<exists>dk. validate_payout_destination (sv_keys env) (pp_recipient p) = Inr dk) \<or> legacy_reference (pp_recipient p)"
    "\<forall>h. sv_hook env = Some h \<longrightarrow> (\<exists>x. h (pp_recipient p) = HookOk x)"
    using validate_payment_destination_Inr [of "sv_keys env" "sv_hook env" "pp_recipient p" d k] dk by auto
  have "sv_prove env n (payroll_witness p) = ProofMade pf"
    using ok(3) payroll_witness_ok [OF params recipient_not_blank [OF dest(1)]]
    by (auto simp: generate_payment_proof_def payroll_witness_def split: prover_answer.splits)
  then have gated: "gated env \<lparr>cc_payment = p, cc_proof = pf, cc_applied = b\<rparr>" for b
    using dest params by (auto simp: gated_def Let_def validate_payment_params_Nil)
  define b where "b \<longleftrightarrow> (\<forall>f. sv_chain env n \<noteq> Refused f)"
  have "w' = w\<lparr>sw_calls := sw_calls w @ [\<lparr>cc_payment = p, cc_proof = pf, cc_applied = b\<rparr>]\<rparr>"
    using assms Inr by (cases "sv_chain env n") (simp_all add: process_payment_internal_def Let_def b_def)
  then show ?thesis
    using gated [of b] by (intro disjI2 exI [of _ "\<lparr>cc_payment = p, cc_proof = pf, cc_applied = b\<rparr>"]) (simp add: b_def)
qed

lemma process_payment_cases:
  assumes "process_payment env p w = (res, w')"
  obtains (plain) "\<not> truthy (map_option js_trim (pp_idempotency_key p))"
      "process_payment_internal env (sw_count w) p (w\<lparr>sw_count := Suc (sw_count w)\<rparr>) = (res, w')"
    | (replay) promise r where
      "execute_start (sv_now env (sw_count w)) (js_trim (the (pp_idempotency_key p))) None None (sw_registry w) =
         Inr ((promise, False), r)"
      "res = the (dict_get (sw_settled w) promise)" "w' = w\<lparr>sw_count := Suc (sw_count w), sw_registry := r\<rparr>"
    | (called) promise r w2 where
      "execute_start (sv_now env (sw_count w)) (js_trim (the (pp_idempotency_key p))) None None (sw_registry w) =
         Inr ((promise, True), r)"
      "process_payment_internal env (sw_count w) p (w\<lparr>sw_count := Suc (sw_count w), sw_registry := r\<rparr>) = (res, w2)"
      "w' = w2\<lparr>sw_registry := execute_settle promise (is_ok res) (sw_registry w2),
         sw_settled := dict_put promise res (sw_settled w2)\<rparr>"
proof (cases "truthy (map_option js_trim (pp_idempotency_key p))")
  case False
  then show thesis using assms plain by (simp add: process_payment_def Let_def)
next
  case True
  then obtain k where k: "pp_idempotency_key p = Some k" "js_trim k \<noteq> []" by (cases "pp_idempotency_key p") auto
  then have "\<exists>y. execute_start (sv_now env (sw_count w)) (js_trim k) None None (sw_registry w) = Inr y"
    by (cases "dict_get (prune_expired (sv_now env (sw_count w)) (ir_entries (sw_registry w))) (js_trim k)")
      (auto simp: execute_start_def Let_def normalize_idempotency_key_def)
  then obtain promise c r where
    e: "execute_start (sv_now env (sw_count w)) (js_trim k) None None (sw_registry w) = Inr ((promise, c), r)"
    by (metis surj_pair)
  show thesis
  proof (cases c)
    case False
    then show thesis using replay [of promise r] assms k e by (simp add: process_payment_def Let_def)
  next
    case True
    obtain res2 w2 where i: "process_payment_internal env (sw_count w) p (w\<lparr>sw_count := Suc (sw_count w), sw_registry := r\<rparr>) = (res2, w2)"
      by fastforce
    have "process_payment env p w = (res2, w2\<lparr>sw_registry := execute_settle promise (is_ok res2) (sw_registry w2),
         sw_settled := dict_put promise res2 (sw_settled w2)\<rparr>)"
      using True k e i by (simp add: process_payment_def Let_def)
    then have "res2 = res" "w' = w2\<lparr>sw_registry := execute_settle promise (is_ok res2) (sw_registry w2),
         sw_settled := dict_put promise res2 (sw_settled w2)\<rparr>"
      using assms by simp_all
    then show thesis using called [of promise r w2] True k e i by simp
  qed
qed

lemma process_payment_gated:
  assumes "calls_gated env w" "process_payment env p w = (res, w')"
  shows "calls_gated env w'"
  using assms(2)
proof (cases rule: process_payment_cases)
  case plain
  then show ?thesis using assms(1) internal_calls [OF plain(2)] by (auto simp: calls_gated_def)
next
  case (replay promise r)
  then show ?thesis using assms(1) by (simp add: calls_gated_def)
next
  case (called promise r w2)
  then show ?thesis using assms(1) internal_calls [OF called(2)] by (auto simp: calls_gated_def)
qed

lemma pay_all_gated: "calls_gated env w \<Longrightarrow> calls_gated env (snd (pay_all env ps w))"
proof (induction ps arbitrary: w)
  case (Cons p ps)
  obtain res w1 where r: "process_payment env p w = (res, w1)" by fastforce
  then have "calls_gated env w1" using process_payment_gated Cons.prems by blast
  then show ?case using r Cons.IH [of w1] by (cases res) (auto simp: Let_def split_beta)
qed simp

lemma trace_effect_gated: "calls_gated env w \<Longrightarrow> calls_gated env (trace_effect env tr w)"
proof (induction tr arbitrary: w)
  case (Cons a tr)
  have "calls_gated env (action_effect env a w)"
    using Cons.prems by (cases a) (simp_all add: action_effect_def pay_all_gated)
  then show ?case using Cons.IH by (simp add: trace_effect_def)
qed (simp add: trace_effect_def)

text \<open>
  C5: Nothing reaches the contract ungated: whatever the batches, the retries, the keys, the prover and the network do,
  every payment submitted has a positive amount, an asset, a destination that the built-in check or the legacy pattern
  accepts and the registered hook, if there is one, approves, and a proof that the prover made for its own witness.
\<close>
theorem submitted_payments_are_gated:
  "list_all (gated env) (sw_calls (snd (snd (submit_batch_payments_safely env entries opts base new_service)))) \<and>
   list_all (gated env) (sw_calls (snd (process_batch_payments env entries page_size new_service)))"
proof -
  have start: "calls_gated env new_service" by (simp add: calls_gated_def new_service_def)
  have "calls_gated env (snd (snd (submit_batch_payments_safely env entries opts base new_service)))"
    using trace_effect_gated [OF start]
    by (auto simp: submit_batch_payments_safely_def Let_def start split_beta split: sum.split)
  moreover have "calls_gated env (snd (process_batch_payments env entries page_size new_service))"
  proof -
    have "snd (process_batch_payments env entries page_size new_service) = new_service \<or>
      (\<exists>ps. snd (process_batch_payments env entries page_size new_service) = snd (pay_all env ps new_service))"
      by (auto simp: process_batch_payments_def split: sum.split prod.split) (metis snd_conv)+
    then show ?thesis using start pay_all_gated by metis
  qed
  ultimately show ?thesis by (simp add: calls_gated_def)
qed

section \<open>With keys every payment is made once\<close>

definition pay_key :: "payment_params \<Rightarrow> string" where
  "pay_key p = js_trim (the (pp_idempotency_key p))"

definition keyed :: "payment_params \<Rightarrow> bool" where
  "keyed p \<longleftrightarrow> truthy (map_option js_trim (pp_idempotency_key p))"

definition applied_payments :: "service_world \<Rightarrow> payment_params list" where
  "applied_payments w = map cc_payment (filter cc_applied (sw_calls w))"

text \<open>The registry holds exactly the payments made, with their results, and none of them expires in the first five minutes.\<close>

definition entry_settled :: "int \<Rightarrow> payment_params list \<Rightarrow> service_world \<Rightarrow> string \<times> idempotency_entry \<Rightarrow> bool" where
  "entry_settled t0 paid w = (\<lambda>(k, e).
     k \<in> pay_key ` set paid \<and> ie_promise e < ir_next (sw_registry w) \<and>
     (\<exists>t. ie_expires_at e = Some t \<and> t0 + 300000 \<le> t) \<and> (\<exists>r. dict_get (sw_settled w) (ie_promise e) = Some (Inr r)))"

definition paid_exactly :: "int \<Rightarrow> payment_params list \<Rightarrow> service_world \<Rightarrow> bool" where
  "paid_exactly t0 paid w \<longleftrightarrow>
     applied_payments w = paid \<and> ir_waiting (sw_registry w) = [] \<and> ir_default_ttl (sw_registry w) = 300000 \<and>
     list_all (entry_settled t0 paid w) (ir_entries (sw_registry w)) \<and>
     (\<forall>p \<in> set paid. dict_get (ir_entries (sw_registry w)) (pay_key p) \<noteq> None)"

text \<open>The clock stays within the five minutes, and a call that throws has not been applied.\<close>

definition prompt_and_honest :: "int \<Rightarrow> service_env \<Rightarrow> bool" where
  "prompt_and_honest t0 env \<longleftrightarrow>
     (\<forall>n. t0 \<le> sv_now env n \<and> sv_now env n < t0 + 300000) \<and> (\<forall>n f. sv_chain env n \<noteq> LostAnswer f)"

lemma prune_unexpired:
  "list_all (\<lambda>(k, e). \<exists>t. ie_expires_at e = Some t \<and> now < t) es \<Longrightarrow> prune_expired now es = es"
  by (induction es) (auto simp: prune_expired_def)

lemma dict_put_fresh: "dict_get d k = None \<Longrightarrow> dict_put k v d = d @ [(k, v)]"
  by (induction d) (auto split: if_splits)

lemma delete_snoc_fresh: "dict_get d k = None \<Longrightarrow> AList.delete k (d @ [(k, v)]) = d"
  by (induction d) (auto simp: AList.delete_eq split: if_splits)

lemma internal_applied:
  assumes "process_payment_internal env n p w = (res, w')" "prompt_and_honest t0 env"
  shows "applied_payments w' = applied_payments w @ (if is_ok res then [p] else []) \<and>
    sw_registry w' = sw_registry w \<and> sw_settled w' = sw_settled w"
proof (cases "bind_result (check_payment_params env p) (\<lambda>_. bind_result (check_destination env p) (\<lambda>_.
      generate_payment_proof env n p))")
  case (Inl f)
  then show ?thesis using assms(1) by (auto simp: process_payment_internal_def)
next
  case (Inr pf)
  then show ?thesis using assms
    by (cases "sv_chain env n") (auto simp: process_payment_internal_def Let_def applied_payments_def prompt_and_honest_def)
qed

lemma start_found:
  assumes inv: "paid_exactly t0 paid w" and env: "prompt_and_honest t0 env" and p: "p \<in> set paid" "keyed p"
  shows "\<exists>r. process_payment env p w = (Inr r, w\<lparr>sw_count := Suc (sw_count w)\<rparr>)"
proof -
  let ?es = "ir_entries (sw_registry w)"
  obtain e where e: "dict_get ?es (pay_key p) = Some e" using inv p(1) by (auto simp: paid_exactly_def)
  then have "entry_settled t0 paid w (pay_key p, e)"
    using inv by (auto simp: paid_exactly_def list_all_iff dest: map_of_SomeD)
  then obtain r where r: "dict_get (sw_settled w) (ie_promise e) = Some (Inr r)" by (auto simp: entry_settled_def)
  have "sv_now env n < t" if "t0 + 300000 \<le> t" for n t
  proof -
    have "sv_now env n < t0 + 300000" using env by (simp add: prompt_and_honest_def)
    then show ?thesis using that by simp
  qed
  then have "list_all (\<lambda>(k, e). \<exists>t. ie_expires_at e = Some t \<and> sv_now env (sw_count w) < t) ?es"
    using inv unfolding paid_exactly_def list_all_iff entry_settled_def by fastforce
  then have "prune_expired (sv_now env (sw_count w)) ?es = ?es" by (rule prune_unexpired)
  then have "execute_start (sv_now env (sw_count w)) (pay_key p) None None (sw_registry w) =
      Inr ((ie_promise e, False), sw_registry w)"
    using e p(2) by (cases "pp_idempotency_key p") (auto simp: execute_start_def Let_def normalize_idempotency_key_def pay_key_def keyed_def)
  then show ?thesis
    using p(2) r by (cases "pp_idempotency_key p") (auto simp: process_payment_def Let_def keyed_def pay_key_def)
qed

lemma start_fresh:
  assumes inv: "paid_exactly t0 paid w" and env: "prompt_and_honest t0 env" and p: "pay_key p \<notin> pay_key ` set paid" "keyed p"
    and pay: "process_payment env p w = (res, w')"
  shows "paid_exactly t0 (if is_ok res then paid @ [p] else paid) w'"
proof -
  let ?r = "sw_registry w" and ?n = "sw_count w"
  define e where "e = \<lparr>ie_promise = ir_next ?r, ie_expires_at = Some (sv_now env ?n + 300000)\<rparr>"
  define v where "v = \<lparr>wc_promise = ir_next ?r, wc_key = pay_key p, wc_ttl = 300000, wc_cache_errors = False\<rparr>"
  have entries: "list_all (entry_settled t0 paid w) (ir_entries ?r)" and idle: "ir_waiting ?r = []"
    and ttl: "ir_default_ttl ?r = 300000" and paid: "applied_payments w = paid"
    and all: "\<forall>p \<in> set paid. dict_get (ir_entries ?r) (pay_key p) \<noteq> None"
    using inv by (simp_all add: paid_exactly_def)
  have now: "t0 \<le> sv_now env ?n" "sv_now env ?n < t0 + 300000" using env by (simp_all add: prompt_and_honest_def)
  have "list_all (\<lambda>(k, e). \<exists>t. ie_expires_at e = Some t \<and> sv_now env ?n < t) (ir_entries ?r)"
    using entries now(2) unfolding list_all_iff entry_settled_def by fastforce
  then have prune: "prune_expired (sv_now env ?n) (ir_entries ?r) = ir_entries ?r" by (rule prune_unexpired)
  have fresh: "dict_get (ir_entries ?r) (pay_key p) = None"
    using entries p(1) by (force simp: list_all_iff entry_settled_def map_of_eq_None_iff)
  have put: "dict_put (pay_key p) e (ir_entries ?r) = ir_entries ?r @ [(pay_key p, e)]" by (rule dict_put_fresh [OF fresh])
  have key: "truthy (map_option js_trim (pp_idempotency_key p))" "js_trim (the (pp_idempotency_key p)) = pay_key p" "pay_key p \<noteq> []"
    using p(2) by (cases "pp_idempotency_key p"; simp add: keyed_def pay_key_def)+
  have norm: "normalize_idempotency_key (pay_key p) = pay_key p" by (simp add: normalize_idempotency_key_def pay_key_def)
  have start: "execute_start (sv_now env ?n) (pay_key p) None None ?r =
      Inr ((ir_next ?r, True), ?r\<lparr>ir_entries := ir_entries ?r @ [(pay_key p, e)], ir_waiting := [v], ir_next := Suc (ir_next ?r)\<rparr>)"
    using key(3) prune fresh ttl idle put norm by (simp add: execute_start_def Let_def e_def v_def)
  define r1 where "r1 = ?r\<lparr>ir_entries := ir_entries ?r @ [(pay_key p, e)], ir_waiting := [v], ir_next := Suc (ir_next ?r)\<rparr>"
  obtain w2 where w2: "process_payment_internal env ?n p (w\<lparr>sw_count := Suc ?n, sw_registry := r1\<rparr>) = (res, w2)"
      "w' = w2\<lparr>sw_registry := execute_settle (ir_next ?r) (is_ok res) (sw_registry w2),
         sw_settled := dict_put (ir_next ?r) res (sw_settled w2)\<rparr>"
    using pay
  proof (cases rule: process_payment_cases)
    case plain
    then show ?thesis using key(1) by simp
  next
    case (replay promise r)
    then show ?thesis using start key(2) by simp
  next
    case (called promise r w2)
    have "Inr ((promise, True), r) = (Inr ((ir_next ?r, True), r1) :: idempotency_error + _)"
      using called(1) start key(2) by (metis r1_def)
    then have "promise = ir_next ?r" "r = r1" by simp_all
    then show ?thesis using called(2,3) by (intro that [of w2]) simp_all
  qed
  have w2': "applied_payments w2 = paid @ (if is_ok res then [p] else [])" "sw_registry w2 = r1" "sw_settled w2 = sw_settled w"
    using internal_applied [OF w2(1) env] paid by (simp_all add: applied_payments_def)
  have settle: "execute_settle (ir_next ?r) (is_ok res) r1 =
      r1\<lparr>ir_waiting := [], ir_entries := if is_ok res then ir_entries ?r @ [(pay_key p, e)] else ir_entries ?r\<rparr>"
    using delete_snoc_fresh [OF fresh] by (simp add: execute_settle_def r1_def v_def)
  have reg: "sw_registry w' = r1\<lparr>ir_waiting := [], ir_entries := if is_ok res then ir_entries ?r @ [(pay_key p, e)] else ir_entries ?r\<rparr>"
    using w2(2) w2'(2) settle by simp
  have settled: "sw_settled w' = dict_put (ir_next ?r) res (sw_settled w)" using w2(2) w2'(3) by simp
  have applied: "applied_payments w' = (if is_ok res then paid @ [p] else paid)"
    using w2(2) w2'(1) by (simp add: applied_payments_def)
  have old: "entry_settled t0 (if is_ok res then paid @ [p] else paid) w' x" if "x \<in> set (ir_entries ?r)" for x
  proof -
    have "entry_settled t0 paid w x" using entries that by (simp add: list_all_iff)
    then show ?thesis
      by (auto simp: entry_settled_def reg settled r1_def update_conv' less_SucI)
  qed
  show ?thesis
  proof (cases "is_ok res")
    case True
    then obtain x where "res = Inr x" by (auto simp: is_ok_iff)
    then have "entry_settled t0 (paid @ [p]) w' (pay_key p, e)"
      using now(1) by (auto simp: entry_settled_def e_def reg settled r1_def update_conv')
    then show ?thesis
      using True old applied all fresh by (auto simp: paid_exactly_def reg r1_def list_all_iff ttl map_add_def split: option.splits)
  next
    case False
    then show ?thesis using old applied all by (simp add: paid_exactly_def reg r1_def list_all_iff ttl)
  qed
qed

lemma pay_all_exact:
  assumes env: "prompt_and_honest t0 env" and keys: "distinct (map pay_key (L @ xs))" "list_all keyed xs"
  shows "i \<le> j \<Longrightarrow> j \<le> length xs \<Longrightarrow> paid_exactly t0 (L @ take j xs) w \<Longrightarrow> pay_all env (drop i xs) w = (res, w') \<Longrightarrow>
    \<exists>k. j \<le> k \<and> k \<le> length xs \<and> paid_exactly t0 (L @ take k xs) w' \<and> (is_ok res \<longrightarrow> k = length xs)"
proof (induction "length xs - i" arbitrary: i j w res w')
  case 0
  then have "drop i xs = []" "i = length xs" "j = length xs" by simp_all
  then show ?case using 0 by auto
next
  case (Suc n)
  then have i: "i < length xs" and n: "n = length xs - Suc i" by simp_all
  then have d: "drop i xs = xs ! i # drop (Suc i) xs" by (simp add: Cons_nth_drop_Suc)
  have keyed: "keyed (xs ! i)" using keys(2) i by (simp add: list_all_length)
  obtain r1 w1 where p: "process_payment env (xs ! i) w = (r1, w1)" by fastforce
  have rest: "\<exists>k. j' \<le> k \<and> k \<le> length xs \<and> paid_exactly t0 (L @ take k xs) w' \<and> (is_ok res \<longrightarrow> k = length xs)"
    if r1: "r1 = Inr y" and j': "Suc i \<le> j'" "j' \<le> length xs" "paid_exactly t0 (L @ take j' xs) w1" for y j'
  proof -
    obtain res2 w2 where q: "pay_all env (drop (Suc i) xs) w1 = (res2, w2)" by fastforce
    then have eq: "res = bind_result res2 (\<lambda>rs. Inr (y # rs))" "w' = w2" using Suc.prems(4) p r1 by (simp_all add: d)
    from Suc.hyps(1) [OF n j' q] show ?thesis using eq by (cases res2) auto
  qed
  show ?case
  proof (cases "i < j")
    case True
    then have "xs ! i \<in> set (take j xs)" using Suc.prems(2) by (auto simp: in_set_conv_nth intro!: exI [of _ i])
    then have "\<exists>r. process_payment env (xs ! i) w = (Inr r, w\<lparr>sw_count := Suc (sw_count w)\<rparr>)"
      by (intro start_found [OF Suc.prems(3) env _ keyed]) simp
    then obtain y where y: "r1 = Inr y" "w1 = w\<lparr>sw_count := Suc (sw_count w)\<rparr>" using p by auto
    have "paid_exactly t0 (L @ take j xs) w1" using Suc.prems(3)
      by (simp add: y paid_exactly_def applied_payments_def entry_settled_def)
    then show ?thesis using rest [OF y(1), of j] True Suc.prems(2) by simp
  next
    case False
    then have ij: "i = j" using Suc.prems(1) by simp
    have "map pay_key (L @ xs) = map pay_key (L @ take (Suc j) xs) @ map pay_key (drop (Suc j) xs)"
      by (simp only: map_append [symmetric] append_assoc append_take_drop_id)
    then have "distinct (map pay_key (L @ take (Suc j) xs))" using keys(1) by (metis distinct_append)
    then have fresh: "pay_key (xs ! j) \<notin> pay_key ` set (L @ take j xs)"
      using i ij by (auto simp: take_Suc_conv_app_nth)
    from start_fresh [OF Suc.prems(3) env fresh] keyed p ij
    have step: "paid_exactly t0 (if is_ok r1 then (L @ take j xs) @ [xs ! j] else L @ take j xs) w1" by simp
    show ?thesis
    proof (cases r1)
      case (Inl f)
      then have "res = Inl f" "w' = w1" using Suc.prems(4) p by (simp_all add: d)
      then show ?thesis using step Inl Suc.prems(2) by (intro exI [of _ j]) simp
    next
      case (Inr y)
      then have "paid_exactly t0 (L @ take (Suc j) xs) w1" using step i ij by (simp add: take_Suc_conv_app_nth)
      then obtain k where "Suc j \<le> k" "k \<le> length xs" "paid_exactly t0 (L @ take k xs) w'" "is_ok res \<longrightarrow> k = length xs"
        using rest [OF Inr, of "Suc j"] i ij by (metis Suc_leI order_refl)
      then show ?thesis by (intro exI [of _ k] conjI) simp_all
    qed
  qed
qed

lemma trace_effect_simps [simp]:
  "trace_effect env [] w = w"
  "trace_effect env (Called i xs # tr) w = trace_effect env tr (snd (pay_all env xs w))"
  "trace_effect env (Progress st i n # tr) w = trace_effect env tr w"
  "trace_effect env (BatchSucceeded i xs rs # tr) w = trace_effect env tr w"
  "trace_effect env (Slept d # tr) w = trace_effect env tr w"
  "trace_effect env (BatchError i b # tr) w = trace_effect env tr w"
  "trace_effect env (Checkpointed t # tr) w = trace_effect env tr w"
  "trace_effect env (tr @ us) w = trace_effect env us (trace_effect env tr w)"
  by (simp_all add: trace_effect_def action_effect_def)

lemma attempt_effect_cong:
  assumes "\<And>a. 1 \<le> a \<Longrightarrow> be_submit e (bp_items b) (bp_index b) a = be_submit e' (bp_items b) (bp_index b) a"
    and "be_aborted_attempt e = be_aborted_attempt e'" "be_aborted_failed e = be_aborted_failed e'" "be_sleep_ok e = be_sleep_ok e'"
  shows "1 \<le> n \<Longrightarrow> trace_effect env (fst (attempt_batch opts e b it left n)) w = trace_effect env (fst (attempt_batch opts e' b it' left n)) w"
proof (induction left arbitrary: n w)
  case (Suc left)
  have s: "be_submit e (bp_items b) (bp_index b) n = be_submit e' (bp_items b) (bp_index b) n" by (rule assms(1) [OF Suc.prems])
  show ?case
    using Suc.IH [of "Suc n"] by (cases "be_submit e' (bp_items b) (bp_index b) n") (simp_all add: Let_def assms(2-4) s)
qed simp

lemma attempt_exact:
  assumes env: "prompt_and_honest t0 env" and keys: "distinct (map pay_key (L @ bp_items b))" "list_all keyed (bp_items b)"
    and submit: "\<And>a. 1 \<le> a \<Longrightarrow> be_submit e (bp_items b) (bp_index b) a = attempt_answer env (bp_items b) a w0"
  shows "1 \<le> n \<Longrightarrow> j \<le> length (bp_items b) \<Longrightarrow> paid_exactly t0 (L @ take j (bp_items b)) (after_attempts env (bp_items b) (n - 1) w0) \<Longrightarrow>
    attempt_batch opts e b it left n = (tr, r) \<Longrightarrow>
    \<exists>k. k \<le> length (bp_items b) \<and>
      paid_exactly t0 (L @ take k (bp_items b)) (trace_effect env tr (after_attempts env (bp_items b) (n - 1) w0)) \<and>
      (\<forall>rs. r = BatchDone rs \<longrightarrow> k = length (bp_items b))"
proof (induction left arbitrary: n j tr r)
  case 0
  then show ?case by (intro exI [of _ j]) simp
next
  case (Suc left)
  let ?xs = "bp_items b" and ?w = "after_attempts env (bp_items b) (n - 1) w0"
  obtain res w' where q: "pay_all env ?xs ?w = (res, w')" by fastforce
  have step: "after_attempts env ?xs (Suc n - 1) w0 = w'"
    using q Suc.prems(1) by (cases n) (simp_all add: after_attempts_def)
  have s: "be_submit e ?xs (bp_index b) n = res" using submit [OF Suc.prems(1)] q by (simp add: attempt_answer_def)
  from pay_all_exact [OF env keys, of 0 j ?w res w'] Suc.prems q
  obtain k where k: "k \<le> length ?xs" "paid_exactly t0 (L @ take k ?xs) w'" "is_ok res \<longrightarrow> k = length ?xs" by auto
  show ?case
  proof (cases "be_aborted_attempt e (bp_index b) n")
    case True
    then show ?thesis using Suc.prems by (intro exI [of _ j]) auto
  next
    case live: False
    obtain tr' r' where rec: "attempt_batch opts e b it left (Suc n) = (tr', r')" by fastforce
    show ?thesis
    proof (cases res)
      case (Inr rs)
      then show ?thesis using Suc.prems(4) live s q k by (intro exI [of _ k]) auto
    next
      case (Inl f)
      have again: "\<exists>k. k \<le> length ?xs \<and> paid_exactly t0 (L @ take k ?xs) (trace_effect env tr' w') \<and>
          (\<forall>rs. r' = BatchDone rs \<longrightarrow> k = length ?xs)"
        using Suc.IH [OF _ k(1) _ rec] k(2) by (simp add: step [simplified])
      have "(r \<noteq> BatchDone rs \<and> trace_effect env tr ?w = w') \<or> (r = r' \<and> trace_effect env tr ?w = trace_effect env tr' w')" for rs
        using Suc.prems(4) live s q Inl rec by (auto simp: Let_def split: if_splits)
      then show ?thesis using again k by metis
    qed
  qed
qed

lemma loop_exact:
  assumes env: "prompt_and_honest t0 env" and stop: "pick (bo_stop_on_first_failure opts) True"
    and base: "be_aborted_attempt e = be_aborted_attempt base" "be_aborted_failed e = be_aborted_failed base" "be_sleep_ok e = be_sleep_ok base"
  shows "distinct (map pay_key (L @ concat (map bp_items bs))) \<Longrightarrow> list_all keyed (concat (map bp_items bs)) \<Longrightarrow>
    distinct (map bp_index bs) \<Longrightarrow>
    (\<And>b a. b \<in> set bs \<Longrightarrow> be_submit e (bp_items b) (bp_index b) a =
       attempt_answer env (bp_items b) a (the (dict_get (batch_worlds env opts base bs w) (bp_index b)))) \<Longrightarrow>
    paid_exactly t0 L w \<Longrightarrow> batch_loop opts e es tot sz bs it succ rs = (tr, res) \<Longrightarrow>
    \<exists>k. k \<le> length (concat (map bp_items bs)) \<and> paid_exactly t0 (L @ take k (concat (map bp_items bs))) (trace_effect env tr w) \<and>
      length (confirmed_items tr) \<le> k \<and> (\<forall>r. res = Inr r \<and> br_success r \<longrightarrow> k = length (concat (map bp_items bs)))"
proof (induction bs arbitrary: L w it succ rs tr res)
  case Nil
  then show ?case by (auto simp: confirmed_items_def)
next
  case (Cons b bs)
  let ?xs = "bp_items b" and ?rest = "concat (map bp_items bs)"
  have keys: "distinct (map pay_key (L @ ?xs))" "list_all keyed ?xs" using Cons.prems(1,2) by auto
  have submit: "be_submit e ?xs (bp_index b) a = attempt_answer env ?xs a w" for a using Cons.prems(4) [of b a] by simp
  show ?case
  proof (cases "be_aborted_batch e (bp_index b)")
    case True
    then show ?thesis using Cons.prems(5,6) by (intro exI [of _ 0]) (auto simp: confirmed_items_def failed_result_def)
  next
    case live: False
    obtain tr1 r1 where a: "attempt_batch opts e b it (max_batch_attempts opts) 1 = (tr1, r1)" by fastforce
    have none: "confirmed tr1 = []" using a by (metis attempt_batch_confirms_nothing fst_conv)
    have "paid_exactly t0 (L @ take 0 ?xs) (after_attempts env ?xs (1 - 1) w)" using Cons.prems(5) by (simp add: after_attempts_def)
    from attempt_exact [OF env keys submit _ _ this a]
    obtain k where k: "k \<le> length ?xs" "paid_exactly t0 (L @ take k ?xs) (trace_effect env tr1 w)"
      "\<forall>rs. r1 = BatchDone rs \<longrightarrow> k = length ?xs" by (auto simp: after_attempts_def)
    have stopped: ?thesis if "trace_effect env tr w = trace_effect env tr1 w" "confirmed tr = []" "\<forall>r. res = Inr r \<longrightarrow> \<not> br_success r"
      using k that by (intro exI [of _ k]) (auto simp: confirmed_items_def)
    show ?thesis
    proof (cases r1)
      case BatchFailed
      then show ?thesis using stopped Cons.prems(6) live a stop none by (auto simp: Let_def failed_result_def)
    next
      case RedactionThrew
      then show ?thesis using stopped Cons.prems(6) live a none by (auto simp: Let_def)
    next
      case (BatchDone ys)
      define w1 where "w1 = trace_effect env tr1 w"
      have paid: "paid_exactly t0 (L @ ?xs) w1" using k BatchDone by (simp add: w1_def)
      have "trace_effect env (fst (attempt_batch opts (one_batch_env env base w) b 0 (max_batch_attempts opts) 1)) w = w1"
        using attempt_effect_cong [of "one_batch_env env base w" b e 1 env opts 0 "max_batch_attempts opts" w it] a submit base
        by (simp add: one_batch_env_def w1_def)
      then have worlds: "batch_worlds env opts base (b # bs) w = (bp_index b, w) # batch_worlds env opts base bs w1" by simp
      have later: "be_submit e (bp_items c) (bp_index c) a =
          attempt_answer env (bp_items c) a (the (dict_get (batch_worlds env opts base bs w1) (bp_index c)))" if "c \<in> set bs" for c a
      proof -
        have "bp_index c \<in> bp_index ` set bs" using that by (rule imageI)
      then have "bp_index c \<noteq> bp_index b" using Cons.prems(3) by auto
        then show ?thesis using Cons.prems(4) [of c a] that worlds by simp
      qed
      obtain tr2 r2 where rec: "batch_loop opts e es tot sz bs (it + bp_count b) (succ + 1) (rs @ ys) = (tr2, r2)" by fastforce
      from Cons.IH [OF _ _ _ later paid rec] Cons.prems(1-3)
      obtain j where j: "j \<le> length ?rest" "paid_exactly t0 ((L @ ?xs) @ take j ?rest) (trace_effect env tr2 w1)"
        "length (confirmed_items tr2) \<le> j" "\<forall>r. r2 = Inr r \<and> br_success r \<longrightarrow> j = length ?rest"
        by auto
      have "trace_effect env tr w = trace_effect env tr2 w1" "confirmed tr = (bp_index b, ?xs, ys) # confirmed tr2" "res = r2"
        using Cons.prems(6) live a BatchDone rec none by (auto simp: Let_def w1_def)
      then show ?thesis using j by (intro exI [of _ "length ?xs + j"]) (auto simp: confirmed_items_def)
    qed
  qed
qed

text \<open>
  C1: With distinct keys a batch run pays nobody twice and, when it reports success, everybody: whatever attempts fail and
  are retried, the payments the network has taken are the first \<open>k\<close> entries, once each and in order, at least those of
  the confirmed batches, and all of them after a success. The run is given no resume token, stops at its first failure
  and ends within the five minutes a key is kept, and a call of the contract that throws must not have been applied:
  otherwise a retry pays twice (\<open>lost_answer_pays_twice\<close>).
\<close>
theorem batch_run_pays_once:
  assumes "prompt_and_honest t0 env" "distinct (map pay_key entries)" "list_all keyed entries"
    and "bo_resume_token opts = None" "pick (bo_stop_on_first_failure opts) True"
    and run: "submit_batch_payments_safely env entries opts base new_service = (tr, res, w)"
  shows "\<exists>k. applied_payments w = take k entries \<and> length (confirmed_items tr) \<le> length (take k entries) \<and>
    (\<forall>r. res = Inr r \<and> br_success r \<longrightarrow> applied_payments w = entries)"
proof -
  have start: "paid_exactly t0 [] new_service"
    by (simp add: paid_exactly_def new_service_def new_registry_def applied_payments_def)
  show ?thesis
  proof (cases "assert_valid_batch_payload entries")
    case (Inl es)
    then have "w = new_service" "confirmed_items tr = []" "\<forall>r. res = Inr r \<longrightarrow> \<not> br_success r"
      using run by (auto simp: submit_batch_payments_safely_def confirmed_items_def)
    then show ?thesis by (intro exI [of _ 0]) (auto simp: new_service_def applied_payments_def)
  next
    case (Inr payload)
    then have payload: "bl_entries payload = entries" "entries \<noteq> []" by (auto simp: valid_batch_iff)
    let ?size = "pick (bo_batch_size opts) (Whole 50)"
    define e where "e = service_batch_env env base (batch_worlds env opts base (pending_batches opts base entries) new_service)"
    obtain tr' r' where sub: "submit_sequential_payroll_batches opts e entries = (tr', r')" by fastforce
    then have tr: "tr = tr'" "res = map_sum ServiceSubmit id r'" "w = trace_effect env tr' new_service"
      using run Inr payload by (auto simp: submit_batch_payments_safely_def e_def Let_def)
    show ?thesis
    proof (cases "iterate_batches entries (Some ?size)")
      case (Inl x)
      then have "tr' = []" "r' = Inl SubmitPageSize" using sub by (auto simp: submit_sequential_payroll_batches_def Let_def)
      then show ?thesis using tr by (intro exI [of _ 0]) (auto simp: new_service_def applied_payments_def confirmed_items_def)
    next
      case (Inr bs)
      obtain s p where pages: "0 < s" "p = total_pages (int (length entries)) s" "bs = map (page_at entries s p) [0..p - 1]"
        using iterate_batches_pages [OF Inr] by metis
      have items: "concat (map bp_items bs) = entries" using pages_concat [OF pages(1,2)] by (simp add: pages(3))
      then have "bs \<noteq> []" using payload(2) by auto
      then obtain trl where loop: "batch_loop opts e entries (int (length bs)) (number_or 0 (Some ?size)) bs 0 0 [] = (trl, r')"
        "tr' = Progress StValidating 0 0 # trl"
        using sub Inr payload(2) assms(4)
        by (auto simp: submit_sequential_payroll_batches_def Let_def resume_point_def split_beta)
          (metis prod.collapse)
      have pending: "pending_batches opts base entries = bs"
        using Inr assms(4) by (simp add: pending_batches_def Let_def resume_point_def)
      have "\<exists>k. k \<le> length entries \<and> paid_exactly t0 ([] @ take k entries) (trace_effect env trl new_service) \<and>
          length (confirmed_items trl) \<le> k \<and> (\<forall>r. r' = Inr r \<and> br_success r \<longrightarrow> k = length entries)"
        using loop_exact [where e = e and base = base and bs = bs and L = "[]", OF assms(1,5) _ _ _ _ _ _ _ start loop(1)]
          assms(2,3) items iterate_batches_distinct [OF Inr] by (simp add: e_def service_batch_env_def pending)
      then show ?thesis using tr loop(2) by (cases r') (auto simp: paid_exactly_def confirmed_items_def)
    qed
  qed
qed

section \<open>Where payments are made twice\<close>

definition payable :: "service_env \<Rightarrow> payment_params \<Rightarrow> bool" where
  "payable env p \<longleftrightarrow>
     (\<forall>n. is_ok (bind_result (check_payment_params env p) (\<lambda>_. bind_result (check_destination env p) (\<lambda>_.
        generate_payment_proof env n p))))"

definition default_batch_options :: batch_options where
  "default_batch_options =
     \<lparr>bo_batch_size = None, bo_max_retries = None, bo_initial_delay_ms = None, bo_max_delay_ms = None, bo_delay_factor = None,
      bo_stop_on_first_failure = None, bo_resume_token = None\<rparr>"

definition undisturbed :: "'r batch_env \<Rightarrow> bool" where
  "undisturbed base \<longleftrightarrow>
     (\<forall>i. \<not> be_aborted_batch base i) \<and> (\<forall>i n. \<not> be_aborted_attempt base i n \<and> \<not> be_aborted_failed base i n \<and> be_sleep_ok base i n)"

definition transient :: "batch_failure \<Rightarrow> bool" where
  "transient f \<longleftrightarrow> bf_rebuildable (raw_error f) \<and> \<not> is_non_retryable (raw_error f)"

lemma payable_pays:
  assumes "payable env p"
  shows "sv_chain env n = Applied h \<Longrightarrow> \<exists>pf. process_payment_internal env n p w =
      (Inr \<lparr>pr_tx_hash = h, pr_public_signals = po_public_signals pf\<rparr>,
       w\<lparr>sw_calls := sw_calls w @ [\<lparr>cc_payment = p, cc_proof = pf, cc_applied = True\<rparr>]\<rparr>)"
    and "sv_chain env n = Refused f \<Longrightarrow> \<exists>pf. process_payment_internal env n p w =
      (Inl f, w\<lparr>sw_calls := sw_calls w @ [\<lparr>cc_payment = p, cc_proof = pf, cc_applied = False\<rparr>]\<rparr>)"
    and "sv_chain env n = LostAnswer f \<Longrightarrow> \<exists>pf. process_payment_internal env n p w =
      (Inl f, w\<lparr>sw_calls := sw_calls w @ [\<lparr>cc_payment = p, cc_proof = pf, cc_applied = True\<rparr>]\<rparr>)"
proof -
  obtain pf where "bind_result (check_payment_params env p) (\<lambda>_. bind_result (check_destination env p) (\<lambda>_.
      generate_payment_proof env n p)) = Inr pf"
    using assms by (auto simp: payable_def is_ok_iff)
  note run = process_payment_internal_def this Let_def
  show "sv_chain env n = Applied h \<Longrightarrow> \<exists>pf. process_payment_internal env n p w =
      (Inr \<lparr>pr_tx_hash = h, pr_public_signals = po_public_signals pf\<rparr>,
       w\<lparr>sw_calls := sw_calls w @ [\<lparr>cc_payment = p, cc_proof = pf, cc_applied = True\<rparr>]\<rparr>)"
    by (intro exI [of _ pf]) (simp add: run)
  show "sv_chain env n = Refused f \<Longrightarrow> \<exists>pf. process_payment_internal env n p w =
      (Inl f, w\<lparr>sw_calls := sw_calls w @ [\<lparr>cc_payment = p, cc_proof = pf, cc_applied = False\<rparr>]\<rparr>)"
    by (intro exI [of _ pf]) (simp add: run)
  show "sv_chain env n = LostAnswer f \<Longrightarrow> \<exists>pf. process_payment_internal env n p w =
      (Inl f, w\<lparr>sw_calls := sw_calls w @ [\<lparr>cc_payment = p, cc_proof = pf, cc_applied = True\<rparr>]\<rparr>)"
    by (intro exI [of _ pf]) (simp add: run)
qed

text \<open>A first attempt that fails with a transient error and a second one that succeeds: the run succeeds after both.\<close>

lemma one_batch_retried:
  assumes "undisturbed base" "transient f" "assert_valid_batch_payload entries = Inr payload" "length entries \<le> 50"
    and first: "pay_all env entries new_service = (Inl f, w1)" and second: "pay_all env entries w1 = (Inr rs, w2)"
  shows "\<exists>tr r. submit_batch_payments_safely env entries default_batch_options base new_service = (tr, Inr r, w2) \<and> br_success r"
proof -
  let ?opts = default_batch_options
  have e: "entries \<noteq> []" "bl_entries payload = entries" using assms(3) by (auto simp: valid_batch_iff)
  have pages: "iterate_batches entries (Some (Whole 50)) = Inr [page_at entries 50 1 0]"
  proof -
    have "total_pages (int (length entries)) 50 = 1"
      using e(1) assms(4) by (cases entries) (auto simp: total_pages_def ceil_div_def)
    then show ?thesis by (simp add: iterate_batches_def assert_valid_page_size_def number_or_def Let_def)
  qed
  define b where "b = page_at entries 50 1 0"
  have items: "bp_items b = entries" using page_items [of 0 50 entries 1] assms(4) by (simp add: b_def)
  have idx: "bp_index b = 0" by (simp add: b_def page_at_def Let_def)
  define benv where "benv = service_batch_env env base (batch_worlds env ?opts base [b] new_service)"
  have pending: "pending_batches ?opts base entries = [b]"
    using pages by (simp add: pending_batches_def default_batch_options_def resume_point_def Let_def b_def pick_def)
  have answers: "be_submit benv entries 0 1 = Inl f" "be_submit benv entries 0 2 = Inr rs"
    using first second by (simp_all add: benv_def service_batch_env_def attempt_answer_def after_attempts_def idx numeral_2_eq_2)
  have calm: "\<not> be_aborted_batch benv 0" "\<not> be_aborted_attempt benv 0 n" "\<not> be_aborted_failed benv 0 n" "be_sleep_ok benv 0 n" for n
    using assms(1) by (simp_all add: undisturbed_def benv_def service_batch_env_def)
  have four: "max_batch_attempts ?opts = Suc (Suc (Suc (Suc 0)))"
    by (simp add: max_batch_attempts_def default_batch_options_def pick_def)
  obtain tr where tr: "attempt_batch ?opts benv b 0 (Suc (Suc (Suc (Suc 0)))) 1 = (tr, BatchDone rs)"
      "trace_effect env tr new_service = w2"
    using answers calm assms(2) first second
    by (simp add: items idx Let_def transient_def numeral_2_eq_2)
  have "pick (bo_batch_size ?opts) (Whole 50) = Whole 50" by (simp add: default_batch_options_def pick_def)
  then obtain tr' r where "submit_sequential_payroll_batches ?opts benv entries = (tr', Inr r)" "br_success r"
      "trace_effect env tr' new_service = w2"
    using pages e(1) calm(1) tr
    by (simp add: submit_sequential_payroll_batches_def Let_def resume_point_def default_batch_options_def b_def [symmetric] idx four [unfolded default_batch_options_def])
  then show ?thesis
    using assms(3) e(2) pending by (simp add: submit_batch_payments_safely_def Let_def benv_def)
qed

lemma pay_unkeyed:
  "pp_idempotency_key p = None \<Longrightarrow>
     process_payment env p w = process_payment_internal env (sw_count w) p (w\<lparr>sw_count := Suc (sw_count w)\<rparr>)"
  by (simp add: process_payment_def Let_def)

text \<open>
  C20: Without keys a retried batch pays again what it had paid: when the second of two payments fails once, the run makes
  the first payment twice, ends with success and does not say so.
\<close>
theorem keyless_retry_pays_twice:
  assumes "undisturbed base" "transient f" "assert_valid_batch_payload [a, b] = Inr payload" "payable env a" "payable env b"
    and keyless: "pp_idempotency_key a = None" "pp_idempotency_key b = None"
    and chain: "sv_chain env 0 = Applied h0" "sv_chain env 1 = Refused f" "sv_chain env 2 = Applied h2" "sv_chain env 3 = Applied h3"
  shows "\<exists>tr r w. submit_batch_payments_safely env [a, b] default_batch_options base new_service = (tr, Inr r, w) \<and>
    br_success r \<and> applied_payments w = [a, a, b]"
proof -
  let ?pay = "process_payment env"
  have step: "\<exists>r w'. ?pay p w = (Inr r, w') \<and> sw_count w' = Suc (sw_count w) \<and> applied_payments w' = applied_payments w @ [p]"
    if p: "p = a \<or> p = b" and h: "sv_chain env (sw_count w) = Applied h" for p w h
  proof -
    have "payable env p" "pp_idempotency_key p = None" using p assms(4,5) keyless by auto
    from payable_pays(1) [OF this(1) h, of "w\<lparr>sw_count := Suc (sw_count w)\<rparr>"] pay_unkeyed [OF this(2), of env w]
    show ?thesis by (auto simp: applied_payments_def)
  qed
  have fail: "\<exists>w'. ?pay b w = (Inl f, w') \<and> sw_count w' = Suc (sw_count w) \<and> applied_payments w' = applied_payments w"
    if "sw_count w = 1" for w
    using payable_pays(2) [OF assms(5) chain(2), of "w\<lparr>sw_count := Suc 1\<rparr>"] pay_unkeyed [OF keyless(2), of env w] that
    by (auto simp: applied_payments_def)
  have new: "sw_count new_service = 0" "applied_payments new_service = []" by (simp_all add: new_service_def applied_payments_def)
  obtain r0 w0 where 0: "?pay a new_service = (Inr r0, w0)" "sw_count w0 = 1" "applied_payments w0 = [a]"
    using step [of a new_service h0] chain(1) new by auto
  obtain w1 where 1: "?pay b w0 = (Inl f, w1)" "sw_count w1 = 2" "applied_payments w1 = [a]"
    using fail [OF 0(2)] 0(2,3) by auto
  obtain r2 w2 where 2: "?pay a w1 = (Inr r2, w2)" "sw_count w2 = 3" "applied_payments w2 = [a, a]"
    using step [of a w1 h2] chain(3) 1(2,3) by auto
  obtain r3 w3 where 3: "?pay b w2 = (Inr r3, w3)" "applied_payments w3 = [a, a, b]"
    using step [of b w2 h3] chain(4) 2(2,3) by auto
  have "pay_all env [a, b] new_service = (Inl f, w1)" "pay_all env [a, b] w1 = (Inr [r2, r3], w3)"
    using 0(1) 1(1) 2(1) 3(1) by simp_all
  from one_batch_retried [OF assms(1-3) _ this] 3(2) show ?thesis by auto
qed

text \<open>
  A key does not protect against a call that throws after it was applied, a poll that times out: the registry forgets a
  failed payment, and the retry makes it again.
\<close>
theorem lost_answer_pays_twice:
  assumes "payable env p" "keyed p" and chain: "sv_chain env 0 = LostAnswer f" "sv_chain env 1 = Applied h"
  shows "\<exists>w1 r w2. process_payment env p new_service = (Inl f, w1) \<and> process_payment env p w1 = (Inr r, w2) \<and>
    applied_payments w2 = [p, p]"
proof -
  obtain k where k: "pp_idempotency_key p = Some k" "js_trim k \<noteq> []" using assms(2) by (cases "pp_idempotency_key p") (auto simp: keyed_def)
  have none: "prune_expired t [] = []" for t by (simp add: prune_expired_def)
  have start: "\<exists>r'. execute_start t (js_trim k) None None r = Inr ((ir_next r, True), r') \<and>
      ir_entries (execute_settle (ir_next r) False r') = [] \<and> ir_waiting (execute_settle (ir_next r) False r') = []"
    if "ir_entries r = []" "ir_waiting r = []" for r t
    using that k(2) by (simp add: execute_start_def Let_def normalize_idempotency_key_def none execute_settle_def)
  obtain r0 where r0: "execute_start (sv_now env 0) (js_trim k) None None (new_registry None) = Inr ((ir_next (new_registry None), True), r0)"
      "ir_entries (execute_settle (ir_next (new_registry None)) False r0) = []" "ir_waiting (execute_settle (ir_next (new_registry None)) False r0) = []"
    using start [of "new_registry None"] by (auto simp: new_registry_def)
  obtain pf where "process_payment_internal env 0 p (new_service\<lparr>sw_count := 1, sw_registry := r0\<rparr>) =
      (Inl f, new_service\<lparr>sw_count := 1, sw_registry := r0, sw_calls := [\<lparr>cc_payment = p, cc_proof = pf, cc_applied = True\<rparr>]\<rparr>)"
    using payable_pays(3) [OF assms(1) chain(1), of "new_service\<lparr>sw_count := 1, sw_registry := r0\<rparr>"] by (auto simp: new_service_def)
  then obtain w1 where w1: "process_payment env p new_service = (Inl f, w1)" "sw_count w1 = 1" "applied_payments w1 = [p]"
      "ir_entries (sw_registry w1) = []" "ir_waiting (sw_registry w1) = []"
    using r0 k by (simp add: process_payment_def new_service_def Let_def applied_payments_def)
  obtain r1 where r1: "execute_start (sv_now env 1) (js_trim k) None None (sw_registry w1) = Inr ((ir_next (sw_registry w1), True), r1)"
    using start [OF w1(4,5)] by blast
  obtain pf where "process_payment_internal env 1 p (w1\<lparr>sw_count := 2, sw_registry := r1\<rparr>) =
      (Inr \<lparr>pr_tx_hash = h, pr_public_signals = po_public_signals pf\<rparr>,
       w1\<lparr>sw_count := 2, sw_registry := r1, sw_calls := sw_calls w1 @ [\<lparr>cc_payment = p, cc_proof = pf, cc_applied = True\<rparr>]\<rparr>)"
    using payable_pays(1) [OF assms(1) chain(2), of "w1\<lparr>sw_count := 2, sw_registry := r1\<rparr>"] by auto
  then have "\<exists>r w2. process_payment env p w1 = (Inr r, w2) \<and> applied_payments w2 = [p, p]"
    using r1 k w1(2,3) by (simp add: process_payment_def Let_def applied_payments_def numeral_2_eq_2)
  then show ?thesis using w1(1) by blast
qed

section \<open>Witnesses\<close>

definition example_service :: "(nat \<Rightarrow> chain_answer) \<Rightarrow> service_env" where
  "example_service chain =
     \<lparr>sv_keys = \<lparr>sk_account = (\<lambda>_. False), sk_muxed = (\<lambda>_. False)\<rparr>, sv_hook = None,
      sv_prove = (\<lambda>n w. ProofMade \<lparr>po_proof = ''pf'', po_public_signals = []\<rparr>), sv_chain = chain, sv_now = (\<lambda>n. 0)\<rparr>"

definition example_base :: "payment_result batch_env" where
  "example_base =
     \<lparr>be_submit = (\<lambda>xs i n. Inr []), be_aborted_batch = (\<lambda>_. False), be_aborted_attempt = (\<lambda>_ _. False),
      be_aborted_failed = (\<lambda>_ _. False), be_sleep_ok = (\<lambda>_ _. True), be_now = (\<lambda>_. 0),
      be_lib = \<lparr>tl_sha256 = (\<lambda>s. s), tl_to_base64url = (\<lambda>s. s), tl_from_base64url = (\<lambda>s. s), tl_json_parse = (\<lambda>s. None)\<rparr>\<rparr>"

definition example_payment :: "string \<Rightarrow> string option \<Rightarrow> payment_params" where
  "example_payment r k = \<lparr>pp_recipient = r, pp_amount = 5, pp_asset = ''native'', pp_idempotency_key = k\<rparr>"

definition example_timeout :: batch_failure where
  "example_timeout = \<lparr>bf_error = ContractErr TRANSACTION_TIMEOUT, bf_message = ''timeout'', bf_rebuildable = True\<rparr>"

lemma example_payable:
  assumes "r = ''GA'' \<or> r = ''GB''"
  shows "payable (example_service chain) (example_payment r k)"
proof -
  have l: "legacy_reference r" using assms by (auto simp: legacy_reference_def)
  have a: "\<not> blank ''native''" by (simp add: blank_def js_trim_def js_space_def)
  have v: "validate_payment_params (sv_keys (example_service chain)) (example_payment r k) = []"
    using l a by (simp add: validate_payment_params_Nil example_payment_def)
  have d: "\<exists>dk. validate_payment_destination (sv_keys (example_service chain)) None r = Inr dk"
    using l by (simp add: validate_payment_destination_def Let_def split: sum.split)
  have "\<not> blank (pp_recipient (example_payment r k))"
    using recipient_not_blank [of undefined r] l by (simp add: example_payment_def)
  then show ?thesis
    using v d payroll_witness_ok [OF v]
    by (auto simp: payable_def check_payment_params_def check_destination_def generate_payment_proof_def
        example_service_def example_payment_def)
qed

theorem batch_run_pays_once_witness:
  "\<exists>k. applied_payments (snd (snd (submit_batch_payments_safely (example_service (\<lambda>n. Applied ''h''))
      [example_payment ''GA'' (Some ''1''), example_payment ''GB'' (Some ''2'')] default_batch_options example_base new_service))) =
    take k [example_payment ''GA'' (Some ''1''), example_payment ''GB'' (Some ''2'')]"
proof -
  let ?es = "[example_payment ''GA'' (Some ''1''), example_payment ''GB'' (Some ''2'')]"
  let ?run = "submit_batch_payments_safely (example_service (\<lambda>n. Applied ''h'')) ?es default_batch_options example_base new_service"
  have "js_trim ''1'' = ''1''" "js_trim ''2'' = ''2''" by (simp_all add: js_trim_def js_space_def)
  then show ?thesis
    using batch_run_pays_once [of 0 "example_service (\<lambda>n. Applied ''h'')" ?es default_batch_options example_base
        "fst ?run" "fst (snd ?run)" "snd (snd ?run)"]
    by (auto simp: prompt_and_honest_def example_service_def example_payment_def pay_key_def keyed_def
        default_batch_options_def pick_def)
qed

theorem keyless_retry_pays_twice_witness:
  "\<exists>tr r w. submit_batch_payments_safely
      (example_service (\<lambda>n. if n = 1 then Refused example_timeout else Applied ''h''))
      [example_payment ''GA'' None, example_payment ''GB'' None] default_batch_options example_base new_service = (tr, Inr r, w) \<and>
    br_success r \<and> applied_payments w = [example_payment ''GA'' None, example_payment ''GA'' None, example_payment ''GB'' None]"
proof -
  have "transient example_timeout"
    by (simp add: transient_def example_timeout_def raw_error_def is_non_retryable_def classify_error_def classify_contract_error_def
        decision_def blocking_message_def js_lower_def js_lower_char_def)
  moreover have "undisturbed example_base" by (simp add: undisturbed_def example_base_def)
  moreover have "\<exists>b. assert_valid_batch_payload [example_payment ''GA'' None, example_payment ''GB'' None] = Inr b"
    by (simp add: valid_batch_iff example_payment_def blank_def js_trim_def js_space_def)
  ultimately show ?thesis
    using keyless_retry_pays_twice [of example_base example_timeout "example_payment ''GA'' None" "example_payment ''GB'' None"]
      example_payable
    by (auto simp: example_service_def example_payment_def)
qed

theorem lost_answer_pays_twice_witness:
  "\<exists>w1 r w2. process_payment (example_service (\<lambda>n. if n = 0 then LostAnswer example_timeout else Applied ''h''))
      (example_payment ''GA'' (Some ''1'')) new_service = (Inl example_timeout, w1) \<and>
    process_payment (example_service (\<lambda>n. if n = 0 then LostAnswer example_timeout else Applied ''h''))
      (example_payment ''GA'' (Some ''1'')) w1 = (Inr r, w2) \<and>
    applied_payments w2 = [example_payment ''GA'' (Some ''1''), example_payment ''GA'' (Some ''1'')]"
  by (rule lost_answer_pays_twice [OF example_payable])
    (simp_all add: keyed_def example_payment_def example_service_def js_trim_def js_space_def)

end
