(* ===== verification/CanonicalJson.thy ===== *)
theory CanonicalJson
  imports Digits "HOL-Library.List_Lexorder"
begin

text \<open>
  The canonical text of receipt metadata (\<open>packages/core/src/receipts/digest.ts\<close>): values with their object keys sorted and
  the text \<open>JSON.stringify\<close> prints for them. Numbers are integers, keys are no array indices and are distinct, as those of
  an object are, and none is \<open>__proto__\<close>; metadata is an object or absent, as its type says.
\<close>

section \<open>Values\<close>

datatype meta =
  MetaNull | MetaUndefined | MetaFunction | MetaBool bool | MetaNumber int | MetaBigint int | MetaText string
| MetaDate int | MetaArray "meta list" | MetaObject "(string \<times> meta) list"

datatype json =
  JsonNull | JsonBool bool | JsonNumber int | JsonText string | JsonArray "json list" | JsonObject "(string \<times> json) list"

definition kept_member :: "meta \<Rightarrow> bool" where
  "kept_member m \<longleftrightarrow> m \<noteq> MetaUndefined \<and> m \<noteq> MetaFunction"

text \<open>
  A date has no keys of its own, so it becomes an empty object; what is undefined prints as \<open>null\<close> in an array and is
  dropped in an object.
\<close>

function sort_value_for_canonical_json :: "meta \<Rightarrow> json" where
  "sort_value_for_canonical_json MetaNull = JsonNull"
| "sort_value_for_canonical_json MetaUndefined = JsonNull"
| "sort_value_for_canonical_json MetaFunction = JsonNull"
| "sort_value_for_canonical_json (MetaBool b) = JsonBool b"
| "sort_value_for_canonical_json (MetaNumber n) = JsonNumber n"
| "sort_value_for_canonical_json (MetaBigint n) = JsonText (int_string n)"
| "sort_value_for_canonical_json (MetaText s) = JsonText s"
| "sort_value_for_canonical_json (MetaDate t) = JsonObject []"
| "sort_value_for_canonical_json (MetaArray ms) = JsonArray (map sort_value_for_canonical_json ms)"
| "sort_value_for_canonical_json (MetaObject ps) =
     JsonObject (map (\<lambda>(k, m). (k, sort_value_for_canonical_json m))
       (filter (\<lambda>(k, m). kept_member m) (sort_key fst ps)))"
  by pat_completeness auto

termination
  by (relation "measure size") (auto simp: less_Suc_eq_le intro: size_list_estimation')

section \<open>Text\<close>

text \<open>The escapes of \<open>JSON.stringify\<close>\<close>

definition escape_char :: "char \<Rightarrow> string" where
  "escape_char c =
     (if c = CHR 0x22 then [CHR 0x5C, CHR 0x22] else if c = CHR 0x5C then [CHR 0x5C, CHR 0x5C]
      else if c = CHR 0x08 then [CHR 0x5C, CHR ''b''] else if c = CHR 0x0C then [CHR 0x5C, CHR ''f'']
      else if c = CHR 0x0A then [CHR 0x5C, CHR ''n''] else if c = CHR 0x0D then [CHR 0x5C, CHR ''r'']
      else if c = CHR 0x09 then [CHR 0x5C, CHR ''t'']
      else let n = (of_char c :: nat) in
        if n < 32 then [CHR 0x5C, CHR ''u'', CHR ''0'', CHR ''0'', digit_char (n div 16), digit_char (n mod 16)] else [c])"

definition quote_text :: "string \<Rightarrow> string" where
  "quote_text s = [CHR 0x22] @ concat (map escape_char s) @ [CHR 0x22]"

fun commas :: "string list \<Rightarrow> string" where
  "commas [] = []"
| "commas [s] = s"
| "commas (s # t # ts) = s @ '','' @ commas (t # ts)"

function stringify_json :: "json \<Rightarrow> string" where
  "stringify_json JsonNull = ''null''"
| "stringify_json (JsonBool b) = (if b then ''true'' else ''false'')"
| "stringify_json (JsonNumber n) = int_string n"
| "stringify_json (JsonText s) = quote_text s"
| "stringify_json (JsonArray js) = ''['' @ commas (map stringify_json js) @ '']''"
| "stringify_json (JsonObject ps) = ''{'' @ commas (map (\<lambda>(k, j). quote_text k @ '':'' @ stringify_json j) ps) @ ''}''"
  by pat_completeness auto

termination
  by (relation "measure size") (auto simp: less_Suc_eq_le intro: size_list_estimation')

text \<open>\<open>None\<close> is metadata that is absent\<close>

definition canonicalize_metadata :: "(string \<times> meta) list option \<Rightarrow> string" where
  "canonicalize_metadata m =
     (case m of None \<Rightarrow> ''{}'' | Some ps \<Rightarrow> stringify_json (sort_value_for_canonical_json (MetaObject ps)))"

section \<open>The text determines the value\<close>

definition unescape_char :: "string \<Rightarrow> char \<times> string" where
  "unescape_char s =
     (case s of
        c # d # r \<Rightarrow>
          if c \<noteq> CHR 0x5C then (c, d # r)
          else if d = CHR ''u'' then
            (char_of (digit_value (r ! 2) * 16 + digit_value (r ! 3)), drop 4 r)
          else ((if d = CHR ''b'' then CHR 0x08 else if d = CHR ''f'' then CHR 0x0C else if d = CHR ''n'' then CHR 0x0A
                 else if d = CHR ''r'' then CHR 0x0D else if d = CHR ''t'' then CHR 0x09 else d), r)
      | _ \<Rightarrow> (hd s, tl s))"

lemma unescape_escape: "unescape_char (escape_char c @ u) = (c, u)"
proof (cases "c \<in> {CHR 0x22, CHR 0x5C, CHR 0x08, CHR 0x0C, CHR 0x0A, CHR 0x0D, CHR 0x09}")
  case True
  then show ?thesis by (auto simp: escape_char_def unescape_char_def)
next
  case other: False
  show ?thesis
  proof (cases "(of_char c :: nat) < 32")
    case True
    then have "digit_value (digit_char (of_char c div 16)) = of_char c div 16"
      "digit_value (digit_char (of_char c mod 16)) = of_char c mod 16"
      by (simp_all add: digit_value_char)
    with other True show ?thesis
      by (auto simp: escape_char_def unescape_char_def Let_def)
  next
    case False
    with other show ?thesis by (cases u) (auto simp: escape_char_def unescape_char_def Let_def)
  qed
qed

lemma escape_inj: "escape_char c @ u = escape_char d @ v \<longleftrightarrow> c = d \<and> u = v"
  by (metis prod.inject unescape_escape)

lemma escape_no_quote: "escape_char c @ u \<noteq> CHR 0x22 # v"
  by (auto simp: escape_char_def Let_def)

lemma escaped_inj:
  "concat (map escape_char s) @ CHR 0x22 # u = concat (map escape_char t) @ CHR 0x22 # v \<longleftrightarrow> s = t \<and> u = v"
proof (induction s arbitrary: t)
  case Nil
  show ?case
    using escape_no_quote by (cases t) (simp_all, metis)
next
  case (Cons c s)
  show ?case
  proof (cases t)
    case Nil
    then show ?thesis using escape_no_quote by simp
  next
    case t: (Cons d t')
    then show ?thesis using Cons.IH [of t'] by (simp add: escape_inj)
  qed
qed

lemma quote_inj: "quote_text s @ u = quote_text t @ v \<longleftrightarrow> s = t \<and> u = v"
  by (simp add: quote_text_def escaped_inj)

definition ends_value :: "string \<Rightarrow> bool" where
  "ends_value s \<longleftrightarrow> s = [] \<or> hd s \<in> {CHR '','', CHR '']'', CHR ''}''}"

lemma int_string_chars: "c \<in> set (int_string n) \<Longrightarrow> is_digit c \<or> c = CHR ''-''"
  using dec_string_digits by (auto simp: int_string_def split: if_splits)

lemma int_string_nonempty: "int_string n \<noteq> []"
  by (simp add: int_string_def)

lemma int_string_value: "int_string n = int_string m \<Longrightarrow> n = m"
proof -
  assume eq: "int_string n = int_string m"
  have no_minus: "dec_string k \<noteq> CHR ''-'' # s" for k s
    using dec_string_digits [of k] not_digit_chars(2) by auto
  have dec: "dec_string k = dec_string l \<Longrightarrow> k = l" for k l 
    by (drule arg_cong [of _ _ "radix_value 10"]) simp
  show "n = m"
  proof (cases "n < 0"; cases "m < 0")
    assume "n < 0" "m < 0"
    then show ?thesis using eq dec [of "nat (- n)" "nat (- m)"] by (simp add: int_string_def)
  next
    assume "n < 0" "\<not> m < 0"
    then show ?thesis using eq no_minus [of "nat m"] by (metis int_string_def)
  next
    assume "\<not> n < 0" "m < 0"
    then show ?thesis using eq no_minus [of "nat n"] by (metis int_string_def)
  next
    assume "\<not> n < 0" "\<not> m < 0"
    then show ?thesis using eq dec [of "nat n" "nat m"] by (simp add: int_string_def)
  qed
qed

lemma number_inj:
  assumes "int_string n @ u = int_string m @ v" "ends_value u" "ends_value v"
  shows "n = m \<and> u = v"
proof -
  let ?P = "\<lambda>c. is_digit c \<or> c = CHR ''-''"
  have stop: "takeWhile ?P (int_string k @ w) = int_string k" if "ends_value w" for k w
  proof -
    have "takeWhile ?P w = []" using that by (cases w) (auto simp: ends_value_def is_digit_iff)
    then show ?thesis using int_string_chars by (subst takeWhile_append2) auto
  qed
  have "int_string n = int_string m" using stop [OF assms(2), of n] stop [OF assms(3), of m] assms(1) by simp
  then show ?thesis using assms(1) int_string_value by auto
qed

lemma commas_Cons: "commas (s # ss) = s @ concat (map (\<lambda>t. CHR '','' # t) ss)"
  by (induction ss arbitrary: s) simp_all

lemma tails_inj:
  assumes "concat (map (\<lambda>x. CHR '','' # f x) xs) @ c # u = concat (map (\<lambda>x. CHR '','' # f x) ys) @ c # v"
    and "c = CHR '']'' \<or> c = CHR ''}''"
    and "\<And>x y u v. x \<in> set xs \<Longrightarrow> f x @ u = f y @ v \<Longrightarrow> ends_value u \<Longrightarrow> ends_value v \<Longrightarrow> x = y \<and> u = v"
  shows "xs = ys \<and> u = v"
  using assms
proof (induction xs arbitrary: ys)
  case Nil
  then show ?case by (cases ys) auto
next
  case (Cons x xs)
  then obtain y ys' where ys: "ys = y # ys'" by (cases ys) auto
  let ?r = "\<lambda>zs. concat (map (\<lambda>x. CHR '','' # f x) zs)"
  have ends: "ends_value (?r zs @ c # w)" for zs w using Cons.prems(2) by (cases zs) (auto simp: ends_value_def)
  have "f x @ (?r xs @ c # u) = f y @ (?r ys' @ c # v)" using Cons.prems(1) by (simp add: ys)
  then have "x = y \<and> ?r xs @ c # u = ?r ys' @ c # v" using Cons.prems(3) [of x] ends by simp
  then have xy: "x = y" and rest: "?r xs @ c # u = ?r ys' @ c # v" by simp_all
  from rest Cons.prems(2) have "xs = ys' \<and> u = v"
  proof (rule Cons.IH)
    fix x' y' u' v' assume "x' \<in> set xs" "f x' @ u' = f y' @ v'" "ends_value u'" "ends_value v'"
    then show "x' = y' \<and> u' = v'" using Cons.prems(3) [of x' u' y' v'] by simp
  qed
  then show ?case using xy ys by simp
qed

lemma list_text_inj:
  assumes "commas (map f xs) @ c # u = commas (map f ys) @ c # v" "c = CHR '']'' \<or> c = CHR ''}''"
    and "\<And>x y u v. x \<in> set xs \<Longrightarrow> f x @ u = f y @ v \<Longrightarrow> ends_value u \<Longrightarrow> ends_value v \<Longrightarrow> x = y \<and> u = v"
    and nonempty: "\<And>x. f x \<noteq> []" "\<And>x. hd (f x) \<noteq> c"
  shows "xs = ys \<and> u = v"
proof -
  have first: "commas (map f zs) @ c # w = (if zs = [] then c # w else f (hd zs) @ concat (map (\<lambda>x. CHR '','' # f x) (tl zs)) @ c # w)" for zs w
    by (cases zs) (simp_all add: commas_Cons comp_def)
  have no: "f x @ w \<noteq> c # w'" for x w w' using nonempty [of x] by (cases "f x") auto
  show ?thesis
  proof (cases xs)
    case Nil
    then show ?thesis using assms(1) no by (cases ys) (simp_all add: commas_Cons, metis)
  next
    case (Cons x xs')
    then obtain y ys' where ys: "ys = y # ys'" using assms(1) no by (cases ys) (auto simp: commas_Cons)
    have "concat (map (\<lambda>x. CHR '','' # f x) xs) @ c # u = concat (map (\<lambda>x. CHR '','' # f x) ys) @ c # v"
      using assms(1) by (simp add: Cons ys commas_Cons comp_def)
    then show ?thesis using assms(2,3) by (rule tails_inj)
  qed
qed

lemma number_first:
  assumes "\<not> is_digit c" "c \<noteq> CHR ''-''"
  shows "int_string n @ u \<noteq> c # w" "c # w \<noteq> int_string n @ u" "int_string n \<noteq> c # w"
proof -
  obtain d ds where d: "int_string n = d # ds" using int_string_nonempty by (cases "int_string n") auto
  then have "is_digit d \<or> d = CHR ''-''" using int_string_chars [of d n] by simp
  then show "int_string n @ u \<noteq> c # w" "c # w \<noteq> int_string n @ u" "int_string n \<noteq> c # w" using assms d by auto
qed

lemma json_chars [simp]:
  "c \<in> {CHR ''n'', CHR ''t'', CHR ''f'', CHR 0x22, CHR ''['', CHR ''{'', CHR '']'', CHR ''}'', CHR '',''} \<Longrightarrow> \<not> is_digit c \<and> c \<noteq> CHR ''-''"
  by (auto simp: is_digit_iff)

lemmas number_firsts = number_first [OF conjunct1 [OF json_chars] conjunct2 [OF json_chars]]

lemma stringify_first:
  "stringify_json j \<noteq> []" "c = CHR '']'' \<or> c = CHR ''}'' \<Longrightarrow> hd (stringify_json j) \<noteq> c"
proof -
  show "stringify_json j \<noteq> []" by (cases j) (simp_all add: quote_text_def int_string_nonempty)
  assume c: "c = CHR '']'' \<or> c = CHR ''}''"
  have "int_string n \<noteq> c # tl (int_string n)" for n using c by (intro number_firsts(3)) auto
  then have "hd (int_string n) \<noteq> c" for n using int_string_nonempty [of n] by (metis list.collapse)
  then show "hd (stringify_json j) \<noteq> c" using c by (cases j) (auto simp: quote_text_def)
qed

lemma stringify_inj:
  "stringify_json j @ u = stringify_json k @ v \<Longrightarrow> ends_value u \<Longrightarrow> ends_value v \<Longrightarrow> j = k \<and> u = v"
proof (induction j arbitrary: k u v)
  case (JsonNumber n)
  obtain m where "k = JsonNumber m" using JsonNumber(1) number_firsts
    by (cases k) (auto simp: quote_text_def split: if_splits)
  then show ?case using JsonNumber number_inj by simp
next
  case (JsonArray js)
  obtain ks where k: "k = JsonArray ks" using JsonArray.prems(1) number_firsts
    by (cases k) (auto simp: quote_text_def split: if_splits)
  have printed: "commas (map stringify_json js) @ CHR '']'' # u = commas (map stringify_json ks) @ CHR '']'' # v"
    using JsonArray.prems(1) by (simp add: k)
  have "js = ks \<and> u = v"
    by (rule list_text_inj [OF printed _ JsonArray.IH]) (simp_all add: stringify_first)
  then show ?case by (simp add: k)
next
  case (JsonObject ps)
  let ?f = "\<lambda>(k, j). quote_text k @ '':'' @ stringify_json j"
  obtain qs where k: "k = JsonObject qs" using JsonObject.prems(1) number_firsts
    by (cases k) (auto simp: quote_text_def split: if_splits)
  have printed: "commas (map ?f ps) @ CHR ''}'' # u = commas (map ?f qs) @ CHR ''}'' # v"
    using JsonObject.prems(1) by (simp add: k)
  have "ps = qs \<and> u = v"
  proof (rule list_text_inj [OF printed])
    fix x y u v assume x: "x \<in> set ps" and eq: "?f x @ u = ?f y @ v" and ends: "ends_value u" "ends_value v"
    obtain a b a' b' where xy: "x = (a, b)" "y = (a', b')" by (cases x; cases y) auto
    have "a = a'" "stringify_json b @ u = stringify_json b' @ v" using eq by (simp_all add: xy quote_inj)
    then show "x = y \<and> u = v" using JsonObject.IH [of x b u b' v] x ends xy by simp
  qed (auto simp: quote_text_def)
  then show ?case by (simp add: k)
next
  case JsonNull
  then show ?case using number_firsts by (cases k) (auto simp: quote_text_def split: if_splits)
next
  case (JsonBool b)
  then show ?case using number_firsts by (cases k) (auto simp: quote_text_def split: if_splits)
next
  case (JsonText s)
  then show ?case using number_firsts quote_inj by (cases k) (auto simp: quote_text_def split: if_splits)
qed

section \<open>Which metadata have the same canonical text\<close>

text \<open>
  The reference: two values are the same when their scalars print alike, their arrays agree element by element and their
  objects agree on every key that is kept, whatever the order of the keys.
\<close>

definition scalar_json :: "meta \<Rightarrow> json option" where
  "scalar_json m =
     (case m of MetaArray ms \<Rightarrow> None | MetaObject ps \<Rightarrow> None | MetaDate t \<Rightarrow> None | _ \<Rightarrow> Some (sort_value_for_canonical_json m))"

definition object_members :: "meta \<Rightarrow> (string \<times> meta) list option" where
  "object_members m = (case m of MetaObject ps \<Rightarrow> Some ps | MetaDate t \<Rightarrow> Some [] | _ \<Rightarrow> None)"

definition member_value :: "(string \<times> meta) list \<Rightarrow> string \<Rightarrow> meta option" where
  "member_value ps k = map_of (filter (\<lambda>(k, m). kept_member m) ps) k"

inductive same_metadata :: "meta \<Rightarrow> meta \<Rightarrow> bool" where
  same_scalar: "scalar_json m = Some j \<Longrightarrow> scalar_json m' = Some j \<Longrightarrow> same_metadata m m'"
| same_array: "list_all2 same_metadata xs ys \<Longrightarrow> same_metadata (MetaArray xs) (MetaArray ys)"
| same_object: "object_members m = Some ps \<Longrightarrow> object_members m' = Some qs \<Longrightarrow>
     (\<forall>k. member_value ps k = None \<longleftrightarrow> member_value qs k = None) \<Longrightarrow>
     (\<forall>k x y. member_value ps k = Some x \<longrightarrow> member_value qs k = Some y \<longrightarrow> same_metadata x y) \<Longrightarrow> same_metadata m m'"

function keys_distinct :: "meta \<Rightarrow> bool" where
  "keys_distinct (MetaObject ps) \<longleftrightarrow> distinct (map fst ps) \<and> (\<forall>p \<in> set ps. keys_distinct (snd p))"
| "keys_distinct (MetaArray ms) \<longleftrightarrow> (\<forall>m \<in> set ms. keys_distinct m)"
| "keys_distinct MetaNull = True"
| "keys_distinct MetaUndefined = True"
| "keys_distinct MetaFunction = True"
| "keys_distinct (MetaBool b) = True"
| "keys_distinct (MetaNumber n) = True"
| "keys_distinct (MetaBigint n) = True"
| "keys_distinct (MetaText s) = True"
| "keys_distinct (MetaDate t) = True"
  by pat_completeness auto

termination
  by (relation "measure size") (auto simp: less_Suc_eq_le intro: size_list_estimation')

definition sorted_members :: "(string \<times> meta) list \<Rightarrow> (string \<times> json) list" where
  "sorted_members ps =
     map (\<lambda>(k, m). (k, sort_value_for_canonical_json m)) (filter (\<lambda>(k, m). kept_member m) (sort_key fst ps))"

lemma map_of_sort_key: "distinct (map fst ps) \<Longrightarrow> map_of (sort_key fst ps) = map_of ps"
  by (intro map_of_inject_set [THEN iffD2]) (simp_all add: distinct_map inj_on_def)

lemma distinct_filter_keys: "distinct (map fst ps) \<Longrightarrow> distinct (map fst (filter P ps))"
  by (induction ps) auto

lemma sorted_members_keys:
  assumes "distinct (map fst ps)"
  shows "sorted (map fst (sorted_members ps)) \<and> distinct (map fst (sorted_members ps))"
proof -
  have eq: "map fst (sorted_members ps) = map fst (filter (\<lambda>(k, m). kept_member m) (sort_key fst ps))"
    by (auto simp: sorted_members_def)
  have "distinct (map fst (sort_key fst ps))" using assms by (simp add: distinct_map inj_on_def)
  then have "distinct (map fst (sorted_members ps))" unfolding eq by (rule distinct_filter_keys)
  moreover have "sorted (map fst (filter (\<lambda>(k, m). kept_member m) (sort_key fst ps)))"
    by (rule sorted_filter) simp
  ultimately show ?thesis unfolding eq by simp
qed

lemma sorted_members_get:
  assumes "distinct (map fst ps)"
  shows "map_of (sorted_members ps) k = map_option sort_value_for_canonical_json (member_value ps k)"
proof -
  let ?f = "filter (\<lambda>(k, m). kept_member m)"
  have "distinct (map fst (sort_key fst ps))" using assms by (simp add: distinct_map inj_on_def)
  then have "map_of (?f (sort_key fst ps)) = map_of (?f ps)"
    using assms by (intro map_of_inject_set [THEN iffD2] distinct_filter_keys) auto
  then show ?thesis
    by (simp add: sorted_members_def member_value_def map_of_map [of sort_value_for_canonical_json, unfolded])
qed

lemma sorted_dict_eq:
  assumes "sorted (map fst xs)" "distinct (map fst xs)" "sorted (map fst ys)" "distinct (map fst ys)" "map_of xs = map_of ys"
  shows "xs = ys"
proof -
  have same: "set xs = set ys" using assms(2,4,5) map_of_inject_set by blast
  then have "inj_on fst (set xs \<union> set ys)" using assms(2) by (simp add: distinct_map)
  then show ?thesis using assms(1-4) same by (intro map_sorted_distinct_set_unique [of fst])
qed

lemma sort_object: "object_members m = Some ps \<Longrightarrow> sort_value_for_canonical_json m = JsonObject (sorted_members ps)"
  by (cases m) (auto simp: object_members_def sorted_members_def)

lemma sort_scalar: "scalar_json m = Some j \<longleftrightarrow> sort_value_for_canonical_json m = j \<and> (\<forall>js. j \<noteq> JsonArray js) \<and> (\<forall>ps. j \<noteq> JsonObject ps)"
  by (cases m) (auto simp: scalar_json_def)

lemma object_kind: "object_members m = Some ps \<Longrightarrow> scalar_json m = None \<and> (\<forall>xs. m \<noteq> MetaArray xs)"
  by (cases m) (auto simp: object_members_def scalar_json_def)

lemma same_objects:
  assumes "object_members m = Some ps" "object_members m' = Some qs"
  shows "same_metadata m m' \<longleftrightarrow>
    (\<forall>k. member_value ps k = None \<longleftrightarrow> member_value qs k = None) \<and>
    (\<forall>k x y. member_value ps k = Some x \<longrightarrow> member_value qs k = Some y \<longrightarrow> same_metadata x y)"
  using assms object_kind [OF assms(1)] by (subst same_metadata.simps) simp

lemma member_distinct: "keys_distinct (MetaObject ps) \<Longrightarrow> member_value ps k = Some m \<Longrightarrow> keys_distinct m"
  by (force simp: member_value_def dest!: map_of_SomeD)

lemma member_size: "(k, x) \<in> set ps \<Longrightarrow> size x \<le> size_list (size_prod (\<lambda>x. 0) size) ps"
  by (induction ps) auto

lemma member_in: "member_value ps k = Some m \<Longrightarrow> (k, m) \<in> set ps"
  by (auto simp: member_value_def dest!: map_of_SomeD)

lemma members_distinct: "object_members m = Some ps \<Longrightarrow> keys_distinct m \<Longrightarrow> keys_distinct (MetaObject ps)"
  by (cases m) (auto simp: object_members_def)

lemma same_members_eq:
  assumes ps: "keys_distinct (MetaObject ps)" and qs: "keys_distinct (MetaObject qs)"
    and IH: "\<And>k x y. member_value ps k = Some x \<Longrightarrow> member_value qs k = Some y \<Longrightarrow>
      sort_value_for_canonical_json x = sort_value_for_canonical_json y \<longleftrightarrow> same_metadata x y"
  shows "sorted_members ps = sorted_members qs \<longleftrightarrow>
    (\<forall>k. member_value ps k = None \<longleftrightarrow> member_value qs k = None) \<and>
    (\<forall>k x y. member_value ps k = Some x \<longrightarrow> member_value qs k = Some y \<longrightarrow> same_metadata x y)"
proof -
  have d: "distinct (map fst ps)" "distinct (map fst qs)" using ps qs by simp_all
  have "sorted_members ps = sorted_members qs \<longleftrightarrow> map_of (sorted_members ps) = map_of (sorted_members qs)"
    using sorted_dict_eq [of "sorted_members ps" "sorted_members qs"] sorted_members_keys [OF d(1)] sorted_members_keys [OF d(2)] by auto
  also have "\<dots> \<longleftrightarrow> (\<forall>k. map_option sort_value_for_canonical_json (member_value ps k) =
      map_option sort_value_for_canonical_json (member_value qs k))"
    using d by (simp add: fun_eq_iff sorted_members_get)
  also have "\<dots> \<longleftrightarrow> (\<forall>k. (member_value ps k = None \<longleftrightarrow> member_value qs k = None) \<and>
      (\<forall>x y. member_value ps k = Some x \<longrightarrow> member_value qs k = Some y \<longrightarrow> same_metadata x y))"
  proof (rule iff_allI)
    fix k
    show "map_option sort_value_for_canonical_json (member_value ps k) = map_option sort_value_for_canonical_json (member_value qs k) \<longleftrightarrow>
      (member_value ps k = None \<longleftrightarrow> member_value qs k = None) \<and>
      (\<forall>x y. member_value ps k = Some x \<longrightarrow> member_value qs k = Some y \<longrightarrow> same_metadata x y)"
      using IH [of k] by (cases "member_value ps k"; cases "member_value qs k") simp_all
  qed
  finally show ?thesis by blast
qed

lemma same_metadata_iff:
  "keys_distinct m \<Longrightarrow> keys_distinct m' \<Longrightarrow>
     sort_value_for_canonical_json m = sort_value_for_canonical_json m' \<longleftrightarrow> same_metadata m m'"
proof (induction m arbitrary: m' rule: measure_induct_rule [where f = size])
  case (less m)
  show ?case
  proof (cases "object_members m")
    case (Some ps)
    have m: "sort_value_for_canonical_json m = JsonObject (sorted_members ps)" using sort_object [OF Some] .
    have ps: "keys_distinct (MetaObject ps)" using members_distinct [OF Some less.prems(1)] .
    have small: "size x < size m" if "member_value ps k = Some x" for k x
    proof -
      have "(k, x) \<in> set ps" using member_in [OF that] .
      moreover have "m = MetaObject ps \<or> ps = []" using Some by (cases m) (auto simp: object_members_def)
      ultimately show ?thesis by (auto simp: less_Suc_eq_le member_size)
    qed
    show ?thesis
    proof (cases "object_members m'")
      case qs: (Some qs)
      have d: "keys_distinct (MetaObject qs)" using members_distinct [OF qs less.prems(2)] .
      have "sort_value_for_canonical_json x = sort_value_for_canonical_json y \<longleftrightarrow> same_metadata x y"
        if "member_value ps k = Some x" "member_value qs k = Some y" for k x y
        using less.IH [OF small [OF that(1)]] member_distinct [OF ps that(1)] member_distinct [OF d that(2)] by blast
      note eq = same_members_eq [OF ps d this]
      have "same_metadata m m' \<longleftrightarrow> sorted_members ps = sorted_members qs"
        using same_objects [OF Some qs] eq by simp
      then show ?thesis using m sort_object [OF qs] by simp
    next
      case None
      then have "\<not> same_metadata m m'" using Some object_kind [OF Some] by (subst same_metadata.simps) simp
      moreover have "sort_value_for_canonical_json m' \<noteq> JsonObject qs" for qs
        using None by (cases m') (auto simp: object_members_def)
      ultimately show ?thesis using m by metis
    qed
  next
    case None
    show ?thesis
    proof (cases "\<exists>xs. m = MetaArray xs")
      case True
      then obtain xs where xs: "m = MetaArray xs" by blast
      have IH: "sort_value_for_canonical_json x = sort_value_for_canonical_json y \<longleftrightarrow> same_metadata x y"
        if "x \<in> set xs" "keys_distinct y" for x y
        using that less.prems(1) less.IH [of x y] by (auto simp: xs less_Suc_eq_le intro: size_list_estimation')
      show ?thesis
      proof (cases "\<exists>ys. m' = MetaArray ys")
        case True
        then obtain ys where ys: "m' = MetaArray ys" by blast
        have "list_all2 same_metadata xs ys \<longleftrightarrow> map sort_value_for_canonical_json xs = map sort_value_for_canonical_json ys"
          using IH less.prems(2) by (auto simp: list_all2_conv_all_nth list_eq_iff_nth_eq ys)
        then show ?thesis by (subst same_metadata.simps) (auto simp: xs ys sort_scalar object_members_def)
      next
        case False
        then have "\<not> same_metadata m m'" by (subst same_metadata.simps) (auto simp: xs sort_scalar object_members_def)
        moreover have "sort_value_for_canonical_json m' \<noteq> JsonArray js" for js using False by (cases m') auto
        ultimately show ?thesis by (metis xs sort_value_for_canonical_json.simps(9))
      qed
    next
      case False
      then obtain j where j: "scalar_json m = Some j" using None by (cases m) (auto simp: scalar_json_def object_members_def)
      have "same_metadata m m' \<longleftrightarrow> scalar_json m' = Some j"
        using None False j by (subst same_metadata.simps) auto
      also have "\<dots> \<longleftrightarrow> sort_value_for_canonical_json m = sort_value_for_canonical_json m'"
        using j by (auto simp: sort_scalar)
      finally show ?thesis by simp
    qed
  qed
qed

lemma canonical_objects_iff:
  assumes "keys_distinct (MetaObject ps)" "keys_distinct (MetaObject qs)"
  shows "canonicalize_metadata (Some ps) = canonicalize_metadata (Some qs) \<longleftrightarrow>
    same_metadata (MetaObject ps) (MetaObject qs)"
proof -
  have "stringify_json j = stringify_json k \<longleftrightarrow> j = k" for j k
    using stringify_inj [of j "[]" k "[]"] by (auto simp: ends_value_def)
  then show ?thesis using same_metadata_iff [OF assms] by (simp only: canonicalize_metadata_def option.case)
qed

section \<open>Plain metadata\<close>

text \<open>
  The values a JSON text can say: no date, bigint, undefined value or function in them. Two of them are reorderings of
  each other if they are the same but for the order of the members of their objects.
\<close>

function plain_meta :: "meta \<Rightarrow> bool" where
  "plain_meta (MetaObject ps) \<longleftrightarrow> (\<forall>p \<in> set ps. plain_meta (snd p))"
| "plain_meta (MetaArray ms) \<longleftrightarrow> (\<forall>m \<in> set ms. plain_meta m)"
| "plain_meta MetaNull = True"
| "plain_meta MetaUndefined = False"
| "plain_meta MetaFunction = False"
| "plain_meta (MetaBool b) = True"
| "plain_meta (MetaNumber n) = True"
| "plain_meta (MetaBigint n) = False"
| "plain_meta (MetaText s) = True"
| "plain_meta (MetaDate t) = False"
  by pat_completeness auto

termination
  by (relation "measure size") (auto simp: less_Suc_eq_le intro: size_list_estimation')

inductive reordered :: "meta \<Rightarrow> meta \<Rightarrow> bool" where
  same: "reordered m m"
| array: "list_all2 reordered xs ys \<Longrightarrow> reordered (MetaArray xs) (MetaArray ys)"
| object: "(\<forall>k. map_of ps k = None \<longleftrightarrow> map_of qs k = None) \<Longrightarrow>
     (\<forall>k x y. map_of ps k = Some x \<longrightarrow> map_of qs k = Some y \<longrightarrow> reordered x y) \<Longrightarrow>
     reordered (MetaObject ps) (MetaObject qs)"

lemma plain_kept: "plain_meta m \<Longrightarrow> kept_member m"
  by (cases m) (simp_all add: kept_member_def)

lemma plain_member_value: "plain_meta (MetaObject ps) \<Longrightarrow> member_value ps k = map_of ps k"
proof -
  assume "plain_meta (MetaObject ps)"
  then have "filter (\<lambda>(k, m). kept_member m) ps = ps" by (auto simp: filter_id_conv plain_kept)
  then show ?thesis by (simp add: member_value_def)
qed

lemma plain_member: "plain_meta (MetaObject ps) \<Longrightarrow> map_of ps k = Some x \<Longrightarrow> plain_meta x"
  by (fastforce dest: map_of_SomeD)

lemma plain_object: "plain_meta m \<Longrightarrow> object_members m = Some ps \<Longrightarrow> m = MetaObject ps"
  by (cases m) (simp_all add: object_members_def)

lemma same_metadata_reordered: "same_metadata m m' \<Longrightarrow> plain_meta m \<Longrightarrow> plain_meta m' \<Longrightarrow> reordered m m'"
proof (induction rule: same_metadata.induct)
  case (same_scalar m j m')
  then have "m = m'" by (cases m; cases m') (auto simp: scalar_json_def)
  then show ?case by (simp add: reordered.same)
next
  case (same_array xs ys)
  then show ?case by (intro reordered.array) (auto simp: list_all2_conv_all_nth)
next
  case (same_object m ps m' qs)
  note objects = plain_object [OF same_object.prems(1) same_object.hyps(1)] plain_object [OF same_object.prems(2) same_object.hyps(2)]
  note vals = plain_member_value [OF same_object.prems(1) [unfolded objects]] plain_member_value [OF same_object.prems(2) [unfolded objects]]
  show ?case unfolding objects
  proof (rule reordered.object)
    show "\<forall>k. map_of ps k = None \<longleftrightarrow> map_of qs k = None" using same_object.hyps(3) by (simp add: vals)
    show "\<forall>k x y. map_of ps k = Some x \<longrightarrow> map_of qs k = Some y \<longrightarrow> reordered x y"
      using same_object.IH same_object.prems plain_member unfolding objects vals by blast
  qed
qed

lemma reordered_same_metadata: "reordered m m' \<Longrightarrow> plain_meta m \<Longrightarrow> plain_meta m' \<Longrightarrow> keys_distinct m \<Longrightarrow> same_metadata m m'"
proof (induction rule: reordered.induct)
  case (same m)
  then show ?case using same_metadata_iff by blast
next
  case (array xs ys)
  then show ?case by (intro same_array) (auto simp: list_all2_conv_all_nth)
next
  case (object ps qs)
  have distinct: "keys_distinct x" if "map_of ps k = Some x" for k x
    using object.prems(3) map_of_SomeD [OF that] by fastforce
  show ?case
  proof (rule same_object)
    show "\<forall>k. member_value ps k = None \<longleftrightarrow> member_value qs k = None"
      using object by (simp add: plain_member_value)
    show "\<forall>k x y. member_value ps k = Some x \<longrightarrow> member_value qs k = Some y \<longrightarrow> same_metadata x y"
      using object plain_member distinct unfolding plain_member_value [OF object.prems(1)] plain_member_value [OF object.prems(2)] by blast
  qed (simp_all add: object_members_def)
qed

lemma plain_metadata_iff:
  "plain_meta m \<Longrightarrow> plain_meta m' \<Longrightarrow> keys_distinct m \<Longrightarrow> same_metadata m m' \<longleftrightarrow> reordered m m'"
  using same_metadata_reordered reordered_same_metadata by blast

end
