(* ===== verification/Receipts.thy ===== *)
theory Receipts
  imports CanonicalJson
begin

text \<open>
  Payroll receipts (\<open>packages/core/src/receipts/\<close>): how one is made, how one is verified against what its reader
  expects, and how one is found by its transaction hash. SHA-256, \<open>Number\<close> and the parsing of dates are the record
  \<open>receipt_library\<close>; a time is a whole number of milliseconds or \<open>NaN\<close>. Messages, the redacted copy and the asynchronous
  variant are left out, and so are the fields of a receipt no check reads.
\<close>

section \<open>Times\<close>

datatype epoch = At int | NotANumber

definition epoch_less :: "epoch \<Rightarrow> epoch \<Rightarrow> bool" where
  "epoch_less a b = (case (a, b) of (At x, At y) \<Rightarrow> x < y | _ \<Rightarrow> False)"

definition epoch_shift :: "int \<Rightarrow> epoch \<Rightarrow> epoch" where
  "epoch_shift d a = (case a of At x \<Rightarrow> At (x + d) | NotANumber \<Rightarrow> NotANumber)"

text \<open>The age of a receipt, \<open>nowMs - issuedAtMs\<close>\<close>

definition epoch_minus :: "epoch \<Rightarrow> epoch \<Rightarrow> epoch" where
  "epoch_minus a b = (case (a, b) of (At x, At y) \<Rightarrow> At (x - y) | _ \<Rightarrow> NotANumber)"

lemma epoch_simps [simp]:
  "epoch_less (At x) (At y) = (x < y)" "\<not> epoch_less NotANumber b" "\<not> epoch_less a NotANumber"
  "epoch_shift d (At x) = At (x + d)" "epoch_shift d NotANumber = NotANumber"
  "epoch_minus (At x) (At y) = At (x - y)" "epoch_minus NotANumber b = NotANumber" "epoch_minus a NotANumber = NotANumber"
  by (simp_all add: epoch_less_def epoch_shift_def epoch_minus_def split: epoch.splits)

datatype stamp = StampNumber epoch | StampText string | StampDate epoch

record receipt_library =
  sha256_sync :: "string \<Rightarrow> string"
  js_number :: "string \<Rightarrow> epoch"
  js_date :: "string \<Rightarrow> epoch"

definition scale_seconds :: "epoch \<Rightarrow> epoch" where
  "scale_seconds t = (case t of At x \<Rightarrow> At (if x < 10000000000 then x * 1000 else x) | NotANumber \<Rightarrow> NotANumber)"

definition parse_timestamp_to_ms :: "receipt_library \<Rightarrow> stamp option \<Rightarrow> epoch option" where
  "parse_timestamp_to_ms lib ts =
     (case ts of
        None \<Rightarrow> None
      | Some (StampDate t) \<Rightarrow> Some t
      | Some (StampNumber t) \<Rightarrow> Some (scale_seconds t)
      | Some (StampText s) \<Rightarrow>
          if js_number lib s \<noteq> NotANumber \<and> js_trim s \<noteq> [] then Some (scale_seconds (js_number lib s))
          else if js_date lib s = NotANumber then None else Some (js_date lib s))"

section \<open>Receipts\<close>

text \<open>The hash of a structured reference is \<open>None\<close> where it is no text.\<close>

record tx_reference =
  tx_hash :: "string option"
  tx_ledger :: "jsnum option"
  tx_network :: "string option"
  tx_submitted_at :: "stamp option"
  tx_confirmed_at :: "stamp option"
  tx_contract_id :: "string option"

datatype reference = NoReference | ReferenceText string | ReferenceObject tx_reference

record receipt =
  receipt_id :: string
  receipt_payroll_id :: string
  settlement_status :: string
  transaction_reference :: reference
  metadata_digest :: string
  receipt_metadata :: "(string \<times> meta) list option"
  issued_at :: stamp
  signature :: "string option"
  signer_public_key :: "string option"

text \<open>What a caller hands over: a required field that is absent or of another type is \<open>None\<close>.\<close>

record candidate =
  cand_receipt_id :: "string option"
  cand_payroll_id :: "string option"
  cand_status :: "string option"
  cand_reference :: reference
  cand_digest :: "string option"
  cand_metadata :: "(string \<times> meta) list option"
  cand_issued_at :: "stamp option"
  cand_signature :: "string option"
  cand_signer :: "string option"

definition blank_or_missing :: "string option \<Rightarrow> bool" where
  "blank_or_missing s = (case s of None \<Rightarrow> True | Some t \<Rightarrow> js_trim t = [])"

definition reference_shaped :: "reference \<Rightarrow> bool" where
  "reference_shaped r =
     (case r of NoReference \<Rightarrow> False | ReferenceText s \<Rightarrow> js_trim s \<noteq> [] | ReferenceObject t \<Rightarrow> \<not> blank_or_missing (tx_hash t))"

text \<open>The type guard: \<open>Some\<close> receipt where the candidate has the shape of one; \<open>None\<close> for the candidate is no object\<close>

definition validate_payroll_receipt_shape :: "candidate option \<Rightarrow> receipt option" where
  "validate_payroll_receipt_shape c =
     (case c of
        None \<Rightarrow> None
      | Some obj \<Rightarrow>
          if blank_or_missing (cand_receipt_id obj) then None
          else if blank_or_missing (cand_payroll_id obj) then None
          else if blank_or_missing (cand_status obj) then None
          else if blank_or_missing (cand_digest obj) then None
          else if \<not> reference_shaped (cand_reference obj) then None
          else (case cand_issued_at obj of
            None \<Rightarrow> None
          | Some (StampDate _) \<Rightarrow> None
          | Some at \<Rightarrow>
              Some \<lparr>receipt_id = the (cand_receipt_id obj), receipt_payroll_id = the (cand_payroll_id obj),
                settlement_status = the (cand_status obj), transaction_reference = cand_reference obj,
                metadata_digest = the (cand_digest obj), receipt_metadata = cand_metadata obj, issued_at = at,
                signature = cand_signature obj, signer_public_key = cand_signer obj\<rparr>))"

definition extract_receipt_tx_hash :: "receipt \<Rightarrow> string" where
  "extract_receipt_tx_hash r =
     (case transaction_reference r of
        NoReference \<Rightarrow> []
      | ReferenceText s \<Rightarrow> js_trim s
      | ReferenceObject t \<Rightarrow> (case tx_hash t of None \<Rightarrow> [] | Some h \<Rightarrow> js_trim h))"

definition hex_char :: "char \<Rightarrow> bool" where
  "hex_char c \<longleftrightarrow> (CHR ''a'' \<le> c \<and> c \<le> CHR ''f'') \<or> (CHR ''A'' \<le> c \<and> c \<le> CHR ''F'') \<or> (CHR ''0'' \<le> c \<and> c \<le> CHR ''9'')"

text \<open>The pattern of 64 hexadecimal characters\<close>

definition hex64 :: "string \<Rightarrow> bool" where
  "hex64 s \<longleftrightarrow> length s = 64 \<and> list_all hex_char s"

definition is_valid_hex_digest :: "string \<Rightarrow> bool" where
  "is_valid_hex_digest s = hex64 (js_trim s)"

definition compute_metadata_digest :: "receipt_library \<Rightarrow> (string \<times> meta) list option \<Rightarrow> string" where
  "compute_metadata_digest lib m = sha256_sync lib (canonicalize_metadata m)"

definition verify_metadata_digest_match ::
  "receipt_library \<Rightarrow> string \<Rightarrow> (string \<times> meta) list option \<Rightarrow> string option \<Rightarrow> bool" where
  "verify_metadata_digest_match lib actual metadata expected =
     (if \<not> is_valid_hex_digest actual then False
      else let normalized = js_lower (js_trim actual) in
        if truthy expected \<and> \<not> is_valid_hex_digest (the expected) then False
        else if truthy expected \<and> normalized \<noteq> js_lower (js_trim (the expected)) then False
        else if metadata \<noteq> None \<and> normalized \<noteq> compute_metadata_digest lib metadata then False
        else True)"

section \<open>Verification\<close>

datatype receipt_code =
  InvalidShape | PayrollIdMissing | PayrollIdMismatch | SettlementStatusMissing | SettlementStatusNotAllowed
| UnsettledStatus | TransactionReferenceMissing | TransactionReferenceInvalid | TransactionHashMismatch
| MetadataDigestMissing | MetadataDigestInvalid | MetadataDigestMismatch | IssuedAtMissing | IssuedAtInvalid | Expired
| FutureTimestamp | SignatureMissing | SignatureInvalid | CustomValidationFailed

datatype severity = SeverityError | SeverityWarning

record receipt_issue =
  issue_code :: receipt_code
  issue_severity :: severity
  issue_critical :: bool

definition critical_issue :: "receipt_code \<Rightarrow> receipt_issue" where
  "critical_issue c = \<lparr>issue_code = c, issue_severity = SeverityError, issue_critical = True\<rparr>"

text \<open>What calling a custom validator gives: an issue, nothing, an exception, or a promise\<close>

datatype validator_answer = ValidatorIssue receipt_issue | ValidatorSilent | ValidatorThrows | ValidatorPromise

record receipt_options =
  expected_payroll_id :: "string option"
  allowed_settlement_statuses :: "string list option"
  require_settled :: "bool option"
  expected_transaction_hash :: "string option"
  expected_metadata_digest :: "string option"
  option_metadata :: "(string \<times> meta) list option"
  max_age_ms :: "int option"
  tolerance_ms :: "int option"
  current_timestamp :: "stamp option"
  strict :: bool
  trusted_signers :: "string list option"
  require_signature :: bool
  custom_validators :: "(receipt \<Rightarrow> validator_answer) list"

record verified_fields =
  payroll_id_verified :: bool
  status_verified :: bool
  reference_verified :: bool
  digest_verified :: bool
  freshness_verified :: "bool option"
  signature_verified :: "bool option"

record receipt_verdict =
  receipt_is_valid :: bool
  verdict_fields :: verified_fields
  verdict_issues :: "receipt_issue list"

definition default_allowed_statuses :: "string list" where
  "default_allowed_statuses = [''settled'', ''confirmed'']"

definition default_tolerance_ms :: int where
  "default_tolerance_ms = 60000"

text \<open>Each check gives the code of the issue it finds.\<close>

definition check_payroll_id :: "receipt_options \<Rightarrow> receipt \<Rightarrow> receipt_code option" where
  "check_payroll_id opts r =
     (if js_trim (receipt_payroll_id r) = [] then Some PayrollIdMissing
      else if truthy (expected_payroll_id opts) \<and> js_trim (receipt_payroll_id r) \<noteq> js_trim (the (expected_payroll_id opts))
      then Some PayrollIdMismatch else None)"

definition allowed_statuses :: "receipt_options \<Rightarrow> string list option" where
  "allowed_statuses opts =
     (case allowed_settlement_statuses opts of
        Some ss \<Rightarrow> Some ss
      | None \<Rightarrow> if require_settled opts = Some False then None else Some default_allowed_statuses)"

definition check_settlement_status :: "receipt_options \<Rightarrow> receipt \<Rightarrow> receipt_code option" where
  "check_settlement_status opts r =
     (if settlement_status r = [] then Some SettlementStatusMissing
      else case allowed_statuses opts of
        None \<Rightarrow> None
      | Some allowed \<Rightarrow>
          if settlement_status r \<in> set allowed then None
          else if settlement_status r \<in> {''pending'', ''failed'', ''rejected''} then Some UnsettledStatus
          else Some SettlementStatusNotAllowed)"

definition check_transaction_reference :: "receipt_options \<Rightarrow> receipt \<Rightarrow> receipt_code option" where
  "check_transaction_reference opts r =
     (let h = extract_receipt_tx_hash r in
      if h = [] then Some TransactionReferenceMissing
      else if truthy (expected_transaction_hash opts) \<and>
        js_lower h \<noteq> js_trim (js_lower (the (expected_transaction_hash opts))) then Some TransactionHashMismatch
      else None)"

definition metadata_to_verify :: "receipt_options \<Rightarrow> receipt \<Rightarrow> (string \<times> meta) list option" where
  "metadata_to_verify opts r = (case option_metadata opts of Some m \<Rightarrow> Some m | None \<Rightarrow> receipt_metadata r)"

definition check_metadata_digest :: "receipt_library \<Rightarrow> receipt_options \<Rightarrow> receipt \<Rightarrow> receipt_code option" where
  "check_metadata_digest lib opts r =
     (if js_trim (metadata_digest r) = [] then Some MetadataDigestMissing
      else if \<not> is_valid_hex_digest (metadata_digest r) then Some MetadataDigestInvalid
      else if truthy (expected_metadata_digest opts) \<and>
        js_lower (js_trim (metadata_digest r)) \<noteq> js_lower (js_trim (the (expected_metadata_digest opts)))
      then Some MetadataDigestMismatch
      else if metadata_to_verify opts r \<noteq> None \<and>
        js_lower (js_trim (metadata_digest r)) \<noteq> js_lower (compute_metadata_digest lib (metadata_to_verify opts r))
      then Some MetadataDigestMismatch else None)"

definition now_ms :: "receipt_library \<Rightarrow> receipt_options \<Rightarrow> int \<Rightarrow> epoch" where
  "now_ms lib opts verified_at =
     (case parse_timestamp_to_ms lib (current_timestamp opts) of None \<Rightarrow> At verified_at | Some t \<Rightarrow> t)"

definition tolerance :: "receipt_options \<Rightarrow> int" where
  "tolerance opts = (case tolerance_ms opts of None \<Rightarrow> default_tolerance_ms | Some t \<Rightarrow> t)"

definition check_future :: "receipt_library \<Rightarrow> receipt_options \<Rightarrow> int \<Rightarrow> epoch \<Rightarrow> receipt_code list" where
  "check_future lib opts verified_at issued =
     (if epoch_less (epoch_shift (tolerance opts) (now_ms lib opts verified_at)) issued then [FutureTimestamp] else [])"

definition check_age :: "receipt_library \<Rightarrow> receipt_options \<Rightarrow> int \<Rightarrow> epoch \<Rightarrow> receipt_code list" where
  "check_age lib opts verified_at issued =
     (case max_age_ms opts of
        None \<Rightarrow> []
      | Some max_age \<Rightarrow>
          if 0 < max_age \<and> epoch_less (At (max_age + tolerance opts)) (epoch_minus (now_ms lib opts verified_at) issued)
          then [Expired] else [])"

definition check_freshness :: "receipt_library \<Rightarrow> receipt_options \<Rightarrow> int \<Rightarrow> receipt \<Rightarrow> receipt_code list" where
  "check_freshness lib opts verified_at r =
     (case parse_timestamp_to_ms lib (Some (issued_at r)) of
        None \<Rightarrow> [IssuedAtInvalid]
      | Some issued \<Rightarrow> check_future lib opts verified_at issued @ check_age lib opts verified_at issued)"

text \<open>The code of the issue and the value of \<open>verifiedFields.signature\<close>\<close>

definition check_signature :: "receipt_options \<Rightarrow> receipt \<Rightarrow> receipt_code option \<times> bool option" where
  "check_signature opts r =
     (if require_signature opts \<and> \<not> truthy (signature r) then (Some SignatureMissing, Some False)
      else case trusted_signers opts of
        Some (s # ss) \<Rightarrow>
          if \<not> truthy (signer_public_key r) \<or> the (signer_public_key r) \<notin> set (s # ss)
          then (Some SignatureInvalid, Some False) else (None, Some True)
      | _ \<Rightarrow> (None, if truthy (signature r) then Some True else None))"

definition found :: "receipt_code option \<Rightarrow> receipt_code list" where
  "found c = (case c of None \<Rightarrow> [] | Some d \<Rightarrow> [d])"

definition ask_validator :: "receipt \<Rightarrow> (receipt \<Rightarrow> validator_answer) \<Rightarrow> receipt_issue list" where
  "ask_validator r v =
     (case v r of
        ValidatorIssue i \<Rightarrow> [i]
      | ValidatorSilent \<Rightarrow> []
      | ValidatorThrows \<Rightarrow> [critical_issue CustomValidationFailed]
      | ValidatorPromise \<Rightarrow> [])"

definition fatal :: "receipt_options \<Rightarrow> receipt_issue \<Rightarrow> bool" where
  "fatal opts i \<longleftrightarrow> strict opts \<or> issue_critical i \<or> issue_severity i = SeverityError"

definition verify_shaped :: "receipt_library \<Rightarrow> receipt_options \<Rightarrow> int \<Rightarrow> receipt \<Rightarrow> receipt_verdict" where
  "verify_shaped lib opts verified_at r =
     (let payroll = check_payroll_id opts r; status = check_settlement_status opts r;
          ref = check_transaction_reference opts r; digest = check_metadata_digest lib opts r;
          freshness = check_freshness lib opts verified_at r; (sig, sig_verified) = check_signature opts r;
          codes = found payroll @ found status @ found ref @ found digest @ freshness @ found sig;
          issues = map critical_issue codes @ concat (map (ask_validator r) (custom_validators opts))
      in \<lparr>receipt_is_valid = (filter (fatal opts) issues = []),
          verdict_fields = \<lparr>payroll_id_verified = (payroll = None), status_verified = (status = None),
            reference_verified = (ref = None), digest_verified = (digest = None),
            freshness_verified = Some (freshness = []), signature_verified = sig_verified\<rparr>,
          verdict_issues = issues\<rparr>)"

definition verify_payroll_receipt :: "receipt_library \<Rightarrow> receipt_options \<Rightarrow> int \<Rightarrow> candidate option \<Rightarrow> receipt_verdict" where
  "verify_payroll_receipt lib opts verified_at c =
     (case validate_payroll_receipt_shape c of
        None \<Rightarrow>
          \<lparr>receipt_is_valid = False,
           verdict_fields = \<lparr>payroll_id_verified = False, status_verified = False, reference_verified = False,
             digest_verified = False, freshness_verified = None, signature_verified = None\<rparr>,
           verdict_issues = [critical_issue InvalidShape]\<rparr>
      | Some r \<Rightarrow> verify_shaped lib opts verified_at r)"

text \<open>The error carries the verdict and the code of its first issue.\<close>

definition assert_valid_payroll_receipt ::
  "receipt_library \<Rightarrow> receipt_options \<Rightarrow> int \<Rightarrow> candidate option \<Rightarrow> (receipt_verdict \<times> receipt_code, receipt_verdict) result" where
  "assert_valid_payroll_receipt lib opts verified_at c =
     (let v = verify_payroll_receipt lib opts verified_at c in
      if \<not> receipt_is_valid v
      then Inl (v, case verdict_issues v of [] \<Rightarrow> InvalidShape | i # _ \<Rightarrow> issue_code i) else Inr v)"

definition verify_payroll_receipt_batch ::
  "receipt_library \<Rightarrow> receipt_options \<Rightarrow> (candidate option \<times> int) list \<Rightarrow> receipt_verdict list" where
  "verify_payroll_receipt_batch lib opts cs = map (\<lambda>(c, verified_at). verify_payroll_receipt lib opts verified_at c) cs"

section \<open>Making a receipt\<close>

text \<open>The generated identifier and the clock are arguments.\<close>

record receipt_params =
  param_receipt_id :: "string option"
  param_payroll_id :: string
  param_status :: "string option"
  param_reference :: reference
  param_metadata :: "(string \<times> meta) list option"
  param_digest :: "string option"
  param_issued_at :: "stamp option"
  param_signature :: "string option"
  param_signer :: "string option"

definition create_payroll_receipt :: "receipt_library \<Rightarrow> string \<Rightarrow> int \<Rightarrow> receipt_params \<Rightarrow> receipt" where
  "create_payroll_receipt lib generated_id now p =
     \<lparr>receipt_id = (case param_receipt_id p of Some i \<Rightarrow> i | None \<Rightarrow> generated_id),
      receipt_payroll_id = param_payroll_id p,
      settlement_status = (case param_status p of Some s \<Rightarrow> s | None \<Rightarrow> ''settled''),
      transaction_reference = param_reference p,
      metadata_digest =
        (if truthy (param_digest p) \<and> is_valid_hex_digest (the (param_digest p)) then js_lower (js_trim (the (param_digest p)))
         else compute_metadata_digest lib (Some (case param_metadata p of Some m \<Rightarrow> m | None \<Rightarrow> []))),
      receipt_metadata = param_metadata p,
      issued_at = (case param_issued_at p of Some t \<Rightarrow> t | None \<Rightarrow> StampNumber (At now)),
      signature = param_signature p, signer_public_key = param_signer p\<rparr>"

text \<open>A receipt as a candidate for verification\<close>

definition as_candidate :: "receipt \<Rightarrow> candidate" where
  "as_candidate r =
     \<lparr>cand_receipt_id = Some (receipt_id r), cand_payroll_id = Some (receipt_payroll_id r),
      cand_status = Some (settlement_status r), cand_reference = transaction_reference r,
      cand_digest = Some (metadata_digest r), cand_metadata = receipt_metadata r, cand_issued_at = Some (issued_at r),
      cand_signature = signature r, cand_signer = signer_public_key r\<rparr>"

section \<open>Looking a receipt up\<close>

datatype reference_code =
  ReferenceMissing | TxHashMalformed | NetworkUnrecognized | LedgerInvalid | TimestampUnparseable | ConfirmedBeforeSubmitted

record resolved_reference =
  resolved_hash :: string
  is_present :: bool
  is_valid_hash :: bool
  resolved_network :: "string option"
  resolved_ledger :: "int option"
  resolved_submitted :: "epoch option"
  resolved_confirmed :: "epoch option"
  resolved_contract :: "string option"
  reference_issues :: "(reference_code \<times> bool) list"

definition known_networks :: "string list" where
  "known_networks = [''testnet'', ''mainnet'', ''pubnet'', ''futurenet'', ''standalone'']"

definition to_epoch_ms :: "receipt_library \<Rightarrow> stamp option \<Rightarrow> epoch option" where
  "to_epoch_ms lib ts =
     (case ts of
        None \<Rightarrow> None
      | Some (StampNumber t) \<Rightarrow> if t = NotANumber then None else Some t
      | Some (StampText s) \<Rightarrow>
          let trimmed = js_trim s in
          if trimmed = [] then None
          else if list_all is_digit trimmed then Some (At (int (dec_value trimmed)))
          else if js_date lib trimmed = NotANumber then None else Some (js_date lib trimmed)
      | Some (StampDate t) \<Rightarrow> None)"

definition bare_reference :: "string \<Rightarrow> bool \<Rightarrow> bool \<Rightarrow> (reference_code \<times> bool) list \<Rightarrow> resolved_reference" where
  "bare_reference h present valid issues =
     \<lparr>resolved_hash = h, is_present = present, is_valid_hash = valid, resolved_network = None, resolved_ledger = None,
      resolved_submitted = None, resolved_confirmed = None, resolved_contract = None, reference_issues = issues\<rparr>"

definition hash_issues :: "string \<Rightarrow> (reference_code \<times> bool) list" where
  "hash_issues h = (if hex64 h then [] else [(TxHashMalformed, True)])"

definition resolve_network :: "tx_reference \<Rightarrow> string option \<times> (reference_code \<times> bool) list" where
  "resolve_network t =
     (case tx_network t of
        None \<Rightarrow> (None, [])
      | Some n \<Rightarrow>
          if js_trim n = [] then (None, [])
          else if js_lower (js_trim n) \<in> set known_networks then (Some (js_lower (js_trim n)), [])
          else (None, [(NetworkUnrecognized, False)]))"

definition resolve_ledger :: "tx_reference \<Rightarrow> int option \<times> (reference_code \<times> bool) list" where
  "resolve_ledger t =
     (case tx_ledger t of
        None \<Rightarrow> (None, [])
      | Some (Whole n) \<Rightarrow> if 0 \<le> n then (Some n, []) else (None, [(LedgerInvalid, False)])
      | Some NonInteger \<Rightarrow> (None, [(LedgerInvalid, False)]))"

definition resolve_time :: "receipt_library \<Rightarrow> stamp option \<Rightarrow> epoch option \<times> (reference_code \<times> bool) list" where
  "resolve_time lib ts =
     (if ts = None then (None, [])
      else (to_epoch_ms lib ts, if to_epoch_ms lib ts = None then [(TimestampUnparseable, False)] else []))"

definition order_issues :: "epoch option \<Rightarrow> epoch option \<Rightarrow> (reference_code \<times> bool) list" where
  "order_issues submitted confirmed =
     (case (submitted, confirmed) of
        (Some a, Some b) \<Rightarrow> if epoch_less b a then [(ConfirmedBeforeSubmitted, True)] else []
      | _ \<Rightarrow> [])"

definition resolve_receipt_transaction_reference :: "receipt_library \<Rightarrow> reference \<Rightarrow> resolved_reference" where
  "resolve_receipt_transaction_reference lib ref =
     (case ref of
        NoReference \<Rightarrow> bare_reference [] False False [(ReferenceMissing, True)]
      | ReferenceText s \<Rightarrow>
          let h = js_trim s in
          if h = [] then bare_reference [] False False [(ReferenceMissing, True)]
          else bare_reference h True (hex64 h) (hash_issues h)
      | ReferenceObject t \<Rightarrow>
          let h = (case tx_hash t of Some x \<Rightarrow> js_trim x | None \<Rightarrow> []) in
          if h = [] then bare_reference [] False False [(ReferenceMissing, True)]
          else
            let (network, network_issues) = resolve_network t; (ledger, ledger_issues) = resolve_ledger t;
                (submitted, submitted_issues) = resolve_time lib (tx_submitted_at t);
                (confirmed, confirmed_issues) = resolve_time lib (tx_confirmed_at t)
            in \<lparr>resolved_hash = h, is_present = True, is_valid_hash = hex64 h, resolved_network = network,
                resolved_ledger = ledger, resolved_submitted = submitted, resolved_confirmed = confirmed,
                resolved_contract = tx_contract_id t,
                reference_issues = hash_issues h @ network_issues @ ledger_issues @ submitted_issues @ confirmed_issues @
                  order_issues submitted confirmed\<rparr>)"

record lookup_result =
  queried_hash :: string
  found_receipt :: "receipt option"
  match_count :: nat
  found_reference :: "resolved_reference option"
  is_found :: bool

definition hash_matches :: "receipt_library \<Rightarrow> string \<Rightarrow> receipt \<Rightarrow> bool" where
  "hash_matches lib normalized r =
     (let resolved = resolve_receipt_transaction_reference lib (transaction_reference r)
      in is_valid_hash resolved \<and> js_lower (resolved_hash resolved) = normalized)"

definition find_receipt_by_transaction_hash :: "receipt_library \<Rightarrow> receipt list \<Rightarrow> string \<Rightarrow> lookup_result" where
  "find_receipt_by_transaction_hash lib receipts h =
     (let normalized = js_lower (js_trim h);
          none = \<lparr>queried_hash = normalized, found_receipt = None, match_count = 0, found_reference = None, is_found = False\<rparr>
      in if \<not> hex64 normalized then none
         else case filter (hash_matches lib normalized) receipts of
           [] \<Rightarrow> none
         | [r] \<Rightarrow> none\<lparr>found_receipt := Some r, match_count := 1,
             found_reference := Some (resolve_receipt_transaction_reference lib (transaction_reference r)), is_found := True\<rparr>
         | matches \<Rightarrow> none\<lparr>match_count := length matches\<rparr>)"

definition mask_transaction_hash :: "string \<Rightarrow> string" where
  "mask_transaction_hash h =
     (let trimmed = js_trim h in
      if length trimmed \<le> 12 then ''****'' else take 6 trimmed @ ''...'' @ slice_last 4 trimmed)"

section \<open>Verdicts\<close>

lemma found_Nil [simp]: "found c = [] \<longleftrightarrow> c = None"
  by (simp add: found_def split: option.splits)

lemma critical_is_fatal [simp]: "fatal opts (critical_issue c)"
  by (simp add: fatal_def critical_issue_def)

definition validators_pass :: "receipt_options \<Rightarrow> receipt \<Rightarrow> bool" where
  "validators_pass opts r =
     list_all (\<lambda>v. case v r of ValidatorIssue i \<Rightarrow> \<not> fatal opts i | ValidatorThrows \<Rightarrow> False | _ \<Rightarrow> True) (custom_validators opts)"

lemma validators_pass_iff:
  "filter (fatal opts) (concat (map (ask_validator r) vs)) = [] \<longleftrightarrow>
     list_all (\<lambda>v. case v r of ValidatorIssue i \<Rightarrow> \<not> fatal opts i | ValidatorThrows \<Rightarrow> False | _ \<Rightarrow> True) vs"
  by (induction vs) (auto simp: ask_validator_def split: validator_answer.splits)

lemma shaped_valid_iff:
  "receipt_is_valid (verify_shaped lib opts t r) \<longleftrightarrow>
     check_payroll_id opts r = None \<and> check_settlement_status opts r = None \<and> check_transaction_reference opts r = None \<and>
     check_metadata_digest lib opts r = None \<and> check_freshness lib opts t r = [] \<and>
     fst (check_signature opts r) = None \<and> validators_pass opts r"
proof -
  have "filter (fatal opts) (map critical_issue cs) = [] \<longleftrightarrow> cs = []" for cs by (cases cs) simp_all
  then show ?thesis
    by (auto simp: verify_shaped_def Let_def validators_pass_def validators_pass_iff split: prod.splits)
qed

section \<open>Metadata and digests\<close>

text \<open>What the digests of the library look like\<close>

definition hex_digests :: "receipt_library \<Rightarrow> bool" where
  "hex_digests lib \<longleftrightarrow> (\<forall>x. hex64 (sha256_sync lib x) \<and> js_lower (sha256_sync lib x) = sha256_sync lib x)"

lemma hex_char_nat:
  "hex_char c \<longleftrightarrow> (97 \<le> (of_char c :: nat) \<and> (of_char c :: nat) \<le> 102) \<or> (65 \<le> (of_char c :: nat) \<and> (of_char c :: nat) \<le> 70) \<or>
     (48 \<le> (of_char c :: nat) \<and> (of_char c :: nat) \<le> 57)"
  by (simp add: hex_char_def less_eq_char_def)

lemma lower_char_nat: "(of_char (js_lower_char c) :: nat) =
    (if 65 \<le> (of_char c :: nat) \<and> (of_char c :: nat) \<le> 90 then of_char c + 32 else of_char c)"
  by (simp add: js_lower_char_def Let_def)

lemma hex_char_no_space: "hex_char c \<Longrightarrow> \<not> js_space c"
  by (auto simp: hex_char_nat js_space_def Let_def)

lemma hex64_trim: "hex64 s \<Longrightarrow> js_trim s = s"
  by (rule js_trim_no_space) (auto simp: hex64_def list_all_iff hex_char_no_space)

lemma hex64_nonempty: "hex64 s \<Longrightarrow> s \<noteq> []"
  by (auto simp: hex64_def)

lemma hex_char_lower: "hex_char (js_lower_char c) = hex_char c"
  unfolding hex_char_nat lower_char_nat by simp

lemma hex64_lower: "hex64 (js_lower s) = hex64 s"
  by (simp add: hex64_def js_lower_def list_all_iff hex_char_lower)

lemma space_lower: "js_space (js_lower_char c) = js_space c"
  unfolding js_space_def lower_char_nat Let_def by simp

lemma lower_trim: "js_trim (js_lower s) = js_lower (js_trim s)"
proof -
  have "dropWhile js_space (map js_lower_char xs) = map js_lower_char (dropWhile js_space xs)" for xs
    by (induction xs) (simp_all add: space_lower)
  then show ?thesis by (simp add: js_trim_def js_lower_def rev_map)
qed

lemma shape_as_candidate: "validate_payroll_receipt_shape (Some (as_candidate r)) = Some r' \<Longrightarrow> r' = r"
  by (auto simp: validate_payroll_receipt_shape_def as_candidate_def split: if_splits stamp.splits)

lemma digest_of_created:
  assumes "hex_digests lib" "param_metadata p = Some ps" "param_digest p = None"
  shows "js_lower (js_trim (metadata_digest (create_payroll_receipt lib i now p))) =
      sha256_sync lib (canonicalize_metadata (Some ps))"
    "is_valid_hex_digest (metadata_digest (create_payroll_receipt lib i now p))"
    "js_trim (metadata_digest (create_payroll_receipt lib i now p)) \<noteq> []"
  using assms hex64_trim hex64_nonempty
  by (simp_all add: create_payroll_receipt_def compute_metadata_digest_def hex_digests_def is_valid_hex_digest_def)

lemma check_against_metadata:
  assumes "option_metadata opts = None" "check_metadata_digest lib opts r = None"
  shows "check_metadata_digest lib (opts\<lparr>option_metadata := Some qs\<rparr>) r = None \<longleftrightarrow>
    js_lower (js_trim (metadata_digest r)) = js_lower (sha256_sync lib (canonicalize_metadata (Some qs)))"
  using assms
  by (auto simp: check_metadata_digest_def metadata_to_verify_def compute_metadata_digest_def split: if_splits)

lemma other_checks_keep:
  "check_payroll_id (opts\<lparr>option_metadata := m\<rparr>) r = check_payroll_id opts r"
  "check_settlement_status (opts\<lparr>option_metadata := m\<rparr>) r = check_settlement_status opts r"
  "check_transaction_reference (opts\<lparr>option_metadata := m\<rparr>) r = check_transaction_reference opts r"
  "check_freshness lib (opts\<lparr>option_metadata := m\<rparr>) t r = check_freshness lib opts t r"
  "check_signature (opts\<lparr>option_metadata := m\<rparr>) r = check_signature opts r"
  "validators_pass (opts\<lparr>option_metadata := m\<rparr>) r = validators_pass opts r"
proof -
  have fatal: "fatal (opts\<lparr>option_metadata := m\<rparr>) = fatal opts" by (rule ext) (simp add: fatal_def)
  show "validators_pass (opts\<lparr>option_metadata := m\<rparr>) r = validators_pass opts r" by (simp add: validators_pass_def fatal cong: validator_answer.case_cong)
qed (simp_all add: check_payroll_id_def check_settlement_status_def allowed_statuses_def check_transaction_reference_def
      check_freshness_def check_future_def check_age_def now_ms_def tolerance_def check_signature_def Let_def
      cong: option.case_cong)

lemma accepted_shape:
  "receipt_is_valid (verify_payroll_receipt lib opts t (Some (as_candidate r))) \<Longrightarrow>
     validate_payroll_receipt_shape (Some (as_candidate r)) = Some r"
  using shape_as_candidate [of r] by (auto simp: verify_payroll_receipt_def split: option.splits)

text \<open>
  A receipt made for metadata, and accepted as it is, is accepted against other metadata exactly when the canonical form does
  not tell both apart (\<open>same_metadata\<close>): beside reordered keys it identifies a bigint with its text, dates with an empty
  object and members that are undefined with absent ones.
\<close>

lemma receipt_checks_metadata:
  assumes lib: "hex_digests lib"
    and distinct: "keys_distinct (MetaObject ps)" "keys_distinct (MetaObject qs)"
    and no_collision: "sha256_sync lib (canonicalize_metadata (Some ps)) = sha256_sync lib (canonicalize_metadata (Some qs)) \<Longrightarrow>
      canonicalize_metadata (Some ps) = canonicalize_metadata (Some qs)"
    and p: "param_metadata p = Some ps" "param_digest p = None"
    and opts: "option_metadata opts = None"
    and accepted: "receipt_is_valid (verify_payroll_receipt lib opts t (Some (as_candidate (create_payroll_receipt lib i now p))))"
  shows "receipt_is_valid (verify_payroll_receipt lib (opts\<lparr>option_metadata := Some qs\<rparr>) t
      (Some (as_candidate (create_payroll_receipt lib i now p)))) \<longleftrightarrow> same_metadata (MetaObject ps) (MetaObject qs)"
proof -
  let ?r = "create_payroll_receipt lib i now p"
  note shape = accepted_shape [OF accepted]
  then have valid: "receipt_is_valid (verify_shaped lib opts t ?r)" using accepted by (simp add: verify_payroll_receipt_def)
  then have digest: "check_metadata_digest lib opts ?r = None" by (simp add: shaped_valid_iff)
  have "receipt_is_valid (verify_payroll_receipt lib (opts\<lparr>option_metadata := Some qs\<rparr>) t (Some (as_candidate ?r))) \<longleftrightarrow>
      check_metadata_digest lib (opts\<lparr>option_metadata := Some qs\<rparr>) ?r = None"
    using valid shape by (auto simp: verify_payroll_receipt_def shaped_valid_iff other_checks_keep)
  also have "\<dots> \<longleftrightarrow> sha256_sync lib (canonicalize_metadata (Some ps)) = sha256_sync lib (canonicalize_metadata (Some qs))"
    using check_against_metadata [OF opts digest] digest_of_created(1) [OF lib p] lib by (simp add: hex_digests_def)
  also have "\<dots> \<longleftrightarrow> canonicalize_metadata (Some ps) = canonicalize_metadata (Some qs)" using no_collision by metis
  finally show ?thesis using canonical_objects_iff [OF distinct] by simp
qed

text \<open>
  C9: A receipt made for plain metadata (null, booleans, whole numbers, texts, arrays and objects), and accepted as it is, is
  accepted against other plain metadata exactly when both are the same but for the order of the members of their objects:
  changed metadata is refused and reordered metadata is not. SHA-256 gives 64 lower case hexadecimal characters and does
  not collide on the two texts.
\<close>

theorem receipt_binds_metadata:
  assumes "hex_digests lib"
    and "plain_meta (MetaObject ps)" "plain_meta (MetaObject qs)" "keys_distinct (MetaObject ps)" "keys_distinct (MetaObject qs)"
    and "sha256_sync lib (canonicalize_metadata (Some ps)) = sha256_sync lib (canonicalize_metadata (Some qs)) \<Longrightarrow>
      canonicalize_metadata (Some ps) = canonicalize_metadata (Some qs)"
    and "param_metadata p = Some ps" "param_digest p = None" "option_metadata opts = None"
    and "receipt_is_valid (verify_payroll_receipt lib opts t (Some (as_candidate (create_payroll_receipt lib i now p))))"
  shows "receipt_is_valid (verify_payroll_receipt lib (opts\<lparr>option_metadata := Some qs\<rparr>) t
      (Some (as_candidate (create_payroll_receipt lib i now p)))) \<longleftrightarrow> reordered (MetaObject ps) (MetaObject qs)"
  using receipt_checks_metadata [OF assms(1,4-10)] plain_metadata_iff [OF assms(2-4)] by blast

definition example_library :: receipt_library where
  "example_library = \<lparr>sha256_sync = (\<lambda>x. replicate 64 (digit_char (length x mod 16))), js_number = (\<lambda>s. NotANumber),
     js_date = (\<lambda>s. At 1700000000000)\<rparr>"

definition example_options :: receipt_options where
  "example_options = \<lparr>expected_payroll_id = Some ''pr_1'', allowed_settlement_statuses = None, require_settled = None,
     expected_transaction_hash = None, expected_metadata_digest = None, option_metadata = None, max_age_ms = Some 3600000,
     tolerance_ms = None, current_timestamp = None, strict = False, trusted_signers = None, require_signature = False,
     custom_validators = []\<rparr>"

definition example_members :: "(string \<times> meta) list" where
  "example_members = [(''run'', MetaText ''May''), (''count'', MetaNumber 3)]"

definition example_params :: receipt_params where
  "example_params = \<lparr>param_receipt_id = None, param_payroll_id = ''pr_1'', param_status = None,
     param_reference = ReferenceText ''ab'', param_metadata = Some example_members, param_digest = None,
     param_issued_at = Some (StampText ''2023-11-14''), param_signature = None, param_signer = None\<rparr>"

lemma example_digests: "hex_digests example_library"
proof -
  have "hex_char (digit_char (n mod 16)) \<and> js_lower_char (digit_char (n mod 16)) = digit_char (n mod 16)" for n
  proof -
    have "n mod 16 \<in> set [0 ..< 16]" by simp
    moreover have "list_all (\<lambda>d. hex_char (digit_char d) \<and> js_lower_char (digit_char d) = digit_char d) [0 ..< 16]" by code_simp
    ultimately show ?thesis unfolding list_all_iff by blast
  qed
  then show ?thesis by (simp add: hex_digests_def example_library_def hex64_def js_lower_def list_all_iff)
qed

lemma example_accepted:
  "receipt_is_valid (verify_payroll_receipt example_library example_options 1700000100000
     (Some (as_candidate (create_payroll_receipt example_library ''rcpt_1'' 0 example_params))))"
  by code_simp

lemma example_reordered: "reordered (MetaObject example_members) (MetaObject (rev example_members))"
proof -
  have ok: "keys_distinct (MetaObject example_members)" "keys_distinct (MetaObject (rev example_members))"
    "plain_meta (MetaObject example_members)" "plain_meta (MetaObject (rev example_members))"
    "sort_value_for_canonical_json (MetaObject example_members) = sort_value_for_canonical_json (MetaObject (rev example_members))"
    by code_simp+
  then have "same_metadata (MetaObject example_members) (MetaObject (rev example_members))" using same_metadata_iff by blast
  then show ?thesis using plain_metadata_iff ok by blast
qed

theorem receipt_binds_metadata_witness:
  "receipt_is_valid (verify_payroll_receipt example_library (example_options\<lparr>option_metadata := Some (rev example_members)\<rparr>)
     1700000100000 (Some (as_candidate (create_payroll_receipt example_library ''rcpt_1'' 0 example_params)))) \<and>
   \<not> receipt_is_valid (verify_payroll_receipt example_library
     (example_options\<lparr>option_metadata := Some [(''run'', MetaText ''June''), (''count'', MetaNumber 3)]\<rparr>)
     1700000100000 (Some (as_candidate (create_payroll_receipt example_library ''rcpt_1'' 0 example_params))))"
proof
  have "canonicalize_metadata (Some example_members) = canonicalize_metadata (Some (rev example_members))"
    "keys_distinct (MetaObject example_members)" "keys_distinct (MetaObject (rev example_members))"
    "plain_meta (MetaObject example_members)" "plain_meta (MetaObject (rev example_members))"
    by code_simp+
  then show "receipt_is_valid (verify_payroll_receipt example_library
      (example_options\<lparr>option_metadata := Some (rev example_members)\<rparr>) 1700000100000
      (Some (as_candidate (create_payroll_receipt example_library ''rcpt_1'' 0 example_params))))"
    using receipt_binds_metadata [OF example_digests, of example_members "rev example_members" example_params example_options
        1700000100000 "''rcpt_1''" 0] example_accepted example_reordered
    by (simp add: example_params_def example_options_def)
qed code_simp

section \<open>Signatures\<close>

lemma checks_ignore_signature:
  "check_payroll_id opts (x\<lparr>signature := u\<rparr>) = check_payroll_id opts x"
  "check_settlement_status opts (x\<lparr>signature := u\<rparr>) = check_settlement_status opts x"
  "check_transaction_reference opts (x\<lparr>signature := u\<rparr>) = check_transaction_reference opts x"
  "check_metadata_digest lib opts (x\<lparr>signature := u\<rparr>) = check_metadata_digest lib opts x"
  "check_freshness lib opts t (x\<lparr>signature := u\<rparr>) = check_freshness lib opts t x"
proof -
  show "check_payroll_id opts (x\<lparr>signature := u\<rparr>) = check_payroll_id opts x" by (simp add: check_payroll_id_def)
  show "check_settlement_status opts (x\<lparr>signature := u\<rparr>) = check_settlement_status opts x"
    by (simp add: check_settlement_status_def cong: option.case_cong)
  show "check_transaction_reference opts (x\<lparr>signature := u\<rparr>) = check_transaction_reference opts x"
    by (simp add: check_transaction_reference_def extract_receipt_tx_hash_def)
  have "metadata_digest (x\<lparr>signature := u\<rparr>) = metadata_digest x" "receipt_metadata (x\<lparr>signature := u\<rparr>) = receipt_metadata x"
    by simp_all
  then show "check_metadata_digest lib opts (x\<lparr>signature := u\<rparr>) = check_metadata_digest lib opts x"
    by (simp only: check_metadata_digest_def metadata_to_verify_def)
  show "check_freshness lib opts t (x\<lparr>signature := u\<rparr>) = check_freshness lib opts t x" by (simp add: check_freshness_def)
qed

text \<open>
  Where a signature is required, which one a receipt carries makes no difference: any two non-empty texts give the same
  verdict, field by field. No check reads the signature against the signer's key.
\<close>

theorem signature_is_never_checked:
  assumes "custom_validators opts = []" "s \<noteq> []" "s' \<noteq> []"
  shows "verify_payroll_receipt lib opts t (Some (as_candidate (r\<lparr>signature := Some s\<rparr>))) =
    verify_payroll_receipt lib opts t (Some (as_candidate (r\<lparr>signature := Some s'\<rparr>)))"
proof -
  have "check_signature opts (x\<lparr>signature := Some s\<rparr>) = check_signature opts (x\<lparr>signature := Some s'\<rparr>)" for x
    using assms by (simp add: check_signature_def split: option.splits list.splits)
  then have "verify_shaped lib opts t (x\<lparr>signature := Some s\<rparr>) = verify_shaped lib opts t (x\<lparr>signature := Some s'\<rparr>)" for x
    using assms(1) by (simp only: verify_shaped_def checks_ignore_signature list.map concat.simps)
  moreover have "validate_payroll_receipt_shape (Some (as_candidate (r\<lparr>signature := u\<rparr>))) =
      map_option (\<lambda>x. x\<lparr>signature := u\<rparr>) (validate_payroll_receipt_shape (Some (as_candidate r)))" for u
    by (auto simp: validate_payroll_receipt_shape_def as_candidate_def split: stamp.splits)
  ultimately show ?thesis
    by (cases "validate_payroll_receipt_shape (Some (as_candidate r))") (simp_all add: verify_payroll_receipt_def)
qed

theorem signature_is_never_checked_witness:
  "verify_payroll_receipt example_library (example_options\<lparr>require_signature := True\<rparr>) 1700000100000
     (Some (as_candidate ((create_payroll_receipt example_library ''rcpt_1'' 0 example_params)\<lparr>signature := Some ''genuine''\<rparr>))) =
   verify_payroll_receipt example_library (example_options\<lparr>require_signature := True\<rparr>) 1700000100000
     (Some (as_candidate ((create_payroll_receipt example_library ''rcpt_1'' 0 example_params)\<lparr>signature := Some ''forged''\<rparr>)))"
  by (rule signature_is_never_checked) (simp_all add: example_options_def)

section \<open>The lookup and the verifier\<close>

lemma resolved_hash_is: "resolved_hash (resolve_receipt_transaction_reference lib (transaction_reference r)) = extract_receipt_tx_hash r"
  by (auto simp: resolve_receipt_transaction_reference_def extract_receipt_tx_hash_def bare_reference_def Let_def
      split: reference.splits option.splits prod.splits)

lemma valid_hash_is:
  "is_valid_hash (resolve_receipt_transaction_reference lib (transaction_reference r)) = hex64 (extract_receipt_tx_hash r)"
  by (auto simp: resolve_receipt_transaction_reference_def extract_receipt_tx_hash_def bare_reference_def Let_def hex64_def
      split: reference.splits option.splits prod.splits)

lemma hash_matches_iff:
  assumes "hex64 (js_trim h)"
  shows "hash_matches lib (js_lower (js_trim h)) r \<longleftrightarrow>
    check_transaction_reference (opts\<lparr>expected_transaction_hash := Some h\<rparr>) r = None"
proof -
  have h: "h \<noteq> []" using assms by (auto simp: js_trim_def hex64_def)
  have n: "js_lower x = js_lower (js_trim h) \<Longrightarrow> hex64 x" for x using assms hex64_lower by metis
  show ?thesis
    using h n [of "extract_receipt_tx_hash r"] hex64_nonempty
    by (auto simp: hash_matches_def resolved_hash_is valid_hash_is check_transaction_reference_def lower_trim Let_def)
qed

text \<open>
  C30: Looking a transaction hash up finds a receipt exactly when it is the only one of the list whose reference the verifier
  accepts for that hash: a bare and a structured reference count alike, and of two receipts for one transaction none is
  picked.
\<close>

theorem lookup_agrees_with_verifier:
  "found_receipt (find_receipt_by_transaction_hash lib rs h) = Some r \<longleftrightarrow>
     hex64 (js_trim h) \<and> filter (\<lambda>x. check_transaction_reference (opts\<lparr>expected_transaction_hash := Some h\<rparr>) x = None) rs = [r]"
proof (cases "hex64 (js_trim h)")
  case True
  have "filter (hash_matches lib (js_lower (js_trim h))) rs =
      filter (\<lambda>x. check_transaction_reference (opts\<lparr>expected_transaction_hash := Some h\<rparr>) x = None) rs" (is "?ms = ?xs")
    using hash_matches_iff [OF True] by (rule filter_cong [OF refl])
  moreover have "found_receipt (find_receipt_by_transaction_hash lib rs h) = Some r \<longleftrightarrow> ?ms = [r]"
    using True hex64_lower by (auto simp: find_receipt_by_transaction_hash_def Let_def split: list.splits)
  ultimately show ?thesis using True by simp
next
  case False
  then show ?thesis by (simp add: find_receipt_by_transaction_hash_def Let_def hex64_lower)
qed

section \<open>Clocks\<close>

text \<open>With a current time that is an invalid date, no receipt is too old or from the future.\<close>

lemma invalid_clock_accepts_any_age:
  "current_timestamp opts = Some (StampDate NotANumber) \<Longrightarrow> parse_timestamp_to_ms lib (Some (issued_at r)) = Some issued \<Longrightarrow>
     check_freshness lib opts t r = []"
  by (simp add: check_freshness_def check_future_def check_age_def now_ms_def parse_timestamp_to_ms_def split: option.splits)

text \<open>The verifier reads a small number as seconds, and the lookup reads it as milliseconds.\<close>

lemma readers_disagree_on_small_numbers:
  "x \<noteq> 0 \<Longrightarrow> x < 10000000000 \<Longrightarrow>
     parse_timestamp_to_ms lib (Some (StampNumber (At x))) \<noteq> to_epoch_ms lib (Some (StampNumber (At x)))"
  by (simp add: parse_timestamp_to_ms_def to_epoch_ms_def scale_seconds_def)

end
