(* ===== verification/LifecycleGates.thy ===== *)
theory LifecycleGates
  imports Eligibility
begin

text \<open>
  Decisions about employees and runs outside the ordinary payroll: what a suspended employee is paid
  (\<open>packages/core/src/employees/suspensionPayoutEvaluator.ts\<close>), who may be put into a draft or removed from one
  (\<open>employees/activeStatus.ts\<close>, \<open>employees/removal.ts\<close>), which runs may be archived (\<open>archive/eligibility.ts\<close>,
  \<open>archive/archivalEligibilityReader.ts\<close>), which periods reopened (\<open>payroll/payrollPeriodReopenEligibility.ts\<close>) and which
  failed payouts tried again (\<open>payroll/retryEligibility.ts\<close>). Each is a chain of guards of which the first that holds
  decides. Messages are left out; reference times and times of the records are numbers.
\<close>

section \<open>Counting results\<close>

text \<open>The counters of a batch: how many results have each key\<close>

definition tally :: "'k \<Rightarrow> ('k \<Rightarrow> nat) \<Rightarrow> 'k \<Rightarrow> nat" where
  "tally k m = m(k := Suc (m k))"

lemma fold_tally: "fold (\<lambda>x. tally (f x)) xs m k = m k + length (filter (\<lambda>x. f x = k) xs)"
  by (induction xs arbitrary: m) (auto simp: tally_def)

section \<open>Suspended employees\<close>

datatype disposition = AccruedPayout | FinalSettlement | NoPayout | ReviewRequired

datatype payout_reason =
  AccruedWagesDue | FinalSettlementDue | NotSuspended | AccountBlocked | ComplianceFailed | NoSalaryConfigured
| AccountLocked | PendingReview

record suspension_options =
  so_allow_blocked_payout :: bool
  so_allow_compliance_failed :: bool

record suspension_evaluation =
  su_employee_id :: string
  su_disposition :: disposition
  su_should_payout :: bool
  su_reason :: payout_reason
  su_evaluated_at :: int

definition verdict_of :: "payout_reason \<Rightarrow> disposition \<times> bool" where
  "verdict_of c =
     (case c of
        AccruedWagesDue \<Rightarrow> (AccruedPayout, True) | FinalSettlementDue \<Rightarrow> (FinalSettlement, True)
      | NotSuspended \<Rightarrow> (NoPayout, False) | AccountBlocked \<Rightarrow> (NoPayout, False) | ComplianceFailed \<Rightarrow> (NoPayout, False)
      | NoSalaryConfigured \<Rightarrow> (ReviewRequired, False) | AccountLocked \<Rightarrow> (ReviewRequired, False)
      | PendingReview \<Rightarrow> (ReviewRequired, False))"

definition expired_by :: "(string \<Rightarrow> int option) \<Rightarrow> int \<Rightarrow> eligibility_record \<Rightarrow> bool" where
  "expired_by date_parse ref_ms e =
     (case parse_date_to_timestamp date_parse (el_expiry_date e) of None \<Rightarrow> False | Some t \<Rightarrow> t \<le> ref_ms)"

definition suspension_reason ::
  "(string \<Rightarrow> int option) \<Rightarrow> suspension_options \<Rightarrow> int \<Rightarrow> eligibility_record \<Rightarrow> payout_reason" where
  "suspension_reason date_parse opts ref_ms e =
     (if el_status e \<noteq> Some ''suspended'' then NotSuspended
      else if el_is_blocked e = Some True \<and> \<not> so_allow_blocked_payout opts then AccountBlocked
      else if el_is_locked e = Some True then AccountLocked
      else if el_compliance_status e = Some ''failed'' \<and> \<not> so_allow_compliance_failed opts then ComplianceFailed
      else if raw_amount e = None then NoSalaryConfigured
      else if el_compliance_status e = Some ''pending'' then PendingReview
      else if expired_by date_parse ref_ms e then FinalSettlementDue
      else AccruedWagesDue)"

definition evaluate_suspension_payout ::
  "(string \<Rightarrow> int option) \<Rightarrow> suspension_options \<Rightarrow> int \<Rightarrow> eligibility_record \<Rightarrow> suspension_evaluation" where
  "evaluate_suspension_payout date_parse opts ref_ms e =
     (let c = suspension_reason date_parse opts ref_ms e in
      \<lparr>su_employee_id = el_employee_id e, su_disposition = fst (verdict_of c), su_should_payout = snd (verdict_of c),
       su_reason = c, su_evaluated_at = ref_ms\<rparr>)"

record suspension_batch =
  sb_total :: nat
  sb_payout :: nat
  sb_no_payout :: nat
  sb_review :: nat
  sb_results :: "suspension_evaluation list"
  sb_summary :: "disposition \<Rightarrow> nat"

definition note_evaluation :: "suspension_evaluation \<Rightarrow> suspension_batch \<Rightarrow> suspension_batch" where
  "note_evaluation r b =
     (let b' = b\<lparr>sb_results := sb_results b @ [r], sb_summary := tally (su_disposition r) (sb_summary b)\<rparr> in
      if su_should_payout r then b'\<lparr>sb_payout := sb_payout b + 1\<rparr>
      else if su_disposition r = ReviewRequired then b'\<lparr>sb_review := sb_review b + 1\<rparr>
      else b'\<lparr>sb_no_payout := sb_no_payout b + 1\<rparr>)"

definition evaluate_suspension_payout_batch ::
  "(string \<Rightarrow> int option) \<Rightarrow> suspension_options \<Rightarrow> int \<Rightarrow> eligibility_record list \<Rightarrow> suspension_batch" where
  "evaluate_suspension_payout_batch date_parse opts ref_ms es =
     fold (\<lambda>e. note_evaluation (evaluate_suspension_payout date_parse opts ref_ms e)) es
       \<lparr>sb_total = length es, sb_payout = 0, sb_no_payout = 0, sb_review = 0, sb_results = [], sb_summary = (\<lambda>_. 0)\<rparr>"

section \<open>Employees in drafts\<close>

datatype active_status = ActiveEmployee | InactiveEmployee | SuspendedEmployee | UnknownEmployee

record active_result =
  ar_status :: active_status
  ar_can_use_in_drafts :: bool

definition is_employee_active :: "eligibility_record \<Rightarrow> active_result" where
  "is_employee_active e =
     (case el_status e of
        None \<Rightarrow> \<lparr>ar_status = UnknownEmployee, ar_can_use_in_drafts = False\<rparr>
      | Some s \<Rightarrow>
          if s = ''active'' then \<lparr>ar_status = ActiveEmployee, ar_can_use_in_drafts = True\<rparr>
          else if s = ''suspended'' then \<lparr>ar_status = SuspendedEmployee, ar_can_use_in_drafts = False\<rparr>
          else if s = ''inactive'' then \<lparr>ar_status = InactiveEmployee, ar_can_use_in_drafts = False\<rparr>
          else if s = ''pending'' \<or> s = ''terminated'' then \<lparr>ar_status = InactiveEmployee, ar_can_use_in_drafts = False\<rparr>
          else \<lparr>ar_status = UnknownEmployee, ar_can_use_in_drafts = False\<rparr>)"

definition active_key :: "eligibility_record \<Rightarrow> string" where
  "active_key e =
     (if el_employee_id e \<noteq> [] then el_employee_id e else if el_recipient e \<noteq> [] then el_recipient e else ''unknown'')"

definition check_employees_active :: "eligibility_record list \<Rightarrow> (string, active_result) dict" where
  "check_employees_active es = fold (\<lambda>e. dict_put (active_key e) (is_employee_active e)) es []"

datatype payroll_status = DraftPayroll | LockedPayroll | SettledPayroll | CancelledPayroll

datatype removal_code = PayrollIsLocked | PayrollIsSettled | PayrollIsCancelled

definition editable_payroll_statuses :: "payroll_status list" where
  "editable_payroll_statuses = [DraftPayroll]"

definition status_reason_code :: "payroll_status \<Rightarrow> removal_code option" where
  "status_reason_code s =
     (case s of
        LockedPayroll \<Rightarrow> Some PayrollIsLocked | SettledPayroll \<Rightarrow> Some PayrollIsSettled
      | CancelledPayroll \<Rightarrow> Some PayrollIsCancelled | DraftPayroll \<Rightarrow> None)"

text \<open>\<open>None\<close> where the removal is allowed\<close>

definition check_employee_removal :: "payroll_status \<Rightarrow> removal_code option" where
  "check_employee_removal s =
     (if s \<in> set editable_payroll_statuses then None
      else Some (case status_reason_code s of Some c \<Rightarrow> c | None \<Rightarrow> PayrollIsLocked))"

section \<open>Archiving runs\<close>

record payroll_run_item =
  pi_id :: "string option"
  pi_run_id :: "string option"
  pi_status :: string
  pi_disputed :: "bool option"
  pi_held :: "bool option"
  pi_finalized_at :: "int option"

datatype archive_blocker = DisputedRun | HeldRun | IncompleteStatus | AlreadyArchived | MissingRunId

definition item_id :: "payroll_run_item \<Rightarrow> string" where
  "item_id r =
     js_trim (if truthy (pi_run_id r) then the (pi_run_id r) else if truthy (pi_id r) then the (pi_id r) else [])"

definition redact_run_id :: "string \<Rightarrow> string" where
  "redact_run_id i =
     (if js_trim i = [] then ''[ANONYMOUS_RUN]''
      else if length (js_trim i) \<le> 6 then ''[REDACTED_RUN]''
      else take 3 (js_trim i) @ ''***'' @ drop (length (js_trim i) - 3) (js_trim i))"

text \<open>\<open>None\<close> for the state "ready"\<close>

definition evaluate_archive_eligibility :: "payroll_run_item \<Rightarrow> archive_blocker option" where
  "evaluate_archive_eligibility r =
     (let status = js_trim (js_lower (pi_status r)) in
      if item_id r = [] then Some MissingRunId
      else if status = ''archived'' then Some AlreadyArchived
      else if pi_disputed r = Some True \<or> status = ''disputed'' then Some DisputedRun
      else if pi_held r = Some True \<or> status = ''held'' then Some HeldRun
      else if status \<noteq> ''finalized'' \<and> status \<noteq> ''completed'' then Some IncompleteStatus
      else None)"

definition is_run_eligible_for_archive :: "payroll_run_item \<Rightarrow> bool" where
  "is_run_eligible_for_archive r \<longleftrightarrow> evaluate_archive_eligibility r = None"

record archival_read =
  al_blocker :: "archive_blocker option"
  al_meets_age :: bool
  al_age :: "int option"
  al_archivable :: bool

definition read_archival_eligibility :: "int \<Rightarrow> int \<Rightarrow> payroll_run_item \<Rightarrow> archival_read" where
  "read_archival_eligibility minimum_age ref_ms r =
     (let blocker = evaluate_archive_eligibility r;
          age = map_option (\<lambda>t. ref_ms - t) (pi_finalized_at r);
          meets = (case age of
              Some a \<Rightarrow> \<not> (0 < minimum_age \<and> a < minimum_age)
            | None \<Rightarrow> \<not> (0 < minimum_age \<and> blocker = None))
      in \<lparr>al_blocker = blocker, al_meets_age = meets, al_age = age, al_archivable = (blocker = None \<and> meets)\<rparr>)"

record archival_batch =
  ab_total :: nat
  ab_archivable :: nat
  ab_blocked :: nat
  ab_results :: "archival_read list"
  ab_summary :: "archive_blocker \<Rightarrow> nat"
  ab_age_blocked :: nat

definition note_archival :: "archival_read \<Rightarrow> archival_batch \<Rightarrow> archival_batch" where
  "note_archival r b =
     (let b' = b\<lparr>ab_results := ab_results b @ [r]\<rparr> in
      if al_archivable r then b'\<lparr>ab_archivable := ab_archivable b + 1\<rparr>
      else b'\<lparr>ab_blocked := ab_blocked b + 1,
          ab_summary := (case al_blocker r of None \<Rightarrow> ab_summary b | Some c \<Rightarrow> tally c (ab_summary b)),
          ab_age_blocked := ab_age_blocked b + (if al_meets_age r then 0 else 1)\<rparr>)"

definition read_batch_archival_eligibility :: "int \<Rightarrow> int \<Rightarrow> payroll_run_item list \<Rightarrow> archival_batch" where
  "read_batch_archival_eligibility minimum_age ref_ms rs =
     fold (\<lambda>r. note_archival (read_archival_eligibility minimum_age ref_ms r)) rs
       \<lparr>ab_total = length rs, ab_archivable = 0, ab_blocked = 0, ab_results = [], ab_summary = (\<lambda>_. 0), ab_age_blocked = 0\<rparr>"

section \<open>Reopening periods\<close>

datatype reopen_code =
  ReopenEligible | PeriodNotFound | PeriodNotClosed | PeriodTooOld | PendingCorrections | SettlementInProgress
| ArchiveLocked | InvalidPeriodId

record payroll_period =
  per_id :: string
  per_status :: string
  per_closed_at :: "int option"
  per_pending_corrections :: bool
  per_settlement_in_progress :: bool
  per_archive_locked :: bool

record reopen_options =
  ro_max_age :: "int option"
  ro_allow_pending :: bool

definition default_max_period_age_ms :: int where
  "default_max_period_age_ms = 90 * 24 * 60 * 60 * 1000"

definition too_old :: "reopen_options \<Rightarrow> int \<Rightarrow> payroll_period \<Rightarrow> bool" where
  "too_old opts now p =
     (case per_closed_at p of
        None \<Rightarrow> False
      | Some t \<Rightarrow> t \<noteq> 0 \<and> now - t > (case ro_max_age opts of None \<Rightarrow> default_max_period_age_ms | Some a \<Rightarrow> a))"

definition is_payroll_period_reopen_eligible :: "reopen_options \<Rightarrow> int \<Rightarrow> payroll_period \<Rightarrow> reopen_code" where
  "is_payroll_period_reopen_eligible opts now p =
     (if js_trim (per_id p) = [] then InvalidPeriodId
      else if per_status p = [] then PeriodNotFound
      else if per_status p \<noteq> ''closed'' \<and> per_status p \<noteq> ''archived'' then PeriodNotClosed
      else if too_old opts now p then PeriodTooOld
      else if per_pending_corrections p \<and> \<not> ro_allow_pending opts then PendingCorrections
      else if per_settlement_in_progress p then SettlementInProgress
      else if per_status p = ''archived'' \<and> per_archive_locked p then ArchiveLocked
      else ReopenEligible)"

definition evaluate_batch_reopen_eligibility :: "reopen_options \<Rightarrow> (payroll_period \<times> int) list \<Rightarrow> reopen_code list" where
  "evaluate_batch_reopen_eligibility opts ps = map (\<lambda>(p, now). is_payroll_period_reopen_eligible opts now p) ps"

definition filter_eligible_reopen_periods ::
  "reopen_options \<Rightarrow> (payroll_period \<times> int) list \<Rightarrow> (payroll_period \<times> reopen_code) list" where
  "filter_eligible_reopen_periods opts ps =
     filter (\<lambda>(p, c). c = ReopenEligible) (zip (map fst ps) (evaluate_batch_reopen_eligibility opts ps))"

definition summarize_reopen_eligibility :: "reopen_code list \<Rightarrow> nat \<times> nat \<times> nat \<times> (reopen_code \<Rightarrow> nat)" where
  "summarize_reopen_eligibility cs =
     (let eligible = length (filter (\<lambda>c. c = ReopenEligible) cs)
      in (length cs, eligible, length cs - eligible, fold (\<lambda>c. tally c) cs (\<lambda>_. 0)))"

section \<open>Trying payouts again\<close>

datatype retry_code =
  RetryEligible | InvalidStatus | PayoutPending | PayoutAlreadyConfirmed | PayoutExpired | PayoutStatusUnknown
| InvalidFailureCategory | FailureNotRetryable | InvalidAttemptCount | InvalidMaxAttempts | RetryLimitReached
| MissingIdempotencyKey

text \<open>A field of unknown type is \<open>None\<close> where it is no text, or no number.\<close>

record retry_input =
  ri_status :: "string option"
  ri_failure_category :: "string option"
  ri_attempt_count :: "jsnum option"
  ri_max_attempts :: "jsnum option"
  ri_idempotency_key :: "string option"

definition valid_statuses :: "string list" where
  "valid_statuses = [''pending'', ''confirmed'', ''failed'', ''expired'', ''unknown'', ''retryable'']"

definition safe_count :: "jsnum option \<Rightarrow> int option" where
  "safe_count x = (case x of Some (Whole n) \<Rightarrow> if \<bar>n\<bar> \<le> max_safe_integer then Some n else None | _ \<Rightarrow> None)"

definition missing_text :: "string option \<Rightarrow> bool" where
  "missing_text s = (case s of None \<Rightarrow> True | Some t \<Rightarrow> js_trim t = [])"

text \<open>The checks of the status and of the failure, then those of the attempts and the key\<close>

definition failure_gate :: "string option \<Rightarrow> string option \<Rightarrow> retry_code option" where
  "failure_gate status category =
     (let s = js_lower (js_trim (the status)) in
      if missing_text status then Some InvalidStatus
      else if s \<notin> set valid_statuses then Some InvalidStatus
      else if s = ''pending'' then Some PayoutPending
      else if s = ''confirmed'' then Some PayoutAlreadyConfirmed
      else if s = ''expired'' then Some PayoutExpired
      else if s = ''unknown'' then Some PayoutStatusUnknown
      else if category \<notin> {Some ''retryable'', Some ''terminal'', Some ''expired'', Some ''unknown''}
        then Some InvalidFailureCategory
      else if category \<noteq> Some ''retryable'' then Some FailureNotRetryable
      else None)"

definition attempt_gate :: "jsnum option \<Rightarrow> jsnum option \<Rightarrow> string option \<Rightarrow> retry_code" where
  "attempt_gate attempt_count max_attempts key =
     (case safe_count attempt_count of
        None \<Rightarrow> InvalidAttemptCount
      | Some attempts \<Rightarrow>
          if attempts < 0 then InvalidAttemptCount
          else case safe_count max_attempts of
            None \<Rightarrow> InvalidMaxAttempts
          | Some limit \<Rightarrow>
              if limit < 1 then InvalidMaxAttempts
              else if limit \<le> attempts then RetryLimitReached
              else if missing_text key then MissingIdempotencyKey
              else RetryEligible)"

definition evaluate_failed_payout_retry_eligibility :: "retry_input \<Rightarrow> retry_code" where
  "evaluate_failed_payout_retry_eligibility q =
     (case failure_gate (ri_status q) (ri_failure_category q) of
        Some c \<Rightarrow> c
      | None \<Rightarrow> attempt_gate (ri_attempt_count q) (ri_max_attempts q) (ri_idempotency_key q))"

section \<open>Suspended employees are paid outside the payroll\<close>

lemma should_payout_iff:
  "su_should_payout (evaluate_suspension_payout date_parse opts t e) \<longleftrightarrow>
     el_status e = Some ''suspended'' \<and> (el_is_blocked e = Some True \<longrightarrow> so_allow_blocked_payout opts) \<and>
     el_is_locked e \<noteq> Some True \<and> (el_compliance_status e = Some ''failed'' \<longrightarrow> so_allow_compliance_failed opts) \<and>
     raw_amount e \<noteq> None \<and> el_compliance_status e \<noteq> Some ''pending''"
  by (auto simp: evaluate_suspension_payout_def suspension_reason_def verdict_of_def Let_def)

lemma suspended_unfit: "el_status e = Some ''suspended'' \<Longrightarrow> \<not> fit_for_payroll v now opts e"
proof -
  assume "el_status e = Some ''suspended''"
  moreover have "normalized_status ''suspended'' = ''suspended''" by code_simp
  ultimately show ?thesis by (simp add: fit_for_payroll_def status_acceptable_def raw_status_def)
qed

lemma in_filter_eligible: "e \<in> set (filter_eligible v now opts records) \<Longrightarrow> fit_for_payroll v now opts e"
  by (auto simp: filter_eligible_indices eligible_indices_def evaluate_at_eligible)

text \<open>
  C21: No employee the payroll keeps as eligible is one the suspension evaluator pays: whatever the options of either side
  and their times, the two never pay the same record.
\<close>

theorem payroll_and_suspension_disjoint:
  "set (filter_eligible v now opts records) \<inter>
     {e. su_should_payout (evaluate_suspension_payout date_parse suspension t e)} = {}"
proof -
  have "\<not> su_should_payout (evaluate_suspension_payout date_parse suspension t e)" if "fit_for_payroll v now opts e" for e
    using that suspended_unfit by (auto simp: should_payout_iff)
  then show ?thesis using in_filter_eligible by blast
qed

text \<open>
  The evaluator knows only the compliance texts "failed" and "pending": a suspended employee who is sanctioned, and whom
  the payroll refuses for it, is paid.
\<close>

lemma sanctioned_suspended_is_paid:
  assumes "el_status e = Some ''suspended''" "el_compliance_status e = Some ''sanctioned''" "raw_amount e \<noteq> None"
    "el_is_blocked e \<noteq> Some True" "el_is_locked e \<noteq> Some True"
  shows "su_should_payout (evaluate_suspension_payout date_parse opts t e) \<and> \<not> compliance_acceptable eo e"
proof -
  have "normalized_status ''sanctioned'' = ''sanctioned''" by code_simp
  then show ?thesis using assms by (auto simp: should_payout_iff compliance_acceptable_def)
qed

lemma fold_evaluations:
  "fold (\<lambda>e. note_evaluation (f e)) es b =
     \<lparr>sb_total = sb_total b,
      sb_payout = sb_payout b + length (filter (\<lambda>e. su_should_payout (f e)) es),
      sb_no_payout = sb_no_payout b +
        length (filter (\<lambda>e. \<not> su_should_payout (f e) \<and> su_disposition (f e) \<noteq> ReviewRequired) es),
      sb_review = sb_review b + length (filter (\<lambda>e. \<not> su_should_payout (f e) \<and> su_disposition (f e) = ReviewRequired) es),
      sb_results = sb_results b @ map f es,
      sb_summary = fold (\<lambda>e. tally (su_disposition (f e))) es (sb_summary b)\<rparr>"
proof (induction es arbitrary: b)
  case Nil
  then show ?case by simp
next
  case (Cons e es)
  show ?case unfolding fold_simps o_apply Cons.IH by (simp add: note_evaluation_def Let_def)
qed

lemma review_not_paid: "su_disposition (evaluate_suspension_payout dp opts t e) = ReviewRequired \<Longrightarrow>
    \<not> su_should_payout (evaluate_suspension_payout dp opts t e)"
  by (auto simp: evaluate_suspension_payout_def verdict_of_def Let_def split: payout_reason.splits)

text \<open>
  The report of a batch has one evaluation per employee, in their order; those paid, those refused and those to be
  reviewed add up to the employees given, each counter and each entry of the summary counting the evaluations it names.
\<close>

theorem suspension_batch_adds_up:
  fixes date_parse opts t es
  defines "b \<equiv> evaluate_suspension_payout_batch date_parse opts t es"
    and "ev \<equiv> evaluate_suspension_payout date_parse opts t"
  shows "sb_results b = map ev es \<and> sb_total b = length es \<and> sb_payout b + sb_no_payout b + sb_review b = sb_total b \<and>
    sb_payout b = length (filter (\<lambda>e. su_should_payout (ev e)) es) \<and>
    sb_review b = sb_summary b ReviewRequired \<and> sb_no_payout b = sb_summary b NoPayout \<and>
    sb_payout b = sb_summary b AccruedPayout + sb_summary b FinalSettlement"
proof -
  have sum: "sb_summary b k = length (filter (\<lambda>e. su_disposition (ev e) = k) es)" for k
    by (simp add: b_def ev_def evaluate_suspension_payout_batch_def fold_evaluations fold_tally)
  have paid: "su_should_payout (ev e) \<longleftrightarrow> su_disposition (ev e) = AccruedPayout \<or> su_disposition (ev e) = FinalSettlement" for e
    by (auto simp: ev_def evaluate_suspension_payout_def verdict_of_def Let_def split: payout_reason.splits)
  have review: "(\<not> su_should_payout (ev e) \<and> su_disposition (ev e) = ReviewRequired) = (su_disposition (ev e) = ReviewRequired)" for e
    by (cases "su_disposition (ev e)") (simp_all add: paid)
  have refused: "(\<not> su_should_payout (ev e) \<and> su_disposition (ev e) \<noteq> ReviewRequired) = (su_disposition (ev e) = NoPayout)" for e
    by (cases "su_disposition (ev e)") (simp_all add: paid)
  have counts: "sb_results b = map ev es" "sb_total b = length es"
    "sb_payout b = length (filter (\<lambda>e. su_should_payout (ev e)) es)"
    "sb_review b = length (filter (\<lambda>e. su_disposition (ev e) = ReviewRequired) es)"
    "sb_no_payout b = length (filter (\<lambda>e. su_disposition (ev e) = NoPayout) es)"
    by (simp_all add: b_def ev_def [symmetric] evaluate_suspension_payout_batch_def fold_evaluations review refused)
  have split: "length (filter (\<lambda>e. su_should_payout (ev e)) es) =
      length (filter (\<lambda>e. su_disposition (ev e) = AccruedPayout) es) + length (filter (\<lambda>e. su_disposition (ev e) = FinalSettlement) es)"
    unfolding paid by (induction es) auto
  have "length (filter (\<lambda>e. su_should_payout (ev e)) es) + length (filter (\<lambda>e. su_disposition (ev e) = NoPayout) es) +
      length (filter (\<lambda>e. su_disposition (ev e) = ReviewRequired) es) = length es"
    unfolding paid
  proof (induction es)
    case (Cons e es)
    then show ?case by (cases "su_disposition (ev e)") simp_all
  qed simp
  with counts sum split show ?thesis by simp
qed

section \<open>Retries\<close>

text \<open>
  A payout that may be tried again stays so for exactly as many attempts as its limit leaves: after \<open>k\<close> more attempts
  the answer is still yes while \<open>k\<close> is below the attempts left, and from then on that the limit is reached.
\<close>

theorem retries_are_limited:
  assumes "evaluate_failed_payout_retry_eligibility q = RetryEligible"
    and "ri_attempt_count q = Some (Whole n)" "ri_max_attempts q = Some (Whole limit)"
    and "n + int k \<le> max_safe_integer"
  shows "evaluate_failed_payout_retry_eligibility (q\<lparr>ri_attempt_count := Some (Whole (n + int k))\<rparr>) =
    (if int k < limit - n then RetryEligible else RetryLimitReached)"
proof -
  have "failure_gate status category \<noteq> Some RetryEligible" for status category
    by (simp add: failure_gate_def Let_def)
  then have gate: "failure_gate (ri_status q) (ri_failure_category q) = None" "attempt_gate (Some (Whole n)) (Some (Whole limit))
      (ri_idempotency_key q) = RetryEligible"
    using assms(1) by (auto simp: evaluate_failed_payout_retry_eligibility_def assms(2,3) split: option.splits)
  then have n: "0 \<le> n" "n < limit" "\<not> missing_text (ri_idempotency_key q)" "safe_count (Some (Whole limit)) = Some limit"
    by (auto simp: attempt_gate_def safe_count_def split: if_splits)
  moreover have "safe_count (Some (Whole (n + int k))) = Some (n + int k)" using n assms(4) by (simp add: safe_count_def)
  ultimately have "attempt_gate (Some (Whole (n + int k))) (Some (Whole limit)) (ri_idempotency_key q) =
      (if int k < limit - n then RetryEligible else RetryLimitReached)"
    by (auto simp: attempt_gate_def)
  then show ?thesis by (simp add: evaluate_failed_payout_retry_eligibility_def gate(1) assms(3))
qed

section \<open>Archived and reopened\<close>

lemma archivable_iff:
  "al_archivable (read_archival_eligibility minimum_age ref_ms r) \<longleftrightarrow>
     item_id r \<noteq> [] \<and> pi_disputed r \<noteq> Some True \<and> pi_held r \<noteq> Some True \<and>
     js_trim (js_lower (pi_status r)) \<in> {''finalized'', ''completed''} \<and>
     (0 < minimum_age \<longrightarrow> (\<exists>t. pi_finalized_at r = Some t \<and> minimum_age \<le> ref_ms - t))"
  by (auto simp: read_archival_eligibility_def evaluate_archive_eligibility_def Let_def split: option.splits)

text \<open>A period whose closing time is unknown, or is 0, is never too old to be reopened.\<close>

lemma unknown_closing_time_reopens:
  "per_closed_at p \<in> {None, Some 0} \<Longrightarrow> is_payroll_period_reopen_eligible opts now p \<noteq> PeriodTooOld"
  by (auto simp: is_payroll_period_reopen_eligible_def too_old_def)

section \<open>Witnesses\<close>

definition example_retry :: retry_input where
  "example_retry = \<lparr>ri_status = Some ''failed'', ri_failure_category = Some ''retryable'', ri_attempt_count = Some (Whole 1),
     ri_max_attempts = Some (Whole 3), ri_idempotency_key = Some ''k''\<rparr>"

theorem retries_are_limited_witness:
  "evaluate_failed_payout_retry_eligibility (example_retry\<lparr>ri_attempt_count := Some (Whole (1 + int 2))\<rparr>) = RetryLimitReached"
proof -
  have "evaluate_failed_payout_retry_eligibility example_retry = RetryEligible" by code_simp
  then show ?thesis
    using retries_are_limited [of example_retry 1 3 2] by (simp add: example_retry_def max_safe_integer_def)
qed

end
