(* ===== verification/AmountLimits.thy ===== *)
theory AmountLimits
  imports AmountParsing
begin

text \<open>
  The validators of amounts before a payroll: minimum amounts (\<open>packages/core/src/payroll/minimumAmount.ts\<close>), withholding
  rules (\<open>payroll/withholdingConfig.ts\<close>), thresholds per asset (\<open>payroll/payoutThresholdValidator.ts\<close>) and the number of
  payouts (\<open>payroll/payoutCountValidator.ts\<close>). Messages are left out. A number that is a whole one below \<open>10^21\<close> is given by
  its value and any other by its sign and the text \<open>toString\<close> gives; the number of decimals of a withholding rule is a
  natural number.
\<close>

section \<open>Amounts as they are given\<close>

datatype amount_input =
  AmountBigint int | AmountNumber int | AmountFraction bool string | AmountNotFinite | AmountText string | AmountOther

text \<open>The pattern \<open>^\d+(\.\d+)?$\<close>, and the parts on either side of the point\<close>

definition plain_decimal :: "string \<Rightarrow> bool" where
  "plain_decimal s =
     (takeWhile is_digit s \<noteq> [] \<and>
      (case dropWhile is_digit s of [] \<Rightarrow> True | c # f \<Rightarrow> c = CHR ''.'' \<and> f \<noteq> [] \<and> list_all is_digit f))"

definition split_at_point :: "string \<Rightarrow> string \<times> string" where
  "split_at_point s = (takeWhile (\<lambda>c. c \<noteq> CHR ''.'') s, drop 1 (dropWhile (\<lambda>c. c \<noteq> CHR ''.'') s))"

section \<open>Minimum amounts\<close>

datatype amount_status = BelowMinimum | ZeroAmount | NegativeAmount | InvalidAmount

text \<open>The base units, where there are any, and the status of an error\<close>

definition text_to_base_units :: "nat \<Rightarrow> string \<Rightarrow> int option \<times> amount_status option" where
  "text_to_base_units d s =
     (let t = js_trim s; (w, f) = split_at_point t in
      if t = [] then (None, Some InvalidAmount)
      else if hd t = CHR ''-'' then (None, Some NegativeAmount)
      else if \<not> plain_decimal t then (None, Some InvalidAmount)
      else if w = ''0'' \<and> (f = [] \<or> list_all (\<lambda>c. c = CHR ''0'') f) then (Some 0, Some ZeroAmount)
      else (Some (int (dec_value w) * 10 ^ d + int (dec_value (pad_end d CHR ''0'' (take d f)))), None))"

definition parse_to_base_units :: "nat \<Rightarrow> amount_input \<Rightarrow> int option \<times> amount_status option" where
  "parse_to_base_units d raw =
     (case raw of
        AmountBigint n \<Rightarrow>
          if n < 0 then (Some n, Some NegativeAmount) else if n = 0 then (Some n, Some ZeroAmount) else (Some n, None)
      | AmountNumber n \<Rightarrow>
          if n < 0 then (None, Some NegativeAmount) else if n = 0 then (Some 0, Some ZeroAmount)
          else text_to_base_units d (int_string n)
      | AmountFraction negative t \<Rightarrow> if negative then (None, Some NegativeAmount) else text_to_base_units d t
      | AmountNotFinite \<Rightarrow> (None, Some InvalidAmount)
      | AmountText s \<Rightarrow> text_to_base_units d s
      | AmountOther \<Rightarrow> (None, Some InvalidAmount))"

datatype entry_asset = AssetObject asset_metadata | AssetName string

record entry_amount =
  en_employee_id :: "string option"
  en_amount :: amount_input
  en_asset :: "entry_asset option"
  en_decimals :: "jsnum option"
  en_custom_min :: "int option"

record minimum_options =
  mo_custom_min :: "int option"
  mo_metadata :: "asset_metadata option"
  mo_decimals :: "jsnum option"
  mo_allow_zero :: bool

definition resolve_asset_info ::
  "asset_registry \<Rightarrow> entry_asset option \<Rightarrow> jsnum option \<Rightarrow> asset_metadata option \<Rightarrow> jsnum option \<Rightarrow>
     (decimals_error, string \<times> jsnum) result" where
  "resolve_asset_info reg asset entry_decimals fallback_metadata fallback_decimals =
     (let named = (\<lambda>m. if symbol m = [] then ''ASSET'' else symbol m) in
      case asset of
        Some (AssetObject m) \<Rightarrow> bind_result (resolve_asset_decimals (AnAsset m)) (\<lambda>d. Inr (named m, d))
      | Some (AssetName s) \<Rightarrow>
          (case registry_get reg s of
             Some m \<Rightarrow> Inr (symbol m, decimals m)
           | None \<Rightarrow>
               (case entry_decimals of
                  None \<Rightarrow> Inr (js_upper s, default_asset_decimals)
                | Some d \<Rightarrow> bind_result (resolve_asset_decimals (JustDecimals d)) (\<lambda>d'. Inr (js_upper s, d'))))
      | None \<Rightarrow>
          (case fallback_metadata of
             Some m \<Rightarrow> bind_result (resolve_asset_decimals (AnAsset m)) (\<lambda>d. Inr (named m, d))
           | None \<Rightarrow>
               (case fallback_decimals of
                  None \<Rightarrow> Inr (''ASSET'', default_asset_decimals)
                | Some d \<Rightarrow> bind_result (resolve_asset_decimals (JustDecimals d)) (\<lambda>d'. Inr (''ASSET'', d')))))"

record minimum_issue =
  mi_status :: amount_status
  mi_amount :: "int option"
  mi_min_required :: int
  mi_symbol :: string

definition whole_decimals :: "jsnum \<Rightarrow> nat" where
  "whole_decimals d = (case d of Whole n \<Rightarrow> nat n | NonInteger \<Rightarrow> 0)"

definition minimum_required :: "minimum_options \<Rightarrow> entry_amount \<Rightarrow> int" where
  "minimum_required opts e =
     (case en_custom_min e of Some m \<Rightarrow> m | None \<Rightarrow> case mo_custom_min opts of Some m \<Rightarrow> m | None \<Rightarrow> 1)"

text \<open>The verdict on the parsed amount: an issue with the amount it reports, or none\<close>

definition judge_amount :: "bool \<Rightarrow> int \<Rightarrow> int option \<times> amount_status option \<Rightarrow> (amount_status \<times> int option) option" where
  "judge_amount allow_zero required parsed =
     (case parsed of
        (None, _) \<Rightarrow> Some (InvalidAmount, None)
      | (Some b, err) \<Rightarrow>
          if err = Some InvalidAmount then Some (InvalidAmount, None)
          else if err = Some NegativeAmount \<or> b < 0 then Some (NegativeAmount, Some b)
          else if b = 0 then (if allow_zero then None else Some (ZeroAmount, Some 0))
          else if b < required then Some (BelowMinimum, Some b)
          else None)"

definition validate_payroll_entry_minimum_amount ::
  "asset_registry \<Rightarrow> minimum_options \<Rightarrow> entry_amount \<Rightarrow> (decimals_error, minimum_issue option) result" where
  "validate_payroll_entry_minimum_amount reg opts e =
     bind_result (resolve_asset_info reg (en_asset e) (en_decimals e) (mo_metadata opts) (mo_decimals opts)) (\<lambda>(sym, d).
     bind_result (get_minimum_fractional_string d) (\<lambda>_.
     Inr (map_option (\<lambda>(status, amt). \<lparr>mi_status = status, mi_amount = amt, mi_min_required = minimum_required opts e, mi_symbol = sym\<rparr>)
       (judge_amount (mo_allow_zero opts) (minimum_required opts e) (parse_to_base_units (whole_decimals d) (en_amount e))))))"

datatype minimum_error = DecimalsProblem decimals_error | MinimumAmountError minimum_issue

definition assert_payroll_entry_minimum_amount ::
  "asset_registry \<Rightarrow> minimum_options \<Rightarrow> entry_amount \<Rightarrow> (minimum_error, unit) result" where
  "assert_payroll_entry_minimum_amount reg opts e =
     (case validate_payroll_entry_minimum_amount reg opts e of
        Inl x \<Rightarrow> Inl (DecimalsProblem x) | Inr (Some i) \<Rightarrow> Inl (MinimumAmountError i) | Inr None \<Rightarrow> Inr ())"

record minimum_batch =
  mb_is_valid :: bool
  mb_issues :: "minimum_issue list"
  mb_total :: nat
  mb_valid :: nat
  mb_invalid :: nat
  mb_count :: "amount_status \<Rightarrow> nat"

fun collect_issues ::
  "asset_registry \<Rightarrow> minimum_options \<Rightarrow> entry_amount list \<Rightarrow> (decimals_error, minimum_issue list) result" where
  "collect_issues reg opts [] = Inr []"
| "collect_issues reg opts (e # es) =
     bind_result (validate_payroll_entry_minimum_amount reg opts e) (\<lambda>i.
     bind_result (collect_issues reg opts es) (\<lambda>is. Inr (case i of None \<Rightarrow> is | Some x \<Rightarrow> x # is)))"

definition validate_batch_payroll_minimum_amounts ::
  "asset_registry \<Rightarrow> minimum_options \<Rightarrow> entry_amount list \<Rightarrow> (decimals_error, minimum_batch) result" where
  "validate_batch_payroll_minimum_amounts reg opts es =
     bind_result (collect_issues reg opts es) (\<lambda>is.
       Inr \<lparr>mb_is_valid = (length is = 0), mb_issues = is, mb_total = length es, mb_valid = length es - length is,
            mb_invalid = length is, mb_count = (\<lambda>s. length (filter (\<lambda>i. mi_status i = s) is))\<rparr>)"

definition no_minimum_options :: minimum_options where
  "no_minimum_options = \<lparr>mo_custom_min = None, mo_metadata = None, mo_decimals = None, mo_allow_zero = False\<rparr>"

definition is_payroll_amount_below_minimum ::
  "asset_registry \<Rightarrow> amount_input \<Rightarrow> asset_or_decimals \<Rightarrow> int \<Rightarrow> (decimals_error, bool) result" where
  "is_payroll_amount_below_minimum reg amt asset_or_dec custom_min =
     bind_result (validate_payroll_entry_minimum_amount reg no_minimum_options
        \<lparr>en_employee_id = None, en_amount = amt,
         en_asset = (case asset_or_dec of AnAsset m \<Rightarrow> Some (AssetObject m) | _ \<Rightarrow> None),
         en_decimals = (case asset_or_dec of JustDecimals d \<Rightarrow> Some d | _ \<Rightarrow> None), en_custom_min = Some custom_min\<rparr>)
       (\<lambda>i. Inr (i \<noteq> None))"

section \<open>Withholding rules\<close>

datatype withholding_code =
  ConfigRequired | MethodRequired | MethodUnsupported | RateRequired | RateInvalid | RateOutOfRange | AmountRequired
| AmountInvalid | AmountNegative | AmountZero | AmountUnexpected | CapInvalid | CapExceeded | RoundingUnsupported
| JurisdictionInvalid | EmployeeRequired | EmployeeMismatch

datatype withholding_method = Percentage | Fixed

datatype withholding_rounding = RoundFloor | RoundCeil | RoundNearest

text \<open>Fields of unknown type. A rate is the number of ten-thousandths of a percent it is within the code's tolerance of,
  where there is one.\<close>

datatype text_field = NoText | IsText string | NotText

datatype rate_field = NoRate | NullRate | RateNotNumber | RateTooPrecise | Rate int

datatype amount_field = NoAmount | NullAmount | Amount amount_input

record withholding_config =
  wc_employee_id :: text_field
  wc_method :: text_field
  wc_rate :: rate_field
  wc_amount :: amount_field
  wc_max_per_run :: amount_field
  wc_rounding :: text_field
  wc_jurisdiction :: text_field

record normalized_withholding =
  nw_employee_id :: "string option"
  nw_method :: withholding_method
  nw_rate :: "int option"
  nw_amount :: "int option"
  nw_max_per_run :: "int option"
  nw_rounding :: withholding_rounding
  nw_jurisdiction :: "string option"

record withholding_options =
  wo_expected_employee :: "string option"
  wo_require_employee :: bool
  wo_max_rate :: int
  wo_allow_zero_rate :: bool
  wo_allow_zero_amount :: bool
  wo_decimals :: nat

definition default_withholding_options :: withholding_options where
  "default_withholding_options =
     \<lparr>wo_expected_employee = None, wo_require_employee = False, wo_max_rate = 1000000, wo_allow_zero_rate = False,
      wo_allow_zero_amount = False, wo_decimals = 7\<rparr>"

datatype unit_problem = UnitInvalid | UnitNegative | UnitZero

definition positive_units :: "int \<Rightarrow> (unit_problem, int) result" where
  "positive_units n = (if n < 0 then Inl UnitNegative else if n = 0 then Inl UnitZero else Inr n)"

definition parse_base_unit_amount :: "nat \<Rightarrow> amount_input \<Rightarrow> (unit_problem, int) result" where
  "parse_base_unit_amount d raw =
     (case raw of
        AmountBigint n \<Rightarrow> positive_units n
      | AmountNumber n \<Rightarrow> positive_units n
      | AmountFraction _ _ \<Rightarrow> Inl UnitInvalid
      | AmountNotFinite \<Rightarrow> Inl UnitInvalid
      | AmountText s \<Rightarrow>
          let t = js_trim s; (w, f) = split_at_point t in
          if \<not> (plain_decimal t \<or> (t \<noteq> [] \<and> hd t = CHR ''-'' \<and> plain_decimal (tl t))) then Inl UnitInvalid
          else if hd t = CHR ''-'' then Inl UnitNegative
          else if length f > d then Inl UnitInvalid
          else positive_units (int (dec_value w) * 10 ^ d + int (dec_value (pad_end d CHR ''0'' f)))
      | AmountOther \<Rightarrow> Inl UnitInvalid)"

definition check_withholding_employee ::
  "withholding_options \<Rightarrow> text_field \<Rightarrow> (withholding_code, string option) result" where
  "check_withholding_employee opts raw =
     (case raw of
        NotText \<Rightarrow> Inl EmployeeRequired
      | _ \<Rightarrow>
          let e = (case raw of IsText s \<Rightarrow> js_trim s | _ \<Rightarrow> []) in
          if wo_require_employee opts \<and> e = [] then Inl EmployeeRequired
          else if truthy (wo_expected_employee opts) \<and> e \<noteq> js_trim (the (wo_expected_employee opts)) then Inl EmployeeMismatch
          else Inr (if e = [] then None else Some e))"

definition check_withholding_method :: "text_field \<Rightarrow> (withholding_code, withholding_method) result" where
  "check_withholding_method raw =
     (let m = (case raw of IsText s \<Rightarrow> js_trim s | _ \<Rightarrow> []) in
      if m = [] then Inl MethodRequired
      else if m = ''percentage'' then Inr Percentage
      else if m = ''fixed'' then Inr Fixed
      else Inl MethodUnsupported)"

definition check_withholding_rounding :: "text_field \<Rightarrow> (withholding_code, withholding_rounding) result" where
  "check_withholding_rounding raw =
     (case raw of
        NoText \<Rightarrow> Inr RoundNearest
      | NotText \<Rightarrow> Inl RoundingUnsupported
      | IsText s \<Rightarrow>
          if s = ''floor'' then Inr RoundFloor else if s = ''ceil'' then Inr RoundCeil
          else if s = ''nearest'' then Inr RoundNearest else Inl RoundingUnsupported)"

definition check_withholding_jurisdiction :: "text_field \<Rightarrow> (withholding_code, string option) result" where
  "check_withholding_jurisdiction raw =
     (case raw of
        NoText \<Rightarrow> Inr None
      | NotText \<Rightarrow> Inl JurisdictionInvalid
      | IsText s \<Rightarrow> if js_trim s = [] then Inl JurisdictionInvalid else Inr (Some (js_trim s)))"

definition check_withholding_rate :: "withholding_options \<Rightarrow> rate_field \<Rightarrow> (withholding_code, int) result" where
  "check_withholding_rate opts raw =
     (case raw of
        NoRate \<Rightarrow> Inl RateRequired
      | NullRate \<Rightarrow> Inl RateRequired
      | RateNotNumber \<Rightarrow> Inl RateInvalid
      | RateTooPrecise \<Rightarrow> Inl RateInvalid
      | Rate r \<Rightarrow>
          if (r < 0 \<or> r = 0 \<or> r > wo_max_rate opts) \<and> \<not> (wo_allow_zero_rate opts \<and> r = 0) then Inl RateOutOfRange else Inr r)"

definition check_withholding_cap :: "withholding_options \<Rightarrow> amount_field \<Rightarrow> int \<Rightarrow> (withholding_code, int option) result" where
  "check_withholding_cap opts raw value =
     (case raw of
        Amount a \<Rightarrow>
          (case parse_base_unit_amount (wo_decimals opts) a of
             Inl _ \<Rightarrow> Inl CapInvalid
           | Inr cap \<Rightarrow> if cap < value then Inl CapExceeded else Inr (Some cap))
      | _ \<Rightarrow> Inr None)"

definition check_withholding_amount :: "withholding_options \<Rightarrow> amount_field \<Rightarrow> (withholding_code, int) result" where
  "check_withholding_amount opts raw =
     (case raw of
        Amount a \<Rightarrow>
          (case parse_base_unit_amount (wo_decimals opts) a of
             Inr v \<Rightarrow> Inr v
           | Inl UnitNegative \<Rightarrow> Inl AmountNegative
           | Inl UnitZero \<Rightarrow> if wo_allow_zero_amount opts then Inr 0 else Inl AmountZero
           | Inl UnitInvalid \<Rightarrow> Inl AmountInvalid)
      | _ \<Rightarrow> Inl AmountRequired)"

text \<open>\<open>None\<close> for what is no object. The state of a failure is "malformed" for \<open>ConfigRequired\<close> and "invalid" else.\<close>

definition validate_withholding_config ::
  "withholding_options \<Rightarrow> withholding_config option \<Rightarrow> (withholding_code, normalized_withholding) result" where
  "validate_withholding_config opts config =
     (case config of
        None \<Rightarrow> Inl ConfigRequired
      | Some c \<Rightarrow>
          bind_result (check_withholding_employee opts (wc_employee_id c)) (\<lambda>employee.
          bind_result (check_withholding_method (wc_method c)) (\<lambda>m.
          bind_result (check_withholding_rounding (wc_rounding c)) (\<lambda>rounding.
          bind_result (check_withholding_jurisdiction (wc_jurisdiction c)) (\<lambda>jurisdiction.
            let common = \<lparr>nw_employee_id = employee, nw_method = m, nw_rate = None, nw_amount = None, nw_max_per_run = None,
                          nw_rounding = rounding, nw_jurisdiction = jurisdiction\<rparr> in
            case m of
              Percentage \<Rightarrow>
                bind_result (throw_if (wc_amount c \<noteq> NoAmount) AmountUnexpected) (\<lambda>_.
                bind_result (check_withholding_rate opts (wc_rate c)) (\<lambda>r. Inr (common\<lparr>nw_rate := Some r\<rparr>)))
            | Fixed \<Rightarrow>
                bind_result (throw_if (wc_rate c \<noteq> NoRate) RateInvalid) (\<lambda>_.
                bind_result (check_withholding_amount opts (wc_amount c)) (\<lambda>v.
                bind_result (check_withholding_cap opts (wc_max_per_run c) v) (\<lambda>cap.
                Inr (common\<lparr>nw_amount := Some v, nw_max_per_run := cap\<rparr>)))))))))"

record withholding_batch =
  wb_issues :: "(nat \<times> withholding_code) list"
  wb_total :: nat
  wb_valid :: nat
  wb_invalid :: nat
  wb_malformed :: nat

definition withholding_issues ::
  "withholding_options \<Rightarrow> withholding_config option list \<Rightarrow> (nat \<times> withholding_code) list" where
  "withholding_issues opts cs =
     concat (map (\<lambda>i. case validate_withholding_config opts (cs ! i) of Inl e \<Rightarrow> [(i, e)] | Inr _ \<Rightarrow> []) [0..<length cs])"

definition validate_batch_withholding_configs ::
  "withholding_options \<Rightarrow> withholding_config option list \<Rightarrow> withholding_batch" where
  "validate_batch_withholding_configs opts cs =
     (let is = withholding_issues opts cs in
      \<lparr>wb_issues = is, wb_total = length cs, wb_valid = length cs - length is, wb_invalid = length is,
       wb_malformed = length (filter (\<lambda>(i, e). e = ConfigRequired) is)\<rparr>)"

section \<open>Thresholds\<close>

record payout_entry =
  pe_amount :: int
  pe_asset :: string

record threshold_config =
  tc_asset :: string
  tc_minimum :: int

datatype threshold_code = BelowThreshold | ZeroPayout | NegativePayout | UnknownAsset

record threshold_options =
  to_thresholds :: "threshold_config list option"
  to_default :: int
  to_reject_unknown :: bool

definition build_threshold_map :: "threshold_config list option \<Rightarrow> (string, int) dict" where
  "build_threshold_map configs =
     (case configs of None \<Rightarrow> [] | Some cs \<Rightarrow> fold (\<lambda>c. dict_put (tc_asset c) (tc_minimum c)) cs [])"

definition validate_payout_threshold :: "threshold_options \<Rightarrow> payout_entry \<Rightarrow> threshold_code option" where
  "validate_payout_threshold opts e =
     (let m = dict_get (build_threshold_map (to_thresholds opts)) (pe_asset e) in
      if pe_amount e < 0 then Some NegativePayout
      else if pe_amount e = 0 then Some ZeroPayout
      else if m = None \<and> to_reject_unknown opts then Some UnknownAsset
      else if pe_amount e < (case m of Some t \<Rightarrow> t | None \<Rightarrow> to_default opts) then Some BelowThreshold
      else None)"

record threshold_batch =
  tb_violations :: "threshold_code list"
  tb_total :: nat
  tb_valid :: nat
  tb_count :: "threshold_code \<Rightarrow> nat"

definition validate_payout_threshold_batch :: "threshold_options \<Rightarrow> payout_entry list \<Rightarrow> threshold_batch" where
  "validate_payout_threshold_batch opts es =
     (let vs = concat (map (\<lambda>e. case validate_payout_threshold opts e of Some c \<Rightarrow> [c] | None \<Rightarrow> []) es) in
      \<lparr>tb_violations = vs, tb_total = length es, tb_valid = length es - length vs,
       tb_count = (\<lambda>c. length (filter (\<lambda>v. v = c) vs))\<rparr>)"

section \<open>Counts\<close>

datatype count_code = EmptyPayoutBatch | BelowMinCount | AboveMaxCount | InvalidCountBounds | InvalidPayoutCount

text \<open>The violation with how many payouts are missing, or too many\<close>

definition validate_payout_count :: "jsnum \<Rightarrow> jsnum option \<Rightarrow> jsnum option \<Rightarrow> (count_code \<times> int) option" where
  "validate_payout_count count min_count max_count =
     (case (case min_count of None \<Rightarrow> Whole 1 | Some m \<Rightarrow> m, case max_count of None \<Rightarrow> Whole 500 | Some m \<Rightarrow> m) of
        (Whole lo, Whole hi) \<Rightarrow>
          if lo < 0 \<or> hi < 0 \<or> lo > hi then Some (InvalidCountBounds, 0)
          else (case count of
             NonInteger \<Rightarrow> Some (InvalidPayoutCount, 0)
           | Whole n \<Rightarrow>
               if n < 0 then Some (InvalidPayoutCount, 0)
               else if n < lo then Some (if n = 0 then EmptyPayoutBatch else BelowMinCount, lo - n)
               else if n > hi then Some (AboveMaxCount, n - hi)
               else None)
      | _ \<Rightarrow> Some (InvalidCountBounds, 0))"

text \<open>The entries beyond the limit\<close>

definition offending_entries :: "'a list \<Rightarrow> jsnum option \<Rightarrow> jsnum option \<Rightarrow> 'a list" where
  "offending_entries es min_count max_count =
     (case validate_payout_count (Whole (int (length es))) min_count max_count of
        Some (c, k) \<Rightarrow> if c = AboveMaxCount then drop (length es - nat k) es else []
      | None \<Rightarrow> [])"

section \<open>The parsers agree\<close>

lemma plain_decimalE:
  assumes "plain_decimal s" "split_at_point s = (w, f)"
  shows "w \<noteq> []" "list_all is_digit w" "list_all is_digit f" "s = (if f = [] then w else w @ CHR ''.'' # f)"
    "split_amount s = (w, f)" "numeric_body s" "js_trim s = s"
proof -
  let ?w = "takeWhile is_digit s" and ?r = "dropWhile is_digit s"
  have digits: "list_all is_digit ?w" by (auto simp: list_all_iff dest: set_takeWhileD)
  then have no_point: "CHR ''.'' \<notin> set ?w" by (auto simp: list_all_iff)
  have ne: "?w \<noteq> []" using assms(1) by (simp add: plain_decimal_def)
  have s: "s = ?w @ ?r" by simp
  have *: "w = ?w \<and> list_all is_digit f \<and> s = (if f = [] then w else w @ CHR ''.'' # f)"
  proof (cases ?r)
    case Nil
    then have "s = ?w" using s by (metis append_Nil2)
    moreover have "takeWhile (\<lambda>c. c \<noteq> CHR ''.'') ?w = ?w" "dropWhile (\<lambda>c. c \<noteq> CHR ''.'') ?w = []"
      using no_point by (auto simp: takeWhile_eq_all_conv dropWhile_eq_Nil_conv)
    ultimately show ?thesis using assms(2) unfolding split_at_point_def by (metis Pair_inject drop_Nil list.pred_inject(1))
  next
    case (Cons c g)
    then have g: "c = CHR ''.''" "g \<noteq> []" "list_all is_digit g" using assms(1) by (simp_all add: plain_decimal_def)
    then have eq: "s = ?w @ CHR ''.'' # g" using s Cons by simp
    have "takeWhile (\<lambda>c. c \<noteq> CHR ''.'') s = ?w" "dropWhile (\<lambda>c. c \<noteq> CHR ''.'') s = CHR ''.'' # g"
      by (subst eq, simp only: takeWhile_neq [OF no_point] dropWhile_neq [OF no_point])+
    then have "w = ?w" "f = g" using assms(2) by (simp_all add: split_at_point_def)
    then show ?thesis using eq g by simp
  qed
  then show w: "w \<noteq> []" "list_all is_digit w" "list_all is_digit f" "s = (if f = [] then w else w @ CHR ''.'' # f)"
    using ne digits by auto
  have np: "CHR ''.'' \<notin> set w" using w(2) by (auto simp: list_all_iff)
  show "numeric_body s" unfolding numeric_body_iff using w by (cases "f = []") auto
  show "split_amount s = (w, f)"
    using w np by (cases "f = []") (auto simp: split_amount_def Let_def takeWhile_neq dropWhile_neq)
  have "\<not> js_space (hd s)" "\<not> js_space (last s)"
    using w is_digit_not_space by (cases "f = []"; auto simp: list_all_iff)+
  then show "js_trim s = s" by (auto intro: js_trim_no_space_ends)
qed

lemma plain_decimal_start: "plain_decimal s \<Longrightarrow> s \<noteq> [] \<and> hd s \<noteq> CHR ''-''"
proof -
  assume p: "plain_decimal s"
  obtain w f where wf: "split_at_point s = (w, f)" by (cases "split_at_point s") blast
  note e = plain_decimalE [OF p wf]
  have "hd s = hd w" "is_digit (hd w)" using e(1,2,4) by (auto simp: list_all_iff)
  then show ?thesis using e(1,4) by auto
qed

lemma scaled_digits:
  "length f \<le> d \<Longrightarrow> int (dec_value w) * 10 ^ d + int (dec_value (pad_end d CHR ''0'' f)) = int (dec_value (w @ f) * 10 ^ (d - length f))"
  by (simp add: dec_value_pad_end radix_value_append power_add [symmetric] algebra_simps)

lemma zero_digits: "list_all is_digit f \<Longrightarrow> list_all (\<lambda>c. c = CHR ''0'') f \<longleftrightarrow> dec_value f = 0"
  by (simp add: list_all_iff dec_value_0_iff)

text \<open>
  C15: On a plain decimal that is not zero, has no more decimals than the asset and is not altered by the sanitizer (it does
  not contain the asset's symbol), the validator of minimum amounts reads the digits scaled to the asset's precision, and
  the parser of payroll amounts returns the same number of base units, unrounded, whatever its rounding mode, exactly if
  the whole part is a safe integer and the number is within the bounds; otherwise the parser throws.
\<close>

theorem amount_readers_agree:
  assumes s: "plain_decimal s" "split_at_point s = (w, f)" and fits: "length f \<le> d" "0 < dec_value (w @ f)"
    and m: "sanitize_input s (symbol m) = s" "decimals m = Whole (int d)" "d \<le> 18"
  shows "parse_to_base_units d (AmountText s) = (Some (int (dec_value (w @ f) * 10 ^ (d - length f))), None) \<and>
    (if int (dec_value w) \<le> max_safe_integer \<and>
        within_bounds (opt_bounds options) (int (dec_value (w @ f) * 10 ^ (d - length f)))
     then parse_payroll_amount s m options =
        Inr \<lparr>pa_amount = int (dec_value (w @ f) * 10 ^ (d - length f)), pa_decimals = int d, pa_was_rounded = False\<rparr>
     else \<exists>e. parse_payroll_amount s m options = Inl e)"
proof -
  let ?u = "int (dec_value (w @ f) * 10 ^ (d - length f))"
  note e = plain_decimalE [OF s]
  have nz: "\<not> (w = ''0'' \<and> (f = [] \<or> list_all (\<lambda>c. c = CHR ''0'') f))"
    using fits(2) e(3) zero_digits [of f] by (auto simp: radix_value_append)
  have pos: "positive_digits (sanitize_input s (symbol m)) w f"
    using e m nz plain_decimal_start [OF s(1)] by (auto simp: positive_digits_def effectively_zero_def)
  have adj: "adjust_fraction (mode_of options) (nat (int d)) w f = (w, pad_end d CHR ''0'' f, False)"
    using fits(1) by (simp add: adjust_fraction_def)
  have ok: "parse_payroll_amount s m options = map_sum id (\<lambda>_. \<lparr>pa_amount = ?u, pa_decimals = int d, pa_was_rounded = False\<rparr>)
      (check_bounds (opt_bounds options) ?u d (symbol m))" if "int (dec_value w) \<le> max_safe_integer"
    using parse_payroll_amount_eq [OF pos m(2) _ adj that] scaled_digits [OF fits(1), of w] by simp
  have safe: "int (dec_value w) \<le> max_safe_integer" if "parse_payroll_amount s m options = Inr p" for p
    by (rule parse_payroll_amount_InrD [OF that]) (use pos adj m(2) in \<open>auto simp: positive_digits_def\<close>)
  have "parse_to_base_units d (AmountText s) = (Some ?u, None)"
    using s e(7) nz fits(1) plain_decimal_start [OF s(1)] scaled_digits [OF fits(1), of w]
    by (simp add: parse_to_base_units_def text_to_base_units_def)
  moreover have "parse_payroll_amount s m options = Inr \<lparr>pa_amount = ?u, pa_decimals = int d, pa_was_rounded = False\<rparr>"
    if "int (dec_value w) \<le> max_safe_integer" "within_bounds (opt_bounds options) ?u"
    using ok [OF that(1)] that(2) check_bounds_Inr_iff [of "opt_bounds options" ?u d "symbol m" "()"] by simp
  moreover have "\<exists>e. parse_payroll_amount s m options = Inl e"
    if "\<not> (int (dec_value w) \<le> max_safe_integer \<and> within_bounds (opt_bounds options) ?u)"
    using that ok safe check_bounds_Inr_iff [of "opt_bounds options" ?u d "symbol m" "()"]
    by (cases "parse_payroll_amount s m options"; cases "check_bounds (opt_bounds options) ?u d (symbol m)") auto
  ultimately show ?thesis by simp
qed

theorem amount_readers_agree_witness:
  "parse_payroll_amount ''12.5'' (hd builtin_assets) no_options =
     Inr \<lparr>pa_amount = 125000000, pa_decimals = 7, pa_was_rounded = False\<rparr> \<and>
   parse_to_base_units 7 (AmountText ''12.5'') = (Some 125000000, None)"
proof -
  have "plain_decimal ''12.5''" "split_at_point ''12.5'' = (''12'', ''5'')" "dec_value (''12'' @ ''5'') = 125"
    "dec_value ''12'' = 12" "sanitize_input ''12.5'' (symbol (hd builtin_assets)) = ''12.5''"
    by code_simp+
  moreover have "decimals (hd builtin_assets) = Whole 7" by (simp add: builtin_assets_def)
  ultimately show ?thesis
    using amount_readers_agree [of "''12.5''" "''12''" "''5''" 7 "hd builtin_assets" no_options]
    by (simp add: no_options_def max_safe_integer_def within_bounds_def)
qed

text \<open>The withholding rules, whose amounts are to be base units, scale a plain decimal in the same way.\<close>

lemma withholding_scales_text:
  assumes s: "plain_decimal s" "split_at_point s = (w, f)" and fits: "length f \<le> d" "0 < dec_value (w @ f)"
  shows "parse_base_unit_amount d (AmountText s) = Inr (int (dec_value (w @ f) * 10 ^ (d - length f)))"
  using s plain_decimalE(7) [OF s] fits plain_decimal_start [OF s(1)] scaled_digits [OF fits(1), of w]
  by (simp add: parse_base_unit_amount_def positive_units_def not_less)

text \<open>The same number means base units to a withholding rule and whole units to the validator of minimum amounts.\<close>

lemma numbers_read_differently:
  "parse_base_unit_amount 7 (AmountNumber 5) = Inr 5 \<and> parse_to_base_units 7 (AmountNumber 5) = (Some 50000000, None)"
  by code_simp

section \<open>Minimum amounts\<close>

text \<open>
  The number of decimals given to the quick check is ignored: without asset metadata the amount is read with seven
  decimals, whatever the number, also one that is not allowed.
\<close>

theorem quick_check_ignores_decimals:
  "is_payroll_amount_below_minimum reg amt (JustDecimals d) custom_min = is_payroll_amount_below_minimum reg amt NoAsset custom_min"
  by (simp add: is_payroll_amount_below_minimum_def validate_payroll_entry_minimum_amount_def resolve_asset_info_def
      no_minimum_options_def minimum_required_def)

lemma judge_accepts:
  "judge_amount allow_zero required p = None \<longleftrightarrow>
     (\<exists>b err. p = (Some b, err) \<and> err \<notin> {Some InvalidAmount, Some NegativeAmount} \<and>
        (if b = 0 then allow_zero else 0 < b \<and> required \<le> b))"
  by (cases p; cases "fst p") (auto simp: judge_amount_def)

text \<open>A negative amount that is no bigint is reported as one that cannot be read.\<close>

lemma negative_text_invalid: "judge_amount z r (parse_to_base_units d (AmountText (CHR ''-'' # s))) = Some (InvalidAmount, None)"
proof -
  obtain t where t: "js_trim (CHR ''-'' # s) = CHR ''-'' # t"
  proof -
    have "\<not> js_space CHR ''-''" by code_simp
    then have "dropWhile js_space (rev (CHR ''-'' # s)) = dropWhile js_space (rev s) @ (if dropWhile js_space (rev s) = [] then [CHR ''-''] else [CHR ''-''])"
      by (simp add: dropWhile_append)
    then show ?thesis using that \<open>\<not> js_space CHR ''-''\<close> by (simp add: js_trim_def)
  qed
  show ?thesis by (simp add: parse_to_base_units_def text_to_base_units_def t judge_amount_def Let_def split: prod.splits)
qed

section \<open>Withholding rules\<close>

text \<open>What a validated rule is, beside the rule it was made of\<close>

definition withholding_ok :: "withholding_options \<Rightarrow> withholding_config \<Rightarrow> normalized_withholding \<Rightarrow> bool" where
  "withholding_ok opts c n \<longleftrightarrow>
     (case nw_method n of
        Percentage \<Rightarrow> nw_amount n = None \<and> nw_max_per_run n = None \<and>
          (\<exists>r. wc_rate c = Rate r \<and> nw_rate n = Some r \<and> r \<le> max (wo_max_rate opts) 0 \<and> 0 \<le> r \<and> (r = 0 \<longrightarrow> wo_allow_zero_rate opts))
      | Fixed \<Rightarrow> nw_rate n = None \<and>
          (\<exists>a v. wc_amount c = Amount a \<and> nw_amount n = Some v \<and>
             (if v = 0 then wo_allow_zero_amount opts else 0 < v \<and> parse_base_unit_amount (wo_decimals opts) a = Inr v) \<and>
             (\<forall>cap. nw_max_per_run n = Some cap \<longrightarrow> v \<le> cap \<and> 0 < cap))) \<and>
     (truthy (wo_expected_employee opts) \<longrightarrow>
        js_trim (the (wo_expected_employee opts)) = (case nw_employee_id n of None \<Rightarrow> [] | Some e \<Rightarrow> e))"

lemma positive_units_Inr [result_simps]: "positive_units n = Inr v \<longleftrightarrow> v = n \<and> 0 < n"
  by (auto simp: positive_units_def)

lemma base_units_positive: "parse_base_unit_amount d a = Inr v \<Longrightarrow> 0 < v"
  by (auto simp: parse_base_unit_amount_def Let_def result_simps split: amount_input.splits if_splits prod.splits)

lemma checked_amount:
  "check_withholding_amount opts x = Inr v \<Longrightarrow>
     \<exists>a. x = Amount a \<and> (if v = 0 then wo_allow_zero_amount opts else 0 < v \<and> parse_base_unit_amount (wo_decimals opts) a = Inr v)"
  using base_units_positive
  by (fastforce simp: check_withholding_amount_def split: amount_field.splits sum.splits unit_problem.splits if_splits)

lemma checked_cap: "check_withholding_cap opts x v = Inr (Some cap) \<Longrightarrow> v \<le> cap \<and> 0 < cap"
  using base_units_positive
  by (fastforce simp: check_withholding_cap_def split: amount_field.splits sum.splits if_splits)

lemma checked_rate:
  "check_withholding_rate opts x = Inr r \<Longrightarrow> x = Rate r \<and> r \<le> max (wo_max_rate opts) 0 \<and> 0 \<le> r \<and> (r = 0 \<longrightarrow> wo_allow_zero_rate opts)"
  by (auto simp: check_withholding_rate_def split: rate_field.splits if_splits)

lemma checked_employee:
  "check_withholding_employee opts x = Inr e \<Longrightarrow> truthy (wo_expected_employee opts) \<Longrightarrow>
     js_trim (the (wo_expected_employee opts)) = (case e of None \<Rightarrow> [] | Some s \<Rightarrow> s)"
  by (auto simp: check_withholding_employee_def Let_def split: text_field.splits if_splits)

lemma bind_not_Inl: "r \<noteq> Inl e \<Longrightarrow> (\<And>x. f x \<noteq> Inl e) \<Longrightarrow> bind_result r f \<noteq> Inl e"
  by (cases r) simp_all

lemma checks_not_malformed:
  "check_withholding_employee opts x \<noteq> Inl ConfigRequired" "check_withholding_method x \<noteq> Inl ConfigRequired"
  "check_withholding_rounding x \<noteq> Inl ConfigRequired" "check_withholding_jurisdiction x \<noteq> Inl ConfigRequired"
  "check_withholding_rate opts r \<noteq> Inl ConfigRequired" "check_withholding_amount opts a \<noteq> Inl ConfigRequired"
  "check_withholding_cap opts a v \<noteq> Inl ConfigRequired"
        apply (simp add: check_withholding_employee_def Let_def split: text_field.split)
       apply (simp add: check_withholding_method_def Let_def)
      apply (simp add: check_withholding_rounding_def split: text_field.split)
     apply (simp add: check_withholding_jurisdiction_def split: text_field.split)
    apply (simp add: check_withholding_rate_def split: rate_field.split)
   apply (simp add: check_withholding_amount_def split: amount_field.split sum.split unit_problem.split)
  apply (simp add: check_withholding_cap_def split: amount_field.split sum.split)
  done

text \<open>
  Whatever the validator of withholding rules accepts is a rule ready to apply: a percentage has the rate that was
  given, within the ceiling and zero only by permission, and no amount; a fixed rule has the base units that were given,
  never negative and zero only by permission, no rate, and a cap it does not exceed; the rule is for the employee expected.
\<close>

theorem accepted_withholding_ok:
  "case validate_withholding_config opts (Some c) of Inl e \<Rightarrow> e \<noteq> ConfigRequired | Inr n \<Rightarrow> withholding_ok opts c n"
proof (cases "validate_withholding_config opts (Some c)")
  case (Inl e)
  have "validate_withholding_config opts (Some c) \<noteq> Inl ConfigRequired"
    unfolding validate_withholding_config_def option.case Let_def
    by (intro bind_not_Inl checks_not_malformed)
      (simp_all add: bind_result_Inl_iff throw_if_Inl_iff checks_not_malformed split: withholding_method.split)
  then show ?thesis using Inl by simp
next
  case (Inr n)
  then obtain employee m rounding jurisdiction where
    e: "check_withholding_employee opts (wc_employee_id c) = Inr employee" and m: "check_withholding_method (wc_method c) = Inr m"
    and "check_withholding_rounding (wc_rounding c) = Inr rounding"
    and "check_withholding_jurisdiction (wc_jurisdiction c) = Inr jurisdiction"
    by (auto simp: validate_withholding_config_def result_simps)
  note steps = this
  show ?thesis
  proof (cases m)
    case Percentage
    then obtain r where r: "check_withholding_rate opts (wc_rate c) = Inr r" and
      n: "n = \<lparr>nw_employee_id = employee, nw_method = Percentage, nw_rate = Some r, nw_amount = None, nw_max_per_run = None,
        nw_rounding = rounding, nw_jurisdiction = jurisdiction\<rparr>"
      using Inr steps by (auto simp: validate_withholding_config_def result_simps Let_def)
    show ?thesis using checked_rate [OF r] checked_employee [OF e] by (simp add: Inr n withholding_ok_def)
  next
    case Fixed
    then obtain v cap where v: "check_withholding_amount opts (wc_amount c) = Inr v"
      and cap: "check_withholding_cap opts (wc_max_per_run c) v = Inr cap" and
      n: "n = \<lparr>nw_employee_id = employee, nw_method = Fixed, nw_rate = None, nw_amount = Some v, nw_max_per_run = cap,
        nw_rounding = rounding, nw_jurisdiction = jurisdiction\<rparr>"
      using Inr steps by (auto simp: validate_withholding_config_def result_simps Let_def)
    show ?thesis using checked_amount [OF v] checked_cap [of opts "wc_max_per_run c" v] cap checked_employee [OF e]
      by (auto simp: Inr n withholding_ok_def)
  qed
qed

text \<open>The cap per run of a percentage rule is neither read nor kept.\<close>

lemma percentage_cap_lost:
  "check_withholding_method (wc_method c) = Inr Percentage \<Longrightarrow>
     validate_withholding_config opts (Some (c\<lparr>wc_max_per_run := x\<rparr>)) = validate_withholding_config opts (Some c)"
  by (simp add: validate_withholding_config_def)

lemma withholding_batch_adds_up:
  "wb_valid (validate_batch_withholding_configs opts cs) + wb_invalid (validate_batch_withholding_configs opts cs) = length cs"
proof -
  have "length (concat (map (\<lambda>i. case validate_withholding_config opts (cs ! i) of Inl e \<Rightarrow> [(i, e)] | Inr _ \<Rightarrow> []) xs)) \<le> length xs"
    for xs by (induction xs) (auto split: sum.splits)
  from this [of "[0..<length cs]"] have "length (withholding_issues opts cs) \<le> length cs"
    by (simp add: withholding_issues_def)
  then show ?thesis by (simp add: validate_batch_withholding_configs_def Let_def)
qed

section \<open>Thresholds and counts\<close>

lemma payout_threshold_ok_iff:
  "validate_payout_threshold opts e = None \<longleftrightarrow>
     0 < pe_amount e \<and>
     (case dict_get (build_threshold_map (to_thresholds opts)) (pe_asset e) of
        Some t \<Rightarrow> t \<le> pe_amount e | None \<Rightarrow> \<not> to_reject_unknown opts \<and> to_default opts \<le> pe_amount e)"
  by (auto simp: validate_payout_threshold_def Let_def split: option.splits)

lemma payout_count_ok_iff:
  "validate_payout_count (Whole n) (Some (Whole lo)) (Some (Whole hi)) = None \<longleftrightarrow> 0 \<le> lo \<and> lo \<le> n \<and> n \<le> hi"
  by (auto simp: validate_payout_count_def)

end
