(* ===== verification/Webhooks.thy ===== *)
theory Webhooks
  imports Receipts
begin

text \<open>
  Signed webhooks (\<open>packages/core/src/webhooks/verify.ts\<close>): the canonical text of a payload, its signature and the
  verification of an envelope. HMAC-SHA256 and the reading of dates are the record \<open>hook_library\<close>. A payload is an
  object of JSON values with distinct keys, none an array index.
\<close>

section \<open>Payloads and envelopes\<close>

type_synonym payload = "(string \<times> json) list"

datatype webhook_error =
  EnvelopeInvalid | PayloadMissing | SignatureIsMissing | VersionMissing | UnsupportedVersion | SignatureFormatInvalid
| SignatureEmpty | SignatureMismatch | TimestampMissing | TimestampInvalid | PayloadExpired | TimestampFuture
| BodyInvalid | EnvelopeMalformed

record envelope =
  env_payload :: "payload option"
  env_signature :: string
  env_version :: string

text \<open>HMAC of a secret and a text in hexadecimal; the time \<open>new Date\<close> gives for a value, if any\<close>

record hook_library =
  hmac_hex :: "string \<Rightarrow> string \<Rightarrow> string"
  date_ms :: "json \<Rightarrow> int option"

text \<open>\<open>JSON.stringify\<close> with an array of keys writes of every object, nested or not, the keys listed, in that order.\<close>

function select_keys :: "string list \<Rightarrow> json \<Rightarrow> json" where
  "select_keys ks (JsonObject ps) =
     JsonObject (map (\<lambda>(k, v). (k, select_keys ks v)) (concat (map (\<lambda>k. filter (\<lambda>(k', v). k' = k) ps) ks)))"
| "select_keys ks (JsonArray js) = JsonArray (map (select_keys ks) js)"
| "select_keys ks JsonNull = JsonNull"
| "select_keys ks (JsonBool b) = JsonBool b"
| "select_keys ks (JsonNumber n) = JsonNumber n"
| "select_keys ks (JsonText s) = JsonText s"
  by pat_completeness auto

termination
  by (relation "measure (\<lambda>(ks, j). size j)") (auto simp: less_Suc_eq_le intro: size_list_estimation')

definition canonical_serialize :: "payload \<Rightarrow> string" where
  "canonical_serialize ps = stringify_json (select_keys (sort (map fst ps)) (JsonObject ps))"

definition signature_prefix :: string where
  "signature_prefix = ''sha256=''"

definition compute_signature :: "hook_library \<Rightarrow> string \<Rightarrow> payload \<Rightarrow> string" where
  "compute_signature lib secret ps = signature_prefix @ hmac_hex lib secret (canonical_serialize ps)"

text \<open>\<open>Buffer.from(s, "hex")\<close> reads pairs of digits up to the first that is none.\<close>

fun hex_bytes :: "string \<Rightarrow> nat list" where
  "hex_bytes (a # b # s) =
     (if hex_char a \<and> hex_char b then (digit_value (js_lower_char a) * 16 + digit_value (js_lower_char b)) # hex_bytes s else [])"
| "hex_bytes [c] = []"
| "hex_bytes [] = []"

definition falsy_json :: "json \<Rightarrow> bool" where
  "falsy_json j \<longleftrightarrow> j = JsonNull \<or> j = JsonBool False \<or> j = JsonNumber 0 \<or> j = JsonText []"

definition check_envelope_fields :: "envelope option \<Rightarrow> (webhook_error, payload \<times> string) result" where
  "check_envelope_fields e =
     (case e of
        None \<Rightarrow> Inl EnvelopeInvalid
      | Some v \<Rightarrow>
          (case env_payload v of
             None \<Rightarrow> Inl PayloadMissing
           | Some ps \<Rightarrow>
               if env_signature v = [] then Inl SignatureIsMissing
               else if env_version v = [] then Inl VersionMissing
               else if env_version v \<noteq> ''1'' then Inl UnsupportedVersion
               else if \<not> is_prefix signature_prefix (env_signature v) then Inl SignatureFormatInvalid
               else let received = drop (length signature_prefix) (env_signature v) in
                 if received = [] then Inl SignatureEmpty else Inr (ps, received)))"

definition default_max_age_ms :: int where
  "default_max_age_ms = 5 * 60 * 1000"

definition check_age_of_payload :: "hook_library \<Rightarrow> int \<Rightarrow> int \<Rightarrow> int \<Rightarrow> payload \<Rightarrow> (webhook_error, unit) result" where
  "check_age_of_payload lib max_age tol now ps =
     (if max_age \<le> 0 then Inr ()
      else case map_of ps ''timestamp'' of
        None \<Rightarrow> Inl TimestampMissing
      | Some j \<Rightarrow>
          if falsy_json j then Inl TimestampMissing
          else case date_ms lib j of
            None \<Rightarrow> Inl TimestampInvalid
          | Some t \<Rightarrow>
              if now - t + tol > max_age then Inl PayloadExpired
              else if t > now + tol then Inl TimestampFuture
              else Inr ())"

definition verify_webhook_signature ::
  "hook_library \<Rightarrow> string \<Rightarrow> int option \<Rightarrow> int option \<Rightarrow> int \<Rightarrow> envelope option \<Rightarrow> (webhook_error, payload) result" where
  "verify_webhook_signature lib secret max_age tol now e =
     bind_result (check_envelope_fields e) (\<lambda>(ps, received).
     let computed = drop (length signature_prefix) (compute_signature lib secret ps) in
     bind_result (throw_if (hex_bytes received \<noteq> hex_bytes computed) SignatureMismatch) (\<lambda>_.
     bind_result (check_age_of_payload lib (case max_age of None \<Rightarrow> default_max_age_ms | Some m \<Rightarrow> m)
         (case tol of None \<Rightarrow> 0 | Some t \<Rightarrow> t) now ps) (\<lambda>_. Inr ps)))"

text \<open>A body that is an object, with its three fields as texts where they are not falsy\<close>

definition parse_webhook_envelope ::
  "(payload option \<times> string option \<times> string option) option \<Rightarrow> (webhook_error, envelope) result" where
  "parse_webhook_envelope body =
     (case body of
        None \<Rightarrow> Inl BodyInvalid
      | Some (Some ps, Some s, Some v) \<Rightarrow> Inr \<lparr>env_payload = Some ps, env_signature = s, env_version = v\<rparr>
      | Some _ \<Rightarrow> Inl EnvelopeMalformed)"

section \<open>The canonical text\<close>

text \<open>No declared payload has a value that is an object or an array.\<close>

definition scalar :: "json \<Rightarrow> bool" where
  "scalar j = (case j of JsonObject _ \<Rightarrow> False | JsonArray _ \<Rightarrow> False | _ \<Rightarrow> True)"

definition flat :: "payload \<Rightarrow> bool" where
  "flat ps \<longleftrightarrow> distinct (map fst ps) \<and> list_all (\<lambda>(k, v). scalar v) ps"

lemma select_scalar: "scalar j \<Longrightarrow> select_keys ks j = j"
  by (cases j) (simp_all add: scalar_def)

lemma filter_key: "distinct (map fst ps) \<Longrightarrow> (k, v) \<in> set ps \<Longrightarrow> filter (\<lambda>(k', v). k' = k) ps = [(k, v)]"
  by (induction ps) (force simp: filter_empty_conv)+

lemma select_flat:
  assumes "flat ps"
  shows "select_keys (sort (map fst ps)) (JsonObject ps) = JsonObject (map (\<lambda>k. (k, the (map_of ps k))) (sort (map fst ps)))"
proof -
  have ps: "distinct (map fst ps)" "\<And>k v. (k, v) \<in> set ps \<Longrightarrow> scalar v" using assms by (auto simp: flat_def list_all_iff)
  have *: "concat (map (\<lambda>k. filter (\<lambda>(k', v). k' = k) ps) ks) = map (\<lambda>k. (k, the (map_of ps k))) ks"
    if "set ks \<subseteq> set (map fst ps)" for ks
    using that
  proof (induction ks)
    case (Cons k ks)
    then obtain v where v: "(k, v) \<in> set ps" by auto
    then have "map_of ps k = Some v" using ps(1) by simp
    then show ?case using Cons filter_key [OF ps(1) v] by simp
  qed simp
  have "select_keys ks' (the (map_of ps k)) = the (map_of ps k)" if "k \<in> set (map fst ps)" for k ks'
  proof -
    from that obtain v where "map_of ps k = Some v" "(k, v) \<in> set ps" using ps(1) by force
    then show ?thesis using ps(2) select_scalar by simp
  qed
  then have "map ((\<lambda>(k, v). (k, select_keys ks' v)) \<circ> (\<lambda>k. (k, the (map_of ps k)))) ks = map (\<lambda>k. (k, the (map_of ps k))) ks"
    if "set ks \<subseteq> set (map fst ps)" for ks ks'
    using that by (intro map_cong) (auto simp: subset_iff)
  then show ?thesis
    using * [of "sort (map fst ps)"] by (simp only: select_keys.simps(1) map_map set_sort subset_refl)
qed

lemma stringify_json_eq: "stringify_json j = stringify_json k \<longleftrightarrow> j = k"
  using stringify_inj [of j "[]" k "[]"] by (auto simp: ends_value_def)

lemma canonical_eq_iff:
  assumes "flat ps" "flat qs"
  shows "canonical_serialize ps = canonical_serialize qs \<longleftrightarrow> map_of ps = map_of qs"
proof
  assume "canonical_serialize ps = canonical_serialize qs"
  then have eq: "map (\<lambda>k. (k, the (map_of ps k))) (sort (map fst ps)) = map (\<lambda>k. (k, the (map_of qs k))) (sort (map fst qs))"
    by (simp only: canonical_serialize_def stringify_json_eq select_flat [OF assms(1)] select_flat [OF assms(2)] json.inject)
  then have "map fst (map (\<lambda>k. (k, the (map_of ps k))) (sort (map fst ps))) = map fst (map (\<lambda>k. (k, the (map_of qs k))) (sort (map fst qs)))"
    by (rule arg_cong)
  then have keys: "sort (map fst ps) = sort (map fst qs)" by (simp add: o_def)
  then have dom: "dom (map_of ps) = dom (map_of qs)" by (metis dom_map_of_conv_image_fst set_map set_sort)
  show "map_of ps = map_of qs"
  proof
    fix k
    show "map_of ps k = map_of qs k"
    proof (cases "k \<in> dom (map_of ps)")
      case True
      then have "k \<in> set (sort (map fst ps))" by (simp add: dom_map_of_conv_image_fst)
      then have "the (map_of ps k) = the (map_of qs k)" using eq keys by (metis (no_types, lifting) map_eq_conv prod.inject)
      then show ?thesis using True dom by (metis domD option.sel)
    next
      case False
      then show ?thesis using dom by (metis domIff)
    qed
  qed
next
  assume eq: "map_of ps = map_of qs"
  then have "set (map fst ps) = set (map fst qs)" by (metis dom_map_of_conv_image_fst set_map)
  then have "sort (map fst ps) = sort (map fst qs)"
    using assms sorted_distinct_set_unique [of "sort (map fst ps)" "sort (map fst qs)"] by (simp add: flat_def)
  then show "canonical_serialize ps = canonical_serialize qs"
    using select_flat [OF assms(1)] select_flat [OF assms(2)] eq by (simp only: canonical_serialize_def)
qed

text \<open>A value below an object is not signed unless its key is also one of the payload's own.\<close>

lemma nested_fields_are_not_signed:
  "k \<noteq> f \<Longrightarrow> canonical_serialize [(k, JsonObject [(f, a)])] = canonical_serialize [(k, JsonObject [(f, b)])]"
  by (simp add: canonical_serialize_def)

section \<open>Signatures\<close>

text \<open>A digest is an even number of lower-case hexadecimal digits.\<close>

definition digest_text :: "string \<Rightarrow> bool" where
  "digest_text s \<longleftrightarrow> even (length s) \<and> s \<noteq> [] \<and> list_all (\<lambda>c. hex_char c \<and> js_lower_char c = c) s"

lemma hex_digit_inj:
  "hex_char c \<Longrightarrow> js_lower_char c = c \<Longrightarrow> hex_char d \<Longrightarrow> js_lower_char d = d \<Longrightarrow> digit_value c = digit_value d \<Longrightarrow> c = d"
proof -
  assume c: "hex_char c" "js_lower_char c = c" and d: "hex_char d" "js_lower_char d = d" and eq: "digit_value c = digit_value d"
  have range: "48 \<le> n \<and> n \<le> 57 \<or> 97 \<le> n \<and> n \<le> 102" if "hex_char x" "js_lower_char x = x" "n = (of_char x :: nat)" for x n
  proof -
    have "\<not> (65 \<le> n \<and> n \<le> 90)"
    proof
      assume n: "65 \<le> n \<and> n \<le> 90"
      then have "of_char (js_lower_char x) = n + 32" using that(3) by (simp add: js_lower_char_def)
      then show False using that(2,3) by simp
    qed
    then show ?thesis using that(1,3) by (auto simp: hex_char_nat)
  qed
  have "m = n" if "m = (of_char c :: nat)" "n = (of_char d :: nat)" for m n
    using range [OF c that(1)] range [OF d that(2)] eq
    unfolding digit_value_def Let_def that(1) [symmetric] that(2) [symmetric] by (auto split: if_splits)
  then show "c = d" by (metis of_char_eq_iff)
qed

lemma hex_digit_bound: "hex_char c \<Longrightarrow> digit_value c < 16"
  by (auto simp: hex_char_nat digit_value_def Let_def)

lemma two_digits:
  assumes "m * 16 + n = m' * 16 + n'" "n < 16" "n' < (16 :: nat)"
  shows "m = m' \<and> n = n'"
proof -
  have "m = (m * 16 + n) div 16" "m' = (m' * 16 + n') div 16" using assms(2,3) by simp_all
  with assms(1) have "m = m'" by simp
  with assms(1) show ?thesis by simp
qed

lemma digest_Cons:
  "digest_text (a # b # s) \<longleftrightarrow>
     hex_char a \<and> js_lower_char a = a \<and> hex_char b \<and> js_lower_char b = b \<and> (digest_text s \<or> s = [])"
  by (auto simp: digest_text_def)

lemma digest_Single: "\<not> digest_text [c]"
  by (simp add: digest_text_def)

lemma hex_bytes_inj:
  "digest_text s \<or> s = [] \<Longrightarrow> digest_text t \<or> t = [] \<Longrightarrow> hex_bytes s = hex_bytes t \<Longrightarrow> s = t"
proof (induction s arbitrary: t rule: hex_bytes.induct)
  case (1 a b s)
  have ab: "hex_char a" "js_lower_char a = a" "hex_char b" "js_lower_char b = b" and s: "digest_text s \<or> s = []"
    using "1.prems"(1) by (simp_all add: digest_Cons)
  have "hex_bytes t \<noteq> []" using "1.prems"(3) ab by (metis hex_bytes.simps(1) list.distinct(1))
  then obtain c d t' where t: "t = c # d # t'" by (cases t rule: hex_bytes.cases) simp_all
  have cd: "hex_char c" "js_lower_char c = c" "hex_char d" "js_lower_char d = d" and t': "digest_text t' \<or> t' = []"
    using "1.prems"(2) t by (simp_all add: digest_Cons)
  have v: "digit_value a * 16 + digit_value b = digit_value c * 16 + digit_value d" and rest: "hex_bytes s = hex_bytes t'"
    using "1.prems"(3) unfolding t by (simp_all add: ab cd)
  from v hex_digit_bound [OF ab(3)] hex_digit_bound [OF cd(3)] have "digit_value a = digit_value c" "digit_value b = digit_value d"
    using two_digits by blast+
  then have "a = c" "b = d" using hex_digit_inj ab cd by blast+
  moreover have "s = t'" using "1.IH" ab s t' rest by blast
  ultimately show ?case using t by simp
next
  case (2 c)
  then show ?case by (simp add: digest_Single)
next
  case 3
  then have "hex_bytes t = []" by simp
  then show ?case using "3.prems"(2) by (cases t rule: hex_bytes.cases) (simp_all add: digest_Cons digest_Single)
qed

text \<open>Nothing after the digits of a digest is read.\<close>

lemma suffix_ignored:
  "even (length s) \<Longrightarrow> \<not> hex_char c \<Longrightarrow> hex_bytes (s @ c # r) = hex_bytes s"
proof (induction s rule: hex_bytes.induct)
  case 3
  then show ?case by (cases r) simp_all
qed simp_all

section \<open>Verification\<close>

text \<open>
  What the functions rely on of the library: a digest is an even number of lower-case digits, and these two texts do
  not collide.
\<close>

definition hook_laws :: "hook_library \<Rightarrow> string \<Rightarrow> payload \<Rightarrow> payload \<Rightarrow> bool" where
  "hook_laws lib secret ps qs \<longleftrightarrow>
     digest_text (hmac_hex lib secret (canonical_serialize ps)) \<and> digest_text (hmac_hex lib secret (canonical_serialize qs)) \<and>
     (hmac_hex lib secret (canonical_serialize ps) = hmac_hex lib secret (canonical_serialize qs) \<longrightarrow>
      canonical_serialize ps = canonical_serialize qs)"

definition sealed :: "hook_library \<Rightarrow> string \<Rightarrow> payload \<Rightarrow> payload \<Rightarrow> envelope" where
  "sealed lib secret ps qs = \<lparr>env_payload = Some qs, env_signature = compute_signature lib secret ps, env_version = ''1''\<rparr>"

lemma sealed_fields:
  "digest_text (hmac_hex lib secret (canonical_serialize ps)) \<Longrightarrow>
   check_envelope_fields (Some (sealed lib secret ps qs)) = Inr (qs, hmac_hex lib secret (canonical_serialize ps))"
  by (simp add: check_envelope_fields_def sealed_def compute_signature_def signature_prefix_def digest_text_def is_prefix_iff Let_def)

lemma bind_result_unit_iff: "bind_result r (\<lambda>_. Inr y) = Inr y' \<longleftrightarrow> r = Inr () \<and> y = y'"
  by (cases r) (auto simp: bind_result_def)

lemma computed_digest: "drop (length signature_prefix) (compute_signature lib secret ps) = hmac_hex lib secret (canonical_serialize ps)"
  by (simp add: compute_signature_def)

text \<open>
  C31: a receiver that holds the secret accepts a payload of scalar fields under the signature made for another one
  exactly if the two have the same fields with the same values, in any order, and the received one is neither too old nor
  from the future: any change of any field is noticed.
\<close>

theorem webhook_accepted_iff:
  assumes "flat ps" "flat qs" "hook_laws lib secret ps qs"
  shows "verify_webhook_signature lib secret max_age tol now (Some (sealed lib secret ps qs)) = Inr qs \<longleftrightarrow>
     map_of ps = map_of qs \<and>
     check_age_of_payload lib (case max_age of None \<Rightarrow> default_max_age_ms | Some m \<Rightarrow> m)
       (case tol of None \<Rightarrow> 0 | Some t \<Rightarrow> t) now qs = Inr ()"
proof -
  have d: "digest_text (hmac_hex lib secret (canonical_serialize ps))" "digest_text (hmac_hex lib secret (canonical_serialize qs))"
    using assms(3) by (simp_all add: hook_laws_def)
  have "hex_bytes (hmac_hex lib secret (canonical_serialize ps)) = hex_bytes (hmac_hex lib secret (canonical_serialize qs)) \<longleftrightarrow>
      map_of ps = map_of qs"
    using hex_bytes_inj d assms canonical_eq_iff by (metis hook_laws_def)
  then show ?thesis
    by (simp add: verify_webhook_signature_def sealed_fields [OF d(1)] computed_digest throw_if_def bind_result_unit_iff)
qed

definition toy_library :: hook_library where
  "toy_library = \<lparr>hmac_hex = (\<lambda>_ s. if length s < 40 then ''ab'' else ''cd''), date_ms = (\<lambda>_. Some 900)\<rparr>"

definition toy_payload :: "string \<Rightarrow> payload" where
  "toy_payload n = [(''timestamp'', JsonText ''t''), (''eventId'', JsonText n)]"

lemma toy_fits:
  "flat (toy_payload ''e1'')" "flat (rev (toy_payload ''e1''))"
  "hook_laws toy_library ''k'' (toy_payload ''e1'') (rev (toy_payload ''e1''))"
  by code_simp+

theorem webhook_accepted_iff_witness:
  "verify_webhook_signature toy_library ''k'' None None 1000
     (Some (sealed toy_library ''k'' (toy_payload ''e1'') (rev (toy_payload ''e1'')))) = Inr (rev (toy_payload ''e1''))"
  unfolding webhook_accepted_iff [OF toy_fits]
  by (auto simp: toy_payload_def toy_library_def check_age_of_payload_def falsy_json_def default_max_age_ms_def)

text \<open>A tolerance of the clocks widens the window towards the future and narrows it towards the past.\<close>

lemma tolerance_shortens_the_age:
  assumes "0 < max_age" "map_of ps ''timestamp'' = Some j" "\<not> falsy_json j" "date_ms lib j = Some t"
  shows "check_age_of_payload lib max_age tol now ps = Inr () \<longleftrightarrow> now - t \<le> max_age - tol \<and> t - now \<le> tol"
  using assms by (auto simp: check_age_of_payload_def)

text \<open>Text after a digest does not change what the signature is compared as.\<close>

lemma trailing_text_is_accepted:
  assumes "digest_text (hmac_hex lib secret (canonical_serialize qs))" "\<not> hex_char c"
  shows "verify_webhook_signature lib secret max_age tol now
       (Some ((sealed lib secret qs qs)\<lparr>env_signature := compute_signature lib secret qs @ c # r\<rparr>)) =
     verify_webhook_signature lib secret max_age tol now (Some (sealed lib secret qs qs))"
proof -
  have "check_envelope_fields (Some ((sealed lib secret qs qs)\<lparr>env_signature := compute_signature lib secret qs @ c # r\<rparr>)) =
      Inr (qs, hmac_hex lib secret (canonical_serialize qs) @ c # r)"
    by (simp add: check_envelope_fields_def sealed_def compute_signature_def signature_prefix_def is_prefix_iff Let_def)
  then show ?thesis
    using assms by (simp add: verify_webhook_signature_def sealed_fields computed_digest suffix_ignored digest_text_def)
qed

end
