(* ===== verification/JsonText.thy ===== *)
theory JsonText
  imports CanonicalJson
begin

text \<open>
  The texts of JSON values: what \<open>JSON.stringify(v, null, n)\<close> prints, what \<open>JSON.parse\<close> reads, and that it reads back
  what was printed. Characters are below 256 and numbers are integers: the text of another number, or an escape of
  another character, is read as \<open>None\<close> like one that is no JSON.
\<close>

section \<open>Printing\<close>

text \<open>\<open>gap\<close> is the indentation of a level; with none, everything is on one line.\<close>

definition new_line :: "string \<Rightarrow> nat \<Rightarrow> string" where
  "new_line gap d = (if gap = [] then [] else CHR 0x0A # concat (replicate d gap))"

definition bracketed :: "string \<Rightarrow> nat \<Rightarrow> char \<Rightarrow> char \<Rightarrow> string list \<Rightarrow> string" where
  "bracketed gap d opening closing items =
     (if items = [] then [opening, closing]
      else opening # commas (map (\<lambda>s. new_line gap (Suc d) @ s) items) @ new_line gap d @ [closing])"

definition colon :: "string \<Rightarrow> string" where
  "colon gap = (if gap = [] then '':'' else '': '')"

function print_json :: "string \<Rightarrow> nat \<Rightarrow> json \<Rightarrow> string" where
  "print_json gap d JsonNull = ''null''"
| "print_json gap d (JsonBool b) = (if b then ''true'' else ''false'')"
| "print_json gap d (JsonNumber n) = int_string n"
| "print_json gap d (JsonText s) = quote_text s"
| "print_json gap d (JsonArray js) = bracketed gap d (CHR ''['') (CHR '']'') (map (print_json gap (Suc d)) js)"
| "print_json gap d (JsonObject ps) =
     bracketed gap d (CHR ''{'') (CHR ''}'') (map (\<lambda>(k, j). quote_text k @ colon gap @ print_json gap (Suc d) j) ps)"
  by pat_completeness auto

termination
  by (relation "measure (\<lambda>(gap, d, j). size j)") (auto simp: less_Suc_eq_le intro: size_list_estimation')

section \<open>Reading\<close>

definition json_space :: "char \<Rightarrow> bool" where
  "json_space c \<longleftrightarrow> c = CHR 0x20 \<or> c = CHR 0x09 \<or> c = CHR 0x0A \<or> c = CHR 0x0D"

definition skip_space :: "string \<Rightarrow> string" where
  "skip_space s = dropWhile json_space s"

definition plain_escape :: "char \<Rightarrow> char option" where
  "plain_escape c =
     (if c = CHR 0x22 \<or> c = CHR 0x5C \<or> c = CHR ''/'' then Some c
      else if c = CHR ''b'' then Some (CHR 0x08) else if c = CHR ''f'' then Some (CHR 0x0C)
      else if c = CHR ''n'' then Some (CHR 0x0A) else if c = CHR ''r'' then Some (CHR 0x0D)
      else if c = CHR ''t'' then Some (CHR 0x09) else None)"

text \<open>A text after its opening quote\<close>

fun read_text :: "string \<Rightarrow> (string \<times> string) option" where
  "read_text [] = None"
| "read_text (c # s) =
     (if c = CHR 0x22 then Some ([], s)
      else if (of_char c :: nat) < 32 then None
      else if c \<noteq> CHR 0x5C then map_option (\<lambda>(t, r). (c # t, r)) (read_text s)
      else case s of
        [] \<Rightarrow> None
      | x # s1 \<Rightarrow>
          if x \<noteq> CHR ''u'' then
            (case plain_escape x of None \<Rightarrow> None | Some e \<Rightarrow> map_option (\<lambda>(t, r). (e # t, r)) (read_text s1))
          else case s1 of
            [] \<Rightarrow> None
          | d1 # s2 \<Rightarrow> (case s2 of
              [] \<Rightarrow> None
            | d2 # s3 \<Rightarrow> (case s3 of
                [] \<Rightarrow> None
              | d3 # s4 \<Rightarrow> (case s4 of
                  [] \<Rightarrow> None
                | d4 # s5 \<Rightarrow>
                    if d1 = CHR ''0'' \<and> d2 = CHR ''0'' \<and> digit_value d3 < 16 \<and> digit_value d4 < 16
                    then map_option (\<lambda>(t, r). (char_of (digit_value d3 * 16 + digit_value d4) # t, r)) (read_text s5)
                    else None))))"

text \<open>A sign and digits without a leading zero, and no fraction or exponent after them\<close>

definition read_number :: "string \<Rightarrow> (int \<times> string) option" where
  "read_number s =
     (let neg = (case s of c # _ \<Rightarrow> c = CHR ''-'' | [] \<Rightarrow> False);
          t = (if neg then tl s else s);
          ds = takeWhile is_digit t;
          r = dropWhile is_digit t;
          n = int (dec_value ds)
      in if ds = [] \<or> (hd ds = CHR ''0'' \<and> length ds \<noteq> 1) then None
         else if r \<noteq> [] \<and> (hd r = CHR ''.'' \<or> hd r = CHR ''e'' \<or> hd r = CHR ''E'') then None
         else Some (if neg then - n else n, r))"

definition read_word :: "string \<Rightarrow> json \<Rightarrow> string \<Rightarrow> (json \<times> string) option" where
  "read_word w j s = (if is_prefix w s then Some (j, drop (length w) s) else None)"

text \<open>A member stored again keeps its place and takes the later value.\<close>

definition json_object :: "(string \<times> json) list \<Rightarrow> json" where
  "json_object ps = JsonObject (fold (\<lambda>(k, j) d. dict_put k j d) ps [])"

text \<open>The first argument bounds the calls; more than twice the length of the text is always enough (\<open>fuel_suffices\<close>).\<close>

fun read_value :: "nat \<Rightarrow> string \<Rightarrow> (json \<times> string) option"
  and read_elements :: "nat \<Rightarrow> string \<Rightarrow> (json list \<times> string) option"
  and read_members :: "nat \<Rightarrow> string \<Rightarrow> ((string \<times> json) list \<times> string) option" where
  "read_value 0 s = None"
| "read_value (Suc n) s =
     (case skip_space s of
        [] \<Rightarrow> None
      | c # r \<Rightarrow>
          if c = CHR ''n'' then read_word ''null'' JsonNull (c # r)
          else if c = CHR ''t'' then read_word ''true'' (JsonBool True) (c # r)
          else if c = CHR ''f'' then read_word ''false'' (JsonBool False) (c # r)
          else if c = CHR 0x22 then map_option (\<lambda>(t, r'). (JsonText t, r')) (read_text r)
          else if c = CHR ''['' then
            (if is_prefix '']'' (skip_space r) then Some (JsonArray [], tl (skip_space r))
             else map_option (\<lambda>(js, r'). (JsonArray js, r')) (read_elements n r))
          else if c = CHR ''{'' then
            (if is_prefix ''}'' (skip_space r) then Some (JsonObject [], tl (skip_space r))
             else map_option (\<lambda>(ps, r'). (json_object ps, r')) (read_members n r))
          else map_option (\<lambda>(k, r'). (JsonNumber k, r')) (read_number (c # r)))"
| "read_elements 0 s = None"
| "read_elements (Suc n) s =
     (case read_value n s of
        None \<Rightarrow> None
      | Some (j, r) \<Rightarrow>
          (case skip_space r of
             [] \<Rightarrow> None
           | c # r' \<Rightarrow>
               if c = CHR '','' then map_option (\<lambda>(js, r''). (j # js, r'')) (read_elements n r')
               else if c = CHR '']'' then Some ([j], r') else None))"
| "read_members 0 s = None"
| "read_members (Suc n) s =
     (case skip_space s of
        [] \<Rightarrow> None
      | q # r \<Rightarrow>
          if q \<noteq> CHR 0x22 then None
          else case read_text r of
            None \<Rightarrow> None
          | Some (k, r1) \<Rightarrow>
              if \<not> is_prefix '':'' (skip_space r1) then None
              else case read_value n (tl (skip_space r1)) of
                None \<Rightarrow> None
              | Some (j, r2) \<Rightarrow>
                  (case skip_space r2 of
                     [] \<Rightarrow> None
                   | c # r3 \<Rightarrow>
                       if c = CHR '','' then map_option (\<lambda>(ps, r'). ((k, j) # ps, r')) (read_members n r3)
                       else if c = CHR ''}'' then Some ([(k, j)], r3) else None))"

definition parse_json :: "string \<Rightarrow> json option" where
  "parse_json s =
     (case read_value (Suc (2 * length s)) s of
        None \<Rightarrow> None
      | Some (j, r) \<Rightarrow> if skip_space r = [] then Some j else None)"


section \<open>Reading texts and numbers that were printed\<close>

lemma read_escape: "read_text (escape_char c @ w) = map_option (\<lambda>(t, r). (c # t, r)) (read_text w)"
proof (cases "c \<in> {CHR 0x22, CHR 0x5C, CHR 0x08, CHR 0x0C, CHR 0x0A, CHR 0x0D, CHR 0x09}")
  case True
  then show ?thesis by (auto simp: escape_char_def plain_escape_def)
next
  case other: False
  show ?thesis
  proof (cases "(of_char c :: nat) < 32")
    case True
    let ?x = "digit_char (of_char c div 16)" and ?y = "digit_char (of_char c mod 16)"
    have digits: "digit_value ?x = of_char c div 16" "digit_value ?y = of_char c mod 16"
      using True by (simp_all add: digit_value_char)
    have "digit_value ?x < 16" "digit_value ?y < 16" using True by (simp_all add: digits)
    moreover have "char_of (digit_value ?x * 16 + digit_value ?y) = c" by (simp add: digits)
    moreover have "escape_char c = [CHR 0x5C, CHR ''u'', CHR ''0'', CHR ''0'', ?x, ?y]"
      using other True by (simp add: escape_char_def Let_def)
    ultimately show ?thesis by simp
  next
    case False
    with other show ?thesis by (auto simp: escape_char_def Let_def)
  qed
qed

lemma read_quoted: "read_text (concat (map escape_char s) @ CHR 0x22 # u) = Some (s, u)"
  by (induction s) (simp_all add: read_escape del: read_text.simps(2), simp)

definition ends_number :: "string \<Rightarrow> bool" where
  "ends_number u \<longleftrightarrow> u = [] \<or> \<not> is_digit (hd u) \<and> hd u \<notin> {CHR ''.'', CHR ''e'', CHR ''E''}"

lemma radix_hd: "2 \<le> b \<Longrightarrow> b \<le> 36 \<Longrightarrow> n \<noteq> 0 \<Longrightarrow> hd (radix_string b n) \<noteq> CHR ''0''"
proof (induction b n rule: radix_string.induct)
  case (1 b n)
  show ?case
  proof (cases "n < b")
    case True
    then have "digit_value (digit_char n) = n" using 1 by (simp add: digit_value_char)
    then have "digit_char n \<noteq> CHR ''0''" using 1 by (metis digit_value_0_iff digit_char_0)
    then show ?thesis using True 1 by (simp add: radix_string.simps [of b n])
  next
    case False
    then have "n div b \<noteq> 0" using 1 by (simp add: div_eq_0_iff)
    then show ?thesis using False 1 by (simp add: radix_string.simps [of b n])
  qed
qed

lemma read_digits:
  assumes "ends_number u"
  shows "takeWhile is_digit (dec_string n @ u) = dec_string n" "dropWhile is_digit (dec_string n @ u) = u"
proof -
  have "takeWhile is_digit u = []" "dropWhile is_digit u = u" using assms by (cases u; simp add: ends_number_def)+
  then show "takeWhile is_digit (dec_string n @ u) = dec_string n" "dropWhile is_digit (dec_string n @ u) = u"
    using dec_string_digits [of n] by (simp_all add: takeWhile_append2 dropWhile_append2)
qed

lemma leading_zero: "hd (dec_string n) = CHR ''0'' \<Longrightarrow> length (dec_string n) = 1"
  using radix_hd [of 10 n] by (cases "n = 0") (simp_all add: radix_string.simps)

lemma no_sign: "hd (dec_string n @ u) \<noteq> CHR ''-''"
  using dec_string_digits [of n] not_digit_chars(2) by (metis hd_append2 hd_in_set radix_string_nonempty)

lemma read_printed_number: "ends_number u \<Longrightarrow> read_number (int_string n @ u) = Some (n, u)"
proof (cases "n < 0")
  case True
  assume u: "ends_number u"
  have "int_string n @ u = CHR ''-'' # dec_string (nat (- n)) @ u" using True by (simp add: int_string_def)
  then show ?thesis using True u leading_zero [of "nat (- n)"]
    by (auto simp: read_number_def Let_def read_digits ends_number_def)
next
  case False
  assume u: "ends_number u"
  have s: "int_string n @ u = dec_string (nat n) @ u" using False by (simp add: int_string_def)
  moreover have "(case dec_string (nat n) @ u of [] \<Rightarrow> False | c # x \<Rightarrow> c = CHR ''-'') = False"
    using no_sign [of "nat n" u] by (cases "dec_string (nat n) @ u") simp_all
  ultimately show ?thesis using False u leading_zero [of "nat n"]
    by (auto simp: read_number_def Let_def read_digits ends_number_def)
qed


section \<open>Reading values that were printed\<close>

function json_ok :: "json \<Rightarrow> bool" where
  "json_ok (JsonObject ps) \<longleftrightarrow> distinct (map fst ps) \<and> list_all (\<lambda>p. json_ok (snd p)) ps"
| "json_ok (JsonArray js) \<longleftrightarrow> list_all json_ok js"
| "json_ok JsonNull = True"
| "json_ok (JsonBool b) = True"
| "json_ok (JsonNumber n) = True"
| "json_ok (JsonText s) = True"
  by pat_completeness auto

termination
  by (relation "measure size") (auto simp: less_Suc_eq_le intro: size_list_estimation')

lemma skip_spaces [simp]: "list_all json_space w \<Longrightarrow> skip_space (w @ s) = skip_space s"
  by (induction w) (simp_all add: skip_space_def)

lemma skip_none: "\<not> json_space c \<Longrightarrow> skip_space (c # s) = c # s"
  by (simp add: skip_space_def)

lemma separators [simp]:
  "\<not> json_space (CHR '','')" "\<not> json_space (CHR '']'')" "\<not> json_space (CHR ''}'')" "\<not> json_space (CHR '':'')"
  "\<not> json_space (CHR 0x22)" "\<not> json_space (CHR ''['')" "\<not> json_space (CHR ''{'')"
  "\<not> json_space (CHR ''n'')" "\<not> json_space (CHR ''t'')" "\<not> json_space (CHR ''f'')"
  by (simp_all add: json_space_def)

lemma read_value_skips [simp]: "list_all json_space w \<Longrightarrow> read_value n (w @ s) = read_value n s"
  by (cases n) simp_all

lemma read_members_skips [simp]: "list_all json_space w \<Longrightarrow> read_members n (w @ s) = read_members n s"
  by (cases n) simp_all

lemma new_line_spaces [simp]: "list_all json_space gap \<Longrightarrow> list_all json_space (new_line gap d)"
  by (auto simp: new_line_def list_all_iff json_space_def)

lemma ends_after_spaces:
  assumes "list_all json_space w" "c \<in> {CHR '','', CHR '']'', CHR ''}''}"
  shows "ends_number (w @ c # u)"
proof (cases w)
  case Nil
  then show ?thesis using assms(2) by (auto simp: ends_number_def is_digit_iff)
next
  case (Cons a v)
  then show ?thesis using assms(1) by (auto simp: ends_number_def is_digit_iff json_space_def)
qed

lemma elements_read:
  assumes "\<And>j n u. j \<in> set js \<Longrightarrow> length (f j) < n \<Longrightarrow> ends_number u \<Longrightarrow> read_value n (f j @ u) = Some (j, u)"
    and "list_all json_space nl" "list_all json_space nl'" "js \<noteq> []"
    and "length (commas (map (\<lambda>j. nl @ f j) js)) + 1 < n"
  shows "read_elements n (commas (map (\<lambda>j. nl @ f j) js) @ nl' @ CHR '']'' # u) = Some (js, u)"
  using assms(1,4,5)
proof (induction js arbitrary: n)
  case (Cons j js)
  obtain m where n: "n = Suc m" using Cons.prems(3) by (cases n) auto
  show ?case
  proof (cases js)
    case Nil
    have "read_value m (f j @ nl' @ CHR '']'' # u) = Some (j, nl' @ CHR '']'' # u)"
      using Cons.prems(1) [of j] Cons.prems(3) assms(3) by (simp add: n Nil ends_after_spaces)
    then show ?thesis using assms(2,3) by (simp add: n Nil skip_none)
  next
    case (Cons k ks)
    let ?rest = "commas (map (\<lambda>j. nl @ f j) js) @ nl' @ CHR '']'' # u"
    have "length (commas (map (\<lambda>j. nl @ f j) js)) + 1 < m" using Cons.prems(3) by (simp add: n Cons)
    then have "read_elements m ?rest = Some (js, u)"
      using Cons.IH [of m] Cons.prems(1) by (simp add: Cons)
    moreover have "read_value m (f j @ CHR '','' # ?rest) = Some (j, CHR '','' # ?rest)"
      using Cons.prems(1) [of j] Cons.prems(3) ends_after_spaces [of "[]"] by (simp add: n Cons)
    ultimately show ?thesis using assms(2) by (simp add: n Cons skip_none)
  qed
qed simp

lemma quoted_key: "quote_text k @ s = CHR 0x22 # concat (map escape_char k) @ CHR 0x22 # s"
  by (simp add: quote_text_def)

lemma quoted_start: "\<exists>c r. quote_text k @ s = c # r \<and> \<not> json_space c \<and> c \<noteq> CHR ''}''"
proof (intro exI conjI)
  show "quote_text k @ s = CHR 0x22 # (concat (map escape_char k) @ CHR 0x22 # s)" by (rule quoted_key)
qed simp_all

lemma members_read:
  assumes "\<And>k j n u. (k, j) \<in> set ps \<Longrightarrow> length (f j) < n \<Longrightarrow> ends_number u \<Longrightarrow> read_value n (f j @ u) = Some (j, u)"
    and "list_all json_space nl" "list_all json_space nl'" "list_all json_space sp" "ps \<noteq> []"
    and "length (commas (map (\<lambda>(k, j). nl @ quote_text k @ CHR '':'' # sp @ f j) ps)) + 1 < n"
  shows "read_members n (commas (map (\<lambda>(k, j). nl @ quote_text k @ CHR '':'' # sp @ f j) ps) @ nl' @ CHR ''}'' # u) = Some (ps, u)"
  using assms(1,5,6)
proof (induction ps arbitrary: n)
  case (Cons p ps)
  obtain k j where p: "p = (k, j)" by (cases p)
  obtain m where n: "n = Suc m" using Cons.prems(3) by (cases n) auto
  show ?case
  proof (cases ps)
    case Nil
    have "read_value m (f j @ nl' @ CHR ''}'' # u) = Some (j, nl' @ CHR ''}'' # u)"
      using Cons.prems(1) [of k j] Cons.prems(3) assms(3) by (simp add: n Nil p ends_after_spaces)
    then show ?thesis using assms(2-4) by (simp add: n Nil p quoted_key read_quoted skip_none)
  next
    case (Cons q qs)
    let ?rest = "commas (map (\<lambda>(k, j). nl @ quote_text k @ CHR '':'' # sp @ f j) ps) @ nl' @ CHR ''}'' # u"
    have "length (commas (map (\<lambda>(k, j). nl @ quote_text k @ CHR '':'' # sp @ f j) ps)) + 1 < m"
      using Cons.prems(3) by (simp add: n p Cons)
    moreover have "read_value n (f j @ u) = Some (j, u)" if "(k, j) \<in> set ps" "length (f j) < n" "ends_number u" for k j n u
      using Cons.prems(1) [of k j n u] that by simp
    ultimately have "read_members m ?rest = Some (ps, u)"
      using Cons.IH [of m] Cons by blast
    moreover have "read_value m (f j @ CHR '','' # ?rest) = Some (j, CHR '','' # ?rest)"
      using Cons.prems(1) [of k j] Cons.prems(3) ends_after_spaces [of "[]"] by (simp add: n p Cons)
    ultimately show ?thesis using assms(2,4) by (simp add: n p Cons quoted_key read_quoted skip_none)
  qed
qed simp


lemma value_start: "\<exists>c s. print_json gap d j = c # s \<and> \<not> json_space c \<and> c \<noteq> CHR '']'' \<and> c \<noteq> CHR ''}''"
proof (cases j)
  case (JsonNumber n)
  obtain c s where c: "int_string n = c # s" using int_string_nonempty by (cases "int_string n") auto
  then have "is_digit c \<or> c = CHR ''-''" using int_string_chars [of c n] by simp
  then show ?thesis using c JsonNumber by (auto simp: json_space_def is_digit_iff)
qed (auto simp: quote_text_def bracketed_def)

lemma read_printed_digits:
  assumes "ends_number u"
  shows "read_value (Suc n) (int_string k @ u) = Some (JsonNumber k, u)"
proof -
  obtain c s where c: "int_string k = c # s" using int_string_nonempty by (cases "int_string k") auto
  then have d: "is_digit c \<or> c = CHR ''-''" using int_string_chars [of c k] by simp
  then have "\<not> json_space c" "c \<notin> {CHR ''n'', CHR ''t'', CHR ''f'', CHR 0x22, CHR ''['', CHR ''{''}"
    by (auto simp: json_space_def is_digit_iff)
  then show ?thesis using read_printed_number [OF assms, of k] by (simp add: c skip_none)
qed

lemma stored_members: "distinct (map fst ps) \<Longrightarrow> fold (\<lambda>(k, j) d. dict_put k j d) ps [] = ps"
proof (induction ps rule: rev_induct)
  case (snoc p ps)
  obtain k j where p: "p = (k, j)" by (cases p)
  have "dict_put k j ds = ds @ [(k, j)]" if "k \<notin> fst ` set ds" for ds
    using that by (induction ds) auto
  then show ?case using snoc by (simp add: p)
qed simp

lemma object_of_members: "distinct (map fst ps) \<Longrightarrow> json_object ps = JsonObject ps"
  by (simp add: json_object_def stored_members)

lemma printed_list:
  "bracketed gap d a b items =
     (if items = [] then [a, b]
      else a # commas (map (\<lambda>s. new_line gap (Suc d) @ s) items) @ new_line gap d @ [b])"
  by (simp add: bracketed_def)

lemma first_of_items:
  assumes "list_all json_space nl" "items \<noteq> []" "\<forall>s \<in> set items. \<exists>c r. s = c # r \<and> \<not> json_space c \<and> c \<noteq> b"
  shows "\<not> is_prefix [b] (skip_space (commas (map (\<lambda>s. nl @ s) items) @ w))"
proof -
  obtain c r is' where items: "items = (c # r) # is'" and c: "\<not> json_space c" "c \<noteq> b"
    using assms(2,3) by (cases items) auto
  have "commas (map (\<lambda>s. nl @ s) items) @ w = nl @ c # (r @ concat (map ((\<lambda>t. CHR '','' # t) \<circ> (\<lambda>s. nl @ s)) is') @ w)"
    by (simp add: items commas_Cons)
  then show ?thesis using assms(1) c by (simp add: skip_none)
qed

lemma value_read:
  assumes "list_all json_space gap"
  shows "json_ok j \<Longrightarrow> length (print_json gap d j) < n \<Longrightarrow> ends_number u \<Longrightarrow> read_value n (print_json gap d j @ u) = Some (j, u)"
  using assms
proof (induction gap d j arbitrary: n u rule: print_json.induct)
  case (5 gap d js)
  obtain m where n: "n = Suc m" using "5.prems"(2) by (cases n) auto
  show ?case
  proof (cases "js = []")
    case True
    then show ?thesis by (simp add: n printed_list skip_none)
  next
    case False
    let ?nl = "new_line gap (Suc d)" and ?f = "print_json gap (Suc d)"
    have items: "print_json gap d (JsonArray js) = CHR ''['' # commas (map (\<lambda>j. ?nl @ ?f j) js) @ new_line gap d @ [CHR '']'']"
      using False by (simp add: printed_list comp_def)
    have "read_value k (?f j @ w) = Some (j, w)" if "j \<in> set js" "length (?f j) < k" "ends_number w" for j k w
      using "5.IH" [OF that(1)] "5.prems"(1,4) that by (simp add: list_all_iff)
    moreover have "length (commas (map (\<lambda>j. ?nl @ ?f j) js)) + 1 < m" using "5.prems"(2) unfolding items by (simp add: n)
    ultimately have "read_elements m (commas (map (\<lambda>j. ?nl @ ?f j) js) @ new_line gap d @ CHR '']'' # u) = Some (js, u)"
      using "5.prems"(4) False by (intro elements_read) simp_all
    moreover have starts: "\<exists>c r. ?f j = c # r \<and> \<not> json_space c \<and> c \<noteq> CHR '']''" for j
      using value_start [of gap "Suc d" j] by blast
    have "\<not> is_prefix '']'' (skip_space (commas (map (\<lambda>s. ?nl @ s) (map ?f js)) @ new_line gap d @ CHR '']'' # u))"
      using "5.prems"(4) False starts by (intro first_of_items) auto
    ultimately show ?thesis unfolding items by (simp add: n skip_none comp_def)
  qed
next
  case (6 gap d ps)
  obtain m where n: "n = Suc m" using "6.prems"(2) by (cases n) auto
  show ?case
  proof (cases "ps = []")
    case True
    then show ?thesis by (simp add: n printed_list skip_none)
  next
    case False
    let ?nl = "new_line gap (Suc d)" and ?f = "print_json gap (Suc d)"
    obtain sp where col: "colon gap = CHR '':'' # sp" "list_all json_space sp"
      by (cases "gap = []") (simp_all add: colon_def json_space_def)
    have items: "print_json gap d (JsonObject ps) =
        CHR ''{'' # commas (map (\<lambda>(k, j). ?nl @ quote_text k @ CHR '':'' # sp @ ?f j) ps) @ new_line gap d @ [CHR ''}'']"
      using False by (subst print_json.simps) (simp add: printed_list comp_def case_prod_unfold col)
    have "read_value k (?f j @ w) = Some (j, w)" if "(a, j) \<in> set ps" "length (?f j) < k" "ends_number w" for a j k w
      using "6.IH" [OF that(1) refl] "6.prems"(1,4) that by (auto simp: list_all_iff)
    moreover have "length (commas (map (\<lambda>(k, j). ?nl @ quote_text k @ CHR '':'' # sp @ ?f j) ps)) + 1 < m"
      using "6.prems"(2) unfolding items by (simp add: n)
    ultimately have read: "read_members m (commas (map (\<lambda>(k, j). ?nl @ quote_text k @ CHR '':'' # sp @ ?f j) ps) @
        new_line gap d @ CHR ''}'' # u) = Some (ps, u)"
      using "6.prems"(4) False col(2) by (intro members_read) simp_all
    have "\<not> is_prefix ''}'' (skip_space (commas (map (\<lambda>s. ?nl @ s) (map (\<lambda>(k, j). quote_text k @ CHR '':'' # sp @ ?f j) ps)) @
        new_line gap d @ CHR ''}'' # u))"
    proof (rule first_of_items)
      show "\<forall>s \<in> set (map (\<lambda>(k, j). quote_text k @ CHR '':'' # sp @ ?f j) ps). \<exists>c r. s = c # r \<and> \<not> json_space c \<and> c \<noteq> CHR ''}''"
        using quoted_start by (simp add: case_prod_unfold)
    qed (use "6.prems"(4) False in simp_all)
    with read "6.prems"(1) show ?thesis unfolding items
      by (simp add: n skip_none comp_def case_prod_unfold object_of_members)
  qed
next
  case (1 gap d)
  then show ?case by (cases n) (simp_all add: skip_none read_word_def)
next
  case (2 gap d b)
  then show ?case by (cases n) (auto simp: skip_none read_word_def)
next
  case (3 gap d k)
  then show ?case by (cases n) (simp_all add: read_printed_digits del: read_value.simps)
next
  case (4 gap d s)
  then show ?case by (cases n) (simp_all add: skip_none quoted_key read_quoted)
qed


lemma print_compact: "print_json [] d j = stringify_json j"
proof (induction "[] :: string" d j rule: print_json.induct)
  case (5 d js)
  then have "map (print_json [] (Suc d)) js = map stringify_json js" by simp
  then show ?case by (simp only: print_json.simps stringify_json.simps) (simp add: bracketed_def new_line_def)
next
  case (6 d ps)
  then have "map (\<lambda>(k, j). quote_text k @ colon [] @ print_json [] (Suc d) j) ps =
      map (\<lambda>(k, j). quote_text k @ '':'' @ stringify_json j) ps"
    by (auto simp: colon_def)
  then show ?case by (simp only: print_json.simps stringify_json.simps) (simp add: bracketed_def new_line_def)
qed simp_all

lemma parse_printed:
  assumes "list_all json_space gap" "json_ok j"
  shows "parse_json (print_json gap d j) = Some j"
  using value_read [OF assms, of d "Suc (2 * length (print_json gap d j))" "[]"]
  by (simp add: parse_json_def ends_number_def skip_space_def)

lemmas parse_stringified = parse_printed [of "[]", unfolded print_compact, simplified]

section \<open>The bound of the calls\<close>

lemma skip_shrinks: "skip_space s = c # r \<Longrightarrow> length r < length s"
  by (metis length_Cons length_dropWhile_le less_eq_Suc_le skip_space_def)

lemma read_text_shrinks: "read_text s = Some (t, r) \<Longrightarrow> length r < length s"
proof (induction s arbitrary: t r rule: read_text.induct)
  case (2 c s)
  then show ?case by (fastforce split: if_splits list.splits option.splits)
qed simp

lemma read_number_shrinks: "read_number s = Some (k, r) \<Longrightarrow> length r < length s"
proof -
  assume read: "read_number s = Some (k, r)"
  define t where "t = (if (case s of c # _ \<Rightarrow> c = CHR ''-'' | [] \<Rightarrow> False) then tl s else s)"
  from read have r: "r = dropWhile is_digit t" and d: "takeWhile is_digit t \<noteq> []"
    by (auto simp: read_number_def Let_def t_def split: if_splits)
  have "length (takeWhile is_digit t) + length r = length t"
    unfolding r by (metis length_append takeWhile_dropWhile_id)
  moreover have "length t \<le> length s" by (simp add: t_def)
  ultimately show "length r < length s" using d by (cases "takeWhile is_digit t") simp_all
qed

lemma read_word_shrinks: "read_word w j s = Some (k, r) \<Longrightarrow> w \<noteq> [] \<Longrightarrow> length r < length s"
  by (auto simp: read_word_def is_prefix_iff split: if_splits)


lemma values_shrink:
  "read_value n s = Some (j, r) \<Longrightarrow> length r < length s"
  "read_elements n s = Some (js, r) \<Longrightarrow> length r < length s"
  "read_members n s = Some (ps, r) \<Longrightarrow> length r < length s"
proof (induction n s and n s and n s arbitrary: j r and js r and ps r rule: read_value_read_elements_read_members.induct)
  case (2 n s)
  then obtain c t where s: "skip_space s = c # t" by (cases "skip_space s") auto
  have skip: "length (tl (skip_space t)) \<le> length t" by (metis diff_le_self dual_order.trans length_dropWhile_le length_tl skip_space_def)
  have "length r < length (c # t)"
    using 2 s skip read_text_shrinks [of t] read_word_shrinks [of _ _ "c # t" j r] read_number_shrinks [of "c # t"]
    by (auto split: if_splits simp: less_Suc_eq)
  then show ?case using skip_shrinks [OF s] by simp
next
  case (4 n s)
  then obtain j' r1 where 1: "read_value n s = Some (j', r1)" by (cases "read_value n s") auto
  then obtain c r' where c: "skip_space r1 = c # r'" using 4 by (cases "skip_space r1") auto
  have "length r' < length s" using "4.IH"(1) [OF 1] skip_shrinks [OF c] by simp
  moreover have "length r \<le> length r'"
    using 4 1 c by (auto split: if_splits intro!: less_imp_le)
  ultimately show ?case by simp
next
  case (6 n s)
  then obtain q t where s: "skip_space s = q # t" by (cases "skip_space s") auto
  with 6 obtain k r1 where k: "q = CHR 0x22" "read_text t = Some (k, r1)" by (auto split: if_splits option.splits)
  with 6 s obtain j' r2 where j: "is_prefix '':'' (skip_space r1)" "read_value n (tl (skip_space r1)) = Some (j', r2)"
    by (auto split: if_splits option.splits)
  with 6 s k obtain c r3 where c: "skip_space r2 = c # r3" by (cases "skip_space r2") auto
  have "length (tl (skip_space r1)) \<le> length r1" by (metis diff_le_self dual_order.trans length_dropWhile_le length_tl skip_space_def)
  then have "length r3 < length s"
    using "6.IH"(1) [OF s _ k(2) _ _ j(2)] skip_shrinks [OF c] skip_shrinks [OF s] read_text_shrinks [OF k(2)] k j by simp
  moreover have "length r \<le> length r3"
    using 6 s k j c by (auto split: if_splits intro!: less_imp_le)
  ultimately show ?case by simp
qed simp_all


lemma option_bind_cong2: "x = y \<Longrightarrow> (\<And>a b. y = Some (a, b) \<Longrightarrow> f a b = g a b) \<Longrightarrow>
    (case x of None \<Rightarrow> None | Some (a, b) \<Rightarrow> f a b) = (case y of None \<Rightarrow> None | Some (a, b) \<Rightarrow> g a b)"
  by (cases y) auto

lemma fuel_suffices:
  "2 * length s < n \<Longrightarrow> 2 * length s < m \<Longrightarrow> read_value n s = read_value m s"
  "2 * length s + 1 < n \<Longrightarrow> 2 * length s + 1 < m \<Longrightarrow> read_elements n s = read_elements m s"
  "2 * length s + 1 < n \<Longrightarrow> 2 * length s + 1 < m \<Longrightarrow> read_members n s = read_members m s"
proof (induction n s and n s and n s arbitrary: m and m and m rule: read_value_read_elements_read_members.induct)
  case (2 n s)
  obtain m' where m: "m = Suc m'" using "2.prems" by (cases m) auto
  show ?case
  proof (cases "skip_space s")
    case (Cons c t)
    then have short: "2 * length t + 1 < n" "2 * length t + 1 < m'" using "2.prems" m skip_shrinks [OF Cons] by auto
    have "read_elements n t = read_elements m' t" if "c = CHR ''[''" "\<not> is_prefix '']'' (skip_space t)"
      by (rule "2.IH"(1) [OF Cons]) (use that short in simp_all)
    moreover have "read_members n t = read_members m' t" if "c = CHR ''{''" "\<not> is_prefix ''}'' (skip_space t)"
      by (rule "2.IH"(2) [OF Cons]) (use that short in simp_all)
    ultimately show ?thesis by (simp add: Cons m)
  qed (simp add: m)
next
  case (4 n s)
  obtain m' where m: "m = Suc m'" using "4.prems" by (cases m) auto
  have "read_value n s = read_value m' s" by (rule "4.IH"(1)) (use "4.prems" m in linarith)+
  moreover have "read_elements n r' = read_elements m' r'"
    if "read_value n s = Some (j, r)" "skip_space r = c # r'" "c = CHR '',''" for j r c r'
    using values_shrink(1) [OF that(1)] skip_shrinks [OF that(2)] "4.prems" m
    by (intro "4.IH"(2) [OF that(1) refl that(2,3)]) linarith+
  ultimately show ?case unfolding m read_elements.simps by (auto intro!: option_bind_cong2 split: list.splits)
next
  case (6 n s)
  obtain m' where m: "m = Suc m'" using "6.prems" by (cases m) auto
  show ?case
  proof (cases "skip_space s")
    case s: (Cons q t)
    show ?thesis
    proof (cases "q = CHR 0x22 \<and> (\<exists>k r1. read_text t = Some (k, r1) \<and> is_prefix '':'' (skip_space r1))")
      case True
      then obtain k r1 where k: "q = CHR 0x22" "read_text t = Some (k, r1)" "is_prefix '':'' (skip_space r1)" by auto
      let ?v = "tl (skip_space r1)"
      have "length ?v \<le> length r1" by (metis diff_le_self dual_order.trans length_dropWhile_le length_tl skip_space_def)
      then have short: "length ?v + 1 < length s" using skip_shrinks [OF s] read_text_shrinks [OF k(2)] by simp
      have q: "\<not> q \<noteq> CHR 0x22" "\<not> \<not> is_prefix '':'' (skip_space r1)" using k by simp_all
      have "2 * length ?v < n" "2 * length ?v < m'" using short "6.prems" m by linarith+
      then have "read_value n ?v = read_value m' ?v" by (rule "6.IH"(1) [OF s q(1) k(2) refl q(2)])
      moreover have "read_members n r3 = read_members m' r3"
        if "read_value n ?v = Some (j, r2)" "skip_space r2 = c # r3" "c = CHR '',''" for j r2 c r3
      proof -
        have "2 * length r3 + 1 < n" "2 * length r3 + 1 < m'"
          using short "6.prems" m values_shrink(1) [OF that(1)] skip_shrinks [OF that(2)] by linarith+
        then show ?thesis by (rule "6.IH"(2) [OF s q(1) k(2) refl q(2) that(1) refl that(2,3)])
      qed
      ultimately show ?thesis unfolding m read_members.simps s k by (auto intro!: option_bind_cong2 simp: k split: list.splits)
    qed (use s m in \<open>auto split: option.splits\<close>)
  qed (simp add: m)
qed simp_all

end
