(* ===== verification/PayrollDrafts.thy ===== *)
theory PayrollDrafts
  imports JsonText "HOL-Library.Word"
begin

text \<open>
  Drafts of a payroll (\<open>packages/core/src/draft/\<close>): the builder that composes and checks one, its export to a text with a
  checksum and the import of such a text, and the checksum of its canonical text. Times are the texts
  \<open>toISOString\<close> gives, passed in. An entry has its fields in the order of its interface, and no asset is an array
  index or the name of a member every object inherits.
\<close>

section \<open>The builder\<close>

record draft_entry =
  de_recipient_id :: string
  de_amount :: string
  de_asset :: string
  de_note :: "string option"

record payroll_draft =
  pd_version :: int
  pd_created_at :: string
  pd_updated_at :: string
  pd_label :: "string option"
  pd_entries :: "draft_entry list"

datatype draft_error =
  EmptyDraft | InvalidRecipient nat | DuplicateRecipient nat nat | InvalidAmount nat | MissingAsset nat

datatype draft_warning = EmptyNote nat | MixedAssets "string list" | LargeDraft nat

record draft_builder =
  db_entries :: "draft_entry list"
  db_created_at :: string
  db_label :: "string option"

definition new_builder :: "string \<Rightarrow> payroll_draft option \<Rightarrow> string option \<Rightarrow> draft_builder" where
  "new_builder now initial label =
     (case initial of
        None \<Rightarrow> \<lparr>db_entries = [], db_created_at = now, db_label = label\<rparr>
      | Some d \<Rightarrow>
          \<lparr>db_entries = pd_entries d, db_created_at = pd_created_at d,
           db_label = (case pd_label d of None \<Rightarrow> label | Some l \<Rightarrow> Some l)\<rparr>)"

definition add_entry :: "draft_entry \<Rightarrow> draft_builder \<Rightarrow> draft_builder" where
  "add_entry e b = b\<lparr>db_entries := db_entries b @ [e]\<rparr>"

definition add_many :: "draft_entry list \<Rightarrow> draft_builder \<Rightarrow> draft_builder" where
  "add_many es b = fold add_entry es b"

datatype draft_range_error = IndexOutOfBounds

definition assert_index :: "jsnum \<Rightarrow> draft_builder \<Rightarrow> (draft_range_error, nat) result" where
  "assert_index index b =
     (case index of
        NonInteger \<Rightarrow> Inl IndexOutOfBounds
      | Whole i \<Rightarrow> if i < 0 \<or> int (length (db_entries b)) \<le> i then Inl IndexOutOfBounds else Inr (nat i))"

definition update_entry :: "jsnum \<Rightarrow> draft_entry \<Rightarrow> draft_builder \<Rightarrow> (draft_range_error, draft_builder) result" where
  "update_entry index e b = bind_result (assert_index index b) (\<lambda>i. Inr (b\<lparr>db_entries := (db_entries b)[i := e]\<rparr>))"

definition remove_entry :: "jsnum \<Rightarrow> draft_builder \<Rightarrow> (draft_range_error, draft_builder) result" where
  "remove_entry index b =
     bind_result (assert_index index b) (\<lambda>i. Inr (b\<lparr>db_entries := take i (db_entries b) @ drop (Suc i) (db_entries b)\<rparr>))"

definition clear_entries :: "draft_builder \<Rightarrow> draft_builder" where
  "clear_entries b = b\<lparr>db_entries := []\<rparr>"

definition set_label :: "string option \<Rightarrow> draft_builder \<Rightarrow> draft_builder" where
  "set_label l b = b\<lparr>db_label := l\<rparr>"

text \<open>\<open>BigInt\<close> of the text of an amount, which stays 0 where it throws\<close>

definition amount_or_zero :: "string \<Rightarrow> int" where
  "amount_or_zero s = (case js_bigint (if s = [] then ''0'' else s) of None \<Rightarrow> 0 | Some v \<Rightarrow> v)"

definition amount_invalid :: "string \<Rightarrow> bool" where
  "amount_invalid s \<longleftrightarrow> blank s \<or> amount_or_zero s \<le> 0"

definition add_new :: "'a \<Rightarrow> 'a list \<Rightarrow> 'a list" where
  "add_new x xs = (if x \<in> set xs then xs else xs @ [x])"

record check_state =
  cs_errors :: "draft_error list"
  cs_warnings :: "draft_warning list"
  cs_seen :: "(string, nat) dict"
  cs_assets :: "string list"

definition check_recipient :: "nat \<Rightarrow> draft_entry \<Rightarrow> check_state \<Rightarrow> check_state" where
  "check_recipient i e s =
     (if blank (de_recipient_id e) then s\<lparr>cs_errors := cs_errors s @ [InvalidRecipient i]\<rparr>
      else case dict_get (cs_seen s) (de_recipient_id e) of
        Some j \<Rightarrow> s\<lparr>cs_errors := cs_errors s @ [DuplicateRecipient j i]\<rparr>
      | None \<Rightarrow> s\<lparr>cs_seen := dict_put (de_recipient_id e) i (cs_seen s)\<rparr>)"

definition check_amount :: "nat \<Rightarrow> draft_entry \<Rightarrow> check_state \<Rightarrow> check_state" where
  "check_amount i e s = (if amount_invalid (de_amount e) then s\<lparr>cs_errors := cs_errors s @ [InvalidAmount i]\<rparr> else s)"

definition check_asset :: "nat \<Rightarrow> draft_entry \<Rightarrow> check_state \<Rightarrow> check_state" where
  "check_asset i e s =
     (if blank (de_asset e) then s\<lparr>cs_errors := cs_errors s @ [MissingAsset i]\<rparr>
      else s\<lparr>cs_assets := add_new (de_asset e) (cs_assets s)\<rparr>)"

definition check_note :: "nat \<Rightarrow> draft_entry \<Rightarrow> check_state \<Rightarrow> check_state" where
  "check_note i e s =
     (case de_note e of
        None \<Rightarrow> s
      | Some n \<Rightarrow> if blank n then s\<lparr>cs_warnings := cs_warnings s @ [EmptyNote i]\<rparr> else s)"

fun check_entries :: "nat \<Rightarrow> draft_entry list \<Rightarrow> check_state \<Rightarrow> check_state" where
  "check_entries i [] s = s"
| "check_entries i (e # es) s =
     check_entries (Suc i) es (check_note i e (check_asset i e (check_amount i e (check_recipient i e s))))"

definition large_draft_threshold :: nat where
  "large_draft_threshold = 500"

definition validate_draft :: "draft_builder \<Rightarrow> draft_error list \<times> draft_warning list" where
  "validate_draft b =
     (if db_entries b = [] then ([EmptyDraft], [])
      else let s = check_entries 0 (db_entries b) \<lparr>cs_errors = [], cs_warnings = [], cs_seen = [], cs_assets = []\<rparr>
        in (cs_errors s,
            cs_warnings s @
            (if 1 < length (cs_assets s) then [MixedAssets (sort (cs_assets s))] else []) @
            (if large_draft_threshold < length (db_entries b) then [LargeDraft (length (db_entries b))] else [])))"

record draft_summary =
  dm_entry_count :: nat
  dm_unique_recipient_count :: nat
  dm_totals_by_asset :: "(string, string) dict"
  dm_assets :: "string list"
  dm_errors :: "draft_error list"
  dm_warnings :: "draft_warning list"
  dm_is_valid :: bool

definition add_to_total :: "draft_entry \<Rightarrow> (string, int) dict \<Rightarrow> (string, int) dict" where
  "add_to_total e totals =
     (if de_asset e = [] then totals
      else let totals' = (if dict_get totals (de_asset e) = None then dict_put (de_asset e) 0 totals else totals)
        in case js_bigint (de_amount e) of
          None \<Rightarrow> totals'
        | Some v \<Rightarrow> dict_put (de_asset e) (the (dict_get totals' (de_asset e)) + v) totals')"

definition asset_totals :: "draft_entry list \<Rightarrow> (string, int) dict" where
  "asset_totals es = fold add_to_total es []"

definition summarize_draft :: "draft_builder \<Rightarrow> draft_summary" where
  "summarize_draft b =
     (let (errors, warnings) = validate_draft b; totals = asset_totals (db_entries b)
      in \<lparr>dm_entry_count = length (db_entries b),
          dm_unique_recipient_count =
            length (fold (\<lambda>e rs. if de_recipient_id e = [] then rs else add_new (de_recipient_id e) rs) (db_entries b) []),
          dm_totals_by_asset = map (\<lambda>(a, n). (a, int_string n)) totals,
          dm_assets = map fst totals, dm_errors = errors, dm_warnings = warnings, dm_is_valid = (errors = [])\<rparr>)"

text \<open>Empty notes are left out of what is built.\<close>

definition sanitize_entry :: "draft_entry \<Rightarrow> draft_entry" where
  "sanitize_entry e =
     e\<lparr>de_note := (case de_note e of None \<Rightarrow> None | Some n \<Rightarrow> if blank n then None else Some n)\<rparr>"

definition build_draft :: "string \<Rightarrow> draft_builder \<Rightarrow> (draft_error list, payroll_draft) result" where
  "build_draft now b =
     (let (errors, warnings) = validate_draft b
      in if errors \<noteq> [] then Inl errors
         else Inr \<lparr>pd_version = 1, pd_created_at = db_created_at b, pd_updated_at = now, pd_label = db_label b,
                   pd_entries = map sanitize_entry (db_entries b)\<rparr>)"

section \<open>Export and import\<close>

definition optional_member :: "string \<Rightarrow> string option \<Rightarrow> (string \<times> json) list" where
  "optional_member k v = (case v of None \<Rightarrow> [] | Some s \<Rightarrow> [(k, JsonText s)])"

definition entry_json :: "draft_entry \<Rightarrow> json" where
  "entry_json e = JsonObject
     ([(''recipientId'', JsonText (de_recipient_id e)), (''amount'', JsonText (de_amount e)), (''asset'', JsonText (de_asset e))] @
      optional_member ''note'' (de_note e))"

definition draft_json :: "payroll_draft \<Rightarrow> json" where
  "draft_json d = JsonObject
     ([(''version'', JsonNumber (pd_version d)), (''createdAt'', JsonText (pd_created_at d)),
       (''updatedAt'', JsonText (pd_updated_at d))] @
      optional_member ''label'' (pd_label d) @ [(''entries'', JsonArray (map entry_json (pd_entries d)))])"

text \<open>Numbers of 32 bits: what \<open>x | 0\<close> and the shifts make of an integer\<close>

definition to_int32 :: "int \<Rightarrow> int" where
  "to_int32 x = sint (word_of_int x :: 32 word)"

definition shift_left :: "int \<Rightarrow> nat \<Rightarrow> int" where
  "shift_left x n = sint (push_bit n (word_of_int x :: 32 word))"

definition simple_checksum_step :: "char \<Rightarrow> int \<Rightarrow> int" where
  "simple_checksum_step c hash = to_int32 (shift_left hash 5 - hash + of_char c)"

definition simple_checksum :: "string \<Rightarrow> string" where
  "simple_checksum s = pad_start 8 CHR ''0'' (radix_string 16 (nat \<bar>fold simple_checksum_step s 0\<bar>))"

definition current_draft_version :: int where
  "current_draft_version = 1"

definition export_draft :: "string \<Rightarrow> payroll_draft \<Rightarrow> string \<times> string" where
  "export_draft now d =
     (let data = print_json ''  '' 0 (draft_json (d\<lparr>pd_version := current_draft_version, pd_updated_at := now\<rparr>))
      in (data, simple_checksum data))"

datatype import_error =
  EmptyDraftData | InvalidJson | InvalidJsonObject | MissingVersion | MissingEntries | ChecksumMismatch | AmountSyntaxError

datatype import_warning = NotAnObject nat | NoRecipient nat | NotPositive nat | NoAsset nat | NewerVersion int

text \<open>A member of a value, and \<open>String\<close> of one\<close>

definition json_member :: "json \<Rightarrow> string \<Rightarrow> json option" where
  "json_member j k = (case j of JsonObject ps \<Rightarrow> map_of ps k | _ \<Rightarrow> None)"

function js_string :: "json \<Rightarrow> string" where
  "js_string JsonNull = ''null''"
| "js_string (JsonBool b) = (if b then ''true'' else ''false'')"
| "js_string (JsonNumber n) = int_string n"
| "js_string (JsonText s) = s"
| "js_string (JsonArray js) = commas (map (\<lambda>j. if j = JsonNull then [] else js_string j) js)"
| "js_string (JsonObject ps) = ''[object Object]''"
  by pat_completeness auto

termination
  by (relation "measure size") (auto simp: less_Suc_eq_le intro: size_list_estimation')

definition missing_text :: "json option \<Rightarrow> bool" where
  "missing_text m = (case m of Some (JsonText s) \<Rightarrow> blank s | _ \<Rightarrow> True)"

definition validate_imported_entry :: "json \<Rightarrow> nat \<Rightarrow> (import_error, import_warning list) result" where
  "validate_imported_entry e i =
     (case e of
        JsonNull \<Rightarrow> Inr [NotAnObject i]
      | JsonBool _ \<Rightarrow> Inr [NotAnObject i]
      | JsonNumber _ \<Rightarrow> Inr [NotAnObject i]
      | JsonText _ \<Rightarrow> Inr [NotAnObject i]
      | _ \<Rightarrow>
        (case js_bigint (case json_member e ''amount'' of None \<Rightarrow> ''0'' | Some JsonNull \<Rightarrow> ''0'' | Some v \<Rightarrow> js_string v) of
           None \<Rightarrow> Inl AmountSyntaxError
         | Some amount \<Rightarrow> Inr
             ((if missing_text (json_member e ''recipientId'') then [NoRecipient i] else []) @
              (if amount \<le> 0 then [NotPositive i] else []) @
              (if missing_text (json_member e ''asset'') then [NoAsset i] else []))))"

fun validate_imported_entries :: "json list \<Rightarrow> nat \<Rightarrow> (import_error, import_warning list) result" where
  "validate_imported_entries [] i = Inr []"
| "validate_imported_entries (e # es) i =
     bind_result (validate_imported_entry e i) (\<lambda>ws. bind_result (validate_imported_entries es (Suc i)) (\<lambda>ws'. Inr (ws @ ws')))"

text \<open>The entries of an imported draft are the values read, whatever they are.\<close>

record imported_draft =
  im_version :: int
  im_created_at :: string
  im_updated_at :: string
  im_label :: "string option"
  im_entries :: "json list"

definition text_or :: "json option \<Rightarrow> 'a \<Rightarrow> (string \<Rightarrow> 'a) \<Rightarrow> 'a" where
  "text_or m d f = (case m of Some (JsonText s) \<Rightarrow> f s | _ \<Rightarrow> d)"

definition import_parsed :: "string \<Rightarrow> string \<Rightarrow> string option \<Rightarrow> json \<Rightarrow> (import_error, imported_draft \<times> import_warning list) result" where
  "import_parsed now raw expected j =
     (case json_member j ''version'' of
        Some (JsonNumber v) \<Rightarrow>
          (case json_member j ''entries'' of
             Some (JsonArray es) \<Rightarrow>
               if (case expected of None \<Rightarrow> False | Some c \<Rightarrow> simple_checksum raw \<noteq> c) then Inl ChecksumMismatch
               else bind_result (validate_imported_entries es 0) (\<lambda>ws.
                 Inr (\<lparr>im_version = v, im_created_at = text_or (json_member j ''createdAt'') now id,
                       im_updated_at = text_or (json_member j ''updatedAt'') now id,
                       im_label = text_or (json_member j ''label'') None Some, im_entries = es\<rparr>,
                      (if current_draft_version < v then [NewerVersion v] else []) @ ws))
           | _ \<Rightarrow> Inl MissingEntries)
      | _ \<Rightarrow> Inl MissingVersion)"

definition import_draft :: "string \<Rightarrow> string \<Rightarrow> string option \<Rightarrow> (import_error, imported_draft \<times> import_warning list) result" where
  "import_draft now raw expected =
     (if blank raw then Inl EmptyDraftData
      else case parse_json raw of
        None \<Rightarrow> Inl InvalidJson
      | Some j \<Rightarrow>
          (case j of
             JsonObject _ \<Rightarrow> import_parsed now raw expected j
           | JsonArray _ \<Rightarrow> import_parsed now raw expected j
           | _ \<Rightarrow> Inl InvalidJsonObject))"

definition create_draft :: "string \<Rightarrow> string option \<Rightarrow> payroll_draft" where
  "create_draft now label =
     \<lparr>pd_version = current_draft_version, pd_created_at = now, pd_updated_at = now, pd_label = label, pd_entries = []\<rparr>"

text \<open>What the typed code sees of an imported draft whose entries have the fields of an entry\<close>

definition entry_of_json :: "json \<Rightarrow> draft_entry" where
  "entry_of_json j =
     \<lparr>de_recipient_id = text_or (json_member j ''recipientId'') [] id, de_amount = text_or (json_member j ''amount'') [] id,
      de_asset = text_or (json_member j ''asset'') [] id, de_note = text_or (json_member j ''note'') None Some\<rparr>"

definition draft_of_import :: "imported_draft \<Rightarrow> payroll_draft" where
  "draft_of_import m =
     \<lparr>pd_version = im_version m, pd_created_at = im_created_at m, pd_updated_at = im_updated_at m, pd_label = im_label m,
      pd_entries = map entry_of_json (im_entries m)\<rparr>"

section \<open>The checksum of the canonical text\<close>

definition optional_meta :: "string option \<Rightarrow> meta" where
  "optional_meta v = (case v of None \<Rightarrow> MetaUndefined | Some s \<Rightarrow> MetaText s)"

definition entry_meta :: "draft_entry \<Rightarrow> meta" where
  "entry_meta e = MetaObject
     [(''recipientId'', MetaText (de_recipient_id e)), (''amount'', MetaText (de_amount e)),
      (''asset'', MetaText (de_asset e)), (''note'', optional_meta (de_note e))]"

definition draft_meta :: "payroll_draft \<Rightarrow> meta" where
  "draft_meta d = MetaObject
     [(''version'', MetaNumber (pd_version d)), (''createdAt'', MetaText (pd_created_at d)),
      (''updatedAt'', MetaText (pd_updated_at d)), (''label'', optional_meta (pd_label d)),
      (''entries'', MetaArray (map entry_meta (pd_entries d)))]"

text \<open>The replacer sorts the keys of every object and drops what is undefined, as the canonical text of metadata does.\<close>

definition canonicalize_draft :: "payroll_draft \<Rightarrow> string" where
  "canonicalize_draft d = stringify_json (sort_value_for_canonical_json (draft_meta d))"

text \<open>The hash is a number that may leave 32 bits until the next \<open>^=\<close>.\<close>

definition fnv_step :: "char \<Rightarrow> int \<Rightarrow> int" where
  "fnv_step c hash =
     (let h = sint (xor (word_of_int hash) (of_char c) :: 32 word)
      in h + (shift_left h 1 + shift_left h 4 + shift_left h 7 + shift_left h 8 + shift_left h 24))"

definition fnv1a32_hex :: "string \<Rightarrow> string" where
  "fnv1a32_hex s = pad_start 8 CHR ''0'' (radix_string 16 (nat (uint (word_of_int (fold fnv_step s 2166136261) :: 32 word))))"

text \<open>\<open>sha\<close> is the hash of the platform, \<open>None\<close> where there is none.\<close>

definition compute_draft_checksum :: "(string \<Rightarrow> string) option \<Rightarrow> payroll_draft \<Rightarrow> string" where
  "compute_draft_checksum sha d =
     (case sha of Some f \<Rightarrow> f (canonicalize_draft d) | None \<Rightarrow> fnv1a32_hex (canonicalize_draft d))"

definition verify_draft_checksum :: "(string \<Rightarrow> string) option \<Rightarrow> payroll_draft \<Rightarrow> string \<Rightarrow> bool" where
  "verify_draft_checksum sha d expected \<longleftrightarrow>
     expected \<noteq> [] \<and> js_trim (js_lower (compute_draft_checksum sha d)) = js_trim (js_lower expected)"

end
