(* ===== verification/DraftProperties.thy ===== *)
theory DraftProperties
  imports PayrollDrafts
begin

text \<open>
  What the drafts of \<open>PayrollDrafts\<close> promise: the errors of a builder against a reference that looks at one entry at a
  time, the totals of the summary, the way of a draft through export and import, and what the two checksums notice.
\<close>

section \<open>The errors of a builder\<close>

text \<open>The reference: the errors of entry \<open>i\<close>, by the entries before it.\<close>

definition recipient_errors :: "draft_entry list \<Rightarrow> nat \<Rightarrow> draft_error list" where
  "recipient_errors es i =
     (if blank (de_recipient_id (es ! i)) then [InvalidRecipient i]
      else case find (\<lambda>j. de_recipient_id (es ! j) = de_recipient_id (es ! i)) [0..<i] of
        Some j \<Rightarrow> [DuplicateRecipient j i] | None \<Rightarrow> [])"

definition entry_errors :: "draft_entry list \<Rightarrow> nat \<Rightarrow> draft_error list" where
  "entry_errors es i =
     recipient_errors es i @ (if amount_invalid (de_amount (es ! i)) then [InvalidAmount i] else []) @
     (if blank (de_asset (es ! i)) then [MissingAsset i] else [])"

definition draft_errors :: "draft_entry list \<Rightarrow> draft_error list" where
  "draft_errors es = (if es = [] then [EmptyDraft] else concat (map (entry_errors es) [0..<length es]))"

definition entry_ok :: "draft_entry \<Rightarrow> bool" where
  "entry_ok e \<longleftrightarrow>
     \<not> blank (de_recipient_id e) \<and> \<not> blank (de_amount e) \<and> (\<exists>v. js_bigint (de_amount e) = Some v \<and> 0 < v) \<and> \<not> blank (de_asset e)"

text \<open>The table of recipients knows the first place of each.\<close>

definition seen_ok :: "draft_entry list \<Rightarrow> nat \<Rightarrow> (string, nat) dict \<Rightarrow> bool" where
  "seen_ok es i seen \<longleftrightarrow>
     (\<forall>r. dict_get seen r = (if blank r then None else find (\<lambda>j. de_recipient_id (es ! j) = r) [0..<i]))"

lemma check_parts:
  "cs_errors (check_note i e s) = cs_errors s" "cs_seen (check_note i e s) = cs_seen s"
  "cs_errors (check_asset i e s) = cs_errors s @ (if blank (de_asset e) then [MissingAsset i] else [])"
  "cs_seen (check_asset i e s) = cs_seen s"
  "cs_errors (check_amount i e s) = cs_errors s @ (if amount_invalid (de_amount e) then [InvalidAmount i] else [])"
  "cs_seen (check_amount i e s) = cs_seen s"
  by (simp_all add: check_note_def check_asset_def check_amount_def split: option.split)

lemma find_append_case: "find P (xs @ ys) = (case find P xs of Some x \<Rightarrow> Some x | None \<Rightarrow> find P ys)"
  by (induction xs) simp_all

lemma find_upto_Suc: "find P [0..<Suc i] = (case find P [0..<i] of Some j \<Rightarrow> Some j | None \<Rightarrow> if P i then Some i else None)"
  by (simp add: find_append_case split: option.split)

lemma check_recipient_ok:
  assumes "seen_ok es i (cs_seen s)"
  shows "cs_errors (check_recipient i (es ! i) s) = cs_errors s @ recipient_errors es i"
    and "seen_ok es (Suc i) (cs_seen (check_recipient i (es ! i) s))"
proof -
  let ?r = "de_recipient_id (es ! i)"
  have seen: "dict_get (cs_seen s) r = (if blank r then None else find (\<lambda>j. de_recipient_id (es ! j) = r) [0..<i])" for r
    using assms by (simp add: seen_ok_def)
  show "cs_errors (check_recipient i (es ! i) s) = cs_errors s @ recipient_errors es i"
    by (simp add: check_recipient_def recipient_errors_def seen split: option.split)
  show "seen_ok es (Suc i) (cs_seen (check_recipient i (es ! i) s))"
    unfolding seen_ok_def find_upto_Suc
    by (auto simp: check_recipient_def seen update_conv' split: option.split)
qed

lemma check_entries_ok:
  assumes "seen_ok all i (cs_seen s)" "es = drop i all"
  shows "cs_errors (check_entries i es s) = cs_errors s @ concat (map (entry_errors all) [i..<length all])"
  using assms
proof (induction es arbitrary: i s)
  case Nil
  then show ?case by simp
next
  case (Cons e es)
  then have i: "i < length all" by (metis drop_eq_Nil leI list.distinct(1))
  then have e: "e = all ! i" "es = drop (Suc i) all" using Cons.prems(2) by (metis Cons_nth_drop_Suc list.inject)+
  let ?s = "check_note i e (check_asset i e (check_amount i e (check_recipient i e s)))"
  have "seen_ok all (Suc i) (cs_seen ?s)" using check_recipient_ok(2) [OF Cons.prems(1)] by (simp add: check_parts e)
  then have "cs_errors (check_entries (Suc i) es ?s) = cs_errors ?s @ concat (map (entry_errors all) [Suc i..<length all])"
    using Cons.IH e(2) by simp
  moreover have "cs_errors ?s = cs_errors s @ entry_errors all i"
    using check_recipient_ok(1) [OF Cons.prems(1)] by (simp add: check_parts entry_errors_def e)
  ultimately show ?case using i by (simp add: upt_conv_Cons)
qed

lemma validate_errors: "fst (validate_draft b) = draft_errors (db_entries b)"
  by (simp add: validate_draft_def draft_errors_def Let_def check_entries_ok [where all = "db_entries b"] seen_ok_def)

lemma amount_invalid_iff: "\<not> amount_invalid s \<longleftrightarrow> \<not> blank s \<and> (\<exists>v. js_bigint s = Some v \<and> 0 < v)"
proof (cases "s = []")
  case True
  then show ?thesis by (simp add: amount_invalid_def)
next
  case False
  then show ?thesis by (auto simp: amount_invalid_def amount_or_zero_def split: option.split)
qed

lemma no_draft_errors_iff:
  "draft_errors es = [] \<longleftrightarrow> es \<noteq> [] \<and> distinct (map de_recipient_id es) \<and> list_all entry_ok es"
proof -
  have one: "entry_errors es i = [] \<longleftrightarrow> entry_ok (es ! i) \<and> (\<forall>j < i. de_recipient_id (es ! j) \<noteq> de_recipient_id (es ! i))" for i
    using amount_invalid_iff [of "de_amount (es ! i)"]
    by (auto simp: entry_errors_def recipient_errors_def entry_ok_def find_None_iff find_Some_iff split: option.split)
  have "distinct (map de_recipient_id es) \<longleftrightarrow>
      (\<forall>i < length es. \<forall>j < i. de_recipient_id (es ! j) \<noteq> de_recipient_id (es ! i))"
    by (auto simp: distinct_conv_nth) (metis linorder_neqE_nat)
  then show ?thesis by (auto simp: draft_errors_def one list_all_length)
qed

lemma build_without_errors:
  "draft_errors (db_entries b) = [] \<Longrightarrow> build_draft now b =
     Inr \<lparr>pd_version = 1, pd_created_at = db_created_at b, pd_updated_at = now, pd_label = db_label b,
          pd_entries = map sanitize_entry (db_entries b)\<rparr>"
  by (simp add: build_draft_def validate_errors [symmetric] split_beta)

text \<open>
  C13: what \<open>build\<close> returns or throws: all errors of all entries in their order, each duplicate with the place of the first
  use of its recipient, and the draft with its blank notes left out exactly if there is an entry, no recipient twice, and
  every entry names a recipient and an asset and an amount that is a positive integer.
\<close>

theorem build_reports_errors:
  "build_draft now b =
     (if db_entries b \<noteq> [] \<and> distinct (map de_recipient_id (db_entries b)) \<and> list_all entry_ok (db_entries b)
      then Inr \<lparr>pd_version = 1, pd_created_at = db_created_at b, pd_updated_at = now, pd_label = db_label b,
                pd_entries = map sanitize_entry (db_entries b)\<rparr>
      else Inl (draft_errors (db_entries b)))"
  using no_draft_errors_iff [of "db_entries b"] by (simp add: build_draft_def validate_errors [symmetric] split_beta)


section \<open>The totals of the summary\<close>

definition amounts_of :: "string \<Rightarrow> draft_entry list \<Rightarrow> int" where
  "amounts_of a es = sum_list (map (\<lambda>e. case js_bigint (de_amount e) of None \<Rightarrow> 0 | Some v \<Rightarrow> v) (filter (\<lambda>e. de_asset e = a) es))"

lemma asset_totals_snoc: "asset_totals (es @ [e]) = add_to_total e (asset_totals es)"
  by (simp add: asset_totals_def)

lemma amounts_of_snoc:
  "amounts_of a (es @ [e]) = amounts_of a es + (if de_asset e = a then (case js_bigint (de_amount e) of None \<Rightarrow> 0 | Some v \<Rightarrow> v) else 0)"
  by (simp add: amounts_of_def)

lemma no_amounts: "a \<notin> de_asset ` set es \<Longrightarrow> amounts_of a es = 0"
  by (induction es) (auto simp: amounts_of_def)

lemma totals_get: "dict_get (asset_totals es) a = (if a \<noteq> [] \<and> a \<in> de_asset ` set es then Some (amounts_of a es) else None)"
proof (induction es rule: rev_induct)
  case Nil
  then show ?case by (simp add: asset_totals_def)
next
  case (snoc e es)
  show ?case
    using snoc no_amounts [of "de_asset e" es]
    by (auto simp: asset_totals_snoc add_to_total_def Let_def amounts_of_snoc update_conv' split: option.split)
qed

lemma totals_ok: "dict_ok (asset_totals es)"
proof (induction es rule: rev_induct)
  case (snoc e es)
  then show ?case by (auto simp: asset_totals_snoc add_to_total_def Let_def split: option.split)
qed (simp add: asset_totals_def)

text \<open>
  The totals a summary shows for a draft that can be built are the sums of the amounts per asset, each asset is listed
  once, and together the totals are the sum of all amounts: nothing of a draft is left out of its review.
\<close>

theorem summary_totals:
  "dict_get (dm_totals_by_asset (summarize_draft b)) a =
     (if a \<noteq> [] \<and> a \<in> de_asset ` set (db_entries b) then Some (int_string (amounts_of a (db_entries b))) else None) \<and>
   distinct (dm_assets (summarize_draft b)) \<and>
   set (dm_assets (summarize_draft b)) = de_asset ` set (db_entries b) - {[]} \<and>
   dm_is_valid (summarize_draft b) = is_ok (build_draft now b)"
proof -
  let ?t = "asset_totals (db_entries b)"
  have s: "dm_totals_by_asset (summarize_draft b) = map (\<lambda>(a, n). (a, int_string n)) ?t" "dm_assets (summarize_draft b) = map fst ?t"
    "dm_is_valid (summarize_draft b) \<longleftrightarrow> fst (validate_draft b) = []"
    by (simp_all add: summarize_draft_def Let_def split_beta)
  have "dict_get (map (\<lambda>(a, n). (a, int_string n)) ?t) a = map_option int_string (dict_get ?t a)"
    by (simp add: map_of_map)
  moreover have "set (map fst ?t) = dom (dict_get ?t)" by (simp add: dom_map_of_conv_image_fst)
  moreover have "dom (dict_get ?t) = de_asset ` set (db_entries b) - {[]}" by (auto simp: totals_get split: if_splits)
  ultimately show ?thesis using totals_ok [of "db_entries b"]
    by (simp add: s totals_get dict_ok_def build_draft_def split_beta)
qed

section \<open>Export and import\<close>

lemma option_member [simp]:
  "map_of (optional_member k v) k' = (if k = k' then map_option JsonText v else None)"
  by (simp add: optional_member_def split: option.split)

lemma entry_members:
  "json_member (entry_json e) ''recipientId'' = Some (JsonText (de_recipient_id e))"
  "json_member (entry_json e) ''amount'' = Some (JsonText (de_amount e))"
  "json_member (entry_json e) ''asset'' = Some (JsonText (de_asset e))"
  "json_member (entry_json e) ''note'' = map_option JsonText (de_note e)"
  by (simp_all add: entry_json_def json_member_def)

lemma draft_members:
  "json_member (draft_json d) ''version'' = Some (JsonNumber (pd_version d))"
  "json_member (draft_json d) ''createdAt'' = Some (JsonText (pd_created_at d))"
  "json_member (draft_json d) ''updatedAt'' = Some (JsonText (pd_updated_at d))"
  "json_member (draft_json d) ''label'' = map_option JsonText (pd_label d)"
  "json_member (draft_json d) ''entries'' = Some (JsonArray (map entry_json (pd_entries d)))"
  by (simp_all add: draft_json_def json_member_def map_add_def split: option.split)

lemma draft_json_ok: "json_ok (draft_json d)"
  by (auto simp: draft_json_def entry_json_def optional_member_def list_all_iff split: option.split)

lemma entry_read_back: "entry_of_json (entry_json e) = e"
  by (simp add: entry_of_json_def entry_members text_or_def split: option.split)

lemma entry_ok_imports: "entry_ok e \<Longrightarrow> validate_imported_entry (entry_json e) i = Inr []"
proof -
  assume e: "entry_ok e"
  obtain ps where ps: "entry_json e = JsonObject ps" by (simp add: entry_json_def)
  show ?thesis using e entry_members [of e]
    by (auto simp: validate_imported_entry_def ps entry_ok_def missing_text_def)
qed

lemma entries_ok_import: "list_all entry_ok es \<Longrightarrow> validate_imported_entries (map entry_json es) i = Inr []"
  by (induction es arbitrary: i) (simp_all add: entry_ok_imports)

lemma exported_not_blank: "\<not> blank (fst (export_draft now d))"
proof -
  obtain s where s: "fst (export_draft now d) = CHR ''{'' # s"
    by (simp add: export_draft_def Let_def draft_json_def bracketed_def)
  have "\<not> js_space (CHR ''{'')" by (simp add: js_space_def)
  then show ?thesis by (simp add: s blank_iff)
qed

lemma exported_parses:
  "parse_json (fst (export_draft now d)) = Some (draft_json (d\<lparr>pd_version := current_draft_version, pd_updated_at := now\<rparr>))"
  by (simp only: export_draft_def Let_def fst_conv) (intro parse_printed draft_json_ok; simp add: json_space_def)

lemma import_exported:
  assumes "list_all entry_ok (pd_entries d)"
  shows "import_draft now' (fst (export_draft now d)) (Some (snd (export_draft now d))) =
    Inr (\<lparr>im_version = current_draft_version, im_created_at = pd_created_at d, im_updated_at = now, im_label = pd_label d,
          im_entries = map entry_json (pd_entries d)\<rparr>, [])"
proof -
  let ?d = "d\<lparr>pd_version := current_draft_version, pd_updated_at := now\<rparr>"
  obtain ps where ps: "draft_json ?d = JsonObject ps" by (simp add: draft_json_def)
  have sum: "simple_checksum (fst (export_draft now d)) = snd (export_draft now d)"
    by (simp add: export_draft_def Let_def)
  have "import_parsed now' (fst (export_draft now d)) (Some (snd (export_draft now d))) (draft_json ?d) =
    Inr (\<lparr>im_version = current_draft_version, im_created_at = pd_created_at d, im_updated_at = now, im_label = pd_label d,
          im_entries = map entry_json (pd_entries d)\<rparr>, [])"
    using assms by (simp add: import_parsed_def draft_members text_or_def sum entries_ok_import split: option.split)
  then show ?thesis using ps by (simp add: import_draft_def exported_not_blank exported_parses)
qed

lemma sanitize_ok: "entry_ok (sanitize_entry e) = entry_ok e" "sanitize_entry (sanitize_entry e) = sanitize_entry e"
  "de_recipient_id (sanitize_entry e) = de_recipient_id e"
  by (simp_all add: sanitize_entry_def entry_ok_def split: option.split)

text \<open>
  C12: the way of a draft: one that was built, exported and imported again with its checksum gives no warning, and a builder
  resumed from it builds the same draft, only with the time of the second build.
\<close>

theorem drafts_survive_export:
  assumes "build_draft t1 b = Inr d"
  shows "\<exists>m. import_draft t3 (fst (export_draft t2 d)) (Some (snd (export_draft t2 d))) = Inr (m, []) \<and>
    build_draft t4 (new_builder t5 (Some (draft_of_import m)) None) = Inr (d\<lparr>pd_updated_at := t4\<rparr>)"
proof -
  from assms have ok: "db_entries b \<noteq> []" "distinct (map de_recipient_id (db_entries b))" "list_all entry_ok (db_entries b)"
    and d: "d = \<lparr>pd_version = 1, pd_created_at = db_created_at b, pd_updated_at = t1, pd_label = db_label b,
      pd_entries = map sanitize_entry (db_entries b)\<rparr>"
    using no_draft_errors_iff [of "db_entries b"]
    by (auto simp: build_draft_def validate_errors [symmetric] split_beta split: if_splits)
  let ?m = "\<lparr>im_version = current_draft_version, im_created_at = pd_created_at d, im_updated_at = t2, im_label = pd_label d,
    im_entries = map entry_json (pd_entries d)\<rparr>"
  have "list_all entry_ok (pd_entries d)" using ok(3) by (simp add: d list_all_iff sanitize_ok)
  then have import: "import_draft t3 (fst (export_draft t2 d)) (Some (snd (export_draft t2 d))) = Inr (?m, [])"
    by (rule import_exported)
  let ?b = "new_builder t5 (Some (draft_of_import ?m)) None"
  have b: "db_entries ?b = pd_entries d" "db_created_at ?b = pd_created_at d" "db_label ?b = pd_label d"
    by (simp_all add: new_builder_def draft_of_import_def comp_def entry_read_back split: option.split)
  have "draft_errors (pd_entries d) = []"
    using ok by (simp add: no_draft_errors_iff d list_all_iff sanitize_ok comp_def)
  then have "build_draft t4 ?b = Inr \<lparr>pd_version = 1, pd_created_at = pd_created_at d, pd_updated_at = t4, pd_label = pd_label d,
      pd_entries = map sanitize_entry (pd_entries d)\<rparr>"
    by (simp only: build_without_errors b)
  moreover have "map sanitize_entry (pd_entries d) = pd_entries d" by (simp add: d comp_def sanitize_ok)
  ultimately have "build_draft t4 ?b = Inr (d\<lparr>pd_updated_at := t4\<rparr>)" by (simp add: d)
  with import show ?thesis by blast
qed


definition example_builder :: draft_builder where
  "example_builder = \<lparr>db_entries = [\<lparr>de_recipient_id = ''G1'', de_amount = ''5'', de_asset = ''XLM'', de_note = Some []\<rparr>],
     db_created_at = ''t0'', db_label = Some ''May''\<rparr>"

definition example_draft :: payroll_draft where
  "example_draft = \<lparr>pd_version = 1, pd_created_at = ''t0'', pd_updated_at = ''t1'', pd_label = Some ''May'',
     pd_entries = [\<lparr>de_recipient_id = ''G1'', de_amount = ''5'', de_asset = ''XLM'', de_note = None\<rparr>]\<rparr>"

lemma example_draft_built: "build_draft ''t1'' example_builder = Inr example_draft"
  by code_simp

theorem drafts_survive_export_witness:
  "\<exists>m. import_draft ''t3'' (fst (export_draft ''t2'' example_draft)) (Some (snd (export_draft ''t2'' example_draft))) = Inr (m, []) \<and>
    build_draft ''t4'' (new_builder ''t5'' (Some (draft_of_import m)) None) = Inr (example_draft\<lparr>pd_updated_at := ''t4''\<rparr>)"
  by (rule drafts_survive_export [OF example_draft_built])

section \<open>Checksums\<close>

text \<open>The checksum of an export is a polynomial in 31 modulo \<open>2 ^ 32\<close>.\<close>

lemma to_int32_word [simp]: "(word_of_int (to_int32 x) :: 32 word) = word_of_int x"
  by (simp add: to_int32_def)

lemma shift_left_word [simp]: "(word_of_int (shift_left x n) :: 32 word) = push_bit n (word_of_int x)"
  by (simp add: shift_left_def)

lemma checksum_step_word:
  "(word_of_int (simple_checksum_step c h) :: 32 word) = word_of_int h * 31 + word_of_int (of_char c)"
  by (simp add: simple_checksum_step_def wi_hom_syms push_bit_eq_mult)

lemma checksum_step_fits: "simple_checksum_step c h = sint (word_of_int h * 31 + word_of_int (of_char c) :: 32 word)"
  using checksum_step_word [of c h] by (metis simple_checksum_step_def to_int32_def to_int32_word)

text \<open>A change of one draft into another with the same checksum: \<open>Aa\<close> and \<open>BB\<close> are the same to it.\<close>

lemma checksum_misses_changes: "simple_checksum (u @ ''Aa'' @ v) = simple_checksum (u @ ''BB'' @ v)"
proof -
  have "simple_checksum_step (CHR ''a'') (simple_checksum_step (CHR ''A'') h) =
      simple_checksum_step (CHR ''B'') (simple_checksum_step (CHR ''B'') h)" for h
    unfolding checksum_step_fits [of "CHR ''a''"] checksum_step_fits [of "CHR ''B''" "simple_checksum_step (CHR ''B'') h"]
    by (simp add: checksum_step_word)
  then show ?thesis by (simp add: simple_checksum_def)
qed

text \<open>Where there is no platform hash, the canonical text is hashed by FNV-1a: the shifts multiply by its prime.\<close>

definition fnv1a :: "string \<Rightarrow> 32 word" where
  "fnv1a s = foldl (\<lambda>h c. xor h (of_char c) * 16777619) 2166136261 s"

lemma fnv_step_word: "(word_of_int (fnv_step c h) :: 32 word) = xor (word_of_int h) (of_char c) * 16777619"
  by (simp add: fnv_step_def Let_def push_bit_eq_mult algebra_simps)

lemma fnv_refines: "fnv1a32_hex s = pad_start 8 CHR ''0'' (radix_string 16 (unat (fnv1a s)))"
proof -
  have "(word_of_int (fold fnv_step s h) :: 32 word) = foldl (\<lambda>h c. xor h (of_char c) * 16777619) (word_of_int h) s" for h
    by (induction s arbitrary: h) (simp_all add: fnv_step_word)
  then show ?thesis by (simp add: fnv1a32_hex_def fnv1a_def)
qed


lemma stringify_same: "stringify_json j = stringify_json k \<longleftrightarrow> j = k"
  using stringify_inj [of j "[]" k "[]"] by (auto simp: ends_value_def)

lemma sorted_same:
  assumes "distinct (map fst ps)" "distinct (map fst qs)"
    and "sort_value_for_canonical_json (MetaObject ps) = sort_value_for_canonical_json (MetaObject qs)"
  shows "map_option sort_value_for_canonical_json (member_value ps k) = map_option sort_value_for_canonical_json (member_value qs k)"
proof -
  have "sorted_members ps = sorted_members qs"
    using assms(3) sort_object [of "MetaObject ps" ps] sort_object [of "MetaObject qs" qs] by (simp add: object_members_def)
  then show ?thesis using sorted_members_get [OF assms(1), of k] sorted_members_get [OF assms(2), of k] by simp
qed

lemma optional_member_value:
  "map_option sort_value_for_canonical_json (member_value
     [(''recipientId'', MetaText r), (''amount'', MetaText a), (''asset'', MetaText s), (''note'', optional_meta v)] ''note'') =
   map_option JsonText v"
  "map_option sort_value_for_canonical_json (member_value
     [(''version'', MetaNumber n), (''createdAt'', MetaText c), (''updatedAt'', MetaText u), (''label'', optional_meta v),
      (''entries'', MetaArray es)] ''label'') = map_option JsonText v"
  by (cases v; simp add: member_value_def optional_meta_def kept_member_def)+

lemma option_text_inj: "map_option JsonText v = map_option JsonText w \<Longrightarrow> v = w"
  by (cases v; cases w) simp_all

lemma kept_simps [simp]:
  "kept_member (MetaText s)" "kept_member (MetaNumber n)" "kept_member (MetaArray ms)"
  by (simp_all add: kept_member_def)

lemma entry_canonical_inj:
  assumes "sort_value_for_canonical_json (entry_meta e) = sort_value_for_canonical_json (entry_meta e')"
  shows "e = e'"
proof -
  note same = sorted_same [OF _ _ assms [unfolded entry_meta_def]]
  have "de_recipient_id e = de_recipient_id e'" using same [of "''recipientId''"] by (simp add: member_value_def)
  moreover have "de_amount e = de_amount e'" using same [of "''amount''"] by (simp add: member_value_def)
  moreover have "de_asset e = de_asset e'" using same [of "''asset''"] by (simp add: member_value_def)
  moreover have "de_note e = de_note e'"
    using same [of "''note''"] unfolding optional_member_value by (intro option_text_inj) simp
  ultimately show ?thesis by (intro draft_entry.equality) simp_all
qed

lemma draft_canonical_inj: "canonicalize_draft d = canonicalize_draft d' \<longleftrightarrow> d = d'"
proof
  assume "canonicalize_draft d = canonicalize_draft d'"
  then have eq: "sort_value_for_canonical_json (draft_meta d) = sort_value_for_canonical_json (draft_meta d')"
    by (simp only: canonicalize_draft_def stringify_same)
  note same = sorted_same [OF _ _ eq [unfolded draft_meta_def]]
  have "pd_version d = pd_version d'" using same [of "''version''"] by (simp add: member_value_def)
  moreover have "pd_created_at d = pd_created_at d'" using same [of "''createdAt''"] by (simp add: member_value_def)
  moreover have "pd_updated_at d = pd_updated_at d'" using same [of "''updatedAt''"] by (simp add: member_value_def)
  moreover have "pd_label d = pd_label d'"
    using same [of "''label''"] unfolding optional_member_value by (intro option_text_inj) simp
  moreover have "map (\<lambda>e. sort_value_for_canonical_json (entry_meta e)) (pd_entries d) =
      map (\<lambda>e. sort_value_for_canonical_json (entry_meta e)) (pd_entries d')"
    using same [of "''entries''"] by (simp add: member_value_def comp_def)
  then have "pd_entries d = pd_entries d'" using entry_canonical_inj by (simp add: inj_map_eq_map inj_def)
  ultimately show "d = d'" by (intro payroll_draft.equality) simp_all
qed simp

text \<open>What the check of a checksum relies on of the hash: clean lower-case digests, and none for two of these drafts\<close>

definition sha_fits :: "(string \<Rightarrow> string) \<Rightarrow> payroll_draft \<Rightarrow> payroll_draft \<Rightarrow> bool" where
  "sha_fits sha d d' \<longleftrightarrow>
     (\<forall>s \<in> {canonicalize_draft d, canonicalize_draft d'}. sha s \<noteq> [] \<and> js_trim (js_lower (sha s)) = sha s) \<and>
     (sha (canonicalize_draft d) = sha (canonicalize_draft d') \<longrightarrow> canonicalize_draft d = canonicalize_draft d')"

text \<open>
  With the hash of the platform, a draft passes the check against the checksum of another exactly if the two are the
  same in every field: no edit of a draft goes unnoticed.
\<close>

theorem checksum_binds_draft:
  assumes "sha_fits sha d d'"
  shows "verify_draft_checksum (Some sha) d (compute_draft_checksum (Some sha) d') \<longleftrightarrow> d = d'"
  using assms draft_canonical_inj [of d d'] by (auto simp: verify_draft_checksum_def compute_draft_checksum_def sha_fits_def)

definition edited_draft :: payroll_draft where
  "edited_draft = example_draft\<lparr>pd_label := Some ''June payroll''\<rparr>"

theorem checksum_binds_draft_witness:
  "\<not> verify_draft_checksum (Some (\<lambda>s. if length s < 125 then ''aa'' else ''bb'')) edited_draft
       (compute_draft_checksum (Some (\<lambda>s. if length s < 125 then ''aa'' else ''bb'')) example_draft)"
proof -
  have "sha_fits (\<lambda>s. if length s < 125 then ''aa'' else ''bb'') edited_draft example_draft" by code_simp
  moreover have "edited_draft \<noteq> example_draft" by (simp add: edited_draft_def example_draft_def)
  ultimately show ?thesis using checksum_binds_draft by blast
qed

section \<open>Where the draft code differs from what it says\<close>

text \<open>An amount that is no integer is no warning of an import: \<open>BigInt\<close> throws out of it.\<close>

lemma amount_syntax_throws:
  "validate_imported_entry (entry_json \<lparr>de_recipient_id = r, de_amount = ''12.5'', de_asset = a, de_note = None\<rparr>) i =
     Inl AmountSyntaxError"
  by (simp add: validate_imported_entry_def entry_json_def json_member_def) code_simp

end
