(* ===== verification/EncryptedDrafts.thy ===== *)
theory EncryptedDrafts
  imports DraftProperties Webhooks
begin

text \<open>
  Drafts stored encrypted (\<open>packages/core/src/draft/EncryptedDraftSerializer.ts\<close>) and the providers of encryption for a
  server and for none (\<open>EncryptionProvider.ts\<close>). AES-GCM is a record of parameters, and a random vector is passed in. An
  amount is read by \<open>parseFloat\<close>, of which only the sign is used; no exponent is small enough to make it 0.
\<close>

section \<open>Providers\<close>

record encryption_provider =
  ep_encrypt :: "string \<Rightarrow> string option"
  ep_decrypt :: "string \<Rightarrow> string option"
  ep_can_encrypt :: bool

definition noop_provider :: encryption_provider where
  "noop_provider = \<lparr>ep_encrypt = Some, ep_decrypt = Some, ep_can_encrypt = False\<rparr>"

text \<open>The cipher of a key and a vector: hexadecimal text and tag; the text of a cipher text and its tag, if it is authentic\<close>

record gcm_library =
  gcm_seal :: "nat list \<Rightarrow> nat list \<Rightarrow> string \<Rightarrow> string \<times> nat list"
  gcm_open :: "nat list \<Rightarrow> nat list \<Rightarrow> nat list \<Rightarrow> string \<Rightarrow> string option"

definition hex_text :: "nat list \<Rightarrow> string" where
  "hex_text bs = concat (map (\<lambda>b. [digit_char (b div 16), digit_char (b mod 16)]) bs)"

definition server_encrypt :: "gcm_library \<Rightarrow> nat list \<Rightarrow> nat list \<Rightarrow> string \<Rightarrow> string" where
  "server_encrypt lib key iv data =
     (case gcm_seal lib key iv data of (body, tag) \<Rightarrow> hex_text iv @ '':'' @ hex_text tag @ '':'' @ body)"

definition server_decrypt :: "gcm_library \<Rightarrow> nat list \<Rightarrow> string \<Rightarrow> string option" where
  "server_decrypt lib key encrypted =
     (case js_split (CHR '':'') encrypted of
        [iv, tag, body] \<Rightarrow> gcm_open lib key (hex_bytes iv) (hex_bytes tag) body
      | _ \<Rightarrow> None)"

text \<open>
  The constructor throws for a key that is not 64 characters long; \<open>iv\<close> is the vector the next call draws. A key with other
  characters than hexadecimal digits has fewer than 32 bytes, for which making the cipher throws.
\<close>

definition server_provider :: "gcm_library \<Rightarrow> string \<Rightarrow> nat list \<Rightarrow> encryption_provider option" where
  "server_provider lib key_hex iv =
     (if length key_hex \<noteq> 64 then None
      else let key = hex_bytes key_hex in
        Some \<lparr>ep_encrypt = (\<lambda>data. if length key = 32 then Some (server_encrypt lib key iv data) else None),
              ep_decrypt = (\<lambda>c. if length key = 32 then server_decrypt lib key c else None), ep_can_encrypt = True\<rparr>)"

section \<open>Packages\<close>

record draft_metadata =
  mt_version :: int
  mt_schema_version :: string
  mt_created_at :: string
  mt_updated_at :: string
  mt_label :: "string option"
  mt_is_encrypted :: bool
  mt_encryption_timestamp :: "int option"

record redacted_preview =
  rp_label :: "string option"
  rp_entry_count :: nat
  rp_assets :: "string list"
  rp_total_amount_redacted :: bool

record draft_package =
  pk_metadata :: draft_metadata
  pk_encrypted_payload :: string
  pk_redacted_preview :: "redacted_preview option"

datatype serial_error =
  ProviderUnavailable | DraftIsEmpty | EntryLacksRecipient | EntryLacksAmount | EntryLacksAsset | EntryAmountInvalid
| EncryptionFailed | CannotDecrypt | DecryptionFailed | PayloadUnreadable | MigrationUnsupported int | CannotMigrate int int

definition schema_version :: string where
  "schema_version = ''1.0.0''"

text \<open>\<open>parseFloat(s) > 0\<close>: a decimal numeral with a digit that is not 0, or \<open>Infinity\<close>, and no minus before it\<close>

definition float_positive :: "string \<Rightarrow> bool" where
  "float_positive s =
     (let t = dropWhile js_space s;
          u = (case t of c # r \<Rightarrow> if c = CHR ''+'' then r else t | [] \<Rightarrow> t);
          whole = takeWhile is_digit u;
          rest = dropWhile is_digit u;
          fraction = (case rest of c # r \<Rightarrow> if c = CHR ''.'' then takeWhile is_digit r else [] | [] \<Rightarrow> [])
      in is_prefix ''Infinity'' u \<or> list_ex (\<lambda>c. c \<noteq> CHR ''0'') (whole @ fraction))"

definition validate_draft_entry :: "draft_entry \<Rightarrow> (serial_error, unit) result" where
  "validate_draft_entry e =
     (if blank (de_recipient_id e) then Inl EntryLacksRecipient
      else if blank (de_amount e) then Inl EntryLacksAmount
      else if blank (de_asset e) then Inl EntryLacksAsset
      else if \<not> float_positive (de_amount e) then Inl EntryAmountInvalid
      else Inr ())"

fun validate_draft_entries :: "draft_entry list \<Rightarrow> (serial_error, unit) result" where
  "validate_draft_entries [] = Inr ()"
| "validate_draft_entries (e # es) = bind_result (validate_draft_entry e) (\<lambda>_. validate_draft_entries es)"

definition validate_draft_for_serialization :: "payroll_draft \<Rightarrow> (serial_error, unit) result" where
  "validate_draft_for_serialization d =
     (if pd_entries d = [] then Inl DraftIsEmpty else validate_draft_entries (pd_entries d))"

definition create_redacted_preview :: "payroll_draft \<Rightarrow> redacted_preview" where
  "create_redacted_preview d =
     \<lparr>rp_label = pd_label d, rp_entry_count = length (pd_entries d),
      rp_assets = fold (\<lambda>e as. add_new (de_asset e) as) (pd_entries d) [], rp_total_amount_redacted = True\<rparr>"

definition metadata_of :: "payroll_draft \<Rightarrow> int option \<Rightarrow> draft_metadata" where
  "metadata_of d encrypted_at =
     \<lparr>mt_version = pd_version d, mt_schema_version = schema_version, mt_created_at = pd_created_at d,
      mt_updated_at = pd_updated_at d, mt_label = pd_label d, mt_is_encrypted = (encrypted_at \<noteq> None),
      mt_encryption_timestamp = encrypted_at\<rparr>"

definition serialize_with_encryption ::
  "encryption_provider option \<Rightarrow> int \<Rightarrow> payroll_draft \<Rightarrow> (serial_error, draft_package) result" where
  "serialize_with_encryption provider now d =
     (case provider of
        None \<Rightarrow> Inl ProviderUnavailable
      | Some p \<Rightarrow>
          if \<not> ep_can_encrypt p then Inl ProviderUnavailable
          else bind_result (validate_draft_for_serialization d) (\<lambda>_.
            case ep_encrypt p (stringify_json (draft_json d)) of
              None \<Rightarrow> Inl EncryptionFailed
            | Some c \<Rightarrow> Inr \<lparr>pk_metadata = metadata_of d (Some now), pk_encrypted_payload = c,
                             pk_redacted_preview = Some (create_redacted_preview d)\<rparr>))"

definition serialize_without_encryption :: "payroll_draft \<Rightarrow> (serial_error, draft_package) result" where
  "serialize_without_encryption d =
     bind_result (validate_draft_for_serialization d) (\<lambda>_.
       Inr \<lparr>pk_metadata = metadata_of d None, pk_encrypted_payload = stringify_json (draft_json d), pk_redacted_preview = None\<rparr>)"

definition parse_payload :: "string \<Rightarrow> (serial_error, json) result" where
  "parse_payload s = (case parse_json s of None \<Rightarrow> Inl PayloadUnreadable | Some j \<Rightarrow> Inr j)"

definition deserialize_package :: "encryption_provider option \<Rightarrow> draft_package \<Rightarrow> (serial_error, json) result" where
  "deserialize_package provider pkg =
     (if \<not> mt_is_encrypted (pk_metadata pkg) then parse_payload (pk_encrypted_payload pkg)
      else case provider of
        None \<Rightarrow> Inl CannotDecrypt
      | Some p \<Rightarrow>
          if \<not> ep_can_encrypt p then Inl CannotDecrypt
          else case ep_decrypt p (pk_encrypted_payload pkg) of
            None \<Rightarrow> Inl DecryptionFailed
          | Some s \<Rightarrow> parse_payload s)"

definition validate_draft_version :: "payroll_draft \<Rightarrow> bool" where
  "validate_draft_version d \<longleftrightarrow> 0 < pd_version d"

definition migrate_draft_version :: "string \<Rightarrow> payroll_draft \<Rightarrow> int \<Rightarrow> (serial_error, payroll_draft) result" where
  "migrate_draft_version now d target =
     (if pd_version d = target then Inr d
      else if 2 < target then Inl (MigrationUnsupported target)
      else if pd_version d = 1 \<and> target = 2 then Inr (d\<lparr>pd_version := 2, pd_updated_at := now\<rparr>)
      else Inl (CannotMigrate (pd_version d) target))"

text \<open>What the typed code sees of a value that has the fields of a draft\<close>

definition draft_of_json :: "json \<Rightarrow> payroll_draft" where
  "draft_of_json j =
     \<lparr>pd_version = (case json_member j ''version'' of Some (JsonNumber v) \<Rightarrow> v | _ \<Rightarrow> 0),
      pd_created_at = text_or (json_member j ''createdAt'') [] id, pd_updated_at = text_or (json_member j ''updatedAt'') [] id,
      pd_label = text_or (json_member j ''label'') None Some,
      pd_entries = (case json_member j ''entries'' of Some (JsonArray es) \<Rightarrow> map entry_of_json es | _ \<Rightarrow> [])\<rparr>"

section \<open>The interface of a provider\<close>

locale faithful_provider =
  fixes enc :: "string \<Rightarrow> string option"
    and dec :: "string \<Rightarrow> string option"
  assumes dec_enc: "enc s = Some c \<Longrightarrow> dec c = Some s"
begin

lemma stored_value_read:
  assumes "json_ok j" "enc (stringify_json j) = Some c"
  shows "\<exists>s. dec c = Some s \<and> parse_payload s = Inr j"
  using dec_enc [OF assms(2)] parse_stringified [OF assms(1)] by (simp add: parse_payload_def)

lemma no_collision: "enc s = Some c \<Longrightarrow> enc t = Some c \<Longrightarrow> s = t"
  using dec_enc [of s c] dec_enc [of t c] by simp

end

interpretation noop: faithful_provider "ep_encrypt noop_provider" "ep_decrypt noop_provider"
  by unfold_locales (simp add: noop_provider_def)

text \<open>
  What the server's provider relies on of AES-GCM with keys of 32 bytes: a sealed text opens, and is hexadecimal with a tag
  of bytes.
\<close>

definition gcm_laws :: "gcm_library \<Rightarrow> bool" where
  "gcm_laws lib \<longleftrightarrow>
     (\<forall>key iv data. length key = 32 \<and> (\<forall>b \<in> set key. b < 256) \<longrightarrow> (case gcm_seal lib key iv data of (body, tag) \<Rightarrow>
        gcm_open lib key iv tag body = Some data \<and> CHR '':'' \<notin> set body \<and> (\<forall>b \<in> set tag. b < 256)))"

text \<open>That a text is authentic under its key: what one key has sealed, another does not open.\<close>

definition gcm_rejects :: "gcm_library \<Rightarrow> nat list \<Rightarrow> nat list \<Rightarrow> bool" where
  "gcm_rejects lib key other \<longleftrightarrow>
     (\<forall>iv data. case gcm_seal lib key iv data of (body, tag) \<Rightarrow> gcm_open lib other iv tag body = None)"

lemma hex_lower_bound: "hex_char c \<Longrightarrow> digit_value (js_lower_char c) < 16"
  using hex_digit_bound [of "js_lower_char c"] by (simp add: hex_char_lower)

lemma hex_bytes_bound: "b \<in> set (hex_bytes s) \<Longrightarrow> b < 256"
proof (induction s rule: hex_bytes.induct)
  case (1 x y s)
  then show ?case using hex_lower_bound [of x] hex_lower_bound [of y] by (auto split: if_splits)
qed simp_all

lemma digit_char_hex: "d < 16 \<Longrightarrow> hex_char (digit_char d) \<and> digit_value (js_lower_char (digit_char d)) = d \<and> digit_char d \<noteq> CHR '':''"
proof -
  have "list_all (\<lambda>d. hex_char (digit_char d) \<and> digit_value (js_lower_char (digit_char d)) = d \<and> digit_char d \<noteq> CHR '':'') [0..<16]"
    by code_simp
  then show "d < 16 \<Longrightarrow> ?thesis" by (simp add: list_all_iff)
qed

lemma hex_bytes_text: "\<forall>b \<in> set bs. b < 256 \<Longrightarrow> hex_bytes (hex_text bs) = bs"
  by (induction bs) (simp_all add: hex_text_def digit_char_hex less_mult_imp_div_less)

lemma hex_text_no_colon: "\<forall>b \<in> set bs. b < 256 \<Longrightarrow> CHR '':'' \<notin> set (hex_text bs)"
proof (induction bs)
  case (Cons b bs)
  then have "b div 16 < 16" "b mod 16 < 16" by (simp_all add: less_mult_imp_div_less)
  then have "digit_char (b div 16) \<noteq> CHR '':''" "digit_char (b mod 16) \<noteq> CHR '':''" using digit_char_hex by blast+
  then show ?case using Cons by (auto simp: hex_text_def)
qed (simp add: hex_text_def)

lemma server_parts:
  assumes "gcm_laws lib" "\<forall>b \<in> set iv. b < 256" "server_provider lib key iv = Some p" "ep_encrypt p s = Some c"
    and seal: "gcm_seal lib (hex_bytes key) iv s = (body, tag)"
  shows "server_decrypt lib k c = gcm_open lib k iv tag body" "gcm_open lib (hex_bytes key) iv tag body = Some s"
    "length (hex_bytes key) = 32"
proof -
  have c: "length (hex_bytes key) = 32" "c = server_encrypt lib (hex_bytes key) iv s"
    using assms(3,4) by (auto simp: server_provider_def Let_def split: if_splits)
  have laws: "gcm_open lib (hex_bytes key) iv tag body = Some s" "CHR '':'' \<notin> set body" "\<forall>b \<in> set tag. b < 256"
    using assms(1) [unfolded gcm_laws_def, rule_format, of "hex_bytes key" iv s] c(1) hex_bytes_bound by (auto simp: seal)
  have "c = hex_text iv @ CHR '':'' # hex_text tag @ CHR '':'' # body" using c(2) by (simp add: server_encrypt_def seal)
  then have "js_split (CHR '':'') c = [hex_text iv, hex_text tag, body]"
    by (simp only: js_split_append [OF hex_text_no_colon [OF assms(2)]] js_split_append [OF hex_text_no_colon [OF laws(3)]]
        js_split_no_sep [OF laws(2)])
  then show "server_decrypt lib k c = gcm_open lib k iv tag body"
    using laws assms(2) by (simp add: server_decrypt_def hex_bytes_text)
  show "gcm_open lib (hex_bytes key) iv tag body = Some s" "length (hex_bytes key) = 32" using laws c by blast+
qed

lemma server_faithful:
  assumes "gcm_laws lib" "\<forall>b \<in> set iv. b < 256" "server_provider lib key iv = Some p"
  shows "faithful_provider (ep_encrypt p) (ep_decrypt p)"
proof
  fix s c assume c: "ep_encrypt p s = Some c"
  obtain body tag where seal: "gcm_seal lib (hex_bytes key) iv s = (body, tag)" by force
  show "ep_decrypt p c = Some s"
    using server_parts [OF assms c seal] assms(3) by (auto simp: server_provider_def Let_def split: if_splits)
qed

lemma other_key_fails:
  assumes "gcm_laws lib" "\<forall>b \<in> set iv. b < 256" "server_provider lib key iv = Some p" "ep_encrypt p s = Some c"
    and "server_provider lib other iv' = Some q" "gcm_rejects lib (hex_bytes key) (hex_bytes other)"
  shows "ep_decrypt q c = None"
proof -
  obtain body tag where seal: "gcm_seal lib (hex_bytes key) iv s = (body, tag)" by force
  have "gcm_open lib (hex_bytes other) iv tag body = None"
    using assms(6) [unfolded gcm_rejects_def, rule_format, of iv s] by (simp add: seal)
  then show ?thesis
    using server_parts(1) [OF assms(1-4) seal] assms(5) by (auto simp: server_provider_def Let_def split: if_splits)
qed

section \<open>What comes back\<close>

lemma draft_read_back: "draft_of_json (draft_json d) = d"
  by (simp add: draft_of_json_def draft_members text_or_def comp_def entry_read_back split: option.split)

text \<open>
  C32: a draft that was encrypted with the server's provider is read back in full by one with the same key, whatever vector
  that one would draw. A provider with another key, under which the cipher does not accept what the first has sealed,
  fails to decrypt it, without a provider nothing is read, and the preview that is stored in clear shows no recipient and
  no amount: drafts that differ only in these have the same preview.
\<close>

theorem encrypted_draft_round_trip:
  assumes "gcm_laws lib" "\<forall>b \<in> set iv. b < 256"
    and "server_provider lib key iv = Some p" "server_provider lib key iv' = Some p'"
    and "server_provider lib other iv'' = Some q" "gcm_rejects lib (hex_bytes key) (hex_bytes other)"
    and "serialize_with_encryption (Some p) now d = Inr pkg"
  shows "(\<exists>j. deserialize_package (Some p') pkg = Inr j \<and> draft_of_json j = d) \<and>
    deserialize_package (Some q) pkg = Inl DecryptionFailed \<and> deserialize_package None pkg = Inl CannotDecrypt \<and>
    pk_redacted_preview pkg = Some (create_redacted_preview
      (d\<lparr>pd_entries := map (\<lambda>e. e\<lparr>de_recipient_id := [], de_amount := [], de_note := None\<rparr>) (pd_entries d)\<rparr>))"
proof -
  obtain c where c: "ep_encrypt p (stringify_json (draft_json d)) = Some c"
    and pkg: "pkg = \<lparr>pk_metadata = metadata_of d (Some now), pk_encrypted_payload = c,
      pk_redacted_preview = Some (create_redacted_preview d)\<rparr>"
    using assms(7) by (auto simp: serialize_with_encryption_def bind_result_Inr_iff split: if_splits option.splits)
  have same: "ep_decrypt p' = ep_decrypt p" "ep_can_encrypt p'" "ep_can_encrypt q"
    using assms(3-5) by (auto simp: server_provider_def Let_def split: if_splits)
  obtain s where "ep_decrypt p c = Some s" "parse_payload s = Inr (draft_json d)"
    using faithful_provider.stored_value_read [OF server_faithful [OF assms(1-3)] draft_json_ok c] by blast
  then have "deserialize_package (Some p') pkg = Inr (draft_json d)"
    by (simp add: deserialize_package_def pkg metadata_of_def same)
  moreover have "deserialize_package (Some q) pkg = Inl DecryptionFailed"
    using other_key_fails [OF assms(1-3) c assms(5,6)] by (simp add: deserialize_package_def pkg metadata_of_def same)
  moreover have "deserialize_package None pkg = Inl CannotDecrypt"
    by (simp add: deserialize_package_def pkg metadata_of_def)
  moreover have "create_redacted_preview d = create_redacted_preview
      (d\<lparr>pd_entries := map (\<lambda>e. e\<lparr>de_recipient_id := [], de_amount := [], de_note := None\<rparr>) (pd_entries d)\<rparr>)"
    by (simp add: create_redacted_preview_def fold_map comp_def)
  ultimately show ?thesis using draft_read_back by (simp add: pkg)
qed

text \<open>A cipher whose tag is the key\<close>

definition toy_gcm :: gcm_library where
  "toy_gcm = \<lparr>gcm_seal = (\<lambda>key iv s. (hex_text (map of_char s), key)),
     gcm_open = (\<lambda>key iv tag body. if tag = key then Some (map char_of (hex_bytes body)) else None)\<rparr>"

lemma toy_gcm_laws: "gcm_laws toy_gcm" "key \<noteq> other \<Longrightarrow> gcm_rejects toy_gcm key other"
proof -
  have "\<forall>b \<in> set (map of_char s). b < (256 :: nat)" for s :: string by simp
  then show "gcm_laws toy_gcm" by (simp add: gcm_laws_def toy_gcm_def hex_bytes_text hex_text_no_colon comp_def)
qed (simp add: gcm_rejects_def toy_gcm_def)

theorem encrypted_draft_round_trip_witness:
  "case serialize_with_encryption (server_provider toy_gcm (replicate 64 CHR ''a'') [7]) 5 example_draft of
     Inl _ \<Rightarrow> False
   | Inr pkg \<Rightarrow>
       (\<exists>j. deserialize_package (server_provider toy_gcm (replicate 64 CHR ''a'') [9]) pkg = Inr j \<and>
          draft_of_json j = example_draft) \<and>
       deserialize_package (server_provider toy_gcm (replicate 64 CHR ''b'') [9]) pkg = Inl DecryptionFailed"
proof -
  let ?key = "replicate 64 CHR ''a''" and ?other = "replicate 64 CHR ''b''"
  obtain p p' q where p: "server_provider toy_gcm ?key [7] = Some p" "server_provider toy_gcm ?key [9] = Some p'"
      "server_provider toy_gcm ?other [9] = Some q"
    by (simp add: server_provider_def Let_def)
  have keys: "length (hex_bytes ?key) = 32" "hex_bytes ?key \<noteq> hex_bytes ?other" by code_simp+
  obtain c where "ep_can_encrypt p" "ep_encrypt p (stringify_json (draft_json example_draft)) = Some c"
    using p(1) keys(1) by (auto simp: server_provider_def Let_def)
  moreover have "validate_draft_for_serialization example_draft = Inr ()" by code_simp
  ultimately obtain pkg where pkg: "serialize_with_encryption (Some p) 5 example_draft = Inr pkg"
    by (simp add: serialize_with_encryption_def)
  show ?thesis
    using encrypted_draft_round_trip [OF toy_gcm_laws(1) _ p(1,2,3) toy_gcm_laws(2) [OF keys(2)] pkg] by (simp add: p pkg)
qed

section \<open>Two readings of an amount\<close>

text \<open>A draft may be built and not stored: the builder reads a prefixed numeral, \<open>parseFloat\<close> reads 0.\<close>

lemma built_but_not_stored:
  "entry_ok \<lparr>de_recipient_id = ''G1'', de_amount = ''0x10'', de_asset = ''XLM'', de_note = None\<rparr>"
  "validate_draft_entry \<lparr>de_recipient_id = ''G1'', de_amount = ''0x10'', de_asset = ''XLM'', de_note = None\<rparr> =
     Inl EntryAmountInvalid"
proof -
  have "js_bigint ''0x10'' = Some 16" by code_simp
  moreover have "\<not> blank ''G1''" "\<not> blank ''0x10''" "\<not> blank ''XLM''" by code_simp+
  ultimately show "entry_ok \<lparr>de_recipient_id = ''G1'', de_amount = ''0x10'', de_asset = ''XLM'', de_note = None\<rparr>"
    by (simp add: entry_ok_def)
qed code_simp

text \<open>One may be stored and not built: \<open>parseFloat\<close> stops at the first character it cannot read.\<close>

lemma stored_but_not_built:
  "validate_draft_entry \<lparr>de_recipient_id = ''G1'', de_amount = ''12.5 XLM'', de_asset = ''XLM'', de_note = None\<rparr> = Inr ()"
  "amount_invalid ''12.5 XLM''"
  by code_simp+

end
