(* ===== verification/ApprovalTimes.thy ===== *)
theory ApprovalTimes
  imports Digits
begin

text \<open>
  The times of an approval request (\<open>authorization/approvalTimestamps.ts\<close>, \<open>approvalExpiry.ts\<close>): which are consistent, and
  how the time left is shown. A time may be any number (\<open>jsnum\<close>); the order \<open>localeCompare\<close> gives texts is a rank passed in.
\<close>

section \<open>Validation of the times\<close>

text \<open>
  Two codes are used that the table of codes does not have: an issue made with them has the code \<open>undefined\<close>.
\<close>

datatype timestamp_code =
  CreatedAtInvalid | CreatedAtInFuture | ExpiresAtInvalid | ExpiresAtBeforeCreatedAt | SignedAtBeforeCreatedAt
| SignedAtAfterExpiry | SignedAtInFuture | RejectedAtBeforeCreatedAt | RejectedAtInFuture | SignerTimestampConflict
| SignerOutcomeTimestampMissing | UndefinedCode

datatype severity = ErrorSeverity | WarningSeverity

datatype issue_field = CreatedAtField | ExpiresAtField | SignerField nat | SignedAtField nat | RejectedAtField nat

record timestamp_issue =
  ti_code :: timestamp_code
  ti_field :: issue_field
  ti_severity :: severity
  ti_critical :: bool

datatype signer_state = Pending | Signed | Rejected

record timed_signer =
  sg_state :: signer_state
  sg_signed_at :: "jsnum option"
  sg_rejected_at :: "jsnum option"

record timed_request =
  tq_created_at :: jsnum
  tq_expires_at :: "jsnum option"
  tq_signers :: "timed_signer list option"

record timestamp_options =
  to_now :: int
  to_clock_skew_ms :: "int option"
  to_strict :: bool

definition default_clock_skew_ms :: int where
  "default_clock_skew_ms = 60000"

definition usable_time :: "jsnum \<Rightarrow> int option" where
  "usable_time v = (case v of NonInteger \<Rightarrow> None | Whole n \<Rightarrow> if 0 \<le> n then Some n else None)"

definition timestamp_issue_of :: "timestamp_code \<Rightarrow> severity \<Rightarrow> issue_field \<Rightarrow> timestamp_issue" where
  "timestamp_issue_of c s f = \<lparr>ti_code = c, ti_field = f, ti_severity = s, ti_critical = (s = ErrorSeverity)\<rparr>"

abbreviation time_error :: "bool \<Rightarrow> timestamp_code \<Rightarrow> issue_field \<Rightarrow> timestamp_issue list" where
  "time_error b c f \<equiv> (if b then [timestamp_issue_of c ErrorSeverity f] else [])"

definition request_issues :: "int \<Rightarrow> int \<Rightarrow> timed_request \<Rightarrow> timestamp_issue list" where
  "request_issues now skew q =
     (let created = usable_time (tq_created_at q);
          expires = Option.bind (tq_expires_at q) usable_time
      in (case created of
            None \<Rightarrow> [timestamp_issue_of CreatedAtInvalid ErrorSeverity CreatedAtField]
          | Some c \<Rightarrow> time_error (skew < c - now) CreatedAtInFuture CreatedAtField) @
         time_error (tq_expires_at q \<noteq> None \<and> expires = None) ExpiresAtInvalid ExpiresAtField @
         (case (created, expires) of
            (Some c, Some e) \<Rightarrow> time_error (e < c) ExpiresAtBeforeCreatedAt ExpiresAtField
          | _ \<Rightarrow> []))"

definition signed_at_issues :: "int \<Rightarrow> int \<Rightarrow> int option \<Rightarrow> int option \<Rightarrow> nat \<Rightarrow> jsnum \<Rightarrow> timestamp_issue list" where
  "signed_at_issues now skew created expires i v =
     (case usable_time v of
        None \<Rightarrow> [timestamp_issue_of UndefinedCode ErrorSeverity (SignedAtField i)]
      | Some t \<Rightarrow>
          time_error (case created of None \<Rightarrow> False | Some c \<Rightarrow> t < c) SignedAtBeforeCreatedAt (SignedAtField i) @
          time_error (case expires of None \<Rightarrow> False | Some e \<Rightarrow> e < t) SignedAtAfterExpiry (SignedAtField i) @
          time_error (skew < t - now) SignedAtInFuture (SignedAtField i))"

definition rejected_at_issues :: "int \<Rightarrow> int \<Rightarrow> int option \<Rightarrow> nat \<Rightarrow> jsnum \<Rightarrow> timestamp_issue list" where
  "rejected_at_issues now skew created i v =
     (case usable_time v of
        None \<Rightarrow> [timestamp_issue_of UndefinedCode ErrorSeverity (RejectedAtField i)]
      | Some t \<Rightarrow>
          time_error (case created of None \<Rightarrow> False | Some c \<Rightarrow> t < c) RejectedAtBeforeCreatedAt (RejectedAtField i) @
          time_error (skew < t - now) RejectedAtInFuture (RejectedAtField i))"

definition signer_issues :: "int \<Rightarrow> int \<Rightarrow> int option \<Rightarrow> int option \<Rightarrow> nat \<Rightarrow> timed_signer \<Rightarrow> timestamp_issue list" where
  "signer_issues now skew created expires i s =
     time_error (sg_signed_at s \<noteq> None \<and> sg_rejected_at s \<noteq> None) SignerTimestampConflict (SignerField i) @
     (case sg_signed_at s of None \<Rightarrow> [] | Some v \<Rightarrow> signed_at_issues now skew created expires i v) @
     (case sg_rejected_at s of None \<Rightarrow> [] | Some v \<Rightarrow> rejected_at_issues now skew created i v) @
     (if (sg_state s = Signed \<or> sg_state s = Rejected) \<and> sg_signed_at s = None \<and> sg_rejected_at s = None
      then [timestamp_issue_of SignerOutcomeTimestampMissing WarningSeverity (SignerField i)] else [])"

record timestamp_result =
  tr_is_valid :: bool
  tr_error_count :: nat
  tr_warning_count :: nat
  tr_issues :: "timestamp_issue list"
  tr_validated_at :: int
  tr_clock_skew_ms :: int

definition raise_severity :: "timestamp_issue \<Rightarrow> timestamp_issue" where
  "raise_severity x = (if ti_severity x = WarningSeverity then x\<lparr>ti_severity := ErrorSeverity, ti_critical := True\<rparr> else x)"

text \<open>The sort by field, then by code; it is stable, as \<open>Array.prototype.sort\<close> is.\<close>

definition validate_approval_timestamps ::
  "(issue_field \<Rightarrow> nat) \<Rightarrow> (timestamp_code \<Rightarrow> nat) \<Rightarrow> timestamp_options \<Rightarrow> timed_request \<Rightarrow> timestamp_result" where
  "validate_approval_timestamps field_rank code_rank opts q =
     (let now = to_now opts;
          skew = (case to_clock_skew_ms opts of None \<Rightarrow> default_clock_skew_ms | Some s \<Rightarrow> s);
          created = usable_time (tq_created_at q);
          expires = Option.bind (tq_expires_at q) usable_time;
          signers = (case tq_signers q of None \<Rightarrow> [] | Some ss \<Rightarrow> ss);
          issues = request_issues now skew q @
            concat (map (\<lambda>(i, s). signer_issues now skew created expires i s) (enumerate 0 signers));
          enriched = (if to_strict opts then map raise_severity issues else issues);
          ordered = sort_key (\<lambda>x. field_rank (ti_field x)) (sort_key (\<lambda>x. code_rank (ti_code x)) enriched);
          errors = filter (\<lambda>x. ti_severity x = ErrorSeverity) ordered;
          warnings = filter (\<lambda>x. ti_severity x = WarningSeverity) ordered
      in \<lparr>tr_is_valid = (errors = []), tr_error_count = length errors, tr_warning_count = length warnings,
          tr_issues = ordered, tr_validated_at = now, tr_clock_skew_ms = skew\<rparr>)"

definition are_approval_timestamps_valid ::
  "(issue_field \<Rightarrow> nat) \<Rightarrow> (timestamp_code \<Rightarrow> nat) \<Rightarrow> timestamp_options \<Rightarrow> timed_request \<Rightarrow> bool" where
  "are_approval_timestamps_valid field_rank code_rank opts q =
     tr_is_valid (validate_approval_timestamps field_rank code_rank opts q)"

section \<open>Expiry\<close>

datatype expiry_state = ActiveRequest | ExpiringSoon | ExpiredRequest | MissingExpiry

definition default_expiring_soon_ms :: int where
  "default_expiring_soon_ms = 60 * 60 * 1000"

definition get_approval_expiry_state :: "int option \<Rightarrow> int \<Rightarrow> int \<Rightarrow> expiry_state" where
  "get_approval_expiry_state expires_at now threshold =
     (case expires_at of
        None \<Rightarrow> MissingExpiry
      | Some e \<Rightarrow>
          let remaining = e - now in
          if remaining \<le> 0 then ExpiredRequest else if remaining \<le> threshold then ExpiringSoon else ActiveRequest)"

datatype badge = DefaultBadge | SuccessBadge | WarningBadge | DangerBadge

record expiry_status =
  xs_state :: expiry_state
  xs_label :: string
  xs_variant :: badge
  xs_remaining_ms :: "int option"

fun expiry_label :: "expiry_state \<Rightarrow> string" where
  "expiry_label ActiveRequest = ''Active''"
| "expiry_label ExpiringSoon = ''Expiring Soon''"
| "expiry_label ExpiredRequest = ''Expired''"
| "expiry_label MissingExpiry = ''No Expiry''"

fun expiry_variant :: "expiry_state \<Rightarrow> badge" where
  "expiry_variant ActiveRequest = SuccessBadge"
| "expiry_variant ExpiringSoon = WarningBadge"
| "expiry_variant ExpiredRequest = DangerBadge"
| "expiry_variant MissingExpiry = DefaultBadge"

definition format_approval_expiry :: "int option \<Rightarrow> int \<Rightarrow> int \<Rightarrow> expiry_status" where
  "format_approval_expiry expires_at now threshold =
     (let state = get_approval_expiry_state expires_at now threshold
      in \<lparr>xs_state = state, xs_label = expiry_label state, xs_variant = expiry_variant state,
          xs_remaining_ms = map_option (\<lambda>e. e - now) expires_at\<rparr>)"

definition magnitude_text :: "int \<Rightarrow> string" where
  "magnitude_text ms =
     (let minutes = ms div 60000; hours = minutes div 60; days = hours div 24
      in if 0 < days then int_string days @ ''d'' else if 0 < hours then int_string hours @ ''h''
         else if 0 < minutes then int_string minutes @ ''m'' else ''<1m'')"

definition format_approval_expiry_countdown :: "int option \<Rightarrow> int \<Rightarrow> string" where
  "format_approval_expiry_countdown expires_at now =
     (case expires_at of
        None \<Rightarrow> ''no expiry''
      | Some e \<Rightarrow>
          if 0 \<le> e - now then magnitude_text \<bar>e - now\<bar> @ '' left'' else ''expired '' @ magnitude_text \<bar>e - now\<bar> @ '' ago'')"

section \<open>Which requests pass\<close>

text \<open>The reference: every time is one, and they are in the order in which things happen.\<close>

definition signer_times_ok :: "int \<Rightarrow> int \<Rightarrow> int option \<Rightarrow> timed_signer \<Rightarrow> bool" where
  "signer_times_ok latest created expires s \<longleftrightarrow>
     (case (sg_signed_at s, sg_rejected_at s) of
        (None, None) \<Rightarrow> True
      | (Some v, None) \<Rightarrow> (\<exists>t. usable_time v = Some t \<and> created \<le> t \<and> t \<le> latest \<and> (case expires of None \<Rightarrow> True | Some e \<Rightarrow> t \<le> e))
      | (None, Some v) \<Rightarrow> (\<exists>t. usable_time v = Some t \<and> created \<le> t \<and> t \<le> latest)
      | (Some _, Some _) \<Rightarrow> False)"

definition request_times_ok :: "int \<Rightarrow> timed_request \<Rightarrow> bool" where
  "request_times_ok latest q \<longleftrightarrow>
     (\<exists>c. usable_time (tq_created_at q) = Some c \<and> c \<le> latest \<and>
       (case tq_expires_at q of
          None \<Rightarrow> list_all (signer_times_ok latest c None) (case tq_signers q of None \<Rightarrow> [] | Some ss \<Rightarrow> ss)
        | Some v \<Rightarrow> (\<exists>e. usable_time v = Some e \<and> c \<le> e \<and>
            list_all (signer_times_ok latest c (Some e)) (case tq_signers q of None \<Rightarrow> [] | Some ss \<Rightarrow> ss))))"

definition outcome_recorded :: "timed_signer \<Rightarrow> bool" where
  "outcome_recorded s \<longleftrightarrow> sg_state s = Pending \<or> sg_signed_at s \<noteq> None \<or> sg_rejected_at s \<noteq> None"

definition fatal :: "bool \<Rightarrow> timestamp_issue list \<Rightarrow> bool" where
  "fatal strict xs \<longleftrightarrow> list_ex (\<lambda>x. strict \<or> ti_severity x = ErrorSeverity) xs"

lemma fatal_simps [simp]:
  "\<not> fatal strict []" "fatal strict (xs @ ys) \<longleftrightarrow> fatal strict xs \<or> fatal strict ys"
  "fatal strict (time_error b c f) \<longleftrightarrow> b"
  "fatal strict (timestamp_issue_of c ErrorSeverity f # xs)"
  "fatal strict [timestamp_issue_of c WarningSeverity f] \<longleftrightarrow> strict"
  by (simp_all add: fatal_def timestamp_issue_of_def)

lemma fatal_concat: "fatal strict (concat xss) \<longleftrightarrow> list_ex (fatal strict) xss"
  by (induction xss) simp_all

lemma signer_fatal_iff:
  "\<not> fatal strict (signer_issues now skew (Some c) expires i s) \<longleftrightarrow>
     signer_times_ok (now + skew) c expires s \<and> (strict \<longrightarrow> outcome_recorded s)"
proof -
  have time: "\<not> fatal strict (signed_at_issues now skew (Some c) expires i v) \<longleftrightarrow>
      (\<exists>t. usable_time v = Some t \<and> c \<le> t \<and> t \<le> now + skew \<and> (case expires of None \<Rightarrow> True | Some e \<Rightarrow> t \<le> e))" for v
    by (cases "usable_time v"; cases expires) (auto simp: signed_at_issues_def simp del: fatal_simps(3) simp: fatal_def timestamp_issue_of_def)
  have rejected: "\<not> fatal strict (rejected_at_issues now skew (Some c) i v) \<longleftrightarrow>
      (\<exists>t. usable_time v = Some t \<and> c \<le> t \<and> t \<le> now + skew)" for v
    by (cases "usable_time v") (auto simp: rejected_at_issues_def fatal_def timestamp_issue_of_def)
  show ?thesis
    by (cases "sg_signed_at s"; cases "sg_rejected_at s"; cases "sg_state s")
      (auto simp: signer_issues_def signer_times_ok_def outcome_recorded_def time rejected)
qed


lemma signer_fatal:
  "fatal strict (signer_issues now skew (Some c) expires i s) \<longleftrightarrow>
     \<not> (signer_times_ok (now + skew) c expires s \<and> (strict \<longrightarrow> outcome_recorded s))"
  using signer_fatal_iff by blast

lemma request_fatal_iff:
  "\<not> fatal strict (request_issues now skew q) \<longleftrightarrow>
     (\<exists>c. usable_time (tq_created_at q) = Some c \<and> c \<le> now + skew \<and>
       (case tq_expires_at q of None \<Rightarrow> True | Some v \<Rightarrow> (\<exists>e. usable_time v = Some e \<and> c \<le> e)))"
proof (cases "usable_time (tq_created_at q)")
  case (Some c)
  show ?thesis
  proof (cases "tq_expires_at q")
    case (Some v)
    then show ?thesis using \<open>usable_time (tq_created_at q) = Some c\<close>
      by (cases "usable_time v") (auto simp: request_issues_def Let_def)
  qed (auto simp: request_issues_def Let_def Some)
qed (simp add: request_issues_def Let_def)

lemma raised [simp]: "ti_severity (raise_severity x) = ErrorSeverity"
  by (cases "ti_severity x") (simp_all add: raise_severity_def)

lemma sorted_errors:
  "filter P (sort_key f (sort_key g xs)) = [] \<longleftrightarrow> filter P xs = []"
  by (simp add: filter_empty_conv)

lemma valid_iff_not_fatal:
  "filter (\<lambda>x. ti_severity x = ErrorSeverity) (if strict then map raise_severity xs else xs) = [] \<longleftrightarrow> \<not> fatal strict xs"
  by (cases strict) (auto simp: fatal_def filter_empty_conv list_ex_iff)

text \<open>
  a request passes exactly if its times are numbers in the order of the events: created no later than now, with the
  skew allowed, before it expires, and each signer with one outcome, not before the creation, not after now and, for a
  signature, not after the expiry; the strict check also asks every outcome for its time. A listed time that is no whole
  number of milliseconds never passes.
\<close>

theorem valid_times_iff:
  "tr_is_valid (validate_approval_timestamps field_rank code_rank opts q) =
     (request_times_ok (to_now opts + (case to_clock_skew_ms opts of None \<Rightarrow> default_clock_skew_ms | Some s \<Rightarrow> s)) q \<and>
      (if to_strict opts then list_all outcome_recorded (case tq_signers q of None \<Rightarrow> [] | Some ss \<Rightarrow> ss) else True))"
proof -
  let ?skew = "case to_clock_skew_ms opts of None \<Rightarrow> default_clock_skew_ms | Some s \<Rightarrow> s"
  let ?ss = "case tq_signers q of None \<Rightarrow> [] | Some ss \<Rightarrow> ss"
  let ?e = "Option.bind (tq_expires_at q) usable_time"
  have all: "list_ex (fatal s) (map (\<lambda>(i, x). signer_issues now skew (Some c) e i x) (enumerate n xs)) \<longleftrightarrow>
      \<not> list_all (\<lambda>x. signer_times_ok (now + skew) c e x \<and> (s \<longrightarrow> outcome_recorded x)) xs" for s now skew c e n xs
    by (induction xs arbitrary: n) (simp_all add: signer_fatal)
  have valid: "tr_is_valid (validate_approval_timestamps field_rank code_rank opts q) \<longleftrightarrow>
      \<not> fatal (to_strict opts) (request_issues (to_now opts) ?skew q) \<and>
      \<not> list_ex (fatal (to_strict opts)) (map (\<lambda>(i, s). signer_issues (to_now opts) ?skew (usable_time (tq_created_at q)) ?e i s)
        (enumerate 0 ?ss))"
    by (simp add: validate_approval_timestamps_def Let_def sorted_errors valid_iff_not_fatal fatal_concat)
  show ?thesis
  proof (cases "fatal (to_strict opts) (request_issues (to_now opts) ?skew q)")
    case True
    then show ?thesis using valid request_fatal_iff [of "to_strict opts" "to_now opts" ?skew q]
      by (auto simp: request_times_ok_def split: option.splits)
  next
    case False
    then obtain c where c: "usable_time (tq_created_at q) = Some c" "c \<le> to_now opts + ?skew"
      and e: "case tq_expires_at q of None \<Rightarrow> True | Some v \<Rightarrow> (\<exists>e. usable_time v = Some e \<and> c \<le> e)"
      using request_fatal_iff by blast
    have "request_times_ok (to_now opts + ?skew) q \<longleftrightarrow> list_all (signer_times_ok (to_now opts + ?skew) c ?e) ?ss"
      using c e by (cases "tq_expires_at q") (auto simp: request_times_ok_def)
    then show ?thesis using valid False c by (auto simp: all list_all_iff)
  qed
qed

text \<open>
  The two views of the time left disagree at the moment of expiry: the state says it has passed, the countdown that time is
  left.
\<close>

lemma expired_with_time_left:
  "get_approval_expiry_state (Some t) t threshold = ExpiredRequest"
  "format_approval_expiry_countdown (Some t) t = ''<1m left''"
  by (simp_all add: get_approval_expiry_state_def format_approval_expiry_countdown_def magnitude_text_def)

text \<open>Before that moment the two agree.\<close>

lemma magnitude_start: "\<not> is_prefix ''expired '' (magnitude_text ms @ u)"
proof -
  have "\<not> is_prefix ''expired '' (int_string k @ v)" if "0 < k" for k v
  proof -
    obtain c s where d: "dec_string (nat k) = c # s" using radix_string_nonempty by (cases "dec_string (nat k)") auto
    then have c: "int_string k = c # s" using that by (simp add: int_string_def)
    have "is_digit c" using d dec_string_digits [of "nat k"] by simp
    then show ?thesis by (auto simp: c is_digit_iff)
  qed
  then show ?thesis by (auto simp: magnitude_text_def Let_def)
qed

lemma expiry_views_agree:
  "e \<noteq> now \<Longrightarrow> get_approval_expiry_state (Some e) now threshold = ExpiredRequest \<longleftrightarrow>
     is_prefix ''expired '' (format_approval_expiry_countdown (Some e) now)"
  using magnitude_start by (auto simp: get_approval_expiry_state_def format_approval_expiry_countdown_def Let_def)

text \<open>A signature time that is no number is reported, but with no code a caller could branch on.\<close>

lemma unusable_time_has_no_code:
  "usable_time v = None \<Longrightarrow> map ti_code (signed_at_issues now skew created expires i v) = [UndefinedCode]"
  by (simp add: signed_at_issues_def timestamp_issue_of_def)

end
