(* ===== verification/OfflineDrafts.thy ===== *)
theory OfflineDrafts
  imports Digits
begin

text \<open>
  The validator of drafts without a network (\<open>validation/OfflineDraftValidator.ts\<close>, \<open>validation/types.ts\<close>): the checks of a
  draft, of each record, of duplicates and of the batch, the presets, and which drafts pass. A text that is missing is the
  empty one. Messages and times are left out.
\<close>

section \<open>Drafts and issues\<close>

record offline_record =
  or_employee_id :: string
  or_employee_name :: string
  or_amount :: int
  or_asset :: string
  or_period :: string
  or_notes :: string
  or_requires_approval :: bool
  or_is_approved :: bool

record redaction_policy =
  rd_employee_names :: bool
  rd_amounts :: bool
  rd_employee_ids :: bool
  rd_notes :: bool

text \<open>\<open>NoRecords\<close>: the field is \<open>undefined\<close> or \<open>null\<close>\<close>

datatype draft_records = Records "offline_record list" | NoRecords

record offline_draft =
  od_draft_id :: string
  od_employer :: string
  od_records :: draft_records
  od_redaction_policy :: "redaction_policy option"

datatype issue_severity = Blocker | Warning

datatype issue_category =
  EmployeeData | AssetFormat | AmountCategory | PeriodCategory | DuplicateCategory | RedactionCategory | ApprovalCategory
| StructureCategory | PolicyCategory | OtherCategory

datatype issue_code =
  InvalidEmployeeId | MissingEmployeeId | InvalidAssetFormat | MissingAssetCode | AmountExceedsMax | AmountBelowMin
| ZeroAmountNotAllowed | NegativeAmount | InvalidPeriodFormat | MissingPeriod | DuplicateEmployeeInPeriod
| RedactionPolicyViolation | MissingRequiredApproval | EmptyDraftCode | TooManyRecords | MissingDraftId | MissingEmployer
| EmptyBatch | ZeroTotalBatch | InternalValidationError

record validation_issue =
  vi_severity :: issue_severity
  vi_category :: issue_category
  vi_code :: issue_code
  vi_record_index :: "nat option"

text \<open>A custom validator gives its issues, or throws.\<close>

type_synonym custom_validator = "offline_draft \<Rightarrow> validation_issue list option"

record validation_config =
  vc_employee_data :: bool
  vc_asset_format :: bool
  vc_amounts :: bool
  vc_period :: bool
  vc_duplicates :: bool
  vc_redaction :: bool
  vc_approvals :: bool
  vc_min_amount :: "int option"
  vc_max_amount :: "int option"
  vc_allow_zero_amounts :: bool
  vc_max_records :: "nat option"
  vc_allow_missing_approvals :: bool
  vc_custom_validators :: "custom_validator list"

definition strict_preset :: validation_config where
  "strict_preset =
     \<lparr>vc_employee_data = True, vc_asset_format = True, vc_amounts = True, vc_period = True, vc_duplicates = True,
      vc_redaction = True, vc_approvals = True, vc_min_amount = Some 1000000, vc_max_amount = Some 100000000000,
      vc_allow_zero_amounts = False, vc_max_records = Some 10000, vc_allow_missing_approvals = False,
      vc_custom_validators = []\<rparr>"

definition standard_preset :: validation_config where
  "standard_preset =
     \<lparr>vc_employee_data = True, vc_asset_format = True, vc_amounts = True, vc_period = True, vc_duplicates = True,
      vc_redaction = False, vc_approvals = False, vc_min_amount = Some 0, vc_max_amount = None,
      vc_allow_zero_amounts = False, vc_max_records = Some 100000, vc_allow_missing_approvals = True,
      vc_custom_validators = []\<rparr>"

definition lenient_preset :: validation_config where
  "lenient_preset =
     \<lparr>vc_employee_data = True, vc_asset_format = True, vc_amounts = True, vc_period = False, vc_duplicates = False,
      vc_redaction = False, vc_approvals = False, vc_min_amount = Some 0, vc_max_amount = None,
      vc_allow_zero_amounts = False, vc_max_records = Some 1000000, vc_allow_missing_approvals = True,
      vc_custom_validators = []\<rparr>"

text \<open>The constructor spreads the given settings, a change of the defaults, over the standard preset.\<close>

definition new_validator :: "(validation_config \<Rightarrow> validation_config) option \<Rightarrow> validation_config" where
  "new_validator settings = (case settings of None \<Rightarrow> standard_preset | Some f \<Rightarrow> f standard_preset)"

section \<open>Checks\<close>

definition issue :: "issue_severity \<Rightarrow> issue_category \<Rightarrow> issue_code \<Rightarrow> nat option \<Rightarrow> validation_issue" where
  "issue s c k i = \<lparr>vi_severity = s, vi_category = c, vi_code = k, vi_record_index = i\<rparr>"

abbreviation issue_if :: "bool \<Rightarrow> issue_severity \<Rightarrow> issue_category \<Rightarrow> issue_code \<Rightarrow> nat option \<Rightarrow> validation_issue list" where
  "issue_if b s c k i \<equiv> (if b then [issue s c k i] else [])"

definition is_valid_stellar_address :: "string \<Rightarrow> bool" where
  "is_valid_stellar_address a \<longleftrightarrow> is_prefix ''G'' a \<and> 56 \<le> length a"

definition is_redacted :: "string \<Rightarrow> bool" where
  "is_redacted v \<longleftrightarrow> occurs_in ''[REDACTED]'' v \<or> occurs_in ''***'' v \<or> v = ''REDACTED''"

definition id_char :: "char \<Rightarrow> bool" where
  "id_char c \<longleftrightarrow>
     (let n = (of_char c :: nat) in (65 \<le> n \<and> n \<le> 90) \<or> (97 \<le> n \<and> n \<le> 122) \<or> is_digit c) \<or> c \<in> set ''-._@[]''"

definition is_valid_employee_id :: "string \<Rightarrow> bool" where
  "is_valid_employee_id s \<longleftrightarrow> is_redacted s \<or> (3 \<le> length s \<and> length s \<le> 256 \<and> list_all id_char s)"

definition is_valid_asset :: "string \<Rightarrow> bool" where
  "is_valid_asset a \<longleftrightarrow> a \<noteq> [] \<and> (a = ''native'' \<or> (is_prefix ''C'' a \<and> 56 \<le> length a))"

fun is_valid_period :: "string \<Rightarrow> bool" where
  "is_valid_period [y1, y2, y3, y4, d, m1, m2] = (list_all is_digit [y1, y2, y3, y4, m1, m2] \<and> d = CHR ''-'')"
| "is_valid_period _ = False"

definition validate_structure :: "validation_config \<Rightarrow> offline_draft \<Rightarrow> validation_issue list" where
  "validate_structure cfg d =
     issue_if (blank (od_draft_id d)) Blocker StructureCategory MissingDraftId None @
     issue_if (\<not> is_valid_stellar_address (od_employer d)) Blocker StructureCategory MissingEmployer None @
     (case od_records d of
        NoRecords \<Rightarrow> [issue Blocker StructureCategory EmptyDraftCode None]
      | Records rs \<Rightarrow>
          issue_if (rs = []) Blocker StructureCategory EmptyDraftCode None @
          issue_if (case vc_max_records cfg of None \<Rightarrow> False | Some m \<Rightarrow> m \<noteq> 0 \<and> m < length rs) Blocker StructureCategory
            TooManyRecords None)"

definition validate_amount :: "validation_config \<Rightarrow> int \<Rightarrow> nat \<Rightarrow> validation_issue list" where
  "validate_amount cfg a i =
     (if a < 0 then [issue Blocker AmountCategory NegativeAmount (Some i)]
      else
        issue_if (a = 0 \<and> \<not> vc_allow_zero_amounts cfg) Blocker AmountCategory ZeroAmountNotAllowed (Some i) @
        issue_if (case vc_min_amount cfg of None \<Rightarrow> False | Some m \<Rightarrow> 0 < a \<and> a < m) Warning AmountCategory AmountBelowMin (Some i) @
        issue_if (case vc_max_amount cfg of None \<Rightarrow> False | Some m \<Rightarrow> m < a) Blocker AmountCategory AmountExceedsMax (Some i))"

definition validate_redaction :: "redaction_policy \<Rightarrow> offline_record \<Rightarrow> nat \<Rightarrow> validation_issue list" where
  "validate_redaction p r i =
     (let violation = (\<lambda>b. issue_if b Warning RedactionCategory RedactionPolicyViolation (Some i))
      in violation (rd_employee_names p \<and> or_employee_name r \<noteq> [] \<and> \<not> is_redacted (or_employee_name r)) @
         violation (rd_amounts p \<and> \<not> is_redacted (int_string (or_amount r))) @
         violation (rd_employee_ids p \<and> or_employee_id r \<noteq> [] \<and> \<not> is_redacted (or_employee_id r)) @
         violation (rd_notes p \<and> or_notes r \<noteq> [] \<and> \<not> is_redacted (or_notes r)))"

definition employee_issues :: "offline_record \<Rightarrow> nat \<Rightarrow> validation_issue list" where
  "employee_issues r i =
     (if blank (or_employee_id r) then [issue Blocker EmployeeData MissingEmployeeId (Some i)]
      else issue_if (\<not> is_valid_employee_id (or_employee_id r)) Warning EmployeeData InvalidEmployeeId (Some i))"

definition asset_issues :: "offline_record \<Rightarrow> nat \<Rightarrow> validation_issue list" where
  "asset_issues r i =
     (if blank (or_asset r) then [issue Blocker AssetFormat MissingAssetCode (Some i)]
      else issue_if (\<not> is_valid_asset (or_asset r)) Blocker AssetFormat InvalidAssetFormat (Some i))"

definition period_issues :: "offline_record \<Rightarrow> nat \<Rightarrow> validation_issue list" where
  "period_issues r i =
     (if blank (or_period r) then [issue Blocker PeriodCategory MissingPeriod (Some i)]
      else issue_if (\<not> is_valid_period (or_period r)) Blocker PeriodCategory InvalidPeriodFormat (Some i))"

definition validate_record :: "validation_config \<Rightarrow> offline_draft \<Rightarrow> offline_record \<Rightarrow> nat \<Rightarrow> validation_issue list" where
  "validate_record cfg d r i =
     (if vc_employee_data cfg then employee_issues r i else []) @
     (if vc_asset_format cfg then asset_issues r i else []) @
     (if vc_amounts cfg then validate_amount cfg (or_amount r) i else []) @
     (if vc_period cfg then period_issues r i else []) @
     issue_if (vc_approvals cfg \<and> or_requires_approval r \<and> \<not> or_is_approved r \<and> \<not> vc_allow_missing_approvals cfg)
       Blocker ApprovalCategory MissingRequiredApproval (Some i) @
     (case od_redaction_policy d of
        None \<Rightarrow> [] | Some p \<Rightarrow> if vc_redaction cfg then validate_redaction p r i else [])"

definition duplicate_key :: "offline_record \<Rightarrow> string" where
  "duplicate_key r = or_employee_id r @ '':'' @ or_asset r @ '':'' @ or_period r"

fun check_duplicates :: "nat \<Rightarrow> offline_record list \<Rightarrow> (string, nat) dict \<Rightarrow> validation_issue list" where
  "check_duplicates i [] seen = []"
| "check_duplicates i (r # rs) seen =
     (if is_redacted (or_employee_id r) then check_duplicates (Suc i) rs seen
      else case dict_get seen (duplicate_key r) of
        Some j \<Rightarrow> issue Blocker DuplicateCategory DuplicateEmployeeInPeriod (Some i) # check_duplicates (Suc i) rs seen
      | None \<Rightarrow> check_duplicates (Suc i) rs (dict_put (duplicate_key r) i seen))"

definition validate_batch_constraints :: "offline_record list \<Rightarrow> validation_issue list" where
  "validate_batch_constraints rs =
     (if rs = [] then [issue Blocker StructureCategory EmptyBatch None]
      else issue_if (sum_list (map or_amount rs) = 0) Blocker AmountCategory ZeroTotalBatch None)"

definition run_custom :: "offline_draft \<Rightarrow> custom_validator \<Rightarrow> validation_issue list" where
  "run_custom d v = (case v d of None \<Rightarrow> [issue Blocker OtherCategory InternalValidationError None] | Some xs \<Rightarrow> xs)"

section \<open>The validator\<close>

record offline_result =
  of_is_valid :: bool
  of_is_ready_to_submit :: bool
  of_blockers :: "validation_issue list"
  of_warnings :: "validation_issue list"
  of_total_records :: nat
  of_valid_records :: nat
  of_records_with_issues :: nat

definition is_blocker :: "validation_issue \<Rightarrow> bool" where
  "is_blocker x \<longleftrightarrow> vi_severity x = Blocker"

definition is_warning :: "validation_issue \<Rightarrow> bool" where
  "is_warning x \<longleftrightarrow> vi_severity x = Warning"

definition build_result :: "nat \<Rightarrow> validation_issue list \<Rightarrow> nat \<Rightarrow> offline_result" where
  "build_result n issues valid =
     (let blockers = filter is_blocker issues; warnings = filter is_warning issues
      in \<lparr>of_is_valid = (blockers = []), of_is_ready_to_submit = (blockers = [] \<and> length warnings < 5),
          of_blockers = blockers, of_warnings = warnings, of_total_records = n, of_valid_records = valid,
          of_records_with_issues = n - valid\<rparr>)"

datatype validator_exception = TypeErrorThrown

definition record_issues :: "validation_config \<Rightarrow> offline_draft \<Rightarrow> offline_record list \<Rightarrow> validation_issue list list" where
  "record_issues cfg d rs = map (\<lambda>(i, r). validate_record cfg d r i) (enumerate 0 rs)"

text \<open>
  A draft without records stops at its structure, and reading the number of its records throws out of the handler too.
\<close>

definition validate_offline ::
  "validation_config \<Rightarrow> offline_draft option \<Rightarrow> (validator_exception, offline_result) result" where
  "validate_offline cfg draft =
     (case draft of
        None \<Rightarrow> Inr (build_result 0 [issue Blocker StructureCategory MissingDraftId None] 0)
      | Some d \<Rightarrow>
          let structure = validate_structure cfg d in
          (case od_records d of
             NoRecords \<Rightarrow> Inl TypeErrorThrown
           | Records rs \<Rightarrow>
               if list_ex (\<lambda>x. is_blocker x \<and> vi_category x = StructureCategory) structure
               then Inr (build_result (length rs) structure 0)
               else let records = record_issues cfg d rs in
                 Inr (build_result (length rs)
                   (structure @ concat records @
                    (if vc_duplicates cfg then check_duplicates 0 rs [] else []) @
                    validate_batch_constraints rs @
                    concat (map (run_custom d) (vc_custom_validators cfg)))
                   (length (filter (\<lambda>xs. filter is_blocker xs = []) records)))))"

section \<open>Which drafts pass\<close>

definition amount_ok :: "validation_config \<Rightarrow> int \<Rightarrow> bool" where
  "amount_ok cfg a \<longleftrightarrow> 0 \<le> a \<and> (a = 0 \<longrightarrow> vc_allow_zero_amounts cfg) \<and> (case vc_max_amount cfg of None \<Rightarrow> True | Some m \<Rightarrow> a \<le> m)"

definition record_ok :: "validation_config \<Rightarrow> offline_record \<Rightarrow> bool" where
  "record_ok cfg r \<longleftrightarrow>
     (vc_employee_data cfg \<longrightarrow> \<not> blank (or_employee_id r)) \<and> (vc_asset_format cfg \<longrightarrow> is_valid_asset (or_asset r)) \<and>
     (vc_amounts cfg \<longrightarrow> amount_ok cfg (or_amount r)) \<and> (vc_period cfg \<longrightarrow> is_valid_period (or_period r)) \<and>
     (vc_approvals cfg \<longrightarrow> or_requires_approval r \<longrightarrow> or_is_approved r \<or> vc_allow_missing_approvals cfg)"

definition structure_ok :: "validation_config \<Rightarrow> offline_draft \<Rightarrow> offline_record list \<Rightarrow> bool" where
  "structure_ok cfg d rs \<longleftrightarrow>
     \<not> blank (od_draft_id d) \<and> is_valid_stellar_address (od_employer d) \<and> rs \<noteq> [] \<and>
     (case vc_max_records cfg of None \<Rightarrow> True | Some m \<Rightarrow> m = 0 \<or> length rs \<le> m)"

lemma issue_sel [simp]:
  "is_blocker (issue s c k i) \<longleftrightarrow> s = Blocker" "is_warning (issue s c k i) \<longleftrightarrow> s = Warning" "vi_category (issue s c k i) = c"
  by (simp_all add: issue_def is_blocker_def is_warning_def)

lemma valid_asset_not_blank: "is_valid_asset a \<Longrightarrow> \<not> blank a"
  by (auto simp: is_valid_asset_def blank_iff is_prefix_iff js_space_def)

lemma valid_period_not_blank: "is_valid_period p \<Longrightarrow> \<not> blank p"
  by (cases p rule: is_valid_period.cases) (auto simp: blank_iff is_digit_not_space)

lemma amount_blockers: "filter is_blocker (validate_amount cfg a i) = [] \<longleftrightarrow> amount_ok cfg a"
  by (auto simp: validate_amount_def amount_ok_def split: option.split)

lemma redaction_blockers: "filter is_blocker (validate_redaction p r i) = []"
  by (simp add: validate_redaction_def Let_def)

lemma record_blockers: "filter is_blocker (validate_record cfg d r i) = [] \<longleftrightarrow> record_ok cfg r"
  using valid_asset_not_blank valid_period_not_blank amount_blockers [of cfg "or_amount r" i]
  by (auto simp: validate_record_def record_ok_def employee_issues_def asset_issues_def period_issues_def redaction_blockers
      split: option.split)


lemma records_blockers: "filter is_blocker (concat (record_issues cfg d rs)) = [] \<longleftrightarrow> list_all (record_ok cfg) rs"
proof -
  have "filter is_blocker (concat (map (\<lambda>(i, r). validate_record cfg d r i) (enumerate n xs))) = [] \<longleftrightarrow> list_all (record_ok cfg) xs" for n xs
    by (induction xs arbitrary: n) (simp_all add: record_blockers)
  then show ?thesis by (simp add: record_issues_def)
qed

text \<open>The records whose employee is not redacted, which are compared with each other\<close>

definition compared :: "offline_record list \<Rightarrow> offline_record list" where
  "compared rs = filter (\<lambda>r. \<not> is_redacted (or_employee_id r)) rs"

lemma no_duplicates_iff:
  "check_duplicates i rs seen = [] \<longleftrightarrow>
     distinct (map duplicate_key (compared rs)) \<and> (\<forall>r \<in> set (compared rs). dict_get seen (duplicate_key r) = None)"
proof (induction i rs seen rule: check_duplicates.induct)
  case (2 i r rs seen)
  show ?case
  proof (cases "is_redacted (or_employee_id r)")
    case True
    then show ?thesis using 2 by (simp add: compared_def)
  next
    case False
    show ?thesis
    proof (cases "dict_get seen (duplicate_key r)")
      case None
      then have ih: "check_duplicates (Suc i) rs (dict_put (duplicate_key r) i seen) = [] \<longleftrightarrow>
          distinct (map duplicate_key (compared rs)) \<and>
          (\<forall>x \<in> set (compared rs). dict_get (dict_put (duplicate_key r) i seen) (duplicate_key x) = None)"
        using "2.IH" False by blast
      have "dict_get (dict_put (duplicate_key r) i seen) k = None \<longleftrightarrow> k \<noteq> duplicate_key r \<and> dict_get seen k = None" for k
        by (simp add: update_conv')
      moreover have "compared (r # rs) = r # compared rs" using False by (simp add: compared_def)
      ultimately show ?thesis using None False ih by (auto simp: image_iff)
    qed (use False in \<open>simp add: compared_def\<close>)
  qed
qed (simp add: compared_def)

lemma duplicates_are_blockers: "filter is_blocker (check_duplicates i rs seen) = check_duplicates i rs seen"
  by (induction i rs seen rule: check_duplicates.induct) (simp_all split: option.split)

lemma structure_blockers:
  assumes "od_records d = Records rs"
  shows "list_ex (\<lambda>x. is_blocker x \<and> vi_category x = StructureCategory) (validate_structure cfg d) \<longleftrightarrow> \<not> structure_ok cfg d rs"
    and "filter is_blocker (validate_structure cfg d) = [] \<longleftrightarrow> structure_ok cfg d rs"
  by (auto simp: validate_structure_def structure_ok_def assms split: option.split)

text \<open>
  a draft passes without custom checks exactly if it has a name, an employer and an allowed number of records, every
  record is complete where the settings ask for it with an amount in range and its approval, no employee who is not
  redacted is paid twice in an asset and period, and the amounts do not add up to nothing; and it is ready exactly if
  fewer than five warnings are left.
\<close>

theorem offline_valid_iff:
  assumes "vc_custom_validators cfg = []" "od_records d = Records rs"
  shows "\<exists>res. validate_offline cfg (Some d) = Inr res \<and>
    (of_is_valid res \<longleftrightarrow>
       structure_ok cfg d rs \<and> list_all (record_ok cfg) rs \<and> sum_list (map or_amount rs) \<noteq> 0 \<and>
       (vc_duplicates cfg \<longrightarrow> distinct (map duplicate_key (compared rs)))) \<and>
    (of_is_ready_to_submit res \<longleftrightarrow> of_is_valid res \<and> length (of_warnings res) < 5)"
proof (cases "structure_ok cfg d rs")
  case False
  then show ?thesis
    using structure_blockers [OF assms(2)] by (simp add: validate_offline_def assms(2) Let_def build_result_def)
next
  case True
  then have "rs \<noteq> []" by (simp add: structure_ok_def)
  then have batch: "filter is_blocker (validate_batch_constraints rs) = [] \<longleftrightarrow> sum_list (map or_amount rs) \<noteq> 0"
    by (simp add: validate_batch_constraints_def)
  have duplicates: "filter is_blocker (if vc_duplicates cfg then check_duplicates 0 rs [] else []) = [] \<longleftrightarrow>
      (vc_duplicates cfg \<longrightarrow> distinct (map duplicate_key (compared rs)))"
    by (simp add: duplicates_are_blockers no_duplicates_iff)
  show ?thesis
    using True structure_blockers [OF assms(2)] records_blockers [of cfg d rs] batch duplicates
    by (simp add: validate_offline_def assms Let_def build_result_def) blast
qed

definition example_record :: offline_record where
  "example_record = \<lparr>or_employee_id = ''emp-1'', or_employee_name = [], or_amount = 5, or_asset = ''native'',
     or_period = ''2024-13'', or_notes = [], or_requires_approval = False, or_is_approved = False\<rparr>"

definition example_offline :: offline_draft where
  "example_offline = \<lparr>od_draft_id = ''d1'', od_employer = replicate 56 CHR ''G'', od_records = Records [example_record],
     od_redaction_policy = None\<rparr>"

theorem offline_valid_iff_witness:
  "\<exists>res. validate_offline standard_preset (Some example_offline) = Inr res \<and> of_is_valid res"
proof -
  have rs: "od_records example_offline = Records [example_record]" by (simp add: example_offline_def)
  have "\<not> blank ''d1''" "is_valid_stellar_address (replicate 56 CHR ''G'')" by code_simp+
  then have "structure_ok standard_preset example_offline [example_record]"
    by (simp add: structure_ok_def standard_preset_def example_offline_def)
  moreover have "\<not> blank ''emp-1''" "is_valid_asset ''native''" "is_valid_period ''2024-13''" by code_simp+
  then have "record_ok standard_preset example_record"
    by (simp add: record_ok_def standard_preset_def example_record_def amount_ok_def)
  moreover have "vc_custom_validators standard_preset = []" by (simp add: standard_preset_def)
  moreover have "distinct (map duplicate_key (compared [example_record]))" by (simp add: compared_def)
  moreover have "or_amount example_record = 5" by (simp add: example_record_def)
  ultimately show ?thesis using offline_valid_iff [OF _ rs, of standard_preset] by auto
qed

section \<open>What the validator leaves open\<close>

text \<open>A draft whose records are missing is no invalid draft: the validator throws.\<close>

lemma missing_records_throw: "od_records d = NoRecords \<Longrightarrow> validate_offline cfg (Some d) = Inl TypeErrorThrown"
  by (simp add: validate_offline_def Let_def)

text \<open>The month of a period may be any two digits.\<close>

lemma month_thirteen: "is_valid_period ''2024-13''"
  by code_simp

text \<open>A record reported as a duplicate is still counted as valid.\<close>

lemma duplicates_count_as_valid:
  assumes "vc_custom_validators cfg = []" "vc_duplicates cfg" "od_records d = Records [r, r]" "structure_ok cfg d [r, r]"
    and "record_ok cfg r" "\<not> is_redacted (or_employee_id r)"
  shows "\<exists>res. validate_offline cfg (Some d) = Inr res \<and> \<not> of_is_valid res \<and> of_valid_records res = 2 \<and> of_records_with_issues res = 0"
proof -
  have "filter is_blocker (validate_record cfg d r i) = []" for i using assms(5) record_blockers by blast
  then show ?thesis
    using structure_blockers [OF assms(3)] assms
    by (simp add: validate_offline_def Let_def build_result_def record_issues_def duplicates_are_blockers)
qed

end
