(* ===== verification/ClientConfig.thy ===== *)
theory ClientConfig
  imports Digits Complex_Main
begin

text \<open>
  The configuration of the client (\<open>config.ts\<close>): its validation, the builder with its presets and the migration of old
  configurations. \<open>new URL\<close> and the checks of the Stellar library are a record of parameters; error messages are left out.
\<close>

section \<open>Configurations\<close>

text \<open>A number, \<open>NaN\<close>, or a value of another type\<close>

datatype config_number = Num rat | NanValue | NotNumber

record retry_policy =
  rp_max_attempts :: "config_number option"
  rp_initial_delay_ms :: "config_number option"
  rp_max_delay_ms :: "config_number option"
  rp_backoff_factor :: "config_number option"
  rp_jitter_ms :: "config_number option"
  rp_timeout_ms :: "config_number option"

record retry_budgets =
  rb_read :: "retry_policy option"
  rb_write :: "retry_policy option"
  rb_poll :: "retry_policy option"

datatype artifact_source = LocalSource string | RemoteSource string

record proof_config =
  pc_wasm_url :: string
  pc_zkey_url :: string
  pc_wasm_source :: "artifact_source option"
  pc_zkey_source :: "artifact_source option"

datatype flag_value = FlagBool bool | FlagOther

record partial_config =
  cf_network_url :: "string option"
  cf_rpc_url :: "string option"
  cf_network :: "string option"
  cf_contract_id :: "string option"
  cf_contract_ids :: "(string, string) dict option"
  cf_admin_key :: "string option"
  cf_proof_config :: "proof_config option"
  cf_retry_policy :: "retry_policy option"
  cf_retry_budgets :: "retry_budgets option"
  cf_feature_flags :: "(string, flag_value) dict option"

text \<open>The protocol of a URL, if it is one, and the checks of \<open>StrKey\<close>, where the library is there\<close>

record config_library =
  lib_url_protocol :: "string \<Rightarrow> string option"
  lib_is_contract :: "(string \<Rightarrow> bool) option"
  lib_is_account :: "(string \<Rightarrow> bool) option"

definition base32_char :: "char \<Rightarrow> bool" where
  "base32_char c \<longleftrightarrow> (let n = (of_char c :: nat) in (65 \<le> n \<and> n \<le> 90) \<or> (50 \<le> n \<and> n \<le> 55))"

definition key_pattern :: "char \<Rightarrow> string \<Rightarrow> bool" where
  "key_pattern first s \<longleftrightarrow> length s = 56 \<and> hd s = first \<and> list_all base32_char (tl s)"

definition is_valid_contract_id :: "config_library \<Rightarrow> string \<Rightarrow> bool" where
  "is_valid_contract_id lib s \<longleftrightarrow>
     s \<noteq> [] \<and> (case lib_is_contract lib of Some f \<Rightarrow> f s | None \<Rightarrow> key_pattern CHR ''C'' s)"

definition below :: "config_number \<Rightarrow> rat \<Rightarrow> bool" where
  "below v b = (case v of Num r \<Rightarrow> r < b | NanValue \<Rightarrow> False | NotNumber \<Rightarrow> True)"

abbreviation field_error :: "bool \<Rightarrow> string \<Rightarrow> string list" where
  "field_error b f \<equiv> (if b then [f] else [])"

definition too_small :: "config_number option \<Rightarrow> rat \<Rightarrow> bool" where
  "too_small v b = (case v of None \<Rightarrow> False | Some x \<Rightarrow> below x b)"

text \<open>The fields that are in error, in the order of the checks\<close>

definition validate_retry_policy_config :: "retry_policy \<Rightarrow> string \<Rightarrow> string list" where
  "validate_retry_policy_config p path =
     field_error (too_small (rp_max_attempts p) 1) (path @ ''.maxAttempts'') @
     field_error (too_small (rp_initial_delay_ms p) 0) (path @ ''.initialDelayMs'') @
     field_error (too_small (rp_max_delay_ms p) 0) (path @ ''.maxDelayMs'') @
     field_error (case (rp_initial_delay_ms p, rp_max_delay_ms p) of (Some (Num i), Some (Num m)) \<Rightarrow> m < i | _ \<Rightarrow> False)
       (path @ ''.maxDelayMs'') @
     field_error (too_small (rp_backoff_factor p) 1) (path @ ''.backoffFactor'') @
     field_error (too_small (rp_jitter_ms p) 0) (path @ ''.jitterMs'') @
     field_error (too_small (rp_timeout_ms p) 0) (path @ ''.timeoutMs'')"

definition or_else :: "string option \<Rightarrow> string option \<Rightarrow> string option" where
  "or_else a b = (if truthy a then a else b)"

definition missing :: "string option \<Rightarrow> bool" where
  "missing s = (case s of None \<Rightarrow> True | Some x \<Rightarrow> blank x)"

definition allowed_protocols :: "string list" where
  "allowed_protocols = [''http:'', ''https:'', ''ws:'', ''wss:'']"

definition validate_url :: "config_library \<Rightarrow> string option \<Rightarrow> string list" where
  "validate_url lib url =
     (if missing url then [''networkUrl'']
      else case lib_url_protocol lib (the url) of
        None \<Rightarrow> [''networkUrl''] | Some p \<Rightarrow> field_error (p \<notin> set allowed_protocols) ''networkUrl'')"

definition validate_contract_fields :: "config_library \<Rightarrow> partial_config \<Rightarrow> string list" where
  "validate_contract_fields lib c =
     (let ids = (case cf_contract_ids c of None \<Rightarrow> [] | Some d \<Rightarrow> d)
      in if missing (cf_contract_id c) \<and> ids = [] then [''contractId'']
         else field_error (\<not> missing (cf_contract_id c) \<and> \<not> is_valid_contract_id lib (the (cf_contract_id c))) ''contractId'' @
           concat (map (\<lambda>(k, v). field_error (\<not> is_valid_contract_id lib v) (''contractIds.'' @ k)) ids))"

definition validate_proof_fields :: "proof_config option \<Rightarrow> string list" where
  "validate_proof_fields p =
     (case p of
        None \<Rightarrow> []
      | Some v \<Rightarrow> field_error (blank (pc_wasm_url v)) ''proofConfig.wasmUrl'' @ field_error (blank (pc_zkey_url v)) ''proofConfig.zkeyUrl'')"

definition validate_retry_fields :: "partial_config \<Rightarrow> string list" where
  "validate_retry_fields c =
     (case cf_retry_policy c of None \<Rightarrow> [] | Some p \<Rightarrow> validate_retry_policy_config p ''retryPolicy'') @
     (case cf_retry_budgets c of
        None \<Rightarrow> []
      | Some b \<Rightarrow>
          (case rb_read b of None \<Rightarrow> [] | Some p \<Rightarrow> validate_retry_policy_config p ''retryBudgets.read'') @
          (case rb_write b of None \<Rightarrow> [] | Some p \<Rightarrow> validate_retry_policy_config p ''retryBudgets.write'') @
          (case rb_poll b of None \<Rightarrow> [] | Some p \<Rightarrow> validate_retry_policy_config p ''retryBudgets.poll''))"

definition validate_flags :: "(string, flag_value) dict option \<Rightarrow> string list" where
  "validate_flags flags =
     (case flags of
        None \<Rightarrow> [] | Some d \<Rightarrow> concat (map (\<lambda>(k, v). field_error (v = FlagOther) (''featureFlags.'' @ k)) d))"

definition effective_url :: "partial_config \<Rightarrow> string option" where
  "effective_url c = or_else (cf_rpc_url c) (cf_network_url c)"

definition validate_config :: "config_library \<Rightarrow> partial_config option \<Rightarrow> string list" where
  "validate_config lib config =
     (case config of
        None \<Rightarrow> [''config'']
      | Some c \<Rightarrow>
          validate_url lib (effective_url c) @
          field_error (case cf_network c of None \<Rightarrow> False | Some n \<Rightarrow> blank n) ''network'' @
          validate_contract_fields lib c @ validate_proof_fields (cf_proof_config c) @ validate_retry_fields c @
          validate_flags (cf_feature_flags c))"

record client_config =
  cc_network_url :: string
  cc_rpc_url :: string
  cc_contract_id :: string
  cc_rest :: partial_config

text \<open>
  What is accepted: the endpoint and the primary contract are fixed, the other fields are those given (\<open>cc_rest\<close>). The
  result, read as a configuration again:
\<close>

definition as_partial :: "client_config \<Rightarrow> partial_config" where
  "as_partial c =
     (cc_rest c)\<lparr>cf_network_url := Some (cc_network_url c), cf_rpc_url := Some (cc_rpc_url c),
       cf_contract_id := Some (cc_contract_id c)\<rparr>"

definition first_contract_id :: "(string, string) dict option \<Rightarrow> string option" where
  "first_contract_id ids = (case ids of Some ((k, v) # r) \<Rightarrow> Some v | _ \<Rightarrow> None)"

definition assert_valid_config :: "config_library \<Rightarrow> partial_config option \<Rightarrow> (string list, client_config) result" where
  "assert_valid_config lib config =
     (let errors = validate_config lib config
      in if errors \<noteq> [] then Inl errors
         else let c = the config; url = the (effective_url c) in
           Inr \<lparr>cc_network_url = url,
                cc_rpc_url = (case cf_rpc_url c of Some r \<Rightarrow> if r \<noteq> [] then r else url | None \<Rightarrow> url),
                cc_contract_id = (if truthy (cf_contract_id c) then the (cf_contract_id c)
                  else case first_contract_id (cf_contract_ids c) of None \<Rightarrow> [] | Some v \<Rightarrow> v),
                cc_rest = c\<rparr>)"

section \<open>The builder\<close>

definition empty_config :: partial_config where
  "empty_config =
     \<lparr>cf_network_url = None, cf_rpc_url = None, cf_network = None, cf_contract_id = None, cf_contract_ids = None,
      cf_admin_key = None, cf_proof_config = None, cf_retry_policy = None, cf_retry_budgets = None, cf_feature_flags = None\<rparr>"

definition new_config_builder :: "partial_config option \<Rightarrow> partial_config" where
  "new_config_builder preset = (case preset of None \<Rightarrow> empty_config | Some p \<Rightarrow> p)"

datatype builder_op =
  WithNetworkUrl string | WithRpcUrl string | WithNetwork string | WithContractId string
| WithContractIds "(string, string) dict" | WithAdminKey string | WithProofConfig proof_config
| WithRetryPolicy retry_policy | WithRetryBudgets retry_budgets | WithFeatureFlags "(string, flag_value) dict"

fun apply_builder_op :: "builder_op \<Rightarrow> partial_config \<Rightarrow> partial_config" where
  "apply_builder_op (WithNetworkUrl s) c = c\<lparr>cf_network_url := Some s\<rparr>"
| "apply_builder_op (WithRpcUrl s) c = c\<lparr>cf_rpc_url := Some s\<rparr>"
| "apply_builder_op (WithNetwork s) c = c\<lparr>cf_network := Some s\<rparr>"
| "apply_builder_op (WithContractId s) c = c\<lparr>cf_contract_id := Some s\<rparr>"
| "apply_builder_op (WithContractIds d) c = c\<lparr>cf_contract_ids := Some d\<rparr>"
| "apply_builder_op (WithAdminKey s) c = c\<lparr>cf_admin_key := Some s\<rparr>"
| "apply_builder_op (WithProofConfig p) c = c\<lparr>cf_proof_config := Some p\<rparr>"
| "apply_builder_op (WithRetryPolicy p) c = c\<lparr>cf_retry_policy := Some p\<rparr>"
| "apply_builder_op (WithRetryBudgets b) c = c\<lparr>cf_retry_budgets := Some b\<rparr>"
| "apply_builder_op (WithFeatureFlags f) c = c\<lparr>cf_feature_flags := Some f\<rparr>"

definition build_config :: "config_library \<Rightarrow> partial_config \<Rightarrow> (string list, client_config) result" where
  "build_config lib c = assert_valid_config lib (Some c)"

definition preset :: "string \<Rightarrow> string \<Rightarrow> partial_config" where
  "preset url network = empty_config\<lparr>cf_network_url := Some url, cf_rpc_url := Some url, cf_network := Some network\<rparr>"

definition local_preset :: partial_config where
  "local_preset = preset ''http://localhost:8000'' ''localnet''"

definition testnet_preset :: partial_config where
  "testnet_preset = preset ''https://soroban-testnet.stellar.org'' ''testnet''"

definition production_preset :: partial_config where
  "production_preset = preset ''https://soroban-rpc.mainnet.stellar.org'' ''mainnet''"

section \<open>Migration\<close>

text \<open>The value of a field of an untyped object; a key that is absent reads as undefined.\<close>

datatype 'v raw = RawUndefined | RawNull | RawValue 'v

type_synonym 'v raw_config = "(string, 'v raw) dict"

definition raw_get :: "'v raw_config \<Rightarrow> string \<Rightarrow> 'v raw" where
  "raw_get d k = (case dict_get d k of None \<Rightarrow> RawUndefined | Some v \<Rightarrow> v)"

definition deprecated_fields :: "(string \<times> string) list" where
  "deprecated_fields =
     [(''nodeUrl'', ''networkUrl''), (''serverUrl'', ''networkUrl''), (''adminSecret'', ''adminKey''),
      (''signingKey'', ''adminKey''), (''contractAddress'', ''contractId'')]"

definition deprecated :: "string \<Rightarrow> bool" where
  "deprecated k = (k \<in> set (map fst deprecated_fields))"

definition present :: "'v raw \<Rightarrow> bool" where
  "present v \<longleftrightarrow> v \<noteq> RawUndefined \<and> v \<noteq> RawNull"

definition detect_deprecated_config_fields :: "'v raw_config \<Rightarrow> string list" where
  "detect_deprecated_config_fields input =
     map fst (filter (\<lambda>(k, t). present (raw_get input k)) deprecated_fields) @
     field_error (raw_get input ''networkUrl'' = RawUndefined \<and> raw_get input ''rpcUrl'' \<noteq> RawUndefined) ''rpcUrl''"

definition copy_current :: "'v raw_config \<Rightarrow> 'v raw_config" where
  "copy_current source =
     fold (\<lambda>(k, v) r. if deprecated k then r else dict_put k v r) source []"

definition remap_field :: "'v raw_config \<Rightarrow> string \<times> string \<Rightarrow> 'v raw_config \<times> string list \<Rightarrow> 'v raw_config \<times> string list" where
  "remap_field source kt rw =
     (case (kt, rw) of ((k, t), (r, w)) \<Rightarrow>
        if present (raw_get source k)
        then ((if raw_get r t = RawUndefined then dict_put t (raw_get source k) r else r), w @ [k])
        else (r, w))"

definition migrate_fields :: "'v raw_config \<Rightarrow> 'v raw_config \<times> string list" where
  "migrate_fields source =
     (case fold (remap_field source) deprecated_fields (copy_current source, []) of (r, w) \<Rightarrow>
        if raw_get r ''networkUrl'' = RawUndefined \<and> raw_get r ''rpcUrl'' \<noteq> RawUndefined
        then (dict_put ''networkUrl'' (raw_get r ''rpcUrl'') r, w @ [''rpcUrl'']) else (r, w))"

text \<open>The fields of a migrated configuration; \<open>None\<close> is the empty text, or nothing where the field may be absent.\<close>

record 'v migrated_config =
  mg_network_url :: "'v option"
  mg_rpc_url :: "'v option"
  mg_network :: "'v option"
  mg_contract_id :: "'v option"
  mg_admin_key :: "'v option"
  mg_contract_ids :: "'v raw"
  mg_proof_config :: "'v raw"
  mg_retry_policy :: "'v raw"
  mg_retry_budgets :: "'v raw"
  mg_feature_flags :: "'v raw"

definition raw_value :: "'v raw \<Rightarrow> 'v option" where
  "raw_value v = (case v of RawValue x \<Rightarrow> Some x | _ \<Rightarrow> None)"

definition build_client_config :: "'v raw_config \<Rightarrow> 'v migrated_config" where
  "build_client_config d =
     \<lparr>mg_network_url = raw_value (raw_get d ''networkUrl''),
      mg_rpc_url = (case raw_value (raw_get d ''rpcUrl'') of Some v \<Rightarrow> Some v | None \<Rightarrow> raw_value (raw_get d ''networkUrl'')),
      mg_network = raw_value (raw_get d ''network''), mg_contract_id = raw_value (raw_get d ''contractId''),
      mg_admin_key = raw_value (raw_get d ''adminKey''), mg_contract_ids = raw_get d ''contractIds'',
      mg_proof_config = raw_get d ''proofConfig'', mg_retry_policy = raw_get d ''retryPolicy'',
      mg_retry_budgets = raw_get d ''retryBudgets'', mg_feature_flags = raw_get d ''featureFlags''\<rparr>"

record 'v migration_result =
  mr_config :: "'v migrated_config"
  mr_warnings :: "string list"
  mr_migrated :: bool
  mr_errors :: "string list"

text \<open>The typed view of a migrated object, a cast in the code, is an argument.\<close>

definition migrate_config ::
  "config_library \<Rightarrow> ('v raw_config \<Rightarrow> partial_config) \<Rightarrow> 'v raw_config \<Rightarrow> 'v migration_result" where
  "migrate_config lib cast_config input =
     (case migrate_fields input of (r, w) \<Rightarrow>
        \<lparr>mr_config = build_client_config r, mr_warnings = w, mr_migrated = (w \<noteq> []),
         mr_errors = validate_config lib (Some (cast_config r))\<rparr>)"

section \<open>What is accepted\<close>

lemma accepted_iff:
  "assert_valid_config lib config = Inr r \<longleftrightarrow>
     (\<exists>c. config = Some c \<and> validate_config lib (Some c) = [] \<and>
       r = \<lparr>cc_network_url = the (effective_url c),
            cc_rpc_url = (case cf_rpc_url c of Some u \<Rightarrow> if u \<noteq> [] then u else the (effective_url c) | None \<Rightarrow> the (effective_url c)),
            cc_contract_id = (if truthy (cf_contract_id c) then the (cf_contract_id c)
              else case first_contract_id (cf_contract_ids c) of None \<Rightarrow> [] | Some v \<Rightarrow> v),
            cc_rest = c\<rparr>)"
  by (cases config) (auto simp: assert_valid_config_def validate_config_def Let_def)

lemma rpc_is_effective:
  "(case cf_rpc_url c of Some u \<Rightarrow> if u \<noteq> [] then u else the (effective_url c) | None \<Rightarrow> the (effective_url c)) = the (effective_url c)"
  by (simp add: effective_url_def or_else_def split: option.split)

lemma url_ok: "validate_url lib url = [] \<Longrightarrow> \<exists>u p. url = Some u \<and> \<not> blank u \<and> lib_url_protocol lib u = Some p \<and> p \<in> set allowed_protocols"
  by (cases url) (auto simp: validate_url_def missing_def split: if_splits option.splits)

lemma blank_not_missing: "\<not> blank u \<Longrightarrow> u \<noteq> []"
  by auto

lemma contract_chosen:
  assumes "validate_contract_fields lib c = []"
    and chosen: "i = (if truthy (cf_contract_id c) then the (cf_contract_id c)
      else case first_contract_id (cf_contract_ids c) of None \<Rightarrow> [] | Some v \<Rightarrow> v)"
  shows "is_valid_contract_id lib i \<or> blank i \<and> cf_contract_id c = Some i \<and> i \<noteq> []"
    and "validate_contract_fields lib (c\<lparr>cf_contract_id := Some i\<rparr>) = []"
proof -
  let ?ids = "case cf_contract_ids c of None \<Rightarrow> [] | Some d \<Rightarrow> d"
  have ids: "\<forall>(k, v) \<in> set ?ids. is_valid_contract_id lib v" and ne: "\<not> missing (cf_contract_id c) \<or> ?ids \<noteq> []"
    and own: "\<not> missing (cf_contract_id c) \<Longrightarrow> is_valid_contract_id lib (the (cf_contract_id c))"
    using assms(1) by (auto simp: validate_contract_fields_def Let_def split: if_splits)
  show one: "is_valid_contract_id lib i \<or> blank i \<and> cf_contract_id c = Some i \<and> i \<noteq> []"
  proof (cases "truthy (cf_contract_id c)")
    case True
    then show ?thesis using own chosen by (cases "cf_contract_id c") (auto simp: missing_def)
  next
    case False
    then have "missing (cf_contract_id c)" by (cases "cf_contract_id c") (simp_all add: missing_def)
    then obtain k v r where "cf_contract_ids c = Some ((k, v) # r)" using ne by (cases "cf_contract_ids c"; cases ?ids) auto
    then show ?thesis using ids chosen False by (simp add: first_contract_id_def)
  qed
  have "blank i \<Longrightarrow> ?ids \<noteq> []" using ne one own chosen by (auto simp: missing_def truthy_def split: option.splits if_splits)
  then show "validate_contract_fields lib (c\<lparr>cf_contract_id := Some i\<rparr>) = []"
    using ids one by (auto simp: validate_contract_fields_def Let_def missing_def)
qed

lemma no_config_errors:
  "validate_config lib (Some c) = [] \<longleftrightarrow>
     validate_url lib (effective_url c) = [] \<and> \<not> (case cf_network c of None \<Rightarrow> False | Some n \<Rightarrow> blank n) \<and>
     validate_contract_fields lib c = [] \<and> validate_proof_fields (cf_proof_config c) = [] \<and> validate_retry_fields c = [] \<and>
     validate_flags (cf_feature_flags c) = []"
  by (simp add: validate_config_def)

text \<open>
  an accepted configuration has one endpoint, used for both its URLs, of an allowed protocol, and a primary contract that
  is valid or was given as blanks beside a list of valid contracts; and it is accepted again as it is.
\<close>

theorem accepted_config_ok:
  assumes "assert_valid_config lib config = Inr r"
  shows "cc_rpc_url r = cc_network_url r \<and> (\<exists>p \<in> set allowed_protocols. lib_url_protocol lib (cc_network_url r) = Some p) \<and>
    (is_valid_contract_id lib (cc_contract_id r) \<or> blank (cc_contract_id r) \<and> cc_contract_id r \<noteq> []) \<and>
    (\<exists>r'. assert_valid_config lib (Some (as_partial r)) = Inr r' \<and> as_partial r' = as_partial r)"
proof -
  obtain c where c: "config = Some c" "validate_config lib (Some c) = []"
    and r: "r = \<lparr>cc_network_url = the (effective_url c), cc_rpc_url = the (effective_url c),
            cc_contract_id = (if truthy (cf_contract_id c) then the (cf_contract_id c)
              else case first_contract_id (cf_contract_ids c) of None \<Rightarrow> [] | Some v \<Rightarrow> v), cc_rest = c\<rparr>"
    using assms unfolding accepted_iff rpc_is_effective by blast
  let ?i = "cc_contract_id r"
  have valid: "validate_url lib (effective_url c) = []" "validate_contract_fields lib c = []"
    using c(2) by (auto simp: validate_config_def)
  from url_ok [OF valid(1)] obtain u p where u: "effective_url c = Some u" "\<not> blank u" "lib_url_protocol lib u = Some p"
    "p \<in> set allowed_protocols" by blast
  have i: "is_valid_contract_id lib ?i \<or> blank ?i \<and> cf_contract_id c = Some ?i \<and> ?i \<noteq> []"
    "validate_contract_fields lib (c\<lparr>cf_contract_id := Some ?i\<rparr>) = []"
    using contract_chosen [OF valid(2)] by (simp_all add: r)
  let ?c = "as_partial r"
  have "?i \<noteq> []" using i(1) by (auto simp: is_valid_contract_id_def)
  then have again: "truthy (cf_contract_id ?c)" "the (cf_contract_id ?c) = ?i" by (simp_all add: as_partial_def)
  have url: "effective_url ?c = Some u" using u by (auto simp: as_partial_def effective_url_def or_else_def r)
  have "validate_contract_fields lib ?c = validate_contract_fields lib (c\<lparr>cf_contract_id := Some ?i\<rparr>)"
    by (simp add: validate_contract_fields_def as_partial_def r)
  moreover have "cf_network ?c = cf_network c" "cf_proof_config ?c = cf_proof_config c" "cf_feature_flags ?c = cf_feature_flags c"
    "validate_retry_fields ?c = validate_retry_fields c"
    by (simp_all add: as_partial_def r validate_retry_fields_def)
  ultimately have "validate_config lib (Some ?c) = []"
    using c(2) i(2) unfolding no_config_errors url u(1) by (simp only:) simp
  then have "assert_valid_config lib (Some ?c) = Inr \<lparr>cc_network_url = u, cc_rpc_url = u, cc_contract_id = ?i, cc_rest = ?c\<rparr>"
    unfolding accepted_iff rpc_is_effective using again url by auto
  moreover have "as_partial \<lparr>cc_network_url = u, cc_rpc_url = u, cc_contract_id = ?i, cc_rest = ?c\<rparr> = ?c"
    using u(1) by (simp add: as_partial_def r)
  ultimately show ?thesis using i(1) u r by auto
qed


definition example_library :: config_library where
  "example_library = \<lparr>lib_url_protocol = (\<lambda>u. if is_prefix ''https:'' u then Some ''https:'' else None), lib_is_contract = None,
     lib_is_account = None\<rparr>"

definition example_contract :: string where
  "example_contract = replicate 56 CHR ''C''"

theorem accepted_config_ok_witness:
  "\<exists>r. build_config example_library (apply_builder_op (WithContractId example_contract) testnet_preset) = Inr r \<and>
     is_ok (assert_valid_config example_library (Some (as_partial r)))"
proof -
  have "validate_config example_library (Some (apply_builder_op (WithContractId example_contract) testnet_preset)) = []"
    by code_simp
  then obtain r where r: "build_config example_library (apply_builder_op (WithContractId example_contract) testnet_preset) = Inr r"
    by (simp add: build_config_def assert_valid_config_def Let_def)
  then show ?thesis using accepted_config_ok [OF r [unfolded build_config_def]] by (auto simp: is_ok_iff)
qed

text \<open>A contract of blanks is taken over a valid one of the list: the client is built for a contract that cannot exist.\<close>

lemma blank_contract_survives:
  assumes "validate_config lib (Some (c\<lparr>cf_contract_id := None\<rparr>)) = []"
  shows "\<exists>r. assert_valid_config lib (Some (c\<lparr>cf_contract_id := Some '' ''\<rparr>)) = Inr r \<and> cc_contract_id r = '' ''"
proof -
  have "blank '' ''" by code_simp
  then have "validate_contract_fields lib (c\<lparr>cf_contract_id := Some '' ''\<rparr>) = validate_contract_fields lib (c\<lparr>cf_contract_id := None\<rparr>)"
    by (simp add: validate_contract_fields_def missing_def)
  then have "validate_config lib (Some (c\<lparr>cf_contract_id := Some '' ''\<rparr>)) = []"
    using assms by (simp add: no_config_errors effective_url_def validate_retry_fields_def)
  then show ?thesis by (simp add: assert_valid_config_def Let_def)
qed

text \<open>A retry policy of \<open>NaN\<close> passes every bound.\<close>

lemma nan_retry_policy_passes:
  "validate_retry_policy_config \<lparr>rp_max_attempts = Some NanValue, rp_initial_delay_ms = Some NanValue,
     rp_max_delay_ms = Some NanValue, rp_backoff_factor = Some NanValue, rp_jitter_ms = Some NanValue,
     rp_timeout_ms = Some NanValue\<rparr> path = []"
  by (simp add: validate_retry_policy_config_def too_small_def below_def)

section \<open>What a migration keeps\<close>

definition current :: "'v raw_config \<Rightarrow> bool" where
  "current d \<longleftrightarrow> dict_ok d \<and> (\<forall>k. deprecated k \<longrightarrow> dict_get d k = None)"

lemma put_at_end: "k \<notin> fst ` set d \<Longrightarrow> dict_put k v d = d @ [(k, v)]"
  by (induction d) auto

lemma copy_current_filter: "dict_ok d \<Longrightarrow> copy_current d = filter (\<lambda>(k, v). \<not> deprecated k) d"
proof (induction d rule: rev_induct)
  case (snoc p d)
  obtain k v where p: "p = (k, v)" by (cases p)
  have "dict_ok d" "k \<notin> fst ` set d" using snoc.prems by (auto simp: dict_ok_def p)
  moreover have "k \<notin> fst ` set (filter (\<lambda>(k, v). \<not> deprecated k) d)" using calculation(2) by auto
  ultimately show ?case using snoc.IH by (simp add: copy_current_def p put_at_end)
qed (simp add: copy_current_def)

lemma current_copy: "dict_ok d \<Longrightarrow> current (copy_current d)"
proof -
  assume d: "dict_ok d"
  have "distinct (map fst (filter P d))" for P using d by (induction d) (auto simp: dict_ok_def)
  moreover have "dict_get (filter (\<lambda>(k, v). \<not> deprecated k) d) k = None" if "deprecated k" for k
    using that by (auto simp: map_of_eq_None_iff)
  ultimately show ?thesis by (simp add: current_def dict_ok_def copy_current_filter [OF d])
qed

lemma current_put: "current d \<Longrightarrow> \<not> deprecated k \<Longrightarrow> current (dict_put k v d)"
  by (auto simp: current_def update_conv')

lemma targets_current: "(k, t) \<in> set deprecated_fields \<Longrightarrow> \<not> deprecated t"
  by (auto simp: deprecated_fields_def deprecated_def)

lemma deprecated_pair: "(k, t) \<in> set deprecated_fields \<Longrightarrow> deprecated k"
  unfolding deprecated_def by (auto intro: rev_image_eqI)

lemma remap_current:
  "set ts \<subseteq> set deprecated_fields \<Longrightarrow> current r \<Longrightarrow> current (fst (fold (remap_field source) ts (r, w)))"
proof (induction ts arbitrary: r w)
  case (Cons p ts)
  obtain k t where p: "p = (k, t)" by (cases p)
  have "\<not> deprecated t" using Cons.prems(1) targets_current [of k t] by (simp add: p)
  then show ?case using Cons by (auto simp: p remap_field_def current_put)
qed simp

lemma remap_keeps:
  "raw_get r k \<noteq> RawUndefined \<Longrightarrow> raw_get (fst (fold (remap_field source) ts (r, w))) k = raw_get r k"
proof (induction ts arbitrary: r w)
  case (Cons p ts)
  obtain k' t where p: "p = (k', t)" by (cases p)
  let ?r = "fst (remap_field source p (r, w))"
  have "raw_get ?r k = raw_get r k" using Cons.prems by (auto simp: p remap_field_def raw_get_def update_conv')
  then show ?case using Cons.IH [of ?r "snd (remap_field source p (r, w))"] Cons.prems by simp
qed simp

lemma remap_absent:
  "\<forall>(k, t) \<in> set ts. \<not> present (raw_get source k) \<Longrightarrow> fold (remap_field source) ts (r, w) = (r, w)"
  by (induction ts) (auto simp: remap_field_def)

lemma current_absent: "current d \<Longrightarrow> \<forall>(k, t) \<in> set deprecated_fields. \<not> present (raw_get d k)"
  by (auto simp: current_def raw_get_def present_def dest!: deprecated_pair)

lemma current_copies_itself: "current d \<Longrightarrow> copy_current d = d"
proof -
  assume d: "current d"
  then have "filter (\<lambda>(k, v). \<not> deprecated k) d = d"
    by (force simp: filter_id_conv current_def map_of_eq_None_iff)
  moreover have "dict_ok d" using d by (simp add: current_def)
  ultimately show ?thesis by (simp only: copy_current_filter)
qed

lemma current_migrates:
  assumes "current d" "raw_get d ''networkUrl'' \<noteq> RawUndefined \<or> raw_get d ''rpcUrl'' = RawUndefined"
  shows "migrate_fields d = (d, [])"
  using assms(2) remap_absent [OF current_absent [OF assms(1)]] current_copies_itself [OF assms(1)]
  by (auto simp: migrate_fields_def)

lemma migrated_current:
  assumes "dict_ok d"
  shows "current (fst (migrate_fields d))"
    and "raw_get (fst (migrate_fields d)) ''networkUrl'' \<noteq> RawUndefined \<or> raw_get (fst (migrate_fields d)) ''rpcUrl'' = RawUndefined"
proof -
  let ?f = "fold (remap_field d) deprecated_fields (copy_current d, [])"
  have "current (fst ?f)" using remap_current current_copy [OF assms] by blast
  moreover have "\<not> deprecated ''networkUrl''" by (simp add: deprecated_fields_def deprecated_def)
  ultimately show "current (fst (migrate_fields d))" by (simp add: migrate_fields_def split_beta current_put)
  show "raw_get (fst (migrate_fields d)) ''networkUrl'' \<noteq> RawUndefined \<or> raw_get (fst (migrate_fields d)) ''rpcUrl'' = RawUndefined"
    by (simp add: migrate_fields_def split_beta) (simp add: raw_get_def update_conv')
qed

lemma copy_get: "dict_ok d \<Longrightarrow> raw_get (copy_current d) k = (if deprecated k then RawUndefined else raw_get d k)"
proof -
  assume d: "dict_ok d"
  have "dict_get (filter (\<lambda>(k, v). \<not> deprecated k) d) k = (if deprecated k then None else dict_get d k)"
    by (induction d) auto
  then show ?thesis by (simp add: raw_get_def copy_current_filter [OF d])
qed

text \<open>
  a migrated configuration has no deprecated field, is its own migration without a warning, and keeps every field of
  the current schema that was given: a deprecated alias never wins over the field it stands for.
\<close>

theorem migration_is_idempotent:
  assumes "dict_ok d"
  shows "migrate_fields (fst (migrate_fields d)) = (fst (migrate_fields d), []) \<and>
    (\<forall>k. \<not> deprecated k \<and> raw_get d k \<noteq> RawUndefined \<longrightarrow> raw_get (fst (migrate_fields d)) k = raw_get d k)"
proof (intro conjI allI impI)
  show "migrate_fields (fst (migrate_fields d)) = (fst (migrate_fields d), [])"
    using migrated_current [OF assms] by (rule current_migrates)
  fix k assume k: "\<not> deprecated k \<and> raw_get d k \<noteq> RawUndefined"
  let ?f = "fold (remap_field d) deprecated_fields (copy_current d, [])"
  have f: "raw_get (fst ?f) k = raw_get d k" using k remap_keeps [of "copy_current d" k d deprecated_fields "[]"] copy_get [OF assms] by simp
  show "raw_get (fst (migrate_fields d)) k = raw_get d k"
  proof (cases "k = ''networkUrl''")
    case True
    then show ?thesis using f k by (simp add: migrate_fields_def split_beta)
  next
    case False
    then have "raw_get (dict_put ''networkUrl'' v (fst ?f)) k = raw_get d k" for v
      using f by (simp add: raw_get_def update_conv')
    then show ?thesis using f by (simp add: migrate_fields_def split_beta)
  qed
qed

theorem migration_is_idempotent_witness:
  "migrate_fields (fst (migrate_fields [(''nodeUrl'', RawValue (1::nat)), (''rpcUrl'', RawNull), (''adminKey'', RawValue 2)])) =
     ([(''rpcUrl'', RawNull), (''adminKey'', RawValue 2), (''networkUrl'', RawValue 1)], [])"
proof -
  let ?d = "[(''nodeUrl'', RawValue (1::nat)), (''rpcUrl'', RawNull), (''adminKey'', RawValue 2)]"
  have "dict_ok ?d" by (simp add: dict_ok_def)
  moreover have "fst (migrate_fields ?d) = [(''rpcUrl'', RawNull), (''adminKey'', RawValue 2), (''networkUrl'', RawValue 1)]"
    by code_simp
  ultimately show ?thesis using migration_is_idempotent [of ?d] by simp
qed

text \<open>The inspection without a migration warns of a field the migration does not change.\<close>

lemma inspection_differs:
  "detect_deprecated_config_fields [(''nodeUrl'', RawValue (1::nat)), (''rpcUrl'', RawValue 2)] = [''nodeUrl'', ''rpcUrl'']"
  "snd (migrate_fields [(''nodeUrl'', RawValue (1::nat)), (''rpcUrl'', RawValue 2)]) = [''nodeUrl'']"
  by code_simp+

end
