(* ===== verification/SetupChecklist.thy ===== *)
theory SetupChecklist
  imports ClientConfig
begin

text \<open>
  The checklist of a setup (\<open>setup/checklist.ts\<close>): what it reports for a configuration and the observations passed in, and
  what a checklist without a blocker says of the configuration. Labels and messages are left out, that an item comes with
  guidance is not.
\<close>

section \<open>The items\<close>

datatype check_category = ConfigCheck | NetworkCheck | ContractsCheck | TreasuryCheck | ProofsCheck | WalletCheck | FixturesCheck

datatype check_status = Pass | Warn | Fail

record check_item =
  ck_id :: string
  ck_category :: check_category
  ck_status :: check_status
  ck_guided :: bool

datatype wallet_network = PublicNetwork | TestNetwork

record treasury_input =
  ti_address :: "string option"
  ti_funding_token :: "string option"
  ti_funded :: "bool option"

record wallet_input =
  wi_is_available :: "bool option"
  wi_is_connected :: "bool option"
  wi_network :: "wallet_network option"

record setup_options =
  so_expected_passphrase :: "string option"
  so_rpc_reachable :: "bool option"
  so_passphrase :: "string option"
  so_contract_deployed :: "bool option"
  so_treasury :: "treasury_input option"
  so_wallet :: "wallet_input option"
  so_fixtures_available :: "bool option"

definition item :: "string \<Rightarrow> check_category \<Rightarrow> check_status \<Rightarrow> check_item" where
  "item i c s = \<lparr>ck_id = i, ck_category = c, ck_status = s, ck_guided = (s \<noteq> Pass)\<rparr>"

text \<open>A warning without guidance\<close>

definition bare_warning :: "string \<Rightarrow> check_category \<Rightarrow> check_item" where
  "bare_warning i c = \<lparr>ck_id = i, ck_category = c, ck_status = Warn, ck_guided = False\<rparr>"

text \<open>An observation that may be missing\<close>

definition observed :: "bool option \<Rightarrow> check_status" where
  "observed b = (case b of None \<Rightarrow> Warn | Some v \<Rightarrow> if v then Pass else Fail)"

definition pass_if :: "bool \<Rightarrow> check_status" where
  "pass_if b = (if b then Pass else Fail)"

definition is_stellar_account :: "config_library \<Rightarrow> string \<Rightarrow> bool" where
  "is_stellar_account lib s \<longleftrightarrow>
     s \<noteq> [] \<and> (case lib_is_account lib of Some f \<Rightarrow> f s | None \<Rightarrow> key_pattern CHR ''G'' s)"

definition match_wallet_network :: "string option \<Rightarrow> wallet_network option \<Rightarrow> check_status" where
  "match_wallet_network config_network wallet_network =
     (case wallet_network of
        None \<Rightarrow> Warn
      | Some w \<Rightarrow>
          if \<not> truthy config_network then Warn
          else let norm = js_lower (the config_network) in
            if norm = ''testnet'' then pass_if (w = TestNetwork)
            else if norm = ''mainnet'' then pass_if (w = PublicNetwork)
            else if norm = ''localnet'' then (if w = TestNetwork then Warn else Fail)
            else Warn)"

definition build_config_checks :: "config_library \<Rightarrow> partial_config option \<Rightarrow> check_item list" where
  "build_config_checks lib config =
     (case config of
        None \<Rightarrow> [item ''config-present'' ConfigCheck Fail]
      | Some c \<Rightarrow>
          let errors = filter (\<lambda>f. \<not> is_prefix ''proofConfig.'' f) (validate_config lib (Some c))
          in if errors = [] then [item ''config-valid'' ConfigCheck Pass]
             else map (\<lambda>f. item (''config-'' @ f) ConfigCheck Fail) errors)"

definition build_network_checks :: "config_library \<Rightarrow> partial_config option \<Rightarrow> setup_options \<Rightarrow> check_item list" where
  "build_network_checks lib config opts =
     (let url = Option.bind config effective_url
      in [item ''network-url'' NetworkCheck
            (if missing url then Fail
             else case lib_url_protocol lib (the url) of None \<Rightarrow> Fail | Some p \<Rightarrow> pass_if (p \<in> set allowed_protocols)),
          item ''network-name'' NetworkCheck (if truthy (Option.bind config cf_network) then Pass else Warn),
          item ''network-rpc-reachable'' NetworkCheck (observed (so_rpc_reachable opts)),
          item ''network-passphrase'' NetworkCheck
            (if truthy (so_passphrase opts) \<and> truthy (so_expected_passphrase opts)
             then pass_if (so_passphrase opts = so_expected_passphrase opts) else Warn)])"

definition primary_contract :: "partial_config option \<Rightarrow> string option" where
  "primary_contract config =
     (case config of None \<Rightarrow> None | Some c \<Rightarrow> or_else (cf_contract_id c) (first_contract_id (cf_contract_ids c)))"

definition build_contracts_checks :: "config_library \<Rightarrow> partial_config option \<Rightarrow> setup_options \<Rightarrow> check_item list" where
  "build_contracts_checks lib config opts =
     (let primary = primary_contract config;
          ids = (case Option.bind config cf_contract_ids of None \<Rightarrow> [] | Some d \<Rightarrow> d)
      in (if missing primary then [item ''contract-id'' ContractsCheck Fail]
          else [item ''contract-id'' ContractsCheck (pass_if (is_valid_contract_id lib (the primary))),
                item ''contract-deployed'' ContractsCheck (observed (so_contract_deployed opts))]) @
         (if ids = [] then []
          else [item ''contract-ids-map'' ContractsCheck
            (pass_if (filter (\<lambda>(k, v). \<not> is_valid_contract_id lib v) ids = []))]))"

definition build_treasury_checks :: "config_library \<Rightarrow> setup_options \<Rightarrow> check_item list" where
  "build_treasury_checks lib opts =
     (let address = Option.bind (so_treasury opts) ti_address; token = Option.bind (so_treasury opts) ti_funding_token
      in [item ''treasury-address'' TreasuryCheck
            (if truthy address then pass_if (is_stellar_account lib (the address)) else Warn),
          item ''treasury-funded'' TreasuryCheck (observed (Option.bind (so_treasury opts) ti_funded)),
          item ''treasury-funding-token'' TreasuryCheck
            (if truthy token then pass_if (is_valid_contract_id lib (the token)) else Warn)])"

fun source_location :: "artifact_source \<Rightarrow> string" where
  "source_location (LocalSource p) = p"
| "source_location (RemoteSource u) = u"

definition resolve_artifact_location :: "artifact_source option \<Rightarrow> string \<Rightarrow> string" where
  "resolve_artifact_location source url = (case source of Some s \<Rightarrow> source_location s | None \<Rightarrow> url)"

definition location_ok :: "config_library \<Rightarrow> string \<Rightarrow> string \<Rightarrow> bool" where
  "location_ok lib kind location =
     (let l = js_lower location in
      if is_prefix ''http://'' l \<or> is_prefix ''https://'' l then lib_url_protocol lib location \<noteq> None
      else ends_with l (CHR ''.'' # kind) \<and> \<not> list_ex js_space location)"

definition build_proofs_checks :: "config_library \<Rightarrow> partial_config option \<Rightarrow> check_item list" where
  "build_proofs_checks lib config =
     (case Option.bind config cf_proof_config of
        None \<Rightarrow> [item ''proof-config'' ProofsCheck Warn]
      | Some p \<Rightarrow>
          let wasm = resolve_artifact_location (pc_wasm_source p) (pc_wasm_url p);
              zkey = resolve_artifact_location (pc_zkey_source p) (pc_zkey_url p)
          in item ''proof-config'' ProofsCheck Pass #
             (if blank wasm \<or> blank zkey then [item ''proof-artifacts'' ProofsCheck Fail]
              else [item ''proof-artifacts'' ProofsCheck Pass,
                    item ''proof-artifact-locations'' ProofsCheck
                      (pass_if (location_ok lib ''wasm'' wasm \<and> location_ok lib ''zkey'' zkey))]))"

definition build_wallet_checks :: "partial_config option \<Rightarrow> setup_options \<Rightarrow> check_item list" where
  "build_wallet_checks config opts =
     (case so_wallet opts of
        None \<Rightarrow> [item ''wallet-adapter'' WalletCheck Warn]
      | Some w \<Rightarrow>
          [item ''wallet-adapter'' WalletCheck Pass,
           (case wi_is_available w of
              None \<Rightarrow> bare_warning ''wallet-available'' WalletCheck
            | Some v \<Rightarrow> item ''wallet-available'' WalletCheck (pass_if v)),
           (case wi_is_connected w of
              None \<Rightarrow> bare_warning ''wallet-connected'' WalletCheck
            | Some v \<Rightarrow> item ''wallet-connected'' WalletCheck (if v then Pass else Warn)),
           (case wi_network w of
              None \<Rightarrow> bare_warning ''wallet-network-match'' WalletCheck
            | Some n \<Rightarrow> item ''wallet-network-match'' WalletCheck
                (match_wallet_network (Option.bind config cf_network) (Some n)))])"

definition build_fixtures_checks :: "setup_options \<Rightarrow> check_item list" where
  "build_fixtures_checks opts = [item ''test-fixtures-available'' FixturesCheck (observed (so_fixtures_available opts))]"

definition category_checks :: "config_library \<Rightarrow> partial_config option \<Rightarrow> setup_options \<Rightarrow> check_category \<Rightarrow> check_item list" where
  "category_checks lib config opts c =
     (case c of
        ConfigCheck \<Rightarrow> build_config_checks lib config
      | NetworkCheck \<Rightarrow> build_network_checks lib config opts
      | ContractsCheck \<Rightarrow> build_contracts_checks lib config opts
      | TreasuryCheck \<Rightarrow> build_treasury_checks lib opts
      | ProofsCheck \<Rightarrow> build_proofs_checks lib config
      | WalletCheck \<Rightarrow> build_wallet_checks config opts
      | FixturesCheck \<Rightarrow> build_fixtures_checks opts)"

record checklist =
  cl_checks :: "check_item list"
  cl_is_ready :: bool
  cl_blockers :: "check_item list"
  cl_warnings :: "check_item list"

definition aggregate_checks :: "check_item list \<Rightarrow> checklist" where
  "aggregate_checks checks =
     (let blockers = filter (\<lambda>x. ck_status x = Fail) checks
      in \<lparr>cl_checks = checks, cl_is_ready = (blockers = []), cl_blockers = blockers,
          cl_warnings = filter (\<lambda>x. ck_status x = Warn) checks\<rparr>)"

definition generate_category_checklist ::
  "config_library \<Rightarrow> check_category \<Rightarrow> partial_config option \<Rightarrow> setup_options \<Rightarrow> checklist" where
  "generate_category_checklist lib c config opts = aggregate_checks (category_checks lib config opts c)"

definition check_categories :: "check_category list" where
  "check_categories = [ConfigCheck, NetworkCheck, ContractsCheck, TreasuryCheck, ProofsCheck, WalletCheck, FixturesCheck]"

definition generate_setup_checklist :: "config_library \<Rightarrow> partial_config option \<Rightarrow> setup_options \<Rightarrow> checklist" where
  "generate_setup_checklist lib config opts =
     aggregate_checks (concat (map (category_checks lib config opts) check_categories))"

section \<open>What a ready setup has\<close>

definition no_failure :: "check_item list \<Rightarrow> bool" where
  "no_failure xs \<longleftrightarrow> list_all (\<lambda>x. ck_status x \<noteq> Fail) xs"

lemma no_failure_simps [simp]:
  "no_failure []" "no_failure (x # xs) \<longleftrightarrow> ck_status x \<noteq> Fail \<and> no_failure xs"
  "no_failure (xs @ ys) \<longleftrightarrow> no_failure xs \<and> no_failure ys"
  by (simp_all add: no_failure_def)

lemma item_status [simp]: "ck_status (item i c s) = s" "ck_status (bare_warning i c) = Warn"
  by (simp_all add: item_def bare_warning_def)

lemma status_simps [simp]:
  "observed v = Fail \<longleftrightarrow> v = Some False" "pass_if b = Fail \<longleftrightarrow> \<not> b" "pass_if b = Warn \<longleftrightarrow> False" "pass_if b = Pass \<longleftrightarrow> b"
  by (auto simp: observed_def pass_if_def split: option.split)

lemma ready_iff_no_failure: "cl_is_ready (aggregate_checks xs) \<longleftrightarrow> no_failure xs"
  by (simp add: aggregate_checks_def no_failure_def filter_empty_conv list_all_iff)

lemma ready_by_category:
  "cl_is_ready (generate_setup_checklist lib config opts) \<longleftrightarrow>
     (\<forall>c. cl_is_ready (generate_category_checklist lib c config opts))"
proof -
  have "set check_categories = UNIV"
    using check_category.nchotomy by (auto simp: check_categories_def)
  moreover have "no_failure (concat (map f cs)) \<longleftrightarrow> (\<forall>c \<in> set cs. no_failure (f c))" for f :: "check_category \<Rightarrow> check_item list" and cs
    by (induction cs) simp_all
  ultimately show ?thesis
    by (simp add: generate_setup_checklist_def generate_category_checklist_def ready_iff_no_failure)
qed

lemma field_error_set: "f \<in> set (field_error b g) \<longleftrightarrow> b \<and> f = g"
  by auto

lemma retry_error_path: "f \<in> set (validate_retry_policy_config p path) \<Longrightarrow> \<exists>s. f = path @ s"
  unfolding validate_retry_policy_config_def set_append Un_iff field_error_set by blast

lemma retry_other: "f \<in> set (validate_retry_fields c) \<Longrightarrow> \<not> is_prefix ''proofConfig.'' f"
  by (auto simp: validate_retry_fields_def dest!: retry_error_path split: option.splits)

lemma contract_other: "f \<in> set (validate_contract_fields lib c) \<Longrightarrow> \<not> is_prefix ''proofConfig.'' f"
  by (auto simp: validate_contract_fields_def Let_def split: if_splits)

lemma flags_other: "f \<in> set (validate_flags fs) \<Longrightarrow> \<not> is_prefix ''proofConfig.'' f"
  by (auto simp: validate_flags_def split: option.splits if_splits)

lemma url_other: "f \<in> set (validate_url lib u) \<Longrightarrow> \<not> is_prefix ''proofConfig.'' f"
  by (auto simp: validate_url_def split: option.splits if_splits)

lemma proof_own: "f \<in> set (validate_proof_fields p) \<Longrightarrow> is_prefix ''proofConfig.'' f"
  by (auto simp: validate_proof_fields_def split: option.splits if_splits)

lemma keep_others: "(\<And>f. f \<in> set fs \<Longrightarrow> \<not> is_prefix ''proofConfig.'' f) \<Longrightarrow> filter (\<lambda>f. \<not> is_prefix ''proofConfig.'' f) fs = fs"
  by (simp add: filter_id_conv)

lemma kept:
  "filter (\<lambda>f. \<not> is_prefix ''proofConfig.'' f) (validate_retry_fields c) = validate_retry_fields c"
  "filter (\<lambda>f. \<not> is_prefix ''proofConfig.'' f) (validate_contract_fields lib c) = validate_contract_fields lib c"
  "filter (\<lambda>f. \<not> is_prefix ''proofConfig.'' f) (validate_flags fs) = validate_flags fs"
  "filter (\<lambda>f. \<not> is_prefix ''proofConfig.'' f) (validate_url lib u) = validate_url lib u"
  by (rule keep_others, erule retry_other contract_other flags_other url_other)+

lemma drop_own: "filter (\<lambda>f. \<not> is_prefix ''proofConfig.'' f) (validate_proof_fields p) = []"
  using proof_own by (auto simp: filter_empty_conv)

lemma proof_errors_apart:
  "filter (\<lambda>f. \<not> is_prefix ''proofConfig.'' f) (validate_config lib (Some c)) = [] \<longleftrightarrow>
     validate_config lib (Some (c\<lparr>cf_proof_config := None\<rparr>)) = []"
proof -
  have same: "effective_url (c\<lparr>cf_proof_config := None\<rparr>) = effective_url c"
    "validate_contract_fields lib (c\<lparr>cf_proof_config := None\<rparr>) = validate_contract_fields lib c"
    "validate_retry_fields (c\<lparr>cf_proof_config := None\<rparr>) = validate_retry_fields c" "validate_proof_fields None = []"
    by (simp_all add: effective_url_def validate_contract_fields_def validate_retry_fields_def validate_proof_fields_def)
  have "filter (\<lambda>f. \<not> is_prefix ''proofConfig.'' f) (validate_config lib (Some c)) =
      validate_url lib (effective_url c) @ field_error (case cf_network c of None \<Rightarrow> False | Some n \<Rightarrow> blank n) ''network'' @
      validate_contract_fields lib c @ validate_retry_fields c @ validate_flags (cf_feature_flags c)"
    unfolding validate_config_def option.case filter_append kept drop_own by simp
  then show ?thesis by (simp add: no_config_errors same)
qed

lemma config_category_iff:
  "no_failure (build_config_checks lib config) \<longleftrightarrow>
     (\<exists>c. config = Some c \<and> validate_config lib (Some (c\<lparr>cf_proof_config := None\<rparr>)) = [])"
proof (cases config)
  case (Some c)
  have "no_failure (map (\<lambda>f. item (g f) ConfigCheck Fail) fs) \<longleftrightarrow> fs = []" for g and fs :: "string list"
    by (cases fs) simp_all
  then show ?thesis using Some proof_errors_apart [of lib c] by (simp add: build_config_checks_def Let_def)
qed (simp add: build_config_checks_def)

lemma network_category_iff:
  "no_failure (build_network_checks lib (Some c) opts) \<longleftrightarrow>
     validate_url lib (effective_url c) = [] \<and> so_rpc_reachable opts \<noteq> Some False \<and>
     (truthy (so_passphrase opts) \<and> truthy (so_expected_passphrase opts) \<longrightarrow> so_passphrase opts = so_expected_passphrase opts)"
  by (auto simp: build_network_checks_def Let_def validate_url_def split: option.splits if_splits)

lemma contracts_category_iff:
  "no_failure (build_contracts_checks lib config opts) \<longleftrightarrow>
     (\<exists>i. primary_contract config = Some i \<and> \<not> blank i \<and> is_valid_contract_id lib i) \<and>
     so_contract_deployed opts \<noteq> Some False \<and>
     list_all (\<lambda>(k, v). is_valid_contract_id lib v) (case Option.bind config cf_contract_ids of None \<Rightarrow> [] | Some d \<Rightarrow> d)"
proof -
  let ?ids = "case Option.bind config cf_contract_ids of None \<Rightarrow> [] | Some d \<Rightarrow> d"
  have "no_failure (if ?ids = [] then [] else [item ''contract-ids-map'' ContractsCheck
      (pass_if (filter (\<lambda>(k, v). \<not> is_valid_contract_id lib v) ?ids = []))]) \<longleftrightarrow> list_all (\<lambda>(k, v). is_valid_contract_id lib v) ?ids"
    by (cases "Option.bind config cf_contract_ids") (auto simp: filter_empty_conv list_all_iff)
  then show ?thesis
    by (cases "primary_contract config") (simp_all add: build_contracts_checks_def Let_def missing_def)
qed

text \<open>What the runtime observations may not say\<close>

definition observations_ok :: "config_library \<Rightarrow> partial_config \<Rightarrow> setup_options \<Rightarrow> bool" where
  "observations_ok lib c opts \<longleftrightarrow>
     so_rpc_reachable opts \<noteq> Some False \<and> so_contract_deployed opts \<noteq> Some False \<and> so_fixtures_available opts \<noteq> Some False \<and>
     (truthy (so_passphrase opts) \<and> truthy (so_expected_passphrase opts) \<longrightarrow> so_passphrase opts = so_expected_passphrase opts) \<and>
     no_failure (build_treasury_checks lib opts) \<and> no_failure (build_wallet_checks (Some c) opts)"

text \<open>The artifacts, wherever they are named\<close>

definition artifacts_ok :: "config_library \<Rightarrow> proof_config option \<Rightarrow> bool" where
  "artifacts_ok lib p \<longleftrightarrow>
     (case p of
        None \<Rightarrow> True
      | Some v \<Rightarrow>
          let wasm = resolve_artifact_location (pc_wasm_source v) (pc_wasm_url v);
              zkey = resolve_artifact_location (pc_zkey_source v) (pc_zkey_url v)
          in \<not> blank wasm \<and> \<not> blank zkey \<and> location_ok lib ''wasm'' wasm \<and> location_ok lib ''zkey'' zkey)"

lemma proofs_category_iff: "no_failure (build_proofs_checks lib (Some c)) \<longleftrightarrow> artifacts_ok lib (cf_proof_config c)"
  by (cases "cf_proof_config c") (auto simp: build_proofs_checks_def artifacts_ok_def Let_def)

lemma all_categories: "(\<forall>c. P c) \<longleftrightarrow> P ConfigCheck \<and> P NetworkCheck \<and> P ContractsCheck \<and> P TreasuryCheck \<and> P ProofsCheck \<and> P WalletCheck \<and> P FixturesCheck"
  by (metis check_category.exhaust)

lemma config_iff:
  "validate_config lib (Some c) = [] \<longleftrightarrow>
     validate_config lib (Some (c\<lparr>cf_proof_config := None\<rparr>)) = [] \<and> validate_proof_fields (cf_proof_config c) = []"
proof -
  have "validate_proof_fields None = []" "effective_url (c\<lparr>cf_proof_config := None\<rparr>) = effective_url c"
    "validate_contract_fields lib (c\<lparr>cf_proof_config := None\<rparr>) = validate_contract_fields lib c"
    "validate_retry_fields (c\<lparr>cf_proof_config := None\<rparr>) = validate_retry_fields c"
    by (simp_all add: effective_url_def validate_contract_fields_def validate_retry_fields_def validate_proof_fields_def)
  then show ?thesis by (auto simp: no_config_errors)
qed

lemma contract_of_accepted:
  "assert_valid_config lib (Some c) = Inr r \<Longrightarrow>
     cc_contract_id r = (case primary_contract (Some c) of None \<Rightarrow> [] | Some i \<Rightarrow> i)"
  by (cases "cf_contract_id c") (auto simp: accepted_iff primary_contract_def or_else_def)

text \<open>
  C23: for a configuration whose proof artifacts are named by URLs, the checklist has no blocker exactly if the configuration
  is accepted, its primary contract is not blank and no observation speaks against it: what the checklist passes can be
  built, and the client is for a contract that is valid.
\<close>

theorem ready_iff_accepted:
  assumes "validate_proof_fields (cf_proof_config c) = []"
  shows "cl_is_ready (generate_setup_checklist lib (Some c) opts) \<longleftrightarrow>
    (\<exists>r. assert_valid_config lib (Some c) = Inr r \<and> \<not> blank (cc_contract_id r) \<and> is_valid_contract_id lib (cc_contract_id r)) \<and>
    artifacts_ok lib (cf_proof_config c) \<and> observations_ok lib c opts"
proof -
  let ?ok = "validate_config lib (Some c) = []"
  have ids: "list_all (\<lambda>(k, v). is_valid_contract_id lib v) (case cf_contract_ids c of None \<Rightarrow> [] | Some d \<Rightarrow> d)" if ?ok
    using that by (auto simp: no_config_errors validate_contract_fields_def Let_def list_all_iff split: if_splits)
  have url: "validate_url lib (effective_url c) = []" if ?ok
    using that by (simp add: no_config_errors)
  have accepted: "?ok \<longleftrightarrow> (\<exists>r. assert_valid_config lib (Some c) = Inr r)"
    by (simp add: accepted_iff)
  have ready: "cl_is_ready (generate_setup_checklist lib (Some c) opts) \<longleftrightarrow>
      ?ok \<and> (\<exists>i. primary_contract (Some c) = Some i \<and> \<not> blank i \<and> is_valid_contract_id lib i) \<and>
      artifacts_ok lib (cf_proof_config c) \<and> observations_ok lib c opts"
    unfolding ready_by_category generate_category_checklist_def ready_iff_no_failure all_categories category_checks_def
      check_category.case config_category_iff network_category_iff contracts_category_iff proofs_category_iff
    using ids url assms config_iff [of lib c] by (auto simp: observations_ok_def build_fixtures_checks_def)
  show ?thesis
  proof (cases ?ok)
    case True
    then obtain r where r: "assert_valid_config lib (Some c) = Inr r" using accepted by blast
    then show ?thesis using ready True contract_of_accepted [OF r]
      by (cases "primary_contract (Some c)") (auto simp: is_valid_contract_id_def)
  qed (use ready accepted in blast)
qed

definition quiet_options :: setup_options where
  "quiet_options = \<lparr>so_expected_passphrase = None, so_rpc_reachable = None, so_passphrase = None, so_contract_deployed = None,
     so_treasury = None, so_wallet = None, so_fixtures_available = None\<rparr>"

theorem ready_iff_accepted_witness:
  "\<exists>r. assert_valid_config example_library (Some (apply_builder_op (WithContractId example_contract) testnet_preset)) = Inr r"
proof -
  let ?c = "apply_builder_op (WithContractId example_contract) testnet_preset"
  have "validate_proof_fields (cf_proof_config ?c) = []" by code_simp
  moreover have "cl_is_ready (generate_setup_checklist example_library (Some ?c) quiet_options)" by code_simp
  ultimately show ?thesis using ready_iff_accepted [of ?c example_library quiet_options] by blast
qed

text \<open>
  An artifact given as a source needs no URL for the checklist, as its documentation says, and needs one for the client: the
  checklist has no blocker, and the configuration is rejected.
\<close>

definition sourced :: proof_config where
  "sourced = \<lparr>pc_wasm_url = [], pc_zkey_url = [], pc_wasm_source = Some (LocalSource ''a.wasm''),
     pc_zkey_source = Some (LocalSource ''a.zkey'')\<rparr>"

lemma ready_but_rejected:
  "cl_is_ready (generate_setup_checklist example_library
     (Some (testnet_preset\<lparr>cf_contract_id := Some example_contract, cf_proof_config := Some sourced\<rparr>)) quiet_options)"
  "build_config example_library (testnet_preset\<lparr>cf_contract_id := Some example_contract, cf_proof_config := Some sourced\<rparr>) =
     Inl [''proofConfig.wasmUrl'', ''proofConfig.zkeyUrl'']"
  by code_simp+

text \<open>Every blocker comes with guidance.\<close>

definition guided :: "check_item list \<Rightarrow> bool" where
  "guided xs \<longleftrightarrow> list_all (\<lambda>x. ck_status x = Fail \<longrightarrow> ck_guided x) xs"

lemma guided_simps [simp]:
  "guided []" "guided (item i c s # xs) \<longleftrightarrow> guided xs" "guided (bare_warning i c # xs) \<longleftrightarrow> guided xs"
  "guided (xs @ ys) \<longleftrightarrow> guided xs \<and> guided ys" "guided (map (\<lambda>f. item (g f) c s) fs)"
  by (auto simp: guided_def item_def bare_warning_def list_all_iff)

lemma blockers_guided: "guided (category_checks lib config opts c)"
  by (cases c; simp add: category_checks_def build_config_checks_def build_network_checks_def build_contracts_checks_def
      build_treasury_checks_def build_proofs_checks_def build_wallet_checks_def build_fixtures_checks_def Let_def
      split: option.split)

end
