(* ===== verification/RoleMatrix.thy ===== *)
theory RoleMatrix
  imports Prelude
begin

text \<open>
  Roles and what they may do (\<open>roles/capabilityMatrix.ts\<close>): the default matrix, its overrides, and the queries of a role and
  of a user with several roles. Roles and actions are texts, as in the code, which accepts unknown ones.
\<close>

section \<open>The matrix\<close>

datatype permission = Allowed | Denied | Conditional

type_synonym role_row = "(string, permission) dict"
type_synonym role_matrix = "(string, role_row) dict"

text \<open>The message is made of the role and the action.\<close>

datatype role_error = InsufficientRoleCapability string string

definition all_payroll_roles :: "string list" where
  "all_payroll_roles =
     [''payroll_admin'', ''batch_creator'', ''treasury_operator'', ''compliance_reviewer'', ''emergency_approver'',
      ''auditor'', ''employee'', ''viewer'']"

definition all_payroll_actions :: "string list" where
  "all_payroll_actions = [''review'', ''approve'', ''submit'', ''audit'', ''export'', ''configure'', ''cancel'']"

definition default_row :: "permission list \<Rightarrow> role_row" where
  "default_row ps = zip all_payroll_actions ps"

definition default_role_capability_matrix :: role_matrix where
  "default_role_capability_matrix =
     [(''payroll_admin'', default_row [Allowed, Allowed, Allowed, Allowed, Allowed, Allowed, Allowed]),
      (''batch_creator'', default_row [Allowed, Denied, Allowed, Denied, Allowed, Denied, Conditional]),
      (''treasury_operator'', default_row [Allowed, Allowed, Allowed, Conditional, Allowed, Conditional, Conditional]),
      (''compliance_reviewer'', default_row [Allowed, Conditional, Denied, Allowed, Allowed, Denied, Conditional]),
      (''emergency_approver'', default_row [Allowed, Allowed, Denied, Conditional, Denied, Denied, Allowed]),
      (''auditor'', default_row [Allowed, Denied, Denied, Allowed, Allowed, Denied, Denied]),
      (''employee'', default_row [Conditional, Denied, Denied, Denied, Conditional, Denied, Denied]),
      (''viewer'', default_row [Allowed, Denied, Denied, Denied, Denied, Denied, Denied])]"

text \<open>An override may leave out a row or a permission.\<close>

type_synonym role_overrides = "(string, (string, permission option) dict option) dict"

definition override_row :: "(string, permission option) dict option \<Rightarrow> role_row \<Rightarrow> role_row" where
  "override_row actions row =
     fold (\<lambda>(action, perm) r. case perm of None \<Rightarrow> r | Some p \<Rightarrow> dict_put action p r)
       (case actions of None \<Rightarrow> [] | Some d \<Rightarrow> d) row"

definition row_of :: "role_matrix \<Rightarrow> string \<Rightarrow> role_row" where
  "row_of m role = (case dict_get m role of None \<Rightarrow> [] | Some r \<Rightarrow> r)"

definition override_role :: "string \<times> (string, permission option) dict option \<Rightarrow> role_matrix \<Rightarrow> role_matrix" where
  "override_role ra m = dict_put (fst ra) (override_row (snd ra) (row_of m (fst ra))) m"

definition new_role_matrix :: "role_overrides option \<Rightarrow> role_matrix" where
  "new_role_matrix overrides =
     fold override_role (case overrides of None \<Rightarrow> [] | Some ov \<Rightarrow> ov) default_role_capability_matrix"

definition get_permission :: "role_matrix \<Rightarrow> string \<Rightarrow> string \<Rightarrow> permission" where
  "get_permission m role action =
     (case dict_get m role of
        None \<Rightarrow> Denied
      | Some row \<Rightarrow> (case dict_get row action of None \<Rightarrow> Denied | Some p \<Rightarrow> p))"

definition granted :: "bool \<Rightarrow> permission \<Rightarrow> bool" where
  "granted allow_conditional p \<longleftrightarrow> p = Allowed \<or> (p = Conditional \<and> allow_conditional)"

definition has_capability :: "role_matrix \<Rightarrow> string \<Rightarrow> string \<Rightarrow> bool \<Rightarrow> bool" where
  "has_capability m role action allow_conditional = granted allow_conditional (get_permission m role action)"

definition assert_capability :: "role_matrix \<Rightarrow> string \<Rightarrow> string \<Rightarrow> bool \<Rightarrow> (role_error, unit) result" where
  "assert_capability m role action allow_conditional =
     (if has_capability m role action allow_conditional then Inr () else Inl (InsufficientRoleCapability role action))"

definition get_capabilities_for_role :: "role_matrix \<Rightarrow> string \<Rightarrow> bool \<Rightarrow> string list" where
  "get_capabilities_for_role m role allow_conditional =
     (case dict_get m role of
        None \<Rightarrow> []
      | Some row \<Rightarrow> filter (\<lambda>a. case dict_get row a of None \<Rightarrow> False | Some p \<Rightarrow> granted allow_conditional p) (map fst row))"

definition get_roles_with_capability :: "role_matrix \<Rightarrow> string \<Rightarrow> bool \<Rightarrow> string list" where
  "get_roles_with_capability m action allow_conditional =
     filter (\<lambda>r. has_capability m r action allow_conditional) (map fst m)"

definition has_user_capability :: "role_matrix \<Rightarrow> string list \<Rightarrow> string \<Rightarrow> bool \<Rightarrow> bool" where
  "has_user_capability m roles action allow_conditional =
     (if roles = [] then False else list_ex (\<lambda>r. has_capability m r action allow_conditional) roles)"

text \<open>A set with the order of insertion\<close>

definition set_add :: "'a \<Rightarrow> 'a list \<Rightarrow> 'a list" where
  "set_add x xs = (if x \<in> set xs then xs else xs @ [x])"

definition get_effective_capabilities :: "role_matrix \<Rightarrow> string list \<Rightarrow> bool \<Rightarrow> string list" where
  "get_effective_capabilities m roles allow_conditional =
     (if roles = [] then []
      else fold (\<lambda>r acc. fold set_add (get_capabilities_for_role m r allow_conditional) acc) roles [])"

definition has_any_capability :: "role_matrix \<Rightarrow> string \<Rightarrow> string list \<Rightarrow> bool \<Rightarrow> bool" where
  "has_any_capability m role actions allow_conditional = list_ex (\<lambda>a. has_capability m role a allow_conditional) actions"

definition has_all_capabilities :: "role_matrix \<Rightarrow> string \<Rightarrow> string list \<Rightarrow> bool \<Rightarrow> bool" where
  "has_all_capabilities m role actions allow_conditional = list_all (\<lambda>a. has_capability m role a allow_conditional) actions"

text \<open>The cells of the table, row by row; how a cell is drawn is left out.\<close>

definition capability_table :: "role_matrix \<Rightarrow> (string \<times> permission list) list" where
  "capability_table m = map (\<lambda>r. (r, map (get_permission m r) all_payroll_actions)) all_payroll_roles"

definition check_role_capability :: "string \<Rightarrow> string \<Rightarrow> bool \<Rightarrow> bool" where
  "check_role_capability = has_capability (new_role_matrix None)"

definition get_role_actions :: "string \<Rightarrow> bool \<Rightarrow> string list" where
  "get_role_actions = get_capabilities_for_role (new_role_matrix None)"

definition can_user_perform :: "string list \<Rightarrow> string \<Rightarrow> bool \<Rightarrow> bool" where
  "can_user_perform = has_user_capability (new_role_matrix None)"

section \<open>The queries agree\<close>

definition matrix_ok :: "role_matrix \<Rightarrow> bool" where
  "matrix_ok m \<longleftrightarrow> dict_ok m \<and> (\<forall>r row. dict_get m r = Some row \<longrightarrow> dict_ok row)"

lemma override_row_ok: "dict_ok row \<Longrightarrow> dict_ok (override_row actions row)"
proof -
  have "dict_ok row \<Longrightarrow> dict_ok (fold (\<lambda>(action, perm) r. case perm of None \<Rightarrow> r | Some p \<Rightarrow> dict_put action p r) ds row)" for ds
    by (induction ds arbitrary: row) (auto split: option.splits)
  then show "dict_ok row \<Longrightarrow> dict_ok (override_row actions row)" by (simp add: override_row_def)
qed

lemma override_role_ok: "matrix_ok m \<Longrightarrow> matrix_ok (override_role ra m)"
proof -
  assume m: "matrix_ok m"
  then have "dict_ok (row_of m (fst ra))" by (auto simp: matrix_ok_def row_of_def split: option.split)
  then show ?thesis using m by (auto simp: matrix_ok_def override_role_def update_conv' override_row_ok)
qed

lemma default_matrix_ok: "matrix_ok default_role_capability_matrix"
proof -
  have rows: "\<forall>(r, row) \<in> set default_role_capability_matrix. dict_ok row"
    by (simp add: default_role_capability_matrix_def default_row_def all_payroll_actions_def dict_ok_def)
  have "dict_get default_role_capability_matrix r = Some row \<Longrightarrow> (r, row) \<in> set default_role_capability_matrix" for r row
    by (rule map_of_SomeD)
  moreover have "dict_ok default_role_capability_matrix"
    by (simp add: default_role_capability_matrix_def dict_ok_def)
  ultimately show ?thesis using rows unfolding matrix_ok_def by blast
qed

lemma new_role_matrix_ok: "matrix_ok (new_role_matrix overrides)"
proof -
  have "matrix_ok m \<Longrightarrow> matrix_ok (fold override_role ov m)" for ov m
    by (induction ov arbitrary: m) (auto simp: override_role_ok)
  then show ?thesis using default_matrix_ok by (simp add: new_role_matrix_def)
qed

lemma in_capabilities_iff: "a \<in> set (get_capabilities_for_role m r c) \<longleftrightarrow> has_capability m r a c"
proof (cases "dict_get m r")
  case (Some row)
  have "a \<in> fst ` set row" if "dict_get row a = Some p" for p
    using that by (metis map_of_SomeD fst_conv image_eqI)
  then show ?thesis
    by (cases "dict_get row a")
      (auto simp: get_capabilities_for_role_def has_capability_def get_permission_def granted_def Some)
qed (simp add: get_capabilities_for_role_def has_capability_def get_permission_def granted_def)

lemma set_adds: "set (fold set_add xs acc) = set acc \<union> set xs" "distinct acc \<Longrightarrow> distinct (fold set_add xs acc)"
  by (induction xs arbitrary: acc) (auto simp: set_add_def)

lemma effective_fold:
  "set (fold (\<lambda>r acc. fold set_add (f r) acc) rs acc) = set acc \<union> (\<Union>r \<in> set rs. set (f r))"
  "distinct acc \<Longrightarrow> distinct (fold (\<lambda>r acc. fold set_add (f r) acc) rs acc)"
  by (induction rs arbitrary: acc) (auto simp: set_adds)

text \<open>
  whatever the overrides, the three views of a user agree: an action is in the list of effective capabilities exactly if
  the user has it, and exactly if one of the user's roles is among the roles that have it; no action is listed twice, and
  a role the matrix does not know has none.
\<close>

theorem capability_views_agree:
  "(a \<in> set (get_effective_capabilities (new_role_matrix ov) roles c)) = has_user_capability (new_role_matrix ov) roles a c \<and>
   has_user_capability (new_role_matrix ov) roles a c =
     (set roles \<inter> set (get_roles_with_capability (new_role_matrix ov) a c) \<noteq> {}) \<and>
   distinct (get_effective_capabilities (new_role_matrix ov) roles c) \<and>
   is_ok (assert_capability (new_role_matrix ov) r a c) = (r \<in> set (get_roles_with_capability (new_role_matrix ov) a c))"
proof -
  let ?m = "new_role_matrix ov"
  have known: "r \<in> set (get_roles_with_capability ?m a c) \<longleftrightarrow> has_capability ?m r a c" for r
  proof -
    have "r \<in> fst ` set ?m" if "has_capability ?m r a c"
    proof (rule ccontr)
      assume "r \<notin> fst ` set ?m"
      then have "dict_get ?m r = None" by (simp add: map_of_eq_None_iff)
      then show False using that by (simp add: has_capability_def get_permission_def granted_def)
    qed
    then show ?thesis by (auto simp: get_roles_with_capability_def)
  qed
  have "(a \<in> set (get_effective_capabilities ?m roles c)) = has_user_capability ?m roles a c"
    by (simp add: get_effective_capabilities_def has_user_capability_def effective_fold in_capabilities_iff list_ex_iff)
  moreover have "has_user_capability ?m roles a c = (set roles \<inter> set (get_roles_with_capability ?m a c) \<noteq> {})"
    using known by (auto simp: has_user_capability_def list_ex_iff)
  moreover have "distinct (get_effective_capabilities ?m roles c)"
    by (simp add: get_effective_capabilities_def effective_fold(2))
  ultimately show ?thesis using known by (simp add: assert_capability_def)
qed

section \<open>Overrides\<close>

lemma override_row_simps [simp]:
  "override_row None row = row" "override_row (Some []) row = row"
  "override_row (Some ((k, None) # d)) row = override_row (Some d) row"
  "override_row (Some ((k, Some p) # d)) row = override_row (Some d) (dict_put k p row)"
  by (simp_all add: override_row_def)

lemma override_row_absent: "a \<notin> fst ` set d \<Longrightarrow> dict_get (override_row (Some d) row) a = dict_get row a"
proof (induction d arbitrary: row)
  case (Cons kp d)
  obtain k p where kp: "kp = (k, p)" by (cases kp)
  show ?case using Cons by (cases p) (auto simp: kp update_conv')
qed simp

lemma override_row_get:
  "dict_ok d \<Longrightarrow> dict_get (override_row (Some d) row) a =
     (case Option.bind (dict_get d a) id of Some p \<Rightarrow> Some p | None \<Rightarrow> dict_get row a)"
proof (induction d arbitrary: row)
  case (Cons kp d)
  obtain k p where kp: "kp = (k, p)" by (cases kp)
  have d: "k \<notin> fst ` set d" "dict_ok d" using Cons.prems by (auto simp: dict_ok_def kp)
  show ?case
  proof (cases "a = k")
    case True
    then show ?thesis using override_row_absent [OF d(1)] by (cases p) (simp_all add: kp update_conv')
  next
    case False
    then have "dict_get (dict_put k v row) a = dict_get row a" for v by (simp add: update_conv')
    then show ?thesis using False Cons.IH [OF d(2)] by (cases p) (simp_all add: kp split: option.split)
  qed
qed simp

lemma override_absent:
  "r \<notin> fst ` set ov \<Longrightarrow> row_of (fold override_role ov m) r = row_of m r"
  by (induction ov arbitrary: m) (auto simp: override_role_def row_of_def update_conv')

lemma permission_of_row: "get_permission m r a = (case dict_get (row_of m r) a of None \<Rightarrow> Denied | Some p \<Rightarrow> p)"
  by (simp add: get_permission_def row_of_def split: option.split)

lemma overridden_row:
  assumes "dict_ok ov"
  shows "row_of (new_role_matrix (Some ov)) r =
    (case dict_get ov r of None \<Rightarrow> row_of default_role_capability_matrix r
     | Some actions \<Rightarrow> override_row actions (row_of default_role_capability_matrix r))"
proof -
  have "row_of (fold override_role ov m) r =
      (case dict_get ov r of None \<Rightarrow> row_of m r | Some actions \<Rightarrow> override_row actions (row_of m r))" for m
    using assms
  proof (induction ov arbitrary: m)
    case (Cons ra ov)
    obtain k d where ra: "ra = (k, d)" by (cases ra)
    have "k \<notin> fst ` set ov" "dict_ok ov" using Cons.prems by (auto simp: dict_ok_def ra)
    moreover have "row_of (override_role ra m) r = (if r = k then override_row d (row_of m k) else row_of m r)"
      by (auto simp: override_role_def ra row_of_def update_conv')
    moreover have "row_of (fold override_role ov (override_role ra m)) k = row_of (override_role ra m) k"
      using override_absent [OF calculation(1)] .
    ultimately show ?case using Cons.IH [of "override_role ra m"]
      by (cases "r = k") (simp_all add: ra cong: option.case_cong)
  qed simp
  then show ?thesis by (simp add: new_role_matrix_def)
qed

text \<open>
  An override changes exactly the permissions it names; the others stay as in the default matrix.
\<close>

theorem override_permission:
  assumes "dict_ok ov" "\<And>d. dict_get ov r = Some (Some d) \<Longrightarrow> dict_ok d"
  shows "get_permission (new_role_matrix (Some ov)) r a =
    (case Option.bind (Option.bind (dict_get ov r) id) (\<lambda>d. Option.bind (dict_get d a) id) of
       Some p \<Rightarrow> p | None \<Rightarrow> get_permission default_role_capability_matrix r a)"
proof (cases "Option.bind (dict_get ov r) id")
  case None
  then have "row_of (new_role_matrix (Some ov)) r = row_of default_role_capability_matrix r"
    by (cases "dict_get ov r") (auto simp: overridden_row [OF assms(1)] override_row_def)
  then show ?thesis using None by (simp add: permission_of_row)
next
  case (Some d)
  then have r: "dict_get ov r = Some (Some d)" by (cases "dict_get ov r") auto
  have d: "dict_ok d" using assms(2) [OF r] .
  show ?thesis
    by (simp add: permission_of_row overridden_row [OF assms(1)] r override_row_get [OF d] split: option.split)
qed

section \<open>Duties of the default matrix\<close>

text \<open>
  Who may approve and submit a run alone: the administrator and the operator of the treasury. An auditor never moves money,
  and an employee or viewer changes nothing.
\<close>

lemma default_duties:
  "filter (\<lambda>r. has_all_capabilities (new_role_matrix None) r [''approve'', ''submit''] True) all_payroll_roles =
     [''payroll_admin'', ''treasury_operator'']"
  "get_roles_with_capability (new_role_matrix None) ''configure'' False = [''payroll_admin'']"
  "\<not> has_any_capability (new_role_matrix None) ''auditor'' [''approve'', ''submit'', ''configure'', ''cancel''] True"
  "get_role_actions ''viewer'' True = [''review'']"
  by code_simp+

text \<open>Two roles that each may do one half together may do both.\<close>

lemma combined_duties:
  "can_user_perform [''batch_creator'', ''emergency_approver''] ''approve'' False"
  "can_user_perform [''batch_creator'', ''emergency_approver''] ''submit'' False"
  by code_simp+

end
