(* ===== verification/Base64.thy ===== *)
theory Base64
  imports Prelude
begin

text \<open>
  The base64 coding of the platform, as the code uses it for opaque cursors (\<open>Buffer.from(s).toString("base64")\<close> and back).
  A text is its code units, each a byte. The reader is the one of the platform: it skips what is no digit, takes the
  URL-safe digits too and stops at the padding.
\<close>

section \<open>Digits\<close>

definition b64_char :: "nat \<Rightarrow> char" where
  "b64_char n =
     (if n < 26 then char_of (n + 65) else if n < 52 then char_of (n + 71) else if n < 62 then char_of (n - 4)
      else if n = 62 then CHR ''+'' else CHR ''/'')"

definition b64_digit :: "char \<Rightarrow> nat option" where
  "b64_digit c =
     (let n = (of_char c :: nat) in
      if 65 \<le> n \<and> n \<le> 90 then Some (n - 65) else if 97 \<le> n \<and> n \<le> 122 then Some (n - 71)
      else if 48 \<le> n \<and> n \<le> 57 then Some (n + 4)
      else if c = CHR ''+'' \<or> c = CHR ''-'' then Some 62 else if c = CHR ''/'' \<or> c = CHR ''_'' then Some 63 else None)"

lemma char_of_not: "m < 256 \<Longrightarrow> m \<noteq> of_char c \<Longrightarrow> char_of m \<noteq> (c :: char)" for m :: nat
  by auto

lemma b64_digit_char: "n < 64 \<Longrightarrow> b64_digit (b64_char n) = Some n \<and> b64_char n \<noteq> CHR ''=''"
proof -
  assume n: "n < 64"
  have eq: "of_char CHR ''='' = (61::nat)" by simp
  consider "n < 26" | "26 \<le> n" "n < 52" | "52 \<le> n" "n < 62" | "n = 62" | "n = 63" using n by linarith
  then show ?thesis
  proof cases
    case 1
    then show ?thesis using char_of_not [of "n + 65" "CHR ''=''"] eq by (simp add: b64_char_def b64_digit_def)
  next
    case 2
    then show ?thesis using char_of_not [of "n + 71" "CHR ''=''"] eq by (simp add: b64_char_def b64_digit_def)
  next
    case 3
    then have "48 \<le> n - 4" "n - 4 \<le> 57" by linarith+
    then show ?thesis using 3 char_of_not [of "n - 4" "CHR ''=''"] eq by (simp add: b64_char_def b64_digit_def Let_def)
  qed (simp_all add: b64_char_def b64_digit_def)
qed

section \<open>Groups\<close>

fun b64_groups :: "nat list \<Rightarrow> char list" where
  "b64_groups (a # b # c # bs) =
     b64_char (a div 4) # b64_char ((a mod 4) * 16 + b div 16) # b64_char ((b mod 16) * 4 + c div 64) # b64_char (c mod 64) #
     b64_groups bs"
| "b64_groups [a, b] =
     [b64_char (a div 4), b64_char ((a mod 4) * 16 + b div 16), b64_char ((b mod 16) * 4), CHR ''='']"
| "b64_groups [a] = [b64_char (a div 4), b64_char ((a mod 4) * 16), CHR ''='', CHR ''='']"
| "b64_groups [] = []"

definition to_base64 :: "string \<Rightarrow> string" where
  "to_base64 s = b64_groups (map of_char s)"

fun b64_bytes :: "nat list \<Rightarrow> nat list" where
  "b64_bytes (a # b # c # d # ds) = [a * 4 + b div 16, (b mod 16) * 16 + c div 4, (c mod 4) * 64 + d] @ b64_bytes ds"
| "b64_bytes [a, b, c] = [a * 4 + b div 16, (b mod 16) * 16 + c div 4]"
| "b64_bytes [a, b] = [a * 4 + b div 16]"
| "b64_bytes ds = []"

definition from_base64 :: "string \<Rightarrow> string" where
  "from_base64 s = map char_of (b64_bytes (List.map_filter b64_digit (takeWhile (\<lambda>c. c \<noteq> CHR ''='') s)))"

section \<open>Round trip\<close>

lemma char_digits [simp]:
  "n < 64 \<Longrightarrow> b64_digit (b64_char n) = Some n" "n < 64 \<Longrightarrow> b64_char n \<noteq> CHR ''=''"
  using b64_digit_char by blast+

lemma sextets [simp]:
  "a < 256 \<Longrightarrow> a div 4 < 64" "b < 256 \<Longrightarrow> (a mod 4) * 16 + b div 16 < (64::nat)"
  "c < 256 \<Longrightarrow> (b mod 16) * 4 + c div 64 < (64::nat)" "(b mod 16) * 4 < (64::nat)" "(a mod 4) * 16 < (64::nat)"
  by linarith+

lemma small_parts [simp]:
  "b < 256 \<Longrightarrow> b div 16 div 16 = (0::nat)" "b < 256 \<Longrightarrow> b div 16 mod 16 = b div (16::nat)"
  "c < 256 \<Longrightarrow> c div 64 div 4 = (0::nat)" "c < 256 \<Longrightarrow> c div 64 mod 4 = c div (64::nat)"
  by simp_all

lemma groups_round_trip:
  "\<forall>b \<in> set bs. b < 256 \<Longrightarrow>
     b64_bytes (List.map_filter b64_digit (takeWhile (\<lambda>c. c \<noteq> CHR ''='') (b64_groups bs))) = bs"
  by (induction bs rule: b64_groups.induct) (simp_all add: map_filter_simps)

lemma base64_round_trip: "from_base64 (to_base64 s) = s"
proof -
  have "\<forall>b \<in> set (map of_char s). b < (256::nat)" by simp
  then show ?thesis by (simp add: from_base64_def to_base64_def groups_round_trip comp_def)
qed

end
