(* ===== verification/RecordPages.thy ===== *)
theory RecordPages
  imports JsonText Base64
begin

text \<open>
  Pages of payroll history and audit records (\<open>pagination.ts\<close>): opaque cursors, the page of a list, the filters, and the
  iterator over the pages. Numbers of options and cursors are whole; a text is its bytes.
\<close>

section \<open>Cursors\<close>

datatype page_direction = Forward | Backward

fun direction_name :: "page_direction \<Rightarrow> string" where
  "direction_name Forward = ''forward''"
| "direction_name Backward = ''backward''"

definition encode_cursor :: "int \<Rightarrow> page_direction \<Rightarrow> string" where
  "encode_cursor index direction =
     to_base64 (stringify_json (JsonObject [(''index'', JsonNumber index), (''direction'', JsonText (direction_name direction))]))"

definition decode_cursor :: "string \<Rightarrow> (int \<times> json) option" where
  "decode_cursor cursor =
     (case parse_json (from_base64 cursor) of
        Some (JsonObject ps) \<Rightarrow>
          (case (dict_get ps ''index'', dict_get ps ''direction'') of
             (Some (JsonNumber i), Some d) \<Rightarrow> Some (i, d)
           | _ \<Rightarrow> None)
      | _ \<Rightarrow> None)"

lemma decode_encode [simp]: "decode_cursor (encode_cursor i d) = Some (i, JsonText (direction_name d))"
proof -
  let ?j = "JsonObject [(''index'', JsonNumber i), (''direction'', JsonText (direction_name d))]"
  have "parse_json (stringify_json ?j) = Some ?j" by (rule parse_stringified) simp
  then show ?thesis by (simp only: decode_cursor_def encode_cursor_def base64_round_trip) simp
qed

lemma encode_cursor_nonempty [simp]: "encode_cursor i d \<noteq> []"
  using decode_encode [of i d] by (auto simp: decode_cursor_def from_base64_def map_filter_simps parse_json_def skip_space_def)

section \<open>Pages\<close>

definition default_page_size :: int where "default_page_size = 20"

definition max_page_size :: int where "max_page_size = 100"

definition min_page_size :: int where "min_page_size = 1"

definition resolve_page_size :: "int option \<Rightarrow> int" where
  "resolve_page_size requested =
     (case requested of
        None \<Rightarrow> default_page_size
      | Some n \<Rightarrow> if n < min_page_size then min_page_size else if max_page_size < n then max_page_size else n)"

record page_options =
  po_cursor :: "string option"
  po_page :: "int option"
  po_page_size :: "int option"
  po_direction :: "page_direction option"

record 'a record_page =
  pg_data :: "'a list"
  pg_total :: int
  pg_count :: int
  pg_page_size :: int
  pg_page :: int
  pg_has_next :: bool
  pg_has_prev :: bool
  pg_next_cursor :: "string option"
  pg_prev_cursor :: "string option"

definition start_index :: "page_options \<Rightarrow> int \<Rightarrow> int" where
  "start_index opts len =
     (let size = resolve_page_size (po_page_size opts);
          start = (if truthy (po_cursor opts)
                   then (case decode_cursor (the (po_cursor opts)) of None \<Rightarrow> 0 | Some (i, d) \<Rightarrow> i)
                   else case po_page opts of
                     Some p \<Rightarrow> (max 1 p - 1) * size
                   | None \<Rightarrow> if po_direction opts = Some Backward then max 0 (len - size) else 0)
      in max 0 (min start len))"

definition paginate :: "'a list \<Rightarrow> page_options \<Rightarrow> 'a record_page" where
  "paginate records opts =
     (let size = resolve_page_size (po_page_size opts);
          direction = (case po_direction opts of None \<Rightarrow> Forward | Some d \<Rightarrow> d);
          len = int (length records);
          start = start_index opts len;
          slice = take (nat size) (drop (nat start) records);
          end_index = start + int (length slice)
      in \<lparr>pg_data = slice, pg_total = len, pg_count = int (length slice), pg_page_size = size,
          pg_page = (if 0 < size then start div size + 1 else 1),
          pg_has_next = (end_index < len), pg_has_prev = (0 < start),
          pg_next_cursor = (if end_index < len then Some (encode_cursor end_index direction) else None),
          pg_prev_cursor = (if 0 < start then Some (encode_cursor (max 0 (start - size)) direction) else None)\<rparr>)"

text \<open>The iterator, with a bound on the number of pages\<close>

fun iterate_pages :: "nat \<Rightarrow> 'a list \<Rightarrow> page_options \<Rightarrow> string option \<Rightarrow> 'a record_page list option" where
  "iterate_pages 0 records opts cursor = None"
| "iterate_pages (Suc n) records opts cursor =
     (let r = paginate records (opts\<lparr>po_cursor := cursor\<rparr>)
      in case pg_next_cursor r of
           None \<Rightarrow> Some [r]
         | Some c \<Rightarrow> map_option (Cons r) (iterate_pages n records opts (Some c)))"

definition paginate_iterator :: "nat \<Rightarrow> 'a list \<Rightarrow> page_options \<Rightarrow> 'a record_page list option" where
  "paginate_iterator n records opts = iterate_pages n records opts None"

section \<open>Filters\<close>

record history_record =
  hr_amount :: int
  hr_recipient :: string
  hr_timestamp :: int

record history_filter =
  hf_min_amount :: "int option"
  hf_max_amount :: "int option"
  hf_recipient :: "string option"
  hf_from :: "int option"
  hf_to :: "int option"

record audit_record =
  ar_id :: string
  ar_action :: string
  ar_actor :: string
  ar_timestamp :: int

record audit_filter =
  af_action :: "string option"
  af_actor :: "string option"
  af_from :: "int option"
  af_to :: "int option"

definition at_least :: "int option \<Rightarrow> int \<Rightarrow> bool" where
  "at_least bound v = (case bound of None \<Rightarrow> True | Some b \<Rightarrow> \<not> v < b)"

definition at_most :: "int option \<Rightarrow> int \<Rightarrow> bool" where
  "at_most bound v = (case bound of None \<Rightarrow> True | Some b \<Rightarrow> \<not> b < v)"

definition same_as :: "string option \<Rightarrow> string \<Rightarrow> bool" where
  "same_as wanted v = (case wanted of None \<Rightarrow> True | Some w \<Rightarrow> v = w)"

definition filter_payroll_records :: "history_record list \<Rightarrow> history_filter \<Rightarrow> history_record list" where
  "filter_payroll_records records f =
     filter (\<lambda>r. at_least (hf_min_amount f) (hr_amount r) \<and> at_most (hf_max_amount f) (hr_amount r) \<and>
       same_as (hf_recipient f) (hr_recipient r) \<and> at_least (hf_from f) (hr_timestamp r) \<and> at_most (hf_to f) (hr_timestamp r)) records"

definition filter_audit_records :: "audit_record list \<Rightarrow> audit_filter \<Rightarrow> audit_record list" where
  "filter_audit_records records f =
     filter (\<lambda>r. same_as (af_action f) (ar_action r) \<and> same_as (af_actor f) (ar_actor r) \<and>
       at_least (af_from f) (ar_timestamp r) \<and> at_most (af_to f) (ar_timestamp r)) records"

definition get_payroll_history_page :: "history_record list \<Rightarrow> history_filter \<Rightarrow> page_options \<Rightarrow> history_record record_page" where
  "get_payroll_history_page records f opts = paginate (filter_payroll_records records f) opts"

definition get_audit_records_page :: "audit_record list \<Rightarrow> audit_filter \<Rightarrow> page_options \<Rightarrow> audit_record record_page" where
  "get_audit_records_page records f opts = paginate (filter_audit_records records f) opts"

section \<open>The pages and the list\<close>

lemma page_size_bounds: "1 \<le> resolve_page_size n" "resolve_page_size n \<le> 100"
  by (auto simp: resolve_page_size_def default_page_size_def max_page_size_def min_page_size_def split: option.split)

lemma start_in_list: "0 \<le> start_index opts len" "0 \<le> len \<Longrightarrow> start_index opts len \<le> len"
  by (simp_all add: start_index_def Let_def)

lemma start_of_cursor: "0 \<le> i \<Longrightarrow> i \<le> len \<Longrightarrow> start_index (opts\<lparr>po_cursor := Some (encode_cursor i d)\<rparr>) len = i"
  by (simp add: start_index_def Let_def)

lemma page_data: "pg_data (paginate rs opts) = take (nat (resolve_page_size (po_page_size opts))) (drop (nat (start_index opts (int (length rs)))) rs)"
  by (simp add: paginate_def Let_def)

lemma full_page:
  assumes "pg_next_cursor (paginate rs opts) = Some c"
  shows "start_index opts (int (length rs)) + resolve_page_size (po_page_size opts) < int (length rs)"
    and "\<exists>d. c = encode_cursor (start_index opts (int (length rs)) + resolve_page_size (po_page_size opts)) d"
proof -
  let ?s = "start_index opts (int (length rs))" and ?n = "resolve_page_size (po_page_size opts)"
  let ?e = "?s + int (length (take (nat ?n) (drop (nat ?s) rs)))"
  have e: "?e < int (length rs)" "\<exists>d. c = encode_cursor ?e d"
    using assms by (auto simp: paginate_def Let_def simp del: length_take length_drop split: if_splits)
  have "0 \<le> ?s" "?s \<le> int (length rs)" "1 \<le> ?n" using start_in_list page_size_bounds by simp_all
  then have "?e = min (?s + ?n) (int (length rs))" by simp
  then have "?e = ?s + ?n" using e(1) by linarith
  then show "?s + ?n < int (length rs)" "\<exists>d. c = encode_cursor (?s + ?n) d" using e by simp_all
qed

lemma last_page:
  assumes "pg_next_cursor (paginate rs opts) = None"
  shows "pg_data (paginate rs opts) = drop (nat (start_index opts (int (length rs)))) rs"
proof -
  let ?s = "start_index opts (int (length rs))" and ?n = "resolve_page_size (po_page_size opts)"
  have "\<not> ?s + int (length (take (nat ?n) (drop (nat ?s) rs))) < int (length rs)"
    using assms by (simp add: paginate_def Let_def split: if_splits)
  moreover have "0 \<le> ?s" "1 \<le> ?n" using start_in_list page_size_bounds by simp_all
  ultimately have "length rs - nat ?s \<le> nat ?n" by simp
  then show ?thesis by (simp add: page_data)
qed

lemma iterate_covers:
  "int (length rs) - start_index (opts\<lparr>po_cursor := cursor\<rparr>) (int (length rs)) < int n \<Longrightarrow>
     \<exists>pages. iterate_pages n rs opts cursor = Some pages \<and>
       concat (map pg_data pages) = drop (nat (start_index (opts\<lparr>po_cursor := cursor\<rparr>) (int (length rs)))) rs"
proof (induction n arbitrary: cursor)
  case 0
  then show ?case using start_in_list(2) [of "int (length rs)" "opts\<lparr>po_cursor := cursor\<rparr>"] by simp
next
  case (Suc n)
  let ?o = "opts\<lparr>po_cursor := cursor\<rparr>"
  let ?s = "start_index ?o (int (length rs))" and ?n = "resolve_page_size (po_page_size opts)"
  show ?case
  proof (cases "pg_next_cursor (paginate rs ?o)")
    case None
    then show ?thesis using last_page [OF None] by simp
  next
    case (Some c)
    have size: "1 \<le> ?n" "0 \<le> ?s" using page_size_bounds start_in_list by simp_all
    obtain d where c: "c = encode_cursor (?s + ?n) d" and less: "?s + ?n < int (length rs)"
      using full_page [OF Some] by auto
    then have next_start: "start_index (opts\<lparr>po_cursor := Some c\<rparr>) (int (length rs)) = ?s + ?n"
      using start_of_cursor [of "?s + ?n" "int (length rs)" d opts] size by simp
    then obtain pages where pages: "iterate_pages n rs opts (Some c) = Some pages"
      "concat (map pg_data pages) = drop (nat (?s + ?n)) rs" using Suc.IH [of "Some c"] Suc.prems size by auto
    have "nat (?s + ?n) = nat ?s + nat ?n" using size by (simp add: nat_add_distrib)
    then have "pg_data (paginate rs ?o) @ drop (nat (?s + ?n)) rs = drop (nat ?s) rs"
      by (simp add: page_data) (metis add.commute append_take_drop_id drop_drop)
    then show ?thesis using Some pages by (simp add: Let_def)
  qed
qed

text \<open>
  C37: the iterator over the pages ends, and its pages joined are the records from its first page on, each once and in order:
  all of them when it goes forward from the start, whatever the size of the pages.
\<close>

theorem iterator_visits_every_record:
  "\<exists>pages. paginate_iterator (Suc (length records)) records opts = Some pages \<and>
     concat (map pg_data pages) = drop (nat (start_index (opts\<lparr>po_cursor := None\<rparr>) (int (length records)))) records"
  unfolding paginate_iterator_def
  by (rule iterate_covers) (use start_in_list(1) [of "opts\<lparr>po_cursor := None\<rparr>" "int (length records)"] in linarith)

text \<open>Going on to the next page and back again comes to the same page.\<close>

theorem next_then_previous:
  assumes "pg_next_cursor (paginate rs opts) = Some c"
  shows "\<exists>b. pg_prev_cursor (paginate rs (opts\<lparr>po_cursor := Some c\<rparr>)) = Some b \<and>
    pg_data (paginate rs (opts\<lparr>po_cursor := Some b\<rparr>)) = pg_data (paginate rs opts)"
proof -
  let ?s = "start_index opts (int (length rs))" and ?n = "resolve_page_size (po_page_size opts)"
  have size: "1 \<le> ?n" "0 \<le> ?s" "?s \<le> int (length rs)" using page_size_bounds start_in_list by simp_all
  obtain d where c: "c = encode_cursor (?s + ?n) d" and less: "?s + ?n < int (length rs)" using full_page [OF assms] by auto
  then have "start_index (opts\<lparr>po_cursor := Some c\<rparr>) (int (length rs)) = ?s + ?n"
    using start_of_cursor [of "?s + ?n" "int (length rs)" d opts] size by simp
  then obtain e where prev: "pg_prev_cursor (paginate rs (opts\<lparr>po_cursor := Some c\<rparr>)) = Some (encode_cursor ?s e)"
    using size by (auto simp: paginate_def Let_def)
  have "start_index (opts\<lparr>po_cursor := Some (encode_cursor ?s e)\<rparr>) (int (length rs)) = ?s"
    using start_of_cursor size by blast
  then have "pg_data (paginate rs (opts\<lparr>po_cursor := Some (encode_cursor ?s e)\<rparr>)) = pg_data (paginate rs opts)"
    by (simp add: page_data)
  then show ?thesis using prev by blast
qed

text \<open>The iterator going backward gives the last page and ends: what lies before it is never visited.\<close>

lemma backward_stops_at_once:
  assumes "length rs = 25"
  shows "\<exists>pages. paginate_iterator 26 rs \<lparr>po_cursor = None, po_page = None, po_page_size = None, po_direction = Some Backward\<rparr> =
      Some pages \<and> concat (map pg_data pages) = drop 5 rs"
proof -
  let ?o = "\<lparr>po_cursor = None, po_page = None, po_page_size = None, po_direction = Some Backward\<rparr>"
  have "start_index (?o\<lparr>po_cursor := None\<rparr>) 25 = 5"
    by (simp add: start_index_def resolve_page_size_def default_page_size_def Let_def)
  then show ?thesis using iterate_covers [where rs = rs and opts = ?o and cursor = None and n = 26] assms by (simp add: paginate_iterator_def)
qed

end
