(* ===== verification/Calendar.thy ===== *)
theory Calendar
  imports Digits
begin

text \<open>
  The calendar of the language: a time is a number of milliseconds since 1970, in UTC, and its year, month and day are
  those of the proleptic Gregorian calendar, as the functions of \<open>Date\<close> that the code calls give them. The year of a day is
  computed; that it is the right one is \<open>year_from_day\<close>.
\<close>

section \<open>Years\<close>

definition ms_per_day :: int where
  "ms_per_day = 86400000"

definition day_of_time :: "int \<Rightarrow> int" where
  "day_of_time t = t div ms_per_day"

definition time_within_day :: "int \<Rightarrow> int" where
  "time_within_day t = t mod ms_per_day"

definition day_from_year :: "int \<Rightarrow> int" where
  "day_from_year y = 365 * (y - 1970) + (y - 1969) div 4 - (y - 1901) div 100 + (y - 1601) div 400"

definition leap_year :: "int \<Rightarrow> bool" where
  "leap_year y \<longleftrightarrow> 4 dvd y \<and> (\<not> 100 dvd y \<or> 400 dvd y)"

definition year_of_day :: "int \<Rightarrow> int" where
  "year_of_day d = (let e = 1970 + (400 * d + 506) div 146097 in if day_from_year e \<le> d then e else e - 1)"

lemma div_bounds: "0 < n \<Longrightarrow> n * (x div n) \<le> x" "0 < n \<Longrightarrow> x \<le> n * (x div n) + n - 1" for x n :: int
proof -
  have "x = n * (x div n) + x mod n" by simp
  moreover have "0 < n \<Longrightarrow> 0 \<le> x mod n" "0 < n \<Longrightarrow> x mod n < n" by simp_all
  ultimately show "0 < n \<Longrightarrow> n * (x div n) \<le> x" "0 < n \<Longrightarrow> x \<le> n * (x div n) + n - 1" by linarith+
qed

lemma div_next: "0 < n \<Longrightarrow> (x + 1) div n = x div n + (if n dvd x + 1 then 1 else 0)" for x n :: int
proof -
  assume n: "0 < n"
  have x: "x = n * (x div n) + x mod n" and r: "0 \<le> x mod n" "x mod n < n" using n by simp_all
  show ?thesis
  proof (cases "x mod n = n - 1")
    case True
    then have "x + 1 = n * (x div n) + n" using x by linarith
    then have step: "x + 1 = n * (x div n + 1) + 0" by (simp add: distrib_left)
    have "(x + 1) div n = x div n + 1" by (rule int_div_pos_eq [OF step]) (use n in simp_all)
    moreover have "(x + 1) mod n = 0" by (rule int_mod_pos_eq [OF step]) (use n in simp_all)
    ultimately show ?thesis by (simp add: dvd_eq_mod_eq_0)
  next
    case False
    then have r': "0 \<le> x mod n + 1" "x mod n + 1 < n" using r by linarith+
    have step: "x + 1 = n * (x div n) + (x mod n + 1)" using x by linarith
    have "(x + 1) div n = x div n" by (rule int_div_pos_eq [OF step r'])
    moreover have "(x + 1) mod n = x mod n + 1" by (rule int_mod_pos_eq [OF step r'])
    ultimately show ?thesis using r by (simp add: dvd_eq_mod_eq_0)
  qed
qed

lemma year_length: "day_from_year (y + 1) = day_from_year y + (if leap_year y then 366 else 365)"
proof -
  have e4: "(y + 1 - 1969) div 4 = (y - 1969) div 4 + (if 4 dvd y then 1 else 0)"
    using div_next [of 4 "y - 1969"] dvd_add_right_iff [of 4 "-1968" y] by (simp add: algebra_simps)
  have e100: "(y + 1 - 1901) div 100 = (y - 1901) div 100 + (if 100 dvd y then 1 else 0)"
    using div_next [of 100 "y - 1901"] dvd_add_right_iff [of 100 "-1900" y] by (simp add: algebra_simps)
  have e400: "(y + 1 - 1601) div 400 = (y - 1601) div 400 + (if 400 dvd y then 1 else 0)"
    using div_next [of 400 "y - 1601"] dvd_add_right_iff [of 400 "-1600" y] by (simp add: algebra_simps)
  have "400 dvd y \<Longrightarrow> 100 dvd y" "100 dvd y \<Longrightarrow> 4 dvd y"
    using dvd_trans [of 100 400 y] dvd_trans [of 4 100 y] by simp_all
  then consider "4 dvd y" "100 dvd y" "400 dvd y" | "4 dvd y" "100 dvd y" "\<not> 400 dvd y"
    | "4 dvd y" "\<not> 100 dvd y" "\<not> 400 dvd y" | "\<not> 4 dvd y" "\<not> 100 dvd y" "\<not> 400 dvd y" by blast
  then show ?thesis unfolding day_from_year_def e4 e100 e400 leap_year_def by cases simp_all
qed

lemma day_from_year_bounds:
  "146097 * (y - 1970) - 506 \<le> 400 * day_from_year y" "400 * day_from_year y \<le> 146097 * (y - 1970) + 589"
proof -
  define a b c where "a = (y - 1969) div 4" "b = (y - 1901) div 100" "c = (y - 1601) div 400"
  have "4 * a \<le> y - 1969" "y - 1969 \<le> 4 * a + 3" "100 * b \<le> y - 1901" "y - 1901 \<le> 100 * b + 99"
    "400 * c \<le> y - 1601" "y - 1601 \<le> 400 * c + 399"
    using div_bounds [of 4 "y - 1969"] div_bounds [of 100 "y - 1901"] div_bounds [of 400 "y - 1601"] by (simp_all add: a_b_c_def)
  moreover have "day_from_year y = 365 * (y - 1970) + a - b + c" by (simp add: day_from_year_def a_b_c_def)
  ultimately show "146097 * (y - 1970) - 506 \<le> 400 * day_from_year y" "400 * day_from_year y \<le> 146097 * (y - 1970) + 589"
    by simp_all
qed

lemma year_from_day: "day_from_year (year_of_day d) \<le> d" "d < day_from_year (year_of_day d + 1)"
proof -
  define q where "q = (400 * d + 506) div 146097"
  have q: "146097 * q \<le> 400 * d + 506" "400 * d + 506 < 146097 * q + 146097"
    using div_bounds [of 146097 "400 * d + 506"] by (simp_all add: q_def)
  have "d < day_from_year y" if "y = 1970 + q + 1" for y using q day_from_year_bounds(1) [of y] that by simp
  moreover have "day_from_year y \<le> d" if "y = 1970 + q - 1" for y using q day_from_year_bounds(2) [of y] that by simp
  ultimately show "day_from_year (year_of_day d) \<le> d" "d < day_from_year (year_of_day d + 1)"
    by (simp_all add: year_of_day_def q_def [symmetric] Let_def)
qed

lemma day_from_year_mono: "y \<le> z \<Longrightarrow> day_from_year y + 365 * (z - y) \<le> day_from_year z"
proof -
  have "day_from_year y + 365 * int n \<le> day_from_year (y + int n)" for n
  proof (induction n)
    case (Suc n)
    then show ?case using year_length [of "y + int n"] by (simp add: algebra_simps split: if_splits)
  qed simp
  then show "y \<le> z \<Longrightarrow> ?thesis" by (metis add_diff_cancel_left' zle_iff_zadd)
qed

lemma year_of_day_unique:
  assumes "day_from_year y \<le> d" "d < day_from_year (y + 1)"
  shows "year_of_day d = y"
proof (rule ccontr)
  assume "year_of_day d \<noteq> y"
  then consider "year_of_day d + 1 \<le> y" | "y + 1 \<le> year_of_day d" by linarith
  then show False
    using year_from_day [of d] assms day_from_year_mono [of "year_of_day d + 1" y] day_from_year_mono [of "y + 1" "year_of_day d"]
    by cases auto
qed

section \<open>Months and days\<close>

text \<open>The months are numbered from 0, as in the language.\<close>

definition days_before_month :: "bool \<Rightarrow> nat \<Rightarrow> int" where
  "days_before_month leap m =
     [0, 31, 59, 90, 120, 151, 181, 212, 243, 273, 304, 334, 365] ! m + (if leap \<and> 2 \<le> m then 1 else 0)"

definition month_start :: "int \<Rightarrow> nat \<Rightarrow> int" where
  "month_start y m = day_from_year y + days_before_month (leap_year y) m"

definition month_of_day :: "int \<Rightarrow> nat" where
  "month_of_day d = length (filter (\<lambda>m. month_start (year_of_day d) m \<le> d) [1..<12])"

definition date_of_day :: "int \<Rightarrow> int" where
  "date_of_day d = d - month_start (year_of_day d) (month_of_day d) + 1"

text \<open>\<open>MakeDay\<close>: a month outside the year and a date outside the month carry over.\<close>

definition make_day :: "int \<Rightarrow> int \<Rightarrow> int \<Rightarrow> int" where
  "make_day y m dt = month_start (y + m div 12) (nat (m mod 12)) + dt - 1"

definition week_day :: "int \<Rightarrow> int" where
  "week_day d = (d + 4) mod 7"

lemma months_increase: "m < 12 \<Longrightarrow> days_before_month l m + 28 \<le> days_before_month l (Suc m)"
proof -
  assume "m < 12"
  then have "m \<in> set [0..<12]" by simp
  moreover have "list_all (\<lambda>m. days_before_month l m + 28 \<le> days_before_month l (Suc m)) [0..<12]"
    by (simp add: days_before_month_def upt_rec)
  ultimately show ?thesis by (simp add: list_all_iff)
qed

lemma days_before_mono: "m \<le> n \<Longrightarrow> n \<le> 12 \<Longrightarrow> days_before_month l m \<le> days_before_month l n"
proof (induction n)
  case (Suc n)
  then show ?case using months_increase [of n l] by (cases "m = Suc n") auto
qed simp

lemma days_before_year: "days_before_month l 0 = 0" "days_before_month l 12 = (if l then 366 else 365)"
  by (simp_all add: days_before_month_def)

lemma month_starts: "month_start y 0 = day_from_year y" "month_start y 12 = day_from_year (y + 1)"
  using year_length [of y] by (simp_all add: month_start_def days_before_year)

lemma count_below:
  fixes P :: "nat \<Rightarrow> bool"
  assumes "\<And>i j. i \<le> j \<Longrightarrow> j < a + n \<Longrightarrow> P j \<Longrightarrow> P i" "i < n"
  shows "P (a + i) \<longleftrightarrow> i < length (filter P [a..<a + n])"
  using assms
proof (induction n arbitrary: i)
  case (Suc n)
  let ?k = "length (filter P [a..<a + n])"
  have le: "?k \<le> n" using length_filter_le [of P "[a..<a + n]"] by simp
  have down: "i \<le> j \<Longrightarrow> j < a + n \<Longrightarrow> P j \<Longrightarrow> P i" for i j using Suc.prems(1) [of i j] by simp
  have before: "P (a + i) \<longleftrightarrow> i < ?k" if "i < n" for i
    by (rule Suc.IH) (use down that in blast)+
  have k: "length (filter P [a..<a + Suc n]) = ?k + (if P (a + n) then 1 else 0)" by simp
  show ?case
  proof (cases "P (a + n)")
    case True
    have "?k = n"
    proof (rule ccontr)
      assume "?k \<noteq> n"
      then have "?k < n" using le by simp
      moreover have "P (a + ?k)" using Suc.prems(1) [of "a + ?k" "a + n"] True le by simp
      ultimately show False using before [of ?k] by blast
    qed
    then show ?thesis using True before [of i] Suc.prems(2) k by (cases "i = n") auto
  next
    case False
    then show ?thesis using before [of i] Suc.prems(2) k le by (cases "i = n") auto
  qed
qed simp

lemma month_of_day: "month_of_day d < 12" "month_start (year_of_day d) (month_of_day d) \<le> d"
  "d < month_start (year_of_day d) (Suc (month_of_day d))"
proof -
  let ?y = "year_of_day d" and ?m = "month_of_day d"
  have mono: "month_start ?y i \<le> month_start ?y j" if "i \<le> j" "j \<le> 12" for i j
    using days_before_mono [OF that] by (simp add: month_start_def)
  define P where "P = (\<lambda>m. month_start ?y m \<le> d)"
  have down: "P i" if "i \<le> j" "j < 1 + 11" "P j" for i j
    using mono [of i j] that by (simp add: P_def)
  have months: "?m = length (filter P [1..<1 + 11])" by (simp add: month_of_day_def P_def)
  have count: "P (1 + i) \<longleftrightarrow> i < ?m" if "i < 11" for i
    unfolding months by (rule count_below) (use down that in blast)+
  have "?m \<le> 11" using length_filter_le [of P "[1..<1 + 11]"] unfolding months by simp
  moreover have "(month_start ?y i \<le> d) = (i \<le> ?m)" if "1 \<le> i" "i < 12" for i
    using count [of "i - 1"] that by (auto simp: P_def)
  ultimately have m: "?m < 12" "\<And>i. 1 \<le> i \<Longrightarrow> i < 12 \<Longrightarrow> (month_start ?y i \<le> d) = (i \<le> ?m)" by auto
  show "?m < 12" using m(1) .
  show "month_start ?y ?m \<le> d" using m year_from_day(1) [of d] by (cases "?m = 0") (simp_all add: month_starts)
  show "d < month_start ?y (Suc ?m)"
  proof (cases "Suc ?m = 12")
    case True
    then show ?thesis using year_from_day(2) [of d] by (simp add: month_starts)
  next
    case False
    then have "\<not> month_start ?y (Suc ?m) \<le> d" using m by simp
    then show ?thesis by simp
  qed
qed

text \<open>The day made of a year, a month and a date that are in range has them.\<close>

lemma month_of_day_unique:
  assumes "m < 12" "month_start y m \<le> d" "d < month_start y (Suc m)"
  shows "year_of_day d = y" "month_of_day d = m"
proof -
  have mono: "month_start y i \<le> month_start y j" if "i \<le> j" "j \<le> 12" for i j
    using days_before_mono [OF that] by (simp add: month_start_def)
  show y: "year_of_day d = y"
    using assms mono [of 0 m] mono [of "Suc m" 12] by (intro year_of_day_unique) (simp_all add: month_starts)
  show "month_of_day d = m"
  proof (rule ccontr)
    assume "month_of_day d \<noteq> m"
    then consider "Suc (month_of_day d) \<le> m" | "Suc m \<le> month_of_day d" by linarith
    then show False using month_of_day [of d] assms mono [of "Suc (month_of_day d)" m] mono [of "Suc m" "month_of_day d"]
      by cases (auto simp: y)
  qed
qed

lemma day_of_its_date: "make_day (year_of_day d) (int (month_of_day d)) (date_of_day d) = d"
  using month_of_day(1) [of d] by (simp add: make_day_def date_of_day_def)

section \<open>Times as text\<close>

definition valid_time :: "int \<Rightarrow> bool" where
  "valid_time t \<longleftrightarrow> \<bar>t\<bar> \<le> 8640000000000000"

definition two_digits :: "int \<Rightarrow> string" where
  "two_digits n = pad_start 2 CHR ''0'' (int_string n)"

definition iso_year :: "int \<Rightarrow> string" where
  "iso_year y =
     (if 0 \<le> y \<and> y \<le> 9999 then pad_start 4 CHR ''0'' (int_string y)
      else (if y < 0 then CHR ''-'' else CHR ''+'') # pad_start 6 CHR ''0'' (int_string \<bar>y\<bar>))"

definition hour_of_time :: "int \<Rightarrow> int" where "hour_of_time t = time_within_day t div 3600000"

definition minute_of_time :: "int \<Rightarrow> int" where "minute_of_time t = time_within_day t div 60000 mod 60"

definition second_of_time :: "int \<Rightarrow> int" where "second_of_time t = time_within_day t div 1000 mod 60"

text \<open>\<open>toISOString\<close>; it throws a \<open>RangeError\<close> for a time that is no date.\<close>

definition to_iso_string :: "int \<Rightarrow> string option" where
  "to_iso_string t =
     (if \<not> valid_time t then None
      else let d = day_of_time t in
        Some (iso_year (year_of_day d) @ ''-'' @ two_digits (int (month_of_day d) + 1) @ ''-'' @ two_digits (date_of_day d) @
          ''T'' @ two_digits (hour_of_time t) @ '':'' @ two_digits (minute_of_time t) @ '':'' @ two_digits (second_of_time t) @
          ''.'' @ pad_start 3 CHR ''0'' (int_string (t mod 1000)) @ ''Z''))"

text \<open>Some days that are known\<close>

lemma known_times:
  "to_iso_string 0 = Some ''1970-01-01T00:00:00.000Z''"
  "to_iso_string 951827696123 = Some ''2000-02-29T12:34:56.123Z''"
  "to_iso_string (- 1) = Some ''1969-12-31T23:59:59.999Z''"
  "week_day (day_of_time 1704067200000) = 1"
  by code_simp+

end
