(* ===== verification/PayrollSchedules.thy ===== *)
theory PayrollSchedules
  imports Calendar
begin

text \<open>
  Schedules of payroll (\<open>schedules/scheduleNormalizer.ts\<close>): the period, the cutoff and the cycle of an execution date. Times
  are whole milliseconds; \<open>Date.parse\<close> and the zones the platform knows are arguments.
\<close>

section \<open>Inputs\<close>

datatype frequency = Monthly | SemiMonthly | BiWeekly | Weekly | Quarterly | CustomFrequency

text \<open>A date as given: a number, a \<open>Date\<close>, which may be invalid, or a text\<close>

datatype time_input =
  TimeUndefined | TimeNull | TimeNumber int | TimeNotFinite | TimeDate "int option" | TimeText string | TimeOther

record raw_schedule =
  rs_date :: time_input
  rs_timezone :: "string option"
  rs_period_label :: "string option"
  rs_cutoff :: time_input
  rs_frequency :: "frequency option"
  rs_lead_time_hours :: "int option"
  rs_custom_label :: "string option"

record schedule_options =
  sp_default_timezone :: "string option"
  sp_default_frequency :: "frequency option"
  sp_default_lead_time_hours :: "int option"
  sp_reference :: int

record schedule =
  sd_period :: string
  sd_display_label :: string
  sd_timezone :: string
  sd_frequency :: frequency
  sd_execution :: int
  sd_cutoff :: int
  sd_cycle_start :: string
  sd_cycle_end :: string
  sd_is_cutoff_passed :: bool
  sd_time_until_cutoff_ms :: int

text \<open>\<open>RangeErrorThrown\<close> is not one of the errors of the code: \<open>toISOString\<close> throws it.\<close>

datatype schedule_error =
  InvalidTimezone | TimestampNotFinite | InvalidDateObject | UnparsableDate | UnsupportedDate | RangeErrorThrown

section \<open>Periods\<close>

text \<open>\<open>YYYY-MM\<close>, with a month from 01 to 12\<close>

fun is_period :: "string \<Rightarrow> bool" where
  "is_period [a, b, c, d, e, m, n] \<longleftrightarrow>
     is_digit a \<and> is_digit b \<and> is_digit c \<and> is_digit d \<and> e = CHR ''-'' \<and>
     (m = CHR ''0'' \<and> is_digit n \<and> n \<noteq> CHR ''0'' \<or> m = CHR ''1'' \<and> n \<in> {CHR ''0'', CHR ''1'', CHR ''2''})"
| "is_period s = False"

fun short_period :: "string \<Rightarrow> string option" where
  "short_period [a, b, c, d, e, n] =
     (if is_digit a \<and> is_digit b \<and> is_digit c \<and> is_digit d \<and> e = CHR ''-'' \<and> is_digit n \<and> n \<noteq> CHR ''0''
      then Some [a, b, c, d, e, CHR ''0'', n] else None)"
| "short_period s = None"

fun is_year :: "string \<Rightarrow> bool" where
  "is_year [a, b, c, d] \<longleftrightarrow> is_digit a \<and> is_digit b \<and> is_digit c \<and> is_digit d"
| "is_year s = False"

definition month_prefixes :: "string list" where
  "month_prefixes =
     [''jan'', ''feb'', ''mar'', ''apr'', ''may'', ''jun'', ''jul'', ''aug'', ''sep'', ''oct'', ''nov'', ''dec'']"

definition month_names :: "string list" where
  "month_names =
     [''January'', ''February'', ''March'', ''April'', ''May'', ''June'', ''July'', ''August'', ''September'', ''October'',
      ''November'', ''December'']"

fun index_where :: "('a \<Rightarrow> bool) \<Rightarrow> 'a list \<Rightarrow> nat option" where
  "index_where P [] = None"
| "index_where P (x # xs) = (if P x then Some 0 else map_option Suc (index_where P xs))"

text \<open>\<open>split(/\s+/)\<close> of a text without blanks at its ends; the empty text has one word, which is empty.\<close>

definition split_words :: "string \<Rightarrow> string list" where
  "split_words s =
     (if s = [] then [[]]
      else filter (\<lambda>w. w \<noteq> []) (js_split CHR '' '' (map (\<lambda>c. if js_space c then CHR '' '' else c) s)))"

definition named_period :: "string \<Rightarrow> string option" where
  "named_period trimmed =
     (let words = split_words (js_lower trimmed) in
      if length words \<noteq> 2 then None
      else case find is_year words of
        None \<Rightarrow> None
      | Some y \<Rightarrow>
          (case find (\<lambda>w. w \<noteq> y) words of
             None \<Rightarrow> None
           | Some w \<Rightarrow>
               map_option (\<lambda>i. y @ ''-'' @ two_digits (int i + 1)) (index_where (\<lambda>m. is_prefix m w) month_prefixes)))"

definition normalize_period_string :: "string \<Rightarrow> string" where
  "normalize_period_string s =
     (let trimmed = js_trim s in
      if is_period trimmed then trimmed
      else case short_period trimmed of
        Some p \<Rightarrow> p
      | None \<Rightarrow> (case named_period trimmed of Some p \<Rightarrow> p | None \<Rightarrow> trimmed))"

definition format_period_to_display_name :: "string \<Rightarrow> string" where
  "format_period_to_display_name p =
     (if is_period p then month_names ! (dec_value (drop 5 p) - 1) @ '' '' @ take 4 p else p)"

definition resolve_period_and_label :: "string option \<Rightarrow> int \<Rightarrow> string option \<Rightarrow> string \<times> string" where
  "resolve_period_and_label period_input execution custom_label =
     (let period =
        (if \<not> (case period_input of None \<Rightarrow> True | Some s \<Rightarrow> blank s) then normalize_period_string (the period_input)
         else if \<not> valid_time execution then ''NaN-NaN''
         else let d = day_of_time execution in
           int_string (year_of_day d) @ ''-'' @ two_digits (int (month_of_day d) + 1))
      in (period, case custom_label of Some l \<Rightarrow> l | None \<Rightarrow> format_period_to_display_name period))"

section \<open>Zones and times\<close>

definition is_valid_timezone :: "(string \<Rightarrow> bool) \<Rightarrow> string \<Rightarrow> bool" where
  "is_valid_timezone zone_known tz \<longleftrightarrow> tz \<noteq> [] \<and> zone_known (js_trim tz)"

definition resolve_timezone :: "(string \<Rightarrow> bool) \<Rightarrow> string option \<Rightarrow> string \<Rightarrow> (schedule_error, string) result" where
  "resolve_timezone zone_known tz default_tz =
     (case tz of
        None \<Rightarrow> Inr default_tz
      | Some s \<Rightarrow>
          if blank s then Inr default_tz
          else if is_valid_timezone zone_known (js_trim s) then Inr (js_trim s) else Inl InvalidTimezone)"

fun parse_timestamp :: "(string \<Rightarrow> int option) \<Rightarrow> time_input \<Rightarrow> int \<Rightarrow> (schedule_error, int) result" where
  "parse_timestamp date_parse TimeUndefined fallback = Inr fallback"
| "parse_timestamp date_parse TimeNull fallback = Inr fallback"
| "parse_timestamp date_parse (TimeNumber n) fallback = Inr n"
| "parse_timestamp date_parse TimeNotFinite fallback = Inl TimestampNotFinite"
| "parse_timestamp date_parse (TimeDate d) fallback = (case d of None \<Rightarrow> Inl InvalidDateObject | Some t \<Rightarrow> Inr t)"
| "parse_timestamp date_parse (TimeText s) fallback = (case date_parse s of None \<Rightarrow> Inl UnparsableDate | Some t \<Rightarrow> Inr t)"
| "parse_timestamp date_parse TimeOther fallback = Inl UnsupportedDate"

section \<open>Cycles\<close>

text \<open>\<open>Date.UTC\<close>: the years from 0 to 99 stand for those of the last century.\<close>

definition date_utc :: "int \<Rightarrow> int \<Rightarrow> int \<Rightarrow> int \<Rightarrow> int" where
  "date_utc y m dt within = make_day (if 0 \<le> y \<and> y \<le> 99 then 1900 + y else y) m dt * ms_per_day + within"

definition end_of_day :: int where
  "end_of_day = 86399999"

definition get_utc_date :: "int \<Rightarrow> int" where
  "get_utc_date t = date_of_day (day_of_time t)"

definition set_utc_date :: "int \<Rightarrow> int \<Rightarrow> int" where
  "set_utc_date t dt =
     (let d = day_of_time t in make_day (year_of_day d) (int (month_of_day d)) dt * ms_per_day + time_within_day t)"

definition set_utc_hours :: "int \<Rightarrow> int \<Rightarrow> int" where
  "set_utc_hours t within = day_of_time t * ms_per_day + within"

definition cycle_instants :: "int \<Rightarrow> frequency \<Rightarrow> int \<times> int" where
  "cycle_instants execution f =
     (let d = day_of_time execution; year = year_of_day d; month = int (month_of_day d) in
      if f = Weekly then
        let diff = (week_day d + 6) mod 7;
            start = set_utc_hours (set_utc_date execution (get_utc_date execution - diff)) 0
        in (start, set_utc_hours (set_utc_date start (get_utc_date start + 6)) end_of_day)
      else (date_utc year month 1 0, date_utc year (month + 1) 0 end_of_day))"

definition compute_cycle_bounds :: "int \<Rightarrow> frequency \<Rightarrow> (schedule_error, string \<times> string) result" where
  "compute_cycle_bounds execution f =
     (if \<not> valid_time execution then Inl RangeErrorThrown
      else case cycle_instants execution f of (s, e) \<Rightarrow>
        (case (to_iso_string s, to_iso_string e) of
           (Some a, Some b) \<Rightarrow> Inr (a, b)
         | _ \<Rightarrow> Inl RangeErrorThrown))"

section \<open>Schedules\<close>

definition or_default :: "'a option \<Rightarrow> 'a \<Rightarrow> 'a" where
  "or_default v d = (case v of None \<Rightarrow> d | Some x \<Rightarrow> x)"

definition normalize_payroll_schedule ::
  "(string \<Rightarrow> bool) \<Rightarrow> (string \<Rightarrow> int option) \<Rightarrow> raw_schedule \<Rightarrow> schedule_options \<Rightarrow> (schedule_error, schedule) result" where
  "normalize_payroll_schedule zone_known date_parse input opts =
     (let frequency = or_default (rs_frequency input) (or_default (sp_default_frequency opts) Monthly);
          lead = or_default (rs_lead_time_hours input) (or_default (sp_default_lead_time_hours opts) 24)
      in bind_result (resolve_timezone zone_known (rs_timezone input) (or_default (sp_default_timezone opts) ''UTC'')) (\<lambda>timezone.
         bind_result (parse_timestamp date_parse (rs_date input) (sp_reference opts)) (\<lambda>execution.
         case resolve_period_and_label (rs_period_label input) execution (rs_custom_label input) of (period, label) \<Rightarrow>
         bind_result (if rs_cutoff input = TimeUndefined then Inr (execution - lead * 3600 * 1000)
            else parse_timestamp date_parse (rs_cutoff input) execution) (\<lambda>cutoff.
         bind_result (compute_cycle_bounds execution frequency) (\<lambda>cycle.
         Inr \<lparr>sd_period = period, sd_display_label = label, sd_timezone = timezone, sd_frequency = frequency,
              sd_execution = execution, sd_cutoff = cutoff, sd_cycle_start = fst cycle, sd_cycle_end = snd cycle,
              sd_is_cutoff_passed = (cutoff - sp_reference opts \<le> 0),
              sd_time_until_cutoff_ms = cutoff - sp_reference opts\<rparr>)))))"

fun frequency_name :: "frequency \<Rightarrow> string" where
  "frequency_name Monthly = ''monthly''"
| "frequency_name SemiMonthly = ''semi_monthly''"
| "frequency_name BiWeekly = ''bi_weekly''"
| "frequency_name Weekly = ''weekly''"
| "frequency_name Quarterly = ''quarterly''"
| "frequency_name CustomFrequency = ''custom''"

definition format_schedule_summary :: "schedule \<Rightarrow> (schedule_error, string) result" where
  "format_schedule_summary s =
     (case (to_iso_string (sd_cutoff s), to_iso_string (sd_execution s)) of
        (Some cutoff, Some execution) \<Rightarrow>
          Inr (''Payroll Schedule: '' @ sd_display_label s @ '' ['' @ sd_period s @ '']'' @ [CHR 0x0A] @
            ''Frequency: '' @ frequency_name (sd_frequency s) @ '' | Timezone: '' @ sd_timezone s @ [CHR 0x0A] @
            ''Cutoff: '' @ cutoff @ '' ['' @
            (if sd_is_cutoff_passed s then ''CLOSED''
             else ''OPEN ('' @ int_string ((2 * sd_time_until_cutoff_ms s + 3600000) div 7200000) @ ''h remaining)'') @ '']'' @ [CHR 0x0A] @
            ''Execution: '' @ execution @ [CHR 0x0A] @ ''Cycle: '' @ sd_cycle_start s @ '' to '' @ sd_cycle_end s)
      | _ \<Rightarrow> Inl RangeErrorThrown)"

section \<open>The cycle of an execution\<close>

lemma time_parts: "t = day_of_time t * ms_per_day + time_within_day t" "0 \<le> time_within_day t" "time_within_day t < ms_per_day"
  by (simp_all add: day_of_time_def time_within_day_def ms_per_day_def)

lemma day_within [simp]: "0 \<le> w \<Longrightarrow> w < ms_per_day \<Longrightarrow> day_of_time (d * ms_per_day + w) = d"
  by (simp add: day_of_time_def ms_per_day_def)

lemma make_day_shift: "make_day y m (dt + k) = make_day y m dt + k" "make_day y m (dt - k) = make_day y m dt - k"
  by (simp_all add: make_day_def)

lemma shifted_date: "day_of_time (set_utc_date t (get_utc_date t + k)) = day_of_time t + k"
proof -
  have "set_utc_date t (get_utc_date t + k) = (day_of_time t + k) * ms_per_day + time_within_day t"
    by (simp add: set_utc_date_def get_utc_date_def make_day_shift day_of_its_date Let_def)
  then show ?thesis using time_parts by simp
qed

lemma weekly_instants:
  "cycle_instants t Weekly =
     ((day_of_time t - (week_day (day_of_time t) + 6) mod 7) * ms_per_day,
      (day_of_time t - (week_day (day_of_time t) + 6) mod 7 + 6) * ms_per_day + end_of_day)"
proof -
  let ?k = "(week_day (day_of_time t) + 6) mod 7"
  have start: "set_utc_hours (set_utc_date t (get_utc_date t - ?k)) 0 = (day_of_time t - ?k) * ms_per_day"
    using shifted_date [of t "- ?k"] by (simp add: set_utc_hours_def)
  have "day_of_time ((day_of_time t - ?k) * ms_per_day) = day_of_time t - ?k"
    using day_within [of 0 "day_of_time t - ?k"] by (simp add: ms_per_day_def)
  then show ?thesis using shifted_date [of "(day_of_time t - ?k) * ms_per_day" 6]
    by (simp add: cycle_instants_def start Let_def) (simp add: set_utc_hours_def)
qed

lemma month_end: "m < 12 \<Longrightarrow> make_day y (int m + 1) 0 = month_start y (Suc m) - 1"
proof (cases "m = 11")
  case True
  then show ?thesis using month_starts [of y] by (simp add: make_day_def) (simp add: numeral_eq_Suc month_starts)
next
  case False
  assume "m < 12"
  then have "(int m + 1) div 12 = 0" "(int m + 1) mod 12 = int m + 1" using False by simp_all
  then show ?thesis by (simp add: make_day_def nat_add_distrib)
qed

lemma monthly_instants:
  assumes "\<not> (0 \<le> year_of_day (day_of_time t) \<and> year_of_day (day_of_time t) \<le> 99)" "f \<noteq> Weekly"
  shows "cycle_instants t f =
    (let d = day_of_time t in
     (month_start (year_of_day d) (month_of_day d) * ms_per_day,
      month_start (year_of_day d) (Suc (month_of_day d)) * ms_per_day - 1))"
proof -
  have "make_day y (int m) 1 = month_start y m" if "m < 12" for y m using that by (simp add: make_day_def)
  then show ?thesis using assms month_of_day(1) [of "day_of_time t"] month_end [of "month_of_day (day_of_time t)"]
    by (auto simp: cycle_instants_def date_utc_def Let_def) (simp_all add: end_of_day_def ms_per_day_def)
qed

lemma day_between:
  assumes "a * ms_per_day \<le> u" "u \<le> b * ms_per_day + end_of_day"
  shows "a \<le> day_of_time u" "day_of_time u \<le> b"
  using assms time_parts [of u] by (simp_all add: ms_per_day_def end_of_day_def)

lemma week_of:
  assumes "m = d - (week_day d + 6) mod 7" "m \<le> e" "e \<le> m + 6"
  shows "e - (week_day e + 6) mod 7 = m"
proof -
  have k: "(week_day x + 6) mod 7 = (x + 3) mod 7" for x by (simp add: week_day_def mod_add_left_eq) presburger
  define q where "q = (d + 3) div 7"
  have "d + 3 = 7 * q + (d + 3) mod 7" by (simp add: q_def)
  then have m: "m + 3 = 7 * q" using assms(1) k [of d] by linarith
  define j where "j = e - m"
  have j: "0 \<le> j" "j < 7" using assms by (simp_all add: j_def)
  have "e + 3 = 7 * q + j" using m by (simp add: j_def)
  then have "(e + 3) mod 7 = j" using j by simp
  then show ?thesis using k [of e] by (simp add: j_def)
qed

lemma cycle_partition:
  assumes "f \<noteq> Weekly \<Longrightarrow> \<not> (0 \<le> year_of_day (day_of_time t) \<and> year_of_day (day_of_time t) \<le> 99)"
    and "cycle_instants t f = (a, b)"
  shows "a \<le> t" "t \<le> b" "a \<le> u \<Longrightarrow> u \<le> b \<Longrightarrow> cycle_instants u f = (a, b)"
proof -
  have all: "a \<le> t \<and> t \<le> b \<and> (a \<le> u \<longrightarrow> u \<le> b \<longrightarrow> cycle_instants u f = (a, b))"
  proof (cases "f = Weekly")
    case True
    define d where "d = day_of_time t"
    define m where "m = d - (week_day d + 6) mod 7"
    have ab: "a = m * ms_per_day" "b = (m + 6) * ms_per_day + end_of_day"
      using assms(2) by (simp_all add: True weekly_instants m_def d_def)
    have "0 \<le> (week_day d + 6) mod 7" "(week_day d + 6) mod 7 < 7" by simp_all
    then have "m \<le> d" "d \<le> m + 6" by (simp_all add: m_def)
    then have "a \<le> t" "t \<le> b" using time_parts [of t] by (simp_all add: ab d_def [symmetric] ms_per_day_def end_of_day_def)
    moreover have "cycle_instants u f = (a, b)" if "a \<le> u" "u \<le> b"
    proof -
      have "m \<le> day_of_time u" "day_of_time u \<le> m + 6" using day_between that by (simp_all add: ab)
      then show ?thesis using week_of [OF m_def] by (simp add: True weekly_instants ab)
    qed
    ultimately show ?thesis by blast
  next
    case False
    define d y k where "d = day_of_time t" "y = year_of_day d" "k = month_of_day d"
    have early: "\<not> (0 \<le> y \<and> y \<le> 99)" using assms(1) [OF False] by (simp add: d_y_k_def)
    have ab: "a = month_start y k * ms_per_day" "b = (month_start y (Suc k) - 1) * ms_per_day + end_of_day"
      using assms(2) monthly_instants [of t f] early False by (simp_all add: d_y_k_def Let_def end_of_day_def ms_per_day_def)
    have d: "k < 12" "month_start y k \<le> d" "d \<le> month_start y (Suc k) - 1" using month_of_day [of d] by (simp_all add: d_y_k_def)
    then have "a \<le> t" "t \<le> b" using time_parts [of t] by (simp_all add: ab d_y_k_def [symmetric] ms_per_day_def end_of_day_def)
    moreover have "cycle_instants u f = (a, b)" if "a \<le> u" "u \<le> b"
    proof -
      have "month_start y k \<le> day_of_time u" "day_of_time u \<le> month_start y (Suc k) - 1"
        using day_between [of "month_start y k" u "month_start y (Suc k) - 1"] that unfolding ab by simp_all
      then have "year_of_day (day_of_time u) = y" "month_of_day (day_of_time u) = k"
        using month_of_day_unique [of k y "day_of_time u"] d(1) by simp_all
      then show ?thesis using monthly_instants [of u f] early False by (simp add: ab Let_def end_of_day_def ms_per_day_def)
    qed
    ultimately show ?thesis by blast
  qed
  then show "a \<le> t" "t \<le> b" "a \<le> u \<Longrightarrow> u \<le> b \<Longrightarrow> cycle_instants u f = (a, b)" by blast+
qed

lemma normalized_cycle:
  assumes "normalize_payroll_schedule zone_known date_parse input opts = Inr s"
  shows "compute_cycle_bounds (sd_execution s) (sd_frequency s) = Inr (sd_cycle_start s, sd_cycle_end s) \<and>
    (sd_is_cutoff_passed s \<longleftrightarrow> sd_cutoff s \<le> sp_reference opts)"
proof -
  obtain t where t: "parse_timestamp date_parse (rs_date input) (sp_reference opts) = Inr t"
    using assms by (auto simp: normalize_payroll_schedule_def Let_def bind_result_Inr_iff)
  obtain p l where pl: "resolve_period_and_label (rs_period_label input) t (rs_custom_label input) = (p, l)" by fastforce
  show ?thesis using assms by (auto simp: normalize_payroll_schedule_def Let_def bind_result_Inr_iff t pl)
qed

text \<open>
  A cycle that is not weekly is built by \<open>Date.UTC\<close>, which takes the years from 0 to 99 for those of the last century: for
  an execution in one of these years the cycle begins 1900 years after it.
\<close>

lemma early_years_leave_cycle:
  assumes "f \<noteq> Weekly" "0 \<le> year_of_day (day_of_time t)" "year_of_day (day_of_time t) \<le> 99"
    and "cycle_instants t f = (a, b)"
  shows "t < a"
proof -
  define d y k where "d = day_of_time t" "y = year_of_day d" "k = month_of_day d"
  have k: "k < 12" using month_of_day(1) [of d] by (simp add: d_y_k_def)
  have "a = make_day (1900 + y) (int k) 1 * ms_per_day"
    using assms by (simp add: cycle_instants_def date_utc_def Let_def d_y_k_def)
  then have a: "a = month_start (1900 + y) k * ms_per_day" using k by (simp add: make_day_def)
  have "d < day_from_year (y + 1)" using year_from_day(2) [of d] by (simp add: d_y_k_def)
  also have "\<dots> \<le> day_from_year (1900 + y)" using day_from_year_mono [of "y + 1" "1900 + y"] by simp
  also have "\<dots> \<le> month_start (1900 + y) k"
    using days_before_mono [of 0 k "leap_year (1900 + y)"] k by (simp add: month_start_def days_before_year)
  finally have "d + 1 \<le> month_start (1900 + y) k" by simp
  then have "(d + 1) * ms_per_day \<le> a" unfolding a by (rule mult_right_mono) (simp add: ms_per_day_def)
  then show ?thesis using time_parts [of t] by (simp add: d_y_k_def ms_per_day_def algebra_simps)
qed

text \<open>
  C28: the cycle of a schedule contains its execution, and every instant of the cycle has the same cycle: the cycles of a
  frequency divide time. This holds of weekly schedules always and of the others, whose cycle is the calendar month,
  unless the execution is in one of the years from 0 to 99. The cutoff has passed exactly if it is not after the time of
  reference.
\<close>

theorem schedule_cycle_contains_execution:
  assumes "normalize_payroll_schedule zone_known date_parse input opts = Inr s"
    and "sd_frequency s = Weekly \<or> year_of_day (day_of_time (sd_execution s)) \<notin> {0..99}"
  shows "\<exists>a b. to_iso_string a = Some (sd_cycle_start s) \<and> to_iso_string b = Some (sd_cycle_end s) \<and>
    a \<le> sd_execution s \<and> sd_execution s \<le> b \<and>
    (\<forall>u. a \<le> u \<and> u \<le> b \<longrightarrow> cycle_instants u (sd_frequency s) = (a, b)) \<and>
    (sd_is_cutoff_passed s \<longleftrightarrow> sd_cutoff s \<le> sp_reference opts)"
proof -
  have cycle: "compute_cycle_bounds (sd_execution s) (sd_frequency s) = Inr (sd_cycle_start s, sd_cycle_end s)"
    and cutoff: "sd_is_cutoff_passed s \<longleftrightarrow> sd_cutoff s \<le> sp_reference opts"
    using normalized_cycle [OF assms(1)] by blast+
  obtain a b where ab: "cycle_instants (sd_execution s) (sd_frequency s) = (a, b)" by fastforce
  then have "to_iso_string a = Some (sd_cycle_start s)" "to_iso_string b = Some (sd_cycle_end s)"
    using cycle by (auto simp: compute_cycle_bounds_def split: if_splits option.splits)
  moreover have late: "\<not> (0 \<le> year_of_day (day_of_time (sd_execution s)) \<and> year_of_day (day_of_time (sd_execution s)) \<le> 99)"
    if "sd_frequency s \<noteq> Weekly"
    using assms(2) that by auto
  moreover have "a \<le> sd_execution s" "sd_execution s \<le> b"
    "\<forall>u. a \<le> u \<and> u \<le> b \<longrightarrow> cycle_instants u (sd_frequency s) = (a, b)"
    using cycle_partition [OF late ab] by blast+
  ultimately show ?thesis using cutoff by blast
qed

definition leap_day_input :: raw_schedule where
  "leap_day_input = \<lparr>rs_date = TimeNumber 1709164800000, rs_timezone = None, rs_period_label = Some '' Feb 2024 '', rs_cutoff = TimeUndefined,
     rs_frequency = None, rs_lead_time_hours = None, rs_custom_label = None\<rparr>"

definition example_schedule_options :: schedule_options where
  "example_schedule_options = \<lparr>sp_default_timezone = None, sp_default_frequency = None, sp_default_lead_time_hours = None, sp_reference = 1709164800000\<rparr>"

lemma leap_day_schedule:
  "normalize_payroll_schedule (\<lambda>z. True) (\<lambda>s. None) leap_day_input example_schedule_options =
     Inr \<lparr>sd_period = ''2024-02'', sd_display_label = ''February 2024'', sd_timezone = ''UTC'', sd_frequency = Monthly,
          sd_execution = 1709164800000, sd_cutoff = 1709078400000, sd_cycle_start = ''2024-02-01T00:00:00.000Z'',
          sd_cycle_end = ''2024-02-29T23:59:59.999Z'', sd_is_cutoff_passed = True, sd_time_until_cutoff_ms = - 86400000\<rparr>"
  by code_simp

theorem schedule_cycle_contains_execution_witness:
  "\<exists>a b. to_iso_string a = Some ''2024-02-01T00:00:00.000Z'' \<and> to_iso_string b = Some ''2024-02-29T23:59:59.999Z'' \<and>
     a \<le> 1709164800000 \<and> 1709164800000 \<le> b"
proof -
  have "year_of_day (day_of_time 1709164800000) = 2024" by code_simp
  then show ?thesis using schedule_cycle_contains_execution [OF leap_day_schedule] by auto
qed

section \<open>Period labels\<close>

lemma period_chars: "is_period p \<Longrightarrow> c \<in> set p \<Longrightarrow> is_digit c \<or> c = CHR ''-''"
  by (cases p rule: is_period.cases) (auto simp: is_digit_iff)

lemma period_trimmed: "is_period p \<Longrightarrow> js_trim p = p"
proof -
  assume p: "is_period p"
  have "\<not> js_space CHR ''-''" by code_simp
  then show ?thesis using period_chars [OF p] is_digit_not_space by (intro js_trim_no_space) blast
qed

lemma short_period_ok: "short_period s = Some p \<Longrightarrow> is_period p"
  by (cases s rule: short_period.cases) (auto split: if_splits)

lemma index_where_less: "index_where P xs = Some i \<Longrightarrow> i < length xs"
  by (induction xs arbitrary: i) (auto split: if_splits)

lemma named_period_ok: "named_period s = Some p \<Longrightarrow> is_period p"
proof -
  assume p: "named_period s = Some p"
  let ?ws = "split_words (js_lower s)"
  have "length ?ws = 2" using p by (simp add: named_period_def Let_def split: if_splits)
  moreover obtain y where y: "find is_year ?ws = Some y" using p by (auto simp: named_period_def Let_def split: if_splits option.splits)
  moreover obtain w where w: "find (\<lambda>w. w \<noteq> y) ?ws = Some w" using p y by (auto simp: named_period_def Let_def split: if_splits option.splits)
  ultimately obtain i where i: "index_where (\<lambda>m. is_prefix m w) month_prefixes = Some i" and p: "p = y @ ''-'' @ two_digits (int i + 1)"
    using p by (auto simp: named_period_def Let_def)
  have y: "is_year y" using y by (auto simp: find_Some_iff)
  have i: "i < 12" using index_where_less [OF i] by (simp add: month_prefixes_def)
  have "list_all (\<lambda>i. case two_digits (int i + 1) of
      [m, n] \<Rightarrow> m = CHR ''0'' \<and> is_digit n \<and> n \<noteq> CHR ''0'' \<or> m = CHR ''1'' \<and> n \<in> {CHR ''0'', CHR ''1'', CHR ''2''} | _ \<Rightarrow> False) [0..<12]"
    by code_simp
  then have "case two_digits (int i + 1) of
      [m, n] \<Rightarrow> m = CHR ''0'' \<and> is_digit n \<and> n \<noteq> CHR ''0'' \<or> m = CHR ''1'' \<and> n \<in> {CHR ''0'', CHR ''1'', CHR ''2''} | _ \<Rightarrow> False"
    using i by (simp add: list_all_iff)
  then show ?thesis using y by (cases y rule: is_year.cases) (auto simp: p split: list.splits)
qed

text \<open>A normalized period is its own normal form, whatever the label was.\<close>

theorem normalize_period_idempotent: "normalize_period_string (normalize_period_string s) = normalize_period_string s"
proof (cases "is_period (js_trim s)")
  case True
  then show ?thesis by (simp add: normalize_period_string_def js_trim_idem)
next
  case False
  have normal: "normalize_period_string p = p" if "is_period p" for p
    using that by (simp add: normalize_period_string_def period_trimmed)
  show ?thesis
  proof (cases "short_period (js_trim s)")
    case (Some p)
    then show ?thesis using False normal short_period_ok by (simp add: normalize_period_string_def)
  next
    case None
    show ?thesis
    proof (cases "named_period (js_trim s)")
      case (Some p)
      then show ?thesis using False None normal named_period_ok by (simp add: normalize_period_string_def)
    qed (use False None in \<open>simp add: normalize_period_string_def js_trim_idem\<close>)
  qed
qed

section \<open>What the normalizer leaves open\<close>

text \<open>A quarter, half a month and two weeks have the bounds of the month.\<close>

lemma other_frequencies_monthly: "f \<noteq> Weekly \<Longrightarrow> cycle_instants t f = cycle_instants t Monthly"
  by (simp add: cycle_instants_def)

text \<open>Any word that begins like a month is one.\<close>

lemma marathon_is_march: "normalize_period_string ''Marathon 2026'' = ''2026-03''"
  by code_simp

text \<open>A finite number that is no date passes the checks and makes the platform throw, not the validation.\<close>

lemma no_date_throws:
  "normalize_payroll_schedule (\<lambda>z. True) (\<lambda>s. None) (leap_day_input\<lparr>rs_date := TimeNumber (10 ^ 16)\<rparr>) example_schedule_options =
     Inl RangeErrorThrown"
  by (simp add: normalize_payroll_schedule_def leap_day_input_def example_schedule_options_def resolve_timezone_def
      compute_cycle_bounds_def valid_time_def Let_def split: prod.split)

end
