(* ===== verification/PayerAccount.thy ===== *)
theory PayerAccount
  imports Prelude
begin

text \<open>
  The account that pays (\<open>treasury/payerAccountStatus.ts\<close>): what the facts given about it and its assets say of its
  payments. Balances are integers, as the \<open>bigint\<close>s of the code; messages and the masked address are left out.
\<close>

section \<open>Facts\<close>

datatype account_status = AccountActive | AccountUnfunded | AccountSuspended

datatype support_status = SupportReady | MissingTrustline | NotAllowlisted | AssetSuspended

datatype readiness_level = LevelReady | LevelWarning | LevelBlocked

record asset_facts =
  af_asset :: string
  af_available :: int
  af_reserved :: "int option"
  af_has_trustline :: "bool option"
  af_allowlisted :: "bool option"
  af_suspended :: "bool option"
  af_required :: "int option"

record account_facts =
  pf_exists :: "bool option"
  pf_is_suspended :: "bool option"
  pf_fee_balance :: "int option"
  pf_min_fee_balance :: "int option"
  pf_assets :: "asset_facts list option"

record payer_options =
  pa_strict :: "bool option"
  pa_default_min_fee_balance :: "int option"
  pa_require_trustlines :: "bool option"

datatype payer_blocker =
  NoAccount | AccountHeld | FeeTooLow | SuspendedAsset string | AssetNotAllowed string | NoTrustline string | BalanceShort string int

datatype payer_advice = FundsReserved string int | NothingReserved

record asset_status =
  as_asset :: string
  as_reserved :: int
  as_support :: support_status
  as_shortfall :: "int option"
  as_blockers :: "payer_blocker list"
  as_warnings :: "payer_advice list"

record payer_status =
  ps_is_active :: bool
  ps_can_send :: bool
  ps_account_exists :: bool
  ps_account_status :: account_status
  ps_level :: readiness_level
  ps_fee_balance :: int
  ps_min_fee_balance :: int
  ps_assets :: "asset_status list"
  ps_missing_trustlines :: "string list"
  ps_blockers :: "payer_blocker list"
  ps_warnings :: "payer_advice list"

definition default_min_fee_balance :: int where
  "default_min_fee_balance = 1500000"

definition if_given :: "'a option \<Rightarrow> 'a \<Rightarrow> 'a" where
  "if_given v d = (case v of None \<Rightarrow> d | Some x \<Rightarrow> x)"

definition derive_support_status :: "bool \<Rightarrow> bool \<Rightarrow> bool \<Rightarrow> bool \<Rightarrow> support_status" where
  "derive_support_status has_trustline allowlisted suspended require_trustlines =
     (if suspended then AssetSuspended else if \<not> allowlisted then NotAllowlisted
      else if require_trustlines \<and> \<not> has_trustline then MissingTrustline else SupportReady)"

definition support_blockers :: "string \<Rightarrow> support_status \<Rightarrow> payer_blocker list" where
  "support_blockers a s =
     (case s of AssetSuspended \<Rightarrow> [SuspendedAsset a] | NotAllowlisted \<Rightarrow> [AssetNotAllowed a]
      | MissingTrustline \<Rightarrow> [NoTrustline a] | SupportReady \<Rightarrow> [])"

text \<open>The difference is the available balance less the amount required: what is called a shortfall is a surplus.\<close>

definition read_asset :: "bool \<Rightarrow> asset_facts \<Rightarrow> asset_status" where
  "read_asset require_trustlines f =
     (let support = derive_support_status (if_given (af_has_trustline f) False) (if_given (af_allowlisted f) False)
            (if_given (af_suspended f) False) require_trustlines;
          reserved = if_given (af_reserved f) 0;
          difference = map_option (\<lambda>r. af_available f - r) (af_required f)
      in \<lparr>as_asset = af_asset f, as_reserved = reserved, as_support = support,
          as_shortfall = (case difference of None \<Rightarrow> None | Some d \<Rightarrow> if 0 < d then None else Some 0),
          as_blockers = support_blockers (af_asset f) support @
            (case difference of None \<Rightarrow> [] | Some d \<Rightarrow> if 0 < d then [BalanceShort (af_asset f) d] else []),
          as_warnings = (if 0 < reserved \<and> af_required f = None then [FundsReserved (af_asset f) reserved] else [])\<rparr>)"

definition account_part :: "account_facts \<Rightarrow> int \<Rightarrow> int \<Rightarrow> account_status \<times> payer_blocker list" where
  "account_part s fee_balance min_fee_balance =
     (if pf_exists s = Some False then (AccountSuspended, [NoAccount])
      else if pf_is_suspended s = Some True then (AccountSuspended, [AccountHeld])
      else if fee_balance < min_fee_balance then (AccountUnfunded, [FeeTooLow])
      else (AccountActive, []))"

definition read_payer_account_status :: "account_facts \<Rightarrow> payer_options \<Rightarrow> payer_status" where
  "read_payer_account_status s opts =
     (let require_trustlines = if_given (pa_require_trustlines opts) True;
          min_fee = if_given (pf_min_fee_balance s) (if_given (pa_default_min_fee_balance opts) default_min_fee_balance);
          fee = if_given (pf_fee_balance s) 0;
          account = account_part s fee min_fee;
          assets = map (read_asset require_trustlines) (if_given (pf_assets s) []);
          blockers = snd account @ concat (map as_blockers assets);
          warnings = concat (map as_warnings assets) @
            (if assets \<noteq> [] \<and> list_all (\<lambda>a. as_reserved a = 0) assets then [NothingReserved] else []);
          level = (if blockers \<noteq> [] \<or> pa_strict opts = Some True \<and> warnings \<noteq> [] then LevelBlocked
                   else if warnings \<noteq> [] then LevelWarning else LevelReady)
      in \<lparr>ps_is_active = (fst account = AccountActive \<and> pf_exists s \<noteq> Some False), ps_can_send = (level \<noteq> LevelBlocked),
          ps_account_exists = (pf_exists s \<noteq> Some False), ps_account_status = fst account, ps_level = level,
          ps_fee_balance = fee, ps_min_fee_balance = min_fee, ps_assets = assets,
          ps_missing_trustlines = map as_asset (filter (\<lambda>a. as_support a = MissingTrustline) assets),
          ps_blockers = blockers, ps_warnings = warnings\<rparr>)"

section \<open>When an account may pay\<close>

text \<open>The reference: an account that can act, and each asset usable and with no more than is required of it.\<close>

definition asset_usable :: "bool \<Rightarrow> asset_facts \<Rightarrow> bool" where
  "asset_usable require_trustlines f \<longleftrightarrow>
     af_suspended f \<noteq> Some True \<and> af_allowlisted f = Some True \<and> (require_trustlines \<longrightarrow> af_has_trustline f = Some True)"

definition no_surplus :: "asset_facts \<Rightarrow> bool" where
  "no_surplus f \<longleftrightarrow> (case af_required f of None \<Rightarrow> True | Some r \<Rightarrow> af_available f \<le> r)"

definition quiet :: "asset_facts list \<Rightarrow> bool" where
  "quiet fs \<longleftrightarrow> fs = [] \<or>
     (\<exists>f \<in> set fs. if_given (af_reserved f) 0 \<noteq> 0) \<and> (\<forall>f \<in> set fs. 0 < if_given (af_reserved f) 0 \<longrightarrow> af_required f \<noteq> None)"

lemma asset_clear: "as_blockers (read_asset t f) = [] \<longleftrightarrow> asset_usable t f \<and> no_surplus f"
proof -
  have "support_blockers a (derive_support_status h l s t) = [] \<longleftrightarrow> \<not> s \<and> l \<and> (t \<longrightarrow> h)" for a h l s
    by (auto simp: support_blockers_def derive_support_status_def)
  then show ?thesis
    by (cases "af_required f"; cases "af_suspended f"; cases "af_allowlisted f"; cases "af_has_trustline f")
      (auto simp: read_asset_def Let_def asset_usable_def no_surplus_def if_given_def)
qed

lemma account_clear:
  "snd (account_part s fee m) = [] \<longleftrightarrow> pf_exists s \<noteq> Some False \<and> pf_is_suspended s \<noteq> Some True \<and> m \<le> fee"
  by (auto simp: account_part_def)

text \<open>
  an account may pay exactly if it is not known to be missing, is not held and can pay the fees, and each of its assets
  is usable and has no more than the run requires; the strict check also asks for reserved funds and that every reserve
  has its requirement. Each hindrance is among the blockers.
\<close>

theorem can_send_iff:
  "ps_can_send (read_payer_account_status s opts) =
     (pf_exists s \<noteq> Some False \<and> pf_is_suspended s \<noteq> Some True \<and>
      if_given (pf_min_fee_balance s) (if_given (pa_default_min_fee_balance opts) default_min_fee_balance) \<le>
        if_given (pf_fee_balance s) 0 \<and>
      list_all (\<lambda>f. asset_usable (if_given (pa_require_trustlines opts) True) f \<and> no_surplus f) (if_given (pf_assets s) []) \<and>
      (if pa_strict opts = Some True then quiet (if_given (pf_assets s) []) else True))"
proof -
  let ?t = "if_given (pa_require_trustlines opts) True" and ?fs = "if_given (pf_assets s) []"
  define B where "B = concat (map as_blockers (map (read_asset ?t) ?fs))"
  define W where "W = concat (map as_warnings (map (read_asset ?t) ?fs)) @
    (if map (read_asset ?t) ?fs \<noteq> [] \<and> list_all (\<lambda>a. as_reserved a = 0) (map (read_asset ?t) ?fs) then [NothingReserved] else [])"
  have assets: "B = [] \<longleftrightarrow> list_all (\<lambda>f. asset_usable ?t f \<and> no_surplus f) ?fs"
    using asset_clear by (simp add: B_def list_all_iff)
  have "as_warnings (read_asset ?t f) = [] \<longleftrightarrow> (0 < if_given (af_reserved f) 0 \<longrightarrow> af_required f \<noteq> None)"
    "as_reserved (read_asset ?t f) = if_given (af_reserved f) 0" for f
    by (simp_all add: read_asset_def Let_def)
  then have warnings: "W = [] \<longleftrightarrow> quiet ?fs"
    by (auto simp: W_def quiet_def list_all_iff)
  have "ps_can_send (read_payer_account_status s opts) \<longleftrightarrow>
      snd (account_part s (if_given (pf_fee_balance s) 0)
        (if_given (pf_min_fee_balance s) (if_given (pa_default_min_fee_balance opts) default_min_fee_balance))) = [] \<and>
      B = [] \<and> \<not> (pa_strict opts = Some True \<and> W \<noteq> [])"
    unfolding read_payer_account_status_def Let_def B_def [symmetric] W_def [symmetric] by simp
  then show ?thesis using assets warnings by (simp only: account_clear) auto
qed

section \<open>The comparison is the wrong way round\<close>

definition funded :: account_facts where
  "funded = \<lparr>pf_exists = Some True, pf_is_suspended = Some False, pf_fee_balance = Some 2000000, pf_min_fee_balance = None,
     pf_assets = Some [\<lparr>af_asset = ''native'', af_available = 500, af_reserved = Some 1, af_has_trustline = Some True,
       af_allowlisted = Some True, af_suspended = None, af_required = Some 100\<rparr>]\<rparr>"

definition plain_payer_options :: payer_options where
  "plain_payer_options = \<lparr>pa_strict = None, pa_default_min_fee_balance = None, pa_require_trustlines = None\<rparr>"

text \<open>
  C24: the check of the balances is inverted: an account that can act, each asset of which is usable and required by the run,
  may pay exactly if no asset exceeds what the run requires of it, and an asset that does is reported as short by its
  surplus. The documentation asks for the opposite, that an account with less than is required be blocked.
\<close>

theorem funding_check_inverted:
  assumes "pf_exists s \<noteq> Some False" "pf_is_suspended s \<noteq> Some True" "pa_strict opts \<noteq> Some True"
    and "if_given (pf_min_fee_balance s) (if_given (pa_default_min_fee_balance opts) default_min_fee_balance) \<le>
      if_given (pf_fee_balance s) 0"
    and "pf_assets s = Some fs"
    and assets: "\<And>f. f \<in> set fs \<Longrightarrow> asset_usable (if_given (pa_require_trustlines opts) True) f \<and> af_required f = Some (req f)"
  shows "(ps_can_send (read_payer_account_status s opts) \<longleftrightarrow> (\<forall>f \<in> set fs. af_available f \<le> req f)) \<and>
    (\<forall>f \<in> set fs. req f < af_available f \<longrightarrow>
       BalanceShort (af_asset f) (af_available f - req f) \<in> set (ps_blockers (read_payer_account_status s opts)))"
proof
  have "no_surplus f \<longleftrightarrow> af_available f \<le> req f" if "f \<in> set fs" for f
    using assets [OF that] by (simp add: no_surplus_def)
  then show "ps_can_send (read_payer_account_status s opts) \<longleftrightarrow> (\<forall>f \<in> set fs. af_available f \<le> req f)"
    using assms by (auto simp: can_send_iff if_given_def list_all_iff)
  have "BalanceShort (af_asset f) (af_available f - req f) \<in> set (as_blockers (read_asset t f))"
    if "f \<in> set fs" "req f < af_available f" for f t
    using assets [OF that(1)] that(2) by (simp add: read_asset_def Let_def)
  then show "\<forall>f \<in> set fs. req f < af_available f \<longrightarrow>
      BalanceShort (af_asset f) (af_available f - req f) \<in> set (ps_blockers (read_payer_account_status s opts))"
    using assms(5) unfolding read_payer_account_status_def Let_def by (auto simp: if_given_def)
qed

theorem funding_check_inverted_witness:
  "BalanceShort ''native'' 400 \<in> set (ps_blockers (read_payer_account_status funded plain_payer_options)) \<and>
   \<not> ps_can_send (read_payer_account_status funded plain_payer_options)"
  using funding_check_inverted [of funded plain_payer_options "the (pf_assets funded)" "\<lambda>_. 100"]
  by (simp add: funded_def plain_payer_options_def if_given_def default_min_fee_balance_def asset_usable_def)

text \<open>An account with more than the run requires is blocked as short by what it has left over.\<close>

lemma surplus_blocks:
  "ps_blockers (read_payer_account_status funded plain_payer_options) = [BalanceShort ''native'' 400]"
  by code_simp

text \<open>An account with less than the run requires is ready, and its shortfall is nothing.\<close>

lemma shortage_passes:
  fixes f :: asset_facts
  assumes "asset_usable t f" "af_required f = Some r" "af_available f < r"
  shows "as_blockers (read_asset t f) = []" "as_shortfall (read_asset t f) = Some 0"
  using asset_clear [of t f] assms by (simp_all add: no_surplus_def read_asset_def Let_def)

text \<open>An account of which nothing is known but a fee balance may pay, although what is unknown is not to be assumed healthy.\<close>

lemma unknown_account_may_pay:
  "ps_can_send (read_payer_account_status \<lparr>pf_exists = None, pf_is_suspended = None, pf_fee_balance = Some 1500000,
     pf_min_fee_balance = None, pf_assets = None\<rparr> plain_payer_options)"
  by code_simp

end
