(* ===== verification/TimeLabels.thy ===== *)
theory TimeLabels
  imports PayrollSchedules
begin

text \<open>
  The texts of times and periods (\<open>utils/date.ts\<close>, \<open>payroll/periodLabel.ts\<close>, \<open>payroll/timestamps.ts\<close>,
  \<open>audit/accessExpiry.ts\<close>). Times are whole milliseconds. \<open>Date.parse\<close>, the clock and the shift of the local zone are
  arguments; a part of a period that is no whole number reads as \<open>NaN\<close>.
\<close>

section \<open>Periods\<close>

text \<open>\<open>parseInt(s, 10)\<close>\<close>

definition parse_int :: "string \<Rightarrow> int option" where
  "parse_int s =
     (let t = dropWhile js_space s;
          negative = (t \<noteq> [] \<and> hd t = CHR ''-'');
          u = (if t \<noteq> [] \<and> (hd t = CHR ''-'' \<or> hd t = CHR ''+'') then tl t else t);
          ds = takeWhile is_digit u
      in if ds = [] then None else Some (if negative then - int (dec_value ds) else int (dec_value ds)))"

definition format_period_label :: "string \<Rightarrow> string" where
  "format_period_label period =
     (case js_split CHR ''-'' period of
        year # month # r \<Rightarrow>
          if year = [] \<or> month = [] then period
          else (case parse_int month of
                  Some m \<Rightarrow> if 1 \<le> m \<and> m \<le> 12 then month_names ! nat (m - 1) else month
                | None \<Rightarrow> month) @ '' '' @ year
      | _ \<Rightarrow> period)"

definition format_period_compact :: "string \<Rightarrow> string" where
  "format_period_compact period = period"

definition format_timestamp_to_period :: "(int \<Rightarrow> int) \<Rightarrow> int \<Rightarrow> string" where
  "format_timestamp_to_period local_time t =
     (if \<not> valid_time t then ''NaN-NaN''
      else let d = day_of_time (local_time t) in int_string (year_of_day d) @ ''-'' @ two_digits (int (month_of_day d) + 1))"

definition number_part :: "string list \<Rightarrow> nat \<Rightarrow> int option" where
  "number_part parts i = (if i < length parts then js_bigint (parts ! i) else None)"

definition number_text :: "int option \<Rightarrow> string" where
  "number_text n = (case n of None \<Rightarrow> ''NaN'' | Some k \<Rightarrow> int_string k)"

definition period_text :: "int option \<Rightarrow> int option \<Rightarrow> string" where
  "period_text year month = number_text year @ ''-'' @ pad_start 2 CHR ''0'' (number_text month)"

definition get_previous_period :: "string \<Rightarrow> string" where
  "get_previous_period period =
     (let parts = js_split CHR ''-'' period; year = number_part parts 0;
          month = map_option (\<lambda>m. m - 1) (number_part parts 1)
      in case month of
           Some m \<Rightarrow> if m < 1 then period_text (map_option (\<lambda>y. y - 1) year) (Some 12) else period_text year month
         | None \<Rightarrow> period_text year month)"

definition get_next_period :: "string \<Rightarrow> string" where
  "get_next_period period =
     (let parts = js_split CHR ''-'' period; year = number_part parts 0;
          month = map_option (\<lambda>m. m + 1) (number_part parts 1)
      in case month of
           Some m \<Rightarrow> if 12 < m then period_text (map_option (\<lambda>y. y + 1) year) (Some 1) else period_text year month
         | None \<Rightarrow> period_text year month)"

definition is_same_period :: "string \<Rightarrow> string \<Rightarrow> bool" where
  "is_same_period p q = (p = q)"

datatype label_style = CompactStyle | FullStyle

definition format_period_with_options :: "string \<Rightarrow> label_style option \<Rightarrow> string" where
  "format_period_with_options period style =
     (if style = Some FullStyle then format_period_label period else format_period_compact period)"

fun period_shaped :: "string \<Rightarrow> bool" where
  "period_shaped [a, b, c, d, e, m, n] \<longleftrightarrow>
     is_digit a \<and> is_digit b \<and> is_digit c \<and> is_digit d \<and> e = CHR ''-'' \<and> is_digit m \<and> is_digit n"
| "period_shaped s = False"

section \<open>Durations and elapsed time\<close>

definition format_duration_ms :: "int \<Rightarrow> string" where
  "format_duration_ms ms =
     (if ms \<le> 0 then ''0s''
      else let seconds = ms div 1000; d = seconds div 86400; h = seconds mod 86400 div 3600;
               m = seconds mod 3600 div 60; s = seconds mod 60
        in if 0 < d then (if 0 < h then int_string d @ ''d '' @ int_string h @ ''h'' else int_string d @ ''d'')
           else if 0 < h then (if 0 < m then int_string h @ ''h '' @ int_string m @ ''m'' else int_string h @ ''h'')
           else if 0 < m then (if 0 < s then int_string m @ ''m '' @ int_string s @ ''s'' else int_string m @ ''m'')
           else int_string s @ ''s'')"

fun parse_timestamp_ms :: "(string \<Rightarrow> int option) \<Rightarrow> time_input \<Rightarrow> int option" where
  "parse_timestamp_ms date_parse (TimeNumber n) = Some n"
| "parse_timestamp_ms date_parse (TimeDate d) = d"
| "parse_timestamp_ms date_parse (TimeText s) =
     (let t = js_trim s in
      if t = [] then None else if list_all is_digit t then Some (int (dec_value t)) else date_parse t)"
| "parse_timestamp_ms date_parse TimeUndefined = None"
| "parse_timestamp_ms date_parse TimeNull = None"
| "parse_timestamp_ms date_parse TimeNotFinite = None"
| "parse_timestamp_ms date_parse TimeOther = None"

definition now_ms :: "(string \<Rightarrow> int option) \<Rightarrow> int \<Rightarrow> time_input \<Rightarrow> int" where
  "now_ms date_parse clock now = (case parse_timestamp_ms date_parse now of None \<Rightarrow> clock | Some t \<Rightarrow> t)"

definition counted :: "int \<Rightarrow> string \<Rightarrow> string" where
  "counted n unit = int_string n @ '' '' @ unit @ (if n = 1 then [] else ''s'')"

definition future_text :: "int \<Rightarrow> string" where
  "future_text ms =
     (let sec = ms div 1000; m = sec div 60; h = m div 60; d = h div 24 in
      if ms < 5000 then ''just now'' else if sec < 60 then ''in '' @ int_string sec @ '' seconds''
      else if m < 60 then ''in '' @ counted m ''minute'' else if h < 24 then ''in '' @ counted h ''hour'' else ''in '' @ counted d ''day'')"

definition past_text :: "int \<Rightarrow> string" where
  "past_text ms =
     (let sec = ms div 1000; m = sec div 60; h = m div 60; d = h div 24 in
      if sec < 45 \<or> m < 1 then ''just now'' else if m < 60 then counted m ''minute'' @ '' ago''
      else if h < 24 then counted h ''hour'' @ '' ago'' else if d < 30 then counted d ''day'' @ '' ago''
      else if d div 30 < 12 then counted (d div 30) ''month'' @ '' ago'' else counted (d div 365) ''year'' @ '' ago'')"

definition format_relative_time :: "(string \<Rightarrow> int option) \<Rightarrow> int \<Rightarrow> time_input \<Rightarrow> time_input \<Rightarrow> string" where
  "format_relative_time date_parse clock from_time now =
     (case parse_timestamp_ms date_parse from_time of
        None \<Rightarrow> ''invalid date''
      | Some t \<Rightarrow>
          let diff = now_ms date_parse clock now - t in if diff < 0 then future_text (- diff) else past_text diff)"

section \<open>Times of drafts\<close>

definition redact_draft_id :: "string option \<Rightarrow> string" where
  "redact_draft_id draft_id =
     (let t = (case draft_id of None \<Rightarrow> [] | Some s \<Rightarrow> js_trim s) in
      if t = [] then ''[ANONYMOUS_DRAFT]'' else if length t \<le> 6 then ''[REDACTED_DRAFT]''
      else take 4 t @ ''***'' @ slice_last 3 t)"

definition redact_operator_address :: "string option \<Rightarrow> string" where
  "redact_operator_address address =
     (let t = (case address of None \<Rightarrow> [] | Some s \<Rightarrow> js_trim s) in
      if t = [] then ''[SYSTEM]'' else if length t \<le> 8 then ''[REDACTED_OPERATOR]''
      else take 3 t @ ''***'' @ slice_last 3 t)"

datatype date_style = IsoStyle | ShortStyle

definition format_utc_date_time :: "int \<Rightarrow> date_style \<Rightarrow> string" where
  "format_utc_date_time t style =
     (let date = (if valid_time t
        then let d = day_of_time t in
          int_string (year_of_day d) @ ''-'' @ two_digits (int (month_of_day d) + 1) @ ''-'' @ two_digits (date_of_day d)
        else ''NaN-NaN-NaN'')
      in if style = ShortStyle then date
         else date @ '' '' @
           (if valid_time t
            then two_digits (hour_of_time t) @ '':'' @ two_digits (minute_of_time t) @ '':'' @ two_digits (second_of_time t)
            else ''NaN:NaN:NaN'') @ '' UTC'')"

record timestamp_format =
  tf_now :: time_input
  tf_include_relative :: "bool option"
  tf_fallback :: "string option"
  tf_style :: "date_style option"

definition format_draft_updated_timestamp :: "(string \<Rightarrow> int option) \<Rightarrow> int \<Rightarrow> time_input \<Rightarrow> timestamp_format \<Rightarrow> string" where
  "format_draft_updated_timestamp date_parse clock updated opts =
     (if updated = TimeNull \<or> updated = TimeUndefined then or_default (tf_fallback opts) ''Never updated''
      else case parse_timestamp_ms date_parse updated of
        None \<Rightarrow> ''Invalid timestamp''
      | Some t \<Rightarrow>
          let text = format_utc_date_time t (or_default (tf_style opts) IsoStyle)
          in if tf_include_relative opts = Some False then text
             else text @ '' ('' @ format_relative_time date_parse clock (TimeNumber t) (tf_now opts) @ '')'')"

datatype freshness = Fresh | Recent | Stale | UnknownFreshness

record freshness_options =
  fo_now :: time_input
  fo_fresh_ms :: "int option"
  fo_stale_ms :: "int option"

definition get_draft_freshness_status :: "(string \<Rightarrow> int option) \<Rightarrow> int \<Rightarrow> time_input \<Rightarrow> freshness_options \<Rightarrow> freshness" where
  "get_draft_freshness_status date_parse clock updated opts =
     (case parse_timestamp_ms date_parse updated of
        None \<Rightarrow> UnknownFreshness
      | Some t \<Rightarrow>
          let diff = now_ms date_parse clock (fo_now opts) - t
          in if diff \<le> or_default (fo_fresh_ms opts) 3600000 then Fresh
             else if diff \<le> or_default (fo_stale_ms opts) 86400000 then Recent else Stale)"

datatype freshness_variant = SuccessVariant | WarningVariant | DangerVariant | NeutralVariant

fun get_draft_freshness_badge :: "freshness \<Rightarrow> string \<times> freshness_variant \<times> string" where
  "get_draft_freshness_badge Fresh = (''Up to date'', SuccessVariant, ''Modified within the last hour'')"
| "get_draft_freshness_badge Recent = (''Recent'', WarningVariant, ''Modified today'')"
| "get_draft_freshness_badge Stale = (''Needs review'', DangerVariant, ''Draft has not been updated in over 24 hours'')"
| "get_draft_freshness_badge UnknownFreshness = (''Not updated'', NeutralVariant, ''No update record found for this draft'')"

record draft_label_input =
  dl_draft_id :: "string option"
  dl_updated_at :: time_input
  dl_version :: "int option"
  dl_updated_by :: "string option"

record draft_label_options =
  dp_now :: time_input
  dp_redact_draft_id :: "bool option"
  dp_redact_operator :: "bool option"

text \<open>The parts of the summary, which the code joins with bullets.\<close>

definition format_draft_summary :: "(string \<Rightarrow> int option) \<Rightarrow> int \<Rightarrow> draft_label_input \<Rightarrow> draft_label_options \<Rightarrow> string list" where
  "format_draft_summary date_parse clock d opts =
     ((if truthy (dl_draft_id d)
       then (if dp_redact_draft_id opts \<noteq> Some False then redact_draft_id (dl_draft_id d) else the (dl_draft_id d)) else ''Draft'') @
      (case dl_version d of None \<Rightarrow> [] | Some v \<Rightarrow> '' (v'' @ int_string v @ '')'')) #
     (''Updated: '' @ format_draft_updated_timestamp date_parse clock (dl_updated_at d)
        \<lparr>tf_now = dp_now opts, tf_include_relative = Some True, tf_fallback = None, tf_style = None\<rparr>) #
     (if truthy (dl_updated_by d)
      then [''By: '' @ (if dp_redact_operator opts \<noteq> Some False then redact_operator_address (dl_updated_by d) else the (dl_updated_by d))]
      else [])"

datatype draft_time_error = TimestampRequired | TimestampInvalid

definition validate_draft_timestamp :: "(string \<Rightarrow> int option) \<Rightarrow> time_input \<Rightarrow> (draft_time_error, int) result" where
  "validate_draft_timestamp date_parse updated =
     (if updated = TimeNull \<or> updated = TimeUndefined then Inl TimestampRequired
      else case parse_timestamp_ms date_parse updated of None \<Rightarrow> Inl TimestampInvalid | Some t \<Rightarrow> Inr t)"

section \<open>Expiry of an auditor's access\<close>

datatype access_status = AccessActive | AccessExpiringSoon | AccessExpired | AccessUnknown

definition default_access_expiring_soon_ms :: int where
  "default_access_expiring_soon_ms = 48 * 60 * 60 * 1000"

record expiry_input =
  ei_warning_ms :: "int option"
  ei_reference :: time_input
  ei_auditor_id :: "string option"
  ei_expires_at :: time_input

record access_expiry =
  ax_status :: access_status
  ax_short_label :: string
  ax_label :: string
  ax_is_expired :: bool
  ax_is_expiring_soon :: bool
  ax_is_active :: bool
  ax_expires_at :: "int option"
  ax_remaining :: "int option"
  ax_remaining_text :: string
  ax_redacted_auditor :: "string option"

definition redact_auditor_id :: "string option \<Rightarrow> string" where
  "redact_auditor_id a =
     (let t = (case a of None \<Rightarrow> [] | Some s \<Rightarrow> js_trim s) in
      if t = [] then ''[ANONYMOUS_AUDITOR]'' else if length t \<le> 6 then ''[REDACTED_AUDITOR]''
      else take 3 t @ ''***'' @ slice_last 3 t)"

text \<open>The time of reference; one that is no \<open>Date\<close> and no finite number is the clock's. An invalid \<open>Date\<close> is not modelled.\<close>

definition resolve_reference_time :: "int \<Rightarrow> time_input \<Rightarrow> int" where
  "resolve_reference_time clock r = (case r of TimeDate (Some t) \<Rightarrow> t | TimeNumber n \<Rightarrow> n | _ \<Rightarrow> clock)"

definition get_auditor_access_expiry_status ::
  "(string \<Rightarrow> int option) \<Rightarrow> int \<Rightarrow> time_input \<Rightarrow> int option \<Rightarrow> time_input \<Rightarrow> access_status" where
  "get_auditor_access_expiry_status date_parse clock expires_at warning reference =
     (case parse_timestamp_ms date_parse expires_at of
        None \<Rightarrow> AccessUnknown
      | Some e \<Rightarrow>
          let now = resolve_reference_time clock reference
          in if e \<le> now then AccessExpired
             else if e - now \<le> or_default warning default_access_expiring_soon_ms then AccessExpiringSoon else AccessActive)"

definition format_auditor_access_expiry :: "(string \<Rightarrow> int option) \<Rightarrow> int \<Rightarrow> expiry_input \<Rightarrow> access_expiry" where
  "format_auditor_access_expiry date_parse clock i =
     (let redacted = (if truthy (ei_auditor_id i) then Some (redact_auditor_id (ei_auditor_id i)) else None);
          make = (\<lambda>s short label expired soon active e r text.
            \<lparr>ax_status = s, ax_short_label = short, ax_label = label, ax_is_expired = expired, ax_is_expiring_soon = soon,
             ax_is_active = active, ax_expires_at = e, ax_remaining = r, ax_remaining_text = text, ax_redacted_auditor = redacted\<rparr>)
      in case parse_timestamp_ms date_parse (ei_expires_at i) of
           None \<Rightarrow> make AccessUnknown ''Unknown'' ''Unknown Expiry (No expiration date recorded)'' False False False None None ''None''
         | Some e \<Rightarrow>
             let left = e - resolve_reference_time clock (ei_reference i) in
             if left \<le> 0
             then make AccessExpired ''Expired'' (''Expired ('' @ format_duration_ms \<bar>left\<bar> @ '' ago)'') True False False (Some e) (Some left) ''Expired''
             else if left \<le> or_default (ei_warning_ms i) default_access_expiring_soon_ms
             then make AccessExpiringSoon ''Expiring Soon'' (''Expiring Soon (in '' @ format_duration_ms left @ '')'') False True True
               (Some e) (Some left) (format_duration_ms left)
             else make AccessActive ''Active'' (''Active (expires in '' @ format_duration_ms left @ '')'') False False True
               (Some e) (Some left) (format_duration_ms left))"

definition format_batch_auditor_access_expiry :: "(string \<Rightarrow> int option) \<Rightarrow> int \<Rightarrow> expiry_input list \<Rightarrow> access_expiry list" where
  "format_batch_auditor_access_expiry date_parse clock = map (format_auditor_access_expiry date_parse clock)"

definition is_auditor_access_active :: "(string \<Rightarrow> int option) \<Rightarrow> int \<Rightarrow> time_input \<Rightarrow> time_input \<Rightarrow> bool" where
  "is_auditor_access_active date_parse clock expires_at reference \<longleftrightarrow>
     get_auditor_access_expiry_status date_parse clock expires_at None reference \<in> {AccessActive, AccessExpiringSoon}"

definition is_auditor_access_expiring_soon ::
  "(string \<Rightarrow> int option) \<Rightarrow> int \<Rightarrow> time_input \<Rightarrow> int option \<Rightarrow> time_input \<Rightarrow> bool" where
  "is_auditor_access_expiring_soon date_parse clock expires_at threshold reference \<longleftrightarrow>
     get_auditor_access_expiry_status date_parse clock expires_at threshold reference = AccessExpiringSoon"

section \<open>The views of an expiry\<close>

text \<open>The status, the flags and the formatted record agree, and the access is active exactly before its expiry.\<close>

theorem expiry_formats_agree:
  "ax_status (format_auditor_access_expiry date_parse clock i) =
     get_auditor_access_expiry_status date_parse clock (ei_expires_at i) (ei_warning_ms i) (ei_reference i)"
  "ax_is_active (format_auditor_access_expiry date_parse clock i) =
     is_auditor_access_active date_parse clock (ei_expires_at i) (ei_reference i)"
  "ax_is_expiring_soon (format_auditor_access_expiry date_parse clock i) =
     is_auditor_access_expiring_soon date_parse clock (ei_expires_at i) (ei_warning_ms i) (ei_reference i)"
  "ax_is_active (format_auditor_access_expiry date_parse clock i) \<longleftrightarrow>
     (\<exists>e. ax_expires_at (format_auditor_access_expiry date_parse clock i) = Some e \<and>
       resolve_reference_time clock (ei_reference i) < e)"
  by (auto simp: format_auditor_access_expiry_def get_auditor_access_expiry_status_def is_auditor_access_active_def
      is_auditor_access_expiring_soon_def Let_def split: option.split)

section \<open>Stepping through periods\<close>

lemma digits_read: "s \<noteq> [] \<Longrightarrow> list_all is_digit s \<Longrightarrow> js_bigint s = Some (int (dec_value s))"
proof -
  assume s: "s \<noteq> []" "list_all is_digit s"
  have "\<forall>c \<in> set s. \<not> js_space c" using s(2) is_digit_not_space by (auto simp: list_all_iff)
  then have trim: "js_trim s = s" by (rule js_trim_no_space)
  have digits: "unsigned_bigint s = Some (int (dec_value s))"
    using s by (simp add: unsigned_bigint_def digits_in_base_def is_digit_def list_all_iff)
  obtain c cs where cs: "s = c # cs" using s(1) by (cases s) auto
  have c: "c \<noteq> CHR ''-'' \<and> c \<noteq> CHR ''+''" using s(2) by (auto simp: cs is_digit_iff)
  have x: "x \<notin> {CHR ''x'', CHR ''X'', CHR ''o'', CHR ''O'', CHR ''b'', CHR ''B''}" if "cs = x # ds" for x ds
    using s(2) by (auto simp: cs that is_digit_iff)
  show ?thesis using digits c x trim by (cases cs) (simp_all add: js_bigint_def cs)
qed

lemma year_read: "0 \<le> y \<Longrightarrow> js_bigint (int_string y) = Some y"
  using digits_read [of "dec_string (nat y)"] dec_string_digits [of "nat y"] radix_string_nonempty [of 10 "nat y"]
  by (simp add: int_string_def list_all_iff)

lemma month_read: "0 \<le> m \<Longrightarrow> js_bigint (pad_start 2 CHR ''0'' (int_string m)) = Some m"
proof -
  assume m: "0 \<le> m"
  have "list_all is_digit (pad_start 2 CHR ''0'' (int_string m))"
    using dec_string_digits [of "nat m"] m by (auto simp: pad_start_def int_string_def list_all_iff is_digit_iff)
  moreover have "pad_start 2 CHR ''0'' (int_string m) \<noteq> []"
    using length_pad_start [of 2 "CHR ''0''" "int_string m"] by (cases "pad_start 2 CHR ''0'' (int_string m)") auto
  ultimately show ?thesis using digits_read m by (simp add: int_string_def)
qed

lemma period_parts:
  assumes "0 \<le> y" "0 \<le> m"
  shows "number_part (js_split CHR ''-'' (period_text (Some y) (Some m))) 0 = Some y"
    "number_part (js_split CHR ''-'' (period_text (Some y) (Some m))) 1 = Some m"
proof -
  let ?m = "pad_start 2 CHR ''0'' (int_string m)"
  have y: "CHR ''-'' \<notin> set (int_string y)" using assms dec_string_digits [of "nat y"] by (auto simp: int_string_def is_digit_iff)
  have "CHR ''-'' \<notin> set ?m" using assms dec_string_digits [of "nat m"] by (auto simp: pad_start_def int_string_def is_digit_iff)
  then have "js_split CHR ''-'' (period_text (Some y) (Some m)) = [int_string y, ?m]"
    using js_split_append [OF y, of ?m] by (simp add: period_text_def number_text_def js_split_no_sep)
  then show "number_part (js_split CHR ''-'' (period_text (Some y) (Some m))) 0 = Some y"
    "number_part (js_split CHR ''-'' (period_text (Some y) (Some m))) 1 = Some m"
    using assms by (simp_all add: number_part_def year_read month_read)
qed

text \<open>The next period of the previous one is the period again, and the other way round, across the turn of the year too.\<close>

theorem periods_step_back:
  assumes "1 \<le> y" "1 \<le> m" "m \<le> 12"
  shows "get_next_period (get_previous_period (period_text (Some y) (Some m))) = period_text (Some y) (Some m)"
    and "get_previous_period (get_next_period (period_text (Some y) (Some m))) = period_text (Some y) (Some m)"
proof -
  let ?p = "\<lambda>y m. period_text (Some y) (Some m)"
  have previous: "get_previous_period (?p y m) = (if m = 1 then ?p (y - 1) 12 else ?p y (m - 1))" if "0 \<le> y" "1 \<le> m" for y m
    unfolding get_previous_period_def Let_def using period_parts [of y m] that by auto
  have next_one: "get_next_period (?p y m) = (if m = 12 then ?p (y + 1) 1 else ?p y (m + 1))" if "0 \<le> y" "0 \<le> m" "m \<le> 12" for y m
    unfolding get_next_period_def Let_def using period_parts [of y m] that by auto
  show "get_next_period (get_previous_period (?p y m)) = ?p y m" using assms by (simp add: previous next_one)
  show "get_previous_period (get_next_period (?p y m)) = ?p y m" using assms by (simp add: previous next_one)
qed

section \<open>What the texts get wrong\<close>

text \<open>Between 360 and 364 days a time is no year ago.\<close>

lemma no_year_ago: "past_text (360 * 86400000) = ''0 years ago'' \<and> past_text (364 * 86400000) = ''0 years ago''"
  by code_simp

text \<open>The redacted form of an identifier of seven characters shows all of them.\<close>

lemma seven_characters_shown: "redact_draft_id (Some ''drf_89a'') = ''drf_***89a''"
  by code_simp

text \<open>A time exactly an hour old is still fresh, and one exactly a day old still recent.\<close>

lemma thresholds_inclusive:
  "get_draft_freshness_status p c (TimeNumber 0) \<lparr>fo_now = TimeNumber 86400000, fo_fresh_ms = None, fo_stale_ms = None\<rparr> = Recent"
  by (simp add: get_draft_freshness_status_def now_ms_def or_default_def)

text \<open>The previous period of a period of the first century loses the zeros of its year.\<close>

lemma early_period: "get_previous_period ''0999-02'' = ''999-01''"
  by code_simp

end
