(* ===== verification/OperationResults.thy ===== *)
theory OperationResults
  imports Retry
begin

text \<open>
  Operations that return their failure (\<open>core/operationResult.ts\<close>, \<open>mapRpcError\<close> of \<open>core/errors.ts\<close>): the run of one
  operation with its validation and its progress events. The callbacks may throw. Messages, guidance, times and
  correlation ids are left out.
\<close>

section \<open>Codes of errors\<close>

text \<open>
  What is thrown: its class, the code of an error of the SDK, a \<open>code\<close> property that is a text, and its message; and
  whether its constructor makes an error of a message alone, which is how the redaction of a message makes its copy.
\<close>

record thrown_value =
  th_class :: thrown
  th_sdk_code :: "string option"
  th_code_property :: "string option"
  th_message :: string
  th_rebuildable :: bool

definition line_end :: "char \<Rightarrow> bool" where
  "line_end c \<longleftrightarrow> c = CHR 0x0A \<or> c = CHR 0x0D"

text \<open>\<open>/p.*q/\<close>: one word after another on a line\<close>

fun later_on_line :: "string \<Rightarrow> string \<Rightarrow> bool" where
  "later_on_line q [] = (q = [])"
| "later_on_line q (c # cs) = (is_prefix q (c # cs) \<or> (\<not> line_end c \<and> later_on_line q cs))"

fun follows_in :: "string \<Rightarrow> string \<Rightarrow> string \<Rightarrow> bool" where
  "follows_in p q [] = (p = [] \<and> q = [])"
| "follows_in p q (c # cs) =
     ((is_prefix p (c # cs) \<and> later_on_line q (drop (length p) (c # cs))) \<or> follows_in p q cs)"

definition mentions :: "string list \<Rightarrow> string \<Rightarrow> bool" where
  "mentions ws m = list_ex (\<lambda>w. occurs_in w m) ws"

definition map_rpc_message :: "string \<Rightarrow> contract_error_code" where
  "map_rpc_message message =
     (let m = js_lower message in
      if follows_in ''transaction'' ''timeout'' m \<or> follows_in ''timeout'' ''transaction'' m then TRANSACTION_TIMEOUT
      else if mentions [''timeout'', ''expired'', ''econnaborted'', ''etimedout''] m then RPC_TIMEOUT
      else if mentions [''invalid'', ''malformed'', ''unexpected response'', ''parse error'', ''bad response''] m then INVALID_RESPONSE
      else if mentions [''simulate''] m then SIMULATION_FAILED
      else if mentions [''fee'', ''insufficient''] m then INSUFFICIENT_FEE
      else if mentions [''revert'', ''trap'', ''wasm''] m then CONTRACT_REVERT
      else if mentions [''submit'', ''send''] m then TRANSACTION_SUBMISSION_FAILED
      else UNKNOWN_RPC_ERROR)"

fun contract_code_name :: "contract_error_code \<Rightarrow> string" where
  "contract_code_name SIMULATION_FAILED = ''SIMULATION_FAILED''"
| "contract_code_name TRANSACTION_SUBMISSION_FAILED = ''TRANSACTION_SUBMISSION_FAILED''"
| "contract_code_name TRANSACTION_TIMEOUT = ''TRANSACTION_TIMEOUT''"
| "contract_code_name RPC_TIMEOUT = ''RPC_TIMEOUT''"
| "contract_code_name INSUFFICIENT_FEE = ''INSUFFICIENT_FEE''"
| "contract_code_name CONTRACT_REVERT = ''CONTRACT_REVERT''"
| "contract_code_name INVALID_RESPONSE = ''INVALID_RESPONSE''"
| "contract_code_name UNKNOWN_RPC_ERROR = ''UNKNOWN_RPC_ERROR''"

definition extract_sdk_error_code :: "thrown_value \<Rightarrow> string" where
  "extract_sdk_error_code e =
     (case th_sdk_code e of
        Some c \<Rightarrow> c
      | None \<Rightarrow>
          (case th_code_property e of
             Some c \<Rightarrow> if blank c then contract_code_name (map_rpc_message (th_message e)) else c
           | None \<Rightarrow> contract_code_name (map_rpc_message (th_message e))))"

section \<open>Runs\<close>

datatype operation_stage = Validating | Executing | Succeeded | OperationFailed string

record error_detail =
  ed_code :: string
  ed_attempted :: bool
  ed_retryable :: bool

datatype 'a operation_result = OperationSuccess 'a | OperationFailure error_detail

text \<open>What the validation gives: it passes, by any object that does not say it is not \<open>ok\<close>; it rejects with an optional code, answers with no object, or throws.\<close>

datatype validation_outcome = ValidationPasses | ValidationRejects "string option" | ValidationNoObject | ValidationThrows thrown_value

text \<open>A callback sees the events so far, the new one last, and may throw.\<close>

type_synonym event_callback = "operation_stage list \<Rightarrow> thrown_value option"

text \<open>
  The promise of a run is rejected with what a callback or the validation throws, or with what a constructor throws that is
  given the redacted message of an error.
\<close>

datatype rejection = RejectedBy thrown_value | RedactionFailed

text \<open>The end of a run: its result or what the promise is rejected with, the events, and if the operation was called\<close>

record 'a run =
  rn_result :: "(rejection, 'a operation_result) result"
  rn_events :: "operation_stage list"
  rn_called :: bool

definition validation_error_code :: string where
  "validation_error_code = ''SDK_OPERATION_VALIDATION_FAILED''"

definition build_validation_failure :: "string \<Rightarrow> error_detail" where
  "build_validation_failure code = \<lparr>ed_code = code, ed_attempted = False, ed_retryable = False\<rparr>"

definition emit :: "event_callback option \<Rightarrow> operation_stage \<Rightarrow> operation_stage list \<Rightarrow> (thrown_value, operation_stage list) result" where
  "emit callback stage events =
     (case callback of
        None \<Rightarrow> Inr (events @ [stage])
      | Some f \<Rightarrow> (case f (events @ [stage]) of None \<Rightarrow> Inr (events @ [stage]) | Some e \<Rightarrow> Inl e))"

definition fail_run :: "event_callback option \<Rightarrow> error_detail \<Rightarrow> operation_stage list \<Rightarrow> bool \<Rightarrow> 'a run" where
  "fail_run callback detail events called =
     (let stage = OperationFailed (ed_code detail)
      in \<lparr>rn_result = (case emit callback stage events of Inl e \<Rightarrow> Inl (RejectedBy e) | Inr ev \<Rightarrow> Inr (OperationFailure detail)),
          rn_events = events @ [stage], rn_called = called\<rparr>)"

text \<open>
  \<open>sanitizeErrorMessage\<close>: the message of an \<open>Error\<close> is redacted in a copy made by its constructor, which may throw.
  What is no \<open>Error\<close> is not copied.
\<close>

definition message_redactable :: "thrown_value \<Rightarrow> bool" where
  "message_redactable e \<longleftrightarrow> th_class e = NonError \<or> th_rebuildable e"

definition caught :: "event_callback option \<Rightarrow> thrown_value \<Rightarrow> operation_stage list \<Rightarrow> 'a run" where
  "caught callback e events =
     (if \<not> message_redactable e then \<lparr>rn_result = Inl RedactionFailed, rn_events = events, rn_called = True\<rparr>
      else fail_run callback \<lparr>ed_code = extract_sdk_error_code e, ed_attempted = True,
             ed_retryable = rd_retryable (classify_error (th_class e))\<rparr> events True)"

text \<open>The event of the success is sent within the block that catches the failures of the operation.\<close>

definition execute_stage :: "event_callback option \<Rightarrow> (thrown_value, 'a) result \<Rightarrow> operation_stage list \<Rightarrow> 'a run" where
  "execute_stage callback answer events =
     (case emit callback Executing events of
        Inl e \<Rightarrow> \<lparr>rn_result = Inl (RejectedBy e), rn_events = events @ [Executing], rn_called = False\<rparr>
      | Inr ev \<Rightarrow>
          (case answer of
             Inl e \<Rightarrow> caught callback e ev
           | Inr v \<Rightarrow>
               (case emit callback Succeeded ev of
                  Inl e \<Rightarrow> caught callback e (ev @ [Succeeded])
                | Inr ev' \<Rightarrow> \<lparr>rn_result = Inr (OperationSuccess v), rn_events = ev', rn_called = True\<rparr>)))"

definition run_sdk_operation ::
  "event_callback option \<Rightarrow> validation_outcome option \<Rightarrow> (thrown_value, 'a) result \<Rightarrow> 'a run" where
  "run_sdk_operation callback validation answer =
     (case validation of
        None \<Rightarrow> execute_stage callback answer []
      | Some v \<Rightarrow>
          (case emit callback Validating [] of
             Inl e \<Rightarrow> \<lparr>rn_result = Inl (RejectedBy e), rn_events = [Validating], rn_called = False\<rparr>
           | Inr ev \<Rightarrow>
               (case v of
                  ValidationThrows e \<Rightarrow> \<lparr>rn_result = Inl (RejectedBy e), rn_events = ev, rn_called = False\<rparr>
                | ValidationNoObject \<Rightarrow> fail_run callback (build_validation_failure validation_error_code) ev False
                | ValidationRejects code \<Rightarrow>
                    fail_run callback (build_validation_failure (case code of None \<Rightarrow> validation_error_code | Some c \<Rightarrow> c)) ev False
                | ValidationPasses \<Rightarrow> execute_stage callback answer ev)))"

definition is_sdk_operation_success :: "'a operation_result \<Rightarrow> bool" where
  "is_sdk_operation_success r = (case r of OperationSuccess v \<Rightarrow> True | OperationFailure d \<Rightarrow> False)"

definition is_sdk_operation_failure :: "'a operation_result \<Rightarrow> bool" where
  "is_sdk_operation_failure r = (case r of OperationSuccess v \<Rightarrow> False | OperationFailure d \<Rightarrow> True)"

text \<open>What is thrown is the code of the failure.\<close>

definition unwrap_sdk_operation_result :: "'a operation_result \<Rightarrow> (string, 'a) result" where
  "unwrap_sdk_operation_result r = (case r of OperationSuccess v \<Rightarrow> Inr v | OperationFailure d \<Rightarrow> Inl (ed_code d))"

section \<open>The protocol of a run\<close>

text \<open>The orders of events there may be; a failure after a success is the one of a callback.\<close>

inductive protocol :: "operation_stage list \<Rightarrow> bool \<Rightarrow> bool" where
  start: "protocol [] False"
| validating: "protocol [] c \<Longrightarrow> protocol [Validating] False"
| rejected: "protocol [Validating] c \<Longrightarrow> protocol [Validating, OperationFailed code] False"
| executing: "protocol ev c \<Longrightarrow> ev = [] \<or> ev = [Validating] \<Longrightarrow> protocol (ev @ [Executing]) called"
| succeeded: "protocol ev c \<Longrightarrow> ev \<noteq> [] \<Longrightarrow> last ev = Executing \<Longrightarrow> protocol (ev @ [Succeeded]) True"
| failed: "protocol ev c \<Longrightarrow> ev \<noteq> [] \<Longrightarrow> last ev = Executing \<or> last ev = Succeeded \<Longrightarrow> protocol (ev @ [OperationFailed code]) True"

lemma emit_events: "emit callback stage events = Inr ev \<Longrightarrow> ev = events @ [stage]"
  by (auto simp: emit_def split: option.splits)

definition never_throws :: "event_callback option \<Rightarrow> bool" where
  "never_throws callback \<longleftrightarrow> (\<forall>f. callback = Some f \<longrightarrow> (\<forall>ev. f ev = None))"

lemma emit_quiet [simp]: "never_throws callback \<Longrightarrow> emit callback stage events = Inr (events @ [stage])"
  by (auto simp: emit_def never_throws_def split: option.split)

lemma caught_facts [simp]:
  "rn_called (caught callback e ev)"
  "rn_events (caught callback e ev) =
     (if message_redactable e then ev @ [OperationFailed (extract_sdk_error_code e)] else ev)"
  "rn_result (caught callback e ev) \<noteq> Inr (OperationSuccess v)"
  by (auto simp: caught_def fail_run_def Let_def split: sum.split)

lemma execute_protocol:
  assumes "protocol ev c" "ev = [] \<or> ev = [Validating]"
  shows "protocol (rn_events (execute_stage callback answer ev)) (rn_called (execute_stage callback answer ev))"
proof (cases "emit callback Executing ev")
  case (Inl e)
  then show ?thesis using protocol.executing [OF assms] by (simp add: execute_stage_def)
next
  case (Inr ev1)
  then have ev1: "ev1 = ev @ [Executing]" by (rule emit_events)
  have called: "protocol ev1 True" using protocol.executing [OF assms] ev1 by simp
  show ?thesis
  proof (cases answer)
    case (Inl e)
    then show ?thesis using protocol.failed [OF called] called ev1 Inr \<open>emit callback Executing ev = Inr ev1\<close> by (simp add: execute_stage_def)
  next
    case (Inr v)
    have finished: "protocol (ev1 @ [Succeeded]) True" using protocol.succeeded [OF called] ev1 by simp
    show ?thesis
    proof (cases "emit callback Succeeded ev1")
      case (Inl e)
      then show ?thesis using protocol.failed [OF finished] finished Inr \<open>emit callback Executing ev = Inr ev1\<close> by (simp add: execute_stage_def)
    next
      case (Inr ev2)
      then show ?thesis using emit_events [OF Inr] finished \<open>answer = Inr v\<close> \<open>emit callback Executing ev = Inr ev1\<close>
        by (simp add: execute_stage_def)
    qed
  qed
qed

text \<open>The events of every run are in an order of the protocol, and a success is the answer of the operation, called once.\<close>

theorem run_follows_protocol:
  "protocol (rn_events (run_sdk_operation callback validation answer)) (rn_called (run_sdk_operation callback validation answer))"
  "rn_result (run_sdk_operation callback validation answer) = Inr (OperationSuccess v) \<Longrightarrow>
     answer = Inr v \<and> rn_called (run_sdk_operation callback validation answer) \<and>
     list_ex (\<lambda>s. s = Succeeded) (rn_events (run_sdk_operation callback validation answer))"
proof -
  have validating: "protocol [Validating] False" by (rule protocol.validating [OF protocol.start])
  have rejected: "protocol [Validating, OperationFailed code] False" for code by (rule protocol.rejected [OF validating])
  show "protocol (rn_events (run_sdk_operation callback validation answer)) (rn_called (run_sdk_operation callback validation answer))"
  proof (cases validation)
    case None
    then show ?thesis using execute_protocol [OF protocol.start] by (simp add: run_sdk_operation_def)
  next
    case (Some o')
    show ?thesis
    proof (cases "emit callback Validating []")
      case (Inl e)
      then show ?thesis using validating Some by (simp add: run_sdk_operation_def)
    next
      case (Inr ev)
      then have "ev = [Validating]" using emit_events by fastforce
      then show ?thesis using Inr Some validating rejected execute_protocol [OF validating]
        by (cases o') (simp_all add: run_sdk_operation_def fail_run_def Let_def)
    qed
  qed
  have run: "answer = Inr v \<and> rn_called (execute_stage callback answer ev) \<and>
      list_ex (\<lambda>s. s = Succeeded) (rn_events (execute_stage callback answer ev))"
    if "rn_result (execute_stage callback answer ev) = Inr (OperationSuccess v)" for ev
    using that emit_events by (fastforce simp: execute_stage_def split: sum.splits)
  show "answer = Inr v \<and> rn_called (run_sdk_operation callback validation answer) \<and>
     list_ex (\<lambda>s. s = Succeeded) (rn_events (run_sdk_operation callback validation answer))"
    if "rn_result (run_sdk_operation callback validation answer) = Inr (OperationSuccess v)"
    using that run by (auto simp: run_sdk_operation_def fail_run_def Let_def split: option.splits sum.splits validation_outcome.splits)
qed

text \<open>
  Where the callback does not throw, the promise of a run is rejected in two cases only: the validation throws, or the
  operation throws an error that its constructor cannot make of a message alone. Then no failure is reported, neither as
  an event nor as a result.
\<close>

lemma quiet_run:
  assumes "never_throws callback"
  shows "rn_called (run_sdk_operation callback validation answer) = (validation = None \<or> validation = Some ValidationPasses)"
    "rn_result (run_sdk_operation callback validation answer) =
      (case validation of
         Some (ValidationThrows e) \<Rightarrow> Inl (RejectedBy e)
       | Some ValidationNoObject \<Rightarrow> Inr (OperationFailure (build_validation_failure validation_error_code))
       | Some (ValidationRejects code) \<Rightarrow>
           Inr (OperationFailure (build_validation_failure (case code of None \<Rightarrow> validation_error_code | Some c \<Rightarrow> c)))
       | _ \<Rightarrow>
           (case answer of
              Inr v \<Rightarrow> Inr (OperationSuccess v)
            | Inl e \<Rightarrow>
                if \<not> message_redactable e then Inl RedactionFailed
                else Inr (OperationFailure \<lparr>ed_code = extract_sdk_error_code e, ed_attempted = True,
                  ed_retryable = rd_retryable (classify_error (th_class e))\<rparr>)))"
    "(\<exists>code. OperationFailed code \<in> set (rn_events (run_sdk_operation callback validation answer))) \<longleftrightarrow>
       (\<exists>d. rn_result (run_sdk_operation callback validation answer) = Inr (OperationFailure d))"
proof -
  have run: "execute_stage callback ans ev = (case ans of
      Inr v \<Rightarrow> \<lparr>rn_result = Inr (OperationSuccess v), rn_events = ev @ [Executing, Succeeded], rn_called = True\<rparr>
    | Inl e \<Rightarrow> caught callback e (ev @ [Executing]))" for ev and ans :: "(thrown_value, 'a) result"
    using assms by (cases ans) (simp_all add: execute_stage_def)
  have failure: "rn_result (fail_run callback d ev called) = Inr (OperationFailure d)" "rn_called (fail_run callback d ev called) = called"
      "rn_events (fail_run callback d ev called) = ev @ [OperationFailed (ed_code d)]"
    for d ev called using assms by (simp_all add: fail_run_def Let_def)
  note runs = run_sdk_operation_def run caught_def failure emit_quiet [OF assms]
  show "rn_called (run_sdk_operation callback validation answer) = (validation = None \<or> validation = Some ValidationPasses)"
    by (auto simp: runs split: option.split validation_outcome.split sum.split)
  show "rn_result (run_sdk_operation callback validation answer) =
      (case validation of
         Some (ValidationThrows e) \<Rightarrow> Inl (RejectedBy e)
       | Some ValidationNoObject \<Rightarrow> Inr (OperationFailure (build_validation_failure validation_error_code))
       | Some (ValidationRejects code) \<Rightarrow>
           Inr (OperationFailure (build_validation_failure (case code of None \<Rightarrow> validation_error_code | Some c \<Rightarrow> c)))
       | _ \<Rightarrow>
           (case answer of
              Inr v \<Rightarrow> Inr (OperationSuccess v)
            | Inl e \<Rightarrow>
                if \<not> message_redactable e then Inl RedactionFailed
                else Inr (OperationFailure \<lparr>ed_code = extract_sdk_error_code e, ed_attempted = True,
                  ed_retryable = rd_retryable (classify_error (th_class e))\<rparr>)))"
    by (auto simp: runs split: option.split validation_outcome.split sum.split)
  show "(\<exists>code. OperationFailed code \<in> set (rn_events (run_sdk_operation callback validation answer))) \<longleftrightarrow>
       (\<exists>d. rn_result (run_sdk_operation callback validation answer) = Inr (OperationFailure d))"
    by (auto simp: runs split: option.split validation_outcome.split sum.split)
qed

text \<open>
  C35: where the callback does not throw and the message of an error that is thrown can be redacted (its constructor
  makes an error of a message alone), the operation is called exactly if the validation passes, and the result is its
  answer: its value, or a failure that was attempted, with the code and the class of what it threw. A rejected operation
  is a failure that was not attempted and is never to be retried. Only a validation that throws rejects the promise, and
  a failure is sent as an event exactly if it is the result.
\<close>

theorem quiet_run_result:
  assumes "never_throws callback" "\<And>e. answer = Inl e \<Longrightarrow> message_redactable e"
  shows "rn_called (run_sdk_operation callback validation answer) = (validation = None \<or> validation = Some ValidationPasses) \<and>
    rn_result (run_sdk_operation callback validation answer) =
      (case validation of
         Some (ValidationThrows e) \<Rightarrow> Inl (RejectedBy e)
       | Some ValidationNoObject \<Rightarrow> Inr (OperationFailure (build_validation_failure validation_error_code))
       | Some (ValidationRejects code) \<Rightarrow>
           Inr (OperationFailure (build_validation_failure (case code of None \<Rightarrow> validation_error_code | Some c \<Rightarrow> c)))
       | _ \<Rightarrow>
           (case answer of
              Inr v \<Rightarrow> Inr (OperationSuccess v)
            | Inl e \<Rightarrow> Inr (OperationFailure \<lparr>ed_code = extract_sdk_error_code e, ed_attempted = True,
                ed_retryable = rd_retryable (classify_error (th_class e))\<rparr>))) \<and>
    ((\<exists>code. OperationFailed code \<in> set (rn_events (run_sdk_operation callback validation answer))) \<longleftrightarrow>
       (\<exists>d. rn_result (run_sdk_operation callback validation answer) = Inr (OperationFailure d)))"
  using assms(2) by (auto simp: quiet_run [OF assms(1)] split: option.split validation_outcome.split sum.split)

definition example_refusal :: thrown_value where
  "example_refusal = \<lparr>th_class = GenericErr ''Error'' ''RPC request timeout'', th_sdk_code = None, th_code_property = None,
     th_message = ''RPC request timeout'', th_rebuildable = True\<rparr>"

theorem quiet_run_result_witness:
  "rn_result (run_sdk_operation None (Some ValidationPasses) (Inl example_refusal :: (thrown_value, nat) result)) =
     Inr (OperationFailure \<lparr>ed_code = ''RPC_TIMEOUT'', ed_attempted = True, ed_retryable = True\<rparr>)"
proof -
  have "extract_sdk_error_code example_refusal = ''RPC_TIMEOUT''" "rd_retryable (classify_error (th_class example_refusal))"
    by code_simp+
  moreover have "never_throws None" "message_redactable example_refusal"
    by (simp_all add: never_throws_def message_redactable_def example_refusal_def)
  ultimately show ?thesis using quiet_run_result [of None "Inl example_refusal :: (thrown_value, nat) result" "Some ValidationPasses"] by simp
qed

section \<open>Payments reported as failed\<close>

text \<open>
  A callback that throws when it is told of the success makes the completed operation a failure that was attempted, and, if
  what it throws looks like trouble with the network, one that may be retried: a payment that was made is made again.
\<close>

definition broken_logger :: event_callback where
  "broken_logger ev = (if last ev = Succeeded
     then Some \<lparr>th_class = GenericErr ''Error'' ''log socket closed'', th_sdk_code = None, th_code_property = None, th_message = ''log socket closed'', th_rebuildable = True\<rparr>
     else None)"

lemma paid_but_failed:
  "rn_called (run_sdk_operation (Some broken_logger) None (Inr v :: (thrown_value, nat) result))"
  "rn_result (run_sdk_operation (Some broken_logger) None (Inr v :: (thrown_value, nat) result)) =
     Inr (OperationFailure \<lparr>ed_code = ''UNKNOWN_RPC_ERROR'', ed_attempted = True, ed_retryable = True\<rparr>)"
proof -
  have "extract_sdk_error_code \<lparr>th_class = GenericErr ''Error'' ''log socket closed'', th_sdk_code = None, th_code_property = None,
      th_message = ''log socket closed'', th_rebuildable = True\<rparr> = ''UNKNOWN_RPC_ERROR''"
    "rd_retryable (classify_error (GenericErr ''Error'' ''log socket closed''))"
    by code_simp+
  then show "rn_called (run_sdk_operation (Some broken_logger) None (Inr v :: (thrown_value, nat) result))"
    "rn_result (run_sdk_operation (Some broken_logger) None (Inr v :: (thrown_value, nat) result)) =
       Inr (OperationFailure \<lparr>ed_code = ''UNKNOWN_RPC_ERROR'', ed_attempted = True, ed_retryable = True\<rparr>)"
    by (simp_all add: run_sdk_operation_def execute_stage_def emit_def broken_logger_def caught_def message_redactable_def fail_run_def
        Let_def)
qed

text \<open>
  An operation that refuses an employee as ineligible throws an error whose constructor reads the reasons of a result:
  given a message it throws, so the run ends without a result and after \<open>Executing\<close> without another event.
\<close>

definition ineligible_employee_error :: thrown_value where
  "ineligible_employee_error = \<lparr>th_class = SdkErr ''INELIGIBLE_EMPLOYEE_RECORD'', th_sdk_code = Some ''INELIGIBLE_EMPLOYEE_RECORD'',
     th_code_property = Some ''INELIGIBLE_EMPLOYEE_RECORD'',
     th_message = ''Employee 'e1' is ineligible for payroll resolution [EMPLOYEE_SUSPENDED]'', th_rebuildable = False\<rparr>"

lemma ineligible_employee_unreported:
  "run_sdk_operation callback None (Inl ineligible_employee_error :: (thrown_value, nat) result) =
     (case emit callback Executing [] of
        Inl e \<Rightarrow> \<lparr>rn_result = Inl (RejectedBy e), rn_events = [Executing], rn_called = False\<rparr>
      | Inr ev \<Rightarrow> \<lparr>rn_result = Inl RedactionFailed, rn_events = [Executing], rn_called = True\<rparr>)"
  by (auto simp: run_sdk_operation_def execute_stage_def caught_def message_redactable_def ineligible_employee_error_def
      dest: emit_events split: sum.split)

text \<open>The code and the class of an error are read from its message by different words, and may contradict each other.\<close>

lemma code_and_class_disagree:
  "map_rpc_message ''Insufficient fee: network congested'' = INSUFFICIENT_FEE"
  "rd_retryable (classify_error (GenericErr ''Error'' ''Insufficient fee: network congested''))"
  "\<not> rd_retryable (classify_error (ContractErr INSUFFICIENT_FEE))"
  by code_simp+

end
