(* ===== verification/AccessRequests.thy ===== *)
theory AccessRequests
  imports ClientConfig
begin

text \<open>
  Requests of an auditor for access (\<open>audit/auditAccessRequestSchema.ts\<close>): the checks before a request reaches an approver.
  A missing field is the empty text, which every check treats alike; the clock is read twice, and the reading of a
  date (\<open>new Date\<close>) is a parameter of the definitions. Messages are left out, the field of an error stands for its path.
\<close>

section \<open>Requests and errors\<close>

record access_request =
  aq_request_id :: string
  aq_requester :: string
  aq_requester_name :: string
  aq_requester_org :: string
  aq_scope :: string
  aq_expires_at :: string
  aq_reason :: string
  aq_period_start :: string
  aq_period_end :: string
  aq_created_at :: string

datatype access_error =
  MissingRequester | InvalidRequesterFormat | MissingRequesterName | MissingRequesterOrg | MissingScope | InvalidScope
  | MissingExpiresAt | InvalidExpiresAt | ExpiresAtInPast | ExpiresAtTooFar
  | MissingReason | ReasonTooShort | ReasonTooLong
  | MissingPeriodStart | InvalidPeriodStart | MissingPeriodEnd | InvalidPeriodEnd
  | PeriodEndBeforeStart | PeriodTooLong | PeriodInFuture

fun error_field :: "access_error \<Rightarrow> string" where
  "error_field MissingRequester = ''requester''"
| "error_field InvalidRequesterFormat = ''requester''"
| "error_field MissingRequesterName = ''requesterName''"
| "error_field MissingRequesterOrg = ''requesterOrg''"
| "error_field MissingScope = ''scope''"
| "error_field InvalidScope = ''scope''"
| "error_field MissingExpiresAt = ''expiresAt''"
| "error_field InvalidExpiresAt = ''expiresAt''"
| "error_field ExpiresAtInPast = ''expiresAt''"
| "error_field ExpiresAtTooFar = ''expiresAt''"
| "error_field MissingReason = ''reason''"
| "error_field ReasonTooShort = ''reason''"
| "error_field ReasonTooLong = ''reason''"
| "error_field MissingPeriodStart = ''targetPayrollPeriodStart''"
| "error_field InvalidPeriodStart = ''targetPayrollPeriodStart''"
| "error_field MissingPeriodEnd = ''targetPayrollPeriodEnd''"
| "error_field InvalidPeriodEnd = ''targetPayrollPeriodEnd''"
| "error_field PeriodEndBeforeStart = ''targetPayrollPeriodEnd''"
| "error_field PeriodTooLong = ''targetPayrollPeriodEnd''"
| "error_field PeriodInFuture = ''targetPayrollPeriodStart''"

definition valid_scopes :: "string list" where
  "valid_scopes = [''transaction-summaries'', ''departmental-breakdowns'', ''full-payroll'']"

definition day_ms :: int where
  "day_ms = 24 * 60 * 60 * 1000"

definition max_request_expiry_days :: int where
  "max_request_expiry_days = 365"

definition max_payroll_period_days :: int where
  "max_payroll_period_days = 365"

definition min_reason_length :: nat where
  "min_reason_length = 10"

definition max_reason_length :: nat where
  "max_reason_length = 2000"

section \<open>Checks\<close>

type_synonym date_reader = "string \<Rightarrow> int option"

definition parse_iso_date :: "date_reader \<Rightarrow> date_reader" where
  "parse_iso_date dates s = (if s = [] then None else dates s)"

definition is_valid_stellar_key :: "string \<Rightarrow> bool" where
  "is_valid_stellar_key s \<longleftrightarrow> key_pattern (CHR ''G'') s \<or> key_pattern (CHR ''S'') s"

definition requester_errors :: "string \<Rightarrow> access_error list" where
  "requester_errors s =
     (if blank s then [MissingRequester]
      else if \<not> is_valid_stellar_key (js_trim s) then [InvalidRequesterFormat]
      else [])"

definition identity_errors :: "access_request \<Rightarrow> access_error list" where
  "identity_errors r =
     (if blank (aq_requester_name r) then [MissingRequesterName] else []) @
     (if blank (aq_requester_org r) then [MissingRequesterOrg] else [])"

definition scope_errors :: "string \<Rightarrow> access_error list" where
  "scope_errors s = (if s = [] then [MissingScope] else if s \<notin> set valid_scopes then [InvalidScope] else [])"

definition expiry_errors :: "date_reader \<Rightarrow> int \<Rightarrow> string \<Rightarrow> access_error list" where
  "expiry_errors dates now s =
     (if blank s then [MissingExpiresAt]
      else (case parse_iso_date dates s of
          None \<Rightarrow> [InvalidExpiresAt]
        | Some t \<Rightarrow>
            if t \<le> now then [ExpiresAtInPast]
            else if now + max_request_expiry_days * day_ms < t then [ExpiresAtTooFar]
            else []))"

definition reason_errors :: "string \<Rightarrow> access_error list" where
  "reason_errors s =
     (if blank s then [MissingReason]
      else (if length (js_trim s) < min_reason_length then [ReasonTooShort] else []) @
           (if max_reason_length < length (js_trim s) then [ReasonTooLong] else []))"

definition date_errors :: "date_reader \<Rightarrow> access_error \<Rightarrow> access_error \<Rightarrow> string \<Rightarrow> access_error list" where
  "date_errors dates absent unreadable s =
     (if blank s then [absent] else if parse_iso_date dates s = None then [unreadable] else [])"

text \<open>The checks across both dates run if both can be read, also after an end before the start.\<close>

definition period_errors :: "date_reader \<Rightarrow> int \<Rightarrow> access_request \<Rightarrow> access_error list" where
  "period_errors dates now r =
     (case (parse_iso_date dates (aq_period_start r), parse_iso_date dates (aq_period_end r)) of
        (Some s, Some e) \<Rightarrow>
          (if e \<le> s then [PeriodEndBeforeStart] else []) @
          (if max_payroll_period_days * day_ms < e - s then [PeriodTooLong] else []) @
          (if now < s \<and> now < e then [PeriodInFuture] else [])
      | _ \<Rightarrow> [])"

definition collect_errors :: "date_reader \<Rightarrow> int \<Rightarrow> int \<Rightarrow> access_request \<Rightarrow> access_error list" where
  "collect_errors dates now now' r =
     requester_errors (aq_requester r) @ identity_errors r @ scope_errors (aq_scope r) @
     expiry_errors dates now (aq_expires_at r) @ reason_errors (aq_reason r) @
     date_errors dates MissingPeriodStart InvalidPeriodStart (aq_period_start r) @
     date_errors dates MissingPeriodEnd InvalidPeriodEnd (aq_period_end r) @
     period_errors dates now' r"

definition validate_audit_access_request :: "date_reader \<Rightarrow> int \<Rightarrow> int \<Rightarrow> access_request \<Rightarrow> bool \<times> access_error list" where
  "validate_audit_access_request dates now now' r =
     (let errors = collect_errors dates now now' r in (errors = [], errors))"

definition assert_valid_audit_access_request :: "date_reader \<Rightarrow> int \<Rightarrow> int \<Rightarrow> access_request \<Rightarrow> (access_error, unit) result" where
  "assert_valid_audit_access_request dates now now' r =
     (let res = validate_audit_access_request dates now now' r
      in if fst res then Inr () else Inl (hd (snd res)))"

section \<open>What is accepted\<close>

definition acceptable_requester :: "string \<Rightarrow> bool" where
  "acceptable_requester s \<longleftrightarrow>
     length (js_trim s) = 56 \<and> hd (js_trim s) \<in> {CHR ''G'', CHR ''S''} \<and> list_all base32_char (tl (js_trim s))"

definition acceptable_period :: "date_reader \<Rightarrow> int \<Rightarrow> access_request \<Rightarrow> bool" where
  "acceptable_period dates now r \<longleftrightarrow> \<not> blank (aq_period_start r) \<and> \<not> blank (aq_period_end r) \<and>
     (\<exists>s e. dates (aq_period_start r) = Some s \<and> dates (aq_period_end r) = Some e \<and>
        s < e \<and> e \<le> s + 365 * day_ms \<and> s \<le> now)"

definition acceptable_request :: "date_reader \<Rightarrow> int \<Rightarrow> int \<Rightarrow> access_request \<Rightarrow> bool" where
  "acceptable_request dates now now' r \<longleftrightarrow>
     acceptable_requester (aq_requester r) \<and> \<not> blank (aq_requester_name r) \<and> \<not> blank (aq_requester_org r) \<and>
     aq_scope r \<in> set valid_scopes \<and>
     \<not> blank (aq_expires_at r) \<and> (\<exists>t. dates (aq_expires_at r) = Some t \<and> now < t \<and> t \<le> now + 365 * day_ms) \<and>
     10 \<le> length (js_trim (aq_reason r)) \<and> length (js_trim (aq_reason r)) \<le> 2000 \<and>
     acceptable_period dates now' r"

lemma blank_is_empty: "\<not> blank s \<Longrightarrow> s \<noteq> []"
  by auto

lemma trimmed_not_blank: "js_trim s \<noteq> [] \<Longrightarrow> \<not> blank s"
  by (simp add: blank_def)

lemma requester_errors_iff: "requester_errors s = [] \<longleftrightarrow> acceptable_requester s"
proof -
  have "\<not> blank s" if "length (js_trim s) = 56" using that trimmed_not_blank [of s] by (cases "js_trim s") auto
  then show ?thesis
    by (auto simp: requester_errors_def is_valid_stellar_key_def key_pattern_def acceptable_requester_def)
qed

lemma scope_errors_iff: "scope_errors s = [] \<longleftrightarrow> s \<in> set valid_scopes"
  by (auto simp: scope_errors_def valid_scopes_def)

lemma parsed_not_blank: "\<not> blank s \<Longrightarrow> parse_iso_date dates s = dates s"
  by (auto simp: parse_iso_date_def)

lemma expiry_errors_iff:
  "expiry_errors dates now s = [] \<longleftrightarrow> \<not> blank s \<and> (\<exists>t. dates s = Some t \<and> now < t \<and> t \<le> now + 365 * day_ms)"
  by (auto simp: expiry_errors_def parsed_not_blank max_request_expiry_days_def split: option.split)

lemma reason_errors_iff: "reason_errors s = [] \<longleftrightarrow> 10 \<le> length (js_trim s) \<and> length (js_trim s) \<le> 2000"
  by (auto simp: reason_errors_def min_reason_length_def max_reason_length_def blank_def)

lemma period_errors_iff:
  "date_errors dates MissingPeriodStart InvalidPeriodStart (aq_period_start r) = [] \<and>
   date_errors dates MissingPeriodEnd InvalidPeriodEnd (aq_period_end r) = [] \<and> period_errors dates now r = [] \<longleftrightarrow>
   acceptable_period dates now r"
  by (auto simp: date_errors_def period_errors_def acceptable_period_def parsed_not_blank max_payroll_period_days_def
      split: option.splits)

text \<open>
  a request of an auditor passes exactly if it names its requester by a key of 56 characters, name and organisation,
  asks for a known scope, expires later than now and within 365 days, gives a reason of 10 to 2000 characters, and its
  period ends after its start, within 365 days of it, and has begun; the check that throws passes the same requests.
\<close>

theorem access_valid_iff:
  "fst (validate_audit_access_request dates now now' r) = acceptable_request dates now now' r \<and>
   (assert_valid_audit_access_request dates now now' r = Inr ()) = acceptable_request dates now now' r"
proof -
  have "collect_errors dates now now' r = [] \<longleftrightarrow> acceptable_request dates now now' r"
    using period_errors_iff [of dates r now']
    by (auto simp: collect_errors_def acceptable_request_def identity_errors_def requester_errors_iff scope_errors_iff
        expiry_errors_iff reason_errors_iff)
  then show ?thesis
    by (simp add: validate_audit_access_request_def assert_valid_audit_access_request_def Let_def)
qed

text \<open>No error is reported twice, and one field has at most two.\<close>

theorem access_errors_distinct: "distinct (snd (validate_audit_access_request dates now now' r))"
  by (auto simp: validate_audit_access_request_def Let_def collect_errors_def requester_errors_def identity_errors_def
      scope_errors_def expiry_errors_def reason_errors_def date_errors_def period_errors_def split: option.split)

section \<open>Requests that pass\<close>

text \<open>A key that starts with \<open>S\<close>, which is a secret seed, is accepted as the public key of the requester.\<close>

lemma secret_seed_passes:
  assumes "length s = 56" "hd s = CHR ''S''" "list_all base32_char (tl s)"
  shows "is_valid_stellar_key s"
  using assms by (simp add: is_valid_stellar_key_def key_pattern_def)

text \<open>The limit on the life of a request is counted from the check, not from its creation, which no check reads.\<close>

lemma creation_never_read:
  "collect_errors dates now now' (r\<lparr>aq_created_at := c, aq_request_id := i\<rparr>) = collect_errors dates now now' r"
  by (simp add: collect_errors_def identity_errors_def period_errors_def)

end
