(* ===== verification/PendingObligations.thy ===== *)
theory PendingObligations
  imports TreasuryReservations "HOL-Library.Multiset"
begin

text \<open>
  What a payer still owes (\<open>obligations/pendingObligationsReader.ts\<close>, with the reservations of \<open>TreasuryReservations\<close>): each
  obligation is read against the reservations bound to it by their ids, and summed per asset. The hash of an employee's
  reference and the rank \<open>localeCompare\<close> gives an asset are parameters; the line of text of the summary is left out.
\<close>

section \<open>Obligations\<close>

datatype obligation_state = ObligationPending | ObligationReserved | ObligationSettled

datatype obligation_risk = Overdue | UnderReserved | ReservationExpired | ReservationCancelled | NoRisk

text \<open>A due date that is no finite number is none.\<close>

record obligation_input =
  oi_employee :: string
  oi_amount :: int
  oi_asset :: "string option"
  oi_destination :: "string option"
  oi_due_at :: "int option"
  oi_reservation_ids :: "string list option"

record obligation_options =
  oo_reservations :: "funding_reservation list"
  oo_now :: int
  oo_default_ids :: "string list option"
  oo_default_asset :: "string option"
  oo_default_destination :: "string option"

record pending_obligation =
  ob_hashed_employee :: string
  ob_asset :: string
  ob_amount :: int
  ob_destination :: string
  ob_state :: obligation_state
  ob_risk :: obligation_risk
  ob_outstanding :: bool
  ob_overdue :: bool
  ob_due_at :: "int option"
  ob_reserved :: int
  ob_reservation_ids :: "string list"

record asset_totals =
  at_asset :: string
  at_count :: nat
  at_outstanding_count :: nat
  at_overdue_count :: nat
  at_total :: int
  at_outstanding :: int
  at_reserved :: int

record obligations_result =
  or_obligations :: "pending_obligation list"
  or_outstanding :: "pending_obligation list"
  or_asset_totals :: "asset_totals list"
  or_total_outstanding :: int
  or_outstanding_count :: nat
  or_overdue_count :: nat
  or_is_settled :: bool
  or_read_at :: int

definition with_default :: "'a option \<Rightarrow> 'a \<Rightarrow> 'a" where
  "with_default x d = (case x of None \<Rightarrow> d | Some y \<Rightarrow> y)"

section \<open>Reading one obligation\<close>

definition reservations_by_id :: "funding_reservation list \<Rightarrow> (string \<times> funding_reservation) list" where
  "reservations_by_id rs = fold (\<lambda>r m. AList.update (fr_id r) r m) rs []"

text \<open>The own ids of an obligation come before those of the whole run; ids of no reservation are passed over.\<close>

definition matched_reservations :: "obligation_options \<Rightarrow> obligation_input \<Rightarrow> funding_reservation list" where
  "matched_reservations opts i =
     (let bound = (case oi_reservation_ids i of Some ids \<Rightarrow> ids | None \<Rightarrow> with_default (oo_default_ids opts) [])
      in List.map_filter (map_of (reservations_by_id (oo_reservations opts))) bound)"

definition is_holding :: "funding_reservation \<Rightarrow> bool" where
  "is_holding r \<longleftrightarrow> fr_status r = Reserved"

definition resolve_state :: "funding_reservation list \<Rightarrow> obligation_state" where
  "resolve_state matched =
     (if list_ex (\<lambda>r. fr_status r = Finalized) matched then ObligationSettled
      else if filter is_holding matched \<noteq> [] then ObligationReserved
      else ObligationPending)"

definition held_amount :: "funding_reservation list \<Rightarrow> int" where
  "held_amount matched = sum_list (map fr_reserved_amount (filter is_holding matched))"

definition resolve_risk :: "bool \<Rightarrow> bool \<Rightarrow> funding_reservation list \<Rightarrow> int \<Rightarrow> obligation_risk" where
  "resolve_risk outstanding overdue matched amount =
     (if \<not> outstanding then NoRisk
      else if overdue then Overdue
      else if list_ex (\<lambda>r. fr_status r = Expired) matched then ReservationExpired
      else if list_ex (\<lambda>r. fr_status r = Cancelled) matched then ReservationCancelled
      else if 0 < held_amount matched \<and> held_amount matched < amount then UnderReserved
      else NoRisk)"

definition resolve_obligation :: "(string \<Rightarrow> string) \<Rightarrow> obligation_options \<Rightarrow> obligation_input \<Rightarrow> pending_obligation" where
  "resolve_obligation hash_ref opts i =
     (let matched = matched_reservations opts i;
          state = resolve_state matched;
          outstanding = (state \<noteq> ObligationSettled);
          overdue = (outstanding \<and> (case oi_due_at i of None \<Rightarrow> False | Some t \<Rightarrow> t \<le> oo_now opts))
      in \<lparr>ob_hashed_employee = hash_ref (oi_employee i),
          ob_asset = with_default (oi_asset i) (with_default (oo_default_asset opts) ''native''),
          ob_amount = oi_amount i,
          ob_destination = with_default (oi_destination i) (with_default (oo_default_destination opts) ''unknown''),
          ob_state = state, ob_risk = resolve_risk outstanding overdue matched (oi_amount i),
          ob_outstanding = outstanding, ob_overdue = overdue, ob_due_at = oi_due_at i,
          ob_reserved = held_amount matched, ob_reservation_ids = map fr_id matched\<rparr>)"

section \<open>Totals\<close>

definition no_totals :: "string \<Rightarrow> asset_totals" where
  "no_totals a = \<lparr>at_asset = a, at_count = 0, at_outstanding_count = 0, at_overdue_count = 0, at_total = 0,
     at_outstanding = 0, at_reserved = 0\<rparr>"

definition add_to_totals :: "pending_obligation \<Rightarrow> asset_totals \<Rightarrow> asset_totals" where
  "add_to_totals b t =
     \<lparr>at_asset = at_asset t, at_count = at_count t + 1,
      at_outstanding_count = at_outstanding_count t + (if ob_outstanding b then 1 else 0),
      at_overdue_count = at_overdue_count t + (if ob_overdue b then 1 else 0),
      at_total = at_total t + ob_amount b,
      at_outstanding = at_outstanding t + (if ob_outstanding b then ob_amount b else 0),
      at_reserved = at_reserved t + ob_reserved b\<rparr>"

definition count_obligation ::
  "pending_obligation \<Rightarrow> (string \<times> asset_totals) list \<Rightarrow> (string \<times> asset_totals) list" where
  "count_obligation b m =
     AList.update (ob_asset b) (add_to_totals b (with_default (map_of m (ob_asset b)) (no_totals (ob_asset b)))) m"

definition totals_by_asset :: "(string \<Rightarrow> nat) \<Rightarrow> pending_obligation list \<Rightarrow> asset_totals list" where
  "totals_by_asset rank obs = sort_key (\<lambda>t. rank (at_asset t)) (map snd (fold count_obligation obs []))"

definition read_pending_obligations ::
  "(string \<Rightarrow> string) \<Rightarrow> (string \<Rightarrow> nat) \<Rightarrow> obligation_options \<Rightarrow> obligation_input list \<Rightarrow> obligations_result" where
  "read_pending_obligations hash_ref rank opts inputs =
     (let resolved = map (resolve_obligation hash_ref opts) inputs;
          outstanding = filter ob_outstanding resolved
      in \<lparr>or_obligations = resolved, or_outstanding = outstanding, or_asset_totals = totals_by_asset rank resolved,
          or_total_outstanding = sum_list (map ob_amount outstanding), or_outstanding_count = length outstanding,
          or_overdue_count = length (filter ob_overdue resolved), or_is_settled = (outstanding = []),
          or_read_at = oo_now opts\<rparr>)"

definition has_no_pending_obligations ::
  "(string \<Rightarrow> string) \<Rightarrow> (string \<Rightarrow> nat) \<Rightarrow> obligation_options \<Rightarrow> obligation_input list \<Rightarrow> bool" where
  "has_no_pending_obligations hash_ref rank opts inputs = or_is_settled (read_pending_obligations hash_ref rank opts inputs)"

section \<open>The totals are those of the obligations\<close>

text \<open>What is to be said of the obligations of one asset\<close>

definition totals_of :: "string \<Rightarrow> pending_obligation list \<Rightarrow> asset_totals" where
  "totals_of a obs =
     (let own = filter (\<lambda>b. ob_asset b = a) obs
      in \<lparr>at_asset = a, at_count = length own, at_outstanding_count = length (filter ob_outstanding own),
          at_overdue_count = length (filter ob_overdue own), at_total = sum_list (map ob_amount own),
          at_outstanding = sum_list (map ob_amount (filter ob_outstanding own)), at_reserved = sum_list (map ob_reserved own)\<rparr>)"

lemma totals_of_snoc:
  "totals_of a (obs @ [b]) = (if ob_asset b = a then add_to_totals b (totals_of a obs) else totals_of a obs)"
  by (auto simp: totals_of_def add_to_totals_def Let_def)

lemma totals_of_absent: "a \<notin> ob_asset ` set obs \<Longrightarrow> totals_of a obs = no_totals a"
proof -
  assume "a \<notin> ob_asset ` set obs"
  then have "filter (\<lambda>b. ob_asset b = a) obs = []" by (auto simp: filter_empty_conv)
  then show ?thesis by (simp add: totals_of_def no_totals_def Let_def)
qed

lemma count_obligations:
  "distinct (map fst (fold count_obligation obs [])) \<and>
   map_of (fold count_obligation obs []) = (\<lambda>a. if a \<in> ob_asset ` set obs then Some (totals_of a obs) else None)"
proof (induction obs rule: rev_induct)
  case Nil
  then show ?case by (auto simp: fun_eq_iff)
next
  case (snoc b obs)
  let ?m = "fold count_obligation obs []"
  have "with_default (map_of ?m (ob_asset b)) (no_totals (ob_asset b)) = totals_of (ob_asset b) obs"
    using snoc totals_of_absent [of "ob_asset b" obs] by (simp add: with_default_def)
  then have "fold count_obligation (obs @ [b]) [] = AList.update (ob_asset b) (add_to_totals b (totals_of (ob_asset b) obs)) ?m"
    by (simp add: count_obligation_def)
  then show ?case
    using snoc by (auto simp: distinct_update update_conv' fun_eq_iff totals_of_snoc)
qed

lemma totals_entries:
  "set (fold count_obligation obs []) = (\<lambda>a. (a, totals_of a obs)) ` ob_asset ` set obs"
proof -
  have "(a, t) \<in> set (fold count_obligation obs []) \<longleftrightarrow> a \<in> ob_asset ` set obs \<and> t = totals_of a obs" for a t
    using count_obligations [of obs] map_of_eq_Some_iff [of "fold count_obligation obs []" a t] by (auto split: if_splits)
  then show ?thesis by (auto simp: image_iff)
qed

lemma asset_of_totals [simp]: "at_asset (totals_of a obs) = a"
  by (simp add: totals_of_def Let_def)

lemma totals_set: "set (totals_by_asset rank obs) = (\<lambda>a. totals_of a obs) ` ob_asset ` set obs"
  using totals_entries [of obs] by (simp add: totals_by_asset_def image_image)

lemma totals_distinct: "distinct (map at_asset (totals_by_asset rank obs))"
proof -
  let ?m = "fold count_obligation obs []"
  have "map at_asset (map snd ?m) = map fst ?m" using totals_entries [of obs] by (auto simp: image_iff)
  then have "distinct (map at_asset (map snd ?m))" using count_obligations [of obs] by metis
  moreover have "mset (map at_asset (totals_by_asset rank obs)) = mset (map at_asset (map snd ?m))"
    unfolding totals_by_asset_def by (metis mset_map mset_sort)
  ultimately show ?thesis by (metis mset_eq_imp_distinct_iff)
qed

lemma sum_over_assets:
  fixes f :: "pending_obligation \<Rightarrow> int"
  assumes "finite A" "ob_asset ` set obs \<subseteq> A"
  shows "(\<Sum>a \<in> A. sum_list (map f (filter (\<lambda>b. ob_asset b = a) obs))) = sum_list (map f obs)"
  using assms(2)
proof (induction obs)
  case Nil
  then show ?case by simp
next
  case (Cons b obs)
  have "sum_list (map f (filter (\<lambda>x. ob_asset x = a) (b # obs))) =
      (if ob_asset b = a then f b else 0) + sum_list (map f (filter (\<lambda>x. ob_asset x = a) obs))" for a
    by simp
  with Cons assms(1) show ?case by (simp only: sum.distrib) (simp add: sum.delta')
qed

lemma sum_list_by_asset:
  "sum_list (map f (totals_by_asset rank obs)) = (\<Sum>a \<in> ob_asset ` set obs. f (totals_of a obs) :: int)"
proof -
  have d: "distinct (totals_by_asset rank obs)" using totals_distinct [of rank obs] by (simp add: distinct_map)
  have "inj_on (\<lambda>a. totals_of a obs) (ob_asset ` set obs)" by (rule inj_onI) (metis asset_of_totals)
  then show ?thesis
    using d by (simp add: sum_list_distinct_conv_sum_set totals_set sum.reindex comp_def)
qed

lemma outstanding_of_totals:
  "at_outstanding (totals_of a obs) =
     sum_list (map (\<lambda>b. if ob_outstanding b then ob_amount b else 0) (filter (\<lambda>b. ob_asset b = a) obs))"
  by (simp add: totals_of_def Let_def) (induction obs, auto)

lemma outstanding_sum: "sum_list (map (\<lambda>b. if ob_outstanding b then ob_amount b else (0::int)) obs) =
    sum_list (map ob_amount (filter ob_outstanding obs))"
  by (induction obs) auto

text \<open>
  C26: the totals list every asset that is owed exactly once, each with the counts and sums of its own obligations, and the
  sums of what is outstanding in all assets add up to what the reader gives as outstanding altogether.
\<close>

theorem totals_of_every_asset:
  "set (or_asset_totals (read_pending_obligations hash_ref rank opts inputs)) =
     (\<lambda>a. totals_of a (or_obligations (read_pending_obligations hash_ref rank opts inputs))) `
       ob_asset ` set (or_obligations (read_pending_obligations hash_ref rank opts inputs)) \<and>
   distinct (map at_asset (or_asset_totals (read_pending_obligations hash_ref rank opts inputs))) \<and>
   sum_list (map at_outstanding (or_asset_totals (read_pending_obligations hash_ref rank opts inputs))) =
     or_total_outstanding (read_pending_obligations hash_ref rank opts inputs)"
proof -
  let ?obs = "map (resolve_obligation hash_ref opts) inputs"
  have "sum_list (map at_outstanding (totals_by_asset rank obs)) = sum_list (map ob_amount (filter ob_outstanding obs))" for obs
    unfolding sum_list_by_asset outstanding_of_totals
    by (subst sum_over_assets) (simp_all add: outstanding_sum)
  from this [of ?obs] show ?thesis
    using totals_set [of rank ?obs] totals_distinct [of rank ?obs] by (simp add: read_pending_obligations_def Let_def)
qed

section \<open>Settled and at risk\<close>

text \<open>Only reservations that were given are read.\<close>

lemma matched_ids: "r \<in> set (matched_reservations opts i) \<Longrightarrow> r \<in> set (oo_reservations opts)"
proof -
  have "map_of (fold (\<lambda>r m. AList.update (fr_id r) r m) rs m) x = Some r \<Longrightarrow> r \<in> set rs \<or> map_of m x = Some r" for rs m x r
  proof (induction rs arbitrary: m)
    case (Cons q rs)
    then show ?case by (fastforce simp: update_conv' split: if_splits)
  qed simp
  from this [of "oo_reservations opts" "[]"] show "r \<in> set (matched_reservations opts i) \<Longrightarrow> r \<in> set (oo_reservations opts)"
    by (auto simp: matched_reservations_def reservations_by_id_def Let_def List.map_filter_def with_default_def split: option.splits)
qed

text \<open>A payer is settled up exactly if a reservation bound to each obligation has been finalized.\<close>

theorem settled_iff_finalized:
  "has_no_pending_obligations hash_ref rank opts inputs \<longleftrightarrow>
     (\<forall>i \<in> set inputs. \<exists>r \<in> set (matched_reservations opts i). fr_status r = Finalized)"
  by (auto simp: has_no_pending_obligations_def read_pending_obligations_def Let_def filter_empty_conv resolve_obligation_def
      resolve_state_def list_ex_iff)

text \<open>A reservation finalized for any amount settles an obligation of any amount.\<close>

definition one_owed :: "string \<Rightarrow> int \<Rightarrow> obligation_input" where
  "one_owed e a = \<lparr>oi_employee = e, oi_amount = a, oi_asset = None, oi_destination = None, oi_due_at = None,
     oi_reservation_ids = None\<rparr>"

definition run_options :: "funding_reservation \<Rightarrow> obligation_options" where
  "run_options r = \<lparr>oo_reservations = [r], oo_now = 0, oo_default_ids = Some [fr_id r], oo_default_asset = None,
     oo_default_destination = None\<rparr>"

lemma run_matched: "matched_reservations (run_options r) (one_owed e a) = [r]"
  by (simp add: matched_reservations_def run_options_def one_owed_def with_default_def reservations_by_id_def List.map_filter_def)

lemma small_reservation_settles:
  "fr_status r = Finalized \<Longrightarrow> has_no_pending_obligations hash_ref rank (run_options r) [one_owed e a]"
  by (simp add: settled_iff_finalized run_matched)

text \<open>
  A reservation of the whole run is held against every obligation of it in full: two employees are owed twice what is
  reserved, neither is at risk, and the asset counts the reservation twice.
\<close>

lemma run_reservation_counted_twice:
  assumes "fr_status r = Reserved" "fr_reserved_amount r = 100"
  shows "map ob_risk (or_obligations (read_pending_obligations hash_ref rank (run_options r) [one_owed ''a'' 100, one_owed ''b'' 100])) =
      [NoRisk, NoRisk]"
    "map at_reserved (or_asset_totals (read_pending_obligations hash_ref rank (run_options r) [one_owed ''a'' 100, one_owed ''b'' 100])) =
      [200]"
proof -
  have resolved: "resolve_obligation hash_ref (run_options r) (one_owed e 100) =
      \<lparr>ob_hashed_employee = hash_ref e, ob_asset = ''native'', ob_amount = 100, ob_destination = ''unknown'',
       ob_state = ObligationReserved, ob_risk = NoRisk, ob_outstanding = True, ob_overdue = False, ob_due_at = None,
       ob_reserved = 100, ob_reservation_ids = [fr_id r]\<rparr>" for e
    using assms by (simp add: resolve_obligation_def run_matched resolve_state_def resolve_risk_def held_amount_def is_holding_def
        Let_def with_default_def) (simp add: one_owed_def run_options_def)
  show "map ob_risk (or_obligations (read_pending_obligations hash_ref rank (run_options r) [one_owed ''a'' 100, one_owed ''b'' 100])) =
      [NoRisk, NoRisk]"
    by (simp add: read_pending_obligations_def resolved Let_def)
  show "map at_reserved (or_asset_totals (read_pending_obligations hash_ref rank (run_options r) [one_owed ''a'' 100, one_owed ''b'' 100])) =
      [200]"
    by (simp add: read_pending_obligations_def resolved Let_def totals_by_asset_def count_obligation_def add_to_totals_def
        no_totals_def with_default_def)
qed

text \<open>An overdue obligation is not flagged as reserved for too little.\<close>

lemma overdue_hides_shortage: "resolve_risk True True matched amount = Overdue"
  by (simp add: resolve_risk_def)

end
