(* ===== verification/ImportResults.thy ===== *)
theory ImportResults
  imports CanonicalJson
begin

text \<open>
  The response to an import of employees (\<open>import/resultParser.ts\<close>): rows in five groups, without salaries and private
  keys. A response is a JSON value. The percentage of the rows that went well, a quotient of floating point numbers, the
  time of parsing and the line of text of the summary are left out.
\<close>

section \<open>Values of JavaScript\<close>

definition json_truthy :: "json \<Rightarrow> bool" where
  "json_truthy v = (case v of JsonNull \<Rightarrow> False | JsonBool b \<Rightarrow> b | JsonNumber n \<Rightarrow> n \<noteq> 0 | JsonText s \<Rightarrow> s \<noteq> [] | _ \<Rightarrow> True)"

text \<open>\<open>String(v)\<close>; nothing is written for \<open>null\<close> within an array\<close>

function js_text :: "json \<Rightarrow> string" where
  "js_text JsonNull = ''null''"
| "js_text (JsonBool b) = (if b then ''true'' else ''false'')"
| "js_text (JsonNumber n) = int_string n"
| "js_text (JsonText s) = s"
| "js_text (JsonArray vs) = commas (map (\<lambda>v. if v = JsonNull then [] else js_text v) vs)"
| "js_text (JsonObject ps) = ''[object Object]''"
  by pat_completeness auto

termination
  by (relation "measure size") (auto simp: less_Suc_eq_le intro: size_list_estimation')

text \<open>The own properties of an object; those of an array are named by their index.\<close>

definition own_properties :: "json \<Rightarrow> (string \<times> json) list option" where
  "own_properties v =
     (case v of
        JsonObject ps \<Rightarrow> Some ps
      | JsonArray vs \<Rightarrow> Some (zip (map (\<lambda>i. int_string (int i)) [0..<length vs]) vs)
      | _ \<Rightarrow> None)"

definition property :: "(string \<times> json) list \<Rightarrow> string \<Rightarrow> json option" where
  "property ps k = map_of ps k"

definition holds :: "(string \<times> json) list \<Rightarrow> string \<Rightarrow> bool" where
  "holds ps k \<longleftrightarrow> property ps k = Some (JsonBool True)"

definition says :: "(string \<times> json) list \<Rightarrow> string \<Rightarrow> string \<Rightarrow> bool" where
  "says ps k t \<longleftrightarrow> property ps k = Some (JsonText t)"

definition true_property :: "(string \<times> json) list \<Rightarrow> string \<Rightarrow> json option" where
  "true_property ps k = (case property ps k of None \<Rightarrow> None | Some v \<Rightarrow> if json_truthy v then Some v else None)"

section \<open>Rows\<close>

datatype row_outcome = RowAdded | RowUpdated | RowSkipped | RowDuplicate | RowFailed

record parsed_row =
  pr_number :: int
  pr_outcome :: row_outcome
  pr_employee :: "string option"
  pr_wallet :: "string option"
  pr_data :: "(string \<times> json) list option"
  pr_reason :: "string option"
  pr_error :: "string option"

record import_options =
  io_default :: "row_outcome option"
  io_placeholder :: "string option"

definition resolve_row_outcome :: "json \<Rightarrow> row_outcome option \<Rightarrow> row_outcome" where
  "resolve_row_outcome item usual =
     (case own_properties item of
        None \<Rightarrow> RowFailed
      | Some r \<Rightarrow>
          if true_property r ''error'' \<noteq> None \<or> holds r ''failed'' \<or> says r ''status'' ''failed'' \<or> says r ''status'' ''error''
          then RowFailed
          else if holds r ''isDuplicate'' \<or> holds r ''duplicate'' \<or> says r ''status'' ''duplicate'' \<or> says r ''status'' ''conflict''
          then RowDuplicate
          else if holds r ''skipped'' \<or> says r ''status'' ''skipped'' \<or> says r ''status'' ''ignored'' \<or> says r ''action'' ''skipped''
          then RowSkipped
          else if holds r ''updated'' \<or> says r ''status'' ''updated'' \<or> says r ''action'' ''update'' \<or> says r ''action'' ''updated''
          then RowUpdated
          else if holds r ''added'' \<or> says r ''status'' ''added'' \<or> says r ''status'' ''created'' \<or> says r ''action'' ''create'' \<or>
            says r ''action'' ''added''
          then RowAdded
          else (case usual of None \<Rightarrow> RowAdded | Some d \<Rightarrow> d))"

text \<open>A text is taken as it is, even empty; another name of the field only if it counts as true.\<close>

definition named_text :: "(string \<times> json) list \<Rightarrow> string \<Rightarrow> string \<Rightarrow> string option" where
  "named_text r k other =
     (case property r k of Some (JsonText t) \<Rightarrow> Some t | _ \<Rightarrow> map_option js_text (true_property r other))"

definition row_reason :: "(string \<times> json) list \<Rightarrow> string option" where
  "row_reason r =
     (case true_property r ''reason'' of Some v \<Rightarrow> Some (js_text v) | None \<Rightarrow> map_option js_text (true_property r ''message''))"

definition row_error :: "(string \<times> json) list \<Rightarrow> row_outcome \<Rightarrow> string option" where
  "row_error r outcome =
     (case true_property r ''error'' of
        Some v \<Rightarrow> Some (js_text v)
      | None \<Rightarrow>
          if outcome = RowFailed then Some (case row_reason r of Some t \<Rightarrow> t | None \<Rightarrow> ''Unknown row failure'') else None)"

definition sanitized :: "string \<Rightarrow> (string \<times> json) list \<Rightarrow> (string \<times> json) list" where
  "sanitized placeholder r =
     AList.delete ''privateKey''
       (if property r ''salary'' = None then r else AList.update ''salary'' (JsonText placeholder) r)"

definition normalize_row :: "json \<Rightarrow> int \<Rightarrow> row_outcome \<Rightarrow> import_options \<Rightarrow> parsed_row" where
  "normalize_row item fallback outcome opts =
     (case own_properties item of
        None \<Rightarrow> \<lparr>pr_number = fallback, pr_outcome = outcome, pr_employee = None, pr_wallet = None, pr_data = None,
          pr_reason = None, pr_error = Some (js_text item)\<rparr>
      | Some r \<Rightarrow>
          \<lparr>pr_number = (case property r ''rowNumber'' of Some (JsonNumber n) \<Rightarrow> n | _ \<Rightarrow> fallback),
           pr_outcome = outcome,
           pr_employee = named_text r ''employeeId'' ''id'',
           pr_wallet = named_text r ''walletAddress'' ''wallet'',
           pr_data = Some (sanitized (case io_placeholder opts of None \<Rightarrow> ''[redacted]'' | Some p \<Rightarrow> p) r),
           pr_reason = row_reason r, pr_error = row_error r outcome\<rparr>)"

section \<open>Groups\<close>

record import_groups =
  ig_added :: "parsed_row list"
  ig_updated :: "parsed_row list"
  ig_skipped :: "parsed_row list"
  ig_duplicate :: "parsed_row list"
  ig_failed :: "parsed_row list"

fun group_rows :: "row_outcome \<Rightarrow> import_groups \<Rightarrow> parsed_row list" where
  "group_rows RowAdded g = ig_added g"
| "group_rows RowUpdated g = ig_updated g"
| "group_rows RowSkipped g = ig_skipped g"
| "group_rows RowDuplicate g = ig_duplicate g"
| "group_rows RowFailed g = ig_failed g"

fun push_row :: "row_outcome \<Rightarrow> parsed_row \<Rightarrow> import_groups \<Rightarrow> import_groups" where
  "push_row RowAdded r g = g\<lparr>ig_added := ig_added g @ [r]\<rparr>"
| "push_row RowUpdated r g = g\<lparr>ig_updated := ig_updated g @ [r]\<rparr>"
| "push_row RowSkipped r g = g\<lparr>ig_skipped := ig_skipped g @ [r]\<rparr>"
| "push_row RowDuplicate r g = g\<lparr>ig_duplicate := ig_duplicate g @ [r]\<rparr>"
| "push_row RowFailed r g = g\<lparr>ig_failed := ig_failed g @ [r]\<rparr>"

definition no_rows :: import_groups where
  "no_rows = \<lparr>ig_added = [], ig_updated = [], ig_skipped = [], ig_duplicate = [], ig_failed = []\<rparr>"

record import_summary =
  is_total :: nat
  is_added :: nat
  is_updated :: nat
  is_skipped :: nat
  is_duplicate :: nat
  is_failed :: nat
  is_has_failures :: bool

definition summarize_groups :: "import_groups \<Rightarrow> import_summary" where
  "summarize_groups g =
     \<lparr>is_total = length (ig_added g) + length (ig_updated g) + length (ig_skipped g) + length (ig_duplicate g) + length (ig_failed g),
      is_added = length (ig_added g), is_updated = length (ig_updated g), is_skipped = length (ig_skipped g),
      is_duplicate = length (ig_duplicate g), is_failed = length (ig_failed g),
      is_has_failures = (0 < length (ig_failed g) \<or> 0 < length (ig_duplicate g))\<rparr>"

definition array_property :: "(string \<times> json) list \<Rightarrow> string \<Rightarrow> json list option" where
  "array_property ps k = (case property ps k of Some (JsonArray vs) \<Rightarrow> Some vs | _ \<Rightarrow> None)"

definition group_names :: "(string \<times> row_outcome) list" where
  "group_names = [(''added'', RowAdded), (''updated'', RowUpdated), (''skipped'', RowSkipped), (''duplicate'', RowDuplicate),
     (''failed'', RowFailed)]"

text \<open>The rows of a response with their outcomes, in the order they are numbered from 1\<close>

definition grouped_rows :: "(string \<times> json) list \<Rightarrow> (json \<times> row_outcome) list" where
  "grouped_rows ps =
     concat (map (\<lambda>(k, outcome). case array_property ps k of None \<Rightarrow> [] | Some vs \<Rightarrow> map (\<lambda>v. (v, outcome)) vs) group_names)"

fun first_array :: "(string \<times> json) list \<Rightarrow> string list \<Rightarrow> json list" where
  "first_array ps [] = []"
| "first_array ps (k # ks) = (case array_property ps k of Some vs \<Rightarrow> vs | None \<Rightarrow> first_array ps ks)"

definition linear_rows :: "json \<Rightarrow> json list" where
  "linear_rows raw =
     (case raw of
        JsonArray vs \<Rightarrow> vs
      | JsonObject ps \<Rightarrow> first_array ps [''results'', ''rows'', ''items'', ''entries'', ''data'']
      | _ \<Rightarrow> [])"

definition has_group_keys :: "json \<Rightarrow> bool" where
  "has_group_keys raw =
     (case raw of JsonObject ps \<Rightarrow> list_ex (\<lambda>(k, outcome). array_property ps k \<noteq> None) group_names | _ \<Rightarrow> False)"

definition rows_of :: "json \<Rightarrow> import_options \<Rightarrow> (json \<times> row_outcome) list" where
  "rows_of raw opts =
     (if \<not> json_truthy raw then []
      else if has_group_keys raw then (case raw of JsonObject ps \<Rightarrow> grouped_rows ps | _ \<Rightarrow> [])
      else map (\<lambda>v. (v, resolve_row_outcome v (io_default opts))) (linear_rows raw))"

definition parsed_rows :: "json \<Rightarrow> import_options \<Rightarrow> parsed_row list" where
  "parsed_rows raw opts = map (\<lambda>(i, v, outcome). normalize_row v (int i + 1) outcome opts) (enumerate 0 (rows_of raw opts))"

definition parse_employee_import_result :: "json \<Rightarrow> import_options \<Rightarrow> import_summary \<times> import_groups" where
  "parse_employee_import_result raw opts =
     (let g = fold (\<lambda>r. push_row (pr_outcome r) r) (parsed_rows raw opts) no_rows in (summarize_groups g, g))"

definition is_import_fully_successful :: "import_summary \<times> import_groups \<Rightarrow> bool" where
  "is_import_fully_successful res \<longleftrightarrow> is_failed (fst res) = 0 \<and> is_duplicate (fst res) = 0"

section \<open>Every row is in one group\<close>

lemma pushed: "group_rows q (push_row k r g) = group_rows q g @ (if k = q then [r] else [])"
  by (cases q; cases k) auto

lemma pushed_rows:
  "group_rows q (fold (\<lambda>r. push_row (pr_outcome r) r) rs g) = group_rows q g @ filter (\<lambda>r. pr_outcome r = q) rs"
  by (induction rs arbitrary: g) (auto simp: pushed)

lemma no_rows_group [simp]: "group_rows q no_rows = []"
  by (cases q) (auto simp: no_rows_def)

lemma outcome_count:
  "length rs = length (filter (\<lambda>r. pr_outcome r = RowAdded) rs) + length (filter (\<lambda>r. pr_outcome r = RowUpdated) rs) +
     length (filter (\<lambda>r. pr_outcome r = RowSkipped) rs) + length (filter (\<lambda>r. pr_outcome r = RowDuplicate) rs) +
     length (filter (\<lambda>r. pr_outcome r = RowFailed) rs)"
  by (induction rs) (auto, (metis row_outcome.exhaust)+)

text \<open>
  each group holds the rows of its outcome, in their order, and none is lost or counted twice: the total is the number of
  rows in the response; there are failures exactly if some row failed or was a duplicate.
\<close>

theorem groups_partition_rows:
  "group_rows q (snd (parse_employee_import_result raw opts)) = filter (\<lambda>r. pr_outcome r = q) (parsed_rows raw opts) \<and>
   is_total (fst (parse_employee_import_result raw opts)) = length (rows_of raw opts) \<and>
   is_has_failures (fst (parse_employee_import_result raw opts)) =
     list_ex (\<lambda>r. pr_outcome r = RowFailed \<or> pr_outcome r = RowDuplicate) (parsed_rows raw opts) \<and>
   is_import_fully_successful (parse_employee_import_result raw opts) =
     (\<not> is_has_failures (fst (parse_employee_import_result raw opts)))"
proof -
  let ?rs = "parsed_rows raw opts" and ?g = "snd (parse_employee_import_result raw opts)"
  have group: "group_rows q ?g = filter (\<lambda>r. pr_outcome r = q) ?rs" for q
    by (simp add: parse_employee_import_result_def Let_def pushed_rows)
  have fields: "ig_added ?g = filter (\<lambda>r. pr_outcome r = RowAdded) ?rs" "ig_updated ?g = filter (\<lambda>r. pr_outcome r = RowUpdated) ?rs"
    "ig_skipped ?g = filter (\<lambda>r. pr_outcome r = RowSkipped) ?rs" "ig_duplicate ?g = filter (\<lambda>r. pr_outcome r = RowDuplicate) ?rs"
    "ig_failed ?g = filter (\<lambda>r. pr_outcome r = RowFailed) ?rs"
    using group [of RowAdded] group [of RowUpdated] group [of RowSkipped] group [of RowDuplicate] group [of RowFailed] by simp_all
  have summary: "fst (parse_employee_import_result raw opts) = summarize_groups ?g"
    by (simp add: parse_employee_import_result_def Let_def)
  have total: "is_total (summarize_groups ?g) = length (rows_of raw opts)"
    using outcome_count [of ?rs] by (simp add: summarize_groups_def fields parsed_rows_def)
  have failures: "is_has_failures (summarize_groups ?g) = list_ex (\<lambda>r. pr_outcome r = RowFailed \<or> pr_outcome r = RowDuplicate) ?rs"
    by (auto simp: summarize_groups_def fields filter_empty_conv list_ex_iff)
  have "is_import_fully_successful (parse_employee_import_result raw opts) = (\<not> is_has_failures (summarize_groups ?g))"
    by (simp add: is_import_fully_successful_def summary) (simp add: summarize_groups_def)
  then show ?thesis using group total failures summary by simp
qed

section \<open>What is kept private\<close>

text \<open>The rest of a record: what is the same in two records that differ in a salary or a private key\<close>

definition public_part :: "(string \<times> json) list \<Rightarrow> (string \<times> json) list" where
  "public_part r = map (\<lambda>(k, v). (k, if k = ''salary'' then JsonNull else v)) (AList.delete ''privateKey'' r)"

lemma sanitized_private:
  "map_of (sanitized p r) ''privateKey'' = None"
  "map_of (sanitized p r) ''salary'' = None \<or> map_of (sanitized p r) ''salary'' = Some (JsonText p)"
  by (auto simp: sanitized_def property_def update_conv' delete_conv')

lemma updated_in_place:
  "distinct (map fst r) \<Longrightarrow> k \<in> fst ` set r \<Longrightarrow> AList.update k v r = map (\<lambda>(q, w). (q, if q = k then v else w)) r"
proof (induction r)
  case (Cons x r)
  have "map (\<lambda>(q, w). (q, if q = fst x then v else w)) r = r" if "fst x \<notin> fst ` set r"
    using that by (induction r) auto
  with Cons show ?case by (cases x) (auto simp del: map_eq_conv)
qed simp

lemma no_such_key: "map_of r k = None \<Longrightarrow> map (\<lambda>(q, w). (q, if q = k then v else w)) r = r"
  by (induction r) (auto split: if_splits)

lemma delete_mapped: "AList.delete k (map (\<lambda>(q, w). (q, f q w)) r) = map (\<lambda>(q, w). (q, f q w)) (AList.delete k r)"
  by (induction r) auto

lemma sanitized_public:
  assumes "distinct (map fst r)"
  shows "sanitized p r = map (\<lambda>(k, v). (k, if k = ''salary'' then JsonText p else v)) (public_part r)"
proof -
  have "sanitized p r = AList.delete ''privateKey'' (map (\<lambda>(k, v). (k, if k = ''salary'' then JsonText p else v)) r)"
    using updated_in_place [OF assms, of "''salary''"] no_such_key [of r "''salary''"]
    by (cases "''salary'' \<in> fst ` set r") (simp_all add: sanitized_def property_def map_of_eq_None_iff)
  also have "\<dots> = map (\<lambda>(k, v). (k, if k = ''salary'' then JsonText p else v)) (public_part r)"
    by (auto simp: delete_mapped public_part_def)
  finally show ?thesis .
qed

lemma property_public: "k \<noteq> ''salary'' \<Longrightarrow> k \<noteq> ''privateKey'' \<Longrightarrow> property r k = map_of (public_part r) k"
  unfolding property_def public_part_def by (induction r) auto

text \<open>
  C27: what is given of a record does not depend on its salary, nor on its having a private key: two records that agree on
  everything else give the same row.
\<close>

theorem rows_hide_salary_and_key:
  assumes "distinct (map fst r)" "distinct (map fst r')" "public_part r = public_part r'"
  shows "normalize_row (JsonObject r) i outcome opts = normalize_row (JsonObject r') i outcome opts"
proof -
  have "sanitized p r = sanitized p r'" for p using assms by (simp add: sanitized_public)
  moreover have same: "property r k = property r' k" if "k \<noteq> ''salary''" "k \<noteq> ''privateKey''" for k
    using that assms(3) by (simp add: property_public)
  have fields: "property r ''rowNumber'' = property r' ''rowNumber''" "property r ''employeeId'' = property r' ''employeeId''"
    "property r ''id'' = property r' ''id''" "property r ''walletAddress'' = property r' ''walletAddress''"
    "property r ''wallet'' = property r' ''wallet''" "property r ''reason'' = property r' ''reason''"
    "property r ''message'' = property r' ''message''" "property r ''error'' = property r' ''error''"
    by (rule same; simp)+
  have trues: "true_property r ''id'' = true_property r' ''id''" "true_property r ''wallet'' = true_property r' ''wallet''"
    "true_property r ''reason'' = true_property r' ''reason''" "true_property r ''message'' = true_property r' ''message''"
    "true_property r ''error'' = true_property r' ''error''"
    by (simp_all add: true_property_def fields)
  have texts: "named_text r ''employeeId'' ''id'' = named_text r' ''employeeId'' ''id''"
    "named_text r ''walletAddress'' ''wallet'' = named_text r' ''walletAddress'' ''wallet''" "row_reason r = row_reason r'"
    by (simp_all add: named_text_def row_reason_def fields trues split: option.split json.split)
  then have errors: "row_error r outcome = row_error r' outcome"
    by (simp add: row_error_def fields trues split: option.split)
  ultimately show ?thesis
    by (simp add: normalize_row_def own_properties_def texts errors fields)
qed

definition no_import_options :: import_options where
  "no_import_options = \<lparr>io_default = None, io_placeholder = None\<rparr>"

theorem rows_hide_salary_and_key_witness:
  "normalize_row (JsonObject [(''id'', JsonNumber 7), (''salary'', JsonNumber 5000), (''privateKey'', JsonText ''SECRET'')]) 1 RowAdded no_import_options =
   normalize_row (JsonObject [(''id'', JsonNumber 7), (''salary'', JsonNumber 90)]) 1 RowAdded no_import_options"
  by (rule rows_hide_salary_and_key) (simp_all add: public_part_def)

section \<open>Responses that were not understood\<close>

text \<open>A response of another shape, such as a refusal, is an import of no rows that is fully successful.\<close>

lemma refusal_is_success:
  "is_import_fully_successful
     (parse_employee_import_result (JsonObject [(''status'', JsonText ''error''), (''error'', JsonText ''unauthorized'')]) opts)"
  by (simp add: is_import_fully_successful_def parse_employee_import_result_def parsed_rows_def rows_of_def truthy_def
      has_group_keys_def group_names_def linear_rows_def array_property_def property_def no_rows_def summarize_groups_def Let_def)

text \<open>A row with a status that is not known counts as added.\<close>

lemma rejected_row_is_added: "resolve_row_outcome (JsonObject [(''status'', JsonText ''rejected'')]) None = RowAdded"
  by (simp add: resolve_row_outcome_def own_properties_def true_property_def property_def holds_def says_def)

text \<open>A row that is no object is given back in its error, with whatever it says.\<close>

lemma raw_row_leaks: "pr_error (normalize_row (JsonText s) i RowFailed opts) = Some s"
  by (simp add: normalize_row_def own_properties_def)

text \<open>A salary under a reason or within another field is kept.\<close>

lemma nested_salary_kept:
  "map_of (sanitized p [(''contract'', JsonObject [(''salary'', JsonNumber 5000)])]) ''contract'' =
     Some (JsonObject [(''salary'', JsonNumber 5000)])"
  by (simp add: sanitized_def property_def delete_conv')

end
