(* ===== verification/AmountNormalization.thy ===== *)
theory AmountNormalization
  imports AmountParsing
begin

text \<open>
  Amounts of any shape as an amount of the smallest unit (\<open>assets/amountNormalization.ts\<close>): what is given is read by the
  parser of texts unless it is a \<open>bigint\<close>, the asset is one given or one of the registry. The text of a finite number
  (\<open>Number.toString\<close>) is a parameter of the input, as numbers here may have a fraction.
\<close>

section \<open>Inputs\<close>

text \<open>A text, a \<open>bigint\<close>, a finite number with its text, or anything else, also a number that is not finite\<close>

datatype amount_input = TextAmount string | BigIntAmount int | FiniteNumber string | OtherValue

datatype asset_input = AssetId string | AssetData asset_metadata

record normalize_options =
  nm_bounds :: "amount_bounds option"
  nm_rounding :: "rounding_mode option"

record normalized_amount =
  na_amount :: int
  na_decimals :: jsnum
  na_asset_symbol :: string
  na_asset_id :: string
  na_was_rounded :: bool
  na_original :: string

text \<open>An asset that is not registered is another error than one of the amount.\<close>

datatype normalize_error = AssetNotFound registry_error | AmountError amount_error

definition coerce_to_string :: "amount_input \<Rightarrow> string" where
  "coerce_to_string v = (case v of TextAmount s \<Rightarrow> s | FiniteNumber s \<Rightarrow> s | _ \<Rightarrow> [])"

definition resolve_metadata :: "asset_input \<Rightarrow> asset_registry \<Rightarrow> (normalize_error, asset_metadata) result" where
  "resolve_metadata a registry =
     (case a of AssetId i \<Rightarrow> map_sum AssetNotFound id (registry_get_or_throw registry i) | AssetData m \<Rightarrow> Inr m)"

definition apply_bounds :: "int \<Rightarrow> amount_bounds option \<Rightarrow> (normalize_error, unit) result" where
  "apply_bounds x bounds =
     (case bounds of
        None \<Rightarrow> Inr ()
      | Some b \<Rightarrow> (case check_amount_bounds x b of [] \<Rightarrow> Inr () | e # es \<Rightarrow> Inl (AmountError e)))"

definition normalize_bigint :: "int \<Rightarrow> asset_metadata \<Rightarrow> normalize_options \<Rightarrow> (normalize_error, normalized_amount) result" where
  "normalize_bigint x m opts =
     bind_result (throw_if (x < 0) (AmountError (AmountParseError (''Amount cannot be negative: '' @ quoted (int_string x)) NEGATIVE_VALUE))) (\<lambda>_.
     bind_result (throw_if (x = 0) (AmountError (AmountParseError (''Amount cannot be zero: '' @ quoted (int_string x)) ZERO_VALUE))) (\<lambda>_.
     bind_result (apply_bounds x (nm_bounds opts)) (\<lambda>_.
     Inr \<lparr>na_amount = x, na_decimals = decimals m, na_asset_symbol = symbol m, na_asset_id = asset_id m,
          na_was_rounded = False, na_original = int_string x\<rparr>)))"

definition normalize_text :: "string \<Rightarrow> asset_metadata \<Rightarrow> normalize_options \<Rightarrow> (normalize_error, normalized_amount) result" where
  "normalize_text s m opts =
     (case parse_payroll_amount s m \<lparr>opt_bounds = nm_bounds opts, opt_rounding = nm_rounding opts, opt_metadata = None\<rparr> of
        Inl e \<Rightarrow> Inl (AmountError e)
      | Inr p \<Rightarrow> Inr \<lparr>na_amount = pa_amount p, na_decimals = Whole (pa_decimals p), na_asset_symbol = symbol m,
          na_asset_id = asset_id m, na_was_rounded = pa_was_rounded p, na_original = s\<rparr>)"

definition normalize_canonical_amount ::
  "amount_input \<Rightarrow> asset_input \<Rightarrow> normalize_options \<Rightarrow> asset_registry \<Rightarrow> (normalize_error, normalized_amount) result" where
  "normalize_canonical_amount input a opts registry =
     bind_result (resolve_metadata a registry) (\<lambda>m.
       case input of
         BigIntAmount x \<Rightarrow> normalize_bigint x m opts
       | _ \<Rightarrow> normalize_text (coerce_to_string input) m opts)"

text \<open>Only errors of the amount become a result; another one is thrown.\<close>

definition try_normalize_canonical_amount ::
  "amount_input \<Rightarrow> asset_input \<Rightarrow> normalize_options \<Rightarrow> asset_registry
     \<Rightarrow> (normalize_error, (amount_error, normalized_amount) result) result" where
  "try_normalize_canonical_amount input a opts registry =
     (case normalize_canonical_amount input a opts registry of
        Inr v \<Rightarrow> Inr (Inr v)
      | Inl (AmountError (AmountParseError msg c)) \<Rightarrow> Inr (Inl (AmountParseError msg c))
      | Inl e \<Rightarrow> Inl e)"

section \<open>What is canonical\<close>

lemma apply_bounds_iff: "apply_bounds x bounds = Inr u \<longleftrightarrow> within_bounds bounds x"
  by (auto simp: apply_bounds_def check_amount_bounds_def within_bounds_def split: option.splits list.splits)

lemma normalize_bigint_iff:
  "normalize_bigint x m opts = Inr r \<longleftrightarrow>
     0 < x \<and> within_bounds (nm_bounds opts) x \<and>
     r = \<lparr>na_amount = x, na_decimals = decimals m, na_asset_symbol = symbol m, na_asset_id = asset_id m,
          na_was_rounded = False, na_original = int_string x\<rparr>"
  by (auto simp: normalize_bigint_def result_simps apply_bounds_iff)

lemma normalize_text_InrD:
  assumes "normalize_text t m opts = Inr r"
  shows "0 \<le> na_amount r \<and> within_bounds (nm_bounds opts) (na_amount r) \<and> na_decimals r = decimals m \<and>
    na_asset_symbol r = symbol m \<and> na_asset_id r = asset_id m \<and> na_original r = t"
proof -
  let ?o = "\<lparr>opt_bounds = nm_bounds opts, opt_rounding = nm_rounding opts, opt_metadata = None\<rparr>"
  obtain p where p: "parse_payroll_amount t m ?o = Inr p"
    using assms by (cases "parse_payroll_amount t m ?o") (simp_all add: normalize_text_def)
  then have r: "r = \<lparr>na_amount = pa_amount p, na_decimals = Whole (pa_decimals p), na_asset_symbol = symbol m,
      na_asset_id = asset_id m, na_was_rounded = pa_was_rounded p, na_original = t\<rparr>"
    using assms by (simp add: normalize_text_def)
  show ?thesis
    by (rule parse_payroll_amount_InrD [OF p]) (simp add: r)
qed

text \<open>
  An amount that was normalized, given again as a \<open>bigint\<close>, is itself: it is positive or zero and within its bounds,
  and if it is not zero, to normalize it again gives the same amount of the same asset, not rounded.
\<close>

theorem normalized_amount_is_canonical:
  assumes "normalize_canonical_amount input a opts registry = Inr r"
  shows "0 \<le> na_amount r \<and> within_bounds (nm_bounds opts) (na_amount r) \<and>
    (if na_amount r = 0 then \<exists>e. normalize_canonical_amount (BigIntAmount (na_amount r)) a opts registry = Inl e
     else normalize_canonical_amount (BigIntAmount (na_amount r)) a opts registry =
       Inr (r\<lparr>na_was_rounded := False, na_original := int_string (na_amount r)\<rparr>))"
proof -
  obtain m where m: "resolve_metadata a registry = Inr m"
    using assms by (cases "resolve_metadata a registry") (simp_all add: normalize_canonical_amount_def bind_result_def)
  have facts: "0 \<le> na_amount r \<and> within_bounds (nm_bounds opts) (na_amount r) \<and> na_decimals r = decimals m \<and>
      na_asset_symbol r = symbol m \<and> na_asset_id r = asset_id m"
  proof (cases input)
    case (BigIntAmount x)
    then have "normalize_bigint x m opts = Inr r" using assms m by (simp add: normalize_canonical_amount_def bind_result_def)
    then show ?thesis by (auto simp: normalize_bigint_iff)
  qed (use assms m normalize_text_InrD in \<open>force simp: normalize_canonical_amount_def bind_result_def\<close>)+
  have again: "normalize_canonical_amount (BigIntAmount (na_amount r)) a opts registry = normalize_bigint (na_amount r) m opts"
    by (simp add: normalize_canonical_amount_def m bind_result_def)
  have zero: "\<exists>e. normalize_bigint 0 m opts = Inl e" by (simp add: normalize_bigint_def throw_if_def bind_result_def)
  have same: "normalize_bigint (na_amount r) m opts = Inr (r\<lparr>na_was_rounded := False, na_original := int_string (na_amount r)\<rparr>)"
    if "na_amount r \<noteq> 0" using that facts by (cases r) (simp add: normalize_bigint_iff)
  show ?thesis using facts again zero same by auto
qed

section \<open>Zero\<close>

text \<open>
  Zero is refused as a text and as a \<open>bigint\<close>, but a positive amount below the smallest unit is rounded to zero and given
  as a success: what is normalized then is an amount that is refused.
\<close>

definition plain_options :: normalize_options where
  "plain_options = \<lparr>nm_bounds = None, nm_rounding = None\<rparr>"

definition tenths :: asset_metadata where
  "tenths = (hd builtin_assets)\<lparr>decimals := Whole 1\<rparr>"

theorem dust_is_zero:
  "map_sum id na_amount (normalize_canonical_amount (TextAmount ''0.04'') (AssetData tenths) plain_options registry) = Inr 0"
  "\<exists>e. normalize_canonical_amount (BigIntAmount 0) (AssetData tenths) plain_options registry = Inl e"
proof -
  have "parse_payroll_amount ''0.04'' tenths \<lparr>opt_bounds = None, opt_rounding = None, opt_metadata = None\<rparr> =
      Inr \<lparr>pa_amount = 0, pa_decimals = 1, pa_was_rounded = True\<rparr>" by code_simp
  then show "map_sum id na_amount (normalize_canonical_amount (TextAmount ''0.04'') (AssetData tenths) plain_options registry) = Inr 0"
    by (simp add: normalize_canonical_amount_def resolve_metadata_def bind_result_def coerce_to_string_def normalize_text_def
        plain_options_def)
  show "\<exists>e. normalize_canonical_amount (BigIntAmount 0) (AssetData tenths) plain_options registry = Inl e"
    by (simp add: normalize_canonical_amount_def resolve_metadata_def normalize_bigint_def throw_if_def bind_result_def)
qed

theorem normalized_amount_is_canonical_witness:
  "normalize_canonical_amount (BigIntAmount 25) (AssetData (hd builtin_assets)) plain_options registry =
   Inr \<lparr>na_amount = 25, na_decimals = decimals (hd builtin_assets), na_asset_symbol = symbol (hd builtin_assets),
        na_asset_id = asset_id (hd builtin_assets), na_was_rounded = False, na_original = int_string 25\<rparr>"
proof -
  let ?r = "\<lparr>na_amount = 25, na_decimals = decimals (hd builtin_assets), na_asset_symbol = symbol (hd builtin_assets),
        na_asset_id = asset_id (hd builtin_assets), na_was_rounded = False, na_original = int_string 25\<rparr>"
  have "normalize_canonical_amount (BigIntAmount 25) (AssetData (hd builtin_assets)) plain_options registry = Inr ?r"
    by (simp add: normalize_canonical_amount_def resolve_metadata_def bind_result_def normalize_bigint_iff within_bounds_def plain_options_def)
  from normalized_amount_is_canonical [OF this] show ?thesis by simp
qed

section \<open>Errors\<close>

text \<open>The variant that does not throw still throws if the asset is not registered, and only then for assets with decimals.\<close>

theorem try_throws_iff_unregistered:
  assumes "\<And>m. resolve_metadata a registry = Inr m \<Longrightarrow> \<exists>n. decimals m = Whole n \<and> 0 \<le> n"
  shows "(\<exists>e. try_normalize_canonical_amount input a opts registry = Inl e) \<longleftrightarrow>
    (\<exists>i. a = AssetId i \<and> registry_get registry i = None)"
proof (cases "resolve_metadata a registry")
  case (Inl e)
  then show ?thesis
    by (cases a) (auto simp: try_normalize_canonical_amount_def normalize_canonical_amount_def bind_result_def resolve_metadata_def
        registry_get_or_throw_def split: option.splits)
next
  case (Inr m)
  then have found: "\<not> (\<exists>i. a = AssetId i \<and> registry_get registry i = None)"
    by (cases a) (auto simp: resolve_metadata_def registry_get_or_throw_def split: option.splits)
  have d: "\<exists>n. decimals m = Whole n \<and> 0 \<le> n" by (rule assms [OF Inr])
  have parse: "parse_payroll_amount t m o' \<noteq> Inl ScaleRangeError" for t o'
    using d by (auto simp: parse_payroll_amount_def scale_and_check_def Let_def bind_result_def throw_if_def check_bounds_def
        split: if_splits option.splits prod.splits)
  have bounds: "apply_bounds x b \<noteq> Inl (AmountError ScaleRangeError)" "apply_bounds x b \<noteq> Inl (AssetNotFound f)" for x b f
    by (auto simp: apply_bounds_def check_amount_bounds_def split: option.splits list.splits)
  have bigint: "normalize_bigint x m opts \<noteq> Inl (AmountError ScaleRangeError)" "normalize_bigint x m opts \<noteq> Inl (AssetNotFound f)" for x f
    using bounds by (auto simp: normalize_bigint_def bind_result_def throw_if_def split: sum.splits if_splits)
  have texts: "normalize_text t m opts \<noteq> Inl (AmountError ScaleRangeError)" "normalize_text t m opts \<noteq> Inl (AssetNotFound f)" for t f
    using parse by (auto simp: normalize_text_def split: sum.splits)
  have "\<not> (\<exists>e. try_normalize_canonical_amount input a opts registry = Inl e)"
    using bigint texts Inr
    by (auto simp: try_normalize_canonical_amount_def normalize_canonical_amount_def bind_result_def
        split: sum.splits normalize_error.splits amount_error.splits amount_input.splits)
  then show ?thesis using found by blast
qed

end
