(* ===== verification/AuditEvents.thy ===== *)
theory AuditEvents
  imports ImportResults
begin

text \<open>
  Events of contracts, of webhooks and of dashboards in one shape (\<open>audit/eventNormalizer.ts\<close>), their filter and their
  summary. An event is an object of JSON values, of which a \<open>bigint\<close> is a number; the id that is generated and the
  clock are arguments, and the context of a source has values without members.
\<close>

section \<open>Events\<close>

type_synonym payload = "(string \<times> json) list"

record audit_error =
  aer_code :: json
  aer_message :: json

text \<open>The fields taken from a payload are any values, as the code only asserts their types.\<close>

record audit_event =
  aev_id :: string
  aev_timestamp :: int
  aev_category :: json
  aev_action :: json
  aev_summary :: json
  aev_severity :: json
  aev_source :: payload
  aev_actor :: json
  aev_contract_id :: "json option"
  aev_tx_hash :: "json option"
  aev_ledger :: "json option"
  aev_details :: payload
  aev_error :: "audit_error option"
  aev_tags :: "string list option"

record normalize_event_options =
  ne_source :: payload
  ne_event_id :: "string option"
  ne_timestamp :: "int option"
  ne_tags :: "string list option"

definition contract_event_types :: "string list" where
  "contract_event_types =
     [''registered'', ''registry_updated'', ''registry_deactivated'', ''committed'', ''salary_revealed'', ''payment_executed'',
      ''payment_scheduled'', ''payment_cancelled'']"

text \<open>\<open>p.a ?? p.b ?? d\<close>\<close>

fun coalesce :: "payload \<Rightarrow> string list \<Rightarrow> json \<Rightarrow> json" where
  "coalesce p [] d = d"
| "coalesce p (k # ks) d =
     (case property p k of None \<Rightarrow> coalesce p ks d | Some v \<Rightarrow> if v = JsonNull then coalesce p ks d else v)"

definition in_template :: "payload \<Rightarrow> string \<Rightarrow> string" where
  "in_template p k = (case property p k of None \<Rightarrow> ''undefined'' | Some v \<Rightarrow> js_text v)"

section \<open>Events of contracts\<close>

definition contract_event_category :: "string \<Rightarrow> string" where
  "contract_event_category t =
     (if t \<in> {''registered'', ''registry_updated'', ''registry_deactivated''} then ''registry''
      else if t \<in> {''committed'', ''salary_revealed''} then ''payroll''
      else if t = ''payment_executed'' \<or> t \<in> {''payment_scheduled'', ''payment_cancelled''} then ''payment''
      else ''payroll'')"

definition contract_event_severity :: "string \<Rightarrow> string" where
  "contract_event_severity t = (if t \<in> {''registry_deactivated'', ''payment_cancelled''} then ''warning'' else ''info'')"

definition contract_event_actor :: "string \<Rightarrow> payload \<Rightarrow> json" where
  "contract_event_actor t p =
     (if t \<in> {''registered'', ''registry_updated'', ''registry_deactivated'', ''committed'', ''salary_revealed''}
      then coalesce p [''employer''] (JsonText [])
      else if t \<in> {''payment_executed'', ''payment_scheduled''} then coalesce p [''recipient''] (JsonText [])
      else JsonText [])"

definition contract_event_summary :: "string \<Rightarrow> payload \<Rightarrow> string" where
  "contract_event_summary t p =
     (if t = ''registered'' then ''Employee '' @ in_template p ''employee'' @ '' registered by '' @ in_template p ''employer''
      else if t = ''registry_updated'' then ''Salary updated for employee '' @ in_template p ''employee''
      else if t = ''registry_deactivated'' then ''Registry deactivated for employee '' @ in_template p ''employee''
      else if t = ''committed'' then ''Salary commitment made for cycle '' @ in_template p ''cycleId''
      else if t = ''salary_revealed'' then ''Salary revealed for cycle '' @ in_template p ''cycleId''
      else if t = ''payment_executed''
        then ''Payment of '' @ in_template p ''amount'' @ '' '' @ in_template p ''asset'' @ '' to '' @ in_template p ''recipient''
      else if t = ''payment_scheduled'' then ''Payment scheduled for '' @ in_template p ''recipient''
      else if t = ''payment_cancelled'' then ''Scheduled payment '' @ in_template p ''paymentId'' @ '' cancelled''
      else ''Contract event: '' @ in_template p ''type'')"

definition contract_event_details :: "payload \<Rightarrow> payload" where
  "contract_event_details p = AList.delete ''type'' p"

section \<open>Events of webhooks\<close>

definition webhook_category :: "string \<Rightarrow> string" where
  "webhook_category t =
     (if t \<in> {''payroll.completed'', ''payroll.failed''} then ''payroll''
      else if t \<in> {''transaction.pending'', ''transaction.confirmed'', ''transaction.failed''} then ''transaction''
      else if t \<in> {''audit.view_key_granted'', ''audit.view_key_revoked'', ''audit.view_key_expired''} then ''audit_key''
      else ''compliance'')"

definition webhook_severity :: "string \<Rightarrow> string" where
  "webhook_severity t =
     (if t \<in> {''payroll.failed'', ''transaction.failed''} then ''error''
      else if t \<in> {''audit.view_key_revoked'', ''audit.view_key_expired''} then ''warning''
      else if t = ''transaction.pending'' then ''warning''
      else ''info'')"

definition webhook_details :: "payload \<Rightarrow> payload" where
  "webhook_details p = AList.delete ''eventId'' (AList.delete ''timestamp'' (AList.delete ''event'' p))"

section \<open>The normalizer\<close>

definition contract_type :: "payload \<Rightarrow> string option" where
  "contract_type p =
     (case property p ''type'' of Some (JsonText t) \<Rightarrow> if t \<in> set contract_event_types then Some t else None | _ \<Rightarrow> None)"

definition webhook_type :: "payload \<Rightarrow> string option" where
  "webhook_type p =
     (case property p ''event'' of
        Some (JsonText t) \<Rightarrow>
          if is_prefix ''payroll'' t \<or> is_prefix ''transaction'' t \<or> is_prefix ''audit'' t then Some t else None
      | _ \<Rightarrow> None)"

definition tags_after :: "string \<Rightarrow> normalize_event_options \<Rightarrow> string list option" where
  "tags_after t opts = Some (t # (case ne_tags opts of None \<Rightarrow> [] | Some ts \<Rightarrow> ts))"

definition contract_audit_event :: "string \<Rightarrow> int \<Rightarrow> normalize_event_options \<Rightarrow> string \<Rightarrow> payload \<Rightarrow> audit_event" where
  "contract_audit_event i now opts t p =
     \<lparr>aev_id = i, aev_timestamp = now, aev_category = JsonText (contract_event_category t), aev_action = JsonText t,
      aev_summary = JsonText (contract_event_summary t p), aev_severity = JsonText (contract_event_severity t),
      aev_source = ne_source opts, aev_actor = contract_event_actor t p, aev_contract_id = property p ''contractId'',
      aev_tx_hash = None, aev_ledger = property p ''ledger'', aev_details = contract_event_details p, aev_error = None,
      aev_tags = tags_after ''contract'' opts\<rparr>"

definition webhook_audit_event :: "string \<Rightarrow> int \<Rightarrow> normalize_event_options \<Rightarrow> string \<Rightarrow> payload \<Rightarrow> audit_event" where
  "webhook_audit_event i now opts t p =
     \<lparr>aev_id = i, aev_timestamp = now, aev_category = JsonText (webhook_category t), aev_action = JsonText t,
      aev_summary = coalesce p [''summary''] (JsonText (''Webhook event: '' @ t)), aev_severity = JsonText (webhook_severity t),
      aev_source = ne_source opts,
      aev_actor = coalesce p [''actor'', ''employer'', ''grantedBy'', ''revokedBy''] (JsonText ''system''),
      aev_contract_id = true_property p ''contractId'', aev_tx_hash = true_property p ''txHash'', aev_ledger = None,
      aev_details = webhook_details p,
      aev_error = (if occurs_in ''failed'' t
        then Some \<lparr>aer_code = coalesce p [''failureCode''] (JsonText ''UNKNOWN''),
                   aer_message = coalesce p [''reason'', ''error''] (JsonText ''Unknown failure'')\<rparr>
        else None),
      aev_tags = tags_after ''webhook'' opts\<rparr>"

definition generic_audit_event :: "string \<Rightarrow> int \<Rightarrow> normalize_event_options \<Rightarrow> payload \<Rightarrow> audit_event" where
  "generic_audit_event i now opts p =
     \<lparr>aev_id = i, aev_timestamp = now, aev_category = coalesce p [''category''] (JsonText ''dashboard''),
      aev_action = coalesce p [''action''] (JsonText ''unknown''), aev_summary = coalesce p [''summary''] (JsonText ''Audit event''),
      aev_severity = coalesce p [''severity''] (JsonText ''info''), aev_source = ne_source opts,
      aev_actor = coalesce p [''actor''] (JsonText ''system''), aev_contract_id = true_property p ''contractId'',
      aev_tx_hash = true_property p ''txHash'', aev_ledger = None, aev_details = p, aev_error = None,
      aev_tags = tags_after ''generic'' opts\<rparr>"

definition normalize_audit_event :: "string \<Rightarrow> int \<Rightarrow> normalize_event_options \<Rightarrow> payload \<Rightarrow> audit_event" where
  "normalize_audit_event generated clock opts p =
     (let i = (case ne_event_id opts of None \<Rightarrow> generated | Some e \<Rightarrow> e);
          now = (case ne_timestamp opts of None \<Rightarrow> clock | Some t \<Rightarrow> t)
      in case contract_type p of
           Some t \<Rightarrow> contract_audit_event i now opts t p
         | None \<Rightarrow>
             (case webhook_type p of
                Some t \<Rightarrow> webhook_audit_event i now opts t p
              | None \<Rightarrow> generic_audit_event i now opts p))"

text \<open>Each event has an id that is generated and a time that is read for it.\<close>

definition normalize_audit_events :: "normalize_event_options \<Rightarrow> (string \<times> int \<times> payload) list \<Rightarrow> audit_event list" where
  "normalize_audit_events opts es = map (\<lambda>(generated, clock, p). normalize_audit_event generated clock opts p) es"

section \<open>Filter and summary\<close>

record audit_filter =
  af_category :: "string option"
  af_severity :: "string option"
  af_action :: "string option"
  af_source_part :: "payload option"
  af_actor :: "string option"
  af_contract_id :: "string option"
  af_tags :: "string list option"

text \<open>A criterion that is missing or empty is none.\<close>

definition criterion_met :: "string option \<Rightarrow> json option \<Rightarrow> bool" where
  "criterion_met c v = (case c of None \<Rightarrow> True | Some s \<Rightarrow> s = [] \<or> v = Some (JsonText s))"

definition event_matches :: "audit_filter \<Rightarrow> audit_event \<Rightarrow> bool" where
  "event_matches f e \<longleftrightarrow>
     criterion_met (af_category f) (Some (aev_category e)) \<and> criterion_met (af_severity f) (Some (aev_severity e)) \<and>
     criterion_met (af_action f) (Some (aev_action e)) \<and> criterion_met (af_actor f) (Some (aev_actor e)) \<and>
     criterion_met (af_contract_id f) (aev_contract_id e) \<and>
     (case af_source_part f of None \<Rightarrow> True | Some part \<Rightarrow> list_all (\<lambda>(k, v). property (aev_source e) k = Some v) part) \<and>
     (case af_tags f of None \<Rightarrow> True
      | Some ts \<Rightarrow> list_all (\<lambda>t. t \<in> set (case aev_tags e of None \<Rightarrow> [] | Some own \<Rightarrow> own)) ts)"

definition filter_audit_events :: "audit_event list \<Rightarrow> audit_filter \<Rightarrow> audit_event list" where
  "filter_audit_events es f = filter (event_matches f) es"

definition count_key :: "(audit_event \<Rightarrow> json) \<Rightarrow> audit_event \<Rightarrow> (string \<times> nat) list \<Rightarrow> (string \<times> nat) list" where
  "count_key key e m =
     (let k = js_text (key e) in AList.update k ((case map_of m k of None \<Rightarrow> 0 | Some n \<Rightarrow> n) + 1) m)"

definition earliest :: "audit_event list \<Rightarrow> int option" where
  "earliest es = fold (\<lambda>e t. case t of None \<Rightarrow> Some (aev_timestamp e)
     | Some x \<Rightarrow> if aev_timestamp e < x then Some (aev_timestamp e) else t) es None"

definition latest :: "audit_event list \<Rightarrow> int option" where
  "latest es = fold (\<lambda>e t. case t of None \<Rightarrow> Some (aev_timestamp e)
     | Some x \<Rightarrow> if x < aev_timestamp e then Some (aev_timestamp e) else t) es None"

record audit_summary =
  as_total :: nat
  as_by_category :: "(string \<times> nat) list"
  as_by_severity :: "(string \<times> nat) list"
  as_unique_actors :: nat
  as_earliest :: int
  as_latest :: int

text \<open>The bounds start at no time, the infinities of the code, and are 0 if there is none in the end.\<close>

definition build_audit_summary :: "audit_event list \<Rightarrow> audit_summary" where
  "build_audit_summary es =
     \<lparr>as_total = length es, as_by_category = fold (count_key aev_category) es [],
      as_by_severity = fold (count_key aev_severity) es [],
      as_unique_actors = length (remdups (map aev_actor es)),
      as_earliest = (case earliest es of None \<Rightarrow> 0 | Some t \<Rightarrow> t), as_latest = (case latest es of None \<Rightarrow> 0 | Some t \<Rightarrow> t)\<rparr>"

section \<open>What the summary says\<close>

definition count_of :: "(audit_event \<Rightarrow> json) \<Rightarrow> string \<Rightarrow> audit_event list \<Rightarrow> nat" where
  "count_of key k es = length (filter (\<lambda>e. js_text (key e) = k) es)"

lemma counts:
  "distinct (map fst (fold (count_key key) es [])) \<and>
   map_of (fold (count_key key) es []) = (\<lambda>k. if count_of key k es = 0 then None else Some (count_of key k es))"
proof (induction es rule: rev_induct)
  case Nil
  then show ?case by (simp add: count_of_def fun_eq_iff)
next
  case (snoc e es)
  then show ?case
    by (auto simp: count_key_def Let_def distinct_update update_conv' fun_eq_iff count_of_def)
qed

lemma sum_after_update:
  "distinct (map fst m) \<Longrightarrow> (case map_of m k of None \<Rightarrow> 0 | Some n \<Rightarrow> n) = n \<Longrightarrow>
     sum_list (map snd (AList.update k (n + 1) m)) = sum_list (map snd m) + (1 :: nat)"
  by (induction m) (auto split: if_splits)

lemma sum_of_counts: "sum_list (map snd (fold (count_key key) es [])) = length es"
proof (induction es rule: rev_induct)
  case (snoc e es)
  let ?m = "fold (count_key key) es []" and ?k = "js_text (key e)"
  have "distinct (map fst ?m)" using counts [of key es] by blast
  from sum_after_update [OF this refl, of ?k] snoc
  have "sum_list (map snd (count_key key e ?m)) = length es + 1" by (simp only: count_key_def Let_def)
  then show ?case by simp
qed simp

lemma earliest_bound:
  "es \<noteq> [] \<Longrightarrow> \<exists>t. earliest es = Some t \<and> t \<in> aev_timestamp ` set es \<and> (\<forall>e \<in> set es. t \<le> aev_timestamp e)"
proof (induction es rule: rev_induct)
  case (snoc e es)
  then show ?case by (cases "es = []") (force simp: earliest_def split: if_splits)+
qed simp

lemma latest_bound:
  "es \<noteq> [] \<Longrightarrow> \<exists>t. latest es = Some t \<and> t \<in> aev_timestamp ` set es \<and> (\<forall>e \<in> set es. aev_timestamp e \<le> t)"
proof (induction es rule: rev_induct)
  case (snoc e es)
  then show ?case by (cases "es = []") (force simp: latest_def split: if_splits)+
qed simp

text \<open>
  The counts of the categories, and those of the severities, add up to the number of events, and the count of one is
  that of its events; the time range is that of the first and the last of the events.
\<close>

theorem summary_counts_every_event:
  "sum_list (map snd (as_by_category (build_audit_summary es))) = as_total (build_audit_summary es)"
  "sum_list (map snd (as_by_severity (build_audit_summary es))) = as_total (build_audit_summary es)"
  "map_of (as_by_category (build_audit_summary es)) k = Some n \<longleftrightarrow> n = count_of aev_category k es \<and> n \<noteq> 0"
  "e \<in> set es \<Longrightarrow> as_earliest (build_audit_summary es) \<le> aev_timestamp e \<and> aev_timestamp e \<le> as_latest (build_audit_summary es)"
proof -
  show "sum_list (map snd (as_by_category (build_audit_summary es))) = as_total (build_audit_summary es)"
    by (simp add: build_audit_summary_def sum_of_counts)
  show "sum_list (map snd (as_by_severity (build_audit_summary es))) = as_total (build_audit_summary es)"
    by (simp add: build_audit_summary_def sum_of_counts)
  show "map_of (as_by_category (build_audit_summary es)) k = Some n \<longleftrightarrow> n = count_of aev_category k es \<and> n \<noteq> 0"
    using counts [of aev_category es] by (auto simp: build_audit_summary_def)
  show "as_earliest (build_audit_summary es) \<le> aev_timestamp e \<and> aev_timestamp e \<le> as_latest (build_audit_summary es)"
    if "e \<in> set es"
  proof -
    have "es \<noteq> []" using that by auto
    then show ?thesis using that earliest_bound [of es] latest_bound [of es] by (auto simp: build_audit_summary_def)
  qed
qed

section \<open>Failures\<close>

definition webhook_event_types :: "string list" where
  "webhook_event_types =
     [''payroll.completed'', ''payroll.failed'', ''transaction.pending'', ''transaction.confirmed'', ''transaction.failed'',
      ''audit.view_key_granted'', ''audit.view_key_revoked'', ''audit.view_key_expired'', ''funding.reserved'', ''funding.finalized'',
      ''hold.active'', ''hold.released'', ''hold.expired'', ''dispute.opened'', ''dispute.resolved'']"

text \<open>
  Seven of the fifteen events of webhooks are not told to be events of webhooks: a dispute becomes an unknown action on a
  dashboard.
\<close>

theorem unrecognized_webhooks:
  "filter (\<lambda>t. webhook_type [(''event'', JsonText t)] = None) webhook_event_types =
     [''funding.reserved'', ''funding.finalized'', ''hold.active'', ''hold.released'', ''hold.expired'', ''dispute.opened'',
      ''dispute.resolved'']"
  "contract_type p = None \<Longrightarrow> webhook_type p = None \<Longrightarrow> property p ''category'' = None \<Longrightarrow> property p ''action'' = None \<Longrightarrow>
     aev_category (normalize_audit_event i now opts p) = JsonText ''dashboard'' \<and>
     aev_action (normalize_audit_event i now opts p) = JsonText ''unknown''"
proof -
  show "filter (\<lambda>t. webhook_type [(''event'', JsonText t)] = None) webhook_event_types =
     [''funding.reserved'', ''funding.finalized'', ''hold.active'', ''hold.released'', ''hold.expired'', ''dispute.opened'',
      ''dispute.resolved'']"
    by (simp add: webhook_type_def property_def webhook_event_types_def)
qed (simp add: normalize_audit_event_def Let_def generic_audit_event_def)

text \<open>Of the known events of webhooks exactly those of severity \<open>error\<close> carry an error.\<close>

theorem known_failures_carry_errors:
  "list_all (\<lambda>t. (webhook_severity t = ''error'') = occurs_in ''failed'' t) webhook_event_types"
  by code_simp

text \<open>The events of one call get the same id if one is given, although ids are to be unique.\<close>

theorem given_id_is_shared:
  "e \<in> set (normalize_audit_events (opts\<lparr>ne_event_id := Some i\<rparr>) es) \<Longrightarrow> aev_id e = i"
  by (auto simp: normalize_audit_events_def normalize_audit_event_def Let_def contract_audit_event_def webhook_audit_event_def
      generic_audit_event_def split: option.splits)

text \<open>The time and the id of a webhook's own event are dropped: they are neither those of the result nor in its details.\<close>

theorem webhook_time_is_lost:
  assumes "contract_type p = None" "webhook_type p = Some t"
  shows "aev_timestamp (normalize_audit_event generated clock opts p) = (case ne_timestamp opts of None \<Rightarrow> clock | Some t \<Rightarrow> t)"
    "map_of (aev_details (normalize_audit_event generated clock opts p)) ''timestamp'' = None"
    "map_of (aev_details (normalize_audit_event generated clock opts p)) ''eventId'' = None"
  using assms by (simp_all add: normalize_audit_event_def Let_def webhook_audit_event_def webhook_details_def delete_conv')

end
