(* ===== verification/TransactionFailures.thy ===== *)
theory TransactionFailures
  imports OperationResults
begin

text \<open>
  Failed transactions: their classes (\<open>classification/TransactionFailureClassifier.ts\<close>, \<open>classifyContractErrorCode\<close> and
  \<open>classifyTimeoutFailure\<close> of \<open>core/errors.ts\<close>) and the errors of reservations (\<open>errors/contractErrors.ts\<close>), compared with
  the classes the retry loop goes by. Messages are left out; a hint is told by what it is for.
\<close>

section \<open>Words in order\<close>

text \<open>\<open>/w1.*w2.*w3/\<close>: words one after another on a line; the words are not empty.\<close>

function words_later :: "string list \<Rightarrow> string \<Rightarrow> bool" where
  "words_later [] s = True"
| "words_later (w # ws) [] = False"
| "words_later (w # ws) (c # cs) =
     ((is_prefix w (c # cs) \<and> words_later ws (drop (length w) (c # cs))) \<or> (\<not> line_end c \<and> words_later (w # ws) cs))"
  by pat_completeness auto

termination
  by (relation "measure (\<lambda>(ws, s). length ws + length s)") auto

fun words_in_order :: "string list \<Rightarrow> string \<Rightarrow> bool" where
  "words_in_order ws [] = (ws = [])"
| "words_in_order ws (c # cs) =
     ((case ws of [] \<Rightarrow> True | w # later \<Rightarrow> is_prefix w (c # cs) \<and> words_later later (drop (length w) (c # cs))) \<or>
      words_in_order ws cs)"

section \<open>States and classes\<close>

datatype failure_state = StateRetryable | StateExpired | StateUnknown | StateTerminal

datatype failure_category = FailureRetryable | FailureTerminal | FailureExpired | FailureUnknown

text \<open>What a hint is written for; some codes have one of their own.\<close>

datatype recovery_hint =
  StatusHint string | HttpHint "int option" | CodeHint contract_error_code | CategoryHint failure_category | NoCauseHint

text \<open>A hint that is \<open>undefined\<close> is none.\<close>

record failure_classification =
  fc_category :: failure_category
  fc_code :: string
  fc_can_retry :: bool
  fc_hint :: "recovery_hint option"

fun classify_contract_error_code :: "contract_error_code \<Rightarrow> failure_state" where
  "classify_contract_error_code TRANSACTION_TIMEOUT = StateExpired"
| "classify_contract_error_code SIMULATION_FAILED = StateTerminal"
| "classify_contract_error_code CONTRACT_REVERT = StateTerminal"
| "classify_contract_error_code INSUFFICIENT_FEE = StateRetryable"
| "classify_contract_error_code TRANSACTION_SUBMISSION_FAILED = StateRetryable"
| "classify_contract_error_code RPC_TIMEOUT = StateRetryable"
| "classify_contract_error_code INVALID_RESPONSE = StateRetryable"
| "classify_contract_error_code UNKNOWN_RPC_ERROR = StateUnknown"

definition classify_timeout_message :: "string \<Rightarrow> failure_state" where
  "classify_timeout_message msg =
     (let m = js_lower msg in
      if mentions [''econnrefused'', ''econnreset'', ''enetunreach'', ''etimedout'', ''eai_again''] m \<or>
        words_in_order [''network'', ''error''] m \<or> words_in_order [''fetch'', ''failed''] m \<or>
        words_in_order [''request'', ''failed''] m \<or> mentions [''socket''] m
      then StateRetryable
      else if words_in_order [''txn'', ''timeout''] m \<or> words_in_order [''tx'', ''expired''] m \<or>
        words_in_order [''ledger'', ''seq''] m \<or> words_in_order [''too'', ''old''] m \<or> mentions [''stale''] m
      then StateExpired
      else if mentions [''revert'', ''trap'', ''wasm''] m \<or> words_in_order [''simulation'', ''fail''] m \<or> mentions [''unauthorized''] m
      then StateTerminal
      else StateUnknown)"

fun normalize_state :: "failure_state \<Rightarrow> failure_category" where
  "normalize_state StateRetryable = FailureRetryable"
| "normalize_state StateTerminal = FailureTerminal"
| "normalize_state StateExpired = FailureExpired"
| "normalize_state StateUnknown = FailureUnknown"

text \<open>
  The hint of an error without a hint of its own is looked up by its state, whose name is in capitals, while the names of
  the classes are not: nothing is found.
\<close>

definition recovery_hint_for_code :: "contract_error_code \<Rightarrow> failure_state \<Rightarrow> recovery_hint option" where
  "recovery_hint_for_code code state = (if code = UNKNOWN_RPC_ERROR then None else Some (CodeHint code))"

definition classify_send_response :: "string \<Rightarrow> failure_classification" where
  "classify_send_response status =
     (if status = ''TRY_AGAIN_LATER'' then \<lparr>fc_category = FailureRetryable, fc_code = ''SUBMISSION_QUEUE_FULL'', fc_can_retry = True,
        fc_hint = Some (StatusHint status)\<rparr>
      else if status = ''ERROR'' then \<lparr>fc_category = FailureTerminal, fc_code = ''TRANSACTION_ERROR'', fc_can_retry = False,
        fc_hint = Some (StatusHint status)\<rparr>
      else if status = ''DUPLICATE'' then \<lparr>fc_category = FailureTerminal, fc_code = ''DUPLICATE_TRANSACTION'', fc_can_retry = False,
        fc_hint = Some (StatusHint status)\<rparr>
      else \<lparr>fc_category = FailureUnknown, fc_code = ''UNKNOWN_SEND_STATUS'', fc_can_retry = False, fc_hint = Some NoCauseHint\<rparr>)"

definition classify_get_response :: "string \<Rightarrow> bool \<Rightarrow> failure_classification" where
  "classify_get_response status expired =
     (if status = ''FAILED'' then \<lparr>fc_category = FailureTerminal, fc_code = ''CONTRACT_REVERT'', fc_can_retry = False,
        fc_hint = Some (StatusHint status)\<rparr>
      else if status = ''NOT_FOUND'' then
        (if expired then \<lparr>fc_category = FailureExpired, fc_code = ''TRANSACTION_NOT_FOUND'', fc_can_retry = False,
           fc_hint = Some (CategoryHint FailureExpired)\<rparr>
         else \<lparr>fc_category = FailureRetryable, fc_code = ''TRANSACTION_NOT_FOUND'', fc_can_retry = True,
           fc_hint = Some (StatusHint status)\<rparr>)
      else \<lparr>fc_category = FailureUnknown, fc_code = ''UNKNOWN_GET_STATUS'', fc_can_retry = False, fc_hint = Some NoCauseHint\<rparr>)"

definition contract_failure :: "contract_error_code \<Rightarrow> failure_classification" where
  "contract_failure code =
     (let state = classify_contract_error_code code
      in \<lparr>fc_category = normalize_state state, fc_code = contract_code_name code, fc_can_retry = (state = StateRetryable),
          fc_hint = recovery_hint_for_code code state\<rparr>)"

definition network_failure :: "string \<Rightarrow> int option \<Rightarrow> failure_classification" where
  "network_failure code status =
     (let retryable = (case status of None \<Rightarrow> True | Some n \<Rightarrow> 500 \<le> n \<or> n = 429)
      in \<lparr>fc_category = (if retryable then FailureRetryable else FailureTerminal), fc_code = code, fc_can_retry = retryable,
          fc_hint = Some (HttpHint status)\<rparr>)"

definition generic_failure :: "string \<Rightarrow> failure_classification" where
  "generic_failure msg =
     (let state = classify_timeout_message msg
      in \<lparr>fc_category = normalize_state state, fc_code = ''UNKNOWN_ERROR'', fc_can_retry = (state = StateRetryable),
          fc_hint = Some (CategoryHint (normalize_state state))\<rparr>)"

definition classify_transaction_failure :: "thrown_value \<Rightarrow> failure_classification" where
  "classify_transaction_failure e =
     (case th_class e of
        ContractErr code \<Rightarrow> contract_failure code
      | NetworkErr status \<Rightarrow> network_failure (case th_sdk_code e of None \<Rightarrow> ''NETWORK_ERROR'' | Some c \<Rightarrow> c) status
      | NonError \<Rightarrow> \<lparr>fc_category = FailureUnknown, fc_code = ''UNKNOWN_ERROR'', fc_can_retry = False, fc_hint = Some NoCauseHint\<rparr>
      | _ \<Rightarrow> generic_failure (th_message e))"

section \<open>Retrying what is retryable\<close>

lemma state_retryable [simp]: "normalize_state s = FailureRetryable \<longleftrightarrow> s = StateRetryable"
  by (cases s) auto

text \<open>
  However a failure came to be known, by the answer to a submission, by polling or by an exception, it may be retried
  exactly if its class is that of the retryable ones; for HTTP errors that is as the retry loop decides.
\<close>

theorem retry_iff_retryable:
  "fc_can_retry (classify_transaction_failure e) = (fc_category (classify_transaction_failure e) = FailureRetryable)"
  "fc_can_retry (classify_send_response status) = (fc_category (classify_send_response status) = FailureRetryable)"
  "fc_can_retry (classify_get_response status expired) = (fc_category (classify_get_response status expired) = FailureRetryable)"
  "fc_can_retry (network_failure code http) = rd_retryable (classify_error (NetworkErr http))"
proof -
  show "fc_can_retry (classify_transaction_failure e) = (fc_category (classify_transaction_failure e) = FailureRetryable)"
    by (cases "th_class e") (simp_all add: classify_transaction_failure_def contract_failure_def network_failure_def
        generic_failure_def Let_def)
  show "fc_can_retry (network_failure code http) = rd_retryable (classify_error (NetworkErr http))"
    by (auto simp: network_failure_def Let_def classify_error_def classify_network_error_def decision_def split: option.split)
qed (auto simp: classify_send_response_def classify_get_response_def)

definition contract_codes :: "contract_error_code list" where
  "contract_codes = [SIMULATION_FAILED, TRANSACTION_SUBMISSION_FAILED, TRANSACTION_TIMEOUT, RPC_TIMEOUT, INSUFFICIENT_FEE,
     CONTRACT_REVERT, INVALID_RESPONSE, UNKNOWN_RPC_ERROR]"

text \<open>
  Of the eight codes of contract errors five are retried by the retry loop and not to be retried by the classifier, or the
  other way round: the loop sends again a transaction that has expired and may still be in flight.
\<close>

theorem classifiers_disagree:
  "filter (\<lambda>c. rd_retryable (classify_error (ContractErr c)) \<noteq> fc_can_retry (contract_failure c)) contract_codes =
     [SIMULATION_FAILED, TRANSACTION_TIMEOUT, RPC_TIMEOUT, INSUFFICIENT_FEE, INVALID_RESPONSE]"
  "rd_retryable (classify_error (ContractErr TRANSACTION_TIMEOUT))" "fc_category (contract_failure TRANSACTION_TIMEOUT) = FailureExpired"
  by (simp_all add: contract_codes_def classify_error_def classify_contract_error_def decision_def contract_failure_def Let_def)

text \<open>An error of a contract has no hint exactly if it is not known.\<close>

theorem no_hint_for_unknown: "fc_hint (contract_failure c) = None \<longleftrightarrow> c = UNKNOWN_RPC_ERROR"
  by (simp add: contract_failure_def Let_def recovery_hint_for_code_def)

section \<open>Errors of reservations\<close>

datatype reservation_error_code = ReservationNotFound | ReservationHasExpired | ReservationWasReleased | ReservationAlreadyFinalized

definition is_reservation_not_found :: "string \<Rightarrow> bool" where
  "is_reservation_not_found msg =
     (let m = js_lower msg in words_in_order [''reservation'', ''not'', ''found''] m \<or> occurs_in ''reservation_not_found'' m \<or>
        words_in_order [''reservation'', ''not'', ''exist''] m)"

definition is_reservation_expired :: "string \<Rightarrow> bool" where
  "is_reservation_expired msg =
     (let m = js_lower msg in words_in_order [''reservation'', ''expired''] m \<or> occurs_in ''reservation_expired'' m)"

definition is_reservation_released :: "string \<Rightarrow> bool" where
  "is_reservation_released msg =
     (let m = js_lower msg in words_in_order [''reservation'', ''released''] m \<or> occurs_in ''reservation_released'' m)"

definition is_reservation_finalized :: "string \<Rightarrow> bool" where
  "is_reservation_finalized msg =
     (let m = js_lower msg in words_in_order [''reservation'', ''already'', ''finalized''] m \<or> occurs_in ''reservation_already_finalized'' m)"

text \<open>Which message is given; with none, a general one\<close>

definition reservation_error_message :: "string \<Rightarrow> reservation_error_code option" where
  "reservation_error_message msg =
     (if is_reservation_not_found msg then Some ReservationNotFound
      else if is_reservation_expired msg then Some ReservationHasExpired
      else if is_reservation_released msg then Some ReservationWasReleased
      else if is_reservation_finalized msg then Some ReservationAlreadyFinalized
      else None)"

text \<open>The code of the error and its message; with no message of its own, that of the error\<close>

definition map_reservation_error :: "string \<Rightarrow> contract_error_code \<times> reservation_error_code option" where
  "map_reservation_error msg =
     (let friendly = reservation_error_message msg in
      if is_reservation_not_found msg then (CONTRACT_REVERT, friendly)
      else if is_reservation_expired msg then (CONTRACT_REVERT, friendly)
      else if is_reservation_released msg then (CONTRACT_REVERT, friendly)
      else if is_reservation_finalized msg then (CONTRACT_REVERT, friendly)
      else (UNKNOWN_RPC_ERROR, None))"

text \<open>The message and the code agree: the error is a revert, never to be retried, exactly if there is a message for it.\<close>

theorem reservation_errors_are_terminal:
  "map_reservation_error msg =
     (if reservation_error_message msg = None then UNKNOWN_RPC_ERROR else CONTRACT_REVERT, reservation_error_message msg)"
  "\<not> fc_can_retry (contract_failure (fst (map_reservation_error msg)))"
  by (auto simp: map_reservation_error_def reservation_error_message_def Let_def contract_failure_def)

text \<open>All four errors of a reservation become the one code of a revert, although each has a code of its own.\<close>

theorem reservation_codes_are_lost:
  "reservation_error_message m = Some c \<Longrightarrow> reservation_error_message m' = Some c' \<Longrightarrow>
     fst (map_reservation_error m) = fst (map_reservation_error m')"
  by (auto simp: map_reservation_error_def reservation_error_message_def Let_def split: if_splits)

text \<open>The words are looked for in any distance: another failure may be read as a reservation that was not found.\<close>

lemma misread_reservation:
  "reservation_error_message ''Reservation is fine but could not pay: no account found'' = Some ReservationNotFound"
  by code_simp

end
