(* ===== verification/FeeCeiling.thy ===== *)
theory FeeCeiling
  imports AmountParsing
begin

text \<open>
  The limit of a transaction's fee (\<open>fee-estimation/feeCeiling.ts\<close>). What is given may be anything; messages are left out.
\<close>

section \<open>Inputs and results\<close>

datatype fee_input = FeeMissing | FeeBigInt int | FeeNumber jsnum | FeeText string | FeeOther

datatype fee_ceiling_code =
  FEE_REQUIRED | FEE_INVALID | FEE_NEGATIVE | CEILING_REQUIRED | CEILING_INVALID | WARN_BAND_INVALID | FEE_EXCEEDS_CEILING

record fee_within =
  fw_approaching :: bool
  fw_fee :: int
  fw_ceiling :: int
  fw_headroom :: int
  fw_utilization_bps :: int

text \<open>A failure is of the state \<open>exceeds_ceiling\<close> exactly if its code says so.\<close>

datatype fee_validation = FeeAccepted fee_within | FeeRefused fee_ceiling_code

datatype stroop_parse = StroopsOk int | StroopsMissing | StroopsInvalid

definition default_warn_bps :: int where
  "default_warn_bps = 8000"

definition bps_denominator :: int where
  "bps_denominator = 10000"

text \<open>\<open>/^[+-]?\d+$/\<close> and its value\<close>

definition signed_digits :: "string \<Rightarrow> int option" where
  "signed_digits s =
     (let (negative, ds) =
        (case s of [] \<Rightarrow> (False, [])
         | c # cs \<Rightarrow> if c = CHR ''-'' then (True, cs) else if c = CHR ''+'' then (False, cs) else (False, s))
      in if ds \<noteq> [] \<and> list_all is_digit ds then Some (if negative then - int (dec_value ds) else int (dec_value ds)) else None)"

definition parse_stroops :: "fee_input \<Rightarrow> stroop_parse" where
  "parse_stroops raw =
     (case raw of
        FeeMissing \<Rightarrow> StroopsMissing
      | FeeBigInt n \<Rightarrow> StroopsOk n
      | FeeNumber x \<Rightarrow> (case x of Whole n \<Rightarrow> StroopsOk n | NonInteger \<Rightarrow> StroopsInvalid)
      | FeeText s \<Rightarrow> (case signed_digits (js_trim s) of Some n \<Rightarrow> StroopsOk n | None \<Rightarrow> StroopsInvalid)
      | FeeOther \<Rightarrow> StroopsInvalid)"

text \<open>The warning band is checked first, then the ceiling, then the fee.\<close>

definition validate_fee_ceiling :: "fee_input \<Rightarrow> fee_input \<Rightarrow> jsnum option \<Rightarrow> fee_validation" where
  "validate_fee_ceiling fee ceiling warn =
     (case (case warn of None \<Rightarrow> Whole default_warn_bps | Some w \<Rightarrow> w) of
        NonInteger \<Rightarrow> FeeRefused WARN_BAND_INVALID
      | Whole w \<Rightarrow>
          if w < 0 \<or> bps_denominator < w then FeeRefused WARN_BAND_INVALID
          else (case parse_stroops ceiling of
              StroopsMissing \<Rightarrow> FeeRefused CEILING_REQUIRED
            | StroopsInvalid \<Rightarrow> FeeRefused CEILING_INVALID
            | StroopsOk c \<Rightarrow>
                if c \<le> 0 then FeeRefused CEILING_INVALID
                else (case parse_stroops fee of
                    StroopsMissing \<Rightarrow> FeeRefused FEE_REQUIRED
                  | StroopsInvalid \<Rightarrow> FeeRefused FEE_INVALID
                  | StroopsOk f \<Rightarrow>
                      if f < 0 then FeeRefused FEE_NEGATIVE
                      else if c < f then FeeRefused FEE_EXCEEDS_CEILING
                      else
                        let utilization = f * bps_denominator div c
                        in FeeAccepted \<lparr>fw_approaching = (0 < w \<and> w \<le> utilization), fw_fee = f, fw_ceiling = c,
                             fw_headroom = c - f, fw_utilization_bps = utilization\<rparr>)))"

text \<open>No ceiling is no limit; the error keeps the fee and the ceiling only if they were \<open>bigint\<close>s.\<close>

definition bigint_of :: "fee_input \<Rightarrow> int option" where
  "bigint_of x = (case x of FeeBigInt n \<Rightarrow> Some n | _ \<Rightarrow> None)"

definition assert_fee_within_ceiling ::
  "fee_input \<Rightarrow> fee_input \<Rightarrow> jsnum option \<Rightarrow> (fee_ceiling_code \<times> int option \<times> int option, unit) result" where
  "assert_fee_within_ceiling fee ceiling warn =
     (if ceiling = FeeMissing then Inr ()
      else (case validate_fee_ceiling fee ceiling warn of
          FeeAccepted w \<Rightarrow> Inr ()
        | FeeRefused c \<Rightarrow> Inl (c, bigint_of fee, bigint_of ceiling)))"

text \<open>An estimate: anything, of which an object may have a total fee\<close>

datatype estimate_input = NoEstimateObject | EstimateObject fee_input

definition validate_transaction_fee_ceiling :: "estimate_input \<Rightarrow> fee_input \<Rightarrow> jsnum option \<Rightarrow> fee_validation" where
  "validate_transaction_fee_ceiling estimate ceiling warn =
     (case estimate of
        NoEstimateObject \<Rightarrow> FeeRefused FEE_REQUIRED
      | EstimateObject fee \<Rightarrow> if fee = FeeMissing then FeeRefused FEE_REQUIRED else validate_fee_ceiling fee ceiling warn)"

definition is_fee_within_ceiling :: "fee_input \<Rightarrow> fee_input \<Rightarrow> bool" where
  "is_fee_within_ceiling fee ceiling = (case validate_fee_ceiling fee ceiling None of FeeAccepted w \<Rightarrow> True | FeeRefused c \<Rightarrow> False)"

section \<open>What is accepted\<close>

lemma floor_at_least:
  assumes "0 < (c :: int)"
  shows "w \<le> x div c \<longleftrightarrow> w * c \<le> x"
proof
  assume "w \<le> x div c"
  then have "w * c \<le> x div c * c" using assms by (simp add: mult_right_mono)
  also have "\<dots> \<le> x" using assms by (simp add: minus_mod_eq_div_mult [symmetric])
  finally show "w * c \<le> x" .
next
  assume "w * c \<le> x"
  then have "w * c div c \<le> x div c" using assms by (rule zdiv_mono1)
  then show "w \<le> x div c" using assms by simp
qed

text \<open>
  A fee passes exactly if it and the ceiling are whole numbers of stroops, it is not negative and not above the ceiling,
  which is positive, and the warning band is between 0 and 10000. What is left is their difference, the share used is at
  most the whole, and a warning is given exactly if the fee is at least the band's part of the ceiling.
\<close>

theorem fee_accepted_iff:
  "validate_fee_ceiling fee ceiling (Some (Whole b)) = FeeAccepted w \<longleftrightarrow>
     0 \<le> b \<and> b \<le> 10000 \<and>
     (\<exists>f c. parse_stroops fee = StroopsOk f \<and> parse_stroops ceiling = StroopsOk c \<and> 0 \<le> f \<and> f \<le> c \<and> 0 < c \<and>
        w = \<lparr>fw_approaching = (0 < b \<and> b * c \<le> f * 10000), fw_fee = f, fw_ceiling = c, fw_headroom = c - f,
             fw_utilization_bps = f * 10000 div c\<rparr> \<and>
        0 \<le> fw_utilization_bps w \<and> fw_utilization_bps w \<le> 10000)"
proof -
  have share: "0 \<le> f * 10000 div c \<and> f * 10000 div c \<le> 10000" if "0 \<le> f" "f \<le> c" "0 < c" for f c :: int
  proof
    show "0 \<le> f * 10000 div c" using that by (simp add: pos_imp_zdiv_nonneg_iff)
    have "f * 10000 div c \<le> 10000 * c div c" using that by (intro zdiv_mono1) auto
    then show "f * 10000 div c \<le> 10000" using that by simp
  qed
  have band: "(0 < b \<and> b \<le> f * 10000 div c) = (0 < b \<and> b * c \<le> f * 10000)" if "0 < c" for f c :: int
    using floor_at_least [OF that] by simp
  show ?thesis
    by (cases "parse_stroops fee"; cases "parse_stroops ceiling")
      (auto simp: validate_fee_ceiling_def bps_denominator_def Let_def band share not_less not_le)
qed

text \<open>The reading of a text agrees with the one of the language on every text of digits.\<close>

lemma fee_text_decimal: "parse_stroops (FeeText (dec_string n)) = StroopsOk (int n)"
proof -
  have digits: "\<forall>c \<in> set (dec_string n). is_digit c" by (rule dec_string_digits)
  then have trim: "js_trim (dec_string n) = dec_string n" using is_digit_not_space by (simp add: js_trim_no_space)
  obtain c cs where s: "dec_string n = c # cs" using radix_string_nonempty [of 10 n] by (cases "dec_string n") auto
  have "c \<noteq> CHR ''-''" "c \<noteq> CHR ''+''" using digits s by (auto simp: is_digit_iff)
  moreover have v: "dec_value (c # cs) = n" unfolding s [symmetric] by simp
  ultimately have "signed_digits (dec_string n) = Some (int n)"
    using digits by (simp add: s signed_digits_def list_all_iff v)
  then show ?thesis by (simp add: parse_stroops_def trim)
qed

text \<open>An estimate is refused for its missing fee before the ceiling or the band are looked at.\<close>

theorem estimate_errors_first:
  "validate_transaction_fee_ceiling NoEstimateObject ceiling warn = FeeRefused FEE_REQUIRED"
  "validate_fee_ceiling FeeMissing FeeMissing warn \<noteq> FeeRefused FEE_REQUIRED"
  by (auto simp: validate_transaction_fee_ceiling_def validate_fee_ceiling_def parse_stroops_def split: option.split jsnum.split)

text \<open>Without a ceiling nothing is checked, not even that there is a fee.\<close>

theorem no_ceiling_passes: "assert_fee_within_ceiling fee FeeMissing warn = Inr ()"
  by (simp add: assert_fee_within_ceiling_def)

theorem asserted_iff_within:
  "ceiling \<noteq> FeeMissing \<Longrightarrow> (assert_fee_within_ceiling fee ceiling None = Inr ()) = is_fee_within_ceiling fee ceiling"
  by (simp add: assert_fee_within_ceiling_def is_fee_within_ceiling_def split: fee_validation.split)

end
