(* ===== verification/BatchFailures.thy ===== *)
theory BatchFailures
  imports Prelude
begin

text \<open>
  Batches of which some items failed (\<open>batch/partialBatchFailureParser.ts\<close>). The success rate is a number of tenths of a
  percent, computed exactly, where the code divides floating point numbers before it rounds; texts and the time of parsing
  are left out.
\<close>

section \<open>Items and results\<close>

datatype item_outcome = ItemSucceeded | ItemFailed | ItemPartial | ItemSkipped | ItemPending | ItemTimeout

datatype batch_failure_code = AllSucceeded | AllFailed | PartialFailure | TimeoutReached | UnknownBatchError

record batch_item =
  bi_number :: int
  bi_employee :: "string option"
  bi_tx_hash :: "string option"
  bi_outcome :: item_outcome
  bi_error :: "string option"
  bi_executed_at :: "int option"

record batch_summary =
  bs_total :: nat
  bs_succeeded :: nat
  bs_failed :: nat
  bs_pending :: nat
  bs_skipped :: nat
  bs_success_tenths :: int
  bs_all_succeeded :: bool
  bs_all_failed :: bool
  bs_has_retryable :: bool
  bs_common_code :: "string option"

record item_groups =
  gr_succeeded :: "batch_item list"
  gr_failed :: "batch_item list"
  gr_partial :: "batch_item list"
  gr_pending :: "batch_item list"
  gr_skipped :: "batch_item list"
  gr_timeout :: "batch_item list"

record parsed_failure =
  pf_code :: batch_failure_code
  pf_summary :: batch_summary
  pf_groups :: item_groups
  pf_primary_code :: "string option"

record failure_options =
  fo_redact_employee :: "bool option"
  fo_redact_errors :: "bool option"
  fo_timeout_retryable :: "bool option"

section \<open>The code of the failures\<close>

definition code_char :: "char \<Rightarrow> bool" where
  "code_char c \<longleftrightarrow> (let n = (of_char c :: nat) in (65 \<le> n \<and> n \<le> 90) \<or> n = 95)"

text \<open>\<open>/^([A-Z_]+):/\<close>\<close>

definition error_code_of :: "string \<Rightarrow> string option" where
  "error_code_of s =
     (let code = takeWhile code_char s
      in if code \<noteq> [] \<and> is_prefix '':'' (drop (length code) s) then Some code else None)"

definition count_code :: "string \<Rightarrow> (string \<times> nat) list \<Rightarrow> (string \<times> nat) list" where
  "count_code s m =
     (case error_code_of s of
        None \<Rightarrow> m
      | Some c \<Rightarrow> AList.update c ((case map_of m c of None \<Rightarrow> 0 | Some n \<Rightarrow> n) + 1) m)"

text \<open>The first of those that occur most often\<close>

fun most_common :: "(string \<times> nat) option \<Rightarrow> (string \<times> nat) list \<Rightarrow> (string \<times> nat) option" where
  "most_common best [] = best"
| "most_common best (x # xs) =
     most_common (case best of None \<Rightarrow> Some x | Some b \<Rightarrow> if snd b < snd x then Some x else best) xs"

definition extract_primary_failure_code :: "string list \<Rightarrow> string option" where
  "extract_primary_failure_code errors = map_option fst (most_common None (fold count_code errors []))"

section \<open>Parsing\<close>

definition classify_batch_failure :: "nat \<Rightarrow> nat \<Rightarrow> nat \<Rightarrow> nat \<Rightarrow> batch_failure_code" where
  "classify_batch_failure succeeded failed every pending =
     (if every = 0 then UnknownBatchError
      else if failed = 0 \<and> pending = 0 then AllSucceeded
      else if succeeded = 0 \<and> pending = 0 then AllFailed
      else if 0 < pending \<and> 0 < succeeded then PartialFailure
      else if 0 < pending then TimeoutReached
      else PartialFailure)"

definition no_items :: item_groups where
  "no_items = \<lparr>gr_succeeded = [], gr_failed = [], gr_partial = [], gr_pending = [], gr_skipped = [], gr_timeout = []\<rparr>"

definition push_item :: "batch_item \<Rightarrow> item_groups \<Rightarrow> item_groups" where
  "push_item i g =
     (case bi_outcome i of
        ItemSucceeded \<Rightarrow> g\<lparr>gr_succeeded := gr_succeeded g @ [i]\<rparr>
      | ItemFailed \<Rightarrow> g\<lparr>gr_failed := gr_failed g @ [i]\<rparr>
      | ItemPartial \<Rightarrow> g\<lparr>gr_partial := gr_partial g @ [i]\<rparr>
      | ItemPending \<Rightarrow> g\<lparr>gr_pending := gr_pending g @ [i]\<rparr>
      | ItemSkipped \<Rightarrow> g\<lparr>gr_skipped := gr_skipped g @ [i]\<rparr>
      | ItemTimeout \<Rightarrow> g\<lparr>gr_timeout := gr_timeout g @ [i]\<rparr>)"

text \<open>Tenths of a percent, rounded to the nearest and up in the middle\<close>

definition success_tenths :: "nat \<Rightarrow> nat \<Rightarrow> nat \<Rightarrow> int" where
  "success_tenths succeeded partial every =
     (if 0 < every then (2000 * (int succeeded - int partial) + int every) div (2 * int every) else 0)"

definition parse_partial_batch_failure :: "batch_item list \<Rightarrow> failure_options \<Rightarrow> parsed_failure" where
  "parse_partial_batch_failure items opts =
     (let g = fold push_item items no_items;
          succeeded = length (gr_succeeded g); failed = length (gr_failed g); timeouts = length (gr_timeout g);
          pending = length (gr_pending g); skipped = length (gr_skipped g); partials = length (gr_partial g);
          failures = failed + partials;
          primary = extract_primary_failure_code (List.map_filter (\<lambda>i. case bi_error i of None \<Rightarrow> None | Some e \<Rightarrow> if e = [] then None else Some e) items)
      in \<lparr>pf_code = classify_batch_failure succeeded failures (length items) (pending + timeouts),
          pf_summary = \<lparr>bs_total = length items, bs_succeeded = succeeded, bs_failed = failures, bs_pending = pending,
            bs_skipped = skipped, bs_success_tenths = success_tenths succeeded partials (length items),
            bs_all_succeeded = (failures = 0 \<and> pending = 0), bs_all_failed = (succeeded = 0 \<and> pending = 0),
            bs_has_retryable = (0 < failed \<or> (fo_timeout_retryable opts \<noteq> Some False \<and> 0 < timeouts) \<or> 0 < partials),
            bs_common_code = primary\<rparr>,
          pf_groups = g, pf_primary_code = primary\<rparr>)"

fun filter_batch_items_by_outcome :: "item_groups \<Rightarrow> item_outcome \<Rightarrow> batch_item list" where
  "filter_batch_items_by_outcome g ItemSucceeded = gr_succeeded g"
| "filter_batch_items_by_outcome g ItemFailed = gr_failed g"
| "filter_batch_items_by_outcome g ItemPartial = gr_partial g"
| "filter_batch_items_by_outcome g ItemSkipped = gr_skipped g"
| "filter_batch_items_by_outcome g ItemPending = gr_pending g"
| "filter_batch_items_by_outcome g ItemTimeout = gr_timeout g"

definition get_retryable_items :: "parsed_failure \<Rightarrow> bool \<Rightarrow> batch_item list" where
  "get_retryable_items r include_timeout =
     gr_failed (pf_groups r) @ gr_partial (pf_groups r) @ (if include_timeout then gr_timeout (pf_groups r) else [])"

definition is_retry_recommended :: "parsed_failure \<Rightarrow> bool" where
  "is_retry_recommended r \<longleftrightarrow> bs_has_retryable (pf_summary r) \<and> bs_success_tenths (pf_summary r) < 1000"

section \<open>Groups and codes\<close>

lemma pushed_item:
  "filter_batch_items_by_outcome (push_item i g) q = filter_batch_items_by_outcome g q @ (if bi_outcome i = q then [i] else [])"
  by (cases q; cases "bi_outcome i") (auto simp: push_item_def)

lemma pushed_items:
  "filter_batch_items_by_outcome (fold push_item items g) q =
     filter_batch_items_by_outcome g q @ filter (\<lambda>i. bi_outcome i = q) items"
  by (induction items arbitrary: g) (auto simp: pushed_item)

lemma no_items_fields [simp]:
  "gr_succeeded no_items = []" "gr_failed no_items = []" "gr_partial no_items = []" "gr_pending no_items = []"
  "gr_skipped no_items = []" "gr_timeout no_items = []"
  by (simp_all add: no_items_def)

lemma no_items_group [simp]: "filter_batch_items_by_outcome no_items q = []"
  by (cases q) simp_all

abbreviation having :: "item_outcome \<Rightarrow> batch_item list \<Rightarrow> batch_item list" where
  "having q items \<equiv> filter (\<lambda>i. bi_outcome i = q) items"

lemma grouped:
  "gr_succeeded (fold push_item items no_items) = having ItemSucceeded items"
  "gr_failed (fold push_item items no_items) = having ItemFailed items"
  "gr_partial (fold push_item items no_items) = having ItemPartial items"
  "gr_pending (fold push_item items no_items) = having ItemPending items"
  "gr_skipped (fold push_item items no_items) = having ItemSkipped items"
  "gr_timeout (fold push_item items no_items) = having ItemTimeout items"
  using pushed_items [of items no_items ItemSucceeded] pushed_items [of items no_items ItemFailed]
    pushed_items [of items no_items ItemPartial] pushed_items [of items no_items ItemPending]
    pushed_items [of items no_items ItemSkipped] pushed_items [of items no_items ItemTimeout]
  by simp_all

lemma all_items:
  "list_all (\<lambda>i. Q (bi_outcome i)) items \<longleftrightarrow> (Q ItemSucceeded \<or> having ItemSucceeded items = []) \<and>
     (Q ItemFailed \<or> having ItemFailed items = []) \<and> (Q ItemPartial \<or> having ItemPartial items = []) \<and>
     (Q ItemSkipped \<or> having ItemSkipped items = []) \<and> (Q ItemPending \<or> having ItemPending items = []) \<and>
     (Q ItemTimeout \<or> having ItemTimeout items = [])"
proof (induction items)
  case (Cons i items)
  then show ?case by (cases "bi_outcome i") auto
qed simp

text \<open>
  The code of a batch that is not empty says that all succeeded exactly if each item succeeded or was skipped, that all
  failed if none succeeded or is open, and that a time limit was reached if some are open and none succeeded. The items to
  retry are those that failed, in part or whole, and those out of time.
\<close>

theorem batch_codes:
  assumes "items \<noteq> []"
  shows "pf_code (parse_partial_batch_failure items opts) = AllSucceeded \<longleftrightarrow>
      list_all (\<lambda>i. bi_outcome i \<in> {ItemSucceeded, ItemSkipped}) items"
    "pf_code (parse_partial_batch_failure items opts) = AllFailed \<longleftrightarrow>
      list_all (\<lambda>i. bi_outcome i \<in> {ItemFailed, ItemPartial, ItemSkipped}) items \<and>
      list_ex (\<lambda>i. bi_outcome i \<in> {ItemFailed, ItemPartial}) items"
    "pf_code (parse_partial_batch_failure items opts) = TimeoutReached \<longleftrightarrow>
      list_ex (\<lambda>i. bi_outcome i \<in> {ItemPending, ItemTimeout}) items \<and> list_all (\<lambda>i. bi_outcome i \<noteq> ItemSucceeded) items"
    "set (get_retryable_items (parse_partial_batch_failure items opts) True) =
      {i \<in> set items. bi_outcome i \<in> {ItemFailed, ItemPartial, ItemTimeout}}"
proof -
  let ?h = "\<lambda>q. having q items \<noteq> []"
  have code: "pf_code (parse_partial_batch_failure items opts) = classify_batch_failure (length (having ItemSucceeded items))
      (length (having ItemFailed items) + length (having ItemPartial items)) (length items)
      (length (having ItemPending items) + length (having ItemTimeout items))"
    by (simp add: parse_partial_batch_failure_def Let_def grouped)
  have every: "list_all (\<lambda>i. Q (bi_outcome i)) items \<longleftrightarrow> (Q ItemSucceeded \<or> \<not> ?h ItemSucceeded) \<and> (Q ItemFailed \<or> \<not> ?h ItemFailed) \<and>
      (Q ItemPartial \<or> \<not> ?h ItemPartial) \<and> (Q ItemSkipped \<or> \<not> ?h ItemSkipped) \<and> (Q ItemPending \<or> \<not> ?h ItemPending) \<and>
      (Q ItemTimeout \<or> \<not> ?h ItemTimeout)" for Q
    by (simp add: all_items)
  have some: "list_ex (\<lambda>i. Q (bi_outcome i)) items \<longleftrightarrow> \<not> list_all (\<lambda>i. \<not> Q (bi_outcome i)) items" for Q
    by (auto simp: list_all_iff list_ex_iff)
  show "pf_code (parse_partial_batch_failure items opts) = AllSucceeded \<longleftrightarrow>
      list_all (\<lambda>i. bi_outcome i \<in> {ItemSucceeded, ItemSkipped}) items"
    using every [of "\<lambda>q. q \<in> {ItemSucceeded, ItemSkipped}"] assms by (auto simp: code classify_batch_failure_def)
  show "pf_code (parse_partial_batch_failure items opts) = AllFailed \<longleftrightarrow>
      list_all (\<lambda>i. bi_outcome i \<in> {ItemFailed, ItemPartial, ItemSkipped}) items \<and>
      list_ex (\<lambda>i. bi_outcome i \<in> {ItemFailed, ItemPartial}) items"
    using every [of "\<lambda>q. q \<in> {ItemFailed, ItemPartial, ItemSkipped}"] assms
      some [of "\<lambda>q. q \<in> {ItemFailed, ItemPartial}"] every [of "\<lambda>q. q \<notin> {ItemFailed, ItemPartial}"]
    by (simp add: code classify_batch_failure_def) blast?
  show "pf_code (parse_partial_batch_failure items opts) = TimeoutReached \<longleftrightarrow>
      list_ex (\<lambda>i. bi_outcome i \<in> {ItemPending, ItemTimeout}) items \<and> list_all (\<lambda>i. bi_outcome i \<noteq> ItemSucceeded) items"
    using every [of "\<lambda>q. q \<noteq> ItemSucceeded"] assms
      some [of "\<lambda>q. q \<in> {ItemPending, ItemTimeout}"] every [of "\<lambda>q. q \<notin> {ItemPending, ItemTimeout}"]
    by (simp add: code classify_batch_failure_def) blast?
  show "set (get_retryable_items (parse_partial_batch_failure items opts) True) =
      {i \<in> set items. bi_outcome i \<in> {ItemFailed, ItemPartial, ItemTimeout}}"
    by (auto simp: get_retryable_items_def parse_partial_batch_failure_def Let_def grouped)
qed

section \<open>Summaries that contradict the items\<close>

text \<open>Items that ran out of time are open for the code, but not for the two tests of the summary.\<close>

theorem timeouts_count_as_both:
  assumes "items \<noteq> []" "list_all (\<lambda>i. bi_outcome i = ItemTimeout) items"
  shows "pf_code (parse_partial_batch_failure items opts) = TimeoutReached"
    "bs_all_succeeded (pf_summary (parse_partial_batch_failure items opts))"
    "bs_all_failed (pf_summary (parse_partial_batch_failure items opts))"
proof -
  have "having q items = [] \<longleftrightarrow> q \<noteq> ItemTimeout" for q
    using assms by (cases items) (auto simp: list_all_iff filter_empty_conv)
  then show "pf_code (parse_partial_batch_failure items opts) = TimeoutReached"
    "bs_all_succeeded (pf_summary (parse_partial_batch_failure items opts))"
    "bs_all_failed (pf_summary (parse_partial_batch_failure items opts))"
    using assms(1) by (simp_all add: parse_partial_batch_failure_def Let_def grouped classify_batch_failure_def)
qed

definition item_with :: "item_outcome \<Rightarrow> batch_item" where
  "item_with q = \<lparr>bi_number = 1, bi_employee = None, bi_tx_hash = None, bi_outcome = q, bi_error = None, bi_executed_at = None\<rparr>"

text \<open>A batch of which a part of an item succeeded has a success rate of minus one hundred percent.\<close>

lemma partial_success_is_negative:
  "bs_success_tenths (pf_summary (parse_partial_batch_failure [item_with ItemPartial] opts)) = - 1000"
  by (simp add: parse_partial_batch_failure_def Let_def grouped success_tenths_def item_with_def push_item_def no_items_def)

text \<open>A single failure in a batch of three thousand is rounded away: its retry is not recommended.\<close>

theorem rare_failure_not_retried:
  assumes "length (having ItemSucceeded items) = 2999" "length (having ItemFailed items) = 1" "length items = 3000"
    "having ItemPartial items = []"
  shows "get_retryable_items (parse_partial_batch_failure items opts) True \<noteq> []"
    "\<not> is_retry_recommended (parse_partial_batch_failure items opts)"
proof -
  have "having ItemFailed items \<noteq> []" using assms(2) by auto
  then show "get_retryable_items (parse_partial_batch_failure items opts) True \<noteq> []"
    by (simp add: get_retryable_items_def parse_partial_batch_failure_def Let_def grouped)
  show "\<not> is_retry_recommended (parse_partial_batch_failure items opts)"
    using assms by (simp add: is_retry_recommended_def parse_partial_batch_failure_def Let_def grouped success_tenths_def)
qed

text \<open>The options to hide are read and not used: the groups hold the items as they came, with the ids of the employees.\<close>

theorem employees_not_masked:
  "pf_groups (parse_partial_batch_failure items (opts\<lparr>fo_redact_employee := Some True, fo_redact_errors := Some True\<rparr>)) =
     pf_groups (parse_partial_batch_failure items opts)"
  "filter_batch_items_by_outcome (pf_groups (parse_partial_batch_failure items opts)) q = having q items"
  by (simp_all add: parse_partial_batch_failure_def Let_def pushed_items)

end
