(* ===== verification/SettlementReceipts.thy ===== *)
theory SettlementReceipts
  imports Receipts
begin

text \<open>
  The light check of a receipt before reconciliation (\<open>settlement/receipt.ts\<close>, \<open>settlement/receiptId.ts\<close>), beside the
  full verifier of \<open>Receipts\<close>, whose candidates, digests and library it uses. Messages are left out.
\<close>

section \<open>Identifiers\<close>

datatype receipt_id_code = IdEmpty | IdInvalidType | IdTooShort | IdTooLong | IdInvalidCharacters | IdInvalidFormat

definition min_receipt_id_length :: nat where
  "min_receipt_id_length = 8"

definition max_receipt_id_length :: nat where
  "max_receipt_id_length = 128"

definition id_punctuation :: "char \<Rightarrow> bool" where
  "id_punctuation c \<longleftrightarrow> c = CHR ''.'' \<or> c = CHR ''_'' \<or> c = CHR ''-''"

definition id_char :: "char \<Rightarrow> bool" where
  "id_char c \<longleftrightarrow> (CHR ''a'' \<le> c \<and> c \<le> CHR ''z'') \<or> (CHR ''A'' \<le> c \<and> c \<le> CHR ''Z'') \<or> (CHR ''0'' \<le> c \<and> c \<le> CHR ''9'') \<or>
     id_punctuation c"

text \<open>A value of another type than text is none.\<close>

definition validate_settlement_receipt_id :: "string option \<Rightarrow> (receipt_id_code, string) result" where
  "validate_settlement_receipt_id i =
     (case i of
        None \<Rightarrow> Inl IdInvalidType
      | Some s \<Rightarrow>
          let t = js_trim s in
          if t = [] then Inl IdEmpty
          else if length t < min_receipt_id_length then Inl IdTooShort
          else if max_receipt_id_length < length t then Inl IdTooLong
          else if \<not> list_all id_char t then Inl IdInvalidCharacters
          else if id_punctuation (hd t) \<or> id_punctuation (last t) then Inl IdInvalidFormat
          else Inr t)"

definition is_settlement_receipt_id :: "string option \<Rightarrow> bool" where
  "is_settlement_receipt_id i = (case validate_settlement_receipt_id i of Inl c \<Rightarrow> False | Inr t \<Rightarrow> True)"

definition assert_valid_settlement_receipt_id :: "string option \<Rightarrow> (receipt_id_code, string) result" where
  "assert_valid_settlement_receipt_id i = validate_settlement_receipt_id i"

definition redact_receipt_id :: "string option \<Rightarrow> string" where
  "redact_receipt_id i =
     (case i of
        None \<Rightarrow> ''[ANONYMOUS_RECEIPT]''
      | Some s \<Rightarrow>
          let t = js_trim s in
          if t = [] then ''[ANONYMOUS_RECEIPT]''
          else if length t \<le> 6 then ''[REDACTED_RECEIPT]''
          else take 3 t @ ''***'' @ drop (length t - 3) t)"

definition format_settlement_receipt_label :: "string \<Rightarrow> bool \<Rightarrow> string" where
  "format_settlement_receipt_label i redact = ''Receipt #'' @ (if redact then redact_receipt_id (Some i) else i)"

section \<open>The check\<close>

datatype settlement_code =
  ReceiptRequired | ReceiptIdInvalid | PayrollIdRequired | SettlementStatusRequired | StatusNotSettled
| TransactionReferenceRequired | MetadataDigestRequired | MetadataMismatch

text \<open>The state is \<open>malformed\<close> for no object and \<open>invalid\<close> for every other failure.\<close>

record settlement_options =
  so_allowed_statuses :: "string list option"
  so_expected_payroll_id :: "string option"
  so_metadata :: "(string \<times> meta) list option"

record settled_receipt =
  st_receipt_id :: string
  st_display_id :: string

definition normalize_status :: "string option \<Rightarrow> string" where
  "normalize_status s = (case s of None \<Rightarrow> [] | Some t \<Rightarrow> js_lower (js_trim t))"

definition trimmed_or_empty :: "string option \<Rightarrow> string" where
  "trimmed_or_empty s = (case s of None \<Rightarrow> [] | Some t \<Rightarrow> js_trim t)"

definition settlement_tx_hash :: "reference \<Rightarrow> string" where
  "settlement_tx_hash r =
     (case r of NoReference \<Rightarrow> [] | ReferenceText s \<Rightarrow> js_trim s | ReferenceObject t \<Rightarrow> trimmed_or_empty (tx_hash t))"

definition check_settled :: "receipt_library \<Rightarrow> settlement_options \<Rightarrow> candidate \<Rightarrow> settlement_code option" where
  "check_settled lib opts c =
     (let payroll = trimmed_or_empty (cand_payroll_id c);
          status = normalize_status (cand_status c);
          allowed = (case so_allowed_statuses opts of None \<Rightarrow> default_allowed_statuses | Some ss \<Rightarrow> ss);
          digest = trimmed_or_empty (cand_digest c)
      in if payroll = [] then Some PayrollIdRequired
         else if truthy (so_expected_payroll_id opts) \<and> payroll \<noteq> js_trim (the (so_expected_payroll_id opts)) then Some PayrollIdRequired
         else if status = [] then Some SettlementStatusRequired
         else if status \<notin> set (map (\<lambda>s. normalize_status (Some s)) allowed) then Some StatusNotSettled
         else if settlement_tx_hash (cand_reference c) = [] then Some TransactionReferenceRequired
         else if digest = [] then Some MetadataDigestRequired
         else if \<not> is_valid_hex_digest digest then Some MetadataDigestRequired
         else if so_metadata opts \<noteq> None \<and> js_lower digest \<noteq> js_lower (compute_metadata_digest lib (so_metadata opts))
         then Some MetadataMismatch
         else None)"

definition validate_settlement_receipt ::
  "receipt_library \<Rightarrow> settlement_options \<Rightarrow> candidate option \<Rightarrow> (settlement_code, settled_receipt) result" where
  "validate_settlement_receipt lib opts receipt =
     (case receipt of
        None \<Rightarrow> Inl ReceiptRequired
      | Some c \<Rightarrow>
          (case validate_settlement_receipt_id (cand_receipt_id c) of
             Inl e \<Rightarrow> Inl ReceiptIdInvalid
           | Inr i \<Rightarrow>
               (case check_settled lib opts c of
                  Some code \<Rightarrow> Inl code
                | None \<Rightarrow> Inr \<lparr>st_receipt_id = i, st_display_id = redact_receipt_id (Some i)\<rparr>)))"

definition is_settlement_receipt_valid :: "receipt_library \<Rightarrow> settlement_options \<Rightarrow> candidate option \<Rightarrow> bool" where
  "is_settlement_receipt_valid lib opts receipt =
     (case validate_settlement_receipt lib opts receipt of Inl c \<Rightarrow> False | Inr r \<Rightarrow> True)"

section \<open>Redaction\<close>

text \<open>At most six characters of a receipt's id are shown; the text shown depends on them only.\<close>

theorem redaction_hides_middle:
  assumes "js_trim s = a @ m @ b" "js_trim t = a @ n @ b" "length a = 3" "length b = 3" "m \<noteq> []" "n \<noteq> []"
  shows "redact_receipt_id (Some s) = redact_receipt_id (Some t)"
proof -
  have "redact_receipt_id (Some u) = a @ ''***'' @ b" if "js_trim u = a @ k @ b" "k \<noteq> []" for u k
    using that assms(3,4) by (cases k) (simp_all add: redact_receipt_id_def Let_def)
  then show ?thesis using assms by metis
qed

section \<open>The light check and the full verifier\<close>

lemma id_trim: "validate_settlement_receipt_id i = Inr t \<Longrightarrow> \<exists>s. i = Some s \<and> t = js_trim s \<and> 8 \<le> length t \<and> length t \<le> 128"
  by (auto simp: validate_settlement_receipt_id_def Let_def min_receipt_id_length_def max_receipt_id_length_def
      split: option.splits if_splits)

text \<open>The options of the light check that ask for what the verifier is asked for\<close>

definition same_demands :: "receipt_options \<Rightarrow> settlement_options" where
  "same_demands opts = \<lparr>so_allowed_statuses = allowed_settlement_statuses opts, so_expected_payroll_id = expected_payroll_id opts,
     so_metadata = option_metadata opts\<rparr>"

lemma settlement_hash: "settlement_tx_hash (transaction_reference r) = extract_receipt_tx_hash r"
  by (auto simp: settlement_tx_hash_def extract_receipt_tx_hash_def trimmed_or_empty_def split: reference.split option.split)

text \<open>
  What the full verifier finds nothing wrong with, asked for a settled state, the light check accepts, if the id of the
  receipt is well formed: for a status that is not blank it refuses none of the receipts the verifier lets through.
\<close>

theorem verified_receipts_pass_light_check:
  assumes "check_payroll_id opts r = None" "check_settlement_status opts r = None" "js_trim (settlement_status r) \<noteq> []"
    and "require_settled opts \<noteq> Some False"
    and "check_transaction_reference opts r = None" "check_metadata_digest lib opts r = None"
    and "is_settlement_receipt_id (Some (receipt_id r))"
  shows "is_settlement_receipt_valid lib (same_demands opts) (Some (as_candidate r))"
proof -
  let ?c = "as_candidate r" and ?o = "same_demands opts"
  have status: "normalize_status (cand_status ?c) \<in> set (map (\<lambda>s. normalize_status (Some s))
      (case so_allowed_statuses ?o of None \<Rightarrow> default_allowed_statuses | Some ss \<Rightarrow> ss))"
    using assms(2,4) by (auto simp: check_settlement_status_def allowed_statuses_def same_demands_def as_candidate_def
        split: if_splits option.splits)
  have nonempty: "normalize_status (cand_status ?c) \<noteq> []" using assms(3) by (simp add: normalize_status_def as_candidate_def js_lower_def)
  have payroll: "trimmed_or_empty (cand_payroll_id ?c) \<noteq> []"
    "\<not> (truthy (so_expected_payroll_id ?o) \<and> trimmed_or_empty (cand_payroll_id ?c) \<noteq> js_trim (the (so_expected_payroll_id ?o)))"
    using assms(1) by (auto simp: check_payroll_id_def as_candidate_def same_demands_def trimmed_or_empty_def split: if_splits)
  have hash: "settlement_tx_hash (cand_reference ?c) \<noteq> []"
    using assms(5) by (auto simp: check_transaction_reference_def as_candidate_def settlement_hash Let_def split: if_splits)
  have digest: "trimmed_or_empty (cand_digest ?c) \<noteq> []" "is_valid_hex_digest (trimmed_or_empty (cand_digest ?c))"
    "\<not> (so_metadata ?o \<noteq> None \<and>
        js_lower (trimmed_or_empty (cand_digest ?c)) \<noteq> js_lower (compute_metadata_digest lib (so_metadata ?o)))"
    using assms(6) by (auto simp: check_metadata_digest_def as_candidate_def same_demands_def trimmed_or_empty_def
        is_valid_hex_digest_def metadata_to_verify_def split: if_splits option.splits)
  have "check_settled lib ?o ?c = None"
    using status nonempty payroll hash digest by (simp only: check_settled_def Let_def) simp
  moreover obtain i where "validate_settlement_receipt_id (cand_receipt_id ?c) = Inr i"
    using assms(7) by (auto simp: is_settlement_receipt_id_def as_candidate_def split: sum.splits)
  ultimately show ?thesis by (simp add: is_settlement_receipt_valid_def validate_settlement_receipt_def)
qed

text \<open>
  The other way round it is not so: a status in capitals is settled for the light check and unknown to the verifier, and
  the metadata a receipt carries is compared with its digest by the verifier only.
\<close>

theorem capital_status_accepted:
  assumes "check_settled lib opts (c\<lparr>cand_status := Some ''settled''\<rparr>) = None"
  shows "check_settled lib opts (c\<lparr>cand_status := Some ''SETTLED''\<rparr>) = None"
    "require_settled vopts \<noteq> Some False \<Longrightarrow> allowed_settlement_statuses vopts = None \<Longrightarrow>
       check_settlement_status vopts (r\<lparr>settlement_status := ''SETTLED''\<rparr>) = Some SettlementStatusNotAllowed"
proof -
  have "normalize_status (Some ''SETTLED'') = normalize_status (Some ''settled'')" by code_simp
  then have "check_settled lib opts (c\<lparr>cand_status := Some ''SETTLED''\<rparr>) = check_settled lib opts (c\<lparr>cand_status := Some ''settled''\<rparr>)"
    by (cases c) (simp only: check_settled_def candidate.simps)
  then show "check_settled lib opts (c\<lparr>cand_status := Some ''SETTLED''\<rparr>) = None" using assms by simp
  show "require_settled vopts \<noteq> Some False \<Longrightarrow> allowed_settlement_statuses vopts = None \<Longrightarrow>
       check_settlement_status vopts (r\<lparr>settlement_status := ''SETTLED''\<rparr>) = Some SettlementStatusNotAllowed"
    by (simp add: check_settlement_status_def allowed_statuses_def default_allowed_statuses_def)
qed

theorem own_metadata_not_compared:
  "check_settled lib opts (c\<lparr>cand_metadata := m\<rparr>) = check_settled lib opts c"
  by (cases c) (simp only: check_settled_def candidate.simps)

text \<open>A receipt of another payroll run is reported as one without a payroll id.\<close>

lemma mismatch_reported_as_missing:
  assumes "trimmed_or_empty (cand_payroll_id c) = ''run-2''" "so_expected_payroll_id opts = Some ''run-1''"
  shows "check_settled lib opts c = Some PayrollIdRequired"
proof -
  have "js_trim ''run-1'' = ''run-1''" by code_simp
  then show ?thesis using assms by (simp add: check_settled_def truthy_def)
qed

end
