(* ===== verification/FundingReadiness.thy ===== *)
theory FundingReadiness
  imports Prelude "HOL-Library.List_Lexorder" "HOL-Library.Char_ord" "HOL-Library.Multiset"
begin

text \<open>
  Is there enough of every asset to pay (\<open>funding/readiness.ts\<close>)? Inputs are checked before use: a value of another type
  than the declared one is none. Messages are left out.
\<close>

section \<open>Inputs\<close>

record raw_obligation =
  ro_asset :: "string option"
  ro_amount :: "int option"

record raw_balance =
  rb_asset :: "string option"
  rb_available :: "int option"
  rb_reserved :: "int option option"

text \<open>A missing \<open>reserved\<close> is \<open>None\<close>, one of another type \<open>Some None\<close>.\<close>

datatype funding_code =
  ObligationInvalid | AssetRequired | AmountInvalid | AmountNegative
| BalanceInvalid | BalanceDuplicate | BalanceOverreserved

text \<open>The index of the entry and the code\<close>

type_synonym funding_error = "nat \<times> funding_code"

record asset_readiness =
  ar_asset :: string
  ar_required :: int
  ar_available :: int
  ar_reserved :: int
  ar_unreserved :: int
  ar_surplus :: int
  ar_deficit :: int
  ar_ready :: bool
  ar_obligation_count :: nat

record funding_report =
  fr_ready :: bool
  fr_assets :: "asset_readiness list"
  fr_deficits :: "asset_readiness list"
  fr_surplus_ids :: "string list"

section \<open>Validation\<close>

definition obligation_problem :: "raw_obligation option \<Rightarrow> funding_code option" where
  "obligation_problem x =
     (case x of
        None \<Rightarrow> Some ObligationInvalid
      | Some r \<Rightarrow>
          if ro_asset r = None \<or> ro_asset r = Some [] then Some AssetRequired
          else (case ro_amount r of
              None \<Rightarrow> Some AmountInvalid
            | Some n \<Rightarrow> if n < 0 then Some AmountNegative else None))"

fun validate_obligations :: "nat \<Rightarrow> raw_obligation option list \<Rightarrow> (funding_error, (string \<times> int) list) result" where
  "validate_obligations i [] = Inr []"
| "validate_obligations i (x # xs) =
     (case obligation_problem x of
        Some c \<Rightarrow> Inl (i, c)
      | None \<Rightarrow> map_sum id (\<lambda>rest. (the (ro_asset (the x)), the (ro_amount (the x))) # rest) (validate_obligations (Suc i) xs))"

definition balance_problem :: "(string \<times> int \<times> int) list \<Rightarrow> raw_balance option \<Rightarrow> funding_code option" where
  "balance_problem seen x =
     (case x of
        None \<Rightarrow> Some BalanceInvalid
      | Some b \<Rightarrow>
          if rb_asset b = None \<or> rb_asset b = Some [] then Some AssetRequired
          else if map_of seen (the (rb_asset b)) \<noteq> None then Some BalanceDuplicate
          else (case rb_available b of
              None \<Rightarrow> Some BalanceInvalid
            | Some available \<Rightarrow>
                if available < 0 then Some BalanceInvalid
                else (case (case rb_reserved b of None \<Rightarrow> Some 0 | Some r \<Rightarrow> r) of
                    None \<Rightarrow> Some BalanceInvalid
                  | Some reserved \<Rightarrow>
                      if reserved < 0 then Some BalanceInvalid
                      else if available < reserved then Some BalanceOverreserved
                      else None)))"

text \<open>What is kept of a balance: its available and its reserved amount, by its asset\<close>

fun build_balance_map ::
  "nat \<Rightarrow> (string \<times> int \<times> int) list \<Rightarrow> raw_balance option list \<Rightarrow> (funding_error, (string \<times> int \<times> int) list) result" where
  "build_balance_map i m [] = Inr m"
| "build_balance_map i m (x # xs) =
     (case balance_problem m x of
        Some c \<Rightarrow> Inl (i, c)
      | None \<Rightarrow>
          let b = the x
          in build_balance_map (Suc i)
               (AList.update (the (rb_asset b))
                  (the (rb_available b), case rb_reserved b of None \<Rightarrow> 0 | Some r \<Rightarrow> the r) m) xs)"

section \<open>The report\<close>

definition add_obligation :: "string \<times> int \<Rightarrow> (string \<times> int) list \<Rightarrow> (string \<times> int) list" where
  "add_obligation o' m =
     AList.update (fst o') ((case map_of m (fst o') of None \<Rightarrow> 0 | Some n \<Rightarrow> n) + snd o') m"

definition group_obligations_by_asset :: "raw_obligation option list \<Rightarrow> (funding_error, (string \<times> int) list) result" where
  "group_obligations_by_asset raw =
     map_sum id (\<lambda>os. fold add_obligation os []) (validate_obligations 0 raw)"

definition asset_entry :: "(string \<times> int) list \<Rightarrow> (string \<times> int \<times> int) list \<Rightarrow> (string \<times> int) list \<Rightarrow> string \<Rightarrow> asset_readiness" where
  "asset_entry grouped balances os a =
     (let required = (case map_of grouped a of None \<Rightarrow> 0 | Some n \<Rightarrow> n);
          available = (case map_of balances a of None \<Rightarrow> 0 | Some b \<Rightarrow> fst b);
          reserved = (case map_of balances a of None \<Rightarrow> 0 | Some b \<Rightarrow> snd b);
          unreserved = available - reserved;
          deficit = (if unreserved < required then required - unreserved else 0);
          surplus = (if required < unreserved then unreserved - required else 0)
      in \<lparr>ar_asset = a, ar_required = required, ar_available = available, ar_reserved = reserved, ar_unreserved = unreserved,
          ar_surplus = surplus, ar_deficit = deficit, ar_ready = (deficit = 0),
          ar_obligation_count = length (filter (\<lambda>o'. fst o' = a) os)\<rparr>)"

text \<open>A \<open>Set\<close> of the keys of both maps, in their order\<close>

definition asset_ids :: "(string \<times> int) list \<Rightarrow> (string \<times> int \<times> int) list \<Rightarrow> string list" where
  "asset_ids grouped balances = rev (remdups (rev (map fst grouped @ map fst balances)))"

definition build_report :: "(string \<times> int) list \<Rightarrow> (string \<times> int \<times> int) list \<Rightarrow> funding_report" where
  "build_report os balances =
     (let grouped = fold add_obligation os [];
          assets = sort_key ar_asset (map (asset_entry grouped balances os) (asset_ids grouped balances));
          deficits = filter (\<lambda>e. \<not> ar_ready e) assets
      in \<lparr>fr_ready = (deficits = []), fr_assets = assets, fr_deficits = deficits,
          fr_surplus_ids = map ar_asset (filter (\<lambda>e. 0 < ar_surplus e) assets)\<rparr>)"

definition check_funding_readiness ::
  "raw_obligation option list \<Rightarrow> raw_balance option list \<Rightarrow> (funding_error, funding_report) result" where
  "check_funding_readiness obligations balances =
     (case validate_obligations 0 obligations of
        Inl e \<Rightarrow> Inl e
      | Inr os \<Rightarrow>
          (case build_balance_map 0 [] balances of
             Inl e \<Rightarrow> Inl e
           | Inr m \<Rightarrow> Inr (build_report os m)))"

section \<open>What is checked\<close>

definition balance_ok :: "int \<times> int \<Rightarrow> bool" where
  "balance_ok b \<longleftrightarrow> 0 \<le> snd b \<and> snd b \<le> fst b"

lemma validated_obligations:
  "validate_obligations i raw = Inr os \<Longrightarrow> length os = length raw \<and> (\<forall>p \<in> set os. fst p \<noteq> [] \<and> 0 \<le> snd p)"
proof (induction raw arbitrary: i os)
  case (Cons x raw)
  then obtain rest where rest: "validate_obligations (Suc i) raw = Inr rest" "obligation_problem x = None"
    "os = (the (ro_asset (the x)), the (ro_amount (the x))) # rest"
    by (cases "validate_obligations (Suc i) raw") (auto split: option.splits)
  have "the (ro_asset (the x)) \<noteq> [] \<and> 0 \<le> the (ro_amount (the x))"
    using rest(2) by (auto simp: obligation_problem_def split: option.splits if_splits)
  then show ?case using Cons.IH [OF rest(1)] rest(3) by simp
qed simp

lemma balance_map_ok:
  "build_balance_map i m raw = Inr m' \<Longrightarrow> distinct (map fst m) \<Longrightarrow> (\<forall>p \<in> set m. balance_ok (snd p)) \<Longrightarrow>
     distinct (map fst m') \<and> (\<forall>p \<in> set m'. balance_ok (snd p))"
proof (induction raw arbitrary: i m)
  case (Cons x raw)
  then have none: "balance_problem m x = None" by (auto split: option.splits)
  let ?b = "the x"
  let ?v = "(the (rb_available ?b), case rb_reserved ?b of None \<Rightarrow> 0 | Some r \<Rightarrow> the r)"
  have "balance_ok ?v" using none by (auto simp: balance_problem_def balance_ok_def split: option.splits if_splits)
  moreover have "p \<in> set (AList.update k v m) \<Longrightarrow> p \<in> set m \<or> snd p = v" for k p and v :: "int \<times> int"
    by (induction m) (auto split: if_splits)
  ultimately have "\<forall>p \<in> set (AList.update (the (rb_asset ?b)) ?v m). balance_ok (snd p)" using Cons.prems(3) by metis
  moreover have "distinct (map fst (AList.update (the (rb_asset ?b)) ?v m))" using Cons.prems(2) by (rule distinct_update)
  moreover have "build_balance_map (Suc i) (AList.update (the (rb_asset ?b)) ?v m) raw = Inr m'"
    using Cons.prems(1) none by (simp add: Let_def)
  ultimately show ?case using Cons.IH by metis
qed simp

definition required_of :: "(string \<times> int) list \<Rightarrow> string \<Rightarrow> int" where
  "required_of os a = sum_list (map snd (filter (\<lambda>o'. fst o' = a) os))"

lemma grouped_obligations:
  "distinct (map fst (fold add_obligation os [])) \<and>
   map_of (fold add_obligation os []) = (\<lambda>a. if a \<in> fst ` set os then Some (required_of os a) else None)"
proof (induction os rule: rev_induct)
  case Nil
  then show ?case by (auto simp: fun_eq_iff)
next
  case (snoc x os)
  have none: "required_of os a = 0" if "a \<notin> fst ` set os" for a
  proof -
    have "filter (\<lambda>o'. fst o' = a) os = []" using that by (auto simp: filter_empty_conv)
    then show ?thesis by (simp add: required_of_def)
  qed
  have last: "required_of (os @ [x]) a = required_of os a + (if fst x = a then snd x else 0)" for a
    by (simp add: required_of_def)
  show ?case using snoc none by (auto simp: add_obligation_def distinct_update update_conv' fun_eq_iff last)
qed

lemma set_asset_ids: "set (asset_ids grouped balances) = fst ` set grouped \<union> fst ` set balances"
  and distinct_asset_ids: "distinct (asset_ids grouped balances)"
  by (auto simp: asset_ids_def)

lemma report_assets:
  "set (fr_assets (build_report os m)) =
     asset_entry (fold add_obligation os []) m os ` (fst ` set os \<union> fst ` set m)"
proof -
  have "fst ` set (fold add_obligation os []) = dom (map_of (fold add_obligation os []))" by (simp add: dom_map_of_conv_image_fst)
  also have "\<dots> = fst ` set os" using grouped_obligations [of os] by (force split: if_splits)
  finally show ?thesis by (simp add: build_report_def Let_def set_asset_ids)
qed

lemma entry_asset [simp]: "ar_asset (asset_entry g m os a) = a"
  by (simp add: asset_entry_def Let_def)

lemma report_sorted: "sorted (map ar_asset (fr_assets (build_report os m))) \<and> distinct (map ar_asset (fr_assets (build_report os m)))"
proof -
  let ?l = "map (asset_entry (fold add_obligation os []) m os) (asset_ids (fold add_obligation os []) m)"
  have "map ar_asset ?l = asset_ids (fold add_obligation os []) m" by (induction "asset_ids (fold add_obligation os []) m") (simp_all add: comp_def)
  then have "distinct (map ar_asset ?l)" by (simp add: distinct_asset_ids)
  moreover have "mset (map ar_asset (sort_key ar_asset ?l)) = mset (map ar_asset ?l)" by (metis mset_map mset_sort)
  ultimately have "distinct (map ar_asset (sort_key ar_asset ?l))" by (metis mset_eq_imp_distinct_iff)
  then show ?thesis by (simp add: build_report_def Let_def)
qed

text \<open>Of an asset no balance was given for, nothing is available.\<close>

definition unreserved_of :: "(string \<times> int \<times> int) list \<Rightarrow> string \<Rightarrow> int" where
  "unreserved_of m a = (case map_of m a of None \<Rightarrow> 0 | Some b \<Rightarrow> fst b - snd b)"

lemma entry_amounts:
  "ar_required (asset_entry (fold add_obligation os []) m os a) = required_of os a"
  "ar_unreserved (asset_entry g m os a) = unreserved_of m a"
proof -
  have "required_of os a = 0" if "a \<notin> fst ` set os"
  proof -
    have "filter (\<lambda>o'. fst o' = a) os = []" using that by (auto simp: filter_empty_conv)
    then show ?thesis by (simp add: required_of_def)
  qed
  then show "ar_required (asset_entry (fold add_obligation os []) m os a) = required_of os a"
    using grouped_obligations [of os] by (auto simp: asset_entry_def Let_def)
  show "ar_unreserved (asset_entry g m os a) = unreserved_of m a"
    by (simp add: asset_entry_def Let_def unreserved_of_def split: option.split)
qed

lemma entry_balance:
  "ar_surplus (asset_entry g m os a) - ar_deficit (asset_entry g m os a) = ar_unreserved (asset_entry g m os a) - ar_required (asset_entry g m os a)"
  "0 \<le> ar_surplus (asset_entry g m os a)" "0 \<le> ar_deficit (asset_entry g m os a)"
  "ar_surplus (asset_entry g m os a) = 0 \<or> ar_deficit (asset_entry g m os a) = 0"
  "ar_ready (asset_entry g m os a) \<longleftrightarrow> ar_required (asset_entry g m os a) \<le> ar_unreserved (asset_entry g m os a)"
  by (auto simp: asset_entry_def Let_def)

lemma unreserved_nonneg: "\<forall>p \<in> set m. balance_ok (snd p) \<Longrightarrow> 0 \<le> unreserved_of m a"
  by (auto simp: unreserved_of_def balance_ok_def dest!: map_of_SomeD split: option.split)

text \<open>
  C25: a report is ready exactly if of every single asset no more is owed than is available and not reserved, so that no
  surplus of one asset makes up for what another lacks. It lists each asset that is owed or held once, sorted, and for each
  the surplus less the deficit is what is free less what is owed, with one of both zero.
\<close>

theorem ready_iff_each_asset_covered:
  assumes "check_funding_readiness obligations balances = Inr report"
    and "validate_obligations 0 obligations = Inr os" "build_balance_map 0 [] balances = Inr m"
  shows "(fr_ready report \<longleftrightarrow> (\<forall>a. required_of os a \<le> unreserved_of m a)) \<and>
    ar_asset ` set (fr_assets report) = fst ` set os \<union> fst ` set m \<and>
    sorted (map ar_asset (fr_assets report)) \<and> distinct (map ar_asset (fr_assets report)) \<and>
    (\<forall>e \<in> set (fr_assets report). ar_surplus e - ar_deficit e = unreserved_of m (ar_asset e) - required_of os (ar_asset e) \<and>
      0 \<le> ar_surplus e \<and> 0 \<le> ar_deficit e \<and> (ar_surplus e = 0 \<or> ar_deficit e = 0))"
proof -
  have report: "report = build_report os m" using assms by (simp add: check_funding_readiness_def)
  have nonneg: "0 \<le> unreserved_of m a" for a using balance_map_ok [OF assms(3)] by (simp add: unreserved_nonneg)
  let ?e = "asset_entry (fold add_obligation os []) m os" and ?A = "fst ` set os \<union> fst ` set m"
  have other: "required_of os a = 0" if "a \<notin> ?A" for a
  proof -
    have "filter (\<lambda>o'. fst o' = a) os = []" using that by (auto simp: filter_empty_conv)
    then show ?thesis by (simp add: required_of_def)
  qed
  have "fr_ready report \<longleftrightarrow> (\<forall>e \<in> set (fr_assets report). ar_ready e)"
    by (simp add: report build_report_def Let_def filter_empty_conv)
  also have "\<dots> \<longleftrightarrow> (\<forall>a \<in> ?A. required_of os a \<le> unreserved_of m a)"
    by (simp add: report report_assets entry_balance(5) entry_amounts)
  also have "\<dots> \<longleftrightarrow> (\<forall>a. required_of os a \<le> unreserved_of m a)" using other nonneg by (metis order_refl)
  finally have ready: "fr_ready report \<longleftrightarrow> (\<forall>a. required_of os a \<le> unreserved_of m a)" .
  have "ar_surplus e - ar_deficit e = unreserved_of m (ar_asset e) - required_of os (ar_asset e) \<and>
      0 \<le> ar_surplus e \<and> 0 \<le> ar_deficit e \<and> (ar_surplus e = 0 \<or> ar_deficit e = 0)" if e: "e \<in> set (fr_assets report)" for e
  proof -
    obtain a where a: "e = ?e a" using e by (auto simp: report report_assets)
    show ?thesis using entry_balance(1-4) [of "fold add_obligation os []" m os a] by (simp add: a entry_amounts)
  qed
  then show ?thesis
    using ready report_sorted [of os m] by (simp add: report report_assets image_image)
qed

theorem ready_iff_each_asset_covered_witness:
  "\<exists>report. check_funding_readiness [Some \<lparr>ro_asset = Some ''native'', ro_amount = Some 10\<rparr>]
      [Some \<lparr>rb_asset = Some ''native'', rb_available = Some 15, rb_reserved = Some (Some 5)\<rparr>] = Inr report \<and> fr_ready report"
proof -
  let ?os = "[(''native'', 10 :: int)]" and ?m = "[(''native'', 15 :: int, 5 :: int)]"
  let ?obligations = "[Some \<lparr>ro_asset = Some ''native'', ro_amount = Some 10\<rparr>]"
    and ?balances = "[Some \<lparr>rb_asset = Some ''native'', rb_available = Some 15, rb_reserved = Some (Some 5)\<rparr>]"
  have os: "validate_obligations 0 ?obligations = Inr ?os" by (simp add: obligation_problem_def)
  have m: "build_balance_map 0 [] ?balances = Inr ?m" by (simp add: balance_problem_def)
  have "check_funding_readiness ?obligations ?balances = Inr (build_report ?os ?m)" by (simp only: check_funding_readiness_def os m sum.case)
  moreover have "\<forall>a. required_of ?os a \<le> unreserved_of ?m a" by (simp add: required_of_def unreserved_of_def)
  ultimately show ?thesis using ready_iff_each_asset_covered [OF _ os m, of "build_report ?os ?m"] by blast
qed

end
