(* ===== verification/ArchiveQueries.thy ===== *)
theory ArchiveQueries
  imports Digits
begin

text \<open>
  The builder of queries for archived payroll data (\<open>archived/ArchiveFilterBuilder.ts\<close>): its state, its operations and the
  parameters of the query it builds.
\<close>

section \<open>The builder\<close>

datatype archive_status = ArchiveCompleted | ArchiveFailed

record archive_pagination =
  ap_page_size :: "int option"
  ap_cursor :: "string option"

text \<open>A \<open>Set\<close> is the list of its elements in the order they were added.\<close>

record archive_builder =
  ab_employee_ids :: "string list"
  ab_assets :: "string list"
  ab_period_start :: "string option"
  ab_period_end :: "string option"
  ab_status :: "archive_status option"
  ab_min_amount :: "int option"
  ab_max_amount :: "int option"
  ab_pagination :: "archive_pagination option"

datatype archive_error = MinAmountNegative int | MaxBelowMin int int

definition new_builder :: archive_builder where
  "new_builder = \<lparr>ab_employee_ids = [], ab_assets = [], ab_period_start = None, ab_period_end = None, ab_status = None,
     ab_min_amount = None, ab_max_amount = None, ab_pagination = None\<rparr>"

definition set_add :: "string \<Rightarrow> string list \<Rightarrow> string list" where
  "set_add x xs = (if x \<in> set xs then xs else xs @ [x])"

definition for_period :: "string \<Rightarrow> string \<Rightarrow> archive_builder \<Rightarrow> archive_builder" where
  "for_period start finish b = b\<lparr>ab_period_start := Some start, ab_period_end := Some finish\<rparr>"

definition for_employee :: "string \<Rightarrow> archive_builder \<Rightarrow> archive_builder" where
  "for_employee i b = b\<lparr>ab_employee_ids := set_add i (ab_employee_ids b)\<rparr>"

definition for_employees :: "string list \<Rightarrow> archive_builder \<Rightarrow> archive_builder" where
  "for_employees ids b = fold for_employee ids b"

definition with_asset :: "string \<Rightarrow> archive_builder \<Rightarrow> archive_builder" where
  "with_asset a b = b\<lparr>ab_assets := set_add a (ab_assets b)\<rparr>"

definition with_assets :: "string list \<Rightarrow> archive_builder \<Rightarrow> archive_builder" where
  "with_assets as b = fold with_asset as b"

definition with_status :: "archive_status \<Rightarrow> archive_builder \<Rightarrow> archive_builder" where
  "with_status s b = b\<lparr>ab_status := Some s\<rparr>"

definition with_min_amount :: "int \<Rightarrow> archive_builder \<Rightarrow> (archive_error, archive_builder) result" where
  "with_min_amount n b = (if n < 0 then Inl (MinAmountNegative n) else Inr (b\<lparr>ab_min_amount := Some n\<rparr>))"

definition with_max_amount :: "int \<Rightarrow> archive_builder \<Rightarrow> (archive_error, archive_builder) result" where
  "with_max_amount n b =
     (case ab_min_amount b of
        Some m \<Rightarrow> if n < m then Inl (MaxBelowMin n m) else Inr (b\<lparr>ab_max_amount := Some n\<rparr>)
      | None \<Rightarrow> Inr (b\<lparr>ab_max_amount := Some n\<rparr>))"

definition paginate :: "archive_pagination \<Rightarrow> archive_builder \<Rightarrow> archive_builder" where
  "paginate p b = b\<lparr>ab_pagination := Some p\<rparr>"

definition reset_builder :: "archive_builder \<Rightarrow> archive_builder" where
  "reset_builder b = b\<lparr>ab_employee_ids := [], ab_assets := [], ab_period_start := None, ab_period_end := None, ab_status := None,
     ab_min_amount := None, ab_max_amount := None, ab_pagination := None\<rparr>"

section \<open>The query\<close>

record archive_snapshot =
  qs_employee_ids :: "string list"
  qs_assets :: "string list"
  qs_period_start :: "string option"
  qs_period_end :: "string option"
  qs_status :: "archive_status option"
  qs_min_amount :: "int option"
  qs_max_amount :: "int option"
  qs_page_size :: "int option"
  qs_cursor :: "string option"

definition build_snapshot :: "archive_builder \<Rightarrow> archive_snapshot" where
  "build_snapshot b =
     \<lparr>qs_employee_ids = ab_employee_ids b, qs_assets = ab_assets b, qs_period_start = ab_period_start b,
      qs_period_end = ab_period_end b, qs_status = ab_status b, qs_min_amount = ab_min_amount b, qs_max_amount = ab_max_amount b,
      qs_page_size = (case ab_pagination b of None \<Rightarrow> None | Some p \<Rightarrow> ap_page_size p),
      qs_cursor = (case ab_pagination b of None \<Rightarrow> None | Some p \<Rightarrow> ap_cursor p)\<rparr>"

fun status_text :: "archive_status \<Rightarrow> string" where
  "status_text ArchiveCompleted = ''completed''"
| "status_text ArchiveFailed = ''failed''"

fun comma_joined :: "string list \<Rightarrow> string" where
  "comma_joined [] = []"
| "comma_joined [s] = s"
| "comma_joined (s # t # ts) = s @ CHR '','' # comma_joined (t # ts)"

definition parameter :: "string \<Rightarrow> string option \<Rightarrow> (string \<times> string) list" where
  "parameter k v = (case v of None \<Rightarrow> [] | Some t \<Rightarrow> [(k, t)])"

definition to_params :: "archive_snapshot \<Rightarrow> (string \<times> string) list" where
  "to_params q =
     parameter ''employeeIds'' (if qs_employee_ids q = [] then None else Some (comma_joined (qs_employee_ids q))) @
     parameter ''assets'' (if qs_assets q = [] then None else Some (comma_joined (qs_assets q))) @
     parameter ''periodStart'' (qs_period_start q) @ parameter ''periodEnd'' (qs_period_end q) @
     parameter ''status'' (map_option status_text (qs_status q)) @
     parameter ''minAmount'' (map_option int_string (qs_min_amount q)) @
     parameter ''maxAmount'' (map_option int_string (qs_max_amount q)) @
     parameter ''pageSize'' (map_option int_string (qs_page_size q)) @ parameter ''cursor'' (qs_cursor q)"

definition build_query :: "archive_builder \<Rightarrow> (string \<times> string) list" where
  "build_query b = to_params (build_snapshot b)"

section \<open>Histories of a builder\<close>

inductive built :: "archive_builder \<Rightarrow> bool" where
  new: "built new_builder"
| period: "built b \<Longrightarrow> built (for_period s e b)"
| employee: "built b \<Longrightarrow> built (for_employee i b)"
| asset: "built b \<Longrightarrow> built (with_asset a b)"
| status: "built b \<Longrightarrow> built (with_status s b)"
| min_amount: "built b \<Longrightarrow> with_min_amount n b = Inr b' \<Longrightarrow> built b'"
| max_amount: "built b \<Longrightarrow> with_max_amount n b = Inr b' \<Longrightarrow> built b'"
| pages: "built b \<Longrightarrow> built (paginate p b)"
| reset: "built b \<Longrightarrow> built (reset_builder b)"

lemma built_many: "built b \<Longrightarrow> built (for_employees ids b)" "built b \<Longrightarrow> built (with_assets as b)"
proof -
  show "built b \<Longrightarrow> built (for_employees ids b)" unfolding for_employees_def by (induction ids arbitrary: b) (auto intro: built.employee)
  show "built b \<Longrightarrow> built (with_assets as b)" unfolding with_assets_def by (induction as arbitrary: b) (auto intro: built.asset)
qed

text \<open>
  However a builder was used, no employee and no asset is in its query twice, its smallest amount is not negative, and its
  parameters have one value each, of which the reset builder has none.
\<close>

theorem built_queries:
  assumes "built b"
  shows "distinct (ab_employee_ids b) \<and> distinct (ab_assets b) \<and> (\<forall>m. ab_min_amount b = Some m \<longrightarrow> 0 \<le> m)"
  using assms
  by induction (auto simp: new_builder_def for_period_def for_employee_def with_asset_def with_status_def with_min_amount_def
      with_max_amount_def paginate_def reset_builder_def set_add_def split: if_splits option.splits)

lemma parameter_names: "map fst (parameter k v) = (case v of None \<Rightarrow> [] | Some t \<Rightarrow> [k])"
  by (simp add: parameter_def split: option.split)

theorem parameters_distinct: "distinct (map fst (build_query b))"
  by (auto simp: build_query_def to_params_def parameter_names split: option.split)

theorem reset_is_new: "reset_builder b = new_builder" "build_query new_builder = []"
proof -
  show "reset_builder b = new_builder" by (cases b) (simp add: reset_builder_def new_builder_def)
  show "build_query new_builder = []"
    by (simp add: build_query_def build_snapshot_def new_builder_def to_params_def parameter_def)
qed

text \<open>The bounds are compared only where the largest amount is set last: set the other way round they may be of an empty range.\<close>

theorem empty_range_accepted:
  assumes "0 \<le> m" "n < m" "ab_min_amount b = None"
  shows "\<exists>b1 b2. with_max_amount n b = Inr b1 \<and> with_min_amount m b1 = Inr b2 \<and>
      ab_min_amount b2 = Some m \<and> ab_max_amount b2 = Some n"
    "\<exists>b1. with_min_amount m b = Inr b1 \<and> with_max_amount n b1 = Inl (MaxBelowMin n m)"
  using assms by (simp_all add: with_max_amount_def with_min_amount_def)

text \<open>Ids are joined by commas and not escaped: two ids and one with a comma give the same query.\<close>

theorem comma_in_id_is_two_ids:
  "build_query (for_employee ''a,b'' new_builder) = build_query (for_employees [''a'', ''b''] new_builder)"
  by (simp add: build_query_def build_snapshot_def for_employee_def for_employees_def new_builder_def set_add_def to_params_def
      parameter_def)

end
