(* ===== verification/EnvironmentChecks.thy ===== *)
theory EnvironmentChecks
  imports TransactionFailures
begin

text \<open>
  The environment of a client (\<open>sanity.ts\<close>) and the onboarding of an employer, which rests on it
  (\<open>employer-readiness.ts\<close>). What the network, the platform's \<open>URL\<close> and the checks of Stellar keys answer is a
  parameter; messages and details are left out.
\<close>

section \<open>The world outside\<close>

text \<open>A simulated call: it is done, it fails with a message, or the attempt throws.\<close>

datatype simulation_answer = SimulationDone | SimulationError string | SimulationThrows

text \<open>An error has a message if it is an \<open>Error\<close>, and maybe an HTTP status.\<close>

datatype account_answer = AccountFound | AccountError "string option" "int option"

record outside_world =
  ow_url_protocol :: "string \<Rightarrow> string option"
  ow_contract_key :: "string \<Rightarrow> bool"
  ow_public_key :: "string \<Rightarrow> bool"
  ow_network_answers :: "string \<Rightarrow> bool"
  ow_network_answers_again :: "string \<Rightarrow> bool"
  ow_simulation :: "string \<Rightarrow> simulation_answer"
  ow_reachable :: "string \<Rightarrow> bool"
  ow_account :: "string \<Rightarrow> account_answer"

section \<open>Diagnostics\<close>

datatype diagnostic_component = RpcComponent | ContractComponent | ArtifactsComponent

datatype diagnostic_status = DiagnosticSuccess | DiagnosticWarning | DiagnosticError

type_synonym diagnostic = "diagnostic_component \<times> diagnostic_status"

record client_settings =
  cs_network_url :: "string option"
  cs_contract_id :: "string option"

record proof_settings =
  ps_wasm_url :: "string option"
  ps_zkey_url :: "string option"

definition missing_text :: "string option \<Rightarrow> bool" where
  "missing_text s \<longleftrightarrow> s = None \<or> s = Some []"

definition rpc_diagnostic :: "outside_world \<Rightarrow> client_settings \<Rightarrow> diagnostic" where
  "rpc_diagnostic w c =
     (if missing_text (cs_network_url c) then (RpcComponent, DiagnosticError)
      else if ow_url_protocol w (the (cs_network_url c)) \<noteq> None \<and> ow_network_answers w (the (cs_network_url c))
      then (RpcComponent, DiagnosticSuccess)
      else (RpcComponent, DiagnosticError))"

text \<open>An error that names the contract as missing is one; any other shows that the contract is there.\<close>

definition deployment_diagnostic :: "outside_world \<Rightarrow> string \<Rightarrow> string \<Rightarrow> diagnostic" where
  "deployment_diagnostic w url contract =
     (if \<not> ow_network_answers_again w url then (ContractComponent, DiagnosticError)
      else (case ow_simulation w contract of
          SimulationThrows \<Rightarrow> (ContractComponent, DiagnosticError)
        | SimulationDone \<Rightarrow> (ContractComponent, DiagnosticSuccess)
        | SimulationError msg \<Rightarrow>
            if mentions [''contract not found'', ''failed to load contract'', ''does not exist''] (js_lower msg)
            then (ContractComponent, DiagnosticError)
            else (ContractComponent, DiagnosticSuccess)))"

definition contract_diagnostics :: "outside_world \<Rightarrow> client_settings \<Rightarrow> bool \<Rightarrow> diagnostic list" where
  "contract_diagnostics w c rpc_valid =
     (if missing_text (cs_contract_id c) then [(ContractComponent, DiagnosticError)]
      else if \<not> ow_contract_key w (the (cs_contract_id c)) then [(ContractComponent, DiagnosticError)]
      else (ContractComponent, DiagnosticSuccess) #
        [if rpc_valid then deployment_diagnostic w (the (cs_network_url c)) (the (cs_contract_id c))
         else (ContractComponent, DiagnosticWarning)])"

definition artifact_diagnostic :: "outside_world \<Rightarrow> string option \<Rightarrow> diagnostic" where
  "artifact_diagnostic w url =
     (if missing_text url then (ArtifactsComponent, DiagnosticError)
      else if ow_url_protocol w (the url) \<noteq> None \<and> ow_reachable w (the url) then (ArtifactsComponent, DiagnosticSuccess)
      else (ArtifactsComponent, DiagnosticError))"

definition validate_environment :: "outside_world \<Rightarrow> client_settings \<Rightarrow> proof_settings option \<Rightarrow> bool \<times> diagnostic list" where
  "validate_environment w c proof =
     (let first = rpc_diagnostic w c;
          ds = first # contract_diagnostics w c (snd first = DiagnosticSuccess) @
            (case proof of None \<Rightarrow> []
             | Some p \<Rightarrow> [artifact_diagnostic w (ps_wasm_url p), artifact_diagnostic w (ps_zkey_url p)])
      in (\<not> list_ex (\<lambda>d. snd d = DiagnosticError) ds, ds))"

section \<open>Onboarding an employer\<close>

datatype readiness_status = EmployerReady | EmployerBlocked | EmployerUnavailable

datatype readiness_check =
  EmployerCheck | SignerCheck | ConfigurationCheck | RpcCheck | ContractCheck | AccountCheck

datatype readiness_code =
  InvalidEmployerAddress | InvalidPayrollConfiguration | EmployerSignerUnavailable | InvalidEmployerSigner
| EmployerSignerMismatch | RpcUnavailable | PayrollContractUnavailable | EmployerAccountNotFound | EmployerAccountUnverified
| EmployerAddressValid | EmployerSignerMatches | PayrollConfigurationValid | RpcAvailable | PayrollContractAvailable
| EmployerAccountExists

text \<open>The checks of a result that is not ready are the one that failed.\<close>

record readiness_result =
  er_status :: readiness_status
  er_can_proceed :: bool
  er_checks :: "(readiness_check \<times> readiness_code) list"

definition failed_check :: "readiness_status \<Rightarrow> readiness_check \<Rightarrow> readiness_code \<Rightarrow> readiness_result" where
  "failed_check s check code = \<lparr>er_status = s, er_can_proceed = (s = EmployerReady), er_checks = [(check, code)]\<rparr>"

definition all_passed :: readiness_result where
  "all_passed = \<lparr>er_status = EmployerReady, er_can_proceed = True,
     er_checks = [(EmployerCheck, EmployerAddressValid), (SignerCheck, EmployerSignerMatches),
       (ConfigurationCheck, PayrollConfigurationValid), (RpcCheck, RpcAvailable), (ContractCheck, PayrollContractAvailable),
       (AccountCheck, EmployerAccountExists)]\<rparr>"

definition is_valid_rpc_url :: "outside_world \<Rightarrow> string option \<Rightarrow> bool" where
  "is_valid_rpc_url w url =
     (case url of None \<Rightarrow> False
      | Some u \<Rightarrow> \<not> blank u \<and> (ow_url_protocol w u = Some ''http:'' \<or> ow_url_protocol w u = Some ''https:''))"

text \<open>\<open>/account.*(not found|does not exist)|could not find account/i\<close>, or the status 404\<close>

definition is_account_missing :: "string option \<Rightarrow> int option \<Rightarrow> bool" where
  "is_account_missing msg status \<longleftrightarrow>
     (case msg of None \<Rightarrow> False
      | Some s \<Rightarrow> let m = js_lower s in words_in_order [''account'', ''not found''] m \<or> words_in_order [''account'', ''does not exist''] m \<or>
          occurs_in ''could not find account'' m) \<or> status = Some 404"

fun first_of :: "diagnostic_component \<Rightarrow> diagnostic list \<Rightarrow> diagnostic_status option" where
  "first_of c [] = None"
| "first_of c (d # ds) = (if fst d = c then Some (snd d) else first_of c ds)"

text \<open>The signer gives its public key or throws.\<close>

definition check_employer_readiness ::
  "outside_world \<Rightarrow> client_settings \<Rightarrow> string \<Rightarrow> string option \<Rightarrow> readiness_result" where
  "check_employer_readiness w c employer signer =
     (if \<not> ow_public_key w employer then failed_check EmployerBlocked EmployerCheck InvalidEmployerAddress
      else if \<not> is_valid_rpc_url w (cs_network_url c) \<or> cs_contract_id c = None \<or> \<not> ow_contract_key w (the (cs_contract_id c))
      then failed_check EmployerBlocked ConfigurationCheck InvalidPayrollConfiguration
      else (case signer of
          None \<Rightarrow> failed_check EmployerBlocked SignerCheck EmployerSignerUnavailable
        | Some key \<Rightarrow>
            if \<not> ow_public_key w key then failed_check EmployerBlocked SignerCheck InvalidEmployerSigner
            else if key \<noteq> employer then failed_check EmployerBlocked SignerCheck EmployerSignerMismatch
            else
              let ds = snd (validate_environment w c None) in
              if first_of RpcComponent ds \<noteq> Some DiagnosticSuccess then failed_check EmployerUnavailable RpcCheck RpcUnavailable
              else if first_of ContractComponent ds \<noteq> Some DiagnosticSuccess
              then failed_check (if first_of ContractComponent ds = Some DiagnosticWarning then EmployerUnavailable else EmployerBlocked)
                ContractCheck PayrollContractUnavailable
              else (case ow_account w employer of
                  AccountFound \<Rightarrow> all_passed
                | AccountError msg status \<Rightarrow>
                    if is_account_missing msg status then failed_check EmployerBlocked AccountCheck EmployerAccountNotFound
                    else failed_check EmployerUnavailable AccountCheck EmployerAccountUnverified)))"

section \<open>What is checked\<close>

definition deployed :: "outside_world \<Rightarrow> string \<Rightarrow> bool" where
  "deployed w contract \<longleftrightarrow>
     (case ow_simulation w contract of SimulationDone \<Rightarrow> True | SimulationThrows \<Rightarrow> False
      | SimulationError msg \<Rightarrow> \<not> mentions [''contract not found'', ''failed to load contract'', ''does not exist''] (js_lower msg))"

text \<open>
  An environment is valid exactly if its network answers, both times it is asked, its contract has the form of one and is
  deployed, and both artifacts can be reached, if there is a configuration of proofs.
\<close>

theorem environment_valid_iff:
  "fst (validate_environment w c proof) \<longleftrightarrow>
     (\<exists>u k. cs_network_url c = Some u \<and> u \<noteq> [] \<and> cs_contract_id c = Some k \<and> k \<noteq> [] \<and>
        ow_url_protocol w u \<noteq> None \<and> ow_network_answers w u \<and> ow_network_answers_again w u \<and> ow_contract_key w k \<and> deployed w k) \<and>
     (\<forall>p. proof = Some p \<longrightarrow> snd (artifact_diagnostic w (ps_wasm_url p)) = DiagnosticSuccess \<and>
        snd (artifact_diagnostic w (ps_zkey_url p)) = DiagnosticSuccess)"
proof -
  have artifact: "snd (artifact_diagnostic w x) \<noteq> DiagnosticError \<longleftrightarrow> snd (artifact_diagnostic w x) = DiagnosticSuccess" for x
    by (simp add: artifact_diagnostic_def)
  have deployment: "snd (deployment_diagnostic w u k) = DiagnosticError \<longleftrightarrow> \<not> (ow_network_answers_again w u \<and> deployed w k)" for u k
    by (auto simp: deployment_diagnostic_def deployed_def split: simulation_answer.split)
  have rpc: "snd (rpc_diagnostic w c) = DiagnosticError \<longleftrightarrow>
      \<not> (\<exists>u. cs_network_url c = Some u \<and> u \<noteq> [] \<and> ow_url_protocol w u \<noteq> None \<and> ow_network_answers w u)"
    by (auto simp: rpc_diagnostic_def missing_text_def)
  have answer: "snd (rpc_diagnostic w c) = DiagnosticSuccess \<longleftrightarrow> snd (rpc_diagnostic w c) \<noteq> DiagnosticError"
    by (simp add: rpc_diagnostic_def)
  have contract: "list_ex (\<lambda>d. snd d = DiagnosticError) (contract_diagnostics w c True) \<longleftrightarrow>
      \<not> (\<exists>k. cs_contract_id c = Some k \<and> k \<noteq> [] \<and> ow_contract_key w k \<and> ow_network_answers_again w (the (cs_network_url c)) \<and> deployed w k)"
    by (auto simp: contract_diagnostics_def missing_text_def deployment)
  have proofs: "list_ex (\<lambda>d. snd d = DiagnosticError) (case proof of None \<Rightarrow> []
      | Some p \<Rightarrow> [artifact_diagnostic w (ps_wasm_url p), artifact_diagnostic w (ps_zkey_url p)]) \<longleftrightarrow>
      \<not> (\<forall>p. proof = Some p \<longrightarrow> snd (artifact_diagnostic w (ps_wasm_url p)) = DiagnosticSuccess \<and>
        snd (artifact_diagnostic w (ps_zkey_url p)) = DiagnosticSuccess)"
    using artifact by (auto split: option.split)
  show ?thesis
  proof (cases "snd (rpc_diagnostic w c) = DiagnosticError")
    case True
    then show ?thesis using rpc by (auto simp: validate_environment_def Let_def)
  next
    case False
    then have "snd (rpc_diagnostic w c) = DiagnosticSuccess" using answer by simp
    then show ?thesis using False rpc contract proofs by (auto simp: validate_environment_def Let_def)
  qed
qed

lemma first_contract: "first_of ContractComponent (snd (validate_environment w c proof)) = Some (snd (hd (contract_diagnostics w c
    (snd (rpc_diagnostic w c) = DiagnosticSuccess))))"
  by (auto simp: validate_environment_def Let_def contract_diagnostics_def rpc_diagnostic_def)

lemma first_rpc: "first_of RpcComponent (snd (validate_environment w c proof)) = Some (snd (rpc_diagnostic w c))"
  by (auto simp: validate_environment_def Let_def rpc_diagnostic_def)

text \<open>
  An employer is ready exactly if the address is a public key, the endpoint is an HTTP one that answers, the contract's
  id has the form of one, the signer's key is that address and its account exists. Whether the contract is deployed is
  not among it.
\<close>

theorem employer_ready_iff:
  "er_can_proceed (check_employer_readiness w c employer signer) \<longleftrightarrow>
     ow_public_key w employer \<and> signer = Some employer \<and> is_valid_rpc_url w (cs_network_url c) \<and>
     ow_network_answers w (the (cs_network_url c)) \<and>
     (\<exists>k. cs_contract_id c = Some k \<and> ow_contract_key w k \<and> k \<noteq> []) \<and> ow_account w employer = AccountFound"
proof -
  have fail: "\<not> er_can_proceed (failed_check EmployerBlocked k d)" "\<not> er_can_proceed (failed_check EmployerUnavailable k d)" for k d
    by (simp_all add: failed_check_def)
  have rpc: "snd (rpc_diagnostic w c) = DiagnosticSuccess \<longleftrightarrow> ow_network_answers w (the (cs_network_url c))"
    if "is_valid_rpc_url w (cs_network_url c)"
    using that by (auto simp: is_valid_rpc_url_def rpc_diagnostic_def missing_text_def split: option.splits)
  have contract: "snd (hd (contract_diagnostics w c b)) = DiagnosticSuccess \<longleftrightarrow>
      (\<exists>k. cs_contract_id c = Some k \<and> ow_contract_key w k \<and> k \<noteq> [])" for b
    by (auto simp: contract_diagnostics_def missing_text_def)
  show ?thesis
    using rpc contract
    by (auto simp: check_employer_readiness_def Let_def first_contract first_rpc fail all_passed_def
        split: option.splits account_answer.splits if_splits)
qed

text \<open>
  The diagnostic of the contract that is looked at is the first, which is about the form of its id; that the contract was
  not found comes after it. So the environment is invalid, and the employer is told that the contract is available.
\<close>

theorem missing_contract_is_available:
  assumes "ow_simulation w k = SimulationError ''Contract not found''" "cs_contract_id c = Some k"
    and "er_can_proceed (check_employer_readiness w c employer signer)"
  shows "\<not> fst (validate_environment w c proof)"
    "(ContractCheck, PayrollContractAvailable) \<in> set (er_checks (check_employer_readiness w c employer signer))"
proof -
  have "mentions [''contract not found'', ''failed to load contract'', ''does not exist''] (js_lower ''Contract not found'')"
    by code_simp
  then have "\<not> deployed w k" using assms(1) by (simp add: deployed_def)
  then show "\<not> fst (validate_environment w c proof)" using assms(2) by (auto simp: environment_valid_iff)
  have "er_can_proceed r \<Longrightarrow> r = check_employer_readiness w c employer signer \<Longrightarrow> r = all_passed" for r
    by (auto simp: check_employer_readiness_def Let_def failed_check_def split: option.splits account_answer.splits if_splits)
  then show "(ContractCheck, PayrollContractAvailable) \<in> set (er_checks (check_employer_readiness w c employer signer))"
    using assms(3) by (simp add: all_passed_def)
qed

end
