(* ===== verification/Spec2Isabelle.thy ===== *)
theory Spec2Isabelle
  imports AmountRounding PayloadSerialization QuorumSessions WalletRotation PaginationGuards ConfirmationNonce Semaphore
    IndexerProperties ClusterProperties RoleDelegation Preflight Caching Reconciliation TreasuryReservations
    Eligibility DraftApprovals Polling ProofArtifacts PayrollService Receipts LifecycleGates AmountLimits Webhooks
    EncryptedDrafts ApprovalTimes OfflineDrafts SetupChecklist RoleMatrix RecordPages PayrollSchedules PayerAccount
    TimeLabels OperationResults AccessRequests PendingObligations ImportResults AmountNormalization AuditEvents
    TransactionFailures FeeCeiling BatchFailures SettlementReceipts FundingReadiness ArchiveQueries EnvironmentChecks
begin

text \<open>
  A model of the core of the payroll SDK, \<open>packages/core/src\<close>, and the theorems that make it correct. The SDK prepares
  private payrolls for a Stellar network: it parses and rounds amounts of assets, checks who is to be paid and under which
  policy, divides a payroll into batches, has proofs made, submits payments with retries, follows the contract's events,
  and reconciles and documents what was paid. What leaves the process (the ledger, snarkjs, the wallet extensions, storage)
  is an argument of the definitions that use it.

  \<^bold>\<open>How the code is modelled.\<close> Every operation is a function of its state and arguments to the new state and a result; a
  thrown error is the left side of a sum (\<open>result\<close>, in Prelude). A \<open>Map\<close> or object that is iterated is an association
  list in insertion order (\<open>dict\<close>). Asynchronous code is a sequence of steps between its awaits: the systems of
  Systems (a step relation with labels) where calls interleave, a function with the answers of its environment as
  arguments where one call runs alone. A \<open>number\<close> is an integer, with a constructor beside it where the code meets values
  that are none (\<open>jsnum\<close> in Prelude, \<open>epoch\<close> in Receipts); a \<open>bigint\<close> is an integer; bytes and code units of the wire
  formats are words of 8 and 16 bits. Strings are lists of characters of one byte, except on the wire.

  \<^bold>\<open>Shared theories.\<close> Prelude: results, numbers, strings, dictionaries, and the interfaces \<open>keyed_store\<close>,
  \<open>fallible_machine\<close> and \<open>monotone_machine\<close>. Digits: numbers as text. Systems: reachability, and the interfaces
  \<open>inductive_invariant\<close> and \<open>simulation\<close>.

  \<^bold>\<open>Amounts and assets.\<close> Assets (\<open>assets/types.ts\<close>, \<open>AssetRegistry.ts\<close>, \<open>decimals.ts\<close>): the registry and its invariant.
  AmountParsing (\<open>amountParsing.ts\<close>): what value a text has. AmountRounding (\<open>amountRounding.ts\<close>): the four rules as
  instances of one interface, and that parsing and rounding agree. Policy (\<open>assetIdentity.ts\<close>, \<open>policy/compiler.ts\<close>):
  canonical identities, and coherence of a compiled policy.

  \<^bold>\<open>Wire formats.\<close> Utf8, BinaryCodec (\<open>serialization/BinaryWriter.ts\<close>, \<open>BinaryReader.ts\<close>): every pair of writer and
  reader is an instance of \<open>codec\<close>. PayloadSerialization: proofs, commitments and payroll commands, round trips with
  arbitrary bytes after them, all errors of truncated input.

  \<^bold>\<open>Authority.\<close> SignerCoordination and QuorumSessions (\<open>authorization/MultiSignerCoordinator.ts\<close>,
  \<open>sessions/QuorumSessionManager.ts\<close>): approvals are signed, packages carry the quorum, a session that was consumed stays
  so. RoleDelegation (\<open>roleTransfer.ts\<close>, \<open>delegatedApprover.ts\<close>): which histories a transfer can have. ConfirmationNonce
  (\<open>core/executionConfirmationNonce.ts\<close>). WalletRotation (\<open>employees/walletRotation.ts\<close>). DraftApprovals
  (\<open>batches/diff.ts\<close>, \<open>signing/invalidationAnalyzer.ts\<close>): which changes of a draft keep its approvals.

  \<^bold>\<open>Paying.\<close> Eligibility (\<open>eligibility/\<close>), Preflight (\<open>proof-readiness/checker.ts\<close>, \<open>planner/\<close>) and TreasuryReservations
  (\<open>reservations/helpers.ts\<close>, \<open>treasury/readiness.ts\<close>): who is paid, whether a run may start, what it has reserved.
  BatchPages and ResumeToken (\<open>batch/paginate.ts\<close>, \<open>payroll/batchResumeToken.ts\<close>), Retry (\<open>core/retry.ts\<close>,
  \<open>retry-budget.ts\<close>), BatchSubmission (\<open>payroll/safeBatchSubmitter.ts\<close>): a run confirms a prefix, a resumed run goes on
  behind it. Idempotency (\<open>core/idempotency.ts\<close>) and Semaphore (\<open>core/concurrency.ts\<close>) as systems of interleaved calls.
  PaymentGate (\<open>settlement/destination.ts\<close>, \<open>core/validation.ts\<close>, \<open>crypto/proofInputSanitizer.ts\<close>,
  \<open>batch/BatchPayloadBuilder.ts\<close>) and PayrollService (\<open>payroll.ts\<close>) compose them: what the network receives passed every
  gate, and with distinct keys a batch run pays nobody twice.
  JsonText (\<open>JSON.stringify\<close> and \<open>JSON.parse\<close>), PayrollDrafts, DraftProperties, EncryptedDrafts (\<open>draft/\<close>): the builder, what
  its errors say, and the way of a draft through text, checksum and encryption and back.
  AmountLimits (\<open>payroll/minimumAmount.ts\<close>, \<open>withholdingConfig.ts\<close>, \<open>payoutThresholdValidator.ts\<close>,
  \<open>payoutCountValidator.ts\<close>): the limits of amounts, and that their readers agree with AmountParsing. LifecycleGates
  (\<open>employees/suspensionPayoutEvaluator.ts\<close>, \<open>archive/\<close>, \<open>payroll/retryEligibility.ts\<close>,
  \<open>payrollPeriodReopenEligibility.ts\<close>): decisions outside the ordinary run, which never pay whom it pays.
  Webhooks (\<open>webhooks/verify.ts\<close>): the signature of the notifications a run sends, over the canonical text of JSON values.
  OfflineDrafts (\<open>validation/\<close>), ClientConfig (\<open>config.ts\<close>) and SetupChecklist (\<open>setup/\<close>): what is checked before anything is
  sent, of a draft and of the client, and that a checklist without a blocker means a client that can be built.
  ApprovalTimes (\<open>authorization/approvalTimestamps.ts\<close>, \<open>approvalExpiry.ts\<close>): the times of a request and of its signatures.
  RoleMatrix (\<open>roles/\<close>): what each role may do, and that the three ways to ask for it agree.
  Base64, RecordPages (\<open>pagination.ts\<close>): cursors, pages and the iterator that visits every record once.
  Calendar, PayrollSchedules (\<open>schedules/\<close>): the UTC calendar of the language, and periods, cutoffs and cycles over it.
  PayerAccount (\<open>treasury/payerAccountStatus.ts\<close>): whether the account that pays can, with a comparison the wrong way round.
  TimeLabels (\<open>utils/date.ts\<close>, \<open>payroll/timestamps.ts\<close>, \<open>audit/accessExpiry.ts\<close>): texts of times, and the steps between periods.
  Theory \<open>OperationResults\<close>: the run of an operation that returns its failure (\<open>core/operationResult.ts\<close>) as a protocol of events.
  Theory \<open>AccessRequests\<close>: the checks of an auditor asking for access (\<open>audit/auditAccessRequestSchema.ts\<close>).
  Theory \<open>PendingObligations\<close>: what a payer still owes, read against its reservations (\<open>obligations/pendingObligationsReader.ts\<close>).
  Theory \<open>ImportResults\<close>: the rows of an import in five groups, without their secrets (\<open>import/resultParser.ts\<close>).
  Theory \<open>AmountNormalization\<close>: amounts of any shape over the registry and the parser (\<open>assets/amountNormalization.ts\<close>).
  Theory \<open>AuditEvents\<close>: events of contracts, webhooks and dashboards in one shape, their filter and summary (\<open>audit/eventNormalizer.ts\<close>).
  Theory \<open>TransactionFailures\<close>: the classes of failed transactions (\<open>classification/TransactionFailureClassifier.ts\<close>) and of the errors of reservations, compared with those the retry loop goes by.
  Theory \<open>FeeCeiling\<close>: the limit of a fee before a transaction is signed (\<open>fee-estimation/feeCeiling.ts\<close>).
  Theory \<open>BatchFailures\<close>: batches of which some items failed (\<open>batch/partialBatchFailureParser.ts\<close>).
  Theory \<open>SettlementReceipts\<close>: the light check of a receipt (\<open>settlement/\<close>), which lets through what the full verifier does.
  Theory \<open>FundingReadiness\<close>: is there enough of every asset to pay (\<open>funding/readiness.ts\<close>)?
  Theory \<open>ArchiveQueries\<close>: the builder of queries for archived payrolls (\<open>archived/ArchiveFilterBuilder.ts\<close>) and its histories.
  Theory \<open>EnvironmentChecks\<close>: the environment of a client (\<open>sanity.ts\<close>) and the onboarding of an employer (\<open>employer-readiness.ts\<close>).

  \<^bold>\<open>Following and documenting.\<close> EventProcessing (\<open>indexer/IdempotentEventProcessor.ts\<close>): a stream read in overlapping
  pieces refines the log. ContractIndexer, IndexerProperties (\<open>indexer/ContractStateIndexer.ts\<close>), PaginationGuards
  (\<open>pagination-guardrails.ts\<close>), Polling (\<open>polling.ts\<close>), Caching (\<open>cache/\<close>, \<open>privacy/PrivacyBudgetTracker.ts\<close>),
  ProofArtifacts (\<open>artifacts/ProofArtifactLifecycleManager.ts\<close>). Reconciliation (\<open>reconciliation/\<close>): what a diff says of a
  run. CanonicalJson, Receipts (\<open>receipts/\<close>): a receipt is bound to its metadata, and found by its transaction.
  FuzzyNames, UnionFind, DuplicateClusters, ClusterProperties (\<open>import/\<close>): the reported clusters are the connected
  components of the rows that look alike.

  \<^bold>\<open>Termination and fuel.\<close> Loops over data are structural or have a measure. Three loops end only because of what their
  environment does and are functions of it: the disjoint sets (\<open>partial_function\<close>, defined on every reachable forest),
  the polling loops and the indexer's page loop (\<open>partial_function\<close> or fuel, shown to suffice under the code's own
  time-out or page budget). Retry and batch loops recurse on the attempts left.

  \<^bold>\<open>Hypotheses about other code.\<close> Digests are functions (\<open>sha256\<close>) and, where a theorem needs it, do not collide on the
  texts it names; checks of Stellar keys are predicates; clocks and random bytes are arguments.

  \<^bold>\<open>Not modelled.\<close> Clients and adapters that only call the Stellar SDK, a wallet, a worker or storage; parsers of XDR;
  error messages and user interface texts; redaction; benchmarks, examples and re-exports. Of the payment service the
  contract invocation is an argument; of receipts the asynchronous verification and the redacted copy are left out.
  Formatted texts, summaries for user interfaces, audit packages, dispute messages, estimates of fees, simulations and the
  parsing of event values are not modelled: they are tables of texts, floating point or values of the Stellar SDK.
\<close>

end
